(* ===== verification/Fcfn_Prelude.thy ===== *)
theory Fcfn_Prelude
  imports Main "HOL-Library.Word" "HOL-Library.List_Lexorder" "HOL-Library.Char_ord"
    "HOL-Library.Multiset" "HOL-Library.Product_Lexorder"
begin

section \<open>Prelude: machine integers, standard-library operations, masks\<close>

text \<open>
  Shared vocabulary of the development. It holds the machine integer types at their C++
  width, the standard-library operations the sources use (stable sort, \<open>unique\<close>,
  \<open>lower_bound\<close>, \<open>binary_search\<close>), the byte masks (\<open>std::vector<std::uint8_t>\<close>
  used as sets of node indices), the collections of rewrite rules the component theories
  extend, and generic lemmas on lists and masks.
\<close>

type_synonym byte = "8 word"
type_synonym u8 = "8 word"
type_synonym u16 = "16 word"
type_synonym u32 = "32 word"
type_synonym u64 = "64 word"

named_theorems codec_simps \<open>what a reader operation returns on the bytes its writer produced\<close>
named_theorems mask_simps \<open>reads and updates of byte masks\<close>
named_theorems wf_intros \<open>well-formedness of what an operation returns\<close>

subsection \<open>Results\<close>

text \<open>
  \<open>Result<T>\<close> carries either a classified failure (left) or a value (right); \<open>try\<close>
  is the early return of \<open>FCFN_TRY\<close> and of the \<open>if (!x.ok()) return x.status();\<close>
  idiom the sources use throughout.
\<close>

fun try_result :: "'e + 'a \<Rightarrow> ('a \<Rightarrow> 'e + 'b) \<Rightarrow> 'e + 'b" where
  "try_result (Inl e) f = Inl e"
| "try_result (Inr x) f = f x"

lemma try_result_Inr_iff:
  "try_result r f = Inr y \<longleftrightarrow> (\<exists>x. r = Inr x \<and> f x = Inr y)"
  by (cases r) auto

lemma try_result_cong [fundef_cong]:
  "r = r' \<Longrightarrow> (\<And>x. r' = Inr x \<Longrightarrow> f x = g x) \<Longrightarrow> try_result r f = try_result r' g"
  by (cases r') auto

definition is_ok :: "'e + 'a \<Rightarrow> bool" where
  "is_ok r = (case r of Inl _ \<Rightarrow> False | Inr _ \<Rightarrow> True)"

lemma is_ok_simps [simp]: "is_ok (Inl e) = False" "is_ok (Inr x) = True"
  by (simp_all add: is_ok_def)

lemma is_okE: "is_ok r \<Longrightarrow> (\<And>x. r = Inr x \<Longrightarrow> P) \<Longrightarrow> P"
  by (cases r) auto

subsection \<open>Standard-library operations on vectors\<close>

text \<open>
  \<open>std::sort\<close> on a key is modelled by the stable \<open>sort_key\<close>: the sources sort by
  resource identity and refuse equal keys, so the order the standard leaves open is never
  observed in a value that is accepted. \<open>std::unique\<close> on a sorted range is
  \<open>remdups_adj\<close>. \<open>lower_bound\<close> returns the first position whose element is not
  below the key, and \<open>binary_search\<close> compares the element found there.
\<close>

definition std_lower_bound :: "('a \<Rightarrow> 'k::linorder) \<Rightarrow> 'a list \<Rightarrow> 'k \<Rightarrow> nat" where
  "std_lower_bound key xs k = length (takeWhile (\<lambda>x. key x < k) xs)"

definition std_binary_search :: "'a::linorder list \<Rightarrow> 'a \<Rightarrow> bool" where
  "std_binary_search xs x =
     (let i = std_lower_bound id xs x in i < length xs \<and> \<not> x < xs ! i)"

lemma std_lower_bound_le: "std_lower_bound key xs k \<le> length xs"
  by (simp add: std_lower_bound_def length_takeWhile_le)

lemma std_lower_bound_sorted:
  assumes "sorted (map key xs)" and "i < std_lower_bound key xs k"
  shows "key (xs ! i) < k"
  using assms(2) unfolding std_lower_bound_def
  by (metis nth_mem set_takeWhileD takeWhile_nth)

lemma std_lower_bound_at:
  assumes "std_lower_bound key xs k < length xs"
  shows "\<not> key (xs ! std_lower_bound key xs k) < k"
  using assms unfolding std_lower_bound_def by (rule nth_length_takeWhile)

lemma std_lower_bound_ge:
  assumes "sorted (map key xs)" and "std_lower_bound key xs k \<le> i" and "i < length xs"
  shows "k \<le> key (xs ! i)"
proof -
  let ?b = "std_lower_bound key xs k"
  have b: "?b < length xs" using assms by simp
  have "\<not> key (xs ! ?b) < k" using b by (rule std_lower_bound_at)
  moreover have "key (xs ! ?b) \<le> key (xs ! i)"
    using assms b by (auto simp: sorted_iff_nth_mono)
  ultimately show ?thesis by simp
qed

lemma std_binary_search_sorted:
  assumes "sorted xs"
  shows "std_binary_search xs x \<longleftrightarrow> x \<in> set xs"
proof
  assume bs: "std_binary_search xs x"
  let ?b = "std_lower_bound id xs x"
  have b: "?b < length xs" "\<not> x < xs ! ?b" using bs by (auto simp: std_binary_search_def Let_def)
  have "\<not> xs ! ?b < x" using std_lower_bound_at [of id xs x] b(1) by simp
  with b have "x = xs ! ?b" by simp
  then show "x \<in> set xs" using b(1) nth_mem by metis
next
  assume "x \<in> set xs"
  then obtain i where i: "i < length xs" "xs ! i = x" by (auto simp: in_set_conv_nth)
  let ?b = "std_lower_bound id xs x"
  have "\<not> i < ?b" using std_lower_bound_sorted [of id xs i x] assms i by auto
  then have b: "?b < length xs" and le: "?b \<le> i" using i(1) by simp_all
  have "xs ! ?b \<le> xs ! i" using assms le i(1) by (simp add: sorted_iff_nth_mono)
  then have "\<not> x < xs ! ?b" using i(2) by simp
  with b show "std_binary_search xs x" by (simp add: std_binary_search_def Let_def)
qed

lemma remdups_adj_sorted_distinct: "sorted xs \<Longrightarrow> distinct (remdups_adj xs)"
  by (induction xs rule: remdups_adj.induct) (auto simp: remdups_adj_set)

lemma sorted_remdups_adj [simp]: "sorted xs \<Longrightarrow> sorted (remdups_adj xs)"
  by (induction xs rule: remdups_adj.induct) auto

subsection \<open>Byte masks\<close>

text \<open>
  A mask of \<open>n\<close> bytes marks a set of node indices. \<open>flag\<close> reads it as membership.
  \<open>marked\<close> is the read of a \<open>seen\<close> or \<open>blocked\<close> vector inside a traversal: an index
  outside the vector (undefined in C++, and excluded for every graph that a topology
  produces) counts as already visited, so a traversal is a total function.
\<close>

definition flag :: "bool list \<Rightarrow> nat \<Rightarrow> bool" where
  "flag m i \<longleftrightarrow> i < length m \<and> m ! i"

definition marked :: "bool list \<Rightarrow> nat \<Rightarrow> bool" where
  "marked m i \<longleftrightarrow> (i < length m \<longrightarrow> m ! i)"

definition mark :: "bool list \<Rightarrow> nat \<Rightarrow> bool list" where
  "mark m i = m[i := True]"

definition unmark :: "bool list \<Rightarrow> nat \<Rightarrow> bool list" where
  "unmark m i = m[i := False]"

definition mark_all :: "bool list \<Rightarrow> nat list \<Rightarrow> bool list" where
  "mark_all m is = foldl mark m is"

definition no_marks :: "nat \<Rightarrow> bool list" where
  "no_marks n = replicate n False"

definition mask_set :: "bool list \<Rightarrow> nat set" where
  "mask_set m = {i. flag m i}"

lemma length_mark [simp, mask_simps]: "length (mark m i) = length m"
  by (simp add: mark_def)

lemma length_unmark [simp, mask_simps]: "length (unmark m i) = length m"
  by (simp add: unmark_def)

lemma length_mark_all [simp, mask_simps]: "length (mark_all m is) = length m"
  by (induction "is" arbitrary: m) (simp_all add: mark_all_def)

lemma length_no_marks [simp, mask_simps]: "length (no_marks n) = n"
  by (simp add: no_marks_def)

lemma mask_set_no_marks [simp, mask_simps]: "mask_set (no_marks n) = {}"
  by (auto simp: mask_set_def flag_def no_marks_def)

lemma mask_set_mark [mask_simps]: "i < length m \<Longrightarrow> mask_set (mark m i) = insert i (mask_set m)"
  by (auto simp: mask_set_def flag_def mark_def nth_list_update)

lemma mark_beyond: "\<not> i < length m \<Longrightarrow> mark m i = m"
  by (simp add: mark_def list_update_beyond)

lemma mask_set_unmark [mask_simps]: "mask_set (unmark m i) = mask_set m - {i}"
  by (cases "i < length m")
     (auto simp: mask_set_def flag_def unmark_def nth_list_update list_update_beyond
       split: if_splits)

lemma mask_set_mark_all [mask_simps]:
  "set is \<subseteq> {..<length m} \<Longrightarrow> mask_set (mark_all m is) = mask_set m \<union> set is"
proof (induction "is" arbitrary: m)
  case Nil
  then show ?case by (simp add: mark_all_def)
next
  case (Cons i "is")
  then have "mask_set (mark_all (mark m i) is) = mask_set (mark m i) \<union> set is" by simp
  with Cons.prems show ?case by (simp add: mark_all_def mask_set_mark)
qed

lemma mask_set_mark_all_upper: "mask_set (mark_all m xs) \<subseteq> mask_set m \<union> set xs"
proof (induction xs arbitrary: m)
  case (Cons x xs)
  have "mask_set (mark m x) \<subseteq> insert x (mask_set m)"
    by (cases "x < length m") (auto simp: mask_set_mark mark_beyond)
  then show ?case using Cons.IH [of "mark m x"] by (auto simp: mark_all_def)
qed (simp add: mark_all_def)

lemma mask_set_mark_all_lower: "mask_set m \<subseteq> mask_set (mark_all m xs)"
proof (induction xs arbitrary: m)
  case (Cons x xs)
  have "mask_set m \<subseteq> mask_set (mark m x)"
    by (cases "x < length m") (auto simp: mask_set_mark mark_beyond)
  then show ?case using Cons.IH [of "mark m x"] by (auto simp: mark_all_def)
qed (simp add: mark_all_def)

lemma mask_set_bound: "mask_set m \<subseteq> {..<length m}"
  by (auto simp: mask_set_def flag_def)

lemma finite_mask_set [simp]: "finite (mask_set m)"
  using mask_set_bound by (rule finite_subset) simp

lemma flag_mask_set: "flag m i \<longleftrightarrow> i \<in> mask_set m"
  by (simp add: mask_set_def)

lemma marked_mask_set: "i < length m \<Longrightarrow> marked m i \<longleftrightarrow> i \<in> mask_set m"
  by (simp add: mask_set_def flag_def marked_def)

lemma mask_eqI: "length m = length m' \<Longrightarrow> mask_set m = mask_set m' \<Longrightarrow> m = m'"
  by (rule nth_equalityI) (auto simp: mask_set_def flag_def set_eq_iff)

lemma unmark_mark: "\<not> flag m i \<Longrightarrow> unmark (mark m i) i = m"
  by (cases "i < length m")
     (auto simp: unmark_def mark_def flag_def list_update_beyond intro: list_update_same_conv [THEN iffD2])

lemma mark_all_Nil [simp]: "mark_all m [] = m"
  by (simp add: mark_all_def)

lemma mark_all_Cons: "mark_all m (i # is) = mark_all (mark m i) is"
  by (simp add: mark_all_def)

text \<open>The number of unmarked positions: the measure of every traversal.\<close>

definition unmarked :: "bool list \<Rightarrow> nat" where
  "unmarked m = length (filter Not m)"

lemma unmarked_mark: "i < length m \<Longrightarrow> \<not> m ! i \<Longrightarrow> unmarked (mark m i) < unmarked m"
proof (induction m arbitrary: i)
  case Nil
  then show ?case by simp
next
  case (Cons b m)
  show ?case
  proof (cases i)
    case 0
    with Cons.prems show ?thesis by (simp add: unmarked_def mark_def)
  next
    case (Suc j)
    with Cons.prems have "unmarked (mark m j) < unmarked m" by (intro Cons.IH) simp_all
    with Suc show ?thesis by (simp add: unmarked_def mark_def)
  qed
qed

lemma unmarked_mark_marked: "\<not> marked m i \<Longrightarrow> unmarked (mark m i) < unmarked m"
  by (simp add: marked_def unmarked_mark)

subsection \<open>Lists\<close>

lemma sorted_wrt_adjacent:
  assumes "sorted (map key xs)"
    and "\<And>i. 0 < i \<Longrightarrow> i < length xs \<Longrightarrow> key (xs ! (i - 1)) \<noteq> key (xs ! i)"
  shows "sorted_wrt (<) (map key xs)"
  unfolding sorted_wrt_iff_nth_Suc_transp [OF transp_on_less]
proof (intro allI impI)
  fix i
  assume i: "Suc i < length (map key xs)"
  have "key (xs ! i) \<le> key (xs ! Suc i)"
    using assms(1) i by (auto simp: sorted_iff_nth_mono)
  moreover have "key (xs ! i) \<noteq> key (xs ! Suc i)"
    using assms(2) [of "Suc i"] i by simp
  ultimately show "map key xs ! i < map key xs ! Suc i" using i by simp
qed

lemma sorted_strict_distinct: "sorted_wrt (<) xs \<Longrightarrow> distinct (xs::'a::linorder list)"
  by (simp add: strict_sorted_iff)

end
