(* ===== verification/Core_Status.thy ===== *)
theory Core_Status
  imports Fcfn_Prelude
begin

section \<open>Status codes, bounded statuses and token tables\<close>

text \<open>
  \<open>include/fcfn/core/status.hpp\<close>, \<open>src/core/status.cpp\<close>, \<open>core/result.hpp\<close> and the
  bounds of \<open>core/limits.hpp\<close>. Every enumeration of the sources prints and parses itself
  through a constant table of (value, token) pairs scanned from the front; that shared
  contract is the locale \<open>token_map\<close>. Every enumeration is written to bytes by
  \<open>static_cast\<close> and read back after a bound check; that contract is \<open>byte_enum\<close>.
\<close>

subsection \<open>Status codes\<close>

datatype status_code =
    Ok | InvalidArgument | NotFound | AlreadyExists | CodeUnknown | StaleGeneration | Conflict
  | Unsupported | LimitExceeded | Exhausted | Denied | Unauthorized | CodeFenced | Corrupt
  | VersionUnsupported | SequenceRegression | TrailingGarbage | ProtocolViolation | IoError
  | Interrupted | CodeAmbiguous | CodeInternal

definition is_failure :: "status_code \<Rightarrow> bool" where
  "is_failure c \<longleftrightarrow> c \<noteq> Ok"

fun is_indeterminate :: "status_code \<Rightarrow> bool" where
  "is_indeterminate CodeUnknown = True"
| "is_indeterminate StaleGeneration = True"
| "is_indeterminate Conflict = True"
| "is_indeterminate CodeAmbiguous = True"
| "is_indeterminate CodeFenced = True"
| "is_indeterminate Interrupted = True"
| "is_indeterminate Exhausted = True"
| "is_indeterminate _ = False"

lemma is_indeterminate_is_failure: "is_indeterminate c \<Longrightarrow> is_failure c"
  by (cases c) (simp_all add: is_failure_def)

subsection \<open>Token tables\<close>

text \<open>The two scans: the first row whose value (respectively token) matches wins.\<close>

fun token_of :: "('a \<times> string) list \<Rightarrow> string \<Rightarrow> 'a \<Rightarrow> string" where
  "token_of [] fallback x = fallback"
| "token_of ((v, t) # rows) fallback x = (if v = x then t else token_of rows fallback x)"

fun parse_token :: "('a \<times> string) list \<Rightarrow> string \<Rightarrow> 'a option" where
  "parse_token [] tok = None"
| "parse_token ((v, t) # rows) tok = (if tok = t then Some v else parse_token rows tok)"

lemma parse_token_mem: "parse_token rows tok = Some x \<Longrightarrow> (x, tok) \<in> set rows"
  by (induction rows tok rule: parse_token.induct) (auto split: if_splits)

lemma token_of_mem: "x \<in> fst ` set rows \<Longrightarrow> (x, token_of rows d x) \<in> set rows"
  by (induction rows d x rule: token_of.induct) auto

lemma token_of_eq: "distinct (map fst rows) \<Longrightarrow> (x, t) \<in> set rows \<Longrightarrow> token_of rows d x = t"
  by (induction rows d x rule: token_of.induct) force+

lemma parse_token_eq: "distinct (map snd rows) \<Longrightarrow> (x, t) \<in> set rows \<Longrightarrow> parse_token rows t = Some x"
  by (induction rows t rule: parse_token.induct) force+

locale token_map =
  fixes rows :: "('a \<times> string) list"
  assumes distinct_values: "distinct (map fst rows)"
    and distinct_tokens: "distinct (map snd rows)"
    and all_values: "x \<in> fst ` set rows"
begin

lemma parse_print: "parse_token rows (token_of rows d x) = Some x"
  by (rule parse_token_eq [OF distinct_tokens token_of_mem [OF all_values]])

lemma print_parse: "parse_token rows t = Some x \<Longrightarrow> token_of rows d x = t"
  by (rule token_of_eq [OF distinct_values parse_token_mem])

lemma print_inj: "token_of rows d x = token_of rows d y \<Longrightarrow> x = y"
  by (metis option.inject parse_print)

lemma print_parse_iff: "parse_token rows t = Some x \<longleftrightarrow> token_of rows d x = t"
  using parse_print print_parse by metis

end

definition kTokens :: "(status_code \<times> string) list" where
  "kTokens =
    [(Ok, ''ok''), (InvalidArgument, ''invalid_argument''), (NotFound, ''not_found''),
     (AlreadyExists, ''already_exists''), (CodeUnknown, ''unknown''),
     (StaleGeneration, ''stale_generation''), (Conflict, ''conflict''),
     (Unsupported, ''unsupported''), (LimitExceeded, ''limit_exceeded''),
     (Exhausted, ''exhausted''), (Denied, ''denied''), (Unauthorized, ''unauthorized''),
     (CodeFenced, ''fenced''), (Corrupt, ''corrupt''),
     (VersionUnsupported, ''version_unsupported''),
     (SequenceRegression, ''sequence_regression''),
     (TrailingGarbage, ''trailing_garbage''), (ProtocolViolation, ''protocol_violation''),
     (IoError, ''io_error''), (Interrupted, ''interrupted''), (CodeAmbiguous, ''ambiguous''),
     (CodeInternal, ''internal'')]"

definition status_code_to_string :: "status_code \<Rightarrow> string" where
  "status_code_to_string c = token_of kTokens ''unknown_status_code'' c"

definition parse_status_code :: "string \<Rightarrow> status_code option" where
  "parse_status_code t = parse_token kTokens t"

interpretation status_tokens: token_map kTokens
proof unfold_locales
  show "x \<in> fst ` set kTokens" for x by (cases x) (simp_all add: kTokens_def)
qed (simp_all add: kTokens_def)

subsection \<open>Bounded statuses\<close>

definition kMaxStatusMessageLength :: nat where
  "kMaxStatusMessageLength = 192"

datatype status = Status (scode: status_code) (smessage: string)

definition mk_status :: "status_code \<Rightarrow> string \<Rightarrow> status" where
  "mk_status c msg = Status c (take (min (length msg) kMaxStatusMessageLength) msg)"

definition ok_status :: status where
  "ok_status = Status Ok []"

definition status_ok :: "status \<Rightarrow> bool" where
  "status_ok s \<longleftrightarrow> scode s = Ok"

definition status_to_string :: "status \<Rightarrow> string" where
  "status_to_string s =
     (let out = status_code_to_string (scode s)
      in if smessage s \<noteq> [] then out @ '': '' @ smessage s else out)"

lemma scode_mk_status [simp]: "scode (mk_status c msg) = c"
  by (simp add: mk_status_def)

lemma mk_status_bounded: "length (smessage (mk_status c msg)) \<le> kMaxStatusMessageLength"
  by (simp add: mk_status_def)

type_synonym 'a result = "status + 'a"

definition err :: "status_code \<Rightarrow> string \<Rightarrow> 'a result" where
  "err c msg = Inl (mk_status c msg)"

lemma err_neq_Inr [simp]: "err c msg \<noteq> Inr x" "Inr x \<noteq> err c msg"
  by (simp_all add: err_def)

lemma err_not_ok [simp]: "\<not> is_ok (err c msg)"
  by (simp add: err_def)

lemma try_result_err [simp]: "try_result (err c msg) f = err c msg"
  by (simp add: err_def)

subsection \<open>Resource envelope\<close>

definition kMaxTopologyNodes :: nat where "kMaxTopologyNodes = 65536"
definition kMaxTopologyEdges :: nat where "kMaxTopologyEdges = 262144"
definition kMaxProtectedObligations :: nat where "kMaxProtectedObligations = 4096"
definition kMaxFailureSources :: nat where "kMaxFailureSources = 4096"
definition kMaxExactSearchNodesDefault :: u64 where "kMaxExactSearchNodesDefault = 200000"
definition kMaxHeuristicIterationsDefault :: u64 where "kMaxHeuristicIterationsDefault = 200000"
definition kMaxBoundaryMembers :: nat where "kMaxBoundaryMembers = 8192"
definition kMaxNodeWeight :: u64 where "kMaxNodeWeight = 1000000"
definition kMaxPlanWeightSum :: u64 where "kMaxPlanWeightSum = 1000000000000"
definition kMaxExplanationItems :: nat where "kMaxExplanationItems = 64"
definition kMaxExplanationTextLength :: nat where "kMaxExplanationTextLength = 256"
definition kMaxCutCertificatePathNodes :: nat where "kMaxCutCertificatePathNodes = 4096"
definition kMaxRecordPayloadBytes :: nat where "kMaxRecordPayloadBytes = 16 * 1024 * 1024"
definition kMaxCanonicalTextLength :: nat where "kMaxCanonicalTextLength = 4096"

definition kMaxSnapshotPayloadBytes :: nat where "kMaxSnapshotPayloadBytes = 256 * 1024 * 1024"
definition kMaxRetainedSnapshots :: nat where "kMaxRetainedSnapshots = 4"
definition kMaxFramePayloadBytes :: nat where "kMaxFramePayloadBytes = 4 * 1024 * 1024"
definition kMaxSessions :: nat where "kMaxSessions = 256"
definition kMaxSessionTokenLength :: nat where "kMaxSessionTokenLength = 64"
definition kMaxSessionLabelLength :: nat where "kMaxSessionLabelLength = 64"
definition kMaxRetainedPlans :: nat where "kMaxRetainedPlans = 1024"
definition kMaxRetainedAttempts :: nat where "kMaxRetainedAttempts = 4096"
definition kMaxRetainedTransitions :: nat where "kMaxRetainedTransitions = 4096"
definition kMaxRetainedDetections :: nat where "kMaxRetainedDetections = 4096"
definition kMaxFencedBoots :: nat where "kMaxFencedBoots = 1024"

lemmas runtime_limit_defs =
  kMaxSnapshotPayloadBytes_def kMaxRetainedSnapshots_def kMaxFramePayloadBytes_def kMaxSessions_def
  kMaxSessionTokenLength_def kMaxSessionLabelLength_def kMaxRetainedPlans_def
  kMaxRetainedAttempts_def kMaxRetainedTransitions_def kMaxRetainedDetections_def
  kMaxFencedBoots_def

lemmas limit_defs =
  kMaxTopologyNodes_def kMaxTopologyEdges_def kMaxProtectedObligations_def
  kMaxFailureSources_def kMaxBoundaryMembers_def kMaxNodeWeight_def kMaxPlanWeightSum_def
  kMaxExplanationItems_def kMaxExplanationTextLength_def kMaxCutCertificatePathNodes_def
  kMaxRecordPayloadBytes_def kMaxCanonicalTextLength_def kMaxExactSearchNodesDefault_def
  kMaxHeuristicIterationsDefault_def

subsection \<open>Enumerations on bytes\<close>

text \<open>
  \<open>static_cast<std::uint8_t>(e)\<close> of an enumeration whose enumerators count from 0, and the
  decoder's check against the last enumerator followed by the cast back. \<open>vals\<close> lists the
  enumerators in declaration order.
\<close>

definition enum_code :: "'a list \<Rightarrow> 'a \<Rightarrow> u8" where
  "enum_code vals x = of_nat (length (takeWhile (\<lambda>y. y \<noteq> x) vals))"

definition enum_decode :: "'a list \<Rightarrow> u8 \<Rightarrow> 'a option" where
  "enum_decode vals w = (if unat w < length vals then Some (vals ! unat w) else None)"

locale byte_enum =
  fixes vals :: "'a list"
  assumes vals_all: "x \<in> set vals"
    and vals_distinct: "distinct vals"
    and vals_small: "length vals \<le> 256"
begin

lemma index_less: "length (takeWhile (\<lambda>y. y \<noteq> x) vals) < length vals"
  using vals_all [of x] by (induction vals) auto

lemma unat_enum_code: "unat (enum_code vals x) = length (takeWhile (\<lambda>y. y \<noteq> x) vals)"
  using index_less [of x] vals_small
  by (simp add: enum_code_def unat_of_nat)

lemma decode_code: "enum_decode vals (enum_code vals x) = Some x"
  using index_less [of x] nth_length_takeWhile [of "\<lambda>y. y \<noteq> x" vals]
  by (simp add: enum_decode_def unat_enum_code)

lemma code_decode: "enum_decode vals w = Some x \<Longrightarrow> enum_code vals x = w"
proof -
  assume d: "enum_decode vals w = Some x"
  then have w: "unat w < length vals" and x: "x = vals ! unat w"
    by (auto simp: enum_decode_def split: if_splits)
  have l: "length (takeWhile (\<lambda>y. y \<noteq> x) vals) < length vals" by (rule index_less)
  have "vals ! length (takeWhile (\<lambda>y. y \<noteq> x) vals) = x"
    using nth_length_takeWhile [OF l] by simp
  then have "length (takeWhile (\<lambda>y. y \<noteq> x) vals) = unat w"
    using vals_distinct l w x nth_eq_iff_index_eq by blast
  then show ?thesis by (simp add: enum_code_def)
qed

lemma code_inj: "enum_code vals x = enum_code vals y \<Longrightarrow> x = y"
  using decode_code by (metis option.inject)

end

end
