(* ===== verification/Core_Ids.thy ===== *)
theory Core_Ids
  imports Core_Status
begin

unbundle bit_operations_syntax

section \<open>Identities, digests and checked arithmetic\<close>

text \<open>
  \<open>core/ids.hpp\<close>, \<open>src/core/ids.cpp\<close> and \<open>core/checked.hpp\<close>. A strong identifier is
  its 64-bit value; a resource identity is its text, ordered as \<open>std::string\<close> orders it
  (unsigned bytes, lexicographically). \<open>Digest\<close> and \<open>BootIdentity\<close> are ordered by
  their \<open>operator<\<close>.
\<close>

type_synonym topology_generation = u64
type_synonym policy_generation = u64
type_synonym evidence_generation = u64
type_synonym boundary_generation = u64
type_synonym plan_generation = u64
type_synonym coordinator_epoch = u64
type_synonym boot_id = u64
type_synonym sequence_no = u64
type_synonym evidence_revision = u64
type_synonym resource_id = string

subsection \<open>Resource identities\<close>

definition kMaxResourceIdLength :: nat where "kMaxResourceIdLength = 63"

definition is_allowed_char :: "char \<Rightarrow> bool" where
  "is_allowed_char c =
     (let alpha = (c \<ge> CHR ''a'' \<and> c \<le> CHR ''z'') \<or> (c \<ge> CHR ''A'' \<and> c \<le> CHR ''Z'');
          digit = c \<ge> CHR ''0'' \<and> c \<le> CHR ''9''
      in alpha \<or> digit \<or> c = CHR ''.'' \<or> c = CHR ''_'' \<or> c = CHR '':'' \<or> c = CHR ''-'')"

text \<open>The loop over the characters: each is allowed, and a dot is not followed by a dot.\<close>

fun resource_chars_ok :: "string \<Rightarrow> bool" where
  "resource_chars_ok [] = True"
| "resource_chars_ok (c # cs) =
     (if \<not> is_allowed_char c then False
      else if c = CHR ''.'' \<and> cs \<noteq> [] \<and> hd cs = CHR ''.'' then False
      else resource_chars_ok cs)"

definition is_valid_resource_id :: "string \<Rightarrow> bool" where
  "is_valid_resource_id text =
     (if text = [] \<or> length text > kMaxResourceIdLength then False
      else if hd text = CHR ''.'' \<or> hd text = CHR ''-'' \<or> last text = CHR ''.''
              \<or> last text = CHR ''-'' then False
      else resource_chars_ok text)"

definition parse_resource_id :: "string \<Rightarrow> resource_id result" where
  "parse_resource_id text =
     (if \<not> is_valid_resource_id text
      then err InvalidArgument ''resource id is not in canonical form''
      else Inr text)"

lemma parse_resource_id_valid [simp]: "is_valid_resource_id t \<Longrightarrow> parse_resource_id t = Inr t"
  by (simp add: parse_resource_id_def)

lemma parse_resource_id_Inr: "parse_resource_id t = Inr r \<longleftrightarrow> is_valid_resource_id t \<and> r = t"
  by (auto simp: parse_resource_id_def)

lemma valid_resource_id_length: "is_valid_resource_id t \<Longrightarrow> 0 < length t \<and> length t \<le> 63"
  by (auto simp: is_valid_resource_id_def kMaxResourceIdLength_def split: if_splits)

lemma valid_resource_id_nonempty: "is_valid_resource_id t \<Longrightarrow> t \<noteq> []"
  using valid_resource_id_length by fastforce

text \<open>The grammar the header documents, stated declaratively.\<close>

definition resource_id_grammar :: "string \<Rightarrow> bool" where
  "resource_id_grammar t \<longleftrightarrow>
     1 \<le> length t \<and> length t \<le> kMaxResourceIdLength \<and>
     (\<forall>c \<in> set t. is_allowed_char c) \<and>
     (\<nexists>us vs. t = us @ ''..'' @ vs) \<and>
     hd t \<notin> {CHR ''.'', CHR ''-''} \<and> last t \<notin> {CHR ''.'', CHR ''-''}"

lemma dotdot_Cons:
  "(\<exists>us vs. c # cs = us @ ''..'' @ vs) \<longleftrightarrow>
     (c = CHR ''.'' \<and> cs \<noteq> [] \<and> hd cs = CHR ''.'') \<or> (\<exists>us vs. cs = us @ ''..'' @ vs)"
  (is "?l \<longleftrightarrow> ?r")
proof
  assume ?l
  then obtain us vs where e: "c # cs = us @ ''..'' @ vs" by blast
  show ?r
  proof (cases us)
    case Nil
    with e show ?thesis by simp
  next
    case (Cons u us')
    with e show ?thesis by auto
  qed
next
  assume ?r
  then show ?l
  proof
    assume "c = CHR ''.'' \<and> cs \<noteq> [] \<and> hd cs = CHR ''.''"
    then obtain vs where "c # cs = [] @ ''..'' @ vs" by (cases cs) auto
    then show ?l by blast
  next
    assume "\<exists>us vs. cs = us @ ''..'' @ vs"
    then obtain us vs where "c # cs = (c # us) @ ''..'' @ vs" by auto
    then show ?l by blast
  qed
qed

lemma resource_chars_ok_iff:
  "resource_chars_ok t \<longleftrightarrow> (\<forall>c \<in> set t. is_allowed_char c) \<and> (\<nexists>us vs. t = us @ ''..'' @ vs)"
proof (induction t)
  case Nil
  then show ?case by simp
next
  case (Cons c cs)
  then show ?case unfolding resource_chars_ok.simps dotdot_Cons by auto
qed

lemma is_valid_resource_id_iff: "is_valid_resource_id t \<longleftrightarrow> resource_id_grammar t"
  by (cases "t = []")
     (auto simp: is_valid_resource_id_def resource_id_grammar_def resource_chars_ok_iff
       Suc_le_eq split: if_splits)

subsection \<open>Digests and boot identities\<close>

datatype digest = Digest (d_hi: u64) (d_lo: u64)

definition zero_digest :: digest where "zero_digest = Digest 0 0"

definition digest_is_zero :: "digest \<Rightarrow> bool" where
  "digest_is_zero d \<longleftrightarrow> d_hi d = 0 \<and> d_lo d = 0"

instantiation digest :: linorder
begin

definition less_digest :: "digest \<Rightarrow> digest \<Rightarrow> bool" where
  "less_digest a b \<longleftrightarrow> (if d_hi a \<noteq> d_hi b then d_hi a < d_hi b else d_lo a < d_lo b)"

definition less_eq_digest :: "digest \<Rightarrow> digest \<Rightarrow> bool" where
  "less_eq_digest a b \<longleftrightarrow> a < b \<or> a = (b::digest)"

instance
  by standard
     (auto simp: less_digest_def less_eq_digest_def not_less intro: digest.expand split: if_splits)

end

datatype boot_identity = BootIdentity (boot_bid: boot_id) (boot_pid: u32)

instantiation boot_identity :: linorder
begin

definition less_boot_identity :: "boot_identity \<Rightarrow> boot_identity \<Rightarrow> bool" where
  "less_boot_identity a b \<longleftrightarrow>
     (if boot_bid a \<noteq> boot_bid b then boot_bid a < boot_bid b else boot_pid a < boot_pid b)"

definition less_eq_boot_identity :: "boot_identity \<Rightarrow> boot_identity \<Rightarrow> bool" where
  "less_eq_boot_identity a b \<longleftrightarrow> a < b \<or> a = (b::boot_identity)"

instance
  by standard
     (auto simp: less_boot_identity_def less_eq_boot_identity_def not_less
       intro: boot_identity.expand split: if_splits)

end

definition no_boot :: boot_identity where "no_boot = BootIdentity 0 0"

subsubsection \<open>Hexadecimal rendering\<close>

definition hex_value :: "char \<Rightarrow> nat option" where
  "hex_value c =
     (if c \<ge> CHR ''0'' \<and> c \<le> CHR ''9'' then Some (of_char c - of_char (CHR ''0''))
      else if c \<ge> CHR ''a'' \<and> c \<le> CHR ''f'' then Some (10 + (of_char c - of_char (CHR ''a'')))
      else if c \<ge> CHR ''A'' \<and> c \<le> CHR ''F'' then Some (10 + (of_char c - of_char (CHR ''A'')))
      else None)"

text \<open>\<open>%016llx\<close>: sixteen lowercase hexadecimal digits, the most significant first.\<close>

definition hex_digits :: string where "hex_digits = ''0123456789abcdef''"

definition hex16 :: "u64 \<Rightarrow> string" where
  "hex16 v = map (\<lambda>i. hex_digits ! unat (drop_bit (60 - 4 * i) v AND 15)) [0..<16]"

definition digest_hex :: "digest \<Rightarrow> string" where
  "digest_hex d = hex16 (d_hi d) @ hex16 (d_lo d)"

fun hex_accumulate :: "u64 \<Rightarrow> string \<Rightarrow> u64 option" where
  "hex_accumulate acc [] = Some acc"
| "hex_accumulate acc (c # cs) =
     (case hex_value c of
        None \<Rightarrow> None
      | Some nibble \<Rightarrow> hex_accumulate (push_bit 4 acc OR of_nat nibble) cs)"

definition digest_parse :: "string \<Rightarrow> digest option" where
  "digest_parse text =
     (if length text \<noteq> 32 then None
      else case hex_accumulate 0 (take 16 text) of
             None \<Rightarrow> None
           | Some hi \<Rightarrow> (case hex_accumulate 0 (drop 16 text) of
                 None \<Rightarrow> None
               | Some lo \<Rightarrow> Some (Digest hi lo)))"

lemma hex_value_digit: "n < 16 \<Longrightarrow> hex_value (hex_digits ! n) = Some n"
proof -
  have "\<forall>n \<in> {0..<16::nat}. hex_value (hex_digits ! n) = Some n" by code_simp
  then show "n < 16 \<Longrightarrow> ?thesis" by simp
qed

lemma hex_nibble_bound: "unat (w AND 15 :: u64) < 16"
proof -
  have "w AND 15 = take_bit 4 w" by (simp add: take_bit_eq_mask mask_eq_exp_minus_1)
  then have "unat (w AND 15) = unat (take_bit 4 w)" by simp
  also have "\<dots> = take_bit 4 (unat w)" by (simp add: unsigned_take_bit_eq)
  also have "\<dots> < 2 ^ 4" by (rule take_bit_nat_less_exp)
  finally show ?thesis by simp
qed

lemma hex_step: "push_bit 4 (drop_bit (k + 4) v) OR (drop_bit k v AND 15) = drop_bit k (v::u64)"
proof (rule bit_word_eqI)
  fix n
  assume n: "n < LENGTH(64)"
  have "bit (15::u64) n \<longleftrightarrow> n < 4"
  proof -
    have "(15::u64) = mask 4" by (simp add: mask_eq_exp_minus_1)
    then have "bit (15::u64) n = bit (mask 4 :: u64) n" by (rule arg_cong)
    also have "\<dots> \<longleftrightarrow> n < 4" using n by (simp only: bit_mask_iff) simp
    finally show ?thesis .
  qed
  then show "bit (push_bit 4 (drop_bit (k + 4) v) OR (drop_bit k v AND 15)) n = bit (drop_bit k v) n"
    using n by (auto simp: bit_or_iff bit_and_iff bit_push_bit_iff bit_drop_bit_eq add.commute
        add.left_commute)
qed

lemma hex_accumulate_suffix:
  "j \<le> 16 \<Longrightarrow>
   hex_accumulate (drop_bit (4 * j) v)
     (map (\<lambda>i. hex_digits ! unat (drop_bit (60 - 4 * i) v AND 15)) [16 - j..<16]) = Some v"
proof (induction j)
  case 0
  then show ?case by simp
next
  case (Suc j)
  let ?n = "\<lambda>i. drop_bit (60 - 4 * i) v AND 15"
  have r: "[16 - Suc j..<16] = (15 - j) # [16 - j..<16]"
    using Suc.prems upt_conv_Cons [of "15 - j" 16] by (simp add: Suc_diff_le [symmetric])
  have k: "60 - 4 * (15 - j) = 4 * j" using Suc.prems by simp
  have s: "push_bit 4 (drop_bit (4 * Suc j) v) OR ?n (15 - j) = drop_bit (4 * j) v"
    using hex_step [of "4 * j" v] k by (simp add: add.commute)
  have d: "hex_value (hex_digits ! unat (?n (15 - j))) = Some (unat (?n (15 - j)))"
    by (rule hex_value_digit [OF hex_nibble_bound])
  have w: "of_nat (unat x) = x" for x :: u64 by simp
  show ?case
    unfolding r list.map hex_accumulate.simps d option.case w s
    using Suc.IH Suc.prems by simp
qed

lemma hex_accumulate_hex16: "hex_accumulate 0 (hex16 v) = Some v"
proof -
  have "drop_bit 64 v = 0" by (rule bit_word_eqI) (simp add: bit_drop_bit_eq bit_word.rep_eq)
  then show ?thesis using hex_accumulate_suffix [of 16 v] by (simp add: hex16_def)
qed

lemma length_hex16 [simp]: "length (hex16 v) = 16"
  by (simp add: hex16_def)

lemma digest_parse_hex: "digest_parse (digest_hex d) = Some d"
  by (simp add: digest_parse_def digest_hex_def hex_accumulate_hex16)

subsection \<open>Checked arithmetic\<close>

text \<open>
  The unsigned instances of \<open>checked.hpp\<close>: no wrap-around, and a refusal (\<open>None\<close>,
  with the output left untouched) when the exact result does not fit.
\<close>

definition checked_add :: "'a::len word \<Rightarrow> 'a word \<Rightarrow> 'a word option" where
  "checked_add a b = (if a > - 1 - b then None else Some (a + b))"

definition checked_mul :: "'a::len word \<Rightarrow> 'a word \<Rightarrow> 'a word option" where
  "checked_mul a b =
     (if a = 0 \<or> b = 0 then Some 0
      else if a > (- 1) div b then None else Some (a * b))"

lemma unat_minus_one_word: "unat (- 1 :: 'a::len word) = 2 ^ LENGTH('a) - 1"
  by (simp add: unsigned_minus_1_eq_mask mask_eq_exp_minus_1)

lemma unat_max_minus: "unat (- 1 - b :: 'a::len word) = 2 ^ LENGTH('a) - 1 - unat b"
proof -
  have "b \<le> - 1" by simp
  then have "unat (- 1 - b) = unat (- 1 :: 'a word) - unat b" by (simp add: unat_sub)
  then show ?thesis by (simp add: unat_minus_one_word)
qed

lemma checked_add_None: "checked_add a b = None \<longleftrightarrow> unat a + unat (b::'a::len word) \<ge> 2 ^ LENGTH('a)"
proof -
  have "a > - 1 - b \<longleftrightarrow> unat a > 2 ^ LENGTH('a) - 1 - unat b"
    by (simp add: word_less_nat_alt unat_max_minus)
  also have "\<dots> \<longleftrightarrow> unat a + unat b \<ge> 2 ^ LENGTH('a)"
    using unsigned_less [of b, where ?'a = nat] unsigned_less [of a, where ?'a = nat] by arith
  finally show ?thesis by (simp add: checked_add_def)
qed

lemma checked_add_Some:
  "checked_add a b = Some c \<longleftrightarrow> unat a + unat b < 2 ^ LENGTH('a) \<and> c = a + (b::'a::len word)"
proof (cases "checked_add a b")
  case None
  then show ?thesis using checked_add_None [of a b] by simp
next
  case (Some x)
  then have "\<not> unat a + unat b \<ge> 2 ^ LENGTH('a)" using checked_add_None [of a b] by simp
  with Some show ?thesis by (auto simp: checked_add_def split: if_splits)
qed

lemma checked_add_unat: "checked_add a b = Some c \<Longrightarrow> unat c = unat a + unat b"
  by (simp add: checked_add_Some unat_word_ariths)

lemma checked_mul_unat: "checked_mul a b = Some c \<Longrightarrow> unat c = unat a * unat (b::'a::len word)"
proof -
  assume c: "checked_mul a b = Some c"
  show ?thesis
  proof (cases "a = 0 \<or> b = 0")
    case True
    with c show ?thesis by (auto simp: checked_mul_def)
  next
    case False
    with c have le: "a \<le> (- 1) div b" and ab: "c = a * b"
      by (auto simp: checked_mul_def split: if_splits)
    from le have "unat a \<le> (2 ^ LENGTH('a) - 1) div unat b"
      by (simp add: word_le_nat_alt unat_div unat_minus_one_word)
    then have "unat a * unat b \<le> 2 ^ LENGTH('a) - 1"
      by (meson div_times_less_eq_dividend le_trans mult_le_mono1)
    moreover have "0 < (2::nat) ^ LENGTH('a)" by simp
    ultimately have "unat a * unat b < 2 ^ LENGTH('a)" by linarith
    then show ?thesis by (simp add: ab unat_word_ariths)
  qed
qed

text \<open>The saturating counter used by telemetry.\<close>

datatype saturating_counter = SaturatingCounter (sc_value: u64) (sc_saturated: bool)

definition saturating_add :: "saturating_counter \<Rightarrow> u64 \<Rightarrow> saturating_counter" where
  "saturating_add c delta =
     (case checked_add (sc_value c) delta of
        Some v \<Rightarrow> SaturatingCounter v (sc_saturated c)
      | None \<Rightarrow> SaturatingCounter (- 1) True)"

definition within :: "u64 \<Rightarrow> u64 \<Rightarrow> u64 \<Rightarrow> bool" where
  "within value low high \<longleftrightarrow> value \<ge> low \<and> value \<le> high"

lemma saturating_add_value:
  "unat (sc_value (saturating_add c d)) = min (unat (sc_value c) + unat d) (2 ^ 64 - 1)"
proof (cases "checked_add (sc_value c) d")
  case None
  then have "unat (sc_value c) + unat d \<ge> 2 ^ 64" using checked_add_None [of "sc_value c" d] by simp
  with None show ?thesis by (simp add: saturating_add_def unat_minus_one_word)
next
  case (Some v)
  then show ?thesis
    using checked_add_Some [of "sc_value c" d v] checked_add_unat [of "sc_value c" d v]
    by (simp add: saturating_add_def)
qed

end
