(* ===== verification/Core_Hash.thy ===== *)
theory Core_Hash
  imports Core_Ids
begin

unbundle bit_operations_syntax

section \<open>Integrity primitives\<close>

text \<open>
  \<open>core/hash.hpp\<close> and \<open>src/core/hash.cpp\<close>: FNV-1a lanes, the two-lane digest and the
  table-driven CRC-32C. The lemmas show that the table-driven CRC is the bit-serial CRC, and
  that both checksums change whenever exactly one byte of a message changes.
\<close>

subsection \<open>FNV-1a and the two-lane digest\<close>

definition kFnvOffsetBasis64 :: u64 where "kFnvOffsetBasis64 = 0xcbf29ce484222325"
definition kFnvPrime64 :: u64 where "kFnvPrime64 = 0x100000001b3"

definition fnv_update_byte :: "u64 \<Rightarrow> byte \<Rightarrow> u64" where
  "fnv_update_byte state b = (state XOR ucast b) * kFnvPrime64"

definition fnv_update :: "u64 \<Rightarrow> byte list \<Rightarrow> u64" where
  "fnv_update state bytes = foldl fnv_update_byte state bytes"

datatype digest_builder = DigestBuilder (db_lo: u64) (db_hi: u64)

definition digest_builder_init :: digest_builder where
  "digest_builder_init = DigestBuilder kFnvOffsetBasis64 (kFnvOffsetBasis64 * 3 + 1)"

definition digest_update_byte :: "digest_builder \<Rightarrow> byte \<Rightarrow> digest_builder" where
  "digest_update_byte d v =
     DigestBuilder (fnv_update_byte (db_lo d) v) (fnv_update_byte (db_hi d) (v XOR 0x5a))"

definition digest_update :: "digest_builder \<Rightarrow> byte list \<Rightarrow> digest_builder" where
  "digest_update d bytes = foldl digest_update_byte d bytes"

definition digest_finish :: "digest_builder \<Rightarrow> digest" where
  "digest_finish d = Digest (db_hi d) (db_lo d)"

definition digest_of :: "byte list \<Rightarrow> digest" where
  "digest_of bytes = digest_finish (digest_update digest_builder_init bytes)"

text \<open>The prime is odd, so a lane step is a bijection of the lane state.\<close>

lemma kFnvPrime64_inverse: "kFnvPrime64 * 0xce965057aff6957b = 1"
  by (simp add: kFnvPrime64_def)

lemma fnv_mult_inj: "a * kFnvPrime64 = b * kFnvPrime64 \<Longrightarrow> a = b"
proof -
  assume "a * kFnvPrime64 = b * kFnvPrime64"
  then have "a * (kFnvPrime64 * 0xce965057aff6957b) = b * (kFnvPrime64 * 0xce965057aff6957b)"
    by (simp add: mult.assoc [symmetric])
  then show "a = b" by (simp add: kFnvPrime64_inverse)
qed

lemma xor_left_inj: "a XOR c = b XOR c \<longleftrightarrow> a = (b :: 'a::len word)"
  by (metis xor.assoc xor_self_eq xor.right_neutral)

lemma xor_right_inj: "c XOR a = c XOR b \<longleftrightarrow> a = (b :: 'a::len word)"
  by (metis xor.commute xor_left_inj)

lemma ucast_byte_inj:
  assumes "(ucast (a::byte) :: 'a::len word) = ucast b" and "8 \<le> LENGTH('a)"
  shows "a = b"
proof (rule bit_word_eqI)
  fix n
  assume n: "n < LENGTH(8)"
  have "bit (ucast a :: 'a word) n = bit (ucast b :: 'a word) n" using assms(1) by simp
  then show "bit a n = bit b n" using n assms(2) by (simp add: bit_ucast_iff)
qed

lemma bit_ucast_byte_high: "8 \<le> n \<Longrightarrow> \<not> bit (ucast (b::byte) :: 'a::len word) n"
proof
  assume n: "8 \<le> n" and "bit (ucast b :: 'a word) n"
  then have "bit b n" by (simp add: bit_ucast_iff)
  then have "n < LENGTH(8)" by (rule bit_imp_le_length)
  with n show False by simp
qed

lemma xor_xor_cancel: "(a XOR p) XOR (b XOR p) = a XOR (b :: 'a::len word)"
  by (rule bit_word_eqI) (auto simp only: bit_xor_iff)

lemma fnv_update_byte_inj_state: "fnv_update_byte s b = fnv_update_byte t b \<Longrightarrow> s = t"
  unfolding fnv_update_byte_def by (drule fnv_mult_inj) (simp add: xor_left_inj)

lemma fnv_update_byte_inj_byte: "fnv_update_byte s b = fnv_update_byte s c \<Longrightarrow> b = c"
  unfolding fnv_update_byte_def
  by (drule fnv_mult_inj) (auto simp: xor_right_inj intro: ucast_byte_inj)

lemma fnv_update_inj_state: "fnv_update s bs = fnv_update t bs \<Longrightarrow> s = t"
  by (induction bs arbitrary: s t) (auto simp: fnv_update_def dest: fnv_update_byte_inj_state)

lemma digest_update_lo: "db_lo (digest_update d bs) = fnv_update (db_lo d) bs"
  by (induction bs arbitrary: d) (simp_all add: digest_update_def fnv_update_def digest_update_byte_def)

lemma digest_of_single_byte:
  assumes "digest_of (us @ [b] @ vs) = digest_of (us @ [c] @ vs)"
  shows "b = c"
proof -
  let ?s = "fnv_update kFnvOffsetBasis64 us"
  have lo: "d_lo (digest_of ws) = fnv_update kFnvOffsetBasis64 ws" for ws
    by (simp add: digest_of_def digest_finish_def digest_update_lo digest_builder_init_def)
  have "fnv_update (fnv_update_byte ?s b) vs = fnv_update (fnv_update_byte ?s c) vs"
    using arg_cong [OF assms, of d_lo] unfolding lo by (simp add: fnv_update_def)
  then have "fnv_update_byte ?s b = fnv_update_byte ?s c" by (rule fnv_update_inj_state)
  then show ?thesis by (rule fnv_update_byte_inj_byte)
qed

subsection \<open>CRC-32C\<close>

definition kCrc32cPolynomial :: u32 where "kCrc32cPolynomial = 0x82f63b78"
definition kCrc32cTableSize :: nat where "kCrc32cTableSize = 256"

definition crc_bit_step :: "u32 \<Rightarrow> u32" where
  "crc_bit_step crc =
     (if crc AND 1 \<noteq> 0 then drop_bit 1 crc XOR kCrc32cPolynomial else drop_bit 1 crc)"

definition make_crc32c_entry :: "nat \<Rightarrow> u32" where
  "make_crc32c_entry i = (crc_bit_step ^^ 8) (of_nat i)"

definition kCrc32cTable :: "u32 list" where
  "kCrc32cTable = map make_crc32c_entry [0..<kCrc32cTableSize]"

definition crc_update_byte :: "u32 \<Rightarrow> byte \<Rightarrow> u32" where
  "crc_update_byte crc b =
     (let index = ucast ((crc XOR ucast b) AND 0xff) :: u8
      in drop_bit 8 crc XOR kCrc32cTable ! unat index)"

definition crc_update :: "u32 \<Rightarrow> byte list \<Rightarrow> u32" where
  "crc_update state bytes = foldl crc_update_byte state bytes"

definition crc32c :: "byte list \<Rightarrow> u32" where
  "crc32c bytes = crc_update 0xffffffff bytes XOR 0xffffffff"

text \<open>The bit-serial reference: shift one message bit at a time through the register.\<close>

definition crc_serial_byte :: "u32 \<Rightarrow> byte \<Rightarrow> u32" where
  "crc_serial_byte crc b = (crc_bit_step ^^ 8) (crc XOR ucast b)"

lemma and_1_bit: "w AND 1 \<noteq> 0 \<longleftrightarrow> bit (w::u32) 0"
  by (simp add: and_one_eq odd_iff_mod_2_eq_one bit_0)

lemma crc_bit_step_xor: "crc_bit_step (x XOR y) = crc_bit_step x XOR crc_bit_step y"
proof -
  have b: "bit (x XOR y) 0 \<longleftrightarrow> bit x 0 \<noteq> bit y 0" by (simp only: bit_xor_iff)
  have d: "drop_bit 1 (x XOR y) = drop_bit 1 x XOR drop_bit 1 y" by (rule drop_bit_xor)
  show ?thesis
    unfolding crc_bit_step_def and_1_bit b d
    by (cases "bit x 0"; cases "bit y 0")
       (simp_all only: simp_thms if_True if_False xor_xor_cancel, simp_all only: ac_simps)
qed

lemma crc_steps_xor: "(crc_bit_step ^^ k) (x XOR y) = (crc_bit_step ^^ k) x XOR (crc_bit_step ^^ k) y"
  by (induction k) (simp_all add: crc_bit_step_xor)

lemma crc_steps_shift:
  "(\<And>i. i < k \<Longrightarrow> \<not> bit x i) \<Longrightarrow> (crc_bit_step ^^ k) x = drop_bit k x"
proof (induction k)
  case 0
  then show ?case by simp
next
  case (Suc k)
  then have "(crc_bit_step ^^ k) x = drop_bit k x" by simp
  moreover have "\<not> bit (drop_bit k x) 0" using Suc.prems by (simp add: bit_drop_bit_eq)
  ultimately have "crc_bit_step ((crc_bit_step ^^ k) x) = drop_bit 1 (drop_bit k x)"
    by (simp only: crc_bit_step_def and_1_bit if_False)
  then show ?case by simp
qed

lemma low_byte_mask: "(0xff::u32) = mask 8"
  by (simp add: mask_eq_exp_minus_1)

lemma bit_low_byte: "bit (mask 8 :: u32) n \<longleftrightarrow> n < 8"
  by (simp only: bit_mask_iff) auto

lemma crc_index: "kCrc32cTable ! unat (ucast (x AND 0xff) :: u8) = (crc_bit_step ^^ 8) (x AND 0xff)"
proof -
  have u: "ucast (ucast (x AND 0xff) :: u8) = x AND (0xff::u32)"
    unfolding low_byte_mask
    by (rule bit_word_eqI) (auto simp: bit_ucast_iff bit_and_iff bit_low_byte)
  have "unat (ucast (x AND 0xff) :: u8) < 256"
    using unsigned_less [of "ucast (x AND 0xff) :: u8"] by simp
  then have "kCrc32cTable ! unat (ucast (x AND 0xff) :: u8)
      = make_crc32c_entry (unat (ucast (x AND 0xff) :: u8))"
    by (simp add: kCrc32cTable_def kCrc32cTableSize_def)
  also have "\<dots> = (crc_bit_step ^^ 8) (ucast (ucast (x AND 0xff) :: u8))"
    unfolding make_crc32c_entry_def by (simp only: of_nat_unat)
  finally show ?thesis unfolding u .
qed

lemma crc_high_shift: "drop_bit 8 ((crc XOR ucast (b::byte)) AND NOT (mask 8)) = drop_bit 8 (crc::u32)"
proof (rule bit_word_eqI)
  fix n
  assume "n < LENGTH(32)"
  have "\<not> bit (ucast b :: u32) (8 + n)" by (rule bit_ucast_byte_high) simp
  then show "bit (drop_bit 8 ((crc XOR ucast b) AND NOT (mask 8))) n = bit (drop_bit 8 crc) n"
    by (auto simp: bit_drop_bit_eq bit_and_iff bit_not_iff bit_low_byte bit_xor_iff
        dest: bit_imp_le_length)
qed

lemma crc_update_byte_serial: "crc_update_byte crc b = crc_serial_byte crc b"
proof -
  let ?x = "crc XOR ucast b"
  have split: "?x = (?x AND mask 8) XOR (?x AND NOT (mask 8))"
    by (rule bit_word_eqI) (auto simp: bit_xor_iff bit_and_iff bit_not_iff)
  have high: "(crc_bit_step ^^ 8) (?x AND NOT (mask 8)) = drop_bit 8 crc"
    by (subst crc_steps_shift) (auto simp only: bit_and_iff bit_not_iff bit_low_byte crc_high_shift)
  have "crc_serial_byte crc b = (crc_bit_step ^^ 8) ((?x AND mask 8) XOR (?x AND NOT (mask 8)))"
    unfolding crc_serial_byte_def by (rule arg_cong [OF split])
  also have "\<dots> = (crc_bit_step ^^ 8) (?x AND mask 8) XOR drop_bit 8 crc"
    unfolding crc_steps_xor high ..
  finally show ?thesis
    unfolding crc_update_byte_def Let_def crc_index unfolding low_byte_mask
    by (simp only: xor.commute)
qed

lemma kCrc32cPolynomial_top: "bit kCrc32cPolynomial 31"
  by (simp add: kCrc32cPolynomial_def bit_numeral_word_iff)

lemma crc_bit_step_top: "bit (crc_bit_step x) 31 \<longleftrightarrow> bit x 0"
  using kCrc32cPolynomial_top
  by (auto simp: crc_bit_step_def and_1_bit bit_xor_iff bit_drop_bit_eq dest: bit_imp_le_length)

lemma crc_bit_step_inj: "crc_bit_step x = crc_bit_step y \<Longrightarrow> x = y"
proof -
  assume e: "crc_bit_step x = crc_bit_step y"
  then have b: "bit x 0 \<longleftrightarrow> bit y 0" by (metis crc_bit_step_top)
  with e have d: "drop_bit 1 x = drop_bit 1 y"
    by (auto simp: crc_bit_step_def and_1_bit xor_left_inj split: if_splits)
  show "x = y"
  proof (rule bit_word_eqI)
    fix n
    show "bit x n = bit y n"
    proof (cases n)
      case 0
      with b show ?thesis by simp
    next
      case (Suc m)
      then show ?thesis using arg_cong [OF d, of "\<lambda>w. bit w m"] by (simp add: bit_drop_bit_eq)
    qed
  qed
qed

lemma crc_steps_inj: "(crc_bit_step ^^ k) x = (crc_bit_step ^^ k) y \<Longrightarrow> x = y"
  by (induction k) (auto dest: crc_bit_step_inj)

lemma crc_update_byte_inj_state: "crc_update_byte s b = crc_update_byte t b \<Longrightarrow> s = t"
  unfolding crc_update_byte_serial crc_serial_byte_def
  by (drule crc_steps_inj) (simp add: xor_left_inj)

lemma crc_update_byte_inj_byte: "crc_update_byte s b = crc_update_byte s c \<Longrightarrow> b = c"
  unfolding crc_update_byte_serial crc_serial_byte_def
  by (drule crc_steps_inj) (auto simp: xor_right_inj intro: ucast_byte_inj)

lemma crc_update_inj_state: "crc_update s bs = crc_update t bs \<Longrightarrow> s = t"
  by (induction bs arbitrary: s t) (auto simp: crc_update_def dest: crc_update_byte_inj_state)

lemma crc32c_serial:
  "crc32c bytes = foldl crc_serial_byte 0xffffffff bytes XOR 0xffffffff"
proof -
  have "crc_update_byte = crc_serial_byte" by (intro ext) (rule crc_update_byte_serial)
  then show ?thesis by (simp add: crc32c_def crc_update_def)
qed

lemma crc32c_single_byte_eq:
  assumes "crc32c (us @ [b] @ vs) = crc32c (us @ [c] @ vs)"
  shows "b = c"
proof -
  let ?s = "crc_update 0xffffffff us"
  have "crc_update (crc_update_byte ?s b) vs = crc_update (crc_update_byte ?s c) vs"
    using assms unfolding crc32c_def xor_left_inj by (simp add: crc_update_def)
  then have "crc_update_byte ?s b = crc_update_byte ?s c" by (rule crc_update_inj_state)
  then show ?thesis by (rule crc_update_byte_inj_byte)
qed

end
