(* ===== verification/Core_Canonical.thy ===== *)
theory Core_Canonical
  imports Core_Hash
begin

unbundle bit_operations_syntax

section \<open>Canonical encoding\<close>

text \<open>
  \<open>core/canonical.hpp\<close>. A writer operation is the bytes it appends; a document is their
  concatenation in call order. A reader is the input, an offset and a sticky status: every
  operation returns its value and the next reader, and the first failure poisons it.

  \<open>reader_op\<close> is the contract of every reader operation (total, sticky, inside the
  input); \<open>field_codec\<close> adds that it reads back what its writer appended, and
  \<open>element_codec\<close> lifts that to the counted loops of the document decoders.
\<close>

subsection \<open>Writer\<close>

definition w_le :: "nat \<Rightarrow> 'a::len word \<Rightarrow> byte list" where
  "w_le n v = map (\<lambda>i. ucast (drop_bit (8 * i) v AND 0xff)) [0..<n]"

definition w_u8 :: "u8 \<Rightarrow> byte list" where "w_u8 v = [v]"
definition w_u16 :: "u16 \<Rightarrow> byte list" where "w_u16 v = w_le 2 v"
definition w_u32 :: "u32 \<Rightarrow> byte list" where "w_u32 v = w_le 4 v"
definition w_u64 :: "u64 \<Rightarrow> byte list" where "w_u64 v = w_le 8 v"

definition w_boolean :: "bool \<Rightarrow> byte list" where
  "w_boolean b = w_u8 (if b then 1 else 0)"

definition w_size32 :: "nat \<Rightarrow> byte list" where
  "w_size32 n = w_u32 (of_nat n)"

definition w_blob :: "byte list \<Rightarrow> byte list" where
  "w_blob bytes = w_size32 (length bytes) @ bytes"

definition byte_of_char :: "char \<Rightarrow> byte" where
  "byte_of_char c = of_nat (of_char c)"

definition char_of_byte :: "byte \<Rightarrow> char" where
  "char_of_byte b = char_of (unat b)"

definition w_text :: "string \<Rightarrow> byte list" where
  "w_text s = w_size32 (length s) @ map byte_of_char s"

definition w_digest :: "digest \<Rightarrow> byte list" where
  "w_digest d = w_u64 (d_hi d) @ w_u64 (d_lo d)"

definition w_resource_id :: "resource_id \<Rightarrow> byte list" where
  "w_resource_id i = w_text i"

definition w_ids :: "resource_id list \<Rightarrow> byte list" where
  "w_ids xs = w_size32 (length xs) @ concat (map w_resource_id xs)"

lemma char_of_byte_of_char [simp]: "char_of_byte (byte_of_char c) = c"
proof -
  have "(of_char c :: nat) < 256" by (metis of_char_mod_256 mod_less_divisor zero_less_numeral)
  then show ?thesis by (simp add: char_of_byte_def byte_of_char_def unat_of_nat)
qed

lemma map_char_of_byte [simp]: "map (char_of_byte \<circ> byte_of_char) s = s"
  by (induction s) simp_all

subsection \<open>Reader\<close>

record reader =
  r_input :: "byte list"
  r_offset :: nat
  r_ok :: bool
  r_status :: status

definition reader_init :: "byte list \<Rightarrow> reader" where
  "reader_init bytes = \<lparr>r_input = bytes, r_offset = 0, r_ok = True, r_status = ok_status\<rparr>"

definition r_remaining :: "reader \<Rightarrow> nat" where
  "r_remaining r = (if r_offset r \<le> length (r_input r) then length (r_input r) - r_offset r else 0)"

definition r_at_end :: "reader \<Rightarrow> bool" where
  "r_at_end r \<longleftrightarrow> r_ok r \<and> r_offset r = length (r_input r)"

definition r_poison :: "status_code \<Rightarrow> string \<Rightarrow> reader \<Rightarrow> reader" where
  "r_poison code message r =
     (if r_ok r then r\<lparr>r_ok := False, r_status := mk_status code message\<rparr> else r)"

definition r_require :: "nat \<Rightarrow> reader \<Rightarrow> bool \<times> reader" where
  "r_require needed r =
     (if \<not> r_ok r then (False, r)
      else if needed > r_remaining r
        then (False, r_poison InvalidArgument ''canonical document truncated'' r)
      else (True, r))"

definition r_u8 :: "reader \<Rightarrow> u8 \<times> reader" where
  "r_u8 r =
     (let (fits, r1) = r_require 1 r
      in if \<not> fits then (0, r1)
         else (r_input r1 ! r_offset r1, r1\<lparr>r_offset := r_offset r1 + 1\<rparr>))"

fun r_le :: "nat list \<Rightarrow> 'a::len word \<Rightarrow> reader \<Rightarrow> 'a word \<times> reader" where
  "r_le [] v r = (v, r)"
| "r_le (i # is) v r =
     (let (b, r1) = r_u8 r in r_le is (v OR push_bit (8 * i) (ucast b)) r1)"

definition r_u16 :: "reader \<Rightarrow> u16 \<times> reader" where "r_u16 r = r_le [0..<2] 0 r"
definition r_u32 :: "reader \<Rightarrow> u32 \<times> reader" where "r_u32 r = r_le [0..<4] 0 r"
definition r_u64 :: "reader \<Rightarrow> u64 \<times> reader" where "r_u64 r = r_le [0..<8] 0 r"

definition r_boolean :: "reader \<Rightarrow> bool \<times> reader" where
  "r_boolean r =
     (let (raw, r1) = r_u8 r;
          r2 = (if r_ok r1 \<and> raw > 1
                then r_poison InvalidArgument ''boolean byte out of domain'' r1 else r1)
      in (raw = 1, r2))"

definition r_blob :: "nat \<Rightarrow> reader \<Rightarrow> byte list \<times> reader" where
  "r_blob max_bytes r =
     (let (len, r1) = r_u32 r
      in if \<not> r_ok r1 then ([], r1)
         else if unat len > max_bytes
           then ([], r_poison LimitExceeded ''blob length exceeds bound'' r1)
         else let (fits, r2) = r_require (unat len) r1
              in if \<not> fits then ([], r2)
                 else (take (unat len) (drop (r_offset r2) (r_input r2)),
                       r2\<lparr>r_offset := r_offset r2 + unat len\<rparr>))"

definition r_text :: "nat \<Rightarrow> reader \<Rightarrow> string \<times> reader" where
  "r_text max_bytes r =
     (let (bytes, r1) = r_blob max_bytes r
      in if \<not> r_ok r1 then ([], r1) else (map char_of_byte bytes, r1))"

definition r_digest :: "reader \<Rightarrow> digest \<times> reader" where
  "r_digest r = (let (hi, r1) = r_u64 r; (lo, r2) = r_u64 r1 in (Digest hi lo, r2))"

definition r_resource_id :: "reader \<Rightarrow> resource_id result \<times> reader" where
  "r_resource_id r =
     (let (raw, r1) = r_text kMaxResourceIdLength r
      in if \<not> r_ok r1 then (Inl (r_status r1), r1) else (parse_resource_id raw, r1))"

definition r_require_end :: "reader \<Rightarrow> reader" where
  "r_require_end r =
     (if r_ok r \<and> r_offset r \<noteq> length (r_input r)
      then r_poison TrailingGarbage ''bytes remain after canonical document'' r else r)"

text \<open>
  Three idioms of the decoders: stop when the reader failed, read an identity or stop, and
  the final check that the document ends here.
\<close>

definition r_check :: "reader \<Rightarrow> reader result" where
  "r_check r = (if r_ok r then Inr r else Inl (r_status r))"

definition r_checked_id :: "reader \<Rightarrow> (resource_id \<times> reader) result" where
  "r_checked_id r =
     (let (i, r1) = r_resource_id r
      in try_result (r_check r1) (\<lambda>r2. try_result i (\<lambda>x. Inr (x, r2))))"

definition r_finish :: "reader \<Rightarrow> reader result" where
  "r_finish r = r_check (r_require_end r)"

fun read_loop :: "nat \<Rightarrow> (reader \<Rightarrow> ('a \<times> reader) result) \<Rightarrow> 'a list \<Rightarrow> reader \<Rightarrow>
    ('a list \<times> reader) result" where
  "read_loop 0 body acc r = Inr (acc, r)"
| "read_loop (Suc n) body acc r =
     try_result (body r) (\<lambda>(x, r'). read_loop n body (acc @ [x]) r')"

definition read_ids :: "nat \<Rightarrow> reader \<Rightarrow> (resource_id list \<times> reader) result" where
  "read_ids max_entries r =
     (let (n, r1) = r_u32 r
      in try_result (r_check r1) (\<lambda>r2.
           if unat n > max_entries
           then err LimitExceeded ''encoded identifier list exceeds bound''
           else read_loop (unat n) r_checked_id [] r2))"

subsection \<open>Every reader operation is total and sticky\<close>

text \<open>The offset never leaves the input, and the input never changes.\<close>

definition r_wf :: "reader \<Rightarrow> bool" where
  "r_wf r \<longleftrightarrow> r_offset r \<le> length (r_input r)"

definition r_step_ok :: "reader \<Rightarrow> reader \<Rightarrow> bool" where
  "r_step_ok r r' \<longleftrightarrow>
     r_input r' = r_input r \<and> r_offset r \<le> r_offset r' \<and> (r_wf r \<longrightarrow> r_wf r') \<and>
     (\<not> r_ok r \<longrightarrow> r' = r) \<and> (\<not> r_ok r' \<longrightarrow> \<not> r_ok r \<or> scode (r_status r') \<noteq> Ok) "

lemma r_step_ok_refl [intro!, simp]: "r_step_ok r r"
  by (simp add: r_step_ok_def)

lemma r_step_ok_trans: "r_step_ok r r1 \<Longrightarrow> r_step_ok r1 r2 \<Longrightarrow> r_step_ok r r2"
  by (auto simp: r_step_ok_def)

locale reader_op =
  fixes rd :: "reader \<Rightarrow> 'a \<times> reader"
  assumes step: "r_step_ok r (snd (rd r))"
begin

lemma sticky: "\<not> r_ok r \<Longrightarrow> snd (rd r) = r"
  using step [of r] by (simp add: r_step_ok_def)

lemma keeps_input: "r_input (snd (rd r)) = r_input r"
  using step [of r] by (simp add: r_step_ok_def)

lemma in_bounds: "r_wf r \<Longrightarrow> r_wf (snd (rd r))"
  using step [of r] by (simp add: r_step_ok_def)

lemma ok_before: "r_ok (snd (rd r)) \<Longrightarrow> r_ok r"
  using sticky by metis

end

lemma r_poison_step: "c \<noteq> Ok \<Longrightarrow> r_step_ok r (r_poison c m r)"
  by (simp add: r_step_ok_def r_poison_def r_wf_def)

lemma r_u8_step: "r_step_ok r (snd (r_u8 r))"
  by (auto simp: r_step_ok_def r_u8_def r_require_def r_poison_def r_wf_def r_remaining_def Let_def)

lemma r_le_step: "r_step_ok r (snd (r_le is v r))"
proof (induction "is" v r rule: r_le.induct)
  case (2 i "is" v r)
  have "r_step_ok (snd (r_u8 r)) (snd (r_le is (v OR push_bit (8 * i) (ucast (fst (r_u8 r)))) (snd (r_u8 r))))"
    by (rule "2.IH" [OF refl prod.collapse])
  then show ?case
    using r_step_ok_trans [OF r_u8_step [of r]] by (simp add: Let_def case_prod_beta)
qed simp

lemma r_blob_step: "r_step_ok r (snd (r_blob n r))"
proof -
  have u: "r_step_ok r (snd (r_u32 r))" unfolding r_u32_def by (rule r_le_step)
  have "r_step_ok (snd (r_u32 r)) (snd (r_blob n r))"
    by (auto simp: r_step_ok_def r_blob_def r_require_def r_poison_def r_wf_def r_remaining_def
        Let_def case_prod_beta)
  with u show ?thesis by (rule r_step_ok_trans)
qed

lemma r_text_snd: "snd (r_text n r) = snd (r_blob n r)"
  by (simp add: r_text_def Let_def case_prod_beta)

lemma r_boolean_step: "r_step_ok r (snd (r_boolean r))"
proof -
  have "r_step_ok (snd (r_u8 r)) (snd (r_boolean r))"
    by (auto simp: r_boolean_def Let_def case_prod_beta intro: r_poison_step)
  then show ?thesis using r_u8_step r_step_ok_trans by blast
qed

interpretation rd_u8: reader_op r_u8
  by unfold_locales (rule r_u8_step)

interpretation rd_u16: reader_op r_u16
  unfolding r_u16_def by unfold_locales (rule r_le_step)

interpretation rd_u32: reader_op r_u32
  unfolding r_u32_def by unfold_locales (rule r_le_step)

interpretation rd_u64: reader_op r_u64
  unfolding r_u64_def by unfold_locales (rule r_le_step)

interpretation rd_boolean: reader_op r_boolean
  by unfold_locales (rule r_boolean_step)

interpretation rd_blob: reader_op "r_blob n" for n
  by unfold_locales (rule r_blob_step)

interpretation rd_text: reader_op "r_text n" for n
  by unfold_locales (simp add: r_text_snd r_blob_step)

lemma r_digest_step: "r_step_ok r (snd (r_digest r))"
  by (auto simp: r_digest_def Let_def case_prod_beta intro: r_step_ok_trans rd_u64.step)

interpretation rd_digest: reader_op r_digest
  by unfold_locales (rule r_digest_step)

interpretation rd_resource_id: reader_op r_resource_id
  by unfold_locales (simp add: r_resource_id_def Let_def case_prod_beta rd_text.step)

subsection \<open>Reading back what was written\<close>

text \<open>A reader positioned between the bytes it consumed and the bytes still ahead.\<close>

definition reader_at :: "byte list \<Rightarrow> byte list \<Rightarrow> reader" where
  "reader_at done rest =
     \<lparr>r_input = done @ rest, r_offset = length done, r_ok = True, r_status = ok_status\<rparr>"

lemma reader_init_at [codec_simps]: "reader_init bytes = reader_at [] bytes"
  by (simp add: reader_init_def reader_at_def)

lemma r_ok_reader_at [simp, codec_simps]: "r_ok (reader_at d rest)"
  by (simp add: reader_at_def)

lemma r_check_reader_at [codec_simps]: "r_check (reader_at d rest) = Inr (reader_at d rest)"
  by (simp add: r_check_def)

lemma r_finish_reader_at [codec_simps]: "r_finish (reader_at d []) = Inr (reader_at d [])"
  by (simp add: r_finish_def r_check_def r_require_end_def reader_at_def)

lemma r_u8_reader_at: "r_u8 (reader_at d (b # rest)) = (b, reader_at (d @ [b]) rest)"
  by (simp add: r_u8_def r_require_def r_remaining_def reader_at_def Let_def nth_append)

locale field_codec = reader_op rd
  for rd :: "reader \<Rightarrow> 'a \<times> reader" +
  fixes wr :: "'a \<Rightarrow> byte list"
    and valid :: "'a \<Rightarrow> bool"
  assumes read_back:
    "valid v \<Longrightarrow> rd (reader_at d (wr v @ rest)) = (v, reader_at (d @ wr v) rest)"
begin

lemma read_last: "valid v \<Longrightarrow> rd (reader_at d (wr v)) = (v, reader_at (d @ wr v) [])"
  using read_back [of v d "[]"] by simp

lemma write_inj: "valid v \<Longrightarrow> valid w \<Longrightarrow> wr v = wr w \<Longrightarrow> v = w"
  by (metis fst_conv read_last)

lemma write_prefix_free:
  "valid v \<Longrightarrow> valid w \<Longrightarrow> wr v @ xs = wr w @ ys \<Longrightarrow> v = w \<and> xs = ys"
  using read_back [of v "[]" xs] read_back [of w "[]" ys]
  by (metis fst_conv same_append_eq)

end

lemma w_byte_step:
  assumes "8 * k + 8 \<le> LENGTH('a::len)"
  shows "take_bit (8 * k) v OR push_bit (8 * k) (ucast (ucast (drop_bit (8 * k) v AND 0xff) :: byte))
     = take_bit (8 * Suc k) (v :: 'a word)"
proof (rule bit_word_eqI)
  fix n
  assume "n < LENGTH('a)"
  have ff: "(0xff :: 'a word) = mask 8" by (simp add: mask_eq_exp_minus_1)
  show "bit (take_bit (8 * k) v OR push_bit (8 * k) (ucast (ucast (drop_bit (8 * k) v AND 0xff) :: byte))) n
      = bit (take_bit (8 * Suc k) v) n"
    unfolding ff using \<open>n < LENGTH('a)\<close> assms
    by (auto simp: bit_or_iff bit_take_bit_iff bit_push_bit_iff bit_ucast_iff bit_and_iff
        bit_drop_bit_eq bit_mask_iff)
qed

lemma r_le_read_back:
  assumes "8 * n \<le> LENGTH('a::len)" and "k \<le> n"
  shows "r_le [k..<n] (take_bit (8 * k) v)
      (reader_at d (map (\<lambda>i. ucast (drop_bit (8 * i) v AND 0xff)) [k..<n] @ rest))
    = (take_bit (8 * n) (v :: 'a word),
       reader_at (d @ map (\<lambda>i. ucast (drop_bit (8 * i) v AND 0xff)) [k..<n]) rest)"
  using assms(2)
proof (induction "n - k" arbitrary: k d)
  case 0
  then show ?case by simp
next
  case (Suc m)
  then have k: "k < n" and m: "m = n - Suc k" by simp_all
  let ?b = "ucast (drop_bit (8 * k) v AND 0xff) :: byte"
  have r: "[k..<n] = k # [Suc k..<n]" using k by (simp add: upt_conv_Cons)
  have s: "take_bit (8 * k) v OR push_bit (8 * k) (ucast ?b) = take_bit (8 * Suc k) v"
    using assms(1) k by (intro w_byte_step) simp
  show ?case
    using Suc.hyps(1) [OF m, of "d @ [?b]"] k s
    unfolding r by (simp add: r_u8_reader_at Let_def)
qed

lemma w_le_read_back:
  assumes "8 * n = LENGTH('a::len)"
  shows "r_le [0..<n] 0 (reader_at d (w_le n v @ rest)) = (v :: 'a word, reader_at (d @ w_le n v) rest)"
  using r_le_read_back [of n 0 v d rest] assms by (simp add: w_le_def take_bit_word_eq_self)

interpretation f_u8: field_codec r_u8 w_u8 "\<lambda>_. True"
  by unfold_locales (simp add: w_u8_def r_u8_reader_at)

interpretation f_u16: field_codec r_u16 w_u16 "\<lambda>_. True"
  by unfold_locales (simp add: r_u16_def w_u16_def w_le_read_back)

interpretation f_u32: field_codec r_u32 w_u32 "\<lambda>_. True"
  by unfold_locales (simp add: r_u32_def w_u32_def w_le_read_back)

interpretation f_u64: field_codec r_u64 w_u64 "\<lambda>_. True"
  by unfold_locales (simp add: r_u64_def w_u64_def w_le_read_back)

interpretation f_boolean: field_codec r_boolean w_boolean "\<lambda>_. True"
  by unfold_locales (auto simp: r_boolean_def w_boolean_def w_u8_def r_u8_reader_at)

lemma r_digest_read_back:
  "r_digest (reader_at d (w_digest v @ rest)) = (v, reader_at (d @ w_digest v) rest)"
  by (simp add: r_digest_def w_digest_def f_u64.read_back)

interpretation f_digest: field_codec r_digest w_digest "\<lambda>_. True"
  by unfold_locales (rule r_digest_read_back)

lemma unat_size32: "n < 2 ^ 32 \<Longrightarrow> unat (of_nat n :: u32) = n"
  by (simp add: unat_of_nat)

lemma r_blob_read_back:
  assumes "length bytes \<le> n" and "length bytes < 2 ^ 32"
  shows "r_blob n (reader_at d (w_blob bytes @ rest)) = (bytes, reader_at (d @ w_blob bytes) rest)"
  using assms
  by (simp add: r_blob_def w_blob_def w_size32_def f_u32.read_back unat_size32 r_require_def
      r_remaining_def)
     (simp add: reader_at_def)

interpretation f_blob: field_codec "r_blob n" w_blob "\<lambda>bytes. length bytes \<le> n \<and> length bytes < 2 ^ 32" for n
  by unfold_locales (simp add: r_blob_read_back)

lemma w_text_blob: "w_text s = w_blob (map byte_of_char s)"
  by (simp add: w_text_def w_blob_def)

lemma r_text_read_back:
  assumes "length s \<le> n" and "length s < 2 ^ 32"
  shows "r_text n (reader_at d (w_text s @ rest)) = (s, reader_at (d @ w_text s) rest)"
  using assms by (simp add: r_text_def w_text_blob f_blob.read_back)

interpretation f_text: field_codec "r_text n" w_text "\<lambda>s. length s \<le> n \<and> length s < 2 ^ 32" for n
  by unfold_locales (simp add: r_text_read_back)

lemma r_checked_id_read_back:
  assumes "is_valid_resource_id x"
  shows "r_checked_id (reader_at d (w_resource_id x @ rest)) = Inr (x, reader_at (d @ w_resource_id x) rest)"
proof -
  have "length x \<le> 63" using valid_resource_id_length [OF assms] by simp
  then show ?thesis
    using assms by (simp add: r_checked_id_def r_resource_id_def w_resource_id_def kMaxResourceIdLength_def
        f_text.read_back r_check_reader_at)
qed

lemmas field_read_back [codec_simps] =
  f_u8.read_back [OF TrueI] f_u16.read_back [OF TrueI] f_u32.read_back [OF TrueI]
  f_u64.read_back [OF TrueI] f_boolean.read_back [OF TrueI] f_digest.read_back [OF TrueI]
  f_u8.read_last [OF TrueI] f_u16.read_last [OF TrueI] f_u32.read_last [OF TrueI]
  f_u64.read_last [OF TrueI] f_boolean.read_last [OF TrueI] f_digest.read_last [OF TrueI]
  f_text.read_back f_blob.read_back r_checked_id_read_back

subsection \<open>Counted loops and whole documents\<close>

locale element_codec =
  fixes body :: "reader \<Rightarrow> ('b \<times> reader) result"
    and wr :: "'a \<Rightarrow> byte list"
    and view :: "'a \<Rightarrow> 'b"
    and valid :: "'a \<Rightarrow> bool"
  assumes element_back:
    "valid v \<Longrightarrow> body (reader_at d (wr v @ rest)) = Inr (view v, reader_at (d @ wr v) rest)"
begin

lemma loop_back:
  "(\<And>x. x \<in> set xs \<Longrightarrow> valid x) \<Longrightarrow>
   read_loop (length xs) body acc (reader_at d (concat (map wr xs) @ rest))
     = Inr (acc @ map view xs, reader_at (d @ concat (map wr xs)) rest)"
proof (induction xs arbitrary: acc d)
  case Nil
  then show ?case by simp
next
  case (Cons x xs)
  have "read_loop (length xs) body (acc @ [view x]) (reader_at (d @ wr x) (concat (map wr xs) @ rest))
      = Inr ((acc @ [view x]) @ map view xs, reader_at ((d @ wr x) @ concat (map wr xs)) rest)"
    using Cons.prems by (intro Cons.IH) simp
  then show ?case using Cons.prems by (simp add: element_back)
qed

lemma loop_back_last:
  "(\<And>x. x \<in> set xs \<Longrightarrow> valid x) \<Longrightarrow>
   read_loop (length xs) body acc (reader_at d (concat (map wr xs)))
     = Inr (acc @ map view xs, reader_at (d @ concat (map wr xs)) [])"
  using loop_back [of xs acc d "[]"] by simp

end

interpretation e_id: element_codec r_checked_id w_resource_id "\<lambda>x. x" is_valid_resource_id
  by unfold_locales (rule r_checked_id_read_back)

lemma read_ids_back [codec_simps]:
  assumes "\<And>x. x \<in> set xs \<Longrightarrow> is_valid_resource_id x" and "length xs \<le> n" and "length xs < 2 ^ 32"
  shows "read_ids n (reader_at d (w_ids xs @ rest)) = Inr (xs, reader_at (d @ w_ids xs) rest)"
  using assms e_id.loop_back [of xs "[]"]
  by (simp add: read_ids_def w_ids_def w_size32_def f_u32.read_back unat_size32 r_check_reader_at)

text \<open>
  A document codec: what it encodes it decodes, so on its valid values the encoding
  identifies the value.
\<close>

locale document_codec =
  fixes enc :: "'a \<Rightarrow> byte list"
    and dec :: "byte list \<Rightarrow> 'a result"
    and valid :: "'a \<Rightarrow> bool"
  assumes decode_encode: "valid x \<Longrightarrow> dec (enc x) = Inr x"
begin

lemma encode_inj: "valid x \<Longrightarrow> valid y \<Longrightarrow> enc x = enc y \<Longrightarrow> x = y"
  using decode_encode by (metis sum.inject(2))

lemma encode_inj_on: "inj_on enc {x. valid x}"
  using encode_inj by (auto intro: inj_onI)

end

end
