(* ===== verification/Model_Topology.thy ===== *)
theory Model_Topology
  imports Core_Canonical
begin

section \<open>Topology definitions\<close>

text \<open>
  \<open>model/topology.hpp\<close> and \<open>src/model/topology.cpp\<close>: validation and materialisation of a
  topology description, its indexed adjacency, its canonical encoding and decoder. A node
  index is a natural number below the node count (at most 65536, so a \<open>uint32\<close> never
  wraps). \<open>wf_topology\<close> is the class invariant; \<open>topology_build_wf\<close> shows that every
  accepted description satisfies it.
\<close>

subsection \<open>Enumerations\<close>

datatype edge_evidence = EdgeProven | EdgeUnknown | EdgeRefuted

datatype adjacency_completeness = AdjComplete | AdjPartial | AdjUnknown

definition kEdgeTokens :: "(edge_evidence \<times> string) list" where
  "kEdgeTokens = [(EdgeProven, ''proven''), (EdgeUnknown, ''unknown''), (EdgeRefuted, ''refuted'')]"

definition kCompletenessTokens :: "(adjacency_completeness \<times> string) list" where
  "kCompletenessTokens =
     [(AdjComplete, ''complete''), (AdjPartial, ''partial''), (AdjUnknown, ''unknown'')]"

definition edge_evidence_to_string :: "edge_evidence \<Rightarrow> string" where
  "edge_evidence_to_string v = token_of kEdgeTokens ''unrecognised_edge_evidence'' v"

definition parse_edge_evidence :: "string \<Rightarrow> edge_evidence option" where
  "parse_edge_evidence t = parse_token kEdgeTokens t"

definition completeness_to_string :: "adjacency_completeness \<Rightarrow> string" where
  "completeness_to_string v = token_of kCompletenessTokens ''unrecognised_adjacency_completeness'' v"

definition parse_adjacency_completeness :: "string \<Rightarrow> adjacency_completeness option" where
  "parse_adjacency_completeness t = parse_token kCompletenessTokens t"

interpretation edge_tokens: token_map kEdgeTokens
proof unfold_locales
  show "x \<in> fst ` set kEdgeTokens" for x by (cases x) (simp_all add: kEdgeTokens_def)
qed (simp_all add: kEdgeTokens_def)

interpretation completeness_tokens: token_map kCompletenessTokens
proof unfold_locales
  show "x \<in> fst ` set kCompletenessTokens" for x
    by (cases x) (simp_all add: kCompletenessTokens_def)
qed (simp_all add: kCompletenessTokens_def)

definition edge_evidence_vals :: "edge_evidence list" where
  "edge_evidence_vals = [EdgeProven, EdgeUnknown, EdgeRefuted]"

definition completeness_vals :: "adjacency_completeness list" where
  "completeness_vals = [AdjComplete, AdjPartial, AdjUnknown]"

interpretation edge_enum: byte_enum edge_evidence_vals
proof unfold_locales
  show "x \<in> set edge_evidence_vals" for x by (cases x) (simp_all add: edge_evidence_vals_def)
qed (simp_all add: edge_evidence_vals_def)

interpretation completeness_enum: byte_enum completeness_vals
proof unfold_locales
  show "x \<in> set completeness_vals" for x by (cases x) (simp_all add: completeness_vals_def)
qed (simp_all add: completeness_vals_def)

subsection \<open>Descriptions and definitions\<close>

record node_spec =
  ns_id :: resource_id
  ns_containable :: bool
  ns_weight :: u64
  ns_protected :: bool
  ns_completeness :: adjacency_completeness

record edge_spec =
  es_from :: resource_id
  es_to :: resource_id
  es_evidence :: edge_evidence
  es_generation :: evidence_generation

record topology_spec =
  ts_generation :: topology_generation
  ts_nodes :: "node_spec list"
  ts_edges :: "edge_spec list"

record topo_edge =
  te_from :: nat
  te_to :: nat
  te_evidence :: edge_evidence
  te_generation :: evidence_generation

record topology =
  t_generation :: topology_generation
  t_nodes :: "node_spec list"
  t_edges :: "topo_edge list"
  t_out :: "nat list list"
  t_in :: "nat list list"
  t_lookup :: "resource_id \<rightharpoonup> nat"
  t_digest :: digest

subsection \<open>Canonical encoding\<close>

definition w_node :: "node_spec \<Rightarrow> byte list" where
  "w_node node =
     w_resource_id (ns_id node) @ w_boolean (ns_containable node) @ w_u64 (ns_weight node) @
     w_boolean (ns_protected node) @ w_u8 (enum_code completeness_vals (ns_completeness node))"

definition w_edge :: "topo_edge \<Rightarrow> byte list" where
  "w_edge edge =
     w_size32 (te_from edge) @ w_size32 (te_to edge) @
     w_u8 (enum_code edge_evidence_vals (te_evidence edge)) @ w_u64 (te_generation edge)"

definition encode_definition ::
  "topology_generation \<Rightarrow> node_spec list \<Rightarrow> topo_edge list \<Rightarrow> byte list" where
  "encode_definition generation nodes edges =
     w_u64 generation @
     w_size32 (length nodes) @ concat (map w_node nodes) @
     w_size32 (length edges) @ concat (map w_edge edges)"

definition topology_encode :: "topology \<Rightarrow> byte list" where
  "topology_encode t = encode_definition (t_generation t) (t_nodes t) (t_edges t)"

subsection \<open>Validation and materialisation\<close>

text \<open>The loop over the sorted nodes: checks each node and fills the lookup table.\<close>

fun materialise_nodes ::
  "nat \<Rightarrow> resource_id option \<Rightarrow> (resource_id \<rightharpoonup> nat) \<Rightarrow> node_spec list \<Rightarrow>
   (resource_id \<rightharpoonup> nat) result" where
  "materialise_nodes i prev lookup [] = Inr lookup"
| "materialise_nodes i prev lookup (node # nodes) =
     (if \<not> is_valid_resource_id (ns_id node)
        then err InvalidArgument ''node id is not in canonical form''
      else if prev = Some (ns_id node) then err InvalidArgument ''duplicate node id''
      else if ns_weight node = 0 \<or> ns_weight node > kMaxNodeWeight
        then err InvalidArgument ''node weight out of range''
      else if ns_protected node \<and> ns_containable node
        then err InvalidArgument ''protected obligation may not be pre-marked containable''
      else materialise_nodes (Suc i) (Some (ns_id node))
             (if lookup (ns_id node) = None then lookup(ns_id node \<mapsto> i) else lookup) nodes)"

definition resolve_edge :: "(resource_id \<rightharpoonup> nat) \<Rightarrow> edge_spec \<Rightarrow> topo_edge result" where
  "resolve_edge lookup edge =
     (case lookup (es_from edge) of
        None \<Rightarrow> err NotFound ''edge endpoint is not a known node''
      | Some from \<Rightarrow> (case lookup (es_to edge) of
          None \<Rightarrow> err NotFound ''edge endpoint is not a known node''
        | Some to \<Rightarrow>
            if from = to then err InvalidArgument ''self-referential propagation edge''
            else if es_generation edge = 0
              then err InvalidArgument ''edge evidence generation must be non-zero''
            else Inr \<lparr>te_from = from, te_to = to, te_evidence = es_evidence edge,
                      te_generation = es_generation edge\<rparr>))"

fun resolve_edges :: "(resource_id \<rightharpoonup> nat) \<Rightarrow> edge_spec list \<Rightarrow> topo_edge list result" where
  "resolve_edges lookup [] = Inr []"
| "resolve_edges lookup (edge # edges) =
     try_result (resolve_edge lookup edge) (\<lambda>e.
       try_result (resolve_edges lookup edges) (\<lambda>es. Inr (e # es)))"

definition edge_key :: "topo_edge \<Rightarrow> nat \<times> nat" where
  "edge_key e = (te_from e, te_to e)"

fun has_duplicate_edge :: "topo_edge list \<Rightarrow> bool" where
  "has_duplicate_edge (a # b # es) =
     (if te_from b = te_from a \<and> te_to b = te_to a then True else has_duplicate_edge (b # es))"
| "has_duplicate_edge _ = False"

definition index_edges :: "(topo_edge \<Rightarrow> nat) \<Rightarrow> nat \<Rightarrow> topo_edge list \<Rightarrow> nat list list" where
  "index_edges endpoint n edges =
     foldl (\<lambda>adj (i, e). adj[endpoint e := adj ! endpoint e @ [i]]) (replicate n [])
       (zip [0..<length edges] edges)"

definition topology_finalize ::
  "topology_generation \<Rightarrow> node_spec list \<Rightarrow> (resource_id \<rightharpoonup> nat) \<Rightarrow> topo_edge list \<Rightarrow> topology" where
  "topology_finalize generation nodes lookup edges =
     \<lparr>t_generation = generation, t_nodes = nodes, t_edges = edges,
      t_out = index_edges te_from (length nodes) edges,
      t_in = index_edges te_to (length nodes) edges,
      t_lookup = lookup,
      t_digest = digest_of (encode_definition generation nodes edges)\<rparr>"

definition topology_build :: "topology_spec \<Rightarrow> topology result" where
  "topology_build spec =
     (if ts_generation spec = 0 then err InvalidArgument ''topology generation must be non-zero''
      else if length (ts_nodes spec) > kMaxTopologyNodes
        then err LimitExceeded ''topology node count exceeds bound''
      else if length (ts_edges spec) > kMaxTopologyEdges
        then err LimitExceeded ''topology edge count exceeds bound''
      else if ts_nodes spec = [] then err InvalidArgument ''topology must contain at least one node''
      else let nodes = sort_key ns_id (ts_nodes spec) in
        try_result (materialise_nodes 0 None Map.empty nodes) (\<lambda>lookup.
        try_result (resolve_edges lookup (ts_edges spec)) (\<lambda>raw.
          let edges = sort_key edge_key raw in
          if has_duplicate_edge edges then err AlreadyExists ''duplicate propagation edge''
          else Inr (topology_finalize (ts_generation spec) nodes lookup edges))))"

definition topology_find :: "topology \<Rightarrow> resource_id \<Rightarrow> nat option" where
  "topology_find t i = t_lookup t i"

definition out_edges :: "topology \<Rightarrow> nat \<Rightarrow> nat list" where
  "out_edges t i = t_out t ! i"

definition in_edges :: "topology \<Rightarrow> nat \<Rightarrow> nat list" where
  "in_edges t i = t_in t ! i"

definition node_count :: "topology \<Rightarrow> nat" where
  "node_count t = length (t_nodes t)"

subsection \<open>Decoder\<close>

definition read_node :: "reader \<Rightarrow> (node_spec \<times> reader) result" where
  "read_node r =
     try_result (r_checked_id r) (\<lambda>(i, r1).
       let (containable, r2) = r_boolean r1;
           (weight, r3) = r_u64 r2;
           (protected, r4) = r_boolean r3;
           (completeness, r5) = r_u8 r4
       in case (r_ok r5, enum_decode completeness_vals completeness) of
            (True, Some c) \<Rightarrow>
              Inr (\<lparr>ns_id = i, ns_containable = containable, ns_weight = weight,
                    ns_protected = protected, ns_completeness = c\<rparr>, r5)
          | _ \<Rightarrow> Inl (r_status
              (r_poison InvalidArgument ''invalid adjacency completeness value'' r5)))"

definition read_edge :: "node_spec list \<Rightarrow> reader \<Rightarrow> (edge_spec \<times> reader) result" where
  "read_edge nodes r =
     (let (from, r1) = r_u32 r;
          (to, r2) = r_u32 r1;
          (evidence, r3) = r_u8 r2;
          (generation, r4) = r_u64 r3
      in try_result (r_check r4) (\<lambda>r5.
        if unat from \<ge> length nodes \<or> unat to \<ge> length nodes
          then err InvalidArgument ''encoded edge endpoint out of range''
        else case enum_decode edge_evidence_vals evidence of
            None \<Rightarrow> err InvalidArgument ''invalid edge evidence value''
          | Some ev \<Rightarrow>
              Inr (\<lparr>es_from = ns_id (nodes ! unat from), es_to = ns_id (nodes ! unat to),
                    es_evidence = ev, es_generation = generation\<rparr>, r5)))"

definition topology_decode :: "byte list \<Rightarrow> topology result" where
  "topology_decode bytes =
     (let (generation, r1) = r_u64 (reader_init bytes);
          (n, r2) = r_u32 r1
      in try_result (r_check r2) (\<lambda>r2.
        if unat n > kMaxTopologyNodes then err LimitExceeded ''encoded node count exceeds bound''
        else try_result (read_loop (unat n) read_node [] r2) (\<lambda>(nodes, r3).
          let (m, r4) = r_u32 r3
          in try_result (r_check r4) (\<lambda>r4.
            if unat m > kMaxTopologyEdges then err LimitExceeded ''encoded edge count exceeds bound''
            else try_result (read_loop (unat m) (read_edge nodes) [] r4) (\<lambda>(edges, r5).
              try_result (r_finish r5) (\<lambda>_.
                topology_build \<lparr>ts_generation = generation, ts_nodes = nodes,
                                ts_edges = edges\<rparr>))))))"

subsection \<open>The class invariant\<close>

definition wf_node :: "node_spec \<Rightarrow> bool" where
  "wf_node n \<longleftrightarrow> is_valid_resource_id (ns_id n) \<and> 0 < ns_weight n \<and> ns_weight n \<le> kMaxNodeWeight
     \<and> \<not> (ns_protected n \<and> ns_containable n)"

definition wf_edge :: "nat \<Rightarrow> topo_edge \<Rightarrow> bool" where
  "wf_edge n e \<longleftrightarrow> te_from e < n \<and> te_to e < n \<and> te_from e \<noteq> te_to e \<and> te_generation e \<noteq> 0"

definition canonical_lookup :: "node_spec list \<Rightarrow> (resource_id \<rightharpoonup> nat)" where
  "canonical_lookup nodes = map_of (zip (map ns_id nodes) [0..<length nodes])"

definition wf_topology :: "topology \<Rightarrow> bool" where
  "wf_topology t \<longleftrightarrow>
     t_generation t \<noteq> 0 \<and> t_nodes t \<noteq> [] \<and>
     length (t_nodes t) \<le> kMaxTopologyNodes \<and> length (t_edges t) \<le> kMaxTopologyEdges \<and>
     sorted_wrt (<) (map ns_id (t_nodes t)) \<and> (\<forall>n \<in> set (t_nodes t). wf_node n) \<and>
     sorted_wrt (<) (map edge_key (t_edges t)) \<and>
     (\<forall>e \<in> set (t_edges t). wf_edge (length (t_nodes t)) e) \<and>
     t = topology_finalize (t_generation t) (t_nodes t) (canonical_lookup (t_nodes t)) (t_edges t)"

subsection \<open>What validation accepts\<close>

lemma materialise_nodes_sound:
  assumes "materialise_nodes i prev lookup nodes = Inr l"
    and "sorted (map ns_id nodes)"
    and "\<And>p n. prev = Some p \<Longrightarrow> n \<in> set nodes \<Longrightarrow> p \<le> ns_id n"
  shows "(\<forall>n \<in> set nodes. wf_node n) \<and> sorted_wrt (<) (map ns_id nodes) \<and>
    (\<forall>p. prev = Some p \<longrightarrow> (\<forall>n \<in> set nodes. p < ns_id n))"
  using assms
proof (induction i prev lookup nodes rule: materialise_nodes.induct)
  case (1 i prev lookup)
  then show ?case by simp
next
  case (2 i prev lookup node nodes)
  have ok: "is_valid_resource_id (ns_id node)" "prev \<noteq> Some (ns_id node)"
      "\<not> (ns_weight node = 0 \<or> ns_weight node > kMaxNodeWeight)"
      "\<not> (ns_protected node \<and> ns_containable node)"
    using "2.prems"(1) by (auto split: if_splits)
  have rest: "materialise_nodes (Suc i) (Some (ns_id node))
      (if lookup (ns_id node) = None then lookup(ns_id node \<mapsto> i) else lookup) nodes = Inr l"
    using "2.prems"(1) ok by simp
  have IH: "(\<forall>n \<in> set nodes. wf_node n) \<and> sorted_wrt (<) (map ns_id nodes) \<and>
      (\<forall>p. Some (ns_id node) = Some p \<longrightarrow> (\<forall>n \<in> set nodes. p < ns_id n))"
    using ok rest "2.prems"(2) by (intro "2.IH") auto
  have "p < ns_id node" if "prev = Some p" for p
    using "2.prems"(3) [OF that, of node] ok(2) that by auto
  moreover have "wf_node node" using ok by (auto simp: wf_node_def word_gt_0)
  ultimately show ?case using IH by (auto dest: order_less_trans)
qed

lemma map_add_new: "m k = None \<Longrightarrow> f(k \<mapsto> v) ++ m = f ++ m(k \<mapsto> v)"
  by (auto simp: map_add_def fun_eq_iff split: option.splits)

lemma materialise_nodes_complete:
  "\<forall>n \<in> set nodes. wf_node n \<Longrightarrow> sorted_wrt (<) (map ns_id nodes) \<Longrightarrow>
   (\<And>n. n \<in> set nodes \<Longrightarrow> prev \<noteq> Some (ns_id n)) \<Longrightarrow>
   (\<And>n. n \<in> set nodes \<Longrightarrow> lookup (ns_id n) = None) \<Longrightarrow>
   materialise_nodes i prev lookup nodes
     = Inr (lookup ++ map_of (zip (map ns_id nodes) [i..<i + length nodes]))"
proof (induction nodes arbitrary: i prev lookup)
  case Nil
  then show ?case by simp
next
  case (Cons node nodes)
  have "materialise_nodes (Suc i) (Some (ns_id node)) (lookup(ns_id node \<mapsto> i)) nodes
      = Inr (lookup(ns_id node \<mapsto> i) ++ map_of (zip (map ns_id nodes) [Suc i..<Suc i + length nodes]))"
    using Cons.prems by (intro Cons.IH) (auto simp: less_imp_neq)
  moreover have "wf_node node" "prev \<noteq> Some (ns_id node)" "lookup (ns_id node) = None"
    using Cons.prems by auto
  moreover have "[i..<i + length (node # nodes)] = i # [Suc i..<Suc i + length nodes]"
    by (simp add: upt_conv_Cons del: upt_Suc)
  moreover have "ns_id node \<notin> set (map ns_id nodes)"
    using sorted_strict_distinct [OF Cons.prems(2)] by simp
  then have "map_of (zip (map ns_id nodes) [Suc i..<Suc i + length nodes]) (ns_id node) = None"
    unfolding map_of_eq_None_iff by (metis image_iff prod.collapse set_zip_leftD)
  then have "lookup(ns_id node \<mapsto> i) ++ map_of (zip (map ns_id nodes) [Suc i..<Suc i + length nodes])
      = lookup ++ map_of ((ns_id node, i) # zip (map ns_id nodes) [Suc i..<Suc i + length nodes])"
    using map_add_new [of _ "ns_id node" lookup i] by simp
  ultimately show ?case
    by (simp add: wf_node_def word_gt_0 not_less del: upt_Suc map_of.simps)
qed

lemma materialise_nodes_iff:
  assumes "sorted (map ns_id nodes)"
  shows "materialise_nodes 0 None Map.empty nodes = Inr l \<longleftrightarrow>
    (\<forall>n \<in> set nodes. wf_node n) \<and> sorted_wrt (<) (map ns_id nodes) \<and> l = canonical_lookup nodes"
  using materialise_nodes_sound [OF _ assms, of 0 None Map.empty l]
    materialise_nodes_complete [of nodes None Map.empty 0]
  by (auto simp: canonical_lookup_def)

lemma canonical_lookup_Some:
  assumes "sorted_wrt (<) (map ns_id nodes)"
  shows "canonical_lookup nodes r = Some i \<longleftrightarrow> i < length nodes \<and> ns_id (nodes ! i) = r"
proof -
  have d: "distinct (map ns_id nodes)" using assms by (rule sorted_strict_distinct)
  show ?thesis
  proof
    assume "canonical_lookup nodes r = Some i"
    then have "(r, i) \<in> set (zip (map ns_id nodes) [0..<length nodes])"
      unfolding canonical_lookup_def by (rule map_of_SomeD)
    then show "i < length nodes \<and> ns_id (nodes ! i) = r" by (auto simp: set_zip)
  next
    assume i: "i < length nodes \<and> ns_id (nodes ! i) = r"
    then have "(map ns_id nodes ! i, [0..<length nodes] ! i) \<in> set (zip (map ns_id nodes) [0..<length nodes])"
      by (intro in_set_zip [THEN iffD2] exI [of _ i]) simp
    then have "(r, i) \<in> set (zip (map ns_id nodes) [0..<length nodes])" using i by simp
    then show "canonical_lookup nodes r = Some i"
      unfolding canonical_lookup_def using d by (intro map_of_is_SomeI) simp_all
  qed
qed

lemma resolve_edges_iff:
  "resolve_edges lookup es = Inr raw \<longleftrightarrow>
     (\<forall>e \<in> set es. is_ok (resolve_edge lookup e)) \<and> raw = map (projr \<circ> resolve_edge lookup) es"
proof (induction es arbitrary: raw)
  case Nil
  then show ?case by auto
next
  case (Cons e es)
  show ?case
    by (cases "resolve_edge lookup e") (auto simp: try_result_Inr_iff Cons.IH)
qed

lemma resolve_edge_wf:
  assumes "sorted_wrt (<) (map ns_id nodes)" and "is_ok (resolve_edge (canonical_lookup nodes) e)"
  shows "wf_edge (length nodes) (projr (resolve_edge (canonical_lookup nodes) e))"
proof -
  have "canonical_lookup nodes r = Some i \<Longrightarrow> i < length nodes" for r i
    using canonical_lookup_Some [OF assms(1)] by simp
  then show ?thesis
    using assms(2) by (auto simp: resolve_edge_def wf_edge_def split: option.splits if_splits)
qed

lemma has_duplicate_edge_iff:
  "sorted (map edge_key es) \<Longrightarrow> \<not> has_duplicate_edge es \<longleftrightarrow> sorted_wrt (<) (map edge_key es)"
proof (induction es rule: has_duplicate_edge.induct)
  case (1 a b es)
  have "edge_key a \<le> edge_key b" using "1.prems" by simp
  then have "edge_key a < edge_key b \<longleftrightarrow> \<not> (te_from b = te_from a \<and> te_to b = te_to a)"
    by (auto simp: edge_key_def order_less_le)
  moreover have "sorted_wrt (<) (map edge_key (a # b # es)) \<longleftrightarrow>
      edge_key a < edge_key b \<and> sorted_wrt (<) (map edge_key (b # es))"
    by (auto dest: order_less_trans)
  ultimately show ?case using "1.IH" "1.prems" by auto
qed simp_all

lemma wf_topology_finalize:
  "g \<noteq> 0 \<Longrightarrow> nodes \<noteq> [] \<Longrightarrow> length nodes \<le> kMaxTopologyNodes \<Longrightarrow>
   length edges \<le> kMaxTopologyEdges \<Longrightarrow> sorted_wrt (<) (map ns_id nodes) \<Longrightarrow>
   \<forall>n \<in> set nodes. wf_node n \<Longrightarrow> sorted_wrt (<) (map edge_key edges) \<Longrightarrow>
   \<forall>e \<in> set edges. wf_edge (length nodes) e \<Longrightarrow>
   wf_topology (topology_finalize g nodes (canonical_lookup nodes) edges)"
  by (simp add: wf_topology_def topology_finalize_def)

text \<open>The complete acceptance condition, and the value that is built.\<close>

definition spec_acceptable :: "topology_spec \<Rightarrow> bool" where
  "spec_acceptable spec \<longleftrightarrow>
     (let nodes = sort_key ns_id (ts_nodes spec);
          raw = map (projr \<circ> resolve_edge (canonical_lookup nodes)) (ts_edges spec)
      in ts_generation spec \<noteq> 0 \<and> ts_nodes spec \<noteq> [] \<and>
         length (ts_nodes spec) \<le> kMaxTopologyNodes \<and> length (ts_edges spec) \<le> kMaxTopologyEdges \<and>
         (\<forall>n \<in> set (ts_nodes spec). wf_node n) \<and> distinct (map ns_id (ts_nodes spec)) \<and>
         (\<forall>e \<in> set (ts_edges spec). is_ok (resolve_edge (canonical_lookup nodes) e)) \<and>
         distinct (map edge_key raw))"

lemma strict_sorted_sort_key:
  "sorted_wrt (<) (map f (sort_key f xs)) \<longleftrightarrow> distinct (map f xs)"
  by (simp add: strict_sorted_iff distinct_map)

lemma has_duplicate_edge_sort:
  "has_duplicate_edge (sort_key edge_key xs) \<longleftrightarrow> \<not> distinct (map edge_key xs)"
  using has_duplicate_edge_iff [of "sort_key edge_key xs"] strict_sorted_sort_key [of edge_key xs]
  by (simp only: sorted_sort_key simp_thms) blast

lemma topology_build_iff:
  "topology_build spec = Inr t \<longleftrightarrow> spec_acceptable spec \<and>
     t = (let nodes = sort_key ns_id (ts_nodes spec)
          in topology_finalize (ts_generation spec) nodes (canonical_lookup nodes)
               (sort_key edge_key (map (projr \<circ> resolve_edge (canonical_lookup nodes)) (ts_edges spec))))"
  by (auto simp: topology_build_def spec_acceptable_def Let_def try_result_Inr_iff
      materialise_nodes_iff resolve_edges_iff strict_sorted_sort_key has_duplicate_edge_sort
      split: if_splits)

lemma topology_build_wf:
  assumes "topology_build spec = Inr t"
  shows "wf_topology t"
proof -
  let ?n = "sort_key ns_id (ts_nodes spec)"
  let ?raw = "map (projr \<circ> resolve_edge (canonical_lookup ?n)) (ts_edges spec)"
  have acc: "spec_acceptable spec"
    and t: "t = topology_finalize (ts_generation spec) ?n (canonical_lookup ?n) (sort_key edge_key ?raw)"
    using assms by (simp_all add: topology_build_iff Let_def)
  have strict: "sorted_wrt (<) (map ns_id ?n)"
    using acc by (simp add: spec_acceptable_def Let_def strict_sorted_sort_key)
  have edges: "\<forall>e \<in> set (sort_key edge_key ?raw). wf_edge (length ?n) e"
    using acc resolve_edge_wf [OF strict] by (auto simp: spec_acceptable_def Let_def)
  have sorted: "sorted_wrt (<) (map edge_key (sort_key edge_key ?raw))"
    using acc unfolding strict_sorted_sort_key by (simp add: spec_acceptable_def Let_def)
  have nonempty: "?n \<noteq> []" using acc by (metis length_0_conv length_sort spec_acceptable_def)
  have nodes: "\<forall>n \<in> set ?n. wf_node n" "ts_generation spec \<noteq> 0"
      "length ?n \<le> kMaxTopologyNodes" "length (sort_key edge_key ?raw) \<le> kMaxTopologyEdges"
    using acc by (simp_all add: spec_acceptable_def Let_def)
  show ?thesis
    unfolding t
    by (rule wf_topology_finalize [OF nodes(2) nonempty nodes(3,4) strict nodes(1) sorted edges])
qed

subsection \<open>The accepted definition does not depend on the order of the description\<close>

lemma sort_key_mset_eq:
  "mset xs = mset ys \<Longrightarrow> distinct (map f xs) \<Longrightarrow> sort_key f xs = sort_key f ys"
  by (rule sort_key_inj_key_eq) (simp_all add: distinct_map)

lemma distinct_map_mset_eq: "mset xs = mset ys \<Longrightarrow> distinct (map f xs) \<longleftrightarrow> distinct (map f ys)"
  by (metis mset_eq_imp_distinct_iff mset_map)

lemma topology_build_mset:
  assumes nodes: "mset (ts_nodes spec) = mset (ts_nodes spec')"
    and edges: "mset (ts_edges spec) = mset (ts_edges spec')"
    and gen: "ts_generation spec = ts_generation spec'"
    and t: "topology_build spec = Inr t"
  shows "topology_build spec' = Inr t"
proof -
  have acc: "spec_acceptable spec" using t by (simp add: topology_build_iff)
  have n: "sort_key ns_id (ts_nodes spec) = sort_key ns_id (ts_nodes spec')"
    using nodes acc by (intro sort_key_mset_eq) (simp_all add: spec_acceptable_def Let_def)
  let ?f = "projr \<circ> resolve_edge (canonical_lookup (sort_key ns_id (ts_nodes spec)))"
  have raw: "mset (map ?f (ts_edges spec)) = mset (map ?f (ts_edges spec'))"
    using edges by simp
  have e: "sort_key edge_key (map ?f (ts_edges spec)) = sort_key edge_key (map ?f (ts_edges spec'))"
    using acc raw by (intro sort_key_mset_eq) (simp_all add: spec_acceptable_def Let_def)
  have "spec_acceptable spec'"
    using acc gen n mset_eq_setD [OF nodes] mset_eq_setD [OF edges] mset_eq_length [OF nodes]
      mset_eq_length [OF edges] distinct_map_mset_eq [OF nodes, of ns_id]
      distinct_map_mset_eq [OF raw, of edge_key]
    by (auto simp: spec_acceptable_def Let_def)
  then show ?thesis using t by (simp add: topology_build_iff Let_def n e [unfolded n] gen)
qed

lemma topology_find_iff:
  assumes "wf_topology t"
  shows "topology_find t r = Some i \<longleftrightarrow> i < node_count t \<and> ns_id (t_nodes t ! i) = r"
proof -
  have s: "sorted_wrt (<) (map ns_id (t_nodes t))" using assms by (simp add: wf_topology_def)
  have "t_lookup t = canonical_lookup (t_nodes t)"
    using assms by (metis topology.select_convs(6) topology_finalize_def wf_topology_def)
  then show ?thesis
    using canonical_lookup_Some [OF s] by (simp add: topology_find_def node_count_def)
qed

lemma wf_topology_ids_inj:
  assumes "wf_topology t" "i < node_count t" "j < node_count t"
    and "ns_id (t_nodes t ! i) = ns_id (t_nodes t ! j)"
  shows "i = j"
  using topology_find_iff [OF assms(1)] assms(2-4) by (metis option.inject)

subsection \<open>Adjacency\<close>

lemma index_edges_aux:
  assumes "\<forall>(i, e) \<in> set ps. endpoint e < length adj"
  shows "length (foldl (\<lambda>adj (i, e). adj[endpoint e := adj ! endpoint e @ [i]]) adj ps) = length adj \<and>
    (\<forall>v < length adj. foldl (\<lambda>adj (i, e). adj[endpoint e := adj ! endpoint e @ [i]]) adj ps ! v
       = adj ! v @ map fst (filter (\<lambda>(i, e). endpoint e = v) ps))"
  using assms
proof (induction ps arbitrary: adj)
  case Nil
  then show ?case by simp
next
  case (Cons p ps)
  obtain i e where p: "p = (i, e)" by (cases p)
  have "endpoint e < length adj" using Cons.prems p by simp
  moreover have "\<forall>(i, e) \<in> set ps. endpoint e < length (adj[endpoint e := adj ! endpoint e @ [i]])"
    using Cons.prems by auto
  ultimately show ?case
    using Cons.IH [of "adj[endpoint e := adj ! endpoint e @ [i]]"] Cons.prems
    unfolding p by (auto simp: nth_list_update)
qed

lemma index_edges_nth:
  assumes "\<forall>e \<in> set edges. endpoint e < n" and "v < n"
  shows "index_edges endpoint n edges ! v = filter (\<lambda>i. endpoint (edges ! i) = v) [0..<length edges]"
proof -
  have z: "zip [0..<length edges] edges = map (\<lambda>i. (i, edges ! i)) [0..<length edges]"
    by (rule nth_equalityI) simp_all
  have "\<forall>(i, e) \<in> set (zip [0..<length edges] edges). endpoint e < length (replicate n [])"
    using assms(1) by (auto dest: set_zip_rightD)
  from conjunct2 [OF index_edges_aux [OF this]] show ?thesis
    using assms(2) unfolding index_edges_def
    by (simp add: z filter_map o_def) 
qed

lemma out_edges_iff:
  assumes "wf_topology t" and "v < node_count t"
  shows "out_edges t v = filter (\<lambda>i. te_from (t_edges t ! i) = v) [0..<length (t_edges t)]"
proof -
  have "t_out t = index_edges te_from (length (t_nodes t)) (t_edges t)"
    using assms(1) by (metis topology.select_convs(4) topology_finalize_def wf_topology_def)
  then show ?thesis
    using index_edges_nth [of "t_edges t" te_from "length (t_nodes t)" v] assms
    by (auto simp: out_edges_def node_count_def wf_topology_def wf_edge_def)
qed

lemma in_edges_iff:
  assumes "wf_topology t" and "v < node_count t"
  shows "in_edges t v = filter (\<lambda>i. te_to (t_edges t ! i) = v) [0..<length (t_edges t)]"
proof -
  have "t_in t = index_edges te_to (length (t_nodes t)) (t_edges t)"
    using assms(1) by (metis topology.select_convs(5) topology_finalize_def wf_topology_def)
  then show ?thesis
    using index_edges_nth [of "t_edges t" te_to "length (t_nodes t)" v] assms
    by (auto simp: in_edges_def node_count_def wf_topology_def wf_edge_def)
qed

subsection \<open>Round trip\<close>

definition edge_view :: "node_spec list \<Rightarrow> topo_edge \<Rightarrow> edge_spec" where
  "edge_view nodes e =
     \<lparr>es_from = ns_id (nodes ! te_from e), es_to = ns_id (nodes ! te_to e),
      es_evidence = te_evidence e, es_generation = te_generation e\<rparr>"

lemma resolve_edge_view:
  assumes "sorted_wrt (<) (map ns_id nodes)" and "wf_edge (length nodes) e"
  shows "resolve_edge (canonical_lookup nodes) (edge_view nodes e) = Inr e"
proof -
  have l: "i < length nodes \<Longrightarrow> canonical_lookup nodes (ns_id (nodes ! i)) = Some i" for i
    using canonical_lookup_Some [OF assms(1)] by simp
  show ?thesis using assms(2) by (simp add: resolve_edge_def edge_view_def wf_edge_def l)
qed

lemma topology_build_view:
  assumes wf: "wf_topology t"
  shows "topology_build \<lparr>ts_generation = t_generation t, ts_nodes = t_nodes t,
      ts_edges = map (edge_view (t_nodes t)) (t_edges t)\<rparr> = Inr t"
proof -
  let ?n = "t_nodes t" and ?e = "t_edges t"
  have sn: "sorted_wrt (<) (map ns_id ?n)" and se: "sorted_wrt (<) (map edge_key ?e)"
    using wf by (simp_all add: wf_topology_def)
  have n: "sort_key ns_id ?n = ?n" and e: "sort_key edge_key ?e = ?e"
    using sn se by (simp_all add: sort_key_id_if_sorted strict_sorted_iff)
  have r: "\<forall>x \<in> set ?e. resolve_edge (canonical_lookup ?n) (edge_view ?n x) = Inr x"
    using wf resolve_edge_view [OF sn] by (simp add: wf_topology_def)
  then have m: "map (projr \<circ> resolve_edge (canonical_lookup ?n)) (map (edge_view ?n) ?e) = ?e"
    by (simp add: map_idI)
  have "topology_finalize (t_generation t) ?n (canonical_lookup ?n) ?e = t"
    using wf unfolding wf_topology_def by metis
  then show ?thesis
    using wf r sn se
    by (simp add: topology_build_iff Let_def spec_acceptable_def n m e wf_topology_def
        strict_sorted_iff del: map_map)
qed

lemma read_node_back:
  assumes "is_valid_resource_id (ns_id n)"
  shows "read_node (reader_at d (w_node n @ rest)) = Inr (n, reader_at (d @ w_node n) rest)"
  using assms by (simp add: read_node_def w_node_def codec_simps completeness_enum.decode_code)

interpretation e_node: element_codec read_node w_node "\<lambda>x. x" "\<lambda>n. is_valid_resource_id (ns_id n)"
  by unfold_locales (rule read_node_back)

lemma read_edge_back:
  assumes "wf_edge (length nodes) e" and "length nodes < 2 ^ 32"
  shows "read_edge nodes (reader_at d (w_edge e @ rest)) = Inr (edge_view nodes e, reader_at (d @ w_edge e) rest)"
proof -
  have "te_from e < 2 ^ 32" "te_to e < 2 ^ 32" "te_from e < length nodes" "te_to e < length nodes"
    using assms by (auto simp: wf_edge_def)
  then show ?thesis
    by (simp add: read_edge_def w_edge_def w_size32_def codec_simps edge_enum.decode_code
        unat_size32 edge_view_def)
qed

interpretation e_edge: element_codec "read_edge nodes" w_edge "edge_view nodes"
    "\<lambda>e. wf_edge (length nodes) e \<and> length nodes < 2 ^ 32" for nodes
  by unfold_locales (simp add: read_edge_back)

lemma topology_decode_encode:
  assumes wf: "wf_topology t"
  shows "topology_decode (topology_encode t) = Inr t"
proof -
  let ?n = "t_nodes t" and ?e = "t_edges t"
  have len: "length ?n < 2 ^ 32" "length ?e < 2 ^ 32"
    using wf by (simp_all add: wf_topology_def kMaxTopologyNodes_def kMaxTopologyEdges_def)
  have bound: "length ?n \<le> kMaxTopologyNodes" "length ?e \<le> kMaxTopologyEdges"
    using wf by (simp_all add: wf_topology_def)
  have nodes: "x \<in> set ?n \<Longrightarrow> is_valid_resource_id (ns_id x)" for x
    using wf by (simp add: wf_topology_def wf_node_def)
  have edges: "x \<in> set ?e \<Longrightarrow> wf_edge (length ?n) x \<and> length ?n < 2 ^ 32" for x
    using wf len by (simp add: wf_topology_def)
  show ?thesis
    unfolding topology_decode_def topology_encode_def encode_definition_def
    by (simp add: codec_simps w_size32_def unat_size32 [OF len(1)] unat_size32 [OF len(2)]
        bound not_less e_node.loop_back [OF nodes] e_edge.loop_back_last [OF edges]
        topology_build_view [OF wf])
qed

interpretation topology_doc: document_codec topology_encode topology_decode wf_topology
  by unfold_locales (rule topology_decode_encode)

end
