(* ===== verification/Engine_Graph.thy ===== *)
theory Engine_Graph
  imports Model_Topology
begin

section \<open>The propagation graph\<close>

text \<open>
  \<open>engine/graph.hpp\<close> and \<open>src/engine/graph.cpp\<close>: the conservative view (proven and unknown
  edges), its reverse, the proven view and the table of unknown edges. The pointer to the
  topology is the topology itself, \<open>None\<close> for a default-constructed graph.
\<close>

record graph =
  g_topology :: "topology option"
  g_conservative :: "nat list list"
  g_conservative_in :: "nat list list"
  g_proven :: "nat list list"
  g_touches_unknown :: "bool list"
  g_unknown_edges :: "(nat \<times> nat) list"
  g_conservative_count :: nat
  g_proven_count :: nat
  g_unknown_count :: nat

definition default_graph :: graph where
  "default_graph =
     \<lparr>g_topology = None, g_conservative = [], g_conservative_in = [], g_proven = [],
      g_touches_unknown = [], g_unknown_edges = [], g_conservative_count = 0,
      g_proven_count = 0, g_unknown_count = 0\<rparr>"

definition append_at :: "nat \<Rightarrow> 'a \<Rightarrow> 'a list list \<Rightarrow> 'a list list" where
  "append_at i x adj = adj[i := adj ! i @ [x]]"

definition graph_add_edge :: "graph \<Rightarrow> topo_edge \<Rightarrow> graph" where
  "graph_add_edge g e =
     (if te_evidence e = EdgeRefuted then g
      else let g1 = g\<lparr>g_conservative := append_at (te_from e) (te_to e) (g_conservative g),
                      g_conservative_in := append_at (te_to e) (te_from e) (g_conservative_in g),
                      g_conservative_count := Suc (g_conservative_count g)\<rparr>
        in if te_evidence e = EdgeProven
           then g1\<lparr>g_proven := append_at (te_from e) (te_to e) (g_proven g1),
                   g_proven_count := Suc (g_proven_count g1)\<rparr>
           else g1\<lparr>g_touches_unknown := mark (mark (g_touches_unknown g1) (te_from e)) (te_to e),
                   g_unknown_edges := g_unknown_edges g1 @ [(te_from e, te_to e)],
                   g_unknown_count := Suc (g_unknown_count g1)\<rparr>)"

definition empty_graph :: "topology \<Rightarrow> graph" where
  "empty_graph t =
     default_graph\<lparr>g_topology := Some t,
       g_conservative := replicate (node_count t) [],
       g_conservative_in := replicate (node_count t) [],
       g_proven := replicate (node_count t) [],
       g_touches_unknown := no_marks (node_count t)\<rparr>"

definition graph_build :: "topology \<Rightarrow> graph" where
  "graph_build t = foldl graph_add_edge (empty_graph t) (t_edges t)"

definition graph_valid :: "graph \<Rightarrow> bool" where
  "graph_valid g \<longleftrightarrow> g_topology g \<noteq> None"

definition graph_node_count :: "graph \<Rightarrow> nat" where
  "graph_node_count g = length (g_conservative g)"

definition conservative_successors :: "graph \<Rightarrow> nat \<Rightarrow> nat list" where
  "conservative_successors g node = g_conservative g ! node"

definition conservative_predecessors :: "graph \<Rightarrow> nat \<Rightarrow> nat list" where
  "conservative_predecessors g node = g_conservative_in g ! node"

definition proven_successors :: "graph \<Rightarrow> nat \<Rightarrow> nat list" where
  "proven_successors g node = g_proven g ! node"

definition touches_unknown_edge :: "graph \<Rightarrow> nat \<Rightarrow> bool" where
  "touches_unknown_edge g node = flag (g_touches_unknown g) node"

definition has_unknown_edge :: "graph \<Rightarrow> nat \<Rightarrow> nat \<Rightarrow> bool" where
  "has_unknown_edge g from to = std_binary_search (g_unknown_edges g) (from, to)"

subsection \<open>What the views contain\<close>

text \<open>The two relations on node indices the views stand for.\<close>

definition edges_with :: "(edge_evidence \<Rightarrow> bool) \<Rightarrow> topology \<Rightarrow> (nat \<times> nat) set" where
  "edges_with ok t = edge_key ` {e \<in> set (t_edges t). ok (te_evidence e)}"

abbreviation conservative_edges :: "topology \<Rightarrow> (nat \<times> nat) set" where
  "conservative_edges \<equiv> edges_with (\<lambda>ev. ev \<noteq> EdgeRefuted)"

abbreviation proven_edges :: "topology \<Rightarrow> (nat \<times> nat) set" where
  "proven_edges \<equiv> edges_with (\<lambda>ev. ev = EdgeProven)"

abbreviation unknown_edges :: "topology \<Rightarrow> (nat \<times> nat) set" where
  "unknown_edges \<equiv> edges_with (\<lambda>ev. ev = EdgeUnknown)"

definition endpoint_lists :: "(topo_edge \<Rightarrow> nat) \<Rightarrow> (topo_edge \<Rightarrow> nat) \<Rightarrow> (edge_evidence \<Rightarrow> bool) \<Rightarrow>
    topo_edge list \<Rightarrow> nat \<Rightarrow> nat list" where
  "endpoint_lists at other ok es i = map other (filter (\<lambda>e. at e = i \<and> ok (te_evidence e)) es)"

lemma length_append_at [simp]: "length (append_at i x adj) = length adj"
  by (simp add: append_at_def)

lemma nth_append_at:
  "i < length adj \<Longrightarrow> append_at i x adj ! j = (if i = j then adj ! j @ [x] else adj ! j)"
  by (simp add: append_at_def)

lemma graph_fold_lengths [simp]:
  "g_topology (foldl graph_add_edge g es) = g_topology g \<and>
   length (g_conservative (foldl graph_add_edge g es)) = length (g_conservative g) \<and>
   length (g_conservative_in (foldl graph_add_edge g es)) = length (g_conservative_in g) \<and>
   length (g_proven (foldl graph_add_edge g es)) = length (g_proven g) \<and>
   length (g_touches_unknown (foldl graph_add_edge g es)) = length (g_touches_unknown g)"
  by (induction es arbitrary: g) (simp_all add: graph_add_edge_def Let_def)

lemma graph_fold_views:
  assumes "\<forall>e \<in> set es. wf_edge (length (g_conservative g)) e"
    and "length (g_conservative_in g) = length (g_conservative g)"
    and "length (g_proven g) = length (g_conservative g)"
    and "i < length (g_conservative g)"
  shows "g_conservative (foldl graph_add_edge g es) ! i
        = g_conservative g ! i @ endpoint_lists te_from te_to (\<lambda>ev. ev \<noteq> EdgeRefuted) es i
    \<and> g_conservative_in (foldl graph_add_edge g es) ! i
        = g_conservative_in g ! i @ endpoint_lists te_to te_from (\<lambda>ev. ev \<noteq> EdgeRefuted) es i
    \<and> g_proven (foldl graph_add_edge g es) ! i
        = g_proven g ! i @ endpoint_lists te_from te_to (\<lambda>ev. ev = EdgeProven) es i"
  using assms
proof (induction es arbitrary: g)
  case Nil
  then show ?case by (simp add: endpoint_lists_def)
next
  case (Cons e es)
  let ?g = "graph_add_edge g e"
  have len: "length (g_conservative ?g) = length (g_conservative g)"
      "length (g_conservative_in ?g) = length (g_conservative_in g)"
      "length (g_proven ?g) = length (g_proven g)"
    using graph_fold_lengths [of g "[e]"] by simp_all
  have e: "te_from e < length (g_conservative g)" "te_to e < length (g_conservative g)"
    using Cons.prems by (simp_all add: wf_edge_def)
  have step: "g_conservative ?g ! i
        = g_conservative g ! i @ endpoint_lists te_from te_to (\<lambda>ev. ev \<noteq> EdgeRefuted) [e] i"
      "g_conservative_in ?g ! i
        = g_conservative_in g ! i @ endpoint_lists te_to te_from (\<lambda>ev. ev \<noteq> EdgeRefuted) [e] i"
      "g_proven ?g ! i
        = g_proven g ! i @ endpoint_lists te_from te_to (\<lambda>ev. ev = EdgeProven) [e] i"
    using e Cons.prems
    by (simp_all add: graph_add_edge_def Let_def endpoint_lists_def nth_append_at)
  have ih: "g_conservative (foldl graph_add_edge ?g es) ! i
        = g_conservative ?g ! i @ endpoint_lists te_from te_to (\<lambda>ev. ev \<noteq> EdgeRefuted) es i
    \<and> g_conservative_in (foldl graph_add_edge ?g es) ! i
        = g_conservative_in ?g ! i @ endpoint_lists te_to te_from (\<lambda>ev. ev \<noteq> EdgeRefuted) es i
    \<and> g_proven (foldl graph_add_edge ?g es) ! i
        = g_proven ?g ! i @ endpoint_lists te_from te_to (\<lambda>ev. ev = EdgeProven) es i"
    using Cons.prems len by (intro Cons.IH) simp_all
  show ?case
    unfolding foldl_Cons ih [THEN conjunct1] ih [THEN conjunct2, THEN conjunct1]
      ih [THEN conjunct2, THEN conjunct2] step
    by (simp add: endpoint_lists_def)
qed

lemma wf_topology_edge:
  "wf_topology t \<Longrightarrow> e \<in> set (t_edges t) \<Longrightarrow> wf_edge (node_count t) e"
  by (simp add: wf_topology_def node_count_def)

lemma graph_build_topology [simp]: "g_topology (graph_build t) = Some t"
  by (simp add: graph_build_def empty_graph_def)

lemma graph_build_lengths [simp]:
  "length (g_conservative (graph_build t)) = node_count t"
  "length (g_conservative_in (graph_build t)) = node_count t"
  "length (g_proven (graph_build t)) = node_count t"
  "length (g_touches_unknown (graph_build t)) = node_count t"
  by (simp_all add: graph_build_def empty_graph_def)

lemma graph_build_views:
  assumes "wf_topology t" and "i < node_count t"
  shows "conservative_successors (graph_build t) i
        = endpoint_lists te_from te_to (\<lambda>ev. ev \<noteq> EdgeRefuted) (t_edges t) i"
    and "conservative_predecessors (graph_build t) i
        = endpoint_lists te_to te_from (\<lambda>ev. ev \<noteq> EdgeRefuted) (t_edges t) i"
    and "proven_successors (graph_build t) i
        = endpoint_lists te_from te_to (\<lambda>ev. ev = EdgeProven) (t_edges t) i"
  using graph_fold_views [of "t_edges t" "empty_graph t" i] assms
  by (simp_all add: graph_build_def conservative_successors_def conservative_predecessors_def
      proven_successors_def empty_graph_def wf_topology_edge)

lemma set_endpoint_lists:
  "set (endpoint_lists te_from te_to ok (t_edges t) i) = edges_with ok t `` {i}"
  "set (endpoint_lists te_to te_from ok (t_edges t) i) = (edges_with ok t)\<inverse> `` {i}"
  by (auto simp: endpoint_lists_def edges_with_def edge_key_def)

lemma endpoint_lists_sorted:
  assumes "wf_topology t"
  shows "sorted_wrt (<) (endpoint_lists te_from te_to ok (t_edges t) i)"
    and "sorted_wrt (<) (endpoint_lists te_to te_from ok (t_edges t) i)"
proof -
  have s: "sorted_wrt (<) (map edge_key (t_edges t))" using assms by (simp add: wf_topology_def)
  then have "sorted_wrt (\<lambda>a b. edge_key a < edge_key b) (t_edges t)" by (simp add: sorted_wrt_map)
  then show "sorted_wrt (<) (endpoint_lists te_from te_to ok (t_edges t) i)"
      "sorted_wrt (<) (endpoint_lists te_to te_from ok (t_edges t) i)"
    unfolding endpoint_lists_def sorted_wrt_map
    by (auto intro!: sorted_wrt_filter [THEN sorted_wrt_mono_rel [rotated]] simp: edge_key_def)
qed

lemma edges_with_range:
  "wf_topology t \<Longrightarrow> (u, v) \<in> edges_with ok t \<Longrightarrow> u < node_count t \<and> v < node_count t \<and> u \<noteq> v"
  by (auto simp: edges_with_def edge_key_def dest!: wf_topology_edge simp: wf_edge_def)

lemma successors_iff:
  assumes "wf_topology t" and "u < node_count t"
  shows "v \<in> set (conservative_successors (graph_build t) u) \<longleftrightarrow> (u, v) \<in> conservative_edges t"
  using assms by (simp add: graph_build_views set_endpoint_lists)

lemma predecessors_iff:
  assumes "wf_topology t" and "v < node_count t"
  shows "u \<in> set (conservative_predecessors (graph_build t) v) \<longleftrightarrow> (u, v) \<in> conservative_edges t"
  using assms by (simp add: graph_build_views set_endpoint_lists)

lemma proven_successors_iff:
  assumes "wf_topology t" and "u < node_count t"
  shows "v \<in> set (proven_successors (graph_build t) u) \<longleftrightarrow> (u, v) \<in> proven_edges t"
  using assms by (simp add: graph_build_views set_endpoint_lists)

lemma successors_sorted:
  assumes "wf_topology t" and "u < node_count t"
  shows "sorted (conservative_successors (graph_build t) u)"
    and "sorted (proven_successors (graph_build t) u)"
  using endpoint_lists_sorted [OF assms(1)] assms
  by (simp_all add: graph_build_views strict_sorted_iff)

lemma graph_fold_unknown:
  "g_unknown_edges (foldl graph_add_edge g es)
     = g_unknown_edges g @ map edge_key (filter (\<lambda>e. te_evidence e = EdgeUnknown) es)"
proof (induction es arbitrary: g)
  case (Cons e es)
  then show ?case
    by (cases "te_evidence e") (simp_all add: graph_add_edge_def Let_def edge_key_def)
qed simp

lemma graph_fold_touches:
  "\<forall>e \<in> set es. wf_edge (length (g_touches_unknown g)) e \<Longrightarrow>
   mask_set (g_touches_unknown (foldl graph_add_edge g es))
     = mask_set (g_touches_unknown g) \<union>
       (\<Union>e \<in> {e \<in> set es. te_evidence e = EdgeUnknown}. {te_from e, te_to e})"
proof (induction es arbitrary: g)
  case (Cons e es)
  have l: "length (g_touches_unknown (graph_add_edge g e)) = length (g_touches_unknown g)"
    using graph_fold_lengths [of g "[e]"] by simp
  have "mask_set (g_touches_unknown (graph_add_edge g e)) = mask_set (g_touches_unknown g) \<union>
      (if te_evidence e = EdgeUnknown then {te_from e, te_to e} else {})"
    using Cons.prems
    by (cases "te_evidence e") (auto simp: graph_add_edge_def Let_def mask_set_mark wf_edge_def)
  then show ?case using Cons.IH [of "graph_add_edge g e"] Cons.prems l by auto
qed simp

lemma graph_fold_counts:
  "g_conservative_count (foldl graph_add_edge g es)
     = g_conservative_count g + length (filter (\<lambda>e. te_evidence e \<noteq> EdgeRefuted) es) \<and>
   g_proven_count (foldl graph_add_edge g es)
     = g_proven_count g + length (filter (\<lambda>e. te_evidence e = EdgeProven) es) \<and>
   g_unknown_count (foldl graph_add_edge g es)
     = g_unknown_count g + length (filter (\<lambda>e. te_evidence e = EdgeUnknown) es)"
proof (induction es arbitrary: g)
  case (Cons e es)
  then show ?case by (cases "te_evidence e") (simp_all add: graph_add_edge_def Let_def)
qed simp

lemma has_unknown_edge_iff:
  assumes "wf_topology t"
  shows "has_unknown_edge (graph_build t) u v \<longleftrightarrow> (u, v) \<in> unknown_edges t"
proof -
  have k: "g_unknown_edges (graph_build t)
      = map edge_key (filter (\<lambda>e. te_evidence e = EdgeUnknown) (t_edges t))"
    by (simp add: graph_build_def graph_fold_unknown empty_graph_def default_graph_def)
  have "sorted (map edge_key (t_edges t))"
    using assms by (simp add: wf_topology_def strict_sorted_iff)
  then have "sorted (g_unknown_edges (graph_build t))" unfolding k by (rule sorted_filter)
  then show ?thesis
    by (auto simp: has_unknown_edge_def std_binary_search_sorted k edges_with_def)
qed

lemma touches_unknown_edge_iff:
  assumes "wf_topology t"
  shows "touches_unknown_edge (graph_build t) v \<longleftrightarrow>
    (\<exists>u. (u, v) \<in> unknown_edges t \<or> (v, u) \<in> unknown_edges t)"
proof -
  have "mask_set (g_touches_unknown (graph_build t)) =
      (\<Union>e \<in> {e \<in> set (t_edges t). te_evidence e = EdgeUnknown}. {te_from e, te_to e})"
    using graph_fold_touches [of "t_edges t" "empty_graph t"] wf_topology_edge [OF assms]
    by (simp add: graph_build_def empty_graph_def)
  then show ?thesis
    by (auto simp: touches_unknown_edge_def flag_mask_set edges_with_def edge_key_def)
qed

lemma graph_build_counts:
  "g_conservative_count (graph_build t) = g_proven_count (graph_build t) + g_unknown_count (graph_build t)"
proof -
  have "length (filter (\<lambda>e. te_evidence e \<noteq> EdgeRefuted) es)
      = length (filter (\<lambda>e. te_evidence e = EdgeProven) es)
        + length (filter (\<lambda>e. te_evidence e = EdgeUnknown) es)" for es
  proof (induction es)
    case (Cons e es)
    then show ?case by (cases "te_evidence e") simp_all
  qed simp
  then show ?thesis
    by (simp add: graph_build_def graph_fold_counts empty_graph_def default_graph_def)
qed

end
