(* ===== verification/Engine_Search.thy ===== *)
theory Engine_Search
  imports Fcfn_Prelude
begin

section \<open>Breadth-first searches\<close>

text \<open>
  The four queue loops of \<open>cut.cpp\<close> and \<open>solver_common.hpp\<close>, over a successor function. A
  node is discovered when it is neither avoided (\<open>blocked\<close>) nor \<open>seen\<close>. Every loop is
  total: a step of the queue never unmarks a node, and it either marks one or shortens the
  queue. The theorems relate what they return to reachability in the relation
  \<open>open_edges\<close>, whatever the graph.
\<close>

subsection \<open>The loops\<close>

text \<open>\<open>for (next : xs) if (blocked[next] == 0 && seen[next] == 0) { seen[next] = 1; push }\<close>\<close>

fun discover :: "(nat \<Rightarrow> bool) \<Rightarrow> nat list \<Rightarrow> bool list \<Rightarrow> nat list \<Rightarrow> bool list \<times> nat list" where
  "discover avoid [] seen queue = (seen, queue)"
| "discover avoid (x # xs) seen queue =
     (if \<not> avoid x \<and> \<not> marked seen x then discover avoid xs (mark seen x) (queue @ [x])
      else discover avoid xs seen queue)"

lemma discover_measure:
  "discover avoid xs seen queue = (seen', queue') \<Longrightarrow>
   length queue' + unmarked seen' \<le> length queue + unmarked seen \<and> unmarked seen' \<le> unmarked seen
   \<and> (unmarked seen' = unmarked seen \<longrightarrow> queue' = queue)"
proof (induction avoid xs seen queue arbitrary: seen' queue' rule: discover.induct)
  case (2 avoid x xs seen queue)
  show ?case
  proof (cases "\<not> avoid x \<and> \<not> marked seen x")
    case True
    then have "unmarked (mark seen x) < unmarked seen" using unmarked_mark_marked by blast
    then show ?thesis using "2.IH"(1) [OF True] "2.prems" True by fastforce
  next
    case False
    then show ?thesis using "2.IH"(2) "2.prems" by auto
  qed
qed simp

text \<open>The frontier loops: everything discovered, in the order it leaves the queue.\<close>

function traverse :: "(nat \<Rightarrow> nat list) \<Rightarrow> bool list \<Rightarrow> nat list \<Rightarrow> nat list \<Rightarrow> nat list" where
  "traverse succ seen [] visited = visited"
| "traverse succ seen (node # queue) visited =
     (let (seen', queue') = discover (\<lambda>_. False) (succ node) seen queue
      in traverse succ seen' queue' (visited @ [node]))"
  by pat_completeness auto
termination
  by (relation "measures [\<lambda>(_, seen, _, _). unmarked seen, \<lambda>(_, _, queue, _). length queue]")
     (auto dest!: discover_measure [OF sym] simp: le_eq_less_or_eq)

text \<open>The loop of \<open>source_reaches_protected\<close>: stops at the first target it dequeues.\<close>

function reach_loop :: "(nat \<Rightarrow> nat list) \<Rightarrow> (nat \<Rightarrow> bool) \<Rightarrow> (nat \<Rightarrow> bool) \<Rightarrow> bool list \<Rightarrow>
    nat list \<Rightarrow> bool" where
  "reach_loop succ avoid target seen [] = False"
| "reach_loop succ avoid target seen (node # queue) =
     (if target node then True
      else let (seen', queue') = discover avoid (succ node) seen queue
           in reach_loop succ avoid target seen' queue')"
  by pat_completeness auto
termination
proof (relation "measures [\<lambda>(_, _, _, seen, _). unmarked seen, \<lambda>(_, _, _, _, queue). length queue]")
  fix succ :: "nat \<Rightarrow> nat list" and avoid target :: "nat \<Rightarrow> bool" and seen seen' node queue queue' r
  assume "\<not> target node" and "r = discover avoid (succ node) seen queue" and "(seen', queue') = r"
  then have "discover avoid (succ node) seen queue = (seen', queue')" by simp
  from discover_measure [OF this]
  show "((succ, avoid, target, seen', queue'), (succ, avoid, target, seen, node # queue))
      \<in> measures [\<lambda>(_, _, _, seen, _). unmarked seen, \<lambda>(_, _, _, _, queue). length queue]"
    by auto
qed simp

text \<open>
  The inner loop of \<open>shortest_residual_path\<close> and \<open>find_witness_path\<close>: it records parents
  and stops at the first target it discovers (\<open>None\<close> is \<open>kInvalidNode\<close>).
\<close>

fun scan_successors :: "(nat \<Rightarrow> bool) \<Rightarrow> (nat \<Rightarrow> bool) \<Rightarrow> nat \<Rightarrow> nat list \<Rightarrow>
    bool list \<Rightarrow> nat option list \<Rightarrow> nat list \<Rightarrow>
    bool list \<times> nat option list \<times> nat list \<times> nat option" where
  "scan_successors avoid target node [] seen parent queue = (seen, parent, queue, None)"
| "scan_successors avoid target node (next # xs) seen parent queue =
     (if avoid next \<or> marked seen next then scan_successors avoid target node xs seen parent queue
      else let seen' = mark seen next; parent' = parent[next := Some node]
           in if target next then (seen', parent', queue, Some next)
              else scan_successors avoid target node xs seen' parent' (queue @ [next]))"

lemma scan_measure:
  "scan_successors avoid target node xs seen parent queue = (seen', parent', queue', None) \<Longrightarrow>
   unmarked seen' \<le> unmarked seen \<and> (unmarked seen' = unmarked seen \<longrightarrow> queue' = queue)"
proof (induction avoid target node xs seen parent queue arbitrary: seen' parent' queue'
    rule: scan_successors.induct)
  case (2 avoid target node x xs seen parent queue)
  show ?case
  proof (cases "avoid x \<or> marked seen x")
    case True
    then show ?thesis using "2.IH"(1) "2.prems" by auto
  next
    case False
    then have "unmarked (mark seen x) < unmarked seen" using unmarked_mark_marked by blast
    then show ?thesis
      using "2.IH"(2) [OF False refl refl] "2.prems" False by (fastforce simp: Let_def split: if_splits)
  qed
qed simp

function path_loop :: "(nat \<Rightarrow> nat list) \<Rightarrow> (nat \<Rightarrow> bool) \<Rightarrow> (nat \<Rightarrow> bool) \<Rightarrow> bool list \<Rightarrow>
    nat option list \<Rightarrow> nat list \<Rightarrow> nat option \<times> nat option list" where
  "path_loop succ avoid target seen parent [] = (None, parent)"
| "path_loop succ avoid target seen parent (node # queue) =
     (case scan_successors avoid target node (succ node) seen parent queue of
        (seen', parent', queue', Some t) \<Rightarrow> (Some t, parent')
      | (seen', parent', queue', None) \<Rightarrow> path_loop succ avoid target seen' parent' queue')"
  by pat_completeness auto
termination
  by (relation "measures [\<lambda>(_, _, _, seen, _, _). unmarked seen, \<lambda>(_, _, _, _, _, queue). length queue]")
     (auto dest!: scan_measure [OF sym] simp: le_eq_less_or_eq)

text \<open>
  \<open>for (node = target; node != kInvalidNode; node = parent[node]) { push; if source break; }\<close>
  The chain of parents has no cycle, so the node count is enough fuel
  (\<open>walk_back_path\<close> below). The list is already reversed.
\<close>

fun walk_back :: "nat \<Rightarrow> (nat \<Rightarrow> bool) \<Rightarrow> nat option list \<Rightarrow> nat \<Rightarrow> nat list \<Rightarrow> nat list" where
  "walk_back 0 is_src parent node path = path"
| "walk_back (Suc fuel) is_src parent node path =
     (if is_src node then node # path
      else case parent ! node of
             None \<Rightarrow> node # path
           | Some previous \<Rightarrow> walk_back fuel is_src parent previous (node # path))"

definition bfs_path :: "nat \<Rightarrow> (nat \<Rightarrow> nat list) \<Rightarrow> nat list \<Rightarrow> (nat \<Rightarrow> bool) \<Rightarrow> (nat \<Rightarrow> bool) \<Rightarrow>
    (nat \<Rightarrow> bool) \<Rightarrow> nat list" where
  "bfs_path n succ sources is_src avoid target =
     (let (seen, queue) = discover avoid sources (no_marks n) []
      in case path_loop succ avoid target seen (replicate n None) queue of
           (None, parent) \<Rightarrow> []
         | (Some t, parent) \<Rightarrow> walk_back n is_src parent t [])"

definition bfs_reaches :: "nat \<Rightarrow> (nat \<Rightarrow> nat list) \<Rightarrow> nat list \<Rightarrow> (nat \<Rightarrow> bool) \<Rightarrow> (nat \<Rightarrow> bool) \<Rightarrow> bool" where
  "bfs_reaches n succ sources avoid target =
     (let (seen, queue) = discover avoid sources (no_marks n) []
      in reach_loop succ avoid target seen queue)"

definition bfs_frontier :: "nat \<Rightarrow> (nat \<Rightarrow> nat list) \<Rightarrow> nat list \<Rightarrow> nat list" where
  "bfs_frontier n succ roots =
     (let (seen, queue) = discover (\<lambda>_. False) roots (no_marks n) []
      in traverse succ seen queue [])"

subsection \<open>Reachability\<close>

definition open_edges :: "nat \<Rightarrow> (nat \<Rightarrow> nat list) \<Rightarrow> (nat \<Rightarrow> bool) \<Rightarrow> (nat \<times> nat) set" where
  "open_edges n succ avoid = {(u, v). u < n \<and> v \<in> set (succ u) \<and> \<not> avoid v}"

definition reach :: "nat \<Rightarrow> (nat \<Rightarrow> nat list) \<Rightarrow> nat set \<Rightarrow> (nat \<Rightarrow> bool) \<Rightarrow> nat set" where
  "reach n succ S avoid = (open_edges n succ avoid)\<^sup>* `` {s \<in> S. \<not> avoid s}"

definition wf_succ :: "nat \<Rightarrow> (nat \<Rightarrow> nat list) \<Rightarrow> bool" where
  "wf_succ n succ \<longleftrightarrow> (\<forall>u < n. set (succ u) \<subseteq> {..<n})"

lemma reach_source: "s \<in> S \<Longrightarrow> \<not> avoid s \<Longrightarrow> s \<in> reach n succ S avoid"
  by (auto simp: reach_def)

lemma reach_step:
  "u \<in> reach n succ S avoid \<Longrightarrow> u < n \<Longrightarrow> v \<in> set (succ u) \<Longrightarrow> \<not> avoid v \<Longrightarrow>
   v \<in> reach n succ S avoid"
  by (auto simp: reach_def open_edges_def intro: rtrancl_into_rtrancl)

lemma reach_least:
  assumes "{s \<in> S. \<not> avoid s} \<subseteq> X"
    and "\<And>u v. u \<in> X \<Longrightarrow> u < n \<Longrightarrow> v \<in> set (succ u) \<Longrightarrow> \<not> avoid v \<Longrightarrow> v \<in> X"
  shows "reach n succ S avoid \<subseteq> X"
proof
  fix v
  assume "v \<in> reach n succ S avoid"
  then obtain s where s: "s \<in> S" "\<not> avoid s" and p: "(s, v) \<in> (open_edges n succ avoid)\<^sup>*"
    by (auto simp: reach_def)
  from p show "v \<in> X"
    by (induction rule: rtrancl_induct) (use s assms in \<open>auto simp: open_edges_def\<close>)
qed

lemma reach_not_avoid: "v \<in> reach n succ S avoid \<Longrightarrow> \<not> avoid v"
  using reach_least [of S avoid "{v. \<not> avoid v}" n succ] by auto

lemma reach_range:
  assumes "wf_succ n succ" and "S \<subseteq> {..<n}"
  shows "reach n succ S avoid \<subseteq> {..<n}"
  using assms by (intro reach_least) (auto simp: wf_succ_def)

lemma reach_antimono:
  assumes "\<And>v. avoid v \<Longrightarrow> avoid' v"
  shows "reach n succ S avoid' \<subseteq> reach n succ S avoid"
  using assms by (intro reach_least) (auto intro: reach_source reach_step)

subsection \<open>Discovering\<close>

lemma discover_spec:
  assumes "discover avoid xs seen queue = (seen', queue')" and "set xs \<subseteq> {..<length seen}"
  shows "length seen' = length seen"
    and "mask_set seen' = mask_set seen \<union> {x \<in> set xs. \<not> avoid x}"
    and "\<exists>new. queue' = queue @ new \<and> distinct new \<and>
           set new = {x \<in> set xs. \<not> avoid x} - mask_set seen"
proof -
  have "length seen' = length seen \<and> mask_set seen' = mask_set seen \<union> {x \<in> set xs. \<not> avoid x} \<and>
      (\<exists>new. queue' = queue @ new \<and> distinct new \<and> set new = {x \<in> set xs. \<not> avoid x} - mask_set seen)"
    using assms
  proof (induction avoid xs seen queue arbitrary: seen' queue' rule: discover.induct)
    case (1 avoid seen queue)
    then show ?case by simp
  next
    case (2 avoid x xs seen queue)
    have x: "x < length seen" using "2.prems" by simp
    show ?case
    proof (cases "\<not> avoid x \<and> \<not> marked seen x")
      case True
      have ih: "length seen' = length (mark seen x)"
          "mask_set seen' = mask_set (mark seen x) \<union> {x \<in> set xs. \<not> avoid x}"
          "\<exists>new. queue' = (queue @ [x]) @ new \<and> distinct new \<and>
             set new = {x \<in> set xs. \<not> avoid x} - mask_set (mark seen x)"
        using "2.IH"(1) [OF True, of seen' queue'] "2.prems" True by simp_all
      then obtain new where new: "queue' = queue @ (x # new)" "distinct new"
          "set new = {x \<in> set xs. \<not> avoid x} - mask_set (mark seen x)" by auto
      have "x \<notin> mask_set seen" using True x by (simp add: marked_mask_set)
      with new x True have "queue' = queue @ (x # new)" "distinct (x # new)"
          "set (x # new) = {y \<in> set (x # xs). \<not> avoid y} - mask_set seen"
        by (auto simp: mask_set_mark)
      with ih x True show ?thesis by (auto simp: mask_set_mark)
    next
      case False
      then have d: "discover avoid xs seen queue = (seen', queue')" using "2.prems" by auto
      have "avoid x \<or> x \<in> mask_set seen" using False x by (auto simp: marked_mask_set)
      then show ?thesis
        using "2.IH"(2) [OF False d] "2.prems" by auto
    qed
  qed
  then show "length seen' = length seen"
      "mask_set seen' = mask_set seen \<union> {x \<in> set xs. \<not> avoid x}"
      "\<exists>new. queue' = queue @ new \<and> distinct new \<and>
           set new = {x \<in> set xs. \<not> avoid x} - mask_set seen" by auto
qed

subsection \<open>The frontier and reachability loops\<close>

text \<open>The invariant of every queue loop: what is seen and no longer queued is closed.\<close>

definition search_inv :: "nat \<Rightarrow> (nat \<Rightarrow> nat list) \<Rightarrow> nat set \<Rightarrow> (nat \<Rightarrow> bool) \<Rightarrow> bool list \<Rightarrow>
    nat list \<Rightarrow> bool" where
  "search_inv n succ S avoid seen queue \<longleftrightarrow>
     length seen = n \<and> distinct queue \<and> set queue \<subseteq> mask_set seen \<and>
     {s \<in> S. \<not> avoid s} \<subseteq> mask_set seen \<and> mask_set seen \<subseteq> reach n succ S avoid \<and>
     (\<forall>u \<in> mask_set seen - set queue. \<forall>v \<in> set (succ u). \<not> avoid v \<longrightarrow> v \<in> mask_set seen)"

lemma search_invD:
  assumes "search_inv n succ S avoid seen queue"
  shows "length seen = n" and "distinct queue" and "set queue \<subseteq> mask_set seen"
    and "{s \<in> S. \<not> avoid s} \<subseteq> mask_set seen" and "mask_set seen \<subseteq> reach n succ S avoid"
    and "\<forall>u \<in> mask_set seen - set queue. \<forall>v \<in> set (succ u). \<not> avoid v \<longrightarrow> v \<in> mask_set seen"
  using assms unfolding search_inv_def by - (elim conjE, assumption)+

lemma search_inv_init:
  assumes "discover avoid xs (no_marks n) [] = (seen, queue)" and "set xs \<subseteq> {..<n}"
  shows "search_inv n succ (set xs) avoid seen queue" and "mask_set seen = set queue"
proof -
  note d = discover_spec [OF assms(1)]
  have "set xs \<subseteq> {..<length (no_marks n)}" using assms(2) by simp
  note d = d [OF this]
  show "mask_set seen = set queue" using d by auto
  then show "search_inv n succ (set xs) avoid seen queue"
    using d by (auto simp: search_inv_def intro: reach_source)
qed

lemma search_inv_step:
  assumes inv: "search_inv n succ S avoid seen (node # queue)"
    and d: "discover avoid (succ node) seen queue = (seen', queue')"
    and wf: "wf_succ n succ"
  shows "search_inv n succ S avoid seen' queue'"
    and "mask_set seen' - set queue' = insert node (mask_set seen - set (node # queue))"
proof -
  have i: "length seen = n" "distinct (node # queue)" "set (node # queue) \<subseteq> mask_set seen"
      "{s \<in> S. \<not> avoid s} \<subseteq> mask_set seen" "mask_set seen \<subseteq> reach n succ S avoid"
      "\<forall>u \<in> mask_set seen - set (node # queue). \<forall>v \<in> set (succ u). \<not> avoid v \<longrightarrow> v \<in> mask_set seen"
    by (rule search_invD [OF inv])+
  have "node \<in> mask_set seen" using i(3) by simp
  moreover from this have "node < n" using mask_set_bound [of seen] i(1) by blast
  ultimately have n: "node < n" "node \<in> mask_set seen" by simp_all
  then have "set (succ node) \<subseteq> {..<length seen}" using wf i(1) by (simp add: wf_succ_def)
  note spec = discover_spec [OF d this]
  from spec(3) obtain new where new: "queue' = queue @ new" "distinct new"
      "set new = {x \<in> set (succ node). \<not> avoid x} - mask_set seen" by blast
  show fin: "mask_set seen' - set queue' = insert node (mask_set seen - set (node # queue))"
    using i(2,3) spec(2) new n by auto
  have "node \<in> reach n succ S avoid" using i(5) n(2) by (rule subsetD)
  then have "{x \<in> set (succ node). \<not> avoid x} \<subseteq> reach n succ S avoid"
    using reach_step [of node n succ S avoid] n(1) by (simp add: subset_iff)
  then have "mask_set seen' \<subseteq> reach n succ S avoid" unfolding spec(2) using i(5) by simp
  moreover have "\<forall>u \<in> mask_set seen' - set queue'. \<forall>v \<in> set (succ u). \<not> avoid v \<longrightarrow> v \<in> mask_set seen'"
    unfolding fin
  proof (intro ballI impI)
    fix u v
    assume u: "u \<in> insert node (mask_set seen - set (node # queue))" and v: "v \<in> set (succ u)" "\<not> avoid v"
    show "v \<in> mask_set seen'"
    proof (cases "u = node")
      case True
      with v show ?thesis unfolding spec(2) by simp
    next
      case False
      with u have "u \<in> mask_set seen - set (node # queue)" by simp
      from i(6) [rule_format, OF this v] show ?thesis unfolding spec(2) by simp
    qed
  qed
  moreover have "distinct queue'" "set queue' \<subseteq> mask_set seen'"
    using i(2,3) new spec(2) by auto
  ultimately show "search_inv n succ S avoid seen' queue'"
    using i(1,4) spec(1,2) unfolding search_inv_def by blast
qed

lemma search_inv_done:
  assumes "search_inv n succ S avoid seen []"
  shows "mask_set seen = reach n succ S avoid"
proof
  show "mask_set seen \<subseteq> reach n succ S avoid" using assms by (simp add: search_inv_def)
  show "reach n succ S avoid \<subseteq> mask_set seen"
    using assms by (intro reach_least) (auto simp: search_inv_def)
qed

lemma traverse_spec:
  assumes "wf_succ n succ"
    and "search_inv n succ S (\<lambda>_. False) seen queue"
    and "set visited = mask_set seen - set queue" and "distinct visited"
  shows "set (traverse succ seen queue visited) = reach n succ S (\<lambda>_. False)
    \<and> distinct (traverse succ seen queue visited)"
  using assms
proof (induction succ seen queue visited rule: traverse.induct)
  case (1 succ seen visited)
  then show ?case using search_inv_done by fastforce
next
  case (2 succ seen node queue visited)
  obtain seen' queue' where d: "discover (\<lambda>_. False) (succ node) seen queue = (seen', queue')"
    by (cases "discover (\<lambda>_. False) (succ node) seen queue")
  note step = search_inv_step [OF "2.prems"(2) d "2.prems"(1)]
  have v: "node \<notin> set visited" using "2.prems"(3) by auto
  have "set (traverse succ seen' queue' (visited @ [node])) = reach n succ S (\<lambda>_. False)
      \<and> distinct (traverse succ seen' queue' (visited @ [node]))"
    using v step "2.prems" by (intro "2.IH" [OF d [symmetric] refl]) simp_all
  then show ?case using d by simp
qed

lemma bfs_frontier_spec:
  assumes "wf_succ n succ" and "set roots \<subseteq> {..<n}"
  shows "set (bfs_frontier n succ roots) = reach n succ (set roots) (\<lambda>_. False)"
    and "distinct (bfs_frontier n succ roots)"
proof -
  obtain seen queue where d: "discover (\<lambda>_. False) roots (no_marks n) [] = (seen, queue)"
    by (cases "discover (\<lambda>_. False) roots (no_marks n) []")
  note init = search_inv_init [OF d assms(2)]
  have "set (traverse succ seen queue []) = reach n succ (set roots) (\<lambda>_. False)
      \<and> distinct (traverse succ seen queue [])"
    by (rule traverse_spec [OF assms(1) init(1)]) (simp_all add: init(2))
  then show "set (bfs_frontier n succ roots) = reach n succ (set roots) (\<lambda>_. False)"
      "distinct (bfs_frontier n succ roots)"
    by (simp_all add: bfs_frontier_def d)
qed

lemma reach_loop_spec:
  assumes "wf_succ n succ" and "search_inv n succ S avoid seen queue"
    and "\<forall>u \<in> mask_set seen - set queue. \<not> target u"
  shows "reach_loop succ avoid target seen queue \<longleftrightarrow> (\<exists>v \<in> reach n succ S avoid. target v)"
  using assms
proof (induction succ avoid target seen queue rule: reach_loop.induct)
  case (1 succ avoid target seen)
  then show ?case using search_inv_done by fastforce
next
  case (2 succ avoid target seen node queue)
  show ?case
  proof (cases "target node")
    case True
    have "set (node # queue) \<subseteq> mask_set seen" "mask_set seen \<subseteq> reach n succ S avoid"
      using "2.prems"(2) unfolding search_inv_def by simp_all
    then have "node \<in> reach n succ S avoid" by auto
    then show ?thesis using True by auto
  next
    case False
    obtain seen' queue' where d: "discover avoid (succ node) seen queue = (seen', queue')"
      by (cases "discover avoid (succ node) seen queue")
    note step = search_inv_step [OF "2.prems"(2) d "2.prems"(1)]
    have "\<forall>u \<in> mask_set seen' - set queue'. \<not> target u"
      unfolding step(2) using False "2.prems"(3) by auto
    then show ?thesis
      using "2.IH" [OF False d [symmetric] refl "2.prems"(1) step(1)] False d by simp
  qed
qed

lemma bfs_reaches_iff:
  assumes "wf_succ n succ" and "set sources \<subseteq> {..<n}"
  shows "bfs_reaches n succ sources avoid target
    \<longleftrightarrow> (\<exists>v \<in> reach n succ (set sources) avoid. target v)"
proof -
  obtain seen queue where d: "discover avoid sources (no_marks n) [] = (seen, queue)"
    by (cases "discover avoid sources (no_marks n) []")
  note init = search_inv_init [OF d assms(2)]
  show ?thesis
    unfolding bfs_reaches_def d using reach_loop_spec [OF assms(1) init(1), of target] init(2)
    by simp
qed

subsection \<open>The path loop\<close>

text \<open>The chain of parents from a node back to the source it was discovered from.\<close>

inductive chain :: "(nat \<Rightarrow> bool) \<Rightarrow> nat option list \<Rightarrow> nat \<Rightarrow> nat list \<Rightarrow> bool"
  for is_src :: "nat \<Rightarrow> bool" and parent :: "nat option list" where
  chain_source: "is_src v \<Longrightarrow> chain is_src parent v [v]"
| chain_step: "\<not> is_src v \<Longrightarrow> parent ! v = Some u \<Longrightarrow> chain is_src parent u xs \<Longrightarrow>
    chain is_src parent v (xs @ [v])"

lemma walk_back_chain:
  "chain is_src parent v xs \<Longrightarrow> length xs \<le> fuel \<Longrightarrow>
   walk_back fuel is_src parent v path = xs @ path"
proof (induction arbitrary: fuel path rule: chain.induct)
  case (chain_source v)
  then show ?case by (cases fuel) simp_all
next
  case (chain_step v u xs)
  then show ?case by (cases fuel) simp_all
qed

lemma chain_ends:
  "chain is_src parent v xs \<Longrightarrow>
   xs \<noteq> [] \<and> last xs = v \<and> is_src (hd xs) \<and> (\<forall>x \<in> set (tl xs). \<not> is_src x)"
  by (induction rule: chain.induct) (auto simp: neq_Nil_conv)

lemma chain_update:
  "chain is_src parent v xs \<Longrightarrow> w \<notin> set xs \<Longrightarrow> chain is_src (parent[w := p]) v xs"
proof (induction rule: chain.induct)
  case (chain_step v u xs)
  then show ?case by (intro chain.chain_step [of _ v _ u]) auto
qed (rule chain.chain_source)

definition walk :: "nat \<Rightarrow> (nat \<Rightarrow> nat list) \<Rightarrow> nat list \<Rightarrow> bool" where
  "walk n succ xs \<longleftrightarrow> successively (\<lambda>u v. u < n \<and> v \<in> set (succ u)) xs"

definition tree_inv :: "nat \<Rightarrow> (nat \<Rightarrow> nat list) \<Rightarrow> (nat \<Rightarrow> bool) \<Rightarrow> bool list \<Rightarrow> nat option list \<Rightarrow> bool" where
  "tree_inv n succ is_src seen parent \<longleftrightarrow> length parent = n \<and>
     (\<forall>v \<in> mask_set seen. \<exists>xs. chain is_src parent v xs \<and> distinct xs \<and>
        set xs \<subseteq> mask_set seen \<and> walk n succ xs)"

lemma tree_inv_discover:
  assumes tree: "tree_inv n succ is_src seen parent" and node: "node \<in> mask_set seen" "node < n"
    and x: "x < length seen" "x < n" "x \<notin> mask_set seen" "\<not> is_src x" "x \<in> set (succ node)"
  shows "tree_inv n succ is_src (mark seen x) (parent[x := Some node])"
  unfolding tree_inv_def
proof (intro conjI ballI)
  let ?p = "parent[x := Some node]"
  show "length ?p = n" using tree by (simp add: tree_inv_def)
  fix v
  assume v: "v \<in> mask_set (mark seen x)"
  have old: "\<exists>xs. chain is_src ?p w xs \<and> distinct xs \<and> set xs \<subseteq> mask_set seen \<and> walk n succ xs"
    if w: "w \<in> mask_set seen" for w
  proof -
    obtain xs where xs: "chain is_src parent w xs" "distinct xs" "set xs \<subseteq> mask_set seen" "walk n succ xs"
      using tree w by (auto simp: tree_inv_def)
    then have "chain is_src ?p w xs" using x(3) by (intro chain_update) auto
    with xs show ?thesis by blast
  qed
  show "\<exists>xs. chain is_src ?p v xs \<and> distinct xs \<and> set xs \<subseteq> mask_set (mark seen x) \<and> walk n succ xs"
  proof (cases "v = x")
    case False
    then have "v \<in> mask_set seen" using v x(1) by (simp add: mask_set_mark)
    from old [OF this] show ?thesis using x(1) by (auto simp: mask_set_mark)
  next
    case True
    from old [OF node(1)] obtain xs where xs: "chain is_src ?p node xs" "distinct xs"
        "set xs \<subseteq> mask_set seen" "walk n succ xs" by blast
    have "?p ! x = Some node" using tree x(2) by (simp add: tree_inv_def)
    then have "chain is_src ?p x (xs @ [x])" using x(4) xs(1) by (intro chain_step)
    moreover have "distinct (xs @ [x])" using xs x(3) by auto
    moreover have "set (xs @ [x]) \<subseteq> mask_set (mark seen x)" using xs x(1) by (auto simp: mask_set_mark)
    moreover have "walk n succ (xs @ [x])"
      using xs(4) chain_ends [OF xs(1)] node(2) x(5) by (auto simp: walk_def successively_append_iff)
    ultimately show ?thesis using True by blast
  qed
qed

lemma scan_length:
  "scan_successors avoid target node xs seen parent queue = (seen', parent', queue', res) \<Longrightarrow>
   length seen' = length seen"
  by (induction avoid target node xs seen parent queue rule: scan_successors.induct)
     (auto simp: Let_def split: if_splits)

lemma scan_spec:
  assumes "scan_successors avoid target node xs seen parent queue = (seen', parent', queue', res)"
    and "length seen = n" and "tree_inv n succ is_src seen parent"
    and "node \<in> mask_set seen" and "node < n"
    and "set xs \<subseteq> set (succ node)" and "set xs \<subseteq> {..<n}"
    and "\<And>s. is_src s \<Longrightarrow> \<not> avoid s \<Longrightarrow> s \<in> mask_set seen"
  shows "tree_inv n succ is_src seen' parent' \<and> (case res of
      None \<Rightarrow> discover avoid xs seen queue = (seen', queue') \<and>
        (\<forall>v \<in> mask_set seen' - mask_set seen. \<not> target v)
    | Some t \<Rightarrow> t \<in> set xs \<and> \<not> avoid t \<and> target t \<and> t \<in> mask_set seen' \<and> t \<notin> mask_set seen \<and>
        mask_set seen' \<subseteq> mask_set seen \<union> {x \<in> set xs. \<not> avoid x})"
  using assms
proof (induction avoid target node xs seen parent queue rule: scan_successors.induct)
  case (1 avoid target node seen parent queue)
  then show ?case by auto
next
  case (2 avoid target node x xs seen parent queue)
  have x: "x < length seen" "x < n" "x \<in> set (succ node)" using "2.prems" by auto
  show ?case
  proof (cases "avoid x \<or> marked seen x")
    case True
    have s: "scan_successors avoid target node xs seen parent queue = (seen', parent', queue', res)"
      using "2.prems"(1) True by simp
    have ih: "tree_inv n succ is_src seen' parent' \<and> (case res of
      None \<Rightarrow> discover avoid xs seen queue = (seen', queue') \<and>
        (\<forall>v \<in> mask_set seen' - mask_set seen. \<not> target v)
    | Some t \<Rightarrow> t \<in> set xs \<and> \<not> avoid t \<and> target t \<and> t \<in> mask_set seen' \<and> t \<notin> mask_set seen \<and>
        mask_set seen' \<subseteq> mask_set seen \<union> {x \<in> set xs. \<not> avoid x})"
      using "2.prems" by (intro "2.IH"(1) [OF True s]) auto
    have "discover avoid (x # xs) seen queue = discover avoid xs seen queue" using True by auto
    with ih show ?thesis by (auto split: option.splits)
  next
    case False
    then have new: "x \<notin> mask_set seen" "\<not> avoid x" using x by (auto simp: marked_mask_set)
    then have "\<not> is_src x" using "2.prems"(8) by blast
    then have tree: "tree_inv n succ is_src (mark seen x) (parent[x := Some node])"
      using "2.prems" new x by (intro tree_inv_discover) auto
    show ?thesis
    proof (cases "target x")
      case True
      then have "seen' = mark seen x" "parent' = parent[x := Some node]" "res = Some x"
        using "2.prems"(1) False by (auto simp: Let_def)
      then show ?thesis using tree new x True by (auto simp: mask_set_mark)
    next
      case nt: False
      have s: "scan_successors avoid target node xs (mark seen x) (parent[x := Some node]) (queue @ [x])
          = (seen', parent', queue', res)"
        using "2.prems"(1) False nt by (simp add: Let_def)
      have ih: "tree_inv n succ is_src seen' parent' \<and> (case res of
          None \<Rightarrow> discover avoid xs (mark seen x) (queue @ [x]) = (seen', queue') \<and>
            (\<forall>v \<in> mask_set seen' - mask_set (mark seen x). \<not> target v)
        | Some t \<Rightarrow> t \<in> set xs \<and> \<not> avoid t \<and> target t \<and> t \<in> mask_set seen' \<and>
            t \<notin> mask_set (mark seen x) \<and>
            mask_set seen' \<subseteq> mask_set (mark seen x) \<union> {x \<in> set xs. \<not> avoid x})"
        using "2.prems" tree x by (intro "2.IH"(2) [OF False refl refl nt s]) (auto simp: mask_set_mark)
      show ?thesis
        using ih False nt x new by (auto simp: mask_set_mark split: option.splits)
    qed
  qed
qed

definition path_inv :: "nat \<Rightarrow> (nat \<Rightarrow> nat list) \<Rightarrow> nat set \<Rightarrow> (nat \<Rightarrow> bool) \<Rightarrow> (nat \<Rightarrow> bool) \<Rightarrow>
    bool list \<Rightarrow> nat option list \<Rightarrow> nat list \<Rightarrow> bool" where
  "path_inv n succ S avoid target seen parent queue \<longleftrightarrow>
     search_inv n succ S avoid seen queue \<and> tree_inv n succ (\<lambda>v. v \<in> S) seen parent \<and>
     (\<forall>v \<in> mask_set seen. target v \<longrightarrow> v \<in> S)"

text \<open>What the traversal returns: a chain to an unavoided target, or the proof there is none.\<close>

definition residual_path :: "nat \<Rightarrow> (nat \<Rightarrow> nat list) \<Rightarrow> nat set \<Rightarrow> (nat \<Rightarrow> bool) \<Rightarrow> (nat \<Rightarrow> bool) \<Rightarrow>
    nat list \<Rightarrow> bool" where
  "residual_path n succ S avoid target xs \<longleftrightarrow>
     2 \<le> length xs \<and> hd xs \<in> S \<and> target (last xs) \<and> walk n succ xs \<and> distinct xs \<and>
     set xs \<subseteq> {..<n} \<and> (\<forall>x \<in> set xs. \<not> avoid x) \<and> (\<forall>x \<in> set (tl xs). x \<notin> S)"

lemma walk_reach:
  assumes "walk n succ xs" and "xs \<noteq> []" and "hd xs \<in> S" and "\<forall>x \<in> set xs. \<not> avoid x"
  shows "set xs \<subseteq> reach n succ S avoid"
  using assms
proof (induction xs rule: rev_induct)
  case (snoc x xs)
  show ?case
  proof (cases "xs = []")
    case True
    with snoc.prems show ?thesis by (simp add: reach_source)
  next
    case False
    then have w: "walk n succ xs" "last xs < n" "x \<in> set (succ (last xs))"
      using snoc.prems(1) by (simp_all add: walk_def successively_append_iff)
    then have xs: "set xs \<subseteq> reach n succ S avoid" using snoc.IH snoc.prems False by simp
    then have "last xs \<in> reach n succ S avoid" using False by auto
    then have "x \<in> reach n succ S avoid" by (rule reach_step) (use w snoc.prems in simp_all)
    with xs show ?thesis by simp
  qed
qed simp

lemma residual_path_reach:
  assumes "residual_path n succ S avoid target xs"
  shows "last xs \<in> reach n succ S avoid \<and> target (last xs) \<and> last xs \<notin> S"
proof -
  have p: "2 \<le> length xs" "hd xs \<in> S" "walk n succ xs" "\<forall>x \<in> set xs. \<not> avoid x" "target (last xs)"
      "\<forall>x \<in> set (tl xs). x \<notin> S"
    using assms by (simp_all add: residual_path_def)
  then have "xs \<noteq> []" "tl xs \<noteq> []" by (cases xs; cases "tl xs"; auto)+
  then have "last xs \<in> set xs" "last xs \<in> set (tl xs)"
    using last_in_set [of "tl xs"] by (auto simp: last_tl)
  then show ?thesis using walk_reach [OF p(3) \<open>xs \<noteq> []\<close> p(2,4)] p(5,6) by auto
qed

lemma path_found:
  assumes tree: "tree_inv n succ (\<lambda>v. v \<in> S) seen parent" and t: "t \<in> mask_set seen" "t \<notin> S" "target t"
    and reach: "mask_set seen \<subseteq> reach n succ S avoid" and len: "length seen = n"
  shows "residual_path n succ S avoid target (walk_back n (\<lambda>v. v \<in> S) parent t [])"
proof -
  obtain xs where xs: "chain (\<lambda>v. v \<in> S) parent t xs" "distinct xs" "set xs \<subseteq> mask_set seen" "walk n succ xs"
    using tree t(1) by (auto simp: tree_inv_def)
  note ends = chain_ends [OF xs(1)]
  have range: "set xs \<subseteq> {..<n}" using xs(3) mask_set_bound [of seen] len by blast
  then have "length xs \<le> n" using xs(2) by (metis card_lessThan card_mono distinct_card finite_lessThan)
  then have w: "walk_back n (\<lambda>v. v \<in> S) parent t [] = xs" using walk_back_chain [OF xs(1)] by simp
  have "hd xs \<noteq> last xs" using ends t(2) by auto
  then have "2 \<le> length xs" using ends by (cases xs rule: remdups_adj.cases) auto
  moreover have "\<forall>x \<in> set xs. \<not> avoid x"
    using xs(3) reach reach_not_avoid by blast
  ultimately show ?thesis unfolding w residual_path_def using ends t(3) xs range by simp
qed

lemma path_loop_spec:
  assumes "path_loop succ avoid target seen parent queue = (res, parent')"
    and "wf_succ n succ" and "path_inv n succ S avoid target seen parent queue"
  shows "case res of None \<Rightarrow> \<forall>v \<in> reach n succ S avoid. target v \<longrightarrow> v \<in> S
    | Some t \<Rightarrow> residual_path n succ S avoid target (walk_back n (\<lambda>v. v \<in> S) parent' t [])"
  using assms
proof (induction succ avoid target seen parent queue rule: path_loop.induct)
  case (1 succ avoid target seen parent)
  then show ?case using search_inv_done by (fastforce simp: path_inv_def)
next
  case (2 succ avoid target seen parent node queue)
  obtain seen1 parent1 queue1 r where s:
    "scan_successors avoid target node (succ node) seen parent queue = (seen1, parent1, queue1, r)"
    by (cases "scan_successors avoid target node (succ node) seen parent queue")
  have inv: "search_inv n succ S avoid seen (node # queue)" "tree_inv n succ (\<lambda>v. v \<in> S) seen parent"
      "\<forall>v \<in> mask_set seen. target v \<longrightarrow> v \<in> S"
    using "2.prems"(3) unfolding path_inv_def by blast+
  note i = search_invD [OF inv(1)]
  have node: "node \<in> mask_set seen" using i(3) by simp
  have nn: "node < n" using node mask_set_bound [of seen] i(1) by blast
  have succ: "set (succ node) \<subseteq> {..<n}" using "2.prems"(2) nn by (simp add: wf_succ_def)
  have src: "x \<in> mask_set seen" if "x \<in> S" "\<not> avoid x" for x using i(4) that by blast
  note spec = scan_spec [OF s i(1) inv(2) node nn subset_refl succ src]
  show ?case
  proof (cases r)
    case None
    then have d: "discover avoid (succ node) seen queue = (seen1, queue1)"
      and t: "tree_inv n succ (\<lambda>v. v \<in> S) seen1 parent1"
      and nt: "\<forall>v \<in> mask_set seen1 - mask_set seen. \<not> target v"
      using spec by simp_all
    have "search_inv n succ S avoid seen1 queue1" by (rule search_inv_step(1) [OF inv(1) d "2.prems"(2)])
    then have "path_inv n succ S avoid target seen1 parent1 queue1"
      using t nt inv(3) unfolding path_inv_def by blast
    then show ?thesis
      using "2.IH" [OF s [symmetric] refl refl None] "2.prems" s None by simp
  next
    case (Some t)
    have t: "t \<in> set (succ node)" "\<not> avoid t" "target t" "t \<in> mask_set seen1" "t \<notin> mask_set seen"
        "mask_set seen1 \<subseteq> mask_set seen \<union> {x \<in> set (succ node). \<not> avoid x}"
        "tree_inv n succ (\<lambda>v. v \<in> S) seen1 parent1"
      using spec Some by simp_all
    have "node \<in> reach n succ S avoid" using i(5) node by (rule subsetD)
    then have "{x \<in> set (succ node). \<not> avoid x} \<subseteq> reach n succ S avoid"
      using reach_step [of node n succ S avoid] nn by (simp add: subset_iff)
    then have r: "mask_set seen1 \<subseteq> reach n succ S avoid" using t(6) i(5) by blast
    have "t \<notin> S" using src t(2,5) by blast
    moreover have "length seen1 = n" using scan_length [OF s] i(1) by simp
    ultimately have "residual_path n succ S avoid target (walk_back n (\<lambda>v. v \<in> S) parent1 t [])"
      using path_found t(3,4,7) r by blast
    moreover have "res = Some t" "parent' = parent1" using "2.prems"(1) s Some by simp_all
    ultimately show ?thesis by simp
  qed
qed

lemma bfs_path_spec:
  assumes wf: "wf_succ n succ" and range: "set sources \<subseteq> {..<n}"
    and src: "\<And>v. is_src v \<longleftrightarrow> v \<in> set sources"
  shows "bfs_path n succ sources is_src avoid target = [] \<longleftrightarrow>
      (\<forall>v \<in> reach n succ (set sources) avoid. target v \<longrightarrow> v \<in> set sources)"
    and "bfs_path n succ sources is_src avoid target \<noteq> [] \<Longrightarrow>
      residual_path n succ (set sources) avoid target (bfs_path n succ sources is_src avoid target)"
proof -
  let ?S = "set sources"
  obtain seen queue where d: "discover avoid sources (no_marks n) [] = (seen, queue)"
    by (cases "discover avoid sources (no_marks n) []")
  note init = search_inv_init [OF d range]
  have is_src: "is_src = (\<lambda>v. v \<in> ?S)" using src by auto
  have seen: "mask_set seen \<subseteq> ?S" using discover_spec(2) [OF d] range by auto
  have "\<exists>xs. chain is_src (replicate n None) v xs \<and> distinct xs \<and> set xs \<subseteq> mask_set seen \<and> walk n succ xs"
    if "v \<in> mask_set seen" for v
    using that seen by (intro exI [of _ "[v]"]) (auto simp: walk_def is_src intro: chain_source)
  then have "path_inv n succ ?S avoid target seen (replicate n None) queue"
    using init(1) [of succ] seen by (auto simp: path_inv_def tree_inv_def is_src)
  note spec = path_loop_spec [OF _ wf this]
  obtain res parent where l: "path_loop succ avoid target seen (replicate n None) queue = (res, parent)"
    by (cases "path_loop succ avoid target seen (replicate n None) queue")
  have result: "bfs_path n succ sources is_src avoid target
      = (case res of None \<Rightarrow> [] | Some t \<Rightarrow> walk_back n (\<lambda>v. v \<in> ?S) parent t [])"
    using d l by (auto simp: bfs_path_def is_src split: option.splits)
  show "bfs_path n succ sources is_src avoid target \<noteq> [] \<Longrightarrow>
      residual_path n succ ?S avoid target (bfs_path n succ sources is_src avoid target)"
    using spec [OF l] unfolding result by (auto split: option.splits)
  show "bfs_path n succ sources is_src avoid target = [] \<longleftrightarrow>
      (\<forall>v \<in> reach n succ ?S avoid. target v \<longrightarrow> v \<in> ?S)"
  proof (cases res)
    case None
    then show ?thesis using spec [OF l] unfolding result by simp
  next
    case (Some t)
    then have p: "residual_path n succ ?S avoid target (walk_back n (\<lambda>v. v \<in> ?S) parent t [])"
      using spec [OF l] by simp
    then show ?thesis
      unfolding result Some using residual_path_reach [OF p] by (auto simp: residual_path_def)
  qed
qed

subsection \<open>The contract the solvers rely on\<close>

text \<open>
  A path finder for a class of instances: on a valid instance, what it returns is a residual
  path, and it returns nothing only when no target outside the sources is reachable.
\<close>

locale path_finder =
  fixes valid :: "'p \<Rightarrow> bool" and find :: "'p \<Rightarrow> (nat \<Rightarrow> bool) \<Rightarrow> nat list"
    and n :: "'p \<Rightarrow> nat" and succ :: "'p \<Rightarrow> nat \<Rightarrow> nat list" and S :: "'p \<Rightarrow> nat set"
    and target :: "'p \<Rightarrow> nat \<Rightarrow> bool"
  assumes found: "valid p \<Longrightarrow> find p avoid \<noteq> [] \<Longrightarrow>
      residual_path (n p) (succ p) (S p) avoid (target p) (find p avoid)"
    and none: "valid p \<Longrightarrow> find p avoid = [] \<longleftrightarrow>
      (\<forall>v \<in> reach (n p) (succ p) (S p) avoid. target p v \<longrightarrow> v \<in> S p)"
begin

text \<open>A set that separates the sources from the targets meets every path found.\<close>

lemma separator_meets:
  assumes ok: "valid p" and sep: "\<forall>v \<in> reach (n p) (succ p) (S p) (\<lambda>v. v \<in> C). \<not> target p v"
    and path: "find p avoid \<noteq> []"
  shows "\<exists>x \<in> set (find p avoid). x \<in> C"
proof (rule ccontr)
  assume "\<not> (\<exists>x \<in> set (find p avoid). x \<in> C)"
  then have "residual_path (n p) (succ p) (S p) (\<lambda>v. v \<in> C) (target p) (find p avoid)"
    using found [OF ok path] by (auto simp: residual_path_def)
  from residual_path_reach [OF this] sep show False by blast
qed

lemma found_unavoided: "valid p \<Longrightarrow> x \<in> set (find p avoid) \<Longrightarrow> \<not> avoid x \<and> x < n p"
  using found [of p avoid] by (cases "find p avoid = []") (auto simp: residual_path_def)

lemma found_distinct: "valid p \<Longrightarrow> distinct (find p avoid)"
  using found [of p avoid] by (cases "find p avoid = []") (auto simp: residual_path_def)

text \<open>
  When removing all of \<open>C\<close> separates and removing all of it but \<open>x\<close> does not, the path found
  around the rest runs through \<open>x\<close>.
\<close>

lemma found_through:
  assumes ok: "valid p" and sep: "\<forall>v \<in> reach (n p) (succ p) (S p) (\<lambda>v. v \<in> C). \<not> target p v"
    and path: "find p (\<lambda>v. v \<in> C - {x}) \<noteq> []"
  shows "x \<in> set (find p (\<lambda>v. v \<in> C - {x}))"
proof -
  obtain y where "y \<in> set (find p (\<lambda>v. v \<in> C - {x}))" "y \<in> C"
    using separator_meets [OF ok sep path] by blast
  then show ?thesis using found_unavoided [OF ok, of y "\<lambda>v. v \<in> C - {x}"] by (cases "y = x") auto
qed

end

end
