(* ===== verification/Engine_Problem.thy ===== *)
theory Engine_Problem
  imports Engine_Graph Engine_Search
begin

section \<open>The containment problem class MCC-1\<close>

text \<open>
  \<open>ContainmentInstanceSpec\<close> and \<open>ContainmentProblem\<close> of \<open>engine/cut.hpp\<close>, and
  \<open>ContainmentProblem::build\<close> of \<open>cut.cpp\<close>. \<open>wf_problem\<close> says what every built instance
  satisfies, in terms of the topology it was built from.
\<close>

record instance_spec =
  sp_sources :: "resource_id list"
  sp_protected :: "resource_id list"
  sp_forced_ineligible :: "resource_id list"
  sp_require_source :: bool
  sp_allow_protected :: bool
  sp_minimize_protected :: bool
  sp_max_weight :: u64
  sp_max_members :: nat

record problem =
  pr_graph :: graph
  pr_node_count :: nat
  pr_sources :: "nat list"
  pr_protected :: "nat list"
  pr_candidates :: "nat list"
  pr_uncontainable_sources :: "nat list"
  pr_barred :: "nat list"
  pr_frontier :: "nat list"
  pr_resource_ids :: "resource_id list"
  pr_containable :: "bool list"
  pr_protected_mask :: "bool list"
  pr_source_mask :: "bool list"
  pr_candidate_mask :: "bool list"
  pr_relevant :: "bool list"
  pr_weights :: "u64 list"
  pr_require_source :: bool
  pr_allow_protected :: bool
  pr_minimize_protected :: bool
  pr_max_weight :: u64
  pr_max_members :: nat
  pr_digest :: digest

definition is_candidate :: "problem \<Rightarrow> nat \<Rightarrow> bool" where
  "is_candidate p node = flag (pr_candidate_mask p) node"

definition is_containable :: "problem \<Rightarrow> nat \<Rightarrow> bool" where
  "is_containable p node = flag (pr_containable p) node"

definition is_protected :: "problem \<Rightarrow> nat \<Rightarrow> bool" where
  "is_protected p node = flag (pr_protected_mask p) node"

definition is_source :: "problem \<Rightarrow> nat \<Rightarrow> bool" where
  "is_source p node = flag (pr_source_mask p) node"

definition weight :: "problem \<Rightarrow> nat \<Rightarrow> u64" where
  "weight p node = pr_weights p ! node"

definition problem_succ :: "problem \<Rightarrow> nat \<Rightarrow> nat list" where
  "problem_succ p = conservative_successors (pr_graph p)"

subsection \<open>Building an instance\<close>

fun resolve_forced :: "topology \<Rightarrow> bool list \<Rightarrow> nat list \<Rightarrow> resource_id list \<Rightarrow>
    (bool list \<times> nat list) result" where
  "resolve_forced t containable barred [] = Inr (containable, barred)"
| "resolve_forced t containable barred (i # ids) =
     (case topology_find t i of
        None \<Rightarrow> err NotFound ''forced-ineligible resource is not in the topology''
      | Some index \<Rightarrow> resolve_forced t (unmark containable index) (barred @ [index]) ids)"

fun resolve_sources :: "topology \<Rightarrow> bool list \<Rightarrow> bool list \<Rightarrow> nat list \<Rightarrow> resource_id list \<Rightarrow>
    (bool list \<times> nat list) result" where
  "resolve_sources t protected_mask source_mask sources [] = Inr (source_mask, sources)"
| "resolve_sources t protected_mask source_mask sources (i # ids) =
     (case topology_find t i of
        None \<Rightarrow> err NotFound ''failure source is not present in the topology''
      | Some index \<Rightarrow>
          if flag source_mask index then err AlreadyExists ''duplicate failure source''
          else if flag protected_mask index
            then err InvalidArgument ''a resource cannot be both failed and protected''
          else resolve_sources t protected_mask (mark source_mask index) (sources @ [index]) ids)"

fun resolve_obligations :: "topology \<Rightarrow> bool \<Rightarrow> bool list \<Rightarrow> bool list \<Rightarrow> nat list \<Rightarrow>
    resource_id list \<Rightarrow> (bool list \<times> bool list \<times> nat list) result" where
  "resolve_obligations t allow containable protected_mask protected [] =
     Inr (containable, protected_mask, protected)"
| "resolve_obligations t allow containable protected_mask protected (i # ids) =
     (case topology_find t i of
        None \<Rightarrow> err NotFound ''protected obligation is not present in the topology''
      | Some index \<Rightarrow>
          if flag protected_mask index then err AlreadyExists ''duplicate protected obligation''
          else resolve_obligations t allow (containable[index := allow]) (mark protected_mask index)
                 (protected @ [index]) ids)"

definition instance_digest_of ::
  "topology \<Rightarrow> instance_spec \<Rightarrow> nat list \<Rightarrow> nat list \<Rightarrow> nat list \<Rightarrow> nat list \<Rightarrow> u64 list \<Rightarrow>
   nat list \<Rightarrow> digest" where
  "instance_digest_of t spec sources protected uncontainable candidates weights barred = digest_of
     (w_digest (t_digest t) @
      w_size32 (length (sp_sources spec)) @ concat (map w_size32 sources) @
      w_size32 (length (sp_protected spec)) @ concat (map w_size32 protected) @
      w_size32 (length uncontainable) @ concat (map w_size32 uncontainable) @
      w_size32 (length candidates) @ concat (map (\<lambda>c. w_size32 c @ w_u64 (weights ! c)) candidates) @
      w_size32 (length barred) @ concat (map w_size32 barred) @
      w_boolean (sp_require_source spec) @ w_boolean (sp_allow_protected spec) @
      w_boolean (sp_minimize_protected spec) @ w_u64 (sp_max_weight spec) @
      w_u64 (of_nat (sp_max_members spec)))"

text \<open>The second half of \<open>build\<close>, once every identity is resolved.\<close>

definition problem_finalize ::
  "graph \<Rightarrow> topology \<Rightarrow> instance_spec \<Rightarrow> nat list \<Rightarrow> bool list \<Rightarrow> nat list \<Rightarrow> bool list \<Rightarrow> bool list \<Rightarrow>
   nat list \<Rightarrow> problem" where
  "problem_finalize g t spec barred source_mask sources containable protected_mask protected =
     (let n = node_count t;
          weights = map ns_weight (t_nodes t);
          uncontainable = filter (\<lambda>s. \<not> flag containable s) sources;
          frontier = sort (bfs_frontier n (conservative_successors g) sources);
          relevant = mark_all (no_marks n) (bfs_frontier n (conservative_predecessors g) protected);
          on_path = mark_all (no_marks n) (filter (flag relevant) frontier);
          candidate_mask =
            (if sp_require_source spec then mark_all on_path (filter (flag containable) sources)
             else on_path);
          candidates = filter (flag candidate_mask) [0..<n]
      in \<lparr>pr_graph = g, pr_node_count = n, pr_sources = sources, pr_protected = protected,
          pr_candidates = candidates, pr_uncontainable_sources = uncontainable,
          pr_barred = barred, pr_frontier = frontier,
          pr_resource_ids = map ns_id (t_nodes t), pr_containable = containable,
          pr_protected_mask = protected_mask, pr_source_mask = source_mask,
          pr_candidate_mask = candidate_mask, pr_relevant = relevant, pr_weights = weights,
          pr_require_source = sp_require_source spec,
          pr_allow_protected = sp_allow_protected spec,
          pr_minimize_protected = sp_minimize_protected spec,
          pr_max_weight = sp_max_weight spec, pr_max_members = sp_max_members spec,
          pr_digest = instance_digest_of t spec sources protected uncontainable candidates
            weights barred\<rparr>)"

definition problem_build :: "graph \<Rightarrow> instance_spec \<Rightarrow> problem result" where
  "problem_build g spec =
     (case g_topology g of
        None \<Rightarrow> err InvalidArgument ''propagation graph was not built''
      | Some t \<Rightarrow>
        if sp_sources spec = []
          then err InvalidArgument ''containment instance requires at least one failure source''
        else if sp_protected spec = []
          then err InvalidArgument ''containment instance requires at least one protected obligation''
        else if length (sp_sources spec) > kMaxFailureSources
          then err LimitExceeded ''failure source count exceeds bound''
        else if length (sp_protected spec) > kMaxProtectedObligations
          then err LimitExceeded ''protected obligation count exceeds bound''
        else if sp_max_members spec = 0 \<or> sp_max_members spec > kMaxBoundaryMembers
          then err InvalidArgument ''member bound out of range''
        else let n = node_count t in
          try_result (resolve_forced t (map ns_containable (t_nodes t)) [] (sp_forced_ineligible spec))
            (\<lambda>(containable, barred).
          try_result (resolve_sources t (no_marks n) (no_marks n) [] (sp_sources spec))
            (\<lambda>(source_mask, sources).
          try_result (resolve_obligations t (sp_allow_protected spec) containable (no_marks n) []
              (sp_protected spec))
            (\<lambda>(containable', protected_mask, protected).
              Inr (problem_finalize g t spec (remdups_adj (sort barred)) source_mask sources
                containable' protected_mask (sort protected))))))"

subsection \<open>What resolution accepts\<close>

text \<open>Every resolution loop maps the identities of the description to their indices.\<close>

definition indices_of :: "topology \<Rightarrow> resource_id list \<Rightarrow> nat list" where
  "indices_of t ids = map (the \<circ> topology_find t) ids"

definition all_known :: "topology \<Rightarrow> resource_id list \<Rightarrow> bool" where
  "all_known t ids \<longleftrightarrow> (\<forall>i \<in> set ids. topology_find t i \<noteq> None)"

lemma all_known_simps [simp]:
  "all_known t []" "all_known t (i # ids) \<longleftrightarrow> topology_find t i \<noteq> None \<and> all_known t ids"
  by (simp_all add: all_known_def)

lemma indices_of_simps [simp]:
  "indices_of t [] = []" "indices_of t (i # ids) = the (topology_find t i) # indices_of t ids"
  by (simp_all add: indices_of_def)

lemma length_indices_of [simp]: "length (indices_of t ids) = length ids"
  by (simp add: indices_of_def)

lemma indices_of_Nil_iff [simp]: "indices_of t ids = [] \<longleftrightarrow> ids = []"
  by (simp add: indices_of_def)

lemma sort_eq_Nil_iff: "sort xs = [] \<longleftrightarrow> xs = []"
  by (metis length_0_conv length_sort)

lemma indices_of_range:
  assumes "wf_topology t" and "all_known t ids"
  shows "set (indices_of t ids) \<subseteq> {..<node_count t}"
proof -
  have "the (topology_find t i) < node_count t" if "i \<in> set ids" for i
    using assms that topology_find_iff [OF assms(1), of i]
    by (cases "topology_find t i") (auto simp: all_known_def)
  then show ?thesis by (auto simp: indices_of_def)
qed

lemma resolve_forced_iff:
  "resolve_forced t containable barred ids = Inr r \<longleftrightarrow>
     all_known t ids \<and> r = (foldl unmark containable (indices_of t ids), barred @ indices_of t ids)"
  by (induction t containable barred ids rule: resolve_forced.induct) (auto split: option.splits)

lemma resolve_sources_iff:
  assumes "wf_topology t" and "length source_mask = node_count t"
    and "mask_set source_mask = set sources" and "distinct sources" and "mask_set protected_mask = {}"
  shows "resolve_sources t protected_mask source_mask sources ids = Inr r \<longleftrightarrow>
     all_known t ids \<and> distinct (sources @ indices_of t ids) \<and>
     r = (mark_all source_mask (indices_of t ids), sources @ indices_of t ids)"
  using assms(2-)
proof (induction ids arbitrary: source_mask sources)
  case Nil
  then show ?case by auto
next
  case (Cons i ids)
  show ?case
  proof (cases "topology_find t i")
    case None
    then show ?thesis by simp
  next
    case (Some x)
    then have x: "x < length source_mask" using topology_find_iff [OF assms(1)] Cons.prems(1) by simp
    have np: "\<not> flag protected_mask x" using Cons.prems(4) by (simp add: flag_mask_set)
    show ?thesis
    proof (cases "x \<in> set sources")
      case True
      then show ?thesis using Some Cons.prems by (simp add: flag_mask_set)
    next
      case False
      have "resolve_sources t protected_mask (mark source_mask x) (sources @ [x]) ids = Inr r \<longleftrightarrow>
         all_known t ids \<and> distinct ((sources @ [x]) @ indices_of t ids) \<and>
         r = (mark_all (mark source_mask x) (indices_of t ids), (sources @ [x]) @ indices_of t ids)"
        using Cons.prems False x by (intro Cons.IH) (simp_all add: mask_set_mark)
      then show ?thesis using Some False np Cons.prems by (simp add: flag_mask_set mark_all_Cons)
    qed
  qed
qed

lemma resolve_obligations_iff:
  assumes "wf_topology t" and "length protected_mask = node_count t"
    and "mask_set protected_mask = set protected" and "distinct protected"
  shows "resolve_obligations t allow containable protected_mask protected ids = Inr r \<longleftrightarrow>
     all_known t ids \<and> distinct (protected @ indices_of t ids) \<and>
     r = (foldl (\<lambda>m i. m[i := allow]) containable (indices_of t ids),
          mark_all protected_mask (indices_of t ids), protected @ indices_of t ids)"
  using assms(2-)
proof (induction ids arbitrary: containable protected_mask protected)
  case Nil
  then show ?case by auto
next
  case (Cons i ids)
  show ?case
  proof (cases "topology_find t i")
    case None
    then show ?thesis by simp
  next
    case (Some x)
    then have x: "x < length protected_mask" using topology_find_iff [OF assms(1)] Cons.prems(1) by simp
    show ?thesis
    proof (cases "x \<in> set protected")
      case True
      then show ?thesis using Some Cons.prems by (simp add: flag_mask_set)
    next
      case False
      have "resolve_obligations t allow (containable[x := allow]) (mark protected_mask x)
          (protected @ [x]) ids = Inr r \<longleftrightarrow>
         all_known t ids \<and> distinct ((protected @ [x]) @ indices_of t ids) \<and>
         r = (foldl (\<lambda>m i. m[i := allow]) (containable[x := allow]) (indices_of t ids),
          mark_all (mark protected_mask x) (indices_of t ids), (protected @ [x]) @ indices_of t ids)"
        using Cons.prems False x by (intro Cons.IH) (simp_all add: mask_set_mark)
      then show ?thesis using Some False Cons.prems by (simp add: flag_mask_set mark_all_Cons)
    qed
  qed
qed

subsection \<open>What every built instance satisfies\<close>

definition wf_problem :: "problem \<Rightarrow> bool" where
  "wf_problem p \<longleftrightarrow>
     pr_node_count p \<le> kMaxTopologyNodes \<and>
     length (pr_resource_ids p) = pr_node_count p \<and> sorted_wrt (<) (pr_resource_ids p) \<and>
     length (pr_weights p) = pr_node_count p \<and>
     (\<forall>w \<in> set (pr_weights p). 0 < w \<and> w \<le> kMaxNodeWeight) \<and>
     length (pr_containable p) = pr_node_count p \<and>
     length (pr_protected_mask p) = pr_node_count p \<and> length (pr_source_mask p) = pr_node_count p \<and>
     mask_set (pr_source_mask p) = set (pr_sources p) \<and>
     mask_set (pr_protected_mask p) = set (pr_protected p) \<and>
     distinct (pr_sources p) \<and> pr_sources p \<noteq> [] \<and> pr_protected p \<noteq> [] \<and>
     (\<forall>i \<in> set (pr_protected p). is_containable p i \<longleftrightarrow> pr_allow_protected p) \<and>
     0 < pr_max_members p \<and> pr_max_members p \<le> kMaxBoundaryMembers \<and>
     wf_succ (pr_node_count p) (problem_succ p) \<and>
     (\<forall>u < pr_node_count p. sorted (problem_succ p u))"

lemma length_foldl_unmark [simp]: "length (foldl unmark m is) = length m"
  by (induction "is" arbitrary: m) simp_all

lemma mask_set_foldl_unmark: "mask_set (foldl unmark m is) = mask_set m - set is"
  by (induction "is" arbitrary: m) (auto simp: mask_set_unmark)

lemma mask_set_update:
  "i < length m \<Longrightarrow> mask_set (m[i := b]) = (if b then insert i (mask_set m) else mask_set m - {i})"
  using mask_set_mark [of i m] mask_set_unmark [of m i] by (simp add: mark_def unmark_def)

lemma length_foldl_update [simp]: "length (foldl (\<lambda>m i. m[i := b]) m is) = length m"
  by (induction "is" arbitrary: m) simp_all

lemma mask_set_foldl_update:
  "set is \<subseteq> {..<length m} \<Longrightarrow>
   mask_set (foldl (\<lambda>m i. m[i := b]) m is) = (if b then mask_set m \<union> set is else mask_set m - set is)"
  by (induction "is" arbitrary: m) (auto simp: mask_set_update)

definition declared_containable :: "topology \<Rightarrow> nat set" where
  "declared_containable t = {i. i < node_count t \<and> ns_containable (t_nodes t ! i)}"

lemma mask_set_declared:
  "mask_set (map ns_containable (t_nodes t)) = declared_containable t"
  by (auto simp: mask_set_def flag_def declared_containable_def node_count_def)

lemma problem_build_iff:
  assumes "wf_topology t"
  shows "problem_build (graph_build t) spec = Inr p \<longleftrightarrow>
    sp_sources spec \<noteq> [] \<and> sp_protected spec \<noteq> [] \<and>
    length (sp_sources spec) \<le> kMaxFailureSources \<and>
    length (sp_protected spec) \<le> kMaxProtectedObligations \<and>
    0 < sp_max_members spec \<and> sp_max_members spec \<le> kMaxBoundaryMembers \<and>
    all_known t (sp_forced_ineligible spec) \<and> all_known t (sp_sources spec) \<and>
    all_known t (sp_protected spec) \<and>
    distinct (indices_of t (sp_sources spec)) \<and> distinct (indices_of t (sp_protected spec)) \<and>
    p = problem_finalize (graph_build t) t spec
      (remdups_adj (sort (indices_of t (sp_forced_ineligible spec))))
      (mark_all (no_marks (node_count t)) (indices_of t (sp_sources spec)))
      (indices_of t (sp_sources spec))
      (foldl (\<lambda>m i. m[i := sp_allow_protected spec])
        (foldl unmark (map ns_containable (t_nodes t)) (indices_of t (sp_forced_ineligible spec)))
        (indices_of t (sp_protected spec)))
      (mark_all (no_marks (node_count t)) (indices_of t (sp_protected spec)))
      (sort (indices_of t (sp_protected spec)))"
proof -
  note res = resolve_sources_iff [OF assms, of "no_marks (node_count t)" "[]" "no_marks (node_count t)"]
    resolve_obligations_iff [OF assms, of "no_marks (node_count t)" "[]"]
  show ?thesis
    unfolding problem_build_def
    by (auto simp: try_result_Inr_iff resolve_forced_iff res Let_def not_less split: if_splits)
qed

text \<open>The fields of an instance that the theorems mention, over the topology.\<close>

lemma problem_build_fields:
  assumes t: "wf_topology t" and b: "problem_build (graph_build t) spec = Inr p"
  shows "pr_graph p = graph_build t" "pr_node_count p = node_count t"
    "pr_sources p = indices_of t (sp_sources spec)"
    "pr_protected p = sort (indices_of t (sp_protected spec))"
    "pr_resource_ids p = map ns_id (t_nodes t)" "pr_weights p = map ns_weight (t_nodes t)"
    "pr_require_source p = sp_require_source spec" "pr_allow_protected p = sp_allow_protected spec"
    "pr_minimize_protected p = sp_minimize_protected spec"
    "pr_max_weight p = sp_max_weight spec" "pr_max_members p = sp_max_members spec"
    "length (pr_containable p) = node_count t"
    "length (pr_protected_mask p) = node_count t" "length (pr_source_mask p) = node_count t"
    "mask_set (pr_source_mask p) = set (pr_sources p)"
    "mask_set (pr_protected_mask p) = set (pr_protected p)"
    "mask_set (pr_containable p) =
      (declared_containable t - set (indices_of t (sp_forced_ineligible spec)) - set (pr_protected p))
      \<union> (if sp_allow_protected spec then set (pr_protected p) else {})"
    "set (pr_barred p) = set (indices_of t (sp_forced_ineligible spec))"
    "set (pr_sources p) \<subseteq> {..<node_count t}" "set (pr_protected p) \<subseteq> {..<node_count t}"
    "distinct (pr_sources p)" "distinct (pr_protected p)"
proof -
  let ?s = "indices_of t (sp_sources spec)" and ?p = "indices_of t (sp_protected spec)"
  have acc: "all_known t (sp_sources spec)" "all_known t (sp_protected spec)"
      "distinct ?s" "distinct ?p"
    using b unfolding problem_build_iff [OF t] by blast+
  have p: "p = problem_finalize (graph_build t) t spec
      (remdups_adj (sort (indices_of t (sp_forced_ineligible spec))))
      (mark_all (no_marks (node_count t)) ?s) ?s
      (foldl (\<lambda>m i. m[i := sp_allow_protected spec])
        (foldl unmark (map ns_containable (t_nodes t)) (indices_of t (sp_forced_ineligible spec))) ?p)
      (mark_all (no_marks (node_count t)) ?p) (sort ?p)"
    using b unfolding problem_build_iff [OF t] by blast
  have r: "set ?s \<subseteq> {..<node_count t}" "set ?p \<subseteq> {..<node_count t}"
    using indices_of_range [OF t] acc by blast+
  then have m: "mask_set (mark_all (no_marks (node_count t)) ?s) = set ?s"
      "mask_set (mark_all (no_marks (node_count t)) ?p) = set ?p"
    by (simp_all add: mask_set_mark_all)
  have l: "length (t_nodes t) = node_count t" by (simp add: node_count_def)
  show "pr_graph p = graph_build t" "pr_node_count p = node_count t" "pr_sources p = ?s"
    "pr_protected p = sort ?p"
    "pr_resource_ids p = map ns_id (t_nodes t)" "pr_weights p = map ns_weight (t_nodes t)"
    "pr_require_source p = sp_require_source spec" "pr_allow_protected p = sp_allow_protected spec"
    "pr_minimize_protected p = sp_minimize_protected spec"
    "pr_max_weight p = sp_max_weight spec" "pr_max_members p = sp_max_members spec"
    "length (pr_containable p) = node_count t"
    "length (pr_protected_mask p) = node_count t" "length (pr_source_mask p) = node_count t"
    "mask_set (pr_source_mask p) = set (pr_sources p)"
    "mask_set (pr_protected_mask p) = set (pr_protected p)"
    "set (pr_barred p) = set (indices_of t (sp_forced_ineligible spec))"
    "set (pr_sources p) \<subseteq> {..<node_count t}" "set (pr_protected p) \<subseteq> {..<node_count t}"
    "distinct (pr_sources p)" "distinct (pr_protected p)"
    unfolding p problem_finalize_def Let_def using m r acc l by (simp_all add: remdups_adj_set)
  have "set ?p \<subseteq> {..<length (foldl unmark (map ns_containable (t_nodes t))
      (indices_of t (sp_forced_ineligible spec)))}"
    using r l by simp
  from mask_set_foldl_update [OF this]
  show "mask_set (pr_containable p) =
      (declared_containable t - set (indices_of t (sp_forced_ineligible spec)) - set (pr_protected p))
      \<union> (if sp_allow_protected spec then set (pr_protected p) else {})"
    unfolding p problem_finalize_def Let_def
    by (auto simp: mask_set_foldl_unmark mask_set_declared)
qed

lemma problem_build_wf:
  assumes t: "wf_topology t" and b: "problem_build (graph_build t) spec = Inr p"
  shows "wf_problem p"
proof -
  note f = problem_build_fields [OF assms]
  have succ: "wf_succ (node_count t) (problem_succ p)"
    using successors_iff [OF t] edges_with_range [OF t]
    by (auto simp: wf_succ_def problem_succ_def f)
  have sorted: "\<forall>u < node_count t. sorted (problem_succ p u)"
    using successors_sorted(1) [OF t] by (simp add: problem_succ_def f)
  have acc: "sp_sources spec \<noteq> []" "sp_protected spec \<noteq> []" "0 < sp_max_members spec"
      "sp_max_members spec \<le> kMaxBoundaryMembers"
    using b unfolding problem_build_iff [OF t] by blast+
  then have ne: "pr_sources p \<noteq> []" "pr_protected p \<noteq> []"
    using sort_eq_Nil_iff [of "indices_of t (sp_protected spec)"] by (simp_all add: f(3,4))
  have prot: "\<forall>i \<in> set (pr_protected p). is_containable p i \<longleftrightarrow> pr_allow_protected p"
    by (auto simp: is_containable_def flag_mask_set f(17) f(8))
  have top: "length (t_nodes t) \<le> kMaxTopologyNodes" "sorted_wrt (<) (map ns_id (t_nodes t))"
      "\<forall>n \<in> set (t_nodes t). wf_node n" "length (t_nodes t) = node_count t"
    using t by (simp_all add: wf_topology_def node_count_def)
  have sizes: "pr_node_count p \<le> kMaxTopologyNodes" "length (pr_resource_ids p) = pr_node_count p"
      "sorted_wrt (<) (pr_resource_ids p)" "length (pr_weights p) = pr_node_count p"
      "\<forall>w \<in> set (pr_weights p). 0 < w \<and> w \<le> kMaxNodeWeight"
    using top by (auto simp: f wf_node_def)
  show ?thesis
    unfolding wf_problem_def
    using sizes succ sorted acc ne prot f(10-16) f(21) by (simp add: f(2) f(11))
qed

end
