(* ===== verification/Engine_Cut.thy ===== *)
theory Engine_Cut
  imports Engine_Problem
begin

section \<open>Cuts: reachability, objectives and the verifier\<close>

text \<open>
  The rest of \<open>cut.cpp\<close> and \<open>solver_common.hpp\<close>: residual paths, the objective order, the
  independent verifier and the certificate checker. \<open>feasible\<close> states the five hard
  constraints of MCC-1 as \<open>engine/cut.hpp\<close> lists them, on sets of nodes;
  \<open>verify_cut_iff\<close> shows that the verifier decides exactly them and returns the objective.
\<close>

subsection \<open>Status, objective and solution\<close>

datatype solve_status =
    SolvedOptimal | SolvedFeasible | SolvedInfeasible | SolveLimitReached | SolveInvalid

definition kSolveStatusTokens :: "(solve_status \<times> string) list" where
  "kSolveStatusTokens =
    [(SolvedOptimal, ''proven_optimal''), (SolvedFeasible, ''feasible_not_proven_optimal''),
     (SolvedInfeasible, ''proven_infeasible''),
     (SolveLimitReached, ''limit_reached_no_solution''), (SolveInvalid, ''invalid_problem'')]"

definition solve_status_to_string :: "solve_status \<Rightarrow> string" where
  "solve_status_to_string v = token_of kSolveStatusTokens ''unrecognised_solve_status'' v"

interpretation solve_tokens: token_map kSolveStatusTokens
proof unfold_locales
  show "x \<in> fst ` set kSolveStatusTokens" for x
    by (cases x) (simp_all add: kSolveStatusTokens_def)
qed (simp_all add: kSolveStatusTokens_def)

datatype objective_vector =
  Objective (ov_protected: u64) (ov_weight: u64) (ov_cardinality: u64)
    (ov_signature: "resource_id list")

definition objective_less :: "objective_vector \<Rightarrow> objective_vector \<Rightarrow> bool \<Rightarrow> bool" where
  "objective_less a b minimize_protected =
     (if minimize_protected \<and> ov_protected a \<noteq> ov_protected b
        then ov_protected a < ov_protected b
      else if ov_weight a \<noteq> ov_weight b then ov_weight a < ov_weight b
      else if ov_cardinality a \<noteq> ov_cardinality b then ov_cardinality a < ov_cardinality b
      else ov_signature a < ov_signature b)"

definition objective_key :: "bool \<Rightarrow> objective_vector \<Rightarrow> u64 \<times> u64 \<times> u64 \<times> resource_id list" where
  "objective_key m a =
     (if m then ov_protected a else 0, ov_weight a, ov_cardinality a, ov_signature a)"

lemma objective_less_key: "objective_less a b m \<longleftrightarrow> objective_key m a < objective_key m b"
  by (auto simp: objective_less_def objective_key_def)

lemma objective_key_inj: "objective_key True a = objective_key True b \<longleftrightarrow> a = b"
  by (cases a; cases b) (simp add: objective_key_def)

text \<open>\<open>operator<\<close>: the documented default order, a linear order on objectives.\<close>

instantiation objective_vector :: linorder
begin

definition less_objective_vector :: "objective_vector \<Rightarrow> objective_vector \<Rightarrow> bool" where
  "less_objective_vector a b = objective_less a b True"

definition less_eq_objective_vector :: "objective_vector \<Rightarrow> objective_vector \<Rightarrow> bool" where
  "less_eq_objective_vector a b \<longleftrightarrow> objective_key True a \<le> objective_key True b"

instance
proof
  fix a b c :: objective_vector
  show "a < b \<longleftrightarrow> a \<le> b \<and> \<not> b \<le> a"
    by (auto simp: less_objective_vector_def less_eq_objective_vector_def objective_less_key)
  show "a \<le> a" by (simp add: less_eq_objective_vector_def)
  show "a \<le> b \<Longrightarrow> b \<le> c \<Longrightarrow> a \<le> c" by (auto simp: less_eq_objective_vector_def)
  show "a \<le> b \<Longrightarrow> b \<le> a \<Longrightarrow> a = b"
    by (simp add: less_eq_objective_vector_def objective_key_inj [symmetric])
  show "a \<le> b \<or> b \<le> a" by (auto simp: less_eq_objective_vector_def)
qed

end

definition empty_objective :: objective_vector where
  "empty_objective = Objective 0 0 0 []"

record solve_counters =
  sc_candidate_nodes :: u64
  sc_explored_nodes :: u64
  sc_pruned_branches :: u64
  sc_residual_paths_checked :: u64
  sc_budget :: u64
  sc_budget_exhausted :: bool
  sc_heuristic_used :: bool

definition zero_counters :: solve_counters where
  "zero_counters =
     \<lparr>sc_candidate_nodes = 0, sc_explored_nodes = 0, sc_pruned_branches = 0,
      sc_residual_paths_checked = 0, sc_budget = 0, sc_budget_exhausted = False,
      sc_heuristic_used = False\<rparr>"

record cut_solution =
  cs_status :: solve_status
  cs_members :: "nat list"
  cs_objective :: objective_vector
  cs_counters :: solve_counters
  cs_has_witness :: bool
  cs_infeasibility_path :: "nat list"

definition empty_solution :: cut_solution where
  "empty_solution =
     \<lparr>cs_status = SolveInvalid, cs_members = [], cs_objective = empty_objective,
      cs_counters = zero_counters, cs_has_witness = False, cs_infeasibility_path = []\<rparr>"

definition has_solution :: "cut_solution \<Rightarrow> bool" where
  "has_solution s \<longleftrightarrow> cs_status s = SolvedOptimal \<or> cs_status s = SolvedFeasible"

record solve_budget =
  sb_max_explored :: u64
  sb_max_iterations :: u64

subsection \<open>Reachability and paths\<close>

definition source_reaches_protected :: "problem \<Rightarrow> nat list \<Rightarrow> bool" where
  "source_reaches_protected p excluded =
     (let blocked = mark_all (no_marks (pr_node_count p)) excluded
      in bfs_reaches (pr_node_count p) (problem_succ p) (pr_sources p) (flag blocked) (is_protected p))"

definition cut_is_valid :: "problem \<Rightarrow> nat list \<Rightarrow> bool" where
  "cut_is_valid p removed = (\<not> source_reaches_protected p removed)"

definition shortest_residual_path :: "problem \<Rightarrow> bool list \<Rightarrow> nat list" where
  "shortest_residual_path p blocked =
     bfs_path (pr_node_count p) (problem_succ p) (pr_sources p) (is_source p) (flag blocked)
       (is_protected p)"

fun path_uses_unknown :: "graph \<Rightarrow> nat list \<Rightarrow> bool" where
  "path_uses_unknown g (a # b # path) =
     (if \<not> std_binary_search (proven_successors g a) b \<and> has_unknown_edge g a b then True
      else path_uses_unknown g (b # path))"
| "path_uses_unknown g path = False"

definition find_witness_path :: "problem \<Rightarrow> nat list \<Rightarrow> nat list \<times> bool" where
  "find_witness_path p excluded =
     (let blocked = mark_all (no_marks (pr_node_count p)) excluded;
          path = bfs_path (pr_node_count p) (problem_succ p) (pr_sources p) (is_source p)
            (flag blocked) (is_protected p)
      in (path, path_uses_unknown (pr_graph p) path))"

definition is_mandatory_member :: "problem \<Rightarrow> nat \<Rightarrow> bool" where
  "is_mandatory_member p node \<longleftrightarrow> pr_require_source p \<and> is_source p node \<and> is_containable p node"

definition remaining_member_capacity :: "problem \<Rightarrow> nat \<Rightarrow> nat" where
  "remaining_member_capacity p used =
     (if used \<ge> pr_max_members p then 0 else pr_max_members p - used)"

subsection \<open>The verifier\<close>

fun has_adjacent_equal :: "nat list \<Rightarrow> bool" where
  "has_adjacent_equal (a # b # xs) = (if b = a then True else has_adjacent_equal (b # xs))"
| "has_adjacent_equal _ = False"

fun verify_members :: "problem \<Rightarrow> u64 \<Rightarrow> u64 \<Rightarrow> nat list \<Rightarrow> (u64 \<times> u64) result" where
  "verify_members p total_weight prots [] = Inr (total_weight, prots)"
| "verify_members p total_weight prots (node # nodes) =
     (if node \<ge> pr_node_count p
        then err InvalidArgument ''containment member index out of range''
      else if \<not> is_containable p node
        then err Denied ''containment member is not eligible for containment''
      else if is_protected p node \<and> \<not> pr_allow_protected p
        then err Denied ''protected obligation may not be contained by this policy''
      else case checked_add total_weight (weight p node) of
             None \<Rightarrow> err LimitExceeded ''containment weight overflowed''
           | Some total' \<Rightarrow>
               verify_members p total' (if is_protected p node then prots + 1 else prots) nodes)"

definition verify_cut :: "problem \<Rightarrow> nat list \<Rightarrow> objective_vector result" where
  "verify_cut p members =
     (if length members > pr_max_members p
        then err LimitExceeded ''containment set exceeds the member bound''
      else let sorted_members = sort members in
        if has_adjacent_equal sorted_members
          then err AlreadyExists ''duplicate containment member''
        else try_result (verify_members p 0 0 sorted_members) (\<lambda>(total_weight, prots).
          if total_weight > pr_max_weight p
            then err LimitExceeded ''containment set exceeds the weight bound''
          else if pr_require_source p \<and>
              (\<exists>s \<in> set (pr_sources p). is_containable p s \<and> \<not> std_binary_search sorted_members s)
            then err Denied ''eligible failure source is not contained''
          else if source_reaches_protected p sorted_members
            then err Denied
              ''containment set does not disconnect failure sources from protected obligations''
          else Inr (Objective prots total_weight (of_nat (length sorted_members))
                 (map (\<lambda>i. pr_resource_ids p ! i) sorted_members))))"

definition objective_of :: "problem \<Rightarrow> nat list \<Rightarrow> objective_vector result" where
  "objective_of p members = verify_cut p members"

definition verify_infeasibility_witness :: "problem \<Rightarrow> nat list \<Rightarrow> bool" where
  "verify_infeasibility_witness p path \<longleftrightarrow>
     \<not> length path < 2 \<and> is_source p (hd path) \<and> is_protected p (last path) \<and>
     (\<forall>node \<in> set path. \<not> is_containable p node) \<and>
     (\<forall>i \<in> set [0..<length path - 1].
        std_binary_search (problem_succ p (path ! i)) (path ! (i + 1)))"

subsection \<open>The hard constraints of MCC-1\<close>

definition weight_sum :: "problem \<Rightarrow> nat set \<Rightarrow> nat" where
  "weight_sum p C = (\<Sum>x \<in> C. unat (weight p x))"

definition separates :: "problem \<Rightarrow> nat set \<Rightarrow> bool" where
  "separates p C \<longleftrightarrow>
     (\<forall>v \<in> reach (pr_node_count p) (problem_succ p) (set (pr_sources p)) (\<lambda>v. v \<in> C).
        \<not> is_protected p v)"

definition feasible :: "problem \<Rightarrow> nat set \<Rightarrow> bool" where
  "feasible p C \<longleftrightarrow>
     (\<forall>x \<in> C. x < pr_node_count p \<and> is_containable p x) \<and>
     (pr_require_source p \<longrightarrow> (\<forall>s \<in> set (pr_sources p). is_containable p s \<longrightarrow> s \<in> C)) \<and>
     (pr_allow_protected p \<or> (\<forall>x \<in> C. \<not> is_protected p x)) \<and>
     card C \<le> pr_max_members p \<and> weight_sum p C \<le> unat (pr_max_weight p) \<and>
     separates p C"

definition protected_count :: "problem \<Rightarrow> nat set \<Rightarrow> nat" where
  "protected_count p C = card {x \<in> C. is_protected p x}"

definition signature :: "problem \<Rightarrow> nat set \<Rightarrow> resource_id list" where
  "signature p C = map (\<lambda>i. pr_resource_ids p ! i) (sorted_list_of_set C)"

definition objective_value :: "problem \<Rightarrow> nat set \<Rightarrow> objective_vector" where
  "objective_value p C =
     Objective (of_nat (protected_count p C)) (of_nat (weight_sum p C)) (of_nat (card C)) (signature p C)"

subsection \<open>Facts about well-formed instances\<close>

lemma wf_problem_weight:
  assumes "wf_problem p" and "x < pr_node_count p"
  shows "0 < unat (weight p x)" and "unat (weight p x) \<le> 1000000"
proof -
  have w: "0 < weight p x" "weight p x \<le> kMaxNodeWeight"
    using assms by (auto simp: wf_problem_def weight_def)
  then show "0 < unat (weight p x)" by (simp add: unat_gt_0 word_gt_0)
  from w(2) show "unat (weight p x) \<le> 1000000"
    by (simp add: word_le_nat_alt kMaxNodeWeight_def)
qed

lemma weight_sum_bound:
  assumes "wf_problem p" and "C \<subseteq> {..<pr_node_count p}"
  shows "weight_sum p C \<le> 65536000000" and "card C \<le> 65536" and "finite C"
proof -
  have n: "pr_node_count p \<le> 65536" using assms(1) by (simp add: wf_problem_def kMaxTopologyNodes_def)
  show f: "finite C" using assms(2) by (rule finite_subset) simp
  have "card C \<le> pr_node_count p" using card_mono [OF _ assms(2)] by simp
  then show c: "card C \<le> 65536" using n by simp
  have "weight_sum p C \<le> card C * 1000000"
    unfolding weight_sum_def using assms(2) wf_problem_weight(2) [OF assms(1)]
    by (intro sum_bounded_above [where 'a = nat, simplified]) auto
  then show "weight_sum p C \<le> 65536000000" using c by simp
qed

lemma is_source_iff: "wf_problem p \<Longrightarrow> is_source p v \<longleftrightarrow> v \<in> set (pr_sources p)"
  by (simp add: wf_problem_def is_source_def flag_mask_set)

lemma is_protected_iff: "wf_problem p \<Longrightarrow> is_protected p v \<longleftrightarrow> v \<in> set (pr_protected p)"
  by (simp add: wf_problem_def is_protected_def flag_mask_set)

lemma wf_problem_succ: "wf_problem p \<Longrightarrow> wf_succ (pr_node_count p) (problem_succ p)"
  by (simp add: wf_problem_def)

lemma wf_problem_sources: "wf_problem p \<Longrightarrow> set (pr_sources p) \<subseteq> {..<pr_node_count p}"
  using mask_set_bound [of "pr_source_mask p"] by (simp add: wf_problem_def)

lemma is_containable_range: "wf_problem p \<Longrightarrow> is_containable p x \<Longrightarrow> x < pr_node_count p"
  by (simp add: wf_problem_def is_containable_def flag_def)

interpretation residual: path_finder wf_problem
  "\<lambda>p avoid. bfs_path (pr_node_count p) (problem_succ p) (pr_sources p) (is_source p) avoid (is_protected p)"
  pr_node_count problem_succ "\<lambda>p. set (pr_sources p)" is_protected
proof unfold_locales
  fix p avoid
  assume wf: "wf_problem p"
  note spec = bfs_path_spec [OF wf_problem_succ [OF wf] wf_problem_sources [OF wf] is_source_iff [OF wf],
      of avoid "is_protected p"]
  let ?find = "bfs_path (pr_node_count p) (problem_succ p) (pr_sources p) (is_source p) avoid (is_protected p)"
  show "?find \<noteq> [] \<Longrightarrow> residual_path (pr_node_count p) (problem_succ p) (set (pr_sources p)) avoid
      (is_protected p) ?find"
    by (rule spec(2))
  show "?find = [] \<longleftrightarrow> (\<forall>v \<in> reach (pr_node_count p) (problem_succ p) (set (pr_sources p)) avoid.
      is_protected p v \<longrightarrow> v \<in> set (pr_sources p))"
    by (rule spec(1))
qed

lemma source_reaches_protected_iff:
  assumes "wf_problem p" and "set excluded \<subseteq> {..<pr_node_count p}"
  shows "source_reaches_protected p excluded \<longleftrightarrow> \<not> separates p (set excluded)"
proof -
  have m: "flag (mark_all (no_marks (pr_node_count p)) excluded) = (\<lambda>v. v \<in> set excluded)"
    using assms(2) by (auto simp: flag_mask_set mask_set_mark_all)
  show ?thesis
    unfolding source_reaches_protected_def Let_def m
    using bfs_reaches_iff [OF wf_problem_succ [OF assms(1)] wf_problem_sources [OF assms(1)]]
    by (simp add: separates_def)
qed

lemma feasible_range: "feasible p C \<Longrightarrow> C \<subseteq> {..<pr_node_count p}"
  by (auto simp: feasible_def)

subsection \<open>The verifier decides the hard constraints\<close>

lemma has_adjacent_equal_iff: "sorted xs \<Longrightarrow> has_adjacent_equal xs \<longleftrightarrow> \<not> distinct xs"
  by (induction xs rule: has_adjacent_equal.induct) auto

definition member_ok :: "problem \<Rightarrow> nat \<Rightarrow> bool" where
  "member_ok p x \<longleftrightarrow> x < pr_node_count p \<and> is_containable p x \<and>
     (is_protected p x \<longrightarrow> pr_allow_protected p)"

lemma verify_members_iff:
  assumes "unat w + (\<Sum>x\<leftarrow>xs. unat (weight p x)) < 2 ^ 64"
  shows "verify_members p w q xs = Inr r \<longleftrightarrow> (\<forall>x \<in> set xs. member_ok p x) \<and>
    r = (w + of_nat (\<Sum>x\<leftarrow>xs. unat (weight p x)), q + of_nat (length (filter (is_protected p) xs)))"
  using assms
proof (induction xs arbitrary: w q)
  case Nil
  then show ?case by auto
next
  case (Cons x xs)
  have "checked_add w (weight p x) = Some (w + weight p x)"
    using Cons.prems by (simp add: checked_add_Some)
  moreover have "unat (w + weight p x) = unat w + unat (weight p x)"
    using Cons.prems by (intro unat_add_lem [THEN iffD1]) simp
  ultimately show ?case
    using Cons.prems
    by (auto simp: Cons.IH member_ok_def algebra_simps)
qed

lemma sum_list_distinct_set:
  "distinct xs \<Longrightarrow> (\<Sum>x\<leftarrow>xs. f x) = (\<Sum>x \<in> set xs. f x)"
  by (simp add: sum_list_distinct_conv_sum_set)

lemma length_filter_card: "distinct xs \<Longrightarrow> length (filter P xs) = card {x \<in> set xs. P x}"
  by (metis distinct_card distinct_filter set_filter)

text \<open>
  Members that are distinct but out of range make the verifier fail on the member checks
  before any weight is added beyond them; \<open>verify_members_range\<close> covers them.
\<close>

lemma verify_members_range:
  "verify_members p w q xs = Inr r \<Longrightarrow> set xs \<subseteq> {..<pr_node_count p}"
  by (induction p w q xs rule: verify_members.induct) (auto split: if_splits option.splits)

lemma verify_cut_iff:
  assumes wf: "wf_problem p"
  shows "verify_cut p members = Inr obj \<longleftrightarrow>
    distinct members \<and> feasible p (set members) \<and> obj = objective_value p (set members)"
proof (cases "distinct members \<and> set members \<subseteq> {..<pr_node_count p}")
  case False
  have "distinct members \<and> set members \<subseteq> {..<pr_node_count p}" if "verify_cut p members = Inr obj"
  proof -
    from that have d: "\<not> has_adjacent_equal (sort members)"
      by (auto simp: verify_cut_def Let_def split: if_splits)
    from that d obtain r where "verify_members p 0 0 (sort members) = Inr r"
      by (auto simp: verify_cut_def Let_def try_result_Inr_iff split: if_splits)
    from verify_members_range [OF this] d show ?thesis by (simp add: has_adjacent_equal_iff)
  qed
  moreover have "set members \<subseteq> {..<pr_node_count p}" if "feasible p (set members)"
    using that by (rule feasible_range)
  ultimately show ?thesis using False by blast
next
  case True
  let ?s = "sort members" and ?C = "set members"
  have d: "distinct members" "?C \<subseteq> {..<pr_node_count p}" using True by simp_all
  note b = weight_sum_bound [OF wf d(2)]
  have w: "(\<Sum>x\<leftarrow>?s. unat (weight p x)) = weight_sum p ?C"
    using d(1) by (simp add: sum_list_distinct_set weight_sum_def)
  have q: "length (filter (is_protected p) ?s) = protected_count p ?C"
    using length_filter_card [of ?s "is_protected p"] d(1) by (simp add: protected_count_def)
  have vm: "verify_members p 0 0 ?s = Inr r \<longleftrightarrow> (\<forall>x \<in> ?C. member_ok p x) \<and>
      r = (of_nat (weight_sum p ?C), of_nat (protected_count p ?C))" for r
    using verify_members_iff [of 0 p ?s 0 r] b(1) unfolding w q by simp
  have len: "length members = card ?C" using d(1) by (simp add: distinct_card)
  have u: "unat (of_nat (weight_sum p ?C) :: u64) = weight_sum p ?C"
    using b(1) by (simp add: unat_of_nat)
  have bs: "std_binary_search ?s x \<longleftrightarrow> x \<in> ?C" for x by (simp add: std_binary_search_sorted)
  have sep: "source_reaches_protected p ?s \<longleftrightarrow> \<not> separates p ?C"
    using source_reaches_protected_iff [OF wf, of ?s] d(2) by simp
  have sig: "map (\<lambda>i. pr_resource_ids p ! i) ?s = signature p ?C"
    by (simp add: signature_def sorted_list_of_set_sort_remdups d(1) distinct_remdups_id)
  have ok: "(\<forall>x \<in> ?C. member_ok p x) \<longleftrightarrow>
      (\<forall>x \<in> ?C. x < pr_node_count p \<and> is_containable p x) \<and>
      (pr_allow_protected p \<or> (\<forall>x \<in> ?C. \<not> is_protected p x))"
    unfolding member_ok_def by blast
  have split: "verify_cut p members = Inr obj \<longleftrightarrow> \<not> length members > pr_max_members p \<and>
      (\<forall>x \<in> ?C. member_ok p x) \<and> \<not> of_nat (weight_sum p ?C) > pr_max_weight p \<and>
      \<not> (pr_require_source p \<and> (\<exists>s \<in> set (pr_sources p). is_containable p s \<and> s \<notin> ?C)) \<and>
      separates p ?C \<and> obj = objective_value p ?C"
    by (auto simp: verify_cut_def Let_def try_result_Inr_iff has_adjacent_equal_iff d(1) vm bs sep
        sig objective_value_def len split: if_splits)
  have wt: "\<not> (of_nat (weight_sum p ?C) > pr_max_weight p) \<longleftrightarrow> weight_sum p ?C \<le> unat (pr_max_weight p)"
    by (simp add: not_less word_le_nat_alt u)
  show ?thesis
    unfolding split ok wt feasible_def len using d(1) by (auto simp: not_less)
qed

lemma verify_cut_ok_iff:
  "wf_problem p \<Longrightarrow> is_ok (verify_cut p members) \<longleftrightarrow> distinct members \<and> feasible p (set members)"
  using verify_cut_iff [of p members] by (cases "verify_cut p members") auto

subsection \<open>Comparing objectives\<close>

text \<open>On sets of nodes the order is the lexicographic order on exact numbers.\<close>

definition exact_key :: "problem \<Rightarrow> bool \<Rightarrow> nat set \<Rightarrow> nat \<times> nat \<times> nat \<times> resource_id list" where
  "exact_key p m C =
     (if m then protected_count p C else 0, weight_sum p C, card C, signature p C)"

lemma protected_count_le: "finite C \<Longrightarrow> protected_count p C \<le> card C"
  unfolding protected_count_def by (rule card_mono) auto

lemma of_nat_u64_less: "a < 2 ^ 64 \<Longrightarrow> b < 2 ^ 64 \<Longrightarrow> (of_nat a :: u64) < of_nat b \<longleftrightarrow> a < b"
  by (simp add: word_less_nat_alt unat_of_nat)

lemma of_nat_u64_eq: "a < 2 ^ 64 \<Longrightarrow> b < 2 ^ 64 \<Longrightarrow> (of_nat a :: u64) = of_nat b \<longleftrightarrow> a = b"
  by (metis of_nat_u64_less linorder_neqE_nat order_less_irrefl)

lemma objective_value_less:
  assumes wf: "wf_problem p" and C: "C \<subseteq> {..<pr_node_count p}" and D: "D \<subseteq> {..<pr_node_count p}"
  shows "objective_less (objective_value p C) (objective_value p D) m \<longleftrightarrow>
    exact_key p m C < exact_key p m D"
proof -
  note c = weight_sum_bound [OF wf C] and d = weight_sum_bound [OF wf D]
  have b: "protected_count p C < 2 ^ 64" "protected_count p D < 2 ^ 64"
      "weight_sum p C < 2 ^ 64" "weight_sum p D < 2 ^ 64" "card C < 2 ^ 64" "card D < 2 ^ 64"
    using c d protected_count_le [OF c(3), of p] protected_count_le [OF d(3), of p] by simp_all
  note cmp = of_nat_u64_less [OF b(1,2)] of_nat_u64_less [OF b(3,4)] of_nat_u64_less [OF b(5,6)]
    of_nat_u64_eq [OF b(1,2)] of_nat_u64_eq [OF b(3,4)] of_nat_u64_eq [OF b(5,6)]
  show ?thesis
    unfolding objective_less_def objective_value_def exact_key_def objective_vector.sel cmp
    by auto
qed

lemma signature_inj:
  assumes wf: "wf_problem p" and C: "C \<subseteq> {..<pr_node_count p}" and D: "D \<subseteq> {..<pr_node_count p}"
    and eq: "signature p C = signature p D"
  shows "C = D"
proof -
  have f: "finite C" "finite D" using weight_sum_bound [OF wf] C D by blast+
  have "inj_on (\<lambda>i. pr_resource_ids p ! i) {..<pr_node_count p}"
    using wf sorted_strict_distinct [of "pr_resource_ids p"]
    by (auto simp: wf_problem_def inj_on_def nth_eq_iff_index_eq)
  then have "inj_on (\<lambda>i. pr_resource_ids p ! i) (set (sorted_list_of_set C) \<union> set (sorted_list_of_set D))"
    by (rule inj_on_subset) (use C D f in simp)
  with eq have "sorted_list_of_set C = sorted_list_of_set D"
    unfolding signature_def by (rule map_inj_on)
  then show ?thesis using f by (metis set_sorted_list_of_set)
qed

lemma exact_key_inj:
  assumes "wf_problem p" and "C \<subseteq> {..<pr_node_count p}" and "D \<subseteq> {..<pr_node_count p}"
    and "exact_key p m C = exact_key p m D"
  shows "C = D"
  using assms(4) by (intro signature_inj [OF assms(1-3)]) (simp add: exact_key_def)

lemma weight_sum_mono: "finite D \<Longrightarrow> C \<subseteq> D \<Longrightarrow> weight_sum p C \<le> weight_sum p D"
  unfolding weight_sum_def by (rule sum_mono2) auto

lemma protected_count_mono: "finite D \<Longrightarrow> C \<subseteq> D \<Longrightarrow> protected_count p C \<le> protected_count p D"
  unfolding protected_count_def by (rule card_mono) auto

lemma exact_key_mono:
  assumes "finite D" and "C \<subseteq> D"
  shows "exact_key p m C \<le> exact_key p m D"
proof (cases "C = D")
  case False
  then have "card C < card D" using assms by (simp add: psubset_card_mono psubset_eq)
  then show ?thesis
    using weight_sum_mono [OF assms, of p] protected_count_mono [OF assms, of p]
    by (auto simp: exact_key_def)
qed simp

text \<open>
  A lower bound on the objective of every superset: the counts of the current members, an
  additional weight, and no signature.
\<close>

lemma exact_key_lower:
  assumes "protected_count p C \<ge> a" and "weight_sum p C \<ge> b" and "card C \<ge> c"
  shows "(if m then a else 0, b, c, []) \<le> exact_key p m C"
  using assms by (auto simp: exact_key_def)

subsection \<open>Infeasibility certificates\<close>

lemma walk_nth:
  "walk n succ xs \<longleftrightarrow> (\<forall>i. i + 1 < length xs \<longrightarrow> xs ! i < n \<and> xs ! (i + 1) \<in> set (succ (xs ! i)))"
  by (simp add: walk_def successively_conv_nth)

lemma verify_infeasibility_witness_iff:
  assumes wf: "wf_problem p" and range: "set path \<subseteq> {..<pr_node_count p}"
  shows "verify_infeasibility_witness p path \<longleftrightarrow>
    2 \<le> length path \<and> hd path \<in> set (pr_sources p) \<and> is_protected p (last path) \<and>
    (\<forall>x \<in> set path. \<not> is_containable p x) \<and> walk (pr_node_count p) (problem_succ p) path"
proof -
  have i: "path ! i < pr_node_count p" if "i < length path" for i
    using range that nth_mem by blast
  have "std_binary_search (problem_succ p (path ! i)) (path ! (i + 1)) \<longleftrightarrow>
      path ! (i + 1) \<in> set (problem_succ p (path ! i))" if "i + 1 < length path" for i
    using wf i [of i] that by (intro std_binary_search_sorted) (simp add: wf_problem_def)
  then have "(\<forall>i \<in> set [0..<length path - 1].
        std_binary_search (problem_succ p (path ! i)) (path ! (i + 1))) \<longleftrightarrow>
      walk (pr_node_count p) (problem_succ p) path"
    using i unfolding walk_nth by auto
  then show ?thesis
    unfolding verify_infeasibility_witness_def by (auto simp: is_source_iff [OF wf])
qed

text \<open>A checked certificate refutes every containment set.\<close>

lemma witness_infeasible:
  assumes wf: "wf_problem p" and range: "set path \<subseteq> {..<pr_node_count p}"
    and w: "verify_infeasibility_witness p path"
  shows "\<not> feasible p C"
proof
  assume f: "feasible p C"
  have v: "2 \<le> length path" "hd path \<in> set (pr_sources p)" "is_protected p (last path)"
      "\<forall>x \<in> set path. \<not> is_containable p x" "walk (pr_node_count p) (problem_succ p) path"
    using w verify_infeasibility_witness_iff [OF wf range] by blast+
  have "path \<noteq> []" using v(1) by auto
  moreover have "\<forall>x \<in> set path. x \<notin> C" using v(4) f by (auto simp: feasible_def)
  ultimately have "set path \<subseteq> reach (pr_node_count p) (problem_succ p) (set (pr_sources p)) (\<lambda>v. v \<in> C)"
    using walk_reach [OF v(5) _ v(2), of "\<lambda>v. v \<in> C"] by blast
  then have "last path \<in> reach (pr_node_count p) (problem_succ p) (set (pr_sources p)) (\<lambda>v. v \<in> C)"
    using last_in_set [OF \<open>path \<noteq> []\<close>] by blast
  then have "\<not> is_protected p (last path)" using f by (simp add: feasible_def separates_def)
  with v(3) show False by blast
qed

end
