(* ===== verification/Engine_Exact.thy ===== *)
theory Engine_Exact
  imports Engine_Cut
begin

section \<open>The exact solver\<close>

text \<open>
  \<open>src/engine/solver_exact.cpp\<close>. The members of \<open>ExactSearch\<close> are the record
  \<open>search_state\<close> (\<open>has_best_\<close> with its two values is an option, and so is the witness). The
  recursion of \<open>search()\<close> carries fuel and returns \<open>None\<close> when it runs out: every nested
  call includes one more node, so \<open>node_count + 1\<close> is enough (\<open>search_spec\<close>), and
  \<open>solve_exact\<close> never returns \<open>None\<close> on a built instance (\<open>solve_exact_total\<close>).
\<close>

record search_state =
  ss_included :: "bool list"
  ss_excluded :: "bool list"
  ss_current :: "nat list"
  ss_best :: "(nat list \<times> objective_vector) option"
  ss_weight :: u64
  ss_protected :: u64
  ss_aborted :: bool
  ss_witness :: "nat list option"
  ss_counters :: solve_counters

subsection \<open>The disjoint-path bound\<close>

fun cheapest_member :: "problem \<Rightarrow> bool list \<Rightarrow> nat option \<times> u64 \<Rightarrow> nat list \<Rightarrow> nat option \<times> u64" where
  "cheapest_member p excluded (cheapest, cheapest_weight) [] = (cheapest, cheapest_weight)"
| "cheapest_member p excluded (cheapest, cheapest_weight) (node # path) =
     (if \<not> is_containable p node \<or> flag excluded node
        then cheapest_member p excluded (cheapest, cheapest_weight) path
      else if weight p node < cheapest_weight \<or>
          (weight p node = cheapest_weight \<and> cheapest \<noteq> None \<and> node < the cheapest)
        then cheapest_member p excluded (Some node, weight p node) path
      else cheapest_member p excluded (cheapest, cheapest_weight) path)"

text \<open>Completable, the bound, the witness, and the counter of residual paths.\<close>

fun bound_loop :: "problem \<Rightarrow> bool list \<Rightarrow> nat \<Rightarrow> bool list \<Rightarrow> u64 \<Rightarrow> u64 \<Rightarrow>
    bool \<times> u64 \<times> nat list option \<times> u64" where
  "bound_loop p excluded 0 blocked bound checked = (True, bound, None, checked)"
| "bound_loop p excluded (Suc k) blocked bound checked =
     (let path = shortest_residual_path p blocked
      in if path = [] then (True, bound, None, checked + 1)
         else case cheapest_member p excluded (None, - 1) path of
             (None, _) \<Rightarrow> (False, bound, Some path, checked + 1)
           | (Some node, w) \<Rightarrow>
               (case checked_add bound w of
                  None \<Rightarrow> (True, - 1, None, checked + 1)
                | Some bound' \<Rightarrow>
                    bound_loop p excluded k
                      (mark_all blocked (filter (\<lambda>x. is_containable p x \<and> \<not> flag excluded x) path))
                      bound' (checked + 1)))"

definition kBoundIterations :: nat where "kBoundIterations = 32"

definition disjoint_path_bound :: "problem \<Rightarrow> bool list \<Rightarrow> bool list \<Rightarrow> solve_counters \<Rightarrow>
    bool \<times> u64 \<times> nat list option \<times> solve_counters" where
  "disjoint_path_bound p included excluded counters =
     (let (completable, bound, witness, checked) =
        bound_loop p excluded kBoundIterations included 0 (sc_residual_paths_checked counters)
      in (completable, bound, witness, counters\<lparr>sc_residual_paths_checked := checked\<rparr>))"

subsection \<open>The search\<close>

definition include_node :: "problem \<Rightarrow> nat \<Rightarrow> search_state \<Rightarrow> search_state" where
  "include_node p node s =
     s\<lparr>ss_included := mark (ss_included s) node, ss_current := ss_current s @ [node],
       ss_weight := ss_weight s + weight p node,
       ss_protected := (if is_protected p node then ss_protected s + 1 else ss_protected s)\<rparr>"

definition uninclude_node :: "problem \<Rightarrow> nat \<Rightarrow> search_state \<Rightarrow> search_state" where
  "uninclude_node p node s =
     s\<lparr>ss_included := unmark (ss_included s) node,
       ss_current := (if ss_current s \<noteq> [] \<and> last (ss_current s) = node then butlast (ss_current s)
                      else remove1 node (ss_current s)),
       ss_weight := ss_weight s - weight p node,
       ss_protected := (if is_protected p node then ss_protected s - 1 else ss_protected s)\<rparr>"

definition count_explored :: "search_state \<Rightarrow> search_state" where
  "count_explored s =
     s\<lparr>ss_counters := (ss_counters s)\<lparr>sc_explored_nodes := sc_explored_nodes (ss_counters s) + 1\<rparr>\<rparr>"

definition abort_search :: "search_state \<Rightarrow> search_state" where
  "abort_search s =
     s\<lparr>ss_aborted := True, ss_counters := (ss_counters s)\<lparr>sc_budget_exhausted := True\<rparr>\<rparr>"

text \<open>The path carries no eligible node: a certificate, recorded once.\<close>

definition record_certificate :: "nat list \<Rightarrow> search_state \<Rightarrow> search_state" where
  "record_certificate path s =
     (if ss_witness s = None \<and> length path \<le> kMaxCutCertificatePathNodes
      then s\<lparr>ss_witness := Some path\<rparr> else s)"

text \<open>No residual path: the current members are offered to the verifier.\<close>

definition complete_branch :: "problem \<Rightarrow> search_state \<Rightarrow> search_state" where
  "complete_branch p s =
     (case verify_cut p (ss_current s) of
        Inl _ \<Rightarrow> s
      | Inr objective \<Rightarrow>
          if (case ss_best s of None \<Rightarrow> True
              | Some (_, best) \<Rightarrow> objective_less objective best (pr_minimize_protected p))
          then s\<lparr>ss_best := Some (remdups_adj (sort (ss_current s)), objective)\<rparr> else s)"

text \<open>The bound test before branching: \<open>True\<close> leaves the branch.\<close>

definition prune_branch :: "problem \<Rightarrow> search_state \<Rightarrow> bool \<times> search_state" where
  "prune_branch p s =
     (case ss_best s of
        None \<Rightarrow> (False, s)
      | Some (_, best) \<Rightarrow>
          let (completable, bound, _, counters) =
                disjoint_path_bound p (ss_included s) (ss_excluded s) (ss_counters s);
              s1 = s\<lparr>ss_counters := counters\<rparr>
          in if \<not> completable then (True, s1)
             else let lower = Objective (ss_protected s1)
                    (case checked_add (ss_weight s1) bound of Some w \<Rightarrow> w | None \<Rightarrow> - 1)
                    (of_nat (length (ss_current s1))) []
               in if objective_less best lower (pr_minimize_protected p)
                  then (True, s1\<lparr>ss_counters :=
                    counters\<lparr>sc_pruned_branches := sc_pruned_branches counters + 1\<rparr>\<rparr>)
                  else (False, s1))"

text \<open>The loop over the path; \<open>here\<close> is \<open>excluded_here\<close>.\<close>

fun branch_loop :: "(search_state \<Rightarrow> search_state option) \<Rightarrow> problem \<Rightarrow> nat list \<Rightarrow> nat list \<Rightarrow>
    search_state \<Rightarrow> (search_state \<times> nat list) option" where
  "branch_loop recur p [] here s = Some (s, here)"
| "branch_loop recur p (node # path) here s =
     (if flag (ss_excluded s) node \<or> \<not> is_containable p node then branch_loop recur p path here s
      else case recur (include_node p node s) of
          None \<Rightarrow> None
        | Some s1 \<Rightarrow>
            let s2 = uninclude_node p node s1
            in if ss_aborted s2 then Some (s2, here)
               else if is_mandatory_member p node then Some (s2, here)
               else branch_loop recur p path (here @ [node])
                      (s2\<lparr>ss_excluded := mark (ss_excluded s2) node\<rparr>))"

definition restore_excluded :: "nat list \<Rightarrow> search_state \<Rightarrow> search_state" where
  "restore_excluded here s = s\<lparr>ss_excluded := foldl unmark (ss_excluded s) here\<rparr>"

definition record_root_witness :: "nat list \<Rightarrow> nat list \<Rightarrow> search_state \<Rightarrow> search_state" where
  "record_root_witness path here s =
     (if \<not> ss_aborted s \<and> ss_best s = None \<and> length here = length path \<and>
         ss_current s = [] \<and> ss_witness s = None
      then s\<lparr>ss_witness := Some path\<rparr> else s)"

fun search :: "nat \<Rightarrow> problem \<Rightarrow> solve_budget \<Rightarrow> search_state \<Rightarrow> search_state option" where
  "search 0 p budget s = None"
| "search (Suc fuel) p budget s =
     (if ss_aborted s then Some s
      else let s1 = count_explored s in
        if sc_explored_nodes (ss_counters s1) > sb_max_explored budget then Some (abort_search s1)
        else if length (ss_current s1) > pr_max_members p \<or> ss_weight s1 > pr_max_weight p
          then Some s1
        else let path = shortest_residual_path p (ss_included s1) in
          if path \<noteq> [] \<and> \<not> (\<exists>node \<in> set path. is_containable p node)
            then Some (record_certificate path s1)
          else if path = [] then Some (complete_branch p s1)
          else (case prune_branch p s1 of
              (True, s2) \<Rightarrow> Some s2
            | (False, s2) \<Rightarrow>
                (case branch_loop (search fuel p budget) p path [] s2 of
                   None \<Rightarrow> None
                 | Some (s3, here) \<Rightarrow>
                     Some (record_root_witness path here (restore_excluded here s3)))))"

definition initial_state :: "problem \<Rightarrow> solve_budget \<Rightarrow> search_state" where
  "initial_state p budget =
     \<lparr>ss_included = no_marks (pr_node_count p), ss_excluded = no_marks (pr_node_count p),
      ss_current = [], ss_best = None, ss_weight = 0, ss_protected = 0, ss_aborted = False,
      ss_witness = None,
      ss_counters = zero_counters\<lparr>sc_candidate_nodes := of_nat (length (pr_candidates p)),
        sc_budget := sb_max_explored budget\<rparr>\<rparr>"

definition include_mandatory :: "problem \<Rightarrow> search_state \<Rightarrow> search_state" where
  "include_mandatory p s =
     foldl (\<lambda>s source. if is_mandatory_member p source then include_node p source s else s) s
       (pr_sources p)"

definition search_result :: "search_state \<Rightarrow> cut_solution" where
  "search_result s =
     (let solution = empty_solution\<lparr>cs_counters := ss_counters s\<rparr>
      in case ss_best s of
           Some (members, objective) \<Rightarrow>
             solution\<lparr>cs_members := members, cs_objective := objective,
               cs_status := (if sc_budget_exhausted (ss_counters s) then SolvedFeasible
                             else SolvedOptimal)\<rparr>
         | None \<Rightarrow>
             if sc_budget_exhausted (ss_counters s) then solution\<lparr>cs_status := SolveLimitReached\<rparr>
             else (case ss_witness s of
                 None \<Rightarrow> solution\<lparr>cs_status := SolvedInfeasible\<rparr>
               | Some path \<Rightarrow> solution\<lparr>cs_status := SolvedInfeasible, cs_has_witness := True,
                   cs_infeasibility_path := path\<rparr>))"

definition run_search :: "problem \<Rightarrow> solve_budget \<Rightarrow> cut_solution option" where
  "run_search p budget =
     (case search (pr_node_count p + 1) p budget (include_mandatory p (initial_state p budget)) of
        None \<Rightarrow> None
      | Some s \<Rightarrow> Some (search_result s))"

definition solve_exact :: "problem \<Rightarrow> solve_budget \<Rightarrow> cut_solution option" where
  "solve_exact p budget =
     (if pr_node_count p = 0 \<or> pr_sources p = [] \<or> pr_protected p = [] then Some empty_solution
      else run_search p budget)"

subsection \<open>States and what they may still complete to\<close>

definition best_ok :: "problem \<Rightarrow> search_state \<Rightarrow> bool" where
  "best_ok p s \<longleftrightarrow> (\<forall>ms obj. ss_best s = Some (ms, obj) \<longrightarrow>
     sorted_wrt (<) ms \<and> feasible p (set ms) \<and> obj = objective_value p (set ms))"

definition witness_ok :: "problem \<Rightarrow> search_state \<Rightarrow> bool" where
  "witness_ok p s \<longleftrightarrow> (\<forall>path. ss_witness s = Some path \<longrightarrow>
     set path \<subseteq> {..<pr_node_count p} \<and>
     (verify_infeasibility_witness p path \<or> \<not> pr_require_source p))"

definition consistent :: "problem \<Rightarrow> search_state \<Rightarrow> bool" where
  "consistent p s \<longleftrightarrow>
     length (ss_included s) = pr_node_count p \<and> length (ss_excluded s) = pr_node_count p \<and>
     mask_set (ss_included s) = set (ss_current s) \<and> distinct (ss_current s) \<and>
     (\<forall>x \<in> set (ss_current s). is_containable p x) \<and>
     (\<forall>x. is_mandatory_member p x \<longrightarrow> x \<in> set (ss_current s)) \<and>
     ss_weight s = of_nat (weight_sum p (set (ss_current s))) \<and>
     ss_protected s = of_nat (protected_count p (set (ss_current s))) \<and>
     best_ok p s \<and> witness_ok p s \<and>
     (ss_aborted s \<longleftrightarrow> sc_budget_exhausted (ss_counters s))"

definition completions :: "problem \<Rightarrow> search_state \<Rightarrow> nat set set" where
  "completions p s =
     {C. feasible p C \<and> set (ss_current s) \<subseteq> C \<and> C \<inter> mask_set (ss_excluded s) = {}}"

definition covered :: "problem \<Rightarrow> search_state \<Rightarrow> nat set \<Rightarrow> bool" where
  "covered p s C \<longleftrightarrow> (\<exists>ms obj. ss_best s = Some (ms, obj) \<and>
     exact_key p (pr_minimize_protected p) (set ms) \<le> exact_key p (pr_minimize_protected p) C)"

definition same_frame :: "search_state \<Rightarrow> search_state \<Rightarrow> bool" where
  "same_frame s s' \<longleftrightarrow> ss_included s' = ss_included s \<and> ss_excluded s' = ss_excluded s \<and>
     ss_current s' = ss_current s \<and> ss_weight s' = ss_weight s \<and> ss_protected s' = ss_protected s"

text \<open>
  No eligible source is itself protected unless the policy forces it into every set: then an
  empty residual path means separation up to nodes no set can contain.
\<close>

definition sound_instance :: "problem \<Rightarrow> bool" where
  "sound_instance p \<longleftrightarrow>
     (\<forall>s \<in> set (pr_sources p). is_protected p s \<and> is_containable p s \<longrightarrow> pr_require_source p)"

definition searched :: "problem \<Rightarrow> search_state \<Rightarrow> search_state \<Rightarrow> bool" where
  "searched p s s' \<longleftrightarrow>
     consistent p s' \<and> same_frame s s' \<and> (\<forall>C. covered p s C \<longrightarrow> covered p s' C) \<and>
     (sound_instance p \<and> \<not> ss_aborted s' \<longrightarrow> (\<forall>C \<in> completions p s. covered p s' C))"

subsection \<open>Residual paths of an instance\<close>

lemma residual_path_facts:
  assumes wf: "wf_problem p" and ne: "shortest_residual_path p blocked \<noteq> []"
  shows "set (shortest_residual_path p blocked) \<inter> mask_set blocked = {}"
    and "set (shortest_residual_path p blocked) \<subseteq> {..<pr_node_count p}"
    and "distinct (shortest_residual_path p blocked)"
    and "2 \<le> length (shortest_residual_path p blocked)"
    and "hd (shortest_residual_path p blocked) \<in> set (pr_sources p)"
    and "is_protected p (last (shortest_residual_path p blocked))"
    and "walk (pr_node_count p) (problem_succ p) (shortest_residual_path p blocked)"
    and "separates p C \<Longrightarrow> \<exists>x \<in> set (shortest_residual_path p blocked). x \<in> C"
proof -
  have r: "residual_path (pr_node_count p) (problem_succ p) (set (pr_sources p)) (flag blocked)
      (is_protected p) (shortest_residual_path p blocked)"
    using residual.found [OF wf] ne unfolding shortest_residual_path_def by blast
  then show "set (shortest_residual_path p blocked) \<inter> mask_set blocked = {}"
      "set (shortest_residual_path p blocked) \<subseteq> {..<pr_node_count p}"
      "distinct (shortest_residual_path p blocked)" "2 \<le> length (shortest_residual_path p blocked)"
      "hd (shortest_residual_path p blocked) \<in> set (pr_sources p)"
      "is_protected p (last (shortest_residual_path p blocked))"
      "walk (pr_node_count p) (problem_succ p) (shortest_residual_path p blocked)"
    by (auto simp: residual_path_def flag_mask_set)
  show "separates p C \<Longrightarrow> \<exists>x \<in> set (shortest_residual_path p blocked). x \<in> C"
    using residual.separator_meets [OF wf] ne
    unfolding shortest_residual_path_def separates_def by blast
qed

lemma residual_path_none:
  assumes wf: "wf_problem p" and none: "shortest_residual_path p blocked = []"
    and v: "v \<in> reach (pr_node_count p) (problem_succ p) (set (pr_sources p)) (flag blocked)"
    and t: "is_protected p v"
  shows "v \<in> set (pr_sources p)"
  using residual.none [OF wf, of "flag blocked"] none v t
  unfolding shortest_residual_path_def by blast

subsection \<open>The bound is a lower bound\<close>

lemma cheapest_member_spec:
  "cheapest_member p excluded (c, w) path = (c', w') \<Longrightarrow>
   w' \<le> w \<and> (c' = None \<longrightarrow> c = None) \<and>
   (\<forall>x \<in> set path. is_containable p x \<and> \<not> flag excluded x \<longrightarrow> w' \<le> weight p x)"
proof (induction path arbitrary: c w)
  case (Cons node path)
  consider (skip) "\<not> is_containable p node \<or> flag excluded node"
    | (take) "is_containable p node" "\<not> flag excluded node"
        "cheapest_member p excluded (Some node, weight p node) path = (c', w')" "weight p node \<le> w"
    | (keep) "is_containable p node" "\<not> flag excluded node"
        "cheapest_member p excluded (c, w) path = (c', w')" "w \<le> weight p node"
    using Cons.prems by (auto simp: not_less split: if_splits)
  then show ?case
  proof cases
    case skip
    then show ?thesis using Cons.IH [of c w] Cons.prems by auto
  next
    case take
    then show ?thesis using Cons.IH [OF take(3)] by auto
  next
    case keep
    then show ?thesis using Cons.IH [OF keep(3)] by auto
  qed
qed simp

lemma cheapest_member_none:
  assumes "cheapest_member p excluded (None, - 1) path = (None, w)"
    and "\<And>x. x \<in> set path \<Longrightarrow> weight p x < - 1"
    and "x \<in> set path" and "is_containable p x"
  shows "flag excluded x"
  using assms(1-3)
proof (induction path)
  case (Cons node path)
  show ?case
  proof (cases "\<not> is_containable p node \<or> flag excluded node")
    case True
    then show ?thesis using Cons assms(4) by auto
  next
    case False
    then have "cheapest_member p excluded (Some node, weight p node) path = (None, w)"
      using Cons.prems by simp
    from cheapest_member_spec [OF this] show ?thesis by simp
  qed
qed simp

lemma bound_loop_spec:
  assumes wf: "wf_problem p" and f: "feasible p C" and ex: "C \<inter> mask_set excluded = {}"
  shows "bound_loop p excluded k blocked bound checked = (completable, bound', witness, checked') \<Longrightarrow>
    length blocked = pr_node_count p \<Longrightarrow>
    unat bound \<le> weight_sum p (C \<inter> mask_set blocked - K) \<Longrightarrow> K \<subseteq> mask_set blocked \<Longrightarrow>
    completable \<and> unat bound' \<le> weight_sum p (C - K)"
proof (induction k arbitrary: blocked bound checked)
  have C: "C \<subseteq> {..<pr_node_count p}" using f by (rule feasible_range)
  have fin: "finite C" using weight_sum_bound(3) [OF wf C] .
  {
    case 0
    moreover have "weight_sum p (C \<inter> mask_set blocked - K) \<le> weight_sum p (C - K)"
      by (rule weight_sum_mono) (use fin in auto)
    ultimately show ?case by simp
  next
    case (Suc k)
    have mono: "weight_sum p (C \<inter> mask_set blocked - K) \<le> weight_sum p (C - K)"
      by (rule weight_sum_mono) (use fin in auto)
    let ?path = "shortest_residual_path p blocked"
    show ?case
    proof (cases "?path = []")
      case True
      then show ?thesis using Suc.prems mono by simp
    next
      case False
      note path = residual_path_facts [OF wf False]
      have sep: "separates p C" using f by (simp add: feasible_def)
      obtain x where x: "x \<in> set ?path" "x \<in> C" using path(8) [OF sep] by blast
      have xe: "is_containable p x" "\<not> flag excluded x" "x \<notin> mask_set blocked"
        using x f ex path(1) by (auto simp: feasible_def flag_mask_set)
      obtain c w where cm: "cheapest_member p excluded (None, - 1) ?path = (c, w)"
        by (cases "cheapest_member p excluded (None, - 1) ?path")
      have light: "weight p y < - 1" if "y \<in> set ?path" for y
      proof -
        have "unat (weight p y) \<le> 1000000"
          using path(2) that wf_problem_weight(2) [OF wf, of y] by blast
        then show ?thesis by (simp add: word_less_nat_alt unat_minus_one_word)
      qed
      have "c \<noteq> None"
        using cheapest_member_none [OF _ light x(1) xe(1)] cm xe(2) by (cases c) auto
      then obtain node where c: "c = Some node" by blast
      have wx: "unat w \<le> unat (weight p x)"
        using cheapest_member_spec [OF cm] x(1) xe by (simp add: word_le_nat_alt)
      let ?b = "mark_all blocked (filter (\<lambda>x. is_containable p x \<and> \<not> flag excluded x) ?path)"
      have mb: "mask_set ?b = mask_set blocked \<union>
          set (filter (\<lambda>x. is_containable p x \<and> \<not> flag excluded x) ?path)"
        using path(2) Suc.prems(2) by (intro mask_set_mark_all) auto
      have "x \<notin> K" using xe(3) Suc.prems(4) by blast
      then have sub: "insert x (C \<inter> mask_set blocked - K) \<subseteq> C \<inter> mask_set ?b - K"
        unfolding mb using x xe by auto
      have "unat bound + unat w \<le> weight_sum p (C \<inter> mask_set blocked - K) + unat (weight p x)"
        using Suc.prems(3) wx by (rule add_mono)
      also have "\<dots> = weight_sum p (insert x (C \<inter> mask_set blocked - K))"
        unfolding weight_sum_def using fin xe(3) by simp
      also have "\<dots> \<le> weight_sum p (C \<inter> mask_set ?b - K)"
        by (rule weight_sum_mono [OF _ sub]) (use fin in auto)
      finally have le: "unat bound + unat w \<le> weight_sum p (C \<inter> mask_set ?b - K)" .
      also have "\<dots> \<le> weight_sum p C" by (rule weight_sum_mono) (use fin in auto)
      also have "\<dots> \<le> 65536000000" by (rule weight_sum_bound(1) [OF wf C])
      finally have "checked_add bound w = Some (bound + w)" and ub: "unat (bound + w) = unat bound + unat w"
        by (simp_all add: checked_add_Some unat_add_lem [THEN iffD1])
      then have "bound_loop p excluded k ?b (bound + w) (checked + 1)
          = (completable, bound', witness, checked')"
        using Suc.prems(1) False cm c by (simp add: Let_def)
      moreover have "K \<subseteq> mask_set ?b" using Suc.prems(4) mb by auto
      moreover have "unat (bound + w) \<le> weight_sum p (C \<inter> mask_set ?b - K)"
        unfolding ub by (rule le)
      moreover have "length ?b = pr_node_count p" using Suc.prems(2) by simp
      ultimately show ?thesis by (intro Suc.IH)
    qed
  }
qed

lemma disjoint_path_bound_spec:
  assumes "wf_problem p" and "consistent p s" and "C \<in> completions p s"
    and "disjoint_path_bound p (ss_included s) (ss_excluded s) counters = (completable, bound, witness, c)"
  shows "completable" and "weight_sum p (set (ss_current s)) + unat bound \<le> weight_sum p C"
proof -
  have f: "feasible p C" and sub: "set (ss_current s) \<subseteq> C" and ex: "C \<inter> mask_set (ss_excluded s) = {}"
    using assms(3) by (auto simp: completions_def)
  have fin: "finite C" using weight_sum_bound(3) [OF assms(1) feasible_range [OF f]] .
  obtain checked where b: "bound_loop p (ss_excluded s) kBoundIterations (ss_included s) 0
      (sc_residual_paths_checked counters) = (completable, bound, witness, checked)"
    using assms(4) by (auto simp: disjoint_path_bound_def split: prod.splits)
  have "completable \<and> unat bound \<le> weight_sum p (C - set (ss_current s))"
    using assms(2) by (intro bound_loop_spec [OF assms(1) f ex b]) (simp_all add: consistent_def)
  moreover have "weight_sum p C = weight_sum p (set (ss_current s)) + weight_sum p (C - set (ss_current s))"
    unfolding weight_sum_def using sub fin by (simp add: sum.subset_diff)
  ultimately show "completable" and "weight_sum p (set (ss_current s)) + unat bound \<le> weight_sum p C"
    by simp_all
qed

lemma lower_bound_spec:
  assumes wf: "wf_problem p" and con: "consistent p s" and C: "C \<in> completions p s"
    and b: "weight_sum p (set (ss_current s)) + unat bound \<le> weight_sum p C"
    and best: "ss_best s = Some (ms, best)"
    and less: "objective_less best (Objective (ss_protected s)
      (case checked_add (ss_weight s) bound of Some w \<Rightarrow> w | None \<Rightarrow> - 1)
      (of_nat (length (ss_current s))) []) m"
  shows "exact_key p m (set ms) \<le> exact_key p m C"
proof -
  let ?K = "set (ss_current s)"
  have f: "feasible p C" and sub: "?K \<subseteq> C" using C by (auto simp: completions_def)
  note c = weight_sum_bound [OF wf feasible_range [OF f]]
  have ms: "feasible p (set ms)" and obj: "best = objective_value p (set ms)"
    using con best by (auto simp: consistent_def best_ok_def)
  have k: "ss_weight s = of_nat (weight_sum p ?K)" "ss_protected s = of_nat (protected_count p ?K)"
      "length (ss_current s) = card ?K"
    using con by (simp_all add: consistent_def distinct_card)
  have wk: "weight_sum p ?K \<le> 65536000000" "card ?K \<le> card C"
    using b c card_mono [OF c(3) sub] by simp_all
  have uw: "unat (ss_weight s) = weight_sum p ?K" using k(1) wk by (simp add: unat_of_nat)
  then have ca: "checked_add (ss_weight s) bound = Some (ss_weight s + bound)"
    and us: "unat (ss_weight s + bound) = weight_sum p ?K + unat bound"
    using b c(1) by (simp_all add: checked_add_Some unat_add_lem [THEN iffD1])
  have w: "ss_weight s + bound = of_nat (weight_sum p ?K + unat bound)"
  proof -
    have "of_nat (unat (ss_weight s + bound)) = ss_weight s + bound" by simp
    then show ?thesis by (simp only: us)
  qed
  have pk: "protected_count p ?K \<le> protected_count p C" "protected_count p C \<le> card C"
    using protected_count_mono [OF c(3) sub] protected_count_le [OF c(3)] by simp_all
  have le: "(of_nat i :: u64) \<le> of_nat j" if "i \<le> j" "j \<le> 65536000000" for i j
    using that by (simp add: word_le_nat_alt unat_of_nat)
  have "objective_key m (Objective (ss_protected s) (ss_weight s + bound) (of_nat (length (ss_current s))) [])
      \<le> objective_key m (objective_value p C)"
    unfolding objective_key_def objective_value_def w k(2,3) objective_vector.sel
    using le [OF pk(1)] le [OF b c(1)] le [OF wk(2)] pk(2) c(1,2) by auto
  moreover have "objective_key m best <
      objective_key m (Objective (ss_protected s) (ss_weight s + bound) (of_nat (length (ss_current s))) [])"
    using less by (simp add: ca objective_less_key)
  ultimately have "objective_less best (objective_value p C) m"
    by (simp add: objective_less_key)
  then show ?thesis
    using objective_value_less [OF wf feasible_range [OF ms] feasible_range [OF f]] obj by simp
qed

subsection \<open>Including and restoring\<close>

lemma consistentD:
  assumes "consistent p s"
  shows "length (ss_included s) = pr_node_count p" "length (ss_excluded s) = pr_node_count p"
    "mask_set (ss_included s) = set (ss_current s)" "distinct (ss_current s)"
    "\<And>x. x \<in> set (ss_current s) \<Longrightarrow> is_containable p x"
    "\<And>x. is_mandatory_member p x \<Longrightarrow> x \<in> set (ss_current s)"
    "ss_weight s = of_nat (weight_sum p (set (ss_current s)))"
    "ss_protected s = of_nat (protected_count p (set (ss_current s)))"
    "best_ok p s" "witness_ok p s" "ss_aborted s \<longleftrightarrow> sc_budget_exhausted (ss_counters s)"
  using assms by (simp_all add: consistent_def)

lemma consistent_frame:
  assumes "consistent p s" and "same_frame s s'" and "best_ok p s'" and "witness_ok p s'"
    and "ss_aborted s' \<longleftrightarrow> sc_budget_exhausted (ss_counters s')"
  shows "consistent p s'"
  using assms by (simp add: consistent_def same_frame_def)

lemma same_frame_refl [simp]: "same_frame s s"
  by (simp add: same_frame_def)

lemma same_frame_trans: "same_frame s s1 \<Longrightarrow> same_frame s1 s2 \<Longrightarrow> same_frame s s2"
  by (simp add: same_frame_def)

lemma completions_frame: "same_frame s s' \<Longrightarrow> completions p s' = completions p s"
  by (simp add: completions_def same_frame_def)

lemma covered_cong: "ss_best s' = ss_best s \<Longrightarrow> covered p s' C \<longleftrightarrow> covered p s C"
  by (simp add: covered_def)

lemma weight_sum_insert: "finite C \<Longrightarrow> x \<notin> C \<Longrightarrow> weight_sum p (insert x C) = weight_sum p C + unat (weight p x)"
  by (simp add: weight_sum_def)

lemma protected_count_insert:
  assumes "finite C" and "x \<notin> C"
  shows "protected_count p (insert x C) = protected_count p C + (if is_protected p x then 1 else 0)"
proof -
  have "{y \<in> insert x C. is_protected p y}
      = (if is_protected p x then insert x {y \<in> C. is_protected p y} else {y \<in> C. is_protected p y})"
    by auto
  then show ?thesis using assms by (simp add: protected_count_def)
qed

lemma include_consistent:
  assumes wf: "wf_problem p" and con: "consistent p s" and x: "is_containable p x" "x \<notin> set (ss_current s)"
  shows "consistent p (include_node p x s)"
proof -
  note c = consistentD [OF con]
  have n: "x < pr_node_count p" using is_containable_range [OF wf x(1)] .
  have b: "best_ok p (include_node p x s)" "witness_ok p (include_node p x s)"
    using c(9,10) by (simp_all add: best_ok_def witness_ok_def include_node_def)
  have m: "mask_set (mark (ss_included s) x) = insert x (mask_set (ss_included s))"
    using n c(1) by (intro mask_set_mark) simp
  show ?thesis
    unfolding consistent_def using b c x m
    by (auto simp: include_node_def weight_sum_insert protected_count_insert)
qed

lemma uninclude_frame:
  assumes con: "consistent p s" and x: "x \<notin> set (ss_current s)" and fr: "same_frame (include_node p x s) s2"
  shows "same_frame s (uninclude_node p x s2)"
proof -
  have "\<not> flag (ss_included s) x" using consistentD(3) [OF con] x by (simp add: flag_mask_set)
  then have "unmark (mark (ss_included s) x) x = ss_included s" by (rule unmark_mark)
  then show ?thesis using fr by (simp add: same_frame_def include_node_def uninclude_node_def)
qed

lemma include_completions:
  assumes "C \<in> completions p s" and "x \<in> C"
  shows "C \<in> completions p (include_node p x s)"
  using assms by (auto simp: completions_def include_node_def)

lemma mandatory_in_feasible: "feasible p C \<Longrightarrow> wf_problem p \<Longrightarrow> is_mandatory_member p x \<Longrightarrow> x \<in> C"
  by (auto simp: feasible_def is_mandatory_member_def is_source_iff)

subsection \<open>The branching loop\<close>

definition recursion_ok :: "problem \<Rightarrow> nat \<Rightarrow> (search_state \<Rightarrow> search_state option) \<Rightarrow> bool" where
  "recursion_ok p k recur \<longleftrightarrow> (\<forall>s. consistent p s \<and> card (set (ss_current s)) = k \<longrightarrow>
     (\<exists>s'. recur s = Some s' \<and> searched p s s'))"

text \<open>What the loop returns: the frame of \<open>s\<close> with the nodes of \<open>new\<close> excluded.\<close>

definition branched :: "problem \<Rightarrow> nat list \<Rightarrow> search_state \<Rightarrow> search_state \<Rightarrow> nat list \<Rightarrow> bool" where
  "branched p xs s s' new \<longleftrightarrow>
     consistent p s' \<and> same_frame s (s'\<lparr>ss_excluded := ss_excluded s\<rparr>) \<and>
     ss_excluded s' = mark_all (ss_excluded s) new \<and> distinct new \<and>
     set new \<inter> mask_set (ss_excluded s) = {} \<and> set new \<subseteq> {x \<in> set xs. is_containable p x} \<and>
     (\<forall>C. covered p s C \<longrightarrow> covered p s' C) \<and>
     (sound_instance p \<and> \<not> ss_aborted s' \<longrightarrow>
       (\<forall>C \<in> completions p s. C \<inter> set xs \<noteq> {} \<longrightarrow> covered p s' C))"

lemma branched_skip:
  assumes "branched p xs s s' new" and "flag (ss_excluded s) x \<or> \<not> is_containable p x"
  shows "branched p (x # xs) s s' new"
proof -
  have "x \<notin> C" if "C \<in> completions p s" for C
    using that assms(2) by (auto simp: completions_def feasible_def flag_mask_set)
  then have "\<forall>C \<in> completions p s. C \<inter> set (x # xs) = C \<inter> set xs" by auto
  then show ?thesis using assms(1) unfolding branched_def by auto
qed

lemma exclude_consistent: "consistent p s \<Longrightarrow> consistent p (s\<lparr>ss_excluded := mark (ss_excluded s) x\<rparr>)"
  by (simp add: consistent_def best_ok_def witness_ok_def)

lemma branched_cons:
  assumes wf: "wf_problem p" and con: "consistent p s"
    and x: "is_containable p x" "\<not> flag (ss_excluded s) x" "x \<notin> set (ss_current s)"
    and rec: "searched p (include_node p x s) s1"
    and rest: "branched p xs (let s2 = uninclude_node p x s1 in s2\<lparr>ss_excluded := mark (ss_excluded s2) x\<rparr>)
        s' new"
    and running: "\<not> ss_aborted s' \<Longrightarrow> \<not> ss_aborted s1"
  shows "branched p (x # xs) s s' (x # new)"
proof -
  let ?s2 = "uninclude_node p x s1" let ?s3 = "?s2\<lparr>ss_excluded := mark (ss_excluded ?s2) x\<rparr>"
  have r: "consistent p s1" "same_frame (include_node p x s) s1"
      "\<And>C. covered p (include_node p x s) C \<Longrightarrow> covered p s1 C"
      "\<And>C. sound_instance p \<Longrightarrow> \<not> ss_aborted s1 \<Longrightarrow> C \<in> completions p (include_node p x s) \<Longrightarrow> covered p s1 C"
    using rec by (auto simp: searched_def)
  have fr: "same_frame s ?s2" using uninclude_frame [OF con x(3) r(2)] .
  have n: "x < length (ss_excluded s)"
    using is_containable_range [OF wf x(1)] consistentD(2) [OF con] by simp
  have b: "ss_best ?s2 = ss_best s1" by (simp add: uninclude_node_def)
  have br: "consistent p s'" "same_frame ?s3 (s'\<lparr>ss_excluded := ss_excluded ?s3\<rparr>)"
      "ss_excluded s' = mark_all (ss_excluded ?s3) new" "distinct new"
      "set new \<inter> mask_set (ss_excluded ?s3) = {}" "set new \<subseteq> {x \<in> set xs. is_containable p x}"
      "\<And>C. covered p ?s3 C \<Longrightarrow> covered p s' C"
      "\<And>C. sound_instance p \<Longrightarrow> \<not> ss_aborted s' \<Longrightarrow> C \<in> completions p ?s3 \<Longrightarrow>
        C \<inter> set xs \<noteq> {} \<Longrightarrow> covered p s' C"
    using rest by (auto simp: branched_def Let_def)
  have e3: "ss_excluded ?s3 = mark (ss_excluded s) x" using fr by (simp add: same_frame_def)
  have m3: "mask_set (ss_excluded ?s3) = insert x (mask_set (ss_excluded s))"
    unfolding e3 using n by (rule mask_set_mark)
  have "covered p s' C" if C: "covered p s C" for C
    using that r(3) br(7) b covered_cong [of "include_node p x s" s p C] covered_cong [of ?s3 s1 p C]
    by (simp add: include_node_def)
  moreover have "covered p s' C"
    if snd: "sound_instance p" "\<not> ss_aborted s'" and C: "C \<in> completions p s" "C \<inter> set (x # xs) \<noteq> {}" for C
  proof (cases "x \<in> C")
    case True
    then have "covered p s1 C"
      using include_completions [OF C(1)] snd running r(4) by blast
    then show ?thesis using br(7) b covered_cong [of ?s3 s1 p C] by simp
  next
    case False
    have "ss_current ?s3 = ss_current s" using fr by (simp add: same_frame_def)
    then have "C \<in> completions p ?s3" using C(1) m3 False by (auto simp: completions_def)
    then show ?thesis using br(8) snd C(2) False by auto
  qed
  moreover have "same_frame s (s'\<lparr>ss_excluded := ss_excluded s\<rparr>)"
    using br(2) fr by (simp add: same_frame_def)
  moreover have "ss_excluded s' = mark_all (ss_excluded s) (x # new)"
    using br(3) unfolding e3 by (simp add: mark_all_Cons)
  moreover have "distinct (x # new)" using br(4,5) m3 by auto
  moreover have "set (x # new) \<inter> mask_set (ss_excluded s) = {}"
    using br(5) m3 x(2) by (auto simp: flag_mask_set)
  moreover have "set (x # new) \<subseteq> {y \<in> set (x # xs). is_containable p y}" using br(6) x(1) by auto
  ultimately show ?thesis unfolding branched_def using br(1) by blast
qed

lemma branch_loop_spec:
  assumes wf: "wf_problem p" and rec: "recursion_ok p (Suc k) recur"
  shows "consistent p s \<Longrightarrow> card (set (ss_current s)) = k \<Longrightarrow> set xs \<inter> set (ss_current s) = {} \<Longrightarrow>
    \<not> ss_aborted s \<Longrightarrow>
    \<exists>s' new. branch_loop recur p xs here s = Some (s', here @ new) \<and> branched p xs s s' new"
proof (induction xs arbitrary: here s)
  case Nil
  then have "branched p [] s s []" by (simp add: branched_def)
  then show ?case by (intro exI [of _ s] exI [of _ "[]"]) simp
next
  case (Cons x xs)
  show ?case
  proof (cases "flag (ss_excluded s) x \<or> \<not> is_containable p x")
    case True
    obtain s' new where "branch_loop recur p xs here s = Some (s', here @ new)" "branched p xs s s' new"
      using Cons.IH [of s here] Cons.prems by auto
    then show ?thesis using True branched_skip [of p xs s s' new x] by auto
  next
    case False
    have x: "is_containable p x" "\<not> flag (ss_excluded s) x" "x \<notin> set (ss_current s)"
      using False Cons.prems(3) by auto
    have ci: "consistent p (include_node p x s)" by (rule include_consistent [OF wf Cons.prems(1) x(1,3)])
    have "card (set (ss_current (include_node p x s))) = Suc k"
      using x(3) Cons.prems(2) by (simp add: include_node_def)
    then obtain s1 where s1: "recur (include_node p x s) = Some s1" "searched p (include_node p x s) s1"
      using rec ci by (auto simp: recursion_ok_def)
    have fr: "same_frame s (uninclude_node p x s1)"
      using uninclude_frame [OF Cons.prems(1) x(3)] s1(2) by (simp add: searched_def)
    let ?s3 = "(uninclude_node p x s1)\<lparr>ss_excluded := mark (ss_excluded (uninclude_node p x s1)) x\<rparr>"
    have con1: "consistent p s1" using s1(2) by (simp add: searched_def)
    have "consistent p (uninclude_node p x s1)"
      using con1 by (intro consistent_frame [OF Cons.prems(1) fr])
        (simp_all add: uninclude_node_def consistent_def best_ok_def witness_ok_def)
    then have c3: "consistent p ?s3" by (rule exclude_consistent)
    have nm: "\<not> is_mandatory_member p x" using consistentD(6) [OF Cons.prems(1)] x(3) by blast
    show ?thesis
    proof (cases "ss_aborted s1")
      case True
      then have "branch_loop recur p (x # xs) here s = Some (uninclude_node p x s1, here @ [])"
        using False s1(1) by (simp add: Let_def uninclude_node_def)
      moreover have "branched p (x # xs) s (uninclude_node p x s1) []"
        using \<open>consistent p (uninclude_node p x s1)\<close> fr s1(2) True
          covered_cong [of "include_node p x s" s p] covered_cong [of "uninclude_node p x s1" s1 p]
        by (simp add: branched_def searched_def same_frame_def uninclude_node_def include_node_def)
      ultimately show ?thesis by blast
    next
      case running: False
      have cur: "ss_current ?s3 = ss_current s" using fr by (simp add: same_frame_def)
      have "\<not> ss_aborted ?s3" using running by (simp add: uninclude_node_def)
      then obtain s' new where r: "branch_loop recur p xs (here @ [x]) ?s3 = Some (s', (here @ [x]) @ new)"
          "branched p xs ?s3 s' new"
        using Cons.IH [OF c3, of "here @ [x]"] Cons.prems(2,3) unfolding cur by auto
      have "branched p (x # xs) s s' (x # new)"
        using branched_cons [OF wf Cons.prems(1) x s1(2)] r(2) running by (simp add: Let_def)
      moreover have "branch_loop recur p (x # xs) here s = Some (s', here @ (x # new))"
        using False s1(1) running nm r(1) by (simp add: Let_def uninclude_node_def)
      ultimately show ?thesis by blast
    qed
  qed
qed

subsection \<open>The leaves of the search\<close>

lemma current_range: "wf_problem p \<Longrightarrow> consistent p s \<Longrightarrow> set (ss_current s) \<subseteq> {..<pr_node_count p}"
  using consistentD(5) is_containable_range by blast

lemma flag_included: "consistent p s \<Longrightarrow> flag (ss_included s) = (\<lambda>v. v \<in> set (ss_current s))"
  using consistentD(3) by (auto simp: flag_mask_set)

lemma completed_feasible:
  assumes wf: "wf_problem p" and con: "consistent p s" and snd: "sound_instance p"
    and none: "shortest_residual_path p (ss_included s) = []" and C: "C \<in> completions p s"
  shows "feasible p (set (ss_current s))"
proof -
  let ?K = "set (ss_current s)"
  have f: "feasible p C" and sub: "?K \<subseteq> C" using C by (auto simp: completions_def)
  have fin: "finite C" using weight_sum_bound(3) [OF wf feasible_range [OF f]] .
  have "separates p ?K"
    unfolding separates_def
  proof (intro ballI notI)
    fix v
    assume v: "v \<in> reach (pr_node_count p) (problem_succ p) (set (pr_sources p)) (\<lambda>v. v \<in> ?K)"
      and t: "is_protected p v"
    have src: "v \<in> set (pr_sources p)"
      using residual_path_none [OF wf none _ t] v unfolding flag_included [OF con] by blast
    have "v \<notin> ?K" using reach_not_avoid [OF v] .
    then have "\<not> is_containable p v"
      using snd src t consistentD(6) [OF con, of v] is_source_iff [OF wf]
      by (auto simp: sound_instance_def is_mandatory_member_def)
    then have "v \<notin> C" using f by (auto simp: feasible_def)
    then have "v \<in> reach (pr_node_count p) (problem_succ p) (set (pr_sources p)) (\<lambda>v. v \<in> C)"
      using src by (intro reach_source)
    then show False using f t by (auto simp: feasible_def separates_def)
  qed
  moreover have "card ?K \<le> pr_max_members p"
    using f card_mono [OF fin sub] by (simp add: feasible_def)
  moreover have "weight_sum p ?K \<le> unat (pr_max_weight p)"
    using f weight_sum_mono [OF fin sub, of p] by (simp add: feasible_def)
  moreover have "pr_require_source p \<longrightarrow> (\<forall>s' \<in> set (pr_sources p). is_containable p s' \<longrightarrow> s' \<in> ?K)"
    using consistentD(6) [OF con] is_source_iff [OF wf] by (auto simp: is_mandatory_member_def)
  moreover have "pr_allow_protected p \<or> (\<forall>x \<in> ?K. \<not> is_protected p x)"
    using f sub by (auto simp: feasible_def)
  ultimately show ?thesis
    using consistentD(5) [OF con] current_range [OF wf con] unfolding feasible_def by auto
qed

lemma complete_branch_cases:
  assumes wf: "wf_problem p" and con: "consistent p s"
  defines "K \<equiv> set (ss_current s)"
  obtains (kept) "\<not> feasible p K" "complete_branch p s = s"
    | (worse) ms best where "feasible p K" "ss_best s = Some (ms, best)" "complete_branch p s = s"
        "exact_key p (pr_minimize_protected p) (set ms) \<le> exact_key p (pr_minimize_protected p) K"
    | (better) "feasible p K"
        "complete_branch p s = s\<lparr>ss_best := Some (sort (ss_current s), objective_value p K)\<rparr>"
        "\<And>C. covered p s C \<Longrightarrow> exact_key p (pr_minimize_protected p) K \<le> exact_key p (pr_minimize_protected p) C"
proof (cases "verify_cut p (ss_current s)")
  case (Inl e)
  then have "\<not> feasible p K"
    using verify_cut_iff [OF wf, of "ss_current s"] consistentD(4) [OF con] by (auto simp: K_def)
  then show thesis using Inl by (intro kept) (simp_all add: complete_branch_def)
next
  case (Inr obj)
  then have f: "feasible p K" and obj: "obj = objective_value p K"
    using verify_cut_iff [OF wf, of "ss_current s"] by (auto simp: K_def)
  have r: "remdups_adj (sort (ss_current s)) = sort (ss_current s)"
    using consistentD(4) [OF con] by (simp add: remdups_adj_distinct)
  show thesis
  proof (cases "ss_best s")
    case None
    then show thesis
      using f obj r Inr by (intro better) (simp_all add: complete_branch_def covered_def)
  next
    case (Some b)
    then obtain ms best where b: "ss_best s = Some (ms, best)" by (cases b) auto
    then have ms: "feasible p (set ms)" and best: "best = objective_value p (set ms)"
      using consistentD(9) [OF con] by (auto simp: best_ok_def)
    have cmp: "objective_less obj best (pr_minimize_protected p) \<longleftrightarrow>
        exact_key p (pr_minimize_protected p) K < exact_key p (pr_minimize_protected p) (set ms)"
      unfolding obj best
      by (rule objective_value_less [OF wf feasible_range [OF f] feasible_range [OF ms]])
    show thesis
    proof (cases "objective_less obj best (pr_minimize_protected p)")
      case True
      then show thesis
        using f b Inr cmp obj r by (intro better) (auto simp: complete_branch_def covered_def)
    next
      case False
      then show thesis
        using f b Inr cmp by (intro worse [OF f b]) (auto simp: complete_branch_def)
    qed
  qed
qed

lemma complete_branch_searched:
  assumes wf: "wf_problem p" and con: "consistent p s"
    and none: "shortest_residual_path p (ss_included s) = []"
  shows "searched p s (complete_branch p s)"
proof -
  let ?K = "set (ss_current s)" and ?m = "pr_minimize_protected p"
  have le: "exact_key p ?m ?K \<le> exact_key p ?m C" if "C \<in> completions p s" for C
    using that weight_sum_bound(3) [OF wf feasible_range]
    by (intro exact_key_mono) (auto simp: completions_def)
  have feas: "feasible p ?K" if "sound_instance p" "C \<in> completions p s" for C
    using completed_feasible [OF wf con that(1) none that(2)] .
  from wf con show ?thesis
  proof (cases rule: complete_branch_cases)
    case kept
    then show ?thesis using con feas by (auto simp: searched_def)
  next
    case (worse ms best)
    then have "covered p s C" if "C \<in> completions p s" for C
      using le [OF that] by (auto simp: covered_def)
    then show ?thesis using con worse(3) by (simp add: searched_def)
  next
    case better
    let ?s = "s\<lparr>ss_best := Some (sort (ss_current s), objective_value p ?K)\<rparr>"
    have "consistent p ?s"
      using con better(1) by (auto simp: consistent_def best_ok_def witness_ok_def strict_sorted_iff)
    then show ?thesis
      using better(3) le unfolding better(2) by (auto simp: searched_def same_frame_def covered_def)
  qed
qed

lemma prune_branch_spec:
  assumes wf: "wf_problem p" and con: "consistent p s" and pr: "prune_branch p s = (left, s')"
  shows "consistent p s'" and "same_frame s s'" and "ss_best s' = ss_best s"
    and "ss_aborted s' = ss_aborted s"
    and "left \<Longrightarrow> C \<in> completions p s \<Longrightarrow> covered p s C"
proof -
  have upd: "consistent p (s\<lparr>ss_counters := c\<rparr>)" if "sc_budget_exhausted c = sc_budget_exhausted (ss_counters s)" for c
    using con that by (simp add: consistent_def best_ok_def witness_ok_def)
  have "consistent p s' \<and> same_frame s s' \<and> ss_best s' = ss_best s \<and> ss_aborted s' = ss_aborted s \<and>
      (left \<longrightarrow> (\<forall>C \<in> completions p s. covered p s C))"
  proof (cases "ss_best s")
    case None
    then show ?thesis using pr con by (auto simp: prune_branch_def)
  next
    case (Some b)
    then obtain ms best where b: "ss_best s = Some (ms, best)" by (cases b) auto
    obtain completable bound w c where d: "disjoint_path_bound p (ss_included s) (ss_excluded s) (ss_counters s)
        = (completable, bound, w, c)"
      by (cases "disjoint_path_bound p (ss_included s) (ss_excluded s) (ss_counters s)")
    have c: "sc_budget_exhausted c = sc_budget_exhausted (ss_counters s)"
      using d by (auto simp: disjoint_path_bound_def Let_def split: prod.splits)
    note bound = disjoint_path_bound_spec [OF wf con _ d]
    show ?thesis
    proof (cases "completable")
      case False
      then have "completions p s = {}" using bound(1) by blast
      then show ?thesis
        using pr b d c False upd by (auto simp: prune_branch_def same_frame_def)
    next
      case True
      have "covered p s C" if "C \<in> completions p s" and
        "objective_less best (Objective (ss_protected s)
          (case checked_add (ss_weight s) bound of Some w \<Rightarrow> w | None \<Rightarrow> - 1)
          (of_nat (length (ss_current s))) []) (pr_minimize_protected p)" for C
        using lower_bound_spec [OF wf con that(1) bound(2) [OF that(1)] b that(2)] b
        by (auto simp: covered_def)
      then show ?thesis
        using pr b d c True upd by (auto simp: prune_branch_def same_frame_def Let_def split: if_splits)
    qed
  qed
  then show "consistent p s'" and "same_frame s s'" and "ss_best s' = ss_best s"
    and "ss_aborted s' = ss_aborted s"
    and "left \<Longrightarrow> C \<in> completions p s \<Longrightarrow> covered p s C" by blast+
qed

lemma record_certificate_searched:
  assumes wf: "wf_problem p" and con: "consistent p s"
    and ne: "shortest_residual_path p (ss_included s) \<noteq> []"
    and inel: "\<not> (\<exists>node \<in> set (shortest_residual_path p (ss_included s)). is_containable p node)"
  shows "searched p s (record_certificate (shortest_residual_path p (ss_included s)) s)"
proof -
  let ?path = "shortest_residual_path p (ss_included s)"
  note path = residual_path_facts [OF wf ne]
  have "verify_infeasibility_witness p ?path"
    using path inel by (subst verify_infeasibility_witness_iff [OF wf path(2)]) blast
  then have "consistent p (record_certificate ?path s)"
    using con path(2) by (auto simp: consistent_def record_certificate_def best_ok_def witness_ok_def)
  moreover have "completions p s = {}"
    using path(8) inel by (fastforce simp: completions_def feasible_def)
  ultimately show ?thesis
    by (auto simp: searched_def same_frame_def record_certificate_def covered_def)
qed

lemma oversize_completions:
  assumes wf: "wf_problem p" and con: "consistent p s"
    and big: "length (ss_current s) > pr_max_members p \<or> ss_weight s > pr_max_weight p"
  shows "completions p s = {}"
proof (rule ccontr)
  assume "completions p s \<noteq> {}"
  then obtain C where f: "feasible p C" and sub: "set (ss_current s) \<subseteq> C"
    by (auto simp: completions_def)
  have fin: "finite C" using weight_sum_bound(3) [OF wf feasible_range [OF f]] .
  have "length (ss_current s) \<le> pr_max_members p"
    using f card_mono [OF fin sub] distinct_card [OF consistentD(4) [OF con]]
    by (simp add: feasible_def)
  moreover have "weight_sum p (set (ss_current s)) \<le> unat (pr_max_weight p)"
    using f weight_sum_mono [OF fin sub, of p] by (simp add: feasible_def)
  then have "ss_weight s \<le> pr_max_weight p"
    unfolding consistentD(7) [OF con] by (simp add: word_le_nat_alt unat_of_nat le_trans [OF mod_less_eq_dividend])
  ultimately show False using big by auto
qed

subsection \<open>The recursion\<close>

lemma count_explored_facts:
  "same_frame s (count_explored s)" "completions p (count_explored s) = completions p s"
  "consistent p (count_explored s) = consistent p s" "ss_aborted (count_explored s) = ss_aborted s"
  "covered p (count_explored s) C = covered p s C"
  by (simp_all add: count_explored_def same_frame_def completions_def consistent_def best_ok_def
      witness_ok_def covered_def)

lemma searched_count: "searched p (count_explored s) s' \<Longrightarrow> searched p s s'"
  using same_frame_trans [OF count_explored_facts(1), of s s']
  by (simp add: searched_def count_explored_facts)

lemma restore_branched:
  assumes con: "consistent p s" and br: "branched p path s s3 new"
  shows "same_frame s (restore_excluded new s3)" and "consistent p (restore_excluded new s3)"
proof -
  have b: "consistent p s3" "same_frame s (s3\<lparr>ss_excluded := ss_excluded s\<rparr>)"
      "ss_excluded s3 = mark_all (ss_excluded s) new"
      "set new \<inter> mask_set (ss_excluded s) = {}" "set new \<subseteq> {x \<in> set path. is_containable p x}"
    using br by (simp_all add: branched_def)
  have "foldl unmark (mark_all (ss_excluded s) new) new = ss_excluded s"
  proof (rule mask_eqI)
    show "mask_set (foldl unmark (mark_all (ss_excluded s) new) new) = mask_set (ss_excluded s)"
      using b(4) mask_set_mark_all_upper [of "ss_excluded s" new]
        mask_set_mark_all_lower [of "ss_excluded s" new]
      by (auto simp: mask_set_foldl_unmark)
  qed simp
  then show fr: "same_frame s (restore_excluded new s3)"
    using b(2,3) by (simp add: same_frame_def restore_excluded_def)
  show "consistent p (restore_excluded new s3)"
    using b(1) by (intro consistent_frame [OF con fr])
      (simp_all add: consistent_def restore_excluded_def best_ok_def witness_ok_def)
qed

lemma root_witness_consistent:
  assumes wf: "wf_problem p" and con: "consistent p s"
    and ne: "path = shortest_residual_path p (ss_included s)" "path \<noteq> []"
    and new: "distinct new" "set new \<subseteq> {x \<in> set path. is_containable p x}"
    and con3: "consistent p s3"
  shows "consistent p (record_root_witness path new s3)"
proof -
  note path = residual_path_facts [OF wf ne(2) [unfolded ne(1)], folded ne(1)]
  have "\<not> pr_require_source p" if len: "length new = length path"
  proof
    assume req: "pr_require_source p"
    have "set new = set path"
      using new len path(3) by (intro card_subset_eq) (auto simp: distinct_card)
    then have "is_containable p (hd path)" using new(2) ne(2) hd_in_set by fastforce
    then have "hd path \<in> set (ss_current s)"
      using consistentD(6) [OF con] req path(5) by (simp add: is_mandatory_member_def is_source_iff [OF wf])
    then show False using path(1) consistentD(3) [OF con] ne(2) hd_in_set by blast
  qed
  then show ?thesis
    using con3 path(2) by (auto simp: record_root_witness_def consistent_def best_ok_def witness_ok_def)
qed

lemma record_root_witness_frame:
  "same_frame s (record_root_witness path new s)" "ss_best (record_root_witness path new s) = ss_best s"
  "ss_aborted (record_root_witness path new s) = ss_aborted s"
  by (simp_all add: record_root_witness_def same_frame_def)

lemma branched_searched:
  assumes wf: "wf_problem p" and con: "consistent p s"
    and path: "path = shortest_residual_path p (ss_included s)" "path \<noteq> []"
    and br: "branched p path s s3 new"
  shows "searched p s (record_root_witness path new (restore_excluded new s3))"
proof -
  let ?r = "restore_excluded new s3" let ?w = "record_root_witness path new ?r"
  have b: "distinct new" "set new \<subseteq> {x \<in> set path. is_containable p x}"
      "\<And>C. covered p s C \<Longrightarrow> covered p s3 C"
      "\<And>C. sound_instance p \<Longrightarrow> \<not> ss_aborted s3 \<Longrightarrow> C \<in> completions p s \<Longrightarrow>
        C \<inter> set path \<noteq> {} \<Longrightarrow> covered p s3 C"
    using br by (auto simp: branched_def)
  note r = restore_branched [OF con br]
  have best: "ss_best ?w = ss_best s3" "ss_aborted ?w = ss_aborted s3"
    by (simp_all add: record_root_witness_frame restore_excluded_def)
  have "consistent p ?w" by (rule root_witness_consistent [OF wf con path b(1,2) r(2)])
  moreover have "same_frame s ?w"
    by (rule same_frame_trans [OF r(1) record_root_witness_frame(1)])
  moreover have "covered p s C \<longrightarrow> covered p ?w C" for C
    using b(3) covered_cong [OF best(1)] by blast
  moreover have "covered p ?w C"
    if "sound_instance p" "\<not> ss_aborted ?w" "C \<in> completions p s" for C
  proof -
    have "separates p C" using that(3) by (simp add: completions_def feasible_def)
    then have "C \<inter> set path \<noteq> {}"
      using residual_path_facts(8) [OF wf path(2) [unfolded path(1)]] path(1) by blast
    then show ?thesis using b(4) that best covered_cong [OF best(1)] by simp
  qed
  ultimately show ?thesis unfolding searched_def by blast
qed

lemma search_spec:
  assumes wf: "wf_problem p"
  shows "consistent p s \<Longrightarrow> pr_node_count p < fuel + card (set (ss_current s)) \<Longrightarrow>
    \<exists>s'. search fuel p budget s = Some s' \<and> searched p s s'"
proof (induction fuel arbitrary: s)
  case 0
  then have "card (set (ss_current s)) \<le> pr_node_count p"
    using card_mono [OF _ current_range [OF wf]] by (metis card_lessThan finite_lessThan)
  with 0 show ?case by simp
next
  case (Suc fuel)
  let ?s1 = "count_explored s"
  have con: "consistent p ?s1" using Suc.prems(1) by (simp add: count_explored_facts)
  let ?path = "shortest_residual_path p (ss_included ?s1)"
  have stay: "searched p ?s1 ?s1" if "completions p ?s1 = {}"
    using con that by (simp add: searched_def)
  consider (aborted) "ss_aborted s"
    | (budget) "\<not> ss_aborted s" "sc_explored_nodes (ss_counters ?s1) > sb_max_explored budget"
    | (big) "\<not> ss_aborted s" "\<not> sc_explored_nodes (ss_counters ?s1) > sb_max_explored budget"
        "length (ss_current ?s1) > pr_max_members p \<or> ss_weight ?s1 > pr_max_weight p"
    | (cert) "\<not> ss_aborted s" "\<not> sc_explored_nodes (ss_counters ?s1) > sb_max_explored budget"
        "\<not> (length (ss_current ?s1) > pr_max_members p \<or> ss_weight ?s1 > pr_max_weight p)"
        "?path \<noteq> []" "\<not> (\<exists>node \<in> set ?path. is_containable p node)"
    | (leaf) "\<not> ss_aborted s" "\<not> sc_explored_nodes (ss_counters ?s1) > sb_max_explored budget"
        "\<not> (length (ss_current ?s1) > pr_max_members p \<or> ss_weight ?s1 > pr_max_weight p)"
        "?path = []"
    | (branch) "\<not> ss_aborted s" "\<not> sc_explored_nodes (ss_counters ?s1) > sb_max_explored budget"
        "\<not> (length (ss_current ?s1) > pr_max_members p \<or> ss_weight ?s1 > pr_max_weight p)"
        "?path \<noteq> []" "\<exists>node \<in> set ?path. is_containable p node"
    by blast
  then show ?case
  proof cases
    case aborted
    then have "searched p s s" using Suc.prems(1) by (simp add: searched_def)
    then show ?thesis using aborted by simp
  next
    case budget
    have "searched p ?s1 (abort_search ?s1)"
      using con by (auto simp: searched_def abort_search_def same_frame_def consistent_def best_ok_def
          witness_ok_def covered_def)
    then show ?thesis using budget searched_count by (auto simp: Let_def)
  next
    case big
    then show ?thesis using searched_count [OF stay [OF oversize_completions [OF wf con]]]
      by (auto simp: Let_def)
  next
    case cert
    then show ?thesis
      using searched_count [OF record_certificate_searched [OF wf con cert(4,5)]] by (auto simp: Let_def)
  next
    case leaf
    then show ?thesis
      using searched_count [OF complete_branch_searched [OF wf con leaf(4)]] by (auto simp: Let_def)
  next
    case branch
    obtain left s2 where pr: "prune_branch p ?s1 = (left, s2)" by (cases "prune_branch p ?s1")
    note prune = prune_branch_spec [OF wf con pr]
    have unroll: "search (Suc fuel) p budget s = (if left then Some s2
        else case branch_loop (search fuel p budget) p ?path [] s2 of None \<Rightarrow> None
          | Some (s3, here) \<Rightarrow> Some (record_root_witness ?path here (restore_excluded here s3)))"
      using branch(1-4) pr by (subst search.simps) (simp only: Let_def if_False branch(5) not_True_eq_False
          simp_thms bool.case prod.case cong: if_cong split: bool.split, simp)
    show ?thesis
    proof (cases left)
      case True
      then have "searched p ?s1 s2"
        using prune covered_cong [OF prune(3)] by (simp add: searched_def)
      then show ?thesis using unroll True searched_count by simp
    next
      case False
      let ?k = "card (set (ss_current s2))"
      have cur: "ss_current s2 = ss_current s" "ss_included s2 = ss_included ?s1"
        using prune(2) count_explored_facts(1) [of s] by (simp_all add: same_frame_def)
      have rec: "recursion_ok p (Suc ?k) (search fuel p budget)"
        unfolding recursion_ok_def using Suc.IH Suc.prems(2) cur(1) by auto
      have dis: "set ?path \<inter> set (ss_current s2) = {}"
        using residual_path_facts(1) [OF wf branch(4)] consistentD(3) [OF prune(1)] cur(2) by simp
      have run: "\<not> ss_aborted s2" using prune(4) branch(1) by (simp add: count_explored_facts)
      obtain s3 new where l: "branch_loop (search fuel p budget) p ?path [] s2 = Some (s3, [] @ new)"
          "branched p ?path s2 s3 new"
        using branch_loop_spec [OF wf rec prune(1) refl dis run] by blast
      have "searched p s2 (record_root_witness ?path new (restore_excluded new s3))"
        using branched_searched [OF wf prune(1) _ branch(4) l(2)] cur(2) by simp
      then have "searched p ?s1 (record_root_witness ?path new (restore_excluded new s3))"
        using same_frame_trans [OF prune(2)] covered_cong [OF prune(3)] completions_frame [OF prune(2)]
        by (simp add: searched_def)
      then show ?thesis using unroll False l(1) searched_count by simp
    qed
  qed
qed

subsection \<open>The whole solve\<close>

lemma include_fold:
  assumes wf: "wf_problem p"
  shows "distinct ms \<Longrightarrow> (\<forall>x \<in> set ms. is_containable p x) \<Longrightarrow>
    (let s = foldl (\<lambda>s x. include_node p x s) (initial_state p budget) ms
     in length (ss_included s) = pr_node_count p \<and> mask_set (ss_included s) = set ms \<and>
        ss_excluded s = no_marks (pr_node_count p) \<and> ss_current s = ms \<and>
        ss_weight s = of_nat (weight_sum p (set ms)) \<and>
        ss_protected s = of_nat (protected_count p (set ms)) \<and>
        ss_best s = None \<and> ss_witness s = None \<and> \<not> ss_aborted s \<and>
        \<not> sc_budget_exhausted (ss_counters s))"
proof (induction ms rule: rev_induct)
  case Nil
  then show ?case
    by (simp add: initial_state_def zero_counters_def weight_sum_def protected_count_def)
next
  case (snoc x ms)
  have "x < pr_node_count p" using snoc.prems(2) is_containable_range [OF wf] by simp
  then show ?case
    using snoc by (simp add: Let_def include_node_def mask_set_mark weight_sum_insert
        protected_count_insert)
qed

lemma foldl_filter: "foldl (\<lambda>s x. if P x then f x s else s) s xs = foldl (\<lambda>s x. f x s) s (filter P xs)"
  by (induction xs arbitrary: s) simp_all

lemma start_state:
  fixes budget :: solve_budget
  assumes wf: "wf_problem p"
  defines "s \<equiv> include_mandatory p (initial_state p budget)"
  shows "consistent p s" and "completions p s = {C. feasible p C}" and "\<not> ss_aborted s"
    and "ss_best s = None"
proof -
  let ?ms = "filter (is_mandatory_member p) (pr_sources p)"
  have d: "distinct ?ms" "\<forall>x \<in> set ?ms. is_containable p x"
    using wf by (simp_all add: wf_problem_def is_mandatory_member_def)
  have ms: "set ?ms = {x. is_mandatory_member p x}"
    using is_source_iff [OF wf] by (auto simp: is_mandatory_member_def)
  have s: "s = foldl (\<lambda>s x. include_node p x s) (initial_state p budget) ?ms"
    unfolding s_def include_mandatory_def by (rule foldl_filter)
  note f = include_fold [OF wf d, of budget, folded s, unfolded Let_def]
  have mc: "\<forall>x. is_mandatory_member p x \<longrightarrow> is_containable p x"
    by (simp add: is_mandatory_member_def)
  show "consistent p s"
    unfolding consistent_def best_ok_def witness_ok_def using f d(1) ms mc by simp
  show "completions p s = {C. feasible p C}"
    using f mandatory_in_feasible [OF _ wf] ms by (auto simp: completions_def)
  show "\<not> ss_aborted s" and "ss_best s = None" using f by simp_all
qed

lemma solve_exact_run:
  assumes wf: "wf_problem p"
  obtains s where "solve_exact p budget = Some (search_result s)" and "consistent p s"
    and "sound_instance p \<Longrightarrow> \<not> ss_aborted s \<Longrightarrow> feasible p C \<Longrightarrow> covered p s C"
proof -
  let ?s = "include_mandatory p (initial_state p budget)"
  note start = start_state [OF wf, of budget]
  obtain s where s: "search (pr_node_count p + 1) p budget ?s = Some s" "searched p ?s s"
    using search_spec [OF wf start(1), of "pr_node_count p + 1" budget] by auto
  have ne: "pr_sources p \<noteq> []" "pr_protected p \<noteq> []" using wf by (simp_all add: wf_problem_def)
  have "pr_node_count p \<noteq> 0"
    using wf_problem_sources [OF wf] ne(1) by (cases "pr_sources p") auto
  then have "solve_exact p budget = Some (search_result s)"
    using ne s(1) by (simp add: solve_exact_def run_search_def)
  moreover have "sound_instance p \<Longrightarrow> \<not> ss_aborted s \<Longrightarrow> feasible p C \<Longrightarrow> covered p s C"
    using s(2) start(2) by (simp add: searched_def)
  ultimately show thesis using that s(2) by (simp add: searched_def)
qed

lemma solve_exact_total: "wf_problem p \<Longrightarrow> \<exists>sol. solve_exact p budget = Some sol"
  by (erule solve_exact_run [of p budget]) blast

lemma search_result_status:
  "cs_status (search_result s) = (if ss_best s \<noteq> None
      then (if sc_budget_exhausted (ss_counters s) then SolvedFeasible else SolvedOptimal)
      else if sc_budget_exhausted (ss_counters s) then SolveLimitReached else SolvedInfeasible)"
  "ss_best s = Some (ms, obj) \<Longrightarrow>
     cs_members (search_result s) = ms \<and> cs_objective (search_result s) = obj"
  "cs_has_witness (search_result s) \<Longrightarrow> ss_witness s = Some (cs_infeasibility_path (search_result s))"
  "cs_status (search_result s) = SolvedInfeasible \<Longrightarrow>
     cs_has_witness (search_result s) \<longleftrightarrow> ss_witness s \<noteq> None"
  "cs_counters (search_result s) = ss_counters s"
  by (auto simp: search_result_def empty_solution_def Let_def split: option.splits prod.splits if_splits)

lemma solve_exact_feasible:
  assumes wf: "wf_problem p" and sol: "solve_exact p budget = Some sol" and has: "has_solution sol"
  shows "sorted_wrt (<) (cs_members sol)" and "feasible p (set (cs_members sol))"
    and "cs_objective sol = objective_value p (set (cs_members sol))"
proof -
  from wf obtain s where s: "solve_exact p budget = Some (search_result s)" "consistent p s"
    by (rule solve_exact_run [of p budget]) blast
  then have r: "sol = search_result s" using sol by simp
  then have "ss_best s \<noteq> None" using has by (auto simp: has_solution_def search_result_status split: if_splits)
  then obtain ms obj where b: "ss_best s = Some (ms, obj)" by auto
  then show "sorted_wrt (<) (cs_members sol)" "feasible p (set (cs_members sol))"
      "cs_objective sol = objective_value p (set (cs_members sol))"
    using consistentD(9) [OF s(2)] search_result_status(2) [OF b] r by (auto simp: best_ok_def)
qed

lemma solve_exact_optimal:
  assumes wf: "wf_problem p" and snd: "sound_instance p"
    and sol: "solve_exact p budget = Some sol" and opt: "cs_status sol = SolvedOptimal"
    and f: "feasible p C"
  shows "exact_key p (pr_minimize_protected p) (set (cs_members sol))
    \<le> exact_key p (pr_minimize_protected p) C"
proof -
  from wf obtain s where s: "solve_exact p budget = Some (search_result s)" "consistent p s"
      "sound_instance p \<Longrightarrow> \<not> ss_aborted s \<Longrightarrow> feasible p C \<Longrightarrow> covered p s C"
    by (rule solve_exact_run [of p budget C]) blast
  then have r: "sol = search_result s" using sol by simp
  then have "\<not> ss_aborted s"
    using opt consistentD(11) [OF s(2)] by (auto simp: search_result_status split: if_splits)
  then show ?thesis
    using s(3) [OF snd _ f] search_result_status(2) [of s] r by (auto simp: covered_def)
qed

lemma solve_exact_infeasible:
  assumes wf: "wf_problem p" and snd: "sound_instance p"
    and sol: "solve_exact p budget = Some sol" and inf: "cs_status sol = SolvedInfeasible"
  shows "\<not> feasible p C"
proof
  assume f: "feasible p C"
  from wf obtain s where s: "solve_exact p budget = Some (search_result s)" "consistent p s"
      "sound_instance p \<Longrightarrow> \<not> ss_aborted s \<Longrightarrow> feasible p C \<Longrightarrow> covered p s C"
    by (rule solve_exact_run [of p budget C]) blast
  then have r: "sol = search_result s" using sol by simp
  then have "\<not> ss_aborted s" "ss_best s = None"
    using inf consistentD(11) [OF s(2)] by (cases "ss_best s"; auto simp: search_result_status split: if_splits)+
  then show False using s(3) [OF snd _ f] by (auto simp: covered_def)
qed

lemma solve_exact_witness:
  assumes wf: "wf_problem p" and req: "pr_require_source p"
    and sol: "solve_exact p budget = Some sol" and has: "cs_has_witness sol"
  shows "verify_infeasibility_witness p (cs_infeasibility_path sol)"
    and "set (cs_infeasibility_path sol) \<subseteq> {..<pr_node_count p}"
proof -
  from wf obtain s where s: "solve_exact p budget = Some (search_result s)" "consistent p s"
    by (rule solve_exact_run [of p budget]) blast
  then show "verify_infeasibility_witness p (cs_infeasibility_path sol)"
      "set (cs_infeasibility_path sol) \<subseteq> {..<pr_node_count p}"
    using sol has req consistentD(10) [OF s(2)] search_result_status(3) [of s]
    by (auto simp: witness_ok_def)
qed

lemma solve_exact_status:
  assumes wf: "wf_problem p" and sol: "solve_exact p budget = Some sol"
  shows "cs_status sol \<noteq> SolveInvalid"
    and "cs_status sol \<in> {SolvedOptimal, SolvedInfeasible} \<longleftrightarrow> \<not> sc_budget_exhausted (cs_counters sol)"
proof -
  from wf obtain s where "solve_exact p budget = Some (search_result s)"
    by (rule solve_exact_run [of p budget]) blast
  then show "cs_status sol \<noteq> SolveInvalid"
      "cs_status sol \<in> {SolvedOptimal, SolvedInfeasible} \<longleftrightarrow> \<not> sc_budget_exhausted (cs_counters sol)"
    using sol by (auto simp: search_result_status split: if_splits)
qed

subsection \<open>Which instances the optimality and infeasibility claims cover\<close>

text \<open>
  Without \<open>allow_protected_inclusion\<close> no protected node is eligible, and with
  \<open>require_source_inclusion\<close> every eligible source is mandatory. Only the remaining policy
  combination needs the sources and the obligations to be disjoint.
\<close>

lemma sound_instance_iff:
  assumes wf: "wf_problem p"
  shows "sound_instance p \<longleftrightarrow> \<not> pr_allow_protected p \<or> pr_require_source p \<or>
    set (pr_sources p) \<inter> set (pr_protected p) = {}"
proof -
  have "is_protected p s \<and> is_containable p s \<longleftrightarrow> s \<in> set (pr_protected p) \<and> pr_allow_protected p" for s
    using wf is_protected_iff [OF wf] by (auto simp: wf_problem_def)
  then show ?thesis unfolding sound_instance_def by blast
qed

end
