(* ===== verification/Engine_Heuristic.thy ===== *)
theory Engine_Heuristic
  imports Engine_Exact
begin

section \<open>The heuristic solver and the dispatch\<close>

text \<open>
  \<open>src/engine/solver_heuristic.cpp\<close>. The construction loop is bounded by the iteration
  budget itself, so the recursion is on the iterations left. Minimality restoration is
  shared with the planner, which runs the same loop with another skip condition (\<open>keep\<close>).
  The running weight of the construction is never read by the source and is left out.
\<close>

fun cheapest_eligible :: "problem \<Rightarrow> nat option \<times> u64 \<Rightarrow> nat list \<Rightarrow> nat option" where
  "cheapest_eligible p (cheapest, cheapest_weight) [] = cheapest"
| "cheapest_eligible p (cheapest, cheapest_weight) (node # path) =
     (if \<not> is_containable p node then cheapest_eligible p (cheapest, cheapest_weight) path
      else if cheapest = None \<or> weight p node < cheapest_weight \<or>
          (weight p node = cheapest_weight \<and>
           pr_resource_ids p ! node < pr_resource_ids p ! the cheapest)
        then cheapest_eligible p (Some node, weight p node) path
      else cheapest_eligible p (cheapest, cheapest_weight) path)"

datatype greedy_outcome =
    GreedyLimit u64
  | GreedyStuck "nat list"
  | GreedyCut "nat list" u64

fun greedy_loop :: "nat \<Rightarrow> problem \<Rightarrow> bool list \<Rightarrow> nat list \<Rightarrow> u64 \<Rightarrow> greedy_outcome" where
  "greedy_loop 0 p included members iterations = GreedyLimit iterations"
| "greedy_loop (Suc left) p included members iterations =
     (let path = shortest_residual_path p included
      in if path = [] then GreedyCut members (iterations + 1)
         else case cheapest_eligible p (None, 0) path of
             None \<Rightarrow> GreedyStuck path
           | Some node \<Rightarrow>
               greedy_loop left p (mark included node) (members @ [node]) (iterations + 1))"

function restore_minimality :: "(nat \<Rightarrow> bool) \<Rightarrow> problem \<Rightarrow> nat \<Rightarrow> nat list \<Rightarrow> nat list" where
  "restore_minimality keep p i members =
     (if i < length members
      then let candidate = members ! i
        in if keep candidate then restore_minimality keep p (Suc i) members
           else let trial = filter (\<lambda>member. member \<noteq> candidate) members
             in if is_ok (verify_cut p trial) then restore_minimality keep p i trial
                else restore_minimality keep p (Suc i) members
      else members)"
  by pat_completeness auto
termination
proof (relation "measure (\<lambda>(_, _, i, members). length members - i)")
  fix keep :: "nat \<Rightarrow> bool" and p i members candidate trial
  assume "i < length members" and "candidate = members ! i"
    and "trial = filter (\<lambda>member. member \<noteq> candidate) members"
  then have "length trial < length members"
    by (metis (mono_tags, lifting) length_filter_less nth_mem)
  then show "((keep, p, i, trial), (keep, p, i, members)) \<in> measure (\<lambda>(_, _, i, members). length members - i)"
    using \<open>i < length members\<close> by simp
qed auto

declare restore_minimality.simps [simp del]

definition solve_heuristic :: "problem \<Rightarrow> solve_budget \<Rightarrow> cut_solution" where
  "solve_heuristic p budget =
     (let counters = zero_counters\<lparr>sc_candidate_nodes := of_nat (length (pr_candidates p)),
            sc_budget := sb_max_iterations budget, sc_heuristic_used := True\<rparr>;
          solution = empty_solution\<lparr>cs_counters := counters\<rparr>;
          start = filter (is_mandatory_member p) (pr_sources p)
      in case greedy_loop (unat (sb_max_iterations budget)) p
             (mark_all (no_marks (pr_node_count p)) start) start 0 of
           GreedyStuck path \<Rightarrow>
             solution\<lparr>cs_status := SolvedInfeasible, cs_has_witness := True,
               cs_infeasibility_path := path\<rparr>
         | GreedyLimit iterations \<Rightarrow>
             solution\<lparr>cs_status := SolveLimitReached,
               cs_counters := counters\<lparr>sc_budget_exhausted := True,
                 sc_explored_nodes := iterations\<rparr>\<rparr>
         | GreedyCut members iterations \<Rightarrow>
             (let final = restore_minimality (is_mandatory_member p) p 0 (sort members);
                  counted = solution\<lparr>cs_counters := counters\<lparr>sc_explored_nodes := iterations\<rparr>\<rparr>
              in case verify_cut p final of
                   Inl _ \<Rightarrow> counted\<lparr>cs_status := SolveLimitReached\<rparr>
                 | Inr objective \<Rightarrow>
                     counted\<lparr>cs_members := final, cs_objective := objective,
                       cs_status := SolvedFeasible\<rparr>))"

definition solve :: "problem \<Rightarrow> solve_budget \<Rightarrow> nat \<Rightarrow> cut_solution option" where
  "solve p budget exact_node_limit =
     (if length (pr_candidates p) \<le> exact_node_limit then solve_exact p budget
      else Some (solve_heuristic p budget))"

subsection \<open>Reverse deletion\<close>

text \<open>
  \<open>minimal_over keep p C\<close>: no member outside \<open>keep\<close> can be dropped. Deleting a member only
  helps the size and weight bounds, so from a verified start a deletion that fails once
  fails for every later, smaller set.
\<close>

definition droppable :: "problem \<Rightarrow> nat set \<Rightarrow> nat \<Rightarrow> bool" where
  "droppable p C x \<longleftrightarrow> feasible p (C - {x})"

lemma separates_mono:
  assumes "separates p C" and "C \<subseteq> D"
  shows "separates p D"
  using assms reach_antimono [of "\<lambda>v. v \<in> C" "\<lambda>v. v \<in> D"] unfolding separates_def by blast

lemma feasible_drop_mono:
  assumes wf: "wf_problem p" and D: "feasible p D" and sub: "C \<subseteq> D" and x: "x \<in> C"
    and drop: "droppable p C x" and mand: "\<forall>s. is_mandatory_member p s \<longrightarrow> s \<in> C"
  shows "droppable p D x"
proof -
  have f: "feasible p (C - {x})" using drop by (simp add: droppable_def)
  have fin: "finite D" using weight_sum_bound(3) [OF wf feasible_range [OF D]] .
  have sep: "separates p (D - {x})"
    using f sub separates_mono [of p "C - {x}" "D - {x}"] by (auto simp: feasible_def)
  have le: "weight_sum p (D - {x}) \<le> weight_sum p D" "card (D - {x}) \<le> card D"
    using fin by (auto intro: weight_sum_mono card_mono)
  have req: "pr_require_source p \<longrightarrow> (\<forall>s \<in> set (pr_sources p). is_containable p s \<longrightarrow> s \<in> D - {x})"
    using f sub unfolding feasible_def by blast
  have d: "\<forall>x \<in> D. x < pr_node_count p \<and> is_containable p x"
      "pr_allow_protected p \<or> (\<forall>x \<in> D. \<not> is_protected p x)"
      "card D \<le> pr_max_members p" "weight_sum p D \<le> unat (pr_max_weight p)"
    using D unfolding feasible_def by simp_all
  show ?thesis
    unfolding droppable_def feasible_def using sep le req d by (intro conjI) auto
qed

lemma restore_minimality_spec:
  assumes wf: "wf_problem p"
  shows "distinct members \<Longrightarrow> feasible p (set members) \<Longrightarrow>
    (\<forall>j < i. j < length members \<longrightarrow> keep (members ! j) \<or> \<not> droppable p (set members) (members ! j)) \<Longrightarrow>
    (let r = restore_minimality keep p i members
     in distinct r \<and> set r \<subseteq> set members \<and> feasible p (set r) \<and>
        (sorted members \<longrightarrow> sorted r) \<and>
        (\<forall>x \<in> set r. keep x \<or> \<not> droppable p (set r) x))"
proof (induction keep p\<equiv>p i members rule: restore_minimality.induct)
  case (1 keep i members)
  show ?case
  proof (cases "i < length members")
    case False
    then have "restore_minimality keep p i members = members" by (simp add: restore_minimality.simps)
    moreover have "keep x \<or> \<not> droppable p (set members) x" if "x \<in> set members" for x
      using that 1(6) False by (metis in_set_conv_nth less_le_trans not_less)
    ultimately show ?thesis using 1(4,5) by (simp add: Let_def)
  next
    case True
    let ?c = "members ! i" let ?t = "filter (\<lambda>member. member \<noteq> ?c) members"
    show ?thesis
    proof (cases "keep ?c")
      case keep: True
      have "restore_minimality keep p i members = restore_minimality keep p (Suc i) members"
        using True keep by (subst restore_minimality.simps) simp
      then show ?thesis using 1(1) [OF True refl keep] 1(4-) keep by (simp add: less_Suc_eq)
    next
      case nk: False
      have set_t: "set ?t = set members - {?c}" by auto
      show ?thesis
      proof (cases "is_ok (verify_cut p ?t)")
        case ok: True
        have r: "restore_minimality keep p i members = restore_minimality keep p i ?t"
          using True nk ok by (subst restore_minimality.simps) (simp add: Let_def)
        have f: "feasible p (set ?t)" using ok verify_cut_ok_iff [OF wf] by blast
        have "keep (?t ! j) \<or> \<not> droppable p (set ?t) (?t ! j)" if j: "j < i" "j < length ?t" for j
        proof -
          have split: "members = take i members @ ?c # drop (Suc i) members"
            using True by (simp add: id_take_nth_drop)
          have "?c \<notin> set (take i members)"
            using 1(4) True by (subst (asm) split) (auto simp: distinct_append)
          then have take: "filter (\<lambda>member. member \<noteq> ?c) (take i members) = take i members"
            by (auto simp: filter_id_conv)
          have "?t = filter (\<lambda>member. member \<noteq> ?c) (take i members @ ?c # drop (Suc i) members)"
            by (rule arg_cong [OF split])
          then have "?t = take i members @ filter (\<lambda>member. member \<noteq> ?c) (drop (Suc i) members)"
            by (simp add: take)
          then have tj: "?t ! j = members ! j" using j True by (simp add: nth_append)
          have old: "keep (members ! j) \<or> \<not> droppable p (set members) (members ! j)"
            using 1(6) j True by simp
          have "droppable p (set members) (members ! j)" if "droppable p (set ?t) (?t ! j)"
          proof (rule feasible_drop_mono [OF wf 1(5)])
            show "set ?t \<subseteq> set members" by auto
            show "members ! j \<in> set ?t" using j tj nth_mem by metis
            show "droppable p (set ?t) (members ! j)" using that tj by simp
            show "\<forall>s. is_mandatory_member p s \<longrightarrow> s \<in> set ?t"
              using mandatory_in_feasible [OF f wf] by blast
          qed
          then show ?thesis using old tj by auto
        qed
        then have "let r = restore_minimality keep p i ?t
            in distinct r \<and> set r \<subseteq> set ?t \<and> feasible p (set r) \<and> (sorted ?t \<longrightarrow> sorted r) \<and>
               (\<forall>x \<in> set r. keep x \<or> \<not> droppable p (set r) x)"
          using f 1(4) by (intro 1(2) [OF True refl nk refl ok]) auto
        then show ?thesis unfolding r by (auto simp: Let_def sorted_filter [where f = "\<lambda>x. x", simplified])
      next
        case bad: False
        have r: "restore_minimality keep p i members = restore_minimality keep p (Suc i) members"
          using True nk bad by (subst restore_minimality.simps) (simp add: Let_def)
        have "\<not> feasible p (set ?t)" using bad verify_cut_ok_iff [OF wf, of ?t] 1(4) by simp
        then have "\<not> droppable p (set members) ?c" by (simp add: droppable_def set_t del: set_filter)
        then show ?thesis
          unfolding r using 1(4-) by (intro 1(3) [OF True refl nk refl bad]) (auto simp: less_Suc_eq)
      qed
    qed
  qed
qed

subsection \<open>The construction\<close>

lemma cheapest_eligible_None:
  "cheapest_eligible p (c, w) path = None \<Longrightarrow> c = None \<and> (\<forall>x \<in> set path. \<not> is_containable p x)"
proof (induction path arbitrary: c w)
  case (Cons node path)
  have "\<not> is_containable p node"
  proof
    assume "is_containable p node"
    then have "cheapest_eligible p (Some node, weight p node) path = None \<or>
        (cheapest_eligible p (c, w) path = None \<and> c \<noteq> None)"
      using Cons.prems by (simp split: if_splits)
    then show False using Cons.IH [of "Some node" "weight p node"] Cons.IH [of c w] by auto
  qed
  then show ?case using Cons.IH [of c w] Cons.prems by simp
qed simp

lemma cheapest_eligible_Some:
  "cheapest_eligible p (c, w) path = Some x \<Longrightarrow> c = Some x \<or> (x \<in> set path \<and> is_containable p x)"
proof (induction path arbitrary: c w)
  case (Cons node path)
  show ?case
  proof (cases "is_containable p node")
    case False
    then show ?thesis using Cons.IH [of c w] Cons.prems by auto
  next
    case True
    then have "cheapest_eligible p (Some node, weight p node) path = Some x \<or>
        cheapest_eligible p (c, w) path = Some x"
      using Cons.prems by (simp split: if_splits)
    then show ?thesis using Cons.IH [of "Some node" "weight p node"] Cons.IH [of c w] True by auto
  qed
qed simp

definition greedy_inv :: "problem \<Rightarrow> bool list \<Rightarrow> nat list \<Rightarrow> bool" where
  "greedy_inv p included members \<longleftrightarrow>
     length included = pr_node_count p \<and> mask_set included = set members \<and> distinct members \<and>
     (\<forall>x \<in> set members. is_containable p x)"

lemma greedy_loop_spec:
  assumes wf: "wf_problem p"
  shows "greedy_inv p included members \<Longrightarrow>
    case greedy_loop left p included members iterations of
      GreedyLimit _ \<Rightarrow> left + length members \<le> pr_node_count p
    | GreedyStuck path \<Rightarrow> set path \<subseteq> {..<pr_node_count p} \<and> verify_infeasibility_witness p path
    | GreedyCut ms _ \<Rightarrow> distinct ms \<and> set members \<subseteq> set ms \<and> (\<forall>x \<in> set ms. is_containable p x) \<and>
        (\<exists>blocked. mask_set blocked = set ms \<and> shortest_residual_path p blocked = [])"
proof (induction left arbitrary: included members iterations)
  case 0
  then have "set members \<subseteq> {..<pr_node_count p}"
    using is_containable_range [OF wf] by (auto simp: greedy_inv_def)
  then have "card (set members) \<le> pr_node_count p" by (metis card_lessThan card_mono finite_lessThan)
  then show ?case using 0 by (simp add: greedy_inv_def distinct_card)
next
  case (Suc left)
  let ?path = "shortest_residual_path p included"
  show ?case
  proof (cases "?path = []")
    case True
    then show ?thesis using Suc.prems by (auto simp: greedy_inv_def)
  next
    case False
    note path = residual_path_facts [OF wf False]
    show ?thesis
    proof (cases "cheapest_eligible p (None, 0) ?path")
      case None
      then have "verify_infeasibility_witness p ?path"
        using path cheapest_eligible_None [OF None]
        by (subst verify_infeasibility_witness_iff [OF wf path(2)]) blast
      then show ?thesis using False None path(2) by simp
    next
      case (Some x)
      then have x: "x \<in> set ?path" "is_containable p x" using cheapest_eligible_Some [OF Some] by simp_all
      then have "x \<notin> set members" "x < pr_node_count p"
        using path(1,2) Suc.prems by (auto simp: greedy_inv_def)
      then have "greedy_inv p (mark included x) (members @ [x])"
        using Suc.prems x(2) by (auto simp: greedy_inv_def mask_set_mark)
      from Suc.IH [OF this, of "iterations + 1"] show ?thesis
        using False Some by (auto split: greedy_outcome.splits)
    qed
  qed
qed

lemma greedy_start:
  assumes wf: "wf_problem p"
  shows "greedy_inv p (mark_all (no_marks (pr_node_count p)) (filter (is_mandatory_member p) (pr_sources p)))
    (filter (is_mandatory_member p) (pr_sources p))"
proof -
  have "set (filter (is_mandatory_member p) (pr_sources p)) \<subseteq> {..<length (no_marks (pr_node_count p))}"
    using wf_problem_sources [OF wf] by auto
  from mask_set_mark_all [OF this] show ?thesis
    using wf by (simp add: greedy_inv_def wf_problem_def is_mandatory_member_def)
qed

lemma solve_heuristic_cases:
  assumes wf: "wf_problem p"
  obtains (stuck) path where "set path \<subseteq> {..<pr_node_count p}" "verify_infeasibility_witness p path"
      "cs_status (solve_heuristic p budget) = SolvedInfeasible"
      "cs_has_witness (solve_heuristic p budget)" "cs_infeasibility_path (solve_heuristic p budget) = path"
    | (limit) "cs_status (solve_heuristic p budget) = SolveLimitReached"
        "unat (sb_max_iterations budget) \<le> pr_node_count p"
        "sc_budget_exhausted (cs_counters (solve_heuristic p budget))"
    | (rejected) "cs_status (solve_heuristic p budget) = SolveLimitReached"
    | (cut) members where "cs_status (solve_heuristic p budget) = SolvedFeasible"
        "cs_members (solve_heuristic p budget)
          = restore_minimality (is_mandatory_member p) p 0 (sort members)"
        "verify_cut p (cs_members (solve_heuristic p budget))
          = Inr (cs_objective (solve_heuristic p budget))"
        "distinct members"
proof -
  let ?start = "filter (is_mandatory_member p) (pr_sources p)"
  let ?g = "greedy_loop (unat (sb_max_iterations budget)) p
      (mark_all (no_marks (pr_node_count p)) ?start) ?start 0"
  note spec = greedy_loop_spec [OF wf greedy_start [OF wf], of "unat (sb_max_iterations budget)" 0]
  show thesis
  proof (cases ?g)
    case (GreedyLimit it)
    then show thesis using spec by (intro limit) (simp_all add: solve_heuristic_def Let_def)
  next
    case (GreedyStuck path)
    then show thesis using spec by (intro stuck [of path]) (simp_all add: solve_heuristic_def Let_def)
  next
    case (GreedyCut ms it)
    let ?f = "restore_minimality (is_mandatory_member p) p 0 (sort ms)"
    show thesis
    proof (cases "verify_cut p ?f")
      case (Inl e)
      then show thesis using GreedyCut by (intro rejected) (simp add: solve_heuristic_def Let_def)
    next
      case (Inr obj)
      then show thesis using GreedyCut spec
        by (intro cut [of ms]) (simp_all add: solve_heuristic_def Let_def)
    qed
  qed
qed

lemma solve_heuristic_feasible:
  assumes wf: "wf_problem p" and has: "has_solution (solve_heuristic p budget)"
  shows "distinct (cs_members (solve_heuristic p budget))"
    and "feasible p (set (cs_members (solve_heuristic p budget)))"
    and "cs_objective (solve_heuristic p budget) = objective_value p (set (cs_members (solve_heuristic p budget)))"
proof -
  have "verify_cut p (cs_members (solve_heuristic p budget)) = Inr (cs_objective (solve_heuristic p budget))"
    by (rule solve_heuristic_cases [OF wf, of budget]) (use has in \<open>simp_all add: has_solution_def\<close>)
  then show "distinct (cs_members (solve_heuristic p budget))"
      "feasible p (set (cs_members (solve_heuristic p budget)))"
      "cs_objective (solve_heuristic p budget) = objective_value p (set (cs_members (solve_heuristic p budget)))"
    using verify_cut_iff [OF wf] by blast+
qed

lemma solve_heuristic_infeasible:
  assumes wf: "wf_problem p" and inf: "cs_status (solve_heuristic p budget) = SolvedInfeasible"
  shows "cs_has_witness (solve_heuristic p budget)"
    and "verify_infeasibility_witness p (cs_infeasibility_path (solve_heuristic p budget))"
    and "\<not> feasible p C"
proof -
  obtain path where path: "set path \<subseteq> {..<pr_node_count p}" "verify_infeasibility_witness p path"
      "cs_has_witness (solve_heuristic p budget)" "cs_infeasibility_path (solve_heuristic p budget) = path"
    by (rule solve_heuristic_cases [OF wf, of budget]) (use inf in auto)
  then show "cs_has_witness (solve_heuristic p budget)"
    "verify_infeasibility_witness p (cs_infeasibility_path (solve_heuristic p budget))" by simp_all
  show "\<not> feasible p C" by (rule witness_infeasible [OF wf path(1,2)])
qed

lemma solve_heuristic_never_optimal:
  "wf_problem p \<Longrightarrow> cs_status (solve_heuristic p budget) \<noteq> SolvedOptimal \<and>
   cs_status (solve_heuristic p budget) \<noteq> SolveInvalid"
  by (rule solve_heuristic_cases [of p budget]) simp_all

lemma solve_total: "wf_problem p \<Longrightarrow> \<exists>sol. solve p budget limit = Some sol"
  using solve_exact_total by (auto simp: solve_def)

text \<open>What both solvers promise of a returned cut.\<close>

lemma solve_feasible:
  assumes "wf_problem p" and "solve p budget limit = Some sol" and "has_solution sol"
  shows "distinct (cs_members sol) \<and> feasible p (set (cs_members sol)) \<and>
    cs_objective sol = objective_value p (set (cs_members sol))"
proof (cases "length (pr_candidates p) \<le> limit")
  case True
  then have "solve_exact p budget = Some sol" using assms(2) by (simp add: solve_def)
  from solve_exact_feasible [OF assms(1) this assms(3)] show ?thesis
    using sorted_strict_distinct by blast
next
  case False
  then have "sol = solve_heuristic p budget" using assms(2) by (simp add: solve_def)
  then show ?thesis using solve_heuristic_feasible [OF assms(1), of budget] assms(3) by simp
qed

lemma solve_infeasible:
  assumes "wf_problem p" and "sound_instance p" and "solve p budget limit = Some sol"
    and "cs_status sol = SolvedInfeasible"
  shows "\<not> feasible p C"
  using assms solve_exact_infeasible [OF assms(1,2)] solve_heuristic_infeasible(3) [OF assms(1), of budget]
  by (auto simp: solve_def split: if_splits)

lemma solve_optimal:
  assumes "wf_problem p" and "sound_instance p" and "solve p budget limit = Some sol"
    and "cs_status sol = SolvedOptimal" and "feasible p C"
  shows "exact_key p (pr_minimize_protected p) (set (cs_members sol))
    \<le> exact_key p (pr_minimize_protected p) C"
  using assms solve_exact_optimal [OF assms(1,2)] solve_heuristic_never_optimal [OF assms(1), of budget]
  by (auto simp: solve_def split: if_splits)

text \<open>A certificate returned under a policy that contains every eligible source is valid.\<close>

lemma solve_witness:
  assumes wf: "wf_problem p" and req: "pr_require_source p" and sol: "solve p budget limit = Some sol"
    and has: "cs_has_witness sol" and inf: "cs_status sol = SolvedInfeasible"
  shows "verify_infeasibility_witness p (cs_infeasibility_path sol)"
    and "set (cs_infeasibility_path sol) \<subseteq> {..<pr_node_count p}"
proof -
  have "verify_infeasibility_witness p (cs_infeasibility_path sol) \<and>
      set (cs_infeasibility_path sol) \<subseteq> {..<pr_node_count p}"
  proof (cases "length (pr_candidates p) \<le> limit")
    case True
    then have "solve_exact p budget = Some sol" using sol by (simp add: solve_def)
    from solve_exact_witness [OF wf req this has] show ?thesis by simp
  next
    case False
    then have "sol = solve_heuristic p budget" using sol by (simp add: solve_def)
    then show ?thesis using inf by (cases rule: solve_heuristic_cases [OF wf, of budget]) simp_all
  qed
  then show "verify_infeasibility_witness p (cs_infeasibility_path sol)"
    "set (cs_infeasibility_path sol) \<subseteq> {..<pr_node_count p}" by simp_all
qed

end
