(* ===== verification/Engine_Necessity.thy ===== *)
theory Engine_Necessity
  imports Engine_Heuristic
begin

section \<open>Necessity analysis\<close>

text \<open>
  \<open>engine/necessity.hpp\<close> and \<open>src/engine/necessity.cpp\<close>: a member is proven necessary when
  the instance that bars it, rebuilt through the public builder, is infeasible. \<open>None\<close> is
  the fuel of the exact search running out, which does not happen (\<open>analyze_total\<close>).
\<close>

record necessity_result =
  nr_proven_necessary :: "nat list"
  nr_indeterminate :: "nat list"
  nr_not_necessary :: "nat list"
  nr_counters :: solve_counters

definition empty_necessity :: necessity_result where
  "empty_necessity =
     \<lparr>nr_proven_necessary = [], nr_indeterminate = [], nr_not_necessary = [],
      nr_counters = zero_counters\<rparr>"

definition ids_at :: "problem \<Rightarrow> nat list \<Rightarrow> resource_id list" where
  "ids_at p nodes = map (\<lambda>i. pr_resource_ids p ! i) nodes"

definition barred_spec :: "problem \<Rightarrow> nat \<Rightarrow> instance_spec" where
  "barred_spec base barred =
     \<lparr>sp_sources = ids_at base (pr_sources base), sp_protected = ids_at base (pr_protected base),
      sp_forced_ineligible = ids_at base (pr_barred base @ [barred]),
      sp_require_source = pr_require_source base, sp_allow_protected = pr_allow_protected base,
      sp_minimize_protected = pr_minimize_protected base, sp_max_weight = pr_max_weight base,
      sp_max_members = pr_max_members base\<rparr>"

definition add_counters :: "solve_counters \<Rightarrow> solve_counters \<Rightarrow> solve_counters" where
  "add_counters counters c = counters\<lparr>
     sc_explored_nodes := sc_explored_nodes counters + sc_explored_nodes c,
     sc_residual_paths_checked := sc_residual_paths_checked counters + sc_residual_paths_checked c,
     sc_pruned_branches := sc_pruned_branches counters + sc_pruned_branches c,
     sc_budget_exhausted := (if sc_budget_exhausted c then True else sc_budget_exhausted counters)\<rparr>"

definition status_without :: "problem \<Rightarrow> nat \<Rightarrow> solve_budget \<Rightarrow> solve_counters \<Rightarrow>
    (solve_status \<times> solve_counters) option" where
  "status_without base barred budget counters =
     (case problem_build (pr_graph base) (barred_spec base barred) of
        Inl _ \<Rightarrow> Some (SolveInvalid, counters)
      | Inr rebuilt \<Rightarrow>
          (case solve_exact rebuilt budget of
             None \<Rightarrow> None
           | Some solution \<Rightarrow> Some (cs_status solution, add_counters counters (cs_counters solution))))"

definition classify_node :: "nat \<Rightarrow> solve_status \<Rightarrow> necessity_result \<Rightarrow> necessity_result" where
  "classify_node node status r =
     (case status of
        SolvedInfeasible \<Rightarrow> r\<lparr>nr_proven_necessary := nr_proven_necessary r @ [node]\<rparr>
      | SolvedOptimal \<Rightarrow> r\<lparr>nr_not_necessary := nr_not_necessary r @ [node]\<rparr>
      | SolvedFeasible \<Rightarrow> r\<lparr>nr_not_necessary := nr_not_necessary r @ [node]\<rparr>
      | SolveLimitReached \<Rightarrow> r\<lparr>nr_indeterminate := nr_indeterminate r @ [node]\<rparr>
      | SolveInvalid \<Rightarrow> r\<lparr>nr_indeterminate := nr_indeterminate r @ [node]\<rparr>)"

fun analyze :: "problem \<Rightarrow> solve_budget \<Rightarrow> nat list \<Rightarrow> necessity_result \<Rightarrow> necessity_result option" where
  "analyze p budget [] r = Some r"
| "analyze p budget (node # nodes) r =
     (if \<not> is_containable p node
        then analyze p budget nodes (r\<lparr>nr_not_necessary := nr_not_necessary r @ [node]\<rparr>)
      else if pr_require_source p \<and> is_source p node
        then analyze p budget nodes (r\<lparr>nr_proven_necessary := nr_proven_necessary r @ [node]\<rparr>)
      else case status_without p node budget (nr_counters r) of
             None \<Rightarrow> None
           | Some (status, counters) \<Rightarrow>
               analyze p budget nodes (classify_node node status (r\<lparr>nr_counters := counters\<rparr>)))"

definition analyze_necessity :: "problem \<Rightarrow> nat list \<Rightarrow> solve_budget \<Rightarrow> necessity_result option" where
  "analyze_necessity p members budget = analyze p budget (remdups_adj (sort members)) empty_necessity"

definition analyze_necessity_exhaustive :: "problem \<Rightarrow> solve_budget \<Rightarrow> necessity_result option" where
  "analyze_necessity_exhaustive p budget =
     analyze p budget (sort (filter (is_containable p) (pr_candidates p))) empty_necessity"

subsection \<open>The rebuilt instance\<close>

definition built_from :: "topology \<Rightarrow> problem \<Rightarrow> bool" where
  "built_from t p \<longleftrightarrow> wf_topology t \<and> (\<exists>spec. problem_build (graph_build t) spec = Inr p)"

lemma built_from_wf: "built_from t p \<Longrightarrow> wf_problem p"
  using problem_build_wf by (auto simp: built_from_def)

lemma indices_of_ids_at:
  assumes t: "wf_topology t" and ids: "pr_resource_ids p = map ns_id (t_nodes t)"
    and r: "set xs \<subseteq> {..<node_count t}"
  shows "indices_of t (ids_at p xs) = xs" and "all_known t (ids_at p xs)"
proof -
  have f: "topology_find t (pr_resource_ids p ! i) = Some i" if "i \<in> set xs" for i
    using that r topology_find_iff [OF t] by (auto simp: ids node_count_def)
  then show "indices_of t (ids_at p xs) = xs" by (simp add: indices_of_def ids_at_def map_idI)
  show "all_known t (ids_at p xs)" using f by (simp add: all_known_def ids_at_def)
qed

lemma barred_build:
  assumes b: "built_from t p" and x: "x < pr_node_count p"
  obtains p' where "problem_build (pr_graph p) (barred_spec p x) = Inr p'" and "built_from t p'"
    and "pr_node_count p' = pr_node_count p" "pr_graph p' = pr_graph p" "pr_sources p' = pr_sources p"
    "set (pr_protected p') = set (pr_protected p)" "pr_weights p' = pr_weights p"
    "pr_require_source p' = pr_require_source p" "pr_allow_protected p' = pr_allow_protected p"
    "pr_max_weight p' = pr_max_weight p" "pr_max_members p' = pr_max_members p"
    and "\<And>y. is_containable p' y \<longleftrightarrow> is_containable p y \<and> (y = x \<longrightarrow> is_protected p x)"
proof -
  obtain spec where t: "wf_topology t" and s: "problem_build (graph_build t) spec = Inr p"
    using b by (auto simp: built_from_def)
  note f = problem_build_fields [OF t s]
  note acc = s [unfolded problem_build_iff [OF t]]
  have known: "all_known t (sp_forced_ineligible spec)" using acc by blast
  have rb: "set (pr_barred p) \<subseteq> {..<node_count t}"
    unfolding f(18) by (rule indices_of_range [OF t known])
  then have rb': "set (pr_barred p @ [x]) \<subseteq> {..<node_count t}" using x f(2) by simp
  note idx = indices_of_ids_at [OF t f(5)]
  have len: "length (pr_protected p) = length (sp_protected spec)"
      "length (pr_sources p) = length (sp_sources spec)" by (simp_all add: f(3,4))
  have ne: "pr_sources p \<noteq> []" "pr_protected p \<noteq> []"
    using built_from_wf [OF b] by (simp_all add: wf_problem_def)
  have bounds: "length (sp_sources spec) \<le> kMaxFailureSources"
      "length (sp_protected spec) \<le> kMaxProtectedObligations"
      "0 < sp_max_members spec" "sp_max_members spec \<le> kMaxBoundaryMembers"
    using acc by blast+
  have "\<exists>p'. problem_build (graph_build t) (barred_spec p x) = Inr p'"
    unfolding problem_build_iff [OF t]
    using ne bounds f(21,22) len idx [OF f(19)] idx [OF f(20)] idx [OF rb']
    by (simp add: barred_spec_def ids_at_def f(11))
  then obtain p' where p': "problem_build (graph_build t) (barred_spec p x) = Inr p'" by blast
  note f' = problem_build_fields [OF t p']
  have spec': "indices_of t (sp_forced_ineligible (barred_spec p x)) = pr_barred p @ [x]"
      "indices_of t (sp_sources (barred_spec p x)) = pr_sources p"
      "indices_of t (sp_protected (barred_spec p x)) = pr_protected p"
      "sp_allow_protected (barred_spec p x) = pr_allow_protected p"
    using idx(1) [OF rb'] idx(1) [OF f(19)] idx(1) [OF f(20)] by (simp_all add: barred_spec_def)
  have prot: "set (pr_protected p') = set (pr_protected p)" unfolding f'(4) spec' by simp
  have "mask_set (pr_containable p') = mask_set (pr_containable p) - ({x} - set (pr_protected p))"
    unfolding f'(17) f(17) prot spec' f(8) using f(18) by auto
  then have cont: "is_containable p' y \<longleftrightarrow> is_containable p y \<and> (y = x \<longrightarrow> is_protected p x)" for y
    by (auto simp: is_containable_def flag_mask_set is_protected_iff [OF built_from_wf [OF b]])
  have graph: "pr_graph p = graph_build t" by (rule f(1))
  show thesis
  proof (rule that [of p'])
    show "problem_build (pr_graph p) (barred_spec p x) = Inr p'" unfolding graph by (rule p')
    show "built_from t p'" using t p' by (auto simp: built_from_def)
    show "pr_node_count p' = pr_node_count p" "pr_graph p' = pr_graph p" "pr_sources p' = pr_sources p"
      "pr_weights p' = pr_weights p"
      by (simp_all add: f f' spec'(2))
    show "pr_require_source p' = pr_require_source p" "pr_allow_protected p' = pr_allow_protected p"
      "pr_max_weight p' = pr_max_weight p" "pr_max_members p' = pr_max_members p"
      unfolding f' by (simp_all add: barred_spec_def)
  qed (use prot cont in auto)
qed

lemma barred_feasible:
  assumes b: "built_from t p" "built_from t p'"
    and eq: "pr_node_count p' = pr_node_count p" "pr_graph p' = pr_graph p" "pr_sources p' = pr_sources p"
    "set (pr_protected p') = set (pr_protected p)" "pr_weights p' = pr_weights p"
    "pr_require_source p' = pr_require_source p" "pr_allow_protected p' = pr_allow_protected p"
    "pr_max_weight p' = pr_max_weight p" "pr_max_members p' = pr_max_members p"
    and cont: "\<And>y. is_containable p' y \<longleftrightarrow> is_containable p y \<and> (y = x \<longrightarrow> is_protected p x)"
    and nm: "\<not> (pr_require_source p \<and> is_source p x)"
  shows "feasible p' C \<longleftrightarrow> feasible p C \<and> (x \<in> C \<longrightarrow> is_protected p x)"
proof -
  note wf = built_from_wf [OF b(1)] built_from_wf [OF b(2)]
  have prot: "is_protected p' y = is_protected p y" for y
    by (simp add: is_protected_iff [OF wf(1)] is_protected_iff [OF wf(2)] eq(4))
  have w: "weight_sum p' C = weight_sum p C" by (simp add: weight_sum_def weight_def eq(5))
  have sep: "separates p' C = separates p C"
    by (simp add: separates_def eq(1,3) problem_succ_def eq(2) prot)
  have src: "pr_require_source p \<longrightarrow> (\<forall>s \<in> set (pr_sources p). is_containable p s \<longrightarrow> s \<in> C) \<longleftrightarrow>
      (\<forall>s \<in> set (pr_sources p). is_containable p' s \<longrightarrow> s \<in> C)"
    using nm cont is_source_iff [OF wf(1)] by auto
  have el: "(\<forall>y \<in> C. y < pr_node_count p \<and> is_containable p' y) \<longleftrightarrow>
      (\<forall>y \<in> C. y < pr_node_count p \<and> is_containable p y) \<and> (x \<in> C \<longrightarrow> is_protected p x)"
    using cont by auto
  show ?thesis
    unfolding feasible_def eq(1,3,6,7,8,9) w sep prot el using src by auto
qed

lemma status_without_spec:
  assumes b: "built_from t p" and x: "x < pr_node_count p"
    and nm: "\<not> (pr_require_source p \<and> is_source p x)"
  obtains status c where "status_without p x budget counters = Some (status, c)"
    and "\<And>C. sound_instance p \<Longrightarrow> status = SolvedInfeasible \<Longrightarrow> feasible p C \<Longrightarrow> x \<in> C"
    and "status = SolvedOptimal \<or> status = SolvedFeasible \<Longrightarrow>
      \<exists>C. feasible p C \<and> (x \<in> C \<longrightarrow> is_protected p x)"
proof -
  obtain p' where p': "problem_build (pr_graph p) (barred_spec p x) = Inr p'" "built_from t p'"
    and eq: "pr_node_count p' = pr_node_count p" "pr_graph p' = pr_graph p" "pr_sources p' = pr_sources p"
    "set (pr_protected p') = set (pr_protected p)" "pr_weights p' = pr_weights p"
    "pr_require_source p' = pr_require_source p" "pr_allow_protected p' = pr_allow_protected p"
    "pr_max_weight p' = pr_max_weight p" "pr_max_members p' = pr_max_members p"
    and cont: "\<And>y. is_containable p' y \<longleftrightarrow> is_containable p y \<and> (y = x \<longrightarrow> is_protected p x)"
    using barred_build [OF b x] by blast
  note wf = built_from_wf [OF b] built_from_wf [OF p'(2)]
  have feas: "feasible p' C \<longleftrightarrow> feasible p C \<and> (x \<in> C \<longrightarrow> is_protected p x)" for C
    by (rule barred_feasible [OF b p'(2) eq cont nm])
  have snd: "sound_instance p' = sound_instance p"
    by (simp add: sound_instance_iff [OF wf(1)] sound_instance_iff [OF wf(2)] eq)
  obtain sol where sol: "solve_exact p' budget = Some sol" using solve_exact_total [OF wf(2)] by blast
  show thesis
  proof (rule that [of "cs_status sol" "add_counters counters (cs_counters sol)"])
    show "status_without p x budget counters = Some (cs_status sol, add_counters counters (cs_counters sol))"
      by (simp add: status_without_def p'(1) sol)
    show "x \<in> C" if "sound_instance p" "cs_status sol = SolvedInfeasible" "feasible p C" for C
      using solve_exact_infeasible [OF wf(2) _ sol that(2)] that(1,3) snd feas by blast
    show "\<exists>C. feasible p C \<and> (x \<in> C \<longrightarrow> is_protected p x)"
      if "cs_status sol = SolvedOptimal \<or> cs_status sol = SolvedFeasible"
      using solve_exact_feasible(2) [OF wf(2) sol] that feas by (auto simp: has_solution_def)
  qed
qed

subsection \<open>What the analysis reports\<close>

definition necessary :: "problem \<Rightarrow> nat \<Rightarrow> bool" where
  "necessary p x \<longleftrightarrow> (\<forall>C. feasible p C \<longrightarrow> x \<in> C)"

definition avoidable :: "problem \<Rightarrow> nat \<Rightarrow> bool" where
  "avoidable p x \<longleftrightarrow> \<not> is_containable p x \<or> (\<exists>C. feasible p C \<and> (x \<in> C \<longrightarrow> is_protected p x))"

definition necessity_ok :: "problem \<Rightarrow> necessity_result \<Rightarrow> bool" where
  "necessity_ok p r \<longleftrightarrow>
     (sound_instance p \<longrightarrow> (\<forall>x \<in> set (nr_proven_necessary r). necessary p x)) \<and>
     (\<forall>x \<in> set (nr_not_necessary r). avoidable p x)"

definition reported :: "necessity_result \<Rightarrow> nat set" where
  "reported r = set (nr_proven_necessary r) \<union> set (nr_indeterminate r) \<union> set (nr_not_necessary r)"

lemma analyze_spec:
  assumes b: "built_from t p"
  shows "necessity_ok p r \<Longrightarrow>
    \<exists>r'. analyze p budget nodes r = Some r' \<and> necessity_ok p r' \<and> reported r' = reported r \<union> set nodes"
proof (induction nodes arbitrary: r)
  case Nil
  then show ?case by simp
next
  case (Cons x nodes)
  note wf = built_from_wf [OF b]
  consider (inel) "\<not> is_containable p x" | (mand) "is_containable p x" "pr_require_source p \<and> is_source p x"
    | (solved) "is_containable p x" "\<not> (pr_require_source p \<and> is_source p x)" by blast
  then show ?case
  proof cases
    case inel
    let ?r = "r\<lparr>nr_not_necessary := nr_not_necessary r @ [x]\<rparr>"
    have "necessity_ok p ?r" using Cons.prems inel by (simp add: necessity_ok_def avoidable_def)
    from Cons.IH [OF this] show ?thesis using inel by (auto simp: reported_def)
  next
    case mand
    let ?r = "r\<lparr>nr_proven_necessary := nr_proven_necessary r @ [x]\<rparr>"
    have "is_mandatory_member p x" using mand by (simp add: is_mandatory_member_def)
    then have "necessity_ok p ?r"
      using Cons.prems mandatory_in_feasible [OF _ wf] by (auto simp: necessity_ok_def necessary_def)
    from Cons.IH [OF this] show ?thesis using mand by (auto simp: reported_def)
  next
    case solved
    obtain status c where st: "status_without p x budget (nr_counters r) = Some (status, c)"
        "\<And>C. sound_instance p \<Longrightarrow> status = SolvedInfeasible \<Longrightarrow> feasible p C \<Longrightarrow> x \<in> C"
        "status = SolvedOptimal \<or> status = SolvedFeasible \<Longrightarrow>
          \<exists>C. feasible p C \<and> (x \<in> C \<longrightarrow> is_protected p x)"
      using status_without_spec [OF b is_containable_range [OF wf solved(1)] solved(2),
        of budget "nr_counters r"] by metis
    let ?r = "classify_node x status (r\<lparr>nr_counters := c\<rparr>)"
    have rep: "reported ?r = insert x (reported r)"
      by (cases status) (auto simp: classify_node_def reported_def)
    have "sound_instance p \<Longrightarrow> status = SolvedInfeasible \<Longrightarrow> necessary p x"
        "status = SolvedOptimal \<or> status = SolvedFeasible \<Longrightarrow> avoidable p x"
      using st(2,3) by (auto simp: necessary_def avoidable_def)
    then have ok: "necessity_ok p ?r"
      using Cons.prems by (cases status) (simp_all add: necessity_ok_def classify_node_def)
    have unroll: "analyze p budget (x # nodes) r = analyze p budget nodes ?r"
      unfolding analyze.simps using solved by (simp only: st(1) not_True_eq_False if_False
          option.case prod.case)
    from Cons.IH [OF ok] rep show ?thesis unfolding unroll by auto
  qed
qed

lemma empty_necessity_ok: "necessity_ok p empty_necessity" "reported empty_necessity = {}"
  by (simp_all add: necessity_ok_def empty_necessity_def reported_def)

lemma analyze_necessity_spec:
  assumes "built_from t p"
  shows "\<exists>r. analyze_necessity p members budget = Some r \<and> necessity_ok p r \<and> reported r = set members"
  using analyze_spec [OF assms empty_necessity_ok(1), of budget "remdups_adj (sort members)"]
  by (simp add: analyze_necessity_def empty_necessity_ok(2) remdups_adj_set)

lemma analyze_necessity_exhaustive_spec:
  assumes "built_from t p"
  shows "\<exists>r. analyze_necessity_exhaustive p budget = Some r \<and> necessity_ok p r \<and>
    reported r = {x \<in> set (pr_candidates p). is_containable p x}"
  using analyze_spec [OF assms empty_necessity_ok(1), of budget "sort (filter (is_containable p) (pr_candidates p))"]
  by (simp add: analyze_necessity_exhaustive_def empty_necessity_ok(2))

end
