(* ===== verification/Model_Evidence.thy ===== *)
theory Model_Evidence
  imports Core_Canonical
begin

section \<open>Failure evidence\<close>

text \<open>
  \<open>model/evidence.hpp\<close> and \<open>src/model/evidence.cpp\<close>: the canonical evidence vector, the
  merge of one observation, its encoding, and the digest of a durable detection. The class
  invariant is \<open>wf_evidence\<close>: entries strictly ascending by resource, no empty resource, no
  zero generation, and the digest of the encoding.
\<close>

datatype evidence_state = EvPresent | EvAbsent | EvUnknown

definition kStateTokens :: "(evidence_state \<times> string) list" where
  "kStateTokens = [(EvPresent, ''present''), (EvAbsent, ''absent''), (EvUnknown, ''unknown'')]"

definition evidence_state_to_string :: "evidence_state \<Rightarrow> string" where
  "evidence_state_to_string v = token_of kStateTokens ''unrecognised_evidence_state'' v"

definition parse_evidence_state :: "string \<Rightarrow> evidence_state option" where
  "parse_evidence_state t = parse_token kStateTokens t"

interpretation state_tokens: token_map kStateTokens
proof unfold_locales
  show "x \<in> fst ` set kStateTokens" for x by (cases x) (simp_all add: kStateTokens_def)
qed (simp_all add: kStateTokens_def)

definition evidence_state_vals :: "evidence_state list" where
  "evidence_state_vals = [EvPresent, EvAbsent, EvUnknown]"

interpretation state_enum: byte_enum evidence_state_vals
proof unfold_locales
  show "x \<in> set evidence_state_vals" for x by (cases x) (simp_all add: evidence_state_vals_def)
qed (simp_all add: evidence_state_vals_def)

record failure_observation =
  fo_resource :: resource_id
  fo_state :: evidence_state
  fo_generation :: evidence_generation
  fo_digest :: digest
  fo_observed_at :: u64

record detection_record =
  dr_resource :: resource_id
  dr_state :: evidence_state
  dr_generation :: evidence_generation
  dr_source_digest :: digest
  dr_epoch :: coordinator_epoch
  dr_boot :: boot_identity
  dr_sequence :: sequence_no
  dr_record_digest :: digest

definition w_boot :: "boot_identity \<Rightarrow> byte list" where
  "w_boot b = w_u64 (boot_bid b) @ w_u32 (boot_pid b)"

definition detection_compute_digest :: "detection_record \<Rightarrow> digest" where
  "detection_compute_digest d = digest_of
     (w_resource_id (dr_resource d) @ w_u8 (enum_code evidence_state_vals (dr_state d)) @
      w_u64 (dr_generation d) @ w_digest (dr_source_digest d) @ w_u64 (dr_epoch d) @
      w_boot (dr_boot d) @ w_u64 (dr_sequence d))"

record evidence_entry =
  ee_resource :: resource_id
  ee_state :: evidence_state
  ee_generation :: evidence_generation
  ee_digest :: digest

record evidence_vector =
  ev_entries :: "evidence_entry list"
  ev_digest :: digest

definition w_entry :: "evidence_entry \<Rightarrow> byte list" where
  "w_entry e =
     w_resource_id (ee_resource e) @ w_u8 (enum_code evidence_state_vals (ee_state e)) @
     w_u64 (ee_generation e) @ w_digest (ee_digest e)"

definition encode_entries :: "evidence_entry list \<Rightarrow> byte list" where
  "encode_entries es = w_size32 (length es) @ concat (map w_entry es)"

definition evidence_recompute :: "evidence_entry list \<Rightarrow> evidence_vector" where
  "evidence_recompute es = \<lparr>ev_entries = es, ev_digest = digest_of (encode_entries es)\<rparr>"

definition empty_evidence :: evidence_vector where
  "empty_evidence = \<lparr>ev_entries = [], ev_digest = zero_digest\<rparr>"

text \<open>The loop over the sorted entries.\<close>

fun check_entries :: "resource_id option \<Rightarrow> evidence_entry list \<Rightarrow> unit result" where
  "check_entries prev [] = Inr ()"
| "check_entries prev (e # es) =
     (if ee_resource e = [] then err InvalidArgument ''evidence entry has empty resource id''
      else if ee_generation e = 0 then err InvalidArgument ''evidence generation must be non-zero''
      else if prev = Some (ee_resource e)
        then err AlreadyExists ''duplicate resource in evidence vector''
      else check_entries (Some (ee_resource e)) es)"

definition evidence_build :: "evidence_entry list \<Rightarrow> evidence_vector result" where
  "evidence_build entries =
     (if length entries > kMaxTopologyNodes
        then err LimitExceeded ''evidence vector exceeds bound''
      else let sorted_entries = sort_key ee_resource entries in
        try_result (check_entries None sorted_entries) (\<lambda>_. Inr (evidence_recompute sorted_entries)))"

definition evidence_find :: "evidence_vector \<Rightarrow> resource_id \<Rightarrow> evidence_entry option" where
  "evidence_find v resource =
     (let i = std_lower_bound ee_resource (ev_entries v) resource
      in if i = length (ev_entries v) \<or> ee_resource (ev_entries v ! i) \<noteq> resource then None
         else Some (ev_entries v ! i))"

definition present_resources :: "evidence_vector \<Rightarrow> resource_id list" where
  "present_resources v =
     map ee_resource (filter (\<lambda>e. ee_state e = EvPresent) (ev_entries v))"

definition observed_entry :: "failure_observation \<Rightarrow> evidence_entry" where
  "observed_entry obs =
     \<lparr>ee_resource = fo_resource obs, ee_state = fo_state obs, ee_generation = fo_generation obs,
      ee_digest = fo_digest obs\<rparr>"

definition evidence_merged :: "evidence_vector \<Rightarrow> failure_observation \<Rightarrow> evidence_vector result" where
  "evidence_merged v obs =
     (if fo_resource obs = []
        then err InvalidArgument ''observation resource id must not be empty''
      else if fo_generation obs = 0
        then err InvalidArgument ''observation generation must be non-zero''
      else let entries = ev_entries v;
               i = std_lower_bound ee_resource entries (fo_resource obs)
        in if i = length entries \<or> ee_resource (entries ! i) \<noteq> fo_resource obs
           then evidence_build (take i entries @ observed_entry obs # drop i entries)
           else if fo_generation obs < ee_generation (entries ! i)
             then err SequenceRegression ''observation generation regressed''
           else if fo_generation obs = ee_generation (entries ! i)
             then (if ee_digest (entries ! i) \<noteq> fo_digest obs \<or> ee_state (entries ! i) \<noteq> fo_state obs
                   then err Conflict ''contradictory observation at the same generation''
                   else Inr v)
           else evidence_build (entries[i := observed_entry obs]))"

definition evidence_encode :: "evidence_vector \<Rightarrow> byte list" where
  "evidence_encode v = encode_entries (ev_entries v)"

definition read_entry :: "reader \<Rightarrow> (evidence_entry \<times> reader) result" where
  "read_entry r =
     try_result (r_checked_id r) (\<lambda>(resource, r1).
       let (state, r2) = r_u8 r1;
           (generation, r3) = r_u64 r2;
           (source, r4) = r_digest r3
       in try_result (r_check r4) (\<lambda>r5.
         case enum_decode evidence_state_vals state of
           None \<Rightarrow> err InvalidArgument ''invalid evidence state value''
         | Some st \<Rightarrow> Inr (\<lparr>ee_resource = resource, ee_state = st, ee_generation = generation,
                           ee_digest = source\<rparr>, r5)))"

definition evidence_decode :: "byte list \<Rightarrow> evidence_vector result" where
  "evidence_decode bytes =
     (let (n, r1) = r_u32 (reader_init bytes)
      in try_result (r_check r1) (\<lambda>r2.
        if unat n > kMaxTopologyNodes
          then err LimitExceeded ''encoded evidence count exceeds bound''
        else try_result (read_loop (unat n) read_entry [] r2) (\<lambda>(entries, r3).
          try_result (r_finish r3) (\<lambda>_. evidence_build entries))))"

subsection \<open>The class invariant\<close>

definition wf_entries :: "evidence_entry list \<Rightarrow> bool" where
  "wf_entries es \<longleftrightarrow> length es \<le> kMaxTopologyNodes \<and> sorted_wrt (<) (map ee_resource es) \<and>
     (\<forall>e \<in> set es. ee_resource e \<noteq> [] \<and> ee_generation e \<noteq> 0)"

definition wf_evidence :: "evidence_vector \<Rightarrow> bool" where
  "wf_evidence v \<longleftrightarrow> wf_entries (ev_entries v) \<and> v = evidence_recompute (ev_entries v)"

lemma check_entries_iff:
  "sorted (map ee_resource es) \<Longrightarrow> (\<And>p e. prev = Some p \<Longrightarrow> e \<in> set es \<Longrightarrow> p \<le> ee_resource e) \<Longrightarrow>
   check_entries prev es = Inr () \<longleftrightarrow>
     (\<forall>e \<in> set es. ee_resource e \<noteq> [] \<and> ee_generation e \<noteq> 0) \<and>
     sorted_wrt (<) (map ee_resource es) \<and> (\<forall>p. prev = Some p \<longrightarrow> (\<forall>e \<in> set es. p < ee_resource e))"
proof (induction prev es rule: check_entries.induct)
  case (1 prev)
  then show ?case by simp
next
  case (2 prev e es)
  show ?case
  proof (cases "ee_resource e = [] \<or> ee_generation e = 0 \<or> prev = Some (ee_resource e)")
    case True
    then show ?thesis by auto
  next
    case False
    have ih: "check_entries (Some (ee_resource e)) es = Inr () \<longleftrightarrow>
        (\<forall>e \<in> set es. ee_resource e \<noteq> [] \<and> ee_generation e \<noteq> 0) \<and>
        sorted_wrt (<) (map ee_resource es) \<and>
        (\<forall>p. Some (ee_resource e) = Some p \<longrightarrow> (\<forall>e \<in> set es. p < ee_resource e))"
      using False "2.prems"(1) by (intro "2.IH") auto
    have "p < ee_resource e" if "prev = Some p" for p
      using "2.prems"(2) [OF that, of e] False that by auto
    then show ?thesis using False ih by (auto dest: order_less_trans)
  qed
qed

lemma evidence_build_iff:
  "evidence_build es = Inr v \<longleftrightarrow>
     wf_entries (sort_key ee_resource es) \<and> v = evidence_recompute (sort_key ee_resource es)"
proof -
  have c: "check_entries None (sort_key ee_resource es) = Inr () \<longleftrightarrow>
      (\<forall>e \<in> set es. ee_resource e \<noteq> [] \<and> ee_generation e \<noteq> 0) \<and>
      sorted_wrt (<) (map ee_resource (sort_key ee_resource es))"
    by (subst check_entries_iff) simp_all
  show ?thesis
    by (auto simp: evidence_build_def try_result_Inr_iff wf_entries_def Let_def c)
qed

lemma wf_evidence_recompute: "wf_entries es \<Longrightarrow> wf_evidence (evidence_recompute es)"
  by (simp add: wf_evidence_def evidence_recompute_def)

lemma evidence_build_wf: "evidence_build es = Inr v \<Longrightarrow> wf_evidence v"
  by (auto simp: evidence_build_iff wf_evidence_recompute)

lemma wf_entries_sort: "wf_entries es \<Longrightarrow> sort_key ee_resource es = es"
  by (simp add: wf_entries_def sort_key_id_if_sorted strict_sorted_iff)

lemma evidence_build_wf_entries: "wf_entries es \<Longrightarrow> evidence_build es = Inr (evidence_recompute es)"
  by (simp add: evidence_build_iff wf_entries_sort)

lemma evidence_find_iff:
  assumes "sorted_wrt (<) (map ee_resource (ev_entries v))"
  shows "evidence_find v r = Some e \<longleftrightarrow> e \<in> set (ev_entries v) \<and> ee_resource e = r"
proof -
  let ?es = "ev_entries v" let ?i = "std_lower_bound ee_resource ?es r"
  have s: "sorted (map ee_resource ?es)" and d: "distinct (map ee_resource ?es)"
    using assms by (simp_all add: strict_sorted_iff)
  have le: "?i \<le> length ?es" by (rule std_lower_bound_le)
  show ?thesis
  proof
    assume "evidence_find v r = Some e"
    then show "e \<in> set ?es \<and> ee_resource e = r"
      using le by (auto simp: evidence_find_def Let_def split: if_splits)
  next
    assume e: "e \<in> set ?es \<and> ee_resource e = r"
    then obtain j where j: "j < length ?es" "?es ! j = e" by (auto simp: in_set_conv_nth)
    have "\<not> j < ?i" using std_lower_bound_sorted [OF s, of j r] e j by auto
    then have i: "?i < length ?es" "?i \<le> j" using j(1) by simp_all
    have "ee_resource (?es ! ?i) \<le> ee_resource (?es ! j)"
      using s i j(1) by (auto simp: sorted_iff_nth_mono)
    moreover have "r \<le> ee_resource (?es ! ?i)"
      using std_lower_bound_ge [OF s order_refl i(1)] .
    ultimately have "ee_resource (?es ! ?i) = r" using e j(2) by simp
    then have "?i = j"
      using nth_eq_iff_index_eq [OF d, of ?i j] i(1) j e by simp
    then show "evidence_find v r = Some e" using i(1) j e by (simp add: evidence_find_def Let_def)
  qed
qed

subsection \<open>Merging an observation\<close>

lemma lower_bound_split:
  assumes s: "sorted_wrt (<) (map ee_resource es)"
    and i: "i = std_lower_bound ee_resource es r"
    and absent: "i = length es \<or> ee_resource (es ! i) \<noteq> r"
  shows "(\<forall>e \<in> set (take i es). ee_resource e < r) \<and> (\<forall>e \<in> set (drop i es). r < ee_resource e)"
proof -
  have s': "sorted (map ee_resource es)" using s by (simp add: strict_sorted_iff)
  have "ee_resource e < r" if "e \<in> set (take i es)" for e
    using that std_lower_bound_sorted [OF s'] i by (auto simp: in_set_conv_nth)
  moreover have "r < ee_resource e" if e: "e \<in> set (drop i es)" for e
  proof -
    obtain k where "k < length (drop i es)" "drop i es ! k = e" using e by (metis in_set_conv_nth)
    then have k: "i + k < length es" "es ! (i + k) = e" by simp_all
    then have "i < length es" by simp
    have "r \<le> ee_resource (es ! i)" using std_lower_bound_ge [OF s'] i \<open>i < length es\<close> by simp
    then have "r < ee_resource (es ! i)" using absent \<open>i < length es\<close> by auto
    also have "ee_resource (es ! i) \<le> ee_resource (es ! (i + k))"
      using s' k(1) by (auto simp: sorted_iff_nth_mono)
    finally show ?thesis using k(2) by simp
  qed
  ultimately show ?thesis by blast
qed

lemma set_insert_at: "insert x (set (take i xs) \<union> set (drop i xs)) = insert x (set xs)"
  by (metis append_take_drop_id set_append)

lemma insert_entry_wf:
  assumes wf: "wf_entries es" and i: "i = std_lower_bound ee_resource es (ee_resource x)"
    and absent: "i = length es \<or> ee_resource (es ! i) \<noteq> ee_resource x"
    and x: "ee_resource x \<noteq> []" "ee_generation x \<noteq> 0" and room: "length es < kMaxTopologyNodes"
  shows "wf_entries (take i es @ x # drop i es)"
proof -
  have s: "sorted_wrt (<) (map ee_resource es)" using wf by (simp add: wf_entries_def)
  note split = lower_bound_split [OF s i absent]
  have "sorted_wrt (<) (map ee_resource (take i es @ x # drop i es))"
    using s split sorted_wrt_take [OF s, of i] sorted_wrt_drop [OF s, of i]
    by (auto simp: sorted_wrt_append take_map drop_map dest: order_less_trans)
  moreover have "length (take i es @ x # drop i es) = Suc (length es)" by simp
  ultimately show ?thesis
    using wf x room by (auto simp: wf_entries_def dest: in_set_takeD in_set_dropD)
qed

lemma update_entry_wf:
  assumes "wf_entries es" and "i < length es" and "ee_resource x = ee_resource (es ! i)"
    and "ee_generation x \<noteq> 0"
  shows "wf_entries (es[i := x])"
proof -
  have "map ee_resource (es[i := x]) = map ee_resource es"
    using assms(2,3) by (simp add: map_update list_update_same_conv)
  moreover have "ee_resource x \<noteq> []"
    unfolding assms(3) using assms(1) nth_mem [OF assms(2)] by (simp add: wf_entries_def)
  ultimately show ?thesis
    using assms(1,2,4) by (auto simp: wf_entries_def dest!: set_update_subset_insert [THEN subsetD])
qed

text \<open>Every successful merge keeps the invariant and answers the lookup of its resource.\<close>

lemma evidence_merged_cases:
  assumes wf: "wf_evidence v" and m: "evidence_merged v obs = Inr v'"
  shows "wf_evidence v' \<and>
    (\<forall>r. evidence_find v' r = (if r = fo_resource obs then Some (observed_entry obs) else evidence_find v r)) \<and>
    (case evidence_find v (fo_resource obs) of None \<Rightarrow> True
     | Some e \<Rightarrow> ee_generation e \<le> fo_generation obs)"
proof -
  let ?es = "ev_entries v" let ?r = "fo_resource obs" let ?x = "observed_entry obs"
  let ?i = "std_lower_bound ee_resource ?es ?r"
  have es: "wf_entries ?es" using wf by (simp add: wf_evidence_def)
  have s: "sorted_wrt (<) (map ee_resource ?es)" using es by (simp add: wf_entries_def)
  have x: "ee_resource ?x = ?r" "ee_generation ?x = fo_generation obs" "ee_state ?x = fo_state obs"
      "ee_digest ?x = fo_digest obs" by (simp_all add: observed_entry_def)
  have ok: "?r \<noteq> []" "fo_generation obs \<noteq> 0"
    using m by (auto simp: evidence_merged_def split: if_splits)
  have le: "?i \<le> length ?es" by (rule std_lower_bound_le)
  have find: "evidence_find w r = Some e \<longleftrightarrow> e \<in> set (ev_entries w) \<and> ee_resource e = r"
    if "wf_evidence w" for w r e
    using that evidence_find_iff by (simp add: wf_evidence_def wf_entries_def)
  have findI: "evidence_find w r = evidence_find v r"
    if "wf_evidence w" "\<And>e. ee_resource e = r \<Longrightarrow> e \<in> set (ev_entries w) \<longleftrightarrow> e \<in> set ?es" for w r
    using find [OF that(1), of r] find [OF wf, of r] that(2)
    by (cases "evidence_find v r"; cases "evidence_find w r") (auto, metis option.inject)
  show ?thesis
  proof (cases "?i = length ?es \<or> ee_resource (?es ! ?i) \<noteq> ?r")
    case True
    let ?new = "take ?i ?es @ ?x # drop ?i ?es"
    have b: "evidence_build ?new = Inr v'"
      using m ok True by (simp add: evidence_merged_def Let_def)
    then have "length ?new \<le> kMaxTopologyNodes"
      by (auto simp: evidence_build_def split: if_splits)
    then have room: "length ?es < kMaxTopologyNodes" by simp
    have wn: "wf_entries ?new"
      using es True ok room by (intro insert_entry_wf) (simp_all add: x)
    then have v': "v' = evidence_recompute ?new" using b evidence_build_wf_entries by simp
    have w': "wf_evidence v'" unfolding v' using wn by (rule wf_evidence_recompute)
    have set: "set (ev_entries v') = insert ?x (set ?es)"
      unfolding v' evidence_recompute_def by (simp add: set_insert_at)
    have "evidence_find v ?r = None" using True by (simp add: evidence_find_def Let_def)
    moreover have "evidence_find v' ?r = Some ?x" using find [OF w'] set x(1) by simp
    moreover have "evidence_find v' r = evidence_find v r" if "r \<noteq> ?r" for r
      by (rule findI [OF w']) (use set x(1) that in auto)
    ultimately show ?thesis using w' by simp
  next
    case False
    then have i: "?i < length ?es" "ee_resource (?es ! ?i) = ?r" using le by auto
    have old: "evidence_find v ?r = Some (?es ! ?i)" using find [OF wf] i by simp
    show ?thesis
    proof (cases "fo_generation obs = ee_generation (?es ! ?i)")
      case True
      then have "v' = v" "?es ! ?i = ?x"
        using m ok False i by (auto simp: evidence_merged_def Let_def observed_entry_def split: if_splits)
      then show ?thesis using wf old True by auto
    next
      case ne: False
      let ?new = "?es[?i := ?x]"
      have b: "evidence_build ?new = Inr v'" and lt: "\<not> fo_generation obs < ee_generation (?es ! ?i)"
        using m ok False ne by (auto simp: evidence_merged_def Let_def split: if_splits)
      have wn: "wf_entries ?new" using es i ok x by (intro update_entry_wf) simp_all
      then have v': "v' = evidence_recompute ?new" using b evidence_build_wf_entries by simp
      have w': "wf_evidence v'" unfolding v' using wn by (rule wf_evidence_recompute)
      have ent: "ev_entries v' = ?new" by (simp add: v' evidence_recompute_def)
      have "evidence_find v' ?r = Some ?x"
        using find [OF w'] ent i(1) x(1) by (simp add: set_update_memI)
      moreover have "evidence_find v' r = evidence_find v r" if r: "r \<noteq> ?r" for r
      proof (rule findI [OF w'])
        fix e :: evidence_entry
        assume e: "ee_resource e = r"
        show "e \<in> set (ev_entries v') \<longleftrightarrow> e \<in> set ?es"
          unfolding ent
        proof
          assume "e \<in> set ?new"
          then show "e \<in> set ?es"
            using e r x(1) set_update_subset_insert [of ?es ?i ?x] by auto
        next
          assume "e \<in> set ?es"
          then obtain j where j: "j < length ?es" "?es ! j = e" by (auto simp: in_set_conv_nth)
          then have "j \<noteq> ?i" using e r i(2) by metis
          then have "?new ! j = e" using j(2) by simp
          then show "e \<in> set ?new" using j(1) by (metis length_list_update nth_mem)
        qed
      qed
      ultimately show ?thesis using w' old lt by auto
    qed
  qed
qed

text \<open>
  A regressed generation is refused, and a contradiction at the same generation is a conflict.
\<close>

lemma evidence_merged_stale:
  assumes wf: "wf_evidence v" and obs: "fo_resource obs \<noteq> []" "fo_generation obs \<noteq> 0"
    and e: "evidence_find v (fo_resource obs) = Some e"
  shows "fo_generation obs < ee_generation e \<Longrightarrow>
      evidence_merged v obs = err SequenceRegression ''observation generation regressed''"
    and "fo_generation obs = ee_generation e \<Longrightarrow>
      evidence_merged v obs = (if e = observed_entry obs then Inr v
        else err Conflict ''contradictory observation at the same generation'')"
proof -
  let ?i = "std_lower_bound ee_resource (ev_entries v) (fo_resource obs)"
  have i: "?i \<noteq> length (ev_entries v)" "ee_resource (ev_entries v ! ?i) = fo_resource obs"
      "ev_entries v ! ?i = e"
    using e by (auto simp: evidence_find_def Let_def split: if_splits)
  have eq: "e = observed_entry obs \<longleftrightarrow> ee_generation e = fo_generation obs \<and>
      ee_digest e = fo_digest obs \<and> ee_state e = fo_state obs"
    using i by (cases e) (auto simp: observed_entry_def)
  show "fo_generation obs < ee_generation e \<Longrightarrow>
      evidence_merged v obs = err SequenceRegression ''observation generation regressed''"
    using obs i by (simp add: evidence_merged_def Let_def)
  show "fo_generation obs = ee_generation e \<Longrightarrow>
      evidence_merged v obs = (if e = observed_entry obs then Inr v
        else err Conflict ''contradictory observation at the same generation'')"
    using obs i eq by (auto simp: evidence_merged_def Let_def)
qed

lemma present_resources_iff:
  "wf_evidence v \<Longrightarrow> r \<in> set (present_resources v) \<longleftrightarrow>
     (\<exists>e. evidence_find v r = Some e \<and> ee_state e = EvPresent)"
  using evidence_find_iff [of v r]
  by (auto simp: present_resources_def wf_evidence_def wf_entries_def)

subsection \<open>Round trip\<close>

text \<open>
  \<open>build\<close> does not check that a resource is a canonical identity, the decoder does: only
  vectors of valid identities survive the round trip.
\<close>

definition encodable_evidence :: "evidence_vector \<Rightarrow> bool" where
  "encodable_evidence v \<longleftrightarrow> wf_evidence v \<and> (\<forall>e \<in> set (ev_entries v). is_valid_resource_id (ee_resource e))"

lemma read_entry_back:
  "is_valid_resource_id (ee_resource e) \<Longrightarrow>
   read_entry (reader_at d (w_entry e @ rest)) = Inr (e, reader_at (d @ w_entry e) rest)"
  by (simp add: read_entry_def w_entry_def codec_simps state_enum.decode_code)

interpretation e_entry: element_codec read_entry w_entry "\<lambda>e. e"
    "\<lambda>e. is_valid_resource_id (ee_resource e)"
  by unfold_locales (rule read_entry_back)

lemma evidence_decode_encode:
  assumes "encodable_evidence v"
  shows "evidence_decode (evidence_encode v) = Inr v"
proof -
  let ?es = "ev_entries v"
  have wf: "wf_entries ?es" and v: "v = evidence_recompute ?es"
    and ids: "\<And>e. e \<in> set ?es \<Longrightarrow> is_valid_resource_id (ee_resource e)"
    using assms by (simp_all add: encodable_evidence_def wf_evidence_def)
  have bound: "length ?es \<le> kMaxTopologyNodes" using wf by (simp add: wf_entries_def)
  then have len: "length ?es < 2 ^ 32" by (simp add: kMaxTopologyNodes_def)
  show ?thesis
    unfolding evidence_decode_def evidence_encode_def encode_entries_def
    using v by (simp add: codec_simps w_size32_def unat_size32 [OF len] bound not_less
        e_entry.loop_back_last [OF ids] evidence_build_wf_entries [OF wf])
qed

interpretation evidence_doc: document_codec evidence_encode evidence_decode encodable_evidence
  by unfold_locales (rule evidence_decode_encode)

end
