(* ===== verification/Model_Authority.thy ===== *)
theory Model_Authority
  imports Model_Evidence
begin

section \<open>Authority vectors\<close>

text \<open>
  \<open>model/authority.hpp\<close> and \<open>src/model/authority.cpp\<close>: the binding of a decision to the
  epoch, boot, policy, topology and evidence that made it legal, its codec, and the
  comparison of a presented vector with the current one. \<open>AuthorityCheck\<close> is its state.
  \<open>render()\<close>, a debug string made by \<open>snprintf\<close>, is not modelled.
\<close>

record authority_vector =
  av_epoch :: coordinator_epoch
  av_boot :: boot_identity
  av_policy :: policy_generation
  av_topology :: topology_generation
  av_evidence_revision :: evidence_revision
  av_evidence_digest :: digest
  av_issued_sequence :: sequence_no

text \<open>The value-initialised vector.\<close>

definition default_authority :: authority_vector where
  "default_authority = \<lparr>av_epoch = 0, av_boot = no_boot, av_policy = 0, av_topology = 0,
     av_evidence_revision = 0, av_evidence_digest = zero_digest, av_issued_sequence = 0\<rparr>"

definition authority_encode :: "authority_vector \<Rightarrow> byte list" where
  "authority_encode a =
     w_u64 (av_epoch a) @ w_u64 (boot_bid (av_boot a)) @ w_u32 (boot_pid (av_boot a)) @
     w_u64 (av_policy a) @ w_u64 (av_topology a) @ w_u64 (av_evidence_revision a) @
     w_digest (av_evidence_digest a) @ w_u64 (av_issued_sequence a)"

definition authority_digest :: "authority_vector \<Rightarrow> digest" where
  "authority_digest a = digest_of
     (w_u64 (av_epoch a) @ w_u64 (boot_bid (av_boot a)) @ w_u32 (boot_pid (av_boot a)) @
      w_u64 (av_policy a) @ w_u64 (av_topology a) @ w_u64 (av_evidence_revision a) @
      w_digest (av_evidence_digest a) @ w_u64 (av_issued_sequence a))"

definition authority_decode :: "byte list \<Rightarrow> authority_vector result" where
  "authority_decode bytes =
     (let (epoch, r1) = r_u64 (reader_init bytes);
          (boot_id, r2) = r_u64 r1;
          (process_id, r3) = r_u32 r2;
          (policy, r4) = r_u64 r3;
          (topology, r5) = r_u64 r4;
          (revision, r6) = r_u64 r5;
          (evidence, r7) = r_digest r6;
          (issued, r8) = r_u64 r7
      in try_result (r_finish r8) (\<lambda>_. Inr
           \<lparr>av_epoch = epoch, av_boot = BootIdentity boot_id process_id, av_policy = policy,
            av_topology = topology, av_evidence_revision = revision,
            av_evidence_digest = evidence, av_issued_sequence = issued\<rparr>))"

datatype authority_state =
    AuthorityValid | AuthStaleEpoch | AuthStaleBoot | AuthStalePolicy | AuthStaleTopology
  | AuthStaleEvidence | AuthFenced

definition kAuthorityTokens :: "(authority_state \<times> string) list" where
  "kAuthorityTokens =
    [(AuthorityValid, ''valid''), (AuthStaleEpoch, ''stale_epoch''), (AuthStaleBoot, ''stale_boot''),
     (AuthStalePolicy, ''stale_policy''), (AuthStaleTopology, ''stale_topology''),
     (AuthStaleEvidence, ''stale_evidence''), (AuthFenced, ''fenced'')]"

definition authority_state_to_string :: "authority_state \<Rightarrow> string" where
  "authority_state_to_string v = token_of kAuthorityTokens ''unrecognised_authority_state'' v"

interpretation authority_tokens: token_map kAuthorityTokens
proof unfold_locales
  show "x \<in> fst ` set kAuthorityTokens" for x by (cases x) (simp_all add: kAuthorityTokens_def)
qed (simp_all add: kAuthorityTokens_def)

definition authority_check_ok :: "authority_state \<Rightarrow> bool" where
  "authority_check_ok v \<longleftrightarrow> v = AuthorityValid"

fun authority_status_code :: "authority_state \<Rightarrow> status_code" where
  "authority_status_code AuthorityValid = Ok"
| "authority_status_code AuthStaleEpoch = StaleGeneration"
| "authority_status_code AuthStaleBoot = StaleGeneration"
| "authority_status_code AuthStalePolicy = StaleGeneration"
| "authority_status_code AuthStaleTopology = StaleGeneration"
| "authority_status_code AuthStaleEvidence = StaleGeneration"
| "authority_status_code AuthFenced = CodeFenced"

fun authority_reason :: "authority_state \<Rightarrow> string" where
  "authority_reason AuthorityValid = ''authority_validated''"
| "authority_reason AuthStaleEpoch = ''authority_stale_epoch''"
| "authority_reason AuthStaleBoot = ''authority_stale_boot''"
| "authority_reason AuthStalePolicy = ''authority_stale_policy''"
| "authority_reason AuthStaleTopology = ''authority_stale_topology''"
| "authority_reason AuthStaleEvidence = ''authority_stale_evidence''"
| "authority_reason AuthFenced = ''authority_fenced''"

definition validate_authority :: "authority_vector \<Rightarrow> authority_vector \<Rightarrow> authority_state" where
  "validate_authority presented current =
     (if av_boot presented \<noteq> av_boot current then AuthFenced
      else if av_epoch presented \<noteq> av_epoch current then AuthStaleEpoch
      else if av_policy presented \<noteq> av_policy current then AuthStalePolicy
      else if av_topology presented \<noteq> av_topology current then AuthStaleTopology
      else if av_evidence_revision presented \<noteq> av_evidence_revision current \<or>
          av_evidence_digest presented \<noteq> av_evidence_digest current then AuthStaleEvidence
      else AuthorityValid)"

text \<open>Two vectors are the same authority when they agree on all but the issuing sequence.\<close>

definition same_authority :: "authority_vector \<Rightarrow> authority_vector \<Rightarrow> bool" where
  "same_authority a b \<longleftrightarrow> a\<lparr>av_issued_sequence := 0\<rparr> = b\<lparr>av_issued_sequence := 0\<rparr>"

lemma same_authority_fields:
  "same_authority a b \<longleftrightarrow> av_boot a = av_boot b \<and> av_epoch a = av_epoch b \<and>
     av_policy a = av_policy b \<and> av_topology a = av_topology b \<and>
     av_evidence_revision a = av_evidence_revision b \<and> av_evidence_digest a = av_evidence_digest b"
  by (cases a; cases b) (auto simp: same_authority_def)

lemma validate_authority_valid:
  "validate_authority presented current = AuthorityValid \<longleftrightarrow> same_authority presented current"
  by (simp add: validate_authority_def same_authority_fields)

lemma validate_authority_code:
  "authority_status_code (validate_authority presented current) =
     (if av_boot presented \<noteq> av_boot current then CodeFenced
      else if same_authority presented current then Ok else StaleGeneration)"
  by (simp add: validate_authority_def same_authority_fields)

lemma authority_decode_encode: "authority_decode (authority_encode a) = Inr a"
  by (cases a) (simp add: authority_decode_def authority_encode_def codec_simps)

interpretation authority_doc: document_codec authority_encode authority_decode "\<lambda>_. True"
  by unfold_locales (rule authority_decode_encode)

lemma authority_digest_encode: "authority_digest a = digest_of (authority_encode a)"
  by (simp add: authority_digest_def authority_encode_def)

lemma length_authority_encode [simp]: "length (authority_encode a) = 68"
  by (simp add: authority_encode_def w_u64_def w_u32_def w_le_def w_digest_def)

end
