(* ===== verification/Model_Boundary.thy ===== *)
theory Model_Boundary
  imports Core_Canonical
begin

section \<open>Containment boundaries\<close>

text \<open>
  \<open>model/boundary.hpp\<close> and \<open>src/model/boundary.cpp\<close> without \<open>to_json\<close>. A default-constructed
  boundary has generation zero and no digest: \<open>create\<close> refuses that generation, so the
  default boundary is outside the class invariant \<open>wf_boundary\<close> and is not decodable.
\<close>

datatype inclusion_reason =
    IncFailureSource | IncProvenPath | IncUnknownPath | IncPolicySource | IncProtected | IncSharedRisk

definition kInclusionTokens :: "(inclusion_reason \<times> string) list" where
  "kInclusionTokens =
    [(IncFailureSource, ''failure_source''), (IncProvenPath, ''cut_vertex_on_proven_path''),
     (IncUnknownPath, ''cut_vertex_on_unknown_path''), (IncPolicySource, ''policy_mandated_source''),
     (IncProtected, ''protected_obligation_isolation''), (IncSharedRisk, ''shared_risk_domain_fence'')]"

definition inclusion_reason_to_string :: "inclusion_reason \<Rightarrow> string" where
  "inclusion_reason_to_string v = token_of kInclusionTokens ''unrecognised_inclusion_reason'' v"

definition parse_inclusion_reason :: "string \<Rightarrow> inclusion_reason option" where
  "parse_inclusion_reason t = parse_token kInclusionTokens t"

interpretation inclusion_tokens: token_map kInclusionTokens
proof unfold_locales
  show "x \<in> fst ` set kInclusionTokens" for x by (cases x) (simp_all add: kInclusionTokens_def)
qed (simp_all add: kInclusionTokens_def)

definition inclusion_vals :: "inclusion_reason list" where
  "inclusion_vals =
    [IncFailureSource, IncProvenPath, IncUnknownPath, IncPolicySource, IncProtected, IncSharedRisk]"

interpretation inclusion_enum: byte_enum inclusion_vals
proof unfold_locales
  show "x \<in> set inclusion_vals" for x by (cases x) (simp_all add: inclusion_vals_def)
qed (simp_all add: inclusion_vals_def)

record boundary_member =
  bm_resource :: resource_id
  bm_reason :: inclusion_reason
  bm_protected :: bool
  bm_weight :: u64
  bm_witness_path :: "resource_id list"
  bm_uses_unknown :: bool

record boundary =
  b_generation :: boundary_generation
  b_members :: "boundary_member list"
  b_digest :: digest

definition default_boundary :: boundary where
  "default_boundary = \<lparr>b_generation = 0, b_members = [], b_digest = zero_digest\<rparr>"

definition w_member :: "boundary_member \<Rightarrow> byte list" where
  "w_member m =
     w_resource_id (bm_resource m) @ w_u8 (enum_code inclusion_vals (bm_reason m)) @
     w_boolean (bm_protected m) @ w_u64 (bm_weight m) @ w_boolean (bm_uses_unknown m) @
     w_ids (bm_witness_path m)"

definition sum_weights :: "boundary_member list \<Rightarrow> u64" where
  "sum_weights ms = foldl (\<lambda>total m. total + bm_weight m) 0 ms"

definition boundary_recompute :: "boundary_generation \<Rightarrow> boundary_member list \<Rightarrow> boundary" where
  "boundary_recompute generation ms =
     \<lparr>b_generation = generation, b_members = ms,
      b_digest = digest_of (w_u64 generation @ w_size32 (length ms) @ concat (map w_member ms) @
        w_u64 (sum_weights ms))\<rparr>"

fun check_members :: "resource_id option \<Rightarrow> boundary_member list \<Rightarrow> unit result" where
  "check_members prev [] = Inr ()"
| "check_members prev (m # ms) =
     (if bm_resource m = [] then err InvalidArgument ''boundary member has empty resource id''
      else if bm_weight m > kMaxNodeWeight
        then err InvalidArgument ''boundary member weight out of range''
      else if length (bm_witness_path m) > kMaxCutCertificatePathNodes
        then err LimitExceeded ''witness path exceeds bound''
      else if prev = Some (bm_resource m) then err AlreadyExists ''duplicate boundary member''
      else check_members (Some (bm_resource m)) ms)"

definition boundary_create :: "boundary_generation \<Rightarrow> boundary_member list \<Rightarrow> boundary result" where
  "boundary_create generation members =
     (if generation = 0 then err InvalidArgument ''boundary generation must be non-zero''
      else if length members > kMaxBoundaryMembers
        then err LimitExceeded ''boundary member count exceeds bound''
      else let ms = sort_key bm_resource members in
        try_result (check_members None ms) (\<lambda>_. Inr (boundary_recompute generation ms)))"

definition boundary_find :: "boundary \<Rightarrow> resource_id \<Rightarrow> boundary_member option" where
  "boundary_find b resource =
     (let i = std_lower_bound bm_resource (b_members b) resource
      in if i = length (b_members b) \<or> bm_resource (b_members b ! i) \<noteq> resource then None
         else Some (b_members b ! i))"

definition boundary_contains :: "boundary \<Rightarrow> resource_id \<Rightarrow> bool" where
  "boundary_contains b resource \<longleftrightarrow> boundary_find b resource \<noteq> None"

definition boundary_total_weight :: "boundary \<Rightarrow> u64" where
  "boundary_total_weight b = sum_weights (b_members b)"

definition protected_member_count :: "boundary \<Rightarrow> nat" where
  "protected_member_count b = length (filter bm_protected (b_members b))"

definition is_subset_of :: "boundary \<Rightarrow> boundary \<Rightarrow> bool" where
  "is_subset_of b other \<longleftrightarrow> (\<forall>m \<in> set (b_members b). boundary_contains other (bm_resource m))"

definition is_superset_of :: "boundary \<Rightarrow> boundary \<Rightarrow> bool" where
  "is_superset_of b other = is_subset_of other b"

definition same_members :: "boundary \<Rightarrow> boundary \<Rightarrow> bool" where
  "same_members b other \<longleftrightarrow> length (b_members b) = length (b_members other) \<and>
     (\<forall>i \<in> set [0..<length (b_members b)].
        bm_resource (b_members b ! i) = bm_resource (b_members other ! i))"

definition boundary_encode :: "boundary \<Rightarrow> byte list" where
  "boundary_encode b =
     w_u64 (b_generation b) @ w_size32 (length (b_members b)) @ concat (map w_member (b_members b))"

definition read_member :: "reader \<Rightarrow> (boundary_member \<times> reader) result" where
  "read_member r =
     try_result (r_checked_id r) (\<lambda>(resource, r1).
       let (reason, r2) = r_u8 r1;
           (protected, r3) = r_boolean r2;
           (weight, r4) = r_u64 r3;
           (uses_unknown, r5) = r_boolean r4;
           (steps, r6) = r_u32 r5
       in try_result (r_check r6) (\<lambda>r7.
         case enum_decode inclusion_vals reason of
           None \<Rightarrow> err InvalidArgument ''invalid inclusion reason value''
         | Some rsn \<Rightarrow>
             if unat steps > kMaxCutCertificatePathNodes
               then err LimitExceeded ''encoded witness path exceeds bound''
             else try_result (read_loop (unat steps) r_checked_id [] r7) (\<lambda>(path, r8).
               Inr (\<lparr>bm_resource = resource, bm_reason = rsn, bm_protected = protected,
                     bm_weight = weight, bm_witness_path = path, bm_uses_unknown = uses_unknown\<rparr>, r8))))"

definition boundary_decode :: "byte list \<Rightarrow> boundary result" where
  "boundary_decode bytes =
     (let (generation, r1) = r_u64 (reader_init bytes);
          (n, r2) = r_u32 r1
      in try_result (r_check r2) (\<lambda>r3.
        if unat n > kMaxBoundaryMembers
          then err LimitExceeded ''encoded boundary member count exceeds bound''
        else try_result (read_loop (unat n) read_member [] r3) (\<lambda>(members, r4).
          try_result (r_finish r4) (\<lambda>_. boundary_create generation members))))"

subsection \<open>The class invariant\<close>

definition wf_members :: "boundary_member list \<Rightarrow> bool" where
  "wf_members ms \<longleftrightarrow> length ms \<le> kMaxBoundaryMembers \<and> sorted_wrt (<) (map bm_resource ms) \<and>
     (\<forall>m \<in> set ms. bm_resource m \<noteq> [] \<and> bm_weight m \<le> kMaxNodeWeight \<and>
        length (bm_witness_path m) \<le> kMaxCutCertificatePathNodes)"

definition wf_boundary :: "boundary \<Rightarrow> bool" where
  "wf_boundary b \<longleftrightarrow> b_generation b \<noteq> 0 \<and> wf_members (b_members b) \<and>
     b = boundary_recompute (b_generation b) (b_members b)"

lemma check_members_iff:
  "sorted (map bm_resource ms) \<Longrightarrow> (\<And>p m. prev = Some p \<Longrightarrow> m \<in> set ms \<Longrightarrow> p \<le> bm_resource m) \<Longrightarrow>
   check_members prev ms = Inr () \<longleftrightarrow>
     (\<forall>m \<in> set ms. bm_resource m \<noteq> [] \<and> bm_weight m \<le> kMaxNodeWeight \<and>
        length (bm_witness_path m) \<le> kMaxCutCertificatePathNodes) \<and>
     sorted_wrt (<) (map bm_resource ms) \<and> (\<forall>p. prev = Some p \<longrightarrow> (\<forall>m \<in> set ms. p < bm_resource m))"
proof (induction prev ms rule: check_members.induct)
  case (1 prev)
  then show ?case by simp
next
  case (2 prev m ms)
  show ?case
  proof (cases "bm_resource m = [] \<or> bm_weight m > kMaxNodeWeight \<or>
      length (bm_witness_path m) > kMaxCutCertificatePathNodes \<or> prev = Some (bm_resource m)")
    case True
    then show ?thesis by auto
  next
    case False
    have ih: "check_members (Some (bm_resource m)) ms = Inr () \<longleftrightarrow>
        (\<forall>m \<in> set ms. bm_resource m \<noteq> [] \<and> bm_weight m \<le> kMaxNodeWeight \<and>
          length (bm_witness_path m) \<le> kMaxCutCertificatePathNodes) \<and>
        sorted_wrt (<) (map bm_resource ms) \<and>
        (\<forall>p. Some (bm_resource m) = Some p \<longrightarrow> (\<forall>m \<in> set ms. p < bm_resource m))"
      using False "2.prems"(1) by (intro "2.IH") auto
    have "p < bm_resource m" if "prev = Some p" for p
      using "2.prems"(2) [OF that, of m] False that by auto
    then show ?thesis using False ih by (auto simp: not_less dest: order_less_trans)
  qed
qed

lemma boundary_create_iff:
  "boundary_create g ms = Inr b \<longleftrightarrow> g \<noteq> 0 \<and> wf_members (sort_key bm_resource ms) \<and>
     b = boundary_recompute g (sort_key bm_resource ms)"
proof -
  have c: "check_members None (sort_key bm_resource ms) = Inr () \<longleftrightarrow>
      (\<forall>m \<in> set ms. bm_resource m \<noteq> [] \<and> bm_weight m \<le> kMaxNodeWeight \<and>
        length (bm_witness_path m) \<le> kMaxCutCertificatePathNodes) \<and>
      sorted_wrt (<) (map bm_resource (sort_key bm_resource ms))"
    by (subst check_members_iff) simp_all
  show ?thesis
    by (auto simp: boundary_create_def try_result_Inr_iff wf_members_def Let_def c)
qed

lemma boundary_create_wf: "boundary_create g ms = Inr b \<Longrightarrow> wf_boundary b"
  by (auto simp: boundary_create_iff wf_boundary_def boundary_recompute_def)

lemma boundary_create_members:
  "boundary_create g ms = Inr b \<Longrightarrow> set (b_members b) = set ms \<and> b_generation b = g"
  by (auto simp: boundary_create_iff boundary_recompute_def)

lemma boundary_create_wf_members: "g \<noteq> 0 \<Longrightarrow> wf_members ms \<Longrightarrow> boundary_create g ms = Inr (boundary_recompute g ms)"
  by (simp add: boundary_create_iff sort_key_id_if_sorted wf_members_def strict_sorted_iff)

lemma boundary_contains_iff:
  assumes "wf_boundary b"
  shows "boundary_contains b r \<longleftrightarrow> r \<in> bm_resource ` set (b_members b)"
proof -
  let ?ms = "b_members b" let ?i = "std_lower_bound bm_resource ?ms r"
  have s: "sorted (map bm_resource ?ms)"
    using assms by (simp add: wf_boundary_def wf_members_def strict_sorted_iff)
  have le: "?i \<le> length ?ms" by (rule std_lower_bound_le)
  have "?i < length ?ms \<and> bm_resource (?ms ! ?i) = r" if r: "r \<in> bm_resource ` set ?ms"
  proof -
    obtain j where j: "j < length ?ms" "bm_resource (?ms ! j) = r"
      using r by (metis imageE in_set_conv_nth)
    have "\<not> j < ?i" using std_lower_bound_sorted [OF s, of j r] j(2) by auto
    then have i: "?i < length ?ms" "?i \<le> j" using j(1) by simp_all
    have "bm_resource (?ms ! ?i) \<le> r" using s i j by (auto simp: sorted_iff_nth_mono)
    moreover have "r \<le> bm_resource (?ms ! ?i)" by (rule std_lower_bound_ge [OF s order_refl i(1)])
    ultimately show ?thesis using i(1) by simp
  qed
  moreover have "r \<in> bm_resource ` set ?ms" if "?i < length ?ms" "bm_resource (?ms ! ?i) = r"
    using that nth_mem by (metis imageI)
  ultimately show ?thesis
    using le by (auto simp: boundary_contains_def boundary_find_def Let_def)
qed

lemma is_subset_of_iff:
  "wf_boundary other \<Longrightarrow> is_subset_of b other \<longleftrightarrow>
     bm_resource ` set (b_members b) \<subseteq> bm_resource ` set (b_members other)"
  by (auto simp: is_subset_of_def boundary_contains_iff)

lemma same_members_iff:
  assumes "wf_boundary b" and "wf_boundary other"
  shows "same_members b other \<longleftrightarrow>
    bm_resource ` set (b_members b) = bm_resource ` set (b_members other)"
proof -
  have s: "sorted_wrt (<) (map bm_resource (b_members b))" "sorted_wrt (<) (map bm_resource (b_members other))"
    using assms by (simp_all add: wf_boundary_def wf_members_def)
  have "same_members b other \<longleftrightarrow> map bm_resource (b_members b) = map bm_resource (b_members other)"
    unfolding same_members_def
    by (subst list_eq_iff_nth_eq) (simp add: Ball_def cong: conj_cong)
  also have "\<dots> \<longleftrightarrow> set (map bm_resource (b_members b)) = set (map bm_resource (b_members other))"
    using strict_sorted_equal [OF s] by metis
  finally show ?thesis by simp
qed

text \<open>The weight of a boundary never wraps.\<close>

lemma sum_weights_nat:
  assumes "wf_members ms"
  shows "unat (sum_weights ms) = (\<Sum>m\<leftarrow>ms. unat (bm_weight m))"
proof -
  have aux: "unat (foldl (\<lambda>total m. total + bm_weight m) w xs) = unat w + (\<Sum>m\<leftarrow>xs. unat (bm_weight m))"
    if "\<forall>m \<in> set xs. unat (bm_weight m) \<le> 1000000" "unat w + 1000000 * length xs < 2 ^ 64" for w xs
    using that
  proof (induction xs arbitrary: w)
    case (Cons m xs)
    have m: "unat (bm_weight m) \<le> 1000000" using Cons.prems by simp
    have "unat (w + bm_weight m) = unat w + unat (bm_weight m)"
      using m Cons.prems(2) by (intro unat_add_lem [THEN iffD1]) simp
    then show ?case using m Cons by simp
  qed simp
  have w: "\<forall>m \<in> set ms. unat (bm_weight m) \<le> 1000000"
    using assms by (auto simp: wf_members_def kMaxNodeWeight_def word_le_nat_alt)
  have "length ms \<le> 8192" using assms by (simp add: wf_members_def kMaxBoundaryMembers_def)
  then have "unat (0 :: u64) + 1000000 * length ms < 2 ^ 64" by simp
  from aux [OF w this] show ?thesis unfolding sum_weights_def by simp
qed

subsection \<open>Round trip\<close>

definition encodable_member :: "boundary_member \<Rightarrow> bool" where
  "encodable_member m \<longleftrightarrow> is_valid_resource_id (bm_resource m) \<and>
     (\<forall>i \<in> set (bm_witness_path m). is_valid_resource_id i) \<and>
     length (bm_witness_path m) \<le> kMaxCutCertificatePathNodes"

definition encodable_boundary :: "boundary \<Rightarrow> bool" where
  "encodable_boundary b \<longleftrightarrow> wf_boundary b \<and> (\<forall>m \<in> set (b_members b). encodable_member m)"

lemma read_member_back:
  assumes "encodable_member m"
  shows "read_member (reader_at d (w_member m @ rest)) = Inr (m, reader_at (d @ w_member m) rest)"
proof -
  have ids: "\<And>x. x \<in> set (bm_witness_path m) \<Longrightarrow> is_valid_resource_id x"
    and len: "length (bm_witness_path m) \<le> kMaxCutCertificatePathNodes"
    and res: "is_valid_resource_id (bm_resource m)"
    using assms by (simp_all add: encodable_member_def)
  have l32: "length (bm_witness_path m) < 2 ^ 32"
    using len by (simp add: kMaxCutCertificatePathNodes_def)
  show ?thesis
    unfolding read_member_def w_member_def w_ids_def w_size32_def
    using res len by (simp add: codec_simps inclusion_enum.decode_code unat_size32 [OF l32]
        not_less e_id.loop_back [OF ids])
qed

interpretation e_member: element_codec read_member w_member "\<lambda>m. m" encodable_member
  by unfold_locales (rule read_member_back)

lemma boundary_decode_encode:
  assumes "encodable_boundary b"
  shows "boundary_decode (boundary_encode b) = Inr b"
proof -
  let ?ms = "b_members b"
  have wf: "b_generation b \<noteq> 0" "wf_members ?ms" and b: "b = boundary_recompute (b_generation b) ?ms"
    and ms: "\<And>m. m \<in> set ?ms \<Longrightarrow> encodable_member m"
    using assms by (simp_all add: encodable_boundary_def wf_boundary_def)
  have bound: "length ?ms \<le> kMaxBoundaryMembers" using wf(2) by (simp add: wf_members_def)
  then have len: "length ?ms < 2 ^ 32" by (simp add: kMaxBoundaryMembers_def)
  show ?thesis
    unfolding boundary_decode_def boundary_encode_def w_size32_def
    using b by (simp add: codec_simps unat_size32 [OF len] bound not_less
        e_member.loop_back_last [OF ms] boundary_create_wf_members [OF wf])
qed

interpretation boundary_doc: document_codec boundary_encode boundary_decode encodable_boundary
  by unfold_locales (rule boundary_decode_encode)

lemma default_boundary_decode:
  "boundary_decode (boundary_encode default_boundary)
     = err InvalidArgument ''boundary generation must be non-zero''"
  by (simp add: boundary_decode_def boundary_encode_def default_boundary_def codec_simps
      w_size32_def boundary_create_def)

end
