(* ===== verification/Model_Explanation.thy ===== *)
theory Model_Explanation
  imports Core_Canonical
begin

section \<open>Explanations\<close>

text \<open>
  \<open>model/explanation.hpp\<close> and \<open>src/model/explanation.cpp\<close>. A reason code is its
  16-bit value: the decoder accepts every value up to \<open>kMaxReasonCodeValue\<close>, named or not,
  so the type is the underlying integer and the enumerators are constants. An explanation
  holds at most \<open>kMaxExplanationItems\<close> items and records when it dropped one.
\<close>

type_synonym reason_code = u16

definition RcIncompleteAdjacency :: reason_code where "RcIncompleteAdjacency = 11"
definition RcUnknownEdgesPresent :: reason_code where "RcUnknownEdgesPresent = 10"
definition RcEvidenceConflicting :: reason_code where "RcEvidenceConflicting = 13"
definition RcOptimalityProven :: reason_code where "RcOptimalityProven = 20"
definition RcFeasibilityProven :: reason_code where "RcFeasibilityProven = 21"
definition RcSearchLimitReached :: reason_code where "RcSearchLimitReached = 22"
definition RcInfeasibleCertificate :: reason_code where "RcInfeasibleCertificate = 23"
definition RcInfeasibleExhaustive :: reason_code where "RcInfeasibleExhaustive = 24"
definition RcNoFeasibleFound :: reason_code where "RcNoFeasibleFound = 25"
definition RcBoundedNotMinimal :: reason_code where "RcBoundedNotMinimal = 26"
definition RcHeuristicUsed :: reason_code where "RcHeuristicUsed = 27"
definition RcLocalMinimality :: reason_code where "RcLocalMinimality = 28"
definition RcTopologyEmpty :: reason_code where "RcTopologyEmpty = 30"
definition RcNoFailureSources :: reason_code where "RcNoFailureSources = 31"
definition RcNoProtectedObligations :: reason_code where "RcNoProtectedObligations = 32"
definition RcSourceNotContainable :: reason_code where "RcSourceNotContainable = 33"
definition RcSourceNotInTopology :: reason_code where "RcSourceNotInTopology = 38"
definition RcNotConfirmedSinceRestart :: reason_code where "RcNotConfirmedSinceRestart = 39"

definition kMaxReasonCodeValue :: reason_code where "kMaxReasonCodeValue = 98"

text \<open>The token table, with the enumerators as their durable values.\<close>

definition kReasonTokens :: "(reason_code \<times> string) list" where
  "kReasonTokens =
    [(0, ''none''), (1, ''failure_source_contained''), (2, ''cut_vertex_on_proven_path''),
     (3, ''cut_vertex_on_unknown_path''), (4, ''protected_obligation_included''),
     (5, ''shared_risk_domain_fence''), (6, ''policy_mandated_inclusion''),
     (10, ''unknown_edges_present''), (11, ''incomplete_adjacency_on_frontier''),
     (12, ''evidence_stale''), (13, ''evidence_conflicting''),
     (14, ''evidence_generation_regressed''), (15, ''adjacency_completeness_unknown''),
     (20, ''optimality_proven''), (21, ''feasibility_proven''), (22, ''search_limit_reached''),
     (23, ''infeasible_certificate_ineligible_path''), (24, ''infeasible_by_exhaustive_search''),
     (25, ''no_feasible_solution_found''), (26, ''bounded_solution_not_minimal''),
     (27, ''heuristic_construction_used''), (28, ''local_minimality_restored''),
     (30, ''topology_empty''), (31, ''no_failure_sources''), (32, ''no_protected_obligations''),
     (33, ''source_not_containable''), (34, ''protected_obligation_not_containable''),
     (35, ''weight_budget_exceeded''), (36, ''member_budget_exceeded''),
     (37, ''instance_reduced''), (38, ''failure_source_not_in_topology''),
     (39, ''evidence_not_confirmed_since_restart''), (40, ''authority_validated''),
     (41, ''authority_stale_epoch''), (42, ''authority_stale_boot''),
     (43, ''authority_stale_policy''), (44, ''authority_stale_topology''),
     (45, ''authority_stale_evidence''), (46, ''authority_fenced''),
     (47, ''authorization_required''), (50, ''apply_submitted''), (51, ''apply_acknowledged''),
     (52, ''effect_verified''), (53, ''effect_ambiguous''), (54, ''effect_not_applied''),
     (55, ''effect_verification_digest_mismatch''), (56, ''duplicate_completion_rejected''),
     (57, ''attempt_fenced_by_restart''), (58, ''attempt_sequence_regressed''),
     (59, ''applier_epoch_stale''), (70, ''transition_accepted''),
     (71, ''transition_denied_unverified_effect''), (72, ''transition_denied_active_failures''),
     (73, ''transition_stale_generation''), (74, ''transition_superseded_by_newer_plan''),
     (75, ''transition_release_requires_empty_boundary''),
     (76, ''transition_contract_not_a_subset''), (77, ''transition_expand_not_a_superset''),
     (78, ''transition_superseded''), (90, ''store_recovered''), (91, ''torn_tail_recovered''),
     (92, ''store_refused_corruption''), (93, ''store_version_unsupported''),
     (94, ''restart_epoch_advanced''), (95, ''pre_restart_attempts_fenced''),
     (96, ''pre_restart_leases_fenced''), (97, ''snapshot_committed''),
     (98, ''evidence_freshness_not_restored'')]"

definition reason_code_to_string :: "reason_code \<Rightarrow> string" where
  "reason_code_to_string c = token_of kReasonTokens ''unrecognised_reason'' c"

definition parse_reason_code :: "string \<Rightarrow> reason_code option" where
  "parse_reason_code t = parse_token kReasonTokens t"

record explanation_item =
  xi_code :: reason_code
  xi_subject :: resource_id
  xi_has_subject :: bool
  xi_value :: u64
  xi_has_value :: bool
  xi_text :: string

record explanation =
  x_items :: "explanation_item list"
  x_truncated :: bool

definition no_explanation :: explanation where
  "no_explanation = \<lparr>x_items = [], x_truncated = False\<rparr>"

definition explanation_add :: "reason_code \<Rightarrow> string \<Rightarrow> explanation \<Rightarrow> bool \<times> explanation" where
  "explanation_add code text x =
     (if length (x_items x) \<ge> kMaxExplanationItems then (False, x\<lparr>x_truncated := True\<rparr>)
      else (True, x\<lparr>x_items := x_items x @
        [\<lparr>xi_code = code, xi_subject = [], xi_has_subject = False, xi_value = 0,
          xi_has_value = False, xi_text = take (min (length text) kMaxExplanationTextLength) text\<rparr>]\<rparr>))"

definition update_last :: "('a \<Rightarrow> 'a) \<Rightarrow> 'a list \<Rightarrow> 'a list" where
  "update_last f xs = (if xs = [] then [] else butlast xs @ [f (last xs)])"

definition explanation_add_resource ::
  "reason_code \<Rightarrow> resource_id \<Rightarrow> string \<Rightarrow> explanation \<Rightarrow> bool \<times> explanation" where
  "explanation_add_resource code subject text x =
     (let (added, x1) = explanation_add code text x
      in if \<not> added then (False, x1)
         else (True, x1\<lparr>x_items := update_last
                (\<lambda>i. i\<lparr>xi_subject := subject, xi_has_subject := True\<rparr>) (x_items x1)\<rparr>))"

definition explanation_add_value ::
  "reason_code \<Rightarrow> u64 \<Rightarrow> string \<Rightarrow> explanation \<Rightarrow> bool \<times> explanation" where
  "explanation_add_value code v text x =
     (let (added, x1) = explanation_add code text x
      in if \<not> added then (False, x1)
         else (True, x1\<lparr>x_items := update_last
                (\<lambda>i. i\<lparr>xi_value := v, xi_has_value := True\<rparr>) (x_items x1)\<rparr>))"

definition explanation_add_item :: "explanation_item \<Rightarrow> explanation \<Rightarrow> bool \<times> explanation" where
  "explanation_add_item item x =
     (if length (x_items x) \<ge> kMaxExplanationItems then (False, x\<lparr>x_truncated := True\<rparr>)
      else (True, x\<lparr>x_items := x_items x @
        [if length (xi_text item) > kMaxExplanationTextLength
         then item\<lparr>xi_text := take kMaxExplanationTextLength (xi_text item)\<rparr> else item]\<rparr>))"

definition explanation_mark_truncated :: "explanation \<Rightarrow> explanation" where
  "explanation_mark_truncated x = x\<lparr>x_truncated := True\<rparr>"

definition explanation_contains :: "reason_code \<Rightarrow> explanation \<Rightarrow> bool" where
  "explanation_contains code x \<longleftrightarrow> (\<exists>i \<in> set (x_items x). xi_code i = code)"

text \<open>\<open>add_reason\<close> of the planner: the result of \<open>add\<close> is ignored.\<close>

definition add_reason :: "reason_code \<Rightarrow> string \<Rightarrow> explanation \<Rightarrow> explanation" where
  "add_reason code text x = snd (explanation_add code text x)"

subsection \<open>The bound\<close>

definition wf_explanation :: "explanation \<Rightarrow> bool" where
  "wf_explanation x \<longleftrightarrow> length (x_items x) \<le> kMaxExplanationItems \<and>
     (\<forall>i \<in> set (x_items x). length (xi_text i) \<le> kMaxExplanationTextLength)"

lemma no_explanation_wf [wf_intros, simp]: "wf_explanation no_explanation"
  by (simp add: wf_explanation_def no_explanation_def)

lemma explanation_add_wf [wf_intros]:
  "wf_explanation x \<Longrightarrow> wf_explanation (snd (explanation_add c t x))"
  by (auto simp: wf_explanation_def explanation_add_def)

lemma add_reason_wf [wf_intros]: "wf_explanation x \<Longrightarrow> wf_explanation (add_reason c t x)"
  unfolding add_reason_def by (rule explanation_add_wf)

lemma update_last_items:
  "i \<in> set (update_last f xs) \<Longrightarrow> i \<in> set xs \<or> (\<exists>j \<in> set xs. i = f j)"
  by (auto simp: update_last_def dest: in_set_butlastD split: if_splits)

lemma length_update_last [simp]: "length (update_last f xs) = length xs"
  by (simp add: update_last_def)

lemma update_last_wf:
  "wf_explanation x \<Longrightarrow> (\<And>i. xi_text (f i) = xi_text i) \<Longrightarrow>
   wf_explanation (x\<lparr>x_items := update_last f (x_items x)\<rparr>)"
  by (auto simp: wf_explanation_def dest!: update_last_items)

lemma explanation_add_resource_wf [wf_intros]:
  "wf_explanation x \<Longrightarrow> wf_explanation (snd (explanation_add_resource c s t x))"
  using explanation_add_wf [of x c t]
  by (auto simp: explanation_add_resource_def case_prod_beta Let_def intro: update_last_wf)

lemma explanation_add_value_wf [wf_intros]:
  "wf_explanation x \<Longrightarrow> wf_explanation (snd (explanation_add_value c v t x))"
  using explanation_add_wf [of x c t]
  by (auto simp: explanation_add_value_def case_prod_beta Let_def intro: update_last_wf)

lemma explanation_add_item_wf [wf_intros]:
  "wf_explanation x \<Longrightarrow> wf_explanation (snd (explanation_add_item i x))"
  by (auto simp: wf_explanation_def explanation_add_item_def)

text \<open>A dropped item is never silent: an explanation that refuses an item says so.\<close>

lemma explanation_add_refused:
  "\<not> fst (explanation_add c t x) \<Longrightarrow> x_truncated (snd (explanation_add c t x)) \<and>
     x_items (snd (explanation_add c t x)) = x_items x"
  by (auto simp: explanation_add_def split: if_splits)

lemma explanation_add_contains:
  "fst (explanation_add c t x) \<Longrightarrow> explanation_contains c (snd (explanation_add c t x))"
  by (auto simp: explanation_add_def explanation_contains_def split: if_splits)

end
