(* ===== verification/Model_Plan.thy ===== *)
theory Model_Plan
  imports Model_Authority Model_Boundary Model_Explanation
begin

section \<open>Containment plans\<close>

text \<open>
  \<open>model/plan.hpp\<close> and \<open>src/model/plan.cpp\<close> without \<open>to_json\<close>: the plan, the digest over its
  decision-bearing fields, the release rule, the canonical encoding and its decoder, which
  recomputes and compares the digest.
\<close>

datatype containment_claim =
    ClaimProvenContainment | ClaimFeasibleNotMinimal | ClaimIndeterminate | ClaimProvenInfeasible
  | ClaimInvalid | ClaimUnsupported

datatype feasibility_status = FeasibleProven | InfeasibleProven | FeasibilityUnknown

datatype optimality_status = OptimalProven | OptimalBounded | OptimalNotAttempted | OptimalNotApplicable

datatype evidence_currency =
    CurrencyCurrent | CurrencyIncompleteFrontier | CurrencyStale | CurrencyConflicting

definition kClaimTokens :: "(containment_claim \<times> string) list" where
  "kClaimTokens =
    [(ClaimProvenContainment, ''proven_containment''),
     (ClaimFeasibleNotMinimal, ''proven_feasible_not_minimal''),
     (ClaimIndeterminate, ''indeterminate''), (ClaimProvenInfeasible, ''proven_infeasible''),
     (ClaimInvalid, ''invalid''), (ClaimUnsupported, ''unsupported'')]"

definition kFeasibilityTokens :: "(feasibility_status \<times> string) list" where
  "kFeasibilityTokens =
    [(FeasibleProven, ''proven_feasible''), (InfeasibleProven, ''proven_infeasible''),
     (FeasibilityUnknown, ''unknown'')]"

definition kOptimalityTokens :: "(optimality_status \<times> string) list" where
  "kOptimalityTokens =
    [(OptimalProven, ''proven_optimal''), (OptimalBounded, ''bounded_not_proven''),
     (OptimalNotAttempted, ''not_attempted''), (OptimalNotApplicable, ''not_applicable'')]"

definition kCurrencyTokens :: "(evidence_currency \<times> string) list" where
  "kCurrencyTokens =
    [(CurrencyCurrent, ''current''), (CurrencyIncompleteFrontier, ''incomplete_frontier''),
     (CurrencyStale, ''stale''), (CurrencyConflicting, ''conflicting'')]"

definition claim_to_string :: "containment_claim \<Rightarrow> string" where
  "claim_to_string v = token_of kClaimTokens ''unrecognised_claim'' v"

definition feasibility_to_string :: "feasibility_status \<Rightarrow> string" where
  "feasibility_to_string v = token_of kFeasibilityTokens ''unrecognised_feasibility'' v"

definition optimality_to_string :: "optimality_status \<Rightarrow> string" where
  "optimality_to_string v = token_of kOptimalityTokens ''unrecognised_optimality'' v"

definition currency_to_string :: "evidence_currency \<Rightarrow> string" where
  "currency_to_string v = token_of kCurrencyTokens ''unrecognised_currency'' v"

interpretation claim_tokens: token_map kClaimTokens
proof unfold_locales
  show "x \<in> fst ` set kClaimTokens" for x by (cases x) (simp_all add: kClaimTokens_def)
qed (simp_all add: kClaimTokens_def)

interpretation feasibility_tokens: token_map kFeasibilityTokens
proof unfold_locales
  show "x \<in> fst ` set kFeasibilityTokens" for x by (cases x) (simp_all add: kFeasibilityTokens_def)
qed (simp_all add: kFeasibilityTokens_def)

interpretation optimality_tokens: token_map kOptimalityTokens
proof unfold_locales
  show "x \<in> fst ` set kOptimalityTokens" for x by (cases x) (simp_all add: kOptimalityTokens_def)
qed (simp_all add: kOptimalityTokens_def)

interpretation currency_tokens: token_map kCurrencyTokens
proof unfold_locales
  show "x \<in> fst ` set kCurrencyTokens" for x by (cases x) (simp_all add: kCurrencyTokens_def)
qed (simp_all add: kCurrencyTokens_def)

definition claim_vals :: "containment_claim list" where
  "claim_vals = [ClaimProvenContainment, ClaimFeasibleNotMinimal, ClaimIndeterminate,
     ClaimProvenInfeasible, ClaimInvalid, ClaimUnsupported]"

definition feasibility_vals :: "feasibility_status list" where
  "feasibility_vals = [FeasibleProven, InfeasibleProven, FeasibilityUnknown]"

definition optimality_vals :: "optimality_status list" where
  "optimality_vals = [OptimalProven, OptimalBounded, OptimalNotAttempted, OptimalNotApplicable]"

definition currency_vals :: "evidence_currency list" where
  "currency_vals = [CurrencyCurrent, CurrencyIncompleteFrontier, CurrencyStale, CurrencyConflicting]"

interpretation claim_enum: byte_enum claim_vals
proof unfold_locales
  show "x \<in> set claim_vals" for x by (cases x) (simp_all add: claim_vals_def)
qed (simp_all add: claim_vals_def)

interpretation feasibility_enum: byte_enum feasibility_vals
proof unfold_locales
  show "x \<in> set feasibility_vals" for x by (cases x) (simp_all add: feasibility_vals_def)
qed (simp_all add: feasibility_vals_def)

interpretation optimality_enum: byte_enum optimality_vals
proof unfold_locales
  show "x \<in> set optimality_vals" for x by (cases x) (simp_all add: optimality_vals_def)
qed (simp_all add: optimality_vals_def)

interpretation currency_enum: byte_enum currency_vals
proof unfold_locales
  show "x \<in> set currency_vals" for x by (cases x) (simp_all add: currency_vals_def)
qed (simp_all add: currency_vals_def)

subsection \<open>The plan\<close>

record search_counters =
  pc_candidate_nodes :: u64
  pc_explored_nodes :: u64
  pc_pruned_branches :: u64
  pc_residual_paths_checked :: u64
  pc_budget :: u64
  pc_budget_exhausted :: bool
  pc_heuristic_used :: bool

record infeasibility_witness =
  iw_present :: bool
  iw_path :: "resource_id list"

record containment_plan =
  p_generation :: plan_generation
  p_boundary :: boundary
  p_claim :: containment_claim
  p_feasibility :: feasibility_status
  p_optimality :: optimality_status
  p_currency :: evidence_currency
  p_authority :: authority_vector
  p_topology_digest :: digest
  p_policy_digest :: digest
  p_evidence_digest :: digest
  p_instance_digest :: digest
  p_sources :: "resource_id list"
  p_obligations :: "resource_id list"
  p_uncontainable :: "resource_id list"
  p_necessary :: "resource_id list"
  p_indeterminate_necessity :: "resource_id list"
  p_total_weight :: u64
  p_member_count :: u64
  p_counters :: search_counters
  p_infeasibility :: infeasibility_witness
  p_explanation :: explanation
  p_digest :: digest

definition w_counters :: "search_counters \<Rightarrow> byte list" where
  "w_counters c =
     w_u64 (pc_candidate_nodes c) @ w_u64 (pc_explored_nodes c) @ w_u64 (pc_pruned_branches c) @
     w_u64 (pc_residual_paths_checked c) @ w_u64 (pc_budget c) @
     w_boolean (pc_budget_exhausted c) @ w_boolean (pc_heuristic_used c)"

definition w_item_digest :: "explanation_item \<Rightarrow> byte list" where
  "w_item_digest i =
     w_u16 (xi_code i) @ w_resource_id (xi_subject i) @ w_boolean (xi_has_subject i) @
     w_u64 (xi_value i) @ w_boolean (xi_has_value i) @ w_text (xi_text i)"

definition plan_compute_digest :: "containment_plan \<Rightarrow> digest" where
  "plan_compute_digest p = digest_of
     (w_u64 (p_generation p) @ w_digest (b_digest (p_boundary p)) @
      w_u8 (enum_code claim_vals (p_claim p)) @ w_u8 (enum_code feasibility_vals (p_feasibility p)) @
      w_u8 (enum_code optimality_vals (p_optimality p)) @ w_u8 (enum_code currency_vals (p_currency p)) @
      w_digest (authority_digest (p_authority p)) @ w_digest (p_topology_digest p) @
      w_digest (p_policy_digest p) @ w_digest (p_evidence_digest p) @ w_digest (p_instance_digest p) @
      w_ids (p_sources p) @ w_ids (p_obligations p) @ w_ids (p_uncontainable p) @
      w_ids (p_necessary p) @ w_ids (p_indeterminate_necessity p) @
      w_u64 (p_total_weight p) @ w_u64 (p_member_count p) @ w_counters (p_counters p) @
      w_boolean (iw_present (p_infeasibility p)) @ w_ids (iw_path (p_infeasibility p)) @
      w_size32 (length (x_items (p_explanation p))) @
      concat (map w_item_digest (x_items (p_explanation p))) @
      w_boolean (x_truncated (p_explanation p)))"

definition seal :: "containment_plan \<Rightarrow> containment_plan" where
  "seal p = p\<lparr>p_digest := plan_compute_digest p\<rparr>"

definition is_releasable :: "containment_plan \<Rightarrow> bool" where
  "is_releasable p \<longleftrightarrow> p_claim p = ClaimProvenContainment \<and> b_members (p_boundary p) = []"

definition w_item :: "explanation_item \<Rightarrow> byte list" where
  "w_item i =
     w_u16 (xi_code i) @ w_boolean (xi_has_subject i) @
     (if xi_has_subject i then w_resource_id (xi_subject i) else []) @
     w_u64 (xi_value i) @ w_boolean (xi_has_value i) @ w_text (xi_text i)"

definition plan_encode :: "containment_plan \<Rightarrow> byte list" where
  "plan_encode p =
     w_u64 (p_generation p) @ w_blob (boundary_encode (p_boundary p)) @
     w_u8 (enum_code claim_vals (p_claim p)) @ w_u8 (enum_code feasibility_vals (p_feasibility p)) @
     w_u8 (enum_code optimality_vals (p_optimality p)) @ w_u8 (enum_code currency_vals (p_currency p)) @
     w_blob (authority_encode (p_authority p)) @ w_digest (p_topology_digest p) @
     w_digest (p_policy_digest p) @ w_digest (p_evidence_digest p) @ w_digest (p_instance_digest p) @
     w_ids (p_sources p) @ w_ids (p_obligations p) @ w_ids (p_uncontainable p) @
     w_ids (p_necessary p) @ w_ids (p_indeterminate_necessity p) @
     w_u64 (p_total_weight p) @ w_u64 (p_member_count p) @ w_counters (p_counters p) @
     w_boolean (iw_present (p_infeasibility p)) @ w_ids (iw_path (p_infeasibility p)) @
     w_size32 (length (x_items (p_explanation p))) @ concat (map w_item (x_items (p_explanation p))) @
     w_boolean (x_truncated (p_explanation p)) @ w_digest (p_digest p)"

subsection \<open>Decoder\<close>

definition read_counters :: "reader \<Rightarrow> search_counters \<times> reader" where
  "read_counters r =
     (let (candidates, r1) = r_u64 r;
          (explored, r2) = r_u64 r1;
          (pruned, r3) = r_u64 r2;
          (paths, r4) = r_u64 r3;
          (budget, r5) = r_u64 r4;
          (exhausted, r6) = r_boolean r5;
          (heuristic, r7) = r_boolean r6
      in (\<lparr>pc_candidate_nodes = candidates, pc_explored_nodes = explored,
           pc_pruned_branches = pruned, pc_residual_paths_checked = paths, pc_budget = budget,
           pc_budget_exhausted = exhausted, pc_heuristic_used = heuristic\<rparr>, r7))"

definition read_item :: "reader \<Rightarrow> (explanation_item \<times> reader) result" where
  "read_item r =
     (let (code, r1) = r_u16 r;
          (has_subject, r2) = r_boolean r1
      in try_result (r_check r2) (\<lambda>r3.
         try_result (if has_subject then r_checked_id r3 else Inr ([], r3)) (\<lambda>(subject, r4).
           let (value, r5) = r_u64 r4;
               (has_value, r6) = r_boolean r5;
               (text, r7) = r_text kMaxExplanationTextLength r6
           in try_result (r_check r7) (\<lambda>r8.
              if code > kMaxReasonCodeValue
                then err InvalidArgument ''invalid explanation reason code''
              else Inr (\<lparr>xi_code = code, xi_subject = subject, xi_has_subject = has_subject,
                         xi_value = value, xi_has_value = has_value, xi_text = text\<rparr>, r8)))))"

text \<open>The tail of the decoder: explanation, truncation flag, digest, end and digest check.\<close>

definition read_explanation :: "reader \<Rightarrow> (explanation \<times> reader) result" where
  "read_explanation r =
     (let (n, r1) = r_u32 r
      in try_result (r_check r1) (\<lambda>r2.
         if unat n > kMaxExplanationItems
           then err LimitExceeded ''encoded explanation exceeds bound''
         else try_result (read_loop (unat n) read_item [] r2) (\<lambda>(items, r3).
           let x = foldl (\<lambda>x i. snd (explanation_add_item i x)) no_explanation items;
               (truncated, r4) = r_boolean r3
           in Inr (if truncated then explanation_mark_truncated x else x, r4))))"

definition read_plan :: "byte list \<Rightarrow> containment_plan result" where
  "read_plan bytes =
     (let (generation, r1) = r_u64 (reader_init bytes);
          (boundary_bytes, r2) = r_blob kMaxRecordPayloadBytes r1;
          (claim, r3) = r_u8 r2;
          (feasibility, r4) = r_u8 r3;
          (optimality, r5) = r_u8 r4;
          (currency, r6) = r_u8 r5;
          (authority_bytes, r7) = r_blob 1024 r6;
          (topology, r8) = r_digest r7;
          (policy, r9) = r_digest r8;
          (evidence, r10) = r_digest r9;
          (inst, r11) = r_digest r10
      in try_result (r_check r11) (\<lambda>r12.
      case (enum_decode claim_vals claim, enum_decode feasibility_vals feasibility,
            enum_decode optimality_vals optimality, enum_decode currency_vals currency) of
        (Some cl, Some fe, Some op, Some cu) \<Rightarrow>
          try_result (boundary_decode boundary_bytes) (\<lambda>boundary.
          try_result (authority_decode authority_bytes) (\<lambda>authority.
          try_result (read_ids kMaxFailureSources r12) (\<lambda>(sources, r13).
          try_result (read_ids kMaxProtectedObligations r13) (\<lambda>(obligations, r14).
          try_result (read_ids kMaxFailureSources r14) (\<lambda>(uncontainable, r15).
          try_result (read_ids kMaxBoundaryMembers r15) (\<lambda>(necessary, r16).
          try_result (read_ids kMaxBoundaryMembers r16) (\<lambda>(indefinite, r17).
            let (total_weight, r18) = r_u64 r17;
                (member_count, r19) = r_u64 r18;
                (counters, r20) = read_counters r19;
                (present, r21) = r_boolean r20
            in try_result (read_ids kMaxCutCertificatePathNodes r21) (\<lambda>(path, r22).
               try_result (read_explanation r22) (\<lambda>(explanation, r23).
                 let (dig, r24) = r_digest r23
                 in try_result (r_finish r24) (\<lambda>_. Inr
                       \<lparr>p_generation = generation, p_boundary = boundary, p_claim = cl,
                         p_feasibility = fe, p_optimality = op, p_currency = cu,
                         p_authority = authority, p_topology_digest = topology,
                         p_policy_digest = policy, p_evidence_digest = evidence,
                         p_instance_digest = inst, p_sources = sources,
                         p_obligations = obligations, p_uncontainable = uncontainable,
                         p_necessary = necessary, p_indeterminate_necessity = indefinite,
                         p_total_weight = total_weight, p_member_count = member_count,
                         p_counters = counters,
                         p_infeasibility = \<lparr>iw_present = present, iw_path = path\<rparr>,
                         p_explanation = explanation, p_digest = dig\<rparr>))))))))))
      | _ \<Rightarrow> err InvalidArgument ''invalid plan enum value''))"

definition plan_decode :: "byte list \<Rightarrow> containment_plan result" where
  "plan_decode bytes =
     try_result (read_plan bytes) (\<lambda>plan.
       if p_digest plan \<noteq> plan_compute_digest plan
       then err Corrupt ''plan digest does not match its contents''
       else Inr plan)"

subsection \<open>Round trip\<close>

definition encodable_item :: "explanation_item \<Rightarrow> bool" where
  "encodable_item i \<longleftrightarrow> xi_code i \<le> kMaxReasonCodeValue \<and>
     length (xi_text i) \<le> kMaxExplanationTextLength \<and>
     (if xi_has_subject i then is_valid_resource_id (xi_subject i) else xi_subject i = [])"

definition encodable_ids :: "nat \<Rightarrow> resource_id list \<Rightarrow> bool" where
  "encodable_ids n ids \<longleftrightarrow> length ids \<le> n \<and> (\<forall>i \<in> set ids. is_valid_resource_id i)"

definition encodable_plan :: "containment_plan \<Rightarrow> bool" where
  "encodable_plan p \<longleftrightarrow>
     encodable_boundary (p_boundary p) \<and>
     length (boundary_encode (p_boundary p)) \<le> kMaxRecordPayloadBytes \<and>
     encodable_ids kMaxFailureSources (p_sources p) \<and>
     encodable_ids kMaxProtectedObligations (p_obligations p) \<and>
     encodable_ids kMaxFailureSources (p_uncontainable p) \<and>
     encodable_ids kMaxBoundaryMembers (p_necessary p) \<and>
     encodable_ids kMaxBoundaryMembers (p_indeterminate_necessity p) \<and>
     encodable_ids kMaxCutCertificatePathNodes (iw_path (p_infeasibility p)) \<and>
     wf_explanation (p_explanation p) \<and> (\<forall>i \<in> set (x_items (p_explanation p)). encodable_item i) \<and>
     p_digest p = plan_compute_digest p"

lemma read_counters_back:
  "read_counters (reader_at d (w_counters c @ rest)) = (c, reader_at (d @ w_counters c) rest)"
  by (cases c) (simp add: read_counters_def w_counters_def codec_simps)

lemma read_item_back:
  assumes "encodable_item i"
  shows "read_item (reader_at d (w_item i @ rest)) = Inr (i, reader_at (d @ w_item i) rest)"
proof -
  have t: "length (xi_text i) \<le> kMaxExplanationTextLength" "length (xi_text i) < 2 ^ 32"
    and c: "\<not> xi_code i > kMaxReasonCodeValue"
    and s: "if xi_has_subject i then is_valid_resource_id (xi_subject i) else xi_subject i = []"
    using assms by (auto simp: encodable_item_def kMaxExplanationTextLength_def)
  show ?thesis
  proof (cases "xi_has_subject i")
    case True
    then show ?thesis
      using s t c by (cases i) (simp add: read_item_def w_item_def codec_simps)
  next
    case False
    then show ?thesis
      using s t c by (cases i) (simp add: read_item_def w_item_def codec_simps)
  qed
qed

interpretation e_item: element_codec read_item w_item "\<lambda>i. i" encodable_item
  by unfold_locales (rule read_item_back)

lemma fold_items:
  "length (x_items x) + length items \<le> kMaxExplanationItems \<Longrightarrow>
   \<forall>i \<in> set items. length (xi_text i) \<le> kMaxExplanationTextLength \<Longrightarrow>
   foldl (\<lambda>x i. snd (explanation_add_item i x)) x items = x\<lparr>x_items := x_items x @ items\<rparr>"
proof (induction items arbitrary: x)
  case (Cons i items)
  then show ?case by (simp add: explanation_add_item_def)
qed simp

lemma read_explanation_back:
  assumes "wf_explanation x" and "\<And>i. i \<in> set (x_items x) \<Longrightarrow> encodable_item i"
  shows "read_explanation (reader_at d (w_size32 (length (x_items x)) @ concat (map w_item (x_items x)) @
      w_boolean (x_truncated x) @ rest))
    = Inr (x, reader_at (d @ w_size32 (length (x_items x)) @ concat (map w_item (x_items x)) @
        w_boolean (x_truncated x)) rest)"
proof -
  have bound: "length (x_items x) \<le> kMaxExplanationItems"
    and tx: "\<forall>i \<in> set (x_items x). length (xi_text i) \<le> kMaxExplanationTextLength"
    using assms(1) by (simp_all add: wf_explanation_def)
  then have len: "length (x_items x) < 2 ^ 32" by (simp add: kMaxExplanationItems_def)
  have fold: "foldl (\<lambda>x i. snd (explanation_add_item i x)) no_explanation (x_items x)
      = no_explanation\<lparr>x_items := x_items x\<rparr>"
    using fold_items [of no_explanation "x_items x"] bound tx by (simp add: no_explanation_def)
  have final: "x_truncated x \<Longrightarrow> explanation_mark_truncated (no_explanation\<lparr>x_items := x_items x\<rparr>) = x"
      "\<not> x_truncated x \<Longrightarrow> no_explanation\<lparr>x_items := x_items x\<rparr> = x"
    by (cases x; simp add: explanation_mark_truncated_def no_explanation_def)+
  show ?thesis
    unfolding read_explanation_def w_size32_def
    using bound by (simp add: codec_simps unat_size32 [OF len] not_less
        e_item.loop_back [OF assms(2)] fold final Let_def)
qed

lemma encodable_idsD:
  assumes "encodable_ids n ids"
  shows "length ids \<le> n" and "\<And>i. i \<in> set ids \<Longrightarrow> is_valid_resource_id i"
  using assms by (simp_all add: encodable_ids_def)

lemma read_ids_encodable:
  assumes "encodable_ids n ids" and "n \<le> 8192"
  shows "read_ids n (reader_at d (w_ids ids @ rest)) = Inr (ids, reader_at (d @ w_ids ids) rest)"
  using encodable_idsD [OF assms(1)] assms(2) by (intro read_ids_back) auto

lemma read_plan_encode:
  assumes "encodable_plan p"
  shows "read_plan (plan_encode p) = Inr p"
proof -
  have b: "encodable_boundary (p_boundary p)"
    and bl: "length (boundary_encode (p_boundary p)) \<le> kMaxRecordPayloadBytes"
    and x: "wf_explanation (p_explanation p)"
      "\<And>i. i \<in> set (x_items (p_explanation p)) \<Longrightarrow> encodable_item i"
    using assms by (simp_all add: encodable_plan_def)
  have bl32: "length (boundary_encode (p_boundary p)) < 2 ^ 32"
    using bl by (simp add: kMaxRecordPayloadBytes_def)
  have ids: "encodable_ids kMaxFailureSources (p_sources p)"
      "encodable_ids kMaxProtectedObligations (p_obligations p)"
      "encodable_ids kMaxFailureSources (p_uncontainable p)"
      "encodable_ids kMaxBoundaryMembers (p_necessary p)"
      "encodable_ids kMaxBoundaryMembers (p_indeterminate_necessity p)"
      "encodable_ids kMaxCutCertificatePathNodes (iw_path (p_infeasibility p))"
    using assms by (simp_all add: encodable_plan_def)
  have small: "kMaxFailureSources \<le> 8192" "kMaxProtectedObligations \<le> 8192"
      "kMaxBoundaryMembers \<le> 8192" "kMaxCutCertificatePathNodes \<le> 8192"
    by (simp_all add: limit_defs)
  note ids_back = read_ids_encodable [OF ids(1) small(1)] read_ids_encodable [OF ids(2) small(2)]
    read_ids_encodable [OF ids(3) small(1)] read_ids_encodable [OF ids(4) small(3)]
    read_ids_encodable [OF ids(5) small(3)] read_ids_encodable [OF ids(6) small(4)]
  have ab: "length (authority_encode (p_authority p)) \<le> 1024"
      "length (authority_encode (p_authority p)) < 2 ^ 32" by simp_all
  note blob = r_blob_read_back [OF bl bl32] r_blob_read_back [OF ab]
  note enums = claim_enum.decode_code feasibility_enum.decode_code optimality_enum.decode_code
    currency_enum.decode_code
  have w: "\<lparr>iw_present = iw_present (p_infeasibility p), iw_path = iw_path (p_infeasibility p)\<rparr>
      = p_infeasibility p" by simp
  let ?plan = "\<lparr>p_generation = p_generation p, p_boundary = p_boundary p, p_claim = p_claim p,
      p_feasibility = p_feasibility p, p_optimality = p_optimality p, p_currency = p_currency p,
      p_authority = p_authority p, p_topology_digest = p_topology_digest p,
      p_policy_digest = p_policy_digest p, p_evidence_digest = p_evidence_digest p,
      p_instance_digest = p_instance_digest p, p_sources = p_sources p, p_obligations = p_obligations p,
      p_uncontainable = p_uncontainable p, p_necessary = p_necessary p,
      p_indeterminate_necessity = p_indeterminate_necessity p, p_total_weight = p_total_weight p,
      p_member_count = p_member_count p, p_counters = p_counters p,
      p_infeasibility = p_infeasibility p, p_explanation = p_explanation p,
      p_digest = p_digest p\<rparr>"
  have plan: "?plan = p" by simp
  show ?thesis
    unfolding read_plan_def plan_encode_def
    by (simp only: codec_simps append_assoc Let_def prod.case try_result.simps option.case blob enums
        boundary_decode_encode [OF b] authority_decode_encode ids_back read_counters_back
        read_explanation_back [OF x] w plan)
qed

lemma plan_decode_encode: "encodable_plan p \<Longrightarrow> plan_decode (plan_encode p) = Inr p"
  by (simp add: plan_decode_def read_plan_encode encodable_plan_def)

interpretation plan_doc: document_codec plan_encode plan_decode encodable_plan
  by unfold_locales (rule plan_decode_encode)

text \<open>Whatever is decoded carries the digest of its own contents.\<close>

lemma plan_decode_sealed: "plan_decode bytes = Inr p \<Longrightarrow> seal p = p"
  by (auto simp: plan_decode_def seal_def try_result_Inr_iff split: if_splits)

lemma seal_idem: "seal (seal p) = seal p"
  by (simp add: seal_def plan_compute_digest_def)

lemma seal_digest: "p_digest (seal p) = plan_compute_digest (seal p)"
  by (simp add: seal_def plan_compute_digest_def)

end
