(* ===== verification/Model_Policy.thy ===== *)
theory Model_Policy
  imports Core_Canonical
begin

section \<open>Containment policy\<close>

text \<open>
  \<open>model/policy.hpp\<close> and \<open>src/model/policy.cpp\<close>. Every field is kept at its width
  (\<open>size_t\<close> is 64 bits). A policy that passes \<open>validate_policy\<close> can be stored and
  recovered, and nothing that fails it can be decoded.
\<close>

record containment_policy =
  cp_generation :: policy_generation
  cp_require_source :: bool
  cp_allow_protected :: bool
  cp_minimize_protected :: bool
  cp_max_weight :: u64
  cp_max_members :: u64
  cp_exact_budget :: u64
  cp_heuristic_budget :: u64
  cp_node_limit :: u64

definition policy_encode :: "containment_policy \<Rightarrow> byte list" where
  "policy_encode p =
     w_u64 (cp_generation p) @ w_boolean (cp_require_source p) @ w_boolean (cp_allow_protected p) @
     w_boolean (cp_minimize_protected p) @ w_u64 (cp_max_weight p) @ w_u64 (cp_max_members p) @
     w_u64 (cp_exact_budget p) @ w_u64 (cp_heuristic_budget p) @ w_u64 (cp_node_limit p)"

definition policy_digest :: "containment_policy \<Rightarrow> digest" where
  "policy_digest p = digest_of
     (w_u64 (cp_generation p) @ w_boolean (cp_require_source p) @ w_boolean (cp_allow_protected p) @
      w_boolean (cp_minimize_protected p) @ w_u64 (cp_max_weight p) @ w_u64 (cp_max_members p) @
      w_u64 (cp_exact_budget p) @ w_u64 (cp_heuristic_budget p) @ w_u64 (cp_node_limit p))"

definition validate_policy :: "containment_policy \<Rightarrow> unit result" where
  "validate_policy p =
     (if cp_generation p = 0 then err InvalidArgument ''policy generation must be non-zero''
      else if cp_max_members p = 0 \<or> cp_max_members p > of_nat kMaxBoundaryMembers
        then err InvalidArgument ''policy member bound out of range''
      else if cp_max_weight p = 0 \<or> cp_max_weight p > kMaxPlanWeightSum
        then err InvalidArgument ''policy weight bound out of range''
      else if cp_exact_budget p = 0 \<or> cp_heuristic_budget p = 0
        then err InvalidArgument ''policy search budget must be non-zero''
      else if cp_node_limit p = 0 \<or> cp_node_limit p > of_nat kMaxTopologyNodes
        then err InvalidArgument ''policy instance node limit out of range''
      else Inr ())"

definition policy_decode :: "byte list \<Rightarrow> containment_policy result" where
  "policy_decode bytes =
     (let (generation, r1) = r_u64 (reader_init bytes);
          (require_source, r2) = r_boolean r1;
          (allow_protected, r3) = r_boolean r2;
          (minimize_protected, r4) = r_boolean r3;
          (max_weight, r5) = r_u64 r4;
          (max_members, r6) = r_u64 r5;
          (exact_budget, r7) = r_u64 r6;
          (heuristic_budget, r8) = r_u64 r7;
          (node_limit, r9) = r_u64 r8
      in try_result (r_finish r9) (\<lambda>_.
           let policy = \<lparr>cp_generation = generation, cp_require_source = require_source,
                 cp_allow_protected = allow_protected, cp_minimize_protected = minimize_protected,
                 cp_max_weight = max_weight, cp_max_members = max_members,
                 cp_exact_budget = exact_budget, cp_heuristic_budget = heuristic_budget,
                 cp_node_limit = node_limit\<rparr>
           in try_result (validate_policy policy) (\<lambda>_. Inr policy)))"

definition empty_policy :: containment_policy where
  "empty_policy =
     \<lparr>cp_generation = 0, cp_require_source = True, cp_allow_protected = False,
      cp_minimize_protected = True, cp_max_weight = kMaxPlanWeightSum,
      cp_max_members = of_nat kMaxBoundaryMembers, cp_exact_budget = kMaxExactSearchNodesDefault,
      cp_heuristic_budget = kMaxHeuristicIterationsDefault, cp_node_limit = 4096\<rparr>"

definition default_policy :: containment_policy where
  "default_policy = empty_policy\<lparr>cp_generation := 1\<rparr>"

definition wf_policy :: "containment_policy \<Rightarrow> bool" where
  "wf_policy p \<longleftrightarrow>
     cp_generation p \<noteq> 0 \<and>
     1 \<le> unat (cp_max_members p) \<and> unat (cp_max_members p) \<le> 8192 \<and>
     1 \<le> unat (cp_max_weight p) \<and> unat (cp_max_weight p) \<le> 10 ^ 12 \<and>
     cp_exact_budget p \<noteq> 0 \<and> cp_heuristic_budget p \<noteq> 0 \<and>
     1 \<le> unat (cp_node_limit p) \<and> unat (cp_node_limit p) \<le> 65536"

lemma validate_policy_iff: "validate_policy p = Inr () \<longleftrightarrow> wf_policy p"
  by (auto simp: validate_policy_def wf_policy_def kMaxBoundaryMembers_def kMaxPlanWeightSum_def
      kMaxTopologyNodes_def not_less word_le_nat_alt word_less_nat_alt Suc_le_eq unat_gt_0)

lemma default_policy_wf: "wf_policy default_policy"
  by (simp add: wf_policy_def default_policy_def empty_policy_def kMaxPlanWeightSum_def
      kMaxBoundaryMembers_def kMaxExactSearchNodesDefault_def kMaxHeuristicIterationsDefault_def)

lemma policy_decode_encode: "wf_policy p \<Longrightarrow> policy_decode (policy_encode p) = Inr p"
  using validate_policy_iff [of p]
  by (cases p) (simp add: policy_decode_def policy_encode_def codec_simps Let_def)

lemma policy_decode_wf: "policy_decode bytes = Inr p \<Longrightarrow> wf_policy p"
  by (auto simp: policy_decode_def Let_def case_prod_beta try_result_Inr_iff validate_policy_iff)

interpretation policy_doc: document_codec policy_encode policy_decode wf_policy
  by unfold_locales (rule policy_decode_encode)

lemma policy_digest_encode: "policy_digest p = digest_of (policy_encode p)"
  by (simp add: policy_digest_def policy_encode_def)

end
