(* ===== verification/Engine_Planner.thy ===== *)
theory Engine_Planner
  imports Engine_Necessity Model_Plan Model_Policy
begin

section \<open>The containment planner\<close>

text \<open>
  \<open>engine/planner.hpp\<close> and \<open>src/engine/planner.cpp\<close>. The null checks on the input pointers
  are options. \<open>compute_plan\<close> is \<open>None\<close> only when the exact search runs out of fuel, which
  \<open>compute_plan_total\<close> excludes. Its branches are the definitions below, in source order:
  nothing failed, every source unknown, nothing to protect, and the solved instance.
\<close>

definition kNecessityCandidateLimit :: nat where "kNecessityCandidateLimit = 64"

record freshness_view =
  fv_confirmations :: "(resource_id \<times> boot_id) list option"
  fv_current_boot :: boot_identity
  fv_require_confirmation :: bool

record plan_inputs =
  in_topology :: "topology option"
  in_graph :: "graph option"
  in_evidence :: "evidence_vector option"
  in_policy :: "containment_policy option"
  in_freshness :: freshness_view
  in_boundary_generation :: boundary_generation

record plan_computation =
  pl_plan :: containment_plan
  pl_problem :: "problem option"

fun confirmation_matches :: "boot_id \<Rightarrow> resource_id \<Rightarrow> (resource_id \<times> boot_id) list \<Rightarrow> bool" where
  "confirmation_matches boot resource [] = False"
| "confirmation_matches boot resource ((r, b) # entries) =
     (if r = resource then b = boot else confirmation_matches boot resource entries)"

definition confirmed_in_current_boot :: "freshness_view \<Rightarrow> resource_id \<Rightarrow> bool" where
  "confirmed_in_current_boot freshness resource =
     (case fv_confirmations freshness of
        None \<Rightarrow> False
      | Some entries \<Rightarrow> confirmation_matches (boot_bid (fv_current_boot freshness)) resource entries)"

subsection \<open>Sources, obligations and currency\<close>

definition known_sources :: "topology \<Rightarrow> evidence_vector \<Rightarrow> resource_id list" where
  "known_sources t v = sort (filter (\<lambda>r. topology_find t r \<noteq> None) (present_resources v))"

definition missing_sources :: "topology \<Rightarrow> evidence_vector \<Rightarrow> resource_id list" where
  "missing_sources t v = sort (filter (\<lambda>r. topology_find t r = None) (present_resources v))"

definition not_confirmed_since_restart :: "freshness_view \<Rightarrow> evidence_vector \<Rightarrow> bool" where
  "not_confirmed_since_restart freshness v \<longleftrightarrow>
     (\<exists>r \<in> set (present_resources v).
        fv_require_confirmation freshness \<and> \<not> confirmed_in_current_boot freshness r)"

definition protected_obligations :: "topology \<Rightarrow> resource_id list" where
  "protected_obligations t = map ns_id (filter ns_protected (t_nodes t))"

definition initial_currency :: "topology \<Rightarrow> freshness_view \<Rightarrow> evidence_vector \<Rightarrow> evidence_currency" where
  "initial_currency t freshness v =
     (if missing_sources t v \<noteq> [] then CurrencyIncompleteFrontier
      else if not_confirmed_since_restart freshness v then CurrencyStale
      else CurrencyCurrent)"

definition zero_search_counters :: search_counters where
  "zero_search_counters =
     \<lparr>pc_candidate_nodes = 0, pc_explored_nodes = 0, pc_pruned_branches = 0,
      pc_residual_paths_checked = 0, pc_budget = 0, pc_budget_exhausted = False,
      pc_heuristic_used = False\<rparr>"

text \<open>The plan before the first branch: the defaults of \<open>ContainmentPlan\<close> and the bindings.\<close>

definition base_plan :: "topology \<Rightarrow> evidence_vector \<Rightarrow> containment_policy \<Rightarrow> authority_vector \<Rightarrow>
    plan_generation \<Rightarrow> containment_plan" where
  "base_plan t v policy authority generation =
     \<lparr>p_generation = generation, p_boundary = default_boundary, p_claim = ClaimIndeterminate,
      p_feasibility = FeasibilityUnknown, p_optimality = OptimalNotAttempted,
      p_currency = CurrencyCurrent, p_authority = authority, p_topology_digest = t_digest t,
      p_policy_digest = policy_digest policy, p_evidence_digest = ev_digest v,
      p_instance_digest = zero_digest, p_sources = known_sources t v,
      p_obligations = protected_obligations t, p_uncontainable = [], p_necessary = [],
      p_indeterminate_necessity = [], p_total_weight = 0, p_member_count = 0,
      p_counters = zero_search_counters, p_infeasibility = \<lparr>iw_present = False, iw_path = []\<rparr>,
      p_explanation = no_explanation, p_digest = zero_digest\<rparr>"

definition add_resource_reasons :: "reason_code \<Rightarrow> string \<Rightarrow> resource_id list \<Rightarrow> explanation \<Rightarrow> explanation" where
  "add_resource_reasons code text ids x =
     foldl (\<lambda>x i. snd (explanation_add_resource code i text x)) x ids"

definition set_boundary :: "boundary \<Rightarrow> containment_plan \<Rightarrow> containment_plan" where
  "set_boundary b plan = plan\<lparr>p_boundary := b, p_total_weight := boundary_total_weight b,
     p_member_count := of_nat (length (b_members b))\<rparr>"

subsection \<open>Branches without a search\<close>

definition plan_no_failures :: "topology \<Rightarrow> boundary_generation \<Rightarrow> containment_plan \<Rightarrow> containment_plan result" where
  "plan_no_failures t boundary_gen plan =
     try_result (boundary_create boundary_gen []) (\<lambda>boundary.
       Inr (seal (plan\<lparr>p_boundary := boundary, p_claim := ClaimProvenContainment,
         p_feasibility := FeasibleProven, p_optimality := OptimalProven,
         p_currency := CurrencyCurrent,
         p_explanation :=
           add_reason RcOptimalityProven ''empty containment is minimal''
             (add_reason RcFeasibilityProven ''empty containment satisfies the policy''
               (add_reason RcNoFailureSources ''no authoritative failure evidence is current''
                 (p_explanation plan))),
         p_instance_digest := digest_of (w_digest (t_digest t) @ w_boolean True)\<rparr>)))"

definition plan_all_missing :: "resource_id list \<Rightarrow> boundary_generation \<Rightarrow> containment_plan \<Rightarrow> containment_plan result" where
  "plan_all_missing missing boundary_gen plan =
     try_result (boundary_create boundary_gen []) (\<lambda>boundary.
       Inr (seal (plan\<lparr>p_boundary := boundary, p_claim := ClaimIndeterminate,
         p_feasibility := FeasibilityUnknown, p_optimality := OptimalNotAttempted,
         p_currency := CurrencyIncompleteFrontier,
         p_explanation := add_resource_reasons RcSourceNotInTopology
           ''failure source is absent from the known topology'' missing (p_explanation plan)\<rparr>)))"

text \<open>The members and the uncontainable sources of the branch with nothing to protect.\<close>

fun source_members :: "topology \<Rightarrow> resource_id list \<Rightarrow> boundary_member list \<times> resource_id list" where
  "source_members t [] = ([], [])"
| "source_members t (i # ids) =
     (let (members, uncontainable) = source_members t ids
      in case topology_find t i of
           None \<Rightarrow> (members, uncontainable)
         | Some index \<Rightarrow>
             let node = t_nodes t ! index
             in if \<not> ns_containable node then (members, i # uncontainable)
                else (\<lparr>bm_resource = i, bm_reason = IncFailureSource, bm_protected = False,
                       bm_weight = ns_weight node, bm_witness_path = [],
                       bm_uses_unknown = False\<rparr> # members, uncontainable))"

definition plan_no_obligations :: "topology \<Rightarrow> containment_policy \<Rightarrow> evidence_currency \<Rightarrow>
    boundary_generation \<Rightarrow> containment_plan \<Rightarrow> containment_plan result" where
  "plan_no_obligations t policy currency boundary_gen plan =
     (let (members, uncontainable) = source_members t (p_sources plan)
      in try_result (boundary_create boundary_gen members) (\<lambda>boundary.
        let plan1 = (set_boundary boundary plan)\<lparr>p_uncontainable := uncontainable,
              p_currency := currency,
              p_explanation := add_reason RcOptimalityProven ''only mandatory failure sources are contained''
                (add_reason RcNoProtectedObligations
                  ''no protected obligations are declared for this topology'' (p_explanation plan))\<rparr>;
            sources_ok = (\<not> cp_require_source policy \<or> uncontainable = [])
        in if sources_ok \<and> currency = CurrencyCurrent
           then Inr (seal (plan1\<lparr>p_claim := ClaimProvenContainment,
                  p_feasibility := FeasibleProven, p_optimality := OptimalProven\<rparr>))
           else let x = add_resource_reasons RcSourceNotContainable
                    ''failure source is not eligible for containment'' uncontainable (p_explanation plan1)
             in Inr (seal (plan1\<lparr>p_claim := ClaimIndeterminate,
                  p_feasibility := (if currency = CurrencyCurrent then FeasibleProven else FeasibilityUnknown),
                  p_optimality := OptimalProven,
                  p_explanation := (if currency \<noteq> CurrencyCurrent
                    then add_reason RcIncompleteAdjacency ''evidence currency is not current'' x
                    else x)\<rparr>))))"

subsection \<open>The solved instance\<close>

definition planner_spec :: "topology \<Rightarrow> evidence_vector \<Rightarrow> containment_policy \<Rightarrow> instance_spec" where
  "planner_spec t v policy =
     \<lparr>sp_sources = known_sources t v, sp_protected = protected_obligations t,
      sp_forced_ineligible = [], sp_require_source = cp_require_source policy,
      sp_allow_protected = cp_allow_protected policy,
      sp_minimize_protected = cp_minimize_protected policy,
      sp_max_weight = cp_max_weight policy, sp_max_members = unat (cp_max_members policy)\<rparr>"

definition incomplete_frontier :: "topology \<Rightarrow> problem \<Rightarrow> nat" where
  "incomplete_frontier t p =
     length (filter (\<lambda>i. ns_completeness (t_nodes t ! i) \<noteq> AdjComplete) (pr_frontier p))"

definition unknown_on_frontier :: "graph \<Rightarrow> problem \<Rightarrow> nat" where
  "unknown_on_frontier g p = length (filter (touches_unknown_edge g) (pr_frontier p))"

definition frontier_currency :: "topology \<Rightarrow> problem \<Rightarrow> evidence_currency \<Rightarrow> evidence_currency" where
  "frontier_currency t p currency =
     (if incomplete_frontier t p > 0 \<and> currency = CurrencyCurrent then CurrencyIncompleteFrontier
      else currency)"

definition frontier_explanation :: "topology \<Rightarrow> graph \<Rightarrow> problem \<Rightarrow> evidence_currency \<Rightarrow> explanation \<Rightarrow> explanation" where
  "frontier_explanation t g p currency x =
     (let x1 = (if incomplete_frontier t p > 0 \<and> currency = CurrencyCurrent
            then snd (explanation_add_value RcIncompleteAdjacency (of_nat (incomplete_frontier t p))
              ''adjacency information is incomplete on the propagation frontier'' x)
            else x)
      in if unknown_on_frontier g p > 0
         then snd (explanation_add_value RcUnknownEdgesPresent (of_nat (g_unknown_count g))
              ''UNKNOWN edges are conservatively treated as present'' x1)
         else x1)"

definition counters_of :: "solve_counters \<Rightarrow> search_counters" where
  "counters_of c =
     \<lparr>pc_candidate_nodes = sc_candidate_nodes c, pc_explored_nodes = sc_explored_nodes c,
      pc_pruned_branches = sc_pruned_branches c,
      pc_residual_paths_checked = sc_residual_paths_checked c, pc_budget = sc_budget c,
      pc_budget_exhausted = sc_budget_exhausted c, pc_heuristic_used = sc_heuristic_used c\<rparr>"

definition planner_keeps :: "problem \<Rightarrow> nat \<Rightarrow> bool" where
  "planner_keeps p node \<longleftrightarrow> is_source p node \<and> pr_require_source p"

definition planned_members :: "problem \<Rightarrow> cut_solution \<Rightarrow> nat list" where
  "planned_members p sol = restore_minimality (planner_keeps p) p 0 (sort (cs_members sol))"

text \<open>One boundary member with its witness path.\<close>

definition boundary_entry :: "problem \<Rightarrow> nat list \<Rightarrow> nat \<Rightarrow> boundary_member" where
  "boundary_entry p members member =
     (let base = \<lparr>bm_resource = pr_resource_ids p ! member,
            bm_reason = (if is_source p member then IncFailureSource else IncProvenPath),
            bm_protected = is_protected p member, bm_weight = weight p member,
            bm_witness_path = [], bm_uses_unknown = False\<rparr>;
          others = filter (\<lambda>other. other \<noteq> member) members;
          (path, uses_unknown) = find_witness_path p others
      in if path \<noteq> [] \<and> member \<in> set path
         then base\<lparr>bm_witness_path := ids_at p path, bm_uses_unknown := uses_unknown,
                bm_reason := (if \<not> is_source p member
                  then (if uses_unknown then IncUnknownPath else IncProvenPath)
                  else bm_reason base)\<rparr>
         else base)"

definition claim_for :: "containment_policy \<Rightarrow> evidence_currency \<Rightarrow> resource_id list \<Rightarrow> bool \<Rightarrow> containment_claim" where
  "claim_for policy currency uncontainable optimal =
     (if currency \<noteq> CurrencyCurrent then ClaimIndeterminate
      else if cp_require_source policy \<and> uncontainable \<noteq> [] then ClaimIndeterminate
      else if \<not> optimal then ClaimFeasibleNotMinimal
      else ClaimProvenContainment)"

definition claim_explanation :: "containment_policy \<Rightarrow> evidence_currency \<Rightarrow> resource_id list \<Rightarrow> explanation \<Rightarrow> explanation" where
  "claim_explanation policy currency uncontainable x =
     (if currency \<noteq> CurrencyCurrent
        then (if currency = CurrencyStale
              then add_reason RcNotConfirmedSinceRestart
                     ''present evidence has not been confirmed in this boot'' x
              else add_reason RcIncompleteAdjacency
                     ''adjacency completeness prevents a containment claim'' x)
      else if cp_require_source policy \<and> uncontainable \<noteq> []
        then add_reason RcSourceNotContainable ''a required failure source cannot be contained'' x
      else x)"

definition optimality_explanation :: "cut_solution \<Rightarrow> explanation \<Rightarrow> explanation" where
  "optimality_explanation sol x =
     (let x1 = add_reason RcFeasibilityProven ''an independent verifier accepted the containment set'' x;
          x2 = (if cs_status sol = SolvedOptimal
            then add_reason RcOptimalityProven ''exhaustive search proved the objective is minimal'' x1
            else add_reason RcSearchLimitReached ''optimality is not claimed for this plan''
              (add_reason RcBoundedNotMinimal ''search budget ended before optimality was proven'' x1))
      in if \<not> sc_heuristic_used (cs_counters sol)
         then add_reason RcLocalMinimality ''each member is load-bearing'' x2 else x2)"

text \<open>The case of a solution: \<open>None\<close> is the fuel of the necessity analysis.\<close>

definition plan_solution :: "containment_policy \<Rightarrow> problem \<Rightarrow> solve_budget \<Rightarrow> boundary_generation \<Rightarrow>
    cut_solution \<Rightarrow> containment_plan \<Rightarrow> containment_plan result option" where
  "plan_solution policy p budget boundary_gen sol plan =
     (let members = planned_members p sol
      in case boundary_create boundary_gen (map (boundary_entry p members) members) of
           Inl e \<Rightarrow> Some (Inl e)
         | Inr boundary \<Rightarrow>
             let optimal = (cs_status sol = SolvedOptimal);
                 plan1 = (set_boundary boundary plan)\<lparr>p_feasibility := FeasibleProven,
                   p_optimality := (if optimal then OptimalProven else OptimalBounded),
                   p_claim := claim_for policy (p_currency plan) (p_uncontainable plan) optimal,
                   p_explanation := claim_explanation policy (p_currency plan) (p_uncontainable plan)
                     (optimality_explanation sol (p_explanation plan))\<rparr>
             in if length (pr_candidates p) \<le> kNecessityCandidateLimit
                then (case analyze_necessity p members budget of
                        None \<Rightarrow> None
                      | Some necessity \<Rightarrow> Some (Inr (plan1\<lparr>
                          p_necessary := ids_at p (nr_proven_necessary necessity),
                          p_indeterminate_necessity := ids_at p (nr_indeterminate necessity)\<rparr>)))
                else Some (Inr plan1))"

definition plan_infeasible :: "problem \<Rightarrow> cut_solution \<Rightarrow> containment_plan \<Rightarrow> containment_plan" where
  "plan_infeasible p sol plan =
     plan\<lparr>p_feasibility := InfeasibleProven, p_optimality := OptimalNotApplicable,
       p_claim := ClaimProvenInfeasible,
       p_infeasibility := \<lparr>iw_present = cs_has_witness sol,
         iw_path = ids_at p (cs_infeasibility_path sol)\<rparr>,
       p_explanation := (if cs_has_witness sol
         then add_reason RcInfeasibleCertificate
                ''a source-to-obligation path carries no eligible containment member'' (p_explanation plan)
         else add_reason RcInfeasibleExhaustive
                ''exhaustive search found no feasible containment set'' (p_explanation plan))\<rparr>"

definition plan_limit :: "containment_plan \<Rightarrow> containment_plan" where
  "plan_limit plan =
     plan\<lparr>p_feasibility := FeasibilityUnknown, p_optimality := OptimalNotAttempted,
       p_claim := ClaimIndeterminate,
       p_explanation := add_reason RcNoFeasibleFound
         ''feasibility is unknown; this is not an infeasibility proof''
         (add_reason RcSearchLimitReached ''search ended without a feasible containment set''
           (p_explanation plan))\<rparr>"

definition plan_invalid :: "containment_plan \<Rightarrow> containment_plan" where
  "plan_invalid plan =
     plan\<lparr>p_feasibility := FeasibilityUnknown, p_optimality := OptimalNotAttempted,
       p_claim := ClaimInvalid,
       p_explanation := add_reason RcTopologyEmpty ''instance could not be built'' (p_explanation plan)\<rparr>"

text \<open>Everything after the instance is built.\<close>

definition prepare_plan :: "topology \<Rightarrow> graph \<Rightarrow> problem \<Rightarrow> evidence_currency \<Rightarrow> cut_solution \<Rightarrow>
    containment_plan \<Rightarrow> containment_plan" where
  "prepare_plan t g p currency sol plan =
     (let uncontainable = ids_at p (pr_uncontainable_sources p);
          x = frontier_explanation t g p currency (p_explanation plan);
          x1 = (if sc_heuristic_used (cs_counters sol)
            then add_reason RcHeuristicUsed ''instance exceeds the exact-search node limit'' x else x)
      in plan\<lparr>p_instance_digest := pr_digest p, p_currency := frontier_currency t p currency,
           p_counters := counters_of (cs_counters sol), p_uncontainable := uncontainable,
           p_explanation := add_resource_reasons RcSourceNotContainable
             ''failure source is not eligible for containment'' uncontainable x1\<rparr>)"

definition plan_solved :: "topology \<Rightarrow> graph \<Rightarrow> containment_policy \<Rightarrow> problem \<Rightarrow> evidence_currency \<Rightarrow>
    boundary_generation \<Rightarrow> containment_plan \<Rightarrow> containment_plan result option" where
  "plan_solved t g policy p currency boundary_gen plan =
     (let budget = \<lparr>sb_max_explored = cp_exact_budget policy, sb_max_iterations = cp_heuristic_budget policy\<rparr>
      in case solve p budget (unat (cp_node_limit policy)) of
           None \<Rightarrow> None
         | Some sol \<Rightarrow>
             let plan1 = prepare_plan t g p currency sol plan
             in (case cs_status sol of
                   SolvedInfeasible \<Rightarrow> Some (Inr (plan_infeasible p sol plan1))
                 | SolveLimitReached \<Rightarrow> Some (Inr (plan_limit plan1))
                 | SolveInvalid \<Rightarrow> Some (Inr (plan_invalid plan1))
                 | _ \<Rightarrow> plan_solution policy p budget boundary_gen sol plan1))"

definition computation :: "problem option \<Rightarrow> containment_plan result \<Rightarrow> plan_computation result" where
  "computation problem r = try_result r (\<lambda>plan. Inr \<lparr>pl_plan = plan, pl_problem = problem\<rparr>)"

definition compute_plan :: "plan_inputs \<Rightarrow> authority_vector \<Rightarrow> plan_generation \<Rightarrow>
    plan_computation result option" where
  "compute_plan inputs authority generation =
     (case (in_topology inputs, in_graph inputs, in_evidence inputs, in_policy inputs) of
        (Some t, Some g, Some v, Some policy) \<Rightarrow>
          let plan = base_plan t v policy authority generation;
              gen = in_boundary_generation inputs;
              currency = initial_currency t (in_freshness inputs) v
          in if known_sources t v = [] \<and> missing_sources t v = []
               then Some (computation None (plan_no_failures t gen plan))
             else if known_sources t v = []
               then Some (computation None (plan_all_missing (missing_sources t v) gen plan))
             else if protected_obligations t = []
               then Some (computation None (plan_no_obligations t policy currency gen plan))
             else (case problem_build g (planner_spec t v policy) of
                 Inl e \<Rightarrow> Some (Inl e)
               | Inr p \<Rightarrow>
                   (case plan_solved t g policy p currency gen plan of
                      None \<Rightarrow> None
                    | Some r \<Rightarrow> Some (computation (Some p) (try_result r (\<lambda>plan. Inr (seal plan))))))
      | _ \<Rightarrow> Some (err InvalidArgument ''planner requires topology, graph, evidence, and policy''))"

subsection \<open>Valid inputs and the branches\<close>

definition valid_inputs :: "plan_inputs \<Rightarrow> topology \<Rightarrow> evidence_vector \<Rightarrow> containment_policy \<Rightarrow> bool" where
  "valid_inputs inputs t v policy \<longleftrightarrow>
     in_topology inputs = Some t \<and> wf_topology t \<and> in_graph inputs = Some (graph_build t) \<and>
     in_evidence inputs = Some v \<and> in_policy inputs = Some policy"

lemma seal_fields [simp]:
  "p_claim (seal p) = p_claim p" "p_boundary (seal p) = p_boundary p" "p_currency (seal p) = p_currency p"
  "p_infeasibility (seal p) = p_infeasibility p" "p_optimality (seal p) = p_optimality p"
  "p_feasibility (seal p) = p_feasibility p" "p_uncontainable (seal p) = p_uncontainable p"
  "p_necessary (seal p) = p_necessary p" "p_sources (seal p) = p_sources p"
  by (simp_all add: seal_def)

lemma plan_solved_total:
  assumes "built_from t p"
  shows "\<exists>r. plan_solved t g policy p currency gen plan = Some r"
proof -
  note wf = built_from_wf [OF assms]
  let ?budget = "\<lparr>sb_max_explored = cp_exact_budget policy, sb_max_iterations = cp_heuristic_budget policy\<rparr>"
  obtain sol where sol: "solve p ?budget (unat (cp_node_limit policy)) = Some sol"
    using solve_total [OF wf] by blast
  have "\<exists>r. plan_solution policy p ?budget gen sol plan' = Some r" for plan'
    using analyze_necessity_spec [OF assms, of "planned_members p sol" ?budget]
    by (auto simp: plan_solution_def Let_def split: sum.splits)
  then show ?thesis
    by (cases "cs_status sol") (simp_all add: plan_solved_def sol Let_def)
qed

lemma compute_plan_total:
  assumes "valid_inputs inputs t v policy"
  shows "\<exists>r. compute_plan inputs authority generation = Some r"
proof (cases "problem_build (graph_build t) (planner_spec t v policy)")
  case (Inl e)
  then show ?thesis using assms by (simp add: compute_plan_def valid_inputs_def Let_def)
next
  case (Inr p)
  then have b: "built_from t p" using assms by (auto simp: built_from_def valid_inputs_def)
  obtain r where "plan_solved t (graph_build t) policy p (initial_currency t (in_freshness inputs) v)
      (in_boundary_generation inputs) (base_plan t v policy authority generation) = Some r"
    using plan_solved_total [OF b] by blast
  then show ?thesis using assms Inr by (simp add: compute_plan_def valid_inputs_def Let_def)
qed

text \<open>The four ways a plan is produced from valid inputs.\<close>

lemma compute_plan_cases:
  assumes inp: "valid_inputs inputs t v policy"
    and c: "compute_plan inputs authority generation = Some (Inr c)"
  obtains (quiet) "present_resources v = []"
      "plan_no_failures t (in_boundary_generation inputs) (base_plan t v policy authority generation) = Inr (pl_plan c)"
    | (missing) "known_sources t v = []" "missing_sources t v \<noteq> []"
      "plan_all_missing (missing_sources t v) (in_boundary_generation inputs)
        (base_plan t v policy authority generation) = Inr (pl_plan c)"
    | (unprotected) "known_sources t v \<noteq> []" "protected_obligations t = []"
      "plan_no_obligations t policy (initial_currency t (in_freshness inputs) v) (in_boundary_generation inputs)
        (base_plan t v policy authority generation) = Inr (pl_plan c)"
    | (solved) p plan where "pl_problem c = Some p" "problem_build (graph_build t) (planner_spec t v policy) = Inr p"
      "plan_solved t (graph_build t) policy p (initial_currency t (in_freshness inputs) v)
        (in_boundary_generation inputs) (base_plan t v policy authority generation) = Some (Inr plan)"
      "pl_plan c = seal plan"
proof (cases "known_sources t v = []")
  case True
  show thesis
  proof (cases "missing_sources t v = []")
    case m: True
    have "r \<notin> set (present_resources v)" for r
      using True m
      by (cases "topology_find t r")
        (auto simp: known_sources_def missing_sources_def sort_eq_Nil_iff filter_empty_conv)
    then have "present_resources v = []" by (cases "present_resources v") auto
    then show thesis using quiet True m inp c
      by (auto simp: compute_plan_def valid_inputs_def computation_def try_result_Inr_iff)
  next
    case False
    then show thesis using missing True inp c
      by (auto simp: compute_plan_def valid_inputs_def computation_def try_result_Inr_iff)
  qed
next
  case False
  show thesis
  proof (cases "protected_obligations t = []")
    case True
    then show thesis using unprotected False inp c
      by (auto simp: compute_plan_def valid_inputs_def computation_def try_result_Inr_iff)
  next
    case ob: False
    then obtain p where p: "problem_build (graph_build t) (planner_spec t v policy) = Inr p"
      using False inp c by (cases "problem_build (graph_build t) (planner_spec t v policy)")
        (auto simp: compute_plan_def valid_inputs_def)
    then obtain r where r: "plan_solved t (graph_build t) policy p (initial_currency t (in_freshness inputs) v)
        (in_boundary_generation inputs) (base_plan t v policy authority generation) = Some r"
      using plan_solved_total inp by (metis built_from_def valid_inputs_def)
    then have "computation (Some p) (try_result r (\<lambda>plan. Inr (seal plan))) = Inr c"
      using inp c False ob p by (simp add: compute_plan_def valid_inputs_def Let_def)
    then obtain plan where "r = Inr plan" "pl_problem c = Some p" "pl_plan c = seal plan"
      by (auto simp: computation_def try_result_Inr_iff)
    then show thesis using solved p r by blast
  qed
qed

lemma compute_plan_sealed:
  assumes "valid_inputs inputs t v policy"
    and "compute_plan inputs authority generation = Some (Inr c)"
  shows "seal (pl_plan c) = pl_plan c"
  using assms
proof (cases rule: compute_plan_cases)
  case quiet
  then obtain x where "seal x = pl_plan c" by (auto simp: plan_no_failures_def try_result_Inr_iff)
  then show ?thesis by (metis seal_idem)
next
  case missing
  then obtain x where "seal x = pl_plan c" by (auto simp: plan_all_missing_def try_result_Inr_iff)
  then show ?thesis by (metis seal_idem)
next
  case unprotected
  then obtain x where "seal x = pl_plan c"
    by (auto simp: plan_no_obligations_def Let_def case_prod_beta try_result_Inr_iff split: if_splits)
  then show ?thesis by (metis seal_idem)
next
  case (solved p plan)
  then show ?thesis by (simp add: seal_idem)
qed

subsection \<open>The planned members\<close>

lemma planned_members_spec:
  assumes wf: "wf_problem p" and sol: "solve p budget limit = Some sol" and has: "has_solution sol"
  shows "distinct (planned_members p sol)" and "feasible p (set (planned_members p sol))"
    and "sorted (planned_members p sol)" and "set (planned_members p sol) \<subseteq> set (cs_members sol)"
    and "\<And>x. x \<in> set (planned_members p sol) \<Longrightarrow>
      planner_keeps p x \<or> \<not> droppable p (set (planned_members p sol)) x"
proof -
  have s: "distinct (cs_members sol)" "feasible p (set (cs_members sol))"
    using solve_feasible [OF wf sol has] by simp_all
  have "let r = planned_members p sol in distinct r \<and> set r \<subseteq> set (sort (cs_members sol)) \<and>
      feasible p (set r) \<and> (sorted (sort (cs_members sol)) \<longrightarrow> sorted r) \<and>
      (\<forall>x \<in> set r. planner_keeps p x \<or> \<not> droppable p (set r) x)"
    unfolding planned_members_def using s by (intro restore_minimality_spec [OF wf]) simp_all
  then show "distinct (planned_members p sol)" "feasible p (set (planned_members p sol))"
    "sorted (planned_members p sol)" "set (planned_members p sol) \<subseteq> set (cs_members sol)"
    "\<And>x. x \<in> set (planned_members p sol) \<Longrightarrow>
      planner_keeps p x \<or> \<not> droppable p (set (planned_members p sol)) x"
    by (simp_all add: Let_def)
qed

lemma planned_members_optimal:
  assumes wf: "wf_problem p" and snd: "sound_instance p" and sol: "solve p budget limit = Some sol"
    and opt: "cs_status sol = SolvedOptimal" and C: "feasible p C"
  shows "exact_key p (pr_minimize_protected p) (set (planned_members p sol))
    \<le> exact_key p (pr_minimize_protected p) C"
proof -
  have has: "has_solution sol" using opt by (simp add: has_solution_def)
  have "exact_key p (pr_minimize_protected p) (set (planned_members p sol))
      \<le> exact_key p (pr_minimize_protected p) (set (cs_members sol))"
    using planned_members_spec(4) [OF wf sol has] by (intro exact_key_mono) simp_all
  also have "\<dots> \<le> exact_key p (pr_minimize_protected p) C"
    by (rule solve_optimal [OF wf snd sol opt C])
  finally show ?thesis .
qed

lemma boundary_entry_resource [simp]: "bm_resource (boundary_entry p ms x) = pr_resource_ids p ! x"
  by (simp add: boundary_entry_def Let_def split: prod.splits)

text \<open>The plan of a solved instance: its claim, its currency and its boundary.\<close>

definition planner_budget :: "containment_policy \<Rightarrow> solve_budget" where
  "planner_budget policy =
     \<lparr>sb_max_explored = cp_exact_budget policy, sb_max_iterations = cp_heuristic_budget policy\<rparr>"

lemma plan_solution_result:
  assumes "plan_solution policy p budget gen sol plan = Some (Inr plan')"
  shows "boundary_create gen (map (boundary_entry p (planned_members p sol)) (planned_members p sol))
      = Inr (p_boundary plan')"
    and "p_claim plan' = claim_for policy (p_currency plan) (p_uncontainable plan) (cs_status sol = SolvedOptimal)"
    and "p_currency plan' = p_currency plan" and "p_uncontainable plan' = p_uncontainable plan"
    and "p_feasibility plan' = FeasibleProven"
    and "p_optimality plan' = (if cs_status sol = SolvedOptimal then OptimalProven else OptimalBounded)"
    and "p_total_weight plan' = boundary_total_weight (p_boundary plan')"
    and "p_member_count plan' = of_nat (length (b_members (p_boundary plan')))"
    and "p_infeasibility plan' = p_infeasibility plan"
    and "length (pr_candidates p) \<le> kNecessityCandidateLimit \<Longrightarrow>
      \<exists>n. analyze_necessity p (planned_members p sol) budget = Some n \<and>
        p_necessary plan' = ids_at p (nr_proven_necessary n)"
  using assms
  by (auto simp: plan_solution_def Let_def set_boundary_def split: sum.splits if_splits option.splits)

lemma plan_solved_cases:
  assumes wf: "wf_problem p"
    and s: "plan_solved t g policy p currency gen plan = Some (Inr plan')"
  obtains (solution) sol where "solve p (planner_budget policy) (unat (cp_node_limit policy)) = Some sol"
      "has_solution sol"
      "plan_solution policy p (planner_budget policy) gen sol (prepare_plan t g p currency sol plan) = Some (Inr plan')"
    | (infeasible) sol where "solve p (planner_budget policy) (unat (cp_node_limit policy)) = Some sol"
      "cs_status sol = SolvedInfeasible" "plan' = plan_infeasible p sol (prepare_plan t g p currency sol plan)"
    | (limit) sol where "plan' = plan_limit (prepare_plan t g p currency sol plan)"
    | (invalid) sol where "plan' = plan_invalid (prepare_plan t g p currency sol plan)"
proof -
  obtain sol where sol: "solve p (planner_budget policy) (unat (cp_node_limit policy)) = Some sol"
    using s by (auto simp: plan_solved_def planner_budget_def Let_def split: option.splits)
  show thesis
  proof (cases "cs_status sol")
    case SolvedOptimal
    then show thesis using s sol by (intro solution [OF sol])
      (simp_all add: plan_solved_def planner_budget_def has_solution_def Let_def)
  next
    case SolvedFeasible
    then show thesis using s sol by (intro solution [OF sol])
      (simp_all add: plan_solved_def planner_budget_def has_solution_def Let_def)
  next
    case SolvedInfeasible
    then show thesis using s sol by (intro infeasible [OF sol])
      (simp_all add: plan_solved_def planner_budget_def Let_def)
  next
    case SolveLimitReached
    then show thesis using s sol by (intro limit [of sol])
      (simp_all add: plan_solved_def planner_budget_def Let_def)
  next
    case SolveInvalid
    then show thesis using s sol by (intro invalid [of sol])
      (simp_all add: plan_solved_def planner_budget_def Let_def)
  qed
qed

lemma prepare_plan_fields [simp]:
  "p_currency (prepare_plan t g p currency sol plan) = frontier_currency t p currency"
  "p_uncontainable (prepare_plan t g p currency sol plan) = ids_at p (pr_uncontainable_sources p)"
  "p_boundary (prepare_plan t g p currency sol plan) = p_boundary plan"
  by (simp_all add: prepare_plan_def Let_def)

end
