(* ===== verification/Engine_Safety.thy ===== *)
theory Engine_Safety
  imports Engine_Planner
begin

section \<open>What a plan guarantees\<close>

text \<open>
  The planner's promises, stated on resources and topologies and not on the index structures
  of the solvers. \<open>exposed\<close> is the specification: a failure starts at the known failed
  resources and spreads along every link that is not refuted, except through contained
  resources. The lemmas of this theory refine the solver's facts into these terms.
\<close>

subsection \<open>Failure propagation\<close>

definition may_propagate :: "topology \<Rightarrow> resource_id \<Rightarrow> resource_id \<Rightarrow> bool" where
  "may_propagate t a b \<longleftrightarrow>
     (\<exists>e \<in> set (t_edges t). te_evidence e \<noteq> EdgeRefuted \<and>
        ns_id (t_nodes t ! te_from e) = a \<and> ns_id (t_nodes t ! te_to e) = b)"

definition proven_to_propagate :: "topology \<Rightarrow> resource_id \<Rightarrow> resource_id \<Rightarrow> bool" where
  "proven_to_propagate t a b \<longleftrightarrow>
     (\<exists>e \<in> set (t_edges t). te_evidence e = EdgeProven \<and>
        ns_id (t_nodes t ! te_from e) = a \<and> ns_id (t_nodes t ! te_to e) = b)"

inductive exposed :: "topology \<Rightarrow> resource_id list \<Rightarrow> resource_id set \<Rightarrow> resource_id \<Rightarrow> bool"
  for t failed cut where
  failed: "r \<in> set failed \<Longrightarrow> topology_find t r \<noteq> None \<Longrightarrow> r \<notin> cut \<Longrightarrow> exposed t failed cut r"
| spreads: "exposed t failed cut a \<Longrightarrow> may_propagate t a b \<Longrightarrow> b \<notin> cut \<Longrightarrow>
    exposed t failed cut b"

lemma exposed_antimono:
  "exposed t failed D r \<Longrightarrow> C \<subseteq> D \<Longrightarrow> exposed t failed C r"
  by (induction rule: exposed.induct) (auto intro: exposed.intros)

lemma exposed_uncontained: "exposed t failed C r \<Longrightarrow> r \<notin> C"
  by (induction rule: exposed.induct)

lemma exposed_nothing: "(\<And>r. r \<in> set failed \<Longrightarrow> topology_find t r = None) \<Longrightarrow> \<not> exposed t failed C r"
proof
  assume none: "\<And>r. r \<in> set failed \<Longrightarrow> topology_find t r = None" and "exposed t failed C r"
  from this(2) show False by (induction rule: exposed.induct) (auto simp: none)
qed

subsection \<open>From indices to resources\<close>

lemma wf_topology_index_inj:
  assumes "wf_topology t" and "i < node_count t" and "j < node_count t"
    and "ns_id (t_nodes t ! i) = ns_id (t_nodes t ! j)"
  shows "i = j"
  using topology_find_iff [OF assms(1), of "ns_id (t_nodes t ! i)"] assms by (metis option.inject)

lemma may_propagate_edges:
  assumes t: "wf_topology t" and u: "u < node_count t" and v: "v < node_count t"
  shows "may_propagate t (ns_id (t_nodes t ! u)) (ns_id (t_nodes t ! v)) \<longleftrightarrow> (u, v) \<in> conservative_edges t"
    and "proven_to_propagate t (ns_id (t_nodes t ! u)) (ns_id (t_nodes t ! v)) \<longleftrightarrow> (u, v) \<in> proven_edges t"
proof -
  have e: "te_from e < node_count t \<and> te_to e < node_count t" if "e \<in> set (t_edges t)" for e
    using wf_topology_edge [OF t that] by (simp add: wf_edge_def node_count_def)
  have eq: "ns_id (t_nodes t ! te_from e) = ns_id (t_nodes t ! u) \<and> ns_id (t_nodes t ! te_to e) = ns_id (t_nodes t ! v)
      \<longleftrightarrow> edge_key e = (u, v)" if "e \<in> set (t_edges t)" for e
    using e [OF that] wf_topology_index_inj [OF t] u v by (auto simp: edge_key_def)
  show "may_propagate t (ns_id (t_nodes t ! u)) (ns_id (t_nodes t ! v)) \<longleftrightarrow> (u, v) \<in> conservative_edges t"
    using eq by (auto simp: may_propagate_def edges_with_def image_iff)
  show "proven_to_propagate t (ns_id (t_nodes t ! u)) (ns_id (t_nodes t ! v)) \<longleftrightarrow> (u, v) \<in> proven_edges t"
    using eq by (auto simp: proven_to_propagate_def edges_with_def image_iff)
qed

lemma may_propagate_range:
  assumes "wf_topology t" and "may_propagate t a b"
  obtains u v where "u < node_count t" "v < node_count t" "a = ns_id (t_nodes t ! u)"
    "b = ns_id (t_nodes t ! v)" "(u, v) \<in> conservative_edges t"
proof -
  obtain e where e: "e \<in> set (t_edges t)" "te_evidence e \<noteq> EdgeRefuted"
      "ns_id (t_nodes t ! te_from e) = a" "ns_id (t_nodes t ! te_to e) = b"
    using assms(2) by (auto simp: may_propagate_def)
  moreover have "te_from e < node_count t \<and> te_to e < node_count t"
    using wf_topology_edge [OF assms(1) e(1)] by (simp add: wf_edge_def node_count_def)
  moreover have "(te_from e, te_to e) \<in> conservative_edges t"
    using e by (auto simp: edges_with_def image_iff edge_key_def)
  ultimately show thesis using that by blast
qed

text \<open>An instance without forced members, seen as the topology it was built from.\<close>

lemma instance_problem:
  assumes t: "wf_topology t" and b: "problem_build (graph_build t) spec = Inr p" and free: "sp_forced_ineligible spec = []"
  shows "built_from t p" "wf_problem p" "pr_graph p = graph_build t" "pr_node_count p = node_count t"
    and "\<And>x. x < node_count t \<Longrightarrow> pr_resource_ids p ! x = ns_id (t_nodes t ! x)"
    and "\<And>x. x < node_count t \<Longrightarrow> is_source p x \<longleftrightarrow> pr_resource_ids p ! x \<in> set (sp_sources spec)"
    and "\<And>x. x < node_count t \<Longrightarrow> is_protected p x \<longleftrightarrow> pr_resource_ids p ! x \<in> set (sp_protected spec)"
    and "pr_require_source p = sp_require_source spec" "pr_allow_protected p = sp_allow_protected spec"
    and "pr_minimize_protected p = sp_minimize_protected spec" "pr_max_weight p = sp_max_weight spec"
    and "pr_max_members p = sp_max_members spec"
    and "\<And>x. x < node_count t \<Longrightarrow> is_containable p x \<longleftrightarrow>
      (if is_protected p x then sp_allow_protected spec else ns_containable (t_nodes t ! x))"
    and "set (pr_sources p) = {x. x < node_count t \<and> pr_resource_ids p ! x \<in> set (sp_sources spec)}"
proof -
  note f = problem_build_fields [OF t b]
  show built: "built_from t p" using t b by (auto simp: built_from_def)
  show wf: "wf_problem p" by (rule problem_build_wf [OF t b])
  show "pr_graph p = graph_build t" "pr_node_count p = node_count t" by (rule f)+
  show ids: "pr_resource_ids p ! x = ns_id (t_nodes t ! x)" if "x < node_count t" for x
    using that by (simp add: f node_count_def)
  have idx: "x \<in> set (indices_of t ids) \<longleftrightarrow> ns_id (t_nodes t ! x) \<in> set ids"
    if "all_known t ids" "x < node_count t" for x ids
  proof -
    have "the (topology_find t i) = x \<longleftrightarrow> i = ns_id (t_nodes t ! x)" if "i \<in> set ids" for i
      using \<open>all_known t ids\<close> that topology_find_iff [OF t, of i] \<open>x < node_count t\<close>
      by (cases "topology_find t i") (auto simp: all_known_def dest: wf_topology_index_inj [OF t])
    then have "(\<exists>i \<in> set ids. x = the (topology_find t i)) \<longleftrightarrow> (\<exists>i \<in> set ids. i = ns_id (t_nodes t ! x))"
      by metis
    then show ?thesis by (simp add: indices_of_def image_iff)
  qed
  have known: "all_known t (sp_sources spec)" "all_known t (sp_protected spec)"
    using b unfolding problem_build_iff [OF t] by blast+
  show "is_source p x \<longleftrightarrow> pr_resource_ids p ! x \<in> set (sp_sources spec)" if "x < node_count t" for x
    using idx [OF known(1) that] by (simp add: is_source_iff [OF wf] f(3) ids that)
  show "set (pr_sources p) = {x. x < node_count t \<and> pr_resource_ids p ! x \<in> set (sp_sources spec)}"
    using idx [OF known(1)] f(19) by (auto simp: f(3) ids)
  show prot: "is_protected p x \<longleftrightarrow> pr_resource_ids p ! x \<in> set (sp_protected spec)"
    if "x < node_count t" for x
    using idx [OF known(2) that] by (simp add: is_protected_iff [OF wf] f(4) ids that)
  show "pr_require_source p = sp_require_source spec" "pr_allow_protected p = sp_allow_protected spec"
      "pr_minimize_protected p = sp_minimize_protected spec" "pr_max_weight p = sp_max_weight spec"
      "pr_max_members p = sp_max_members spec"
    by (rule f)+
  show "is_containable p x \<longleftrightarrow>
      (if is_protected p x then sp_allow_protected spec else ns_containable (t_nodes t ! x))"
    if "x < node_count t" for x
    using that unfolding is_containable_def flag_mask_set f(17) is_protected_iff [OF wf]
    by (auto simp: declared_containable_def free indices_of_def)
qed

lemma instance_exposed_reach:
  assumes t: "wf_topology t" and b: "problem_build (graph_build t) spec = Inr p" and free: "sp_forced_ineligible spec = []"
    and x: "exposed t (sp_sources spec) (set (ids_at p C)) r" and C: "set C \<subseteq> {..<node_count t}"
  obtains u where "u < node_count t" "r = pr_resource_ids p ! u"
    "u \<in> reach (pr_node_count p) (problem_succ p) (set (pr_sources p)) (\<lambda>v. v \<in> set C)"
proof -
  note q = instance_problem [OF t b free]
  let ?R = "reach (pr_node_count p) (problem_succ p) (set (pr_sources p)) (\<lambda>v. v \<in> set C)"
  have outside: "u \<notin> set C" if "u < node_count t" "pr_resource_ids p ! u \<notin> set (ids_at p C)" for u
    using that by (auto simp: ids_at_def)
  have "\<exists>u < node_count t. r = pr_resource_ids p ! u \<and> u \<in> ?R"
    using x
  proof (induction rule: exposed.induct)
    case (failed r)
    then obtain u where u: "topology_find t r = Some u" by blast
    then have u': "u < node_count t" "r = pr_resource_ids p ! u" using topology_find_iff [OF t] q(5) by auto
    then have "u \<in> set (pr_sources p)" using q(14) failed(1) by simp
    then have "u \<in> ?R" using outside u' failed(3) by (intro reach_source) auto
    then show ?case using u' by blast
  next
    case (spreads a b)
    then obtain i j where ij: "i < node_count t" "j < node_count t" "a = ns_id (t_nodes t ! i)"
        "b = ns_id (t_nodes t ! j)" "(i, j) \<in> conservative_edges t"
      using may_propagate_range [OF t] by blast
    obtain u where u: "u < node_count t" "a = pr_resource_ids p ! u" "u \<in> ?R" using spreads by blast
    have "u = i" using wf_topology_index_inj [OF t u(1) ij(1)] u(2) ij(3) q(5) [OF u(1)] by simp
    then have "j \<in> set (problem_succ p u)"
      using successors_iff [OF t ij(1)] ij(5) by (simp add: problem_succ_def q(3))
    then have "j \<in> ?R" using u ij outside [OF ij(2)] spreads(3) q(4) q(5) [OF ij(2)]
      by (intro reach_step [OF u(3)]) auto
    then show ?case using ij(2,4) q(5) [OF ij(2)] by auto
  qed
  then show thesis using that by blast
qed

text \<open>A cut the verifier accepts separates the sources of its instance from the obligations.\<close>

lemma instance_separates:
  assumes t: "wf_topology t" and b: "problem_build (graph_build t) spec = Inr p" and free: "sp_forced_ineligible spec = []"
    and s: "separates p (set C)" and C: "set C \<subseteq> {..<node_count t}"
    and x: "exposed t (sp_sources spec) (set (ids_at p C)) r"
  shows "r \<notin> set (sp_protected spec)"
proof -
  obtain u where u: "u < node_count t" "r = pr_resource_ids p ! u"
    "u \<in> reach (pr_node_count p) (problem_succ p) (set (pr_sources p)) (\<lambda>v. v \<in> set C)"
    by (rule instance_exposed_reach [OF t b free x C])
  then show ?thesis using s instance_problem(7) [OF t b free u(1)] by (simp add: separates_def)
qed

text \<open>The instance the planner builds; of the present resources only the known ones matter.\<close>

lemma planner_problem:
  assumes t: "wf_topology t" and b: "problem_build (graph_build t) (planner_spec t v policy) = Inr p"
  shows "built_from t p" "wf_problem p" "pr_graph p = graph_build t" "pr_node_count p = node_count t"
    and "\<And>x. x < node_count t \<Longrightarrow> pr_resource_ids p ! x = ns_id (t_nodes t ! x)"
    and "\<And>x. x < node_count t \<Longrightarrow> is_source p x \<longleftrightarrow> pr_resource_ids p ! x \<in> set (known_sources t v)"
    and "\<And>x. x < node_count t \<Longrightarrow> is_protected p x \<longleftrightarrow> pr_resource_ids p ! x \<in> set (protected_obligations t)"
    and "pr_require_source p = cp_require_source policy" "pr_allow_protected p = cp_allow_protected policy"
    and "pr_minimize_protected p = cp_minimize_protected policy" "pr_max_weight p = cp_max_weight policy"
    and "pr_max_members p = unat (cp_max_members policy)"
    and "\<And>x. x < node_count t \<Longrightarrow> is_containable p x \<longleftrightarrow>
      (if is_protected p x then cp_allow_protected policy else ns_containable (t_nodes t ! x))"
    and "set (pr_sources p) = {x. x < node_count t \<and> pr_resource_ids p ! x \<in> set (known_sources t v)}"
proof -
  have free: "sp_forced_ineligible (planner_spec t v policy) = []" by (simp add: planner_spec_def)
  note q = instance_problem [OF t b free, unfolded planner_spec_def, simplified]
  show "built_from t p" "wf_problem p" "pr_graph p = graph_build t" "pr_node_count p = node_count t" by (rule q)+
  show "pr_resource_ids p ! x = ns_id (t_nodes t ! x)" if "x < node_count t" for x by (rule q(5) [OF that])
  show "is_source p x \<longleftrightarrow> pr_resource_ids p ! x \<in> set (known_sources t v)" if "x < node_count t" for x by (rule q(6) [OF that])
  show "is_protected p x \<longleftrightarrow> pr_resource_ids p ! x \<in> set (protected_obligations t)" if "x < node_count t" for x by (rule q(7) [OF that])
  show "pr_require_source p = cp_require_source policy" "pr_allow_protected p = cp_allow_protected policy"
    "pr_minimize_protected p = cp_minimize_protected policy" "pr_max_weight p = cp_max_weight policy"
    "pr_max_members p = unat (cp_max_members policy)" by (rule q)+
  show "is_containable p x \<longleftrightarrow> (if is_protected p x then cp_allow_protected policy else ns_containable (t_nodes t ! x))"
    if "x < node_count t" for x using instance_problem(13) [OF t b free that] by (simp add: planner_spec_def)
  show "set (pr_sources p) = {x. x < node_count t \<and> pr_resource_ids p ! x \<in> set (known_sources t v)}" by (rule q(14))
qed

lemma exposed_known: "exposed t (present_resources v) C r \<Longrightarrow> exposed t (known_sources t v) C r"
  by (induction rule: exposed.induct) (auto intro: exposed.intros simp: known_sources_def)

lemma exposed_reach:
  assumes t: "wf_topology t" and b: "problem_build (graph_build t) (planner_spec t v policy) = Inr p"
    and x: "exposed t (present_resources v) (set (ids_at p C)) r" and C: "set C \<subseteq> {..<node_count t}"
  obtains u where "u < node_count t" "r = pr_resource_ids p ! u"
    "u \<in> reach (pr_node_count p) (problem_succ p) (set (pr_sources p)) (\<lambda>v. v \<in> set C)"
  by (rule instance_exposed_reach [OF t b _ _ C]) (use exposed_known [OF x] that in \<open>simp_all add: planner_spec_def\<close>)

subsection \<open>The plan of a solved instance\<close>

definition contained_resources :: "containment_plan \<Rightarrow> resource_id set" where
  "contained_resources plan = bm_resource ` set (b_members (p_boundary plan))"

lemma contained_default: "p_boundary plan = default_boundary \<Longrightarrow> contained_resources plan = {}"
  by (simp add: contained_resources_def default_boundary_def)

lemma contained_seal [simp]: "contained_resources (seal plan) = contained_resources plan"
  by (simp add: contained_resources_def)

lemma seal_more_fields [simp]:
  "p_total_weight (seal p) = p_total_weight p" "p_member_count (seal p) = p_member_count p"
  "p_obligations (seal p) = p_obligations p"
  by (simp_all add: seal_def)

definition known_source_set :: "topology \<Rightarrow> evidence_vector \<Rightarrow> resource_id set" where
  "known_source_set t v = {r \<in> set (present_resources v). topology_find t r \<noteq> None}"

lemma set_known_sources: "set (known_sources t v) = known_source_set t v"
  by (auto simp: known_sources_def known_source_set_def)

text \<open>What the planner returns when the solver found a containment set.\<close>

definition solution_plan :: "topology \<Rightarrow> evidence_vector \<Rightarrow> containment_policy \<Rightarrow> freshness_view \<Rightarrow>
    problem \<Rightarrow> cut_solution \<Rightarrow> containment_plan \<Rightarrow> bool" where
  "solution_plan t v policy freshness p sol plan \<longleftrightarrow>
     (let ms = planned_members p sol;
          currency = frontier_currency t p (initial_currency t freshness v);
          uncontainable = ids_at p (pr_uncontainable_sources p)
      in problem_build (graph_build t) (planner_spec t v policy) = Inr p \<and>
         solve p (planner_budget policy) (unat (cp_node_limit policy)) = Some sol \<and> has_solution sol \<and>
         wf_boundary (p_boundary plan) \<and>
         set (b_members (p_boundary plan)) = boundary_entry p ms ` set ms \<and>
         p_claim plan = claim_for policy currency uncontainable (cs_status sol = SolvedOptimal) \<and>
         p_currency plan = currency \<and> p_uncontainable plan = uncontainable \<and>
         p_optimality plan = (if cs_status sol = SolvedOptimal then OptimalProven else OptimalBounded))"

lemma solution_planD:
  assumes t: "wf_topology t" and s: "solution_plan t v policy freshness p sol plan"
  shows "problem_build (graph_build t) (planner_spec t v policy) = Inr p"
    and "contained_resources plan = set (ids_at p (planned_members p sol))"
    and "set (planned_members p sol) \<subseteq> {..<node_count t}"
    and "feasible p (set (planned_members p sol))" and "distinct (planned_members p sol)"
    and "separates p (set (planned_members p sol))"
proof -
  note s' = s [unfolded solution_plan_def Let_def]
  show b: "problem_build (graph_build t) (planner_spec t v policy) = Inr p" using s' by blast
  note q = planner_problem [OF t b]
  have sol: "solve p (planner_budget policy) (unat (cp_node_limit policy)) = Some sol" "has_solution sol"
    using s' by blast+
  note m = planned_members_spec [OF q(2) sol]
  show "feasible p (set (planned_members p sol))" "distinct (planned_members p sol)" by (rule m)+
  then show "separates p (set (planned_members p sol))"
      "set (planned_members p sol) \<subseteq> {..<node_count t}"
    using feasible_range q(4) by (auto simp: feasible_def)
  show "contained_resources plan = set (ids_at p (planned_members p sol))"
    using s' by (auto simp: contained_resources_def ids_at_def image_image)
qed

lemma solved_plan_cases:
  assumes inp: "valid_inputs inputs t v policy"
    and c: "compute_plan inputs authority generation = Some (Inr c)" and p: "pl_problem c = Some p"
  obtains (solution) sol where "solution_plan t v policy (in_freshness inputs) p sol (pl_plan c)"
    | (infeasible) sol where "problem_build (graph_build t) (planner_spec t v policy) = Inr p"
      "solve p (planner_budget policy) (unat (cp_node_limit policy)) = Some sol"
      "cs_status sol = SolvedInfeasible" "p_claim (pl_plan c) = ClaimProvenInfeasible"
      "p_boundary (pl_plan c) = default_boundary"
      "p_infeasibility (pl_plan c) = \<lparr>iw_present = cs_has_witness sol, iw_path = ids_at p (cs_infeasibility_path sol)\<rparr>"
      "p_optimality (pl_plan c) = OptimalNotApplicable"
    | (undecided) "p_claim (pl_plan c) = ClaimIndeterminate \<or> p_claim (pl_plan c) = ClaimInvalid"
      "p_boundary (pl_plan c) = default_boundary" "p_optimality (pl_plan c) = OptimalNotAttempted"
  using inp c
proof (cases rule: compute_plan_cases)
  case quiet
  have "pl_problem c = None" using c inp quiet(1)
    by (auto simp: compute_plan_def valid_inputs_def known_sources_def missing_sources_def
        computation_def try_result_Inr_iff)
  then show thesis using p by simp
next
  case missing
  have "pl_problem c = None" using c inp missing(1,2)
    by (auto simp: compute_plan_def valid_inputs_def computation_def try_result_Inr_iff)
  then show thesis using p by simp
next
  case unprotected
  have "pl_problem c = None" using c inp unprotected(1,2)
    by (auto simp: compute_plan_def valid_inputs_def computation_def try_result_Inr_iff)
  then show thesis using p by simp
next
  case (solved p' plan)
  then have b: "problem_build (graph_build t) (planner_spec t v policy) = Inr p" using p by simp
  have t: "wf_topology t" using inp by (simp add: valid_inputs_def)
  note wf = planner_problem(2) [OF t b]
  have s: "plan_solved t (graph_build t) policy p (initial_currency t (in_freshness inputs) v)
        (in_boundary_generation inputs) (base_plan t v policy authority generation) = Some (Inr plan)"
    using solved p by simp
  from wf s show thesis
  proof (cases rule: plan_solved_cases)
    case (solution sol)
    note r = plan_solution_result [OF solution(3)]
    have "solution_plan t v policy (in_freshness inputs) p sol (pl_plan c)"
      unfolding solution_plan_def Let_def solved(4)
      using b solution(1,2) r(2-4,6) boundary_create_wf [OF r(1)] boundary_create_members [OF r(1)]
      by (simp add: image_comp)
    then show thesis by (rule that(1))
  next
    case (infeasible sol)
    show thesis
      by (rule that(2) [OF b infeasible(1,2)])
        (simp_all add: solved(4) infeasible(3) plan_infeasible_def base_plan_def)
  next
    case (limit sol)
    then show thesis using that(3) by (simp add: solved(4) plan_limit_def base_plan_def)
  next
    case (invalid sol)
    then show thesis using that(3) by (simp add: solved(4) plan_invalid_def base_plan_def)
  qed
qed

subsection \<open>The branches without a search\<close>

lemma plan_no_failures_result:
  "plan_no_failures t gen plan = Inr plan' \<Longrightarrow> p_claim plan' = ClaimProvenContainment \<and>
     p_currency plan' = CurrencyCurrent \<and> b_members (p_boundary plan') = [] \<and>
     wf_boundary (p_boundary plan')"
  by (auto simp: plan_no_failures_def try_result_Inr_iff dest: boundary_create_wf boundary_create_members)

lemma plan_all_missing_result:
  "plan_all_missing missing gen plan = Inr plan' \<Longrightarrow> p_claim plan' = ClaimIndeterminate \<and>
     p_currency plan' = CurrencyIncompleteFrontier \<and> b_members (p_boundary plan') = [] \<and>
     wf_boundary (p_boundary plan')"
  by (auto simp: plan_all_missing_def try_result_Inr_iff dest: boundary_create_wf boundary_create_members)

lemma plan_no_obligations_result:
  assumes "plan_no_obligations t policy currency gen plan = Inr plan'"
  shows "boundary_create gen (fst (source_members t (p_sources plan))) = Inr (p_boundary plan')"
    and "p_currency plan' = currency" and "p_uncontainable plan' = snd (source_members t (p_sources plan))"
    and "p_claim plan' = (if (\<not> cp_require_source policy \<or> p_uncontainable plan' = []) \<and> currency = CurrencyCurrent
      then ClaimProvenContainment else ClaimIndeterminate)"
proof -
  obtain b where b: "boundary_create gen (fst (source_members t (p_sources plan))) = Inr b"
    using assms by (auto simp: plan_no_obligations_def case_prod_beta try_result_Inr_iff)
  note r = assms [unfolded plan_no_obligations_def Let_def case_prod_beta b try_result.simps set_boundary_def]
  show "boundary_create gen (fst (source_members t (p_sources plan))) = Inr (p_boundary plan')"
    "p_currency plan' = currency" "p_uncontainable plan' = snd (source_members t (p_sources plan))"
    "p_claim plan' = (if (\<not> cp_require_source policy \<or> p_uncontainable plan' = []) \<and> currency = CurrencyCurrent
      then ClaimProvenContainment else ClaimIndeterminate)"
    by (cases "(\<not> cp_require_source policy \<or> snd (source_members t (p_sources plan)) = []) \<and>
        currency = CurrencyCurrent"; use r in \<open>auto simp: b\<close>)+
qed

subsection \<open>Claims of containment\<close>

definition claims_containment :: "containment_plan \<Rightarrow> bool" where
  "claims_containment plan \<longleftrightarrow>
     p_claim plan = ClaimProvenContainment \<or> p_claim plan = ClaimFeasibleNotMinimal"

lemma solution_plan_separates:
  assumes t: "wf_topology t" and s: "solution_plan t v policy freshness p sol plan"
    and x: "exposed t (present_resources v) (contained_resources plan) r"
  shows "r \<notin> set (protected_obligations t)"
proof -
  note d = solution_planD [OF t s]
  note q = planner_problem [OF t d(1)]
  obtain u where u: "u < node_count t" "r = pr_resource_ids p ! u"
    "u \<in> reach (pr_node_count p) (problem_succ p) (set (pr_sources p)) (\<lambda>v. v \<in> set (planned_members p sol))"
    using exposed_reach [OF t d(1) x [unfolded d(2)] d(3)] by blast
  then have "\<not> is_protected p u" using d(6) by (simp add: separates_def)
  then show ?thesis using u q(7) by simp
qed

text \<open>
  A plan that claims containment: no failure reaches a protected obligation from the known
  failed resources without passing through a contained one.
\<close>

lemma claimed_plan_contains:
  assumes inp: "valid_inputs inputs t v policy"
    and c: "compute_plan inputs authority generation = Some (Inr c)" and claim: "claims_containment (pl_plan c)"
    and x: "exposed t (present_resources v) (contained_resources (pl_plan c)) r"
  shows "r \<notin> set (protected_obligations t)"
  using inp c
proof (cases rule: compute_plan_cases)
  case quiet
  then show ?thesis using x exposed_nothing [of "present_resources v" t] by simp
next
  case missing
  then show ?thesis using claim plan_all_missing_result by (auto simp: claims_containment_def)
next
  case unprotected
  then show ?thesis by simp
next
  case (solved p plan)
  have t: "wf_topology t" using inp by (simp add: valid_inputs_def)
  from inp c solved(1) show ?thesis
  proof (cases rule: solved_plan_cases)
    case (solution sol)
    then show ?thesis by (rule solution_plan_separates [OF t _ x])
  qed (use claim in \<open>auto simp: claims_containment_def\<close>)
qed

lemma infeasible_plan_cases:
  assumes inp: "valid_inputs inputs t v policy"
    and c: "compute_plan inputs authority generation = Some (Inr c)"
    and claim: "p_claim (pl_plan c) = ClaimProvenInfeasible"
  obtains p sol where "problem_build (graph_build t) (planner_spec t v policy) = Inr p"
    "solve p (planner_budget policy) (unat (cp_node_limit policy)) = Some sol"
    "cs_status sol = SolvedInfeasible" "p_boundary (pl_plan c) = default_boundary"
    "p_infeasibility (pl_plan c) = \<lparr>iw_present = cs_has_witness sol, iw_path = ids_at p (cs_infeasibility_path sol)\<rparr>"
  using inp c
proof (cases rule: compute_plan_cases)
  case quiet
  then show ?thesis using claim plan_no_failures_result by fastforce
next
  case missing
  then show ?thesis using claim plan_all_missing_result by fastforce
next
  case unprotected
  then show ?thesis using claim plan_no_obligations_result(4) [OF unprotected(3)] by (simp split: if_splits)
next
  case (solved p plan)
  from inp c solved(1) show ?thesis
  proof (cases rule: solved_plan_cases)
    case (solution sol)
    then show ?thesis using claim unfolding solution_plan_def Let_def claim_for_def by (simp split: if_splits)
  next
    case (infeasible sol)
    from infeasible(1,2,3,5,6) show ?thesis by (rule that)
  next
    case undecided
    then show ?thesis using claim by simp
  qed
qed

text \<open>What must be known for a claim of containment: every failed resource, the frontier.\<close>

lemma frontier_currency_current:
  "frontier_currency t p (initial_currency t freshness v) = CurrencyCurrent \<longleftrightarrow>
   missing_sources t v = [] \<and> \<not> not_confirmed_since_restart freshness v \<and>
   (\<forall>x \<in> set (pr_frontier p). ns_completeness (t_nodes t ! x) = AdjComplete)"
  by (auto simp: frontier_currency_def initial_currency_def incomplete_frontier_def filter_empty_conv)

lemma missing_sources_empty: "missing_sources t v = [] \<longleftrightarrow> (\<forall>r \<in> set (present_resources v). topology_find t r \<noteq> None)"
  by (auto simp: missing_sources_def sort_eq_Nil_iff filter_empty_conv)

lemma claimed_plan_current:
  assumes inp: "valid_inputs inputs t v policy"
    and c: "compute_plan inputs authority generation = Some (Inr c)" and claim: "claims_containment (pl_plan c)"
  shows "p_currency (pl_plan c) = CurrencyCurrent"
    and "r \<in> set (present_resources v) \<Longrightarrow> topology_find t r \<noteq> None"
    and "r \<in> set (present_resources v) \<Longrightarrow> fv_require_confirmation (in_freshness inputs) \<Longrightarrow>
      confirmed_in_current_boot (in_freshness inputs) r"
proof -
  have "p_currency (pl_plan c) = CurrencyCurrent \<and> missing_sources t v = [] \<and>
      \<not> not_confirmed_since_restart (in_freshness inputs) v"
    using inp c
  proof (cases rule: compute_plan_cases)
    case quiet
    then have "p_currency (pl_plan c) = CurrencyCurrent" using plan_no_failures_result by blast
    then show ?thesis using quiet(1) by (simp add: missing_sources_empty not_confirmed_since_restart_def)
  next
    case missing
    then show ?thesis using claim plan_all_missing_result by (auto simp: claims_containment_def)
  next
    case unprotected
    then have "initial_currency t (in_freshness inputs) v = CurrencyCurrent \<and>
        p_currency (pl_plan c) = CurrencyCurrent"
      using claim plan_no_obligations_result(2,4) [OF unprotected(3)]
      by (auto simp: claims_containment_def split: if_splits)
    then show ?thesis by (auto simp: initial_currency_def split: if_splits)
  next
    case (solved p plan)
    from inp c solved(1) show ?thesis
    proof (cases rule: solved_plan_cases)
      case (solution sol)
      then have "frontier_currency t p (initial_currency t (in_freshness inputs) v) = CurrencyCurrent"
          "p_currency (pl_plan c) = frontier_currency t p (initial_currency t (in_freshness inputs) v)"
        using claim unfolding solution_plan_def Let_def claim_for_def claims_containment_def
        by (auto split: if_splits)
      then show ?thesis using frontier_currency_current [of t p] by simp
    qed (use claim in \<open>auto simp: claims_containment_def\<close>)
  qed
  then show "p_currency (pl_plan c) = CurrencyCurrent"
      "r \<in> set (present_resources v) \<Longrightarrow> topology_find t r \<noteq> None"
      "r \<in> set (present_resources v) \<Longrightarrow> fv_require_confirmation (in_freshness inputs) \<Longrightarrow>
        confirmed_in_current_boot (in_freshness inputs) r"
    by (auto simp: missing_sources_empty not_confirmed_since_restart_def)
qed

subsection \<open>Which resources are contained\<close>

lemma source_members_spec:
  "(\<And>r. r \<in> set ids \<Longrightarrow> topology_find t r \<noteq> None) \<Longrightarrow>
   bm_resource ` set (fst (source_members t ids)) \<union> set (snd (source_members t ids)) = set ids"
proof (induction ids)
  case (Cons r ids)
  obtain x where "topology_find t r = Some x" using Cons.prems by fastforce
  moreover have "bm_resource ` set (fst (source_members t ids)) \<union> set (snd (source_members t ids)) = set ids"
    using Cons by simp
  ultimately show ?case by (auto simp: case_prod_beta Let_def)
qed simp

lemma source_members_containable:
  "m \<in> set (fst (source_members t ids)) \<Longrightarrow>
   bm_resource m \<in> set ids \<and> (\<exists>x. topology_find t (bm_resource m) = Some x \<and> ns_containable (t_nodes t ! x))"
  by (induction ids) (auto simp: case_prod_beta Let_def split: option.splits if_splits)

lemma problem_build_uncontainable:
  assumes "wf_topology t" and "problem_build (graph_build t) spec = Inr p"
  shows "pr_uncontainable_sources p = filter (\<lambda>s. \<not> is_containable p s) (pr_sources p)"
  using assms(2) unfolding problem_build_iff [OF assms(1)]
  by (auto simp: problem_finalize_def Let_def is_containable_def)

lemma base_plan_sources [simp]: "p_sources (base_plan t v policy authority generation) = known_sources t v"
  by (simp add: base_plan_def)

text \<open>Under a policy that requires it, a claim of containment contains every failed resource.\<close>

lemma claimed_plan_sources:
  assumes inp: "valid_inputs inputs t v policy" and req: "cp_require_source policy"
    and c: "compute_plan inputs authority generation = Some (Inr c)" and claim: "claims_containment (pl_plan c)"
    and r: "r \<in> set (present_resources v)"
  shows "r \<in> contained_resources (pl_plan c)"
proof -
  have t: "wf_topology t" using inp by (simp add: valid_inputs_def)
  have known: "r \<in> set (known_sources t v)"
    using claimed_plan_current(2) [OF inp c claim r] r by (simp add: set_known_sources known_source_set_def)
  from inp c show ?thesis
  proof (cases rule: compute_plan_cases)
    case quiet
    then show ?thesis using r by simp
  next
    case missing
    then show ?thesis using known by simp
  next
    case unprotected
    note n = plan_no_obligations_result [OF unprotected(3)]
    have "snd (source_members t (known_sources t v)) = []"
      using n(3,4) claim req by (auto simp: claims_containment_def split: if_splits)
    moreover have "topology_find t r \<noteq> None" if "r \<in> set (known_sources t v)" for r
      using that by (simp add: set_known_sources known_source_set_def)
    ultimately have "r \<in> bm_resource ` set (fst (source_members t (known_sources t v)))"
      using source_members_spec [of "known_sources t v" t] known by auto
    then show ?thesis using boundary_create_members [OF n(1)] by (simp add: contained_resources_def)
  next
    case (solved p plan)
    from inp c solved(1) show ?thesis
    proof (cases rule: solved_plan_cases)
      case (solution sol)
      note d = solution_planD [OF t solution]
      note q = planner_problem [OF t d(1)]
      have "ids_at p (pr_uncontainable_sources p) = []"
        using claim solution req unfolding solution_plan_def Let_def claim_for_def claims_containment_def
        by (auto split: if_splits)
      then have elig: "is_containable p s" if "s \<in> set (pr_sources p)" for s
        using that by (simp add: ids_at_def problem_build_uncontainable [OF t d(1)] filter_empty_conv)
      obtain x where x: "topology_find t r = Some x"
        using known by (auto simp: set_known_sources known_source_set_def)
      then have x': "x < node_count t" "pr_resource_ids p ! x = r"
        using topology_find_iff [OF t] q(5) by auto
      then have "x \<in> set (pr_sources p)" using q(14) known by simp
      then have "x \<in> set (planned_members p sol)" using d(4) q(8) req elig by (auto simp: feasible_def)
      then show ?thesis unfolding d(2) using x'(2) by (auto simp: ids_at_def)
    qed (use claim in \<open>auto simp: claims_containment_def\<close>)
  qed
qed

text \<open>Whatever is claimed, nothing ineligible is contained.\<close>

definition eligible :: "topology \<Rightarrow> containment_policy \<Rightarrow> resource_id \<Rightarrow> bool" where
  "eligible t policy r \<longleftrightarrow>
     (case topology_find t r of
        None \<Rightarrow> False
      | Some x \<Rightarrow> if ns_protected (t_nodes t ! x) then cp_allow_protected policy
                  else ns_containable (t_nodes t ! x))"

lemma set_protected_obligations:
  "x < node_count t \<Longrightarrow> wf_topology t \<Longrightarrow>
   ns_id (t_nodes t ! x) \<in> set (protected_obligations t) \<longleftrightarrow> ns_protected (t_nodes t ! x)"
  by (auto simp: protected_obligations_def in_set_conv_nth node_count_def dest: wf_topology_index_inj)

lemma plan_members_eligible:
  assumes inp: "valid_inputs inputs t v policy"
    and c: "compute_plan inputs authority generation = Some (Inr c)"
    and r: "r \<in> contained_resources (pl_plan c)"
  shows "eligible t policy r"
proof -
  have t: "wf_topology t" using inp by (simp add: valid_inputs_def)
  from inp c show ?thesis
  proof (cases rule: compute_plan_cases)
    case quiet
    then show ?thesis using r plan_no_failures_result by (fastforce simp: contained_resources_def)
  next
    case missing
    then show ?thesis using r plan_all_missing_result by (fastforce simp: contained_resources_def)
  next
    case unprotected
    note n = plan_no_obligations_result [OF unprotected(3)]
    obtain x where x: "topology_find t r = Some x" "ns_containable (t_nodes t ! x)"
      using r boundary_create_members [OF n(1)] source_members_containable
      by (fastforce simp: contained_resources_def)
    then have "x < node_count t" using topology_find_iff [OF t] by simp
    then have "\<not> ns_protected (t_nodes t ! x)" using set_protected_obligations t unprotected(2) by fastforce
    then show ?thesis using x by (simp add: eligible_def)
  next
    case (solved p plan)
    from inp c solved(1) show ?thesis
    proof (cases rule: solved_plan_cases)
      case (solution sol)
      note d = solution_planD [OF t solution]
      note q = planner_problem [OF t d(1)]
      obtain x where x: "x \<in> set (planned_members p sol)" "r = pr_resource_ids p ! x"
        using r unfolding d(2) by (auto simp: ids_at_def)
      then have x': "x < node_count t" "is_containable p x" using d(3,4) by (auto simp: feasible_def)
      moreover have "topology_find t r = Some x" using topology_find_iff [OF t] x(2) x' q(5) by simp
      ultimately show ?thesis using q(13) [OF x'(1)] q(7) [OF x'(1)] q(5) [OF x'(1)]
          set_protected_obligations [OF x'(1) t] by (simp add: eligible_def)
    qed (use r contained_default in auto)
  qed
qed

subsection \<open>When the planner returns a plan\<close>

text \<open>The planner's only failures after a solution are those of the boundary's constructor.\<close>

lemma compute_plan_solution:
  assumes inp: "valid_inputs inputs t v policy"
    and src: "known_sources t v \<noteq> []" and obl: "protected_obligations t \<noteq> []"
    and b: "problem_build (graph_build t) (planner_spec t v policy) = Inr p"
    and sol: "solve p (planner_budget policy) (unat (cp_node_limit policy)) = Some sol" "has_solution sol"
    and bound: "boundary_create (in_boundary_generation inputs)
      (map (boundary_entry p (planned_members p sol)) (planned_members p sol)) = Inr boundary"
  obtains c where "compute_plan inputs authority generation = Some (Inr c)" "pl_problem c = Some p"
    "solution_plan t v policy (in_freshness inputs) p sol (pl_plan c)" "p_boundary (pl_plan c) = boundary"
proof -
  let ?cur = "initial_currency t (in_freshness inputs) v" and ?base = "base_plan t v policy authority generation"
  have t: "wf_topology t" using inp by (simp add: valid_inputs_def)
  note q = planner_problem [OF t b]
  let ?prep = "prepare_plan t (graph_build t) p ?cur sol ?base"
  have "\<exists>plan. plan_solution policy p (planner_budget policy) (in_boundary_generation inputs) sol ?prep = Some (Inr plan)"
    using bound analyze_necessity_spec [OF q(1), of "planned_members p sol" "planner_budget policy"]
    by (auto simp: plan_solution_def Let_def)
  then obtain plan where plan: "plan_solution policy p (planner_budget policy) (in_boundary_generation inputs)
      sol ?prep = Some (Inr plan)" by blast
  have "plan_solved t (graph_build t) policy p ?cur (in_boundary_generation inputs) ?base = Some (Inr plan)"
    using sol plan by (cases "cs_status sol")
      (simp_all add: plan_solved_def Let_def planner_budget_def has_solution_def)
  then have c: "compute_plan inputs authority generation
      = Some (Inr \<lparr>pl_plan = seal plan, pl_problem = Some p\<rparr>)"
    using inp src obl b by (simp add: compute_plan_def valid_inputs_def computation_def Let_def)
  note r = plan_solution_result [OF plan]
  have "boundary = p_boundary plan" using r(1) bound by simp
  moreover have "solution_plan t v policy (in_freshness inputs) p sol (seal plan)"
    unfolding solution_plan_def Let_def
    using b sol r(2-4,6) boundary_create_wf [OF r(1)] boundary_create_members [OF r(1)]
    by (simp add: image_comp)
  ultimately show thesis using that [OF c] by simp
qed

lemma compute_plan_infeasible:
  assumes inp: "valid_inputs inputs t v policy"
    and src: "known_sources t v \<noteq> []" and obl: "protected_obligations t \<noteq> []"
    and b: "problem_build (graph_build t) (planner_spec t v policy) = Inr p"
    and sol: "solve p (planner_budget policy) (unat (cp_node_limit policy)) = Some sol" "cs_status sol = SolvedInfeasible"
  obtains c where "compute_plan inputs authority generation = Some (Inr c)" "pl_problem c = Some p"
    "p_claim (pl_plan c) = ClaimProvenInfeasible" "p_boundary (pl_plan c) = default_boundary"
    "iw_present (p_infeasibility (pl_plan c)) = cs_has_witness sol"
proof -
  let ?cur = "initial_currency t (in_freshness inputs) v" and ?base = "base_plan t v policy authority generation"
  let ?plan = "plan_infeasible p sol (prepare_plan t (graph_build t) p ?cur sol ?base)"
  have "plan_solved t (graph_build t) policy p ?cur (in_boundary_generation inputs) ?base = Some (Inr ?plan)"
    using sol by (simp add: plan_solved_def Let_def planner_budget_def)
  then have "compute_plan inputs authority generation
      = Some (Inr \<lparr>pl_plan = seal ?plan, pl_problem = Some p\<rparr>)"
    using inp src obl b by (simp add: compute_plan_def valid_inputs_def computation_def Let_def)
  from that [OF this] show thesis by (simp add: plan_infeasible_def base_plan_def)
qed

end
