(* ===== verification/Engine_Refinement.thy ===== *)
theory Engine_Refinement
  imports Engine_Safety
begin

section \<open>The containment problem on resources\<close>

text \<open>
  The abstract problem the planner solves, without indices, masks or search: a set of
  resources is a containment set when it is eligible, within the policy's bounds, holds the
  failed resources the policy requires and leaves no protected obligation exposed.
  \<open>feasible_refines\<close> shows that the solvers' constraint \<open>feasible\<close> is this one, and
  \<open>exact_key_refines\<close> that their objective is the cost of the set.
\<close>

definition resource_weight :: "topology \<Rightarrow> resource_id \<Rightarrow> nat" where
  "resource_weight t r =
     (case topology_find t r of None \<Rightarrow> 0 | Some x \<Rightarrow> unat (ns_weight (t_nodes t ! x)))"

definition resource_protected :: "topology \<Rightarrow> resource_id \<Rightarrow> bool" where
  "resource_protected t r \<longleftrightarrow> r \<in> set (protected_obligations t)"

definition containment_set :: "topology \<Rightarrow> evidence_vector \<Rightarrow> containment_policy \<Rightarrow> resource_id set \<Rightarrow> bool" where
  "containment_set t v policy R \<longleftrightarrow>
     (\<forall>r \<in> R. eligible t policy r) \<and>
     (cp_require_source policy \<longrightarrow> (\<forall>r \<in> known_source_set t v. eligible t policy r \<longrightarrow> r \<in> R)) \<and>
     card R \<le> unat (cp_max_members policy) \<and>
     (\<Sum>r \<in> R. resource_weight t r) \<le> unat (cp_max_weight policy) \<and>
     (\<forall>r. exposed t (present_resources v) R r \<longrightarrow> \<not> resource_protected t r)"

definition containment_cost :: "topology \<Rightarrow> containment_policy \<Rightarrow> resource_id set \<Rightarrow>
    nat \<times> nat \<times> nat \<times> resource_id list" where
  "containment_cost t policy R =
     (if cp_minimize_protected policy then card {r \<in> R. resource_protected t r} else 0,
      \<Sum>r \<in> R. resource_weight t r, card R, sorted_list_of_set R)"

text \<open>No failed resource is protected unless the policy keeps it out of every set or in all.\<close>

definition regular_instance :: "topology \<Rightarrow> evidence_vector \<Rightarrow> containment_policy \<Rightarrow> bool" where
  "regular_instance t v policy \<longleftrightarrow>
     \<not> cp_allow_protected policy \<or> cp_require_source policy \<or>
     (\<forall>r \<in> known_source_set t v. \<not> resource_protected t r)"

subsection \<open>Index sets and resource sets\<close>

definition resources_at :: "problem \<Rightarrow> nat set \<Rightarrow> resource_id set" where
  "resources_at p C = (\<lambda>i. pr_resource_ids p ! i) ` C"

lemma resources_at_ids: "set (ids_at p xs) = resources_at p (set xs)"
  by (simp add: ids_at_def resources_at_def)

lemma pr_ids_mono:
  assumes "wf_problem p" and "i < pr_node_count p" and "j < pr_node_count p"
  shows "pr_resource_ids p ! i < pr_resource_ids p ! j \<longleftrightarrow> i < j"
proof -
  have s: "sorted_wrt (<) (pr_resource_ids p)" "length (pr_resource_ids p) = pr_node_count p"
    using assms(1) by (simp_all add: wf_problem_def)
  show ?thesis
    using sorted_wrt_nth_less [OF s(1), of i j] sorted_wrt_nth_less [OF s(1), of j i] s(2) assms(2,3)
    by (cases i j rule: linorder_cases) auto
qed

lemma pr_ids_inj:
  assumes "wf_problem p" and "C \<subseteq> {..<pr_node_count p}"
  shows "inj_on (\<lambda>i. pr_resource_ids p ! i) C"
proof (rule inj_onI)
  fix i j assume ij: "i \<in> C" "j \<in> C" "pr_resource_ids p ! i = pr_resource_ids p ! j"
  then have "i < pr_node_count p" "j < pr_node_count p" using assms(2) by auto
  then show "i = j" using pr_ids_mono [OF assms(1), of i j] pr_ids_mono [OF assms(1), of j i] ij(3)
    by (cases i j rule: linorder_cases) auto
qed

lemma signature_resources:
  assumes wf: "wf_problem p" and C: "C \<subseteq> {..<pr_node_count p}"
  shows "signature p C = sorted_list_of_set (resources_at p C)"
proof -
  have fin: "finite C" using C finite_subset by auto
  have "sorted_wrt (<) (map (\<lambda>i. pr_resource_ids p ! i) (sorted_list_of_set C))"
    unfolding sorted_wrt_map
  proof (rule sorted_wrt_mono_rel)
    show "sorted_wrt (<) (sorted_list_of_set C)" by simp
    show "pr_resource_ids p ! x < pr_resource_ids p ! y"
      if "x \<in> set (sorted_list_of_set C)" "y \<in> set (sorted_list_of_set C)" "x < y" for x y
      using that C fin by (subst pr_ids_mono [OF wf]) auto
  qed
  then show ?thesis unfolding signature_def resources_at_def
    using fin by (intro sorted_distinct_set_unique) (simp_all add: strict_sorted_iff)
qed

subsection \<open>Exposure is reachability\<close>

lemma problem_succ_propagates:
  assumes t: "wf_topology t" and b: "problem_build (graph_build t) (planner_spec t v policy) = Inr p"
    and u: "u < node_count t" and w: "w \<in> set (problem_succ p u)"
  shows "w < node_count t" and "may_propagate t (pr_resource_ids p ! u) (pr_resource_ids p ! w)"
proof -
  note q = planner_problem [OF t b]
  have e: "(u, w) \<in> conservative_edges t"
    using w successors_iff [OF t u] by (simp add: problem_succ_def q(3))
  then show w': "w < node_count t" using edges_with_range [OF t] by blast
  show "may_propagate t (pr_resource_ids p ! u) (pr_resource_ids p ! w)"
    using e may_propagate_edges(1) [OF t u w'] q(5) u w' by simp
qed

lemma reach_exposed:
  assumes t: "wf_topology t" and b: "problem_build (graph_build t) (planner_spec t v policy) = Inr p"
    and C: "C \<subseteq> {..<node_count t}"
    and u: "u \<in> reach (pr_node_count p) (problem_succ p) (set (pr_sources p)) (\<lambda>v. v \<in> C)"
  shows "u < node_count t \<and> exposed t (present_resources v) (resources_at p C) (pr_resource_ids p ! u)"
proof -
  note q = planner_problem [OF t b]
  have outside: "pr_resource_ids p ! x \<notin> resources_at p C" if "x < node_count t" "x \<notin> C" for x
    using that C pr_ids_inj [OF q(2), of "{..<node_count t}"] q(4)
    by (auto simp: resources_at_def dest: inj_onD)
  let ?X = "{x. x < node_count t \<and> exposed t (present_resources v) (resources_at p C) (pr_resource_ids p ! x)}"
  have "reach (pr_node_count p) (problem_succ p) (set (pr_sources p)) (\<lambda>v. v \<in> C) \<subseteq> ?X"
  proof (rule reach_least)
    show "{s \<in> set (pr_sources p). s \<notin> C} \<subseteq> ?X"
      using outside unfolding q(14)
      by (auto simp: set_known_sources known_source_set_def intro: exposed.failed)
    show "w \<in> ?X" if "x \<in> ?X" "x < pr_node_count p" "w \<in> set (problem_succ p x)" "w \<notin> C" for x w
      using that problem_succ_propagates [OF t b _ that(3)] outside
      by (auto simp: q(4) intro: exposed.spreads)
  qed
  then show ?thesis using u by blast
qed

lemma separates_refines:
  assumes t: "wf_topology t" and b: "problem_build (graph_build t) (planner_spec t v policy) = Inr p"
    and C: "C \<subseteq> {..<node_count t}"
  shows "separates p C \<longleftrightarrow>
    (\<forall>r. exposed t (present_resources v) (resources_at p C) r \<longrightarrow> \<not> resource_protected t r)"
proof
  note q = planner_problem [OF t b]
  obtain xs where xs: "set xs = C" using C finite_list finite_subset finite_lessThan by metis
  then have eq: "set (ids_at p xs) = resources_at p C" by (simp add: resources_at_ids)
  assume sep: "separates p C"
  show "\<forall>r. exposed t (present_resources v) (resources_at p C) r \<longrightarrow> \<not> resource_protected t r"
  proof (intro allI impI)
    fix r assume x: "exposed t (present_resources v) (resources_at p C) r"
    obtain u where "u < node_count t" "r = pr_resource_ids p ! u"
        "u \<in> reach (pr_node_count p) (problem_succ p) (set (pr_sources p)) (\<lambda>v. v \<in> C)"
      using exposed_reach [OF t b x [folded eq]] C unfolding xs by blast
    then show "\<not> resource_protected t r"
      using sep q(7) [of u] unfolding separates_def resource_protected_def by blast
  qed
next
  note q = planner_problem [OF t b]
  assume a: "\<forall>r. exposed t (present_resources v) (resources_at p C) r \<longrightarrow> \<not> resource_protected t r"
  show "separates p C"
    unfolding separates_def
  proof
    fix u assume "u \<in> reach (pr_node_count p) (problem_succ p) (set (pr_sources p)) (\<lambda>v. v \<in> C)"
    from reach_exposed [OF t b C this] a show "\<not> is_protected p u"
      by (simp add: q(7) resource_protected_def)
  qed
qed

subsection \<open>The refinement\<close>

lemma eligible_refines:
  assumes t: "wf_topology t" and b: "problem_build (graph_build t) (planner_spec t v policy) = Inr p"
    and x: "x < node_count t"
  shows "eligible t policy (pr_resource_ids p ! x) \<longleftrightarrow> is_containable p x"
    and "resource_weight t (pr_resource_ids p ! x) = unat (weight p x)"
    and "resource_protected t (pr_resource_ids p ! x) \<longleftrightarrow> is_protected p x"
proof -
  note q = planner_problem [OF t b]
  have f: "topology_find t (pr_resource_ids p ! x) = Some x"
    using topology_find_iff [OF t] q(5) [OF x] x by simp
  show "resource_protected t (pr_resource_ids p ! x) \<longleftrightarrow> is_protected p x"
    using q(7) [OF x] by (simp add: resource_protected_def)
  show "eligible t policy (pr_resource_ids p ! x) \<longleftrightarrow> is_containable p x"
    using f q(13) [OF x] q(7) [OF x] q(5) [OF x] set_protected_obligations [OF x t]
    by (simp add: eligible_def)
  show "resource_weight t (pr_resource_ids p ! x) = unat (weight p x)"
    using f x problem_build_fields(6) [OF t b] by (simp add: resource_weight_def weight_def node_count_def)
qed

lemma eligible_range:
  assumes "wf_topology t" and b: "problem_build (graph_build t) (planner_spec t v policy) = Inr p"
    and "eligible t policy r"
  obtains x where "x < node_count t" "r = pr_resource_ids p ! x"
proof -
  obtain x where "topology_find t r = Some x" using assms(3) by (auto simp: eligible_def split: option.splits)
  then have "x < node_count t" "ns_id (t_nodes t ! x) = r" using topology_find_iff [OF assms(1)] by auto
  then show thesis using that planner_problem(5) [OF assms(1) b] by metis
qed

lemma sums_refine:
  assumes t: "wf_topology t" and b: "problem_build (graph_build t) (planner_spec t v policy) = Inr p"
    and C: "C \<subseteq> {..<node_count t}"
  shows "(\<Sum>r \<in> resources_at p C. resource_weight t r) = weight_sum p C"
    and "card (resources_at p C) = card C"
    and "card {r \<in> resources_at p C. resource_protected t r} = protected_count p C"
proof -
  note q = planner_problem [OF t b] and e = eligible_refines [OF t b]
  have inj: "inj_on (\<lambda>i. pr_resource_ids p ! i) C" using pr_ids_inj [OF q(2)] C q(4) by simp
  show "(\<Sum>r \<in> resources_at p C. resource_weight t r) = weight_sum p C"
    unfolding resources_at_def weight_sum_def sum.reindex [OF inj] using C e(2) by (auto intro: sum.cong)
  show "card (resources_at p C) = card C" unfolding resources_at_def by (rule card_image [OF inj])
  have "{r \<in> resources_at p C. resource_protected t r} = (\<lambda>i. pr_resource_ids p ! i) ` {x \<in> C. is_protected p x}"
    unfolding resources_at_def using C e(3) by auto
  then show "card {r \<in> resources_at p C. resource_protected t r} = protected_count p C"
    unfolding protected_count_def by (simp add: card_image inj_on_subset [OF inj])
qed

lemma source_inclusion_refines:
  assumes t: "wf_topology t" and b: "problem_build (graph_build t) (planner_spec t v policy) = Inr p"
    and C: "C \<subseteq> {..<node_count t}"
  shows "(\<forall>s \<in> set (pr_sources p). is_containable p s \<longrightarrow> s \<in> C) \<longleftrightarrow>
    (\<forall>r \<in> known_source_set t v. eligible t policy r \<longrightarrow> r \<in> resources_at p C)"
proof -
  note q = planner_problem [OF t b] and e = eligible_refines [OF t b]
  have mem: "pr_resource_ids p ! x \<in> resources_at p C \<longleftrightarrow> x \<in> C" if "x < node_count t" for x
    using that C pr_ids_inj [OF q(2), of "{..<node_count t}"] q(4)
    by (auto simp: resources_at_def dest: inj_onD)
  have "\<exists>x < node_count t. r = pr_resource_ids p ! x" if "r \<in> known_source_set t v" for r
    using that topology_find_iff [OF t] q(5) by (fastforce simp: known_source_set_def)
  then have "known_source_set t v = resources_at p (set (pr_sources p))"
    unfolding resources_at_def q(14) set_known_sources by auto
  then show ?thesis using e(1) mem unfolding q(14) by (auto simp: resources_at_def)
qed

lemma feasible_refines:
  assumes t: "wf_topology t" and b: "problem_build (graph_build t) (planner_spec t v policy) = Inr p"
    and C: "C \<subseteq> {..<node_count t}"
  shows "feasible p C \<longleftrightarrow> containment_set t v policy (resources_at p C)"
proof -
  note q = planner_problem [OF t b] and e = eligible_refines [OF t b]
  have "(\<forall>x \<in> C. x < pr_node_count p \<and> is_containable p x) \<and>
      (pr_allow_protected p \<or> (\<forall>x \<in> C. \<not> is_protected p x)) \<longleftrightarrow>
      (\<forall>r \<in> resources_at p C. eligible t policy r)"
    using C e(1) q(4,9,13) by (auto simp: resources_at_def subset_iff)
  then show ?thesis
    unfolding feasible_def containment_set_def separates_refines [OF t b C] sums_refine [OF t b C]
      source_inclusion_refines [OF t b C] q(8,11,12) by blast
qed

lemma exact_key_refines:
  assumes t: "wf_topology t" and b: "problem_build (graph_build t) (planner_spec t v policy) = Inr p"
    and C: "C \<subseteq> {..<node_count t}"
  shows "exact_key p (pr_minimize_protected p) C = containment_cost t policy (resources_at p C)"
proof -
  note q = planner_problem [OF t b]
  have "signature p C = sorted_list_of_set (resources_at p C)"
    using signature_resources [OF q(2)] C q(4) by simp
  then show ?thesis unfolding exact_key_def containment_cost_def sums_refine [OF t b C] q(10) by simp
qed

lemma containment_set_indices:
  assumes t: "wf_topology t" and b: "problem_build (graph_build t) (planner_spec t v policy) = Inr p"
    and R: "containment_set t v policy R"
  obtains C where "C \<subseteq> {..<node_count t}" "R = resources_at p C" "feasible p C"
proof -
  let ?C = "{x. x < node_count t \<and> pr_resource_ids p ! x \<in> R}"
  have "\<exists>x < node_count t. r = pr_resource_ids p ! x" if "r \<in> R" for r
    using that R eligible_range [OF t b] by (metis containment_set_def)
  then have "R = resources_at p ?C" by (auto simp: resources_at_def)
  moreover have "?C \<subseteq> {..<node_count t}" by auto
  ultimately show thesis using that feasible_refines [OF t b] R by metis
qed

lemma regular_refines:
  assumes t: "wf_topology t" and b: "problem_build (graph_build t) (planner_spec t v policy) = Inr p"
  shows "sound_instance p \<longleftrightarrow> regular_instance t v policy"
proof -
  note q = planner_problem [OF t b]
  have "(\<forall>r \<in> known_source_set t v. \<not> resource_protected t r) \<longleftrightarrow>
      set (pr_sources p) \<inter> set (pr_protected p) = {}"
  proof -
    have "r \<in> known_source_set t v \<Longrightarrow> \<exists>x < node_count t. r = pr_resource_ids p ! x" for r
      using topology_find_iff [OF t] q(5) by (fastforce simp: known_source_set_def)
    then have "known_source_set t v = resources_at p (set (pr_sources p))"
      unfolding resources_at_def q(14) set_known_sources by auto
    then show ?thesis
      using eligible_refines(3) [OF t b] problem_build_fields(19) [OF t b]
      by (auto simp: resources_at_def is_protected_iff [OF q(2)])
  qed
  then show ?thesis unfolding sound_instance_iff [OF q(2)] regular_instance_def q(8,9) by blast
qed

subsection \<open>Optimality and infeasibility on resources\<close>

lemma proven_plan_optimal:
  assumes inp: "valid_inputs inputs t v policy" and reg: "regular_instance t v policy"
    and c: "compute_plan inputs authority generation = Some (Inr c)"
    and p: "pl_problem c \<noteq> None" and opt: "p_optimality (pl_plan c) = OptimalProven"
    and R: "containment_set t v policy R"
  shows "containment_set t v policy (contained_resources (pl_plan c)) \<and>
    containment_cost t policy (contained_resources (pl_plan c)) \<le> containment_cost t policy R"
proof -
  have t: "wf_topology t" using inp by (simp add: valid_inputs_def)
  obtain p where p: "pl_problem c = Some p" using p by blast
  from inp c p show ?thesis
  proof (cases rule: solved_plan_cases)
    case (solution sol)
    note d = solution_planD [OF t solution] and q = planner_problem [OF t d(1)]
    have s: "solve p (planner_budget policy) (unat (cp_node_limit policy)) = Some sol"
        "cs_status sol = SolvedOptimal"
      using solution opt unfolding solution_plan_def Let_def by (auto split: if_splits)
    obtain C where C: "C \<subseteq> {..<node_count t}" "R = resources_at p C" "feasible p C"
      using containment_set_indices [OF t d(1) R] by blast
    have snd: "sound_instance p" using reg regular_refines [OF t d(1)] by simp
    show ?thesis
      using planned_members_optimal [OF q(2) snd s C(3)] d(4) feasible_refines [OF t d(1) d(3)]
      unfolding d(2) resources_at_ids C(2) exact_key_refines [OF t d(1) d(3)] exact_key_refines [OF t d(1) C(1)]
      by blast
  next
    case (infeasible sol)
    have snd: "sound_instance p" using reg regular_refines [OF t infeasible(1)] by simp
    obtain C where "feasible p C" using containment_set_indices [OF t infeasible(1) R] by blast
    then show ?thesis
      using solve_infeasible [OF planner_problem(2) [OF t infeasible(1)] snd infeasible(2,3)] by blast
  next
    case undecided
    then show ?thesis using opt by simp
  qed
qed

lemma infeasible_plan_refutes:
  assumes inp: "valid_inputs inputs t v policy" and reg: "regular_instance t v policy"
    and c: "compute_plan inputs authority generation = Some (Inr c)"
    and claim: "p_claim (pl_plan c) = ClaimProvenInfeasible"
  shows "\<not> containment_set t v policy R"
proof
  assume R: "containment_set t v policy R"
  have t: "wf_topology t" using inp by (simp add: valid_inputs_def)
  from inp c claim obtain p sol where b: "problem_build (graph_build t) (planner_spec t v policy) = Inr p"
      and sol: "solve p (planner_budget policy) (unat (cp_node_limit policy)) = Some sol"
        "cs_status sol = SolvedInfeasible"
    by (rule infeasible_plan_cases)
  have snd: "sound_instance p" using reg regular_refines [OF t b] by simp
  obtain C where "feasible p C" using containment_set_indices [OF t b R] by blast
  then show False using solve_infeasible [OF planner_problem(2) [OF t b] snd sol] by blast
qed

lemma claimed_plan_feasible:
  assumes inp: "valid_inputs inputs t v policy"
    and c: "compute_plan inputs authority generation = Some (Inr c)"
    and p: "pl_problem c \<noteq> None" and claim: "claims_containment (pl_plan c)"
  shows "containment_set t v policy (contained_resources (pl_plan c))"
proof -
  have t: "wf_topology t" using inp by (simp add: valid_inputs_def)
  obtain p where p: "pl_problem c = Some p" using p by blast
  from inp c p show ?thesis
  proof (cases rule: solved_plan_cases)
    case (solution sol)
    note d = solution_planD [OF t solution]
    show ?thesis using d(4) feasible_refines [OF t d(1) d(3)] unfolding d(2) resources_at_ids by simp
  qed (use claim in \<open>auto simp: claims_containment_def\<close>)
qed

subsection \<open>Certificates\<close>

text \<open>
  A certificate that \<open>verify_infeasibility_witness\<close> accepts, on resources: a propagation path
  from a failed resource to a protected obligation on which nothing may be contained.
\<close>

definition propagation_path :: "topology \<Rightarrow> resource_id list \<Rightarrow> bool" where
  "propagation_path t path \<longleftrightarrow> path \<noteq> [] \<and> successively (may_propagate t) path"

definition refuting_path :: "topology \<Rightarrow> evidence_vector \<Rightarrow> containment_policy \<Rightarrow> resource_id list \<Rightarrow> bool" where
  "refuting_path t v policy path \<longleftrightarrow>
     propagation_path t path \<and> hd path \<in> known_source_set t v \<and> resource_protected t (last path) \<and>
     (\<forall>r \<in> set path. \<not> eligible t policy r)"

lemma walk_propagates:
  assumes t: "wf_topology t" and b: "problem_build (graph_build t) (planner_spec t v policy) = Inr p"
    and w: "walk (pr_node_count p) (problem_succ p) xs" and ne: "xs \<noteq> []"
  shows "propagation_path t (ids_at p xs)"
proof -
  note q = planner_problem [OF t b]
  have "successively (may_propagate t) (map (\<lambda>i. pr_resource_ids p ! i) xs)"
    unfolding successively_map
    by (rule successively_mono [OF w [unfolded walk_def]])
      (use problem_succ_propagates(2) [OF t b] q(4) in auto)
  then show ?thesis using ne by (simp add: propagation_path_def ids_at_def)
qed

lemma refuting_path_exposes:
  assumes "refuting_path t v policy path" and "\<forall>r \<in> R. eligible t policy r"
  shows "exposed t (present_resources v) R (last path)"
proof -
  have p: "path \<noteq> []" "successively (may_propagate t) path" "hd path \<in> known_source_set t v"
      "\<forall>r \<in> set path. r \<notin> R"
    using assms by (auto simp: refuting_path_def propagation_path_def)
  have "exposed t (present_resources v) R (hd path) \<Longrightarrow> exposed t (present_resources v) R (last path)"
    using p(1,2,4)
  proof (induction path rule: induct_list012)
    case (3 x y path)
    then have "exposed t (present_resources v) R y" by (auto intro: exposed.spreads)
    then show ?case using 3 by simp
  qed simp_all
  moreover have "exposed t (present_resources v) R (hd path)"
    using p by (intro exposed.failed) (auto simp: known_source_set_def)
  ultimately show ?thesis by blast
qed

lemma refuting_path_refutes: "refuting_path t v policy path \<Longrightarrow> \<not> containment_set t v policy R"
  using refuting_path_exposes [of t v policy path R]
  unfolding containment_set_def refuting_path_def by blast

lemma certificate_refutes:
  assumes inp: "valid_inputs inputs t v policy" and req: "cp_require_source policy"
    and c: "compute_plan inputs authority generation = Some (Inr c)"
    and claim: "p_claim (pl_plan c) = ClaimProvenInfeasible" and present: "iw_present (p_infeasibility (pl_plan c))"
  shows "refuting_path t v policy (iw_path (p_infeasibility (pl_plan c)))"
proof -
  have t: "wf_topology t" using inp by (simp add: valid_inputs_def)
  from inp c claim obtain p sol where b: "problem_build (graph_build t) (planner_spec t v policy) = Inr p"
      and sol: "solve p (planner_budget policy) (unat (cp_node_limit policy)) = Some sol"
        "cs_status sol = SolvedInfeasible"
      and inf: "p_infeasibility (pl_plan c) =
        \<lparr>iw_present = cs_has_witness sol, iw_path = ids_at p (cs_infeasibility_path sol)\<rparr>"
    by (rule infeasible_plan_cases)
  note q = planner_problem [OF t b] and e = eligible_refines [OF t b]
  let ?path = "cs_infeasibility_path sol"
  have w: "verify_infeasibility_witness p ?path" "set ?path \<subseteq> {..<pr_node_count p}"
    using solve_witness [OF q(2) _ sol(1) _ sol(2)] req present q(8) inf by simp_all
  note v = w(1) [unfolded verify_infeasibility_witness_iff [OF q(2) w(2)]]
  have ne: "?path \<noteq> []" using v by auto
  have ends: "hd (ids_at p ?path) = pr_resource_ids p ! hd ?path"
      "last (ids_at p ?path) = pr_resource_ids p ! last ?path"
    using ne by (simp_all add: ids_at_def hd_map last_map)
  have "last ?path < node_count t" using w(2) last_in_set [OF ne] q(4) by auto
  then have "resource_protected t (last (ids_at p ?path))" using v e(3) by (simp add: ends)
  moreover have "hd (ids_at p ?path) \<in> known_source_set t v"
    using v q(14) by (auto simp: ends set_known_sources)
  moreover have "\<forall>r \<in> set (ids_at p ?path). \<not> eligible t policy r"
    using v e(1) w(2) q(4) by (auto simp: ids_at_def subset_iff)
  ultimately show ?thesis
    using walk_propagates [OF t b _ ne] v inf by (simp add: refuting_path_def)
qed

subsection \<open>Witness paths of the members\<close>

text \<open>
  The path attached to a member, over the members other than itself. \<open>uses_unknown\<close> is false
  exactly when every link of the path is proven.
\<close>

lemma path_uses_unknown_iff:
  assumes t: "wf_topology t" and w: "walk (node_count t) (conservative_successors (graph_build t)) path"
  shows "path_uses_unknown (graph_build t) path \<longleftrightarrow> \<not> successively (\<lambda>u v. (u, v) \<in> proven_edges t) path"
  using w
proof (induction path rule: induct_list012)
  case (3 u v path)
  have u: "u < node_count t" "v \<in> set (conservative_successors (graph_build t) u)"
    using 3(3) by (simp_all add: walk_def)
  then have e: "(u, v) \<in> conservative_edges t" using successors_iff [OF t] by simp
  have "std_binary_search (proven_successors (graph_build t) u) v \<longleftrightarrow> (u, v) \<in> proven_edges t"
    using proven_successors_iff [OF t u(1)] successors_sorted(2) [OF t u(1)]
    by (simp add: std_binary_search_sorted)
  moreover have "has_unknown_edge (graph_build t) u v \<longleftrightarrow> (u, v) \<in> unknown_edges t"
    by (rule has_unknown_edge_iff [OF t])
  moreover have "(u, v) \<in> proven_edges t \<or> (u, v) \<in> unknown_edges t"
    using e by (auto simp: edges_with_def image_iff intro: edge_evidence.exhaust)
  moreover have "walk (node_count t) (conservative_successors (graph_build t)) (v # path)"
    using 3(3) by (simp add: walk_def)
  ultimately show ?case using 3(2) by auto
qed (simp_all add: walk_def)

lemma undroppable_reaches:
  assumes wf: "wf_problem p" and f: "feasible p C" and nd: "\<not> droppable p C x" and ns: "\<not> is_source p x"
  obtains w where "w \<in> reach (pr_node_count p) (problem_succ p) (set (pr_sources p)) (\<lambda>v. v \<in> C - {x})"
    "is_protected p w" "w \<notin> set (pr_sources p)"
proof -
  have fin: "finite C" using finite_subset [OF feasible_range [OF f]] by simp
  have le: "weight_sum p (C - {x}) \<le> weight_sum p C" "card (C - {x}) \<le> card C"
    using fin by (auto intro: weight_sum_mono card_mono)
  have "x \<notin> set (pr_sources p)" using ns is_source_iff [OF wf] by simp
  then have "\<not> separates p (C - {x})"
    using nd f le unfolding droppable_def feasible_def by auto
  then obtain w where w: "w \<in> reach (pr_node_count p) (problem_succ p) (set (pr_sources p)) (\<lambda>v. v \<in> C - {x})"
      "is_protected p w" by (auto simp: separates_def)
  have "w \<notin> set (pr_sources p)"
  proof
    assume s: "w \<in> set (pr_sources p)"
    then have "w \<notin> C" using reach_not_avoid [OF w(1)] ns is_source_iff [OF wf] by auto
    then have "w \<in> reach (pr_node_count p) (problem_succ p) (set (pr_sources p)) (\<lambda>v. v \<in> C)"
      using s by (intro reach_source)
    then show False using f w(2) by (auto simp: feasible_def separates_def)
  qed
  then show thesis using that w by blast
qed

lemma planned_member_witness:
  assumes wf: "wf_problem p" and sol: "solve p budget limit = Some sol" and has: "has_solution sol"
    and x: "x \<in> set (planned_members p sol)" and ns: "\<not> is_source p x"
  defines "ms \<equiv> planned_members p sol"
  shows "x \<in> set (fst (find_witness_path p (filter (\<lambda>y. y \<noteq> x) ms)))"
    and "residual_path (pr_node_count p) (problem_succ p) (set (pr_sources p)) (\<lambda>v. v \<in> set ms - {x})
      (is_protected p) (fst (find_witness_path p (filter (\<lambda>y. y \<noteq> x) ms)))"
proof -
  note m = planned_members_spec [OF wf sol has, folded ms_def]
  let ?find = "\<lambda>avoid. bfs_path (pr_node_count p) (problem_succ p) (pr_sources p) (is_source p) avoid (is_protected p)"
  have range: "set (filter (\<lambda>y. y \<noteq> x) ms) \<subseteq> {..<pr_node_count p}"
    using feasible_range [OF m(2)] by auto
  then have "flag (mark_all (no_marks (pr_node_count p)) (filter (\<lambda>y. y \<noteq> x) ms)) = (\<lambda>v. v \<in> set ms - {x})"
    by (auto simp: flag_mask_set mask_set_mark_all)
  then have path: "fst (find_witness_path p (filter (\<lambda>y. y \<noteq> x) ms)) = ?find (\<lambda>v. v \<in> set ms - {x})"
    by (simp add: find_witness_path_def Let_def)
  have "\<not> droppable p (set ms) x"
    using m(5) [OF x [folded ms_def]] ns by (simp add: planner_keeps_def)
  then obtain w where "w \<in> reach (pr_node_count p) (problem_succ p) (set (pr_sources p)) (\<lambda>v. v \<in> set ms - {x})"
      "is_protected p w" "w \<notin> set (pr_sources p)"
    using undroppable_reaches [OF wf m(2) _ ns] by blast
  then have ne: "?find (\<lambda>v. v \<in> set ms - {x}) \<noteq> []" using residual.none [OF wf] by blast
  show "x \<in> set (fst (find_witness_path p (filter (\<lambda>y. y \<noteq> x) ms)))"
    unfolding path using m(2) by (intro residual.found_through [OF wf _ ne]) (simp add: feasible_def separates_def)
  show "residual_path (pr_node_count p) (problem_succ p) (set (pr_sources p)) (\<lambda>v. v \<in> set ms - {x})
      (is_protected p) (fst (find_witness_path p (filter (\<lambda>y. y \<noteq> x) ms)))"
    unfolding path by (rule residual.found [OF wf ne])
qed

text \<open>
  On resources: a member that has not failed comes with a propagation path from a failed
  resource to a protected obligation that runs through it and through no other member.
\<close>

definition witnessed :: "topology \<Rightarrow> evidence_vector \<Rightarrow> resource_id set \<Rightarrow> boundary_member \<Rightarrow> bool" where
  "witnessed t v R m \<longleftrightarrow>
     (let path = bm_witness_path m
      in propagation_path t path \<and> hd path \<in> known_source_set t v \<and> resource_protected t (last path) \<and>
         bm_resource m \<in> set path \<and> (\<forall>r \<in> set path. r \<in> R \<longrightarrow> r = bm_resource m) \<and>
         (bm_uses_unknown m \<longleftrightarrow> \<not> successively (proven_to_propagate t) path) \<and>
         bm_reason m = (if bm_uses_unknown m then IncUnknownPath else IncProvenPath))"

lemma residual_path_witness:
  assumes t: "wf_topology t" and b: "problem_build (graph_build t) (planner_spec t v policy) = Inr p"
    and ms: "set ms \<subseteq> {..<node_count t}" and xs: "x \<in> set xs" "x \<in> set ms" "\<not> is_source p x"
    and path: "find_witness_path p (filter (\<lambda>y. y \<noteq> x) ms) = (xs, unknown)"
    and r: "residual_path (pr_node_count p) (problem_succ p) (set (pr_sources p)) (\<lambda>v. v \<in> set ms - {x})
      (is_protected p) xs"
  shows "witnessed t v (resources_at p (set ms)) (boundary_entry p ms x)"
proof -
  note q = planner_problem [OF t b]
  have f: "2 \<le> length xs" "hd xs \<in> set (pr_sources p)" "is_protected p (last xs)"
      "walk (pr_node_count p) (problem_succ p) xs" "set xs \<subseteq> {..<node_count t}"
      "\<forall>y \<in> set xs. y \<notin> set ms - {x}"
    using r q(4) by (auto simp: residual_path_def)
  then have ne: "xs \<noteq> []" by auto
  have w: "walk (node_count t) (conservative_successors (graph_build t)) xs"
    using f(4) by (simp add: problem_succ_def q(3,4))
  have m: "boundary_entry p ms x = \<lparr>bm_resource = pr_resource_ids p ! x,
      bm_reason = (if unknown then IncUnknownPath else IncProvenPath), bm_protected = is_protected p x,
      bm_weight = weight p x, bm_witness_path = ids_at p xs, bm_uses_unknown = unknown\<rparr>"
    using xs path ne by (simp add: boundary_entry_def Let_def)
  have "unknown \<longleftrightarrow> \<not> successively (\<lambda>u v. (u, v) \<in> proven_edges t) xs"
    using path path_uses_unknown_iff [OF t w] by (auto simp: find_witness_path_def Let_def q(3))
  also have "\<dots> \<longleftrightarrow> \<not> successively (proven_to_propagate t) (ids_at p xs)"
    unfolding ids_at_def successively_map
    using f(5) q(5) may_propagate_edges(2) [OF t]
    by (intro arg_cong [of _ _ Not] successively_cong) (auto simp: subset_iff)
  finally have unknown: "unknown \<longleftrightarrow> \<not> successively (proven_to_propagate t) (ids_at p xs)" .
  have inj: "inj_on (\<lambda>i. pr_resource_ids p ! i) {..<node_count t}" using pr_ids_inj [OF q(2)] q(4) by simp
  have through: "y = x" if "y \<in> set xs" "pr_resource_ids p ! y = pr_resource_ids p ! z" "z \<in> set ms" for y z
  proof -
    have "y = z" using inj_onD [OF inj that(2)] that(1,3) f(5) ms by blast
    then show ?thesis using f(6) that by blast
  qed
  have "last xs < node_count t" using f(5) last_in_set [OF ne] by blast
  then have ends: "hd (ids_at p xs) \<in> known_source_set t v" "resource_protected t (last (ids_at p xs))"
    using f(2,3,5) ne q(14) q(7) last_in_set [OF ne]
    by (auto simp: ids_at_def hd_map last_map set_known_sources resource_protected_def)
  have "pr_resource_ids p ! x \<in> set (ids_at p xs)" using xs(1) by (simp add: ids_at_def)
  moreover have "\<forall>r \<in> set (ids_at p xs). r \<in> resources_at p (set ms) \<longrightarrow> r = pr_resource_ids p ! x"
    using through by (auto simp: ids_at_def resources_at_def)
  ultimately show ?thesis
    unfolding witnessed_def m Let_def boundary_member.select_convs
    using walk_propagates [OF t b f(4) ne] ends unknown by blast
qed

lemma plan_members_witnessed:
  assumes inp: "valid_inputs inputs t v policy"
    and c: "compute_plan inputs authority generation = Some (Inr c)"
    and m: "m \<in> set (b_members (p_boundary (pl_plan c)))" and nf: "bm_resource m \<notin> set (present_resources v)"
  shows "witnessed t v (contained_resources (pl_plan c)) m"
proof -
  have t: "wf_topology t" using inp by (simp add: valid_inputs_def)
  from inp c show ?thesis
  proof (cases rule: compute_plan_cases)
    case quiet
    then show ?thesis using m plan_no_failures_result by fastforce
  next
    case missing
    then show ?thesis using m plan_all_missing_result by fastforce
  next
    case unprotected
    have "m \<in> set (fst (source_members t (known_sources t v)))"
      using m boundary_create_members [OF plan_no_obligations_result(1) [OF unprotected(3)]] by simp
    from source_members_containable [OF this] show ?thesis
      using nf by (simp add: set_known_sources known_source_set_def)
  next
    case (solved p plan)
    from inp c solved(1) show ?thesis
    proof (cases rule: solved_plan_cases)
      case (solution sol)
      note d = solution_planD [OF t solution] and q = planner_problem [OF t solution_planD(1) [OF t solution]]
      let ?ms = "planned_members p sol"
      have s: "solve p (planner_budget policy) (unat (cp_node_limit policy)) = Some sol" "has_solution sol"
          "set (b_members (p_boundary (pl_plan c))) = boundary_entry p ?ms ` set ?ms"
        using solution unfolding solution_plan_def Let_def by blast+
      obtain x where x: "x \<in> set ?ms" "m = boundary_entry p ?ms x" using m s(3) by blast
      then have "x < node_count t" using d(3) by auto
      then have ns: "\<not> is_source p x" using nf q(6) x(2) by (simp add: set_known_sources known_source_set_def)
      note w = planned_member_witness [OF q(2) s(1,2) x(1) ns]
      show ?thesis
        unfolding d(2) resources_at_ids x(2)
        by (rule residual_path_witness [OF t d(1,3) w(1) x(1) ns prod.collapse [symmetric] w(2)])
    qed (use m in \<open>auto simp: default_boundary_def\<close>)
  qed
qed

subsection \<open>Plans that cannot be read back\<close>

lemma default_boundary_plan_undecodable:
  assumes "p_boundary p = default_boundary"
  shows "\<not> is_ok (plan_decode (plan_encode p))"
proof -
  have bl: "length (boundary_encode default_boundary) \<le> kMaxRecordPayloadBytes"
      "length (boundary_encode default_boundary) < 2 ^ 32"
    by (simp_all add: boundary_encode_def default_boundary_def w_size32_def kMaxRecordPayloadBytes_def
        w_u64_def w_u32_def w_le_def)
  have ab: "length (authority_encode (p_authority p)) \<le> 1024"
      "length (authority_encode (p_authority p)) < 2 ^ 32" by simp_all
  note blob = r_blob_read_back [OF bl] r_blob_read_back [OF ab]
  note enums = claim_enum.decode_code feasibility_enum.decode_code optimality_enum.decode_code
    currency_enum.decode_code
  have "read_plan (plan_encode p) = err InvalidArgument ''boundary generation must be non-zero''"
    unfolding read_plan_def plan_encode_def assms
    by (simp only: codec_simps append_assoc Let_def prod.case try_result.simps option.case blob enums
        default_boundary_decode err_def)
  then show ?thesis by (simp add: plan_decode_def err_def is_ok_def)
qed

lemma infeasible_plan_undecodable:
  assumes "valid_inputs inputs t v policy"
    and "compute_plan inputs authority generation = Some (Inr c)"
    and "p_claim (pl_plan c) = ClaimProvenInfeasible"
  shows "\<not> is_ok (plan_decode (plan_encode (pl_plan c)))"
  by (rule infeasible_plan_cases [OF assms]) (rule default_boundary_plan_undecodable)

end
