(* ===== verification/Examples.thy ===== *)
theory Examples
  imports Engine_Refinement
begin

section \<open>A concrete deployment\<close>

text \<open>
  Three resources in a chain: a failure at \<open>s\<close> may spread to \<open>m\<close>, and \<open>m\<close> is known to
  spread to the protected obligation \<open>p\<close>. The witnesses of the properties evaluate the model
  on it, under several policies. Digests stay symbolic: nothing here depends on their values.
\<close>

definition ex_nodes :: "bool \<Rightarrow> node_spec list" where
  "ex_nodes elig =
     [\<lparr>ns_id = ''m'', ns_containable = elig, ns_weight = 3, ns_protected = False, ns_completeness = AdjComplete\<rparr>,
      \<lparr>ns_id = ''p'', ns_containable = False, ns_weight = 9, ns_protected = True, ns_completeness = AdjComplete\<rparr>,
      \<lparr>ns_id = ''s'', ns_containable = elig, ns_weight = 5, ns_protected = False, ns_completeness = AdjComplete\<rparr>]"

definition ex_edges :: "topo_edge list" where
  "ex_edges =
     [\<lparr>te_from = 0, te_to = 1, te_evidence = EdgeProven, te_generation = 1\<rparr>,
      \<lparr>te_from = 2, te_to = 0, te_evidence = EdgeUnknown, te_generation = 1\<rparr>]"

definition ex_topology :: "bool \<Rightarrow> topology" where
  "ex_topology elig = topology_finalize 1 (ex_nodes elig) (canonical_lookup (ex_nodes elig)) ex_edges"

definition ex_evidence :: evidence_vector where
  "ex_evidence = evidence_recompute
     [\<lparr>ee_resource = ''s'', ee_state = EvPresent, ee_generation = 1, ee_digest = zero_digest\<rparr>]"

definition ex_policy :: "bool \<Rightarrow> containment_policy" where
  "ex_policy req = default_policy\<lparr>cp_require_source := req, cp_exact_budget := 100, cp_heuristic_budget := 100,
     cp_max_weight := 1000, cp_max_members := 16\<rparr>"

definition ex_freshness :: freshness_view where
  "ex_freshness = \<lparr>fv_confirmations = Some [(''s'', 7)], fv_current_boot = BootIdentity 7 1,
     fv_require_confirmation = True\<rparr>"

definition ex_inputs :: "bool \<Rightarrow> bool \<Rightarrow> plan_inputs" where
  "ex_inputs elig req =
     \<lparr>in_topology = Some (ex_topology elig), in_graph = Some (graph_build (ex_topology elig)),
      in_evidence = Some ex_evidence, in_policy = Some (ex_policy req), in_freshness = ex_freshness,
      in_boundary_generation = 4\<rparr>"

definition ex_graph :: "topology \<Rightarrow> graph" where
  "ex_graph t =
     \<lparr>g_topology = Some t, g_conservative = [[1], [], [0]], g_conservative_in = [[2], [0], []],
      g_proven = [[1], [], []], g_touches_unknown = [True, False, True], g_unknown_edges = [(2, 0)],
      g_conservative_count = 2, g_proven_count = 1, g_unknown_count = 1\<rparr>"

definition ex_problem :: "topology \<Rightarrow> digest \<Rightarrow> bool \<Rightarrow> bool \<Rightarrow> problem" where
  "ex_problem t d elig req =
     \<lparr>pr_graph = ex_graph t, pr_node_count = 3, pr_sources = [2], pr_protected = [1],
      pr_candidates = [0, 1, 2], pr_uncontainable_sources = (if elig then [] else [2]), pr_barred = [],
      pr_frontier = [0, 1, 2], pr_resource_ids = [''m'', ''p'', ''s''],
      pr_containable = [elig, False, elig], pr_protected_mask = [False, True, False],
      pr_source_mask = [False, False, True], pr_candidate_mask = [True, True, True],
      pr_relevant = [True, True, True], pr_weights = [3, 9, 5],
      pr_require_source = req, pr_allow_protected = False, pr_minimize_protected = True,
      pr_max_weight = 1000, pr_max_members = 16, pr_digest = d\<rparr>"

lemma ex_topology_wf: "wf_topology (ex_topology elig)"
  unfolding ex_topology_def
proof (rule wf_topology_finalize)
  show "sorted_wrt (<) (map ns_id (ex_nodes elig))" by code_simp
  show "sorted_wrt (<) (map edge_key ex_edges)" by code_simp
  show "\<forall>n \<in> set (ex_nodes elig). wf_node n" by (cases elig; code_simp)
  show "\<forall>e \<in> set ex_edges. wf_edge (length (ex_nodes elig)) e" by (simp add: ex_edges_def ex_nodes_def wf_edge_def)
qed (simp_all add: ex_nodes_def ex_edges_def limit_defs)

lemma ex_inputs_valid: "valid_inputs (ex_inputs elig req) (ex_topology elig) ex_evidence (ex_policy req)"
  by (simp add: valid_inputs_def ex_inputs_def ex_topology_wf)

lemma ex_fields:
  "t_nodes (ex_topology elig) = ex_nodes elig" "t_edges (ex_topology elig) = ex_edges"
  "node_count (ex_topology elig) = 3" "present_resources ex_evidence = [''s'']"
  by (simp_all add: ex_topology_def topology_finalize_def node_count_def ex_nodes_def ex_evidence_def
      evidence_recompute_def present_resources_def)

lemma ex_find:
  "topology_find (ex_topology elig) ''s'' = Some 2" "topology_find (ex_topology elig) ''p'' = Some 1"
  "topology_find (ex_topology elig) ''m'' = Some 0"
  by (simp_all add: topology_find_iff [OF ex_topology_wf] ex_fields) (simp_all add: ex_nodes_def)

lemma ex_sources:
  "known_sources (ex_topology elig) ex_evidence = [''s'']"
  "missing_sources (ex_topology elig) ex_evidence = []"
  "protected_obligations (ex_topology elig) = [''p'']"
  by (simp_all add: known_sources_def missing_sources_def protected_obligations_def ex_fields ex_find ex_nodes_def)

lemma ex_graph_build: "graph_build (ex_topology elig) = ex_graph (ex_topology elig)"
proof -
  have "foldl graph_add_edge \<lparr>g_topology = Some t, g_conservative = replicate 3 [],
      g_conservative_in = replicate 3 [], g_proven = replicate 3 [], g_touches_unknown = no_marks 3,
      g_unknown_edges = [], g_conservative_count = 0, g_proven_count = 0, g_unknown_count = 0\<rparr> ex_edges
    = ex_graph t" for t
    by (simp add: ex_edges_def ex_graph_def graph_add_edge_def append_at_def no_marks_def mark_def
        numeral_3_eq_3 numeral_2_eq_2)
  then show ?thesis
    by (simp add: graph_build_def empty_graph_def default_graph_def ex_fields)
qed

text \<open>The instance of the chain, the solver's answers and the plans.\<close>

lemma ex_planner_spec:
  "planner_spec (ex_topology elig) ex_evidence (ex_policy req) =
     \<lparr>sp_sources = [''s''], sp_protected = [''p''], sp_forced_ineligible = [],
      sp_require_source = req, sp_allow_protected = False, sp_minimize_protected = True,
      sp_max_weight = 1000, sp_max_members = 16\<rparr>"
  by (simp add: planner_spec_def ex_sources ex_policy_def default_policy_def empty_policy_def)

definition ex_instance_digest :: "bool \<Rightarrow> bool \<Rightarrow> digest" where
  "ex_instance_digest elig req = instance_digest_of (ex_topology elig)
     (planner_spec (ex_topology elig) ex_evidence (ex_policy req)) [2] [1] (if elig then [] else [2])
     [0, 1, 2] [3, 9, 5] []"

lemma ex_finalize:
  "problem_finalize (ex_graph (ex_topology elig)) (ex_topology elig)
      (planner_spec (ex_topology elig) ex_evidence (ex_policy req)) []
      [False, False, True] [2] [elig, False, elig] [False, True, False] [1]
   = ex_problem (ex_topology elig) (ex_instance_digest elig req) elig req"
proof -
  have front: "sort (bfs_frontier 3 (conservative_successors (ex_graph t)) [2]) = [0, 1, 2]"
      "bfs_frontier 3 (conservative_predecessors (ex_graph t)) [1] = [1, 0, 2]" for t
    by code_simp+
  have masks: "mark_all (no_marks 3) [1, 0, 2] = [True, True, True]"
      "mark_all (no_marks 3) (filter (flag [True, True, True]) [0, 1, 2]) = [True, True, True]"
    by (simp_all add: mark_all_def mark_def no_marks_def flag_def numeral_3_eq_3 numeral_2_eq_2)
  have all: "filter (flag [True, True, True]) [0..<3] = [0, 1, 2]" by (simp add: flag_def upt_rec)
  have src: "mark_all [True, True, True] (filter (flag [elig, False, elig]) [2]) = [True, True, True]"
      "filter (\<lambda>s. \<not> flag [elig, False, elig] s) [2] = (if elig then [] else [2])"
    by (simp_all add: mark_all_def mark_def flag_def numeral_2_eq_2)
  have nodes: "map ns_id (ex_nodes elig) = [''m'', ''p'', ''s'']" "map ns_weight (ex_nodes elig) = [3, 9, 5]"
    by (simp_all add: ex_nodes_def)
  show ?thesis
    unfolding problem_finalize_def Let_def ex_fields front masks all src nodes ex_problem_def ex_instance_digest_def
    by (cases req) (simp_all only: ex_planner_spec instance_spec.select_convs if_True if_False masks all src)
qed

lemma ex_problem_build:
  "problem_build (graph_build (ex_topology elig)) (planner_spec (ex_topology elig) ex_evidence (ex_policy req))
   = Inr (ex_problem (ex_topology elig) (ex_instance_digest elig req) elig req)"
proof -
  let ?t = "ex_topology elig"
  have idx: "indices_of ?t [''s''] = [2]" "indices_of ?t [''p''] = [1]" "indices_of ?t [] = []"
    by (simp_all add: indices_of_def ex_find)
  have masks: "mark_all (no_marks 3) [2] = [False, False, True]" "mark_all (no_marks 3) [1] = [False, True, False]"
      "sort [1::nat] = [1]" "remdups_adj (sort ([] :: nat list)) = []"
      "foldl (\<lambda>m i. m[i := False]) (foldl unmark [elig, False, elig] []) [1] = [elig, False, elig]"
    by (code_simp | simp)+
  have cont: "map ns_containable (ex_nodes elig) = [elig, False, elig]" by (simp add: ex_nodes_def)
  note fin = ex_finalize [of elig req]
  show ?thesis
    unfolding ex_planner_spec problem_build_iff [OF ex_topology_wf]
    unfolding instance_spec.select_convs idx ex_fields ex_graph_build masks cont fin [unfolded ex_planner_spec]
    by (simp add: all_known_def ex_find limit_defs)
qed

lemma ex_solve:
  "map_option (\<lambda>s. (cs_status s, cs_members s)) (solve (ex_problem t d True False)
      \<lparr>sb_max_explored = 100, sb_max_iterations = 100\<rparr> 4096) = Some (SolvedOptimal, [0])"
  "map_option (\<lambda>s. (cs_status s, cs_members s)) (solve (ex_problem t d True True)
      \<lparr>sb_max_explored = 100, sb_max_iterations = 100\<rparr> 4096) = Some (SolvedOptimal, [2])"
  "map_option (\<lambda>s. (cs_status s, cs_has_witness s)) (solve (ex_problem t d False True)
      \<lparr>sb_max_explored = 100, sb_max_iterations = 100\<rparr> 4096) = Some (SolvedInfeasible, True)"
  by code_simp+

lemma ex_budget:
  "planner_budget (ex_policy req) = \<lparr>sb_max_explored = 100, sb_max_iterations = 100\<rparr>"
  "unat (cp_node_limit (ex_policy req)) = 4096" "cp_require_source (ex_policy req) = req"
  "cp_allow_protected (ex_policy req) = False"
  by (simp_all add: planner_budget_def ex_policy_def default_policy_def empty_policy_def)

lemma ex_minimal:
  "restore_minimality (planner_keeps (ex_problem t d True False)) (ex_problem t d True False) 0 (sort [0]) = [0]"
  "restore_minimality (planner_keeps (ex_problem t d True True)) (ex_problem t d True True) 0 (sort [2]) = [2]"
  by code_simp+

lemma ex_entries:
  "map (boundary_entry (ex_problem t d True False) [0]) [0] =
     [\<lparr>bm_resource = ''m'', bm_reason = IncUnknownPath, bm_protected = False, bm_weight = 3,
       bm_witness_path = [''s'', ''m'', ''p''], bm_uses_unknown = True\<rparr>]"
  "map (boundary_entry (ex_problem t d True True) [2]) [2] =
     [\<lparr>bm_resource = ''s'', bm_reason = IncFailureSource, bm_protected = False, bm_weight = 5,
       bm_witness_path = [''s'', ''m'', ''p''], bm_uses_unknown = True\<rparr>]"
  by code_simp+

lemma distinct_singleton: "distinct xs \<Longrightarrow> set xs = {x} \<Longrightarrow> xs = [x]"
  by (cases xs; cases "tl xs") auto

text \<open>The plan of the chain: \<open>m\<close> alone when any cut will do, \<open>s\<close> when failures must be contained.\<close>

lemma ex_plan_for:
  assumes valid: "valid_inputs inputs (ex_topology True) ex_evidence (ex_policy req)"
    and gen: "in_boundary_generation inputs \<noteq> 0"
    and fresh: "\<not> not_confirmed_since_restart (in_freshness inputs) ex_evidence"
  obtains c where "compute_plan inputs authority generation = Some (Inr c)"
    "pl_problem c \<noteq> None" "p_claim (pl_plan c) = ClaimProvenContainment"
    "p_optimality (pl_plan c) = OptimalProven"
    "contained_resources (pl_plan c) = {if req then ''s'' else ''m''}"
    "length (boundary_encode (p_boundary (pl_plan c))) \<le> 100"
proof -
  let ?x = "if req then 2 else 0 :: nat" and ?t = "ex_topology True"
  let ?p = "ex_problem ?t (ex_instance_digest True req) True req"
  have "map_option (\<lambda>s. (cs_status s, cs_members s)) (solve ?p (planner_budget (ex_policy req)) 4096)
      = Some (SolvedOptimal, [?x])"
    by (cases req) (simp_all add: ex_budget ex_solve)
  then obtain sol where sol: "solve ?p (planner_budget (ex_policy req)) (unat (cp_node_limit (ex_policy req))) = Some sol"
      "cs_status sol = SolvedOptimal" "cs_members sol = [?x]"
    by (auto simp: ex_budget)
  have ms: "planned_members ?p sol = [?x]"
    using ex_minimal by (cases req) (simp_all add: planned_members_def sol(3))
  let ?entries = "map (boundary_entry ?p (planned_members ?p sol)) (planned_members ?p sol)"
  have "wf_members (sort_key bm_resource ?entries)"
    unfolding ms by (cases req) (simp_all only: if_True if_False ex_entries,
      simp_all add: wf_members_def limit_defs)
  then obtain boundary where b: "boundary_create (in_boundary_generation inputs) ?entries = Inr boundary"
    using gen by (simp add: boundary_create_iff)
  have s: "known_sources ?t ex_evidence \<noteq> []" "protected_obligations ?t \<noteq> []" "has_solution sol"
    using sol by (simp_all add: ex_sources has_solution_def)
  obtain c where c: "compute_plan inputs authority generation = Some (Inr c)"
      "pl_problem c = Some ?p" "solution_plan ?t ex_evidence (ex_policy req) (in_freshness inputs) ?p sol (pl_plan c)"
    by (rule compute_plan_solution [OF valid s(1,2) ex_problem_build sol(1) s(3) b])
  have current: "frontier_currency ?t ?p (initial_currency ?t (in_freshness inputs) ex_evidence) = CurrencyCurrent"
    using fresh unfolding frontier_currency_current
    by (simp add: ex_sources ex_fields ex_problem_def ex_nodes_def less_Suc_eq numeral_2_eq_2)
  have "pr_uncontainable_sources ?p = []" by (simp add: ex_problem_def)
  then have "p_claim (pl_plan c) = ClaimProvenContainment" "p_optimality (pl_plan c) = OptimalProven"
    using c(3) sol(2) unfolding solution_plan_def Let_def current claim_for_def by (simp_all add: ids_at_def)
  moreover have "contained_resources (pl_plan c) = {if req then ''s'' else ''m''}"
    unfolding solution_planD(2) [OF ex_topology_wf c(3)] ms by (simp add: ids_at_def ex_problem_def)
  moreover have "length (boundary_encode (p_boundary (pl_plan c))) \<le> 100"
  proof -
    have "distinct (map bm_resource (b_members (p_boundary (pl_plan c))))"
        "set (b_members (p_boundary (pl_plan c))) = set ?entries"
      using c(3) by (auto simp: solution_plan_def Let_def wf_boundary_def wf_members_def strict_sorted_iff)
    then have "b_members (p_boundary (pl_plan c)) = ?entries"
      unfolding ms list.map by (intro distinct_singleton) (simp_all add: distinct_map)
    then show ?thesis
      unfolding ms by (cases req) (simp_all only: if_True if_False ex_entries,
        simp_all add: boundary_encode_def w_member_def w_ids_def w_resource_id_def w_text_def w_u64_def w_u32_def w_u8_def w_boolean_def w_le_def w_size32_def)
  qed
  ultimately show thesis using that [OF c(1)] c(2) by simp
qed

lemma ex_plan_at:
  assumes gen: "gen \<noteq> 0"
  obtains c where "compute_plan ((ex_inputs True req)\<lparr>in_boundary_generation := gen\<rparr>) authority generation = Some (Inr c)"
    "pl_problem c \<noteq> None" "p_claim (pl_plan c) = ClaimProvenContainment"
    "p_optimality (pl_plan c) = OptimalProven"
    "contained_resources (pl_plan c) = {if req then ''s'' else ''m''}"
    "length (boundary_encode (p_boundary (pl_plan c))) \<le> 100"
proof (rule ex_plan_for [of "(ex_inputs True req)\<lparr>in_boundary_generation := gen\<rparr>" req authority generation])
  show "valid_inputs ((ex_inputs True req)\<lparr>in_boundary_generation := gen\<rparr>) (ex_topology True) ex_evidence (ex_policy req)"
    using ex_inputs_valid [of True req] by (simp add: valid_inputs_def)
  show "\<not> not_confirmed_since_restart (in_freshness ((ex_inputs True req)\<lparr>in_boundary_generation := gen\<rparr>)) ex_evidence"
    by (simp add: not_confirmed_since_restart_def ex_fields ex_inputs_def ex_freshness_def confirmed_in_current_boot_def)
qed (use gen in simp)

lemma ex_plan:
  obtains c where "compute_plan (ex_inputs True req) authority generation = Some (Inr c)"
    "pl_problem c \<noteq> None" "p_claim (pl_plan c) = ClaimProvenContainment"
    "p_optimality (pl_plan c) = OptimalProven"
    "contained_resources (pl_plan c) = {if req then ''s'' else ''m''}"
    "length (boundary_encode (p_boundary (pl_plan c))) \<le> 100"
proof -
  have "(ex_inputs True req)\<lparr>in_boundary_generation := 4\<rparr> = ex_inputs True req" by (simp add: ex_inputs_def)
  moreover have "(4 :: boundary_generation) \<noteq> 0" by simp
  ultimately show thesis using ex_plan_at [of 4 req authority generation thesis] that by simp
qed

lemma ex_plan_infeasible_at:
  obtains c where "compute_plan ((ex_inputs False True)\<lparr>in_boundary_generation := gen\<rparr>) authority generation = Some (Inr c)"
    "p_claim (pl_plan c) = ClaimProvenInfeasible" "iw_present (p_infeasibility (pl_plan c))"
    "p_boundary (pl_plan c) = default_boundary"
proof -
  let ?t = "ex_topology False"
  have valid: "valid_inputs ((ex_inputs False True)\<lparr>in_boundary_generation := gen\<rparr>) ?t ex_evidence (ex_policy True)"
    using ex_inputs_valid [of False True] by (simp add: valid_inputs_def)
  let ?p = "ex_problem ?t (ex_instance_digest False True) False True"
  have "map_option (\<lambda>s. (cs_status s, cs_has_witness s)) (solve ?p (planner_budget (ex_policy True)) 4096)
      = Some (SolvedInfeasible, True)"
    by (simp add: ex_budget ex_solve)
  then obtain sol where sol: "solve ?p (planner_budget (ex_policy True)) (unat (cp_node_limit (ex_policy True))) = Some sol"
      "cs_status sol = SolvedInfeasible" "cs_has_witness sol"
    by (auto simp: ex_budget)
  have "known_sources ?t ex_evidence \<noteq> []" "protected_obligations ?t \<noteq> []" by (simp_all add: ex_sources)
  then show thesis
    using compute_plan_infeasible [OF valid _ _ ex_problem_build sol(1,2)] sol(3) that by metis
qed

lemma ex_plan_infeasible:
  obtains c where "compute_plan (ex_inputs False True) authority generation = Some (Inr c)"
    "p_claim (pl_plan c) = ClaimProvenInfeasible" "iw_present (p_infeasibility (pl_plan c))"
    "p_boundary (pl_plan c) = default_boundary"
proof -
  have "(ex_inputs False True)\<lparr>in_boundary_generation := 4\<rparr> = ex_inputs False True" by (simp add: ex_inputs_def)
  then show thesis using ex_plan_infeasible_at [of 4 authority generation thesis] that by simp
qed

lemma ex_regular: "regular_instance (ex_topology elig) ex_evidence (ex_policy req)"
  by (simp add: regular_instance_def ex_budget)

text \<open>Evaluations of the verifier and of the searches on the instance.\<close>

lemma ex_verified:
  "is_ok (verify_cut (ex_problem t d True False) [0])" "is_ok (verify_cut (ex_problem t d True False) [2])"
  "is_ok (verify_cut (ex_problem t d True False) [0, 2])" "source_reaches_protected (ex_problem t d True False) []"
  "verify_infeasibility_witness (ex_problem t d False True) [2, 0, 1]"
  by code_simp+

lemma ex_sound: "sound_instance (ex_problem t d elig req)"
  by (simp add: sound_instance_def ex_problem_def is_protected_def flag_def)

definition ex_authority :: authority_vector where
  "ex_authority = \<lparr>av_epoch = 1, av_boot = BootIdentity 7 1, av_policy = 1, av_topology = 1,
     av_evidence_revision = 1, av_evidence_digest = zero_digest, av_issued_sequence = 1\<rparr>"

end
