(* ===== verification/Core_Decimal.thy ===== *)
theory Core_Decimal
  imports Core_Ids
begin

unbundle bit_operations_syntax

section \<open>Decimal text\<close>

text \<open>
  \<open>std::to_string\<close> and \<open>%llu\<close> on a 64-bit value, \<open>%08x\<close> on a 32-bit value, and the
  checked scanner \<open>parse_u64\<close> of \<open>src/store/store.cpp\<close>: at most 20 digits, refused before
  the multiplication would wrap around. The scanner reads back what the printer writes.
\<close>

definition dec_digit :: "nat \<Rightarrow> char" where
  "dec_digit n = char_of (of_char (CHR ''0'') + n :: nat)"

fun dec_string :: "nat \<Rightarrow> string" where
  "dec_string n = (if n < 10 then [dec_digit n] else dec_string (n div 10) @ [dec_digit (n mod 10)])"

declare dec_string.simps [simp del]

definition u64_string :: "u64 \<Rightarrow> string" where
  "u64_string v = dec_string (unat v)"

definition hex08 :: "u32 \<Rightarrow> string" where
  "hex08 v = map (\<lambda>i. hex_digits ! unat (drop_bit (28 - 4 * i) v AND 15)) [0..<8]"

definition kU64Max :: u64 where "kU64Max = - 1"

text \<open>The loop over the characters, with the accumulated value.\<close>

fun parse_u64_loop :: "u64 \<Rightarrow> string \<Rightarrow> u64 option" where
  "parse_u64_loop value [] = Some value"
| "parse_u64_loop value (c # cs) =
     (if c < CHR ''0'' \<or> c > CHR ''9'' then None
      else let digit = of_nat (of_char c - of_char (CHR ''0''))
           in if value > (kU64Max - digit) div 10 then None
              else parse_u64_loop (value * 10 + digit) cs)"

definition parse_u64 :: "string \<Rightarrow> u64 option" where
  "parse_u64 text = (if text = [] \<or> length text > 20 then None else parse_u64_loop 0 text)"

subsection \<open>The scanner reads back what the printer writes\<close>

lemma dec_digit_cases: "n < 10 \<Longrightarrow> of_char (dec_digit n) = (48 + n :: nat)"
  by (simp add: dec_digit_def of_char_mod_256)

lemma dec_digit_range:
  assumes "n < 10"
  shows "\<not> dec_digit n < CHR ''0''" and "\<not> dec_digit n > CHR ''9''"
  using dec_digit_cases [OF assms] assms by (auto simp: less_char_def)

lemma unat_max_minus_digit: "d < 10 \<Longrightarrow> unat (kU64Max - of_nat d) = 2 ^ 64 - 1 - d"
proof -
  assume d: "d < 10"
  have m: "unat kU64Max = 2 ^ 64 - 1" by (simp add: kU64Max_def unat_minus_one_word)
  have n: "unat (of_nat d :: u64) = d" using d by (simp add: unat_of_nat)
  have "of_nat d \<le> kU64Max" by (simp add: word_le_nat_alt m n) (use d in simp)
  then show ?thesis using unat_sub [of "of_nat d" kU64Max] m n by simp
qed

lemma of_nat_digit_step: "of_nat (10 * unat v + n) = (v :: u64) * 10 + of_nat n"
  by (simp add: mult.commute)

lemma parse_digit_step:
  assumes "n < 10" and "10 * unat v + n < 2 ^ 64"
  shows "parse_u64_loop v (dec_digit n # cs) = parse_u64_loop (of_nat (10 * unat v + n)) cs"
proof -
  have "unat v \<le> (2 ^ 64 - 1 - n) div 10" using assms by simp
  then have lim: "\<not> v > (kU64Max - of_nat n) div 10"
    unfolding word_less_nat_alt unat_div_distrib unat_max_minus_digit [OF assms(1)] by simp
  show ?thesis
    unfolding of_nat_digit_step
    using dec_digit_range [OF assms(1)] dec_digit_cases [OF assms(1)] lim by (simp add: Let_def)
qed

lemma parse_dec_string:
  "unat v * 10 ^ length (dec_string n) + n < 2 ^ 64 \<Longrightarrow>
   parse_u64_loop v (dec_string n @ cs) = parse_u64_loop (of_nat (unat v * 10 ^ length (dec_string n) + n)) cs"
proof (induction n arbitrary: cs rule: dec_string.induct)
  case (1 n)
  show ?case
  proof (cases "n < 10")
    case True
    then show ?thesis
      using "1.prems" parse_digit_step [OF True, of v cs]
      by (simp only: dec_string.simps [of n] if_True list.size append.simps) (simp add: mult.commute)
  next
    case False
    let ?m = "n div 10" let ?k = "length (dec_string ?m)"
    have n: "n = ?m * 10 + n mod 10" by simp
    have l: "length (dec_string n) = Suc ?k" using False by (simp add: dec_string.simps [of n])
    have big: "unat v * 10 ^ Suc ?k + n = 10 * (unat v * 10 ^ ?k + ?m) + n mod 10"
      by (simp add: algebra_simps)
    have lt: "10 * (unat v * 10 ^ ?k + ?m) + n mod 10 < 2 ^ 64"
      using "1.prems" l big by simp
    then have lt': "unat v * 10 ^ ?k + ?m < 2 ^ 64" by simp
    have u: "unat (of_nat (unat v * 10 ^ ?k + ?m) :: u64) = unat v * 10 ^ ?k + ?m"
      using lt' by (simp only: unat_of_nat) simp
    have "parse_u64_loop v (dec_string n @ cs)
        = parse_u64_loop v (dec_string ?m @ dec_digit (n mod 10) # cs)"
      using False by (simp add: dec_string.simps [of n])
    also have "\<dots> = parse_u64_loop (of_nat (unat v * 10 ^ ?k + ?m)) (dec_digit (n mod 10) # cs)"
      by (rule "1.IH" [OF False lt'])
    also have "\<dots> = parse_u64_loop (of_nat (10 * unat (of_nat (unat v * 10 ^ ?k + ?m) :: u64) + n mod 10)) cs"
      by (rule parse_digit_step) (simp, unfold u, rule lt)
    also have "10 * unat (of_nat (unat v * 10 ^ ?k + ?m) :: u64) + n mod 10
        = unat v * 10 ^ length (dec_string n) + n"
      unfolding u l big ..
    finally show ?thesis .
  qed
qed

lemma dec_string_nonempty: "dec_string n \<noteq> []"
  by (subst dec_string.simps) simp

lemma length_dec_string: "n < 10 ^ Suc k \<Longrightarrow> length (dec_string n) \<le> Suc k"
proof (induction k arbitrary: n)
  case 0
  then show ?case by (simp add: dec_string.simps [of n])
next
  case (Suc k)
  have "n div 10 < 10 ^ Suc k" using Suc.prems by (simp add: less_mult_imp_div_less mult.commute)
  then have "length (dec_string (n div 10)) \<le> Suc k" by (rule Suc.IH)
  then show ?case by (simp add: dec_string.simps [of n])
qed

lemma length_u64_string: "length (u64_string v) \<le> 20"
proof -
  have "unat v < 2 ^ 64" using unsigned_less [of v] by simp
  then show ?thesis using length_dec_string [of "unat v" 19] by (simp add: u64_string_def)
qed

lemma parse_u64_string: "parse_u64 (u64_string v) = Some v"
proof -
  have v: "unat v < 2 ^ 64" using unsigned_less [of v] by simp
  have "length (u64_string v) \<le> 20" by (rule length_u64_string)
  moreover have "parse_u64_loop 0 (u64_string v @ []) = Some v"
    unfolding u64_string_def using v by (subst parse_dec_string) simp_all
  ultimately show ?thesis by (simp add: parse_u64_def dec_string_nonempty u64_string_def)
qed

text \<open>Every scanned value is the value of its digits: nothing wraps around.\<close>

definition digit_value :: "char \<Rightarrow> nat" where
  "digit_value c = of_char c - of_char (CHR ''0'')"

definition decimal_value :: "nat \<Rightarrow> string \<Rightarrow> nat" where
  "decimal_value = foldl (\<lambda>a c. 10 * a + digit_value c)"

lemma parse_u64_loop_value:
  "parse_u64_loop v cs = Some w \<Longrightarrow> unat w = decimal_value (unat v) cs"
proof (induction v cs rule: parse_u64_loop.induct)
  case (1 v)
  then show ?case by (simp add: decimal_value_def)
next
  case (2 v c cs)
  let ?d = "digit_value c"
  have r: "\<not> (c < CHR ''0'' \<or> c > CHR ''9'')" and lim: "\<not> v > (kU64Max - of_nat ?d) div 10"
    and rest: "parse_u64_loop (v * 10 + of_nat ?d) cs = Some w"
    using "2.prems" by (auto simp: Let_def digit_value_def split: if_splits)
  have d: "?d < 10" using r by (auto simp: digit_value_def less_char_def)
  have "unat v \<le> (2 ^ 64 - 1 - ?d) div 10"
    using lim unat_max_minus_digit [OF d] by (simp add: word_less_nat_alt unat_div not_less)
  then have "10 * unat v + ?d < 2 ^ 64" using d by auto
  then have "unat (v * 10 + of_nat ?d) = 10 * unat v + ?d"
  proof -
    have "v * 10 + of_nat ?d = of_nat (10 * unat v + ?d)" by (simp add: mult.commute)
    then show ?thesis using \<open>10 * unat v + ?d < 2 ^ 64\<close> by (simp only: unat_of_nat) simp
  qed
  moreover have "unat w = decimal_value (unat (v * 10 + of_nat ?d)) cs"
    using "2.IH" [OF r refl, folded digit_value_def, OF lim rest] .
  ultimately show ?case by (simp add: decimal_value_def)
qed

end
