(* ===== verification/Model_Attempt.thy ===== *)
theory Model_Attempt
  imports Core_Decimal Model_Plan
begin

section \<open>Apply attempts and transition decisions\<close>

text \<open>
  \<open>model/attempt.hpp\<close>, \<open>src/model/attempt.cpp\<close>, \<open>model/transition.hpp\<close> and
  \<open>src/model/transition.cpp\<close> without \<open>to_json\<close>: the lifecycle of an attempt to apply a
  boundary, the messages of the enforcement plane, and the recorded decision on a requested
  containment transition.
\<close>

type_synonym attempt_sequence = u64
type_synonym applier_epoch = u64
type_synonym transition_generation = u64
type_synonym authorization_id = u64

subsection \<open>Attempt lifecycle\<close>

datatype effect_state =
    EffNotRequested | EffSubmitted | EffAcknowledged | EffVerifiedApplied | EffVerifiedReleased
  | EffFailed | EffAmbiguous | EffFenced | EffSuperseded

definition kEffectTokens :: "(effect_state \<times> string) list" where
  "kEffectTokens =
    [(EffNotRequested, ''not_requested''), (EffSubmitted, ''submitted''),
     (EffAcknowledged, ''acknowledged''), (EffVerifiedApplied, ''verified_applied''),
     (EffVerifiedReleased, ''verified_released''), (EffFailed, ''failed''),
     (EffAmbiguous, ''ambiguous''), (EffFenced, ''fenced''), (EffSuperseded, ''superseded'')]"

definition effect_state_to_string :: "effect_state \<Rightarrow> string" where
  "effect_state_to_string v = token_of kEffectTokens ''unrecognised_effect_state'' v"

definition parse_effect_state :: "string \<Rightarrow> effect_state option" where
  "parse_effect_state t = parse_token kEffectTokens t"

interpretation effect_tokens: token_map kEffectTokens
proof unfold_locales
  show "x \<in> fst ` set kEffectTokens" for x by (cases x) (simp_all add: kEffectTokens_def)
qed (simp_all add: kEffectTokens_def)

definition effect_state_vals :: "effect_state list" where
  "effect_state_vals =
    [EffNotRequested, EffSubmitted, EffAcknowledged, EffVerifiedApplied, EffVerifiedReleased,
     EffFailed, EffAmbiguous, EffFenced, EffSuperseded]"

interpretation effect_enum: byte_enum effect_state_vals
proof unfold_locales
  show "x \<in> set effect_state_vals" for x by (cases x) (simp_all add: effect_state_vals_def)
qed (simp_all add: effect_state_vals_def)

definition is_verified_effect :: "effect_state \<Rightarrow> bool" where
  "is_verified_effect v \<longleftrightarrow> v = EffVerifiedApplied \<or> v = EffVerifiedReleased"

datatype effect_observation =
    ObsApplied | ObsReleased | ObsPartiallyApplied | ObsNotApplied | ObsUnknown

definition kObservationTokens :: "(effect_observation \<times> string) list" where
  "kObservationTokens =
    [(ObsApplied, ''applied''), (ObsReleased, ''released''),
     (ObsPartiallyApplied, ''partially_applied''), (ObsNotApplied, ''not_applied''),
     (ObsUnknown, ''unknown'')]"

definition effect_observation_to_string :: "effect_observation \<Rightarrow> string" where
  "effect_observation_to_string v = token_of kObservationTokens ''unrecognised_effect_observation'' v"

definition parse_effect_observation :: "string \<Rightarrow> effect_observation option" where
  "parse_effect_observation t = parse_token kObservationTokens t"

interpretation observation_tokens: token_map kObservationTokens
proof unfold_locales
  show "x \<in> fst ` set kObservationTokens" for x by (cases x) (simp_all add: kObservationTokens_def)
qed (simp_all add: kObservationTokens_def)

definition effect_observation_vals :: "effect_observation list" where
  "effect_observation_vals = [ObsApplied, ObsReleased, ObsPartiallyApplied, ObsNotApplied, ObsUnknown]"

interpretation observation_enum: byte_enum effect_observation_vals
proof unfold_locales
  show "x \<in> set effect_observation_vals" for x by (cases x) (simp_all add: effect_observation_vals_def)
qed (simp_all add: effect_observation_vals_def)

text \<open>The composite identity of an attempt, ordered by plan and then by sequence.\<close>

datatype attempt_id = AttemptId (ai_plan: plan_generation) (ai_sequence: attempt_sequence)

instantiation attempt_id :: linorder
begin

definition less_attempt_id :: "attempt_id \<Rightarrow> attempt_id \<Rightarrow> bool" where
  "less_attempt_id a b \<longleftrightarrow>
     (if ai_plan a \<noteq> ai_plan b then ai_plan a < ai_plan b else ai_sequence a < ai_sequence b)"

definition less_eq_attempt_id :: "attempt_id \<Rightarrow> attempt_id \<Rightarrow> bool" where
  "less_eq_attempt_id a b \<longleftrightarrow> a < b \<or> a = (b::attempt_id)"

instance
  by standard
     (auto simp: less_attempt_id_def less_eq_attempt_id_def not_less
       intro: attempt_id.expand split: if_splits)

end

text \<open>\<open>render\<close>: at most 5 + 20 + 9 + 20 characters, so the 64-byte buffer never truncates.\<close>

definition attempt_id_render :: "attempt_id \<Rightarrow> string" where
  "attempt_id_render a =
     ''plan-'' @ u64_string (ai_plan a) @ ''/attempt-'' @ u64_string (ai_sequence a)"

lemma attempt_id_render_fits: "length (attempt_id_render a) < 64"
  using length_u64_string [of "ai_plan a"] length_u64_string [of "ai_sequence a"]
  by (simp add: attempt_id_render_def)

record apply_attempt =
  at_id :: attempt_id
  at_plan_digest :: digest
  at_boundary_digest :: digest
  at_boundary_generation :: boundary_generation
  at_epoch :: coordinator_epoch
  at_boot :: boot_identity
  at_state :: effect_state
  at_submitted_sequence :: sequence_no
  at_applier_epoch :: applier_epoch
  at_applier_boot :: boot_identity
  at_applier_sequence :: sequence_no
  at_observed_digest :: digest
  at_submitted_at :: u64
  at_acknowledged_at :: u64
  at_verified_at :: u64
  at_explanation :: explanation

text \<open>\<open>terminal\<close>: the switch over the state.\<close>

fun effect_terminal :: "effect_state \<Rightarrow> bool" where
  "effect_terminal EffNotRequested = False"
| "effect_terminal EffSubmitted = False"
| "effect_terminal EffAcknowledged = False"
| "effect_terminal EffVerifiedApplied = True"
| "effect_terminal EffVerifiedReleased = True"
| "effect_terminal EffFailed = True"
| "effect_terminal EffAmbiguous = True"
| "effect_terminal EffFenced = True"
| "effect_terminal EffSuperseded = True"

definition attempt_terminal :: "apply_attempt \<Rightarrow> bool" where
  "attempt_terminal a \<longleftrightarrow> effect_terminal (at_state a)"

lemma verified_terminal: "is_verified_effect v \<Longrightarrow> effect_terminal v"
  by (auto simp: is_verified_effect_def)

record apply_acknowledgement =
  ak_id :: attempt_id
  ak_expected_epoch :: coordinator_epoch
  ak_expected_boot :: boot_identity
  ak_applier_epoch :: applier_epoch
  ak_applier_boot :: boot_identity
  ak_applier_sequence :: sequence_no
  ak_observed_digest :: digest
  ak_accepted :: bool

record effect_verification =
  vf_id :: attempt_id
  vf_expected_epoch :: coordinator_epoch
  vf_expected_boot :: boot_identity
  vf_applier_epoch :: applier_epoch
  vf_applier_boot :: boot_identity
  vf_applier_sequence :: sequence_no
  vf_observed_digest :: digest
  vf_observation :: effect_observation

subsection \<open>Transitions\<close>

datatype transition_kind = Expand | Contract | Release

definition kKindTokens :: "(transition_kind \<times> string) list" where
  "kKindTokens = [(Expand, ''expand''), (Contract, ''contract''), (Release, ''release'')]"

definition transition_kind_to_string :: "transition_kind \<Rightarrow> string" where
  "transition_kind_to_string v = token_of kKindTokens ''unrecognised_transition_kind'' v"

interpretation kind_tokens: token_map kKindTokens
proof unfold_locales
  show "x \<in> fst ` set kKindTokens" for x by (cases x) (simp_all add: kKindTokens_def)
qed (simp_all add: kKindTokens_def)

definition transition_kind_vals :: "transition_kind list" where
  "transition_kind_vals = [Expand, Contract, Release]"

interpretation kind_enum: byte_enum transition_kind_vals
proof unfold_locales
  show "x \<in> set transition_kind_vals" for x by (cases x) (simp_all add: transition_kind_vals_def)
qed (simp_all add: transition_kind_vals_def)

datatype transition_status = TrAccepted | TrDenied | TrIndeterminate | TrStale | TrInvalid

definition kTransitionStatusTokens :: "(transition_status \<times> string) list" where
  "kTransitionStatusTokens =
    [(TrAccepted, ''accepted''), (TrDenied, ''denied''), (TrIndeterminate, ''indeterminate''),
     (TrStale, ''stale''), (TrInvalid, ''invalid'')]"

definition transition_status_to_string :: "transition_status \<Rightarrow> string" where
  "transition_status_to_string v = token_of kTransitionStatusTokens ''unrecognised_transition_status'' v"

interpretation transition_tokens: token_map kTransitionStatusTokens
proof unfold_locales
  show "x \<in> fst ` set kTransitionStatusTokens" for x
    by (cases x) (simp_all add: kTransitionStatusTokens_def)
qed (simp_all add: kTransitionStatusTokens_def)

definition transition_status_vals :: "transition_status list" where
  "transition_status_vals = [TrAccepted, TrDenied, TrIndeterminate, TrStale, TrInvalid]"

interpretation transition_enum: byte_enum transition_status_vals
proof unfold_locales
  show "x \<in> set transition_status_vals" for x by (cases x) (simp_all add: transition_status_vals_def)
qed (simp_all add: transition_status_vals_def)

definition status_code_vals :: "status_code list" where
  "status_code_vals =
    [Ok, InvalidArgument, NotFound, AlreadyExists, CodeUnknown, StaleGeneration, Conflict,
     Unsupported, LimitExceeded, Exhausted, Denied, Unauthorized, CodeFenced, Corrupt,
     VersionUnsupported, SequenceRegression, TrailingGarbage, ProtocolViolation, IoError,
     Interrupted, CodeAmbiguous, CodeInternal]"

interpretation code_enum: byte_enum status_code_vals
proof unfold_locales
  show "x \<in> set status_code_vals" for x by (cases x) (simp_all add: status_code_vals_def)
qed (simp_all add: status_code_vals_def)

record transition_request =
  tq_kind :: transition_kind
  tq_plan :: plan_generation
  tq_plan_digest :: digest
  tq_expected_boundary :: boundary_generation
  tq_expected_released :: bool
  tq_authorization :: authorization_id

record transition_decision =
  td_generation :: transition_generation
  td_kind :: transition_kind
  td_status :: transition_status
  td_code :: status_code
  td_from_generation :: boundary_generation
  td_to_generation :: boundary_generation
  td_to_released :: bool
  td_from_digest :: digest
  td_to_digest :: digest
  td_plan_digest :: digest
  td_required_effect :: effect_state
  td_observed_effect :: effect_state
  td_effect_verified :: bool
  td_epoch :: coordinator_epoch
  td_boot :: boot_identity
  td_sequence :: sequence_no
  td_explanation :: explanation

text \<open>\<open>writer.u16(static_cast<std::uint16_t>(code))\<close>, and the fields both writers share.\<close>

definition w_status_code :: "status_code \<Rightarrow> byte list" where
  "w_status_code c = w_u16 (ucast (enum_code status_code_vals c))"

definition w_transition_fields :: "transition_decision \<Rightarrow> byte list" where
  "w_transition_fields t =
     w_u64 (td_generation t) @ w_u8 (enum_code transition_kind_vals (td_kind t)) @
     w_u8 (enum_code transition_status_vals (td_status t)) @ w_status_code (td_code t) @
     w_u64 (td_from_generation t) @ w_u64 (td_to_generation t) @ w_boolean (td_to_released t) @
     w_digest (td_from_digest t) @ w_digest (td_to_digest t) @ w_digest (td_plan_digest t) @
     w_u8 (enum_code effect_state_vals (td_required_effect t)) @
     w_u8 (enum_code effect_state_vals (td_observed_effect t)) @ w_boolean (td_effect_verified t) @
     w_u64 (td_epoch t) @ w_boot (td_boot t) @ w_u64 (td_sequence t)"

definition transition_compute_digest :: "transition_decision \<Rightarrow> digest" where
  "transition_compute_digest t = digest_of
     (w_transition_fields t @ w_size32 (length (x_items (td_explanation t))) @
      concat (map (\<lambda>i. w_u16 (xi_code i) @ w_resource_id (xi_subject i) @ w_u64 (xi_value i) @
        w_text (xi_text i)) (x_items (td_explanation t))))"

end
