(* ===== verification/Runtime_Codec.thy ===== *)
theory Runtime_Codec
  imports Model_Attempt Model_Topology Model_Policy
begin

section \<open>Codecs of the durable records\<close>

text \<open>
  \<open>src/runtime/codec.cpp\<close> and the durable structures of \<open>src/runtime/runtime_state.hpp\<close>:
  what the coordinator writes into a log record or a snapshot, and the decoders recovery
  runs. Every codec is a \<open>document_codec\<close>; a table of embedded documents (the tables of a
  snapshot) inherits its round trip from the codec of its rows.
\<close>

subsection \<open>Shared fields\<close>

definition r_boot :: "reader \<Rightarrow> boot_identity \<times> reader" where
  "r_boot r = (let (i, r1) = r_u64 r; (p, r2) = r_u32 r1 in (BootIdentity i p, r2))"

definition w_attempt_id :: "attempt_id \<Rightarrow> byte list" where
  "w_attempt_id a = w_u64 (ai_plan a) @ w_u64 (ai_sequence a)"

definition r_attempt_id :: "reader \<Rightarrow> attempt_id \<times> reader" where
  "r_attempt_id r = (let (p, r1) = r_u64 r; (s, r2) = r_u64 r1 in (AttemptId p s, r2))"

definition write_explanation :: "explanation \<Rightarrow> byte list" where
  "write_explanation x =
     w_size32 (length (x_items x)) @ concat (map w_item (x_items x)) @ w_boolean (x_truncated x)"

definition codec_read_explanation :: "reader \<Rightarrow> (explanation \<times> reader) result" where
  "codec_read_explanation r =
     try_result (read_explanation r) (\<lambda>(x, r1). try_result (r_check r1) (\<lambda>r2. Inr (x, r2)))"

definition encodable_explanation :: "explanation \<Rightarrow> bool" where
  "encodable_explanation x \<longleftrightarrow> wf_explanation x \<and> (\<forall>i \<in> set (x_items x). encodable_item i)"

lemma r_boot_back [codec_simps]:
  "r_boot (reader_at d (w_boot b @ rest)) = (b, reader_at (d @ w_boot b) rest)"
  by (cases b) (simp add: r_boot_def w_boot_def codec_simps)

lemma r_attempt_id_back [codec_simps]:
  "r_attempt_id (reader_at d (w_attempt_id a @ rest)) = (a, reader_at (d @ w_attempt_id a) rest)"
  by (cases a) (simp add: r_attempt_id_def w_attempt_id_def codec_simps)

lemma codec_read_explanation_back:
  assumes "encodable_explanation x"
  shows "codec_read_explanation (reader_at d (write_explanation x @ rest))
    = Inr (x, reader_at (d @ write_explanation x) rest)"
  using read_explanation_back [of x d rest] assms
  by (simp add: codec_read_explanation_def write_explanation_def encodable_explanation_def codec_simps)

lemma codec_read_explanation_last:
  "encodable_explanation x \<Longrightarrow> codec_read_explanation (reader_at d (write_explanation x))
    = Inr (x, reader_at (d @ write_explanation x) [])"
  using codec_read_explanation_back [of x d "[]"] by simp

subsection \<open>Detections\<close>

definition encode_detection :: "detection_record \<Rightarrow> byte list" where
  "encode_detection t =
     w_resource_id (dr_resource t) @ w_u8 (enum_code evidence_state_vals (dr_state t)) @
     w_u64 (dr_generation t) @ w_digest (dr_source_digest t) @ w_u64 (dr_epoch t) @
     w_boot (dr_boot t) @ w_u64 (dr_sequence t) @ w_digest (dr_record_digest t)"

definition decode_detection :: "byte list \<Rightarrow> detection_record result" where
  "decode_detection bytes =
     try_result (r_checked_id (reader_init bytes)) (\<lambda>(resource, r1).
       let (state, r2) = r_u8 r1;
           (generation, r3) = r_u64 r2;
           (source, r4) = r_digest r3;
           (epoch, r5) = r_u64 r4;
           (boot, r6) = r_boot r5;
           (seq, r7) = r_u64 r6;
           (dig, r8) = r_digest r7
       in try_result (r_finish r8) (\<lambda>_.
          case enum_decode evidence_state_vals state of
            None \<Rightarrow> err InvalidArgument ''invalid evidence state value''
          | Some st \<Rightarrow> Inr \<lparr>dr_resource = resource, dr_state = st, dr_generation = generation,
              dr_source_digest = source, dr_epoch = epoch, dr_boot = boot, dr_sequence = seq,
              dr_record_digest = dig\<rparr>))"

lemma decode_encode_detection:
  "is_valid_resource_id (dr_resource t) \<Longrightarrow> decode_detection (encode_detection t) = Inr t"
  by (cases t)
     (simp add: decode_detection_def encode_detection_def codec_simps state_enum.decode_code)

interpretation detection_doc:
  document_codec encode_detection decode_detection "\<lambda>t. is_valid_resource_id (dr_resource t)"
  by unfold_locales (rule decode_encode_detection)

subsection \<open>Attempts\<close>

definition encode_attempt :: "apply_attempt \<Rightarrow> byte list" where
  "encode_attempt a =
     w_attempt_id (at_id a) @ w_digest (at_plan_digest a) @ w_digest (at_boundary_digest a) @
     w_u64 (at_boundary_generation a) @ w_u64 (at_epoch a) @ w_boot (at_boot a) @
     w_u8 (enum_code effect_state_vals (at_state a)) @ w_u64 (at_submitted_sequence a) @
     w_u64 (at_applier_epoch a) @ w_boot (at_applier_boot a) @ w_u64 (at_applier_sequence a) @
     w_digest (at_observed_digest a) @ w_u64 (at_submitted_at a) @ w_u64 (at_acknowledged_at a) @
     w_u64 (at_verified_at a) @ write_explanation (at_explanation a)"

definition decode_attempt :: "byte list \<Rightarrow> apply_attempt result" where
  "decode_attempt bytes =
     (let (ident, r1) = r_attempt_id (reader_init bytes);
          (plan_digest, r2) = r_digest r1;
          (boundary_digest, r3) = r_digest r2;
          (generation, r4) = r_u64 r3;
          (epoch, r5) = r_u64 r4;
          (boot, r6) = r_boot r5;
          (state, r7) = r_u8 r6;
          (submitted, r8) = r_u64 r7;
          (applier_epoch, r9) = r_u64 r8;
          (applier_boot, r10) = r_boot r9;
          (applier_sequence, r11) = r_u64 r10;
          (observed, r12) = r_digest r11;
          (submitted_at, r13) = r_u64 r12;
          (acknowledged_at, r14) = r_u64 r13;
          (verified_at, r15) = r_u64 r14
      in try_result (r_check r15) (\<lambda>r16.
         case enum_decode effect_state_vals state of
           None \<Rightarrow> err InvalidArgument ''invalid effect state value''
         | Some st \<Rightarrow>
             try_result (codec_read_explanation r16) (\<lambda>(explanation, r17).
             try_result (r_finish r17) (\<lambda>_. Inr
               \<lparr>at_id = ident, at_plan_digest = plan_digest, at_boundary_digest = boundary_digest,
                at_boundary_generation = generation, at_epoch = epoch, at_boot = boot,
                at_state = st, at_submitted_sequence = submitted, at_applier_epoch = applier_epoch,
                at_applier_boot = applier_boot, at_applier_sequence = applier_sequence,
                at_observed_digest = observed, at_submitted_at = submitted_at,
                at_acknowledged_at = acknowledged_at, at_verified_at = verified_at,
                at_explanation = explanation\<rparr>))))"

lemma decode_encode_attempt:
  "encodable_explanation (at_explanation a) \<Longrightarrow> decode_attempt (encode_attempt a) = Inr a"
  by (cases a)
     (simp add: decode_attempt_def encode_attempt_def codec_simps effect_enum.decode_code
       codec_read_explanation_last)

interpretation attempt_doc:
  document_codec encode_attempt decode_attempt "\<lambda>a. encodable_explanation (at_explanation a)"
  by unfold_locales (rule decode_encode_attempt)

subsection \<open>Messages of the enforcement plane\<close>

definition encode_acknowledgement :: "apply_acknowledgement \<Rightarrow> byte list" where
  "encode_acknowledgement k =
     w_attempt_id (ak_id k) @ w_u64 (ak_expected_epoch k) @ w_boot (ak_expected_boot k) @
     w_u64 (ak_applier_epoch k) @ w_boot (ak_applier_boot k) @ w_u64 (ak_applier_sequence k) @
     w_digest (ak_observed_digest k) @ w_boolean (ak_accepted k)"

definition decode_acknowledgement :: "byte list \<Rightarrow> apply_acknowledgement result" where
  "decode_acknowledgement bytes =
     (let (ident, r1) = r_attempt_id (reader_init bytes);
          (epoch, r2) = r_u64 r1;
          (boot, r3) = r_boot r2;
          (applier_epoch, r4) = r_u64 r3;
          (applier_boot, r5) = r_boot r4;
          (applier_sequence, r6) = r_u64 r5;
          (observed, r7) = r_digest r6;
          (accepted, r8) = r_boolean r7
      in try_result (r_finish r8) (\<lambda>_. Inr
           \<lparr>ak_id = ident, ak_expected_epoch = epoch, ak_expected_boot = boot,
            ak_applier_epoch = applier_epoch, ak_applier_boot = applier_boot,
            ak_applier_sequence = applier_sequence, ak_observed_digest = observed,
            ak_accepted = accepted\<rparr>))"

lemma decode_encode_acknowledgement: "decode_acknowledgement (encode_acknowledgement k) = Inr k"
  by (cases k) (simp add: decode_acknowledgement_def encode_acknowledgement_def codec_simps)

interpretation acknowledgement_doc:
  document_codec encode_acknowledgement decode_acknowledgement "\<lambda>_. True"
  by unfold_locales (rule decode_encode_acknowledgement)

definition encode_verification :: "effect_verification \<Rightarrow> byte list" where
  "encode_verification v =
     w_attempt_id (vf_id v) @ w_u64 (vf_expected_epoch v) @ w_boot (vf_expected_boot v) @
     w_u64 (vf_applier_epoch v) @ w_boot (vf_applier_boot v) @ w_u64 (vf_applier_sequence v) @
     w_digest (vf_observed_digest v) @ w_u8 (enum_code effect_observation_vals (vf_observation v))"

definition decode_verification :: "byte list \<Rightarrow> effect_verification result" where
  "decode_verification bytes =
     (let (ident, r1) = r_attempt_id (reader_init bytes);
          (epoch, r2) = r_u64 r1;
          (boot, r3) = r_boot r2;
          (applier_epoch, r4) = r_u64 r3;
          (applier_boot, r5) = r_boot r4;
          (applier_sequence, r6) = r_u64 r5;
          (observed, r7) = r_digest r6;
          (observation, r8) = r_u8 r7
      in try_result (r_finish r8) (\<lambda>_.
         case enum_decode effect_observation_vals observation of
           None \<Rightarrow> err InvalidArgument ''invalid effect observation value''
         | Some ob \<Rightarrow> Inr
           \<lparr>vf_id = ident, vf_expected_epoch = epoch, vf_expected_boot = boot,
            vf_applier_epoch = applier_epoch, vf_applier_boot = applier_boot,
            vf_applier_sequence = applier_sequence, vf_observed_digest = observed,
            vf_observation = ob\<rparr>))"

lemma decode_encode_verification: "decode_verification (encode_verification v) = Inr v"
  by (cases v)
     (simp add: decode_verification_def encode_verification_def codec_simps observation_enum.decode_code)

interpretation verification_doc:
  document_codec encode_verification decode_verification "\<lambda>_. True"
  by unfold_locales (rule decode_encode_verification)

end
