(* ===== verification/Engine_Storable.thy ===== *)
theory Engine_Storable
  imports Engine_Refinement Runtime_Codec
begin

section \<open>Plans that can be stored\<close>

text \<open>
  A plan that claims containment satisfies what the plan codec needs to read it back, up to the
  three sizes the planner does not check in every branch: the number of sources, the number of
  obligations, and the bytes of the boundary.
\<close>

subsection \<open>Explanations\<close>

lemma encodable_no_explanation [simp]: "encodable_explanation no_explanation"
  by (simp add: encodable_explanation_def no_explanation_def wf_explanation_def)

lemma encodable_add:
  assumes "encodable_explanation x" and "c \<le> kMaxReasonCodeValue"
  shows "encodable_explanation (snd (explanation_add c msg x))"
  using assms explanation_add_wf [of x c msg]
  by (auto simp: encodable_explanation_def explanation_add_def encodable_item_def)

lemma encodable_reason:
  "encodable_explanation x \<Longrightarrow> c \<le> kMaxReasonCodeValue \<Longrightarrow> encodable_explanation (add_reason c msg x)"
  unfolding add_reason_def by (rule encodable_add)

lemma encodable_resource:
  assumes "encodable_explanation x" and "c \<le> kMaxReasonCodeValue" and "is_valid_resource_id i"
  shows "encodable_explanation (snd (explanation_add_resource c i msg x))"
  using encodable_add [OF assms(1,2), of msg] explanation_add_resource_wf [of x c i msg] assms
  by (auto simp: explanation_add_resource_def encodable_explanation_def case_prod_beta Let_def encodable_item_def
      dest!: update_last_items)

lemma encodable_value:
  assumes "encodable_explanation x" and "c \<le> kMaxReasonCodeValue"
  shows "encodable_explanation (snd (explanation_add_value c v msg x))"
  using encodable_add [OF assms, of msg] explanation_add_value_wf [of x c v msg] assms
  by (auto simp: explanation_add_value_def encodable_explanation_def case_prod_beta Let_def encodable_item_def
      dest!: update_last_items)

lemma encodable_resources:
  assumes "encodable_explanation x" and "c \<le> kMaxReasonCodeValue" and "\<And>i. i \<in> set ids \<Longrightarrow> is_valid_resource_id i"
  shows "encodable_explanation (add_resource_reasons c msg ids x)"
  using assms(1,3)
proof (induction ids arbitrary: x)
  case (Cons i ids)
  then show ?case using encodable_resource [OF Cons.prems(1) assms(2)] by (simp add: add_resource_reasons_def)
qed (simp add: add_resource_reasons_def)

lemmas planner_codes = kMaxReasonCodeValue_def RcIncompleteAdjacency_def RcUnknownEdgesPresent_def
  RcOptimalityProven_def RcFeasibilityProven_def RcSearchLimitReached_def RcBoundedNotMinimal_def RcHeuristicUsed_def
  RcLocalMinimality_def RcNoFailureSources_def RcNoProtectedObligations_def RcSourceNotContainable_def
  RcNotConfirmedSinceRestart_def

subsection \<open>Identifiers of the topology\<close>

lemma topology_ids_valid:
  assumes "wf_topology t"
  shows "x < node_count t \<Longrightarrow> is_valid_resource_id (ns_id (t_nodes t ! x))"
    and "topology_find t i \<noteq> None \<Longrightarrow> is_valid_resource_id i"
proof -
  show a: "is_valid_resource_id (ns_id (t_nodes t ! x))" if "x < node_count t" for x
    using assms that by (auto simp: wf_topology_def wf_node_def node_count_def)
  show "is_valid_resource_id i" if "topology_find t i \<noteq> None" using that topology_find_iff [OF assms] a by auto
qed

lemma recorded_ids_valid:
  assumes "wf_topology t"
  shows "i \<in> set (known_sources t v) \<Longrightarrow> is_valid_resource_id i"
    and "i \<in> set (protected_obligations t) \<Longrightarrow> is_valid_resource_id i"
  using assms topology_ids_valid
  by (auto simp: known_sources_def protected_obligations_def wf_topology_def wf_node_def)

lemma uncontainable_sources:
  "set (snd (source_members t ids)) \<subseteq> set ids \<and> length (snd (source_members t ids)) \<le> length ids"
  by (induction ids) (auto simp: case_prod_beta Let_def split: option.splits)

subsection \<open>The necessity analysis\<close>

lemma analyze_length:
  "analyze p budget nodes r = Some r' \<Longrightarrow>
     length (nr_proven_necessary r') + length (nr_indeterminate r') \<le>
     length (nr_proven_necessary r) + length (nr_indeterminate r) + length nodes"
proof (induction nodes arbitrary: r)
  case (Cons node nodes)
  show ?case
    using Cons.prems
    by (auto simp: classify_node_def split: if_splits option.splits solve_status.splits dest!: Cons.IH)
qed simp

lemma necessity_lengths:
  assumes "analyze_necessity p members budget = Some n"
  shows "length (nr_proven_necessary n) \<le> length members" and "length (nr_indeterminate n) \<le> length members"
  using analyze_length [OF assms [unfolded analyze_necessity_def]] remdups_adj_length [of "sort members"]
  by (simp_all add: empty_necessity_def)

subsection \<open>What a plan records of its inputs\<close>

lemma plan_solution_records:
  assumes "plan_solution policy p budget gen sol plan = Some (Inr plan')"
  shows "p_sources plan' = p_sources plan \<and> p_obligations plan' = p_obligations plan"
  using assms by (auto simp: plan_solution_def Let_def set_boundary_def split: sum.splits if_splits option.splits)

lemma prepare_plan_records:
  "p_sources (prepare_plan t g p currency sol plan) = p_sources plan"
  "p_obligations (prepare_plan t g p currency sol plan) = p_obligations plan"
  by (simp_all add: prepare_plan_def Let_def)

lemma plan_solved_records:
  assumes "wf_problem p" and "plan_solved t g policy p currency gen plan = Some (Inr plan')"
  shows "p_sources plan' = p_sources plan \<and> p_obligations plan' = p_obligations plan"
  using assms
proof (cases rule: plan_solved_cases)
  case (solution sol)
  then show ?thesis using plan_solution_records prepare_plan_records by metis
qed (simp_all add: plan_infeasible_def plan_limit_def plan_invalid_def prepare_plan_records)

lemma seal_records [simp]: "p_obligations (seal p) = p_obligations p"
  by (simp add: seal_def)

lemma sealed_recordsD: "seal x = y \<Longrightarrow> p_sources y = p_sources x \<and> p_obligations y = p_obligations x"
  by auto

lemma compute_plan_records:
  assumes inp: "valid_inputs inputs t v policy"
    and c: "compute_plan inputs authority generation = Some (Inr c)"
  shows "p_sources (pl_plan c) = known_sources t v \<and> p_obligations (pl_plan c) = protected_obligations t"
  using inp c
proof (cases rule: compute_plan_cases)
  case quiet
  then show ?thesis by (auto simp: plan_no_failures_def try_result_Inr_iff base_plan_def dest!: sealed_recordsD)
next
  case missing
  then show ?thesis by (auto simp: plan_all_missing_def try_result_Inr_iff base_plan_def dest!: sealed_recordsD)
next
  case unprotected
  then show ?thesis
    by (auto simp: plan_no_obligations_def Let_def case_prod_beta try_result_Inr_iff base_plan_def set_boundary_def
        dest!: sealed_recordsD split: if_splits)
next
  case (solved p plan)
  have "wf_topology t" using inp by (simp add: valid_inputs_def)
  then have "wf_problem p" using planner_problem(2) solved(2) by blast
  from plan_solved_records [OF this solved(3)] solved(4) show ?thesis by (simp add: base_plan_def)
qed

subsection \<open>The parts of a plan\<close>

definition storable_parts :: "containment_plan \<Rightarrow> bool" where
  "storable_parts plan \<longleftrightarrow> encodable_boundary (p_boundary plan) \<and>
     encodable_ids (length (p_sources plan)) (p_uncontainable plan) \<and>
     encodable_ids kMaxBoundaryMembers (p_necessary plan) \<and>
     encodable_ids kMaxBoundaryMembers (p_indeterminate_necessity plan) \<and>
     iw_path (p_infeasibility plan) = [] \<and> encodable_explanation (p_explanation plan)"

lemma storable_seal [simp]: "storable_parts (seal p) = storable_parts p"
  by (simp add: storable_parts_def seal_def)

lemma storable_encodable:
  assumes "storable_parts p" and "seal p = p"
    and "encodable_ids kMaxFailureSources (p_sources p)" and "encodable_ids kMaxProtectedObligations (p_obligations p)"
    and "length (boundary_encode (p_boundary p)) \<le> kMaxRecordPayloadBytes"
  shows "encodable_plan p"
proof -
  have "p_digest p = plan_compute_digest p" using seal_digest [of p] assms(2) by simp
  then show ?thesis
    using assms by (auto simp: encodable_plan_def storable_parts_def encodable_ids_def encodable_explanation_def)
qed

lemma quiet_storable:
  assumes "plan_no_failures t gen (base_plan t v policy authority generation) = Inr plan"
  shows "storable_parts plan"
proof -
  obtain b x where b: "boundary_create gen [] = Inr b" and x: "plan = seal x"
    and f: "p_boundary x = b" "p_uncontainable x = []" "p_necessary x = []" "p_indeterminate_necessity x = []"
      "iw_path (p_infeasibility x) = []" "p_explanation x = add_reason RcOptimalityProven ''empty containment is minimal''
        (add_reason RcFeasibilityProven ''empty containment satisfies the policy''
          (add_reason RcNoFailureSources ''no authoritative failure evidence is current'' no_explanation))"
    using assms by (auto simp: plan_no_failures_def try_result_Inr_iff base_plan_def)
  have "encodable_boundary b"
    using boundary_create_wf [OF b] boundary_create_members [OF b] by (simp add: encodable_boundary_def)
  then show ?thesis
    unfolding x storable_seal
    by (simp add: storable_parts_def f encodable_ids_def encodable_reason planner_codes)
qed

lemma unprotected_storable:
  assumes t: "wf_topology t"
    and p: "plan_no_obligations t policy currency gen (base_plan t v policy authority generation) = Inr plan"
    and claim: "claims_containment plan"
  shows "storable_parts plan"
proof -
  let ?ids = "known_sources t v"
  note r = plan_no_obligations_result [OF p]
  have b: "boundary_create gen (fst (source_members t ?ids)) = Inr (p_boundary plan)" using r(1) by simp
  have ok: "(\<not> cp_require_source policy \<or> snd (source_members t ?ids) = []) \<and> currency = CurrencyCurrent"
    using claim r(3,4) by (auto simp: claims_containment_def split: if_splits)
  let ?x = "(set_boundary (p_boundary plan) (base_plan t v policy authority generation))
    \<lparr>p_uncontainable := snd (source_members t ?ids), p_currency := currency,
     p_explanation := add_reason RcOptimalityProven ''only mandatory failure sources are contained''
       (add_reason RcNoProtectedObligations ''no protected obligations are declared for this topology'' no_explanation),
     p_claim := ClaimProvenContainment, p_feasibility := FeasibleProven, p_optimality := OptimalProven\<rparr>"
  have "seal ?x = plan"
    using p ok by (simp add: plan_no_obligations_def case_prod_beta b base_plan_def)
  have member: "encodable_member m" if "m \<in> set (fst (source_members t ids))" for m ids
    using that topology_ids_valid(2) [OF t]
    by (induction ids) (auto simp: case_prod_beta Let_def encodable_member_def split: option.splits if_splits)
  have "encodable_boundary (p_boundary plan)"
    using boundary_create_wf [OF b] boundary_create_members [OF b] member by (simp add: encodable_boundary_def)
  moreover have "encodable_ids (length ?ids) (snd (source_members t ?ids))"
    using uncontainable_sources [of t ?ids] recorded_ids_valid(1) [OF t] by (auto simp: encodable_ids_def)
  ultimately have "storable_parts ?x"
    by (simp add: storable_parts_def set_boundary_def base_plan_def encodable_ids_def encodable_reason planner_codes)
  then show ?thesis using \<open>seal ?x = plan\<close> storable_seal by metis
qed

text \<open>The identifiers of nodes in range, and the members with their witness paths.\<close>

lemma ids_at_valid:
  assumes "wf_topology t" and "problem_build (graph_build t) (planner_spec t v policy) = Inr p"
    and "set xs \<subseteq> {..<node_count t}" and "i \<in> set (ids_at p xs)"
  shows "is_valid_resource_id i"
  using assms(3,4) planner_problem(5) [OF assms(1,2)] topology_ids_valid(1) [OF assms(1)] by (auto simp: ids_at_def)

lemma witness_path_range:
  assumes "wf_problem p"
  shows "set (fst (find_witness_path p excluded)) \<subseteq> {..<pr_node_count p}"
proof -
  obtain avoid where e: "fst (find_witness_path p excluded) =
      bfs_path (pr_node_count p) (problem_succ p) (pr_sources p) (is_source p) avoid (is_protected p)"
    by (simp add: find_witness_path_def Let_def)
  show ?thesis
  proof (cases "fst (find_witness_path p excluded) = []")
    case False
    then show ?thesis using residual.found [OF assms] unfolding e by (auto simp: residual_path_def)
  qed simp
qed

lemma boundary_entry_encodable:
  assumes t: "wf_topology t" and b: "problem_build (graph_build t) (planner_spec t v policy) = Inr p"
    and x: "x < node_count t" and len: "length (bm_witness_path (boundary_entry p ms x)) \<le> kMaxCutCertificatePathNodes"
  shows "encodable_member (boundary_entry p ms x)"
proof -
  note q = planner_problem [OF t b]
  obtain path unknown where f: "find_witness_path p (filter (\<lambda>other. other \<noteq> x) ms) = (path, unknown)" by fastforce
  have "set path \<subseteq> {..<node_count t}" using witness_path_range [OF q(2)] f q(4) by (metis fst_conv)
  then have "is_valid_resource_id i" if "i \<in> set (bm_witness_path (boundary_entry p ms x))" for i
    using that ids_at_valid [OF t b] by (auto simp: boundary_entry_def f Let_def split: if_splits)
  moreover have "is_valid_resource_id (pr_resource_ids p ! x)" using topology_ids_valid(1) [OF t x] q(5) [OF x] by simp
  ultimately show ?thesis using len by (simp add: encodable_member_def)
qed

lemma solution_explanation:
  assumes "encodable_explanation x"
  shows "encodable_explanation (optimality_explanation sol x)"
    and "encodable_explanation (claim_explanation policy currency ids x)"
    and "encodable_explanation (frontier_explanation t g p currency x)"
  using assms
  by (auto simp: optimality_explanation_def claim_explanation_def frontier_explanation_def Let_def planner_codes
      intro!: encodable_reason encodable_value)

lemma solution_storable:
  assumes t: "wf_topology t" and b: "problem_build (graph_build t) (planner_spec t v policy) = Inr p"
    and sol: "solve p (planner_budget policy) limit = Some sol" and has: "has_solution sol"
    and ps: "plan_solution policy p budget gen sol
      (prepare_plan t g p currency sol (base_plan t v policy authority generation)) = Some (Inr plan)"
  shows "storable_parts plan"
proof -
  note q = planner_problem [OF t b] and r = plan_solution_result [OF ps]
  let ?prep = "prepare_plan t g p currency sol (base_plan t v policy authority generation)"
  let ?ms = "planned_members p sol" and ?unc = "ids_at p (pr_uncontainable_sources p)"
  have ms: "set ?ms \<subseteq> {..<node_count t}"
    using planned_members_spec(2) [OF q(2) sol has] feasible_range q(4) by (auto simp: feasible_def)
  have wf: "wf_boundary (p_boundary plan)" by (rule boundary_create_wf [OF r(1)])
  have mem: "set (b_members (p_boundary plan)) = boundary_entry p ?ms ` set ?ms"
    using boundary_create_members [OF r(1)] by simp
  have "encodable_member m" if "m \<in> set (b_members (p_boundary plan))" for m
  proof -
    obtain x where x: "x \<in> set ?ms" "m = boundary_entry p ?ms x" using \<open>m \<in> _\<close> unfolding mem by blast
    then show ?thesis
      using boundary_entry_encodable [OF t b, of x ?ms] ms wf \<open>m \<in> _\<close> by (auto simp: wf_boundary_def wf_members_def)
  qed
  then have boundary: "encodable_boundary (p_boundary plan)" using wf by (simp add: encodable_boundary_def)
  have "length (b_members (p_boundary plan)) = length ?ms"
    using r(1) by (auto simp: boundary_create_iff boundary_recompute_def)
  then have count: "length ?ms \<le> kMaxBoundaryMembers" using wf by (simp add: wf_boundary_def wf_members_def)
  have src: "set (pr_sources p) \<subseteq> {..<node_count t}" "length (pr_sources p) = length (known_sources t v)"
    using problem_build_fields(3,19) [OF t b] by (simp_all add: planner_spec_def indices_of_def)
  have valid: "is_valid_resource_id i" if "i \<in> set ?unc" for i
    using ids_at_valid [OF t b _ that] src(1) by (auto simp: problem_build_uncontainable [OF t b])
  have unc: "encodable_ids (length (known_sources t v)) ?unc"
    using valid src(2) length_filter_le [of "\<lambda>s. \<not> is_containable p s" "pr_sources p"]
    by (simp add: encodable_ids_def ids_at_def problem_build_uncontainable [OF t b])
  let ?x = "frontier_explanation t g p currency no_explanation"
  have e: "p_explanation ?prep = add_resource_reasons RcSourceNotContainable
      ''failure source is not eligible for containment'' ?unc
      (if sc_heuristic_used (cs_counters sol)
       then add_reason RcHeuristicUsed ''instance exceeds the exact-search node limit'' ?x else ?x)"
    by (simp add: prepare_plan_def Let_def base_plan_def)
  have "encodable_explanation ?x" by (rule solution_explanation(3)) simp
  then have prep: "encodable_explanation (p_explanation ?prep)"
    unfolding e by (intro encodable_resources) (use valid in \<open>simp_all add: encodable_reason planner_codes\<close>)
  have "p_explanation plan = claim_explanation policy (p_currency ?prep) (p_uncontainable ?prep)
      (optimality_explanation sol (p_explanation ?prep))"
    using ps by (auto simp: plan_solution_def Let_def set_boundary_def split: sum.splits if_splits option.splits)
  then have "encodable_explanation (p_explanation plan)" using solution_explanation(2) [OF solution_explanation(1) [OF prep]] by simp
  moreover have "encodable_ids kMaxBoundaryMembers (p_necessary plan) \<and>
      encodable_ids kMaxBoundaryMembers (p_indeterminate_necessity plan)"
  proof (cases "length (pr_candidates p) \<le> kNecessityCandidateLimit")
    case True
    obtain n where n: "analyze_necessity p ?ms budget = Some n" "reported n = set ?ms"
      using analyze_necessity_spec [OF q(1), of ?ms budget] by blast
    have "p_necessary plan = ids_at p (nr_proven_necessary n)" "p_indeterminate_necessity plan = ids_at p (nr_indeterminate n)"
      using ps n(1) True by (auto simp: plan_solution_def Let_def set_boundary_def split: sum.splits)
    moreover have "set (nr_proven_necessary n) \<subseteq> {..<node_count t}" "set (nr_indeterminate n) \<subseteq> {..<node_count t}"
      using ms n(2) by (auto simp: reported_def)
    ultimately show ?thesis
      using necessity_lengths [OF n(1)] count ids_at_valid [OF t b] by (simp add: encodable_ids_def) (simp add: ids_at_def)
  next
    case False
    then have "p_necessary plan = [] \<and> p_indeterminate_necessity plan = []"
      using ps by (auto simp: plan_solution_def Let_def set_boundary_def prepare_plan_def base_plan_def split: sum.splits)
    then show ?thesis by (simp add: encodable_ids_def)
  qed
  moreover have "p_infeasibility ?prep = p_infeasibility (base_plan t v policy authority generation)"
    by (simp add: prepare_plan_def Let_def)
  then have "iw_path (p_infeasibility plan) = []" by (simp add: r(9) base_plan_def)
  moreover have "p_uncontainable plan = ?unc" "p_sources plan = known_sources t v"
    using r(4) plan_solution_records [OF ps] by (simp_all add: prepare_plan_records)
  ultimately show ?thesis using boundary unc by (simp add: storable_parts_def)
qed

text \<open>The whole planner: a plan that claims containment is storable.\<close>

lemma claimed_plan_storable:
  assumes inp: "valid_inputs inputs t v policy"
    and c: "compute_plan inputs authority generation = Some (Inr c)" and claim: "claims_containment (pl_plan c)"
  shows "storable_parts (pl_plan c)"
proof -
  have t: "wf_topology t" using inp by (simp add: valid_inputs_def)
  show ?thesis
    using inp c
  proof (cases rule: compute_plan_cases)
    case quiet
    then show ?thesis using quiet_storable by blast
  next
    case missing
    then show ?thesis using claim plan_all_missing_result by (auto simp: claims_containment_def)
  next
    case unprotected
    then show ?thesis using unprotected_storable [OF t _ claim] by blast
  next
    case (solved p plan)
    have claim': "claims_containment plan" using claim solved(4) by (simp add: claims_containment_def)
    from planner_problem(2) [OF t solved(2)] solved(3) have "storable_parts plan"
    proof (cases rule: plan_solved_cases)
      case (solution sol)
      then show ?thesis using solution_storable [OF t solved(2)] by blast
    qed (use claim' in \<open>simp_all add: claims_containment_def plan_infeasible_def plan_limit_def plan_invalid_def\<close>)
    then show ?thesis by (simp add: solved(4))
  qed
qed

text \<open>The sizes the decoder bounds.\<close>

definition within_codec_bounds :: "containment_plan \<Rightarrow> bool" where
  "within_codec_bounds plan \<longleftrightarrow> length (p_sources plan) \<le> kMaxFailureSources \<and>
     length (p_obligations plan) \<le> kMaxProtectedObligations \<and>
     length (boundary_encode (p_boundary plan)) \<le> kMaxRecordPayloadBytes"

lemma recorded_ids_encodable:
  assumes "valid_inputs inputs t v policy" and "compute_plan inputs authority generation = Some (Inr c)"
    and "within_codec_bounds (pl_plan c)"
  shows "encodable_ids kMaxFailureSources (p_sources (pl_plan c))"
    and "encodable_ids kMaxProtectedObligations (p_obligations (pl_plan c))"
proof -
  have "wf_topology t" using assms(1) by (simp add: valid_inputs_def)
  then show "encodable_ids kMaxFailureSources (p_sources (pl_plan c))"
    "encodable_ids kMaxProtectedObligations (p_obligations (pl_plan c))"
    using compute_plan_records [OF assms(1,2)] assms(3) recorded_ids_valid
    by (auto simp: encodable_ids_def within_codec_bounds_def)
qed

lemma claimed_plan_encodable:
  assumes inp: "valid_inputs inputs t v policy" and c: "compute_plan inputs authority generation = Some (Inr c)"
    and claim: "claims_containment (pl_plan c)" and size: "within_codec_bounds (pl_plan c)"
  shows "encodable_plan (pl_plan c)"
  by (rule storable_encodable [OF claimed_plan_storable [OF inp c claim] compute_plan_sealed [OF inp c]
        recorded_ids_encodable [OF inp c size]])
    (use size in \<open>simp add: within_codec_bounds_def\<close>)

text \<open>Its encoding is little longer than that of its boundary.\<close>

lemma length_concat_le: "(\<And>x. x \<in> set xs \<Longrightarrow> length (f x) \<le> k) \<Longrightarrow> length (concat (map f xs)) \<le> k * length xs"
  by (induction xs) (auto simp: add_mono)

lemma length_w_ids: "encodable_ids n ids \<Longrightarrow> length (w_ids ids) \<le> 4 + 67 * n"
proof -
  assume e: "encodable_ids n ids"
  have "length (concat (map w_resource_id ids)) \<le> 67 * length ids"
    using e valid_resource_id_length by (intro length_concat_le)
      (fastforce simp: w_resource_id_def w_text_def w_size32_def w_u32_def w_le_def encodable_ids_def)
  then show ?thesis using e by (simp add: w_ids_def w_size32_def w_u32_def w_le_def encodable_ids_def)
qed

lemma length_w_item: "encodable_item i \<Longrightarrow> length (w_item i) \<le> 400"
  using valid_resource_id_length [of "xi_subject i"]
  by (auto simp: w_item_def encodable_item_def w_resource_id_def w_text_def w_size32_def w_u64_def w_u32_def w_u16_def
      w_boolean_def w_u8_def w_le_def kMaxExplanationTextLength_def)

lemma plan_encode_length:
  assumes "encodable_plan p"
  shows "length (plan_encode p) \<le> length (boundary_encode (p_boundary p)) + 2300000"
proof -
  have ids: "length (w_ids (p_sources p)) \<le> 274436" "length (w_ids (p_obligations p)) \<le> 274436"
    "length (w_ids (p_uncontainable p)) \<le> 274436" "length (w_ids (p_necessary p)) \<le> 548868"
    "length (w_ids (p_indeterminate_necessity p)) \<le> 548868" "length (w_ids (iw_path (p_infeasibility p))) \<le> 274436"
    using assms length_w_ids by (auto simp: encodable_plan_def limit_defs dest!: length_w_ids)
  have "length (concat (map w_item (x_items (p_explanation p)))) \<le> 400 * length (x_items (p_explanation p))"
    using assms length_w_item by (intro length_concat_le) (auto simp: encodable_plan_def)
  also have "\<dots> \<le> 25600" using assms by (simp add: encodable_plan_def wf_explanation_def kMaxExplanationItems_def)
  finally have items: "length (concat (map w_item (x_items (p_explanation p)))) \<le> 25600" .
  have authority: "length (authority_encode (p_authority p)) \<le> 1024" by simp
  show ?thesis
    using ids items authority
    by (simp add: plan_encode_def w_blob_def w_size32_def w_u64_def w_u32_def w_u8_def w_le_def w_boolean_def w_digest_def
        w_counters_def)
qed

subsection \<open>A plan with too many obligations\<close>

text \<open>
  The planner does not bound the obligations when nothing has failed, the decoder does: such a plan
  cannot be read back.
\<close>

lemma read_ids_over:
  assumes "n < length ids" and "length ids < 2 ^ 32"
  shows "read_ids n (reader_at d (w_ids ids @ rest)) = err LimitExceeded ''encoded identifier list exceeds bound''"
  using assms by (simp add: read_ids_def w_ids_def w_size32_def f_u32.read_back unat_size32 r_check_reader_at)

lemma crowded_plan_undecodable:
  assumes b: "encodable_boundary (p_boundary p)" and bl: "length (boundary_encode (p_boundary p)) \<le> kMaxRecordPayloadBytes"
    and src: "encodable_ids kMaxFailureSources (p_sources p)"
    and many: "kMaxProtectedObligations < length (p_obligations p)" "length (p_obligations p) < 2 ^ 32"
  shows "plan_decode (plan_encode p) = err LimitExceeded ''encoded identifier list exceeds bound''"
proof -
  have bl32: "length (boundary_encode (p_boundary p)) < 2 ^ 32" using bl by (simp add: kMaxRecordPayloadBytes_def)
  have ab: "length (authority_encode (p_authority p)) \<le> 1024" "length (authority_encode (p_authority p)) < 2 ^ 32" by simp_all
  have ids_back: "read_ids kMaxFailureSources (reader_at d (w_ids (p_sources p) @ rest)) =
      Inr (p_sources p, reader_at (d @ w_ids (p_sources p)) rest)" for d rest
    by (rule read_ids_encodable [OF src]) (simp add: limit_defs)
  note blob = r_blob_read_back [OF bl bl32] r_blob_read_back [OF ab]
  note enums = claim_enum.decode_code feasibility_enum.decode_code optimality_enum.decode_code currency_enum.decode_code
  have "read_plan (plan_encode p) = err LimitExceeded ''encoded identifier list exceeds bound''"
    unfolding read_plan_def plan_encode_def
    by (simp only: codec_simps append_assoc Let_def prod.case try_result.simps option.case blob enums
        boundary_decode_encode [OF b] authority_decode_encode ids_back read_ids_over [OF many] err_def)
  then show ?thesis by (simp add: plan_decode_def err_def)
qed

lemma quiet_crowded_plan_undecodable:
  assumes inp: "valid_inputs inputs t v policy" and c: "compute_plan inputs authority generation = Some (Inr c)"
    and quiet: "present_resources v = []" and many: "kMaxProtectedObligations < length (protected_obligations t)"
  shows "\<not> is_ok (plan_decode (plan_encode (pl_plan c)))"
proof -
  have t: "wf_topology t" using inp by (simp add: valid_inputs_def)
  have k: "known_sources t v = []" "missing_sources t v = []" using quiet by (simp_all add: known_sources_def missing_sources_def)
  have p: "plan_no_failures t (in_boundary_generation inputs) (base_plan t v policy authority generation) = Inr (pl_plan c)"
    using inp c k by (auto simp: compute_plan_def valid_inputs_def computation_def try_result_Inr_iff)
  note parts = quiet_storable [OF p, unfolded storable_parts_def]
  note r = compute_plan_records [OF inp c]
  have "length (boundary_encode (p_boundary (pl_plan c))) \<le> kMaxRecordPayloadBytes"
    using plan_no_failures_result [OF p]
    by (simp add: boundary_encode_def w_u64_def w_u32_def w_le_def w_size32_def kMaxRecordPayloadBytes_def)
  moreover have "length (protected_obligations t) < 2 ^ 32"
    using t by (auto simp: wf_topology_def protected_obligations_def kMaxTopologyNodes_def
        intro: le_less_trans [OF length_filter_le])
  ultimately have "plan_decode (plan_encode (pl_plan c)) = err LimitExceeded ''encoded identifier list exceeds bound''"
    using parts r k many by (intro crowded_plan_undecodable) (simp_all add: encodable_ids_def)
  then show ?thesis by (simp add: err_def)
qed

end
