(* ===== verification/Spec_Planner.thy ===== *)
theory Spec_Planner
  imports Examples Engine_Storable
begin

section \<open>Properties of the planner\<close>

text \<open>
  What \<open>compute_plan\<close> guarantees to its callers, stated on resources, with the concrete
  deployment of \<open>Examples\<close> as witness.
\<close>

text \<open>C1: A plan that claims containment (\<open>ProvenContainment\<close> or \<open>ProvenFeasibleNotMinimal\<close>)
  contains: along links that are not refuted, no failure reaches a protected obligation from
  a known failed resource without passing through a member of the plan's boundary.\<close>

theorem plan_contains_failures:
  assumes "valid_inputs inputs t v policy"
    and "compute_plan inputs authority generation = Some (Inr c)"
    and "p_claim (pl_plan c) = ClaimProvenContainment \<or> p_claim (pl_plan c) = ClaimFeasibleNotMinimal"
    and "exposed t (present_resources v) (bm_resource ` set (b_members (p_boundary (pl_plan c)))) r"
  shows "r \<notin> set (protected_obligations t)"
  using claimed_plan_contains [OF assms(1,2)] assms(3,4)
  by (simp add: claims_containment_def contained_resources_def)

theorem plan_contains_failures_witness:
  "\<exists>c r. compute_plan (ex_inputs True False) ex_authority 9 = Some (Inr c) \<and>
     p_claim (pl_plan c) = ClaimProvenContainment \<and>
     exposed (ex_topology True) (present_resources ex_evidence)
       (bm_resource ` set (b_members (p_boundary (pl_plan c)))) r \<and>
     r \<notin> set (protected_obligations (ex_topology True))"
proof -
  obtain c where c: "compute_plan (ex_inputs True False) ex_authority 9 = Some (Inr c)"
      "p_claim (pl_plan c) = ClaimProvenContainment" "contained_resources (pl_plan c) = {''m''}"
    using ex_plan [of False] by (metis (full_types))
  have x: "exposed (ex_topology True) (present_resources ex_evidence)
      (bm_resource ` set (b_members (p_boundary (pl_plan c)))) ''s''"
    using c(3) by (intro exposed.failed) (simp_all add: ex_fields ex_find contained_resources_def)
  from plan_contains_failures [OF ex_inputs_valid c(1) _ x] c x show ?thesis by blast
qed



text \<open>C7: A plan that claims \<open>ProvenInfeasible\<close> is right: no containment set exists for the
  topology, the evidence and the policy (same proviso as for optimality).\<close>

theorem infeasible_claim_is_sound:
  assumes "valid_inputs inputs t v policy" and "regular_instance t v policy"
    and "compute_plan inputs authority generation = Some (Inr c)"
    and "p_claim (pl_plan c) = ClaimProvenInfeasible"
  shows "\<not> containment_set t v policy R"
  by (rule infeasible_plan_refutes [OF assms])

theorem infeasible_claim_is_sound_witness:
  "\<exists>c. compute_plan (ex_inputs False True) ex_authority 9 = Some (Inr c) \<and>
     p_claim (pl_plan c) = ClaimProvenInfeasible \<and>
     \<not> containment_set (ex_topology False) ex_evidence (ex_policy True) {''m''}"
proof -
  obtain c where c: "compute_plan (ex_inputs False True) ex_authority 9 = Some (Inr c)"
      "p_claim (pl_plan c) = ClaimProvenInfeasible"
    using ex_plan_infeasible by metis
  from infeasible_claim_is_sound [OF ex_inputs_valid ex_regular c] c show ?thesis by blast
qed

text \<open>C33: Under a policy that requires failed resources to be contained, the certificate of an
  infeasible plan is a propagation path from a failed resource to a protected obligation on
  which no resource may be contained, which alone refutes every containment set.\<close>

theorem infeasibility_certificate_is_valid:
  assumes "valid_inputs inputs t v policy" and "cp_require_source policy"
    and "compute_plan inputs authority generation = Some (Inr c)"
    and "p_claim (pl_plan c) = ClaimProvenInfeasible" and "iw_present (p_infeasibility (pl_plan c))"
  shows "refuting_path t v policy (iw_path (p_infeasibility (pl_plan c))) \<and> \<not> containment_set t v policy R"
  using certificate_refutes [OF assms] refuting_path_refutes by blast

theorem infeasibility_certificate_is_valid_witness:
  "\<exists>c. compute_plan (ex_inputs False True) ex_authority 9 = Some (Inr c) \<and>
     refuting_path (ex_topology False) ex_evidence (ex_policy True) (iw_path (p_infeasibility (pl_plan c)))"
proof -
  obtain c where c: "compute_plan (ex_inputs False True) ex_authority 9 = Some (Inr c)"
      "p_claim (pl_plan c) = ClaimProvenInfeasible" "iw_present (p_infeasibility (pl_plan c))"
    using ex_plan_infeasible by metis
  from infeasibility_certificate_is_valid [OF ex_inputs_valid _ c] c show ?thesis by (simp add: ex_budget)
qed

text \<open>C34: Every boundary member that has not failed carries a witness: a propagation path from
  a failed resource to a protected obligation through that member and no other; the recorded
  reason and flag say exactly whether the path needs a link that is not proven.\<close>

theorem boundary_members_are_witnessed:
  assumes "valid_inputs inputs t v policy"
    and "compute_plan inputs authority generation = Some (Inr c)"
    and "m \<in> set (b_members (p_boundary (pl_plan c)))" and "bm_resource m \<notin> set (present_resources v)"
  shows "witnessed t v (contained_resources (pl_plan c)) m"
  by (rule plan_members_witnessed [OF assms])

theorem boundary_members_are_witnessed_witness:
  "\<exists>c m. compute_plan (ex_inputs True False) ex_authority 9 = Some (Inr c) \<and> bm_resource m = ''m'' \<and>
     witnessed (ex_topology True) ex_evidence (contained_resources (pl_plan c)) m"
proof -
  obtain c where c: "compute_plan (ex_inputs True False) ex_authority 9 = Some (Inr c)"
      "contained_resources (pl_plan c) = {''m''}"
    using ex_plan [of False] by (metis (full_types))
  then have "''m'' \<in> bm_resource ` set (b_members (p_boundary (pl_plan c)))"
    by (simp add: contained_resources_def)
  then obtain m where m: "m \<in> set (b_members (p_boundary (pl_plan c)))" "bm_resource m = ''m''" by auto
  from boundary_members_are_witnessed [OF ex_inputs_valid c(1) m(1)] c m show ?thesis
    by (auto simp: ex_fields)
qed

text \<open>Nothing ineligible is ever contained: every member of any plan's boundary is a known
  resource, declared containable, or a protected obligation the policy allows to contain.\<close>

theorem boundary_members_are_eligible:
  assumes "valid_inputs inputs t v policy"
    and "compute_plan inputs authority generation = Some (Inr c)"
    and "m \<in> set (b_members (p_boundary (pl_plan c)))"
  shows "eligible t policy (bm_resource m)"
  by (rule plan_members_eligible [OF assms(1,2)]) (use assms(3) in \<open>simp add: contained_resources_def\<close>)

theorem boundary_members_are_eligible_witness:
  "\<exists>c m. compute_plan (ex_inputs True True) ex_authority 9 = Some (Inr c) \<and>
     m \<in> set (b_members (p_boundary (pl_plan c))) \<and> eligible (ex_topology True) (ex_policy True) (bm_resource m)"
proof -
  obtain c where c: "compute_plan (ex_inputs True True) ex_authority 9 = Some (Inr c)"
      "contained_resources (pl_plan c) = {''s''}"
    using ex_plan [of True] by (metis (full_types))
  then have "''s'' \<in> bm_resource ` set (b_members (p_boundary (pl_plan c)))"
    by (simp add: contained_resources_def)
  then obtain m where m: "m \<in> set (b_members (p_boundary (pl_plan c)))" by auto
  from boundary_members_are_eligible [OF ex_inputs_valid c(1) m] c m show ?thesis by blast
qed

text \<open>C36: A claim of containment rests on current evidence only: every failed resource is in the
  topology, confirmed in the current boot when confirmation is required, and contained when
  the policy requires failed resources to be contained.\<close>

theorem claims_rest_on_current_evidence:
  assumes "valid_inputs inputs t v policy"
    and "compute_plan inputs authority generation = Some (Inr c)"
    and "claims_containment (pl_plan c)" and "r \<in> set (present_resources v)"
  shows "p_currency (pl_plan c) = CurrencyCurrent \<and> topology_find t r \<noteq> None \<and>
    (fv_require_confirmation (in_freshness inputs) \<longrightarrow> confirmed_in_current_boot (in_freshness inputs) r) \<and>
    (cp_require_source policy \<longrightarrow> r \<in> contained_resources (pl_plan c))"
  using claimed_plan_current [OF assms(1-3)] claimed_plan_sources [OF assms(1) _ assms(2-4)] assms(4)
  by blast

theorem claims_rest_on_current_evidence_witness:
  "\<exists>c. compute_plan (ex_inputs True True) ex_authority 9 = Some (Inr c) \<and>
     p_currency (pl_plan c) = CurrencyCurrent \<and> ''s'' \<in> contained_resources (pl_plan c)"
proof -
  obtain c where c: "compute_plan (ex_inputs True True) ex_authority 9 = Some (Inr c)"
      "p_claim (pl_plan c) = ClaimProvenContainment"
    using ex_plan [of True] by (metis (full_types))
  from claims_rest_on_current_evidence [OF ex_inputs_valid c(1), of "''s''"] c show ?thesis
    by (simp add: claims_containment_def ex_fields ex_budget)
qed

text \<open>The planner always returns: on valid inputs neither the branch and bound nor the
  necessity analysis runs out of fuel, and a returned plan is sealed with its own digest.\<close>

theorem planner_returns:
  assumes "valid_inputs inputs t v policy"
  shows "\<exists>r. compute_plan inputs authority generation = Some r \<and>
    (\<forall>c. r = Inr c \<longrightarrow> p_digest (pl_plan c) = plan_compute_digest (pl_plan c))"
proof -
  obtain r where r: "compute_plan inputs authority generation = Some r"
    using compute_plan_total [OF assms] by blast
  moreover have "p_digest (pl_plan c) = plan_compute_digest (pl_plan c)" if "r = Inr c" for c
    using compute_plan_sealed [OF assms] r that seal_digest by metis
  ultimately show ?thesis by blast
qed

theorem planner_returns_witness:
  "\<exists>r. compute_plan (ex_inputs False False) ex_authority 9 = Some r"
  using planner_returns [OF ex_inputs_valid] by metis



text \<open>C35: What storage does to a plan: the bytes written for a plan that claims containment decode to
  the same plan, as long as the plan keeps within the bounds of the codec; those of a plan that claims
  infeasibility, which keeps the default boundary (generation 0), never decode, and neither do those of a
  plan made while nothing had failed for a topology with more obligations than the codec accepts.\<close>

theorem claimed_plan_survives_storage:
  assumes "valid_inputs inputs t v policy"
    and "compute_plan inputs authority generation = Some (Inr c)"
  shows "(claims_containment (pl_plan c) \<and> within_codec_bounds (pl_plan c) \<longrightarrow>
      plan_decode (plan_encode (pl_plan c)) = Inr (pl_plan c)) \<and>
    (p_claim (pl_plan c) = ClaimProvenInfeasible \<longrightarrow> \<not> is_ok (plan_decode (plan_encode (pl_plan c)))) \<and>
    (present_resources v = [] \<and> kMaxProtectedObligations < length (protected_obligations t) \<longrightarrow>
      \<not> is_ok (plan_decode (plan_encode (pl_plan c))))"
  using plan_decode_encode [OF claimed_plan_encodable [OF assms]] infeasible_plan_undecodable [OF assms]
    quiet_crowded_plan_undecodable [OF assms] by blast

theorem claimed_plan_survives_storage_witness:
  "(\<exists>c. compute_plan (ex_inputs True False) ex_authority 9 = Some (Inr c) \<and>
     plan_decode (plan_encode (pl_plan c)) = Inr (pl_plan c)) \<and>
   (\<exists>c. compute_plan (ex_inputs False True) ex_authority 9 = Some (Inr c) \<and>
     \<not> is_ok (plan_decode (plan_encode (pl_plan c))))"
proof
  obtain c where c: "compute_plan (ex_inputs True False) ex_authority 9 = Some (Inr c)"
      "p_claim (pl_plan c) = ClaimProvenContainment" "length (boundary_encode (p_boundary (pl_plan c))) \<le> 100"
    using ex_plan by metis
  have "within_codec_bounds (pl_plan c)"
    using c(3) compute_plan_records [OF ex_inputs_valid c(1)]
    by (simp add: within_codec_bounds_def ex_sources limit_defs kMaxRecordPayloadBytes_def)
  then show "\<exists>c. compute_plan (ex_inputs True False) ex_authority 9 = Some (Inr c) \<and>
     plan_decode (plan_encode (pl_plan c)) = Inr (pl_plan c)"
    using c claimed_plan_survives_storage [OF ex_inputs_valid c(1)] by (auto simp: claims_containment_def)
next
  obtain c where c: "compute_plan (ex_inputs False True) ex_authority 9 = Some (Inr c)"
      "p_claim (pl_plan c) = ClaimProvenInfeasible"
    using ex_plan_infeasible by metis
  from claimed_plan_survives_storage [OF ex_inputs_valid c(1)] c
  show "\<exists>c. compute_plan (ex_inputs False True) ex_authority 9 = Some (Inr c) \<and>
     \<not> is_ok (plan_decode (plan_encode (pl_plan c)))" by blast
qed

end
