(* ===== verification/Spec_Solver.thy ===== *)
theory Spec_Solver
  imports Examples
begin

section \<open>Properties of the solvers and of the verifier\<close>

lemma ex_built: "built_from (ex_topology elig) (ex_problem (ex_topology elig) (ex_instance_digest elig req) elig req)"
  using ex_topology_wf ex_problem_build by (auto simp: built_from_def)

lemmas ex_wf = built_from_wf [OF ex_built]

text \<open>C26: The independent verifier decides exactly the five hard constraints of MCC-1 and
  returns the objective vector of the set: \<open>verify_cut\<close> accepts a list of nodes if and only
  if it has no duplicate and is a feasible containment set.\<close>

theorem verifier_decides_feasibility:
  assumes "wf_problem p"
  shows "verify_cut p members = Inr obj \<longleftrightarrow>
    distinct members \<and> feasible p (set members) \<and> obj = objective_value p (set members)"
  by (rule verify_cut_iff [OF assms])

theorem verifier_decides_feasibility_witness:
  "distinct [0 :: nat] \<and>
   feasible (ex_problem (ex_topology True) (ex_instance_digest True False) True False) (set [0])"
proof -
  let ?p = "ex_problem (ex_topology True) (ex_instance_digest True False) True False"
  have "is_ok (verify_cut ?p [0])" by (rule ex_verified)
  then obtain obj where "verify_cut ?p [0] = Inr obj" by (cases "verify_cut ?p [0]") (auto simp: is_ok_def)
  then show ?thesis using verifier_decides_feasibility [OF ex_wf] by blast
qed

text \<open>\<open>source_reaches_protected\<close> decides reachability: the queue loop reports a path from
  a failure source to a protected obligation around the excluded nodes exactly when the
  excluded nodes do not separate them in the conservative graph.\<close>

theorem reachability_loop_decides_separation:
  assumes "wf_problem p" and "set excluded \<subseteq> {..<pr_node_count p}"
  shows "source_reaches_protected p excluded \<longleftrightarrow> \<not> separates p (set excluded)"
  by (rule source_reaches_protected_iff [OF assms])

theorem reachability_loop_decides_separation_witness:
  "\<not> separates (ex_problem (ex_topology True) (ex_instance_digest True False) True False) {}"
proof -
  let ?p = "ex_problem (ex_topology True) (ex_instance_digest True False) True False"
  have "source_reaches_protected ?p []" by (rule ex_verified)
  then show ?thesis using reachability_loop_decides_separation [OF ex_wf, of "[]"] by simp
qed

text \<open>The branch and bound returns on every instance (fuel node count + 1 suffices for its
  recursion), never reports an invalid problem, and claims optimality or infeasibility only
  when the budget was not exhausted.\<close>

theorem exact_search_terminates:
  assumes "wf_problem p"
  shows "\<exists>sol. solve_exact p budget = Some sol \<and> cs_status sol \<noteq> SolveInvalid \<and>
    (cs_status sol \<in> {SolvedOptimal, SolvedInfeasible} \<longleftrightarrow> \<not> sc_budget_exhausted (cs_counters sol))"
  using solve_exact_total [OF assms] solve_exact_status [OF assms] by metis

theorem exact_search_terminates_witness:
  "\<exists>sol. solve_exact (ex_problem (ex_topology True) (ex_instance_digest True True) True True)
     \<lparr>sb_max_explored = 100, sb_max_iterations = 100\<rparr> = Some sol"
  using exact_search_terminates [OF ex_wf] by metis

text \<open>C8: An optimal answer of the exact solver is optimal: its members are feasible and no
  feasible set has a smaller objective, for instances without an avoidable protected source.\<close>

theorem exact_search_is_optimal:
  assumes "wf_problem p" and "sound_instance p"
    and "solve_exact p budget = Some sol" and "cs_status sol = SolvedOptimal" and "feasible p C"
  shows "feasible p (set (cs_members sol)) \<and>
    exact_key p (pr_minimize_protected p) (set (cs_members sol)) \<le> exact_key p (pr_minimize_protected p) C"
  using solve_exact_feasible(2) [OF assms(1,3)] solve_exact_optimal [OF assms] assms(4)
  by (simp add: has_solution_def)

theorem exact_search_is_optimal_witness:
  "\<exists>sol. solve_exact (ex_problem (ex_topology True) (ex_instance_digest True False) True False)
      \<lparr>sb_max_explored = 100, sb_max_iterations = 100\<rparr> = Some sol \<and>
    exact_key (ex_problem (ex_topology True) (ex_instance_digest True False) True False) True (set (cs_members sol))
    \<le> exact_key (ex_problem (ex_topology True) (ex_instance_digest True False) True False) True {2}"
proof -
  let ?b = "\<lparr>sb_max_explored = 100, sb_max_iterations = 100\<rparr> :: solve_budget"
  let ?p = "ex_problem (ex_topology True) (ex_instance_digest True False) True False"
  have "map_option cs_status (solve_exact (ex_problem t d True False) ?b) = Some SolvedOptimal" for t d
    by code_simp
  then obtain sol where sol: "solve_exact ?p ?b = Some sol" "cs_status sol = SolvedOptimal" by fastforce
  have "is_ok (verify_cut ?p [2])" by (rule ex_verified)
  then have "feasible ?p {2}" using verify_cut_ok_iff [OF ex_wf, of True False "[2]"] by simp
  moreover have "sound_instance ?p" by (rule ex_sound)
  ultimately show ?thesis using exact_search_is_optimal [OF ex_wf _ sol] sol(1) by (auto simp: ex_problem_def)
qed

text \<open>Whatever solver the node limit selects, a returned containment set is feasible and
  carries its true objective; a status of proven infeasibility rules out every feasible set.\<close>

theorem solver_answers_are_sound:
  assumes "wf_problem p" and "solve p budget limit = Some sol"
  shows "(has_solution sol \<longrightarrow> distinct (cs_members sol) \<and> feasible p (set (cs_members sol)) \<and>
      cs_objective sol = objective_value p (set (cs_members sol))) \<and>
    (sound_instance p \<and> cs_status sol = SolvedInfeasible \<longrightarrow> (\<forall>C. \<not> feasible p C))"
  using solve_feasible [OF assms] solve_infeasible [OF assms(1) _ assms(2)] by blast

theorem solver_answers_are_sound_witness:
  "\<exists>sol. solve (ex_problem (ex_topology True) (ex_instance_digest True False) True False)
      \<lparr>sb_max_explored = 100, sb_max_iterations = 100\<rparr> 0 = Some sol \<and>
    feasible (ex_problem (ex_topology True) (ex_instance_digest True False) True False) (set (cs_members sol))"
proof -
  let ?b = "\<lparr>sb_max_explored = 100, sb_max_iterations = 100\<rparr> :: solve_budget"
  let ?p = "ex_problem (ex_topology True) (ex_instance_digest True False) True False"
  have "map_option cs_status (solve (ex_problem t d True False) ?b 0) = Some SolvedFeasible" for t d
    by code_simp
  then obtain sol where sol: "solve ?p ?b 0 = Some sol" "cs_status sol = SolvedFeasible" by fastforce
  then show ?thesis using solver_answers_are_sound [OF ex_wf sol(1)] by (simp add: has_solution_def)
qed

text \<open>Minimality restoration returns a sub-list of the members that is still feasible and
  from which no member that need not be kept can be dropped.\<close>

theorem restored_set_is_minimal:
  assumes "wf_problem p" and "distinct members" and "feasible p (set members)"
  shows "set (restore_minimality keep p 0 members) \<subseteq> set members \<and>
    feasible p (set (restore_minimality keep p 0 members)) \<and>
    (\<forall>x \<in> set (restore_minimality keep p 0 members). keep x \<or>
       \<not> feasible p (set (restore_minimality keep p 0 members) - {x}))"
  using restore_minimality_spec [OF assms, of 0 keep] by (simp add: Let_def droppable_def)

theorem restored_set_is_minimal_witness:
  "\<exists>xs. restore_minimality (\<lambda>_. False) (ex_problem (ex_topology True) (ex_instance_digest True False) True False)
      0 [0, 2] = xs \<and>
    feasible (ex_problem (ex_topology True) (ex_instance_digest True False) True False) (set xs)"
proof -
  let ?p = "ex_problem (ex_topology True) (ex_instance_digest True False) True False"
  have "is_ok (verify_cut ?p [0, 2])" by (rule ex_verified)
  then have "feasible ?p (set [0, 2])" using verify_cut_ok_iff [OF ex_wf, of True False "[0, 2]"] by blast
  then show ?thesis using restored_set_is_minimal [OF ex_wf, of "[0, 2]"] by simp
qed

text \<open>The certificate checker accepts exactly the walks from a source to a protected
  obligation with no containable node, and an accepted certificate refutes every
  containment set.\<close>

theorem certificate_checker_is_sound:
  assumes "wf_problem p" and "set path \<subseteq> {..<pr_node_count p}"
  shows "(verify_infeasibility_witness p path \<longleftrightarrow>
      2 \<le> length path \<and> hd path \<in> set (pr_sources p) \<and> is_protected p (last path) \<and>
      (\<forall>x \<in> set path. \<not> is_containable p x) \<and> walk (pr_node_count p) (problem_succ p) path) \<and>
    (verify_infeasibility_witness p path \<longrightarrow> (\<forall>C. \<not> feasible p C))"
  using verify_infeasibility_witness_iff [OF assms] witness_infeasible [OF assms] by blast

theorem certificate_checker_is_sound_witness:
  "\<not> feasible (ex_problem (ex_topology False) (ex_instance_digest False True) False True) {0}"
proof -
  have "verify_infeasibility_witness (ex_problem t d False True) [2, 0, 1]" for t d by (rule ex_verified)
  moreover have "set [2, 0, 1] \<subseteq> {..<pr_node_count (ex_problem t d False True)}" for t d
    by (simp add: ex_problem_def)
  ultimately show ?thesis using certificate_checker_is_sound [OF ex_wf] by blast
qed

end
