(* ===== verification/Spec_Model.thy ===== *)
theory Spec_Model
  imports Examples
begin

section \<open>Properties of the data model\<close>

text \<open>C39: A topology is canonical: declaring the same nodes and edges in another order builds
  the same topology, digest included.\<close>

theorem topology_is_order_independent:
  assumes "mset (ts_nodes spec) = mset (ts_nodes spec')" and "mset (ts_edges spec) = mset (ts_edges spec')"
    and "ts_generation spec = ts_generation spec'" and "topology_build spec = Inr t"
  shows "topology_build spec' = Inr t"
  by (rule topology_build_mset [OF assms])

definition ex_spec :: "node_spec list \<Rightarrow> topology_spec" where
  "ex_spec nodes = \<lparr>ts_generation = 1, ts_nodes = nodes, ts_edges = []\<rparr>"

theorem topology_is_order_independent_witness:
  "\<exists>t. topology_build (ex_spec (ex_nodes True)) = Inr t \<and> topology_build (ex_spec (rev (ex_nodes True))) = Inr t"
proof -
  have a: "distinct (map ns_id (ex_nodes True)) \<and> (\<forall>n \<in> set (ex_nodes True). wf_node n)" by code_simp
  have "spec_acceptable (ex_spec (ex_nodes True))"
    unfolding spec_acceptable_def Let_def
    using a by (simp add: ex_spec_def limit_defs) (simp add: ex_nodes_def)
  then obtain t where t: "topology_build (ex_spec (ex_nodes True)) = Inr t"
    by (auto simp: topology_build_iff)
  from topology_is_order_independent [OF _ _ _ t, of "ex_spec (rev (ex_nodes True))"] t
  show ?thesis by (auto simp: ex_spec_def)
qed

text \<open>A built topology satisfies the class invariant (canonical order, no duplicate node or
  edge, weights in range, no self edge, no obligation declared containable) and its encoding
  decodes to itself.\<close>

theorem topology_round_trip:
  assumes "topology_build spec = Inr t"
  shows "wf_topology t \<and> topology_decode (topology_encode t) = Inr t"
  using topology_build_wf [OF assms] topology_decode_encode by blast

theorem topology_round_trip_witness:
  "\<exists>t. topology_build (ex_spec [hd (ex_nodes True)]) = Inr t \<and> topology_decode (topology_encode t) = Inr t"
proof -
  have "spec_acceptable (ex_spec [hd (ex_nodes True)])"
  proof -
    have "\<forall>n \<in> set [hd (ex_nodes True)]. wf_node n" by code_simp
    then show ?thesis unfolding spec_acceptable_def Let_def by (simp add: ex_spec_def limit_defs)
  qed
  then obtain t where t: "topology_build (ex_spec [hd (ex_nodes True)]) = Inr t"
    by (auto simp: topology_build_iff)
  from topology_round_trip [OF t] t show ?thesis by blast
qed

text \<open>C40: Merging an observation is monotonic: it succeeds only when the resource's generation
  does not regress, replaces that resource's entry alone and keeps the vector canonical.\<close>

theorem evidence_merge_is_monotonic:
  assumes "wf_evidence v" and "evidence_merged v obs = Inr v'"
  shows "wf_evidence v' \<and>
    (\<forall>r. evidence_find v' r = (if r = fo_resource obs then Some (observed_entry obs) else evidence_find v r)) \<and>
    (case evidence_find v (fo_resource obs) of None \<Rightarrow> True
     | Some e \<Rightarrow> ee_generation e \<le> fo_generation obs)"
  by (rule evidence_merged_cases [OF assms])

definition ex_observation :: "evidence_generation \<Rightarrow> failure_observation" where
  "ex_observation g = \<lparr>fo_resource = ''s'', fo_state = EvAbsent, fo_generation = g,
     fo_digest = zero_digest, fo_observed_at = 0\<rparr>"

lemma ex_evidence_wf: "wf_evidence ex_evidence"
  by (simp add: wf_evidence_def wf_entries_def ex_evidence_def evidence_recompute_def limit_defs)

theorem evidence_merge_is_monotonic_witness:
  "\<exists>v'. evidence_merged ex_evidence (ex_observation 2) = Inr v' \<and>
     evidence_find v' ''s'' = Some (observed_entry (ex_observation 2))"
proof -
  obtain v' where v': "evidence_merged ex_evidence (ex_observation 2) = Inr v'"
    by (simp add: evidence_merged_def ex_observation_def ex_evidence_def evidence_recompute_def
        std_lower_bound_def evidence_build_iff wf_entries_def limit_defs observed_entry_def Let_def)
  from evidence_merge_is_monotonic [OF ex_evidence_wf v'] v' show ?thesis by (simp add: ex_observation_def)
qed

text \<open>A stale or contradictory observation is refused: an older generation is a sequence
  regression, the same generation with other contents is a conflict, and repeating the
  recorded observation changes nothing.\<close>

theorem stale_observations_are_refused:
  assumes "wf_evidence v" and "fo_resource obs \<noteq> []" and "fo_generation obs \<noteq> 0"
    and "evidence_find v (fo_resource obs) = Some e" and "fo_generation obs \<le> ee_generation e"
  shows "evidence_merged v obs =
    (if fo_generation obs < ee_generation e then err SequenceRegression ''observation generation regressed''
     else if e = observed_entry obs then Inr v
     else err Conflict ''contradictory observation at the same generation'')"
  using evidence_merged_stale [OF assms(1-4)] assms(5) by auto

theorem stale_observations_are_refused_witness:
  "evidence_merged ex_evidence (ex_observation 1)
    = err Conflict ''contradictory observation at the same generation''"
proof -
  let ?e = "\<lparr>ee_resource = ''s'', ee_state = EvPresent, ee_generation = 1, ee_digest = zero_digest\<rparr>"
  have "evidence_find ex_evidence ''s'' = Some ?e"
    by (simp add: evidence_find_def ex_evidence_def evidence_recompute_def std_lower_bound_def Let_def)
  then show ?thesis
    using stale_observations_are_refused [OF ex_evidence_wf, of "ex_observation 1" ?e]
    by (simp add: ex_observation_def observed_entry_def)
qed

text \<open>An authority vector is accepted exactly when boot, epoch, policy, topology and evidence
  are all current; another boot is \<open>Fenced\<close>, everything else \<open>StaleGeneration\<close>.\<close>

theorem authority_check_is_exact:
  "(validate_authority presented current = AuthorityValid \<longleftrightarrow> same_authority presented current) \<and>
   authority_status_code (validate_authority presented current) =
     (if av_boot presented \<noteq> av_boot current then CodeFenced
      else if same_authority presented current then Ok else StaleGeneration)"
  using validate_authority_valid validate_authority_code by blast

definition ex_empty_plan :: containment_plan where
  "ex_empty_plan = seal ((base_plan (ex_topology True) ex_evidence (ex_policy True)
     ex_authority 1)\<lparr>p_boundary := boundary_recompute 1 []\<rparr>)"

lemma ex_empty_plan_encodable: "encodable_plan ex_empty_plan"
proof -
  have v: "is_valid_resource_id ''s''" "is_valid_resource_id ''p''" by code_simp+
  have b: "encodable_boundary (boundary_recompute 1 [])"
    by (simp add: encodable_boundary_def wf_members_def boundary_recompute_def wf_boundary_def)
  show ?thesis
    unfolding encodable_plan_def
    using b v seal_digest
    by (auto simp: ex_empty_plan_def ex_authority_def base_plan_def seal_def encodable_ids_def ex_sources limit_defs
        boundary_encode_def boundary_recompute_def w_size32_def w_u64_def w_u32_def w_le_def
        plan_compute_digest_def no_explanation_def wf_explanation_def)
qed

text \<open>The plan codec loses nothing: an encodable plan decodes to itself.\<close>

theorem plan_round_trip:
  assumes "encodable_plan p"
  shows "plan_decode (plan_encode p) = Inr p"
  by (rule plan_decode_encode [OF assms])

theorem plan_round_trip_witness: "plan_decode (plan_encode ex_empty_plan) = Inr ex_empty_plan"
  by (rule plan_round_trip [OF ex_empty_plan_encodable])

text \<open>A decoded plan is untampered: whatever \<open>ContainmentPlan::decode\<close> accepts carries the
  digest of its own decision-bearing fields.\<close>

theorem decoded_plan_is_sealed:
  assumes "plan_decode bytes = Inr p"
  shows "p_digest p = plan_compute_digest p"
  using plan_decode_sealed [OF assms] seal_digest by metis

theorem decoded_plan_is_sealed_witness: "\<exists>bytes p. plan_decode bytes = Inr p \<and> p_digest p = plan_compute_digest p"
  using decoded_plan_is_sealed [OF plan_decode_encode [OF ex_empty_plan_encodable]]
    plan_decode_encode [OF ex_empty_plan_encodable] by blast

text \<open>The table-driven CRC-32C equals the bit-serial definition of the checksum.\<close>

theorem crc_table_is_crc32c:
  "crc32c bytes = foldl crc_serial_byte 0xffffffff bytes XOR 0xffffffff"
  by (rule crc32c_serial)

text \<open>The identifier scanner accepts exactly the documented grammar: 1 to 63 characters of
  the alphabet, no \<open>..\<close>, no dot or dash at either end.\<close>

theorem resource_id_scanner_decides_grammar: "is_valid_resource_id t \<longleftrightarrow> resource_id_grammar t"
  by (rule is_valid_resource_id_iff)

text \<open>Checked addition on 64-bit words detects exactly the overflowing additions and
  otherwise returns the true sum.\<close>

theorem checked_add_detects_overflow:
  "map_option unat (checked_add (a :: u64) b) =
     (if unat a + unat b < 2 ^ 64 then Some (unat a + unat b) else None)"
  using checked_add_None [of a b] checked_add_unat [of a b]
  by (cases "checked_add a b") auto

end
