(* ===== verification/Store_Record.thy ===== *)
theory Store_Record
  imports Core_Canonical
begin

unbundle bit_operations_syntax

section \<open>Durable record framing\<close>

text \<open>
  \<open>store/record.hpp\<close> and the framing half of \<open>src/store/record.cpp\<close>: the header of 28
  bytes (magic, version, type, payload length, sequence, payload checksum, header checksum),
  the encoder, and the total decoder with its damage classes. The file helpers are in
  \<open>Store_Files\<close>.
\<close>

subsection \<open>Record types and damage classes\<close>

datatype record_type =
    TopologyDefinition | PolicyDefinition | DetectionRecord | EvidenceReconfirmed | PlanDecision
  | BoundaryDecision | TransitionDecision | ApplyAttempt | ApplyAcknowledgement
  | EffectVerification | AuthorizationIssued | Fence | EpochAdvance | SnapshotPayload
  | StartupMarker | ShutdownMarker

fun record_type_value :: "record_type \<Rightarrow> u16" where
  "record_type_value TopologyDefinition = 1"
| "record_type_value PolicyDefinition = 2"
| "record_type_value DetectionRecord = 3"
| "record_type_value EvidenceReconfirmed = 4"
| "record_type_value PlanDecision = 5"
| "record_type_value BoundaryDecision = 6"
| "record_type_value TransitionDecision = 7"
| "record_type_value ApplyAttempt = 8"
| "record_type_value ApplyAcknowledgement = 9"
| "record_type_value EffectVerification = 10"
| "record_type_value AuthorizationIssued = 11"
| "record_type_value Fence = 12"
| "record_type_value EpochAdvance = 13"
| "record_type_value SnapshotPayload = 14"
| "record_type_value StartupMarker = 15"
| "record_type_value ShutdownMarker = 16"

definition kTypeTokens :: "(record_type \<times> string) list" where
  "kTypeTokens =
    [(TopologyDefinition, ''topology_definition''), (PolicyDefinition, ''policy_definition''),
     (DetectionRecord, ''detection_record''), (EvidenceReconfirmed, ''evidence_reconfirmed''),
     (PlanDecision, ''plan_decision''), (BoundaryDecision, ''boundary_decision''),
     (TransitionDecision, ''transition_decision''), (ApplyAttempt, ''apply_attempt''),
     (ApplyAcknowledgement, ''apply_acknowledgement''),
     (EffectVerification, ''effect_verification''),
     (AuthorizationIssued, ''authorization_issued''), (Fence, ''fence''),
     (EpochAdvance, ''epoch_advance''), (SnapshotPayload, ''snapshot_payload''),
     (StartupMarker, ''startup_marker''), (ShutdownMarker, ''shutdown_marker'')]"

definition record_type_to_string :: "record_type \<Rightarrow> string" where
  "record_type_to_string v = token_of kTypeTokens ''unrecognised_record_type'' v"

definition parse_record_type :: "string \<Rightarrow> record_type option" where
  "parse_record_type t = parse_token kTypeTokens t"

interpretation type_tokens: token_map kTypeTokens
proof unfold_locales
  show "x \<in> fst ` set kTypeTokens" for x by (cases x) (simp_all add: kTypeTokens_def)
qed (simp_all add: kTypeTokens_def)

definition is_valid_record_type :: "u16 \<Rightarrow> bool" where
  "is_valid_record_type raw \<longleftrightarrow> (\<exists>e \<in> set kTypeTokens. record_type_value (fst e) = raw)"

text \<open>\<open>static_cast<RecordType>\<close> of a valid value.\<close>

definition record_type_cast :: "u16 \<Rightarrow> record_type" where
  "record_type_cast raw =
     (case find (\<lambda>e. record_type_value (fst e) = raw) kTypeTokens of
        Some e \<Rightarrow> fst e | None \<Rightarrow> StartupMarker)"

lemma record_type_valid [simp]: "is_valid_record_type (record_type_value t)"
  by (cases t) (simp_all add: is_valid_record_type_def kTypeTokens_def)

lemma record_type_cast_value [simp]: "record_type_cast (record_type_value t) = t"
  by (cases t) (simp_all add: record_type_cast_def kTypeTokens_def)

lemma record_type_value_cast: "is_valid_record_type raw \<Longrightarrow> record_type_value (record_type_cast raw) = raw"
  by (auto simp: is_valid_record_type_def)

datatype frame_status =
    FrameOk | NoMoreData | TornTail | FrameCorrupt | UnsupportedVersion | InvalidType | Oversized
  | FrameSequenceRegression | FrameTrailingGarbage

definition kFrameStatusTokens :: "(frame_status \<times> string) list" where
  "kFrameStatusTokens =
    [(FrameOk, ''ok''), (NoMoreData, ''no_more_data''), (TornTail, ''torn_tail''),
     (FrameCorrupt, ''corrupt''), (UnsupportedVersion, ''unsupported_version''),
     (InvalidType, ''invalid_type''), (Oversized, ''oversized''),
     (FrameSequenceRegression, ''sequence_regression''), (FrameTrailingGarbage, ''trailing_garbage'')]"

definition frame_status_to_string :: "frame_status \<Rightarrow> string" where
  "frame_status_to_string v = token_of kFrameStatusTokens ''unrecognised_frame_status'' v"

interpretation frame_status_tokens: token_map kFrameStatusTokens
proof unfold_locales
  show "x \<in> fst ` set kFrameStatusTokens" for x by (cases x) (simp_all add: kFrameStatusTokens_def)
qed (simp_all add: kFrameStatusTokens_def)

definition is_recoverable_tail :: "frame_status \<Rightarrow> bool" where
  "is_recoverable_tail v \<longleftrightarrow> v = TornTail \<or> v = NoMoreData"

subsection \<open>Header bytes\<close>

definition kRecordMagic :: u32 where "kRecordMagic = 0x4e464346"
definition kRecordFormatVersion :: u16 where "kRecordFormatVersion = 1"
definition kRecordHeaderBytes :: nat where "kRecordHeaderBytes = 28"

record record_header =
  rh_magic :: u32
  rh_version :: u16
  rh_type :: u16
  rh_payload_length :: u32
  rh_sequence :: u64
  rh_payload_crc :: u32
  rh_header_crc :: u32

definition put_u16 :: "u16 \<Rightarrow> byte list" where "put_u16 v = w_le 2 v"
definition put_u32 :: "u32 \<Rightarrow> byte list" where "put_u32 v = w_le 4 v"
definition put_u64 :: "u64 \<Rightarrow> byte list" where "put_u64 v = w_le 8 v"

text \<open>\<open>bytes[offset + i] << 8 * i\<close>, or-ed together.\<close>

definition get_le :: "nat \<Rightarrow> byte list \<Rightarrow> nat \<Rightarrow> 'a::len word" where
  "get_le n bytes offset =
     foldl (\<lambda>v i. v OR push_bit (8 * i) (ucast (bytes ! (offset + i)))) 0 [0..<n]"

definition get_u16 :: "byte list \<Rightarrow> nat \<Rightarrow> u16" where "get_u16 bytes offset = get_le 2 bytes offset"
definition get_u32 :: "byte list \<Rightarrow> nat \<Rightarrow> u32" where "get_u32 bytes offset = get_le 4 bytes offset"
definition get_u64 :: "byte list \<Rightarrow> nat \<Rightarrow> u64" where "get_u64 bytes offset = get_le 8 bytes offset"

text \<open>The header without its own checksum: the bytes the checksum covers.\<close>

definition header_prefix :: "record_header \<Rightarrow> byte list" where
  "header_prefix h =
     put_u32 (rh_magic h) @ put_u16 (rh_version h) @ put_u16 (rh_type h) @
     put_u32 (rh_payload_length h) @ put_u64 (rh_sequence h) @ put_u32 (rh_payload_crc h)"

definition encode_header :: "record_header \<Rightarrow> byte list" where
  "encode_header h =
     put_u32 (rh_magic h) @ put_u16 (rh_version h) @ put_u16 (rh_type h) @
     put_u32 (rh_payload_length h) @ put_u64 (rh_sequence h) @ put_u32 (rh_payload_crc h) @
     put_u32 (rh_header_crc h)"

definition record_header_of :: "record_type \<Rightarrow> sequence_no \<Rightarrow> byte list \<Rightarrow> record_header" where
  "record_header_of type seq payload =
     (let h = \<lparr>rh_magic = kRecordMagic, rh_version = kRecordFormatVersion,
               rh_type = record_type_value type, rh_payload_length = of_nat (length payload),
               rh_sequence = seq, rh_payload_crc = crc32c payload, rh_header_crc = 0\<rparr>
      in h\<lparr>rh_header_crc := crc32c (header_prefix h)\<rparr>)"

definition encode_record :: "record_type \<Rightarrow> sequence_no \<Rightarrow> byte list \<Rightarrow> byte list" where
  "encode_record type seq payload = encode_header (record_header_of type seq payload) @ payload"

record frame =
  fr_type :: record_type
  fr_sequence :: sequence_no
  fr_payload :: "byte list"
  fr_encoded_size :: nat

record decode_outcome =
  dc_status :: frame_status
  dc_frame :: frame
  dc_detail :: string
  dc_consumed :: nat

definition no_frame :: frame where
  "no_frame = \<lparr>fr_type = StartupMarker, fr_sequence = 0, fr_payload = [], fr_encoded_size = 0\<rparr>"

definition refused :: "frame_status \<Rightarrow> string \<Rightarrow> decode_outcome" where
  "refused status detail =
     \<lparr>dc_status = status, dc_frame = no_frame, dc_detail = detail, dc_consumed = 0\<rparr>"

definition read_header :: "byte list \<Rightarrow> record_header" where
  "read_header bytes =
     \<lparr>rh_magic = get_u32 bytes 0, rh_version = get_u16 bytes 4, rh_type = get_u16 bytes 6,
      rh_payload_length = get_u32 bytes 8, rh_sequence = get_u64 bytes 12,
      rh_payload_crc = get_u32 bytes 20, rh_header_crc = get_u32 bytes 24\<rparr>"

definition decode_record :: "byte list \<Rightarrow> decode_outcome" where
  "decode_record bytes =
     (if bytes = [] then refused NoMoreData []
      else if length bytes < kRecordHeaderBytes
        then refused TornTail ''fewer bytes than a record header''
      else let h = read_header bytes in
        if rh_magic h \<noteq> kRecordMagic then refused FrameCorrupt ''record magic mismatch''
        else if rh_version h \<noteq> kRecordFormatVersion
          then refused UnsupportedVersion ''record format version is not supported''
        else if \<not> is_valid_record_type (rh_type h)
          then refused InvalidType ''record type outside the defined domain''
        else if unat (rh_payload_length h) > kMaxRecordPayloadBytes
          then refused Oversized ''declared payload length exceeds the record bound''
        else if crc32c (take 24 bytes) \<noteq> rh_header_crc h
          then refused FrameCorrupt ''record header integrity check failed''
        else let size = kRecordHeaderBytes + unat (rh_payload_length h) in
          if length bytes < size then refused TornTail ''declared payload is incomplete''
          else let payload = take (unat (rh_payload_length h)) (drop kRecordHeaderBytes bytes) in
            if crc32c payload \<noteq> rh_payload_crc h
              then refused FrameCorrupt ''record payload integrity check failed''
            else \<lparr>dc_status = FrameOk,
                  dc_frame = \<lparr>fr_type = record_type_cast (rh_type h), fr_sequence = rh_sequence h,
                              fr_payload = payload, fr_encoded_size = size\<rparr>,
                  dc_detail = [], dc_consumed = size\<rparr>)"

subsection \<open>Little-endian fields\<close>

lemma bit_get_le:
  "8 * n \<le> LENGTH('a) \<Longrightarrow>
   bit (get_le n bytes offset :: 'a::len word) m \<longleftrightarrow> m < 8 * n \<and> bit (bytes ! (offset + m div 8)) (m mod 8)"
proof (induction n)
  case 0
  then show ?case by (simp add: get_le_def)
next
  case (Suc n)
  let ?b = "bytes ! (offset + n)"
  have step: "get_le (Suc n) bytes offset = (get_le n bytes offset OR push_bit (8 * n) (ucast ?b) :: 'a word)"
    by (simp add: get_le_def)
  have ih: "bit (get_le n bytes offset :: 'a word) m \<longleftrightarrow>
      m < 8 * n \<and> bit (bytes ! (offset + m div 8)) (m mod 8)"
    using Suc by simp
  show ?case
  proof (cases "m < 8 * n")
    case True
    then show ?thesis by (simp add: step bit_or_iff ih bit_push_bit_iff)
  next
    case False
    show ?thesis
    proof (cases "m < 8 * Suc n")
      case True
      with False have d: "m div 8 = n" by (simp add: div_nat_eqI)
      then have m: "m div 8 = n" "m mod 8 = m - 8 * n" using minus_mult_div_eq_mod [of m 8] by simp_all
      then show ?thesis using True False Suc.prems
        by (auto simp: step bit_or_iff ih bit_push_bit_iff bit_ucast_iff)
    next
      case big: False
      then have "\<not> bit ?b (m - 8 * n)" using bit_imp_le_length [of ?b "m - 8 * n"] by auto
      then show ?thesis using big False by (auto simp: step bit_or_iff ih bit_push_bit_iff bit_ucast_iff)
    qed
  qed
qed

lemma bit_le_byte:
  "k < 8 \<Longrightarrow> bit (ucast (drop_bit (8 * i) (v :: 'a::len word) AND 0xff) :: byte) k \<longleftrightarrow> bit v (8 * i + k)"
proof -
  assume k: "k < 8"
  have ff: "(0xff :: 'a word) = mask 8" by (simp add: mask_eq_exp_minus_1)
  show ?thesis
    unfolding ff using k by (auto simp: bit_ucast_iff bit_and_iff bit_drop_bit_eq bit_mask_iff
        dest: bit_imp_le_length)
qed

lemma get_le_put:
  assumes "8 * n = LENGTH('a::len)"
  shows "get_le n (pre @ w_le n v @ post) (length pre) = (v :: 'a word)"
proof (rule bit_word_eqI)
  fix m
  assume m: "m < LENGTH('a)"
  then have d: "m div 8 < n" using assms by (simp add: less_mult_imp_div_less mult.commute)
  have "(pre @ w_le n v @ post) ! (length pre + m div 8) = ucast (drop_bit (8 * (m div 8)) v AND 0xff)"
    using d by (simp add: nth_append w_le_def)
  then show "bit (get_le n (pre @ w_le n v @ post) (length pre) :: 'a word) m = bit v m"
    using m d assms bit_le_byte [of "m mod 8" "m div 8" v] by (simp add: bit_get_le)
qed

lemma length_w_le [simp]: "length (w_le n v) = n"
  by (simp add: w_le_def)

lemma w_le_get_le:
  assumes "8 * n = LENGTH('a::len)" and "offset + n \<le> length bytes"
  shows "w_le n (get_le n bytes offset :: 'a word) = take n (drop offset bytes)"
proof (rule nth_equalityI)
  show "length (w_le n (get_le n bytes offset :: 'a word)) = length (take n (drop offset bytes))"
    using assms(2) by simp
next
  fix i
  assume "i < length (w_le n (get_le n bytes offset :: 'a word))"
  then have i: "i < n" by simp
  have "ucast (drop_bit (8 * i) (get_le n bytes offset :: 'a word) AND 0xff) = bytes ! (offset + i)"
  proof (rule bit_word_eqI)
    fix k
    assume "k < LENGTH(8)"
    then have k: "k < 8" by simp
    then have "(8 * i + k) div 8 = i" "(8 * i + k) mod 8 = k" "8 * i + k < 8 * n" using i by auto
    then show "bit (ucast (drop_bit (8 * i) (get_le n bytes offset :: 'a word) AND 0xff) :: byte) k
        = bit (bytes ! (offset + i)) k"
      unfolding bit_le_byte [OF k] using assms(1) by (simp add: bit_get_le)
  qed
  then show "w_le n (get_le n bytes offset :: 'a word) ! i = take n (drop offset bytes) ! i"
    using i assms(2) by (simp add: w_le_def)
qed

lemma get_le_cong:
  "(\<And>i. i < n \<Longrightarrow> bytes ! (offset + i) = bytes' ! (offset + i)) \<Longrightarrow>
   get_le n bytes offset = get_le n bytes' offset"
  unfolding get_le_def by (rule foldl_cong) simp_all

lemmas put_defs = put_u16_def put_u32_def put_u64_def
lemmas get_defs = get_u16_def get_u32_def get_u64_def

lemma length_put [simp]:
  "length (put_u16 a) = 2" "length (put_u32 b) = 4" "length (put_u64 c) = 8"
  by (simp_all add: put_defs)

lemma get_put:
  "length pre = offset \<Longrightarrow> get_u16 (pre @ put_u16 a @ post) offset = a"
  "length pre = offset \<Longrightarrow> get_u32 (pre @ put_u32 b @ post) offset = b"
  "length pre = offset \<Longrightarrow> get_u64 (pre @ put_u64 c @ post) offset = c"
  by (auto simp: put_defs get_defs get_le_put)

lemma put_get:
  "offset + 2 \<le> length bytes \<Longrightarrow> put_u16 (get_u16 bytes offset) = take 2 (drop offset bytes)"
  "offset + 4 \<le> length bytes \<Longrightarrow> put_u32 (get_u32 bytes offset) = take 4 (drop offset bytes)"
  "offset + 8 \<le> length bytes \<Longrightarrow> put_u64 (get_u64 bytes offset) = take 8 (drop offset bytes)"
  by (simp_all add: put_defs get_defs w_le_get_le)

subsection \<open>Headers\<close>

lemma encode_header_prefix: "encode_header h = header_prefix h @ put_u32 (rh_header_crc h)"
  by (simp add: encode_header_def header_prefix_def)

lemma length_header_prefix [simp]: "length (header_prefix h) = 24"
  by (simp add: header_prefix_def)

lemma length_encode_header [simp]: "length (encode_header h) = 28"
  by (simp add: encode_header_prefix)

lemma read_header_encode: "read_header (encode_header h @ rest) = h"
proof -
  let ?m = "put_u32 (rh_magic h)" let ?v = "put_u16 (rh_version h)" let ?t = "put_u16 (rh_type h)"
  let ?l = "put_u32 (rh_payload_length h)" let ?s = "put_u64 (rh_sequence h)"
  let ?p = "put_u32 (rh_payload_crc h)" let ?c = "put_u32 (rh_header_crc h)"
  have e: "encode_header h @ rest = ?m @ ?v @ ?t @ ?l @ ?s @ ?p @ ?c @ rest"
    by (simp add: encode_header_def)
  have "get_u32 (encode_header h @ rest) 0 = rh_magic h"
    using get_put(2) [of "[]" 0] by (simp add: e)
  moreover have "get_u16 (encode_header h @ rest) 4 = rh_version h"
    using get_put(1) [of ?m 4] by (simp add: e)
  moreover have "get_u16 (encode_header h @ rest) 6 = rh_type h"
    using get_put(1) [of "?m @ ?v" 6] by (simp add: e)
  moreover have "get_u32 (encode_header h @ rest) 8 = rh_payload_length h"
    using get_put(2) [of "?m @ ?v @ ?t" 8] by (simp add: e)
  moreover have "get_u64 (encode_header h @ rest) 12 = rh_sequence h"
    using get_put(3) [of "?m @ ?v @ ?t @ ?l" 12] by (simp add: e)
  moreover have "get_u32 (encode_header h @ rest) 20 = rh_payload_crc h"
    using get_put(2) [of "?m @ ?v @ ?t @ ?l @ ?s" 20] by (simp add: e)
  moreover have "get_u32 (encode_header h @ rest) 24 = rh_header_crc h"
    using get_put(2) [of "?m @ ?v @ ?t @ ?l @ ?s @ ?p" 24] by (simp add: e)
  ultimately show ?thesis by (simp add: read_header_def)
qed

lemma encode_read_header:
  assumes "28 \<le> length bytes"
  shows "encode_header (read_header bytes) = take 28 bytes"
proof -
  have t: "take (m + n) bytes = take m bytes @ take n (drop m bytes)" for m n by (rule take_add)
  have "take 28 bytes = take 4 bytes @ take 2 (drop 4 bytes) @ take 2 (drop 6 bytes) @
      take 4 (drop 8 bytes) @ take 8 (drop 12 bytes) @ take 4 (drop 20 bytes) @ take 4 (drop 24 bytes)"
    using t [of 4 2] t [of 6 2] t [of 8 4] t [of 12 8] t [of 20 4] t [of 24 4] by simp
  then show ?thesis
    using assms put_get(2) [of 0 bytes] by (simp add: encode_header_def read_header_def put_get)
qed

lemma header_prefix_read:
  assumes "28 \<le> length bytes"
  shows "header_prefix (read_header bytes) = take 24 bytes"
proof -
  have "take 24 (encode_header (read_header bytes)) = take 24 bytes"
    unfolding encode_read_header [OF assms] by (simp add: min_def)
  then show ?thesis by (simp add: encode_header_prefix)
qed

subsection \<open>Records\<close>

definition frame_of :: "record_type \<Rightarrow> sequence_no \<Rightarrow> byte list \<Rightarrow> frame" where
  "frame_of type seq payload =
     \<lparr>fr_type = type, fr_sequence = seq, fr_payload = payload,
      fr_encoded_size = kRecordHeaderBytes + length payload\<rparr>"

text \<open>The header checks in isolation: what a decoder has verified once they pass.\<close>

definition header_accepted :: "byte list \<Rightarrow> bool" where
  "header_accepted bytes \<longleftrightarrow>
     (let h = read_header bytes
      in 28 \<le> length bytes \<and> rh_magic h = kRecordMagic \<and> rh_version h = kRecordFormatVersion \<and>
         is_valid_record_type (rh_type h) \<and> unat (rh_payload_length h) \<le> kMaxRecordPayloadBytes \<and>
         crc32c (take 24 bytes) = rh_header_crc h)"

lemma record_header_fields [simp]:
  "rh_magic (record_header_of t q p) = kRecordMagic"
  "rh_version (record_header_of t q p) = kRecordFormatVersion"
  "rh_type (record_header_of t q p) = record_type_value t"
  "rh_payload_length (record_header_of t q p) = of_nat (length p)"
  "rh_sequence (record_header_of t q p) = q"
  "rh_payload_crc (record_header_of t q p) = crc32c p"
  by (simp_all add: record_header_of_def Let_def)

lemma header_prefix_crc [simp]: "header_prefix (h\<lparr>rh_header_crc := c\<rparr>) = header_prefix h"
  by (simp add: header_prefix_def)

lemma record_header_crc: "rh_header_crc (record_header_of t q p) = crc32c (header_prefix (record_header_of t q p))"
  unfolding record_header_of_def Let_def header_prefix_crc by simp

lemma length_encode_record [simp]: "length (encode_record t q p) = 28 + length p"
  by (simp add: encode_record_def)

lemma encode_record_nonempty [simp]: "encode_record t q p \<noteq> []"
  using length_encode_record [of t q p] by (metis add_is_0 list.size(3) numeral_neq_zero)

lemma unat_payload_length: "length p \<le> kMaxRecordPayloadBytes \<Longrightarrow> unat (of_nat (length p) :: u32) = length p"
  by (simp add: kMaxRecordPayloadBytes_def unat_size32)

lemma read_encoded_header: "read_header (encode_record t q p @ rest) = record_header_of t q p"
  by (simp add: encode_record_def read_header_encode)

lemma take_encoded_header: "24 \<le> k \<Longrightarrow> take 24 (take k (encode_record t q p @ rest)) = header_prefix (record_header_of t q p)"
  by (simp add: encode_record_def encode_header_prefix)

lemma decode_unfold:
  assumes "28 \<le> length bytes"
  shows "dc_status (decode_record bytes) \<in> {FrameOk, TornTail} \<Longrightarrow> header_accepted bytes"
    and "header_accepted bytes \<Longrightarrow> decode_record bytes =
      (let h = read_header bytes; n = unat (rh_payload_length h)
       in if length bytes < 28 + n then refused TornTail ''declared payload is incomplete''
          else if crc32c (take n (drop 28 bytes)) \<noteq> rh_payload_crc h
            then refused FrameCorrupt ''record payload integrity check failed''
          else \<lparr>dc_status = FrameOk,
                dc_frame = frame_of (record_type_cast (rh_type h)) (rh_sequence h) (take n (drop 28 bytes)),
                dc_detail = [], dc_consumed = 28 + n\<rparr>)"
proof -
  have ne: "bytes \<noteq> []" "\<not> length bytes < 28" using assms by auto
  show "dc_status (decode_record bytes) \<in> {FrameOk, TornTail} \<Longrightarrow> header_accepted bytes"
    using ne assms
    by (auto simp: decode_record_def header_accepted_def refused_def kRecordHeaderBytes_def Let_def
        split: if_splits)
  show "header_accepted bytes \<Longrightarrow> decode_record bytes =
      (let h = read_header bytes; n = unat (rh_payload_length h)
       in if length bytes < 28 + n then refused TornTail ''declared payload is incomplete''
          else if crc32c (take n (drop 28 bytes)) \<noteq> rh_payload_crc h
            then refused FrameCorrupt ''record payload integrity check failed''
          else \<lparr>dc_status = FrameOk,
                dc_frame = frame_of (record_type_cast (rh_type h)) (rh_sequence h) (take n (drop 28 bytes)),
                dc_detail = [], dc_consumed = 28 + n\<rparr>)"
    using ne by (simp add: decode_record_def header_accepted_def kRecordHeaderBytes_def frame_of_def
        Let_def not_less)
qed

lemma encoded_header_accepted:
  assumes "length p \<le> kMaxRecordPayloadBytes" and "28 \<le> k"
  shows "header_accepted (take k (encode_record t q p @ rest))"
    and "read_header (take k (encode_record t q p @ rest)) = record_header_of t q p"
proof -
  have e: "take k (encode_record t q p @ rest) = encode_header (record_header_of t q p) @ take (k - 28) (p @ rest)"
    using assms(2) by (simp add: encode_record_def)
  show h: "read_header (take k (encode_record t q p @ rest)) = record_header_of t q p"
    unfolding e by (rule read_header_encode)
  have "take 24 (take k (encode_record t q p @ rest)) = header_prefix (record_header_of t q p)"
    unfolding e by (simp add: encode_header_prefix)
  then show "header_accepted (take k (encode_record t q p @ rest))"
    using h assms by (simp add: header_accepted_def Let_def record_header_crc unat_payload_length)
qed

text \<open>A complete record is read back, whatever follows it.\<close>

lemma decode_encode_record:
  assumes "length p \<le> kMaxRecordPayloadBytes"
  shows "decode_record (encode_record t q p @ rest) =
    \<lparr>dc_status = FrameOk, dc_frame = frame_of t q p, dc_detail = [], dc_consumed = 28 + length p\<rparr>"
proof -
  let ?b = "encode_record t q p @ rest"
  have len: "28 \<le> length ?b" by simp
  have acc: "header_accepted ?b" and h: "read_header ?b = record_header_of t q p"
    using encoded_header_accepted [OF assms len, of t q rest] by simp_all
  have "take (length p) (drop 28 ?b) = p" by (simp add: encode_record_def)
  then show ?thesis
    using decode_unfold(2) [OF len acc] h unat_payload_length [OF assms] by (simp add: Let_def)
qed

text \<open>A strict prefix of a record is a torn tail, never corruption and never a record.\<close>

lemma decode_torn_record:
  assumes "length p \<le> kMaxRecordPayloadBytes" and "0 < k" and "k < length (encode_record t q p)"
  shows "dc_status (decode_record (take k (encode_record t q p))) = TornTail"
proof (cases "k < 28")
  case True
  have "take k (encode_record t q p) \<noteq> []" using assms(2) by simp
  moreover have "length (take k (encode_record t q p)) < 28" using True by simp
  ultimately show ?thesis unfolding decode_record_def kRecordHeaderBytes_def by (simp only: if_False if_True) (simp add: refused_def)
next
  case False
  let ?b = "take k (encode_record t q p @ [])"
  have len: "28 \<le> length ?b" using False assms(3) by simp
  have acc: "header_accepted ?b" and h: "read_header ?b = record_header_of t q p"
    using encoded_header_accepted [OF assms(1), of k t q "[]"] False by simp_all
  have "length ?b < 28 + length p" using assms(3) by simp
  then have "dc_status (decode_record ?b) = TornTail"
    using decode_unfold(2) [OF len acc] h unat_payload_length [OF assms(1)] assms(3)
    by (simp add: refused_def Let_def)
  then show ?thesis by simp
qed

text \<open>An accepted record is byte for byte what the encoder writes for the decoded frame.\<close>

lemma decode_record_sound:
  assumes "dc_status (decode_record bytes) = FrameOk"
  shows "\<exists>t q p. length p \<le> kMaxRecordPayloadBytes \<and> dc_frame (decode_record bytes) = frame_of t q p \<and>
    dc_consumed (decode_record bytes) = 28 + length p \<and>
    bytes = encode_record t q p @ drop (28 + length p) bytes"
proof -
  have len: "28 \<le> length bytes"
    using assms by (auto simp: decode_record_def refused_def kRecordHeaderBytes_def split: if_splits)
  have acc: "header_accepted bytes" using decode_unfold(1) [OF len] assms by simp
  let ?h = "read_header bytes"
  let ?n = "unat (rh_payload_length ?h)"
  let ?p = "take ?n (drop 28 bytes)" let ?t = "record_type_cast (rh_type ?h)" let ?q = "rh_sequence ?h"
  have full: "\<not> length bytes < 28 + ?n" and crc: "crc32c ?p = rh_payload_crc ?h"
    using assms decode_unfold(2) [OF len acc] by (auto simp: Let_def refused_def split: if_splits)
  have dec: "decode_record bytes = \<lparr>dc_status = FrameOk, dc_frame = frame_of ?t ?q ?p, dc_detail = [],
      dc_consumed = 28 + ?n\<rparr>"
    using decode_unfold(2) [OF len acc] full crc by (simp add: Let_def)
  have n: "length ?p = ?n" using full by simp
  have bound: "?n \<le> kMaxRecordPayloadBytes" using acc by (simp add: header_accepted_def Let_def)
  have pl: "rh_payload_length ?h = of_nat (length ?p)" unfolding n by simp
  have "header_prefix (record_header_of ?t ?q ?p) = header_prefix ?h"
    using acc pl by (simp add: header_prefix_def header_accepted_def Let_def record_type_value_cast crc)
  then have "rh_header_crc (record_header_of ?t ?q ?p) = rh_header_crc ?h"
    using acc header_prefix_read [OF len] by (simp add: record_header_crc header_accepted_def Let_def)
  then have "encode_header (record_header_of ?t ?q ?p) = take 28 bytes"
    using \<open>header_prefix (record_header_of ?t ?q ?p) = header_prefix ?h\<close> encode_read_header [OF len]
    by (simp add: encode_header_prefix)
  then have "encode_record ?t ?q ?p = take (28 + ?n) bytes"
    by (simp add: encode_record_def take_add)
  then have "bytes = encode_record ?t ?q ?p @ drop (28 + length ?p) bytes"
    unfolding n by simp
  then show ?thesis using dec bound n by (metis select_convs(2) decode_outcome.select_convs(2,4))
qed

text \<open>
  Damage inside a complete record is always noticed, and never mistaken for a torn tail: an
  altered byte of the header fails a header check, an altered byte of the payload fails the
  payload checksum.
\<close>

lemma crc32c_update_neq:
  assumes "i < length bs" and "b \<noteq> bs ! i"
  shows "crc32c (bs[i := b]) \<noteq> crc32c bs"
proof
  assume "crc32c (bs[i := b]) = crc32c bs"
  then have "crc32c (take i bs @ [b] @ drop (Suc i) bs) = crc32c (take i bs @ [bs ! i] @ drop (Suc i) bs)"
    using assms(1) by (simp add: upd_conv_take_nth_drop id_take_nth_drop [symmetric])
  then show False using crc32c_single_byte_eq assms(2) by blast
qed

lemma header_corruption_detected:
  assumes acc: "header_accepted bytes" and i: "i < 28" and b: "b \<noteq> bytes ! i"
  shows "\<not> header_accepted (bytes[i := b])"
proof
  let ?c = "bytes[i := b]"
  assume acc': "header_accepted ?c"
  have len: "28 \<le> length bytes" using acc by (simp add: header_accepted_def Let_def)
  have crc: "crc32c (take 24 bytes) = get_u32 bytes 24" "crc32c (take 24 ?c) = get_u32 ?c 24"
    using acc acc' by (simp_all add: header_accepted_def Let_def read_header_def)
  show False
  proof (cases "i < 24")
    case True
    have "get_u32 ?c 24 = get_u32 bytes 24"
      unfolding get_u32_def using True by (intro get_le_cong) simp
    moreover have "take 24 ?c = (take 24 bytes)[i := b]" by (rule take_update_swap)
    moreover have "crc32c ((take 24 bytes)[i := b]) \<noteq> crc32c (take 24 bytes)"
      using True len b by (intro crc32c_update_neq) simp_all
    ultimately show False using crc by simp
  next
    case False
    have "take 24 ?c = take 24 bytes" using False by simp
    then have "get_u32 ?c 24 = get_u32 bytes 24" using crc by simp
    then have "take 4 (drop 24 ?c) = take 4 (drop 24 bytes)"
      using put_get(2) [of 24 bytes] put_get(2) [of 24 ?c] len by simp
    then have "take 4 (drop 24 ?c) ! (i - 24) = take 4 (drop 24 bytes) ! (i - 24)" by simp
    then show False using False i b len by simp
  qed
qed

lemma decode_corrupted_record:
  assumes p: "length p \<le> kMaxRecordPayloadBytes" and i: "i < length (encode_record t q p)"
    and b: "b \<noteq> encode_record t q p ! i"
  shows "dc_status (decode_record ((encode_record t q p)[i := b] @ rest)) \<notin> {FrameOk, NoMoreData, TornTail}"
proof -
  let ?e = "encode_record t q p" let ?c = "?e[i := b] @ rest"
  have c: "?c = (?e @ rest)[i := b]" using i by (simp add: list_update_append)
  have len: "28 \<le> length ?c" by simp
  have acc: "header_accepted (?e @ rest)" and h: "read_header (?e @ rest) = record_header_of t q p"
    using encoded_header_accepted [OF p, of "length (?e @ rest)" t q rest] by simp_all
  have ne: "dc_status (decode_record ?c) \<noteq> NoMoreData"
    using len by (auto simp: decode_record_def refused_def kRecordHeaderBytes_def Let_def)
  show ?thesis
  proof (cases "i < 28")
    case True
    have "\<not> header_accepted ?c"
      unfolding c using header_corruption_detected [OF acc True] i b by (simp add: nth_append)
    then show ?thesis using decode_unfold(1) [OF len] ne by blast
  next
    case False
    have ip: "i - 28 < length p" using False i by simp
    have e: "?e[i := b] = encode_header (record_header_of t q p) @ p[i - 28 := b]"
      using False by (simp add: encode_record_def list_update_append)
    have h': "read_header ?c = record_header_of t q p"
      unfolding e by (simp add: read_header_encode)
    have "take 24 ?c = take 24 (?e @ rest)" using False by simp
    then have acc': "header_accepted ?c" using acc h h' by (simp add: header_accepted_def Let_def)
    have "take (length p) (drop 28 ?c) = p[i - 28 := b]" unfolding e by simp
    moreover have "crc32c (p[i - 28 := b]) \<noteq> crc32c p"
    proof (rule crc32c_update_neq [OF ip])
      show "b \<noteq> p ! (i - 28)" using False b by (simp add: encode_record_def nth_append)
    qed
    ultimately have "dc_status (decode_record ?c) = FrameCorrupt"
      using decode_unfold(2) [OF len acc'] h' unat_payload_length [OF p] by (simp add: Let_def refused_def)
    then show ?thesis by simp
  qed
qed

end
