(* ===== verification/Store_Files.thy ===== *)
theory Store_Files
  imports Store_Record Core_Decimal
begin

unbundle bit_operations_syntax

section \<open>Files of the store: the CURRENT pointer and snapshot files\<close>

text \<open>
  The two file formats of \<open>src/store/store.cpp\<close> beside the log: the textual CURRENT pointer
  with its checksum line, and the snapshot file (magic, version, length, checksum, payload).
\<close>

definition kCurrentMagic :: string where "kCurrentMagic = ''fcfn-store 1''"

definition newline :: char where "newline = CHR 0x0A"

record current_pointer =
  cur_snapshot :: u64
  cur_wal :: u64

definition bytes_of :: "string \<Rightarrow> byte list" where "bytes_of t = map byte_of_char t"
definition chars_of :: "byte list \<Rightarrow> string" where "chars_of bs = map char_of_byte bs"

lemma chars_of_bytes_of [simp]: "chars_of (bytes_of t) = t"
  by (simp add: chars_of_def bytes_of_def)

text \<open>The lines before the checksum, and the whole pointer file.\<close>

definition current_text :: "current_pointer \<Rightarrow> string" where
  "current_text p =
     kCurrentMagic @ newline # ''snapshot '' @ u64_string (cur_snapshot p) @
     newline # ''wal '' @ u64_string (cur_wal p) @ [newline]"

definition encode_current :: "current_pointer \<Rightarrow> byte list" where
  "encode_current p =
     bytes_of (current_text p @ ''crc '' @ hex08 (crc32c (bytes_of (current_text p))) @ [newline])"

subsection \<open>Scanning the pointer\<close>

text \<open>\<open>text.find\<close>, \<open>text.rfind\<close> and the line scanner, on the text from the current offset.\<close>

definition rfind_sub :: "string \<Rightarrow> string \<Rightarrow> nat option" where
  "rfind_sub pat text =
     find (\<lambda>i. take (length pat) (drop i text) = pat) (rev [0..<Suc (length text)])"

definition split_key :: "string \<Rightarrow> string \<times> string" where
  "split_key line =
     (let key = takeWhile (\<lambda>c. c \<noteq> CHR '' '') line
      in (key, drop (Suc (length key)) line))"

definition parse_line :: "string \<Rightarrow> (string \<times> string) option" where
  "parse_line text =
     (if newline \<notin> set text then None
      else let line = takeWhile (\<lambda>c. c \<noteq> newline) text
           in Some (line, drop (Suc (length line)) text))"

lemma parse_line_shorter: "parse_line text = Some (line, rest) \<Longrightarrow> length rest < length text"
proof -
  assume p: "parse_line text = Some (line, rest)"
  then have nl: "newline \<in> set text" and r: "rest = drop (Suc (length line)) text"
    by (auto simp: parse_line_def Let_def split: if_splits)
  from nl have "0 < length text" by auto
  then show ?thesis using r by simp
qed

record current_fields =
  cf_pointer :: current_pointer
  cf_have_snapshot :: bool
  cf_have_wal :: bool

function parse_fields :: "string \<Rightarrow> current_fields \<Rightarrow> current_fields result" where
  "parse_fields text f =
     (if text = [] then Inr f
      else case parse_line text of
        None \<Rightarrow> err Corrupt ''CURRENT pointer is malformed''
      | Some (line, rest) \<Rightarrow>
          (let (key, val) = split_key line
           in if key = ''snapshot''
              then (case parse_u64 val of
                      None \<Rightarrow> err Corrupt ''CURRENT snapshot sequence is malformed''
                    | Some v \<Rightarrow> parse_fields rest
                        (f\<lparr>cf_pointer := (cf_pointer f)\<lparr>cur_snapshot := v\<rparr>, cf_have_snapshot := True\<rparr>))
              else if key = ''wal''
              then (case parse_u64 val of
                      None \<Rightarrow> err Corrupt ''CURRENT log sequence is malformed''
                    | Some v \<Rightarrow> parse_fields rest
                        (f\<lparr>cf_pointer := (cf_pointer f)\<lparr>cur_wal := v\<rparr>, cf_have_wal := True\<rparr>))
              else err Corrupt ''CURRENT pointer has an unknown field''))"
  by pat_completeness auto

termination
  by (relation "measure (\<lambda>(text, f). length text)") (auto dest: parse_line_shorter)

declare parse_fields.simps [simp del]

definition trim_newlines :: "string \<Rightarrow> string" where
  "trim_newlines t = rev (dropWhile (\<lambda>c. c = newline \<or> c = CHR 0x0D) (rev t))"

definition decode_current :: "byte list \<Rightarrow> current_pointer result" where
  "decode_current bytes =
     (if bytes = [] \<or> length bytes > 4096 then err Corrupt ''CURRENT pointer has an impossible size''
      else let text = chars_of bytes in
        case rfind_sub ''crc '' text of
          None \<Rightarrow> err Corrupt ''CURRENT pointer has no integrity field''
        | Some marker \<Rightarrow>
            if trim_newlines (drop (marker + 4) text) \<noteq> hex08 (crc32c (bytes_of (take marker text)))
            then err Corrupt ''CURRENT pointer integrity check failed''
            else (case parse_line (take marker text) of
              None \<Rightarrow> err Corrupt ''CURRENT pointer header mismatch''
            | Some (line, rest) \<Rightarrow>
                if line \<noteq> kCurrentMagic then err Corrupt ''CURRENT pointer header mismatch''
                else try_result (parse_fields rest \<lparr>cf_pointer = \<lparr>cur_snapshot = 0, cur_wal = 0\<rparr>,
                       cf_have_snapshot = False, cf_have_wal = False\<rparr>) (\<lambda>f.
                     if \<not> cf_have_snapshot f \<or> \<not> cf_have_wal f \<or> cur_wal (cf_pointer f) = 0
                     then err Corrupt ''CURRENT pointer is incomplete''
                     else Inr (cf_pointer f))))"

subsection \<open>The pointer reads back\<close>

lemma takeWhile_until: "c \<notin> set xs \<Longrightarrow> takeWhile (\<lambda>x. x \<noteq> c) (xs @ c # ys) = xs"
  by (induction xs) auto

lemma parse_line_back: "newline \<notin> set line \<Longrightarrow> parse_line (line @ newline # rest) = Some (line, rest)"
  by (simp add: parse_line_def takeWhile_until)

lemma split_key_back: "CHR '' '' \<notin> set key \<Longrightarrow> split_key (key @ CHR '' '' # val) = (key, val)"
  by (simp add: split_key_def takeWhile_until)

lemma dec_string_digits: "c \<in> set (dec_string n) \<Longrightarrow> \<exists>k < 10. c = dec_digit k"
proof (induction n rule: dec_string.induct)
  case (1 n)
  have digit: "n mod 10 < 10" by simp
  show ?case
  proof (cases "n < 10")
    case True
    then show ?thesis using "1.prems" by (auto simp: dec_string.simps [of n])
  next
    case False
    then have "c \<in> set (dec_string (n div 10)) \<or> c = dec_digit (n mod 10)"
      using "1.prems" by (auto simp: dec_string.simps [of n])
    then show ?thesis using "1.IH" [OF False] digit by blast
  qed
qed

lemma u64_string_digits: "c \<in> set (u64_string v) \<Longrightarrow> \<not> c < CHR ''0'' \<and> \<not> c > CHR ''9''"
  using dec_string_digits [of c "unat v"] dec_digit_range by (auto simp: u64_string_def)

lemma newline_not_digit [simp]: "newline \<notin> set (u64_string v)"
  using u64_string_digits [of newline v] by (auto simp: newline_def less_char_def)

lemma hex08_digits: "set (hex08 v) \<subseteq> set hex_digits"
proof -
  have "hex_digits ! unat (w AND 15 :: u32) \<in> set hex_digits" for w
  proof -
    have "unat (w AND 15) \<le> unat (15 :: u32)" 
      unfolding word_le_nat_alt [symmetric] by (rule word_and_le1)
    then show ?thesis by (intro nth_mem) (simp add: hex_digits_def)
  qed
  then show ?thesis by (auto simp: hex08_def)
qed

lemma parse_fields_Nil [simp]: "parse_fields [] f = Inr f"
  by (subst parse_fields.simps) simp

lemma take_drop_nth: "take n (drop j xs) = ys \<Longrightarrow> k < length ys \<Longrightarrow> xs ! (j + k) = ys ! k"
  by (auto simp: min_def split: if_splits)

lemma rfind_last:
  assumes "\<And>i. length us < i \<Longrightarrow> i \<le> length us + length pat + length vs \<Longrightarrow>
      take (length pat) (drop i (us @ pat @ vs)) \<noteq> pat"
  shows "rfind_sub pat (us @ pat @ vs) = Some (length us)"
proof -
  let ?t = "us @ pat @ vs" let ?P = "\<lambda>i. take (length pat) (drop i ?t) = pat"
  have split: "[0..<Suc (length ?t)] = [0..<length us] @ length us # [Suc (length us)..<Suc (length ?t)]"
  proof -
    have n: "Suc (length ?t) = length us + Suc (length pat + length vs)" by simp
    have "length us < length us + Suc (length pat + length vs)" by simp
    from upt_conv_Cons [OF this] show ?thesis
      unfolding n upt_add_eq_append [OF le0] by (simp only:)
  qed
  have none: "find ?P (rev [Suc (length us)..<Suc (length ?t)]) = None"
  proof -
    have "\<not> ?P i" if "i \<in> set [Suc (length us)..<Suc (length ?t)]" for i
    proof -
      have "length us < i" "i \<le> length us + length pat + length vs" using that by (auto simp del: upt_Suc)
      then show ?thesis by (rule assms)
    qed
    then show ?thesis unfolding find_None_iff set_rev by blast
  qed
  have "find ?P (xs @ length us # ys) = Some (length us)" if "find ?P xs = None" for xs ys
    using that by (induction xs) (auto split: if_splits)
  then show ?thesis unfolding rfind_sub_def split using none by simp
qed

lemma crc_marker_last:
  assumes "set ds \<subseteq> set hex_digits"
  shows "rfind_sub ''crc '' (us @ ''crc '' @ ds @ [newline]) = Some (length us)"
proof (rule rfind_last)
  fix i
  assume i: "length us < i" "i \<le> length us + length ''crc '' + length (ds @ [newline])"
  let ?tail = "''rc '' @ ds @ [newline]"
  have four: "length ''crc '' = 4" by simp
  obtain j where j: "i = length us + Suc j" using i(1) by (metis less_imp_Suc_add add_Suc_right)
  have d: "drop i (us @ ''crc '' @ ds @ [newline]) = drop j ?tail" unfolding j by simp
  show "take (length ''crc '') (drop i (us @ ''crc '' @ ds @ [newline])) \<noteq> ''crc ''"
  proof
    assume "take (length ''crc '') (drop i (us @ ''crc '' @ ds @ [newline])) = ''crc ''"
    then have p: "take 4 (drop j ?tail) = ''crc ''" unfolding d by (simp only: four)
    have lt: "j + 3 < length ?tail"
      using arg_cong [OF p, of length] four by (simp only: length_take length_drop)
    have "?tail ! (j + 1) = CHR ''r''" "?tail ! j = CHR ''c''"
      using take_drop_nth [OF p, of 1] take_drop_nth [OF p, of 0] by (simp_all del: nth_Cons_numeral append_Cons)
    note this lt
    moreover have "CHR ''r'' \<notin> set ds" using assms by (auto simp: hex_digits_def)
    ultimately show False
    proof (cases "j < 3")
      case True
      then show ?thesis using \<open>?tail ! j = CHR ''c''\<close> \<open>?tail ! (j + 1) = CHR ''r''\<close>
        by (auto simp: less_Suc_eq numeral_3_eq_3)
    next
      case False
      then obtain k where k: "j = k + 3" by (metis add.commute le_Suc_ex not_less)
      have "?tail ! (j + 1) = (ds @ [newline]) ! (k + 1)" unfolding k by simp
      moreover have "k + 1 < length (ds @ [newline])" using \<open>j + 3 < length ?tail\<close> k by simp
      ultimately have "CHR ''r'' \<in> set (ds @ [newline])"
        using \<open>?tail ! (j + 1) = CHR ''r''\<close> nth_mem by metis
      then show ?thesis using \<open>CHR ''r'' \<notin> set ds\<close> by (simp add: newline_def)
    qed
  qed
qed

lemma trim_newlines_back:
  assumes "set ds \<subseteq> set hex_digits"
  shows "trim_newlines (ds @ [newline]) = ds"
proof -
  have "c \<noteq> newline \<and> c \<noteq> CHR 0x0D" if "c \<in> set ds" for c
    using assms that by (auto simp: hex_digits_def newline_def)
  then show ?thesis
    by (cases ds rule: rev_cases) (auto simp: trim_newlines_def)
qed

lemma decode_encode_current:
  assumes "cur_wal p \<noteq> 0"
  shows "decode_current (encode_current p) = Inr p"
proof -
  let ?t = "current_text p" let ?d = "hex08 (crc32c (bytes_of ?t))"
  let ?text = "?t @ ''crc '' @ ?d @ [newline]"
  have ds: "set ?d \<subseteq> set hex_digits" by (rule hex08_digits)
  have e: "encode_current p = bytes_of ?text" by (simp add: encode_current_def)
  have ct: "length ?t \<le> 100"
    using length_u64_string [of "cur_snapshot p"] length_u64_string [of "cur_wal p"]
    by (simp add: current_text_def kCurrentMagic_def)
  then have size: "bytes_of ?text \<noteq> []" "\<not> length (bytes_of ?text) > 4096"
    by (simp_all add: bytes_of_def hex08_def)
  let ?r2 = "''wal '' @ u64_string (cur_wal p) @ [newline]"
  let ?r1 = "''snapshot '' @ u64_string (cur_snapshot p) @ newline # ?r2"
  have t: "?t = kCurrentMagic @ newline # ?r1" by (simp add: current_text_def)
  have n1: "newline \<notin> set (''snapshot '' @ u64_string (cur_snapshot p))"
    using newline_not_digit [of "cur_snapshot p"] by (auto simp: newline_def)
  have n2: "newline \<notin> set (''wal '' @ u64_string (cur_wal p))"
    using newline_not_digit [of "cur_wal p"] by (auto simp: newline_def)
  have l0: "parse_line ?t = Some (kCurrentMagic, ?r1)"
    unfolding t by (rule parse_line_back) (simp add: kCurrentMagic_def newline_def)
  have l1: "parse_line ?r1 = Some (''snapshot '' @ u64_string (cur_snapshot p), ?r2)"
    using parse_line_back [OF n1, of ?r2] by simp
  have l2: "parse_line ?r2 = Some (''wal '' @ u64_string (cur_wal p), [])"
    using parse_line_back [OF n2, of "[]"] by simp
  have k1: "split_key (''snapshot '' @ u64_string v) = (''snapshot'', u64_string v)" for v
    using split_key_back [of "''snapshot''"] by simp
  have k2: "split_key (''wal '' @ u64_string v) = (''wal'', u64_string v)" for v
    using split_key_back [of "''wal''"] by simp
  have f: "parse_fields ?r1 \<lparr>cf_pointer = \<lparr>cur_snapshot = 0, cur_wal = 0\<rparr>, cf_have_snapshot = False,
      cf_have_wal = False\<rparr> = Inr \<lparr>cf_pointer = p, cf_have_snapshot = True, cf_have_wal = True\<rparr>"
    apply (subst parse_fields.simps)
    apply (simp only: l1 k1 option.case prod.case Let_def parse_u64_string)
    apply (subst parse_fields.simps)
    apply (simp only: l2 k2 option.case prod.case Let_def parse_u64_string)
    by simp
  show ?thesis
    unfolding e decode_current_def chars_of_bytes_of Let_def crc_marker_last [OF ds]
    using size trim_newlines_back [OF ds] l0 f assms by simp
qed

subsection \<open>Snapshot files\<close>

definition kSnapshotFileMagic :: string where "kSnapshotFileMagic = ''FCFNSNAP''"
definition kSnapshotFormatVersion :: u16 where "kSnapshotFormatVersion = 1"

definition encode_snapshot_file :: "byte list \<Rightarrow> byte list" where
  "encode_snapshot_file payload =
     bytes_of kSnapshotFileMagic @ w_u16 kSnapshotFormatVersion @ w_size32 (length payload) @
     w_u32 (crc32c payload) @ payload"

definition decode_snapshot_file :: "byte list \<Rightarrow> byte list result" where
  "decode_snapshot_file bytes =
     (if length bytes < 18 then err Corrupt ''snapshot file is too short''
      else if take 8 bytes \<noteq> bytes_of kSnapshotFileMagic
        then err Corrupt ''snapshot file magic mismatch''
      else if get_u16 bytes 8 \<noteq> kSnapshotFormatVersion
        then err VersionUnsupported ''snapshot format version is not supported''
      else let len = unat (get_u32 bytes 10) in
        if len > kMaxSnapshotPayloadBytes
          then err LimitExceeded ''snapshot payload length exceeds the bound''
        else if length bytes < 18 + len
          then err Corrupt ''snapshot file is shorter than its header declares''
        else if length bytes > 18 + len
          then err TrailingGarbage ''snapshot file has bytes after its payload''
        else let payload = take len (drop 18 bytes) in
          if crc32c payload \<noteq> get_u32 bytes 14
          then err Corrupt ''snapshot payload integrity check failed''
          else Inr payload)"

lemma decode_encode_snapshot_file:
  assumes "length payload \<le> kMaxSnapshotPayloadBytes"
  shows "decode_snapshot_file (encode_snapshot_file payload) = Inr payload"
proof -
  let ?m = "bytes_of kSnapshotFileMagic" let ?v = "put_u16 kSnapshotFormatVersion"
  let ?l = "put_u32 (of_nat (length payload))" let ?c = "put_u32 (crc32c payload)"
  have m: "length ?m = 8" by (simp add: bytes_of_def kSnapshotFileMagic_def)
  have e: "encode_snapshot_file payload = ?m @ ?v @ ?l @ ?c @ payload"
    by (simp add: encode_snapshot_file_def w_u16_def w_u32_def w_size32_def put_defs)
  have v: "get_u16 (?m @ ?v @ ?l @ ?c @ payload) 8 = kSnapshotFormatVersion"
    by (rule get_put(1) [OF m])
  have l: "get_u32 (?m @ ?v @ ?l @ ?c @ payload) 10 = of_nat (length payload)"
    using get_put(2) [of "?m @ ?v" 10] m by simp
  have c: "get_u32 (?m @ ?v @ ?l @ ?c @ payload) 14 = crc32c payload"
    using get_put(2) [of "?m @ ?v @ ?l" 14] m by simp
  have len: "unat (of_nat (length payload) :: u32) = length payload"
    using assms by (simp add: kMaxSnapshotPayloadBytes_def unat_size32)
  show ?thesis
    unfolding decode_snapshot_file_def e using v l c len m assms by (simp add: Let_def)
qed

interpretation snapshot_doc:
  document_codec encode_snapshot_file decode_snapshot_file "\<lambda>p. length p \<le> kMaxSnapshotPayloadBytes"
  by unfold_locales (rule decode_encode_snapshot_file)

interpretation current_doc: document_codec encode_current decode_current "\<lambda>p. cur_wal p \<noteq> 0"
  by unfold_locales (rule decode_encode_current)

end
