(* ===== verification/Store_Log.thy ===== *)
theory Store_Log
  imports Store_Files "HOL-Library.AList"
begin

section \<open>File operations and the replay of the log\<close>

text \<open>
  The file helpers of \<open>src/store/record.cpp\<close> and the replay loop of \<open>src/store/store.cpp\<close>.
  The operating system is a record: the kind of the root directory, the files of the root by
  name, a script of faults that the next operations meet (none once it is used up), the
  process identity and the processes alive. A fault names the stage of the operation that
  fails and, for a write, how many bytes had reached the file. What is modelled is the content
  a later \<open>open\<close> of the file sees; a crash is a fault after which nothing more runs.
\<close>

datatype io_stage = AtOpen | AtWrite | AtFlush | AtSync | AtReplace

datatype fault = NoFault | Fault io_stage nat

datatype root_kind = RootMissing | RootDirectory | RootOther

record os =
  os_root :: root_kind
  os_files :: "(string \<times> byte list) list"
  os_faults :: "fault list"
  os_pid :: u64
  os_alive :: "u64 \<Rightarrow> bool"

definition file_at :: "os \<Rightarrow> string \<Rightarrow> byte list option" where
  "file_at sys name = map_of (os_files sys) name"

definition put_file :: "string \<Rightarrow> byte list \<Rightarrow> os \<Rightarrow> os" where
  "put_file name bytes sys = sys\<lparr>os_files := AList.update name bytes (os_files sys)\<rparr>"

definition next_fault :: "os \<Rightarrow> fault \<times> os" where
  "next_fault sys =
     (case os_faults sys of [] \<Rightarrow> (NoFault, sys) | f # fs \<Rightarrow> (f, sys\<lparr>os_faults := fs\<rparr>))"

text \<open>\<open>std::filesystem::exists(path, error)\<close>: the answer and whether an error was reported.\<close>

definition os_exists :: "string \<Rightarrow> os \<Rightarrow> (bool \<times> bool) \<times> os" where
  "os_exists name sys =
     (let (f, sys1) = next_fault sys
      in case f of NoFault \<Rightarrow> ((file_at sys1 name \<noteq> None, False), sys1)
         | Fault _ _ \<Rightarrow> ((False, True), sys1))"

definition read_file :: "string \<Rightarrow> nat \<Rightarrow> os \<Rightarrow> byte list result \<times> os" where
  "read_file name max_bytes sys =
     (let (f, sys1) = next_fault sys
      in case file_at sys1 name of
           None \<Rightarrow> (err IoError ''cannot stat durable file'', sys1)
         | Some bytes \<Rightarrow>
             (if f = Fault AtOpen 0 then (err IoError ''cannot stat durable file'', sys1)
              else if length bytes > max_bytes
                then (err LimitExceeded ''durable file exceeds the configured bound'', sys1)
              else (case f of
                  Fault AtOpen _ \<Rightarrow> (err IoError ''cannot open durable file for reading'', sys1)
                | Fault _ _ \<Rightarrow> (err IoError ''short read from durable file'', sys1)
                | NoFault \<Rightarrow> (Inr bytes, sys1))))"

definition write_file_atomic :: "string \<Rightarrow> byte list \<Rightarrow> bool \<Rightarrow> os \<Rightarrow> unit result \<times> os" where
  "write_file_atomic target bytes durable sys =
     (let (f, sys1) = next_fault sys;
          replaced = (Inr (), put_file target bytes sys1)
      in case f of
           NoFault \<Rightarrow> replaced
         | Fault AtOpen _ \<Rightarrow> (err IoError ''cannot open temporary file for writing'', sys1)
         | Fault AtWrite _ \<Rightarrow>
             (if bytes = [] then replaced else (err IoError ''short write to temporary file'', sys1))
         | Fault AtFlush _ \<Rightarrow> (err IoError ''flush failed'', sys1)
         | Fault AtSync _ \<Rightarrow>
             (if durable then (err IoError ''durable flush failed'', sys1) else replaced)
         | Fault AtReplace _ \<Rightarrow> (err IoError ''atomic replace failed'', sys1))"

definition append_bytes :: "string \<Rightarrow> byte list \<Rightarrow> os \<Rightarrow> os" where
  "append_bytes name bytes sys =
     put_file name ((case file_at sys name of None \<Rightarrow> [] | Some old \<Rightarrow> old) @ bytes) sys"

definition append_file_durable :: "string \<Rightarrow> byte list \<Rightarrow> bool \<Rightarrow> os \<Rightarrow> unit result \<times> os" where
  "append_file_durable name bytes durable sys =
     (let (f, sys1) = next_fault sys;
          appended = (Inr (), append_bytes name bytes sys1)
      in case f of
           NoFault \<Rightarrow> appended
         | Fault AtOpen _ \<Rightarrow> (err IoError ''cannot open file for append'', sys1)
         | Fault AtWrite n \<Rightarrow>
             (if bytes = [] then appended
              else (err IoError ''short append'', append_bytes name (take (min n (length bytes - 1)) bytes) sys1))
         | Fault AtFlush n \<Rightarrow> (err IoError ''append flush failed'', append_bytes name (take n bytes) sys1)
         | Fault AtSync _ \<Rightarrow>
             (if durable then (err IoError ''durable append flush failed'', append_bytes name bytes sys1)
              else appended)
         | Fault AtReplace _ \<Rightarrow> appended)"

definition remove_file_if_present :: "string \<Rightarrow> os \<Rightarrow> unit result \<times> os" where
  "remove_file_if_present name sys =
     (let (f, sys1) = next_fault sys
      in case f of
           NoFault \<Rightarrow> (Inr (), sys1\<lparr>os_files := AList.delete name (os_files sys1)\<rparr>)
         | Fault _ _ \<Rightarrow> (err IoError ''cannot remove file'', sys1))"

text \<open>\<open>directory_iterator(root, error)\<close>: the names, or an error.\<close>

definition list_directory :: "os \<Rightarrow> string list result \<times> os" where
  "list_directory sys =
     (let (f, sys1) = next_fault sys
      in case f of
           NoFault \<Rightarrow> (Inr (map fst (os_files sys1)), sys1)
         | Fault _ _ \<Rightarrow> (err IoError ''cannot enumerate the store root'', sys1))"

definition process_is_alive :: "os \<Rightarrow> u64 \<Rightarrow> bool" where
  "process_is_alive sys pid \<longleftrightarrow> pid = os_pid sys \<or> (pid \<noteq> 0 \<and> os_alive sys pid)"

subsection \<open>What the operations do to the files\<close>

definition fault_free :: "os \<Rightarrow> bool" where
  "fault_free sys \<longleftrightarrow> os_faults sys = []"

named_theorems os_simps \<open>file operations on a system without faults\<close>

lemma next_fault_free [os_simps]: "fault_free sys \<Longrightarrow> next_fault sys = (NoFault, sys)"
  by (simp add: next_fault_def fault_free_def)

lemma fault_free_put [os_simps]: "fault_free (put_file n b sys) = fault_free sys"
  by (simp add: fault_free_def put_file_def)

lemma file_at_put [os_simps]: "file_at (put_file n b sys) m = (if m = n then Some b else file_at sys m)"
  by (simp add: file_at_def put_file_def update_conv')

lemma os_exists_free [os_simps]:
  "fault_free sys \<Longrightarrow> os_exists n sys = ((file_at sys n \<noteq> None, False), sys)"
  by (simp add: os_exists_def os_simps)

lemma read_file_free [os_simps]:
  "fault_free sys \<Longrightarrow> file_at sys n = Some b \<Longrightarrow> length b \<le> m \<Longrightarrow> read_file n m sys = (Inr b, sys)"
  by (simp add: read_file_def os_simps)

lemma write_file_free [os_simps]:
  "fault_free sys \<Longrightarrow> write_file_atomic n b d sys = (Inr (), put_file n b sys)"
  by (simp add: write_file_atomic_def os_simps)

lemma append_file_free [os_simps]:
  "fault_free sys \<Longrightarrow> append_file_durable n b d sys = (Inr (), append_bytes n b sys)"
  by (simp add: append_file_durable_def os_simps)

lemma file_at_append [os_simps]:
  "file_at (append_bytes n b sys) m =
     (if m = n then Some ((case file_at sys n of None \<Rightarrow> [] | Some old \<Rightarrow> old) @ b) else file_at sys m)"
  by (simp add: append_bytes_def os_simps)

lemma fault_free_append [os_simps]: "fault_free (append_bytes n b sys) = fault_free sys"
  by (simp add: append_bytes_def os_simps)

lemma remove_file_free [os_simps]:
  "fault_free sys \<Longrightarrow>
   remove_file_if_present n sys = (Inr (), sys\<lparr>os_files := AList.delete n (os_files sys)\<rparr>)"
  by (simp add: remove_file_if_present_def os_simps)

lemma file_at_delete [os_simps]:
  "file_at (sys\<lparr>os_files := AList.delete n (os_files sys)\<rparr>) m = (if m = n then None else file_at sys m)"
  by (simp add: file_at_def delete_conv')

lemma next_fault_files: "os_files (snd (next_fault sys)) = os_files sys"
  by (simp add: next_fault_def split: list.splits)

text \<open>An atomic write replaces the target or leaves every file as it was.\<close>

lemma write_file_atomic_files:
  "file_at (snd (write_file_atomic t b d sys)) m
     = (if m = t \<and> is_ok (fst (write_file_atomic t b d sys)) then Some b else file_at sys m)"
proof -
  have "file_at (snd (next_fault sys)) = file_at sys"
    by (intro ext) (simp add: file_at_def next_fault_files)
  then show ?thesis
    by (auto simp: write_file_atomic_def case_prod_beta Let_def os_simps split: fault.splits io_stage.splits)
qed

subsection \<open>Replay\<close>

record replay_state =
  rp_consumed :: nat
  rp_previous :: "sequence_no option"
  rp_last :: sequence_no
  rp_frames :: "frame list"
  rp_skipped :: nat

text \<open>One accepted frame: skipped when the snapshot already represents it.\<close>

definition replay_frame :: "decode_outcome \<Rightarrow> replay_state \<Rightarrow> replay_state" where
  "replay_frame out s =
     (let f = dc_frame out;
          s1 = s\<lparr>rp_previous := Some (fr_sequence f), rp_consumed := rp_consumed s + dc_consumed out\<rparr>
      in if \<not> fr_sequence f > rp_last s then s1\<lparr>rp_skipped := rp_skipped s + 1\<rparr>
         else s1\<lparr>rp_last := fr_sequence f, rp_frames := rp_frames s @ [f]\<rparr>)"

lemma decode_ok_consumed: "dc_status (decode_record bytes) = FrameOk \<Longrightarrow>
    0 < dc_consumed (decode_record bytes) \<and> dc_consumed (decode_record bytes) \<le> length bytes"
proof -
  assume ok: "dc_status (decode_record bytes) = FrameOk"
  from decode_record_sound [OF ok] obtain t q p where
    c: "dc_consumed (decode_record bytes) = 28 + length p" and
    b: "bytes = encode_record t q p @ drop (28 + length p) bytes" by blast
  have "length bytes = 28 + length p + (length bytes - (28 + length p))"
    using arg_cong [OF b, of length] by simp
  then show ?thesis using c by simp
qed

function replay_loop :: "bool \<Rightarrow> byte list \<Rightarrow> replay_state \<Rightarrow> (replay_state \<times> nat option) result" where
  "replay_loop allow_torn remaining s =
     (let out = decode_record remaining in
      if dc_status out = NoMoreData then Inr (s, None)
      else if dc_status out = TornTail
        then (if \<not> allow_torn
              then err Corrupt ''log ends with a partial record and recovery is disabled''
              else Inr (s, Some (length remaining)))
      else if dc_status out \<noteq> FrameOk
        then err (if dc_status out = UnsupportedVersion then VersionUnsupported else Corrupt) (dc_detail out)
      else if (case rp_previous s of None \<Rightarrow> False | Some p \<Rightarrow> \<not> p < fr_sequence (dc_frame out))
        then err SequenceRegression ''log sequence did not advance''
      else replay_loop allow_torn (drop (dc_consumed out) remaining) (replay_frame out s))"
  by pat_completeness auto

termination
  by (relation "measure (\<lambda>(_, remaining, _). length remaining)") (auto dest: decode_ok_consumed)

declare replay_loop.simps [simp del]

text \<open>A log: the records of a list of frames, one after the other.\<close>

definition frame_bytes :: "frame \<Rightarrow> byte list" where
  "frame_bytes f = encode_record (fr_type f) (fr_sequence f) (fr_payload f)"

definition log_bytes :: "frame list \<Rightarrow> byte list" where
  "log_bytes fs = concat (map frame_bytes fs)"

definition wf_frame :: "frame \<Rightarrow> bool" where
  "wf_frame f \<longleftrightarrow> length (fr_payload f) \<le> kMaxRecordPayloadBytes \<and>
     fr_encoded_size f = kRecordHeaderBytes + length (fr_payload f)"

definition wf_log :: "frame list \<Rightarrow> bool" where
  "wf_log fs \<longleftrightarrow> (\<forall>f \<in> set fs. wf_frame f) \<and> sorted_wrt (<) (map fr_sequence fs)"

lemma wf_frame_eq: "wf_frame f \<Longrightarrow> frame_of (fr_type f) (fr_sequence f) (fr_payload f) = f"
  by (cases f) (simp add: wf_frame_def frame_of_def)

lemma decode_frame_bytes:
  "wf_frame f \<Longrightarrow> decode_record (frame_bytes f @ rest) =
     \<lparr>dc_status = FrameOk, dc_frame = f, dc_detail = [], dc_consumed = length (frame_bytes f)\<rparr>"
  using decode_encode_record [of "fr_payload f" "fr_type f" "fr_sequence f" rest] wf_frame_eq [of f]
  by (simp add: frame_bytes_def wf_frame_def)

lemma replay_step:
  assumes "wf_frame f" and "\<And>p. rp_previous s = Some p \<Longrightarrow> p < fr_sequence f"
  shows "replay_loop a (frame_bytes f @ rest) s
    = replay_loop a rest (replay_frame (decode_record (frame_bytes f @ rest)) s)"
proof -
  have "replay_loop a (frame_bytes f @ rest) s = replay_loop a
      (drop (length (frame_bytes f)) (frame_bytes f @ rest)) (replay_frame (decode_record (frame_bytes f @ rest)) s)"
    using assms(2)
    by (subst replay_loop.simps) (auto simp: decode_frame_bytes [OF assms(1)] Let_def split: option.splits)
  then show ?thesis by simp
qed

text \<open>The state after the records of \<open>fs\<close>: those beyond the snapshot are replayed, in order.\<close>

definition replayed :: "frame list \<Rightarrow> replay_state \<Rightarrow> replay_state" where
  "replayed fs s = foldl (\<lambda>s f. replay_frame
     \<lparr>dc_status = FrameOk, dc_frame = f, dc_detail = [], dc_consumed = length (frame_bytes f)\<rparr> s) s fs"

lemma replay_log_bytes:
  assumes "wf_log fs" and "\<And>p f. rp_previous s = Some p \<Longrightarrow> f \<in> set fs \<Longrightarrow> p < fr_sequence f"
  shows "replay_loop a (log_bytes fs @ rest) s = replay_loop a rest (replayed fs s)"
  using assms
proof (induction fs arbitrary: s)
  case Nil
  then show ?case by (simp add: log_bytes_def replayed_def)
next
  case (Cons f fs)
  have f: "wf_frame f" and fs: "wf_log fs" and lt: "\<And>g. g \<in> set fs \<Longrightarrow> fr_sequence f < fr_sequence g"
    using Cons.prems(1) by (auto simp: wf_log_def)
  let ?s = "replay_frame \<lparr>dc_status = FrameOk, dc_frame = f, dc_detail = [],
      dc_consumed = length (frame_bytes f)\<rparr> s"
  have prev: "rp_previous ?s = Some (fr_sequence f)" by (simp add: replay_frame_def Let_def)
  have "replay_loop a (frame_bytes f @ log_bytes fs @ rest) s = replay_loop a (log_bytes fs @ rest) ?s"
    using replay_step [OF f, of s a "log_bytes fs @ rest"] Cons.prems(2)
    by (simp add: decode_frame_bytes [OF f])
  also have "\<dots> = replay_loop a rest (replayed fs ?s)"
    using lt prev by (intro Cons.IH [OF fs]) simp
  finally show ?case by (simp add: log_bytes_def replayed_def)
qed

lemma replayed_state:
  assumes "wf_log fs"
  shows "rp_consumed (replayed fs s) = rp_consumed s + length (log_bytes fs)"
    and "rp_frames (replayed fs s) = rp_frames s @ filter (\<lambda>f. rp_last s < fr_sequence f) fs"
    and "rp_last (replayed fs s) = foldl max (rp_last s) (map fr_sequence fs)"
  using assms
proof (induction fs arbitrary: s)
  case Nil
  { case 1 then show ?case by (simp add: replayed_def log_bytes_def) }
  { case 2 then show ?case by (simp add: replayed_def) }
  { case 3 then show ?case by (simp add: replayed_def) }
next
  case (Cons f fs)
  let ?s = "replay_frame \<lparr>dc_status = FrameOk, dc_frame = f, dc_detail = [],
      dc_consumed = length (frame_bytes f)\<rparr>"
  have r: "replayed (f # fs) s = replayed fs (?s s)" for s by (simp add: replayed_def)
  have last: "rp_last (?s s) = max (rp_last s) (fr_sequence f)" for s
    by (auto simp: replay_frame_def Let_def max_def)
  { case 1
    then have "wf_log fs" by (simp add: wf_log_def)
    from Cons.IH(1) [OF this, of "?s s"] show ?case
      unfolding r by (simp add: replay_frame_def Let_def log_bytes_def) }
  { case 2
    then have fs: "wf_log fs" and lt: "\<forall>g \<in> set fs. fr_sequence f < fr_sequence g" by (auto simp: wf_log_def)
    have "filter (\<lambda>g. rp_last (?s s) < fr_sequence g) fs = filter (\<lambda>g. rp_last s < fr_sequence g) fs"
      using lt last by (intro filter_cong) auto
    with Cons.IH(2) [OF fs, of "?s s"] show ?case
      unfolding r by (simp add: replay_frame_def Let_def) }
  { case 3
    then have "wf_log fs" by (simp add: wf_log_def)
    from Cons.IH(3) [OF this, of "?s s"] show ?case unfolding r last by simp }
qed

text \<open>The end of the log: clean, torn, or refused.\<close>

lemma replay_end: "replay_loop a [] s = Inr (s, None)"
  by (subst replay_loop.simps) (simp add: decode_record_def refused_def)

lemma replay_torn:
  assumes "wf_frame f" and "0 < k" and "k < length (frame_bytes f)"
  shows "replay_loop a (take k (frame_bytes f)) s =
    (if a then Inr (s, Some k) else err Corrupt ''log ends with a partial record and recovery is disabled'')"
proof -
  have "dc_status (decode_record (take k (frame_bytes f))) = TornTail"
    unfolding frame_bytes_def using assms by (intro decode_torn_record) (simp_all add: wf_frame_def frame_bytes_def)
  then show ?thesis using assms(3) by (subst replay_loop.simps) (simp add: Let_def)
qed

end
