(* ===== verification/Store_Durable.thy ===== *)
theory Store_Durable
  imports Store_Log
begin

section \<open>The durable store\<close>

text \<open>
  The class \<open>DurableStore\<close> (\<open>store/store.hpp\<close>, \<open>src/store/store.cpp\<close>): opening a store
  with its lock, pointer, snapshot and log; appending one record; writing a snapshot and
  rotating the log; retention. Every operation threads the store object and the operating
  system; an error leaves both as they are at the point of the early return.
\<close>

subsection \<open>State\<close>

definition kMaxWalFileBytes :: nat where "kMaxWalFileBytes = 512 * 1024 * 1024"

definition kLockName :: string where "kLockName = ''LOCK''"
definition kCurrentName :: string where "kCurrentName = ''CURRENT''"

definition snapshot_name :: "u64 \<Rightarrow> string" where
  "snapshot_name n = ''snapshot-'' @ hex16 n @ ''.fcfn''"

definition wal_name :: "u64 \<Rightarrow> string" where
  "wal_name n = ''wal-'' @ hex16 n @ ''.fcfn''"

record store_options =
  so_root :: string
  so_retained_snapshots :: nat
  so_durable_commit :: bool
  so_allow_torn_tail :: bool

record recovery_report =
  rr_fresh :: bool
  rr_torn_tail :: bool
  rr_torn_tail_bytes :: u64
  rr_replayed_records :: nat
  rr_skipped_records :: nat
  rr_snapshot_sequence :: u64
  rr_wal_segment :: u64
  rr_last_sequence :: sequence_no
  rr_snapshot_payload :: "byte list"
  rr_detail :: string

record durable_store =
  st_options :: store_options
  st_recovery :: recovery_report
  st_replayed :: "frame list"
  st_last_sequence :: sequence_no
  st_wal_segment :: u64
  st_snapshot_sequence :: u64
  st_holds_lock :: bool

definition new_store :: "store_options \<Rightarrow> durable_store" where
  "new_store options =
     \<lparr>st_options = options,
      st_recovery = \<lparr>rr_fresh = False, rr_torn_tail = False, rr_torn_tail_bytes = 0,
        rr_replayed_records = 0, rr_skipped_records = 0, rr_snapshot_sequence = 0,
        rr_wal_segment = 0, rr_last_sequence = 0, rr_snapshot_payload = [], rr_detail = []\<rparr>,
      st_replayed = [], st_last_sequence = 0, st_wal_segment = 0, st_snapshot_sequence = 0,
      st_holds_lock = False\<rparr>"

definition wal_path :: "durable_store \<Rightarrow> string" where "wal_path st = wal_name (st_wal_segment st)"

text \<open>
  An operation of the store, with the early return: \<open>io_bind\<close> stops at the first error
  and keeps the state reached. \<open>on_os\<close> runs a file operation.
\<close>

type_synonym 'a store_io = "durable_store \<times> os \<Rightarrow> 'a result \<times> durable_store \<times> os"

definition io_return :: "'a \<Rightarrow> 'a store_io" where "io_return x s = (Inr x, s)"

definition io_fail :: "status_code \<Rightarrow> string \<Rightarrow> 'a store_io" where "io_fail c m s = (err c m, s)"

definition io_bind :: "'a store_io \<Rightarrow> ('a \<Rightarrow> 'b store_io) \<Rightarrow> 'b store_io" where
  "io_bind m f s = (case m s of (Inl e, s1) \<Rightarrow> (Inl e, s1) | (Inr x, s1) \<Rightarrow> f x s1)"

definition on_os :: "(os \<Rightarrow> 'a result \<times> os) \<Rightarrow> 'a store_io" where
  "on_os m = (\<lambda>(st, sys). let (r, sys1) = m sys in (r, st, sys1))"

definition on_store :: "(durable_store \<Rightarrow> durable_store) \<Rightarrow> unit store_io" where
  "on_store f = (\<lambda>(st, sys). (Inr (), f st, sys))"

subsection \<open>Lock\<close>

text \<open>The owner recorded in the lock file: the text up to the first zero byte.\<close>

definition lock_owner :: "byte list \<Rightarrow> u64 option" where
  "lock_owner bytes = parse_u64 (chars_of (takeWhile (\<lambda>b. b \<noteq> 0) bytes))"

definition acquire_lock :: "unit store_io" where
  "acquire_lock = (\<lambda>(st, sys).
     let ((present, _), sys1) = os_exists kLockName sys in
     if \<not> present
     then io_bind (on_os (write_file_atomic kLockName (bytes_of (u64_string (os_pid sys1))) False))
            (\<lambda>_. on_store (\<lambda>st. st\<lparr>st_holds_lock := True\<rparr>)) (st, sys1)
     else let (existing, sys2) = read_file kLockName 64 sys1;
              live = (case existing of Inl _ \<Rightarrow> False
                | Inr bytes \<Rightarrow> (case lock_owner bytes of None \<Rightarrow> False
                    | Some owner \<Rightarrow> process_is_alive sys2 owner))
          in if live then (err AlreadyExists ''store is already open by a live process'', st, sys2)
             else io_bind (on_os (remove_file_if_present kLockName)) (\<lambda>_.
                  io_bind (on_os (write_file_atomic kLockName (bytes_of (u64_string (os_pid sys2))) False))
                    (\<lambda>_. on_store (\<lambda>st. st\<lparr>st_holds_lock := True\<rparr>))) (st, sys2))"

definition release_lock :: "durable_store \<times> os \<Rightarrow> durable_store \<times> os" where
  "release_lock = (\<lambda>(st, sys).
     if \<not> st_holds_lock st then (st, sys)
     else (st\<lparr>st_holds_lock := False\<rparr>, snd (remove_file_if_present kLockName sys)))"

subsection \<open>Retention\<close>

text \<open>
  \<open>name.substr(n, name.size() - n - 5)\<close>: the count is unsigned, so on a short name it wraps
  around and the substring runs to the end.
\<close>

definition name_digits :: "nat \<Rightarrow> string \<Rightarrow> string" where
  "name_digits n name =
     (if n + 5 \<le> length name then take (length name - n - 5) (drop n name) else drop n name)"

definition snapshot_numbers :: "string list \<Rightarrow> u64 list" where
  "snapshot_numbers names =
     List.map_filter (\<lambda>name. if take 9 name = ''snapshot-'' \<and> length name > 9
       then parse_u64 (name_digits 9 name) else None) names"

definition wal_numbers :: "string list \<Rightarrow> u64 list" where
  "wal_numbers names =
     List.map_filter (\<lambda>name. if \<not> (take 9 name = ''snapshot-'' \<and> length name > 9) \<and>
         take 4 name = ''wal-'' \<and> length name > 4
       then parse_u64 (name_digits 4 name) else None) names"

fun prune_snapshots :: "nat \<Rightarrow> u64 \<Rightarrow> u64 list \<Rightarrow> unit store_io" where
  "prune_snapshots retained current [] = io_return ()"
| "prune_snapshots retained current (victim # rest) =
     (if length (victim # rest) \<le> retained then io_return ()
      else if victim = current then prune_snapshots retained current rest
      else io_bind (on_os (remove_file_if_present (snapshot_name victim)))
             (\<lambda>_. prune_snapshots retained current rest))"

fun prune_logs :: "u64 \<Rightarrow> u64 list \<Rightarrow> unit store_io" where
  "prune_logs active [] = io_return ()"
| "prune_logs active (n # ns) =
     (if n \<ge> active then prune_logs active ns
      else io_bind (on_os (remove_file_if_present (wal_name n))) (\<lambda>_. prune_logs active ns))"

definition cleanup_old_files :: "unit store_io" where
  "cleanup_old_files = (\<lambda>(st, sys).
     io_bind (on_os list_directory) (\<lambda>names.
     io_bind (prune_snapshots (so_retained_snapshots (st_options st)) (st_snapshot_sequence st)
                (sort (snapshot_numbers names))) (\<lambda>_.
     prune_logs (st_wal_segment st) (sort (wal_numbers names)))) (st, sys))"

subsection \<open>Opening\<close>

definition initialize_fresh :: "unit store_io" where
  "initialize_fresh = (\<lambda>(st, sys).
     let durable = so_durable_commit (st_options st) in
     io_bind (on_os (write_file_atomic (wal_name 1) [] durable)) (\<lambda>_.
     io_bind (on_os (write_file_atomic kCurrentName
                (encode_current \<lparr>cur_snapshot = 0, cur_wal = 1\<rparr>) durable)) (\<lambda>_.
     on_store (\<lambda>st. st\<lparr>st_wal_segment := 1, st_snapshot_sequence := 0, st_last_sequence := 0,
       st_recovery := (st_recovery st)\<lparr>rr_fresh := True, rr_wal_segment := 1, rr_last_sequence := 0,
         rr_detail := ''initialised empty store''\<rparr>\<rparr>))) (st, sys))"

definition replay_log :: "unit store_io" where
  "replay_log = (\<lambda>(st, sys).
     let path = wal_path st; durable = so_durable_commit (st_options st);
         ((present, _), sys1) = os_exists path sys
     in if \<not> present then on_os (write_file_atomic path [] durable) (st, sys1)
        else io_bind (on_os (read_file path kMaxWalFileBytes)) (\<lambda>raw. \<lambda>(st, sys2).
          case replay_loop (so_allow_torn_tail (st_options st)) raw
                 \<lparr>rp_consumed = 0, rp_previous = None, rp_last = st_last_sequence st, rp_frames = [],
                  rp_skipped = 0\<rparr> of
            Inl e \<Rightarrow> (Inl e, st, sys2)
          | Inr (rp, torn) \<Rightarrow>
              io_bind (case torn of None \<Rightarrow> io_return ()
                | Some n \<Rightarrow> io_bind (on_os (write_file_atomic path (take (rp_consumed rp) raw) durable))
                    (\<lambda>_. on_store (\<lambda>st. st\<lparr>st_recovery := (st_recovery st)
                      \<lparr>rr_torn_tail := True, rr_torn_tail_bytes := of_nat n,
                       rr_detail := ''repaired a partial record at the end of the log''\<rparr>\<rparr>)))
              (\<lambda>_. on_store (\<lambda>st. st\<lparr>st_last_sequence := rp_last rp, st_replayed := rp_frames rp,
                 st_recovery := (st_recovery st)\<lparr>rr_skipped_records := rp_skipped rp,
                   rr_replayed_records := length (rp_frames rp)\<rparr>\<rparr>)) (st, sys2)) (st, sys1))"

definition load_snapshot :: "unit store_io" where
  "load_snapshot = (\<lambda>(st, sys).
     if st_snapshot_sequence st = 0 then (Inr (), st, sys)
     else let path = snapshot_name (st_snapshot_sequence st);
              ((present, _), sys1) = os_exists path sys
          in if \<not> present then (err NotFound ''CURRENT points at a missing snapshot'', st, sys1)
             else io_bind (on_os (read_file path (kMaxSnapshotPayloadBytes + 64))) (\<lambda>raw. \<lambda>(st, sys2).
               case decode_snapshot_file raw of
                 Inl e \<Rightarrow> (Inl e, st, sys2)
               | Inr payload \<Rightarrow>
                   let out = decode_record payload in
                   if dc_status out \<noteq> FrameOk \<or> fr_type (dc_frame out) \<noteq> SnapshotPayload
                   then (err Corrupt ''snapshot payload is not a valid snapshot record'', st, sys2)
                   else (Inr (), st\<lparr>st_last_sequence := fr_sequence (dc_frame out),
                          st_recovery := (st_recovery st)
                            \<lparr>rr_snapshot_payload := fr_payload (dc_frame out),
                             rr_snapshot_sequence := st_snapshot_sequence st\<rparr>\<rparr>, sys2)) (st, sys1))"

text \<open>The root directory is created when it is missing.\<close>

definition prepare_root :: "unit store_io" where
  "prepare_root = (\<lambda>(st, sys).
     let (f, sys1) = next_fault sys in
     if f \<noteq> NoFault then (err IoError ''cannot inspect the store root'', st, sys1)
     else case os_root sys1 of
       RootMissing \<Rightarrow>
         (let (g, sys2) = next_fault sys1
          in if g \<noteq> NoFault then (err IoError ''cannot create the store root'', st, sys2)
             else (Inr (), st, sys2\<lparr>os_root := RootDirectory\<rparr>))
     | RootDirectory \<Rightarrow> (Inr (), st, sys1)
     | RootOther \<Rightarrow> (err InvalidArgument ''store root is not a directory'', st, sys1))"

definition is_store_file :: "string \<Rightarrow> bool" where
  "is_store_file name \<longleftrightarrow> take 9 name = ''snapshot-'' \<or> take 4 name = ''wal-''"

definition open_fresh :: "unit store_io" where
  "open_fresh = io_bind (on_os list_directory) (\<lambda>names.
     if (\<exists>n \<in> set names. is_store_file n)
     then io_fail Corrupt ''store files exist without a CURRENT pointer''
     else initialize_fresh)"

definition open_existing :: "unit store_io" where
  "open_existing =
     io_bind (on_os (read_file kCurrentName 4096)) (\<lambda>bytes. \<lambda>(st, sys).
       case decode_current bytes of
         Inl e \<Rightarrow> (Inl e, st, sys)
       | Inr p \<Rightarrow>
           io_bind load_snapshot (\<lambda>_. io_bind replay_log (\<lambda>_. io_bind cleanup_old_files (\<lambda>_.
             on_store (\<lambda>st. st\<lparr>st_recovery := (st_recovery st)\<lparr>rr_last_sequence := st_last_sequence st,
               rr_wal_segment := st_wal_segment st, rr_detail := ''recovered existing store''\<rparr>\<rparr>))))
             (st\<lparr>st_snapshot_sequence := cur_snapshot p, st_wal_segment := cur_wal p\<rparr>, sys))"

definition open_body :: "unit store_io" where
  "open_body =
     io_bind prepare_root (\<lambda>_. io_bind acquire_lock (\<lambda>_. \<lambda>(st, sys).
       let ((present, error), sys1) = os_exists kCurrentName sys in
       if error then (err IoError ''cannot inspect the CURRENT pointer'', st, sys1)
       else if \<not> present then open_fresh (st, sys1)
       else open_existing (st, sys1)))"

text \<open>A failed \<open>open\<close> destroys the object, which releases the lock if it was taken.\<close>

definition store_open :: "store_options \<Rightarrow> os \<Rightarrow> durable_store result \<times> os" where
  "store_open options sys =
     (if so_root options = []
        then (err InvalidArgument ''durable store requires a root directory'', sys)
      else if so_retained_snapshots options = 0 \<or> so_retained_snapshots options > kMaxRetainedSnapshots
        then (err InvalidArgument ''retained snapshot bound out of range'', sys)
      else case open_body (new_store options, sys) of
        (Inl e, s) \<Rightarrow> (Inl e, snd (release_lock s))
      | (Inr _, st, sys1) \<Rightarrow> (Inr st, sys1))"

subsection \<open>Writing\<close>

definition store_commit :: "record_type \<Rightarrow> byte list \<Rightarrow> unit store_io" where
  "store_commit type payload = (\<lambda>(st, sys).
     if length payload > kMaxRecordPayloadBytes
       then (err LimitExceeded ''record payload exceeds the bound'', st, sys)
     else let next = st_last_sequence st + 1 in
       if next \<le> st_last_sequence st then (err Exhausted ''record sequence exhausted'', st, sys)
       else io_bind (on_os (append_file_durable (wal_path st) (encode_record type next payload)
                (so_durable_commit (st_options st))))
              (\<lambda>_. on_store (\<lambda>st. st\<lparr>st_last_sequence := next\<rparr>)) (st, sys))"

definition write_snapshot :: "byte list \<Rightarrow> unit store_io" where
  "write_snapshot payload = (\<lambda>(st, sys).
     if length payload > kMaxSnapshotPayloadBytes
       then (err LimitExceeded ''snapshot payload exceeds the bound'', st, sys)
     else let file = encode_snapshot_file (encode_record SnapshotPayload (st_last_sequence st) payload);
              next_snapshot = st_snapshot_sequence st + 1;
              next_wal = st_wal_segment st + 1;
              durable = so_durable_commit (st_options st)
       in io_bind (on_os (write_file_atomic (snapshot_name next_snapshot) file durable)) (\<lambda>_.
          io_bind (on_os (write_file_atomic (wal_name next_wal) [] durable)) (\<lambda>_.
          io_bind (on_os (write_file_atomic kCurrentName
                     (encode_current \<lparr>cur_snapshot = next_snapshot, cur_wal = next_wal\<rparr>) durable)) (\<lambda>_.
          io_bind (on_store (\<lambda>st. st\<lparr>st_snapshot_sequence := next_snapshot, st_wal_segment := next_wal,
                     st_recovery := (st_recovery st)\<lparr>rr_snapshot_sequence := next_snapshot,
                       rr_wal_segment := next_wal\<rparr>\<rparr>)) (\<lambda>_.
          cleanup_old_files)))) (st, sys))"

end
