(* ===== verification/Store_Recovery.thy ===== *)
theory Store_Recovery
  imports Store_Durable
begin

section \<open>What a store recovers\<close>

text \<open>
  The abstract content of a store: the payload and sequence of its snapshot and the frames
  committed since. \<open>disk_shows\<close> relates it to the files, with whatever prefix of a record a
  crash may have left at the end of the log; opening recovers the content, repairs the tail,
  and \<open>store_commit\<close> and \<open>write_snapshot\<close> change it atomically under every fault.
\<close>

subsection \<open>Names\<close>

lemma hex16_inj [simp]: "hex16 a = hex16 b \<longleftrightarrow> a = b"
  by (metis hex_accumulate_hex16 option.inject)

lemma file_names [simp]:
  "wal_name a = wal_name b \<longleftrightarrow> a = b" "snapshot_name a = snapshot_name b \<longleftrightarrow> a = b"
  "wal_name a \<noteq> snapshot_name b" "snapshot_name b \<noteq> wal_name a"
  "wal_name a \<noteq> kCurrentName" "kCurrentName \<noteq> wal_name a"
  "snapshot_name a \<noteq> kCurrentName" "kCurrentName \<noteq> snapshot_name a"
  "wal_name a \<noteq> kLockName" "kLockName \<noteq> wal_name a"
  "snapshot_name a \<noteq> kLockName" "kLockName \<noteq> snapshot_name a"
  "kCurrentName \<noteq> kLockName" "kLockName \<noteq> kCurrentName"
  by (simp_all add: wal_name_def snapshot_name_def kCurrentName_def kLockName_def)

subsection \<open>Early returns\<close>

lemma io_bind_Inr [simp]: "m s = (Inr x, s') \<Longrightarrow> io_bind m f s = f x s'"
  by (simp add: io_bind_def)

lemma io_bind_Inl [simp]: "m s = (Inl e, s') \<Longrightarrow> io_bind m f s = (Inl e, s')"
  by (simp add: io_bind_def)

lemma on_os_eq: "m sys = (r, sys') \<Longrightarrow> on_os m (st, sys) = (r, st, sys')"
  by (simp add: on_os_def)

lemma on_store_eq [simp]: "on_store f (st, sys) = (Inr (), f st, sys)"
  by (simp add: on_store_def)

lemma io_return_eq: "io_return x s = (Inr x, s)"
  by (simp add: io_return_def)

subsection \<open>Retention keeps the current files\<close>

definition removable :: "durable_store \<Rightarrow> string \<Rightarrow> bool" where
  "removable st name \<longleftrightarrow> (\<exists>v. name = snapshot_name v \<and> v \<noteq> st_snapshot_sequence st) \<or>
     (\<exists>v. name = wal_name v \<and> v < st_wal_segment st)"

definition undisturbed :: "durable_store \<Rightarrow> os \<Rightarrow> os \<Rightarrow> bool" where
  "undisturbed st sys sys' \<longleftrightarrow> os_root sys' = os_root sys \<and> os_pid sys' = os_pid sys \<and>
     os_alive sys' = os_alive sys \<and> (fault_free sys \<longrightarrow> fault_free sys') \<and>
     (\<forall>n. \<not> removable st n \<longrightarrow> file_at sys' n = file_at sys n)"

lemma undisturbed_refl [simp, intro!]: "undisturbed st sys sys"
  by (simp add: undisturbed_def)

lemma undisturbed_trans: "undisturbed st s1 s2 \<Longrightarrow> undisturbed st s2 s3 \<Longrightarrow> undisturbed st s1 s3"
  by (auto simp: undisturbed_def)

lemma next_fault_undisturbed: "next_fault sys = (f, sys') \<Longrightarrow> undisturbed st sys sys'"
  by (auto simp: next_fault_def undisturbed_def fault_free_def file_at_def split: list.splits)

lemma remove_undisturbed:
  assumes "removable st name" and "remove_file_if_present name sys = (r, sys')"
  shows "undisturbed st sys sys' \<and> (fault_free sys \<longrightarrow> r = Inr ())"
proof -
  obtain f sys1 where n: "next_fault sys = (f, sys1)" by fastforce
  have u: "undisturbed st sys sys1" by (rule next_fault_undisturbed [OF n])
  show ?thesis
  proof (cases f)
    case NoFault
    then have r: "r = Inr ()" "sys' = sys1\<lparr>os_files := AList.delete name (os_files sys1)\<rparr>"
      using assms(2) n by (auto simp: remove_file_if_present_def)
    have "undisturbed st sys1 sys'"
      using assms(1) unfolding r(2) by (auto simp: undisturbed_def file_at_delete fault_free_def)
    then show ?thesis using u r(1) undisturbed_trans by blast
  next
    case (Fault a b)
    then have "sys' = sys1" using assms(2) n by (simp add: remove_file_if_present_def)
    moreover have "\<not> fault_free sys"
      using Fault n by (auto simp: next_fault_def fault_free_def split: list.splits)
    ultimately show ?thesis using u by blast
  qed
qed

text \<open>A step that leaves the object as it is and disturbs nothing it relies on.\<close>

definition harmless :: "durable_store \<Rightarrow> unit store_io \<Rightarrow> bool" where
  "harmless st m \<longleftrightarrow> (\<forall>sys r st' sys'. m (st, sys) = (r, st', sys') \<longrightarrow>
     st' = st \<and> undisturbed st sys sys' \<and> (fault_free sys \<longrightarrow> r = Inr ()))"

lemma harmlessD:
  "harmless st m \<Longrightarrow> m (st, sys) = (r, st', sys') \<Longrightarrow>
   st' = st \<and> undisturbed st sys sys' \<and> (fault_free sys \<longrightarrow> r = Inr ())"
  by (simp add: harmless_def)

lemma harmless_return [intro!]: "harmless st (io_return ())"
  by (simp add: harmless_def io_return_eq)

lemma harmless_remove: "removable st name \<Longrightarrow> harmless st (on_os (remove_file_if_present name))"
  using remove_undisturbed by (auto simp: harmless_def on_os_def split: prod.splits)

lemma harmless_bind:
  assumes m: "harmless st m" and k: "harmless st k"
  shows "harmless st (io_bind m (\<lambda>_. k))"
  unfolding harmless_def
proof (intro allI impI)
  fix sys r st' sys'
  assume b: "io_bind m (\<lambda>_. k) (st, sys) = (r, st', sys')"
  obtain r1 st1 sys1 where m1: "m (st, sys) = (r1, st1, sys1)" by (cases "m (st, sys)") auto
  have s1: "st1 = st" "undisturbed st sys sys1" "fault_free sys \<longrightarrow> r1 = Inr ()"
    using harmlessD [OF m m1] by simp_all
  show "st' = st \<and> undisturbed st sys sys' \<and> (fault_free sys \<longrightarrow> r = Inr ())"
  proof (cases r1)
    case (Inl e)
    then show ?thesis using b m1 s1 by (auto simp: io_bind_def)
  next
    case (Inr u)
    then have "k (st, sys1) = (r, st', sys')" using b m1 s1(1) by (simp add: io_bind_def)
    from harmlessD [OF k this] have h: "st' = st \<and> undisturbed st sys1 sys' \<and> (fault_free sys1 \<longrightarrow> r = Inr ())" .
    have "fault_free sys \<longrightarrow> fault_free sys1" using s1(2) by (simp add: undisturbed_def)
    with h show ?thesis using undisturbed_trans [OF s1(2), of sys'] by simp
  qed
qed

lemma harmless_prune_snapshots: "harmless st (prune_snapshots retained (st_snapshot_sequence st) vs)"
  by (induction vs) (auto intro!: harmless_bind harmless_remove simp: removable_def)

lemma harmless_prune_logs: "harmless st (prune_logs (st_wal_segment st) ns)"
  by (induction ns) (auto intro!: harmless_bind harmless_remove simp: removable_def)

lemma harmless_cleanup: "harmless st cleanup_old_files"
  unfolding harmless_def
proof (intro allI impI)
  fix sys r st' sys'
  assume c: "cleanup_old_files (st, sys) = (r, st', sys')"
  obtain f sys1 where n: "next_fault sys = (f, sys1)" by fastforce
  have u: "undisturbed st sys sys1" by (rule next_fault_undisturbed [OF n])
  show "st' = st \<and> undisturbed st sys sys' \<and> (fault_free sys \<longrightarrow> r = Inr ())"
  proof (cases f)
    case NoFault
    let ?names = "map fst (os_files sys1)"
    let ?k = "io_bind (prune_snapshots (so_retained_snapshots (st_options st)) (st_snapshot_sequence st)
        (sort (snapshot_numbers ?names))) (\<lambda>_. prune_logs (st_wal_segment st) (sort (wal_numbers ?names)))"
    have "on_os list_directory (st, sys) = (Inr ?names, st, sys1)"
      using NoFault n by (simp add: on_os_def list_directory_def)
    then have "?k (st, sys1) = (r, st', sys')" using c by (simp add: cleanup_old_files_def)
    moreover have "harmless st ?k" by (intro harmless_bind harmless_prune_snapshots harmless_prune_logs)
    ultimately have h: "st' = st \<and> undisturbed st sys1 sys' \<and> (fault_free sys1 \<longrightarrow> r = Inr ())"
      by (rule harmlessD [rotated])
    have "fault_free sys \<longrightarrow> fault_free sys1" using u by (simp add: undisturbed_def)
    with h show ?thesis using undisturbed_trans [OF u, of sys'] by simp
  next
    case (Fault a b)
    then have "on_os list_directory (st, sys)
        = (err IoError ''cannot enumerate the store root'', st, sys1)"
      using n by (simp add: on_os_def list_directory_def)
    then have "st' = st" "sys' = sys1"
      using c by (auto simp: cleanup_old_files_def io_bind_def err_def)
    moreover have "\<not> fault_free sys"
      using Fault n by (auto simp: next_fault_def fault_free_def split: list.splits)
    ultimately show ?thesis using u by blast
  qed
qed

subsection \<open>The content of the files\<close>

record disk_view =
  dv_snapshot :: u64
  dv_wal :: u64
  dv_base :: sequence_no
  dv_payload :: "byte list"
  dv_frames :: "frame list"
  dv_tail :: "byte list"

definition torn_tail :: "byte list \<Rightarrow> bool" where
  "torn_tail t \<longleftrightarrow> t = [] \<or>
     (\<exists>f k. wf_frame f \<and> 0 < k \<and> k < length (frame_bytes f) \<and> t = take k (frame_bytes f))"

definition last_sequence :: "disk_view \<Rightarrow> sequence_no" where
  "last_sequence d = foldl max (dv_base d) (map fr_sequence (dv_frames d))"

definition disk_shows :: "os \<Rightarrow> disk_view \<Rightarrow> bool" where
  "disk_shows sys d \<longleftrightarrow>
     os_root sys = RootDirectory \<and> dv_wal d \<noteq> 0 \<and>
     file_at sys kCurrentName
       = Some (encode_current \<lparr>cur_snapshot = dv_snapshot d, cur_wal = dv_wal d\<rparr>) \<and>
     (if dv_snapshot d = 0 then dv_base d = 0 \<and> dv_payload d = []
      else length (dv_payload d) \<le> kMaxRecordPayloadBytes \<and>
        file_at sys (snapshot_name (dv_snapshot d))
          = Some (encode_snapshot_file (encode_record SnapshotPayload (dv_base d) (dv_payload d)))) \<and>
     file_at sys (wal_name (dv_wal d)) = Some (log_bytes (dv_frames d) @ dv_tail d) \<and>
     length (log_bytes (dv_frames d) @ dv_tail d) \<le> kMaxWalFileBytes \<and>
     wf_log (dv_frames d) \<and> (\<forall>f \<in> set (dv_frames d). dv_base d < fr_sequence f) \<and>
     torn_tail (dv_tail d)"

text \<open>No live process holds the lock file.\<close>

definition lock_free :: "os \<Rightarrow> bool" where
  "lock_free sys \<longleftrightarrow> (case file_at sys kLockName of None \<Rightarrow> True
     | Some b \<Rightarrow> 64 < length b \<or> (case lock_owner b of None \<Rightarrow> True
         | Some p \<Rightarrow> \<not> process_is_alive sys p))"

definition running :: "durable_store \<Rightarrow> os \<Rightarrow> disk_view \<Rightarrow> bool" where
  "running st sys d \<longleftrightarrow> disk_shows sys d \<and> dv_tail d = [] \<and>
     st_snapshot_sequence st = dv_snapshot d \<and> st_wal_segment st = dv_wal d \<and>
     st_last_sequence st = last_sequence d"

lemma disk_shows_cong:
  assumes "disk_shows sys d" and "os_root sys' = os_root sys"
    and "\<And>n. n \<in> {kCurrentName, snapshot_name (dv_snapshot d), wal_name (dv_wal d)} \<Longrightarrow>
      file_at sys' n = file_at sys n"
  shows "disk_shows sys' d"
  using assms unfolding disk_shows_def by simp

lemma disk_shows_undisturbed:
  assumes "disk_shows sys d" and "undisturbed st sys sys'"
    and "st_snapshot_sequence st = dv_snapshot d" and "st_wal_segment st = dv_wal d"
  shows "disk_shows sys' d"
  using assms by (intro disk_shows_cong [OF assms(1)]) (auto simp: undisturbed_def removable_def)

subsection \<open>Opening recovers the content\<close>

lemma prepare_root_free:
  "fault_free sys \<Longrightarrow> os_root sys = RootDirectory \<Longrightarrow> prepare_root (st, sys) = (Inr (), st, sys)"
  by (simp add: prepare_root_def os_simps)

lemma acquire_lock_free:
  assumes "fault_free sys" and "lock_free sys"
  shows "\<exists>sys'. acquire_lock (st, sys) = (Inr (), st\<lparr>st_holds_lock := True\<rparr>, sys') \<and> fault_free sys' \<and>
    os_root sys' = os_root sys \<and> (\<forall>n. n \<noteq> kLockName \<longrightarrow> file_at sys' n = file_at sys n)"
proof (cases "file_at sys kLockName")
  case None
  then show ?thesis
    using assms(1) by (simp add: acquire_lock_def os_simps on_os_eq Let_def) (simp add: put_file_def)
next
  case (Some b)
  obtain r where rd: "read_file kLockName 64 sys = (r, sys)"
    and dead: "\<not> (case r of Inl _ \<Rightarrow> False
      | Inr bytes \<Rightarrow> (case lock_owner bytes of None \<Rightarrow> False | Some owner \<Rightarrow> process_is_alive sys owner))"
    using assms Some
    by (cases "64 < length b") (auto simp: read_file_def os_simps lock_free_def err_def split: option.splits)
  let ?s1 = "sys\<lparr>os_files := AList.delete kLockName (os_files sys)\<rparr>"
  let ?s2 = "put_file kLockName (bytes_of (u64_string (os_pid sys))) ?s1"
  have f1: "fault_free ?s1" using assms(1) by (simp add: fault_free_def)
  have "acquire_lock (st, sys) = (Inr (), st\<lparr>st_holds_lock := True\<rparr>, ?s2)"
    using assms(1) Some f1 dead by (simp add: acquire_lock_def os_simps on_os_eq Let_def rd)
  moreover have "fault_free ?s2" using f1 by (simp add: os_simps)
  moreover have "os_root ?s2 = os_root sys" by (simp add: put_file_def)
  ultimately show ?thesis by (auto simp: os_simps)
qed

lemma load_snapshot_free:
  assumes "fault_free sys" and "disk_shows sys d" and "st_snapshot_sequence st = dv_snapshot d"
    and "st_last_sequence st = 0" and "rr_snapshot_payload (st_recovery st) = []"
  shows "\<exists>rec. load_snapshot (st, sys) = (Inr (), st\<lparr>st_last_sequence := dv_base d, st_recovery := rec\<rparr>, sys) \<and>
    rr_snapshot_payload rec = dv_payload d \<and> rr_torn_tail rec = rr_torn_tail (st_recovery st)"
proof (cases "dv_snapshot d = 0")
  case True
  then have "dv_base d = 0" "dv_payload d = []" using assms(2) by (simp_all add: disk_shows_def)
  then show ?thesis using True assms(3-5) by (intro exI [of _ "st_recovery st"]) (simp add: load_snapshot_def)
next
  case False
  let ?rec = "encode_record SnapshotPayload (dv_base d) (dv_payload d)"
  have p: "length (dv_payload d) \<le> kMaxRecordPayloadBytes"
    and onfile: "file_at sys (snapshot_name (dv_snapshot d)) = Some (encode_snapshot_file ?rec)"
    using assms(2) False by (simp_all add: disk_shows_def)
  have rl: "length ?rec \<le> kMaxSnapshotPayloadBytes"
    using p by (simp add: kMaxRecordPayloadBytes_def kMaxSnapshotPayloadBytes_def)
  have fl: "length (encode_snapshot_file ?rec) \<le> kMaxSnapshotPayloadBytes + 64"
    using p by (simp add: encode_snapshot_file_def bytes_of_def kSnapshotFileMagic_def w_u16_def
        w_size32_def w_u32_def kMaxRecordPayloadBytes_def kMaxSnapshotPayloadBytes_def)
  have dec: "decode_record ?rec = \<lparr>dc_status = FrameOk,
      dc_frame = frame_of SnapshotPayload (dv_base d) (dv_payload d), dc_detail = [],
      dc_consumed = 28 + length (dv_payload d)\<rparr>"
    using decode_encode_record [OF p, of SnapshotPayload "dv_base d" "[]"] by simp
  have "load_snapshot (st, sys) = (Inr (), st\<lparr>st_last_sequence := dv_base d,
      st_recovery := (st_recovery st)\<lparr>rr_snapshot_payload := dv_payload d,
        rr_snapshot_sequence := st_snapshot_sequence st\<rparr>\<rparr>, sys)"
    using False assms(1,3) onfile fl
    by (simp add: load_snapshot_def os_simps on_os_eq Let_def decode_encode_snapshot_file [OF rl] dec frame_of_def)
  then show ?thesis by (intro exI conjI) (assumption, simp_all)
qed

lemma filter_beyond_base: "\<forall>f \<in> set fs. base < fr_sequence f \<Longrightarrow> filter (\<lambda>f. base < fr_sequence f) fs = fs"
  by (simp add: filter_id_conv)

lemma replay_loop_view:
  assumes "wf_log (dv_frames d)" and "\<forall>f \<in> set (dv_frames d). dv_base d < fr_sequence f"
    and "torn_tail (dv_tail d)" and "dv_tail d = [] \<or> a"
  shows "\<exists>rp. replay_loop a (log_bytes (dv_frames d) @ dv_tail d)
      \<lparr>rp_consumed = 0, rp_previous = None, rp_last = dv_base d, rp_frames = [], rp_skipped = 0\<rparr>
    = Inr (rp, if dv_tail d = [] then None else Some (length (dv_tail d))) \<and>
    rp_consumed rp = length (log_bytes (dv_frames d)) \<and> rp_frames rp = dv_frames d \<and>
    rp_last rp = last_sequence d"
proof -
  let ?s = "\<lparr>rp_consumed = 0, rp_previous = None, rp_last = dv_base d, rp_frames = [], rp_skipped = 0\<rparr>"
  have loop: "replay_loop a (log_bytes (dv_frames d) @ dv_tail d) ?s
      = replay_loop a (dv_tail d) (replayed (dv_frames d) ?s)"
    using assms(1) by (rule replay_log_bytes) simp
  have tail: "replay_loop a (dv_tail d) s
      = Inr (s, if dv_tail d = [] then None else Some (length (dv_tail d)))" for s
  proof (cases "dv_tail d = []")
    case True
    then show ?thesis by (simp add: replay_end)
  next
    case False
    then obtain f k where "wf_frame f" "0 < k" "k < length (frame_bytes f)" "dv_tail d = take k (frame_bytes f)"
      using assms(3) by (auto simp: torn_tail_def)
    then show ?thesis using replay_torn [of f k a s] assms(4) False by simp
  qed
  show ?thesis
    unfolding loop tail using replayed_state [OF assms(1), of ?s] assms(2)
    by (auto simp: last_sequence_def filter_beyond_base)
qed

lemma disk_shows_repaired:
  "disk_shows sys d \<Longrightarrow> file_at sys' (wal_name (dv_wal d)) = Some (log_bytes (dv_frames d)) \<Longrightarrow>
   os_root sys' = os_root sys \<Longrightarrow> (\<And>n. n \<noteq> wal_name (dv_wal d) \<Longrightarrow> file_at sys' n = file_at sys n) \<Longrightarrow>
   disk_shows sys' (d\<lparr>dv_tail := []\<rparr>)"
  by (simp add: disk_shows_def torn_tail_def)

lemma replay_log_free:
  assumes free: "fault_free sys" and d: "disk_shows sys d"
    and st: "st_wal_segment st = dv_wal d" "st_last_sequence st = dv_base d"
    and torn: "dv_tail d = [] \<or> so_allow_torn_tail (st_options st)"
  shows "\<exists>rec sys'. replay_log (st, sys) = (Inr (), st\<lparr>st_last_sequence := last_sequence d,
      st_replayed := dv_frames d, st_recovery := rec\<rparr>, sys') \<and>
    rr_snapshot_payload rec = rr_snapshot_payload (st_recovery st) \<and>
    (rr_torn_tail rec \<longleftrightarrow> rr_torn_tail (st_recovery st) \<or> dv_tail d \<noteq> []) \<and>
    fault_free sys' \<and> disk_shows sys' (d\<lparr>dv_tail := []\<rparr>)"
proof -
  let ?name = "wal_name (dv_wal d)" let ?raw = "log_bytes (dv_frames d) @ dv_tail d"
  have onfile: "file_at sys ?name = Some ?raw" and len: "length ?raw \<le> kMaxWalFileBytes"
    and wf: "wf_log (dv_frames d)" "\<forall>f \<in> set (dv_frames d). dv_base d < fr_sequence f" "torn_tail (dv_tail d)"
    using d by (simp_all add: disk_shows_def)
  have rd: "read_file ?name kMaxWalFileBytes sys = (Inr ?raw, sys)"
    by (rule read_file_free [OF free onfile len])
  obtain rp where loop: "replay_loop (so_allow_torn_tail (st_options st)) ?raw
        \<lparr>rp_consumed = 0, rp_previous = None, rp_last = dv_base d, rp_frames = [], rp_skipped = 0\<rparr>
      = Inr (rp, if dv_tail d = [] then None else Some (length (dv_tail d)))"
    and rp: "rp_consumed rp = length (log_bytes (dv_frames d))" "rp_frames rp = dv_frames d"
      "rp_last rp = last_sequence d"
    using replay_loop_view [OF wf torn] by blast
  show ?thesis
  proof (cases "dv_tail d = []")
    case True
    have d': "disk_shows sys (d\<lparr>dv_tail := []\<rparr>)" using d True by (simp add: disk_shows_def)
    have "replay_log (st, sys) = (Inr (), st\<lparr>st_last_sequence := last_sequence d,
        st_replayed := dv_frames d, st_recovery := (st_recovery st)\<lparr>rr_skipped_records := rp_skipped rp,
          rr_replayed_records := length (dv_frames d)\<rparr>\<rparr>, sys)"
      using free onfile rd loop rp True
      by (simp add: replay_log_def wal_path_def st os_simps on_os_eq Let_def io_return_eq)
    then show ?thesis using free d' True by (intro exI conjI) (assumption | simp)+
  next
    case False
    let ?sys = "put_file ?name (log_bytes (dv_frames d)) sys"
    have d': "disk_shows ?sys (d\<lparr>dv_tail := []\<rparr>)"
      by (rule disk_shows_repaired [OF d]) (simp_all add: os_simps, simp add: put_file_def)
    have f': "fault_free ?sys" using free by (simp add: os_simps)
    have "replay_log (st, sys) = (Inr (), st\<lparr>st_last_sequence := last_sequence d,
        st_replayed := dv_frames d, st_recovery := (st_recovery st)\<lparr>rr_torn_tail := True,
          rr_torn_tail_bytes := of_nat (length (dv_tail d)),
          rr_detail := ''repaired a partial record at the end of the log'',
          rr_skipped_records := rp_skipped rp, rr_replayed_records := length (dv_frames d)\<rparr>\<rparr>, ?sys)"
      using free onfile rd loop rp False
      by (simp add: replay_log_def wal_path_def st os_simps on_os_eq Let_def)
    then show ?thesis using f' d' False by (intro exI conjI) (assumption | simp)+
  qed
qed

definition good_options :: "store_options \<Rightarrow> bool" where
  "good_options o' \<longleftrightarrow> so_root o' \<noteq> [] \<and> 0 < so_retained_snapshots o' \<and>
     so_retained_snapshots o' \<le> kMaxRetainedSnapshots"

text \<open>What opening finds: the frames, the snapshot payload, and a store ready to run.\<close>

definition recovers :: "store_options \<Rightarrow> os \<Rightarrow> disk_view \<Rightarrow> bool" where
  "recovers o' sys d \<longleftrightarrow> (\<exists>st sys'. store_open o' sys = (Inr st, sys') \<and>
     st_replayed st = dv_frames d \<and> rr_snapshot_payload (st_recovery st) = dv_payload d \<and>
     (rr_torn_tail (st_recovery st) \<longleftrightarrow> dv_tail d \<noteq> []) \<and> st_options st = o' \<and>
     st_holds_lock st \<and> fault_free sys' \<and> running st sys' (d\<lparr>dv_tail := []\<rparr>))"

lemma encode_current_small: "length (encode_current p) \<le> 4096"
proof -
  have "length (current_text p) \<le> 100"
    using length_u64_string [of "cur_snapshot p"] length_u64_string [of "cur_wal p"]
    by (simp add: current_text_def kCurrentMagic_def)
  then show ?thesis by (simp add: encode_current_def bytes_of_def hex08_def)
qed

lemma last_sequence_tail [simp]: "last_sequence (d\<lparr>dv_tail := t\<rparr>) = last_sequence d"
  by (simp add: last_sequence_def)

text \<open>Up to the snapshot, a system without faults behaves the same whatever the log holds.\<close>

definition recover_rest :: "unit store_io" where
  "recover_rest = io_bind load_snapshot (\<lambda>_. io_bind replay_log (\<lambda>_. io_bind cleanup_old_files (\<lambda>_.
     on_store (\<lambda>st. st\<lparr>st_recovery := (st_recovery st)\<lparr>rr_last_sequence := st_last_sequence st,
       rr_wal_segment := st_wal_segment st, rr_detail := ''recovered existing store''\<rparr>\<rparr>))))"

lemma open_prefix:
  assumes free: "fault_free sys" and root: "os_root sys = RootDirectory" and lock: "lock_free sys"
    and opts: "good_options o'" and cur: "file_at sys kCurrentName = Some (encode_current p)"
    and wal: "cur_wal p \<noteq> 0"
  shows "\<exists>s1. fault_free s1 \<and> os_root s1 = os_root sys \<and>
    (\<forall>n. n \<noteq> kLockName \<longrightarrow> file_at s1 n = file_at sys n) \<and>
    store_open o' sys = (case recover_rest ((new_store o')\<lparr>st_holds_lock := True,
        st_snapshot_sequence := cur_snapshot p, st_wal_segment := cur_wal p\<rparr>, s1) of
      (Inl e, s) \<Rightarrow> (Inl e, snd (release_lock s)) | (Inr _, st, s) \<Rightarrow> (Inr st, s))"
proof -
  let ?st0 = "(new_store o')\<lparr>st_holds_lock := True\<rparr>"
  obtain s1 where s1: "acquire_lock (new_store o', sys) = (Inr (), ?st0, s1)" "fault_free s1"
      "os_root s1 = os_root sys" "\<forall>n. n \<noteq> kLockName \<longrightarrow> file_at s1 n = file_at sys n"
    using acquire_lock_free [OF free lock] by blast
  have cur1: "file_at s1 kCurrentName = Some (encode_current p)" using cur s1(4) by simp
  have rd: "read_file kCurrentName 4096 s1 = (Inr (encode_current p), s1)"
    by (rule read_file_free [OF s1(2) cur1 encode_current_small])
  have dec: "decode_current (encode_current p) = Inr p" by (rule decode_encode_current) (rule wal)
  have "open_existing (?st0, s1) = recover_rest (?st0\<lparr>st_snapshot_sequence := cur_snapshot p, st_wal_segment := cur_wal p\<rparr>, s1)"
    unfolding open_existing_def recover_rest_def
      io_bind_Inr [of "on_os (read_file kCurrentName 4096)", OF on_os_eq [of "read_file kCurrentName 4096", OF rd]]
      prod.case dec sum.case by (rule refl)
  moreover have "os_exists kCurrentName s1 = ((True, False), s1)"
    using cur1 s1(2) by (simp add: os_simps)
  ultimately have "open_body (new_store o', sys)
      = recover_rest (?st0\<lparr>st_snapshot_sequence := cur_snapshot p, st_wal_segment := cur_wal p\<rparr>, s1)"
    unfolding open_body_def io_bind_Inr [of prepare_root, OF prepare_root_free [OF free root]]
      io_bind_Inr [of acquire_lock, OF s1(1)]
    by simp
  then show ?thesis
    using opts s1(2-4) by (intro exI [of _ s1]) (simp add: store_open_def good_options_def)
qed

lemma open_recovers:
  assumes free: "fault_free sys" and d: "disk_shows sys d" and lock: "lock_free sys"
    and opts: "good_options o'" and torn: "dv_tail d = [] \<or> so_allow_torn_tail o'"
  shows "recovers o' sys d"
proof -
  let ?p = "\<lparr>cur_snapshot = dv_snapshot d, cur_wal = dv_wal d\<rparr>"
  let ?st1 = "(new_store o')\<lparr>st_holds_lock := True, st_snapshot_sequence := dv_snapshot d, st_wal_segment := dv_wal d\<rparr>"
  have "os_root sys = RootDirectory" "file_at sys kCurrentName = Some (encode_current ?p)" "cur_wal ?p \<noteq> 0"
    using d by (simp_all add: disk_shows_def)
  from open_prefix [OF free this(1) lock opts this(2,3)]
  obtain s1 where s1: "fault_free s1" "os_root s1 = os_root sys" "\<forall>n. n \<noteq> kLockName \<longrightarrow> file_at s1 n = file_at sys n"
    and op: "store_open o' sys = (case recover_rest (?st1, s1) of
      (Inl e, s) \<Rightarrow> (Inl e, snd (release_lock s)) | (Inr _, st, s) \<Rightarrow> (Inr st, s))"
    by auto
  have d1: "disk_shows s1 d" by (rule disk_shows_cong [OF d s1(2)]) (use s1(3) in auto)
  obtain rec1 where l: "load_snapshot (?st1, s1) = (Inr (), ?st1\<lparr>st_last_sequence := dv_base d, st_recovery := rec1\<rparr>, s1)"
      "rr_snapshot_payload rec1 = dv_payload d" "rr_torn_tail rec1 = rr_torn_tail (st_recovery ?st1)"
    using load_snapshot_free [OF s1(1) d1, of ?st1] by (auto simp: new_store_def)
  let ?st2 = "?st1\<lparr>st_last_sequence := dv_base d, st_recovery := rec1\<rparr>"
  obtain rec2 s2 where r: "replay_log (?st2, s1) = (Inr (), ?st2\<lparr>st_last_sequence := last_sequence d,
      st_replayed := dv_frames d, st_recovery := rec2\<rparr>, s2)"
      "rr_snapshot_payload rec2 = dv_payload d" "rr_torn_tail rec2 \<longleftrightarrow> dv_tail d \<noteq> []"
      "fault_free s2" "disk_shows s2 (d\<lparr>dv_tail := []\<rparr>)"
    using replay_log_free [OF s1(1) d1, of ?st2] torn l(2,3) by (auto simp: new_store_def)
  let ?st3 = "?st2\<lparr>st_last_sequence := last_sequence d, st_replayed := dv_frames d, st_recovery := rec2\<rparr>"
  obtain r3 st4 s3 where c: "cleanup_old_files (?st3, s2) = (r3, st4, s3)" by (metis prod_cases3)
  from harmlessD [OF harmless_cleanup c] r(4) have c': "r3 = Inr ()" "st4 = ?st3"
      "undisturbed ?st3 s2 s3" by simp_all
  have d3: "disk_shows s3 (d\<lparr>dv_tail := []\<rparr>)"
    by (rule disk_shows_undisturbed [OF r(5) c'(3)]) simp_all
  have f3: "fault_free s3" using c'(3) r(4) by (simp add: undisturbed_def)
  let ?st5 = "?st3\<lparr>st_recovery := rec2\<lparr>rr_last_sequence := last_sequence d,
      rr_wal_segment := dv_wal d, rr_detail := ''recovered existing store''\<rparr>\<rparr>"
  have "recover_rest (?st1, s1) = (Inr (), ?st5, s3)"
    unfolding recover_rest_def io_bind_Inr [of load_snapshot, OF l(1)] io_bind_Inr [of replay_log, OF r(1)]
    using c c' by simp
  then have "store_open o' sys = (Inr ?st5, s3)" by (simp add: op)
  moreover have "running ?st5 s3 (d\<lparr>dv_tail := []\<rparr>)" using d3 by (simp add: running_def)
  ultimately show ?thesis
    unfolding recovers_def using r(2,3) f3 by (intro exI conjI) (assumption | simp add: new_store_def)+
qed

end
