(* ===== verification/Store_Crash.thy ===== *)
theory Store_Crash
  imports Store_Recovery
begin

section \<open>Atomicity of writes and of rotation\<close>

text \<open>
  A commit that is interrupted, at any stage and after any number of bytes, leaves a store
  that recovers the frames before it or those frames and the new one; a snapshot leaves the
  old content or the new one. \<open>restart\<close> is a new process on the same files.
\<close>

definition restart :: "u64 \<Rightarrow> os \<Rightarrow> os" where
  "restart pid sys = sys\<lparr>os_faults := [], os_pid := pid, os_alive := \<lambda>_. False\<rparr>"

lemma restart_simps [simp]:
  "fault_free (restart pid sys)" "file_at (restart pid sys) n = file_at sys n"
  "os_root (restart pid sys) = os_root sys"
  by (simp_all add: restart_def fault_free_def file_at_def)

lemma disk_shows_restart [simp]: "disk_shows (restart pid sys) d = disk_shows sys d"
  by (simp add: disk_shows_def)

lemma lock_free_restart:
  "lock_free (restart pid sys) \<longleftrightarrow> (case file_at sys kLockName of None \<Rightarrow> True
     | Some b \<Rightarrow> 64 < length b \<or> lock_owner b \<noteq> Some pid)"
  by (auto simp: lock_free_def process_is_alive_def restart_def file_at_def split: option.splits)

lemma foldl_max_ge: "base \<le> foldl max base xs" "x \<in> set xs \<Longrightarrow> x \<le> foldl max base (xs :: u64 list)"
proof (induction xs arbitrary: base)
  case (Cons y ys)
  { case 1 then show ?case using Cons.IH(1) [of "max base y"] by simp }
  { case 2 then show ?case using Cons.IH(1) [of "max base y"] Cons.IH(2) [of "max base y"] by auto }
qed simp_all

lemma last_sequence_ge:
  "dv_base d \<le> last_sequence d" "f \<in> set (dv_frames d) \<Longrightarrow> fr_sequence f \<le> last_sequence d"
  unfolding last_sequence_def by (rule foldl_max_ge) (auto intro: foldl_max_ge)

subsection \<open>Appending a record\<close>

definition next_frame :: "record_type \<Rightarrow> disk_view \<Rightarrow> byte list \<Rightarrow> frame" where
  "next_frame t d payload = frame_of t (last_sequence d + 1) payload"

text \<open>The content after the first \<open>k\<close> bytes of a frame have been appended.\<close>

definition appended :: "frame \<Rightarrow> nat \<Rightarrow> disk_view \<Rightarrow> disk_view" where
  "appended f k d = (if length (frame_bytes f) \<le> k then d\<lparr>dv_frames := dv_frames d @ [f]\<rparr>
     else d\<lparr>dv_tail := take k (frame_bytes f)\<rparr>)"

lemma log_bytes_append [simp]: "log_bytes (fs @ [f]) = log_bytes fs @ frame_bytes f"
  by (simp add: log_bytes_def)

lemma frame_bytes_frame_of [simp]: "frame_bytes (frame_of t q p) = encode_record t q p"
  by (simp add: frame_bytes_def frame_of_def)

lemma wf_frame_of: "length p \<le> kMaxRecordPayloadBytes \<Longrightarrow> wf_frame (frame_of t q p)"
  by (simp add: wf_frame_def frame_of_def)

lemma disk_shows_appended:
  assumes d: "disk_shows sys d" "dv_tail d = []" and f: "wf_frame f" "last_sequence d < fr_sequence f"
    and fits: "length (log_bytes (dv_frames d) @ frame_bytes f) \<le> kMaxWalFileBytes"
    and onfile: "file_at sys' (wal_name (dv_wal d)) = Some (log_bytes (dv_frames d) @ take k (frame_bytes f))"
    and same: "os_root sys' = os_root sys" "\<And>n. n \<noteq> wal_name (dv_wal d) \<Longrightarrow> file_at sys' n = file_at sys n"
  shows "disk_shows sys' (appended f k d)"
proof -
  have seqs: "\<forall>g \<in> set (dv_frames d). fr_sequence g < fr_sequence f" and base: "dv_base d < fr_sequence f"
    using last_sequence_ge [where d = d] f(2) by (auto intro: order.strict_trans1)
  show ?thesis
  proof (cases "length (frame_bytes f) \<le> k")
    case True
    then have a: "appended f k d = d\<lparr>dv_frames := dv_frames d @ [f]\<rparr>" by (simp add: appended_def)
    show ?thesis
      using d f fits onfile same seqs base True unfolding a
      by (auto simp: disk_shows_def wf_log_def sorted_wrt_append)
  next
    case False
    then have a: "appended f k d = d\<lparr>dv_tail := take k (frame_bytes f)\<rparr>" by (simp add: appended_def)
    have "torn_tail (take k (frame_bytes f))"
      using False f(1) by (cases "k = 0") (auto simp: torn_tail_def not_le)
    moreover have "length (take k (frame_bytes f)) \<le> length (frame_bytes f)" by simp
    ultimately show ?thesis
      using d fits onfile same unfolding a by (auto simp: disk_shows_def)
  qed
qed

text \<open>What an append, faulty or not, has done: some first bytes are in the file, all when it succeeds.\<close>

lemma append_file_cases:
  assumes run: "append_file_durable name bytes durable sys = (r, sys')" and ne: "bytes \<noteq> []"
    and old: "file_at sys name = Some old"
  shows "\<exists>k. (is_ok r \<longrightarrow> length bytes \<le> k) \<and> os_root sys' = os_root sys \<and>
    file_at sys' name = Some (old @ take k bytes) \<and> (\<forall>n. n \<noteq> name \<longrightarrow> file_at sys' n = file_at sys n)"
proof -
  obtain f sys1 where n: "next_fault sys = (f, sys1)" by fastforce
  have s1: "os_root sys1 = os_root sys" "\<And>m. file_at sys1 m = file_at sys m"
    using n by (auto simp: next_fault_def file_at_def split: list.splits)
  have eff: "os_root (append_bytes name xs sys1) = os_root sys"
      "file_at (append_bytes name xs sys1) m = (if m = name then Some (old @ xs) else file_at sys m)" for xs m
    using s1 old by (simp_all add: file_at_append) (simp add: append_bytes_def put_file_def)
  note run' = run [unfolded append_file_durable_def n prod.case Let_def]
  have whole: "?thesis" if "sys' = append_bytes name bytes sys1"
    using eff unfolding that by (intro exI [of _ "length bytes"]) auto
  have part: "?thesis" if "sys' = append_bytes name (take k bytes) sys1" "\<not> is_ok r" for k
    using eff that(2) unfolding that(1) by (intro exI [of _ k]) auto
  show ?thesis
  proof (cases f)
    case NoFault
    then show ?thesis using run' by (intro whole) simp
  next
    case (Fault stage k)
    show ?thesis
    proof (cases stage)
      case AtOpen
      then show ?thesis using run' Fault s1 old by (intro exI [of _ 0]) auto
    next
      case AtWrite
      then show ?thesis using run' Fault ne by (intro part [of "min k (length bytes - 1)"]) auto
    next
      case AtFlush
      then show ?thesis using run' Fault by (intro part [of k]) auto
    next
      case AtSync
      then show ?thesis using run' Fault by (intro whole) (auto split: if_splits)
    next
      case AtReplace
      then show ?thesis using run' Fault by (intro whole) simp
    qed
  qed
qed

lemma store_commit_eq:
  assumes "length payload \<le> kMaxRecordPayloadBytes" and "st_last_sequence st < st_last_sequence st + 1"
    and "append_file_durable (wal_path st) (encode_record t (st_last_sequence st + 1) payload)
      (so_durable_commit (st_options st)) sys = (r1, s1)"
  shows "store_commit t payload (st, sys) = (case r1 of Inl e \<Rightarrow> (Inl e, st, s1)
    | Inr _ \<Rightarrow> (Inr (), st\<lparr>st_last_sequence := st_last_sequence st + 1\<rparr>, s1))"
proof -
  have "\<not> kMaxRecordPayloadBytes < length payload" "\<not> st_last_sequence st + 1 \<le> st_last_sequence st"
    using assms(1,2) by (simp_all only: not_less not_le)
  then show ?thesis
    unfolding store_commit_def prod.case Let_def
    by (simp only: if_False io_bind_def on_os_eq [of "append_file_durable _ _ _", OF assms(3)] on_store_eq prod.case)
qed

text \<open>
  A commit is atomic: whatever it returns, the files show the frames before it, possibly with
  a torn tail, or those frames and the new one; when it succeeds they show the new one.
\<close>

lemma commit_atomic:
  assumes run: "running st sys d" and commit: "store_commit t payload (st, sys) = (r, st', sys')"
    and fits: "length (log_bytes (dv_frames d)) + 28 + length payload \<le> kMaxWalFileBytes"
  shows "\<exists>k. disk_shows sys' (appended (next_frame t d payload) k d) \<and>
    (is_ok r \<longrightarrow> running st' sys' (d\<lparr>dv_frames := dv_frames d @ [next_frame t d payload]\<rparr>))"
proof -
  let ?f = "next_frame t d payload" let ?q = "last_sequence d + 1"
  have d: "disk_shows sys d" "dv_tail d = []" and st: "st_last_sequence st = last_sequence d"
      "st_wal_segment st = dv_wal d" "st_snapshot_sequence st = dv_snapshot d"
    using run by (simp_all add: running_def)
  have none: "disk_shows sys (appended ?f 0 d)"
    using d by (cases d) (simp add: appended_def next_frame_def)
  show ?thesis
  proof (cases "length payload > kMaxRecordPayloadBytes \<or> ?q \<le> last_sequence d")
    case True
    then have "sys' = sys" "\<not> is_ok r"
      using commit st by (auto simp: store_commit_def Let_def split: if_splits)
    then show ?thesis using none by blast
  next
    case False
    then have small: "length payload \<le> kMaxRecordPayloadBytes" and lt: "last_sequence d < ?q" by auto
    let ?name = "wal_name (dv_wal d)" let ?b = "encode_record t ?q payload"
    have onfile: "file_at sys ?name = Some (log_bytes (dv_frames d))" using d by (simp add: disk_shows_def)
    obtain r1 s1 where app: "append_file_durable ?name ?b (so_durable_commit (st_options st)) sys = (r1, s1)"
      by fastforce
    have c: "(r, st', sys') = (case r1 of Inl e \<Rightarrow> (Inl e, st, s1)
        | Inr _ \<Rightarrow> (Inr (), st\<lparr>st_last_sequence := ?q\<rparr>, s1))"
      using commit [symmetric] store_commit_eq [OF small, of st t sys r1 s1] lt st app by (cases r1) (simp_all add: wal_path_def)
    then have s: "sys' = s1" by (auto split: sum.splits)
    obtain k where k: "is_ok r1 \<longrightarrow> length ?b \<le> k" "os_root s1 = os_root sys"
        "file_at s1 ?name = Some (log_bytes (dv_frames d) @ take k ?b)"
        "\<And>n. n \<noteq> ?name \<Longrightarrow> file_at s1 n = file_at sys n"
      using append_file_cases [OF app _ onfile] by auto
    have view: "disk_shows sys' (appended ?f k d)"
      unfolding s
      by (rule disk_shows_appended [OF d _ _ _ _ k(2,4)])
         (use small lt fits k(3) in \<open>simp_all add: next_frame_def wf_frame_of\<close>,
          simp_all add: frame_of_def)
    moreover have "running st' sys' (d\<lparr>dv_frames := dv_frames d @ [?f]\<rparr>)" if "is_ok r"
    proof -
      have ok: "is_ok r1" "st' = st\<lparr>st_last_sequence := ?q\<rparr>"
        using c that by (auto split: sum.splits)
      then have "appended ?f k d = d\<lparr>dv_frames := dv_frames d @ [?f]\<rparr>"
        using k(1) by (simp add: appended_def next_frame_def)
      moreover have "last_sequence (d\<lparr>dv_frames := dv_frames d @ [?f]\<rparr>) = ?q"
        using lt by (simp add: last_sequence_def next_frame_def frame_of_def max_def)
      ultimately show ?thesis using view ok(2) st d(2) by (simp add: running_def)
    qed
    ultimately show ?thesis by blast
  qed
qed

subsection \<open>Writing a snapshot and rotating the log\<close>

text \<open>The content after a rotation: the snapshot holds the payload at the last sequence.\<close>

definition rotated :: "byte list \<Rightarrow> disk_view \<Rightarrow> disk_view" where
  "rotated payload d = \<lparr>dv_snapshot = dv_snapshot d + 1, dv_wal = dv_wal d + 1,
     dv_base = last_sequence d, dv_payload = payload, dv_frames = [], dv_tail = []\<rparr>"

lemma write_file_cases:
  assumes "write_file_atomic t b dur sys = (r, sys')"
  shows "os_root sys' = os_root sys"
    and "file_at sys' m = (if m = t \<and> is_ok r then Some b else file_at sys m)"
proof -
  have "os_root (snd (next_fault sys)) = os_root sys"
    by (simp add: next_fault_def split: list.splits)
  then have "os_root (snd (write_file_atomic t b dur sys)) = os_root sys"
    by (auto simp: write_file_atomic_def case_prod_beta Let_def put_file_def split: fault.splits io_stage.splits)
  then show "os_root sys' = os_root sys" using assms by simp
  show "file_at sys' m = (if m = t \<and> is_ok r then Some b else file_at sys m)"
    using write_file_atomic_files [of t b dur sys m] assms by simp
qed

text \<open>A write to a file the content does not depend on.\<close>

lemma running_other_file:
  assumes "running st sys d" and "write_file_atomic t b dur sys = (r, sys')"
    and "t \<notin> {kCurrentName, snapshot_name (dv_snapshot d), wal_name (dv_wal d)}"
  shows "running st sys' d"
proof -
  have "disk_shows sys' d"
    by (rule disk_shows_cong [of sys]) (use assms write_file_cases [OF assms(2)] in \<open>auto simp: running_def\<close>)
  then show ?thesis using assms(1) by (simp add: running_def)
qed

lemma running_failed_write:
  assumes "running st sys d" and "write_file_atomic t b dur sys = (r, sys')" and "\<not> is_ok r"
  shows "running st sys' d"
proof -
  have "disk_shows sys' d"
    by (rule disk_shows_cong [of sys]) (use assms write_file_cases [OF assms(2)] in \<open>auto simp: running_def\<close>)
  then show ?thesis using assms(1) by (simp add: running_def)
qed

lemma snapshot_atomic:
  assumes run: "running st sys d" and snap: "write_snapshot payload (st, sys) = (r, st', sys')"
    and fits: "length payload \<le> kMaxRecordPayloadBytes"
    and room: "dv_snapshot d + 1 \<noteq> 0" "dv_wal d + 1 \<noteq> 0"
  shows "running st' sys' d \<and> \<not> is_ok r \<or> running st' sys' (rotated payload d)"
proof -
  let ?dur = "so_durable_commit (st_options st)" let ?sq = "dv_snapshot d + 1" let ?wq = "dv_wal d + 1"
  let ?file = "encode_snapshot_file (encode_record SnapshotPayload (last_sequence d) payload)"
  let ?cur = "encode_current \<lparr>cur_snapshot = ?sq, cur_wal = ?wq\<rparr>"
  have st: "st_last_sequence st = last_sequence d" "st_wal_segment st = dv_wal d"
      "st_snapshot_sequence st = dv_snapshot d"
    using run by (simp_all add: running_def)
  let ?st2 = "st\<lparr>st_snapshot_sequence := ?sq, st_wal_segment := ?wq,
      st_recovery := (st_recovery st)\<lparr>rr_snapshot_sequence := ?sq, rr_wal_segment := ?wq\<rparr>\<rparr>"
  obtain r1 s1 where w1: "write_file_atomic (snapshot_name ?sq) ?file ?dur sys = (r1, s1)" by fastforce
  obtain r2 s2 where w2: "write_file_atomic (wal_name ?wq) [] ?dur s1 = (r2, s2)" by fastforce
  obtain r3 s3 where w3: "write_file_atomic kCurrentName ?cur ?dur s2 = (r3, s3)" by fastforce
  have "\<not> kMaxSnapshotPayloadBytes < length payload"
    using fits by (simp add: kMaxRecordPayloadBytes_def kMaxSnapshotPayloadBytes_def)
  then have body: "(r, st', sys') = (case r1 of Inl e \<Rightarrow> (Inl e, st, s1) | Inr _ \<Rightarrow>
      (case r2 of Inl e \<Rightarrow> (Inl e, st, s2) | Inr _ \<Rightarrow>
      (case r3 of Inl e \<Rightarrow> (Inl e, st, s3) | Inr _ \<Rightarrow> cleanup_old_files (?st2, s3))))"
    using w1 w2 w3 unfolding snap [symmetric] write_snapshot_def prod.case Let_def st
    by (simp only: if_False) (cases r1; cases r2; cases r3; simp add: io_bind_def on_os_def)
  have ne: "?sq \<noteq> dv_snapshot d" "?wq \<noteq> dv_wal d" by simp_all
  have run1: "running st s1 d" by (rule running_other_file [OF run w1]) (use ne in simp)
  have run2: "running st s2 d" by (rule running_other_file [OF run1 w2]) (use ne in simp)
  show ?thesis
  proof (cases "is_ok r1 \<and> is_ok r2 \<and> is_ok r3")
    case False
    moreover have "running st s3 d" if "\<not> is_ok r3" by (rule running_failed_write [OF run2 w3 that])
    ultimately show ?thesis using body run1 run2 by (auto split: sum.splits)
  next
    case True
    have "disk_shows s3 (rotated payload d)"
      using run room fits True write_file_cases [OF w1] write_file_cases [OF w2] write_file_cases [OF w3]
      by (simp add: disk_shows_def rotated_def running_def torn_tail_def wf_log_def log_bytes_def)
    moreover have "cleanup_old_files (?st2, s3) = (r, st', sys')" using body True by (auto split: sum.splits)
    from harmlessD [OF harmless_cleanup this]
    have "st' = ?st2" "undisturbed ?st2 s3 sys'" by simp_all
    ultimately have "running st' sys' (rotated payload d)"
      using disk_shows_undisturbed [of s3 "rotated payload d" ?st2 sys'] st
      by (simp add: running_def rotated_def last_sequence_def)
    then show ?thesis by blast
  qed
qed

end
