(* ===== verification/Store_Faults.thy ===== *)
theory Store_Faults
  imports Store_Crash
begin

section \<open>Restarting after a fault\<close>

text \<open>
  What the next process finds after a fault: the guarantees of a commit and of a rotation end
  to end, and the fault sequences after which the store loses a frame or opens no more.
\<close>

subsection \<open>Guarantees\<close>

lemma commit_survives_restart:
  assumes run: "running st sys d" and commit: "store_commit t payload (st, sys) = (r, st', sys')"
    and fits: "length (log_bytes (dv_frames d)) + 28 + length payload \<le> kMaxWalFileBytes"
    and lock: "lock_free (restart pid sys')" and opts: "good_options o'" "so_allow_torn_tail o'"
  shows "\<exists>st2 sys2. store_open o' (restart pid sys') = (Inr st2, sys2) \<and>
    rr_snapshot_payload (st_recovery st2) = dv_payload d \<and>
    (st_replayed st2 = dv_frames d @ [next_frame t d payload] \<or> \<not> is_ok r \<and> st_replayed st2 = dv_frames d)"
proof -
  let ?f = "next_frame t d payload"
  obtain k where v: "disk_shows sys' (appended ?f k d)"
    and ok: "is_ok r \<longrightarrow> running st' sys' (d\<lparr>dv_frames := dv_frames d @ [?f]\<rparr>)"
    using commit_atomic [OF run commit fits] by blast
  have rec: "recovers o' (restart pid sys') d'" if "disk_shows sys' d'" for d'
    using that opts lock by (intro open_recovers) simp_all
  have after: ?thesis if "is_ok r"
  proof -
    have "recovers o' (restart pid sys') (d\<lparr>dv_frames := dv_frames d @ [?f]\<rparr>)"
      using ok that by (intro rec) (simp add: running_def)
    then show ?thesis by (auto simp: recovers_def)
  qed
  have either: "dv_frames (appended ?f k d) \<in> {dv_frames d, dv_frames d @ [?f]}"
      "dv_payload (appended ?f k d) = dv_payload d"
    by (simp_all add: appended_def)
  show ?thesis
    using rec [OF v] after either by (cases "is_ok r") (auto simp: recovers_def)
qed

lemma snapshot_survives_restart:
  assumes run: "running st sys d" and snap: "write_snapshot payload (st, sys) = (r, st', sys')"
    and fits: "length payload \<le> kMaxRecordPayloadBytes"
    and room: "dv_snapshot d + 1 \<noteq> 0" "dv_wal d + 1 \<noteq> 0"
    and lock: "lock_free (restart pid sys')" and opts: "good_options o'"
  shows "\<exists>st2 sys2. store_open o' (restart pid sys') = (Inr st2, sys2) \<and>
    st_last_sequence st2 = last_sequence d \<and>
    (rr_snapshot_payload (st_recovery st2) = payload \<and> st_replayed st2 = [] \<or>
     \<not> is_ok r \<and> rr_snapshot_payload (st_recovery st2) = dv_payload d \<and> st_replayed st2 = dv_frames d)"
proof -
  have rec: "recovers o' (restart pid sys') d'" if "running st' sys' d'" for d'
    using that opts lock by (intro open_recovers) (simp_all add: running_def)
  from snapshot_atomic [OF run snap fits room] show ?thesis
  proof (elim disjE conjE)
    assume "running st' sys' d" "\<not> is_ok r"
    with rec [of d] show ?thesis by (auto simp: recovers_def running_def)
  next
    assume "running st' sys' (rotated payload d)"
    from rec [OF this] show ?thesis
      by (auto simp: recovers_def running_def rotated_def last_sequence_def)
  qed
qed

subsection \<open>Failures of recovery\<close>

text \<open>A store without a snapshot whose log is refused does not open.\<close>

lemma open_refused_log:
  assumes free: "fault_free sys" and root: "os_root sys = RootDirectory" and lock: "lock_free sys"
    and opts: "good_options o'" and w: "w \<noteq> 0"
    and cur: "file_at sys kCurrentName = Some (encode_current \<lparr>cur_snapshot = 0, cur_wal = w\<rparr>)"
    and log: "file_at sys (wal_name w) = Some raw" "length raw \<le> kMaxWalFileBytes"
    and bad: "replay_loop (so_allow_torn_tail o') raw
      \<lparr>rp_consumed = 0, rp_previous = None, rp_last = 0, rp_frames = [], rp_skipped = 0\<rparr> = Inl e"
  shows "fst (store_open o' sys) = Inl e"
proof -
  obtain s1 where s1: "fault_free s1" "\<forall>n. n \<noteq> kLockName \<longrightarrow> file_at s1 n = file_at sys n"
    and op: "store_open o' sys = (case recover_rest ((new_store o')\<lparr>st_holds_lock := True,
        st_snapshot_sequence := 0, st_wal_segment := w\<rparr>, s1) of
      (Inl e, s) \<Rightarrow> (Inl e, snd (release_lock s)) | (Inr _, st, s) \<Rightarrow> (Inr st, s))"
    using open_prefix [OF free root lock opts cur] w by auto
  let ?st = "(new_store o')\<lparr>st_holds_lock := True, st_snapshot_sequence := 0, st_wal_segment := w\<rparr>"
  have l: "load_snapshot (?st, s1) = (Inr (), ?st, s1)" by (simp add: load_snapshot_def)
  have onfile: "file_at s1 (wal_name w) = Some raw" using s1(2) log(1) by simp
  have "replay_log (?st, s1) = (Inl e, ?st, s1)"
    using s1(1) onfile log(2) bad
    by (simp add: replay_log_def wal_path_def os_simps on_os_eq Let_def new_store_def)
  then have "recover_rest (?st, s1) = (Inl e, ?st, s1)"
    unfolding recover_rest_def io_bind_Inr [of load_snapshot, OF l] by simp
  then show ?thesis by (simp add: op)
qed

lemma previous_of_replayed: "rp_previous (replayed (fs @ [f]) s) = Some (fr_sequence f)"
  by (simp add: replayed_def replay_frame_def Let_def)

lemma replay_repeated_sequence:
  assumes "wf_log (fs @ [f])" and "wf_frame g" and "fr_sequence g = fr_sequence f"
  shows "replay_loop a (log_bytes (fs @ [f]) @ frame_bytes g)
      \<lparr>rp_consumed = 0, rp_previous = None, rp_last = q, rp_frames = [], rp_skipped = 0\<rparr>
    = err SequenceRegression ''log sequence did not advance''"
proof -
  let ?s = "\<lparr>rp_consumed = 0, rp_previous = None, rp_last = q, rp_frames = [], rp_skipped = 0\<rparr>"
  have "replay_loop a (log_bytes (fs @ [f]) @ frame_bytes g) ?s
      = replay_loop a (frame_bytes g) (replayed (fs @ [f]) ?s)"
    using assms(1) by (rule replay_log_bytes) simp
  also have "\<dots> = err SequenceRegression ''log sequence did not advance''"
    using decode_frame_bytes [OF assms(2), of "[]"] assms(3)
    by (subst replay_loop.simps) (simp add: Let_def previous_of_replayed)
  finally show ?thesis .
qed

text \<open>
  A commit whose flush to the device fails reports an error, keeps its sequence number and
  leaves its record in the log; the next commit uses the number again, succeeds, and the store
  opens no more.
\<close>

lemma failed_sync_blocks_recovery:
  assumes run: "running st sys d" and plain: "dv_snapshot d = 0"
    and fault: "os_faults sys = [Fault AtSync k]" "so_durable_commit (st_options st)"
    and small: "length p1 \<le> kMaxRecordPayloadBytes" "length p2 \<le> kMaxRecordPayloadBytes"
    and lt: "last_sequence d < last_sequence d + 1"
    and fits: "length (log_bytes (dv_frames d)) + 56 + length p1 + length p2 \<le> kMaxWalFileBytes"
    and lock: "file_at sys kLockName = None" and opts: "good_options o'"
  shows "\<exists>sys1 st2 sys2. store_commit t1 p1 (st, sys) = (err IoError ''durable append flush failed'', st, sys1) \<and>
    store_commit t2 p2 (st, sys1) = (Inr (), st2, sys2) \<and>
    fst (store_open o' (restart pid sys2)) = err SequenceRegression ''log sequence did not advance''"
proof -
  let ?q = "last_sequence d + 1" let ?name = "wal_name (dv_wal d)"
  let ?f1 = "frame_of t1 ?q p1" let ?f2 = "frame_of t2 ?q p2"
  have d: "disk_shows sys d" and tail: "dv_tail d = []" and st: "st_last_sequence st = last_sequence d"
      "st_wal_segment st = dv_wal d"
    using run by (simp_all add: running_def)
  have path: "wal_path st = ?name" by (simp add: wal_path_def st)
  have onfile: "file_at sys ?name = Some (log_bytes (dv_frames d))" and w: "dv_wal d \<noteq> 0"
    and cur: "file_at sys kCurrentName = Some (encode_current \<lparr>cur_snapshot = 0, cur_wal = dv_wal d\<rparr>)"
    and base: "dv_base d = 0" and root: "os_root sys = RootDirectory"
    using d tail plain by (simp_all add: disk_shows_def)
  let ?sys0 = "sys\<lparr>os_faults := []\<rparr>"
  let ?sys1 = "append_bytes ?name (frame_bytes ?f1) ?sys0"
  let ?sys2 = "append_bytes ?name (frame_bytes ?f2) ?sys1"
  have a1: "append_file_durable ?name (encode_record t1 ?q p1) True sys
      = (err IoError ''durable append flush failed'', ?sys1)"
    using fault(1) by (simp add: append_file_durable_def next_fault_def)
  have free: "fault_free ?sys1" by (simp add: os_simps) (simp add: fault_free_def)
  have c1: "store_commit t1 p1 (st, sys) = (err IoError ''durable append flush failed'', st, ?sys1)"
    using store_commit_eq [OF small(1), of st t1 sys] a1 lt st(1) fault(2) by (simp add: path err_def)
  have a2: "append_file_durable ?name (encode_record t2 ?q p2) True ?sys1 = (Inr (), ?sys2)"
    using free by (simp add: os_simps)
  have c2: "store_commit t2 p2 (st, ?sys1) = (Inr (), st\<lparr>st_last_sequence := ?q\<rparr>, ?sys2)"
    using store_commit_eq [OF small(2), of st t2 ?sys1] a2 lt st(1) fault(2) by (simp add: path)
  have log: "wf_log (dv_frames d @ [?f1])"
    using d lt last_sequence_ge(2) [of _ d] small(1) wf_frame_of [OF small(1), of t1 ?q]
    by (auto simp: wf_log_def disk_shows_def sorted_wrt_append frame_of_def intro: order.strict_trans1)
  have same: "file_at (restart pid ?sys2) n = file_at sys n" if "n \<noteq> ?name" for n
    using that by (simp add: file_at_append) (simp add: file_at_def)
  have root2: "os_root (restart pid ?sys2) = RootDirectory"
    using root by (simp add: append_bytes_def put_file_def)
  have log2: "file_at (restart pid ?sys2) ?name = Some (log_bytes (dv_frames d @ [?f1]) @ frame_bytes ?f2)"
  proof -
    have "file_at ?sys0 ?name = Some (log_bytes (dv_frames d))" using onfile by (simp add: file_at_def)
    then show ?thesis by (simp add: file_at_append)
  qed
  have free2: "fault_free (restart pid ?sys2)" and lock2: "lock_free (restart pid ?sys2)"
    using same [of kLockName] lock by (simp_all add: lock_free_def)
  have cur2: "file_at (restart pid ?sys2) kCurrentName
      = Some (encode_current \<lparr>cur_snapshot = 0, cur_wal = dv_wal d\<rparr>)"
    using same [of kCurrentName] cur by simp
  have len2: "length (log_bytes (dv_frames d @ [?f1]) @ frame_bytes ?f2) \<le> kMaxWalFileBytes"
    using fits by simp
  have "fst (store_open o' (restart pid ?sys2)) = err SequenceRegression ''log sequence did not advance''"
    unfolding err_def
    by (rule open_refused_log [OF free2 root2 lock2 opts w cur2 log2 len2
          replay_repeated_sequence [OF log wf_frame_of [OF small(2)], unfolded err_def]])
      (simp add: frame_of_def)
  then show ?thesis using c1 c2 by blast
qed

text \<open>
  When the existence of the log cannot be determined, opening replaces it by an empty one:
  every committed frame is lost and the store opens as if it had none.
\<close>

lemma failed_stat_empties_log:
  assumes d: "disk_shows sys d" and plain: "dv_snapshot d = 0" and lock: "file_at sys kLockName = None"
    and fault: "os_faults sys = [NoFault, NoFault, NoFault, NoFault, NoFault, Fault stage k]"
    and opts: "good_options o'"
  shows "\<exists>st sys'. store_open o' sys = (Inr st, sys') \<and> st_replayed st = [] \<and> st_last_sequence st = 0 \<and>
    file_at sys' (wal_name (dv_wal d)) = Some []"
proof -
  let ?name = "wal_name (dv_wal d)" let ?cur = "encode_current \<lparr>cur_snapshot = 0, cur_wal = dv_wal d\<rparr>"
  have onfile: "file_at sys kCurrentName = Some ?cur" and w: "dv_wal d \<noteq> 0" and root: "os_root sys = RootDirectory"
    using d plain by (simp_all add: disk_shows_def)
  let ?st = "(new_store o')\<lparr>st_holds_lock := True, st_snapshot_sequence := 0, st_wal_segment := dv_wal d\<rparr>"
  let ?l = "AList.update kLockName (bytes_of (u64_string (os_pid sys))) (os_files sys)"
  let ?s5 = "sys\<lparr>os_files := ?l, os_faults := [Fault stage k]\<rparr>"
  let ?s6 = "put_file ?name [] (sys\<lparr>os_files := ?l, os_faults := []\<rparr>)"
  have nolock: "map_of (os_files sys) kLockName = None" using lock by (simp add: file_at_def)
  have acq: "acquire_lock (new_store o', sys\<lparr>os_faults := [NoFault, NoFault, NoFault, NoFault, Fault stage k]\<rparr>)
      = (Inr (), (new_store o')\<lparr>st_holds_lock := True\<rparr>,
         sys\<lparr>os_files := ?l, os_faults := [NoFault, NoFault, Fault stage k]\<rparr>)"
    using nolock by (simp add: acquire_lock_def os_exists_def next_fault_def file_at_def Let_def io_bind_def
        on_os_def on_store_def write_file_atomic_def put_file_def)
  have prep: "prepare_root (new_store o', sys)
      = (Inr (), new_store o', sys\<lparr>os_faults := [NoFault, NoFault, NoFault, NoFault, Fault stage k]\<rparr>)"
    using fault root by (simp add: prepare_root_def next_fault_def)
  have cur: "file_at (sys\<lparr>os_files := ?l, os_faults := fs\<rparr>) kCurrentName = Some ?cur" for fs
    using onfile by (simp add: file_at_def update_conv')
  have ex: "os_exists kCurrentName (sys\<lparr>os_files := ?l, os_faults := [NoFault, NoFault, Fault stage k]\<rparr>)
      = ((True, False), sys\<lparr>os_files := ?l, os_faults := [NoFault, Fault stage k]\<rparr>)"
    using cur by (simp add: os_exists_def next_fault_def)
  have rd: "read_file kCurrentName 4096 (sys\<lparr>os_files := ?l, os_faults := [NoFault, Fault stage k]\<rparr>) = (Inr ?cur, ?s5)"
    using cur encode_current_small [of "\<lparr>cur_snapshot = 0, cur_wal = dv_wal d\<rparr>"]
    by (simp add: read_file_def next_fault_def)
  have dec: "decode_current ?cur = Inr \<lparr>cur_snapshot = 0, cur_wal = dv_wal d\<rparr>"
    by (rule decode_encode_current) (simp add: w)
  have ld: "load_snapshot (?st, ?s5) = (Inr (), ?st, ?s5)" by (simp add: load_snapshot_def)
  have rp: "replay_log (?st, ?s5) = (Inr (), ?st, ?s6)"
    by (simp add: replay_log_def os_exists_def next_fault_def wal_path_def Let_def on_os_def write_file_atomic_def)
  obtain r3 st4 s7 where c: "cleanup_old_files (?st, ?s6) = (r3, st4, s7)" by (metis prod_cases3)
  have free6: "fault_free ?s6" by (simp add: os_simps) (simp add: fault_free_def)
  from harmlessD [OF harmless_cleanup c] free6 have c': "r3 = Inr ()" "st4 = ?st" "undisturbed ?st ?s6 s7"
    by simp_all
  have wal: "file_at s7 ?name = Some []"
    using c'(3) by (simp add: undisturbed_def removable_def file_at_put)
  obtain st5 where st5: "open_existing ((new_store o')\<lparr>st_holds_lock := True\<rparr>,
        sys\<lparr>os_files := ?l, os_faults := [NoFault, Fault stage k]\<rparr>) = (Inr (), st5, s7)"
      "st_replayed st5 = []" "st_last_sequence st5 = 0"
  proof
    let ?st5 = "?st\<lparr>st_recovery := (st_recovery ?st)\<lparr>rr_last_sequence := 0,
        rr_wal_segment := dv_wal d, rr_detail := ''recovered existing store''\<rparr>\<rparr>"
    show "open_existing ((new_store o')\<lparr>st_holds_lock := True\<rparr>,
        sys\<lparr>os_files := ?l, os_faults := [NoFault, Fault stage k]\<rparr>) = (Inr (), ?st5, s7)"
      unfolding open_existing_def
        io_bind_Inr [of "on_os (read_file kCurrentName 4096)", OF on_os_eq [of "read_file kCurrentName 4096", OF rd]]
        prod.case dec sum.case current_pointer.select_convs io_bind_Inr [of load_snapshot, OF ld]
        io_bind_Inr [of replay_log, OF rp]
      using c c' by (simp add: new_store_def)
  qed (simp_all add: new_store_def)
  have "open_body (new_store o', sys) = (Inr (), st5, s7)"
    unfolding open_body_def io_bind_Inr [of prepare_root, OF prep] io_bind_Inr [of acquire_lock, OF acq]
    using ex st5(1) by simp
  then have "store_open o' sys = (Inr st5, s7)"
    using opts by (simp add: store_open_def good_options_def)
  then show ?thesis using st5(2,3) wal by blast
qed

text \<open>
  A first open that fails after the log is created and before the pointer is leaves a
  directory that no later open accepts.
\<close>

lemma open_without_pointer:
  assumes free: "fault_free sys" and root: "os_root sys = RootDirectory" and lock: "file_at sys kLockName = None"
    and opts: "good_options o'" and cur: "file_at sys kCurrentName = None"
    and log: "file_at sys (wal_name w) \<noteq> None"
  shows "fst (store_open o' sys) = err Corrupt ''store files exist without a CURRENT pointer''"
proof -
  let ?st = "(new_store o')\<lparr>st_holds_lock := True\<rparr>"
  have "lock_free sys" using lock by (simp add: lock_free_def)
  then obtain s1 where s1: "acquire_lock (new_store o', sys) = (Inr (), ?st, s1)" "fault_free s1"
      "\<forall>n. n \<noteq> kLockName \<longrightarrow> file_at s1 n = file_at sys n"
    using acquire_lock_free [OF free] by blast
  have "wal_name w \<in> fst ` set (os_files s1)"
    using s1(3) [rule_format, of "wal_name w"] log map_of_eq_None_iff [of "os_files s1" "wal_name w"]
    by (simp add: file_at_def) (metis option.distinct(1))
  moreover have "is_store_file (wal_name w)" by (simp add: is_store_file_def wal_name_def)
  ultimately have "\<exists>n \<in> set (map fst (os_files s1)). is_store_file n" unfolding set_map by blast
  then have "open_fresh (?st, s1) = (err Corrupt ''store files exist without a CURRENT pointer'', ?st, s1)"
    using s1(2) by (simp add: open_fresh_def on_os_def list_directory_def os_simps io_bind_def io_fail_def del: set_map)
  moreover have "os_exists kCurrentName s1 = ((False, False), s1)" using s1(2,3) cur by (simp add: os_simps)
  ultimately have "open_body (new_store o', sys)
      = (err Corrupt ''store files exist without a CURRENT pointer'', ?st, s1)"
    unfolding open_body_def io_bind_Inr [of prepare_root, OF prepare_root_free [OF free root]]
      io_bind_Inr [of acquire_lock, OF s1(1)]
    by simp
  then show ?thesis using opts by (simp add: store_open_def good_options_def err_def)
qed

lemma interrupted_first_open_blocks_store:
  assumes root: "os_root sys = RootDirectory" and empty: "os_files sys = []"
    and fault: "os_faults sys = [NoFault, NoFault, NoFault, NoFault, NoFault, NoFault, Fault AtReplace k]"
    and opts: "good_options o'"
  shows "\<exists>sys'. store_open o' sys = (err IoError ''atomic replace failed'', sys') \<and>
    fst (store_open o' (restart pid sys')) = err Corrupt ''store files exist without a CURRENT pointer''"
proof -
  have lockdiff: "wal_name 1 \<noteq> kLockName" "kCurrentName \<noteq> kLockName" by simp_all
  let ?sys' = "sys\<lparr>os_files := [(wal_name 1, [])], os_faults := []\<rparr>"
  have "store_open o' sys = (err IoError ''atomic replace failed'', ?sys')"
    using root empty fault opts
    by (simp add: store_open_def good_options_def open_body_def prepare_root_def next_fault_def
        acquire_lock_def os_exists_def file_at_def Let_def io_bind_def on_os_def on_store_def
        write_file_atomic_def put_file_def open_fresh_def list_directory_def initialize_fresh_def
        is_store_file_def kLockName_def release_lock_def remove_file_if_present_def wal_name_def
        new_store_def kCurrentName_def err_def)
  moreover have "fst (store_open o' (restart pid ?sys')) = err Corrupt ''store files exist without a CURRENT pointer''"
    using root by (intro open_without_pointer [OF _ _ _ opts, where w = 1]) (simp_all, simp_all add: file_at_def)
  ultimately show ?thesis by blast
qed

text \<open>A snapshot whose payload exceeds the bound of a record is written but not read back.\<close>

lemma decode_oversized_record:
  assumes "kMaxRecordPayloadBytes < length p" and "length p \<le> kMaxSnapshotPayloadBytes"
  shows "dc_status (decode_record (encode_record t q p)) = Oversized"
proof -
  have h: "read_header (encode_record t q p) = record_header_of t q p"
    using read_encoded_header [of t q p "[]"] by simp
  have "unat (of_nat (length p) :: u32) = length p"
    using assms(2) by (simp add: kMaxSnapshotPayloadBytes_def unat_size32)
  moreover have "\<not> length (encode_record t q p) < kRecordHeaderBytes"
    by (simp add: kRecordHeaderBytes_def)
  moreover have "is_valid_record_type (record_type_value t)"
    using encoded_header_accepted(1) [of "[]" 28 t q "[]"] encoded_header_accepted(2) [of "[]" 28 t q "[]"]
    by (simp add: header_accepted_def Let_def kMaxRecordPayloadBytes_def)
  ultimately show ?thesis
    using assms(1) unfolding decode_record_def h Let_def by (simp add: refused_def)
qed

lemma oversized_snapshot_blocks_recovery:
  assumes run: "running st sys d" and free: "fault_free sys" and lock: "file_at sys kLockName = None"
    and size: "kMaxRecordPayloadBytes < length payload" "length payload + 28 \<le> kMaxSnapshotPayloadBytes"
    and room: "dv_snapshot d + 1 \<noteq> 0" "dv_wal d + 1 \<noteq> 0" and opts: "good_options o'"
  shows "\<exists>st' sys'. write_snapshot payload (st, sys) = (Inr (), st', sys') \<and>
    fst (store_open o' (restart pid sys')) = err Corrupt ''snapshot payload is not a valid snapshot record''"
proof -
  let ?sq = "dv_snapshot d + 1" let ?wq = "dv_wal d + 1"
  let ?rec = "encode_record SnapshotPayload (last_sequence d) payload"
  let ?cur = "\<lparr>cur_snapshot = ?sq, cur_wal = ?wq\<rparr>"
  have st: "st_last_sequence st = last_sequence d" "st_wal_segment st = dv_wal d"
      "st_snapshot_sequence st = dv_snapshot d" and root: "os_root sys = RootDirectory"
    using run by (simp_all add: running_def disk_shows_def)
  let ?st2 = "st\<lparr>st_snapshot_sequence := ?sq, st_wal_segment := ?wq,
      st_recovery := (st_recovery st)\<lparr>rr_snapshot_sequence := ?sq, rr_wal_segment := ?wq\<rparr>\<rparr>"
  let ?s3 = "put_file kCurrentName (encode_current ?cur) (put_file (wal_name ?wq) []
      (put_file (snapshot_name ?sq) (encode_snapshot_file ?rec) sys))"
  obtain r st' sys' where c: "cleanup_old_files (?st2, ?s3) = (r, st', sys')" by (metis prod_cases3)
  have "fault_free ?s3" using free by (simp add: os_simps)
  then have c': "r = Inr ()" "undisturbed ?st2 ?s3 sys'" using harmlessD [OF harmless_cleanup c] by simp_all
  have "write_snapshot payload (st, sys) = cleanup_old_files (?st2, ?s3)"
    using free size(2) by (simp add: write_snapshot_def st Let_def io_bind_def on_os_def os_simps)
  then have w: "write_snapshot payload (st, sys) = (Inr (), st', sys')" using c c'(1) by simp
  have files: "file_at sys' kCurrentName = Some (encode_current ?cur)"
      "file_at sys' (snapshot_name ?sq) = Some (encode_snapshot_file ?rec)"
      "file_at sys' kLockName = None" "os_root sys' = RootDirectory"
    using c'(2) lock root by (simp_all add: undisturbed_def removable_def file_at_put,
      simp_all add: put_file_def kLockName_def snapshot_name_def wal_name_def)
  have curn: "cur_wal ?cur \<noteq> 0" using room(2) by simp
  have lf: "lock_free (restart pid sys')" using files(3) by (simp add: lock_free_def)
  let ?st = "(new_store o')\<lparr>st_holds_lock := True, st_snapshot_sequence := ?sq, st_wal_segment := ?wq\<rparr>"
  obtain s1 where s1: "fault_free s1" "\<forall>n. n \<noteq> kLockName \<longrightarrow> file_at s1 n = file_at sys' n"
    and op: "store_open o' (restart pid sys') = (case recover_rest (?st, s1) of
      (Inl e, s) \<Rightarrow> (Inl e, snd (release_lock s)) | (Inr _, st, s) \<Rightarrow> (Inr st, s))"
    using open_prefix [OF restart_simps(1) _ lf opts _ curn] files(1,4) by auto
  have rl: "length ?rec \<le> kMaxSnapshotPayloadBytes" using size(2) by simp
  have fl: "length (encode_snapshot_file ?rec) \<le> kMaxSnapshotPayloadBytes + 64"
    using size(2) by (simp add: encode_snapshot_file_def bytes_of_def kSnapshotFileMagic_def w_u16_def
        w_size32_def w_u32_def)
  have onfile: "file_at s1 (snapshot_name ?sq) = Some (encode_snapshot_file ?rec)" using s1(2) files(2) by simp
  have "dc_status (decode_record ?rec) = Oversized"
    using size by (intro decode_oversized_record) simp_all
  then have "load_snapshot (?st, s1) = (err Corrupt ''snapshot payload is not a valid snapshot record'', ?st, s1)"
    using s1(1) room(1) onfile fl
    by (simp add: load_snapshot_def os_simps on_os_eq Let_def decode_encode_snapshot_file [OF rl])
  then have "recover_rest (?st, s1) = (err Corrupt ''snapshot payload is not a valid snapshot record'', ?st, s1)"
    by (simp add: recover_rest_def io_bind_def err_def)
  then have "fst (store_open o' (restart pid sys')) = err Corrupt ''snapshot payload is not a valid snapshot record''"
    by (simp add: op err_def)
  with w show ?thesis by blast
qed

text \<open>Retention reads the hexadecimal names as decimal numbers, so it misses most files.\<close>

lemma retention_misreads_names:
  "snapshot_numbers [snapshot_name 9, snapshot_name 10, snapshot_name 16] = [9, 10]"
  "wal_numbers [wal_name 9, wal_name 10, wal_name 16] = [9, 10]"
  by code_simp+

end
