(* ===== verification/Store_Example.thy ===== *)
theory Store_Example
  imports Store_Faults
begin

section \<open>A concrete store\<close>

text \<open>
  A store that has been opened once and never written: the pointer names the first log, which
  is empty. No process holds the lock.
\<close>

definition ex_options :: store_options where
  "ex_options = \<lparr>so_root = ''store'', so_retained_snapshots = kMaxRetainedSnapshots,
     so_durable_commit = True, so_allow_torn_tail = True\<rparr>"

definition ex_disk_os :: os where
  "ex_disk_os = \<lparr>os_root = RootDirectory,
     os_files = [(kCurrentName, encode_current \<lparr>cur_snapshot = 0, cur_wal = 1\<rparr>), (wal_name 1, [])],
     os_faults = [], os_pid = 1, os_alive = \<lambda>_. False\<rparr>"

definition ex_disk :: disk_view where
  "ex_disk = \<lparr>dv_snapshot = 0, dv_wal = 1, dv_base = 0, dv_payload = [], dv_frames = [], dv_tail = []\<rparr>"

definition ex_store :: durable_store where
  "ex_store = (new_store ex_options)\<lparr>st_wal_segment := 1\<rparr>"

lemma ex_options_good [simp]: "good_options ex_options"
  by (simp add: good_options_def ex_options_def kMaxRetainedSnapshots_def)

lemma ex_disk_free [simp]: "fault_free ex_disk_os"
  by (simp add: fault_free_def ex_disk_os_def)

lemma ex_disk_files:
  "file_at ex_disk_os kLockName = None" "file_at ex_disk_os (wal_name 1) = Some []"
  "file_at ex_disk_os kCurrentName = Some (encode_current \<lparr>cur_snapshot = 0, cur_wal = 1\<rparr>)"
  by (simp_all add: file_at_def ex_disk_os_def)

lemma ex_disk_shown: "disk_shows ex_disk_os ex_disk"
  by (simp add: disk_shows_def ex_disk_def ex_disk_files log_bytes_def wf_log_def torn_tail_def)
     (simp add: ex_disk_os_def)

lemma ex_last_sequence [simp]: "last_sequence ex_disk = 0"
  by (simp add: last_sequence_def ex_disk_def)

lemma ex_running: "running ex_store ex_disk_os ex_disk"
  using ex_disk_shown by (simp add: running_def) (simp add: ex_store_def new_store_def ex_disk_def)

lemma ex_store_fields: "st_last_sequence ex_store = 0" "wal_path ex_store = wal_name 1"
  by (simp_all add: ex_store_def new_store_def wal_path_def)

text \<open>Committing to it succeeds and changes the log alone.\<close>

lemma ex_commit:
  assumes "length p \<le> kMaxRecordPayloadBytes"
  shows "store_commit t p (ex_store, ex_disk_os) =
    (Inr (), ex_store\<lparr>st_last_sequence := 1\<rparr>, append_bytes (wal_name 1) (encode_record t 1 p) ex_disk_os)"
proof -
  have "append_file_durable (wal_path ex_store) (encode_record t (st_last_sequence ex_store + 1) p)
      (so_durable_commit (st_options ex_store)) ex_disk_os
    = (Inr (), append_bytes (wal_name 1) (encode_record t 1 p) ex_disk_os)"
    by (simp add: os_simps ex_store_fields)
  from store_commit_eq [OF assms _ this] show ?thesis by (simp add: ex_store_fields)
qed

lemma ex_lock_free [simp]: "lock_free (restart 2 (append_bytes (wal_name 1) bytes ex_disk_os))"
    "lock_free (restart 2 ex_disk_os)" "lock_free ex_disk_os"
  by (simp_all add: lock_free_def os_simps ex_disk_files)

end
