(* ===== verification/Runtime_Durable.thy ===== *)
theory Runtime_Durable
  imports Runtime_Codec
begin

section \<open>Codecs of decisions and of the durable state\<close>

text \<open>
  The second half of \<open>src/runtime/codec.cpp\<close>: transition and boundary decisions, epoch
  advances, fences, and the full durable state a snapshot holds.
\<close>

subsection \<open>Transitions\<close>

definition encode_transition :: "transition_decision \<Rightarrow> byte list" where
  "encode_transition t = w_transition_fields t @ write_explanation (td_explanation t)"

text \<open>\<open>static_cast<StatusCode>(code)\<close> after the check against the last enumerator.\<close>

definition status_code_decode :: "u16 \<Rightarrow> status_code option" where
  "status_code_decode w =
     (if unat w < length status_code_vals then Some (status_code_vals ! unat w) else None)"

definition decode_transition :: "byte list \<Rightarrow> transition_decision result" where
  "decode_transition bytes =
     (let (generation, r1) = r_u64 (reader_init bytes);
          (kind, r2) = r_u8 r1;
          (status, r3) = r_u8 r2;
          (code, r4) = r_u16 r3;
          (from_generation, r5) = r_u64 r4;
          (to_generation, r6) = r_u64 r5;
          (released, r7) = r_boolean r6;
          (from_digest, r8) = r_digest r7;
          (to_digest, r9) = r_digest r8;
          (plan_digest, r10) = r_digest r9;
          (required, r11) = r_u8 r10;
          (observed, r12) = r_u8 r11;
          (verified, r13) = r_boolean r12;
          (epoch, r14) = r_u64 r13;
          (boot, r15) = r_boot r14;
          (seq, r16) = r_u64 r15
      in try_result (r_check r16) (\<lambda>r17.
      case (enum_decode transition_kind_vals kind, enum_decode transition_status_vals status,
            enum_decode effect_state_vals required, enum_decode effect_state_vals observed) of
        (Some ki, Some st, Some re, Some ob) \<Rightarrow>
          (case status_code_decode code of
             None \<Rightarrow> err InvalidArgument ''invalid transition status code''
           | Some co \<Rightarrow>
               try_result (codec_read_explanation r17) (\<lambda>(explanation, r18).
               try_result (r_finish r18) (\<lambda>_. Inr
                 \<lparr>td_generation = generation, td_kind = ki, td_status = st, td_code = co,
                  td_from_generation = from_generation, td_to_generation = to_generation,
                  td_to_released = released, td_from_digest = from_digest, td_to_digest = to_digest,
                  td_plan_digest = plan_digest, td_required_effect = re, td_observed_effect = ob,
                  td_effect_verified = verified, td_epoch = epoch, td_boot = boot,
                  td_sequence = seq, td_explanation = explanation\<rparr>)))
      | _ \<Rightarrow> err InvalidArgument ''invalid transition enum value''))"

lemma status_code_decode_code:
  "status_code_decode (ucast (enum_code status_code_vals c)) = Some c"
  by (cases c) (simp_all add: status_code_decode_def enum_code_def status_code_vals_def)

lemma decode_encode_transition:
  "encodable_explanation (td_explanation t) \<Longrightarrow> decode_transition (encode_transition t) = Inr t"
  by (cases t)
     (simp add: decode_transition_def encode_transition_def w_transition_fields_def w_status_code_def
       codec_simps kind_enum.decode_code transition_enum.decode_code effect_enum.decode_code
       status_code_decode_code codec_read_explanation_last)

interpretation transition_doc:
  document_codec encode_transition decode_transition "\<lambda>t. encodable_explanation (td_explanation t)"
  by unfold_locales (rule decode_encode_transition)

subsection \<open>Boundary decisions, epochs and fences\<close>

record boundary_decision =
  bd_plan :: plan_generation
  bd_plan_digest :: digest
  bd_released :: bool
  bd_boundary_bytes :: "byte list"

definition encode_boundary_decision :: "boundary_decision \<Rightarrow> byte list" where
  "encode_boundary_decision b =
     w_u64 (bd_plan b) @ w_digest (bd_plan_digest b) @ w_boolean (bd_released b) @
     w_blob (bd_boundary_bytes b)"

definition decode_boundary_decision :: "byte list \<Rightarrow> boundary_decision result" where
  "decode_boundary_decision bytes =
     (let (plan, r1) = r_u64 (reader_init bytes);
          (dig, r2) = r_digest r1;
          (released, r3) = r_boolean r2;
          (boundary, r4) = r_blob kMaxRecordPayloadBytes r3
      in try_result (r_check r4) (\<lambda>r5. try_result (r_finish r5) (\<lambda>_. Inr
           \<lparr>bd_plan = plan, bd_plan_digest = dig, bd_released = released,
            bd_boundary_bytes = boundary\<rparr>)))"

lemma r_blob_last:
  "length bytes \<le> n \<Longrightarrow> length bytes < 2 ^ 32 \<Longrightarrow>
   r_blob n (reader_at d (w_blob bytes)) = (bytes, reader_at (d @ w_blob bytes) [])"
  using r_blob_read_back [of bytes n d "[]"] by simp

lemma decode_encode_boundary_decision:
  "length (bd_boundary_bytes b) \<le> kMaxRecordPayloadBytes \<Longrightarrow>
   decode_boundary_decision (encode_boundary_decision b) = Inr b"
  by (cases b)
     (simp add: decode_boundary_decision_def encode_boundary_decision_def codec_simps r_blob_last
       kMaxRecordPayloadBytes_def)

interpretation boundary_decision_doc:
  document_codec encode_boundary_decision decode_boundary_decision
    "\<lambda>b. length (bd_boundary_bytes b) \<le> kMaxRecordPayloadBytes"
  by unfold_locales (rule decode_encode_boundary_decision)

definition encode_epoch_advance :: "coordinator_epoch \<times> boot_identity \<Rightarrow> byte list" where
  "encode_epoch_advance e = w_u64 (fst e) @ w_boot (snd e)"

definition decode_epoch_advance :: "byte list \<Rightarrow> (coordinator_epoch \<times> boot_identity) result" where
  "decode_epoch_advance bytes =
     (let (epoch, r1) = r_u64 (reader_init bytes);
          (boot, r2) = r_boot r1
      in try_result (r_finish r2) (\<lambda>_.
           if epoch = 0 then err InvalidArgument ''epoch advance carries a zero epoch''
           else Inr (epoch, boot)))"

lemma r_boot_last: "r_boot (reader_at d (w_boot b)) = (b, reader_at (d @ w_boot b) [])"
  using r_boot_back [of d b "[]"] by simp

lemma decode_encode_epoch_advance:
  "fst e \<noteq> 0 \<Longrightarrow> decode_epoch_advance (encode_epoch_advance e) = Inr e"
  by (cases e) (simp add: decode_epoch_advance_def encode_epoch_advance_def codec_simps r_boot_last)

interpretation epoch_doc: document_codec encode_epoch_advance decode_epoch_advance "\<lambda>e. fst e \<noteq> 0"
  by unfold_locales (rule decode_encode_epoch_advance)

text \<open>The two loops over boots: of a fence record and of a snapshot.\<close>

definition r_checked_u64 :: "reader \<Rightarrow> (u64 \<times> reader) result" where
  "r_checked_u64 r = (let (v, r1) = r_u64 r in try_result (r_check r1) (\<lambda>r2. Inr (v, r2)))"

definition w_boots :: "boot_id list \<Rightarrow> byte list" where
  "w_boots bs = w_size32 (length bs) @ concat (map w_u64 bs)"

definition read_boots :: "string \<Rightarrow> reader \<Rightarrow> (boot_id list \<times> reader) result" where
  "read_boots message r =
     (let (n, r1) = r_u32 r
      in try_result (r_check r1) (\<lambda>r2.
           if unat n > kMaxFencedBoots then err LimitExceeded message
           else read_loop (unat n) r_checked_u64 [] r2))"

definition encode_fence :: "boot_id list \<Rightarrow> byte list" where
  "encode_fence bs = w_boots bs"

definition decode_fence :: "byte list \<Rightarrow> boot_id list result" where
  "decode_fence bytes =
     try_result (read_boots ''encoded fence list exceeds the bound'' (reader_init bytes)) (\<lambda>(boots, r1).
       try_result (r_finish r1) (\<lambda>_. Inr boots))"

interpretation e_u64: element_codec r_checked_u64 w_u64 "\<lambda>v. v" "\<lambda>_. True"
  by unfold_locales (simp add: r_checked_u64_def codec_simps)

lemma read_boots_back:
  assumes "length bs \<le> kMaxFencedBoots"
  shows "read_boots m (reader_at d (w_boots bs @ rest)) = Inr (bs, reader_at (d @ w_boots bs) rest)"
proof -
  have len: "length bs < 2 ^ 32" using assms by (simp add: kMaxFencedBoots_def)
  show ?thesis
    using assms e_u64.loop_back [of bs "[]"]
    by (simp add: read_boots_def w_boots_def w_size32_def codec_simps unat_size32 [OF len])
qed

lemma decode_encode_fence:
  "length bs \<le> kMaxFencedBoots \<Longrightarrow> decode_fence (encode_fence bs) = Inr bs"
  using read_boots_back [of bs _ "[]" "[]"]
  by (simp add: decode_fence_def encode_fence_def codec_simps)

interpretation fence_doc: document_codec encode_fence decode_fence "\<lambda>bs. length bs \<le> kMaxFencedBoots"
  by unfold_locales (rule decode_encode_fence)

subsection \<open>Tables of embedded documents\<close>

definition read_embedded :: "(byte list \<Rightarrow> 'a result) \<Rightarrow> reader \<Rightarrow> ('a \<times> reader) result" where
  "read_embedded dec r =
     (let (bytes, r1) = r_blob kMaxRecordPayloadBytes r
      in try_result (r_check r1) (\<lambda>r2. try_result (dec bytes) (\<lambda>x. Inr (x, r2))))"

definition w_table :: "('a \<Rightarrow> byte list) \<Rightarrow> 'a list \<Rightarrow> byte list" where
  "w_table enc xs = w_size32 (length xs) @ concat (map (\<lambda>x. w_blob (enc x)) xs)"

definition read_table ::
  "nat \<Rightarrow> string \<Rightarrow> (byte list \<Rightarrow> 'a result) \<Rightarrow> reader \<Rightarrow> ('a list \<times> reader) result" where
  "read_table bound message dec r =
     (let (n, r1) = r_u32 r
      in try_result (r_check r1) (\<lambda>r2.
           if unat n > bound then err LimitExceeded message
           else read_loop (unat n) (read_embedded dec) [] r2))"

text \<open>Every document codec gives the codec of a row of such a table.\<close>

sublocale document_codec \<subseteq> row: element_codec "read_embedded dec" "\<lambda>x. w_blob (enc x)" "\<lambda>x. x"
    "\<lambda>x. valid x \<and> length (enc x) \<le> kMaxRecordPayloadBytes"
proof unfold_locales
  fix x d rest
  assume x: "valid x \<and> length (enc x) \<le> kMaxRecordPayloadBytes"
  then have "length (enc x) < 2 ^ 32" by (simp add: kMaxRecordPayloadBytes_def)
  then show "read_embedded dec (reader_at d (w_blob (enc x) @ rest)) = Inr (x, reader_at (d @ w_blob (enc x)) rest)"
    using x by (simp add: read_embedded_def r_blob_read_back codec_simps decode_encode)
qed

definition storable :: "nat \<Rightarrow> ('a \<Rightarrow> byte list) \<Rightarrow> ('a \<Rightarrow> bool) \<Rightarrow> 'a list \<Rightarrow> bool" where
  "storable bound enc valid xs \<longleftrightarrow> length xs \<le> bound \<and>
     (\<forall>x \<in> set xs. valid x \<and> length (enc x) \<le> kMaxRecordPayloadBytes)"

context document_codec
begin

lemma table_back:
  assumes "storable bound enc valid xs" and "bound < 2 ^ 32"
  shows "read_table bound m dec (reader_at d (w_table enc xs @ rest))
    = Inr (xs, reader_at (d @ w_table enc xs) rest)"
proof -
  have len: "length xs < 2 ^ 32" and b: "\<not> length xs > bound"
    using assms by (simp_all add: storable_def)
  have rows: "\<And>x. x \<in> set xs \<Longrightarrow> valid x \<and> length (enc x) \<le> kMaxRecordPayloadBytes"
    using assms(1) by (simp add: storable_def)
  show ?thesis
    using row.loop_back [of xs "[]", OF rows] b
    by (simp add: read_table_def w_table_def w_size32_def codec_simps unat_size32 [OF len])
qed

end

end
