(* ===== verification/Runtime_Snapshot.thy ===== *)
theory Runtime_Snapshot
  imports Runtime_Durable
begin

section \<open>The durable state of a snapshot\<close>

text \<open>
  \<open>codec::DurableState\<close> with \<open>encode_durable_state\<close> and \<open>decode_durable_state\<close>: the
  counters, the embedded topology, policy, evidence and boundary documents, the four retained
  tables and the fenced boots.
\<close>

record durable_state =
  ds_epoch :: coordinator_epoch
  ds_boot :: boot_identity
  ds_sequence :: sequence_no
  ds_evidence_revision :: evidence_revision
  ds_plan_counter :: plan_generation
  ds_transition_counter :: transition_generation
  ds_attempt_counter :: attempt_sequence
  ds_boundary_counter :: boundary_generation
  ds_authorization_counter :: sequence_no
  ds_topology_bytes :: "byte list"
  ds_policy_bytes :: "byte list"
  ds_evidence_bytes :: "byte list"
  ds_boundary_bytes :: "byte list"
  ds_boundary_plan :: plan_generation
  ds_boundary_plan_digest :: digest
  ds_effect_state :: u8
  ds_plans :: "containment_plan list"
  ds_attempts :: "apply_attempt list"
  ds_transitions :: "transition_decision list"
  ds_detections :: "detection_record list"
  ds_fenced_boots :: "boot_id list"
  ds_active_authorizations :: u32

definition kMaxEffectState :: u8 where "kMaxEffectState = 8"

definition encode_durable_state :: "durable_state \<Rightarrow> byte list" where
  "encode_durable_state s =
     w_u32 1 @ w_u64 (ds_epoch s) @ w_boot (ds_boot s) @ w_u64 (ds_sequence s) @
     w_u64 (ds_evidence_revision s) @ w_u64 (ds_plan_counter s) @ w_u64 (ds_transition_counter s) @
     w_u64 (ds_attempt_counter s) @ w_u64 (ds_boundary_counter s) @
     w_u64 (ds_authorization_counter s) @ w_blob (ds_topology_bytes s) @
     w_blob (ds_policy_bytes s) @ w_blob (ds_evidence_bytes s) @ w_blob (ds_boundary_bytes s) @
     w_u64 (ds_boundary_plan s) @ w_digest (ds_boundary_plan_digest s) @ w_u8 (ds_effect_state s) @
     w_table plan_encode (ds_plans s) @ w_table encode_attempt (ds_attempts s) @
     w_table encode_transition (ds_transitions s) @ w_table encode_detection (ds_detections s) @
     w_boots (ds_fenced_boots s) @ w_u32 (ds_active_authorizations s)"

definition decode_durable_state :: "byte list \<Rightarrow> durable_state result" where
  "decode_durable_state bytes =
     (let (version, r1) = r_u32 (reader_init bytes)
      in try_result (r_check r1) (\<lambda>r2.
      if version \<noteq> 1 then err VersionUnsupported ''durable state version is not supported''
      else let (epoch, r3) = r_u64 r2;
          (boot, r4) = r_boot r3;
          (seq, r5) = r_u64 r4;
          (revision, r6) = r_u64 r5;
          (plan_counter, r7) = r_u64 r6;
          (transition_counter, r8) = r_u64 r7;
          (attempt_counter, r9) = r_u64 r8;
          (boundary_counter, r10) = r_u64 r9;
          (authorization_counter, r11) = r_u64 r10;
          (topology, r12) = r_blob kMaxSnapshotPayloadBytes r11;
          (policy, r13) = r_blob kMaxSnapshotPayloadBytes r12;
          (evidence, r14) = r_blob kMaxSnapshotPayloadBytes r13;
          (boundary, r15) = r_blob kMaxSnapshotPayloadBytes r14
      in try_result (r_check r15) (\<lambda>r16.
      let (boundary_plan, r17) = r_u64 r16;
          (boundary_plan_digest, r18) = r_digest r17;
          (effect, r19) = r_u8 r18
      in try_result (r_check r19) (\<lambda>r20.
      if effect > kMaxEffectState then err InvalidArgument ''invalid durable effect state value''
      else
        try_result (read_table kMaxRetainedPlans ''snapshot plan table exceeds the bound''
          plan_decode r20) (\<lambda>(plans, r21).
        try_result (read_table kMaxRetainedAttempts ''snapshot attempt table exceeds the bound''
          decode_attempt r21) (\<lambda>(attempts, r22).
        try_result (read_table kMaxRetainedTransitions ''snapshot transition table exceeds the bound''
          decode_transition r22) (\<lambda>(transitions, r23).
        try_result (read_table kMaxRetainedDetections ''snapshot detection table exceeds the bound''
          decode_detection r23) (\<lambda>(detections, r24).
        try_result (read_boots ''snapshot fence list exceeds the bound'' r24) (\<lambda>(boots, r25).
          let (active, r26) = r_u32 r25
          in try_result (r_check r26) (\<lambda>r27. try_result (r_finish r27) (\<lambda>_. Inr
             \<lparr>ds_epoch = epoch, ds_boot = boot, ds_sequence = seq, ds_evidence_revision = revision,
              ds_plan_counter = plan_counter, ds_transition_counter = transition_counter,
              ds_attempt_counter = attempt_counter, ds_boundary_counter = boundary_counter,
              ds_authorization_counter = authorization_counter, ds_topology_bytes = topology,
              ds_policy_bytes = policy, ds_evidence_bytes = evidence, ds_boundary_bytes = boundary,
              ds_boundary_plan = boundary_plan, ds_boundary_plan_digest = boundary_plan_digest,
              ds_effect_state = effect, ds_plans = plans, ds_attempts = attempts,
              ds_transitions = transitions, ds_detections = detections, ds_fenced_boots = boots,
              ds_active_authorizations = active\<rparr>)))))))))))"

definition encodable_state :: "durable_state \<Rightarrow> bool" where
  "encodable_state s \<longleftrightarrow>
     length (ds_topology_bytes s) \<le> kMaxSnapshotPayloadBytes \<and>
     length (ds_policy_bytes s) \<le> kMaxSnapshotPayloadBytes \<and>
     length (ds_evidence_bytes s) \<le> kMaxSnapshotPayloadBytes \<and>
     length (ds_boundary_bytes s) \<le> kMaxSnapshotPayloadBytes \<and>
     ds_effect_state s \<le> kMaxEffectState \<and>
     storable kMaxRetainedPlans plan_encode encodable_plan (ds_plans s) \<and>
     storable kMaxRetainedAttempts encode_attempt
       (\<lambda>a. encodable_explanation (at_explanation a)) (ds_attempts s) \<and>
     storable kMaxRetainedTransitions encode_transition
       (\<lambda>t. encodable_explanation (td_explanation t)) (ds_transitions s) \<and>
     storable kMaxRetainedDetections encode_detection
       (\<lambda>d. is_valid_resource_id (dr_resource d)) (ds_detections s) \<and>
     length (ds_fenced_boots s) \<le> kMaxFencedBoots"

lemma snapshot_blob_back:
  "length bytes \<le> kMaxSnapshotPayloadBytes \<Longrightarrow>
   r_blob kMaxSnapshotPayloadBytes (reader_at d (w_blob bytes @ rest)) = (bytes, reader_at (d @ w_blob bytes) rest)"
  by (rule r_blob_read_back) (simp_all add: kMaxSnapshotPayloadBytes_def)

lemma decode_encode_durable_state:
  assumes "encodable_state s"
  shows "decode_durable_state (encode_durable_state s) = Inr s"
proof -
  have blobs: "length (ds_topology_bytes s) \<le> kMaxSnapshotPayloadBytes"
      "length (ds_policy_bytes s) \<le> kMaxSnapshotPayloadBytes"
      "length (ds_evidence_bytes s) \<le> kMaxSnapshotPayloadBytes"
      "length (ds_boundary_bytes s) \<le> kMaxSnapshotPayloadBytes"
    and effect: "\<not> ds_effect_state s > kMaxEffectState"
    and tables: "storable kMaxRetainedPlans plan_encode encodable_plan (ds_plans s)"
      "storable kMaxRetainedAttempts encode_attempt
        (\<lambda>a. encodable_explanation (at_explanation a)) (ds_attempts s)"
      "storable kMaxRetainedTransitions encode_transition
        (\<lambda>t. encodable_explanation (td_explanation t)) (ds_transitions s)"
      "storable kMaxRetainedDetections encode_detection
        (\<lambda>d. is_valid_resource_id (dr_resource d)) (ds_detections s)"
    and boots: "length (ds_fenced_boots s) \<le> kMaxFencedBoots"
    using assms by (simp_all add: encodable_state_def not_less)
  have small: "kMaxRetainedPlans < 2 ^ 32" "kMaxRetainedAttempts < 2 ^ 32"
      "kMaxRetainedTransitions < 2 ^ 32" "kMaxRetainedDetections < 2 ^ 32"
    by (simp_all add: runtime_limit_defs)
  note reads = plan_doc.table_back [OF tables(1) small(1)] attempt_doc.table_back [OF tables(2) small(2)]
    transition_doc.table_back [OF tables(3) small(3)] detection_doc.table_back [OF tables(4) small(4)]
    read_boots_back [OF boots] snapshot_blob_back [OF blobs(1)] snapshot_blob_back [OF blobs(2)]
    snapshot_blob_back [OF blobs(3)] snapshot_blob_back [OF blobs(4)]
  let ?s = "\<lparr>ds_epoch = ds_epoch s, ds_boot = ds_boot s, ds_sequence = ds_sequence s,
      ds_evidence_revision = ds_evidence_revision s, ds_plan_counter = ds_plan_counter s,
      ds_transition_counter = ds_transition_counter s, ds_attempt_counter = ds_attempt_counter s,
      ds_boundary_counter = ds_boundary_counter s,
      ds_authorization_counter = ds_authorization_counter s,
      ds_topology_bytes = ds_topology_bytes s, ds_policy_bytes = ds_policy_bytes s,
      ds_evidence_bytes = ds_evidence_bytes s, ds_boundary_bytes = ds_boundary_bytes s,
      ds_boundary_plan = ds_boundary_plan s, ds_boundary_plan_digest = ds_boundary_plan_digest s,
      ds_effect_state = ds_effect_state s, ds_plans = ds_plans s, ds_attempts = ds_attempts s,
      ds_transitions = ds_transitions s, ds_detections = ds_detections s,
      ds_fenced_boots = ds_fenced_boots s, ds_active_authorizations = ds_active_authorizations s\<rparr>"
  have eta: "?s = s" by simp
  have one: "\<not> (1 :: u32) \<noteq> 1" by simp
  show ?thesis
    unfolding decode_durable_state_def encode_durable_state_def
    by (simp only: codec_simps append_assoc Let_def prod.case try_result.simps if_not_P [OF one]
        if_not_P [OF effect] reads eta)
qed

interpretation state_doc: document_codec encode_durable_state decode_durable_state encodable_state
  by unfold_locales (rule decode_encode_durable_state)

end
