(* ===== verification/Spec_Store.thy ===== *)
theory Spec_Store
  imports Store_Example Runtime_Snapshot
begin

section \<open>Properties of the store\<close>

text \<open>
  What the durable store promises to the runtime: records survive unharmed or are refused, and
  opening recovers what was committed, whatever the operating system did to the last write.
\<close>







text \<open>C37: A record is read back exactly, whatever follows it; a proper prefix of it is a torn tail,
  never a record; and changing any single byte of it makes the decoder refuse it.\<close>

theorem record_damage_is_detected:
  assumes "length p \<le> kMaxRecordPayloadBytes"
  shows "decode_record (encode_record t q p @ rest) =
      \<lparr>dc_status = FrameOk, dc_frame = frame_of t q p, dc_detail = [], dc_consumed = 28 + length p\<rparr> \<and>
    (\<forall>k. 0 < k \<and> k < length (encode_record t q p) \<longrightarrow>
      dc_status (decode_record (take k (encode_record t q p))) = TornTail) \<and>
    (\<forall>i b. i < length (encode_record t q p) \<and> b \<noteq> encode_record t q p ! i \<longrightarrow>
      dc_status (decode_record ((encode_record t q p)[i := b] @ rest)) \<notin> {FrameOk, NoMoreData, TornTail})"
  using decode_encode_record [OF assms] decode_torn_record [OF assms] decode_corrupted_record [OF assms]
  by blast

theorem record_damage_is_detected_witness:
  "dc_frame (decode_record (encode_record Fence 3 [1, 2])) = frame_of Fence 3 [1, 2] \<and>
   dc_status (decode_record (take 29 (encode_record Fence 3 [1, 2]))) = TornTail \<and>
   dc_status (decode_record ((encode_record Fence 3 [1, 2])[0 := encode_record Fence 3 [1, 2] ! 0 + 1])) \<noteq> FrameOk"
proof -
  have "length [1, 2 :: byte] \<le> kMaxRecordPayloadBytes" by (simp add: kMaxRecordPayloadBytes_def)
  from record_damage_is_detected [OF this, of Fence 3 "[]"] show ?thesis by auto
qed

text \<open>The snapshot codec loses nothing: the durable state of the coordinator (counters, embedded
  documents, the four retained tables, fenced boots) decodes to itself.\<close>

theorem durable_state_round_trip:
  assumes "encodable_state s"
  shows "decode_durable_state (encode_durable_state s) = Inr s"
  by (rule decode_encode_durable_state [OF assms])

definition ex_state :: durable_state where
  "ex_state = \<lparr>ds_epoch = 3, ds_boot = BootIdentity 7 1, ds_sequence = 9, ds_evidence_revision = 2,
     ds_plan_counter = 4, ds_transition_counter = 1, ds_attempt_counter = 1, ds_boundary_counter = 4,
     ds_authorization_counter = 2, ds_topology_bytes = [1], ds_policy_bytes = [], ds_evidence_bytes = [2, 3],
     ds_boundary_bytes = [], ds_boundary_plan = 4, ds_boundary_plan_digest = zero_digest, ds_effect_state = 3,
     ds_plans = [], ds_attempts = [], ds_transitions = [], ds_detections = [], ds_fenced_boots = [5, 6],
     ds_active_authorizations = 1\<rparr>"

theorem durable_state_round_trip_witness:
  "decode_durable_state (encode_durable_state ex_state) = Inr ex_state"
  by (rule durable_state_round_trip)
    (simp add: encodable_state_def ex_state_def storable_def kMaxSnapshotPayloadBytes_def kMaxEffectState_def
      kMaxFencedBoots_def kMaxRetainedPlans_def kMaxRetainedAttempts_def kMaxRetainedTransitions_def
      kMaxRetainedDetections_def)

end
