(* ===== verification/Runtime_State.thy ===== *)
theory Runtime_State
  imports Runtime_Snapshot Store_Durable Engine_Planner
begin

section \<open>The state of the runtime\<close>

text \<open>
  \<open>src/runtime/runtime_state.hpp\<close>, the records of \<open>runtime/coordinator.hpp\<close> and the methods
  of \<open>RuntimeState\<close> in \<open>src/runtime/coordinator.cpp\<close>. Operations take and return the state
  and the operating system under the store; the mutex serialises them, so each runs from one
  state to the next. Every reading of the clock is an argument.
\<close>

subsection \<open>Reason codes of the runtime\<close>

definition RcAuthorityStaleEpoch :: reason_code where "RcAuthorityStaleEpoch = 41"
definition RcAuthorityFenced :: reason_code where "RcAuthorityFenced = 46"
definition RcApplySubmitted :: reason_code where "RcApplySubmitted = 50"
definition RcApplyAcknowledged :: reason_code where "RcApplyAcknowledged = 51"
definition RcEffectVerified :: reason_code where "RcEffectVerified = 52"
definition RcEffectAmbiguous :: reason_code where "RcEffectAmbiguous = 53"
definition RcEffectNotApplied :: reason_code where "RcEffectNotApplied = 54"
definition RcEffectDigestMismatch :: reason_code where "RcEffectDigestMismatch = 55"
definition RcAttemptFencedByRestart :: reason_code where "RcAttemptFencedByRestart = 57"
definition RcTransitionAccepted :: reason_code where "RcTransitionAccepted = 70"
definition RcTransitionDeniedUnverifiedEffect :: reason_code where "RcTransitionDeniedUnverifiedEffect = 71"
definition RcTransitionDeniedActiveFailures :: reason_code where "RcTransitionDeniedActiveFailures = 72"
definition RcTransitionStaleGeneration :: reason_code where "RcTransitionStaleGeneration = 73"
definition RcTransitionSupersededByNewerPlan :: reason_code where "RcTransitionSupersededByNewerPlan = 74"
definition RcTransitionContractNotASubset :: reason_code where "RcTransitionContractNotASubset = 76"
definition RcTransitionExpandNotASuperset :: reason_code where "RcTransitionExpandNotASuperset = 77"
definition RcTornTailRecovered :: reason_code where "RcTornTailRecovered = 91"
definition RcRestartEpochAdvanced :: reason_code where "RcRestartEpochAdvanced = 94"
definition RcPreRestartAttemptsFenced :: reason_code where "RcPreRestartAttemptsFenced = 95"
definition RcPreRestartLeasesFenced :: reason_code where "RcPreRestartLeasesFenced = 96"
definition RcEvidenceFreshnessNotRestored :: reason_code where "RcEvidenceFreshnessNotRestored = 98"

subsection \<open>Records\<close>

record runtime_config =
  rc_store_root :: string
  rc_persist :: bool
  rc_durable_commit :: bool
  rc_allow_torn_tail :: bool
  rc_policy :: containment_policy
  rc_topology :: topology_spec
  rc_topology_generation :: topology_generation
  rc_lease_millis :: u64
  rc_require_confirmation :: bool
  rc_max_plans :: nat
  rc_max_attempts :: nat
  rc_max_transitions :: nat
  rc_max_detections :: nat
  rc_max_authorizations :: nat

record startup_report =
  su_fresh :: bool
  su_recovered :: bool
  su_torn_tail :: bool
  su_torn_tail_bytes :: u64
  su_replayed_records :: nat
  su_skipped_records :: nat
  su_fenced_attempts :: nat
  su_fenced_authorizations :: nat
  su_restored_plans :: nat
  su_restored_detections :: nat
  su_epoch :: coordinator_epoch
  su_boot :: boot_identity
  su_topology :: topology_generation
  su_policy :: policy_generation
  su_last_sequence :: sequence_no
  su_snapshot_sequence :: u64
  su_wal_segment :: u64
  su_explanation :: explanation

record authorization_record =
  ar_id :: authorization_id
  ar_authority :: authority_vector
  ar_issued_sequence :: sequence_no
  ar_issued_at :: u64
  ar_expires_at :: u64
  ar_allows_apply :: bool

record active_authorization =
  aa_record :: authorization_record
  aa_fenced :: bool

record submit_request =
  sq_authorization :: authorization_id
  sq_plan :: plan_generation
  sq_plan_digest :: digest

record runtime_stats =
  sx_detections_accepted :: u64
  sx_detections_unchanged :: u64
  sx_detections_rejected :: u64
  sx_plans_computed :: u64
  sx_plans_rejected :: u64
  sx_transitions_accepted :: u64
  sx_transitions_denied :: u64
  sx_apply_attempts :: u64
  sx_acknowledgements :: u64
  sx_verifications :: u64
  sx_duplicates_rejected :: u64
  sx_authority_rejections :: u64
  sx_durable_commits :: u64
  sx_snapshot_commits :: u64

record runtime_state =
  rs_config :: runtime_config
  rs_store :: "durable_store option"
  rs_epoch :: coordinator_epoch
  rs_boot :: boot_identity
  rs_sequence :: sequence_no
  rs_evidence_revision :: evidence_revision
  rs_topology :: "topology option"
  rs_graph :: "graph option"
  rs_policy :: containment_policy
  rs_evidence :: evidence_vector
  rs_confirmation :: "(resource_id \<times> boot_id) list"
  rs_conflict :: bool
  rs_plan_counter :: plan_generation
  rs_transition_counter :: transition_generation
  rs_attempt_counter :: attempt_sequence
  rs_boundary_counter :: boundary_generation
  rs_authorization_counter :: sequence_no
  rs_boundary :: "boundary option"
  rs_boundary_plan :: plan_generation
  rs_boundary_plan_digest :: digest
  rs_effect_state :: effect_state
  rs_requires_reverification :: bool
  rs_last_known_boot :: "boot_identity option"
  rs_plans :: "containment_plan list"
  rs_attempts :: "apply_attempt list"
  rs_transitions :: "transition_decision list"
  rs_detections :: "detection_record list"
  rs_authorizations :: "active_authorization list"
  rs_fenced_boots :: "boot_id list"
  rs_startup :: startup_report
  rs_stats :: runtime_stats

definition empty_stats :: runtime_stats where
  "empty_stats =
     \<lparr>sx_detections_accepted = 0, sx_detections_unchanged = 0, sx_detections_rejected = 0,
      sx_plans_computed = 0, sx_plans_rejected = 0, sx_transitions_accepted = 0,
      sx_transitions_denied = 0, sx_apply_attempts = 0, sx_acknowledgements = 0,
      sx_verifications = 0, sx_duplicates_rejected = 0, sx_authority_rejections = 0,
      sx_durable_commits = 0, sx_snapshot_commits = 0\<rparr>"

definition empty_startup :: startup_report where
  "empty_startup =
     \<lparr>su_fresh = False, su_recovered = False, su_torn_tail = False, su_torn_tail_bytes = 0,
      su_replayed_records = 0, su_skipped_records = 0, su_fenced_attempts = 0,
      su_fenced_authorizations = 0, su_restored_plans = 0, su_restored_detections = 0, su_epoch = 0,
      su_boot = BootIdentity 0 0, su_topology = 0, su_policy = 0, su_last_sequence = 0,
      su_snapshot_sequence = 0, su_wal_segment = 0, su_explanation = no_explanation\<rparr>"

text \<open>A new \<open>RuntimeState\<close>: every member has its default value.\<close>

definition new_state :: "runtime_config \<Rightarrow> containment_policy \<Rightarrow> runtime_state" where
  "new_state config policy =
     \<lparr>rs_config = config, rs_store = None, rs_epoch = 0, rs_boot = BootIdentity 0 0, rs_sequence = 0,
      rs_evidence_revision = 0, rs_topology = None, rs_graph = None, rs_policy = policy,
      rs_evidence = empty_evidence, rs_confirmation = [], rs_conflict = False, rs_plan_counter = 0,
      rs_transition_counter = 0, rs_attempt_counter = 0, rs_boundary_counter = 0,
      rs_authorization_counter = 0, rs_boundary = None, rs_boundary_plan = 0,
      rs_boundary_plan_digest = zero_digest, rs_effect_state = EffNotRequested,
      rs_requires_reverification = False, rs_last_known_boot = None, rs_plans = [], rs_attempts = [],
      rs_transitions = [], rs_detections = [], rs_authorizations = [], rs_fenced_boots = [],
      rs_startup = empty_startup, rs_stats = empty_stats\<rparr>"

text \<open>\<open>++stats.x\<close>, on the counter's update function.\<close>

definition bump :: "((u64 \<Rightarrow> u64) \<Rightarrow> runtime_stats \<Rightarrow> runtime_stats) \<Rightarrow> runtime_state \<Rightarrow> runtime_state" where
  "bump counter s = s\<lparr>rs_stats := counter (\<lambda>n. n + 1) (rs_stats s)\<rparr>"

subsection \<open>Operations\<close>

type_synonym 'a rt = "runtime_state \<times> os \<Rightarrow> 'a result \<times> runtime_state \<times> os"

definition rt_bind :: "'a rt \<Rightarrow> ('a \<Rightarrow> 'b rt) \<Rightarrow> 'b rt" where
  "rt_bind m f w = (case m w of (Inl e, w1) \<Rightarrow> (Inl e, w1) | (Inr x, w1) \<Rightarrow> f x w1)"

definition commit :: "record_type \<Rightarrow> byte list \<Rightarrow> unit rt" where
  "commit type payload = (\<lambda>(s, sys).
     case rs_store s of
       None \<Rightarrow> (Inr (), s\<lparr>rs_sequence := rs_sequence s + 1\<rparr>, sys)
     | Some st \<Rightarrow>
         (case store_commit type payload (st, sys) of
            (Inl e, st1, sys1) \<Rightarrow> (Inl e, s\<lparr>rs_store := Some st1\<rparr>, sys1)
          | (Inr _, st1, sys1) \<Rightarrow>
              (Inr (), bump sx_durable_commits_update
                 (s\<lparr>rs_store := Some st1, rs_sequence := st_last_sequence st1\<rparr>), sys1)))"

definition current_authority :: "runtime_state \<Rightarrow> authority_vector" where
  "current_authority s =
     \<lparr>av_epoch = rs_epoch s, av_boot = rs_boot s, av_policy = cp_generation (rs_policy s),
      av_topology = (case rs_topology s of None \<Rightarrow> 0 | Some t \<Rightarrow> t_generation t),
      av_evidence_revision = rs_evidence_revision s, av_evidence_digest = ev_digest (rs_evidence s),
      av_issued_sequence = rs_sequence s\<rparr>"

definition ensure_topology :: "runtime_state \<Rightarrow> unit result" where
  "ensure_topology s =
     (if rs_topology s = None \<or> rs_graph s = None
      then err Unsupported ''no topology definition is loaded'' else Inr ())"

text \<open>The first entry that satisfies a test, and its replacement in place.\<close>

fun replace_first :: "('a \<Rightarrow> bool) \<Rightarrow> ('a \<Rightarrow> 'a) \<Rightarrow> 'a list \<Rightarrow> 'a list" where
  "replace_first P f [] = []"
| "replace_first P f (x # xs) = (if P x then f x # xs else x # replace_first P f xs)"

definition find_plan :: "runtime_state \<Rightarrow> plan_generation \<Rightarrow> containment_plan option" where
  "find_plan s generation = List.find (\<lambda>p. p_generation p = generation) (rs_plans s)"

definition find_attempt :: "runtime_state \<Rightarrow> attempt_id \<Rightarrow> apply_attempt option" where
  "find_attempt s i = List.find (\<lambda>a. at_id a = i) (rs_attempts s)"

definition find_authorization :: "runtime_state \<Rightarrow> authorization_id \<Rightarrow> active_authorization option" where
  "find_authorization s i = List.find (\<lambda>a. ar_id (aa_record a) = i) (rs_authorizations s)"

definition update_attempt :: "attempt_id \<Rightarrow> (apply_attempt \<Rightarrow> apply_attempt) \<Rightarrow> runtime_state \<Rightarrow> runtime_state" where
  "update_attempt i f s = s\<lparr>rs_attempts := replace_first (\<lambda>a. at_id a = i) f (rs_attempts s)\<rparr>"

definition fence_authorization :: "authorization_id \<Rightarrow> runtime_state \<Rightarrow> runtime_state" where
  "fence_authorization i s = s\<lparr>rs_authorizations :=
     replace_first (\<lambda>a. ar_id (aa_record a) = i) (\<lambda>a. a\<lparr>aa_fenced := True\<rparr>) (rs_authorizations s)\<rparr>"

text \<open>\<open>while (table.size() > bound) table.pop_front()\<close>.\<close>

function pop_to_bound :: "nat \<Rightarrow> 'a list \<Rightarrow> 'a list" where
  "pop_to_bound bound xs = (if length xs > bound then pop_to_bound bound (tl xs) else xs)"
  by pat_completeness auto

termination
  by (relation "measure (\<lambda>(_, xs). length xs)") auto

declare pop_to_bound.simps [simp del]

definition evict_bounded_tables :: "runtime_state \<Rightarrow> runtime_state" where
  "evict_bounded_tables s = s
     \<lparr>rs_plans := pop_to_bound (rc_max_plans (rs_config s)) (rs_plans s),
      rs_transitions := pop_to_bound (rc_max_transitions (rs_config s)) (rs_transitions s),
      rs_detections := pop_to_bound (rc_max_detections (rs_config s)) (rs_detections s),
      rs_attempts := pop_to_bound (rc_max_attempts (rs_config s)) (rs_attempts s),
      rs_fenced_boots := pop_to_bound kMaxFencedBoots (rs_fenced_boots s)\<rparr>"

text \<open>The attempt of the plan with the greatest sequence, the first of equals.\<close>

definition newer_attempt :: "plan_generation \<Rightarrow> apply_attempt option \<Rightarrow> apply_attempt \<Rightarrow> apply_attempt option" where
  "newer_attempt plan newest a =
     (if ai_plan (at_id a) \<noteq> plan then newest
      else case newest of None \<Rightarrow> Some a
        | Some n \<Rightarrow> if ai_sequence (at_id n) < ai_sequence (at_id a) then Some a else Some n)"

definition newest_attempt :: "plan_generation \<Rightarrow> apply_attempt list \<Rightarrow> apply_attempt option" where
  "newest_attempt plan = foldl (newer_attempt plan) None"

definition recompute_effect_state :: "runtime_state \<Rightarrow> runtime_state" where
  "recompute_effect_state s = s\<lparr>rs_effect_state :=
     (if rs_requires_reverification s then EffAmbiguous
      else if rs_boundary_plan s = 0 \<and> rs_boundary s = None then EffNotRequested
      else case newest_attempt (rs_boundary_plan s) (rs_attempts s) of
          None \<Rightarrow> EffNotRequested | Some a \<Rightarrow> at_state a)\<rparr>"

text \<open>The lifecycle rank: a replayed record never takes an attempt to a lower one.\<close>

fun effect_rank :: "effect_state \<Rightarrow> int" where
  "effect_rank EffNotRequested = 0"
| "effect_rank EffSubmitted = 1"
| "effect_rank EffAcknowledged = 2"
| "effect_rank EffAmbiguous = 3"
| "effect_rank EffFailed = 4"
| "effect_rank EffFenced = 5"
| "effect_rank EffSuperseded = 6"
| "effect_rank EffVerifiedApplied = 7"
| "effect_rank EffVerifiedReleased = 8"

text \<open>The check of a presented authorization; a refused one is fenced for good.\<close>

definition validate_authorization ::
  "authorization_id \<Rightarrow> bool \<Rightarrow> u64 \<Rightarrow> runtime_state \<Rightarrow> authorization_record result \<times> runtime_state" where
  "validate_authorization i require_apply now s =
     (if i = 0 then (err Unauthorized ''no authorization presented'', s)
      else case find_authorization s i of
        None \<Rightarrow> (err Unauthorized ''authorization is not active'', s)
      | Some entry \<Rightarrow>
          if aa_fenced entry then (err CodeFenced ''authorization was fenced by a later incarnation'', s)
          else let check = validate_authority (ar_authority (aa_record entry)) (current_authority s) in
            if \<not> authority_check_ok check
              then (err (authority_status_code check) (authority_reason check),
                    bump sx_authority_rejections_update (fence_authorization i s))
            else if now \<ge> ar_expires_at (aa_record entry)
              then (err StaleGeneration ''authorization lease expired'', fence_authorization i s)
            else if require_apply \<and> \<not> ar_allows_apply (aa_record entry)
              then (err Denied ''authorization does not permit apply submissions'', s)
            else (Inr (aa_record entry), s))"

subsection \<open>Facts\<close>

lemma bump_simps [simp]:
  "rs_config (bump c s) = rs_config s" "rs_store (bump c s) = rs_store s" "rs_epoch (bump c s) = rs_epoch s"
  "rs_boot (bump c s) = rs_boot s" "rs_sequence (bump c s) = rs_sequence s"
  "rs_evidence_revision (bump c s) = rs_evidence_revision s" "rs_topology (bump c s) = rs_topology s"
  "rs_graph (bump c s) = rs_graph s" "rs_policy (bump c s) = rs_policy s" "rs_evidence (bump c s) = rs_evidence s"
  "rs_confirmation (bump c s) = rs_confirmation s" "rs_conflict (bump c s) = rs_conflict s"
  "rs_plan_counter (bump c s) = rs_plan_counter s" "rs_transition_counter (bump c s) = rs_transition_counter s"
  "rs_attempt_counter (bump c s) = rs_attempt_counter s" "rs_boundary_counter (bump c s) = rs_boundary_counter s"
  "rs_authorization_counter (bump c s) = rs_authorization_counter s" "rs_boundary (bump c s) = rs_boundary s"
  "rs_boundary_plan (bump c s) = rs_boundary_plan s"
  "rs_boundary_plan_digest (bump c s) = rs_boundary_plan_digest s"
  "rs_effect_state (bump c s) = rs_effect_state s"
  "rs_requires_reverification (bump c s) = rs_requires_reverification s"
  "rs_last_known_boot (bump c s) = rs_last_known_boot s"
  "rs_plans (bump c s) = rs_plans s" "rs_attempts (bump c s) = rs_attempts s"
  "rs_transitions (bump c s) = rs_transitions s" "rs_detections (bump c s) = rs_detections s"
  "rs_authorizations (bump c s) = rs_authorizations s" "rs_fenced_boots (bump c s) = rs_fenced_boots s"
  "rs_startup (bump c s) = rs_startup s"
  by (simp_all add: bump_def)

lemma pop_to_bound_drop: "pop_to_bound bound xs = drop (length xs - bound) xs"
proof (induction bound xs rule: pop_to_bound.induct)
  case (1 bound xs)
  show ?case
  proof (cases "length xs > bound")
    case True
    then have "pop_to_bound bound xs = drop (length (tl xs) - bound) (tl xs)"
      using 1 by (subst pop_to_bound.simps) simp
    also have "\<dots> = drop (Suc (length (tl xs) - bound)) xs" by (simp add: drop_Suc)
    also have "Suc (length (tl xs) - bound) = length xs - bound" using True by simp
    finally show ?thesis .
  qed (simp add: pop_to_bound.simps)
qed

lemma length_pop_to_bound [simp]: "length (pop_to_bound bound xs) = min bound (length xs)"
  by (simp add: pop_to_bound_drop min_def)

lemma set_pop_to_bound: "set (pop_to_bound bound xs) \<subseteq> set xs"
  by (simp add: pop_to_bound_drop set_drop_subset)

lemma pop_to_bound_id [simp]: "length xs \<le> bound \<Longrightarrow> pop_to_bound bound xs = xs"
  by (simp add: pop_to_bound_drop)

lemma evict_simps [simp]:
  "rs_config (evict_bounded_tables s) = rs_config s" "rs_store (evict_bounded_tables s) = rs_store s"
  "rs_epoch (evict_bounded_tables s) = rs_epoch s" "rs_boot (evict_bounded_tables s) = rs_boot s"
  "rs_sequence (evict_bounded_tables s) = rs_sequence s"
  "rs_evidence_revision (evict_bounded_tables s) = rs_evidence_revision s"
  "rs_topology (evict_bounded_tables s) = rs_topology s" "rs_graph (evict_bounded_tables s) = rs_graph s"
  "rs_policy (evict_bounded_tables s) = rs_policy s" "rs_evidence (evict_bounded_tables s) = rs_evidence s"
  "rs_confirmation (evict_bounded_tables s) = rs_confirmation s"
  "rs_conflict (evict_bounded_tables s) = rs_conflict s"
  "rs_plan_counter (evict_bounded_tables s) = rs_plan_counter s"
  "rs_transition_counter (evict_bounded_tables s) = rs_transition_counter s"
  "rs_attempt_counter (evict_bounded_tables s) = rs_attempt_counter s"
  "rs_boundary_counter (evict_bounded_tables s) = rs_boundary_counter s"
  "rs_authorization_counter (evict_bounded_tables s) = rs_authorization_counter s"
  "rs_boundary (evict_bounded_tables s) = rs_boundary s"
  "rs_boundary_plan (evict_bounded_tables s) = rs_boundary_plan s"
  "rs_boundary_plan_digest (evict_bounded_tables s) = rs_boundary_plan_digest s"
  "rs_effect_state (evict_bounded_tables s) = rs_effect_state s"
  "rs_requires_reverification (evict_bounded_tables s) = rs_requires_reverification s"
  "rs_authorizations (evict_bounded_tables s) = rs_authorizations s"
  "rs_startup (evict_bounded_tables s) = rs_startup s" "rs_stats (evict_bounded_tables s) = rs_stats s"
  by (simp_all add: evict_bounded_tables_def)

lemma length_replace_first [simp]: "length (replace_first P f xs) = length xs"
  by (induction xs) simp_all

lemma set_replace_first: "y \<in> set (replace_first P f xs) \<Longrightarrow> y \<in> set xs \<or> (\<exists>x \<in> set xs. P x \<and> y = f x)"
  by (induction xs) (auto split: if_splits)

lemma find_replace_first: "List.find P xs = Some x \<Longrightarrow> P (f x) \<Longrightarrow> List.find P (replace_first P f xs) = Some (f x)"
  by (induction xs) (auto split: if_splits)

lemma find_Some_in: "List.find P xs = Some x \<Longrightarrow> x \<in> set xs \<and> P x"
  by (induction xs) (auto split: if_splits)

lemma newest_attempt_in:
  assumes "newest_attempt plan xs = Some a"
  shows "a \<in> set xs \<and> ai_plan (at_id a) = plan"
proof -
  have "foldl (newer_attempt plan) n xs = Some a \<Longrightarrow>
      n = Some a \<or> (a \<in> set xs \<and> ai_plan (at_id a) = plan)" for n
  proof (induction xs arbitrary: n)
    case (Cons x xs)
    from Cons.IH [of "newer_attempt plan n x"] Cons.prems show ?case
      by (auto simp: newer_attempt_def split: if_splits option.splits)
  qed simp
  from this [of None] show ?thesis using assms by (simp add: newest_attempt_def)
qed

text \<open>What a commit changes: the store, the sequence, the count of commits.\<close>

lemma commit_cases:
  assumes "commit t payload (s, sys) = (r, s', sys')"
  obtains (volatile) "rs_store s = None" "r = Inr ()" "s' = s\<lparr>rs_sequence := rs_sequence s + 1\<rparr>" "sys' = sys"
  | (refused) st st' e where "rs_store s = Some st" "store_commit t payload (st, sys) = (Inl e, st', sys')"
      "r = Inl e" "s' = s\<lparr>rs_store := Some st'\<rparr>"
  | (durable) st st' where "rs_store s = Some st" "store_commit t payload (st, sys) = (Inr (), st', sys')"
      "r = Inr ()" "s' = bump sx_durable_commits_update
        (s\<lparr>rs_store := Some st', rs_sequence := st_last_sequence st'\<rparr>)"
proof (cases "rs_store s")
  case None
  then show thesis using assms by (intro volatile) (simp_all add: commit_def)
next
  case (Some st)
  obtain r1 st1 sys1 where c: "store_commit t payload (st, sys) = (r1, st1, sys1)" by (metis prod_cases3)
  show thesis
  proof (cases r1)
    case (Inl e)
    then show thesis using assms Some c by (intro refused [of st e st1]) (simp_all add: commit_def)
  next
    case (Inr u)
    then show thesis using assms Some c by (intro durable [of st st1]) (simp_all add: commit_def)
  qed
qed

definition same_but_commit :: "runtime_state \<Rightarrow> runtime_state \<Rightarrow> bool" where
  "same_but_commit s s' \<longleftrightarrow>
     s' = s\<lparr>rs_store := rs_store s', rs_sequence := rs_sequence s', rs_stats := rs_stats s'\<rparr>"

lemma commit_same: "commit t payload (s, sys) = (r, s', sys') \<Longrightarrow> same_but_commit s s'"
  by (erule commit_cases) (simp_all add: same_but_commit_def bump_def)

text \<open>The sequence follows the store: \<open>sequence == store->last_sequence()\<close>.\<close>

definition sequence_follows_store :: "runtime_state \<Rightarrow> bool" where
  "sequence_follows_store s \<longleftrightarrow> (\<forall>st. rs_store s = Some st \<longrightarrow> rs_sequence s = st_last_sequence st)"

lemma store_commit_sequence:
  assumes "store_commit t payload (st, sys) = (r, st', sys')"
  shows "st_last_sequence st' = (if is_ok r then st_last_sequence st + 1 else st_last_sequence st)"
  using assms
  by (auto simp: store_commit_def Let_def io_bind_def on_os_def on_store_def split: if_splits sum.splits prod.splits)

lemma commit_sequence:
  assumes "commit t payload (s, sys) = (r, s', sys')" and "sequence_follows_store s"
  shows "sequence_follows_store s'" and "rs_sequence s' = (if is_ok r then rs_sequence s + 1 else rs_sequence s)"
  using assms store_commit_sequence
  by (auto elim!: commit_cases simp: sequence_follows_store_def)

end
