(* ===== verification/Runtime_Coordinator.thy ===== *)
theory Runtime_Coordinator
  imports Runtime_State
begin

section \<open>The coordinator\<close>

text \<open>
  The operations of \<open>ContainmentRuntime\<close> in \<open>src/runtime/coordinator.cpp\<close> between startup
  and the apply protocol: ingestion, authorization, planning, transitions, the checkpoint and
  the accessors. A change to memory follows the commit of its record, as in the code.
\<close>

subsection \<open>Accessors\<close>

definition rt_topology_generation :: "runtime_state \<Rightarrow> topology_generation result" where
  "rt_topology_generation s = (case rs_topology s of
     None \<Rightarrow> err Unsupported ''no topology definition is loaded'' | Some t \<Rightarrow> Inr (t_generation t))"

definition rt_topology :: "runtime_state \<Rightarrow> topology result" where
  "rt_topology s = (case rs_topology s of
     None \<Rightarrow> err Unsupported ''no topology definition is loaded'' | Some t \<Rightarrow> Inr t)"

definition plan_by_generation :: "plan_generation \<Rightarrow> runtime_state \<Rightarrow> containment_plan result" where
  "plan_by_generation generation s = (case find_plan s generation of
     None \<Rightarrow> err NotFound ''plan generation is not retained'' | Some p \<Rightarrow> Inr p)"

definition current_boundary :: "runtime_state \<Rightarrow> boundary result" where
  "current_boundary s = (case rs_boundary s of
     None \<Rightarrow> err NotFound ''no containment boundary is current'' | Some b \<Rightarrow> Inr b)"

definition transition_by_generation :: "transition_generation \<Rightarrow> runtime_state \<Rightarrow> transition_decision result" where
  "transition_by_generation generation s =
     (case List.find (\<lambda>d. td_generation d = generation) (rs_transitions s) of
        None \<Rightarrow> err NotFound ''transition generation is not retained'' | Some d \<Rightarrow> Inr d)"

subsection \<open>Ingestion\<close>

definition apply_topology :: "topology_spec \<Rightarrow> topology_generation rt" where
  "apply_topology spec = (\<lambda>(s, sys).
     case topology_build spec of
       Inl e \<Rightarrow> (Inl e, s, sys)
     | Inr t \<Rightarrow>
         if (case rs_topology s of None \<Rightarrow> False | Some old \<Rightarrow> \<not> t_generation old < t_generation t)
           then (err StaleGeneration ''topology generation did not advance'', s, sys)
         else rt_bind (commit TopologyDefinition (topology_encode t)) (\<lambda>_ (s, sys).
           (Inr (t_generation t), s\<lparr>rs_topology := Some t, rs_graph := Some (graph_build t)\<rparr>, sys)) (s, sys))"

definition apply_policy :: "containment_policy \<Rightarrow> policy_generation rt" where
  "apply_policy policy = (\<lambda>(s, sys).
     case validate_policy policy of
       Inl e \<Rightarrow> (Inl e, s, sys)
     | Inr _ \<Rightarrow>
         if \<not> cp_generation (rs_policy s) < cp_generation policy
           then (err StaleGeneration ''policy generation did not advance'', s, sys)
         else rt_bind (commit PolicyDefinition (policy_encode policy)) (\<lambda>_ (s, sys).
           (Inr (cp_generation policy), s\<lparr>rs_policy := policy\<rparr>, sys)) (s, sys))"

text \<open>\<open>map[key] = value\<close> on the entries of a \<open>std::map\<close> in key order.\<close>

fun map_assign :: "'k::linorder \<Rightarrow> 'v \<Rightarrow> ('k \<times> 'v) list \<Rightarrow> ('k \<times> 'v) list" where
  "map_assign k v [] = [(k, v)]"
| "map_assign k v ((a, b) # es) =
     (if k < a then (k, v) # (a, b) # es
      else if k = a then (k, v) # es else (a, b) # map_assign k v es)"

definition detection_of :: "failure_observation \<Rightarrow> runtime_state \<Rightarrow> detection_record" where
  "detection_of obs s =
     (let d = \<lparr>dr_resource = fo_resource obs, dr_state = fo_state obs, dr_generation = fo_generation obs,
            dr_source_digest = fo_digest obs, dr_epoch = rs_epoch s, dr_boot = rs_boot s,
            dr_sequence = rs_sequence s + 1, dr_record_digest = zero_digest\<rparr>
      in d\<lparr>dr_record_digest := detection_compute_digest d\<rparr>)"

definition confirm_evidence :: "resource_id \<Rightarrow> runtime_state \<Rightarrow> runtime_state" where
  "confirm_evidence i s = s\<lparr>rs_confirmation := map_assign i (boot_bid (rs_boot s)) (rs_confirmation s)\<rparr>"

definition record_detection :: "failure_observation \<Rightarrow> detection_record rt" where
  "record_detection obs = (\<lambda>(s, sys).
     if fo_generation obs = 0
       then (err InvalidArgument ''observation generation must be non-zero'', s, sys)
     else case evidence_merged (rs_evidence s) obs of
       Inl e \<Rightarrow>
         let s1 = (if scode e = Conflict then s\<lparr>rs_conflict := True\<rparr> else s)
         in (Inl e, bump sx_detections_rejected_update s1, sys)
     | Inr merged \<Rightarrow>
         let rec = detection_of obs s in
         if ev_digest merged \<noteq> ev_digest (rs_evidence s)
         then rt_bind (commit DetectionRecord (encode_detection rec)) (\<lambda>_ (s, sys).
           if rs_sequence s \<noteq> dr_sequence rec
             then (err CodeInternal ''durable sequence diverged from the published sequence'', s, sys)
           else let s1 = evict_bounded_tables (s\<lparr>rs_evidence := merged,
                  rs_evidence_revision := rs_evidence_revision s + 1,
                  rs_detections := rs_detections s @ [rec]\<rparr>);
                s2 = bump sx_detections_accepted_update (s1\<lparr>rs_conflict := False\<rparr>)
             in (Inr rec, confirm_evidence (fo_resource obs) s2, sys)) (s, sys)
         else (Inr rec, confirm_evidence (fo_resource obs) (bump sx_detections_unchanged_update s), sys))"

subsection \<open>Authorization\<close>

fun drop_expired :: "u64 \<Rightarrow> active_authorization list \<Rightarrow> active_authorization list" where
  "drop_expired now [] = []"
| "drop_expired now (a # as) =
     (if ar_expires_at (aa_record a) \<le> now then drop_expired now as else a # as)"

definition authorize :: "u64 \<Rightarrow> authorization_record rt" where
  "authorize now = (\<lambda>(s, sys).
     let s1 = s\<lparr>rs_authorizations := drop_expired now (rs_authorizations s)\<rparr> in
     if length (rs_authorizations s1) \<ge> rc_max_authorizations (rs_config s1)
       then (err Exhausted ''authorization table is full'', s1, sys)
     else let s2 = s1\<lparr>rs_authorization_counter := rs_authorization_counter s1 + 1\<rparr>;
              rec = \<lparr>ar_id = rs_authorization_counter s2, ar_authority = current_authority s2,
                ar_issued_sequence = rs_sequence s2, ar_issued_at = now,
                ar_expires_at = now + rc_lease_millis (rs_config s2), ar_allows_apply = True\<rparr>
       in (Inr rec, s2\<lparr>rs_authorizations := rs_authorizations s2 @
             [\<lparr>aa_record = rec, aa_fenced = False\<rparr>]\<rparr>, sys))"

subsection \<open>Planning\<close>

definition plan_inputs_of :: "runtime_state \<Rightarrow> plan_inputs" where
  "plan_inputs_of s =
     \<lparr>in_topology = rs_topology s, in_graph = rs_graph s, in_evidence = Some (rs_evidence s),
      in_policy = Some (rs_policy s),
      in_freshness = \<lparr>fv_confirmations = Some (rs_confirmation s), fv_current_boot = rs_boot s,
        fv_require_confirmation = rc_require_confirmation (rs_config s)\<rparr>,
      in_boundary_generation = rs_plan_counter s + 1\<rparr>"

text \<open>Contradictory evidence degrades the plan; it is sealed again.\<close>

definition degrade_conflicting :: "containment_plan \<Rightarrow> containment_plan" where
  "degrade_conflicting plan = seal (plan
     \<lparr>p_currency := CurrencyConflicting,
      p_claim := (if p_claim plan \<noteq> ClaimInvalid \<and> p_claim plan \<noteq> ClaimUnsupported
                  then ClaimIndeterminate else p_claim plan),
      p_explanation := add_reason RcEvidenceConflicting
        ''contradictory evidence was rejected for at least one resource'' (p_explanation plan)\<rparr>)"

definition publish_plan :: "containment_plan \<Rightarrow> plan_generation \<Rightarrow> containment_plan rt" where
  "publish_plan plan generation = (\<lambda>(s, sys).
     case commit PlanDecision (plan_encode plan) (s, sys) of
       (Inl e, s1, sys1) \<Rightarrow> (Inl e, bump sx_plans_rejected_update s1, sys1)
     | (Inr _, s1, sys1) \<Rightarrow>
         (Inr plan, bump sx_plans_computed_update (evict_bounded_tables
            (s1\<lparr>rs_plan_counter := generation, rs_plans := rs_plans s1 @ [plan]\<rparr>)), sys1))"

text \<open>\<open>None\<close> is a planner that does not return.\<close>

definition rt_plan :: "authorization_id \<Rightarrow> u64 \<Rightarrow> runtime_state \<times> os \<Rightarrow>
    (containment_plan result \<times> runtime_state \<times> os) option" where
  "rt_plan authorization now = (\<lambda>(s, sys).
     case validate_authorization authorization False now s of
       (Inl e, s1) \<Rightarrow> Some (Inl e, bump sx_plans_rejected_update s1, sys)
     | (Inr _, s1) \<Rightarrow>
         (case ensure_topology s1 of
            Inl e \<Rightarrow> Some (Inl e, bump sx_plans_rejected_update s1, sys)
          | Inr _ \<Rightarrow>
              let generation = rs_plan_counter s1 + 1 in
              (case compute_plan (plan_inputs_of s1) (current_authority s1) generation of
                 None \<Rightarrow> None
               | Some (Inl e) \<Rightarrow> Some (Inl e, bump sx_plans_rejected_update s1, sys)
               | Some (Inr c) \<Rightarrow>
                   let plan = (if rs_conflict s1 then degrade_conflicting (pl_plan c) else pl_plan c)
                   in Some (publish_plan plan generation (s1, sys)))))"

subsection \<open>Transitions\<close>

definition new_decision :: "transition_request \<Rightarrow> runtime_state \<Rightarrow> transition_decision" where
  "new_decision request s =
     \<lparr>td_generation = rs_transition_counter s, td_kind = tq_kind request, td_status = TrInvalid,
      td_code = InvalidArgument, td_from_generation = 0, td_to_generation = 0, td_to_released = False,
      td_from_digest = zero_digest, td_to_digest = zero_digest, td_plan_digest = tq_plan_digest request,
      td_required_effect = EffNotRequested, td_observed_effect = EffNotRequested,
      td_effect_verified = False, td_epoch = rs_epoch s, td_boot = rs_boot s, td_sequence = 0,
      td_explanation = no_explanation\<rparr>"

text \<open>The \<open>fail\<close> closure: a refusal is recorded and is an answer, not an error.\<close>

definition fail_transition :: "transition_decision \<Rightarrow> transition_status \<Rightarrow> status_code \<Rightarrow> reason_code \<Rightarrow>
    string \<Rightarrow> transition_decision rt" where
  "fail_transition d status code reason text = (\<lambda>(s, sys).
     let d1 = d\<lparr>td_status := status, td_code := code,
                td_explanation := add_reason reason text (td_explanation d), td_sequence := rs_sequence s\<rparr>
     in rt_bind (commit TransitionDecision (encode_transition d1)) (\<lambda>_ (s, sys).
          let d2 = d1\<lparr>td_sequence := rs_sequence s\<rparr>
          in (Inr d2, bump sx_transitions_denied_update
                (evict_bounded_tables (s\<lparr>rs_transitions := rs_transitions s @ [d2]\<rparr>)), sys)) (s, sys))"

text \<open>The relation of the plan's boundary to the current one that each kind of transition needs.\<close>

definition transition_kind_refused ::
  "transition_kind \<Rightarrow> containment_plan \<Rightarrow> boundary option \<Rightarrow>
   (transition_status \<times> status_code \<times> reason_code \<times> string) option" where
  "transition_kind_refused kind plan current =
     (case kind of
        Expand \<Rightarrow>
          (if (case current of None \<Rightarrow> False | Some b \<Rightarrow> \<not> is_superset_of (p_boundary plan) b)
           then Some (TrInvalid, InvalidArgument, RcTransitionExpandNotASuperset,
                      ''expansion must contain every current member'')
           else None)
      | Contract \<Rightarrow>
          (if (case current of None \<Rightarrow> True | Some b \<Rightarrow>
                \<not> is_subset_of (p_boundary plan) b \<or> same_members (p_boundary plan) b)
           then Some (TrInvalid, InvalidArgument, RcTransitionContractNotASubset,
                      ''contraction must be a proper subset of the current boundary'')
           else None)
      | Release \<Rightarrow>
          (if b_members (p_boundary plan) \<noteq> [] \<or> \<not> is_releasable plan
           then Some (TrDenied, Denied, RcTransitionDeniedActiveFailures,
                      ''release requires a proven containment plan with an empty boundary'')
           else None))"

definition accepted_decision :: "transition_decision \<Rightarrow> transition_kind \<Rightarrow> containment_plan \<Rightarrow> transition_decision" where
  "accepted_decision d kind plan =
     (let released = (kind = Release)
      in d\<lparr>td_status := TrAccepted, td_code := Ok, td_to_released := released,
           td_to_generation := (if released then 0 else b_generation (p_boundary plan)),
           td_to_digest := b_digest (p_boundary plan),
           td_required_effect := (if released then EffVerifiedReleased else EffVerifiedApplied),
           td_explanation := add_reason RcTransitionAccepted (transition_kind_to_string kind) (td_explanation d)\<rparr>)"

definition boundary_decision_of :: "containment_plan \<Rightarrow> bool \<Rightarrow> boundary_decision" where
  "boundary_decision_of plan released =
     \<lparr>bd_plan = p_generation plan, bd_plan_digest = p_digest plan, bd_released = released,
      bd_boundary_bytes = (if released then [] else boundary_encode (p_boundary plan))\<rparr>"

text \<open>Both records of an accepted transition are committed before memory changes.\<close>

definition accept_transition :: "transition_decision \<Rightarrow> containment_plan \<Rightarrow> transition_decision rt" where
  "accept_transition d plan =
     rt_bind (commit TransitionDecision (encode_transition d)) (\<lambda>_ (s, sys).
       let d1 = d\<lparr>td_sequence := rs_sequence s\<rparr>; released = td_to_released d
       in rt_bind (commit BoundaryDecision (encode_boundary_decision (boundary_decision_of plan released)))
            (\<lambda>_ (s, sys).
              let s1 = s\<lparr>rs_boundary := (if released then None else Some (p_boundary plan)),
                    rs_boundary_plan := p_generation plan, rs_boundary_plan_digest := p_digest plan,
                    rs_boundary_counter := (if released then rs_boundary_counter s
                                            else b_generation (p_boundary plan)),
                    rs_effect_state := EffNotRequested, rs_requires_reverification := False,
                    rs_transitions := rs_transitions s @ [d1]\<rparr>
              in (Inr d1, bump sx_transitions_accepted_update (evict_bounded_tables s1), sys)) (s, sys))"

text \<open>The checks after authorization and plan are found, in the order of the code.\<close>

definition decide_transition :: "transition_request \<Rightarrow> transition_decision \<Rightarrow> containment_plan \<Rightarrow>
    transition_decision rt" where
  "decide_transition request d0 plan = (\<lambda>(s, sys).
     let d = d0\<lparr>td_from_generation := (case rs_boundary s of None \<Rightarrow> 0 | Some b \<Rightarrow> b_generation b),
                td_from_digest := (case rs_boundary s of None \<Rightarrow> zero_digest | Some b \<Rightarrow> b_digest b),
                td_observed_effect := rs_effect_state s\<rparr>
     in if td_from_generation d \<noteq> tq_expected_boundary request
          then fail_transition d TrStale StaleGeneration RcTransitionStaleGeneration
                 ''current boundary generation does not match the request'' (s, sys)
        else if tq_expected_released request \<noteq> (rs_boundary s = None)
          then fail_transition d TrStale StaleGeneration RcTransitionStaleGeneration
                 ''current boundary presence does not match the request'' (s, sys)
        else if rs_boundary s \<noteq> None \<and> \<not> is_verified_effect (rs_effect_state s)
          then fail_transition (d\<lparr>td_required_effect := EffVerifiedApplied\<rparr>) TrIndeterminate CodeAmbiguous
                 RcTransitionDeniedUnverifiedEffect ''current boundary effect is not verified'' (s, sys)
        else let d1 = d\<lparr>td_effect_verified := True\<rparr> in
          case transition_kind_refused (tq_kind request) plan (rs_boundary s) of
            Some (status, code, reason, text) \<Rightarrow> fail_transition d1 status code reason text (s, sys)
          | None \<Rightarrow>
              if \<not> p_generation plan > rs_boundary_plan s \<and> rs_boundary_plan s \<noteq> 0
                then fail_transition d1 TrStale StaleGeneration RcTransitionSupersededByNewerPlan
                       ''a newer boundary decision is already in force'' (s, sys)
              else accept_transition (accepted_decision d1 (tq_kind request) plan) plan (s, sys))"

definition transition :: "transition_request \<Rightarrow> u64 \<Rightarrow> transition_decision rt" where
  "transition request now = (\<lambda>(s0, sys).
     let s = s0\<lparr>rs_transition_counter := rs_transition_counter s0 + 1\<rparr>;
         d = new_decision request s
     in case validate_authorization (tq_authorization request) False now s of
          (Inl e, s1) \<Rightarrow>
            fail_transition d TrStale (scode e)
              (if scode e = CodeFenced then RcAuthorityFenced else RcAuthorityStaleEpoch)
              (smessage e) (bump sx_authority_rejections_update s1, sys)
        | (Inr _, s1) \<Rightarrow>
            (case find_plan s1 (tq_plan request) of
               None \<Rightarrow> fail_transition d TrStale NotFound RcTransitionSupersededByNewerPlan
                         ''authorizing plan is not retained'' (s1, sys)
             | Some plan \<Rightarrow>
                 if p_digest plan \<noteq> tq_plan_digest request
                   then fail_transition d TrInvalid Conflict RcTransitionSupersededByNewerPlan
                          ''plan digest does not match the retained plan'' (s1, sys)
                 else decide_transition request d plan (s1, sys)))"

subsection \<open>Checkpoint\<close>

definition durable_state_of :: "runtime_state \<Rightarrow> durable_state" where
  "durable_state_of s =
     \<lparr>ds_epoch = rs_epoch s, ds_boot = rs_boot s, ds_sequence = rs_sequence s,
      ds_evidence_revision = rs_evidence_revision s, ds_plan_counter = rs_plan_counter s,
      ds_transition_counter = rs_transition_counter s, ds_attempt_counter = rs_attempt_counter s,
      ds_boundary_counter = rs_boundary_counter s, ds_authorization_counter = rs_authorization_counter s,
      ds_topology_bytes = (case rs_topology s of None \<Rightarrow> [] | Some t \<Rightarrow> topology_encode t),
      ds_policy_bytes = policy_encode (rs_policy s), ds_evidence_bytes = evidence_encode (rs_evidence s),
      ds_boundary_bytes = (case rs_boundary s of None \<Rightarrow> [] | Some b \<Rightarrow> boundary_encode b),
      ds_boundary_plan = rs_boundary_plan s, ds_boundary_plan_digest = rs_boundary_plan_digest s,
      ds_effect_state = enum_code effect_state_vals (rs_effect_state s),
      ds_plans = rs_plans s, ds_attempts = rs_attempts s, ds_transitions = rs_transitions s,
      ds_detections = rs_detections s, ds_fenced_boots = rs_fenced_boots s,
      ds_active_authorizations = of_nat (length (rs_authorizations s))\<rparr>"

definition checkpoint :: "unit rt" where
  "checkpoint = (\<lambda>(s, sys).
     case rs_store s of
       None \<Rightarrow> (err Unsupported ''runtime is not durable'', s, sys)
     | Some st \<Rightarrow>
         (case write_snapshot (encode_durable_state (durable_state_of s)) (st, sys) of
            (Inl e, st1, sys1) \<Rightarrow> (Inl e, s\<lparr>rs_store := Some st1\<rparr>, sys1)
          | (Inr _, st1, sys1) \<Rightarrow>
              (Inr (), bump sx_snapshot_commits_update
                 (s\<lparr>rs_store := Some st1, rs_sequence := st_last_sequence st1\<rparr>), sys1)))"

end
