(* ===== verification/Runtime_Executor.thy ===== *)
theory Runtime_Executor
  imports Runtime_Coordinator
begin

section \<open>The apply protocol\<close>

text \<open>
  \<open>src/runtime/executor.cpp\<close>: submitting a boundary to the enforcement plane, its
  acknowledgement and the verification of its effect. \<open>acknowledge\<close> and \<open>verify_effect\<close>
  change the retained attempt before they commit, so a failed commit leaves it changed.
\<close>

definition check_attempt_authority :: "runtime_state \<Rightarrow> coordinator_epoch \<Rightarrow> boot_identity \<Rightarrow> unit result" where
  "check_attempt_authority s expected_epoch expected_boot =
     (if expected_epoch \<noteq> rs_epoch s
        then err StaleGeneration ''completion carries a stale coordinator epoch''
      else if expected_boot \<noteq> rs_boot s
        then err CodeFenced ''completion belongs to another process incarnation''
      else Inr ())"

text \<open>The switch of \<open>submit_apply\<close> over the current effect.\<close>

fun effect_in_flight :: "effect_state \<Rightarrow> bool" where
  "effect_in_flight EffSubmitted = True"
| "effect_in_flight EffAcknowledged = True"
| "effect_in_flight EffVerifiedApplied = True"
| "effect_in_flight EffVerifiedReleased = True"
| "effect_in_flight EffFenced = True"
| "effect_in_flight EffSuperseded = True"
| "effect_in_flight EffNotRequested = False"
| "effect_in_flight EffFailed = False"
| "effect_in_flight EffAmbiguous = False"

definition new_attempt :: "containment_plan \<Rightarrow> u64 \<Rightarrow> runtime_state \<Rightarrow> apply_attempt" where
  "new_attempt plan now s =
     \<lparr>at_id = AttemptId (p_generation plan) (rs_attempt_counter s), at_plan_digest = p_digest plan,
      at_boundary_digest = b_digest (p_boundary plan),
      at_boundary_generation = b_generation (p_boundary plan), at_epoch = rs_epoch s,
      at_boot = rs_boot s, at_state = EffSubmitted, at_submitted_sequence = rs_sequence s + 1,
      at_applier_epoch = 0, at_applier_boot = BootIdentity 0 0, at_applier_sequence = 0,
      at_observed_digest = zero_digest, at_submitted_at = now, at_acknowledged_at = 0,
      at_verified_at = 0,
      at_explanation = add_reason RcApplySubmitted
        ''containment intent handed to the enforcement plane'' no_explanation\<rparr>"

text \<open>\<open>now\<close> is read by the authorization check, \<open>later\<close> when the attempt is created.\<close>

definition submit_apply :: "submit_request \<Rightarrow> u64 \<Rightarrow> u64 \<Rightarrow> apply_attempt rt" where
  "submit_apply request now later = (\<lambda>(s0, sys).
     case validate_authorization (sq_authorization request) True now s0 of
       (Inl e, s) \<Rightarrow> (Inl e, s, sys)
     | (Inr _, s) \<Rightarrow>
         (case find_plan s (sq_plan request) of
            None \<Rightarrow> (err NotFound ''authorizing plan is not retained'', s, sys)
          | Some plan \<Rightarrow>
              if p_digest plan \<noteq> sq_plan_digest request
                then (err Conflict ''plan digest does not match the retained plan'', s, sys)
              else (case rs_boundary s of
                 None \<Rightarrow> (err StaleGeneration ''no containment boundary is current'', s, sys)
               | Some b \<Rightarrow>
                   let same_decision = (rs_boundary_plan s = p_generation plan \<and>
                         b_generation b = b_generation (p_boundary plan));
                       reassertion = same_members (p_boundary plan) b
                   in if \<not> same_decision \<and> \<not> reassertion
                        then (err StaleGeneration ''plan is not the current boundary decision'', s, sys)
                      else if effect_in_flight (rs_effect_state s)
                        then (err AlreadyExists ''an effect attempt is already in flight or complete'', s, sys)
                      else let s1 = s\<lparr>rs_attempt_counter := rs_attempt_counter s + 1\<rparr>;
                               a = new_attempt plan later s1
                        in rt_bind (commit ApplyAttempt (encode_attempt a)) (\<lambda>_ (s, sys).
                             (Inr a, bump sx_apply_attempts_update (evict_bounded_tables
                                (s\<lparr>rs_attempts := rs_attempts s @ [a], rs_effect_state := EffSubmitted\<rparr>)), sys))
                             (s1, sys))))"

subsection \<open>Acknowledgement\<close>

definition mismatched_ack :: "apply_attempt \<Rightarrow> apply_attempt" where
  "mismatched_ack a = a\<lparr>at_state := EffAmbiguous,
     at_explanation := add_reason RcEffectDigestMismatch
       ''acknowledgement observed a different boundary than the intent'' (at_explanation a)\<rparr>"

definition acknowledged :: "apply_acknowledgement \<Rightarrow> u64 \<Rightarrow> apply_attempt \<Rightarrow> apply_attempt" where
  "acknowledged k now a =
     (let a1 = a\<lparr>at_applier_epoch := ak_applier_epoch k, at_applier_boot := ak_applier_boot k,
            at_applier_sequence := ak_applier_sequence k, at_observed_digest := ak_observed_digest k,
            at_acknowledged_at := now\<rparr>
      in if ak_accepted k
         then a1\<lparr>at_state := EffAcknowledged, at_explanation := add_reason RcApplyAcknowledged
                ''enforcement plane acknowledged the request; effect is not yet verified'' (at_explanation a1)\<rparr>
         else a1\<lparr>at_state := EffFailed, at_explanation := add_reason RcEffectNotApplied
                ''enforcement plane refused the request'' (at_explanation a1)\<rparr>)"

definition acknowledge :: "apply_acknowledgement \<Rightarrow> u64 \<Rightarrow> apply_attempt rt" where
  "acknowledge k now = (\<lambda>(s, sys).
     case find_attempt s (ak_id k) of
       None \<Rightarrow> (err NotFound ''apply attempt is not retained'', s, sys)
     | Some a \<Rightarrow>
         (case check_attempt_authority s (ak_expected_epoch k) (ak_expected_boot k) of
            Inl e \<Rightarrow> (Inl e, s, sys)
          | Inr _ \<Rightarrow>
              if attempt_terminal a
                then (err AlreadyExists ''attempt already reached a terminal state'',
                      bump sx_duplicates_rejected_update s, sys)
              else if \<not> ak_applier_sequence k > at_applier_sequence a
                then (err SequenceRegression ''applier sequence did not advance'', s, sys)
              else if ak_observed_digest k \<noteq> at_boundary_digest a
                then let a1 = mismatched_ack a
                  in rt_bind (commit ApplyAcknowledgement (encode_attempt a1)) (\<lambda>_ (s, sys).
                       (err Conflict ''acknowledgement boundary digest does not match the intent'', s, sys))
                       (update_attempt (ak_id k) (\<lambda>_. a1) s, sys)
              else let a1 = acknowledged k now a
                in rt_bind (commit ApplyAcknowledgement (encode_attempt a1)) (\<lambda>_ (s, sys).
                     (Inr a1, bump sx_acknowledgements_update (recompute_effect_state s), sys))
                     (update_attempt (ak_id k) (\<lambda>_. a1) s, sys)))"

subsection \<open>Verification\<close>

definition with_report :: "effect_verification \<Rightarrow> u64 \<Rightarrow> apply_attempt \<Rightarrow> apply_attempt" where
  "with_report v now a = a\<lparr>at_applier_epoch := vf_applier_epoch v, at_applier_boot := vf_applier_boot v,
     at_applier_sequence := vf_applier_sequence v, at_observed_digest := vf_observed_digest v,
     at_verified_at := now\<rparr>"

definition set_outcome :: "effect_state \<Rightarrow> reason_code \<Rightarrow> string \<Rightarrow> apply_attempt \<Rightarrow> apply_attempt" where
  "set_outcome v reason text a =
     a\<lparr>at_state := v, at_explanation := add_reason reason text (at_explanation a)\<rparr>"

text \<open>The attempt after the report, and the conflict a mismatching digest is answered with.\<close>

definition observed :: "effect_verification \<Rightarrow> u64 \<Rightarrow> apply_attempt \<Rightarrow> apply_attempt \<times> string option" where
  "observed v now a =
     (let a1 = with_report v now a; matches = (vf_observed_digest v = at_boundary_digest a)
      in case vf_observation v of
           ObsApplied \<Rightarrow>
             if \<not> matches
             then (set_outcome EffAmbiguous RcEffectDigestMismatch ''observed boundary differs from the intent'' a1,
                   Some ''observed boundary digest does not match the intent'')
             else (set_outcome EffVerifiedApplied RcEffectVerified
                     ''enforcement plane observed the intended boundary applied'' a1, None)
         | ObsReleased \<Rightarrow>
             if \<not> matches
             then (set_outcome EffAmbiguous RcEffectDigestMismatch ''observed release differs from the intent'' a1,
                   Some ''observed release digest does not match the intent'')
             else (set_outcome EffVerifiedReleased RcEffectVerified
                     ''enforcement plane observed the boundary released'' a1, None)
         | ObsNotApplied \<Rightarrow>
             (set_outcome EffFailed RcEffectNotApplied
                ''enforcement plane reports the boundary is not applied'' a1, None)
         | _ \<Rightarrow> (set_outcome EffAmbiguous RcEffectAmbiguous
                ''effect state is not provable from the report'' a1, None))"

text \<open>A verified attempt of a plan with the members of the boundary makes that plan current.\<close>

definition adopt_decision :: "apply_attempt \<Rightarrow> runtime_state \<Rightarrow> runtime_state" where
  "adopt_decision a s =
     (if \<not> is_verified_effect (at_state a) then s
      else let s1 = s\<lparr>rs_requires_reverification := False\<rparr>
        in case (find_plan s1 (ai_plan (at_id a)), rs_boundary s1) of
             (Some plan, Some b) \<Rightarrow>
               if same_members (p_boundary plan) b
               then s1\<lparr>rs_boundary := Some (p_boundary plan), rs_boundary_plan := p_generation plan,
                      rs_boundary_plan_digest := p_digest plan,
                      rs_boundary_counter := b_generation (p_boundary plan)\<rparr>
               else s1
           | _ \<Rightarrow> s1)"

definition verify_effect :: "effect_verification \<Rightarrow> u64 \<Rightarrow> apply_attempt rt" where
  "verify_effect v now = (\<lambda>(s, sys).
     case find_attempt s (vf_id v) of
       None \<Rightarrow> (err NotFound ''apply attempt is not retained'', s, sys)
     | Some a \<Rightarrow>
         (case check_attempt_authority s (vf_expected_epoch v) (vf_expected_boot v) of
            Inl e \<Rightarrow> (Inl e, s, sys)
          | Inr _ \<Rightarrow>
              if at_state a = EffVerifiedApplied \<or> at_state a = EffVerifiedReleased
                then (err AlreadyExists ''attempt already has a verified effect'',
                      bump sx_duplicates_rejected_update s, sys)
              else if at_state a = EffFenced \<or> at_state a = EffSuperseded
                then (err CodeFenced ''attempt was invalidated by a later decision'', s, sys)
              else if \<not> vf_applier_sequence v > at_applier_sequence a
                then (err SequenceRegression ''applier sequence did not advance'', s, sys)
              else let (a1, mismatch) = observed v now a
                in rt_bind (commit EffectVerification (encode_attempt a1)) (\<lambda>_ (s, sys).
                     case mismatch of
                       Some message \<Rightarrow> (err Conflict message, recompute_effect_state s, sys)
                     | None \<Rightarrow> (Inr a1, bump sx_verifications_update
                         (recompute_effect_state (adopt_decision a1 s)), sys))
                     (update_attempt (vf_id v) (\<lambda>_. a1) s, sys)))"

definition rt_attempt :: "plan_generation \<Rightarrow> attempt_sequence \<Rightarrow> runtime_state \<Rightarrow> apply_attempt result" where
  "rt_attempt plan seq s = (case find_attempt s (AttemptId plan seq) of
     None \<Rightarrow> err NotFound ''apply attempt is not retained'' | Some a \<Rightarrow> Inr a)"

end
