(* ===== verification/Runtime_Startup.thy ===== *)
theory Runtime_Startup
  imports Runtime_Executor
begin

section \<open>Startup and recovery\<close>

text \<open>
  \<open>apply_replayed_frame\<close> and \<open>ContainmentRuntime::open\<close> of \<open>src/runtime/coordinator.cpp\<close>.
  The boot identity drawn from the random device is an argument, the process id is the one of
  the operating system. A failed \<open>open\<close> destroys the state, which releases the store's lock.
\<close>

subsection \<open>Replay\<close>

definition retain_attempt :: "apply_attempt \<Rightarrow> runtime_state \<Rightarrow> runtime_state" where
  "retain_attempt a s =
     (case find_attempt s (at_id a) of
        None \<Rightarrow> s\<lparr>rs_attempts := rs_attempts s @ [a]\<rparr>
      | Some existing \<Rightarrow>
          if effect_rank (at_state existing) \<le> effect_rank (at_state a)
          then update_attempt (at_id a) (\<lambda>_. a) s else s)"

definition add_fenced :: "boot_id \<Rightarrow> boot_id list \<Rightarrow> boot_id list" where
  "add_fenced b bs = (if b \<in> set bs then bs else bs @ [b])"

definition replay_detection :: "detection_record \<Rightarrow> runtime_state \<Rightarrow> runtime_state" where
  "replay_detection d s =
     (let obs = \<lparr>fo_resource = dr_resource d, fo_state = dr_state d, fo_generation = dr_generation d,
            fo_digest = dr_source_digest d, fo_observed_at = 0\<rparr>;
          s1 = (case evidence_merged (rs_evidence s) obs of
                  Inl _ \<Rightarrow> s | Inr merged \<Rightarrow> s\<lparr>rs_evidence := merged\<rparr>)
      in s1\<lparr>rs_detections := rs_detections s1 @ [d],
            rs_startup := (rs_startup s1)\<lparr>su_restored_detections := su_restored_detections (rs_startup s1) + 1\<rparr>\<rparr>)"

definition replay_boundary :: "boundary_decision \<Rightarrow> runtime_state \<Rightarrow> runtime_state" where
  "replay_boundary b s =
     (let s1 = s\<lparr>rs_boundary_plan := bd_plan b, rs_boundary_plan_digest := bd_plan_digest b\<rparr>
      in if bd_released b then s1\<lparr>rs_boundary := None\<rparr>
         else case boundary_decode (bd_boundary_bytes b) of
           Inl _ \<Rightarrow> s1 | Inr boundary \<Rightarrow> s1\<lparr>rs_boundary := Some boundary\<rparr>)"

definition apply_replayed_frame :: "frame \<Rightarrow> runtime_state \<Rightarrow> runtime_state result" where
  "apply_replayed_frame f s =
     (case fr_type f of
        TopologyDefinition \<Rightarrow> try_result (topology_decode (fr_payload f)) (\<lambda>t. Inr
          (if (case rs_topology s of None \<Rightarrow> True | Some old \<Rightarrow> t_generation old < t_generation t)
           then s\<lparr>rs_topology := Some t\<rparr> else s))
      | PolicyDefinition \<Rightarrow> try_result (policy_decode (fr_payload f)) (\<lambda>p. Inr
          (if cp_generation (rs_policy s) < cp_generation p then s\<lparr>rs_policy := p\<rparr> else s))
      | DetectionRecord \<Rightarrow> try_result (decode_detection (fr_payload f)) (\<lambda>d. Inr (replay_detection d s))
      | EvidenceReconfirmed \<Rightarrow> try_result (decode_detection (fr_payload f)) (\<lambda>d. Inr (replay_detection d s))
      | PlanDecision \<Rightarrow> try_result (plan_decode (fr_payload f)) (\<lambda>p. Inr
          (s\<lparr>rs_plans := rs_plans s @ [p],
             rs_startup := (rs_startup s)\<lparr>su_restored_plans := su_restored_plans (rs_startup s) + 1\<rparr>\<rparr>))
      | BoundaryDecision \<Rightarrow> try_result (decode_boundary_decision (fr_payload f)) (\<lambda>b. Inr (replay_boundary b s))
      | TransitionDecision \<Rightarrow> try_result (decode_transition (fr_payload f)) (\<lambda>d. Inr
          (s\<lparr>rs_transition_counter := (if rs_transition_counter s < td_generation d then td_generation d
               else rs_transition_counter s),
             rs_transitions := rs_transitions s @ [d]\<rparr>))
      | ApplyAttempt \<Rightarrow> try_result (decode_attempt (fr_payload f)) (\<lambda>a. Inr (retain_attempt a s))
      | ApplyAcknowledgement \<Rightarrow> try_result (decode_attempt (fr_payload f)) (\<lambda>a. Inr (retain_attempt a s))
      | EffectVerification \<Rightarrow> try_result (decode_attempt (fr_payload f)) (\<lambda>a. Inr (retain_attempt a s))
      | EpochAdvance \<Rightarrow> try_result (decode_epoch_advance (fr_payload f)) (\<lambda>(epoch, boot). Inr
          (if rs_epoch s < epoch then s\<lparr>rs_epoch := epoch, rs_last_known_boot := Some boot\<rparr> else s))
      | Fence \<Rightarrow> try_result (decode_fence (fr_payload f)) (\<lambda>boots. Inr
          (s\<lparr>rs_fenced_boots := foldl (\<lambda>bs b. add_fenced b bs) (rs_fenced_boots s) boots\<rparr>))
      | _ \<Rightarrow> Inr s)"

fun replay_frames :: "frame list \<Rightarrow> runtime_state \<Rightarrow> runtime_state result" where
  "replay_frames [] s = Inr s"
| "replay_frames (f # fs) s = try_result (apply_replayed_frame f s) (replay_frames fs)"

subsection \<open>Opening\<close>

text \<open>An embedded document of the snapshot, absent when empty.\<close>

definition embedded :: "(byte list \<Rightarrow> 'a result) \<Rightarrow> byte list \<Rightarrow> 'a option result" where
  "embedded dec bytes = (if bytes = [] then Inr None else try_result (dec bytes) (\<lambda>x. Inr (Some x)))"

definition restore_counters :: "durable_state \<Rightarrow> runtime_state \<Rightarrow> runtime_state" where
  "restore_counters d s = s\<lparr>rs_epoch := ds_epoch d,
     rs_sequence := (if ds_sequence d > rs_sequence s then ds_sequence d else rs_sequence s),
     rs_evidence_revision := ds_evidence_revision d, rs_plan_counter := ds_plan_counter d,
     rs_transition_counter := ds_transition_counter d, rs_attempt_counter := ds_attempt_counter d,
     rs_boundary_counter := ds_boundary_counter d, rs_authorization_counter := ds_authorization_counter d,
     rs_boundary_plan := ds_boundary_plan d, rs_boundary_plan_digest := ds_boundary_plan_digest d,
     rs_effect_state := effect_state_vals ! unat (ds_effect_state d)\<rparr>"

definition restore_tables :: "durable_state \<Rightarrow> runtime_state \<Rightarrow> runtime_state" where
  "restore_tables d s = s\<lparr>rs_plans := ds_plans d, rs_attempts := ds_attempts d,
     rs_transitions := ds_transitions d, rs_detections := ds_detections d,
     rs_fenced_boots := ds_fenced_boots d,
     rs_startup := (rs_startup s)\<lparr>su_restored_detections := length (ds_detections d),
       su_restored_plans := length (ds_plans d),
       su_fenced_authorizations := unat (ds_active_authorizations d)\<rparr>\<rparr>"

definition restore_snapshot :: "durable_state \<Rightarrow> runtime_state \<Rightarrow> runtime_state result" where
  "restore_snapshot d s =
     (let s1 = restore_tables d (restore_counters d s)
      in try_result (embedded topology_decode (ds_topology_bytes d)) (\<lambda>topology.
         try_result (embedded policy_decode (ds_policy_bytes d)) (\<lambda>policy.
         try_result (embedded evidence_decode (ds_evidence_bytes d)) (\<lambda>evidence.
         try_result (embedded boundary_decode (ds_boundary_bytes d)) (\<lambda>boundary. Inr (s1
           \<lparr>rs_topology := (case topology of None \<Rightarrow> rs_topology s1 | Some t \<Rightarrow> Some t),
            rs_policy := (case policy of None \<Rightarrow> rs_policy s1
              | Some p \<Rightarrow> if cp_generation (rs_policy s1) < cp_generation p then p else rs_policy s1),
            rs_evidence := (case evidence of None \<Rightarrow> rs_evidence s1 | Some v \<Rightarrow> v),
            rs_boundary := (case boundary of None \<Rightarrow> rs_boundary s1 | Some b \<Rightarrow> Some b)\<rparr>))))))"

definition startup_of :: "recovery_report \<Rightarrow> startup_report" where
  "startup_of report = empty_startup
     \<lparr>su_fresh := rr_fresh report, su_recovered := \<not> rr_fresh report,
      su_torn_tail := rr_torn_tail report, su_torn_tail_bytes := rr_torn_tail_bytes report,
      su_replayed_records := rr_replayed_records report, su_skipped_records := rr_skipped_records report,
      su_snapshot_sequence := rr_snapshot_sequence report, su_wal_segment := rr_wal_segment report,
      su_explanation := (if rr_torn_tail report then add_reason RcTornTailRecovered
          ''a partial record at the end of the log was discarded'' no_explanation
        else no_explanation)\<rparr>"

definition restore_store :: "durable_store \<Rightarrow> runtime_state \<Rightarrow> runtime_state result" where
  "restore_store st s =
     (let report = st_recovery st;
          s1 = s\<lparr>rs_store := Some st, rs_startup := startup_of report,
                rs_sequence := rr_last_sequence report\<rparr>
      in try_result
           (if rr_snapshot_payload report = [] then Inr s1
            else try_result (decode_durable_state (rr_snapshot_payload report))
                   (\<lambda>d. restore_snapshot d s1))
           (replay_frames (st_replayed st)))"

definition store_options_of :: "runtime_config \<Rightarrow> store_options" where
  "store_options_of config =
     \<lparr>so_root = rc_store_root config, so_retained_snapshots = kMaxRetainedSnapshots,
      so_durable_commit = rc_durable_commit config, so_allow_torn_tail = rc_allow_torn_tail config\<rparr>"

definition explain_startup :: "reason_code \<Rightarrow> string \<Rightarrow> runtime_state \<Rightarrow> runtime_state" where
  "explain_startup code text s = s\<lparr>rs_startup := (rs_startup s)
     \<lparr>su_explanation := add_reason code text (su_explanation (rs_startup s))\<rparr>\<rparr>"

text \<open>A new incarnation: no authorization, the next epoch, a fresh boot, the old boot fenced.\<close>

definition begin_incarnation :: "boot_identity \<Rightarrow> runtime_state \<Rightarrow> runtime_state" where
  "begin_incarnation boot s =
     (let s1 = s\<lparr>rs_authorizations := [], rs_epoch := rs_epoch s + 1, rs_boot := boot,
            rs_fenced_boots := (case rs_last_known_boot s of
              None \<Rightarrow> rs_fenced_boots s
            | Some old \<Rightarrow> if boot_bid old \<noteq> boot_bid boot then add_fenced (boot_bid old) (rs_fenced_boots s)
                          else rs_fenced_boots s)\<rparr>
      in if su_recovered (rs_startup s1)
         then explain_startup RcEvidenceFreshnessNotRestored
                ''evidence freshness is not restored; reconfirmation is required''
                (explain_startup RcRestartEpochAdvanced
                  ''coordinator epoch advanced for this incarnation'' s1)
         else s1)"

definition fenced_by_restart :: "apply_attempt \<Rightarrow> apply_attempt" where
  "fenced_by_restart a =
     (if attempt_terminal a then a
      else a\<lparr>at_state := EffFenced, at_explanation := add_reason RcAttemptFencedByRestart
             ''attempt was in flight when the previous incarnation stopped'' no_explanation\<rparr>)"

definition fence_attempts :: "runtime_state \<Rightarrow> runtime_state" where
  "fence_attempts s = s\<lparr>rs_attempts := map fenced_by_restart (rs_attempts s),
     rs_startup := (rs_startup s)\<lparr>su_fenced_attempts := su_fenced_attempts (rs_startup s)
       + length (filter (\<lambda>a. \<not> attempt_terminal a) (rs_attempts s))\<rparr>\<rparr>"

text \<open>An effect of the previous incarnation is never current.\<close>

definition demote_effect :: "runtime_state \<Rightarrow> runtime_state" where
  "demote_effect s =
     explain_startup RcPreRestartLeasesFenced ''pre-restart authorizations are not restored''
       (if rs_effect_state s \<in> {EffVerifiedApplied, EffVerifiedReleased, EffSubmitted, EffAcknowledged}
        then explain_startup RcPreRestartAttemptsFenced ''pre-restart effect state requires fresh verification''
               (s\<lparr>rs_effect_state := EffAmbiguous, rs_requires_reverification := True\<rparr>)
        else s)"

definition restart_runtime :: "boot_identity \<Rightarrow> runtime_state \<Rightarrow> runtime_state" where
  "restart_runtime boot s = demote_effect (fence_attempts (recompute_effect_state (begin_incarnation boot s)))"

definition install_topology :: "unit rt" where
  "install_topology = (\<lambda>(s, sys).
     let config = rs_config s;
         s1 = (case rs_topology s of None \<Rightarrow> s | Some t \<Rightarrow> s\<lparr>rs_graph := Some (graph_build t)\<rparr>)
     in if ts_nodes (rc_topology config) \<noteq> [] \<and> rs_topology s1 = None
        then case topology_build (rc_topology config) of
            Inl e \<Rightarrow> (Inl e, s1, sys)
          | Inr t \<Rightarrow>
              let s2 = s1\<lparr>rs_topology := Some t, rs_graph := Some (graph_build t)\<rparr>
              in if rs_store s2 = None then (Inr (), s2, sys)
                 else commit TopologyDefinition (topology_encode t) (s2, sys)
        else (Inr (), s1, sys))"

definition publish_incarnation :: "unit rt" where
  "publish_incarnation = (\<lambda>(s, sys).
     if rs_store s = None then (Inr (), s, sys)
     else let s1 = (if cp_generation (rs_policy s) = 0 then s\<lparr>rs_policy := default_policy\<rparr> else s)
       in rt_bind (commit PolicyDefinition (policy_encode (rs_policy s1))) (\<lambda>_ w.
          rt_bind (commit EpochAdvance (encode_epoch_advance (rs_epoch (fst w), rs_boot (fst w)))) (\<lambda>_ w.
          commit Fence (encode_fence (rs_fenced_boots (fst w))) w) w) (s1, sys))"

definition finish_startup :: "runtime_state \<Rightarrow> runtime_state" where
  "finish_startup s = evict_bounded_tables (s\<lparr>rs_startup := (rs_startup s)
     \<lparr>su_epoch := rs_epoch s, su_boot := rs_boot s,
      su_topology := (case rs_topology s of None \<Rightarrow> 0 | Some t \<Rightarrow> t_generation t),
      su_policy := cp_generation (rs_policy s), su_last_sequence := rs_sequence s\<rparr>\<rparr>)"

definition check_config :: "runtime_config \<Rightarrow> bool \<Rightarrow> unit result" where
  "check_config config clock =
     (if \<not> clock then err InvalidArgument ''runtime requires a clock''
      else if rc_persist config \<and> rc_store_root config = []
        then err InvalidArgument ''durable runtime requires a store root''
      else if rc_max_plans config = 0 \<or> rc_max_plans config > kMaxRetainedPlans
        then err InvalidArgument ''plan retention bound out of range''
      else if rc_max_attempts config = 0 \<or> rc_max_attempts config > kMaxRetainedAttempts
        then err InvalidArgument ''attempt retention bound out of range''
      else if rc_max_authorizations config = 0 \<or> rc_max_authorizations config > kMaxSessions
        then err InvalidArgument ''authorization bound out of range''
      else Inr ())"

definition initial_runtime :: "runtime_config \<Rightarrow> runtime_state" where
  "initial_runtime config = new_state config
     (if cp_generation (rc_policy config) = 0 then default_policy else rc_policy config)"

text \<open>The store, when there is one, and what it recovered.\<close>

definition recover_state :: "runtime_config \<Rightarrow> os \<Rightarrow> runtime_state result \<times> os" where
  "recover_state config sys =
     (let s = initial_runtime config in
      if \<not> rc_persist config then (Inr (s\<lparr>rs_startup := (rs_startup s)\<lparr>su_fresh := True\<rparr>\<rparr>), sys)
      else case store_open (store_options_of config) sys of
          (Inl e, sys1) \<Rightarrow> (Inl e, sys1)
        | (Inr st, sys1) \<Rightarrow>
            (case restore_store st s of
               Inl e \<Rightarrow> (Inl e, snd (release_lock (st, sys1)))
             | Inr s1 \<Rightarrow> (Inr s1, sys1)))"

text \<open>The destructor of the state: the store, if any, releases its lock.\<close>

definition close_runtime :: "runtime_state \<times> os \<Rightarrow> os" where
  "close_runtime = (\<lambda>(s, sys). case rs_store s of None \<Rightarrow> sys | Some st \<Rightarrow> snd (release_lock (st, sys)))"

definition runtime_open :: "runtime_config \<Rightarrow> bool \<Rightarrow> boot_id \<Rightarrow> os \<Rightarrow> runtime_state result \<times> os" where
  "runtime_open config clock boot sys =
     (case check_config config clock of
        Inl e \<Rightarrow> (Inl e, sys)
      | Inr _ \<Rightarrow>
          (case recover_state config sys of
             (Inl e, sys1) \<Rightarrow> (Inl e, sys1)
           | (Inr s, sys1) \<Rightarrow>
               (case rt_bind install_topology (\<lambda>_. publish_incarnation)
                       (restart_runtime (BootIdentity boot (ucast (os_pid sys1))) s, sys1) of
                  (Inl e, w) \<Rightarrow> (Inl e, close_runtime w)
                | (Inr _, s2, sys2) \<Rightarrow> (Inr (finish_startup s2), sys2))))"

subsection \<open>What the steps of startup leave as it was\<close>

lemma explain_startup_frame [simp]:
  "rs_config (explain_startup c t s) = rs_config s" "rs_store (explain_startup c t s) = rs_store s"
  "rs_epoch (explain_startup c t s) = rs_epoch s" "rs_boot (explain_startup c t s) = rs_boot s"
  "rs_sequence (explain_startup c t s) = rs_sequence s"
  "rs_evidence_revision (explain_startup c t s) = rs_evidence_revision s"
  "rs_topology (explain_startup c t s) = rs_topology s" "rs_graph (explain_startup c t s) = rs_graph s"
  "rs_policy (explain_startup c t s) = rs_policy s" "rs_evidence (explain_startup c t s) = rs_evidence s"
  "rs_confirmation (explain_startup c t s) = rs_confirmation s"
  "rs_conflict (explain_startup c t s) = rs_conflict s"
  "rs_plan_counter (explain_startup c t s) = rs_plan_counter s"
  "rs_transition_counter (explain_startup c t s) = rs_transition_counter s"
  "rs_attempt_counter (explain_startup c t s) = rs_attempt_counter s"
  "rs_boundary_counter (explain_startup c t s) = rs_boundary_counter s"
  "rs_authorization_counter (explain_startup c t s) = rs_authorization_counter s"
  "rs_boundary (explain_startup c t s) = rs_boundary s"
  "rs_boundary_plan (explain_startup c t s) = rs_boundary_plan s"
  "rs_boundary_plan_digest (explain_startup c t s) = rs_boundary_plan_digest s"
  "rs_effect_state (explain_startup c t s) = rs_effect_state s"
  "rs_requires_reverification (explain_startup c t s) = rs_requires_reverification s"
  "rs_last_known_boot (explain_startup c t s) = rs_last_known_boot s"
  "rs_plans (explain_startup c t s) = rs_plans s" "rs_attempts (explain_startup c t s) = rs_attempts s"
  "rs_transitions (explain_startup c t s) = rs_transitions s"
  "rs_detections (explain_startup c t s) = rs_detections s"
  "rs_authorizations (explain_startup c t s) = rs_authorizations s"
  "rs_fenced_boots (explain_startup c t s) = rs_fenced_boots s"
  "rs_stats (explain_startup c t s) = rs_stats s"
  by (simp_all add: explain_startup_def)

lemma begin_incarnation_frame [simp]:
  "rs_config (begin_incarnation b s) = rs_config s" "rs_store (begin_incarnation b s) = rs_store s"
  "rs_sequence (begin_incarnation b s) = rs_sequence s"
  "rs_evidence_revision (begin_incarnation b s) = rs_evidence_revision s"
  "rs_topology (begin_incarnation b s) = rs_topology s" "rs_graph (begin_incarnation b s) = rs_graph s"
  "rs_policy (begin_incarnation b s) = rs_policy s" "rs_evidence (begin_incarnation b s) = rs_evidence s"
  "rs_confirmation (begin_incarnation b s) = rs_confirmation s"
  "rs_conflict (begin_incarnation b s) = rs_conflict s"
  "rs_plan_counter (begin_incarnation b s) = rs_plan_counter s"
  "rs_transition_counter (begin_incarnation b s) = rs_transition_counter s"
  "rs_attempt_counter (begin_incarnation b s) = rs_attempt_counter s"
  "rs_boundary_counter (begin_incarnation b s) = rs_boundary_counter s"
  "rs_authorization_counter (begin_incarnation b s) = rs_authorization_counter s"
  "rs_boundary (begin_incarnation b s) = rs_boundary s"
  "rs_boundary_plan (begin_incarnation b s) = rs_boundary_plan s"
  "rs_boundary_plan_digest (begin_incarnation b s) = rs_boundary_plan_digest s"
  "rs_effect_state (begin_incarnation b s) = rs_effect_state s"
  "rs_requires_reverification (begin_incarnation b s) = rs_requires_reverification s"
  "rs_last_known_boot (begin_incarnation b s) = rs_last_known_boot s"
  "rs_plans (begin_incarnation b s) = rs_plans s" "rs_attempts (begin_incarnation b s) = rs_attempts s"
  "rs_transitions (begin_incarnation b s) = rs_transitions s"
  "rs_detections (begin_incarnation b s) = rs_detections s" "rs_stats (begin_incarnation b s) = rs_stats s"
  by (simp_all add: begin_incarnation_def Let_def)

lemma begin_incarnation_fields [simp]:
  "rs_authorizations (begin_incarnation b s) = []" "rs_epoch (begin_incarnation b s) = rs_epoch s + 1"
  "rs_boot (begin_incarnation b s) = b"
  by (simp_all add: begin_incarnation_def Let_def)

lemma fence_attempts_frame [simp]:
  "rs_config (fence_attempts s) = rs_config s" "rs_store (fence_attempts s) = rs_store s"
  "rs_epoch (fence_attempts s) = rs_epoch s" "rs_boot (fence_attempts s) = rs_boot s"
  "rs_sequence (fence_attempts s) = rs_sequence s"
  "rs_evidence_revision (fence_attempts s) = rs_evidence_revision s"
  "rs_topology (fence_attempts s) = rs_topology s" "rs_graph (fence_attempts s) = rs_graph s"
  "rs_policy (fence_attempts s) = rs_policy s" "rs_evidence (fence_attempts s) = rs_evidence s"
  "rs_confirmation (fence_attempts s) = rs_confirmation s" "rs_conflict (fence_attempts s) = rs_conflict s"
  "rs_plan_counter (fence_attempts s) = rs_plan_counter s"
  "rs_transition_counter (fence_attempts s) = rs_transition_counter s"
  "rs_attempt_counter (fence_attempts s) = rs_attempt_counter s"
  "rs_boundary_counter (fence_attempts s) = rs_boundary_counter s"
  "rs_authorization_counter (fence_attempts s) = rs_authorization_counter s"
  "rs_boundary (fence_attempts s) = rs_boundary s"
  "rs_boundary_plan (fence_attempts s) = rs_boundary_plan s"
  "rs_boundary_plan_digest (fence_attempts s) = rs_boundary_plan_digest s"
  "rs_effect_state (fence_attempts s) = rs_effect_state s"
  "rs_requires_reverification (fence_attempts s) = rs_requires_reverification s"
  "rs_last_known_boot (fence_attempts s) = rs_last_known_boot s" "rs_plans (fence_attempts s) = rs_plans s"
  "rs_transitions (fence_attempts s) = rs_transitions s"
  "rs_detections (fence_attempts s) = rs_detections s"
  "rs_authorizations (fence_attempts s) = rs_authorizations s"
  "rs_fenced_boots (fence_attempts s) = rs_fenced_boots s" "rs_stats (fence_attempts s) = rs_stats s"
  by (simp_all add: fence_attempts_def)

lemma recompute_frame [simp]:
  "rs_config (recompute_effect_state s) = rs_config s" "rs_store (recompute_effect_state s) = rs_store s"
  "rs_epoch (recompute_effect_state s) = rs_epoch s" "rs_boot (recompute_effect_state s) = rs_boot s"
  "rs_sequence (recompute_effect_state s) = rs_sequence s"
  "rs_evidence_revision (recompute_effect_state s) = rs_evidence_revision s"
  "rs_topology (recompute_effect_state s) = rs_topology s"
  "rs_graph (recompute_effect_state s) = rs_graph s" "rs_policy (recompute_effect_state s) = rs_policy s"
  "rs_evidence (recompute_effect_state s) = rs_evidence s"
  "rs_confirmation (recompute_effect_state s) = rs_confirmation s"
  "rs_conflict (recompute_effect_state s) = rs_conflict s"
  "rs_plan_counter (recompute_effect_state s) = rs_plan_counter s"
  "rs_transition_counter (recompute_effect_state s) = rs_transition_counter s"
  "rs_attempt_counter (recompute_effect_state s) = rs_attempt_counter s"
  "rs_boundary_counter (recompute_effect_state s) = rs_boundary_counter s"
  "rs_authorization_counter (recompute_effect_state s) = rs_authorization_counter s"
  "rs_boundary (recompute_effect_state s) = rs_boundary s"
  "rs_boundary_plan (recompute_effect_state s) = rs_boundary_plan s"
  "rs_boundary_plan_digest (recompute_effect_state s) = rs_boundary_plan_digest s"
  "rs_requires_reverification (recompute_effect_state s) = rs_requires_reverification s"
  "rs_last_known_boot (recompute_effect_state s) = rs_last_known_boot s"
  "rs_plans (recompute_effect_state s) = rs_plans s"
  "rs_attempts (recompute_effect_state s) = rs_attempts s"
  "rs_transitions (recompute_effect_state s) = rs_transitions s"
  "rs_detections (recompute_effect_state s) = rs_detections s"
  "rs_authorizations (recompute_effect_state s) = rs_authorizations s"
  "rs_fenced_boots (recompute_effect_state s) = rs_fenced_boots s"
  "rs_startup (recompute_effect_state s) = rs_startup s" "rs_stats (recompute_effect_state s) = rs_stats s"
  by (simp_all add: recompute_effect_state_def)

lemma demote_effect_frame [simp]:
  "rs_config (demote_effect s) = rs_config s" "rs_store (demote_effect s) = rs_store s"
  "rs_epoch (demote_effect s) = rs_epoch s" "rs_boot (demote_effect s) = rs_boot s"
  "rs_sequence (demote_effect s) = rs_sequence s"
  "rs_evidence_revision (demote_effect s) = rs_evidence_revision s"
  "rs_topology (demote_effect s) = rs_topology s" "rs_graph (demote_effect s) = rs_graph s"
  "rs_policy (demote_effect s) = rs_policy s" "rs_evidence (demote_effect s) = rs_evidence s"
  "rs_confirmation (demote_effect s) = rs_confirmation s" "rs_conflict (demote_effect s) = rs_conflict s"
  "rs_plan_counter (demote_effect s) = rs_plan_counter s"
  "rs_transition_counter (demote_effect s) = rs_transition_counter s"
  "rs_attempt_counter (demote_effect s) = rs_attempt_counter s"
  "rs_boundary_counter (demote_effect s) = rs_boundary_counter s"
  "rs_authorization_counter (demote_effect s) = rs_authorization_counter s"
  "rs_boundary (demote_effect s) = rs_boundary s" "rs_boundary_plan (demote_effect s) = rs_boundary_plan s"
  "rs_boundary_plan_digest (demote_effect s) = rs_boundary_plan_digest s"
  "rs_last_known_boot (demote_effect s) = rs_last_known_boot s" "rs_plans (demote_effect s) = rs_plans s"
  "rs_attempts (demote_effect s) = rs_attempts s" "rs_transitions (demote_effect s) = rs_transitions s"
  "rs_detections (demote_effect s) = rs_detections s"
  "rs_authorizations (demote_effect s) = rs_authorizations s"
  "rs_fenced_boots (demote_effect s) = rs_fenced_boots s" "rs_stats (demote_effect s) = rs_stats s"
  by (simp_all add: demote_effect_def)

lemma fence_attempts_attempts [simp]: "rs_attempts (fence_attempts s) = map fenced_by_restart (rs_attempts s)"
  by (simp add: fence_attempts_def)

lemma restart_effect: "\<not> is_verified_effect (rs_effect_state (restart_runtime boot s))"
  by (simp add: restart_runtime_def demote_effect_def is_verified_effect_def)

lemma restart_frame [simp]:
  "rs_config (restart_runtime b s) = rs_config s" "rs_store (restart_runtime b s) = rs_store s"
  "rs_sequence (restart_runtime b s) = rs_sequence s"
  "rs_evidence_revision (restart_runtime b s) = rs_evidence_revision s"
  "rs_topology (restart_runtime b s) = rs_topology s" "rs_graph (restart_runtime b s) = rs_graph s"
  "rs_policy (restart_runtime b s) = rs_policy s" "rs_evidence (restart_runtime b s) = rs_evidence s"
  "rs_confirmation (restart_runtime b s) = rs_confirmation s"
  "rs_conflict (restart_runtime b s) = rs_conflict s"
  "rs_plan_counter (restart_runtime b s) = rs_plan_counter s"
  "rs_transition_counter (restart_runtime b s) = rs_transition_counter s"
  "rs_attempt_counter (restart_runtime b s) = rs_attempt_counter s"
  "rs_boundary_counter (restart_runtime b s) = rs_boundary_counter s"
  "rs_authorization_counter (restart_runtime b s) = rs_authorization_counter s"
  "rs_boundary (restart_runtime b s) = rs_boundary s"
  "rs_boundary_plan (restart_runtime b s) = rs_boundary_plan s"
  "rs_boundary_plan_digest (restart_runtime b s) = rs_boundary_plan_digest s"
  "rs_last_known_boot (restart_runtime b s) = rs_last_known_boot s"
  "rs_plans (restart_runtime b s) = rs_plans s" "rs_transitions (restart_runtime b s) = rs_transitions s"
  "rs_detections (restart_runtime b s) = rs_detections s" "rs_stats (restart_runtime b s) = rs_stats s"
  by (simp_all add: restart_runtime_def)

lemma restart_fields [simp]:
  "rs_authorizations (restart_runtime b s) = []" "rs_epoch (restart_runtime b s) = rs_epoch s + 1"
  "rs_boot (restart_runtime b s) = b"
  "rs_attempts (restart_runtime b s) = map fenced_by_restart (rs_attempts s)"
  by (simp_all add: restart_runtime_def)

end
