(* ===== verification/Runtime_Invariant.thy ===== *)
theory Runtime_Invariant
  imports Runtime_Startup Store_Recovery
begin

section \<open>Reachable states of the runtime\<close>

text \<open>
  The operations as a step relation, the states reachable from a successful \<open>open\<close>, and the
  invariant they keep: the graph is the one of the loaded topology, every table is within its
  bound, the published sequence is the one of the store, and a verified effect rests on a
  retained attempt of the current boundary decision that was verified in this incarnation.
\<close>

inductive rt_step :: "runtime_state \<times> os \<Rightarrow> runtime_state \<times> os \<Rightarrow> bool" where
  step_topology: "apply_topology spec w = (r, w') \<Longrightarrow> rt_step w w'"
| step_policy: "apply_policy policy w = (r, w') \<Longrightarrow> rt_step w w'"
| step_detection: "record_detection obs w = (r, w') \<Longrightarrow> rt_step w w'"
| step_authorize: "authorize now w = (r, w') \<Longrightarrow> rt_step w w'"
| step_plan: "rt_plan i now w = Some (r, w') \<Longrightarrow> rt_step w w'"
| step_transition: "transition request now w = (r, w') \<Longrightarrow> rt_step w w'"
| step_submit: "submit_apply sub now later w = (r, w') \<Longrightarrow> rt_step w w'"
| step_acknowledge: "acknowledge k now w = (r, w') \<Longrightarrow> rt_step w w'"
| step_verify: "verify_effect v now w = (r, w') \<Longrightarrow> rt_step w w'"
| step_checkpoint: "checkpoint w = (r, w') \<Longrightarrow> rt_step w w'"

inductive rt_reachable :: "runtime_config \<Rightarrow> runtime_state \<times> os \<Rightarrow> bool" for config where
  opened: "runtime_open config True boot sys = (Inr s, sys') \<Longrightarrow> rt_reachable config (s, sys')"
| stepped: "rt_reachable config w \<Longrightarrow> rt_step w w' \<Longrightarrow> rt_reachable config w'"

text \<open>An invariant: every successful \<open>open\<close> establishes it and every step keeps it.\<close>

locale runtime_invariant =
  fixes inv :: "runtime_state \<Rightarrow> bool"
  assumes opened_inv: "runtime_open config True boot sys = (Inr s, sys') \<Longrightarrow> inv s"
    and step_inv: "rt_step (s, sys) (s', sys') \<Longrightarrow> inv s \<Longrightarrow> inv s'"
begin

lemma reachable_inv: "rt_reachable config w \<Longrightarrow> inv (fst w)"
proof (induction rule: rt_reachable.induct)
  case (opened boot sys s sys')
  then show ?case using opened_inv by simp
next
  case (stepped w w')
  then show ?case using step_inv [of "fst w" "snd w" "fst w'" "snd w'"] by simp
qed

end

subsection \<open>The invariant\<close>

definition inv_model :: "runtime_state \<Rightarrow> bool" where
  "inv_model s \<longleftrightarrow> rs_graph s = map_option graph_build (rs_topology s) \<and>
     (\<forall>t. rs_topology s = Some t \<longrightarrow> wf_topology t)"

definition inv_bounds :: "runtime_state \<Rightarrow> bool" where
  "inv_bounds s \<longleftrightarrow>
     length (rs_plans s) \<le> rc_max_plans (rs_config s) \<and>
     length (rs_attempts s) \<le> rc_max_attempts (rs_config s) \<and>
     length (rs_transitions s) \<le> rc_max_transitions (rs_config s) \<and>
     length (rs_detections s) \<le> rc_max_detections (rs_config s) \<and>
     length (rs_authorizations s) \<le> rc_max_authorizations (rs_config s) \<and>
     length (rs_fenced_boots s) \<le> kMaxFencedBoots"

definition inv_effect :: "runtime_state \<Rightarrow> bool" where
  "inv_effect s \<longleftrightarrow> (is_verified_effect (rs_effect_state s) \<longrightarrow> \<not> rs_requires_reverification s \<and>
     (\<exists>a \<in> set (rs_attempts s). ai_plan (at_id a) = rs_boundary_plan s \<and> at_state a = rs_effect_state s))"

definition rt_inv :: "runtime_state \<Rightarrow> bool" where
  "rt_inv s \<longleftrightarrow> inv_model s \<and> inv_bounds s \<and> sequence_follows_store s \<and> inv_effect s"

lemmas inv_defs = rt_inv_def inv_model_def inv_bounds_def inv_effect_def sequence_follows_store_def

lemma rt_bind_cases:
  assumes "rt_bind m f w = (r, w')"
  obtains (stop) e where "m w = (Inl e, w')" "r = Inl e"
  | (go) x w1 where "m w = (Inr x, w1)" "f x w1 = (r, w')"
  using assms by (cases "m w") (auto simp: rt_bind_def split: sum.splits)

lemma evict_tables [simp]:
  "rs_plans (evict_bounded_tables s) = pop_to_bound (rc_max_plans (rs_config s)) (rs_plans s)"
  "rs_attempts (evict_bounded_tables s) = pop_to_bound (rc_max_attempts (rs_config s)) (rs_attempts s)"
  "rs_transitions (evict_bounded_tables s) = pop_to_bound (rc_max_transitions (rs_config s)) (rs_transitions s)"
  "rs_detections (evict_bounded_tables s) = pop_to_bound (rc_max_detections (rs_config s)) (rs_detections s)"
  "rs_fenced_boots (evict_bounded_tables s) = pop_to_bound kMaxFencedBoots (rs_fenced_boots s)"
  by (simp_all add: evict_bounded_tables_def)

lemma same_but_commitD:
  assumes "same_but_commit s s'"
  shows "rs_config s' = rs_config s" "rs_epoch s' = rs_epoch s" "rs_boot s' = rs_boot s"
    "rs_topology s' = rs_topology s" "rs_graph s' = rs_graph s" "rs_policy s' = rs_policy s"
    "rs_evidence s' = rs_evidence s" "rs_plans s' = rs_plans s" "rs_attempts s' = rs_attempts s"
    "rs_transitions s' = rs_transitions s" "rs_detections s' = rs_detections s"
    "rs_authorizations s' = rs_authorizations s" "rs_fenced_boots s' = rs_fenced_boots s"
    "rs_boundary s' = rs_boundary s" "rs_boundary_plan s' = rs_boundary_plan s"
    "rs_boundary_plan_digest s' = rs_boundary_plan_digest s" "rs_effect_state s' = rs_effect_state s"
    "rs_requires_reverification s' = rs_requires_reverification s"
    "rs_plan_counter s' = rs_plan_counter s" "rs_attempt_counter s' = rs_attempt_counter s"
    "rs_boundary_counter s' = rs_boundary_counter s" "rs_evidence_revision s' = rs_evidence_revision s"
    "rs_confirmation s' = rs_confirmation s" "rs_conflict s' = rs_conflict s"
    "rs_transition_counter s' = rs_transition_counter s"
    "rs_authorization_counter s' = rs_authorization_counter s"
proof -
  obtain x y z where e: "s' = s\<lparr>rs_store := x, rs_sequence := y, rs_stats := z\<rparr>"
    using assms unfolding same_but_commit_def by blast
  show "rs_config s' = rs_config s" "rs_epoch s' = rs_epoch s" "rs_boot s' = rs_boot s"
    "rs_topology s' = rs_topology s" "rs_graph s' = rs_graph s" "rs_policy s' = rs_policy s"
    "rs_evidence s' = rs_evidence s" "rs_plans s' = rs_plans s" "rs_attempts s' = rs_attempts s"
    "rs_transitions s' = rs_transitions s" "rs_detections s' = rs_detections s"
    "rs_authorizations s' = rs_authorizations s" "rs_fenced_boots s' = rs_fenced_boots s"
    "rs_boundary s' = rs_boundary s" "rs_boundary_plan s' = rs_boundary_plan s"
    "rs_boundary_plan_digest s' = rs_boundary_plan_digest s" "rs_effect_state s' = rs_effect_state s"
    "rs_requires_reverification s' = rs_requires_reverification s"
    "rs_plan_counter s' = rs_plan_counter s" "rs_attempt_counter s' = rs_attempt_counter s"
    "rs_boundary_counter s' = rs_boundary_counter s" "rs_evidence_revision s' = rs_evidence_revision s"
    "rs_confirmation s' = rs_confirmation s" "rs_conflict s' = rs_conflict s"
    "rs_transition_counter s' = rs_transition_counter s"
    "rs_authorization_counter s' = rs_authorization_counter s"
    unfolding e by simp_all
qed

lemmas commitD = same_but_commitD [OF commit_same]

lemma commit_inv:
  assumes "commit t payload (s, sys) = (r, s', sys')" and "rt_inv s"
  shows "rt_inv s'"
  using assms(2) commit_sequence(1) [OF assms(1)]
  by (simp add: rt_inv_def inv_model_def inv_bounds_def inv_effect_def commitD [OF assms(1)])

text \<open>Updates of fields the invariant does not read.\<close>

lemma rt_inv_frame [simp]:
  "rt_inv (bump c s) = rt_inv s"
  "rt_inv (s\<lparr>rs_conflict := b\<rparr>) = rt_inv s" "rt_inv (s\<lparr>rs_policy := p\<rparr>) = rt_inv s"
  "rt_inv (s\<lparr>rs_confirmation := m\<rparr>) = rt_inv s" "rt_inv (s\<lparr>rs_transition_counter := n\<rparr>) = rt_inv s"
  "rt_inv (s\<lparr>rs_authorization_counter := q\<rparr>) = rt_inv s" "rt_inv (s\<lparr>rs_attempt_counter := k\<rparr>) = rt_inv s"
  "rt_inv (s\<lparr>rs_startup := u\<rparr>) = rt_inv s"
  by (simp_all add: inv_defs)

lemma fence_inv [simp]: "rt_inv (fence_authorization i s) = rt_inv s"
  by (simp add: fence_authorization_def inv_defs)

lemma validate_inv: "validate_authorization i req now s = (r, s') \<Longrightarrow> rt_inv s \<Longrightarrow> rt_inv s'"
  by (auto simp: validate_authorization_def Let_def split: if_splits option.splits)

text \<open>Appending to a table and evicting; the attempts are within their bound already.\<close>

lemma evict_inv:
  assumes "inv_model s" and "sequence_follows_store s" and "length (rs_attempts s) \<le> rc_max_attempts (rs_config s)"
    and "length (rs_authorizations s) \<le> rc_max_authorizations (rs_config s)" and "inv_effect s"
  shows "rt_inv (evict_bounded_tables s)"
  using assms by (simp add: inv_defs)

lemma append_inv:
  assumes "rt_inv s"
  shows "rt_inv (evict_bounded_tables (s\<lparr>rs_plans := ps, rs_plan_counter := n\<rparr>))"
    and "rt_inv (evict_bounded_tables (s\<lparr>rs_transitions := ts\<rparr>))"
    and "rt_inv (evict_bounded_tables (s\<lparr>rs_detections := ds, rs_evidence := v, rs_evidence_revision := q\<rparr>))"
  using assms by (simp_all add: inv_defs)

subsection \<open>Every step keeps it\<close>

lemma apply_topology_inv:
  assumes "apply_topology spec (s, sys) = (r, s', sys')" and "rt_inv s"
  shows "rt_inv s'"
proof -
  { fix t s1 sys1
    assume t: "topology_build spec = Inr t" and c: "commit TopologyDefinition (topology_encode t) (s, sys) = (Inr (), s1, sys1)"
    have "rt_inv (s1\<lparr>rs_topology := Some t, rs_graph := Some (graph_build t)\<rparr>)"
      using commit_inv [OF c assms(2)] topology_build_wf [OF t] by (simp add: inv_defs) }
  then show ?thesis
    using assms commit_inv [of TopologyDefinition _ s sys]
    by (auto simp: apply_topology_def elim!: rt_bind_cases split: sum.splits if_splits)
qed

lemma apply_policy_inv:
  assumes "apply_policy policy (s, sys) = (r, s', sys')" and "rt_inv s"
  shows "rt_inv s'"
  using assms commit_inv [of PolicyDefinition _ s sys]
  by (auto simp: apply_policy_def elim!: rt_bind_cases split: sum.splits if_splits)

lemma record_detection_inv:
  assumes "record_detection obs (s, sys) = (r, s', sys')" and "rt_inv s"
  shows "rt_inv s'"
proof -
  have confirm: "rt_inv (confirm_evidence i s) = rt_inv s" for i s by (simp add: confirm_evidence_def)
  have grown: "rt_inv (evict_bounded_tables (s1\<lparr>rs_evidence := v, rs_evidence_revision := q,
      rs_detections := ds\<rparr>))" if "rt_inv s1" for s1 v q ds
    using that by (simp add: inv_defs)
  show ?thesis
    using assms commit_inv [of DetectionRecord _ s sys]
    by (auto simp: record_detection_def Let_def confirm grown elim!: rt_bind_cases
        split: sum.splits if_splits)
qed

lemma length_drop_expired: "length (drop_expired now as) \<le> length as"
  by (induction as) (simp_all add: le_SucI)

lemma authorize_inv:
  assumes "authorize now (s, sys) = (r, s', sys')" and "rt_inv s"
  shows "rt_inv s'"
  using assms length_drop_expired [of now "rs_authorizations s"]
  by (auto simp: authorize_def Let_def inv_defs split: if_splits)

lemma publish_plan_inv:
  assumes "publish_plan plan generation (s, sys) = (r, s', sys')" and "rt_inv s"
  shows "rt_inv s'"
proof -
  have grown: "rt_inv (evict_bounded_tables (s1\<lparr>rs_plan_counter := n, rs_plans := ps\<rparr>))" if "rt_inv s1" for s1 n ps
    using that by (simp add: inv_defs)
  show ?thesis
    using assms commit_inv [of PlanDecision _ s sys]
    by (auto simp: publish_plan_def grown split: prod.splits sum.splits)
qed

lemma rt_plan_inv:
  assumes "rt_plan i now (s, sys) = Some (r, s', sys')" and "rt_inv s"
  shows "rt_inv s'"
proof -
  obtain r1 s1 where v: "validate_authorization i False now s = (r1, s1)" by fastforce
  then have "rt_inv s1" using validate_inv assms(2) by blast
  then show ?thesis
    using assms(1) v publish_plan_inv
    by (auto simp: rt_plan_def Let_def split: sum.splits option.splits if_splits)
qed

lemma fail_transition_inv:
  assumes "fail_transition d status code reason text (s, sys) = (r, s', sys')" and "rt_inv s"
  shows "rt_inv s'"
  using assms commit_inv [of TransitionDecision _ s sys]
  by (auto simp: fail_transition_def Let_def append_inv elim!: rt_bind_cases)

lemma accept_transition_inv:
  assumes "accept_transition d plan (s, sys) = (r, s', sys')" and "rt_inv s"
  shows "rt_inv s'"
proof -
  have changed: "rt_inv (evict_bounded_tables (s1\<lparr>rs_boundary := b, rs_boundary_plan := g,
      rs_boundary_plan_digest := h, rs_boundary_counter := n, rs_effect_state := EffNotRequested,
      rs_requires_reverification := False, rs_transitions := ts\<rparr>))" if "rt_inv s1" for s1 b g h n ts
    using that by (simp add: inv_defs is_verified_effect_def)
  show ?thesis
    using assms commit_inv [of TransitionDecision _ s sys] commit_inv [of BoundaryDecision]
    by (auto simp: accept_transition_def Let_def changed elim!: rt_bind_cases)
qed

lemma transition_inv:
  assumes "transition request now (s, sys) = (r, s', sys')" and "rt_inv s"
  shows "rt_inv s'"
proof -
  let ?s0 = "s\<lparr>rs_transition_counter := rs_transition_counter s + 1\<rparr>"
  obtain r1 s1 where v: "validate_authorization (tq_authorization request) False now ?s0 = (r1, s1)" by fastforce
  then have s1: "rt_inv s1" using validate_inv assms(2) by (metis rt_inv_frame(5))
  have decide: "decide_transition request d plan (s1, sys) = (r, s', sys') \<Longrightarrow> rt_inv s'" for d plan
    using s1 fail_transition_inv accept_transition_inv
    by (auto simp: decide_transition_def Let_def split: if_splits option.splits prod.splits)
  have fails: "fail_transition d a b c t (s2, sys) = (r, s', sys') \<Longrightarrow> rt_inv s2 \<Longrightarrow> rt_inv s'" for d a b c t s2
    by (rule fail_transition_inv)
  show ?thesis
    using assms(1) v s1 decide fails
    by (auto simp: transition_def Let_def split: sum.splits option.splits if_splits)
qed

lemma submit_apply_inv:
  assumes "submit_apply request now later (s, sys) = (r, s', sys')" and "rt_inv s"
  shows "rt_inv s'"
proof -
  obtain r1 s1 where v: "validate_authorization (sq_authorization request) True now s = (r1, s1)" by fastforce
  then have s1: "rt_inv s1" using validate_inv assms(2) by blast
  have grown: "rt_inv (evict_bounded_tables (s2\<lparr>rs_attempts := as, rs_effect_state := EffSubmitted\<rparr>))"
    if "rt_inv s2" for s2 as
    using that by (simp add: inv_defs is_verified_effect_def)
  show ?thesis
    using assms(1) v s1 commit_inv [of ApplyAttempt _ "s1\<lparr>rs_attempt_counter := rs_attempt_counter s1 + 1\<rparr>" sys]
    by (auto simp: submit_apply_def Let_def grown elim!: rt_bind_cases split: sum.splits option.splits if_splits)
qed

text \<open>Replacing an attempt that was not verified keeps the verified ones.\<close>

lemma replace_first_keeps:
  "List.find P xs = Some y \<Longrightarrow> x \<in> set xs \<Longrightarrow> x \<noteq> y \<Longrightarrow> x \<in> set (replace_first P f xs)"
  by (induction xs) (auto split: if_splits)

lemma update_attempt_inv:
  assumes "rt_inv s" and "find_attempt s i = Some a" and "\<not> is_verified_effect (at_state a)"
  shows "rt_inv (update_attempt i f s)"
proof -
  have "b \<in> set (rs_attempts (update_attempt i f s))" if "b \<in> set (rs_attempts s)" "is_verified_effect (at_state b)" for b
    using replace_first_keeps [OF assms(2) [unfolded find_attempt_def] that(1)] that(2) assms(3)
    by (auto simp: update_attempt_def)
  then show ?thesis
    using assms(1) by (auto simp: inv_defs) (auto simp: update_attempt_def)
qed

lemma recompute_inv: "rt_inv s \<Longrightarrow> rt_inv (recompute_effect_state s)"
  using newest_attempt_in
  by (auto simp: inv_defs recompute_effect_state_def is_verified_effect_def split: option.splits)

lemma acknowledge_inv:
  assumes "acknowledge k now (s, sys) = (r, s', sys')" and "rt_inv s"
  shows "rt_inv s'"
proof -
  have upd: "rt_inv (update_attempt i f s)" if "find_attempt s i = Some a" "\<not> attempt_terminal a" for i f a
    using that by (intro update_attempt_inv assms(2)) (auto simp: attempt_terminal_def dest: verified_terminal)
  show ?thesis
    using assms upd commit_inv [of ApplyAcknowledgement _ "update_attempt i f s" sys for i f]
    by (auto simp: acknowledge_def Let_def recompute_inv elim!: rt_bind_cases split: sum.splits option.splits if_splits)
qed

definition without_effect :: "runtime_state \<Rightarrow> runtime_state" where
  "without_effect s = s\<lparr>rs_effect_state := EffNotRequested\<rparr>"

lemma recompute_adopt_inv:
  assumes "rt_inv s"
  shows "rt_inv (recompute_effect_state (adopt_decision a s))"
proof -
  have "rt_inv (without_effect (adopt_decision a s))"
    using assms by (auto simp: inv_defs without_effect_def adopt_decision_def Let_def is_verified_effect_def
        split: option.splits)
  moreover have "recompute_effect_state (adopt_decision a s) = recompute_effect_state (without_effect (adopt_decision a s))"
    by (simp add: recompute_effect_state_def without_effect_def)
  ultimately show ?thesis using recompute_inv by simp
qed

lemma verify_effect_inv:
  assumes "verify_effect v now (s, sys) = (r, s', sys')" and "rt_inv s"
  shows "rt_inv s'"
proof -
  have upd: "rt_inv (update_attempt i f s)" if "find_attempt s i = Some a"
    "at_state a \<noteq> EffVerifiedApplied" "at_state a \<noteq> EffVerifiedReleased" for i f a
    using that by (intro update_attempt_inv assms(2)) (auto simp: is_verified_effect_def)
  show ?thesis
    using assms upd commit_inv [of EffectVerification _ "update_attempt i f s" sys for i f]
    by (auto simp: verify_effect_def Let_def recompute_inv recompute_adopt_inv elim!: rt_bind_cases
        split: sum.splits option.splits if_splits prod.splits)
qed

lemma harmless_sequence: "harmless st m \<Longrightarrow> m (st, sys) = (r, st', sys') \<Longrightarrow> st' = st"
  by (simp add: harmless_def)

lemma write_snapshot_sequence:
  assumes "write_snapshot p (st, sys) = (r, st', sys')"
  shows "st_last_sequence st' = st_last_sequence st"
proof -
  have clean: "st_last_sequence st2 = st_last_sequence st1"
    if "cleanup_old_files (st1, sys1) = (r1, st2, sys2)" for st1 st2 sys1 sys2 r1
    using harmless_sequence [OF harmless_cleanup that] by simp
  show ?thesis
    using assms clean
    by (auto simp: write_snapshot_def Let_def io_bind_def on_os_def on_store_def
        split: if_splits sum.splits prod.splits dest!: clean)
qed

lemma checkpoint_inv:
  assumes "checkpoint (s, sys) = (r, s', sys')" and "rt_inv s"
  shows "rt_inv s'"
proof -
  have seq: "st_last_sequence st1 = st_last_sequence st" if "write_snapshot p (st, sys) = (r1, st1, sys1)" for p st r1 st1 sys1
    using that by (rule write_snapshot_sequence)
  show ?thesis
    using assms by (auto simp: checkpoint_def inv_defs dest: seq split: option.splits prod.splits sum.splits)
qed

lemma rt_step_inv:
  assumes "rt_step (s, sys) (s', sys')" and "rt_inv s"
  shows "rt_inv s'"
  using assms(1)
proof (cases rule: rt_step.cases)
  case (step_topology spec r)
  then show ?thesis by (rule apply_topology_inv) (rule assms(2))
next
  case (step_policy policy r)
  then show ?thesis by (rule apply_policy_inv) (rule assms(2))
next
  case (step_detection obs r)
  then show ?thesis by (rule record_detection_inv) (rule assms(2))
next
  case (step_authorize now r)
  then show ?thesis by (rule authorize_inv) (rule assms(2))
next
  case (step_plan i now r)
  then show ?thesis by (rule rt_plan_inv) (rule assms(2))
next
  case (step_transition request now r)
  then show ?thesis by (rule transition_inv) (rule assms(2))
next
  case (step_submit sub now later r)
  then show ?thesis by (rule submit_apply_inv) (rule assms(2))
next
  case (step_acknowledge k now r)
  then show ?thesis by (rule acknowledge_inv) (rule assms(2))
next
  case (step_verify v now r)
  then show ?thesis by (rule verify_effect_inv) (rule assms(2))
next
  case (step_checkpoint r)
  then show ?thesis by (rule checkpoint_inv) (rule assms(2))
qed

subsection \<open>Opening establishes it\<close>

text \<open>What opening changes after the restart: the definitions, the store and the counts.\<close>

definition uninstalled :: "runtime_state \<Rightarrow> runtime_state" where
  "uninstalled s = s\<lparr>rs_topology := None, rs_graph := None, rs_policy := default_policy,
     rs_store := None, rs_sequence := 0, rs_stats := empty_stats\<rparr>"

lemma uninstalled_simps [simp]:
  "uninstalled (s\<lparr>rs_topology := t, rs_graph := g\<rparr>) = uninstalled s"
  "uninstalled (s\<lparr>rs_topology := t\<rparr>) = uninstalled s"
  "uninstalled (s\<lparr>rs_graph := g\<rparr>) = uninstalled s" "uninstalled (s\<lparr>rs_policy := p\<rparr>) = uninstalled s"
  by (simp_all add: uninstalled_def)

lemma commit_uninstalled:
  assumes "commit t payload (s, sys) = (r, s', sys')"
  shows "uninstalled s' = uninstalled s"
proof -
  obtain x y z where e: "s' = s\<lparr>rs_store := x, rs_sequence := y, rs_stats := z\<rparr>"
    using commit_same [OF assms] unfolding same_but_commit_def by blast
  show ?thesis unfolding e by (simp add: uninstalled_def)
qed

lemma uninstalledD:
  assumes "uninstalled s = uninstalled s'"
  shows "rs_config s = rs_config s'" "rs_epoch s = rs_epoch s'" "rs_boot s = rs_boot s'"
    "rs_attempts s = rs_attempts s'" "rs_authorizations s = rs_authorizations s'"
    "rs_effect_state s = rs_effect_state s'" "rs_plan_counter s = rs_plan_counter s'"
    "rs_attempt_counter s = rs_attempt_counter s'" "rs_fenced_boots s = rs_fenced_boots s'"
    "rs_requires_reverification s = rs_requires_reverification s'" "rs_boundary s = rs_boundary s'"
    "rs_boundary_plan s = rs_boundary_plan s'" "rs_confirmation s = rs_confirmation s'"
    "rs_plans s = rs_plans s'"
  using arg_cong [OF assms, of rs_config] arg_cong [OF assms, of rs_epoch]
    arg_cong [OF assms, of rs_boot] arg_cong [OF assms, of rs_attempts]
    arg_cong [OF assms, of rs_authorizations] arg_cong [OF assms, of rs_effect_state]
    arg_cong [OF assms, of rs_plan_counter] arg_cong [OF assms, of rs_attempt_counter]
    arg_cong [OF assms, of rs_fenced_boots] arg_cong [OF assms, of rs_requires_reverification]
    arg_cong [OF assms, of rs_boundary] arg_cong [OF assms, of rs_boundary_plan]
    arg_cong [OF assms, of rs_confirmation] arg_cong [OF assms, of rs_plans]
  by (simp_all add: uninstalled_def)

lemma commit_follows:
  "commit t payload (s, sys) = (Inr x, s', sys') \<Longrightarrow> rs_store s \<noteq> None \<Longrightarrow>
   sequence_follows_store s' \<and> rs_store s' \<noteq> None"
  by (erule commit_cases) (auto simp: sequence_follows_store_def)

lemma install_topology_opened:
  assumes "install_topology (s, sys) = (Inr u, s', sys')" and "rs_graph s = None"
    and "\<And>t. rs_topology s = Some t \<Longrightarrow> wf_topology t"
  shows "uninstalled s' = uninstalled s" and "inv_model s'" and "rs_store s' = None \<longleftrightarrow> rs_store s = None"
proof -
  have built: "wf_topology t" if "topology_build spec = Inr t" for spec t
    using that by (rule topology_build_wf)
  have c: "uninstalled s2 = uninstalled s1 \<and> inv_model s2 = inv_model s1 \<and> (rs_store s2 = None \<longleftrightarrow> rs_store s1 = None)"
    if "commit ty pl (s1, sys1) = (Inr u1, s2, sys2)" for ty pl s1 sys1 u1 s2 sys2
  proof -
    have "rs_store s2 = None \<longleftrightarrow> rs_store s1 = None"
      by (rule commit_cases [OF that]) simp_all
    then show ?thesis using commit_uninstalled [OF that] commitD [OF that] by (simp add: inv_model_def)
  qed
  have "uninstalled s' = uninstalled s \<and> inv_model s' \<and> (rs_store s' = None \<longleftrightarrow> rs_store s = None)"
    using assms built
    by (auto simp: install_topology_def Let_def inv_model_def dest!: c split: option.splits if_splits sum.splits)
  then show "uninstalled s' = uninstalled s" "inv_model s'" "rs_store s' = None \<longleftrightarrow> rs_store s = None" by simp_all
qed

lemma publish_incarnation_opened:
  assumes "publish_incarnation (s, sys) = (Inr u, s', sys')" and "inv_model s"
  shows "uninstalled s' = uninstalled s \<and> inv_model s' \<and> sequence_follows_store s'"
proof (cases "rs_store s = None")
  case True
  then show ?thesis using assms by (simp add: publish_incarnation_def sequence_follows_store_def)
next
  case False
  let ?s1 = "if cp_generation (rs_policy s) = 0 then s\<lparr>rs_policy := default_policy\<rparr> else s"
  have c: "uninstalled s2 = uninstalled s1 \<and> inv_model s2 = inv_model s1"
    if "commit ty pl (s1, sys1) = (Inr u1, s2, sys2)" for ty pl s1 sys1 u1 s2 sys2
    using commit_uninstalled [OF that] commitD [OF that] by (simp add: inv_model_def)
  have base: "uninstalled ?s1 = uninstalled s" "inv_model ?s1" "rs_store ?s1 \<noteq> None"
    using False assms(2) by (simp_all add: inv_model_def)
  have "rt_bind (commit PolicyDefinition (policy_encode (rs_policy ?s1))) (\<lambda>_ w.
      rt_bind (commit EpochAdvance (encode_epoch_advance (rs_epoch (fst w), rs_boot (fst w)))) (\<lambda>_ w.
      commit Fence (encode_fence (rs_fenced_boots (fst w))) w) w) (?s1, sys) = (Inr u, s', sys')"
    using assms(1) False unfolding publish_incarnation_def by (simp only: prod.case if_False Let_def)
  then obtain u2 w2 where a': "commit PolicyDefinition (policy_encode (rs_policy ?s1)) (?s1, sys) = (Inr u2, w2)"
    and k: "rt_bind (commit EpochAdvance (encode_epoch_advance (rs_epoch (fst w2), rs_boot (fst w2)))) (\<lambda>_ w.
      commit Fence (encode_fence (rs_fenced_boots (fst w))) w) w2 = (Inr u, s', sys')"
    by (rule rt_bind_cases) simp_all
  from k obtain u3 w3 where b': "commit EpochAdvance (encode_epoch_advance (rs_epoch (fst w2), rs_boot (fst w2))) w2 = (Inr u3, w3)"
    and d': "commit Fence (encode_fence (rs_fenced_boots (fst w3))) w3 = (Inr u, s', sys')"
    by (rule rt_bind_cases) simp_all
  obtain s2 sys2 s3 sys3 where w: "w2 = (s2, sys2)" "w3 = (s3, sys3)" by fastforce
  note a = a' [unfolded w] and b = b' [unfolded w] and d = d' [unfolded w]
  show ?thesis
    using c [OF a] c [OF b] c [OF d] base commit_follows [OF a] commit_follows [OF b] commit_follows [OF d] by simp
qed

text \<open>What replay never touches, and that what it restores is well formed.\<close>

lemma topology_decode_wf: "topology_decode bytes = Inr t \<Longrightarrow> wf_topology t"
  by (auto simp: topology_decode_def Let_def case_prod_beta try_result_Inr_iff
      intro: topology_build_wf split: if_splits)

definition restored :: "runtime_config \<Rightarrow> runtime_state \<Rightarrow> bool" where
  "restored config s \<longleftrightarrow> rs_config s = config \<and> rs_graph s = None \<and> \<not> rs_requires_reverification s \<and>
     rs_confirmation s = [] \<and> (\<forall>t. rs_topology s = Some t \<longrightarrow> wf_topology t)"

lemma restored_frame [simp]:
  "restored config (s\<lparr>rs_policy := p\<rparr>) = restored config s"
  "restored config (s\<lparr>rs_evidence := v\<rparr>) = restored config s"
  "restored config (s\<lparr>rs_plans := ps\<rparr>) = restored config s"
  "restored config (s\<lparr>rs_attempts := as\<rparr>) = restored config s"
  "restored config (s\<lparr>rs_transitions := ts\<rparr>) = restored config s"
  "restored config (s\<lparr>rs_detections := ds\<rparr>) = restored config s"
  "restored config (s\<lparr>rs_fenced_boots := bs\<rparr>) = restored config s"
  "restored config (s\<lparr>rs_transition_counter := n\<rparr>) = restored config s"
  "restored config (s\<lparr>rs_startup := u\<rparr>) = restored config s"
  "restored config (s\<lparr>rs_boundary := b\<rparr>) = restored config s"
  "restored config (s\<lparr>rs_boundary_plan := g\<rparr>) = restored config s"
  "restored config (s\<lparr>rs_boundary_plan_digest := h\<rparr>) = restored config s"
  "restored config (s\<lparr>rs_epoch := e\<rparr>) = restored config s"
  "restored config (s\<lparr>rs_last_known_boot := k\<rparr>) = restored config s"
  "restored config (s\<lparr>rs_store := st\<rparr>) = restored config s"
  "restored config (s\<lparr>rs_sequence := q\<rparr>) = restored config s"
  by (simp_all add: restored_def)

lemma restored_topology: "restored config s \<Longrightarrow> wf_topology t \<Longrightarrow> restored config (s\<lparr>rs_topology := Some t\<rparr>)"
  by (simp add: restored_def)

lemma restored_replay [simp]:
  "restored config (retain_attempt a s) = restored config s"
  "restored config (replay_detection d s) = restored config s"
  "restored config (replay_boundary b s) = restored config s"
  by (simp_all add: retain_attempt_def update_attempt_def replay_detection_def replay_boundary_def Let_def
      split: option.split sum.split)

lemma restored_restore [simp]:
  "restored config (restore_counters d s) = restored config s"
  "restored config (restore_tables d s) = restored config s"
  by (simp_all add: restore_counters_def restore_tables_def restored_def)

lemma apply_replayed_frame_restored:
  assumes "apply_replayed_frame f s = Inr s'" and "restored config s"
  shows "restored config s'"
  using assms
  by (cases "fr_type f")
    (auto simp: apply_replayed_frame_def try_result_Inr_iff intro: restored_topology topology_decode_wf
      split: if_splits prod.splits)

lemma replay_frames_restored: "replay_frames fs s = Inr s' \<Longrightarrow> restored config s \<Longrightarrow> restored config s'"
  by (induction fs arbitrary: s) (auto simp: try_result_Inr_iff dest: apply_replayed_frame_restored)

lemma embedded_cases:
  assumes "embedded dec bytes = Inr x"
  shows "x = None \<or> (\<exists>y. dec bytes = Inr y \<and> x = Some y)"
  using assms by (auto simp: embedded_def try_result_Inr_iff split: if_splits)

lemma restore_snapshot_restored:
  assumes "restore_snapshot d s = Inr s'" and "restored config s"
  shows "restored config s'"
proof -
  let ?s1 = "restore_tables d (restore_counters d s)"
  have s1: "restored config ?s1" using assms(2) by simp
  obtain topology policy evidence boundary where
    t: "embedded topology_decode (ds_topology_bytes d) = Inr topology" and
    s': "s' = ?s1\<lparr>rs_topology := (case topology of None \<Rightarrow> rs_topology ?s1 | Some t \<Rightarrow> Some t),
            rs_policy := policy, rs_evidence := evidence, rs_boundary := boundary\<rparr>"
    using assms(1) unfolding restore_snapshot_def Let_def try_result_Inr_iff sum.inject by blast
  have "\<forall>t. topology = Some t \<longrightarrow> wf_topology t"
    using embedded_cases [OF t] by (auto dest: topology_decode_wf)
  then have "restored config (?s1\<lparr>rs_topology := (case topology of None \<Rightarrow> rs_topology ?s1 | Some t \<Rightarrow> Some t)\<rparr>)"
    using s1 by (cases topology) (simp_all add: restored_topology)
  then show ?thesis unfolding s' by simp
qed

lemma restore_store_restored:
  assumes "restore_store st s = Inr s'" and "restored config s"
  shows "restored config s'"
proof -
  have "restored config (s\<lparr>rs_store := Some st, rs_startup := u, rs_sequence := q\<rparr>)" for u q
    using assms(2) by (simp add: restored_def)
  then show ?thesis
    using assms(1)
    by (auto simp: restore_store_def Let_def try_result_Inr_iff dest: restore_snapshot_restored
        replay_frames_restored split: if_splits)
qed

lemma initial_restored: "restored config (initial_runtime config)"
  by (simp add: restored_def initial_runtime_def new_state_def)

lemma recover_state_restored:
  assumes "recover_state config sys = (Inr s, sys')"
  shows "restored config s"
  using assms restore_store_restored [OF _ initial_restored] initial_restored [of config]
  by (auto simp: recover_state_def Let_def split: if_splits sum.splits prod.splits)

text \<open>Opening, step by step.\<close>

lemma runtime_open_cases:
  assumes "runtime_open config True boot sys = (Inr s, sys')"
  obtains s0 sys0 s2 where "recover_state config sys = (Inr s0, sys0)"
    "restored config s0" "s = finish_startup s2" "inv_model s2" "sequence_follows_store s2"
    "uninstalled s2 = uninstalled (restart_runtime (BootIdentity boot (ucast (os_pid sys0))) s0)"
proof -
  obtain s0 sys0 where r: "recover_state config sys = (Inr s0, sys0)"
    using assms by (auto simp: runtime_open_def split: sum.splits prod.splits)
  let ?s1 = "restart_runtime (BootIdentity boot (ucast (os_pid sys0))) s0"
  obtain s2 sys2 where o: "rt_bind install_topology (\<lambda>_. publish_incarnation) (?s1, sys0) = (Inr (), s2, sys2)"
    and s: "s = finish_startup s2"
    using assms r by (auto simp: runtime_open_def split: sum.splits prod.splits)
  obtain sa sysa where a: "install_topology (?s1, sys0) = (Inr (), sa, sysa)"
    and b: "publish_incarnation (sa, sysa) = (Inr (), s2, sys2)"
    using o by (rule rt_bind_cases) auto
  have res: "restored config s0" by (rule recover_state_restored [OF r])
  have t: "rs_topology ?s1 = rs_topology s0" "rs_graph ?s1 = rs_graph s0"
    by simp_all
  have i: "uninstalled sa = uninstalled ?s1" "inv_model sa"
    using install_topology_opened [OF a] res t by (simp_all add: restored_def)
  show thesis
    using that [OF r res s] publish_incarnation_opened [OF b i(2)] i(1) by simp
qed

lemma runtime_open_inv:
  assumes "runtime_open config True boot sys = (Inr s, sys')"
  shows "rt_inv s"
proof -
  obtain s0 sys0 s2 where "recover_state config sys = (Inr s0, sys0)" "restored config s0"
    and s: "s = finish_startup s2" "inv_model s2" "sequence_follows_store s2"
    "uninstalled s2 = uninstalled (restart_runtime (BootIdentity boot (ucast (os_pid sys0))) s0)"
    using assms by (rule runtime_open_cases)
  note f = uninstalledD [OF s(4)] restart_fields restart_effect
  show ?thesis
    using s(2,3) f unfolding s(1) by (simp add: inv_defs finish_startup_def)
qed

interpretation runtime: runtime_invariant rt_inv
  by unfold_locales (rule runtime_open_inv rt_step_inv; assumption)+

end
