(* ===== verification/Runtime_Safety.thy ===== *)
theory Runtime_Safety
  imports Runtime_Invariant Engine_Safety
begin

section \<open>What the runtime guarantees\<close>

text \<open>
  Consequences of the operations and of the invariant, one per promise of the runtime: planning
  returns and its claims hold, a boundary is replaced only under authority and over a verified
  effect, an effect is verified only by a matching report of the current incarnation, and a
  restart restores no authority.
\<close>

subsection \<open>Planning\<close>

lemma current_inputs_valid:
  assumes "inv_model s" and "rs_topology s = Some t"
  shows "valid_inputs (plan_inputs_of s) t (rs_evidence s) (rs_policy s)"
  using assms by (simp add: inv_model_def valid_inputs_def plan_inputs_of_def)

text \<open>What checking an authorization changes.\<close>

lemma validate_frame:
  assumes "validate_authorization i req now s = (r, s')"
  shows "rs_topology s' = rs_topology s" "rs_graph s' = rs_graph s" "rs_evidence s' = rs_evidence s"
    "rs_policy s' = rs_policy s" "rs_conflict s' = rs_conflict s" "rs_boundary s' = rs_boundary s"
    "rs_boundary_plan s' = rs_boundary_plan s" "rs_effect_state s' = rs_effect_state s"
    "rs_plans s' = rs_plans s" "rs_attempts s' = rs_attempts s" "rs_confirmation s' = rs_confirmation s"
    "rs_boot s' = rs_boot s" "rs_config s' = rs_config s" "rs_plan_counter s' = rs_plan_counter s"
    "rs_boundary_plan_digest s' = rs_boundary_plan_digest s" "rs_store s' = rs_store s"
    "rs_sequence s' = rs_sequence s" "rs_epoch s' = rs_epoch s"
    "rs_transition_counter s' = rs_transition_counter s"
  using assms
  by (auto simp: validate_authorization_def fence_authorization_def Let_def split: if_splits option.splits)

text \<open>An authorization that is accepted is active, unfenced, current and unexpired.\<close>

definition authorized :: "authorization_id \<Rightarrow> bool \<Rightarrow> u64 \<Rightarrow> runtime_state \<Rightarrow> bool" where
  "authorized i require_apply now s \<longleftrightarrow> i \<noteq> 0 \<and>
     (\<exists>entry. find_authorization s i = Some entry \<and> \<not> aa_fenced entry \<and>
       same_authority (ar_authority (aa_record entry)) (current_authority s) \<and>
       now < ar_expires_at (aa_record entry) \<and>
       (require_apply \<longrightarrow> ar_allows_apply (aa_record entry)))"

lemma validate_authorization_iff:
  "(\<exists>rec. validate_authorization i req now s = (Inr rec, s')) \<longleftrightarrow> authorized i req now s \<and> s' = s"
  unfolding validate_authorization_def authorized_def authority_check_ok_def
  by (auto simp: Let_def validate_authority_valid not_le split: option.splits)

lemma validate_authorization_ok:
  "validate_authorization i req now s = (Inr rec, s') \<Longrightarrow> authorized i req now s \<and> s' = s"
  using validate_authorization_iff by blast

lemma rt_plan_total:
  assumes "inv_model s"
  shows "rt_plan i now (s, sys) \<noteq> None"
proof -
  obtain r1 s1 where v: "validate_authorization i False now s = (r1, s1)" by fastforce
  have "inv_model s1" using assms validate_frame [OF v] by (simp add: inv_model_def)
  then have planned: "\<exists>r. compute_plan (plan_inputs_of s1) (current_authority s1) g = Some r"
    if "ensure_topology s1 = Inr u" for u g
    using that compute_plan_total [OF current_inputs_valid]
    by (cases "rs_topology s1") (auto simp: ensure_topology_def split: if_splits)
  show ?thesis
  proof (cases "is_ok r1 \<and> is_ok (ensure_topology s1)")
    case True
    then obtain x u where x: "r1 = Inr x" "ensure_topology s1 = Inr u"
      by (cases r1; cases "ensure_topology s1") auto
    moreover obtain r where "compute_plan (plan_inputs_of s1) (current_authority s1) (rs_plan_counter s1 + 1) = Some r"
      using planned [OF x(2)] by blast
    ultimately show ?thesis using v by (cases r) (simp_all add: rt_plan_def Let_def)
  next
    case False
    then show ?thesis
      using v by (cases r1; cases "ensure_topology s1") (simp_all add: rt_plan_def)
  qed
qed

text \<open>A published plan is the planner's answer on the current inputs, degraded when the evidence
  was contradicted.\<close>

lemma rt_plan_published:
  assumes "rt_plan i now (s, sys) = Some (Inr plan, s', sys')"
  obtains c where "authorized i False now s" "rs_topology s \<noteq> None"
    "compute_plan (plan_inputs_of s) (current_authority s) (rs_plan_counter s + 1) = Some (Inr c)"
    "plan = (if rs_conflict s then degrade_conflicting (pl_plan c) else pl_plan c)"
    "publish_plan plan (rs_plan_counter s + 1) (s, sys) = (Inr plan, s', sys')"
proof -
  obtain r1 s1 where v: "validate_authorization i False now s = (r1, s1)" by fastforce
  obtain rec where r: "r1 = Inr rec"
    using assms v by (cases r1) (simp_all add: rt_plan_def)
  then have a: "authorized i False now s" and s1: "s1 = s" using validate_authorization_ok v by blast+
  have pub: "pl = plan" if "publish_plan pl g (s, sys) = (Inr plan, s', sys')" for pl g
    using that by (auto simp: publish_plan_def split: prod.splits sum.splits)
  obtain c where c: "compute_plan (plan_inputs_of s) (current_authority s) (rs_plan_counter s + 1) = Some (Inr c)"
      "rs_topology s \<noteq> None"
      "publish_plan (if rs_conflict s then degrade_conflicting (pl_plan c) else pl_plan c) (rs_plan_counter s + 1) (s, sys)
         = (Inr plan, s', sys')"
    using assms v unfolding r s1
    by (auto simp: rt_plan_def ensure_topology_def Let_def split: option.splits sum.splits if_splits)
  note p = pub [OF c(3)]
  show thesis by (rule that [OF a c(2,1) p [symmetric]]) (rule c(3) [unfolded p])
qed

lemma publish_plan_table:
  assumes "publish_plan plan g (s, sys) = (Inr p, s', sys')"
  shows "rs_plans s' = pop_to_bound (rc_max_plans (rs_config s)) (rs_plans s @ [plan])" "rs_plan_counter s' = g"
proof -
  obtain s1 sys1 where c: "commit PlanDecision (plan_encode plan) (s, sys) = (Inr (), s1, sys1)"
    and s': "s' = bump sx_plans_computed_update (evict_bounded_tables
      (s1\<lparr>rs_plan_counter := g, rs_plans := rs_plans s1 @ [plan]\<rparr>))"
    using assms by (auto simp: publish_plan_def split: prod.splits sum.splits)
  show "rs_plans s' = pop_to_bound (rc_max_plans (rs_config s)) (rs_plans s @ [plan])" "rs_plan_counter s' = g"
    unfolding s' by (simp_all add: commitD [OF c])
qed

lemma degraded_claims_nothing: "\<not> claims_containment (degrade_conflicting p)"
  by (simp add: degrade_conflicting_def claims_containment_def)

lemma published_claim:
  assumes "inv_model s" and "rt_plan i now (s, sys) = Some (Inr plan, s', sys')" and "claims_containment plan"
  obtains t c where "rs_topology s = Some t" "\<not> rs_conflict s" "authorized i False now s"
    "valid_inputs (plan_inputs_of s) t (rs_evidence s) (rs_policy s)"
    "compute_plan (plan_inputs_of s) (current_authority s) (rs_plan_counter s + 1) = Some (Inr c)" "plan = pl_plan c"
proof -
  obtain c where c: "authorized i False now s" "rs_topology s \<noteq> None"
    "compute_plan (plan_inputs_of s) (current_authority s) (rs_plan_counter s + 1) = Some (Inr c)"
    "plan = (if rs_conflict s then degrade_conflicting (pl_plan c) else pl_plan c)"
    using rt_plan_published [OF assms(2)] by blast
  have "\<not> rs_conflict s" using c(4) assms(3) degraded_claims_nothing by auto
  then show thesis using that c current_inputs_valid [OF assms(1)] by auto
qed

subsection \<open>Boundaries\<close>

text \<open>A boundary that was built, or the default one of a plan that contains nothing.\<close>

definition sound_boundary :: "boundary \<Rightarrow> bool" where
  "sound_boundary b \<longleftrightarrow> wf_boundary b \<or> b = default_boundary"

definition member_ids :: "boundary \<Rightarrow> resource_id set" where
  "member_ids b = bm_resource ` set (b_members b)"

lemma default_members [simp]: "b_members default_boundary = []"
  by (simp add: default_boundary_def)

lemma subset_iff: "sound_boundary other \<Longrightarrow> is_subset_of b other \<longleftrightarrow> member_ids b \<subseteq> member_ids other"
proof -
  have "\<not> boundary_contains default_boundary r" for r
    using std_lower_bound_le [of bm_resource "[] :: boundary_member list" r]
    by (simp add: boundary_contains_def boundary_find_def Let_def)
  then show "sound_boundary other \<Longrightarrow> ?thesis"
    using is_subset_of_iff [of other b]
    by (auto simp: sound_boundary_def member_ids_def is_subset_of_def)
qed

lemma sound_sorted: "sound_boundary b \<Longrightarrow> sorted_wrt (<) (map bm_resource (b_members b))"
  by (auto simp: sound_boundary_def wf_boundary_def wf_members_def)

lemma same_iff:
  assumes "sound_boundary b" and "sound_boundary other"
  shows "same_members b other \<longleftrightarrow> member_ids b = member_ids other"
proof -
  have "same_members b other \<longleftrightarrow> map bm_resource (b_members b) = map bm_resource (b_members other)"
    unfolding same_members_def
    by (subst list_eq_iff_nth_eq) (simp add: Ball_def cong: conj_cong)
  also have "\<dots> \<longleftrightarrow> set (map bm_resource (b_members b)) = set (map bm_resource (b_members other))"
    using strict_sorted_equal [OF sound_sorted [OF assms(1)] sound_sorted [OF assms(2)]] by metis
  finally show ?thesis by (simp add: member_ids_def)
qed

lemma compute_plan_boundary:
  assumes "valid_inputs inputs t v policy" and "compute_plan inputs authority generation = Some (Inr c)"
  shows "sound_boundary (p_boundary (pl_plan c))"
  using assms
proof (cases rule: compute_plan_cases)
  case quiet
  then show ?thesis using plan_no_failures_result by (simp add: sound_boundary_def)
next
  case missing
  then show ?thesis using plan_all_missing_result by (simp add: sound_boundary_def)
next
  case unprotected
  then show ?thesis
    using boundary_create_wf [OF plan_no_obligations_result(1) [OF unprotected(3)]] by (simp add: sound_boundary_def)
next
  case (solved p plan)
  with assms show ?thesis
    by (elim solved_plan_cases) (auto simp: solution_plan_def sound_boundary_def Let_def)
qed

lemma boundary_decode_sound: "boundary_decode bytes = Inr b \<Longrightarrow> sound_boundary b"
  by (auto simp: boundary_decode_def Let_def case_prod_beta try_result_Inr_iff sound_boundary_def
      dest: boundary_create_wf split: if_splits)

text \<open>The boundary decision a state holds, and the plans one can be taken from.\<close>

definition keeps_decision :: "runtime_state \<Rightarrow> runtime_state \<Rightarrow> bool" where
  "keeps_decision s s' \<longleftrightarrow> rs_boundary s' = rs_boundary s \<and> rs_boundary_plan s' = rs_boundary_plan s \<and>
     rs_boundary_plan_digest s' = rs_boundary_plan_digest s \<and> set (rs_plans s') \<subseteq> set (rs_plans s)"

lemma keeps_decision_refl [simp]: "keeps_decision s s"
  by (simp add: keeps_decision_def)

lemma keeps_decision_evict: "keeps_decision s s1 \<Longrightarrow> keeps_decision s (evict_bounded_tables s1)"
  using set_pop_to_bound by (fastforce simp: keeps_decision_def)

lemma keeps_decision_frame [simp]:
  "keeps_decision s (bump c s1) = keeps_decision s s1"
  "keeps_decision s (recompute_effect_state s1) = keeps_decision s s1"
  "keeps_decision s (update_attempt i f s1) = keeps_decision s s1"
  "keeps_decision s (confirm_evidence r s1) = keeps_decision s s1"
  "keeps_decision s (s1\<lparr>rs_conflict := b\<rparr>) = keeps_decision s s1"
  "keeps_decision s (s1\<lparr>rs_policy := p\<rparr>) = keeps_decision s s1"
  "keeps_decision s (s1\<lparr>rs_topology := t, rs_graph := g\<rparr>) = keeps_decision s s1"
  "keeps_decision s (s1\<lparr>rs_attempt_counter := n\<rparr>) = keeps_decision s s1"
  "keeps_decision s (s1\<lparr>rs_transitions := ts\<rparr>) = keeps_decision s s1"
  "keeps_decision s (s1\<lparr>rs_attempts := as, rs_effect_state := e\<rparr>) = keeps_decision s s1"
  "keeps_decision s (s1\<lparr>rs_evidence := v, rs_evidence_revision := q, rs_detections := ds\<rparr>) = keeps_decision s s1"
  "keeps_decision s (s1\<lparr>rs_store := st\<rparr>) = keeps_decision s s1"
  "keeps_decision s (s1\<lparr>rs_store := st, rs_sequence := q\<rparr>) = keeps_decision s s1"
  by (simp_all add: keeps_decision_def update_attempt_def confirm_evidence_def)

lemma keeps_decision_from [simp]:
  "keeps_decision (s\<lparr>rs_transition_counter := n\<rparr>) s1 = keeps_decision s s1"
  "keeps_decision (bump c s) s1 = keeps_decision s s1"
  "keeps_decision (s\<lparr>rs_attempt_counter := k\<rparr>) s1 = keeps_decision s s1"
  "keeps_decision (update_attempt i f s) s1 = keeps_decision s s1"
  by (simp_all add: keeps_decision_def update_attempt_def)

lemma keeps_decision_trans: "keeps_decision s s1 \<Longrightarrow> keeps_decision s1 s2 \<Longrightarrow> keeps_decision s s2"
  by (auto simp: keeps_decision_def)

lemma commit_keeps: "commit t payload (s, sys) = (r, s', sys') \<Longrightarrow> keeps_decision s s'"
  by (simp add: keeps_decision_def commitD)

lemma validate_keeps: "validate_authorization i req now s = (r, s') \<Longrightarrow> keeps_decision s s'"
  by (simp add: keeps_decision_def validate_frame)

subsection \<open>Transitions\<close>

text \<open>The relation of sets that a kind of transition stands for.\<close>

definition transition_permitted :: "transition_kind \<Rightarrow> containment_plan \<Rightarrow> boundary option \<Rightarrow> bool" where
  "transition_permitted kind plan current \<longleftrightarrow>
     (case kind of
        Expand \<Rightarrow> \<forall>b. current = Some b \<longrightarrow> member_ids b \<subseteq> member_ids (p_boundary plan)
      | Contract \<Rightarrow> \<exists>b. current = Some b \<and> member_ids (p_boundary plan) \<subset> member_ids b
      | Release \<Rightarrow> p_claim plan = ClaimProvenContainment \<and> member_ids (p_boundary plan) = {})"

lemma transition_kind_refused_iff:
  assumes "sound_boundary (p_boundary plan)" and "\<And>b. current = Some b \<Longrightarrow> sound_boundary b"
  shows "transition_kind_refused kind plan current = None \<longleftrightarrow> transition_permitted kind plan current"
  using assms
  by (cases kind; cases current)
    (auto simp: transition_kind_refused_def transition_permitted_def is_superset_of_def subset_iff same_iff
      is_releasable_def member_ids_def)

text \<open>Everything that must hold for a transition to be accepted, read off the state.\<close>

definition transition_justified :: "transition_request \<Rightarrow> u64 \<Rightarrow> runtime_state \<Rightarrow> containment_plan \<Rightarrow> bool" where
  "transition_justified request now s plan \<longleftrightarrow>
     authorized (tq_authorization request) False now s \<and>
     find_plan s (tq_plan request) = Some plan \<and> p_digest plan = tq_plan_digest request \<and>
     tq_expected_released request = (rs_boundary s = None) \<and>
     tq_expected_boundary request = (case rs_boundary s of None \<Rightarrow> 0 | Some b \<Rightarrow> b_generation b) \<and>
     (rs_boundary s = None \<or> is_verified_effect (rs_effect_state s)) \<and>
     transition_kind_refused (tq_kind request) plan (rs_boundary s) = None \<and>
     (rs_boundary_plan s = 0 \<or> rs_boundary_plan s < p_generation plan)"

text \<open>The decision in force after the transition.\<close>

definition installs_decision :: "transition_kind \<Rightarrow> containment_plan \<Rightarrow> runtime_state \<Rightarrow> bool" where
  "installs_decision kind plan s \<longleftrightarrow>
     rs_boundary s = (if kind = Release then None else Some (p_boundary plan)) \<and>
     rs_boundary_plan s = p_generation plan \<and> rs_boundary_plan_digest s = p_digest plan \<and>
     rs_effect_state s = EffNotRequested \<and> \<not> rs_requires_reverification s"

lemma fail_transition_result:
  assumes "fail_transition d status code reason text (s, sys) = (r, s', sys')"
  shows "keeps_decision s s' \<and> (\<forall>x. r = Inr x \<longrightarrow> td_status x = status)"
  using assms commit_keeps [of TransitionDecision _ s sys]
  by (auto simp: fail_transition_def Let_def elim!: rt_bind_cases intro!: keeps_decision_evict)

lemma accept_transition_result:
  assumes "accept_transition d plan (s, sys) = (r, s', sys')"
  shows "(\<exists>e. r = Inl e) \<and> keeps_decision s s' \<or>
    (\<exists>x. r = Inr x \<and> td_status x = td_status d) \<and> set (rs_plans s') \<subseteq> set (rs_plans s) \<and>
      rs_boundary s' = (if td_to_released d then None else Some (p_boundary plan)) \<and>
      rs_boundary_plan s' = p_generation plan \<and> rs_boundary_plan_digest s' = p_digest plan \<and>
      rs_effect_state s' = EffNotRequested \<and> \<not> rs_requires_reverification s'"
proof -
  let ?next = "\<lambda>_ (s, sys). let d1 = d\<lparr>td_sequence := rs_sequence s\<rparr>; released = td_to_released d
       in rt_bind (commit BoundaryDecision (encode_boundary_decision (boundary_decision_of plan released)))
            (\<lambda>_ (s, sys).
              let s1 = s\<lparr>rs_boundary := (if released then None else Some (p_boundary plan)),
                    rs_boundary_plan := p_generation plan, rs_boundary_plan_digest := p_digest plan,
                    rs_boundary_counter := (if released then rs_boundary_counter s
                                            else b_generation (p_boundary plan)),
                    rs_effect_state := EffNotRequested, rs_requires_reverification := False,
                    rs_transitions := rs_transitions s @ [d1]\<rparr>
              in (Inr d1, bump sx_transitions_accepted_update (evict_bounded_tables s1), sys)) (s, sys)"
  have "rt_bind (commit TransitionDecision (encode_transition d)) ?next (s, sys) = (r, s', sys')"
    using assms unfolding accept_transition_def .
  then show ?thesis
  proof (cases rule: rt_bind_cases)
    case (stop e)
    then show ?thesis using commit_keeps by blast
  next
    case (go x w1)
    obtain s1 sys1 where w: "w1 = (s1, sys1)" by fastforce
    have c1: "keeps_decision s s1" using commit_keeps go(1) w by blast
    have "rt_bind (commit BoundaryDecision (encode_boundary_decision (boundary_decision_of plan (td_to_released d))))
            (\<lambda>_ (s, sys).
              let s2 = s\<lparr>rs_boundary := (if td_to_released d then None else Some (p_boundary plan)),
                    rs_boundary_plan := p_generation plan, rs_boundary_plan_digest := p_digest plan,
                    rs_boundary_counter := (if td_to_released d then rs_boundary_counter s
                                            else b_generation (p_boundary plan)),
                    rs_effect_state := EffNotRequested, rs_requires_reverification := False,
                    rs_transitions := rs_transitions s @ [d\<lparr>td_sequence := rs_sequence s1\<rparr>]\<rparr>
              in (Inr (d\<lparr>td_sequence := rs_sequence s1\<rparr>), bump sx_transitions_accepted_update (evict_bounded_tables s2), sys))
          (s1, sys1) = (r, s', sys')"
      using go(2) unfolding w by (simp only: Let_def prod.case)
    then show ?thesis
    proof (cases rule: rt_bind_cases)
      case (stop e)
      then show ?thesis using c1 keeps_decision_trans commit_keeps by blast
    next
      case (go y w2)
      obtain s2 sys2 where w2: "w2 = (s2, sys2)" by fastforce
      have "keeps_decision s s2" using c1 keeps_decision_trans commit_keeps go(1) w2 by blast
      then have "set (rs_plans s2) \<subseteq> set (rs_plans s)" by (simp add: keeps_decision_def)
      then show ?thesis
        using go(2) set_pop_to_bound unfolding w2 by (fastforce simp: Let_def)
    qed
  qed
qed

lemma decide_transition_result:
  assumes "decide_transition request d plan (s, sys) = (r, s', sys')"
  shows "keeps_decision s s' \<and> (\<forall>x. r = Inr x \<longrightarrow> td_status x \<noteq> TrAccepted) \<or>
    (\<exists>x. r = Inr x \<and> td_status x = TrAccepted) \<and> set (rs_plans s') \<subseteq> set (rs_plans s) \<and>
      tq_expected_released request = (rs_boundary s = None) \<and>
      tq_expected_boundary request = (case rs_boundary s of None \<Rightarrow> 0 | Some b \<Rightarrow> b_generation b) \<and>
      (rs_boundary s = None \<or> is_verified_effect (rs_effect_state s)) \<and>
      transition_kind_refused (tq_kind request) plan (rs_boundary s) = None \<and>
      (rs_boundary_plan s = 0 \<or> rs_boundary_plan s < p_generation plan) \<and>
      installs_decision (tq_kind request) plan s'"
proof -
  let ?gen = "case rs_boundary s of None \<Rightarrow> 0 | Some b \<Rightarrow> b_generation b"
  let ?d = "d\<lparr>td_from_generation := ?gen,
      td_from_digest := (case rs_boundary s of None \<Rightarrow> zero_digest | Some b \<Rightarrow> b_digest b),
      td_observed_effect := rs_effect_state s\<rparr>"
  have refused: ?thesis if "fail_transition e status code reason msg (s, sys) = (r, s', sys')"
    "status \<noteq> TrAccepted" for e status code reason msg
    using fail_transition_result [OF that(1)] that(2) by blast
  have kinds: "status \<noteq> TrAccepted"
    if "transition_kind_refused (tq_kind request) plan (rs_boundary s) = Some (status, code, reason, msg)"
    for status code reason msg
    using that by (auto simp: transition_kind_refused_def split: transition_kind.splits if_splits)
  show ?thesis
  proof (cases "?gen \<noteq> tq_expected_boundary request \<or> tq_expected_released request \<noteq> (rs_boundary s = None) \<or>
      rs_boundary s \<noteq> None \<and> \<not> is_verified_effect (rs_effect_state s)")
    case True
    then consider "?gen \<noteq> tq_expected_boundary request"
      | "?gen = tq_expected_boundary request" "tq_expected_released request \<noteq> (rs_boundary s = None)"
      | "?gen = tq_expected_boundary request" "tq_expected_released request = (rs_boundary s = None)"
        "rs_boundary s \<noteq> None \<and> \<not> is_verified_effect (rs_effect_state s)"
      by satx
    then show ?thesis
    proof cases
      case 1
      then have "fail_transition ?d TrStale StaleGeneration RcTransitionStaleGeneration
          ''current boundary generation does not match the request'' (s, sys) = (r, s', sys')"
        using assms by (simp add: decide_transition_def Let_def)
      then show ?thesis by (rule refused) simp
    next
      case 2
      then have "fail_transition ?d TrStale StaleGeneration RcTransitionStaleGeneration
          ''current boundary presence does not match the request'' (s, sys) = (r, s', sys')"
        using assms by (simp add: decide_transition_def Let_def)
      then show ?thesis by (rule refused) simp
    next
      case 3
      then have "fail_transition (?d\<lparr>td_required_effect := EffVerifiedApplied\<rparr>) TrIndeterminate CodeAmbiguous
          RcTransitionDeniedUnverifiedEffect ''current boundary effect is not verified'' (s, sys) = (r, s', sys')"
        using assms by (simp add: decide_transition_def Let_def)
      then show ?thesis by (rule refused) simp
    qed
  next
    case checked: False
    show ?thesis
    proof (cases "transition_kind_refused (tq_kind request) plan (rs_boundary s)")
      case (Some x)
      then show ?thesis
        using assms checked refused kinds
        by (cases x; cases "rs_boundary s") (simp_all add: decide_transition_def Let_def)
    next
      case None
      show ?thesis
      proof (cases "\<not> p_generation plan > rs_boundary_plan s \<and> rs_boundary_plan s \<noteq> 0")
        case True
        then have "fail_transition (?d\<lparr>td_effect_verified := True\<rparr>) TrStale StaleGeneration
            RcTransitionSupersededByNewerPlan ''a newer boundary decision is already in force'' (s, sys) = (r, s', sys')"
          using assms checked None by (cases "rs_boundary s") (simp_all add: decide_transition_def Let_def)
        then show ?thesis by (rule refused) simp
      next
        case False
        let ?a = "accepted_decision (?d\<lparr>td_effect_verified := True\<rparr>) (tq_kind request) plan"
        have "accept_transition ?a plan (s, sys) = (r, s', sys')"
          using assms checked None False
          by (cases "rs_boundary s") (auto simp: decide_transition_def Let_def)
        moreover have "td_status ?a = TrAccepted" "td_to_released ?a = (tq_kind request = Release)"
          by (simp_all add: accepted_decision_def Let_def)
        ultimately show ?thesis
          using accept_transition_result [of ?a plan s sys r s' sys'] checked None False
          by (auto simp: installs_decision_def)
      qed
    qed
  qed
qed

text \<open>A transition keeps the decision or is accepted, justified and installed.\<close>

lemma transition_result:
  assumes "transition request now (s, sys) = (r, s', sys')"
  shows "keeps_decision s s' \<and> (\<forall>x. r = Inr x \<longrightarrow> td_status x \<noteq> TrAccepted) \<or>
    (\<exists>plan x. r = Inr x \<and> td_status x = TrAccepted \<and> transition_justified request now s plan \<and>
      set (rs_plans s') \<subseteq> set (rs_plans s) \<and> installs_decision (tq_kind request) plan s')"
proof -
  let ?s = "s\<lparr>rs_transition_counter := rs_transition_counter s + 1\<rparr>"
  obtain r1 s1 where v: "validate_authorization (tq_authorization request) False now ?s = (r1, s1)" by fastforce
  have k: "keeps_decision s s1" using validate_keeps [OF v] by simp
  have refused: ?thesis if "fail_transition e status code reason msg (s2, sys) = (r, s', sys')"
    "status \<noteq> TrAccepted" "keeps_decision s s2" for e status code reason msg s2
    using fail_transition_result [OF that(1)] that(2,3) keeps_decision_trans by blast
  show ?thesis
  proof (cases r1)
    case (Inl e)
    then show ?thesis using assms v k refused by (simp add: transition_def Let_def)
  next
    case (Inr rec)
    then have a: "authorized (tq_authorization request) False now ?s" and s1: "s1 = ?s"
      using validate_authorization_ok v by blast+
    have a': "authorized (tq_authorization request) False now s"
      using a by (simp add: authorized_def find_authorization_def current_authority_def)
    have fp: "find_plan ?s = find_plan s" by (rule ext) (simp add: find_plan_def)
    show ?thesis
    proof (cases "find_plan s (tq_plan request)")
      case None
      then show ?thesis using assms v Inr s1 k refused fp by (simp add: transition_def Let_def)
    next
      case (Some plan)
      show ?thesis
      proof (cases "p_digest plan = tq_plan_digest request")
        case False
        then show ?thesis using assms v Inr s1 k refused fp Some by (simp add: transition_def Let_def)
      next
        case True
        then have d: "decide_transition request (new_decision request ?s) plan (?s, sys) = (r, s', sys')"
          using assms v Inr s1 fp Some by (simp add: transition_def Let_def)
        from decide_transition_result [OF d] show ?thesis
          using a' Some True by (auto simp: transition_justified_def)
      qed
    qed
  qed
qed

subsection \<open>The other steps\<close>

lemma same_members_trans: "same_members a b \<Longrightarrow> same_members b c \<Longrightarrow> same_members a c"
  by (auto simp: same_members_def)

lemma submit_apply_keeps:
  assumes "submit_apply request now later (s, sys) = (r, s', sys')"
  shows "keeps_decision s s'"
proof -
  obtain r1 s1 where v: "validate_authorization (sq_authorization request) True now s = (r1, s1)" by fastforce
  have k: "keeps_decision s s1" by (rule validate_keeps [OF v])
  have c: "keeps_decision s s2" if "commit ApplyAttempt p (s1\<lparr>rs_attempt_counter := n\<rparr>, sys) = (x, s2, sys2)" for p n x s2 sys2
    using keeps_decision_trans [OF k] commit_keeps [OF that] by simp
  show ?thesis
    using assms v k
    by (auto simp: submit_apply_def Let_def elim!: rt_bind_cases intro!: keeps_decision_evict dest!: c
        split: sum.splits option.splits if_splits)
qed

lemma acknowledge_keeps:
  assumes "acknowledge k now (s, sys) = (r, s', sys')"
  shows "keeps_decision s s'"
proof -
  have c: "keeps_decision s s2" if "commit ApplyAcknowledgement p (update_attempt i f s, sys) = (x, s2, sys2)" for p i f x s2 sys2
    using commit_keeps [OF that] by simp
  show ?thesis
    using assms
    by (auto simp: acknowledge_def Let_def elim!: rt_bind_cases dest!: c split: sum.splits option.splits if_splits)
qed

text \<open>A verification adopts a retained plan with the members of the boundary, or changes nothing.\<close>

definition reasserts_decision :: "runtime_state \<Rightarrow> runtime_state \<Rightarrow> bool" where
  "reasserts_decision s s' \<longleftrightarrow> keeps_decision s s' \<or>
     (\<exists>plan b. plan \<in> set (rs_plans s) \<and> rs_boundary s = Some b \<and> same_members (p_boundary plan) b \<and>
        rs_boundary s' = Some (p_boundary plan) \<and> set (rs_plans s') \<subseteq> set (rs_plans s))"

lemma keeps_reasserts: "keeps_decision s s' \<Longrightarrow> reasserts_decision s s'"
  by (simp add: reasserts_decision_def)

lemma reasserts_frame [simp]:
  "reasserts_decision s (bump c s1) = reasserts_decision s s1"
  "reasserts_decision s (recompute_effect_state s1) = reasserts_decision s s1"
  by (simp_all add: reasserts_decision_def)

lemma keeps_reasserts_trans: "keeps_decision s s1 \<Longrightarrow> reasserts_decision s1 s2 \<Longrightarrow> reasserts_decision s s2"
  by (auto simp: reasserts_decision_def keeps_decision_def)

lemma adopt_decision_result: "reasserts_decision s (adopt_decision a s)"
proof (cases "\<not> is_verified_effect (at_state a)")
  case True
  then show ?thesis by (simp add: adopt_decision_def keeps_reasserts)
next
  case False
  show ?thesis
  proof (cases "find_plan s (ai_plan (at_id a)) = None \<or> rs_boundary s = None")
    case True
    then have "find_plan (s\<lparr>rs_requires_reverification := False\<rparr>) (ai_plan (at_id a)) = None \<or> rs_boundary s = None"
      by (simp add: find_plan_def)
    then have "adopt_decision a s = s\<lparr>rs_requires_reverification := False\<rparr>"
      using False by (auto simp: adopt_decision_def Let_def split: option.splits)
    then show ?thesis by (simp add: keeps_decision_def reasserts_decision_def)
  next
    case f: False
    then obtain plan b where p: "find_plan s (ai_plan (at_id a)) = Some plan" "rs_boundary s = Some b" by auto
    then have m: "plan \<in> set (rs_plans s)" using find_Some_in by (fastforce simp: find_plan_def)
    show ?thesis
      using p m False
      by (cases "same_members (p_boundary plan) b")
        (auto simp: adopt_decision_def Let_def keeps_decision_def reasserts_decision_def find_plan_def)
  qed
qed

lemma verify_effect_result:
  assumes "verify_effect v now (s, sys) = (r, s', sys')"
  shows "reasserts_decision s s'"
proof -
  have c: "keeps_decision s s2" if "commit EffectVerification p (update_attempt i f s, sys) = (x, s2, sys2)" for p i f x s2 sys2
    using commit_keeps [OF that] by simp
  show ?thesis
    using assms
    by (auto simp: verify_effect_def Let_def keeps_reasserts keeps_reasserts_trans [OF _ adopt_decision_result]
        elim!: rt_bind_cases dest!: c
        split: sum.splits option.splits if_splits prod.splits)
qed

subsection \<open>Every step\<close>

text \<open>What one operation can do to the decision in force and to the plans.\<close>

lemma detection_keeps:
  assumes "record_detection obs (s, sys) = (r, s', sys')"
  shows "keeps_decision s s'"
  using assms commit_keeps [of DetectionRecord _ s sys]
  by (auto simp: record_detection_def Let_def elim!: rt_bind_cases intro!: keeps_decision_evict
      split: sum.splits if_splits)

lemma topology_keeps:
  assumes "apply_topology spec (s, sys) = (r, s', sys')"
  shows "keeps_decision s s'"
  using assms commit_keeps [of TopologyDefinition _ s sys]
  by (auto simp: apply_topology_def elim!: rt_bind_cases split: sum.splits if_splits)

lemma policy_keeps:
  assumes "apply_policy p (s, sys) = (r, s', sys')"
  shows "keeps_decision s s'"
  using assms commit_keeps [of PolicyDefinition _ s sys]
  by (auto simp: apply_policy_def elim!: rt_bind_cases split: sum.splits if_splits)

lemma authorize_keeps: "authorize now (s, sys) = (r, s', sys') \<Longrightarrow> keeps_decision s s'"
  by (auto simp: authorize_def Let_def keeps_decision_def split: if_splits)

lemma checkpoint_keeps: "checkpoint (s, sys) = (r, s', sys') \<Longrightarrow> keeps_decision s s'"
  by (auto simp: checkpoint_def split: option.splits prod.splits sum.splits)

lemma rt_plan_keeps:
  assumes "rt_plan i now (s, sys) = Some (r, s', sys')"
  shows "rs_boundary s' = rs_boundary s \<and> rs_boundary_plan s' = rs_boundary_plan s \<and>
    (\<forall>p \<in> set (rs_plans s'). p \<in> set (rs_plans s) \<or> r = Inr p)"
proof -
  obtain r1 s1 where v: "validate_authorization i False now s = (r1, s1)" by fastforce
  note f = validate_frame [OF v]
  show ?thesis
  proof (cases r)
    case (Inr plan)
    then obtain c where p: "publish_plan plan (rs_plan_counter s + 1) (s, sys) = (Inr plan, s', sys')"
      using rt_plan_published assms by metis
    have "rs_boundary s' = rs_boundary s \<and> rs_boundary_plan s' = rs_boundary_plan s"
      using p by (auto simp: publish_plan_def commitD split: prod.splits sum.splits)
    then show ?thesis
      using publish_plan_table(1) [OF p] set_pop_to_bound [of _ "rs_plans s @ [plan]"] Inr by auto
  next
    case (Inl e)
    have c: "rs_boundary s2 = rs_boundary s \<and> rs_boundary_plan s2 = rs_boundary_plan s \<and> rs_plans s2 = rs_plans s"
      if "commit PlanDecision p (s1, sys) = (x, s2, sys2)" for p x s2 sys2
      using commitD [OF that] f by simp
    have pub: "rs_boundary s' = rs_boundary s \<and> rs_boundary_plan s' = rs_boundary_plan s \<and> rs_plans s' = rs_plans s"
      if "publish_plan p g (s1, sys) = (Inl e, s', sys')" for p g
      using that by (auto simp: publish_plan_def dest!: c split: prod.splits sum.splits)
    have "rs_boundary s' = rs_boundary s \<and> rs_boundary_plan s' = rs_boundary_plan s \<and> rs_plans s' = rs_plans s"
      using assms v f pub unfolding Inl
      by (auto simp: rt_plan_def Let_def split: sum.splits option.splits if_splits)
    then show ?thesis by simp
  qed
qed

lemma step_decision_cases:
  assumes "rt_step (s, sys) (s', sys')"
  obtains (kept) "keeps_decision s s'"
  | (planned) i now r where "rt_plan i now (s, sys) = Some (r, s', sys')"
      "rs_boundary s' = rs_boundary s" "rs_boundary_plan s' = rs_boundary_plan s"
      "\<And>p. p \<in> set (rs_plans s') \<Longrightarrow> p \<in> set (rs_plans s) \<or> r = Inr p"
  | (accepted) request now plan where "transition_justified request now s plan"
      "set (rs_plans s') \<subseteq> set (rs_plans s)" "installs_decision (tq_kind request) plan s'"
  | (reasserted) plan b where "plan \<in> set (rs_plans s)" "rs_boundary s = Some b"
      "same_members (p_boundary plan) b" "rs_boundary s' = Some (p_boundary plan)"
      "set (rs_plans s') \<subseteq> set (rs_plans s)"
  using assms
proof (cases rule: rt_step.cases)
  case (step_plan i now r)
  then show ?thesis using planned rt_plan_keeps by blast
next
  case (step_transition request now r)
  then show ?thesis using kept accepted transition_result [OF step_transition] by blast
next
  case (step_verify v now r)
  then show ?thesis using kept reasserted verify_effect_result [OF step_verify]
    unfolding reasserts_decision_def by blast
qed (blast intro: kept topology_keeps policy_keeps detection_keeps authorize_keeps submit_apply_keeps
    acknowledge_keeps checkpoint_keeps)+

end
