(* ===== verification/Runtime_Boundaries.thy ===== *)
theory Runtime_Boundaries
  imports Runtime_Safety
begin

section \<open>The boundaries a reachable state holds\<close>

text \<open>
  A second invariant: the boundary of every retained plan and the boundary in force were built
  by \<open>Boundary::create\<close> (or are the default one), whether the planner computed them, replay
  decoded them or a snapshot restored them. With it the relations the code tests member by
  member are relations of sets.
\<close>

definition sound_plan :: "containment_plan \<Rightarrow> bool" where
  "sound_plan p \<longleftrightarrow> sound_boundary (p_boundary p)"

definition inv_boundaries :: "runtime_state \<Rightarrow> bool" where
  "inv_boundaries s \<longleftrightarrow> (\<forall>p \<in> set (rs_plans s). sound_plan p) \<and>
     (\<forall>b. rs_boundary s = Some b \<longrightarrow> sound_boundary b)"

subsection \<open>What decoding yields\<close>

definition yields :: "('a \<Rightarrow> bool) \<Rightarrow> 'a result \<Rightarrow> bool" where
  "yields P r \<longleftrightarrow> (\<forall>x. r = Inr x \<longrightarrow> P x)"

lemma yields_try: "(\<And>x. m = Inr x \<Longrightarrow> yields P (f x)) \<Longrightarrow> yields P (try_result m f)"
  by (auto simp: yields_def try_result_Inr_iff)

lemma yields_prod: "(\<And>a b. x = (a, b) \<Longrightarrow> yields P (f a b)) \<Longrightarrow> yields P (case x of (a, b) \<Rightarrow> f a b)"
  by (cases x) simp

lemma yields_let: "yields P (f x) \<Longrightarrow> yields P (let y = x in f y)"
  by simp

lemma yields_if: "yields P a \<Longrightarrow> yields P b \<Longrightarrow> yields P (if c then a else b)"
  by simp

lemma yields_option: "yields P a \<Longrightarrow> (\<And>y. x = Some y \<Longrightarrow> yields P (f y)) \<Longrightarrow>
    yields P (case x of None \<Rightarrow> a | Some y \<Rightarrow> f y)"
  by (cases x) simp_all

lemma yields_err: "yields P (Inl e)" "yields P (err code message)"
  by (simp_all add: yields_def err_def)

lemma yields_ok: "P x \<Longrightarrow> yields P (Inr x)"
  by (simp add: yields_def)

lemmas yields_intros = yields_try yields_prod yields_let yields_if yields_option yields_err yields_ok

lemma read_loop_all:
  assumes "\<And>r x r'. f r = Inr (x, r') \<Longrightarrow> P x" and "\<forall>x \<in> set acc. P x"
  shows "read_loop n f acc r = Inr (xs, r') \<Longrightarrow> \<forall>x \<in> set xs. P x"
  using assms(2)
proof (induction n arbitrary: acc r)
  case (Suc n)
  then show ?case using assms(1) by (fastforce simp: try_result_Inr_iff)
qed simp

lemma read_table_all:
  assumes "\<And>bytes x. dec bytes = Inr x \<Longrightarrow> P x"
  shows "yields (\<lambda>(xs, r'). \<forall>x \<in> set xs. P x) (read_table bound m dec r)"
proof -
  have "P x" if "read_embedded dec r = Inr (x, r')" for r x r'
    using that assms by (auto simp: read_embedded_def case_prod_beta try_result_Inr_iff Let_def)
  then have "yields (\<lambda>(xs, r'). \<forall>x \<in> set xs. P x) (read_loop n (read_embedded dec) [] r)" for n r
    using read_loop_all [of "read_embedded dec" P "[]" n r] by (auto simp: yields_def)
  then show ?thesis unfolding read_table_def by (intro yields_intros)
qed

lemma plan_decode_sound: "plan_decode bytes = Inr p \<Longrightarrow> sound_plan p"
proof -
  have "yields sound_plan (read_plan bytes)"
    unfolding read_plan_def
    by (intro yields_intros) (simp add: sound_plan_def boundary_decode_sound)
  then show "plan_decode bytes = Inr p \<Longrightarrow> sound_plan p"
    by (auto simp: plan_decode_def yields_def try_result_Inr_iff split: if_splits)
qed

lemma decode_durable_state_plans:
  assumes "decode_durable_state bytes = Inr d"
  shows "\<forall>p \<in> set (ds_plans d). sound_plan p"
proof -
  have t: "\<forall>p \<in> set plans. sound_plan p" if "read_table b m plan_decode r = Inr (plans, r')" for b m r plans r'
    using read_table_all [of plan_decode sound_plan b m r] that plan_decode_sound by (auto simp: yields_def)
  have "yields (\<lambda>d. \<forall>p \<in> set (ds_plans d). sound_plan p) (decode_durable_state bytes)"
    unfolding decode_durable_state_def
    by (intro yields_intros) (simp add: t)
  then show ?thesis using assms by (simp add: yields_def)
qed

subsection \<open>Every step keeps them\<close>

lemma published_sound:
  assumes "inv_model s" and "rt_plan i now (s, sys) = Some (Inr plan, s', sys')"
  shows "sound_plan plan"
proof -
  obtain c where c: "rs_topology s \<noteq> None"
    "compute_plan (plan_inputs_of s) (current_authority s) (rs_plan_counter s + 1) = Some (Inr c)"
    "plan = (if rs_conflict s then degrade_conflicting (pl_plan c) else pl_plan c)"
    using rt_plan_published [OF assms(2)] by blast
  then have "sound_boundary (p_boundary (pl_plan c))"
    using compute_plan_boundary [OF current_inputs_valid [OF assms(1)]] by blast
  then show ?thesis using c(3) by (simp add: sound_plan_def degrade_conflicting_def)
qed

lemma step_boundaries:
  assumes "rt_step (s, sys) (s', sys')" and "rt_inv s" and "inv_boundaries s"
  shows "inv_boundaries s'"
  using assms(1)
proof (cases rule: step_decision_cases)
  case kept
  then show ?thesis using assms(3) by (auto simp: keeps_decision_def inv_boundaries_def)
next
  case (planned i now r)
  have "inv_model s" using assms(2) by (simp add: rt_inv_def)
  then show ?thesis
    using planned assms(3) published_sound unfolding inv_boundaries_def by metis
next
  case (accepted request now plan)
  have "plan \<in> set (rs_plans s)"
    using accepted(1) find_Some_in by (fastforce simp: transition_justified_def find_plan_def)
  then show ?thesis
    using accepted assms(3)
    by (auto simp: inv_boundaries_def installs_decision_def sound_plan_def split: if_splits)
next
  case (reasserted plan b)
  then show ?thesis using assms(3) by (auto simp: inv_boundaries_def sound_plan_def)
qed

subsection \<open>Opening establishes them\<close>

lemma inv_boundaries_frame [simp]:
  "inv_boundaries (s\<lparr>rs_topology := t\<rparr>) = inv_boundaries s"
  "inv_boundaries (s\<lparr>rs_policy := p\<rparr>) = inv_boundaries s"
  "inv_boundaries (s\<lparr>rs_evidence := v\<rparr>) = inv_boundaries s"
  "inv_boundaries (s\<lparr>rs_attempts := as\<rparr>) = inv_boundaries s"
  "inv_boundaries (s\<lparr>rs_transition_counter := x0\<rparr>) = inv_boundaries s"
  "inv_boundaries (s\<lparr>rs_transitions := x1\<rparr>) = inv_boundaries s"
  "inv_boundaries (s\<lparr>rs_detections := x2\<rparr>) = inv_boundaries s"
  "inv_boundaries (s\<lparr>rs_startup := x3\<rparr>) = inv_boundaries s"
  "inv_boundaries (s\<lparr>rs_epoch := x4\<rparr>) = inv_boundaries s"
  "inv_boundaries (s\<lparr>rs_last_known_boot := x5\<rparr>) = inv_boundaries s"
  "inv_boundaries (s\<lparr>rs_fenced_boots := x6\<rparr>) = inv_boundaries s"
  "inv_boundaries (s\<lparr>rs_store := x7\<rparr>) = inv_boundaries s"
  "inv_boundaries (s\<lparr>rs_sequence := x8\<rparr>) = inv_boundaries s"
  by (simp_all add: inv_boundaries_def)

lemma replay_frame_boundaries:
  assumes "inv_boundaries s"
  shows "inv_boundaries (retain_attempt a s)" "inv_boundaries (replay_detection d s)"
    "inv_boundaries (replay_boundary b s)"
    "sound_plan p \<Longrightarrow> inv_boundaries (s\<lparr>rs_plans := rs_plans s @ [p]\<rparr>)"
proof -
  show "inv_boundaries (retain_attempt a s)"
    using assms by (auto simp: retain_attempt_def update_attempt_def split: option.splits)
  show "inv_boundaries (replay_detection d s)"
    using assms by (auto simp: replay_detection_def Let_def split: sum.splits)
  show "inv_boundaries (replay_boundary b s)"
    using assms boundary_decode_sound
    by (auto simp: replay_boundary_def inv_boundaries_def Let_def split: sum.splits)
  show "sound_plan p \<Longrightarrow> inv_boundaries (s\<lparr>rs_plans := rs_plans s @ [p]\<rparr>)"
    using assms by (simp add: inv_boundaries_def)
qed

lemma apply_replayed_frame_boundaries:
  assumes "apply_replayed_frame f s = Inr s'" and "inv_boundaries s"
  shows "inv_boundaries s'"
proof -
  have "yields inv_boundaries (apply_replayed_frame f s)"
    unfolding apply_replayed_frame_def using assms(2)
    by (cases "fr_type f"; simp only: record_type.simps; intro yields_intros)
      (simp_all add: replay_frame_boundaries plan_decode_sound)
  then show ?thesis using assms(1) by (simp add: yields_def)
qed

lemma replay_frames_boundaries: "replay_frames fs s = Inr s' \<Longrightarrow> inv_boundaries s \<Longrightarrow> inv_boundaries s'"
  by (induction fs arbitrary: s) (auto simp: try_result_Inr_iff dest: apply_replayed_frame_boundaries)

lemma restore_snapshot_boundaries:
  assumes "restore_snapshot d s = Inr s'" and "inv_boundaries s" and "\<forall>p \<in> set (ds_plans d). sound_plan p"
  shows "inv_boundaries s'"
proof -
  let ?s1 = "restore_tables d (restore_counters d s)"
  have s1: "inv_boundaries ?s1"
    using assms(2,3) by (simp add: inv_boundaries_def restore_tables_def restore_counters_def)
  obtain topology policy evidence boundary where
    b: "embedded boundary_decode (ds_boundary_bytes d) = Inr boundary" and
    s': "s' = ?s1\<lparr>rs_topology := topology, rs_policy := policy, rs_evidence := evidence,
        rs_boundary := (case boundary of None \<Rightarrow> rs_boundary ?s1 | Some b \<Rightarrow> Some b)\<rparr>"
    using assms(1) unfolding restore_snapshot_def Let_def try_result_Inr_iff sum.inject by blast
  have "\<forall>b. boundary = Some b \<longrightarrow> sound_boundary b"
    using embedded_cases [OF b] by (auto dest: boundary_decode_sound)
  then show ?thesis
    using s1 unfolding s' by (cases boundary) (simp_all add: inv_boundaries_def)
qed

lemma recover_state_boundaries:
  assumes "recover_state config sys = (Inr s, sys')"
  shows "inv_boundaries s"
proof -
  have new: "inv_boundaries (initial_runtime config)"
    by (simp add: inv_boundaries_def initial_runtime_def new_state_def)
  have store: "inv_boundaries s'" if "restore_store st (initial_runtime config) = Inr s'" for st s'
    using that new restore_snapshot_boundaries decode_durable_state_plans
    by (auto simp: restore_store_def Let_def try_result_Inr_iff split: if_splits
        intro: replay_frames_boundaries)
  show ?thesis
    using assms new store by (auto simp: recover_state_def Let_def split: if_splits sum.splits prod.splits)
qed

lemma runtime_open_boundaries:
  assumes "runtime_open config True boot sys = (Inr s, sys')"
  shows "inv_boundaries s"
proof -
  obtain s0 sys0 s2 where r: "recover_state config sys = (Inr s0, sys0)" and s: "s = finish_startup s2"
    and u: "uninstalled s2 = uninstalled (restart_runtime (BootIdentity boot (ucast (os_pid sys0))) s0)"
    using runtime_open_cases [OF assms] by metis
  have "rs_plans s2 = rs_plans s0" "rs_boundary s2 = rs_boundary s0" using uninstalledD [OF u] by simp_all
  then show ?thesis
    using recover_state_boundaries [OF r] set_pop_to_bound [of _ "rs_plans s0"]
    by (auto simp: s finish_startup_def inv_boundaries_def)
qed

interpretation boundaries: runtime_invariant "\<lambda>s. rt_inv s \<and> inv_boundaries s"
  by unfold_locales (use runtime_open_inv runtime_open_boundaries rt_step_inv step_boundaries in blast)+

text \<open>While a boundary is in force and its effect is not verified, what it contains does not
  change; it is replaced only under an authorization, in the relation of its kind.\<close>

lemma boundary_changes_justified:
  assumes "rt_step (s, sys) (s', sys')" and "rt_inv s" and "inv_boundaries s"
    and "map_option member_ids (rs_boundary s') \<noteq> map_option member_ids (rs_boundary s)"
  obtains request now plan where "transition_justified request now s plan"
    "transition_permitted (tq_kind request) plan (rs_boundary s)" "installs_decision (tq_kind request) plan s'"
  using assms(1)
proof (cases rule: step_decision_cases)
  case (accepted request now plan)
  have "plan \<in> set (rs_plans s)"
    using accepted(1) find_Some_in by (fastforce simp: transition_justified_def find_plan_def)
  then have "transition_permitted (tq_kind request) plan (rs_boundary s)"
    using accepted(1) assms(3) transition_kind_refused_iff
    by (auto simp: transition_justified_def inv_boundaries_def sound_plan_def)
  then show thesis using that accepted by blast
next
  case (reasserted plan b)
  then have "member_ids (p_boundary plan) = member_ids b"
    using assms(3) same_iff by (auto simp: inv_boundaries_def sound_plan_def)
  then show thesis using assms(4) reasserted by simp
qed (use assms(4) in \<open>simp_all add: keeps_decision_def\<close>)

end
