(* ===== verification/Runtime_Effect.thy ===== *)
theory Runtime_Effect
  imports Runtime_Boundaries
begin

section \<open>Effects and restarts\<close>

text \<open>
  Where a verified effect comes from: a report of the enforcement plane under the current
  incarnation whose digest is the one of the intent. A restart keeps no authorization, no
  confirmation of evidence and no current effect.
\<close>

subsection \<open>Verified attempts\<close>

definition attempt_verified :: "apply_attempt \<Rightarrow> bool" where
  "attempt_verified a \<longleftrightarrow> is_verified_effect (at_state a)"

text \<open>No attempt becomes verified.\<close>

definition verifies_nothing :: "runtime_state \<Rightarrow> runtime_state \<Rightarrow> bool" where
  "verifies_nothing s s' \<longleftrightarrow> (\<forall>a \<in> set (rs_attempts s'). attempt_verified a \<longrightarrow> a \<in> set (rs_attempts s))"

lemma verifies_nothing_refl [simp]: "verifies_nothing s s"
  by (simp add: verifies_nothing_def)

lemma verifies_nothing_eq: "rs_attempts s' = rs_attempts s \<Longrightarrow> verifies_nothing s s'"
  by (simp add: verifies_nothing_def)

lemma verifies_nothing_evict: "verifies_nothing s s1 \<Longrightarrow> verifies_nothing s (evict_bounded_tables s1)"
  using set_pop_to_bound by (fastforce simp: verifies_nothing_def)

lemma verifies_nothing_frame [simp]:
  "verifies_nothing s (bump c s1) = verifies_nothing s s1"
  "verifies_nothing s (recompute_effect_state s1) = verifies_nothing s s1"
  "verifies_nothing s (confirm_evidence r s1) = verifies_nothing s s1"
  "verifies_nothing s (s1\<lparr>rs_conflict := b\<rparr>) = verifies_nothing s s1"
  "verifies_nothing s (s1\<lparr>rs_policy := p\<rparr>) = verifies_nothing s s1"
  "verifies_nothing s (s1\<lparr>rs_topology := t\<rparr>) = verifies_nothing s s1"
  "verifies_nothing s (s1\<lparr>rs_graph := g\<rparr>) = verifies_nothing s s1"
  "verifies_nothing s (s1\<lparr>rs_transitions := ts\<rparr>) = verifies_nothing s s1"
  "verifies_nothing s (s1\<lparr>rs_evidence := v\<rparr>) = verifies_nothing s s1"
  "verifies_nothing s (s1\<lparr>rs_evidence_revision := q\<rparr>) = verifies_nothing s s1"
  "verifies_nothing s (s1\<lparr>rs_detections := ds\<rparr>) = verifies_nothing s s1"
  "verifies_nothing s (s1\<lparr>rs_effect_state := e\<rparr>) = verifies_nothing s s1"
  "verifies_nothing s (s1\<lparr>rs_requires_reverification := x\<rparr>) = verifies_nothing s s1"
  "verifies_nothing s (s1\<lparr>rs_boundary := y\<rparr>) = verifies_nothing s s1"
  "verifies_nothing s (s1\<lparr>rs_boundary_plan := z\<rparr>) = verifies_nothing s s1"
  "verifies_nothing s (s1\<lparr>rs_boundary_plan_digest := h\<rparr>) = verifies_nothing s s1"
  "verifies_nothing s (s1\<lparr>rs_boundary_counter := n\<rparr>) = verifies_nothing s s1"
  "verifies_nothing s (s1\<lparr>rs_store := st\<rparr>) = verifies_nothing s s1"
  "verifies_nothing s (s1\<lparr>rs_sequence := q'\<rparr>) = verifies_nothing s s1"
  "verifies_nothing s (s1\<lparr>rs_plans := ps\<rparr>) = verifies_nothing s s1"
  "verifies_nothing s (s1\<lparr>rs_plan_counter := pc\<rparr>) = verifies_nothing s s1"
  by (simp_all add: verifies_nothing_def confirm_evidence_def)

lemma commit_verifies_nothing:
  "commit t payload (s, sys) = (r, s', sys') \<Longrightarrow> verifies_nothing s s'"
  by (simp add: verifies_nothing_eq commitD)

lemma commit_verifies:
  "commit t payload (s1, sys) = (r, s', sys') \<Longrightarrow> verifies_nothing s s1 \<Longrightarrow> verifies_nothing s s'"
  by (simp add: verifies_nothing_def commitD)

lemma update_verifies_nothing:
  assumes "\<not> attempt_verified b"
  shows "verifies_nothing s (update_attempt i (\<lambda>_. b) s)"
  using assms set_replace_first by (fastforce simp: verifies_nothing_def update_attempt_def)

subsection \<open>Operations that verify nothing\<close>

lemma simple_steps_verify_nothing:
  "apply_topology spec (s, sys) = (r1, s', sys') \<Longrightarrow> verifies_nothing s s'"
  "apply_policy p (s, sys) = (r2, s', sys') \<Longrightarrow> verifies_nothing s s'"
  "record_detection obs (s, sys) = (r3, s', sys') \<Longrightarrow> verifies_nothing s s'"
  "authorize now (s, sys) = (r4, s', sys') \<Longrightarrow> verifies_nothing s s'"
  "checkpoint (s, sys) = (r5, s', sys') \<Longrightarrow> verifies_nothing s s'"
proof -
  note c = commit_verifies_nothing
  show "apply_topology spec (s, sys) = (r1, s', sys') \<Longrightarrow> verifies_nothing s s'"
    using c [of TopologyDefinition _ s sys]
    by (auto simp: apply_topology_def elim!: rt_bind_cases split: sum.splits if_splits)
  show "apply_policy p (s, sys) = (r2, s', sys') \<Longrightarrow> verifies_nothing s s'"
    using c [of PolicyDefinition _ s sys]
    by (auto simp: apply_policy_def elim!: rt_bind_cases split: sum.splits if_splits)
  show "record_detection obs (s, sys) = (r3, s', sys') \<Longrightarrow> verifies_nothing s s'"
    using c [of DetectionRecord _ s sys]
    by (auto simp: record_detection_def Let_def elim!: rt_bind_cases intro!: verifies_nothing_evict
        split: sum.splits if_splits)
  show "authorize now (s, sys) = (r4, s', sys') \<Longrightarrow> verifies_nothing s s'"
    by (auto simp: authorize_def Let_def verifies_nothing_def split: if_splits)
  show "checkpoint (s, sys) = (r5, s', sys') \<Longrightarrow> verifies_nothing s s'"
    by (auto simp: checkpoint_def split: option.splits prod.splits sum.splits)
qed

lemma publish_plan_verifies_nothing:
  "publish_plan p g (s, sys) = (r, s', sys') \<Longrightarrow> verifies_nothing s s'"
  using commit_verifies_nothing [of PlanDecision "plan_encode p" s sys]
  by (auto simp: publish_plan_def intro!: verifies_nothing_evict split: prod.splits sum.splits)

lemma rt_plan_verifies_nothing:
  assumes "rt_plan i now (s, sys) = Some (r, s', sys')"
  shows "verifies_nothing s s'"
proof -
  obtain r1 s1 where v: "validate_authorization i False now s = (r1, s1)" by fastforce
  have s1: "verifies_nothing s s1" by (simp add: verifies_nothing_eq validate_frame [OF v])
  have pub: "verifies_nothing s s'" if "publish_plan p g (s1, sys) = (r, s', sys')" for p g
    using publish_plan_verifies_nothing [OF that] validate_frame(10) [OF v] by (simp add: verifies_nothing_def)
  show ?thesis
    using assms v s1 pub by (auto simp: rt_plan_def Let_def split: sum.splits option.splits if_splits)
qed

lemma fail_transition_verifies_nothing:
  "fail_transition d status code reason msg (s, sys) = (r, s', sys') \<Longrightarrow> verifies_nothing s s'"
  using commit_verifies_nothing [of TransitionDecision _ s sys]
  by (auto simp: fail_transition_def Let_def elim!: rt_bind_cases intro!: verifies_nothing_evict)

lemma accept_transition_verifies_nothing:
  assumes "accept_transition d plan (s, sys) = (r, s', sys')"
  shows "verifies_nothing s s'"
  using assms commit_verifies_nothing [of TransitionDecision _ s sys]
    commit_verifies [of BoundaryDecision _ _ _ _ _ _ s]
  by (auto simp: accept_transition_def Let_def elim!: rt_bind_cases intro!: verifies_nothing_evict)

lemma transition_verifies_nothing:
  assumes "transition request now (s, sys) = (r, s', sys')"
  shows "verifies_nothing s s'"
proof -
  let ?s0 = "s\<lparr>rs_transition_counter := rs_transition_counter s + 1\<rparr>"
  obtain r1 s1 where v: "validate_authorization (tq_authorization request) False now ?s0 = (r1, s1)" by fastforce
  have eq: "verifies_nothing s1 = verifies_nothing s"
    using validate_frame(10) [OF v] by (simp add: verifies_nothing_def fun_eq_iff)
  have fails: "verifies_nothing s s'"
    if "fail_transition d a b c t (s2, sys) = (r, s', sys')" "rs_attempts s2 = rs_attempts s" for d a b c t s2
    using fail_transition_verifies_nothing [OF that(1)] that(2) by (simp add: verifies_nothing_def)
  have att: "rs_attempts s1 = rs_attempts s" using validate_frame(10) [OF v] by simp
  have decide: "decide_transition request d plan (s1, sys) = (r, s', sys') \<Longrightarrow> verifies_nothing s s'" for d plan
    using fails [OF _ att] accept_transition_verifies_nothing [of _ plan s1 sys r s' sys'] eq
    by (auto simp: decide_transition_def Let_def split: if_splits option.splits prod.splits)
  show ?thesis
    using assms v fails att decide
    by (auto simp: transition_def Let_def split: sum.splits option.splits if_splits)
qed

lemma submit_apply_verifies_nothing:
  assumes "submit_apply request now later (s, sys) = (r, s', sys')"
  shows "verifies_nothing s s'"
proof -
  obtain r1 s1 where v: "validate_authorization (sq_authorization request) True now s = (r1, s1)" by fastforce
  have att: "rs_attempts s1 = rs_attempts s" by (rule validate_frame(10) [OF v])
  have grown: "verifies_nothing s (s2\<lparr>rs_attempts := rs_attempts s @ [new_attempt plan later x]\<rparr>)" for s2 plan x
    by (auto simp: verifies_nothing_def attempt_verified_def new_attempt_def is_verified_effect_def)
  have c: "rs_attempts s2 = rs_attempts s"
    if "commit ApplyAttempt p (s1\<lparr>rs_attempt_counter := n\<rparr>, sys) = (x, s2, sys2)" for p n x s2 sys2
    using commitD(9) [OF that] att by simp
  show ?thesis
    using assms v verifies_nothing_eq [OF att]
    by (auto simp: submit_apply_def Let_def elim!: rt_bind_cases intro!: verifies_nothing_evict grown
        dest!: c intro: verifies_nothing_eq split: sum.splits option.splits if_splits)
qed

lemma acknowledge_verifies_nothing:
  assumes "acknowledge k now (s, sys) = (r, s', sys')"
  shows "verifies_nothing s s'"
proof -
  have u: "verifies_nothing s (update_attempt i (\<lambda>_. mismatched_ack a) s)"
    "verifies_nothing s (update_attempt i (\<lambda>_. acknowledged k now a) s)" for i a
    by (rule update_verifies_nothing, simp add: attempt_verified_def mismatched_ack_def acknowledged_def
        is_verified_effect_def Let_def)+
  have c: "verifies_nothing s s2"
    if "commit ApplyAcknowledgement p (update_attempt i (\<lambda>_. mismatched_ack a) s, sys) = (x, s2, sys2)"
    for p i a x s2 sys2
    by (rule commit_verifies [OF that u(1)])
  have d: "verifies_nothing s s2"
    if "commit ApplyAcknowledgement p (update_attempt i (\<lambda>_. acknowledged k now a) s, sys) = (x, s2, sys2)"
    for p i a x s2 sys2
    by (rule commit_verifies [OF that u(2)])
  show ?thesis
    using assms
    by (auto simp: acknowledge_def Let_def elim!: rt_bind_cases dest!: c d
        split: sum.splits option.splits if_splits)
qed

subsection \<open>The report that verifies\<close>

text \<open>A report that verifies an attempt: current incarnation, matching digest, the state it reports.\<close>

definition verified_by :: "effect_verification \<Rightarrow> runtime_state \<Rightarrow> apply_attempt \<Rightarrow> bool" where
  "verified_by v s a \<longleftrightarrow>
     (\<exists>old. find_attempt s (vf_id v) = Some old \<and> at_boundary_digest a = at_boundary_digest old \<and>
        at_plan_digest a = at_plan_digest old \<and> at_applier_sequence old < vf_applier_sequence v \<and>
        at_state old \<notin> {EffFenced, EffSuperseded} \<and> \<not> attempt_verified old) \<and>
     at_id a = vf_id v \<and> vf_expected_epoch v = rs_epoch s \<and> vf_expected_boot v = rs_boot s \<and>
     vf_observed_digest v = at_boundary_digest a \<and> at_observed_digest a = at_boundary_digest a \<and>
     at_state a = (if vf_observation v = ObsApplied then EffVerifiedApplied else EffVerifiedReleased) \<and>
     vf_observation v \<in> {ObsApplied, ObsReleased}"

lemma observed_result:
  assumes "observed v now old = (a, m)"
  shows "at_id a = at_id old" "at_boundary_digest a = at_boundary_digest old" "at_plan_digest a = at_plan_digest old"
    and "attempt_verified a \<longleftrightarrow> vf_observed_digest v = at_boundary_digest old \<and> vf_observation v \<in> {ObsApplied, ObsReleased}"
    and "attempt_verified a \<Longrightarrow> at_observed_digest a = at_boundary_digest old \<and> m = None \<and>
      at_state a = (if vf_observation v = ObsApplied then EffVerifiedApplied else EffVerifiedReleased)"
  using assms
  by (auto simp: observed_def Let_def set_outcome_def with_report_def attempt_verified_def is_verified_effect_def
      split: effect_observation.splits if_splits)

lemma find_attempt_id: "find_attempt s i = Some a \<Longrightarrow> at_id a = i"
  using find_Some_in [of "\<lambda>a. at_id a = i"] by (fastforce simp: find_attempt_def)

lemma adopt_decision_attempts [simp]: "rs_attempts (adopt_decision a s) = rs_attempts s"
  by (auto simp: adopt_decision_def Let_def split: option.splits)

lemma verify_effect_verifies:
  assumes "verify_effect v now (s, sys) = (r, s', sys')" and "a \<in> set (rs_attempts s')" and "attempt_verified a"
  shows "a \<in> set (rs_attempts s) \<or> verified_by v s a"
proof (cases "find_attempt s (vf_id v)")
  case None
  then show ?thesis using assms(1,2) by (simp add: verify_effect_def)
next
  case (Some old)
  obtain b m where o: "observed v now old = (b, m)" by fastforce
  note ob = observed_result [OF o]
  show ?thesis
  proof (cases "check_attempt_authority s (vf_expected_epoch v) (vf_expected_boot v) = Inr () \<and>
      \<not> attempt_verified old \<and> at_state old \<notin> {EffFenced, EffSuperseded} \<and>
      at_applier_sequence old < vf_applier_sequence v")
    case False
    then have "rs_attempts s' = rs_attempts s"
      using assms(1) Some
      by (auto simp: verify_effect_def attempt_verified_def is_verified_effect_def split: sum.splits if_splits)
    then show ?thesis using assms(2) by simp
  next
    case True
    have c: "rs_attempts s2 = replace_first (\<lambda>x. at_id x = vf_id v) (\<lambda>_. b) (rs_attempts s)"
      if "commit EffectVerification p (update_attempt (vf_id v) (\<lambda>_. b) s, sys) = (x, s2, sys2)" for p x s2 sys2
      using commitD(9) [OF that] by (simp add: update_attempt_def)
    have "rs_attempts s' = replace_first (\<lambda>x. at_id x = vf_id v) (\<lambda>_. b) (rs_attempts s)"
      using assms(1) Some True o c
      by (auto simp: verify_effect_def Let_def attempt_verified_def is_verified_effect_def
          elim!: rt_bind_cases split: option.splits)
    then have "a \<in> set (rs_attempts s) \<or> a = b" using assms(2) set_replace_first by fastforce
    moreover have "verified_by v s b" if "attempt_verified b"
      using that ob(1-5) Some True find_attempt_id [OF Some]
      by (auto simp: verified_by_def check_attempt_authority_def err_def split: if_splits)
    ultimately show ?thesis using assms(3) by blast
  qed
qed

lemma step_verification:
  assumes "rt_step (s, sys) (s', sys')" and "a \<in> set (rs_attempts s')" and "attempt_verified a"
    and "a \<notin> set (rs_attempts s)"
  obtains v now r where "verify_effect v now (s, sys) = (r, s', sys')" "verified_by v s a"
proof -
  have no: "\<not> verifies_nothing s s'" using assms(2-4) by (auto simp: verifies_nothing_def)
  show thesis
    using assms(1)
  proof (cases rule: rt_step.cases)
    case (step_verify v now r)
    then show ?thesis using that verify_effect_verifies [OF step_verify assms(2,3)] assms(4) by blast
  next
    case (step_topology spec r)
    then show ?thesis using no simple_steps_verify_nothing(1) by blast
  next
    case (step_policy policy r)
    then show ?thesis using no simple_steps_verify_nothing(2) by blast
  next
    case (step_detection obs r)
    then show ?thesis using no simple_steps_verify_nothing(3) by blast
  next
    case (step_authorize now r)
    then show ?thesis using no simple_steps_verify_nothing(4) by blast
  next
    case (step_checkpoint r)
    then show ?thesis using no simple_steps_verify_nothing(5) by blast
  next
    case (step_plan i now r)
    then show ?thesis using no rt_plan_verifies_nothing by blast
  next
    case (step_transition request now r)
    then show ?thesis using no transition_verifies_nothing by blast
  next
    case (step_submit sub now later r)
    then show ?thesis using no submit_apply_verifies_nothing by blast
  next
    case (step_acknowledge k now r)
    then show ?thesis using no acknowledge_verifies_nothing by blast
  qed
qed

subsection \<open>A restart\<close>

lemma restart_not_current:
  "rs_effect_state (restart_runtime boot s) \<notin> {EffVerifiedApplied, EffVerifiedReleased, EffSubmitted, EffAcknowledged}"
  by (simp add: restart_runtime_def demote_effect_def)

lemma fenced_by_restart_terminal: "attempt_terminal (fenced_by_restart a)"
  by (simp add: fenced_by_restart_def attempt_terminal_def)

lemma recover_state_confirmation:
  assumes "recover_state config sys = (Inr s, sys')"
  shows "rs_confirmation s = []"
proof -
  have frame: "yields (\<lambda>s'. rs_confirmation s' = []) (apply_replayed_frame f s)" if "rs_confirmation s = []" for f s
    unfolding apply_replayed_frame_def using that
    by (cases "fr_type f"; simp only: record_type.simps; intro yields_intros)
      (auto simp: retain_attempt_def update_attempt_def replay_detection_def replay_boundary_def Let_def
        split: option.splits sum.splits)
  have frames: "replay_frames fs s = Inr s' \<Longrightarrow> rs_confirmation s = [] \<Longrightarrow> rs_confirmation s' = []" for fs s s'
    by (induction fs arbitrary: s) (use frame in \<open>auto simp: try_result_Inr_iff yields_def\<close>)
  have snap: "restore_snapshot d s = Inr s' \<Longrightarrow> rs_confirmation s = [] \<Longrightarrow> rs_confirmation s' = []" for d s s'
    by (auto simp: restore_snapshot_def Let_def try_result_Inr_iff restore_tables_def restore_counters_def)
  have new: "rs_confirmation (initial_runtime config) = []" by (simp add: initial_runtime_def new_state_def)
  have store: "rs_confirmation s' = []" if "restore_store st (initial_runtime config) = Inr s'" for st s'
    using that new snap
    by (auto simp: restore_store_def Let_def try_result_Inr_iff split: if_splits intro: frames)
  show ?thesis
    using assms new store by (auto simp: recover_state_def Let_def split: if_splits sum.splits prod.splits)
qed

lemma runtime_open_fresh:
  assumes "runtime_open config True boot sys = (Inr s, sys')"
  obtains s0 sys0 where "recover_state config sys = (Inr s0, sys0)"
    "rs_epoch s = rs_epoch s0 + 1" "rs_boot s = BootIdentity boot (ucast (os_pid sys0))"
    "rs_boundary s = rs_boundary s0" "rs_authorizations s = []" "rs_confirmation s = []"
    "\<forall>a \<in> set (rs_attempts s). attempt_terminal a"
    "rs_effect_state s \<notin> {EffVerifiedApplied, EffVerifiedReleased, EffSubmitted, EffAcknowledged}"
proof -
  obtain s0 sys0 s2 where r: "recover_state config sys = (Inr s0, sys0)" and s: "s = finish_startup s2"
    and u: "uninstalled s2 = uninstalled (restart_runtime (BootIdentity boot (ucast (os_pid sys0))) s0)"
    using runtime_open_cases [OF assms] by metis
  note f = uninstalledD [OF u] restart_frame restart_fields
  have att: "rs_attempts s2 = map fenced_by_restart (rs_attempts s0)" using f by simp
  have "rs_epoch s = rs_epoch s0 + 1" "rs_boot s = BootIdentity boot (ucast (os_pid sys0))"
    "rs_boundary s = rs_boundary s0" "rs_authorizations s = []" "rs_confirmation s = rs_confirmation s0"
    using f by (simp_all add: s finish_startup_def)
  moreover have "rs_effect_state s = rs_effect_state s2" by (simp add: s finish_startup_def)
  moreover have "\<forall>a \<in> set (rs_attempts s). attempt_terminal a"
    using set_pop_to_bound [of _ "rs_attempts s2"] fenced_by_restart_terminal
    by (fastforce simp: s finish_startup_def att)
  ultimately show thesis
    using that [OF r] recover_state_confirmation [OF r] restart_not_current f(6) by metis
qed

lemma nothing_authorized:
  assumes "rs_authorizations s = []"
  shows "\<not> authorized i req now s"
  using assms by (simp add: authorized_def find_authorization_def)

end
