(* ===== verification/Runtime_Replay.thy ===== *)
theory Runtime_Replay
  imports Runtime_Effect Store_Crash
begin

section \<open>The log replays to memory\<close>

text \<open>
  The abstract specification of recovery: what a log means is a fold over its records on the
  part of the state that must survive a crash (the definitions, the evidence, the boundary
  decision and the epoch). Replay implements the fold, and an operation that succeeds leaves
  memory at the meaning of the log it has written.
\<close>

subsection \<open>The abstract log\<close>

record durable_view =
  vw_topology :: "topology option"
  vw_policy :: containment_policy
  vw_evidence :: evidence_vector
  vw_boundary :: "boundary option"
  vw_boundary_plan :: plan_generation
  vw_boundary_plan_digest :: digest
  vw_epoch :: coordinator_epoch

definition view_of :: "runtime_state \<Rightarrow> durable_view" where
  "view_of s = \<lparr>vw_topology = rs_topology s, vw_policy = rs_policy s, vw_evidence = rs_evidence s,
     vw_boundary = rs_boundary s, vw_boundary_plan = rs_boundary_plan s,
     vw_boundary_plan_digest = rs_boundary_plan_digest s, vw_epoch = rs_epoch s\<rparr>"

definition view_detection :: "detection_record \<Rightarrow> durable_view \<Rightarrow> durable_view" where
  "view_detection d v =
     (case evidence_merged (vw_evidence v) \<lparr>fo_resource = dr_resource d, fo_state = dr_state d,
            fo_generation = dr_generation d, fo_digest = dr_source_digest d, fo_observed_at = 0\<rparr> of
        Inl _ \<Rightarrow> v | Inr merged \<Rightarrow> v\<lparr>vw_evidence := merged\<rparr>)"

definition view_boundary :: "boundary_decision \<Rightarrow> durable_view \<Rightarrow> durable_view" where
  "view_boundary b v =
     (let v1 = v\<lparr>vw_boundary_plan := bd_plan b, vw_boundary_plan_digest := bd_plan_digest b\<rparr>
      in if bd_released b then v1\<lparr>vw_boundary := None\<rparr>
         else case boundary_decode (bd_boundary_bytes b) of
           Inl _ \<Rightarrow> v1 | Inr boundary \<Rightarrow> v1\<lparr>vw_boundary := Some boundary\<rparr>)"

text \<open>The meaning of one record.\<close>

definition view_record :: "record_type \<Rightarrow> byte list \<Rightarrow> durable_view \<Rightarrow> durable_view result" where
  "view_record type payload v =
     (case type of
        TopologyDefinition \<Rightarrow> try_result (topology_decode payload) (\<lambda>t. Inr
          (if (case vw_topology v of None \<Rightarrow> True | Some old \<Rightarrow> t_generation old < t_generation t)
           then v\<lparr>vw_topology := Some t\<rparr> else v))
      | PolicyDefinition \<Rightarrow> try_result (policy_decode payload) (\<lambda>p. Inr
          (if cp_generation (vw_policy v) < cp_generation p then v\<lparr>vw_policy := p\<rparr> else v))
      | DetectionRecord \<Rightarrow> try_result (decode_detection payload) (\<lambda>d. Inr (view_detection d v))
      | EvidenceReconfirmed \<Rightarrow> try_result (decode_detection payload) (\<lambda>d. Inr (view_detection d v))
      | PlanDecision \<Rightarrow> try_result (plan_decode payload) (\<lambda>_. Inr v)
      | BoundaryDecision \<Rightarrow> try_result (decode_boundary_decision payload) (\<lambda>b. Inr (view_boundary b v))
      | TransitionDecision \<Rightarrow> try_result (decode_transition payload) (\<lambda>_. Inr v)
      | ApplyAttempt \<Rightarrow> try_result (decode_attempt payload) (\<lambda>_. Inr v)
      | ApplyAcknowledgement \<Rightarrow> try_result (decode_attempt payload) (\<lambda>_. Inr v)
      | EffectVerification \<Rightarrow> try_result (decode_attempt payload) (\<lambda>_. Inr v)
      | EpochAdvance \<Rightarrow> try_result (decode_epoch_advance payload) (\<lambda>(epoch, _). Inr
          (if vw_epoch v < epoch then v\<lparr>vw_epoch := epoch\<rparr> else v))
      | Fence \<Rightarrow> try_result (decode_fence payload) (\<lambda>_. Inr v)
      | _ \<Rightarrow> Inr v)"

fun view_log :: "frame list \<Rightarrow> durable_view \<Rightarrow> durable_view result" where
  "view_log [] v = Inr v"
| "view_log (f # fs) v = try_result (view_record (fr_type f) (fr_payload f) v) (view_log fs)"

definition view_snapshot :: "byte list \<Rightarrow> durable_view \<Rightarrow> durable_view result" where
  "view_snapshot payload v =
     (if payload = [] then Inr v
      else try_result (decode_durable_state payload) (\<lambda>d.
           try_result (embedded topology_decode (ds_topology_bytes d)) (\<lambda>topology.
           try_result (embedded policy_decode (ds_policy_bytes d)) (\<lambda>policy.
           try_result (embedded evidence_decode (ds_evidence_bytes d)) (\<lambda>evidence.
           try_result (embedded boundary_decode (ds_boundary_bytes d)) (\<lambda>boundary. Inr
             \<lparr>vw_topology = (case topology of None \<Rightarrow> vw_topology v | Some t \<Rightarrow> Some t),
              vw_policy = (case policy of None \<Rightarrow> vw_policy v
                | Some p \<Rightarrow> if cp_generation (vw_policy v) < cp_generation p then p else vw_policy v),
              vw_evidence = (case evidence of None \<Rightarrow> vw_evidence v | Some x \<Rightarrow> x),
              vw_boundary = (case boundary of None \<Rightarrow> vw_boundary v | Some b \<Rightarrow> Some b),
              vw_boundary_plan = ds_boundary_plan d, vw_boundary_plan_digest = ds_boundary_plan_digest d,
              vw_epoch = ds_epoch d\<rparr>))))))"

text \<open>The meaning of a store: its snapshot, then its log.\<close>

definition view_disk :: "runtime_config \<Rightarrow> disk_view \<Rightarrow> durable_view result" where
  "view_disk config d =
     try_result (view_snapshot (dv_payload d) (view_of (initial_runtime config))) (view_log (dv_frames d))"

subsection \<open>Replay implements it\<close>

lemma view_of_simps [simp]:
  "view_of (s\<lparr>rs_topology := t\<rparr>) = (view_of s)\<lparr>vw_topology := t\<rparr>"
  "view_of (s\<lparr>rs_policy := p\<rparr>) = (view_of s)\<lparr>vw_policy := p\<rparr>"
  "view_of (s\<lparr>rs_evidence := v\<rparr>) = (view_of s)\<lparr>vw_evidence := v\<rparr>"
  "view_of (s\<lparr>rs_boundary := b\<rparr>) = (view_of s)\<lparr>vw_boundary := b\<rparr>"
  "view_of (s\<lparr>rs_boundary_plan := g\<rparr>) = (view_of s)\<lparr>vw_boundary_plan := g\<rparr>"
  "view_of (s\<lparr>rs_boundary_plan_digest := h\<rparr>) = (view_of s)\<lparr>vw_boundary_plan_digest := h\<rparr>"
  "view_of (s\<lparr>rs_epoch := e\<rparr>) = (view_of s)\<lparr>vw_epoch := e\<rparr>"
  "view_of (s\<lparr>rs_graph := x0\<rparr>) = view_of s" "view_of (s\<lparr>rs_plans := x1\<rparr>) = view_of s"
  "view_of (s\<lparr>rs_attempts := x2\<rparr>) = view_of s" "view_of (s\<lparr>rs_transitions := x3\<rparr>) = view_of s"
  "view_of (s\<lparr>rs_detections := x4\<rparr>) = view_of s" "view_of (s\<lparr>rs_startup := x5\<rparr>) = view_of s"
  "view_of (s\<lparr>rs_store := x6\<rparr>) = view_of s" "view_of (s\<lparr>rs_sequence := x7\<rparr>) = view_of s"
  "view_of (s\<lparr>rs_last_known_boot := x8\<rparr>) = view_of s" "view_of (s\<lparr>rs_fenced_boots := x9\<rparr>) = view_of s"
  "view_of (s\<lparr>rs_transition_counter := y0\<rparr>) = view_of s" "view_of (s\<lparr>rs_effect_state := y1\<rparr>) = view_of s"
  "view_of (s\<lparr>rs_requires_reverification := y2\<rparr>) = view_of s"
  "view_of (s\<lparr>rs_boundary_counter := y3\<rparr>) = view_of s" "view_of (s\<lparr>rs_conflict := y4\<rparr>) = view_of s"
  "view_of (s\<lparr>rs_evidence_revision := y5\<rparr>) = view_of s" "view_of (s\<lparr>rs_plan_counter := y6\<rparr>) = view_of s"
  "view_of (s\<lparr>rs_confirmation := y7\<rparr>) = view_of s" "view_of (s\<lparr>rs_authorizations := y8\<rparr>) = view_of s"
  "view_of (s\<lparr>rs_attempt_counter := y9\<rparr>) = view_of s"
  "view_of (bump c s) = view_of s" "view_of (evict_bounded_tables s) = view_of s"
  by (simp_all add: view_of_def)

lemma view_fields [simp]:
  "vw_topology (view_of s) = rs_topology s" "vw_policy (view_of s) = rs_policy s"
  "vw_evidence (view_of s) = rs_evidence s" "vw_boundary (view_of s) = rs_boundary s"
  "vw_boundary_plan (view_of s) = rs_boundary_plan s"
  "vw_boundary_plan_digest (view_of s) = rs_boundary_plan_digest s" "vw_epoch (view_of s) = rs_epoch s"
  by (simp_all add: view_of_def)

definition map_result :: "('a \<Rightarrow> 'b) \<Rightarrow> 'a result \<Rightarrow> 'b result" where
  "map_result f r = (case r of Inl e \<Rightarrow> Inl e | Inr x \<Rightarrow> Inr (f x))"

lemma map_result_simps [simp]: "map_result f (Inr x) = Inr (f x)" "map_result f (Inl e) = Inl e"
    "map_result f (err c m) = err c m"
  by (simp_all add: map_result_def err_def)

lemma map_result_try: "map_result f (try_result m g) = try_result m (\<lambda>x. map_result f (g x))"
  by (cases m) simp_all

lemma map_result_Inr: "map_result f r = Inr y \<longleftrightarrow> (\<exists>x. r = Inr x \<and> y = f x)"
  by (cases r) auto

lemma view_replayed_records [simp]:
  "view_of (retain_attempt a s) = view_of s"
  "view_of (replay_detection d s) = view_detection d (view_of s)"
  "view_of (replay_boundary b s) = view_boundary b (view_of s)"
proof -
  show "view_of (retain_attempt a s) = view_of s"
    by (simp add: retain_attempt_def update_attempt_def split: option.split)
  show "view_of (replay_detection d s) = view_detection d (view_of s)"
    by (simp add: replay_detection_def view_detection_def Let_def split: sum.split)
  show "view_of (replay_boundary b s) = view_boundary b (view_of s)"
    by (simp add: replay_boundary_def view_boundary_def Let_def split: sum.split)
qed

text \<open>Replaying a record is its meaning.\<close>

lemma apply_replayed_frame_view:
  "map_result view_of (apply_replayed_frame f s) = view_record (fr_type f) (fr_payload f) (view_of s)"
  by (cases "fr_type f")
    (simp_all add: apply_replayed_frame_def view_record_def map_result_try case_prod_beta' if_distrib [of view_of]
      cong: if_cong)

lemma replay_frames_view: "map_result view_of (replay_frames fs s) = view_log fs (view_of s)"
proof (induction fs arbitrary: s)
  case (Cons f fs)
  show ?case
    using apply_replayed_frame_view [of f s, symmetric] Cons
    by (cases "apply_replayed_frame f s") simp_all
qed simp

lemma restored_tables_fields:
  fixes s d a b c
  defines "s1 \<equiv> restore_tables d (restore_counters d (s\<lparr>rs_store := a, rs_startup := b, rs_sequence := c\<rparr>))"
  shows "rs_topology s1 = rs_topology s" "rs_policy s1 = rs_policy s" "rs_evidence s1 = rs_evidence s"
    "rs_boundary s1 = rs_boundary s" "rs_boundary_plan s1 = ds_boundary_plan d"
    "rs_boundary_plan_digest s1 = ds_boundary_plan_digest d" "rs_epoch s1 = ds_epoch d"
  by (simp_all add: s1_def restore_tables_def restore_counters_def)

text \<open>Opening a store yields its meaning.\<close>

lemma restore_store_view:
  "map_result view_of (restore_store st s) =
   try_result (view_snapshot (rr_snapshot_payload (st_recovery st)) (view_of s)) (view_log (st_replayed st))"
proof -
  let ?s1 = "s\<lparr>rs_store := Some st, rs_startup := startup_of (st_recovery st),
      rs_sequence := rr_last_sequence (st_recovery st)\<rparr>"
  have snap: "map_result view_of (restore_snapshot d ?s1) =
      try_result (embedded topology_decode (ds_topology_bytes d)) (\<lambda>topology.
      try_result (embedded policy_decode (ds_policy_bytes d)) (\<lambda>policy.
      try_result (embedded evidence_decode (ds_evidence_bytes d)) (\<lambda>evidence.
      try_result (embedded boundary_decode (ds_boundary_bytes d)) (\<lambda>boundary. Inr
             \<lparr>vw_topology = (case topology of None \<Rightarrow> rs_topology s | Some t \<Rightarrow> Some t),
              vw_policy = (case policy of None \<Rightarrow> rs_policy s
                | Some p \<Rightarrow> if cp_generation (rs_policy s) < cp_generation p then p else rs_policy s),
              vw_evidence = (case evidence of None \<Rightarrow> rs_evidence s | Some x \<Rightarrow> x),
              vw_boundary = (case boundary of None \<Rightarrow> rs_boundary s | Some b \<Rightarrow> Some b),
              vw_boundary_plan = ds_boundary_plan d, vw_boundary_plan_digest = ds_boundary_plan_digest d,
              vw_epoch = ds_epoch d\<rparr>))))" for d
    unfolding restore_snapshot_def Let_def map_result_try map_result_simps view_of_def restored_tables_fields
    by (simp add: restored_tables_fields)
  let ?base = "if rr_snapshot_payload (st_recovery st) = [] then Inr ?s1
      else try_result (decode_durable_state (rr_snapshot_payload (st_recovery st))) (\<lambda>d. restore_snapshot d ?s1)"
  have base: "map_result view_of ?base = view_snapshot (rr_snapshot_payload (st_recovery st)) (view_of s)"
    unfolding view_snapshot_def view_fields by (simp add: map_result_try snap)
  have "restore_store st s = try_result ?base (replay_frames (st_replayed st))"
    by (simp add: restore_store_def Let_def)
  moreover have "map_result view_of (try_result b (replay_frames fs)) = try_result (map_result view_of b) (view_log fs)"
    for b fs
    by (cases b) (simp_all add: replay_frames_view)
  ultimately show ?thesis using base by simp
qed

lemma recover_state_view:
  assumes "rc_persist config" and "store_open (store_options_of config) sys = (Inr st, sys')"
    and "rr_snapshot_payload (st_recovery st) = dv_payload d" and "st_replayed st = dv_frames d"
    and "view_disk config d = Inr v"
  obtains s where "recover_state config sys = (Inr s, sys')" "view_of s = v"
proof -
  have "map_result view_of (restore_store st (initial_runtime config)) = Inr v"
    using assms(3-5) by (simp add: restore_store_view view_disk_def)
  then obtain s where "restore_store st (initial_runtime config) = Inr s" "view_of s = v"
    by (auto simp: map_result_Inr)
  then show thesis using that assms(1,2) by (simp add: recover_state_def Let_def)
qed

subsection \<open>Operations write what they do\<close>

text \<open>A durable runtime whose memory is the meaning of its store.\<close>

definition durable_at :: "runtime_state \<Rightarrow> os \<Rightarrow> disk_view \<Rightarrow> bool" where
  "durable_at s sys d \<longleftrightarrow> (\<exists>st. rs_store s = Some st \<and> running st sys d) \<and>
     view_disk (rs_config s) d = Inr (view_of s)"

text \<open>Room for \<open>n\<close> more records of any size in the log.\<close>

definition log_room :: "disk_view \<Rightarrow> nat \<Rightarrow> bool" where
  "log_room d n \<longleftrightarrow> length (log_bytes (dv_frames d)) + n * (28 + kMaxRecordPayloadBytes) \<le> kMaxWalFileBytes"

lemma log_room_less: "log_room d n \<Longrightarrow> m \<le> n \<Longrightarrow> log_room d m"
  unfolding log_room_def by (meson add_left_mono le_trans mult_le_mono1)

lemma view_log_append:
  "view_log (fs @ [f]) v = try_result (view_log fs v) (view_record (fr_type f) (fr_payload f))"
proof (induction fs arbitrary: v)
  case Nil
  show ?case by (cases "view_record (fr_type f) (fr_payload f) v") simp_all
next
  case (Cons g fs)
  then show ?case by (cases "view_record (fr_type g) (fr_payload g) v") simp_all
qed

lemma view_disk_append:
  assumes "view_disk config d = Inr v"
  shows "view_disk config (d\<lparr>dv_frames := dv_frames d @ [f]\<rparr>) = view_record (fr_type f) (fr_payload f) v"
  using assms by (auto simp: view_disk_def view_log_append try_result_Inr_iff)

lemma store_commit_payload:
  "store_commit t p (st, sys) = (Inr (), st', sys') \<Longrightarrow> length p \<le> kMaxRecordPayloadBytes"
  by (auto simp: store_commit_def Let_def io_bind_def on_os_def on_store_def split: if_splits)

text \<open>A successful commit appends its record.\<close>

lemma commit_durable:
  assumes "commit t p (s, sys) = (Inr (), s', sys')" and "\<exists>st. rs_store s = Some st \<and> running st sys d"
    and "view_disk (rs_config s) d = Inr v" and "log_room d (Suc n)" and "view_record t p v = Inr v'"
  shows "\<exists>d'. (\<exists>st. rs_store s' = Some st \<and> running st sys' d') \<and> view_disk (rs_config s) d' = Inr v' \<and>
    log_room d' n \<and> length p \<le> kMaxRecordPayloadBytes \<and> rs_config s' = rs_config s"
proof -
  obtain st where st: "rs_store s = Some st" "running st sys d" using assms(2) by blast
  obtain st' where c: "store_commit t p (st, sys) = (Inr (), st', sys')" and s': "rs_store s' = Some st'"
    using assms(1) st(1) by (auto elim: commit_cases)
  have len: "length p \<le> kMaxRecordPayloadBytes" by (rule store_commit_payload [OF c])
  let ?f = "next_frame t d p" let ?d = "d\<lparr>dv_frames := dv_frames d @ [?f]\<rparr>"
  have "length (log_bytes (dv_frames d)) + 28 + length p \<le> kMaxWalFileBytes"
    using assms(4) len by (simp add: log_room_def)
  then have "running st' sys' ?d" using commit_atomic [OF st(2) c] by auto
  moreover have "view_disk (rs_config s) ?d = Inr v'"
    using view_disk_append [OF assms(3), of ?f] assms(5) by (simp add: next_frame_def frame_of_def)
  moreover have "log_room ?d n" using assms(4) len by (simp add: log_room_def next_frame_def)
  moreover have "rs_config s' = rs_config s" by (rule commitD(1) [OF assms(1)])
  ultimately show ?thesis using s' len by blast
qed

lemma commit_view: "commit t p (s, sys) = (r, s', sys') \<Longrightarrow> view_of s' = view_of s"
  by (simp add: view_of_def commitD)

lemma durable_after:
  assumes "commit t p (s, sys) = (Inr (), s1, sys1)" and "durable_at s sys d" and "log_room d (Suc n)"
    and "view_record t p (view_of s) = Inr (view_of s')" and "rs_store s' = rs_store s1" and "rs_config s' = rs_config s1"
  shows "\<exists>d'. durable_at s' sys1 d' \<and> log_room d' n"
  using commit_durable [OF assms(1), of d "view_of s" n "view_of s'"] assms(2-)
  by (auto simp: durable_at_def)

lemma apply_topology_durable:
  assumes op: "apply_topology spec (s, sys) = (Inr g, s', sys')" and d: "durable_at s sys d" and room: "log_room d (Suc n)"
  shows "\<exists>d'. durable_at s' sys' d' \<and> log_room d' n"
proof -
  obtain t where t: "topology_build spec = Inr t" using op by (auto simp: apply_topology_def split: sum.splits)
  have newer: "case rs_topology s of None \<Rightarrow> True | Some old \<Rightarrow> t_generation old < t_generation t"
    using op t by (auto simp: apply_topology_def split: option.splits if_splits)
  have "rt_bind (commit TopologyDefinition (topology_encode t)) (\<lambda>_ (s, sys).
           (Inr (t_generation t), s\<lparr>rs_topology := Some t, rs_graph := Some (graph_build t)\<rparr>, sys)) (s, sys)
      = (Inr g, s', sys')"
    using op t newer by (auto simp: apply_topology_def split: option.splits if_splits)
  then obtain s1 where c: "commit TopologyDefinition (topology_encode t) (s, sys) = (Inr (), s1, sys')"
    and s': "s' = s1\<lparr>rs_topology := Some t, rs_graph := Some (graph_build t)\<rparr>"
    by (rule rt_bind_cases) auto
  have "view_record TopologyDefinition (topology_encode t) (view_of s) = Inr (view_of s')"
    using newer topology_decode_encode [OF topology_build_wf [OF t]] commit_view [OF c]
    by (simp add: view_record_def s')
  then show ?thesis by (rule durable_after [OF c d room]) (simp_all add: s')
qed

lemma apply_policy_durable:
  assumes op: "apply_policy p (s, sys) = (Inr g, s', sys')" and d: "durable_at s sys d" and room: "log_room d (Suc n)"
  shows "\<exists>d'. durable_at s' sys' d' \<and> log_room d' n"
proof -
  have p: "validate_policy p = Inr ()" using op by (auto simp: apply_policy_def split: sum.splits)
  have newer: "cp_generation (rs_policy s) < cp_generation p"
    using op p by (auto simp: apply_policy_def split: if_splits)
  have "rt_bind (commit PolicyDefinition (policy_encode p)) (\<lambda>_ (s, sys).
           (Inr (cp_generation p), s\<lparr>rs_policy := p\<rparr>, sys)) (s, sys) = (Inr g, s', sys')"
    using op p newer by (simp add: apply_policy_def)
  then obtain s1 where c: "commit PolicyDefinition (policy_encode p) (s, sys) = (Inr (), s1, sys')"
    and s': "s' = s1\<lparr>rs_policy := p\<rparr>"
    by (rule rt_bind_cases) auto
  have "policy_decode (policy_encode p) = Inr p" using p by (intro policy_decode_encode) (simp add: validate_policy_iff)
  then have "view_record PolicyDefinition (policy_encode p) (view_of s) = Inr (view_of s')"
    using newer commit_view [OF c] by (simp add: view_record_def s')
  then show ?thesis by (rule durable_after [OF c d room]) (simp_all add: s')
qed

lemma confirm_view [simp]: "view_of (confirm_evidence i s) = view_of s"
  "rs_store (confirm_evidence i s) = rs_store s" "rs_config (confirm_evidence i s) = rs_config s"
  by (simp_all add: confirm_evidence_def)

text \<open>The stored detection merges as the observation did: the time it was seen is not used.\<close>

lemma evidence_merged_stored:
  "evidence_merged v \<lparr>fo_resource = fo_resource obs, fo_state = fo_state obs,
     fo_generation = fo_generation obs, fo_digest = fo_digest obs, fo_observed_at = x\<rparr> = evidence_merged v obs"
  by (simp add: evidence_merged_def observed_entry_def Let_def)

lemma detection_of_fields:
  "dr_resource (detection_of obs s) = fo_resource obs" "dr_state (detection_of obs s) = fo_state obs"
  "dr_generation (detection_of obs s) = fo_generation obs" "dr_source_digest (detection_of obs s) = fo_digest obs"
  by (simp_all add: detection_of_def Let_def)

lemma record_detection_durable:
  assumes op: "record_detection obs (s, sys) = (Inr x, s', sys')" and d: "durable_at s sys d" and room: "log_room d (Suc n)"
    and valid: "is_valid_resource_id (fo_resource obs)"
  shows "\<exists>d'. durable_at s' sys' d' \<and> log_room d' n"
proof -
  obtain merged where m: "evidence_merged (rs_evidence s) obs = Inr merged" "fo_generation obs \<noteq> 0"
    using op by (auto simp: record_detection_def Let_def split: if_splits sum.splits)
  let ?rec = "detection_of obs s"
  show ?thesis
  proof (cases "ev_digest merged = ev_digest (rs_evidence s)")
    case True
    then have "s' = confirm_evidence (fo_resource obs) (bump sx_detections_unchanged_update s)" "sys' = sys"
      using op m by (simp_all add: record_detection_def Let_def)
    then show ?thesis using d log_room_less [OF room, of n] by (auto simp: durable_at_def)
  next
    case False
    have "rt_bind (commit DetectionRecord (encode_detection ?rec)) (\<lambda>_ (s, sys).
           if rs_sequence s \<noteq> dr_sequence ?rec
             then (err CodeInternal ''durable sequence diverged from the published sequence'', s, sys)
           else let s1 = evict_bounded_tables (s\<lparr>rs_evidence := merged,
                  rs_evidence_revision := rs_evidence_revision s + 1,
                  rs_detections := rs_detections s @ [?rec]\<rparr>);
                s2 = bump sx_detections_accepted_update (s1\<lparr>rs_conflict := False\<rparr>)
             in (Inr ?rec, confirm_evidence (fo_resource obs) s2, sys)) (s, sys) = (Inr x, s', sys')"
      using op m False by (simp add: record_detection_def Let_def)
    then obtain s1 where c: "commit DetectionRecord (encode_detection ?rec) (s, sys) = (Inr (), s1, sys')"
      and s': "s' = confirm_evidence (fo_resource obs) (bump sx_detections_accepted_update
        ((evict_bounded_tables (s1\<lparr>rs_evidence := merged, rs_evidence_revision := rs_evidence_revision s1 + 1,
           rs_detections := rs_detections s1 @ [?rec]\<rparr>))\<lparr>rs_conflict := False\<rparr>))"
      by (rule rt_bind_cases) (auto simp: Let_def split: if_splits)
    have "view_detection ?rec (view_of s) = (view_of s)\<lparr>vw_evidence := merged\<rparr>"
      using m(1) by (simp add: view_detection_def detection_of_fields evidence_merged_stored)
    then have "view_record DetectionRecord (encode_detection ?rec) (view_of s) = Inr (view_of s')"
      using decode_encode_detection [of ?rec] valid commit_view [OF c]
      by (simp add: view_record_def detection_of_fields s')
    then show ?thesis by (rule durable_after [OF c d room]) (simp_all add: s')
  qed
qed

subsection \<open>Transitions\<close>

lemma kMaxReasonCodeValue_cases:
  "RcAuthorityFenced \<le> kMaxReasonCodeValue" "RcAuthorityStaleEpoch \<le> kMaxReasonCodeValue"
  "RcTransitionSupersededByNewerPlan \<le> kMaxReasonCodeValue" "RcTransitionStaleGeneration \<le> kMaxReasonCodeValue"
  "RcTransitionDeniedUnverifiedEffect \<le> kMaxReasonCodeValue" "RcTransitionExpandNotASuperset \<le> kMaxReasonCodeValue"
  "RcTransitionContractNotASubset \<le> kMaxReasonCodeValue" "RcTransitionDeniedActiveFailures \<le> kMaxReasonCodeValue"
  "RcTransitionAccepted \<le> kMaxReasonCodeValue"
  by (simp_all add: kMaxReasonCodeValue_def RcAuthorityFenced_def RcAuthorityStaleEpoch_def
      RcTransitionSupersededByNewerPlan_def RcTransitionStaleGeneration_def RcTransitionDeniedUnverifiedEffect_def
      RcTransitionExpandNotASuperset_def RcTransitionContractNotASubset_def RcTransitionDeniedActiveFailures_def
      RcTransitionAccepted_def)

lemma encodable_single_reason:
  assumes "code \<le> kMaxReasonCodeValue"
  shows "encodable_explanation (add_reason code msg no_explanation)"
  using assms
  by (auto simp: encodable_explanation_def encodable_item_def add_reason_def explanation_add_def no_explanation_def
      wf_explanation_def kMaxExplanationItems_def)

lemma fail_transition_durable:
  assumes op: "fail_transition e status code reason msg (s, sys) = (Inr x, s', sys')" and d: "durable_at s sys d"
    and room: "log_room d (Suc n)" and e: "td_explanation e = no_explanation" and r: "reason \<le> kMaxReasonCodeValue"
  shows "\<exists>d'. durable_at s' sys' d' \<and> log_room d' n"
proof -
  let ?d1 = "e\<lparr>td_status := status, td_code := code,
      td_explanation := add_reason reason msg (td_explanation e), td_sequence := rs_sequence s\<rparr>"
  have "rt_bind (commit TransitionDecision (encode_transition ?d1)) (\<lambda>_ (s, sys).
          let d2 = ?d1\<lparr>td_sequence := rs_sequence s\<rparr>
          in (Inr d2, bump sx_transitions_denied_update
                (evict_bounded_tables (s\<lparr>rs_transitions := rs_transitions s @ [d2]\<rparr>)), sys)) (s, sys)
      = (Inr x, s', sys')"
    using op by (simp add: fail_transition_def Let_def)
  then obtain s1 d2 where c: "commit TransitionDecision (encode_transition ?d1) (s, sys) = (Inr (), s1, sys')"
    and s': "s' = bump sx_transitions_denied_update
        (evict_bounded_tables (s1\<lparr>rs_transitions := rs_transitions s1 @ [d2]\<rparr>))"
    by (rule rt_bind_cases) (auto simp: Let_def)
  have "decode_transition (encode_transition ?d1) = Inr ?d1"
    using encodable_single_reason [OF r] by (intro decode_encode_transition) (simp add: e)
  then have "view_record TransitionDecision (encode_transition ?d1) (view_of s) = Inr (view_of s')"
    using commit_view [OF c] by (simp add: view_record_def s')
  then show ?thesis by (rule durable_after [OF c d room]) (simp_all add: s')
qed

text \<open>An accepted transition writes its decision and the boundary; both must replay.\<close>

lemma accept_transition_durable:
  assumes op: "accept_transition e plan (s, sys) = (Inr x, s', sys')" and d: "durable_at s sys d"
    and room: "log_room d (Suc (Suc n))" and e: "encodable_explanation (td_explanation e)"
    and whole: "td_to_released e \<or> boundary_decode (boundary_encode (p_boundary plan)) = Inr (p_boundary plan)"
  shows "\<exists>d'. durable_at s' sys' d' \<and> log_room d' n"
proof -
  let ?b = "boundary_decision_of plan (td_to_released e)"
  let ?install = "\<lambda>s1 s2. bump sx_transitions_accepted_update (evict_bounded_tables
      (s2\<lparr>rs_boundary := (if td_to_released e then None else Some (p_boundary plan)),
          rs_boundary_plan := p_generation plan, rs_boundary_plan_digest := p_digest plan,
          rs_boundary_counter := (if td_to_released e then rs_boundary_counter s2 else b_generation (p_boundary plan)),
          rs_effect_state := EffNotRequested, rs_requires_reverification := False,
          rs_transitions := rs_transitions s2 @ [e\<lparr>td_sequence := rs_sequence s1\<rparr>]\<rparr>))"
  obtain s1 sys1 where c1: "commit TransitionDecision (encode_transition e) (s, sys) = (Inr (), s1, sys1)"
    and k: "rt_bind (commit BoundaryDecision (encode_boundary_decision ?b))
        (\<lambda>_ (s, sys). (Inr (e\<lparr>td_sequence := rs_sequence s1\<rparr>), ?install s1 s, sys)) (s1, sys1) = (Inr x, s', sys')"
    using op unfolding accept_transition_def Let_def by (rule rt_bind_cases) (auto split: prod.splits)
  from k obtain s2 where c2: "commit BoundaryDecision (encode_boundary_decision ?b) (s1, sys1) = (Inr (), s2, sys')"
    and s': "s' = ?install s1 s2"
    by (rule rt_bind_cases) auto
  have v1: "view_record TransitionDecision (encode_transition e) (view_of s) = Inr (view_of s1)"
    using decode_encode_transition [OF e] commit_view [OF c1] by (simp add: view_record_def)
  obtain d1 where d1: "\<exists>st. rs_store s1 = Some st \<and> running st sys1 d1" "view_disk (rs_config s) d1 = Inr (view_of s1)"
      "log_room d1 (Suc n)" and cfg: "rs_config s1 = rs_config s"
    using commit_durable [OF c1, of d "view_of s" "Suc n" "view_of s1"] d room v1
    by (auto simp: durable_at_def)
  have "durable_at s1 sys1 d1" using d1 cfg by (simp add: durable_at_def)
  moreover have "length (bd_boundary_bytes ?b) \<le> kMaxRecordPayloadBytes"
  proof -
    obtain st where "rs_store s1 = Some st" using d1(1) by blast
    then obtain st' where "store_commit BoundaryDecision (encode_boundary_decision ?b) (st, sys1) = (Inr (), st', sys')"
      using c2 by (auto elim: commit_cases)
    from store_commit_payload [OF this] show ?thesis
      by (simp add: encode_boundary_decision_def w_blob_def)
  qed
  then have "view_record BoundaryDecision (encode_boundary_decision ?b) (view_of s1) = Inr (view_of s')"
    using whole commit_view [OF c2]
    by (auto simp: view_record_def decode_encode_boundary_decision view_boundary_def boundary_decision_of_def s' Let_def)
  ultimately show ?thesis
    by (intro durable_after [OF c2, of d1]) (use d1 in \<open>simp_all add: s'\<close>)
qed

definition boundaries_encodable :: "runtime_state \<Rightarrow> bool" where
  "boundaries_encodable s \<longleftrightarrow>
     (\<forall>p \<in> set (rs_plans s). boundary_decode (boundary_encode (p_boundary p)) = Inr (p_boundary p))"

lemma decide_transition_durable:
  assumes op: "decide_transition request e plan (s, sys) = (Inr x, s', sys')" and d: "durable_at s sys d"
    and room: "log_room d (Suc (Suc n))" and e: "td_explanation e = no_explanation"
    and whole: "boundary_decode (boundary_encode (p_boundary plan)) = Inr (p_boundary plan)"
  shows "\<exists>d'. durable_at s' sys' d' \<and> log_room d' n"
proof -
  let ?d = "e\<lparr>td_from_generation := (case rs_boundary s of None \<Rightarrow> 0 | Some b \<Rightarrow> b_generation b),
      td_from_digest := (case rs_boundary s of None \<Rightarrow> zero_digest | Some b \<Rightarrow> b_digest b),
      td_observed_effect := rs_effect_state s\<rparr>"
  let ?d1 = "?d\<lparr>td_effect_verified := True\<rparr>"
  have fail: "\<exists>d'. durable_at s' sys' d' \<and> log_room d' n"
    if "fail_transition f status code reason msg (s, sys) = (Inr x, s', sys')"
      "td_explanation f = no_explanation" "reason \<le> kMaxReasonCodeValue" for f status code reason msg
    using fail_transition_durable [OF that(1) d log_room_less [OF room, of "Suc n"] that(2,3)] by simp
  have kinds: "reason \<le> kMaxReasonCodeValue"
    if "transition_kind_refused (tq_kind request) plan (rs_boundary s) = Some (status, code, reason, msg)"
    for status code reason msg
    using that kMaxReasonCodeValue_cases
    by (auto simp: transition_kind_refused_def split: transition_kind.splits if_splits)
  have accept: "\<exists>d'. durable_at s' sys' d' \<and> log_room d' n"
    if "accept_transition (accepted_decision ?d1 (tq_kind request) plan) plan (s, sys) = (Inr x, s', sys')"
    using accept_transition_durable [OF that d room] whole encodable_single_reason kMaxReasonCodeValue_cases(9)
    by (simp add: accepted_decision_def Let_def e)
  have "(\<exists>f status code reason msg. fail_transition f status code reason msg (s, sys) = (Inr x, s', sys') \<and>
      td_explanation f = no_explanation \<and> reason \<le> kMaxReasonCodeValue) \<or>
    accept_transition (accepted_decision ?d1 (tq_kind request) plan) plan (s, sys) = (Inr x, s', sys')"
  proof (cases "transition_kind_refused (tq_kind request) plan (rs_boundary s)")
    case None
    then show ?thesis
      using op kMaxReasonCodeValue_cases unfolding decide_transition_def Let_def prod.case
      by (auto simp del: not_None_eq split: if_splits intro!: exI simp: e)
  next
    case (Some k)
    then show ?thesis
      using op kMaxReasonCodeValue_cases kinds unfolding decide_transition_def Let_def prod.case
      by (cases k) (auto simp del: not_None_eq split: if_splits intro!: exI simp: e)
  qed
  then show ?thesis using fail accept by blast
qed

lemma durable_at_cong:
  assumes "durable_at s sys d" and "view_of s' = view_of s" and "rs_store s' = rs_store s" and "rs_config s' = rs_config s"
  shows "durable_at s' sys d"
  using assms by (simp add: durable_at_def)

lemma validate_view:
  assumes "validate_authorization i req now s = (r, s')"
  shows "view_of s' = view_of s"
  using validate_frame [OF assms] by (simp add: view_of_def)

lemma durable_validated:
  assumes "validate_authorization i req now s = (r, s')" and "durable_at s sys d"
  shows "durable_at s' sys d"
  by (rule durable_at_cong [OF assms(2) validate_view [OF assms(1)]]) (simp_all add: validate_frame [OF assms(1)])

lemma durable_bump [simp]: "durable_at (bump c s) sys d = durable_at s sys d"
  by (simp add: durable_at_def)

lemma durable_counters [simp]:
  "durable_at (s\<lparr>rs_transition_counter := n\<rparr>) sys d = durable_at s sys d"
  "durable_at (s\<lparr>rs_attempt_counter := k\<rparr>) sys d = durable_at s sys d"
  "durable_at (s\<lparr>rs_attempts := as\<rparr>) sys d = durable_at s sys d"
  by (simp_all add: durable_at_def)

lemma transition_durable:
  assumes op: "transition request now (s, sys) = (Inr x, s', sys')" and d: "durable_at s sys d"
    and room: "log_room d (Suc (Suc n))" and whole: "boundaries_encodable s"
  shows "\<exists>d'. durable_at s' sys' d' \<and> log_room d' n"
proof -
  let ?s = "s\<lparr>rs_transition_counter := rs_transition_counter s + 1\<rparr>"
  let ?e = "new_decision request ?s"
  obtain r1 s1 where v: "validate_authorization (tq_authorization request) False now ?s = (r1, s1)" by fastforce
  have d1: "durable_at s1 sys d" using durable_validated [OF v] d by simp
  have e: "td_explanation ?e = no_explanation" by (simp add: new_decision_def)
  have fail: "\<exists>d'. durable_at s' sys' d' \<and> log_room d' n"
    if "fail_transition ?e status code reason msg (s2, sys) = (Inr x, s', sys')" "durable_at s2 sys d"
      "reason \<le> kMaxReasonCodeValue" for status code reason msg s2
    using fail_transition_durable [OF that(1,2) log_room_less [OF room, of "Suc n"] e that(3)] by simp
  show ?thesis
  proof (cases r1)
    case (Inl a)
    then show ?thesis
      using op v d1 kMaxReasonCodeValue_cases fail [of TrStale "scode a" _ "smessage a" "bump sx_authority_rejections_update s1"]
      by (simp add: transition_def Let_def)
  next
    case (Inr rec)
    show ?thesis
    proof (cases "find_plan s1 (tq_plan request)")
      case None
      then show ?thesis using op v Inr d1 fail kMaxReasonCodeValue_cases by (simp add: transition_def Let_def)
    next
      case (Some plan)
      show ?thesis
      proof (cases "p_digest plan = tq_plan_digest request")
        case False
        then show ?thesis using op v Inr Some d1 fail kMaxReasonCodeValue_cases by (simp add: transition_def Let_def)
      next
        case True
        have "plan \<in> set (rs_plans s)"
          using Some find_Some_in validate_frame(9) [OF v] by (fastforce simp: find_plan_def)
        then have "boundary_decode (boundary_encode (p_boundary plan)) = Inr (p_boundary plan)"
          using whole by (simp add: boundaries_encodable_def)
        moreover have "decide_transition request ?e plan (s1, sys) = (Inr x, s', sys')"
          using op v Inr Some True by (simp add: transition_def Let_def)
        ultimately show ?thesis using decide_transition_durable d1 room e by blast
      qed
    qed
  qed
qed

lemma publish_plan_durable:
  assumes op: "publish_plan plan g (s, sys) = (Inr x, s', sys')" and d: "durable_at s sys d" and room: "log_room d (Suc n)"
    and whole: "encodable_plan plan"
  shows "\<exists>d'. durable_at s' sys' d' \<and> log_room d' n"
proof -
  obtain s1 where c: "commit PlanDecision (plan_encode plan) (s, sys) = (Inr (), s1, sys')"
    and s': "s' = bump sx_plans_computed_update (evict_bounded_tables
      (s1\<lparr>rs_plan_counter := g, rs_plans := rs_plans s1 @ [plan]\<rparr>))"
    using op by (auto simp: publish_plan_def split: prod.splits sum.splits)
  have "view_record PlanDecision (plan_encode plan) (view_of s) = Inr (view_of s')"
    using plan_decode_encode [OF whole] commit_view [OF c] by (simp add: view_record_def s')
  then show ?thesis by (rule durable_after [OF c d room]) (simp_all add: s')
qed

lemma rt_plan_durable:
  assumes op: "rt_plan i now (s, sys) = Some (Inr plan, s', sys')" and d: "durable_at s sys d" and room: "log_room d (Suc n)"
    and whole: "encodable_plan plan"
  shows "\<exists>d'. durable_at s' sys' d' \<and> log_room d' n"
  using rt_plan_published [OF op] publish_plan_durable [OF _ d room whole] by metis

lemma submit_apply_durable:
  assumes op: "submit_apply request now later (s, sys) = (Inr x, s', sys')" and d: "durable_at s sys d"
    and room: "log_room d (Suc n)"
  shows "\<exists>d'. durable_at s' sys' d' \<and> log_room d' n"
proof -
  obtain r1 s1 where v: "validate_authorization (sq_authorization request) True now s = (r1, s1)" by fastforce
  let ?s1 = "s1\<lparr>rs_attempt_counter := rs_attempt_counter s1 + 1\<rparr>"
  have d1: "durable_at ?s1 sys d" using durable_validated [OF v d] by simp
  obtain plan s2 where c: "commit ApplyAttempt (encode_attempt (new_attempt plan later ?s1)) (?s1, sys) = (Inr (), s2, sys')"
    and s': "s' = bump sx_apply_attempts_update (evict_bounded_tables
        (s2\<lparr>rs_attempts := rs_attempts s2 @ [new_attempt plan later ?s1], rs_effect_state := EffSubmitted\<rparr>))"
    using op v
    by (auto simp: submit_apply_def Let_def elim!: rt_bind_cases split: sum.splits option.splits if_splits)
  have "RcApplySubmitted \<le> kMaxReasonCodeValue" by (simp add: RcApplySubmitted_def kMaxReasonCodeValue_def)
  then have "decode_attempt (encode_attempt (new_attempt plan later ?s1)) = Inr (new_attempt plan later ?s1)"
    by (intro decode_encode_attempt) (simp add: new_attempt_def encodable_single_reason)
  then have "view_record ApplyAttempt (encode_attempt (new_attempt plan later ?s1)) (view_of ?s1) = Inr (view_of s')"
    using commit_view [OF c] by (simp add: view_record_def s')
  then show ?thesis by (rule durable_after [OF c d1 room]) (simp_all add: s')
qed

subsection \<open>A crash after any of them\<close>

text \<open>A successful operation whose records can be read again.\<close>

inductive durable_step :: "runtime_state \<times> os \<Rightarrow> runtime_state \<times> os \<Rightarrow> bool" where
  "apply_topology spec w = (Inr g, w') \<Longrightarrow> durable_step w w'"
| "apply_policy p w = (Inr g, w') \<Longrightarrow> durable_step w w'"
| "record_detection obs w = (Inr d, w') \<Longrightarrow> is_valid_resource_id (fo_resource obs) \<Longrightarrow> durable_step w w'"
| "authorize now w = (Inr a, w') \<Longrightarrow> durable_step w w'"
| "rt_plan i now w = Some (Inr plan, w') \<Longrightarrow> encodable_plan plan \<Longrightarrow> durable_step w w'"
| "transition request now w = (Inr x, w') \<Longrightarrow> boundaries_encodable (fst w) \<Longrightarrow> durable_step w w'"
| "submit_apply sub now later w = (Inr y, w') \<Longrightarrow> durable_step w w'"

lemma durable_step_durable:
  assumes "durable_step (s, sys) (s', sys')" and d: "durable_at s sys d" and room: "log_room d (Suc (Suc n))"
  shows "\<exists>d'. durable_at s' sys' d' \<and> log_room d' n"
  using assms(1)
proof (cases rule: durable_step.cases)
  case (1 spec g)
  then show ?thesis using apply_topology_durable d log_room_less [OF room, of "Suc n"] by simp
next
  case (2 p g)
  then show ?thesis using apply_policy_durable d log_room_less [OF room, of "Suc n"] by simp
next
  case (3 obs x)
  then show ?thesis using record_detection_durable d log_room_less [OF room, of "Suc n"] by simp
next
  case (4 now a)
  then have "view_of s' = view_of s" "rs_store s' = rs_store s" "rs_config s' = rs_config s" "sys' = sys"
    by (auto simp: authorize_def Let_def split: if_splits)
  then show ?thesis using durable_at_cong [OF d] log_room_less [OF room, of n] by auto
next
  case (5 i now plan)
  then show ?thesis using rt_plan_durable d log_room_less [OF room, of "Suc n"] by simp
next
  case (6 request now x)
  then show ?thesis using transition_durable [OF _ d room] by simp
next
  case (7 sub now later y)
  then show ?thesis using submit_apply_durable d log_room_less [OF room, of "Suc n"] by simp
qed

lemma durable_steps:
  assumes "(durable_step ^^ k) (s, sys) (s', sys')" and "durable_at s sys d" and "log_room d (2 * k + n)"
  shows "\<exists>d'. durable_at s' sys' d' \<and> log_room d' n"
  using assms
proof (induction k arbitrary: s sys d)
  case 0
  then show ?case by auto
next
  case (Suc k)
  from Suc.prems(1) have "(durable_step OO (durable_step ^^ k)) (s, sys) (s', sys')"
    by (simp only: relpowp_Suc_left)
  then obtain s1 sys1 where step: "durable_step (s, sys) (s1, sys1)" and rest: "(durable_step ^^ k) (s1, sys1) (s', sys')"
    by (metis OO_def surj_pair)
  have "log_room d (Suc (Suc (2 * k + n)))" using Suc.prems(3) by simp
  then obtain d1 where "durable_at s1 sys1 d1" "log_room d1 (2 * k + n)"
    using durable_step_durable [OF step Suc.prems(2)] by blast
  then show ?case using Suc.IH [OF rest] by blast
qed

text \<open>The next process recovers exactly the view memory had.\<close>

lemma durable_restart:
  assumes "durable_at s sys d" and "rc_persist (rs_config s)" and "rc_store_root (rs_config s) \<noteq> []"
    and "lock_free (restart pid sys)"
  shows "\<exists>s2 sys2. recover_state (rs_config s) (restart pid sys) = (Inr s2, sys2) \<and> view_of s2 = view_of s"
proof -
  obtain st where st: "rs_store s = Some st" "running st sys d" using assms(1) by (auto simp: durable_at_def)
  have "good_options (store_options_of (rs_config s))"
    using assms(3) by (simp add: good_options_def store_options_of_def kMaxRetainedSnapshots_def)
  moreover have "disk_shows (restart pid sys) d" "dv_tail d = []" using st(2) by (simp_all add: running_def)
  ultimately have "recovers (store_options_of (rs_config s)) (restart pid sys) d"
    using assms(4) by (intro open_recovers) simp_all
  then obtain st2 sys2 where "store_open (store_options_of (rs_config s)) (restart pid sys) = (Inr st2, sys2)"
    "st_replayed st2 = dv_frames d" "rr_snapshot_payload (st_recovery st2) = dv_payload d"
    by (auto simp: recovers_def)
  then show ?thesis
    using recover_state_view [OF assms(2)] assms(1) by (metis durable_at_def)
qed

end
