(* ===== verification/Runtime_Findings.thy ===== *)
theory Runtime_Findings
  imports Runtime_Replay Engine_Refinement
begin

section \<open>What a restart loses\<close>

text \<open>
  Behaviour of the runtime that its documents exclude: an infeasible plan after which the store
  cannot be opened, generations that start over after a restart without a snapshot, and an
  attempt of an earlier incarnation that is verified under the current one.
\<close>

subsection \<open>A record that cannot be read again\<close>

lemma recover_state_fails:
  assumes "rc_persist config" and "store_open (store_options_of config) sys = (Inr st, sys')"
    and "rr_snapshot_payload (st_recovery st) = dv_payload d" and "st_replayed st = dv_frames d"
    and "view_disk config d = Inl e"
  shows "\<exists>sys2. recover_state config sys = (Inl e, sys2)"
proof -
  have "map_result view_of (restore_store st (initial_runtime config)) = Inl e"
    using assms(3-5) by (simp add: restore_store_view view_disk_def)
  then have "restore_store st (initial_runtime config) = Inl e"
    by (cases "restore_store st (initial_runtime config)") simp_all
  then show ?thesis using assms(1,2) by (simp add: recover_state_def Let_def)
qed

lemma infeasible_plan_unreadable:
  assumes "rt_inv s" and "rt_plan i now (s, sys) = Some (Inr plan, s', sys')" and "p_claim plan = ClaimProvenInfeasible"
  shows "\<exists>e. plan_decode (plan_encode plan) = Inl e"
proof -
  obtain c where c: "rs_topology s \<noteq> None"
    "compute_plan (plan_inputs_of s) (current_authority s) (rs_plan_counter s + 1) = Some (Inr c)"
    "plan = (if rs_conflict s then degrade_conflicting (pl_plan c) else pl_plan c)"
    using rt_plan_published [OF assms(2)] by blast
  have "plan = pl_plan c" using c(3) assms(3) by (auto simp: degrade_conflicting_def split: if_splits)
  moreover obtain t where "rs_topology s = Some t" using c(1) by blast
  ultimately have "\<not> is_ok (plan_decode (plan_encode plan))"
    using infeasible_plan_undecodable [OF current_inputs_valid c(2)] assms(1,3) by (auto simp: rt_inv_def)
  then show ?thesis by (cases "plan_decode (plan_encode plan)") simp_all
qed

text \<open>After an infeasible plan was published, no process opens the store again.\<close>

lemma unreadable_plan_blocks_open:
  assumes op: "rt_plan i now (s, sys) = Some (Inr plan, s', sys')" and bad: "plan_decode (plan_encode plan) = Inl e"
    and d: "durable_at s sys d" and room: "log_room d 1"
    and config: "rc_persist (rs_config s)" "rc_store_root (rs_config s) \<noteq> []"
    and lock: "lock_free (restart pid sys')"
  shows "\<exists>err sys2. runtime_open (rs_config s) True boot (restart pid sys') = (Inl err, sys2)"
proof -
  obtain st where st: "rs_store s = Some st" "running st sys d" and v: "view_disk (rs_config s) d = Inr (view_of s)"
    using d by (auto simp: durable_at_def)
  obtain s1 where "commit PlanDecision (plan_encode plan) (s, sys) = (Inr (), s1, sys')"
    using rt_plan_published [OF op] by (fastforce simp: publish_plan_def split: prod.splits sum.splits)
  then obtain st1 where c: "store_commit PlanDecision (plan_encode plan) (st, sys) = (Inr (), st1, sys')"
    using st(1) by (auto elim: commit_cases)
  let ?f = "next_frame PlanDecision d (plan_encode plan)" let ?d = "d\<lparr>dv_frames := dv_frames d @ [?f]\<rparr>"
  have "length (log_bytes (dv_frames d)) + 28 + length (plan_encode plan) \<le> kMaxWalFileBytes"
    using room store_commit_payload [OF c] by (simp add: log_room_def)
  then have "running st1 sys' ?d" using commit_atomic [OF st(2) c] by auto
  then have "disk_shows (restart pid sys') ?d" "dv_tail ?d = []" by (simp_all add: running_def)
  moreover have "good_options (store_options_of (rs_config s))"
    using config by (simp add: good_options_def store_options_of_def kMaxRetainedSnapshots_def)
  ultimately have "recovers (store_options_of (rs_config s)) (restart pid sys') ?d"
    using lock by (intro open_recovers) simp_all
  then obtain st2 sys2 where "store_open (store_options_of (rs_config s)) (restart pid sys') = (Inr st2, sys2)"
    "rr_snapshot_payload (st_recovery st2) = dv_payload ?d" "st_replayed st2 = dv_frames ?d"
    by (auto simp: recovers_def)
  moreover have "view_disk (rs_config s) ?d = Inl e"
    using view_disk_append [OF v, of ?f] bad by (simp add: view_record_def next_frame_def frame_of_def)
  ultimately obtain sys3 where "recover_state (rs_config s) (restart pid sys') = (Inl e, sys3)"
    using recover_state_fails [OF config(1)] by blast
  then show ?thesis by (simp add: runtime_open_def split: sum.split)
qed

subsection \<open>Counters that start over\<close>

lemma replayed_counters:
  "replay_frames fs s = Inr s' \<Longrightarrow> rs_plan_counter s' = rs_plan_counter s \<and> rs_attempt_counter s' = rs_attempt_counter s"
proof (induction fs arbitrary: s)
  case (Cons f fs)
  have "yields (\<lambda>x. rs_plan_counter x = rs_plan_counter s \<and> rs_attempt_counter x = rs_attempt_counter s)
      (apply_replayed_frame f s)"
    unfolding apply_replayed_frame_def
    by (cases "fr_type f"; simp only: record_type.simps; intro yields_intros)
      (auto simp: retain_attempt_def update_attempt_def replay_detection_def replay_boundary_def Let_def
        split: option.splits sum.splits)
  then show ?case using Cons by (auto simp: try_result_Inr_iff yields_def)
qed simp

text \<open>Opening a store that has no snapshot: plan and attempt generations start over, although the
  plans and attempts of the log are retained.\<close>

lemma counters_start_over:
  assumes opened: "runtime_open config True boot sys = (Inr s, sys')" and p: "rc_persist config"
    and disk: "fault_free sys" "disk_shows sys d" "lock_free sys" "dv_snapshot d = 0"
    and torn: "dv_tail d = [] \<or> rc_allow_torn_tail config"
  shows "rs_plan_counter s = 0 \<and> rs_attempt_counter s = 0"
proof -
  obtain s0 sys0 s2 where r: "recover_state config sys = (Inr s0, sys0)" and s: "s = finish_startup s2"
    and u: "uninstalled s2 = uninstalled (restart_runtime (BootIdentity boot (ucast (os_pid sys0))) s0)"
    using runtime_open_cases [OF opened] by metis
  have "rc_store_root config \<noteq> []"
    using opened p by (auto simp: runtime_open_def check_config_def err_def split: if_splits)
  then have "recovers (store_options_of config) sys d"
    using disk torn by (intro open_recovers) (simp_all add: good_options_def store_options_of_def kMaxRetainedSnapshots_def)
  then obtain st sys1 where st: "store_open (store_options_of config) sys = (Inr st, sys1)"
    "rr_snapshot_payload (st_recovery st) = dv_payload d"
    by (auto simp: recovers_def)
  have "dv_payload d = []" using disk(2,4) by (simp add: disk_shows_def)
  then have "restore_store st (initial_runtime config) = Inr s0"
    using r p st by (auto simp: recover_state_def Let_def split: sum.splits)
  then have "rs_plan_counter s0 = 0 \<and> rs_attempt_counter s0 = 0"
    using st(2) \<open>dv_payload d = []\<close> replayed_counters
    by (fastforce simp: restore_store_def Let_def initial_runtime_def new_state_def)
  then show ?thesis using uninstalledD(7,8) [OF u] by (simp add: s finish_startup_def)
qed

subsection \<open>An attempt of an earlier incarnation\<close>

text \<open>Only the report's epoch and boot are compared with the current ones, never the attempt's:
  an attempt that was ambiguous when its incarnation stopped is verified under the next.\<close>

lemma old_attempt_is_verified:
  assumes "find_attempt s (vf_id v) = Some a" and "at_boot a \<noteq> rs_boot s" and "at_state a = EffAmbiguous"
    and "vf_expected_epoch v = rs_epoch s" and "vf_expected_boot v = rs_boot s"
    and "at_applier_sequence a < vf_applier_sequence v"
    and "vf_observation v = ObsApplied" and "vf_observed_digest v = at_boundary_digest a"
  shows "\<exists>b. at_state b = EffVerifiedApplied \<and> at_boot b \<noteq> rs_boot s \<and>
    (\<forall>s1 sys1. commit EffectVerification (encode_attempt b) (update_attempt (vf_id v) (\<lambda>_. b) s, sys) = (Inr (), s1, sys1) \<longrightarrow>
      (\<exists>s'. verify_effect v now (s, sys) = (Inr b, s', sys1) \<and> \<not> rs_requires_reverification s'))"
proof -
  obtain b where o: "observed v now a = (b, None)" "at_state b = EffVerifiedApplied" "at_boot b = at_boot a"
    using assms(7,8) by (simp add: observed_def Let_def set_outcome_def with_report_def)
  have v: "is_verified_effect (at_state b)" using o(2) by (simp add: is_verified_effect_def)
  have rev: "\<not> rs_requires_reverification (adopt_decision b s1)" for s1
    using v by (simp add: adopt_decision_def Let_def split: option.splits)
  have "verify_effect v now (s, sys) = (Inr b, bump sx_verifications_update (recompute_effect_state (adopt_decision b s1)), sys1)"
    if "commit EffectVerification (encode_attempt b) (update_attempt (vf_id v) (\<lambda>_. b) s, sys) = (Inr (), s1, sys1)" for s1 sys1
    using that assms(1,3-6) o(1) by (simp add: verify_effect_def check_attempt_authority_def rt_bind_def)
  then show ?thesis using o(2,3) assms(2) rev by (intro exI [of _ b]) simp
qed

end
