(* ===== verification/Runtime_Generations.thy ===== *)
theory Runtime_Generations
  imports Runtime_Findings
begin

section \<open>Plan generations\<close>

text \<open>
  A published plan carries the next generation of the counter, and so does its boundary. After
  a restart without a snapshot the counter is zero (\<open>counters_start_over\<close>) while the plans of
  the log are retained: the new plan takes the generation of an old one and can never be used.
\<close>

lemma seal_generation [simp]: "p_generation (seal p) = p_generation p"
  by (simp add: seal_def)

lemma plan_solution_generation:
  "plan_solution policy p budget gen sol plan = Some (Inr plan') \<Longrightarrow> p_generation plan' = p_generation plan"
  by (auto simp: plan_solution_def set_boundary_def Let_def split: sum.splits option.splits if_splits)

lemma plan_solved_generation:
  assumes "plan_solved t g policy p currency gen plan = Some (Inr plan')"
  shows "p_generation plan' = p_generation plan"
proof -
  have prep: "p_generation (prepare_plan t g p currency sol plan) = p_generation plan" for sol
    by (simp add: prepare_plan_def Let_def)
  obtain sol where sol: "solve p \<lparr>sb_max_explored = cp_exact_budget policy, sb_max_iterations = cp_heuristic_budget policy\<rparr>
      (unat (cp_node_limit policy)) = Some sol"
    using assms by (auto simp: plan_solved_def Let_def split: option.splits)
  show ?thesis
    using assms sol prep plan_solution_generation
    by (cases "cs_status sol")
      (fastforce simp: plan_solved_def Let_def plan_infeasible_def plan_limit_def plan_invalid_def)+
qed

lemma quiet_plan_generation:
  "plan_no_failures t gen plan = Inr plan' \<Longrightarrow> p_generation plan' = p_generation plan"
  "plan_all_missing missing gen plan = Inr plan' \<Longrightarrow> p_generation plan' = p_generation plan"
  "plan_no_obligations t policy currency gen plan = Inr plan' \<Longrightarrow> p_generation plan' = p_generation plan"
  by (auto simp: plan_no_failures_def plan_all_missing_def plan_no_obligations_def case_prod_beta
      try_result_Inr_iff set_boundary_def Let_def split: if_splits)

lemma compute_plan_generation:
  assumes "valid_inputs inputs t v policy" and "compute_plan inputs authority generation = Some (Inr c)"
  shows "p_generation (pl_plan c) = generation"
  using assms
proof (cases rule: compute_plan_cases)
  case quiet
  then show ?thesis using quiet_plan_generation(1) by (fastforce simp: base_plan_def)
next
  case missing
  then show ?thesis using quiet_plan_generation(2) by (fastforce simp: base_plan_def)
next
  case unprotected
  then show ?thesis using quiet_plan_generation(3) by (fastforce simp: base_plan_def)
next
  case (solved p plan)
  then show ?thesis using plan_solved_generation by (fastforce simp: base_plan_def)
qed

lemma degrade_generation [simp]: "p_generation (degrade_conflicting p) = p_generation p"
  by (simp add: degrade_conflicting_def)

lemma published_generation:
  assumes "inv_model s" and "rt_plan i now (s, sys) = Some (Inr plan, s', sys')"
  shows "p_generation plan = rs_plan_counter s + 1" and "rs_plan_counter s' = rs_plan_counter s + 1"
    and "rs_plans s' = pop_to_bound (rc_max_plans (rs_config s)) (rs_plans s @ [plan])"
proof -
  obtain c where c: "rs_topology s \<noteq> None"
    "compute_plan (plan_inputs_of s) (current_authority s) (rs_plan_counter s + 1) = Some (Inr c)"
    "plan = (if rs_conflict s then degrade_conflicting (pl_plan c) else pl_plan c)"
    and p: "publish_plan plan (rs_plan_counter s + 1) (s, sys) = (Inr plan, s', sys')"
    using rt_plan_published [OF assms(2)] by blast
  obtain t where "rs_topology s = Some t" using c(1) by blast
  then have "p_generation (pl_plan c) = rs_plan_counter s + 1"
    using compute_plan_generation [OF current_inputs_valid [OF assms(1)] c(2)] by simp
  then show "p_generation plan = rs_plan_counter s + 1" using c(3) by simp
  show "rs_plan_counter s' = rs_plan_counter s + 1"
    "rs_plans s' = pop_to_bound (rc_max_plans (rs_config s)) (rs_plans s @ [plan])"
    using publish_plan_table [OF p] by simp_all
qed

text \<open>A plan whose generation is taken cannot be used: the retained plan hides it.\<close>

lemma find_append: "List.find P xs = Some x \<Longrightarrow> List.find P (xs @ ys) = Some x"
  by (induction xs) (auto split: if_splits)

lemma reused_generation_refused:
  assumes "inv_model s" and "rt_plan i now (s, sys) = Some (Inr plan, s', sys')"
    and "find_plan s (rs_plan_counter s + 1) = Some old" and "p_digest plan \<noteq> p_digest old"
    and "length (rs_plans s) < rc_max_plans (rs_config s)"
  shows "find_plan s' (p_generation plan) = Some old"
    and "tq_plan request = p_generation plan \<Longrightarrow> tq_plan_digest request = p_digest plan \<Longrightarrow>
      transition request later (s', sys') = (Inr d, w) \<Longrightarrow> td_status d \<noteq> TrAccepted"
proof -
  have "rs_plans s' = rs_plans s @ [plan]" using published_generation(3) [OF assms(1,2)] assms(5) by simp
  then show old: "find_plan s' (p_generation plan) = Some old"
    using assms(3) find_append published_generation(1) [OF assms(1,2)] by (simp add: find_plan_def)
  show "td_status d \<noteq> TrAccepted"
    if "tq_plan request = p_generation plan" "tq_plan_digest request = p_digest plan"
      "transition request later (s', sys') = (Inr d, w)"
  proof -
    obtain s2 sys2 where w: "w = (s2, sys2)" by fastforce
    show ?thesis
      using transition_result [of request later s' sys' "Inr d" s2 sys2] that old assms(4)
      unfolding w transition_justified_def by auto
  qed
qed

end
