(* ===== verification/Runtime_Example.thy ===== *)
theory Runtime_Example
  imports Runtime_Generations Examples Store_Example
begin

section \<open>A concrete run\<close>

text \<open>
  The deployment of \<open>Examples\<close> run from startup to a verified boundary: open, detection,
  authorization, plan, expansion, submission and verification, on a runtime without a store,
  and a durable runtime whose log is still empty. The witnesses use these states.
\<close>

subsection \<open>Opening\<close>

definition ex_topology_spec :: "bool \<Rightarrow> topology_spec" where
  "ex_topology_spec elig = \<lparr>ts_generation = 1, ts_nodes = ex_nodes elig,
     ts_edges = [\<lparr>es_from = ''m'', es_to = ''p'', es_evidence = EdgeProven, es_generation = 1\<rparr>,
       \<lparr>es_from = ''s'', es_to = ''m'', es_evidence = EdgeUnknown, es_generation = 1\<rparr>]\<rparr>"

lemma ex_topology_build: "topology_build (ex_topology_spec elig) = Inr (ex_topology elig)"
proof -
  have nodes: "sort_key ns_id (ex_nodes elig) = ex_nodes elig" by (simp add: ex_nodes_def)
  have lookup: "canonical_lookup (ex_nodes elig) ''m'' = Some 0" "canonical_lookup (ex_nodes elig) ''p'' = Some 1"
    "canonical_lookup (ex_nodes elig) ''s'' = Some 2"
    by (simp_all add: canonical_lookup_def ex_nodes_def numeral_2_eq_2 upt_rec)
  have edges: "sort_key edge_key (map (projr \<circ> resolve_edge (canonical_lookup (ex_nodes elig))) (ts_edges (ex_topology_spec elig)))
      = ex_edges"
    by (simp add: ex_topology_spec_def resolve_edge_def lookup ex_edges_def edge_key_def)
  have wf: "\<forall>n \<in> set (ex_nodes elig). wf_node n" by (cases elig; code_simp)
  have "spec_acceptable (ex_topology_spec elig)"
    unfolding spec_acceptable_def Let_def
    using wf
    by (simp add: ex_topology_spec_def nodes resolve_edge_def lookup limit_defs edge_key_def)
       (simp add: ex_nodes_def)
  then show ?thesis
    unfolding topology_build_iff Let_def using edges
    by (simp add: ex_topology_def nodes ex_topology_spec_def)
qed

definition ex_config :: "bool \<Rightarrow> runtime_config" where
  "ex_config persist =
     \<lparr>rc_store_root = ''store'', rc_persist = persist, rc_durable_commit = True, rc_allow_torn_tail = True,
      rc_policy = ex_policy False, rc_topology = ex_topology_spec True, rc_topology_generation = 1,
      rc_lease_millis = 1000, rc_require_confirmation = True, rc_max_plans = 8, rc_max_attempts = 8,
      rc_max_transitions = 8, rc_max_detections = 8, rc_max_authorizations = 8\<rparr>"

definition ex_os :: os where
  "ex_os = \<lparr>os_root = RootDirectory, os_files = [], os_faults = [], os_pid = 1, os_alive = \<lambda>_. False\<rparr>"

lemma ex_config_fields [simp]:
  "rc_store_root (ex_config p) = ''store''" "rc_persist (ex_config p) = p" "rc_policy (ex_config p) = ex_policy False"
  "rc_topology (ex_config p) = ex_topology_spec True" "rc_lease_millis (ex_config p) = 1000"
  "rc_require_confirmation (ex_config p) = True" "rc_max_plans (ex_config p) = 8"
  "rc_max_attempts (ex_config p) = 8" "rc_max_transitions (ex_config p) = 8"
  "rc_max_detections (ex_config p) = 8" "rc_max_authorizations (ex_config p) = 8"
  by (simp_all add: ex_config_def)

text \<open>The state after opening without a store.\<close>

definition ex_opened :: runtime_state where
  "ex_opened = projr (fst (runtime_open (ex_config False) True 7 ex_os))"

lemma ex_policy_generation: "cp_generation (ex_policy req) = 1"
  by (simp add: ex_policy_def default_policy_def)

lemma ex_open:
  "runtime_open (ex_config False) True 7 ex_os = (Inr ex_opened, ex_os)"
  "rs_topology ex_opened = Some (ex_topology True)" "rs_graph ex_opened = Some (graph_build (ex_topology True))"
  "rs_store ex_opened = None" "rs_config ex_opened = ex_config False" "rs_boot ex_opened = BootIdentity 7 1"
  "rs_epoch ex_opened = 1" "rs_policy ex_opened = ex_policy False" "rs_evidence ex_opened = empty_evidence"
  "rs_confirmation ex_opened = []" "rs_conflict ex_opened = False" "rs_plan_counter ex_opened = 0"
  "rs_boundary ex_opened = None" "rs_boundary_plan ex_opened = 0" "rs_authorizations ex_opened = []"
  "rs_authorization_counter ex_opened = 0" "rs_plans ex_opened = []" "rs_attempts ex_opened = []"
  "rs_effect_state ex_opened = EffNotRequested" "rs_detections ex_opened = []" "rs_sequence ex_opened = 0"
  "rs_evidence_revision ex_opened = 0" "rs_requires_reverification ex_opened = False"
proof -
  let ?s0 = "initial_runtime (ex_config False)"
  let ?s1 = "?s0\<lparr>rs_startup := (rs_startup ?s0)\<lparr>su_fresh := True\<rparr>\<rparr>"
  let ?s2 = "restart_runtime (BootIdentity 7 1) ?s1"
  let ?s3 = "?s2\<lparr>rs_topology := Some (ex_topology True), rs_graph := Some (graph_build (ex_topology True))\<rparr>"
  have r: "recover_state (ex_config False) ex_os = (Inr ?s1, ex_os)" by (simp add: recover_state_def Let_def)
  have i: "rs_store ?s1 = None" "rs_topology ?s1 = None" "rs_config ?s1 = ex_config False"
    "rs_epoch ?s1 = 0" "rs_policy ?s1 = ex_policy False" "rs_evidence ?s1 = empty_evidence"
    "rs_confirmation ?s1 = []" "rs_conflict ?s1 = False" "rs_plan_counter ?s1 = 0" "rs_boundary ?s1 = None"
    "rs_boundary_plan ?s1 = 0" "rs_authorization_counter ?s1 = 0" "rs_plans ?s1 = []" "rs_attempts ?s1 = []"
    "rs_detections ?s1 = []" "rs_sequence ?s1 = 0" "rs_evidence_revision ?s1 = 0"
    by (simp_all add: initial_runtime_def new_state_def ex_policy_generation)
  have e: "rs_effect_state ?s2 = EffNotRequested" "\<not> rs_requires_reverification ?s2"
    by (simp_all add: restart_runtime_def demote_effect_def recompute_effect_state_def begin_incarnation_def
        initial_runtime_def new_state_def Let_def empty_startup_def)
  have n: "ts_nodes (ex_topology_spec True) \<noteq> []" by (simp add: ex_topology_spec_def ex_nodes_def)
  have o: "rt_bind install_topology (\<lambda>_. publish_incarnation) (?s2, ex_os) = (Inr (), ?s3, ex_os)"
    by (simp add: rt_bind_def install_topology_def publish_incarnation_def Let_def i n ex_topology_build)
  have pid: "os_pid ex_os = 1" by (simp add: ex_os_def)
  have check: "check_config (ex_config False) True = Inr ()"
    by (simp add: check_config_def kMaxRetainedPlans_def kMaxRetainedAttempts_def kMaxSessions_def)
  have opened: "runtime_open (ex_config False) True 7 ex_os = (Inr (finish_startup ?s3), ex_os)"
    using o by (simp add: runtime_open_def check r pid)
  then have op: "ex_opened = finish_startup ?s3" by (simp add: ex_opened_def)
  show "runtime_open (ex_config False) True 7 ex_os = (Inr ex_opened, ex_os)" using opened op by simp
  show "rs_topology ex_opened = Some (ex_topology True)" "rs_graph ex_opened = Some (graph_build (ex_topology True))"
    "rs_store ex_opened = None" "rs_config ex_opened = ex_config False" "rs_boot ex_opened = BootIdentity 7 1"
    "rs_epoch ex_opened = 1" "rs_policy ex_opened = ex_policy False" "rs_evidence ex_opened = empty_evidence"
    "rs_confirmation ex_opened = []" "rs_conflict ex_opened = False" "rs_plan_counter ex_opened = 0"
    "rs_boundary ex_opened = None" "rs_boundary_plan ex_opened = 0" "rs_authorizations ex_opened = []"
    "rs_authorization_counter ex_opened = 0" "rs_plans ex_opened = []" "rs_attempts ex_opened = []"
    "rs_effect_state ex_opened = EffNotRequested" "rs_detections ex_opened = []" "rs_sequence ex_opened = 0"
    "rs_evidence_revision ex_opened = 0" "rs_requires_reverification ex_opened = False"
    using e by (simp_all add: op finish_startup_def i)
qed

subsection \<open>Detection, authorization and plan\<close>

definition ex_report :: failure_observation where
  "ex_report = \<lparr>fo_resource = ''s'', fo_state = EvPresent, fo_generation = 1, fo_digest = zero_digest, fo_observed_at = 5\<rparr>"

lemma ex_merged: "evidence_merged empty_evidence ex_report = Inr ex_evidence"
  by (simp add: evidence_merged_def ex_report_def ex_evidence_def empty_evidence_def evidence_recompute_def
      std_lower_bound_def evidence_build_iff wf_entries_def limit_defs observed_entry_def Let_def)

text \<open>The digest of the evidence is not the digest of no evidence: the lane is computed.\<close>

lemma fnv_update_Nil: "fnv_update s [] = s"
  by (simp add: fnv_update_def)

lemma fnv_update_Cons: "fnv_update s (b # bs) = fnv_update (fnv_update_byte s b) bs"
  by (simp add: fnv_update_def)

lemma ex_evidence_bytes:
  "encode_entries (ev_entries ex_evidence) =
     [1, 0, 0, 0, 1, 0, 0, 0, 115, 0, 1, 0, 0, 0, 0, 0, 0, 0, 0, 0, 0, 0, 0, 0, 0, 0, 0, 0, 0, 0, 0, 0, 0, 0]"
  unfolding ex_evidence_def evidence_recompute_def by code_simp

lemma ex_evidence_digest: "ev_digest ex_evidence \<noteq> ev_digest empty_evidence"
proof -
  have "d_lo (digest_of bs) = fnv_update kFnvOffsetBasis64 bs" for bs
    by (simp add: digest_of_def digest_finish_def digest_update_lo digest_builder_init_def)
  moreover have "fnv_update kFnvOffsetBasis64 (encode_entries (ev_entries ex_evidence)) \<noteq> 0"
    unfolding ex_evidence_bytes fnv_update_Cons fnv_update_Nil
    by (simp add: fnv_update_byte_def kFnvOffsetBasis64_def kFnvPrime64_def)
  ultimately have "d_lo (digest_of (encode_entries (ev_entries ex_evidence))) \<noteq> d_lo zero_digest"
    by (simp add: zero_digest_def)
  then show ?thesis by (auto simp: ex_evidence_def evidence_recompute_def empty_evidence_def)
qed

definition ex_detected :: runtime_state where
  "ex_detected = fst (snd (record_detection ex_report (ex_opened, ex_os)))"

lemma ex_detection:
  obtains d where "record_detection ex_report (ex_opened, ex_os) = (Inr d, ex_detected, ex_os)"
    "rs_topology ex_detected = Some (ex_topology True)" "rs_graph ex_detected = Some (graph_build (ex_topology True))"
    "rs_store ex_detected = None" "rs_config ex_detected = ex_config False" "rs_boot ex_detected = BootIdentity 7 1"
    "rs_policy ex_detected = ex_policy False" "rs_evidence ex_detected = ex_evidence"
    "rs_confirmation ex_detected = [(''s'', 7)]" "rs_conflict ex_detected = False" "rs_plan_counter ex_detected = 0"
    "rs_boundary ex_detected = None" "rs_boundary_plan ex_detected = 0" "rs_authorizations ex_detected = []"
    "rs_authorization_counter ex_detected = 0" "rs_plans ex_detected = []" "rs_attempts ex_detected = []"
    "rs_effect_state ex_detected = EffNotRequested" "rs_epoch ex_detected = 1"
proof -
  let ?rec = "detection_of ex_report ex_opened"
  let ?s1 = "ex_opened\<lparr>rs_sequence := 1\<rparr>"
  let ?s = "confirm_evidence ''s'' (bump sx_detections_accepted_update ((evict_bounded_tables (?s1\<lparr>rs_evidence := ex_evidence,
      rs_evidence_revision := rs_evidence_revision ?s1 + 1, rs_detections := rs_detections ?s1 @ [?rec]\<rparr>))\<lparr>rs_conflict := False\<rparr>))"
  have q: "dr_sequence ?rec = 1" by (simp add: detection_of_def Let_def ex_open)
  have op: "record_detection ex_report (ex_opened, ex_os) = (Inr ?rec, ?s, ex_os)"
    using ex_evidence_digest q
    by (simp add: record_detection_def ex_merged ex_open rt_bind_def commit_def Let_def)
       (simp add: ex_report_def)
  then have eq: "ex_detected = ?s" by (simp add: ex_detected_def)
  show thesis
    by (rule that [of ?rec]) (use op in \<open>simp_all add: eq confirm_evidence_def ex_open\<close>)
qed

definition ex_authorized :: runtime_state where
  "ex_authorized = fst (snd (authorize 0 (ex_detected, ex_os)))"

definition ex_lease :: authorization_record where
  "ex_lease = \<lparr>ar_id = 1, ar_authority = current_authority ex_detected, ar_issued_sequence = rs_sequence ex_detected,
     ar_issued_at = 0, ar_expires_at = 1000, ar_allows_apply = True\<rparr>"

lemma ex_authorization:
  "authorize 0 (ex_detected, ex_os) = (Inr ex_lease, ex_authorized, ex_os)"
  "ex_authorized = ex_detected\<lparr>rs_authorization_counter := 1,
     rs_authorizations := [\<lparr>aa_record = ex_lease, aa_fenced = False\<rparr>]\<rparr>"
proof -
  obtain d where f: "rs_authorizations ex_detected = []" "rs_authorization_counter ex_detected = 0"
    "rs_config ex_detected = ex_config False"
    by (rule ex_detection) blast
  have c: "current_authority (ex_detected\<lparr>rs_authorizations := a, rs_authorization_counter := n\<rparr>) = current_authority ex_detected"
    for a n
    by (simp add: current_authority_def)
  have op: "authorize 0 (ex_detected, ex_os) = (Inr ex_lease, ex_detected\<lparr>rs_authorization_counter := 1,
     rs_authorizations := [\<lparr>aa_record = ex_lease, aa_fenced = False\<rparr>]\<rparr>, ex_os)"
    by (simp add: authorize_def Let_def f ex_lease_def current_authority_def)
  then show "ex_authorized = ex_detected\<lparr>rs_authorization_counter := 1,
     rs_authorizations := [\<lparr>aa_record = ex_lease, aa_fenced = False\<rparr>]\<rparr>" by (simp add: ex_authorized_def)
  with op show "authorize 0 (ex_detected, ex_os) = (Inr ex_lease, ex_authorized, ex_os)" by simp
qed

text \<open>The lease authorizes any operation before it expires while the authority is the same.\<close>

lemma ex_lease_authorizes:
  assumes "rs_authorizations s = [\<lparr>aa_record = ex_lease, aa_fenced = False\<rparr>]"
    and "same_authority (current_authority ex_detected) (current_authority s)" and "now < 1000"
  shows "authorized 1 req now s"
  using assms by (simp add: authorized_def find_authorization_def ex_lease_def)

lemma ex_reachable: "rt_reachable (ex_config False) (ex_authorized, ex_os)"
proof -
  have "rt_reachable (ex_config False) (ex_opened, ex_os)" by (rule rt_reachable.opened [OF ex_open(1)])
  moreover obtain d where "record_detection ex_report (ex_opened, ex_os) = (Inr d, ex_detected, ex_os)"
    by (rule ex_detection)
  ultimately have "rt_reachable (ex_config False) (ex_detected, ex_os)"
    using rt_reachable.stepped step_detection by blast
  then show ?thesis using rt_reachable.stepped step_authorize ex_authorization(1) by blast
qed

text \<open>The first plan contains \<open>m\<close> and claims containment.\<close>

lemma ex_planning:
  obtains plan s where "rt_plan 1 5 (ex_authorized, ex_os) = Some (Inr plan, s, ex_os)"
    "claims_containment plan" "contained_resources plan = {''m''}" "p_generation plan = 1"
    "s = bump sx_plans_computed_update (ex_authorized\<lparr>rs_sequence := rs_sequence ex_detected + 1,
       rs_plan_counter := 1, rs_plans := [plan]\<rparr>)"
proof -
  obtain d where f: "rs_topology ex_detected = Some (ex_topology True)" "rs_graph ex_detected = Some (graph_build (ex_topology True))"
    "rs_store ex_detected = None" "rs_config ex_detected = ex_config False" "rs_boot ex_detected = BootIdentity 7 1"
    "rs_policy ex_detected = ex_policy False" "rs_evidence ex_detected = ex_evidence"
    "rs_confirmation ex_detected = [(''s'', 7)]" "rs_conflict ex_detected = False" "rs_plan_counter ex_detected = 0"
    "rs_plans ex_detected = []"
    by (rule ex_detection) blast
  have a: "rs_topology ex_authorized = Some (ex_topology True)" "rs_graph ex_authorized = Some (graph_build (ex_topology True))"
    "rs_store ex_authorized = None" "rs_config ex_authorized = ex_config False" "rs_conflict ex_authorized = False"
    "rs_plan_counter ex_authorized = 0" "rs_plans ex_authorized = []" "current_authority ex_authorized = current_authority ex_detected"
    "rs_sequence ex_authorized = rs_sequence ex_detected"
    unfolding ex_authorization(2) by (simp_all add: f current_authority_def)
  have inputs: "plan_inputs_of ex_authorized = (ex_inputs True False)\<lparr>in_boundary_generation := 1\<rparr>"
    unfolding ex_authorization(2) by (simp add: plan_inputs_of_def f ex_inputs_def ex_freshness_def)
  obtain c where c: "compute_plan ((ex_inputs True False)\<lparr>in_boundary_generation := 1\<rparr>) (current_authority ex_detected) 1 = Some (Inr c)"
      "p_claim (pl_plan c) = ClaimProvenContainment" "contained_resources (pl_plan c) = {''m''}"
    by (rule ex_plan_at [of 1 False "current_authority ex_detected" 1]) simp_all
  have "authorized 1 False 5 ex_authorized"
    by (rule ex_lease_authorizes) (simp_all add: ex_authorization(2) same_authority_def current_authority_def)
  then obtain rec where v: "validate_authorization 1 False 5 ex_authorized = (Inr rec, ex_authorized)"
    using validate_authorization_iff by blast
  have commit: "commit PlanDecision bytes (ex_authorized, ex_os)
      = (Inr (), ex_authorized\<lparr>rs_sequence := rs_sequence ex_detected + 1\<rparr>, ex_os)" for bytes
    by (simp add: commit_def a)
  let ?s = "bump sx_plans_computed_update (evict_bounded_tables (ex_authorized\<lparr>rs_sequence := rs_sequence ex_detected + 1,
       rs_plan_counter := 1, rs_plans := [pl_plan c]\<rparr>))"
  have op: "rt_plan 1 5 (ex_authorized, ex_os) = Some (Inr (pl_plan c), ?s, ex_os)"
    by (simp add: rt_plan_def v ensure_topology_def a inputs c(1) publish_plan_def commit Let_def)
  have no_eviction: "evict_bounded_tables x = x" if "rt_inv x" for x
    using that by (simp add: evict_bounded_tables_def inv_defs)
  have "p_generation (pl_plan c) = 1"
    using compute_plan_generation [OF _ c(1)] ex_inputs_valid [of True False] by (simp add: valid_inputs_def)
  moreover have "rt_inv ex_authorized" using runtime.reachable_inv [OF ex_reachable] by simp
  then have "rt_inv (ex_authorized\<lparr>rs_sequence := rs_sequence ex_detected + 1, rs_plan_counter := 1, rs_plans := [pl_plan c]\<rparr>)"
    by (simp add: inv_defs a)
  ultimately show thesis
    using op c no_eviction by (intro that [of "pl_plan c"]) (simp_all add: claims_containment_def)
qed

subsection \<open>Expansion, submission and verification\<close>

text \<open>The state after planning, by its fields.\<close>

definition ex_ready :: "containment_plan \<Rightarrow> runtime_state \<Rightarrow> bool" where
  "ex_ready plan s \<longleftrightarrow> rt_reachable (ex_config False) (s, ex_os) \<and> rs_store s = None \<and>
     rs_config s = ex_config False \<and> rs_plans s = [plan] \<and> p_generation plan = 1 \<and>
     claims_containment plan \<and> contained_resources plan = {''m''} \<and>
     rs_authorizations s = [\<lparr>aa_record = ex_lease, aa_fenced = False\<rparr>] \<and>
     same_authority (current_authority ex_detected) (current_authority s)"

lemma ex_planned:
  obtains plan s where "ex_ready plan s" "rs_boundary s = None" "rs_boundary_plan s = 0" "rs_attempts s = []"
proof -
  obtain plan s where p: "rt_plan 1 5 (ex_authorized, ex_os) = Some (Inr plan, s, ex_os)"
    "claims_containment plan" "contained_resources plan = {''m''}" "p_generation plan = 1"
    "s = bump sx_plans_computed_update (ex_authorized\<lparr>rs_sequence := rs_sequence ex_detected + 1,
       rs_plan_counter := 1, rs_plans := [plan]\<rparr>)"
    by (rule ex_planning)
  obtain d where f: "rs_store ex_detected = None" "rs_config ex_detected = ex_config False"
    "rs_boundary ex_detected = None" "rs_boundary_plan ex_detected = 0" "rs_attempts ex_detected = []"
    by (rule ex_detection) blast
  have "rt_reachable (ex_config False) (s, ex_os)"
    using rt_reachable.stepped [OF ex_reachable] step_plan [OF p(1)] by blast
  then have "ex_ready plan s"
    using p(2-4) by (simp add: ex_ready_def p(5) ex_authorization(2) f same_authority_def current_authority_def)
  moreover have "rs_boundary s = None" "rs_boundary_plan s = 0" "rs_attempts s = []"
    by (simp_all add: p(5) ex_authorization(2) f)
  ultimately show thesis by (rule that)
qed

definition ex_expand :: "containment_plan \<Rightarrow> transition_request" where
  "ex_expand plan = \<lparr>tq_kind = Expand, tq_plan = 1, tq_plan_digest = p_digest plan, tq_expected_boundary = 0,
     tq_expected_released = True, tq_authorization = 1\<rparr>"

text \<open>Without a store every commit succeeds.\<close>

lemma commit_volatile: "rs_store s = None \<Longrightarrow> commit t p (s, sys) = (Inr (), s\<lparr>rs_sequence := rs_sequence s + 1\<rparr>, sys)"
  by (simp add: commit_def)

lemma ex_expansion:
  assumes "ex_ready plan s" and "rs_boundary s = None" and "rs_boundary_plan s = 0"
  obtains d s' where "transition (ex_expand plan) 6 (s, ex_os) = (Inr d, s', ex_os)" "td_status d = TrAccepted"
    "ex_ready plan s'" "rs_boundary s' = Some (p_boundary plan)" "rs_boundary_plan s' = 1"
    "rs_effect_state s' = EffNotRequested" "rs_attempts s' = rs_attempts s"
proof -
  note r = assms(1) [unfolded ex_ready_def]
  let ?s = "s\<lparr>rs_transition_counter := rs_transition_counter s + 1\<rparr>"
  have "authorized 1 False 6 ?s"
    using r by (intro ex_lease_authorizes) (simp_all add: same_authority_def current_authority_def)
  then obtain rec where v: "validate_authorization 1 False 6 ?s = (Inr rec, ?s)"
    using validate_authorization_iff by blast
  have plan: "find_plan ?s 1 = Some plan" using r by (simp add: find_plan_def)
  let ?d = "new_decision (ex_expand plan) ?s"
  let ?d1 = "?d\<lparr>td_from_generation := 0, td_from_digest := zero_digest, td_observed_effect := rs_effect_state s,
      td_effect_verified := True\<rparr>"
  let ?a = "accepted_decision ?d1 Expand plan"
  let ?d2 = "?a\<lparr>td_sequence := rs_sequence s + 1\<rparr>"
  let ?s2 = "?s\<lparr>rs_sequence := rs_sequence s + 1 + 1\<rparr>"
  let ?s' = "bump sx_transitions_accepted_update (evict_bounded_tables (?s2\<lparr>rs_boundary := Some (p_boundary plan),
      rs_boundary_plan := p_generation plan, rs_boundary_plan_digest := p_digest plan,
      rs_boundary_counter := b_generation (p_boundary plan), rs_effect_state := EffNotRequested,
      rs_requires_reverification := False, rs_transitions := rs_transitions s @ [?d2]\<rparr>))"
  have released: "td_to_released ?a = False" "td_status ?a = TrAccepted"
    by (simp_all add: accepted_decision_def Let_def)
  have a: "accept_transition ?a plan (?s, ex_os) = (Inr ?d2, ?s', ex_os)"
    using r by (simp add: accept_transition_def rt_bind_def commit_volatile released Let_def)
  have "decide_transition (ex_expand plan) ?d plan (?s, ex_os) = (Inr ?d2, ?s', ex_os)"
    using a assms(2,3)
    by (simp add: decide_transition_def Let_def ex_expand_def transition_kind_refused_def)
  then have t: "transition (ex_expand plan) 6 (s, ex_os) = (Inr ?d2, ?s', ex_os)"
    using v plan by (simp add: transition_def Let_def ex_expand_def)
  have reach: "rt_reachable (ex_config False) (s, ex_os)" using r by blast
  have reach': "rt_reachable (ex_config False) (?s', ex_os)"
    using rt_reachable.stepped [OF reach] step_transition [OF t] by blast
  have inv: "length (rs_plans s) \<le> 8" "length (rs_attempts s) \<le> 8"
    using runtime.reachable_inv [OF reach] r by (simp_all add: inv_defs)
  have "ex_ready plan ?s'"
    using r reach' inv by (simp add: ex_ready_def same_authority_def current_authority_def)
  moreover have "rs_boundary ?s' = Some (p_boundary plan)" "rs_boundary_plan ?s' = 1"
    "rs_effect_state ?s' = EffNotRequested" "rs_attempts ?s' = rs_attempts s"
    using r inv by simp_all
  ultimately show thesis using that [OF t] released(2) by simp
qed

definition ex_submit :: "containment_plan \<Rightarrow> submit_request" where
  "ex_submit plan = \<lparr>sq_authorization = 1, sq_plan = 1, sq_plan_digest = p_digest plan\<rparr>"

lemma ex_submission:
  assumes "ex_ready plan s" and "rs_boundary s = Some (p_boundary plan)" and "rs_boundary_plan s = 1"
    and "rs_effect_state s = EffNotRequested" and "rs_attempts s = []"
  obtains a s' where "submit_apply (ex_submit plan) 7 7 (s, ex_os) = (Inr a, s', ex_os)"
    "ex_ready plan s'" "rs_attempts s' = [a]" "at_state a = EffSubmitted" "at_applier_sequence a = 0"
    "at_boundary_digest a = b_digest (p_boundary plan)" "rs_boundary s' = rs_boundary s"
    "rs_boundary_plan s' = 1" "ai_plan (at_id a) = 1"
proof -
  note r = assms(1) [unfolded ex_ready_def]
  have "authorized 1 True 7 s" using r by (intro ex_lease_authorizes) simp_all
  then obtain rec where v: "validate_authorization 1 True 7 s = (Inr rec, s)"
    using validate_authorization_iff by blast
  have plan: "find_plan s 1 = Some plan" using r by (simp add: find_plan_def)
  let ?s1 = "s\<lparr>rs_attempt_counter := rs_attempt_counter s + 1\<rparr>"
  let ?a = "new_attempt plan 7 ?s1"
  let ?s' = "bump sx_apply_attempts_update (evict_bounded_tables
      (?s1\<lparr>rs_sequence := rs_sequence s + 1, rs_attempts := [?a], rs_effect_state := EffSubmitted\<rparr>))"
  have op: "submit_apply (ex_submit plan) 7 7 (s, ex_os) = (Inr ?a, ?s', ex_os)"
    using r assms(2-5) plan v
    by (simp add: submit_apply_def ex_submit_def Let_def rt_bind_def commit_volatile)
  have reach: "rt_reachable (ex_config False) (s, ex_os)" using r by blast
  have reach': "rt_reachable (ex_config False) (?s', ex_os)"
    using rt_reachable.stepped [OF reach] step_submit [OF op] by blast
  have ready: "ex_ready plan ?s'"
    using r reach' by (simp add: ex_ready_def same_authority_def current_authority_def)
  show thesis
    by (rule that [OF op ready]) (use r assms in \<open>simp_all add: new_attempt_def\<close>)
qed

definition ex_verification :: "apply_attempt \<Rightarrow> runtime_state \<Rightarrow> effect_verification" where
  "ex_verification a s = \<lparr>vf_id = at_id a, vf_expected_epoch = rs_epoch s, vf_expected_boot = rs_boot s,
     vf_applier_epoch = 1, vf_applier_boot = BootIdentity 9 9, vf_applier_sequence = 1,
     vf_observed_digest = at_boundary_digest a, vf_observation = ObsApplied\<rparr>"

lemma ex_verified_effect:
  assumes "ex_ready plan s" and "rs_attempts s = [a]" and "at_state a = EffSubmitted" and "at_applier_sequence a = 0"
  obtains b s' where "verify_effect (ex_verification a s) 8 (s, ex_os) = (Inr b, s', ex_os)"
    "at_state b = EffVerifiedApplied" "rs_attempts s' = [b]" "at_boundary_digest b = at_boundary_digest a"
proof -
  note r = assms(1) [unfolded ex_ready_def]
  let ?v = "ex_verification a s"
  obtain b where o: "observed ?v 8 a = (b, None)" "at_state b = EffVerifiedApplied"
    "at_boundary_digest b = at_boundary_digest a"
    by (simp add: observed_def Let_def set_outcome_def with_report_def ex_verification_def)
  let ?s1 = "(update_attempt (at_id a) (\<lambda>_. b) s)\<lparr>rs_sequence := rs_sequence s + 1\<rparr>"
  let ?s' = "bump sx_verifications_update (recompute_effect_state (adopt_decision b ?s1))"
  have st: "rs_store (update_attempt (at_id a) (\<lambda>_. b) s) = None" "rs_sequence (update_attempt (at_id a) (\<lambda>_. b) s) = rs_sequence s"
    using r by (simp_all add: update_attempt_def)
  have find: "find_attempt s (at_id a) = Some a" using assms(2) by (simp add: find_attempt_def)
  have fields: "vf_id ?v = at_id a" "vf_expected_epoch ?v = rs_epoch s" "vf_expected_boot ?v = rs_boot s"
    "vf_applier_sequence ?v = 1" by (simp_all add: ex_verification_def)
  have "verify_effect ?v 8 (s, ex_os) = (Inr b, ?s', ex_os)"
    using o(1) assms(3,4) find
    by (simp add: verify_effect_def fields check_attempt_authority_def rt_bind_def commit_volatile [OF st(1)] st(2))
  moreover have "rs_attempts ?s' = [b]" using assms(2) by (simp add: update_attempt_def)
  ultimately show thesis using that o(2,3) by blast
qed

subsection \<open>A durable runtime\<close>

text \<open>On the store of \<open>Store_Example\<close>, before its first record.\<close>

definition ex_durable :: runtime_state where
  "ex_durable = (initial_runtime (ex_config True))\<lparr>rs_store := Some ex_store\<rparr>"

lemma ex_durable_at: "durable_at ex_durable ex_disk_os ex_disk"
  using ex_running
  by (simp add: durable_at_def ex_durable_def view_disk_def ex_disk_def view_snapshot_def initial_runtime_def
      new_state_def)

lemma ex_log_room: "log_room ex_disk 2"
  by (simp add: log_room_def ex_disk_def log_bytes_def kMaxWalFileBytes_def kMaxRecordPayloadBytes_def)

definition ex_new_policy :: containment_policy where
  "ex_new_policy = default_policy\<lparr>cp_generation := 2\<rparr>"

lemma length_policy_encode: "length (policy_encode p) \<le> 200"
  by (simp add: policy_encode_def w_u64_def w_u32_def w_boolean_def w_u8_def)

lemma ex_policy_step:
  obtains s' where "apply_policy ex_new_policy (ex_durable, ex_disk_os) =
      (Inr 2, s', append_bytes (wal_name 1) (encode_record PolicyDefinition 1 (policy_encode ex_new_policy)) ex_disk_os)"
    "rs_policy s' = ex_new_policy" "rs_config s' = ex_config True"
proof -
  have "wf_policy ex_new_policy"
    using default_policy_wf by (simp add: wf_policy_def ex_new_policy_def)
  then have valid: "validate_policy ex_new_policy = Inr ()" by (simp add: validate_policy_iff)
  have gen: "cp_generation (rs_policy ex_durable) = 1" "cp_generation ex_new_policy = 2"
    by (simp_all add: ex_durable_def initial_runtime_def new_state_def ex_policy_generation ex_new_policy_def)
  have small: "length (policy_encode ex_new_policy) \<le> kMaxRecordPayloadBytes"
    using length_policy_encode [of ex_new_policy] by (simp add: kMaxRecordPayloadBytes_def)
  have st: "rs_store ex_durable = Some ex_store" by (simp add: ex_durable_def)
  let ?s = "(bump sx_durable_commits_update (ex_durable\<lparr>rs_store := Some (ex_store\<lparr>st_last_sequence := 1\<rparr>),
      rs_sequence := 1\<rparr>))\<lparr>rs_policy := ex_new_policy\<rparr>"
  show thesis
    by (rule that [of ?s])
      (simp_all add: apply_policy_def valid gen rt_bind_def commit_def st ex_commit [OF small],
       simp add: ex_durable_def initial_runtime_def new_state_def)
qed

end
