(* ===== verification/Spec_Runtime.thy ===== *)
theory Spec_Runtime
  imports Runtime_Example
begin

section \<open>Properties of the runtime\<close>

text \<open>
  What the coordinator guarantees in every state its operations can reach: planning, authority
  over the boundary in force, verification of effects, and what a restart keeps.
\<close>



text \<open>C24: In every reachable state the runtime is consistent: the propagation graph is the one of
  the loaded topology, every retained table is within its configured bound, the published sequence
  is the store's, and a verified effect rests on a retained attempt for the decision in force and
  needs no reverification.\<close>

theorem reachable_state_is_consistent:
  assumes "rt_reachable config (s, sys)"
  shows "rs_graph s = map_option graph_build (rs_topology s) \<and>
    length (rs_plans s) \<le> rc_max_plans (rs_config s) \<and>
    length (rs_attempts s) \<le> rc_max_attempts (rs_config s) \<and>
    length (rs_transitions s) \<le> rc_max_transitions (rs_config s) \<and>
    length (rs_detections s) \<le> rc_max_detections (rs_config s) \<and>
    length (rs_authorizations s) \<le> rc_max_authorizations (rs_config s) \<and>
    length (rs_fenced_boots s) \<le> kMaxFencedBoots \<and>
    (\<forall>st. rs_store s = Some st \<longrightarrow> rs_sequence s = st_last_sequence st) \<and>
    (is_verified_effect (rs_effect_state s) \<longrightarrow> \<not> rs_requires_reverification s \<and>
      (\<exists>a \<in> set (rs_attempts s). ai_plan (at_id a) = rs_boundary_plan s \<and> at_state a = rs_effect_state s))"
  using runtime.reachable_inv [OF assms] by (simp add: inv_defs)

theorem reachable_state_is_consistent_witness:
  "rt_reachable (ex_config False) (ex_authorized, ex_os) \<and>
   rs_graph ex_authorized = map_option graph_build (rs_topology ex_authorized) \<and>
   length (rs_authorizations ex_authorized) = 1"
  using ex_reachable reachable_state_is_consistent [OF ex_reachable] by (simp add: ex_authorization(2))

text \<open>Planning never fails to return: in every reachable state, for every authorization and
  time, the planner's searches end and the request is answered by a plan or an error.\<close>

theorem planning_always_returns:
  assumes "rt_reachable config (s, sys)"
  shows "\<exists>r s' sys'. rt_plan i now (s, sys) = Some (r, s', sys')"
  using rt_plan_total [of s i now sys] runtime.reachable_inv [OF assms] by (auto simp: rt_inv_def)

theorem planning_always_returns_witness:
  "\<exists>r s' sys'. rt_plan 1 5 (ex_authorized, ex_os) = Some (r, s', sys')"
  by (rule planning_always_returns [OF ex_reachable])



text \<open>C21: The outcome of a transition request is exact: it is accepted only when everything it must
  rest on holds, and then the decision in force is the plan's with no verified effect; whatever
  else it returns, the boundary, its plan and its digest are unchanged.\<close>

theorem transition_outcome_is_exact:
  assumes "transition request now (s, sys) = (r, s', sys')"
  shows "(\<exists>plan d. r = Inr d \<and> td_status d = TrAccepted \<and> transition_justified request now s plan \<and>
      installs_decision (tq_kind request) plan s') \<or>
    (\<forall>d. r = Inr d \<longrightarrow> td_status d \<noteq> TrAccepted) \<and> rs_boundary s' = rs_boundary s \<and>
      rs_boundary_plan s' = rs_boundary_plan s \<and> rs_boundary_plan_digest s' = rs_boundary_plan_digest s"
  using transition_result [OF assms] by (auto simp: keeps_decision_def)

theorem transition_outcome_is_exact_witness:
  "\<exists>plan s s' d. transition (ex_expand plan) 6 (s, ex_os) = (Inr d, s', ex_os) \<and> td_status d = TrAccepted \<and>
     (\<exists>p. transition_justified (ex_expand plan) 6 s p \<and> installs_decision Expand p s')"
proof -
  obtain plan s where r: "ex_ready plan s" "rs_boundary s = None" "rs_boundary_plan s = 0" by (rule ex_planned)
  obtain d s' where t: "transition (ex_expand plan) 6 (s, ex_os) = (Inr d, s', ex_os)" "td_status d = TrAccepted"
    by (rule ex_expansion [OF r])
  have kind: "tq_kind (ex_expand plan) = Expand" by (simp add: ex_expand_def)
  have "\<exists>p. transition_justified (ex_expand plan) 6 s p \<and> installs_decision Expand p s'"
    using transition_outcome_is_exact [OF t(1)] t(2) unfolding kind by blast
  then show ?thesis using t by blast
qed

text \<open>C5: An effect is verified only by a matching report: an attempt that is verified after a step
  and was not before was verified by an effect report naming it, under the current epoch and boot,
  with an advanced applier sequence and an observed digest equal to the digest of the intent; no
  acknowledgement, submission, transition or any other operation verifies an attempt.\<close>

theorem effect_is_verified_only_by_matching_report:
  assumes "rt_step (s, sys) (s', sys')" and "a \<in> set (rs_attempts s')" and "is_verified_effect (at_state a)"
    and "a \<notin> set (rs_attempts s)"
  shows "\<exists>v now r. verify_effect v now (s, sys) = (r, s', sys') \<and> at_id a = vf_id v \<and>
    vf_expected_epoch v = rs_epoch s \<and> vf_expected_boot v = rs_boot s \<and>
    vf_observed_digest v = at_boundary_digest a \<and> at_observed_digest a = at_boundary_digest a \<and>
    (\<exists>old. find_attempt s (vf_id v) = Some old \<and> at_boundary_digest old = at_boundary_digest a \<and>
       at_applier_sequence old < vf_applier_sequence v \<and> at_state old \<notin> {EffFenced, EffSuperseded})"
proof -
  obtain v now r where v: "verify_effect v now (s, sys) = (r, s', sys')" "verified_by v s a"
    using step_verification assms by (metis attempt_verified_def)
  then show ?thesis unfolding verified_by_def by metis
qed

theorem effect_is_verified_only_by_matching_report_witness:
  "\<exists>s s' a. rt_step (s, ex_os) (s', ex_os) \<and> a \<in> set (rs_attempts s') \<and> at_state a = EffVerifiedApplied \<and>
     at_observed_digest a = at_boundary_digest a"
proof -
  obtain plan s where r: "ex_ready plan s" "rs_boundary s = None" "rs_boundary_plan s = 0" "rs_attempts s = []"
  proof -
    obtain plan s where p: "ex_ready plan s" "rs_boundary s = None" "rs_boundary_plan s = 0" "rs_attempts s = []"
      by (rule ex_planned)
    then show thesis by (rule that)
  qed
  obtain d s1 where t: "ex_ready plan s1" "rs_boundary s1 = Some (p_boundary plan)" "rs_boundary_plan s1 = 1"
    "rs_effect_state s1 = EffNotRequested" "rs_attempts s1 = rs_attempts s"
    by (rule ex_expansion [OF r(1-3)])
  have "rs_attempts s1 = []" using t(5) r(4) by simp
  then obtain a s2 where u: "ex_ready plan s2" "rs_attempts s2 = [a]" "at_state a = EffSubmitted" "at_applier_sequence a = 0"
    using ex_submission [OF t(1-4)] by metis
  obtain b s3 where v: "verify_effect (ex_verification a s2) 8 (s2, ex_os) = (Inr b, s3, ex_os)"
    "at_state b = EffVerifiedApplied" "rs_attempts s3 = [b]"
    by (rule ex_verified_effect [OF u])
  have step: "rt_step (s2, ex_os) (s3, ex_os)" by (rule step_verify [OF v(1)])
  have in_s3: "b \<in> set (rs_attempts s3)" using v(3) by simp
  have "b \<noteq> a" using v(2) u(3) by auto
  then have not_s2: "b \<notin> set (rs_attempts s2)" using u(2) by simp
  have verified: "is_verified_effect (at_state b)" using v(2) by (simp add: is_verified_effect_def)
  have "at_observed_digest b = at_boundary_digest b"
    using effect_is_verified_only_by_matching_report [OF step in_s3 verified not_s2] by blast
  then show ?thesis using step in_s3 v(2) by blast
qed

text \<open>C13: A restart restores no authority: a runtime that opens has the next epoch and its own boot
  identity, the boundary that was recovered, no authorization that any operation would accept, no
  confirmed evidence, only terminal attempts, and an effect that is not verified, submitted or
  acknowledged.\<close>

theorem restart_restores_no_authority:
  assumes "runtime_open config True boot sys = (Inr s, sys')"
  shows "(\<exists>s0 sys0. recover_state config sys = (Inr s0, sys0) \<and> rs_epoch s = rs_epoch s0 + 1 \<and>
      rs_boundary s = rs_boundary s0 \<and> rs_boot s = BootIdentity boot (ucast (os_pid sys0))) \<and>
    (\<forall>i req now. \<not> is_ok (fst (validate_authorization i req now s))) \<and> rs_confirmation s = [] \<and>
    (\<forall>a \<in> set (rs_attempts s). attempt_terminal a) \<and>
    rs_effect_state s \<notin> {EffVerifiedApplied, EffVerifiedReleased, EffSubmitted, EffAcknowledged}"
proof -
  obtain s0 sys0 where o: "recover_state config sys = (Inr s0, sys0)"
    "rs_epoch s = rs_epoch s0 + 1" "rs_boot s = BootIdentity boot (ucast (os_pid sys0))"
    "rs_boundary s = rs_boundary s0" "rs_authorizations s = []" "rs_confirmation s = []"
    "\<forall>a \<in> set (rs_attempts s). attempt_terminal a"
    "rs_effect_state s \<notin> {EffVerifiedApplied, EffVerifiedReleased, EffSubmitted, EffAcknowledged}"
    by (rule runtime_open_fresh [OF assms])
  have "\<not> is_ok (fst (validate_authorization i req now s))" for i req now
    using nothing_authorized [OF o(5), of i req now] validate_authorization_ok [of i req now s]
    by (cases "validate_authorization i req now s"; cases "fst (validate_authorization i req now s)") auto
  then show ?thesis using o by blast
qed

theorem restart_restores_no_authority_witness:
  "runtime_open (ex_config False) True 7 ex_os = (Inr ex_opened, ex_os) \<and>
   \<not> is_ok (fst (validate_authorization 1 False 0 ex_opened))"
  using ex_open(1) restart_restores_no_authority [OF ex_open(1)] by blast



end
