(* ===== verification/Net_Frame.thy ===== *)
theory Net_Frame
  imports Store_Record Runtime_Codec
begin

unbundle bit_operations_syntax

section \<open>Wire frames\<close>

text \<open>
  \<open>net/frame.hpp\<close> and \<open>src/net/frame.cpp\<close>: message types and operations with their tokens, the
  frame of 44 header bytes and a payload, the total decoder, the sticky stream, and the control
  payloads of a session. The little-endian helpers of the file are those of
  \<open>src/store/record.cpp\<close>, modelled in \<open>Store_Record\<close>.
\<close>

subsection \<open>Message types, operations, statuses\<close>

datatype message_type = Hello | HelloAck | Request | Response | Goodbye

fun message_type_value :: "message_type \<Rightarrow> u16" where
  "message_type_value Hello = 1"
| "message_type_value HelloAck = 2"
| "message_type_value Request = 3"
| "message_type_value Response = 4"
| "message_type_value Goodbye = 5"

definition kMessageTokens :: "(message_type \<times> string) list" where
  "kMessageTokens =
    [(Hello, ''hello''), (HelloAck, ''hello_ack''), (Request, ''request''), (Response, ''response''),
     (Goodbye, ''goodbye'')]"

definition message_type_to_string :: "message_type \<Rightarrow> string" where
  "message_type_to_string v = token_of kMessageTokens ''unrecognised_message_type'' v"

definition parse_message_type :: "string \<Rightarrow> message_type option" where
  "parse_message_type t = parse_token kMessageTokens t"

definition is_valid_message_type :: "u16 \<Rightarrow> bool" where
  "is_valid_message_type raw \<longleftrightarrow> (\<exists>e \<in> set kMessageTokens. message_type_value (fst e) = raw)"

text \<open>\<open>static_cast<MessageType>\<close> of a valid value.\<close>

definition message_type_cast :: "u16 \<Rightarrow> message_type" where
  "message_type_cast raw =
     (case find (\<lambda>e. message_type_value (fst e) = raw) kMessageTokens of
        Some e \<Rightarrow> fst e | None \<Rightarrow> Request)"

datatype wire_operation =
    OpDescribe | OpApplyTopology | OpApplyPolicy | OpRecordDetection | OpAuthorize | OpPlan
  | OpTransition | OpSubmitApply | OpAcknowledge | OpVerifyEffect | OpCurrentBoundary
  | OpPlanByGeneration | OpAttempts | OpEvidence | OpCheckpoint | OpShutdown

fun operation_value :: "wire_operation \<Rightarrow> u16" where
  "operation_value OpDescribe = 1"
| "operation_value OpApplyTopology = 2"
| "operation_value OpApplyPolicy = 3"
| "operation_value OpRecordDetection = 4"
| "operation_value OpAuthorize = 5"
| "operation_value OpPlan = 6"
| "operation_value OpTransition = 7"
| "operation_value OpSubmitApply = 8"
| "operation_value OpAcknowledge = 9"
| "operation_value OpVerifyEffect = 10"
| "operation_value OpCurrentBoundary = 11"
| "operation_value OpPlanByGeneration = 12"
| "operation_value OpAttempts = 13"
| "operation_value OpEvidence = 14"
| "operation_value OpCheckpoint = 15"
| "operation_value OpShutdown = 16"

definition kOperationTokens :: "(wire_operation \<times> string \<times> bool) list" where
  "kOperationTokens =
    [(OpDescribe, ''describe'', False), (OpApplyTopology, ''apply_topology'', True),
     (OpApplyPolicy, ''apply_policy'', True), (OpRecordDetection, ''record_detection'', True),
     (OpAuthorize, ''authorize'', True), (OpPlan, ''plan'', True), (OpTransition, ''transition'', True),
     (OpSubmitApply, ''submit_apply'', True), (OpAcknowledge, ''acknowledge'', True),
     (OpVerifyEffect, ''verify_effect'', True), (OpCurrentBoundary, ''current_boundary'', False),
     (OpPlanByGeneration, ''plan_by_generation'', False), (OpAttempts, ''attempts'', False),
     (OpEvidence, ''evidence'', False), (OpCheckpoint, ''checkpoint'', True),
     (OpShutdown, ''shutdown'', True)]"

definition operation_token_rows :: "(wire_operation \<times> string) list" where
  "operation_token_rows = map (\<lambda>(v, t, _). (v, t)) kOperationTokens"

definition operation_to_string :: "wire_operation \<Rightarrow> string" where
  "operation_to_string v = token_of operation_token_rows ''unrecognised_operation'' v"

definition parse_operation :: "string \<Rightarrow> wire_operation option" where
  "parse_operation t = parse_token operation_token_rows t"

definition is_valid_operation :: "u16 \<Rightarrow> bool" where
  "is_valid_operation raw \<longleftrightarrow> (\<exists>e \<in> set kOperationTokens. operation_value (fst e) = raw)"

definition operation_cast :: "u16 \<Rightarrow> wire_operation" where
  "operation_cast raw =
     (case find (\<lambda>e. operation_value (fst e) = raw) kOperationTokens of
        Some e \<Rightarrow> fst e | None \<Rightarrow> OpDescribe)"

definition is_mutating_operation :: "wire_operation \<Rightarrow> bool" where
  "is_mutating_operation v =
     (case find (\<lambda>e. fst e = v) kOperationTokens of Some e \<Rightarrow> snd (snd e) | None \<Rightarrow> True)"

datatype wire_status =
    WireOk | WireNeedMore | WireComplete | WireCorrupt | WireUnsupportedVersion | WireInvalidType
  | WireOversized | WireTrailingGarbage | WireSequenceRegression | WireSessionMismatch

definition kWireStatusTokens :: "(wire_status \<times> string) list" where
  "kWireStatusTokens =
    [(WireOk, ''ok''), (WireNeedMore, ''need_more''), (WireComplete, ''complete''),
     (WireCorrupt, ''corrupt''), (WireUnsupportedVersion, ''unsupported_version''),
     (WireInvalidType, ''invalid_type''), (WireOversized, ''oversized''),
     (WireTrailingGarbage, ''trailing_garbage''), (WireSequenceRegression, ''sequence_regression''),
     (WireSessionMismatch, ''session_mismatch'')]"

definition wire_status_to_string :: "wire_status \<Rightarrow> string" where
  "wire_status_to_string v = token_of kWireStatusTokens ''unrecognised_frame_status'' v"

interpretation message_tokens: token_map kMessageTokens
proof unfold_locales
  show "x \<in> fst ` set kMessageTokens" for x by (cases x) (simp_all add: kMessageTokens_def)
qed (simp_all add: kMessageTokens_def)

interpretation operation_tokens: token_map operation_token_rows
proof unfold_locales
  show "x \<in> fst ` set operation_token_rows" for x
    by (cases x) (simp_all add: operation_token_rows_def kOperationTokens_def)
qed (simp_all add: operation_token_rows_def kOperationTokens_def)

interpretation wire_status_tokens: token_map kWireStatusTokens
proof unfold_locales
  show "x \<in> fst ` set kWireStatusTokens" for x by (cases x) (simp_all add: kWireStatusTokens_def)
qed (simp_all add: kWireStatusTokens_def)

lemma message_type_valid [simp]: "is_valid_message_type (message_type_value t)"
  by (cases t) (simp_all add: is_valid_message_type_def kMessageTokens_def)

lemma message_type_cast_value [simp]: "message_type_cast (message_type_value t) = t"
  by (cases t) (simp_all add: message_type_cast_def kMessageTokens_def)

lemma message_type_value_cast: "is_valid_message_type raw \<Longrightarrow> message_type_value (message_type_cast raw) = raw"
  by (auto simp: is_valid_message_type_def)

lemma operation_valid [simp]: "is_valid_operation (operation_value t)"
  by (cases t) (simp_all add: is_valid_operation_def kOperationTokens_def)

lemma operation_cast_value [simp]: "operation_cast (operation_value t) = t"
  by (cases t) (simp_all add: operation_cast_def kOperationTokens_def)

lemma operation_value_cast: "is_valid_operation raw \<Longrightarrow> operation_value (operation_cast raw) = raw"
  by (auto simp: is_valid_operation_def)

subsection \<open>Frames\<close>

definition kWireMagic :: u32 where "kWireMagic = 0x4e434646"
definition kWireVersion :: u16 where "kWireVersion = 1"
definition kWireHeaderBytes :: nat where "kWireHeaderBytes = 44"
definition kMaxBufferedBytes :: nat where "kMaxBufferedBytes = kMaxFramePayloadBytes + kWireHeaderBytes"

record wire_frame =
  wf_type :: message_type
  wf_session :: u64
  wf_sequence :: sequence_no
  wf_epoch :: coordinator_epoch
  wf_payload :: "byte list"

definition default_frame :: wire_frame where
  "default_frame = \<lparr>wf_type = Request, wf_session = 0, wf_sequence = 0, wf_epoch = 0, wf_payload = []\<rparr>"

record wire_outcome =
  wo_status :: wire_status
  wo_frame :: wire_frame
  wo_detail :: string

text \<open>The first 40 bytes: what the header checksum covers.\<close>

definition wire_prefix :: "wire_frame \<Rightarrow> byte list" where
  "wire_prefix f =
     put_u32 kWireMagic @ put_u16 kWireVersion @ put_u16 (message_type_value (wf_type f)) @
     put_u32 (of_nat (length (wf_payload f))) @ put_u64 (wf_session f) @ put_u64 (wf_sequence f) @
     put_u64 (wf_epoch f) @ put_u32 (crc32c (wf_payload f))"

definition encode_frame :: "wire_frame \<Rightarrow> byte list" where
  "encode_frame f = wire_prefix f @ put_u32 (crc32c (wire_prefix f)) @ wf_payload f"

definition wire_refused :: "wire_status \<Rightarrow> string \<Rightarrow> wire_outcome" where
  "wire_refused status detail = \<lparr>wo_status = status, wo_frame = default_frame, wo_detail = detail\<rparr>"

definition decode_frame :: "byte list \<Rightarrow> wire_outcome" where
  "decode_frame bytes =
     (if length bytes < kWireHeaderBytes then wire_refused WireNeedMore []
      else if get_u32 bytes 0 \<noteq> kWireMagic then wire_refused WireCorrupt ''wire magic mismatch''
      else if get_u16 bytes 4 \<noteq> kWireVersion
        then wire_refused WireUnsupportedVersion ''wire format version is not supported''
      else let type = get_u16 bytes 6 in
        if \<not> is_valid_message_type type
          then wire_refused WireInvalidType ''message type outside the defined domain''
        else let payload_length = unat (get_u32 bytes 8) in
          if payload_length > kMaxFramePayloadBytes
            then wire_refused WireOversized ''declared payload length exceeds the wire bound''
          else if crc32c (take 40 bytes) \<noteq> get_u32 bytes 40
            then wire_refused WireCorrupt ''frame header integrity check failed''
          else if length bytes < kWireHeaderBytes + payload_length then wire_refused WireNeedMore []
          else let payload = take payload_length (drop kWireHeaderBytes bytes) in
            if crc32c payload \<noteq> get_u32 bytes 36
              then wire_refused WireCorrupt ''frame payload integrity check failed''
            else \<lparr>wo_status = WireComplete,
                  wo_frame = \<lparr>wf_type = message_type_cast type, wf_session = get_u64 bytes 12,
                              wf_sequence = get_u64 bytes 20, wf_epoch = get_u64 bytes 28,
                              wf_payload = payload\<rparr>,
                  wo_detail = []\<rparr>)"

subsection \<open>The stream\<close>

record frame_stream =
  fs_buffer :: "byte list"
  fs_offset :: nat
  fs_poisoned :: bool
  fs_status :: status

definition empty_stream :: frame_stream where
  "empty_stream = \<lparr>fs_buffer = [], fs_offset = 0, fs_poisoned = False, fs_status = ok_status\<rparr>"

definition stream_feed :: "byte list \<Rightarrow> frame_stream \<Rightarrow> bool \<times> frame_stream" where
  "stream_feed bytes s =
     (if fs_poisoned s then (False, s)
      else let s1 = (if fs_offset s > 0
                     then s\<lparr>fs_buffer := drop (fs_offset s) (fs_buffer s), fs_offset := 0\<rparr> else s)
        in if length (fs_buffer s1) + length bytes > kMaxBufferedBytes
           then (False, s1\<lparr>fs_poisoned := True,
                  fs_status := mk_status LimitExceeded ''frame stream buffer bound exceeded''\<rparr>)
           else (True, s1\<lparr>fs_buffer := fs_buffer s1 @ bytes\<rparr>))"

definition stream_next :: "frame_stream \<Rightarrow> wire_outcome \<times> frame_stream" where
  "stream_next s =
     (if fs_poisoned s then (wire_refused WireCorrupt (smessage (fs_status s)), s)
      else let outcome = decode_frame (drop (fs_offset s) (fs_buffer s)) in
        if wo_status outcome = WireComplete
          then (outcome, s\<lparr>fs_offset := fs_offset s + kWireHeaderBytes + length (wf_payload (wo_frame outcome))\<rparr>)
        else if wo_status outcome \<noteq> WireNeedMore
          then (outcome, s\<lparr>fs_poisoned := True,
                  fs_status := mk_status ProtocolViolation (wo_detail outcome)\<rparr>)
        else (outcome, s))"

subsection \<open>What the decoder reads from an encoded frame\<close>

lemma length_wire_prefix [simp]: "length (wire_prefix f) = 40"
  by (simp add: wire_prefix_def)

lemma length_encode_frame [simp]: "length (encode_frame f) = 44 + length (wf_payload f)"
  by (simp add: encode_frame_def)

lemma read_wire_fields:
  shows "get_u32 (encode_frame f @ rest) 0 = kWireMagic"
    and "get_u16 (encode_frame f @ rest) 4 = kWireVersion"
    and "get_u16 (encode_frame f @ rest) 6 = message_type_value (wf_type f)"
    and "get_u32 (encode_frame f @ rest) 8 = of_nat (length (wf_payload f))"
    and "get_u64 (encode_frame f @ rest) 12 = wf_session f"
    and "get_u64 (encode_frame f @ rest) 20 = wf_sequence f"
    and "get_u64 (encode_frame f @ rest) 28 = wf_epoch f"
    and "get_u32 (encode_frame f @ rest) 36 = crc32c (wf_payload f)"
    and "get_u32 (encode_frame f @ rest) 40 = crc32c (wire_prefix f)"
proof -
  let ?m = "put_u32 kWireMagic" let ?v = "put_u16 kWireVersion"
  let ?t = "put_u16 (message_type_value (wf_type f))"
  let ?l = "put_u32 (of_nat (length (wf_payload f)))"
  let ?s = "put_u64 (wf_session f)" let ?q = "put_u64 (wf_sequence f)"
  let ?e = "put_u64 (wf_epoch f)" let ?p = "put_u32 (crc32c (wf_payload f))"
  note e = encode_frame_def wire_prefix_def
  show "get_u32 (encode_frame f @ rest) 0 = kWireMagic"
    using get_put(2) [of "[]" 0] by (simp add: e)
  show "get_u16 (encode_frame f @ rest) 4 = kWireVersion"
    using get_put(1) [of ?m 4] by (simp add: e)
  show "get_u16 (encode_frame f @ rest) 6 = message_type_value (wf_type f)"
    using get_put(1) [of "?m @ ?v" 6] by (simp add: e)
  show "get_u32 (encode_frame f @ rest) 8 = of_nat (length (wf_payload f))"
    using get_put(2) [of "?m @ ?v @ ?t" 8] by (simp add: e)
  show "get_u64 (encode_frame f @ rest) 12 = wf_session f"
    using get_put(3) [of "?m @ ?v @ ?t @ ?l" 12] by (simp add: e)
  show "get_u64 (encode_frame f @ rest) 20 = wf_sequence f"
    using get_put(3) [of "?m @ ?v @ ?t @ ?l @ ?s" 20] by (simp add: e)
  show "get_u64 (encode_frame f @ rest) 28 = wf_epoch f"
    using get_put(3) [of "?m @ ?v @ ?t @ ?l @ ?s @ ?q" 28] by (simp add: e)
  show "get_u32 (encode_frame f @ rest) 36 = crc32c (wf_payload f)"
    using get_put(2) [of "?m @ ?v @ ?t @ ?l @ ?s @ ?q @ ?e" 36] by (simp add: e)
  show "get_u32 (encode_frame f @ rest) 40 = crc32c (wire_prefix f)"
    using get_put(2) [of "wire_prefix f" 40] by (simp add: encode_frame_def)
qed

text \<open>The header checks in isolation: what a decoder has verified once they pass.\<close>

definition wire_accepted :: "byte list \<Rightarrow> bool" where
  "wire_accepted bytes \<longleftrightarrow>
     44 \<le> length bytes \<and> get_u32 bytes 0 = kWireMagic \<and> get_u16 bytes 4 = kWireVersion \<and>
     is_valid_message_type (get_u16 bytes 6) \<and> unat (get_u32 bytes 8) \<le> kMaxFramePayloadBytes \<and>
     crc32c (take 40 bytes) = get_u32 bytes 40"

definition wire_fields :: "byte list \<Rightarrow> wire_frame" where
  "wire_fields bytes =
     \<lparr>wf_type = message_type_cast (get_u16 bytes 6), wf_session = get_u64 bytes 12,
      wf_sequence = get_u64 bytes 20, wf_epoch = get_u64 bytes 28,
      wf_payload = take (unat (get_u32 bytes 8)) (drop 44 bytes)\<rparr>"

lemma decode_frame_accepted:
  assumes "wire_accepted bytes"
  shows "decode_frame bytes =
    (if length bytes < 44 + unat (get_u32 bytes 8) then wire_refused WireNeedMore []
     else if crc32c (wf_payload (wire_fields bytes)) \<noteq> get_u32 bytes 36
       then wire_refused WireCorrupt ''frame payload integrity check failed''
     else \<lparr>wo_status = WireComplete, wo_frame = wire_fields bytes, wo_detail = []\<rparr>)"
  using assms by (simp add: decode_frame_def wire_accepted_def wire_fields_def kWireHeaderBytes_def Let_def not_less)

lemma decode_frame_needs_accepted:
  assumes "44 \<le> length bytes" and "wo_status (decode_frame bytes) \<in> {WireComplete, WireNeedMore}"
  shows "wire_accepted bytes"
  using assms
  by (auto simp: decode_frame_def wire_accepted_def wire_refused_def kWireHeaderBytes_def Let_def
      split: if_splits)

lemma decode_short_frame: "length bytes < 44 \<Longrightarrow> decode_frame bytes = wire_refused WireNeedMore []"
  by (simp add: decode_frame_def kWireHeaderBytes_def)

lemma unat_frame_length: "length p \<le> kMaxFramePayloadBytes \<Longrightarrow> unat (of_nat (length p) :: u32) = length p"
  by (simp add: kMaxFramePayloadBytes_def unat_size32)

text \<open>A prefix that holds the header is read through the whole frame.\<close>

lemma get_le_take: "offset + n \<le> k \<Longrightarrow> get_le n (take k bytes) offset = get_le n bytes offset"
  by (rule get_le_cong) simp

lemma encoded_frame_accepted:
  assumes "length (wf_payload f) \<le> kMaxFramePayloadBytes" and "44 \<le> k"
  shows "wire_accepted (take k (encode_frame f @ rest))"
    and "get_u32 (take k (encode_frame f @ rest)) 8 = of_nat (length (wf_payload f))"
proof -
  define raw where "raw = encode_frame f @ rest"
  let ?b = "take k (encode_frame f @ rest)"
  have take_get: "get_le n (take k raw) i = get_le n raw i" if "i + n \<le> 44" for n i
    using that assms(2) by (intro get_le_take) simp
  have g: "get_u32 ?b 0 = kWireMagic" "get_u16 ?b 4 = kWireVersion"
    "get_u16 ?b 6 = message_type_value (wf_type f)"
    "get_u32 ?b 8 = of_nat (length (wf_payload f))" "get_u32 ?b 40 = crc32c (wire_prefix f)"
    using read_wire_fields [of f rest] unfolding raw_def [symmetric] by (simp_all add: get_defs take_get)
  have "take 40 ?b = wire_prefix f" using assms(2) by (simp add: encode_frame_def)
  then show "wire_accepted ?b"
    using g assms by (simp add: wire_accepted_def unat_frame_length)
  show "get_u32 ?b 8 = of_nat (length (wf_payload f))" by (rule g(4))
qed

lemma wire_fields_encode:
  assumes "length (wf_payload f) \<le> kMaxFramePayloadBytes"
  shows "wire_fields (encode_frame f @ rest) = f"
proof -
  have "take (length (wf_payload f)) (drop 44 (encode_frame f @ rest)) = wf_payload f"
    by (simp add: encode_frame_def)
  then show ?thesis
    using read_wire_fields [of f rest] unat_frame_length [OF assms] by (simp add: wire_fields_def)
qed

text \<open>A complete frame is read back, whatever follows it.\<close>

lemma decode_encode_frame:
  assumes "length (wf_payload f) \<le> kMaxFramePayloadBytes"
  shows "decode_frame (encode_frame f @ rest) = \<lparr>wo_status = WireComplete, wo_frame = f, wo_detail = []\<rparr>"
proof -
  have acc: "wire_accepted (encode_frame f @ rest)"
    using encoded_frame_accepted(1) [OF assms, of "length (encode_frame f @ rest)" rest] by simp
  show ?thesis
    using decode_frame_accepted [OF acc] read_wire_fields [of f rest] wire_fields_encode [OF assms]
      unat_frame_length [OF assms] by simp
qed

text \<open>A strict prefix of a frame asks for more bytes.\<close>

lemma decode_partial_frame:
  assumes "length (wf_payload f) \<le> kMaxFramePayloadBytes" and "k < length (encode_frame f)"
  shows "decode_frame (take k (encode_frame f)) = wire_refused WireNeedMore []"
proof (cases "k < 44")
  case True
  then show ?thesis by (intro decode_short_frame) simp
next
  case False
  then have k: "44 \<le> k" by simp
  note acc = encoded_frame_accepted [OF assms(1) k, of "[]"]
  show ?thesis
    using decode_frame_accepted [OF acc(1)] acc(2) unat_frame_length [OF assms(1)] assms(2) by simp
qed

text \<open>An accepted frame is byte for byte what the encoder writes for it.\<close>

lemma decode_frame_sound:
  assumes "wo_status (decode_frame bytes) = WireComplete"
  shows "length (wf_payload (wo_frame (decode_frame bytes))) \<le> kMaxFramePayloadBytes"
    and "bytes = encode_frame (wo_frame (decode_frame bytes)) @
      drop (44 + length (wf_payload (wo_frame (decode_frame bytes)))) bytes"
proof -
  have len: "44 \<le> length bytes"
    using assms decode_short_frame [of bytes] by (cases "length bytes < 44") (simp_all add: wire_refused_def)
  have acc: "wire_accepted bytes" using decode_frame_needs_accepted [OF len] assms by simp
  let ?n = "unat (get_u32 bytes 8)" let ?f = "wire_fields bytes"
  have dec: "wo_frame (decode_frame bytes) = ?f" and full: "44 + ?n \<le> length bytes"
    and crc: "crc32c (wf_payload ?f) = get_u32 bytes 36"
    using assms decode_frame_accepted [OF acc] by (auto simp: wire_refused_def split: if_splits)
  have n: "length (wf_payload ?f) = ?n" using full by (simp add: wire_fields_def)
  show "length (wf_payload (wo_frame (decode_frame bytes))) \<le> kMaxFramePayloadBytes"
    using acc n dec by (simp add: wire_accepted_def)
  have magic: "kWireMagic = get_u32 bytes 0" "kWireVersion = get_u16 bytes 4"
    "crc32c (take 40 bytes) = get_u32 bytes 40"
    using acc by (simp_all add: wire_accepted_def)
  have type: "message_type_value (wf_type ?f) = get_u16 bytes 6"
    using acc by (simp add: wire_accepted_def wire_fields_def message_type_value_cast)
  have t: "take (m + n) bytes = take m bytes @ take n (drop m bytes)" for m n by (rule take_add)
  have "wire_prefix ?f = put_u32 (get_u32 bytes 0) @ put_u16 (get_u16 bytes 4) @ put_u16 (get_u16 bytes 6) @
      put_u32 (get_u32 bytes 8) @ put_u64 (get_u64 bytes 12) @ put_u64 (get_u64 bytes 20) @
      put_u64 (get_u64 bytes 28) @ put_u32 (get_u32 bytes 36)"
    unfolding wire_prefix_def magic(1) [symmetric] magic(2) [symmetric] type n crc
    by (simp add: wire_fields_def magic)
  also have "\<dots> = take 40 bytes"
    using len t [of 4 2] t [of 6 2] t [of 8 4] t [of 12 8] t [of 20 8] t [of 28 8] t [of 36 4] put_get(2) [of 0 bytes]
    by (simp add: put_get)
  finally have prefix: "wire_prefix ?f = take 40 bytes" .
  have "encode_frame ?f = take 40 bytes @ take 4 (drop 40 bytes) @ take ?n (drop 44 bytes)"
    unfolding encode_frame_def prefix magic(3) using len by (simp add: put_get wire_fields_def)
  also have "\<dots> = take (44 + ?n) bytes" using t [of 40 4] t [of 44 ?n] by simp
  finally show "bytes = encode_frame (wo_frame (decode_frame bytes)) @
      drop (44 + length (wf_payload (wo_frame (decode_frame bytes)))) bytes"
    unfolding dec n by simp
qed

subsection \<open>Damage\<close>

text \<open>Changing one byte of a complete frame is noticed, and never mistaken for a short read.\<close>

lemma wire_header_damage:
  assumes acc: "wire_accepted bytes" and i: "i < 44" and b: "b \<noteq> bytes ! i"
  shows "\<not> wire_accepted (bytes[i := b])"
proof
  let ?c = "bytes[i := b]"
  assume acc': "wire_accepted ?c"
  have len: "44 \<le> length bytes" using acc by (simp add: wire_accepted_def)
  have crc: "crc32c (take 40 bytes) = get_u32 bytes 40" "crc32c (take 40 ?c) = get_u32 ?c 40"
    using acc acc' by (simp_all add: wire_accepted_def)
  show False
  proof (cases "i < 40")
    case True
    have "get_u32 ?c 40 = get_u32 bytes 40"
      unfolding get_u32_def using True by (intro get_le_cong) simp
    moreover have "take 40 ?c = (take 40 bytes)[i := b]" by (rule take_update_swap)
    moreover have "crc32c ((take 40 bytes)[i := b]) \<noteq> crc32c (take 40 bytes)"
      using True len b by (intro crc32c_update_neq) simp_all
    ultimately show False using crc by simp
  next
    case False
    have "take 40 ?c = take 40 bytes" using False by simp
    then have "get_u32 ?c 40 = get_u32 bytes 40" using crc by simp
    then have "take 4 (drop 40 ?c) = take 4 (drop 40 bytes)"
      using put_get(2) [of 40 bytes] put_get(2) [of 40 ?c] len by simp
    then have "take 4 (drop 40 ?c) ! (i - 40) = take 4 (drop 40 bytes) ! (i - 40)" by simp
    then show False using False i b len by simp
  qed
qed

lemma decode_damaged_frame:
  assumes p: "length (wf_payload f) \<le> kMaxFramePayloadBytes" and i: "i < length (encode_frame f)"
    and b: "b \<noteq> encode_frame f ! i"
  shows "wo_status (decode_frame ((encode_frame f)[i := b] @ rest)) \<notin> {WireComplete, WireNeedMore}"
proof -
  define raw where "raw = encode_frame f @ rest"
  let ?c = "(encode_frame f)[i := b] @ rest"
  have c: "?c = raw[i := b]" using i by (simp add: raw_def list_update_append)
  have len: "44 \<le> length ?c" by simp
  have acc: "wire_accepted raw"
    using encoded_frame_accepted(1) [OF p, of "length raw" rest] by (simp add: raw_def)
  show ?thesis
  proof (cases "i < 44")
    case True
    have "\<not> wire_accepted ?c"
      unfolding c using wire_header_damage [OF acc True] i b by (simp add: raw_def nth_append)
    then show ?thesis using decode_frame_needs_accepted [OF len] by blast
  next
    case False
    let ?n = "length (wf_payload f)"
    have ip: "i - 44 < ?n" using False i by simp
    have same: "get_le n ?c j = get_le n raw j" if "j + n \<le> 44" for n j
      unfolding c using that False by (intro get_le_cong) simp
    have fields: "get_u32 ?c 8 = of_nat ?n" "get_u32 ?c 36 = crc32c (wf_payload f)"
      using read_wire_fields [of f rest] unfolding raw_def [symmetric] by (simp_all add: get_defs same)
    have "take 40 ?c = take 40 raw" unfolding c using False by simp
    then have acc': "wire_accepted ?c"
      using acc len by (simp add: wire_accepted_def get_defs same)
    have e: "?c = wire_prefix f @ put_u32 (crc32c (wire_prefix f)) @ (wf_payload f)[i - 44 := b] @ rest"
    proof -
      have "\<not> i - 40 < 4" using False by simp
      then show ?thesis using False by (simp add: encode_frame_def list_update_append)
    qed
    have payload: "wf_payload (wire_fields ?c) = (wf_payload f)[i - 44 := b]"
      using fields(1) unat_frame_length [OF p] e by (simp add: wire_fields_def)
    have "\<not> i - 40 < 4" using False by simp
    then have "b \<noteq> wf_payload f ! (i - 44)" using False b by (simp add: encode_frame_def nth_append)
    then have "crc32c ((wf_payload f)[i - 44 := b]) \<noteq> crc32c (wf_payload f)"
      by (rule crc32c_update_neq [OF ip])
    then have "wo_status (decode_frame ?c) = WireCorrupt"
      using decode_frame_accepted [OF acc'] payload fields unat_frame_length [OF p]
      by (simp add: wire_refused_def)
    then show ?thesis by simp
  qed
qed

end
