(* ===== verification/Net_Stream.thy ===== *)
theory Net_Stream
  imports Net_Frame
begin

section \<open>Streams of frames\<close>

text \<open>
  What the sticky stream of \<open>net/frame.cpp\<close> delivers. The reader of a socket sees chunks that
  respect no frame; feeding them and taking frames until more bytes are needed delivers exactly
  the frames that were sent, as long as a frame and a chunk fit the buffer bound together.
\<close>

definition pending :: "frame_stream \<Rightarrow> byte list" where
  "pending s = drop (fs_offset s) (fs_buffer s)"

definition healthy :: "frame_stream \<Rightarrow> bool" where
  "healthy s \<longleftrightarrow> \<not> fs_poisoned s \<and> fs_offset s \<le> length (fs_buffer s)"

text \<open>The loop of the session and of the client: take frames while they are complete.\<close>

function stream_drain :: "frame_stream \<Rightarrow> wire_frame list \<times> wire_status \<times> frame_stream" where
  "stream_drain s =
     (let (outcome, s') = stream_next s
      in if wo_status outcome = WireComplete
         then let (frames, status, s'') = stream_drain s' in (wo_frame outcome # frames, status, s'')
         else ([], wo_status outcome, s'))"
  by pat_completeness auto

lemma next_complete:
  assumes "wo_status (fst (stream_next s)) = WireComplete"
  shows "\<not> fs_poisoned s" and "fst (stream_next s) = decode_frame (pending s)"
    and "pending s = encode_frame (wo_frame (fst (stream_next s))) @ pending (snd (stream_next s))"
    and "snd (stream_next s) = s\<lparr>fs_offset := fs_offset s + length (encode_frame (wo_frame (fst (stream_next s))))\<rparr>"
proof -
  show p: "\<not> fs_poisoned s" using assms by (auto simp: stream_next_def wire_refused_def)
  show o: "fst (stream_next s) = decode_frame (pending s)"
    using p by (simp add: stream_next_def pending_def Let_def)
  show s': "snd (stream_next s) = s\<lparr>fs_offset := fs_offset s + length (encode_frame (wo_frame (fst (stream_next s))))\<rparr>"
    using assms p o by (simp add: stream_next_def pending_def Let_def kWireHeaderBytes_def)
  show "pending s = encode_frame (wo_frame (fst (stream_next s))) @ pending (snd (stream_next s))"
    using decode_frame_sound(2) [of "pending s"] assms s' unfolding o
    by (simp add: pending_def add.commute)
qed

termination stream_drain
proof (relation "measure (\<lambda>s. length (pending s))")
  fix s x outcome s'
  assume x: "x = stream_next s" "(outcome, s') = x" and complete: "wo_status outcome = WireComplete"
  have "pending s = encode_frame outcome_frame @ pending s'" if "outcome_frame = wo_frame outcome" for outcome_frame
    using next_complete(3) [of s] x complete that by (metis fst_conv snd_conv)
  then have "length (pending s) = length (encode_frame (wo_frame outcome)) + length (pending s')"
    by (metis length_append)
  then show "(s', s) \<in> measure (\<lambda>s. length (pending s))" by simp
qed simp

declare stream_drain.simps [simp del]

text \<open>Feed one chunk after the other and drain after each; a refused chunk ends the stream.\<close>

fun stream_run :: "byte list list \<Rightarrow> frame_stream \<Rightarrow> wire_frame list \<times> wire_status \<times> frame_stream" where
  "stream_run [] s = ([], WireNeedMore, s)"
| "stream_run (chunk # chunks) s =
     (let (fed, s1) = stream_feed chunk s
      in if \<not> fed then ([], WireCorrupt, s1)
         else let (frames, status, s2) = stream_drain s1
           in if status \<noteq> WireNeedMore then (frames, status, s2)
              else let (more, status', s3) = stream_run chunks s2 in (frames @ more, status', s3))"

subsection \<open>Whole frames and a partial one\<close>

text \<open>A frame whose payload leaves room for a chunk of \<open>n\<close> bytes, and a strict prefix of one.\<close>

definition fits_chunks :: "nat \<Rightarrow> wire_frame \<Rightarrow> bool" where
  "fits_chunks n f \<longleftrightarrow> length (wf_payload f) + n \<le> kMaxFramePayloadBytes"

definition partial_frame :: "nat \<Rightarrow> byte list \<Rightarrow> bool" where
  "partial_frame n p \<longleftrightarrow>
     p = [] \<or> (\<exists>f k. fits_chunks n f \<and> k < length (encode_frame f) \<and> p = take k (encode_frame f))"

lemma decode_partial: "partial_frame n p \<Longrightarrow> decode_frame p = wire_refused WireNeedMore []"
  using decode_partial_frame decode_short_frame [of "[]"] by (auto simp: partial_frame_def fits_chunks_def)

lemma partial_frame_Nil [simp]: "partial_frame n []"
  by (simp add: partial_frame_def)

lemma partial_frame_take: "partial_frame n p \<Longrightarrow> partial_frame n (take m p)"
proof (cases "p = []")
  case False
  moreover assume "partial_frame n p"
  ultimately obtain f k where "fits_chunks n f" "k < length (encode_frame f)" "p = take k (encode_frame f)"
    by (auto simp: partial_frame_def)
  then show ?thesis unfolding partial_frame_def
    by (intro disjI2 exI [of _ f] exI [of _ "min m k"]) simp
qed simp

lemma partial_frame_room: "partial_frame n p \<Longrightarrow> n \<le> kMaxBufferedBytes \<Longrightarrow> length p + n \<le> kMaxBufferedBytes"
  by (auto simp: partial_frame_def fits_chunks_def kMaxBufferedBytes_def kWireHeaderBytes_def)

text \<open>A cut of a sequence of frames falls inside one frame or between two.\<close>

lemma split_frames:
  assumes "\<And>f. f \<in> set fs \<Longrightarrow> fits_chunks n f" and "partial_frame n tail"
    and "x @ y = concat (map encode_frame fs) @ tail"
  obtains fs1 fs2 p where "fs = fs1 @ fs2" "x = concat (map encode_frame fs1) @ p" "partial_frame n p"
    "p @ y = concat (map encode_frame fs2) @ tail"
  using assms
proof (induction fs arbitrary: x thesis)
  case Nil
  then have "x = take (length x) tail" by (metis append_Nil append_eq_conv_conj concat.simps(1) list.simps(8))
  then have "partial_frame n x" using partial_frame_take Nil.prems(3) by metis
  then show ?case using Nil.prems(1) [of "[]" "[]" x] Nil.prems(4) by simp
next
  case (Cons f fs)
  show ?case
  proof (cases "length x < length (encode_frame f)")
    case True
    have "x = take (length x) (encode_frame f @ concat (map encode_frame fs) @ tail)"
      using Cons.prems(4) by (metis append.assoc append_eq_conv_conj concat.simps(2) list.simps(9))
    then have "x = take (length x) (encode_frame f)" using True by simp
    moreover have "fits_chunks n f" using Cons.prems(2) by simp
    ultimately have "partial_frame n x" using True unfolding partial_frame_def by blast
    then show ?thesis using Cons.prems(1) [of "[]" "f # fs" x] Cons.prems(4) by simp
  next
    case False
    define x' where "x' = drop (length (encode_frame f)) x"
    have e: "x @ y = encode_frame f @ concat (map encode_frame fs) @ tail" using Cons.prems(4) by simp
    have "take (length (encode_frame f)) x = encode_frame f"
      using False arg_cong [OF e, of "take (length (encode_frame f))"] by simp
    then have x: "x = encode_frame f @ x'" unfolding x'_def by (metis append_take_drop_id)
    then have "x' @ y = concat (map encode_frame fs) @ tail" using e by simp
    then obtain fs1 fs2 p where "fs = fs1 @ fs2" "x' = concat (map encode_frame fs1) @ p" "partial_frame n p"
      "p @ y = concat (map encode_frame fs2) @ tail"
      using Cons.IH [of x'] Cons.prems(2,3) by auto
    then show ?thesis using Cons.prems(1) [of "f # fs1" fs2 p] x by simp
  qed
qed

subsection \<open>What the stream delivers\<close>

lemma next_frame_delivered:
  assumes "healthy s" and "fits_chunks n f" and "pending s = encode_frame f @ rest"
  shows "wo_status (fst (stream_next s)) = WireComplete" and "wo_frame (fst (stream_next s)) = f"
    and "healthy (snd (stream_next s))" and "pending (snd (stream_next s)) = rest"
proof -
  have d: "decode_frame (pending s) = \<lparr>wo_status = WireComplete, wo_frame = f, wo_detail = []\<rparr>"
    unfolding assms(3) using assms(2) by (intro decode_encode_frame) (simp add: fits_chunks_def)
  then have o: "fst (stream_next s) = \<lparr>wo_status = WireComplete, wo_frame = f, wo_detail = []\<rparr>"
    using assms(1) by (simp add: stream_next_def healthy_def pending_def Let_def)
  show c: "wo_status (fst (stream_next s)) = WireComplete" "wo_frame (fst (stream_next s)) = f"
    by (simp_all add: o)
  have s': "snd (stream_next s) = s\<lparr>fs_offset := fs_offset s + length (encode_frame f)\<rparr>"
    using next_complete(4) [OF c(1)] c(2) by simp
  have l: "length (pending s) = length (fs_buffer s) - fs_offset s" by (simp add: pending_def)
  then show "healthy (snd (stream_next s))"
    unfolding s' using assms(1,3) by (auto simp: healthy_def)
  show "pending (snd (stream_next s)) = rest"
    using next_complete(3) [OF c(1)] c(2) assms(3) by simp
qed

lemma drain_delivers:
  assumes "healthy s" and "\<And>f. f \<in> set fs \<Longrightarrow> fits_chunks n f" and "partial_frame n p"
    and "pending s = concat (map encode_frame fs) @ p"
  shows "\<exists>s'. stream_drain s = (fs, WireNeedMore, s') \<and> healthy s' \<and> pending s' = p"
  using assms
proof (induction fs arbitrary: s)
  case Nil
  have "decode_frame (pending s) = wire_refused WireNeedMore []" using Nil.prems by (simp add: decode_partial)
  then have "stream_next s = (wire_refused WireNeedMore [], s)"
    using Nil.prems(1) by (simp add: stream_next_def healthy_def pending_def wire_refused_def)
  then show ?case using Nil.prems by (subst stream_drain.simps) (simp add: wire_refused_def)
next
  case (Cons f fs)
  have f: "fits_chunks n f" "pending s = encode_frame f @ concat (map encode_frame fs) @ p"
    using Cons.prems by simp_all
  obtain o' s1 where n: "stream_next s = (o', s1)" by fastforce
  note d = next_frame_delivered [OF Cons.prems(1) f, unfolded n fst_conv snd_conv]
  obtain s2 where "stream_drain s1 = (fs, WireNeedMore, s2)" "healthy s2" "pending s2 = p"
    using Cons.IH [OF d(3)] Cons.prems(2,3) d(4) by auto
  then show ?case using d by (subst stream_drain.simps) (simp add: n)
qed

lemma feed_accepts:
  assumes "healthy s" and "length (pending s) + length chunk \<le> kMaxBufferedBytes" and "fs_offset s = 0 \<or> fs_offset s > 0"
  shows "\<exists>s'. stream_feed chunk s = (True, s') \<and> healthy s' \<and> pending s' = pending s @ chunk"
  using assms by (auto simp: stream_feed_def healthy_def pending_def Let_def)

text \<open>
  Frames whose payload leaves room for one chunk are delivered whole and in order, however the
  bytes were cut into chunks; what is left is the partial frame at the end.
\<close>

lemma run_delivers:
  assumes "healthy s" and "partial_frame n (pending s)" and "n \<le> kMaxBufferedBytes"
    and "\<And>c. c \<in> set chunks \<Longrightarrow> length c \<le> n"
    and "\<And>f. f \<in> set fs \<Longrightarrow> fits_chunks n f" and "partial_frame n tail"
    and "pending s @ concat chunks = concat (map encode_frame fs) @ tail"
    and "chunks = [] \<Longrightarrow> fs = []"
  shows "\<exists>s'. stream_run chunks s = (fs, WireNeedMore, s') \<and> healthy s' \<and> pending s' = tail"
  using assms
proof (induction chunks arbitrary: s fs)
  case Nil
  then show ?case by simp
next
  case (Cons c chunks)
  have "length (pending s) + length c \<le> kMaxBufferedBytes"
    using partial_frame_room [OF Cons.prems(2,3)] Cons.prems(4) [of c] by simp
  then obtain s1 where s1: "stream_feed c s = (True, s1)" "healthy s1" "pending s1 = pending s @ c"
    using feed_accepts [OF Cons.prems(1), of c] by blast
  have whole: "pending s1 @ concat chunks = concat (map encode_frame fs) @ tail"
    using s1(3) Cons.prems(7) by simp
  obtain fs1 fs2 p where split: "fs = fs1 @ fs2" "pending s1 = concat (map encode_frame fs1) @ p"
    "partial_frame n p" "p @ concat chunks = concat (map encode_frame fs2) @ tail"
    using split_frames [OF Cons.prems(5,6) whole] by metis
  obtain s2 where s2: "stream_drain s1 = (fs1, WireNeedMore, s2)" "healthy s2" "pending s2 = p"
    using drain_delivers [OF s1(2), of fs1 n p] split Cons.prems(5) by auto
  have last: "fs2 = []" if "chunks = []"
  proof (rule ccontr)
    assume "fs2 \<noteq> []"
    then obtain f fs3 where fs2: "fs2 = f # fs3" by (cases fs2) auto
    then have "p = encode_frame f @ concat (map encode_frame fs3) @ tail" using split(4) that by simp
    moreover have "fits_chunks n f" using Cons.prems(5) split(1) fs2 by simp
    ultimately have "wo_status (decode_frame p) = WireComplete"
      using decode_encode_frame [of f "concat (map encode_frame fs3) @ tail"] by (simp add: fits_chunks_def)
    then show False using decode_partial [OF split(3)] by (simp add: wire_refused_def)
  qed
  obtain s3 where "stream_run chunks s2 = (fs2, WireNeedMore, s3)" "healthy s3" "pending s3 = tail"
    using Cons.IH [OF s2(2), of fs2] Cons.prems(3-6) split(1,3,4) s2(3) last by auto
  then show ?case using s1(1) s2(1) split(1) by simp
qed

lemma stream_delivers_frames:
  assumes "n \<le> kMaxBufferedBytes" and "\<And>c. c \<in> set chunks \<Longrightarrow> length c \<le> n"
    and "\<And>f. f \<in> set fs \<Longrightarrow> fits_chunks n f" and "partial_frame n tail"
    and "concat chunks = concat (map encode_frame fs) @ tail"
  shows "\<exists>s'. stream_run chunks empty_stream = (fs, WireNeedMore, s') \<and> healthy s' \<and> pending s' = tail"
proof (rule run_delivers)
  show "healthy empty_stream" "pending empty_stream @ concat chunks = concat (map encode_frame fs) @ tail"
    "partial_frame n (pending empty_stream)"
    using assms(5) by (simp_all add: healthy_def empty_stream_def pending_def)
  show "chunks = [] \<Longrightarrow> fs = []"
    using assms(5) by (cases fs) (auto dest: arg_cong [where f = length])
qed (use assms in auto)

subsection \<open>The first failure is final\<close>

lemma poisoned_stream_stays: "fs_poisoned s \<Longrightarrow> stream_feed c s = (False, s) \<and> snd (stream_next s) = s"
  by (simp add: stream_feed_def stream_next_def)

lemma refused_frame_poisons:
  assumes "wo_status (fst (stream_next s)) \<notin> {WireComplete, WireNeedMore}"
  shows "fs_poisoned (snd (stream_next s))"
  using assms by (cases "fs_poisoned s"; cases "wo_status (decode_frame (drop (fs_offset s) (fs_buffer s)))")
    (simp_all add: stream_next_def Let_def)

text \<open>
  The buffer bound counts the partial frame and the chunk together: a frame of the greatest
  payload, complete but for its last byte, followed by a chunk with that byte and the beginning
  of the next frame, poisons the stream though both frames are legal.
\<close>

lemma legal_frames_poison_stream:
  assumes "length (wf_payload f) = kMaxFramePayloadBytes"
    and "stream_feed (butlast (encode_frame f)) empty_stream = (True, s)"
  shows "fst (stream_feed (last (encode_frame f) # encode_frame g) s) = False"
proof -
  have "s = empty_stream\<lparr>fs_buffer := butlast (encode_frame f)\<rparr>"
    using assms(2) by (auto simp: stream_feed_def empty_stream_def Let_def split: if_splits)
  then show ?thesis
    by (simp add: stream_feed_def empty_stream_def assms(1) kMaxBufferedBytes_def kWireHeaderBytes_def)
qed

end
