(* ===== verification/Net_Messages.thy ===== *)
theory Net_Messages
  imports Net_Frame Runtime_Durable Runtime_State
begin

section \<open>Payloads on the wire\<close>

text \<open>
  The control payloads of \<open>src/net/frame.cpp\<close> (hello, acknowledgement, request, response) and
  the arguments of the operations of \<open>src/net/messages.cpp\<close>. Every decoder is total and checks
  that the document ends; every codec is a \<open>document_codec\<close>.
\<close>

subsection \<open>Control payloads\<close>

record hello_payload =
  hp_token :: string
  hp_label :: string
  hp_requested_epoch :: coordinator_epoch

record hello_ack_payload =
  ha_session :: u64
  ha_epoch :: coordinator_epoch
  ha_boot :: boot_identity
  ha_accepted :: bool
  ha_reason :: string
  ha_version :: string

record request_payload =
  rq_operation :: wire_operation
  rq_arguments :: "byte list"

record response_payload =
  rp_operation :: wire_operation
  rp_code :: status_code
  rp_message :: string
  rp_json :: string
  rp_result :: "byte list"

definition kMaxDiagnosticTextLength :: nat where "kMaxDiagnosticTextLength = 512"

definition encode_hello :: "hello_payload \<Rightarrow> byte list" where
  "encode_hello h =
     w_u32 1 @ w_text (hp_token h) @ w_text (hp_label h) @ w_u64 (hp_requested_epoch h)"

definition decode_hello :: "byte list \<Rightarrow> hello_payload result" where
  "decode_hello bytes =
     (let (version, r1) = r_u32 (reader_init bytes);
          (token, r2) = r_text kMaxSessionTokenLength r1;
          (label, r3) = r_text kMaxSessionLabelLength r2;
          (epoch, r4) = r_u64 r3
      in try_result (r_finish r4) (\<lambda>_.
         if version \<noteq> 1 then err VersionUnsupported ''hello version is not supported''
         else if token = [] then err Unauthorized ''hello carries no session token''
         else Inr \<lparr>hp_token = token, hp_label = label, hp_requested_epoch = epoch\<rparr>))"

definition encode_hello_ack :: "hello_ack_payload \<Rightarrow> byte list" where
  "encode_hello_ack a =
     w_u64 (ha_session a) @ w_u64 (ha_epoch a) @ w_boot (ha_boot a) @ w_boolean (ha_accepted a) @
     w_text (ha_reason a) @ w_text (ha_version a)"

definition decode_hello_ack :: "byte list \<Rightarrow> hello_ack_payload result" where
  "decode_hello_ack bytes =
     (let (session, r1) = r_u64 (reader_init bytes);
          (epoch, r2) = r_u64 r1;
          (boot, r3) = r_boot r2;
          (accepted, r4) = r_boolean r3;
          (reason, r5) = r_text kMaxStatusMessageLength r4;
          (version, r6) = r_text 32 r5
      in try_result (r_finish r6) (\<lambda>_. Inr
           \<lparr>ha_session = session, ha_epoch = epoch, ha_boot = boot, ha_accepted = accepted,
            ha_reason = reason, ha_version = version\<rparr>))"

definition encode_request :: "request_payload \<Rightarrow> byte list" where
  "encode_request q = w_u16 (operation_value (rq_operation q)) @ w_blob (rq_arguments q)"

definition decode_request :: "byte list \<Rightarrow> request_payload result" where
  "decode_request bytes =
     (let (operation, r1) = r_u16 (reader_init bytes);
          (arguments, r2) = r_blob kMaxFramePayloadBytes r1
      in try_result (r_finish r2) (\<lambda>_.
         if \<not> is_valid_operation operation
           then err InvalidArgument ''operation outside the defined domain''
         else Inr \<lparr>rq_operation = operation_cast operation, rq_arguments = arguments\<rparr>))"

definition encode_response :: "response_payload \<Rightarrow> byte list" where
  "encode_response p =
     w_u16 (operation_value (rp_operation p)) @ w_status_code (rp_code p) @ w_text (rp_message p) @
     w_text (rp_json p) @ w_blob (rp_result p)"

definition decode_response :: "byte list \<Rightarrow> response_payload result" where
  "decode_response bytes =
     (let (operation, r1) = r_u16 (reader_init bytes);
          (code, r2) = r_u16 r1;
          (message, r3) = r_text kMaxStatusMessageLength r2;
          (json, r4) = r_text (kMaxDiagnosticTextLength * 16) r3;
          (result, r5) = r_blob kMaxFramePayloadBytes r4
      in try_result (r_finish r5) (\<lambda>_.
         if \<not> is_valid_operation operation
           then err InvalidArgument ''response carries an out-of-domain value''
         else case status_code_decode code of
             None \<Rightarrow> err InvalidArgument ''response carries an out-of-domain value''
           | Some c \<Rightarrow> Inr \<lparr>rp_operation = operation_cast operation, rp_code = c, rp_message = message,
               rp_json = json, rp_result = result\<rparr>))"

definition wf_hello :: "hello_payload \<Rightarrow> bool" where
  "wf_hello h \<longleftrightarrow> hp_token h \<noteq> [] \<and> length (hp_token h) \<le> kMaxSessionTokenLength \<and>
     length (hp_label h) \<le> kMaxSessionLabelLength"

definition wf_hello_ack :: "hello_ack_payload \<Rightarrow> bool" where
  "wf_hello_ack a \<longleftrightarrow> length (ha_reason a) \<le> kMaxStatusMessageLength \<and> length (ha_version a) \<le> 32"

definition wf_response :: "response_payload \<Rightarrow> bool" where
  "wf_response p \<longleftrightarrow> length (rp_message p) \<le> kMaxStatusMessageLength \<and>
     length (rp_json p) \<le> kMaxDiagnosticTextLength * 16 \<and> length (rp_result p) \<le> kMaxFramePayloadBytes"

lemmas wire_text_limits = kMaxSessionTokenLength_def kMaxSessionLabelLength_def kMaxStatusMessageLength_def
  kMaxDiagnosticTextLength_def kMaxFramePayloadBytes_def

lemmas text_back_last = f_text.read_last f_blob.read_last

interpretation hello_doc: document_codec encode_hello decode_hello wf_hello
  by unfold_locales
    (simp add: decode_hello_def encode_hello_def wf_hello_def codec_simps wire_text_limits)

interpretation hello_ack_doc: document_codec encode_hello_ack decode_hello_ack wf_hello_ack
  by unfold_locales
    (simp add: decode_hello_ack_def encode_hello_ack_def wf_hello_ack_def codec_simps wire_text_limits text_back_last)

interpretation request_doc:
  document_codec encode_request decode_request "\<lambda>q. length (rq_arguments q) \<le> kMaxFramePayloadBytes"
  by unfold_locales
    (simp add: decode_request_def encode_request_def codec_simps wire_text_limits text_back_last)

interpretation response_doc: document_codec encode_response decode_response wf_response
  by unfold_locales
    (simp add: decode_response_def encode_response_def wf_response_def w_status_code_def codec_simps
      wire_text_limits text_back_last status_code_decode_code)

text \<open>A response whose text is longer than the decoder's bound is sent and cannot be read.\<close>

lemma long_response_unreadable:
  assumes "length (rp_message p) \<le> kMaxStatusMessageLength"
    and "kMaxDiagnosticTextLength * 16 < length (rp_json p)" and "length (rp_json p) < 2 ^ 32"
  shows "decode_response (encode_response p) = err LimitExceeded ''blob length exceeds bound''"
proof -
  have json: "r_text (kMaxDiagnosticTextLength * 16) (reader_at d (w_text (rp_json p) @ rest))
      = ([], r_poison LimitExceeded ''blob length exceeds bound''
           (reader_at (d @ w_size32 (length (rp_json p))) (map byte_of_char (rp_json p) @ rest)))" for d rest
    using assms(2,3)
    by (simp add: r_text_def r_blob_def w_text_def w_size32_def f_u32.read_back unat_size32 Let_def)
  show ?thesis
    using assms(1)
    by (simp add: decode_response_def encode_response_def w_status_code_def codec_simps json case_prod_beta'
        kMaxStatusMessageLength_def)
       (simp add: r_poison_def rd_blob.sticky r_finish_def r_check_def r_require_end_def err_def)
qed

subsection \<open>Arguments of the operations\<close>

definition encode_detection_arguments :: "failure_observation \<Rightarrow> byte list" where
  "encode_detection_arguments obs =
     w_resource_id (fo_resource obs) @ w_u8 (enum_code evidence_state_vals (fo_state obs)) @
     w_u64 (fo_generation obs) @ w_digest (fo_digest obs) @ w_u64 (fo_observed_at obs)"

definition decode_detection_arguments :: "byte list \<Rightarrow> failure_observation result" where
  "decode_detection_arguments bytes =
     try_result (r_checked_id (reader_init bytes)) (\<lambda>(resource, r1).
       let (state, r2) = r_u8 r1;
           (generation, r3) = r_u64 r2;
           (source, r4) = r_digest r3;
           (observed_at, r5) = r_u64 r4
       in try_result (r_finish r5) (\<lambda>_.
          case enum_decode evidence_state_vals state of
            None \<Rightarrow> err InvalidArgument ''invalid evidence state value''
          | Some st \<Rightarrow> Inr \<lparr>fo_resource = resource, fo_state = st, fo_generation = generation,
              fo_digest = source, fo_observed_at = observed_at\<rparr>))"

definition encode_authorization_reference :: "authorization_id \<Rightarrow> byte list" where
  "encode_authorization_reference i = w_u64 i"

definition decode_authorization_reference :: "byte list \<Rightarrow> authorization_id result" where
  "decode_authorization_reference bytes =
     (let (i, r1) = r_u64 (reader_init bytes)
      in try_result (r_finish r1) (\<lambda>_.
         if i = 0 then err Unauthorized ''authorization reference is zero'' else Inr i))"

definition encode_plan_generation :: "plan_generation \<Rightarrow> byte list" where
  "encode_plan_generation g = w_u64 g"

definition decode_plan_generation :: "byte list \<Rightarrow> plan_generation result" where
  "decode_plan_generation bytes =
     (let (g, r1) = r_u64 (reader_init bytes)
      in try_result (r_finish r1) (\<lambda>_.
         if g = 0 then err InvalidArgument ''plan generation is zero'' else Inr g))"

definition encode_submit_apply_arguments :: "submit_request \<Rightarrow> byte list" where
  "encode_submit_apply_arguments q =
     w_u64 (sq_authorization q) @ w_u64 (sq_plan q) @ w_digest (sq_plan_digest q)"

definition decode_submit_apply_arguments :: "byte list \<Rightarrow> submit_request result" where
  "decode_submit_apply_arguments bytes =
     (let (authorization, r1) = r_u64 (reader_init bytes);
          (plan, r2) = r_u64 r1;
          (plan_digest, r3) = r_digest r2
      in try_result (r_finish r3) (\<lambda>_.
         if authorization = 0 then err Unauthorized ''authorization reference is zero''
         else Inr \<lparr>sq_authorization = authorization, sq_plan = plan, sq_plan_digest = plan_digest\<rparr>))"

definition encode_transition_arguments :: "transition_request \<Rightarrow> byte list" where
  "encode_transition_arguments q =
     w_u8 (enum_code transition_kind_vals (tq_kind q)) @ w_u64 (tq_plan q) @ w_digest (tq_plan_digest q) @
     w_u64 (tq_expected_boundary q) @ w_boolean (tq_expected_released q) @ w_u64 (tq_authorization q)"

definition decode_transition_arguments :: "byte list \<Rightarrow> transition_request result" where
  "decode_transition_arguments bytes =
     (let (kind, r1) = r_u8 (reader_init bytes);
          (plan, r2) = r_u64 r1;
          (plan_digest, r3) = r_digest r2;
          (expected, r4) = r_u64 r3;
          (released, r5) = r_boolean r4;
          (authorization, r6) = r_u64 r5
      in try_result (r_finish r6) (\<lambda>_.
         case enum_decode transition_kind_vals kind of
           None \<Rightarrow> err InvalidArgument ''invalid transition kind value''
         | Some ki \<Rightarrow>
             if authorization = 0 then err Unauthorized ''transition carries no authorization''
             else Inr \<lparr>tq_kind = ki, tq_plan = plan, tq_plan_digest = plan_digest,
               tq_expected_boundary = expected, tq_expected_released = released,
               tq_authorization = authorization\<rparr>))"

definition encode_acknowledgement_arguments :: "apply_acknowledgement \<Rightarrow> byte list" where
  "encode_acknowledgement_arguments a =
     w_attempt_id (ak_id a) @ w_u64 (ak_expected_epoch a) @ w_boot (ak_expected_boot a) @
     w_u64 (ak_applier_epoch a) @ w_boot (ak_applier_boot a) @ w_u64 (ak_applier_sequence a) @
     w_digest (ak_observed_digest a) @ w_boolean (ak_accepted a)"

definition decode_acknowledgement_arguments :: "byte list \<Rightarrow> apply_acknowledgement result" where
  "decode_acknowledgement_arguments bytes =
     (let (ident, r1) = r_attempt_id (reader_init bytes);
          (expected_epoch, r2) = r_u64 r1;
          (expected_boot, r3) = r_boot r2;
          (applier_epoch, r4) = r_u64 r3;
          (applier_boot, r5) = r_boot r4;
          (applier_sequence, r6) = r_u64 r5;
          (observed, r7) = r_digest r6;
          (accepted, r8) = r_boolean r7
      in try_result (r_finish r8) (\<lambda>_. Inr
           \<lparr>ak_id = ident, ak_expected_epoch = expected_epoch, ak_expected_boot = expected_boot,
            ak_applier_epoch = applier_epoch, ak_applier_boot = applier_boot,
            ak_applier_sequence = applier_sequence, ak_observed_digest = observed,
            ak_accepted = accepted\<rparr>))"

definition encode_verification_arguments :: "effect_verification \<Rightarrow> byte list" where
  "encode_verification_arguments v =
     w_attempt_id (vf_id v) @ w_u64 (vf_expected_epoch v) @ w_boot (vf_expected_boot v) @
     w_u64 (vf_applier_epoch v) @ w_boot (vf_applier_boot v) @ w_u64 (vf_applier_sequence v) @
     w_digest (vf_observed_digest v) @ w_u8 (enum_code effect_observation_vals (vf_observation v))"

definition decode_verification_arguments :: "byte list \<Rightarrow> effect_verification result" where
  "decode_verification_arguments bytes =
     (let (ident, r1) = r_attempt_id (reader_init bytes);
          (expected_epoch, r2) = r_u64 r1;
          (expected_boot, r3) = r_boot r2;
          (applier_epoch, r4) = r_u64 r3;
          (applier_boot, r5) = r_boot r4;
          (applier_sequence, r6) = r_u64 r5;
          (observed, r7) = r_digest r6;
          (observation, r8) = r_u8 r7
      in try_result (r_finish r8) (\<lambda>_.
         case enum_decode effect_observation_vals observation of
           None \<Rightarrow> err InvalidArgument ''invalid effect observation value''
         | Some ob \<Rightarrow> Inr
             \<lparr>vf_id = ident, vf_expected_epoch = expected_epoch, vf_expected_boot = expected_boot,
              vf_applier_epoch = applier_epoch, vf_applier_boot = applier_boot,
              vf_applier_sequence = applier_sequence, vf_observed_digest = observed,
              vf_observation = ob\<rparr>))"

text \<open>\<open>AttemptReference\<close> has the two fields of an attempt's identity.\<close>

definition encode_attempt_reference :: "attempt_id \<Rightarrow> byte list" where
  "encode_attempt_reference a = w_u64 (ai_plan a) @ w_u64 (ai_sequence a)"

definition decode_attempt_reference :: "byte list \<Rightarrow> attempt_id result" where
  "decode_attempt_reference bytes =
     (let (plan, r1) = r_u64 (reader_init bytes);
          (seq, r2) = r_u64 r1
      in try_result (r_finish r2) (\<lambda>_. Inr (AttemptId plan seq)))"

interpretation detection_args_doc: document_codec encode_detection_arguments decode_detection_arguments
    "\<lambda>obs. is_valid_resource_id (fo_resource obs)"
  by unfold_locales
    (simp add: decode_detection_arguments_def encode_detection_arguments_def codec_simps state_enum.decode_code)

interpretation authorization_ref_doc:
  document_codec encode_authorization_reference decode_authorization_reference "\<lambda>i. i \<noteq> 0"
  by unfold_locales (simp add: decode_authorization_reference_def encode_authorization_reference_def codec_simps)

interpretation plan_generation_doc: document_codec encode_plan_generation decode_plan_generation "\<lambda>g. g \<noteq> 0"
  by unfold_locales (simp add: decode_plan_generation_def encode_plan_generation_def codec_simps)

interpretation submit_args_doc: document_codec encode_submit_apply_arguments decode_submit_apply_arguments
    "\<lambda>q. sq_authorization q \<noteq> 0"
  by unfold_locales (simp add: decode_submit_apply_arguments_def encode_submit_apply_arguments_def codec_simps)

interpretation transition_args_doc: document_codec encode_transition_arguments decode_transition_arguments
    "\<lambda>q. tq_authorization q \<noteq> 0"
  by unfold_locales
    (simp add: decode_transition_arguments_def encode_transition_arguments_def codec_simps kind_enum.decode_code)

interpretation acknowledgement_args_doc:
  document_codec encode_acknowledgement_arguments decode_acknowledgement_arguments "\<lambda>_. True"
  by unfold_locales (simp add: decode_acknowledgement_arguments_def encode_acknowledgement_arguments_def codec_simps)

interpretation verification_args_doc:
  document_codec encode_verification_arguments decode_verification_arguments "\<lambda>_. True"
  by unfold_locales
    (simp add: decode_verification_arguments_def encode_verification_arguments_def codec_simps
      observation_enum.decode_code)

interpretation attempt_ref_doc: document_codec encode_attempt_reference decode_attempt_reference "\<lambda>_. True"
  by unfold_locales
    (simp add: decode_attempt_reference_def encode_attempt_reference_def codec_simps)

text \<open>A detection that was decoded names a resource of the grammar.\<close>

lemma r_checked_id_valid: "r_checked_id r = Inr (x, r') \<Longrightarrow> is_valid_resource_id x"
  by (auto simp: r_checked_id_def r_resource_id_def parse_resource_id_def try_result_Inr_iff Let_def
      err_def split: prod.splits if_splits)

lemma decoded_detection_valid:
  assumes "decode_detection_arguments bytes = Inr obs"
  shows "is_valid_resource_id (fo_resource obs)"
proof -
  obtain x r where x: "r_checked_id (reader_init bytes) = Inr (x, r)" "fo_resource obs = x"
    using assms by (auto simp: decode_detection_arguments_def try_result_Inr_iff Let_def err_def
        case_prod_beta' split: option.split_asm)
  then show ?thesis using r_checked_id_valid by metis
qed

end
