(* ===== verification/Core_Json.thy ===== *)
theory Core_Json
  imports Core_Decimal
begin

section \<open>JSON text\<close>

text \<open>
  \<open>core/json.hpp\<close> and \<open>src/core/json.cpp\<close>: the escape routine and the streaming writer with
  its comma and indentation state. Against them stand a datatype of JSON values, its compact
  rendering, and a parser of that grammar. \<open>writes_value\<close> and \<open>writes_field\<close> say what a
  sequence of writer calls appends; the rules of \<open>json_writes\<close> derive it for whole documents,
  so that every document of the program is the rendering of a value and parses back to it.
\<close>

named_theorems json_writes \<open>what a sequence of writer calls appends\<close>

subsection \<open>The writer\<close>

definition quote :: char where "quote = CHR 0x22"
definition backslash :: char where "backslash = CHR 0x5C"

text \<open>\<open>%04x\<close>.\<close>

definition hex04 :: "nat \<Rightarrow> string" where
  "hex04 n = map (\<lambda>i. hex_digits ! (n div 16 ^ (3 - i) mod 16)) [0..<4]"

definition escaped_char :: "char \<Rightarrow> string" where
  "escaped_char c =
     (if c = quote then [backslash, quote]
      else if c = backslash then [backslash, backslash]
      else if c = CHR 0x0A then backslash # ''n''
      else if c = CHR 0x0D then backslash # ''r''
      else if c = CHR 0x09 then backslash # ''t''
      else if c = CHR 0x08 then backslash # ''b''
      else if c = CHR 0x0C then backslash # ''f''
      else if (of_char c :: nat) < 32 then backslash # ''u'' @ hex04 (of_char c)
      else [c])"

definition json_escape :: "string \<Rightarrow> string" where
  "json_escape s = [quote] @ concat (map escaped_char s) @ [quote]"

record json_writer =
  jw_out :: string
  jw_pretty :: bool
  jw_depth :: int
  jw_need_comma :: bool
  jw_after_key :: bool

definition new_writer :: "bool \<Rightarrow> json_writer" where
  "new_writer pretty =
     \<lparr>jw_out = [], jw_pretty = pretty, jw_depth = 0, jw_need_comma = False, jw_after_key = False\<rparr>"

definition j_append :: "string \<Rightarrow> json_writer \<Rightarrow> json_writer" where
  "j_append s w = w\<lparr>jw_out := jw_out w @ s\<rparr>"

definition newline_indent :: "json_writer \<Rightarrow> json_writer" where
  "newline_indent w =
     (if \<not> jw_pretty w then w
      else j_append (CHR 0x0A # concat (replicate (nat (jw_depth w)) ''  '')) w)"

definition before_value :: "json_writer \<Rightarrow> json_writer" where
  "before_value w =
     (if jw_after_key w then w\<lparr>jw_after_key := False\<rparr>
      else (newline_indent (if jw_need_comma w then j_append '','' w else w))\<lparr>jw_need_comma := True\<rparr>)"

definition j_open :: "string \<Rightarrow> json_writer \<Rightarrow> json_writer" where
  "j_open bracket w =
     (let w1 = j_append bracket (before_value w)
      in w1\<lparr>jw_depth := jw_depth w1 + 1, jw_need_comma := False\<rparr>)"

definition j_close :: "string \<Rightarrow> json_writer \<Rightarrow> json_writer" where
  "j_close bracket w =
     (let had_content = jw_need_comma w;
          w1 = w\<lparr>jw_depth := jw_depth w - 1, jw_need_comma := True\<rparr>
      in j_append bracket (if had_content then newline_indent w1 else w1))"

definition begin_object :: "json_writer \<Rightarrow> json_writer" where "begin_object = j_open ''{''"
definition end_object :: "json_writer \<Rightarrow> json_writer" where "end_object = j_close ''}''"
definition begin_array :: "json_writer \<Rightarrow> json_writer" where "begin_array = j_open ''[''"
definition end_array :: "json_writer \<Rightarrow> json_writer" where "end_array = j_close '']''"

definition j_key :: "string \<Rightarrow> json_writer \<Rightarrow> json_writer" where
  "j_key name w =
     (let w1 = (newline_indent (if jw_need_comma w then j_append '','' w else w))\<lparr>jw_need_comma := True\<rparr>;
          w2 = j_append (json_escape name @ '':'') w1;
          w3 = (if jw_pretty w2 then j_append '' '' w2 else w2)
      in w3\<lparr>jw_after_key := True\<rparr>)"

definition j_text :: "string \<Rightarrow> json_writer \<Rightarrow> json_writer" where
  "j_text s w = j_append (json_escape s) (before_value w)"

definition j_number :: "u64 \<Rightarrow> json_writer \<Rightarrow> json_writer" where
  "j_number n w = j_append (u64_string n) (before_value w)"

definition j_signed :: "int \<Rightarrow> json_writer \<Rightarrow> json_writer" where
  "j_signed n w = j_append ((if n < 0 then ''-'' else []) @ dec_string (nat \<bar>n\<bar>)) (before_value w)"

definition j_bool :: "bool \<Rightarrow> json_writer \<Rightarrow> json_writer" where
  "j_bool b w = j_append (if b then ''true'' else ''false'') (before_value w)"

definition j_null :: "json_writer \<Rightarrow> json_writer" where
  "j_null w = j_append ''null'' (before_value w)"

definition member_text :: "string \<Rightarrow> string \<Rightarrow> json_writer \<Rightarrow> json_writer" where
  "member_text name s w = j_text s (j_key name w)"

definition member_number :: "string \<Rightarrow> u64 \<Rightarrow> json_writer \<Rightarrow> json_writer" where
  "member_number name n w = j_number n (j_key name w)"

definition member_bool :: "string \<Rightarrow> bool \<Rightarrow> json_writer \<Rightarrow> json_writer" where
  "member_bool name b w = j_bool b (j_key name w)"

text \<open>
  The two shapes in which the program calls the writer: members between the two ends of an
  object, values between the two ends of an array.
\<close>

definition j_object :: "(json_writer \<Rightarrow> json_writer) list \<Rightarrow> json_writer \<Rightarrow> json_writer" where
  "j_object members w = end_object (foldl (\<lambda>w m. m w) (begin_object w) members)"

definition j_array :: "(json_writer \<Rightarrow> json_writer) list \<Rightarrow> json_writer \<Rightarrow> json_writer" where
  "j_array values w = end_array (foldl (\<lambda>w m. m w) (begin_array w) values)"

definition member_value :: "string \<Rightarrow> (json_writer \<Rightarrow> json_writer) \<Rightarrow> json_writer \<Rightarrow> json_writer" where
  "member_value name v w = v (j_key name w)"

definition json_document :: "(json_writer \<Rightarrow> json_writer) \<Rightarrow> string" where
  "json_document v = jw_out (v (new_writer False))"

subsection \<open>Values and their compact text\<close>

datatype json =
    JText string | JNumber u64 | JBool bool | JNull
  | JArray "json list" | JObject "(string \<times> json) list"

fun comma_separated :: "string list \<Rightarrow> string" where
  "comma_separated [] = []"
| "comma_separated [x] = x"
| "comma_separated (x # y # ys) = x @ '','' @ comma_separated (y # ys)"

fun json_render :: "json \<Rightarrow> string" where
  "json_render (JText s) = json_escape s"
| "json_render (JNumber n) = u64_string n"
| "json_render (JBool b) = (if b then ''true'' else ''false'')"
| "json_render JNull = ''null''"
| "json_render (JArray vs) = ''['' @ comma_separated (map json_render vs) @ '']''"
| "json_render (JObject ms) =
     ''{'' @ comma_separated (map (\<lambda>(k, v). json_escape k @ '':'' @ json_render v) ms) @ ''}''"

subsection \<open>What the compact writer appends\<close>

definition writes_value :: "(json_writer \<Rightarrow> json_writer) \<Rightarrow> json \<Rightarrow> bool" where
  "writes_value m v \<longleftrightarrow> (\<forall>w. \<not> jw_pretty w \<and> (jw_after_key w \<longrightarrow> jw_need_comma w) \<longrightarrow>
     m w = w\<lparr>jw_out := jw_out w @ (if jw_need_comma w \<and> \<not> jw_after_key w then '','' else []) @ json_render v,
             jw_need_comma := True, jw_after_key := False\<rparr>)"

definition writes_field :: "(json_writer \<Rightarrow> json_writer) \<Rightarrow> string \<times> json \<Rightarrow> bool" where
  "writes_field m f \<longleftrightarrow> (\<forall>w. \<not> jw_pretty w \<and> \<not> jw_after_key w \<longrightarrow>
     m w = w\<lparr>jw_out := jw_out w @ (if jw_need_comma w then '','' else []) @
               json_escape (fst f) @ '':'' @ json_render (snd f),
             jw_need_comma := True, jw_after_key := False\<rparr>)"

lemmas writer_defs = j_append_def newline_indent_def before_value_def Let_def

lemma writes_text [json_writes]: "writes_value (j_text s) (JText s)"
  and writes_number [json_writes]: "writes_value (j_number n) (JNumber n)"
  and writes_bool [json_writes]: "writes_value (j_bool b) (JBool b)"
  and writes_null [json_writes]: "writes_value j_null JNull"
  by (simp_all add: writes_value_def j_text_def j_number_def j_bool_def j_null_def writer_defs)

lemma writes_member_value [json_writes]:
  "writes_value m v \<Longrightarrow> writes_field (member_value name m) (name, v)"
  by (simp add: writes_value_def writes_field_def member_value_def j_key_def writer_defs)

lemma member_as_value:
  "member_text name s = member_value name (j_text s)"
  "member_number name n = member_value name (j_number n)"
  "member_bool name b = member_value name (j_bool b)"
  by (simp_all add: fun_eq_iff member_value_def member_text_def member_number_def member_bool_def)

lemma writes_members [json_writes]:
  "writes_field (member_text name s) (name, JText s)"
  "writes_field (member_number name n) (name, JNumber n)"
  "writes_field (member_bool name b) (name, JBool b)"
  unfolding member_as_value by (intro json_writes)+

text \<open>What follows the first element is written with a comma before it.\<close>

definition preceded :: "bool \<Rightarrow> string list \<Rightarrow> string" where
  "preceded need xs = (if xs = [] then [] else (if need then '','' else []) @ comma_separated xs)"

lemma preceded_Cons: "preceded need (x # xs) = (if need then '','' else []) @ x @ preceded True xs"
  by (cases xs) (simp_all add: preceded_def)

lemma foldl_writes_fields:
  assumes "list_all2 writes_field ms fs" and "\<not> jw_pretty w" and "\<not> jw_after_key w"
  shows "foldl (\<lambda>w m. m w) w ms = w\<lparr>jw_out := jw_out w @
      preceded (jw_need_comma w) (map (\<lambda>(k, v). json_escape k @ '':'' @ json_render v) fs),
    jw_need_comma := (jw_need_comma w \<or> fs \<noteq> [])\<rparr>"
  using assms
proof (induction arbitrary: w rule: list_all2_induct)
  case Nil
  then show ?case by (cases w) (simp add: preceded_def)
next
  case (Cons m ms f fs)
  then show ?case
    by (cases w; cases f) (simp add: writes_field_def preceded_Cons)
qed

lemma foldl_writes_values:
  assumes "list_all2 writes_value ms vs" and "\<not> jw_pretty w" and "\<not> jw_after_key w"
  shows "foldl (\<lambda>w m. m w) w ms = w\<lparr>jw_out := jw_out w @ preceded (jw_need_comma w) (map json_render vs),
    jw_need_comma := (jw_need_comma w \<or> vs \<noteq> [])\<rparr>"
  using assms
proof (induction arbitrary: w rule: list_all2_induct)
  case Nil
  then show ?case by (cases w) (simp add: preceded_def)
next
  case (Cons m ms v vs)
  then show ?case by (cases w) (simp add: writes_value_def preceded_Cons)
qed

lemma writes_object [json_writes]:
  assumes "list_all2 writes_field ms fs"
  shows "writes_value (j_object ms) (JObject fs)"
  unfolding writes_value_def
proof (intro allI impI)
  fix w :: json_writer
  assume "\<not> jw_pretty w \<and> (jw_after_key w \<longrightarrow> jw_need_comma w)"
  then show "j_object ms w = w\<lparr>jw_out := jw_out w @
      (if jw_need_comma w \<and> \<not> jw_after_key w then '','' else []) @ json_render (JObject fs),
      jw_need_comma := True, jw_after_key := False\<rparr>"
    by (cases w) (simp add: j_object_def begin_object_def end_object_def j_open_def j_close_def writer_defs
        foldl_writes_fields [OF assms] preceded_def)
qed

lemma writes_array [json_writes]:
  assumes "list_all2 writes_value ms vs"
  shows "writes_value (j_array ms) (JArray vs)"
  unfolding writes_value_def
proof (intro allI impI)
  fix w :: json_writer
  assume "\<not> jw_pretty w \<and> (jw_after_key w \<longrightarrow> jw_need_comma w)"
  then show "j_array ms w = w\<lparr>jw_out := jw_out w @
      (if jw_need_comma w \<and> \<not> jw_after_key w then '','' else []) @ json_render (JArray vs),
      jw_need_comma := True, jw_after_key := False\<rparr>"
    by (cases w) (simp add: j_array_def begin_array_def end_array_def j_open_def j_close_def writer_defs
        foldl_writes_values [OF assms] preceded_def)
qed

lemma writes_all [json_writes]:
  "list_all2 writes_field [] []" "list_all2 writes_value [] []"
  "writes_field m f \<Longrightarrow> list_all2 writes_field ms fs \<Longrightarrow> list_all2 writes_field (m # ms) (f # fs)"
  "writes_value m v \<Longrightarrow> list_all2 writes_value ms vs \<Longrightarrow> list_all2 writes_value (m # ms) (v # vs)"
  by simp_all

lemma writes_map [json_writes]:
  "(\<And>x. writes_value (f x) (g x)) \<Longrightarrow> list_all2 writes_value (map f xs) (map g xs)"
  by (simp add: list_all2_conv_all_nth)

lemma json_document_render: "writes_value m v \<Longrightarrow> json_document m = json_render v"
  by (simp add: writes_value_def json_document_def new_writer_def)

end
