(* ===== verification/Core_Json_Grammar.thy ===== *)
theory Core_Json_Grammar
  imports Core_Json
begin

section \<open>The grammar the JSON text belongs to\<close>

text \<open>
  A parser of compact JSON (no insignificant whitespace, unsigned 64-bit numbers), written from
  the grammar and not from the writer. The rendering of every value parses back to it, so the
  text of a document identifies the document.
\<close>

fun unescape :: "string \<Rightarrow> (char \<times> string) option" where
  "unescape [] = None"
| "unescape (c # cs) =
     (if c = quote \<or> c = backslash \<or> c = CHR ''/'' then Some (c, cs)
      else if c = CHR ''n'' then Some (CHR 0x0A, cs)
      else if c = CHR ''r'' then Some (CHR 0x0D, cs)
      else if c = CHR ''t'' then Some (CHR 0x09, cs)
      else if c = CHR ''b'' then Some (CHR 0x08, cs)
      else if c = CHR ''f'' then Some (CHR 0x0C, cs)
      else if c = CHR ''u'' \<and> length cs \<ge> 4 then
        (case hex_accumulate 0 (take 4 cs) of
           None \<Rightarrow> None
         | Some v \<Rightarrow> if v < 256 then Some (char_of (unat v), drop 4 cs) else None)
      else None)"

lemma unescape_shorter: "unescape s = Some (c, r) \<Longrightarrow> length r < length s"
  by (cases s) (auto split: if_splits option.splits)

text \<open>The characters up to the closing quote.\<close>

function scan_text :: "string \<Rightarrow> (string \<times> string) option" where
  "scan_text s =
     (case s of [] \<Rightarrow> None
      | c # cs \<Rightarrow>
          if c = quote then Some ([], cs)
          else if c = backslash then
            (case unescape cs of None \<Rightarrow> None
             | Some (d, rest) \<Rightarrow> map_option (\<lambda>(t, r). (d # t, r)) (scan_text rest))
          else if (of_char c :: nat) < 32 then None
          else map_option (\<lambda>(t, r). (c # t, r)) (scan_text cs))"
  by pat_completeness auto

termination scan_text
  by (relation "measure length") (auto dest: unescape_shorter intro: less_SucI)

declare scan_text.simps [simp del]

definition is_digit :: "char \<Rightarrow> bool" where
  "is_digit c \<longleftrightarrow> CHR ''0'' \<le> c \<and> c \<le> CHR ''9''"

definition parse_number :: "string \<Rightarrow> (json \<times> string) option" where
  "parse_number s =
     (case parse_u64 (takeWhile is_digit s) of None \<Rightarrow> None
      | Some n \<Rightarrow> Some (JNumber n, dropWhile is_digit s))"

definition starts :: "string \<Rightarrow> string \<Rightarrow> bool" where
  "starts p s \<longleftrightarrow> take (length p) s = p"

fun parse_json :: "nat \<Rightarrow> string \<Rightarrow> (json \<times> string) option"
  and parse_elements :: "nat \<Rightarrow> string \<Rightarrow> (json list \<times> string) option"
  and parse_members :: "nat \<Rightarrow> string \<Rightarrow> ((string \<times> json) list \<times> string) option"
where
  "parse_json 0 s = None"
| "parse_json (Suc n) s =
     (if starts [quote] s then map_option (\<lambda>(t, r). (JText t, r)) (scan_text (drop 1 s))
      else if starts ''[]'' s then Some (JArray [], drop 2 s)
      else if starts ''['' s then map_option (\<lambda>(vs, r). (JArray vs, r)) (parse_elements n (drop 1 s))
      else if starts ''{}'' s then Some (JObject [], drop 2 s)
      else if starts ''{'' s then map_option (\<lambda>(ms, r). (JObject ms, r)) (parse_members n (drop 1 s))
      else if starts ''true'' s then Some (JBool True, drop 4 s)
      else if starts ''false'' s then Some (JBool False, drop 5 s)
      else if starts ''null'' s then Some (JNull, drop 4 s)
      else parse_number s)"
| "parse_elements 0 s = None"
| "parse_elements (Suc n) s =
     (case parse_json n s of None \<Rightarrow> None
      | Some (v, r) \<Rightarrow>
          if starts '','' r then map_option (\<lambda>(vs, r'). (v # vs, r')) (parse_elements n (drop 1 r))
          else if starts '']'' r then Some ([v], drop 1 r)
          else None)"
| "parse_members 0 s = None"
| "parse_members (Suc n) s =
     (if \<not> starts [quote] s then None
      else case scan_text (drop 1 s) of None \<Rightarrow> None
      | Some (k, r) \<Rightarrow>
          if \<not> starts '':'' r then None
          else case parse_json n (drop 1 r) of None \<Rightarrow> None
          | Some (v, r') \<Rightarrow>
              if starts '','' r' then map_option (\<lambda>(ms, r''). ((k, v) # ms, r'')) (parse_members n (drop 1 r'))
              else if starts ''}'' r' then Some ([(k, v)], drop 1 r')
              else None)"

declare parse_json.simps [simp del] parse_elements.simps [simp del] parse_members.simps [simp del]

subsection \<open>Escaped text\<close>

lemma hex_accumulate_hex04_all:
  "\<forall>n \<in> set [0..<32]. hex_accumulate 0 (hex04 n) = Some (of_nat n)"
  by (simp add: upt_rec hex04_def hex_digits_def hex_value_def less_eq_char_def)

lemma unescape_control:
  assumes "(of_char c :: nat) < 32"
  shows "unescape (''u'' @ hex04 (of_char c) @ rest) = Some (c, rest)"
proof -
  have h: "hex_accumulate 0 (hex04 (of_char c)) = Some (of_nat (of_char c))"
    using hex_accumulate_hex04_all assms by simp
  have l: "length (hex04 (of_char c)) = 4" by (simp add: hex04_def)
  have v: "(of_nat (of_char c) :: u64) < 256" "unat (of_nat (of_char c) :: u64) = of_char c"
    using assms by (simp_all add: word_less_nat_alt unat_of_nat)
  show ?thesis using h l v by (simp add: quote_def backslash_def)
qed

lemma scan_escaped_char:
  "scan_text (escaped_char c @ rest) = map_option (\<lambda>(t, r). (c # t, r)) (scan_text rest)"
proof -
  have slash: "scan_text (backslash # s) = (case unescape s of None \<Rightarrow> None
      | Some (d, rest) \<Rightarrow> map_option (\<lambda>(t, r). (d # t, r)) (scan_text rest))" for s
    by (subst scan_text.simps) (simp add: quote_def backslash_def)
  have plain: "scan_text (c # s) = map_option (\<lambda>(t, r). (c # t, r)) (scan_text s)"
    if "c \<noteq> quote" "c \<noteq> backslash" "\<not> (of_char c :: nat) < 32" for s
    using that by (subst scan_text.simps) simp
  show ?thesis
    unfolding escaped_char_def
    using plain unescape_control [of c rest] by (simp add: slash del: unescape.simps) (simp add: quote_def backslash_def)
qed

lemma scan_json_escape: "scan_text (concat (map escaped_char s) @ quote # rest) = Some (s, rest)"
proof (induction s)
  case Nil
  show ?case by (subst scan_text.simps) simp
next
  case (Cons c s)
  then show ?case by (simp add: scan_escaped_char)
qed

subsection \<open>Numbers\<close>

lemma decimal_is_digits: "c \<in> set (dec_string n) \<Longrightarrow> is_digit c"
proof (induction n rule: dec_string.induct)
  case (1 n)
  have digit: "is_digit (dec_digit k)" if "k < 10" for k
    using dec_digit_range [OF that] by (simp add: is_digit_def not_less)
  have last: "is_digit (dec_digit (n mod 10))" by (rule digit) simp
  show ?case
    using 1 digit last by (cases "n < 10") (auto simp: dec_string.simps [of n])
qed

definition ends_number :: "string \<Rightarrow> bool" where
  "ends_number rest \<longleftrightarrow> rest = [] \<or> \<not> is_digit (hd rest)"

lemma ends_number_simps [simp]:
  "ends_number []" "ends_number (CHR '','' # r)" "ends_number (CHR '']'' # r)" "ends_number (CHR ''}'' # r)"
  by (simp_all add: ends_number_def is_digit_def less_eq_char_def)

lemma parse_number_render:
  assumes "ends_number rest"
  shows "parse_number (u64_string n @ rest) = Some (JNumber n, rest)"
proof -
  have d: "\<And>c. c \<in> set (u64_string n) \<Longrightarrow> is_digit c"
    using decimal_is_digits by (simp add: u64_string_def)
  have "takeWhile is_digit rest = []" "dropWhile is_digit rest = rest"
    using assms by (cases rest; simp add: ends_number_def)+
  then have "takeWhile is_digit (u64_string n @ rest) = u64_string n"
    "dropWhile is_digit (u64_string n @ rest) = rest"
    using d by (simp_all add: takeWhile_append2 dropWhile_append2)
  then show ?thesis by (simp add: parse_number_def parse_u64_string)
qed

subsection \<open>Every rendering parses back\<close>

fun json_fuel :: "json \<Rightarrow> nat" where
  "json_fuel (JArray vs) = Suc (sum_list (map (\<lambda>v. Suc (json_fuel v)) vs))"
| "json_fuel (JObject ms) = Suc (sum_list (map (\<lambda>(k, v). Suc (json_fuel v)) ms))"
| "json_fuel _ = 1"

lemma u64_string_first: obtains c cs where "u64_string n = c # cs" "is_digit c"
proof (cases "u64_string n")
  case Nil
  then show thesis using dec_string_nonempty by (simp add: u64_string_def)
next
  case (Cons c cs)
  then show thesis using that decimal_is_digits [of c "unat n"] by (simp add: u64_string_def)
qed

lemma starts_Cons [simp]: "starts (p # ps) (c # cs) \<longleftrightarrow> p = c \<and> starts ps cs"
  "starts [] cs" "\<not> starts (p # ps) []"
  by (auto simp: starts_def)

lemma parse_json_number:
  assumes "ends_number rest"
  shows "parse_json (Suc n) (u64_string k @ rest) = Some (JNumber k, rest)"
proof -
  obtain c cs where c: "u64_string k = c # cs" "is_digit c" by (rule u64_string_first)
  have "quote \<noteq> c" "CHR ''['' \<noteq> c" "CHR ''{'' \<noteq> c" "CHR ''t'' \<noteq> c" "CHR ''f'' \<noteq> c" "CHR ''n'' \<noteq> c"
    using c(2) by (auto simp: is_digit_def less_eq_char_def quote_def)
  then have "parse_json (Suc n) (u64_string k @ rest) = parse_number (u64_string k @ rest)"
    using c(1) by (simp add: parse_json.simps)
  then show ?thesis using parse_number_render [OF assms] by simp
qed

lemma render_first:
  obtains c cs where "json_render v = c # cs" "c \<noteq> CHR '']''"
proof (cases v)
  case (JNumber n)
  obtain c cs where "u64_string n = c # cs" "is_digit c" by (rule u64_string_first)
  then show thesis using that [of c cs] JNumber by (cases "c = CHR '']''") (auto simp: is_digit_def less_eq_char_def)
next
  case (JBool b)
  then show thesis using that by (cases b) simp_all
qed (use that in \<open>auto simp: json_escape_def quote_def\<close>)

lemma comma_separated_Cons:
  "comma_separated (x # xs) = x @ (if xs = [] then [] else '','' @ comma_separated xs)"
  by (cases xs) simp_all

lemma parse_elements_render:
  assumes "\<And>v n rest. v \<in> set vs \<Longrightarrow> json_fuel v \<le> n \<Longrightarrow> ends_number rest \<Longrightarrow>
      parse_json n (json_render v @ rest) = Some (v, rest)"
    and "vs \<noteq> []" and "sum_list (map (\<lambda>v. Suc (json_fuel v)) vs) \<le> n"
  shows "parse_elements n (comma_separated (map json_render vs) @ '']'' @ rest) = Some (vs, rest)"
  using assms
proof (induction vs arbitrary: n)
  case (Cons v vs)
  then obtain m where n: "n = Suc m" by (cases n) auto
  have m: "json_fuel v \<le> m" "sum_list (map (\<lambda>v. Suc (json_fuel v)) vs) \<le> m"
    using Cons.prems(3) n by simp_all
  show ?case
  proof (cases "vs = []")
    case True
    then show ?thesis
      using Cons.prems(1) [of v m "'']'' @ rest"] m(1) by (simp add: n parse_elements.simps)
  next
    case False
    have "parse_elements m (comma_separated (map json_render vs) @ '']'' @ rest) = Some (vs, rest)"
      using Cons.IH [OF _ False m(2)] Cons.prems(1) by simp
    then show ?thesis
      using False Cons.prems(1) [of v m "'','' @ comma_separated (map json_render vs) @ '']'' @ rest"] m(1)
      by (simp add: n parse_elements.simps comma_separated_Cons)
  qed
qed simp

definition render_member :: "string \<times> json \<Rightarrow> string" where
  "render_member f = json_escape (fst f) @ '':'' @ json_render (snd f)"

lemma render_object: "json_render (JObject ms) = ''{'' @ comma_separated (map render_member ms) @ ''}''"
proof -
  have "(\<lambda>(k, v). json_escape k @ '':'' @ json_render v) = render_member"
    by (auto simp: fun_eq_iff render_member_def)
  then show ?thesis by simp
qed

lemma json_escape_append: "json_escape k @ r = quote # concat (map escaped_char k) @ quote # r"
  by (simp add: json_escape_def)

lemma render_member_pair:
  "render_member (k, v) @ r = quote # concat (map escaped_char k) @ quote # CHR '':'' # json_render v @ r"
  by (simp add: render_member_def json_escape_append)

lemma parse_members_render:
  assumes "\<And>k v n rest. (k, v) \<in> set ms \<Longrightarrow> json_fuel v \<le> n \<Longrightarrow> ends_number rest \<Longrightarrow>
      parse_json n (json_render v @ rest) = Some (v, rest)"
    and "ms \<noteq> []" and "sum_list (map (\<lambda>(k, v). Suc (json_fuel v)) ms) \<le> n"
  shows "parse_members n (comma_separated (map render_member ms) @ ''}'' @ rest) = Some (ms, rest)"
  using assms
proof (induction ms arbitrary: n)
  case (Cons f ms)
  obtain k v where f: "f = (k, v)" by (cases f)
  from Cons.prems(3) f obtain m where n: "n = Suc m" by (cases n) auto
  have m: "json_fuel v \<le> m" "sum_list (map (\<lambda>(k, v). Suc (json_fuel v)) ms) \<le> m"
    using Cons.prems(3) n f by simp_all
  show ?case
  proof (cases "ms = []")
    case True
    then show ?thesis
      using Cons.prems(1) [of k v m "''}'' @ rest"] m(1) f
      by (simp add: n parse_members.simps render_member_pair scan_json_escape)
  next
    case False
    have "parse_members m (comma_separated (map render_member ms) @ ''}'' @ rest) = Some (ms, rest)"
    proof (rule Cons.IH [OF _ False m(2)])
      fix k v n rest
      assume "(k, v) \<in> set ms" "json_fuel v \<le> n" "ends_number rest"
      then show "parse_json n (json_render v @ rest) = Some (v, rest)"
        using Cons.prems(1) [of k v n rest] by simp
    qed
    then show ?thesis
      using False Cons.prems(1) [of k v m "'','' @ comma_separated (map render_member ms) @ ''}'' @ rest"] m(1) f
      by (simp add: n parse_members.simps render_member_pair scan_json_escape comma_separated_Cons)
  qed
qed simp

theorem parse_json_render:
  "json_fuel v \<le> n \<Longrightarrow> ends_number rest \<Longrightarrow> parse_json n (json_render v @ rest) = Some (v, rest)"
proof (induction v arbitrary: n rest)
  case (JText s)
  then show ?case
    by (cases n) (simp_all add: parse_json.simps json_escape_append scan_json_escape)
next
  case (JNumber k)
  then show ?case by (cases n) (simp_all add: parse_json_number)
next
  case (JBool b)
  then show ?case by (cases n) (simp_all add: parse_json.simps quote_def)
next
  case JNull
  then show ?case by (cases n) (simp_all add: parse_json.simps quote_def)
next
  case (JArray vs)
  then obtain m where n: "n = Suc m" by (cases n) auto
  show ?case
  proof (cases vs)
    case Nil
    then show ?thesis by (simp add: n parse_json.simps quote_def)
  next
    case (Cons u us)
    have "parse_elements m (comma_separated (map json_render vs) @ '']'' @ rest) = Some (vs, rest)"
      using JArray Cons n by (intro parse_elements_render) auto
    moreover obtain c cs where "json_render u = c # cs" "c \<noteq> CHR '']''" by (rule render_first)
    then obtain cs' where "comma_separated (map json_render vs) = c # cs'" "c \<noteq> CHR '']''"
      using Cons by (simp add: comma_separated_Cons)
    ultimately show ?thesis by (simp add: n parse_json.simps quote_def)
  qed
next
  case (JObject ms)
  then obtain m where n: "n = Suc m" by (cases n) auto
  show ?case
  proof (cases ms)
    case Nil
    then show ?thesis by (simp add: n parse_json.simps quote_def)
  next
    case (Cons f fs)
    have "parse_members m (comma_separated (map render_member ms) @ ''}'' @ rest) = Some (ms, rest)"
      using JObject Cons n by (intro parse_members_render) (auto simp: prod_set_simps)
    moreover obtain cs where "comma_separated (map render_member ms) = quote # cs"
      using Cons by (simp add: comma_separated_Cons render_member_def json_escape_def)
    ultimately show ?thesis unfolding render_object by (simp add: n parse_json.simps quote_def)
  qed
qed

lemma json_render_inj: "json_render v = json_render w \<Longrightarrow> v = w"
  using parse_json_render [of v "max (json_fuel v) (json_fuel w)" "[]"]
    parse_json_render [of w "max (json_fuel v) (json_fuel w)" "[]"]
  by simp

end
