(* ===== verification/Model_Render.thy ===== *)
theory Model_Render
  imports Core_Json_Grammar Model_Plan Model_Attempt
begin

section \<open>Text of the model's values\<close>

text \<open>
  The \<open>render()\<close> and \<open>to_json()\<close> methods of \<open>src/model\<close> and \<open>core/ids.cpp\<close>: diagnostic lines,
  and the JSON documents as sequences of writer calls. \<open>json_text\<close> says a sequence of calls
  writes one JSON value; it holds for each document.
\<close>

subsection \<open>Diagnostic lines\<close>

definition u32_string :: "u32 \<Rightarrow> string" where "u32_string v = dec_string (unat v)"

definition boot_render :: "boot_identity \<Rightarrow> string" where
  "boot_render b = ''boot-'' @ hex16 (boot_bid b) @ ''/pid-'' @ u32_string (boot_pid b)"

definition authority_render :: "authority_vector \<Rightarrow> string" where
  "authority_render a =
     ''epoch='' @ u64_string (av_epoch a) @ '' boot='' @ hex16 (boot_bid (av_boot a)) @ ''/'' @
     u32_string (boot_pid (av_boot a)) @ '' policy='' @ u64_string (av_policy a) @
     '' topology='' @ u64_string (av_topology a) @ '' evidence_rev='' @ u64_string (av_evidence_revision a) @
     '' seq='' @ u64_string (av_issued_sequence a)"

definition attempt_id_render :: "attempt_id \<Rightarrow> string" where
  "attempt_id_render i = ''plan-'' @ u64_string (ai_plan i) @ ''/attempt-'' @ u64_string (ai_sequence i)"

definition item_render :: "explanation_item \<Rightarrow> string" where
  "item_render i =
     reason_code_to_string (xi_code i) @
     (if xi_has_subject i then '' subject='' @ xi_subject i else []) @
     (if xi_has_value i then '' value='' @ u64_string (xi_value i) else []) @
     (if xi_text i \<noteq> [] then '' '' @ xi_text i else [])"

fun items_render :: "bool \<Rightarrow> explanation_item list \<Rightarrow> string" where
  "items_render first [] = []"
| "items_render first (i # is) = (if first then [] else ''; '') @ item_render i @ items_render False is"

definition explanation_render :: "explanation \<Rightarrow> string" where
  "explanation_render x =
     items_render True (x_items x) @ (if x_truncated x then ''; [truncated]'' else [])"

text \<open>The buffers of \<open>snprintf\<close> (256, 64 and 40 bytes) are large enough: nothing is cut off.\<close>

lemma length_u32_string: "length (u32_string v) \<le> 10"
proof -
  have "unat v < 2 ^ 32" using unsigned_less [of v] by simp
  then show ?thesis using length_dec_string [of "unat v" 9] by (simp add: u32_string_def)
qed

lemma render_lengths:
  "length (boot_render b) < 40" "length (authority_render a) < 256" "length (attempt_id_render i) < 64"
  using length_u32_string [of "boot_pid b"] length_u32_string [of "boot_pid (av_boot a)"]
    length_u64_string [of "av_epoch a"] length_u64_string [of "av_policy a"] length_u64_string [of "av_topology a"]
    length_u64_string [of "av_evidence_revision a"] length_u64_string [of "av_issued_sequence a"]
    length_u64_string [of "ai_plan i"] length_u64_string [of "ai_sequence i"]
  by (simp_all add: boot_render_def authority_render_def attempt_id_render_def)

subsection \<open>Documents\<close>

definition member_ids_array :: "string \<Rightarrow> resource_id list \<Rightarrow> json_writer \<Rightarrow> json_writer" where
  "member_ids_array name ids = member_value name (j_array (map j_text ids))"

definition authority_members :: "authority_vector \<Rightarrow> (json_writer \<Rightarrow> json_writer) list" where
  "authority_members a =
    [member_number ''epoch'' (av_epoch a),
     member_number ''boot_id'' (boot_bid (av_boot a)),
     member_number ''boot_pid'' (ucast (boot_pid (av_boot a))),
     member_number ''policy_generation'' (av_policy a),
     member_number ''topology_generation'' (av_topology a),
     member_number ''evidence_revision'' (av_evidence_revision a),
     member_number ''issued_sequence'' (av_issued_sequence a),
     member_text ''authority_digest'' (digest_hex (authority_digest a))]"

definition boundary_member_object :: "boundary_member \<Rightarrow> json_writer \<Rightarrow> json_writer" where
  "boundary_member_object m = j_object
    [member_text ''resource'' (bm_resource m),
     member_text ''reason'' (inclusion_reason_to_string (bm_reason m)),
     member_bool ''protected_obligation'' (bm_protected m),
     member_number ''weight'' (bm_weight m),
     member_bool ''witness_uses_unknown'' (bm_uses_unknown m),
     member_ids_array ''witness_path'' (bm_witness_path m)]"

definition boundary_to_json :: "boundary \<Rightarrow> string" where
  "boundary_to_json b = json_document (j_object
    [member_number ''generation'' (b_generation b),
     member_text ''digest'' (digest_hex (b_digest b)),
     member_number ''member_count'' (of_nat (length (b_members b))),
     member_number ''total_weight'' (boundary_total_weight b),
     member_value ''members'' (j_array (map boundary_member_object (b_members b)))])"

text \<open>The item of an explanation as most documents write it.\<close>

definition item_object :: "explanation_item \<Rightarrow> json_writer \<Rightarrow> json_writer" where
  "item_object i = j_object
    [member_text ''code'' (reason_code_to_string (xi_code i)),
     member_text ''subject'' (xi_subject i),
     member_number ''value'' (xi_value i),
     member_text ''text'' (xi_text i)]"

definition plan_item_object :: "explanation_item \<Rightarrow> json_writer \<Rightarrow> json_writer" where
  "plan_item_object i = j_object
    [member_text ''code'' (reason_code_to_string (xi_code i)),
     member_text ''subject'' (xi_subject i),
     member_bool ''has_subject'' (xi_has_subject i),
     member_number ''value'' (xi_value i),
     member_bool ''has_value'' (xi_has_value i),
     member_text ''text'' (xi_text i)]"

definition plan_boundary_object :: "boundary \<Rightarrow> json_writer \<Rightarrow> json_writer" where
  "plan_boundary_object b = j_object
    [member_number ''generation'' (b_generation b),
     member_text ''digest'' (digest_hex (b_digest b)),
     member_number ''member_count'' (of_nat (length (b_members b))),
     member_number ''total_weight'' (boundary_total_weight b),
     member_number ''protected_member_count'' (of_nat (protected_member_count b)),
     member_value ''members'' (j_array (map boundary_member_object (b_members b)))]"

definition counters_object :: "search_counters \<Rightarrow> json_writer \<Rightarrow> json_writer" where
  "counters_object c = j_object
    [member_number ''candidate_nodes'' (pc_candidate_nodes c),
     member_number ''explored_nodes'' (pc_explored_nodes c),
     member_number ''pruned_branches'' (pc_pruned_branches c),
     member_number ''residual_paths_checked'' (pc_residual_paths_checked c),
     member_number ''budget'' (pc_budget c),
     member_bool ''budget_exhausted'' (pc_budget_exhausted c),
     member_bool ''heuristic_used'' (pc_heuristic_used c)]"

definition plan_to_json :: "containment_plan \<Rightarrow> string" where
  "plan_to_json p = json_document (j_object
    [member_number ''plan_generation'' (p_generation p),
     member_text ''claim'' (claim_to_string (p_claim p)),
     member_text ''feasibility'' (feasibility_to_string (p_feasibility p)),
     member_text ''optimality'' (optimality_to_string (p_optimality p)),
     member_text ''evidence_currency'' (currency_to_string (p_currency p)),
     member_text ''plan_digest'' (digest_hex (p_digest p)),
     member_text ''topology_digest'' (digest_hex (p_topology_digest p)),
     member_text ''policy_digest'' (digest_hex (p_policy_digest p)),
     member_text ''evidence_digest'' (digest_hex (p_evidence_digest p)),
     member_text ''instance_digest'' (digest_hex (p_instance_digest p)),
     member_value ''authority'' (j_object (authority_members (p_authority p))),
     member_ids_array ''failure_sources'' (p_sources p),
     member_ids_array ''protected_obligations'' (p_obligations p),
     member_ids_array ''uncontainable_sources'' (p_uncontainable p),
     member_ids_array ''proven_necessary_members'' (p_necessary p),
     member_ids_array ''indeterminate_necessity'' (p_indeterminate_necessity p),
     member_number ''total_weight'' (p_total_weight p),
     member_number ''member_count'' (p_member_count p),
     member_value ''counters'' (counters_object (p_counters p)),
     member_value ''infeasibility_witness'' (j_object
       [member_bool ''present'' (iw_present (p_infeasibility p)),
        member_ids_array ''path'' (iw_path (p_infeasibility p))]),
     member_value ''boundary'' (plan_boundary_object (p_boundary p)),
     member_value ''explanation'' (j_array (map plan_item_object (x_items (p_explanation p)))),
     member_bool ''explanation_truncated'' (x_truncated (p_explanation p))])"

definition transition_to_json :: "transition_decision \<Rightarrow> string" where
  "transition_to_json t = json_document (j_object
    [member_number ''transition_generation'' (td_generation t),
     member_text ''kind'' (transition_kind_to_string (td_kind t)),
     member_text ''status'' (transition_status_to_string (td_status t)),
     member_text ''code'' (status_code_to_string (td_code t)),
     member_number ''from_boundary_generation'' (td_from_generation t),
     member_number ''to_boundary_generation'' (td_to_generation t),
     member_bool ''to_released'' (td_to_released t),
     member_text ''from_digest'' (digest_hex (td_from_digest t)),
     member_text ''to_digest'' (digest_hex (td_to_digest t)),
     member_text ''plan_digest'' (digest_hex (td_plan_digest t)),
     member_text ''required_effect_state'' (effect_state_to_string (td_required_effect t)),
     member_text ''observed_effect_state'' (effect_state_to_string (td_observed_effect t)),
     member_bool ''effect_verified'' (td_effect_verified t),
     member_number ''epoch'' (td_epoch t),
     member_number ''boot_id'' (boot_bid (td_boot t)),
     member_number ''boot_pid'' (ucast (boot_pid (td_boot t))),
     member_number ''sequence'' (td_sequence t),
     member_text ''decision_digest'' (digest_hex (transition_compute_digest t)),
     member_value ''explanation'' (j_array (map item_object (x_items (td_explanation t))))])"

subsection \<open>Every document is JSON\<close>

definition json_text :: "string \<Rightarrow> bool" where
  "json_text s \<longleftrightarrow> (\<exists>v n. parse_json n s = Some (v, []))"

lemma json_text_render: "json_text (json_render v)"
  using parse_json_render [of v "json_fuel v" "[]"] unfolding json_text_def by auto

lemma json_text_document: "writes_value m v \<Longrightarrow> json_text (json_document m)"
  by (simp add: json_document_render json_text_render)

lemma writes_ids [json_writes]: "writes_field (member_ids_array name ids) (name, JArray (map JText ids))"
  unfolding member_ids_array_def by (intro json_writes)

lemmas document_parts = authority_members_def boundary_member_object_def item_object_def plan_item_object_def
  plan_boundary_object_def counters_object_def

lemma boundary_json: "json_text (boundary_to_json b)"
  unfolding boundary_to_json_def document_parts by (rule json_text_document) (rule json_writes | rule)+

lemma plan_json: "json_text (plan_to_json p)"
  unfolding plan_to_json_def document_parts by (rule json_text_document) (rule json_writes | rule)+

lemma transition_json: "json_text (transition_to_json t)"
  unfolding transition_to_json_def document_parts by (rule json_text_document) (rule json_writes | rule)+

end
