(* ===== verification/Runtime_Render.thy ===== *)
theory Runtime_Render
  imports Model_Render Runtime_State
begin

section \<open>JSON of the runtime's values\<close>

text \<open>The \<open>to_json\<close> functions at the end of \<open>src/runtime/coordinator.cpp\<close>.\<close>

definition startup_to_json :: "startup_report \<Rightarrow> string" where
  "startup_to_json r = json_document (j_object
    [member_bool ''fresh'' (su_fresh r),
     member_bool ''recovered'' (su_recovered r),
     member_bool ''torn_tail_recovered'' (su_torn_tail r),
     member_number ''torn_tail_bytes'' (su_torn_tail_bytes r),
     member_number ''replayed_records'' (of_nat (su_replayed_records r)),
     member_number ''skipped_records'' (of_nat (su_skipped_records r)),
     member_number ''fenced_attempts'' (of_nat (su_fenced_attempts r)),
     member_number ''fenced_authorizations'' (of_nat (su_fenced_authorizations r)),
     member_number ''restored_plans'' (of_nat (su_restored_plans r)),
     member_number ''restored_detections'' (of_nat (su_restored_detections r)),
     member_number ''epoch'' (su_epoch r),
     member_number ''boot_id'' (boot_bid (su_boot r)),
     member_number ''boot_pid'' (ucast (boot_pid (su_boot r))),
     member_number ''topology_generation'' (su_topology r),
     member_number ''policy_generation'' (su_policy r),
     member_number ''last_sequence'' (su_last_sequence r),
     member_number ''snapshot_sequence'' (su_snapshot_sequence r),
     member_number ''wal_segment'' (su_wal_segment r),
     member_value ''explanation'' (j_array (map item_object (x_items (su_explanation r))))])"

definition attempt_object :: "apply_attempt \<Rightarrow> json_writer \<Rightarrow> json_writer" where
  "attempt_object a = j_object
    [member_number ''plan_generation'' (ai_plan (at_id a)),
     member_number ''attempt_sequence'' (ai_sequence (at_id a)),
     member_text ''state'' (effect_state_to_string (at_state a)),
     member_text ''plan_digest'' (digest_hex (at_plan_digest a)),
     member_text ''boundary_digest'' (digest_hex (at_boundary_digest a)),
     member_number ''boundary_generation'' (at_boundary_generation a),
     member_number ''epoch'' (at_epoch a),
     member_number ''boot_id'' (boot_bid (at_boot a)),
     member_number ''boot_pid'' (ucast (boot_pid (at_boot a))),
     member_number ''submitted_sequence'' (at_submitted_sequence a),
     member_number ''applier_epoch'' (at_applier_epoch a),
     member_number ''applier_boot_id'' (boot_bid (at_applier_boot a)),
     member_number ''applier_boot_pid'' (ucast (boot_pid (at_applier_boot a))),
     member_text ''observed_boundary_digest'' (digest_hex (at_observed_digest a)),
     member_number ''submitted_at_millis'' (at_submitted_at a),
     member_number ''acknowledged_at_millis'' (at_acknowledged_at a),
     member_number ''verified_at_millis'' (at_verified_at a),
     member_value ''explanation'' (j_array (map item_object (x_items (at_explanation a))))]"

definition attempt_to_json :: "apply_attempt \<Rightarrow> string" where
  "attempt_to_json a = json_document (attempt_object a)"

definition authorization_to_json :: "authorization_record \<Rightarrow> string" where
  "authorization_to_json a = json_document (j_object
    [member_number ''authorization_id'' (ar_id a),
     member_number ''issued_sequence'' (ar_issued_sequence a),
     member_number ''issued_at_millis'' (ar_issued_at a),
     member_number ''expires_at_millis'' (ar_expires_at a),
     member_bool ''allows_apply'' (ar_allows_apply a),
     member_number ''epoch'' (av_epoch (ar_authority a)),
     member_number ''boot_id'' (boot_bid (av_boot (ar_authority a))),
     member_number ''boot_pid'' (ucast (boot_pid (av_boot (ar_authority a)))),
     member_number ''policy_generation'' (av_policy (ar_authority a)),
     member_number ''topology_generation'' (av_topology (ar_authority a)),
     member_number ''evidence_revision'' (av_evidence_revision (ar_authority a)),
     member_text ''evidence_digest'' (digest_hex (av_evidence_digest (ar_authority a))),
     member_text ''authority_digest'' (digest_hex (authority_digest (ar_authority a)))])"

definition stats_to_json :: "runtime_stats \<Rightarrow> string" where
  "stats_to_json x = json_document (j_object
    [member_number ''detections_accepted'' (sx_detections_accepted x),
     member_number ''detections_unchanged'' (sx_detections_unchanged x),
     member_number ''detections_rejected'' (sx_detections_rejected x),
     member_number ''plans_computed'' (sx_plans_computed x),
     member_number ''plans_rejected'' (sx_plans_rejected x),
     member_number ''transitions_accepted'' (sx_transitions_accepted x),
     member_number ''transitions_denied'' (sx_transitions_denied x),
     member_number ''apply_attempts'' (sx_apply_attempts x),
     member_number ''acknowledgements'' (sx_acknowledgements x),
     member_number ''verifications'' (sx_verifications x),
     member_number ''duplicate_completions_rejected'' (sx_duplicates_rejected x),
     member_number ''authority_rejections'' (sx_authority_rejections x),
     member_number ''durable_commits'' (sx_durable_commits x),
     member_number ''snapshot_commits'' (sx_snapshot_commits x)])"

text \<open>Each is the rendering of a value, and so JSON.\<close>

definition renders :: "string \<Rightarrow> json \<Rightarrow> bool" where
  "renders s v \<longleftrightarrow> s = json_render v"

lemma renders_json: "renders s v \<Longrightarrow> json_text s"
  by (simp add: renders_def json_text_render)

lemma renders_document: "writes_value m v \<Longrightarrow> renders (json_document m) v"
  by (simp add: renders_def json_document_render)

lemma startup_renders: "\<exists>v. renders (startup_to_json r) v"
  unfolding startup_to_json_def item_object_def
  by (rule exI, rule renders_document) (rule json_writes | rule)+

lemma attempt_renders: "\<exists>v. renders (attempt_to_json a) v"
  unfolding attempt_to_json_def attempt_object_def item_object_def
  by (rule exI, rule renders_document) (rule json_writes | rule)+

lemma authorization_renders: "\<exists>v. renders (authorization_to_json a) v"
  unfolding authorization_to_json_def
  by (rule exI, rule renders_document) (rule json_writes | rule)+

lemma stats_renders: "\<exists>v. renders (stats_to_json x) v"
  unfolding stats_to_json_def
  by (rule exI, rule renders_document) (rule json_writes | rule)+

lemma boundary_renders: "\<exists>v. renders (boundary_to_json b) v"
  unfolding boundary_to_json_def boundary_member_object_def
  by (rule exI, rule renders_document) (rule json_writes | rule)+

end
