(* ===== verification/Net_Server.thy ===== *)
theory Net_Server
  imports Net_Stream Net_Messages Runtime_Render Runtime_Executor
begin

section \<open>The coordinator service\<close>

text \<open>
  \<open>src/net/server.cpp\<close>: the dispatch of a request to the runtime, and the session that a
  connection runs: handshake, admission, and the request loop with its checks. A session is
  its socket, its stream and where it stands; one iteration of its loop is one step, in which
  the runtime operation is atomic because the runtime locks itself. The socket is the list of
  chunks its reads will return (a read after them finds the connection closed) and the bytes
  written to it; writing fails on a broken connection. The clock readings of the runtime
  operations are arguments.
\<close>

subsection \<open>Dispatch\<close>

definition kVersionString :: string where "kVersionString = ''1.0.0''"
definition kSemanticVersion :: u32 where "kSemanticVersion = 1"

definition describe_document :: "runtime_state \<Rightarrow> string" where
  "describe_document s =
     ''{'' @ [quote] @ ''version'' @ [quote] @ '':'' @ json_escape kVersionString @
     '','' @ [quote] @ ''semantic_version'' @ [quote] @ '':'' @ u64_string (ucast kSemanticVersion) @
     '','' @ [quote] @ ''startup'' @ [quote] @ '':'' @ startup_to_json (rs_startup s) @
     '','' @ [quote] @ ''authority'' @ [quote] @ '':'' @
       json_document (j_object (authority_members (current_authority s))) @
     '','' @ [quote] @ ''stats'' @ [quote] @ '':'' @ stats_to_json (rs_stats s) @ ''}''"

text \<open>The definition a client sent, as the specification the runtime builds again.\<close>

definition received_topology :: "topology \<Rightarrow> topology_spec" where
  "received_topology t =
     \<lparr>ts_generation = t_generation t, ts_nodes = t_nodes t,
      ts_edges = map (\<lambda>e. \<lparr>es_from = ns_id (t_nodes t ! te_from e), es_to = ns_id (t_nodes t ! te_to e),
                       es_evidence = te_evidence e, es_generation = te_generation e\<rparr>) (t_edges t)\<rparr>"

definition one_member_document :: "(json_writer \<Rightarrow> json_writer) \<Rightarrow> string" where
  "one_member_document m = json_document (j_object [m])"

definition detection_document :: "detection_record \<Rightarrow> string" where
  "detection_document d = json_document (j_object
     [member_text ''resource'' (dr_resource d),
      member_text ''state'' (evidence_state_to_string (dr_state d)),
      member_number ''generation'' (dr_generation d),
      member_number ''sequence'' (dr_sequence d),
      member_text ''record_digest'' (digest_hex (dr_record_digest d))])"

definition boundary_document :: "boundary \<Rightarrow> effect_state \<Rightarrow> string" where
  "boundary_document b v =
     ''{'' @ [quote] @ ''boundary'' @ [quote] @ '':'' @ boundary_to_json b @
     '','' @ [quote] @ ''effect_state'' @ [quote] @ '':'' @ json_escape (effect_state_to_string v) @ ''}''"

fun attempts_loop :: "bool \<Rightarrow> apply_attempt list \<Rightarrow> string" where
  "attempts_loop first [] = []"
| "attempts_loop first (a # as) = (if first then [] else '','') @ attempt_to_json a @ attempts_loop False as"

definition attempts_document :: "apply_attempt list \<Rightarrow> string" where
  "attempts_document as = ''['' @ attempts_loop True as @ '']''"

definition evidence_document :: "evidence_vector \<Rightarrow> string" where
  "evidence_document v = json_document (j_array (map (\<lambda>e. j_object
     [member_text ''resource'' (ee_resource e),
      member_text ''state'' (evidence_state_to_string (ee_state e)),
      member_number ''generation'' (ee_generation e),
      member_text ''source_digest'' (digest_hex (ee_digest e))]) (ev_entries v)))"

text \<open>The response before the operation, and the two ways of filling it.\<close>

definition blank_response :: "wire_operation \<Rightarrow> response_payload" where
  "blank_response op = \<lparr>rp_operation = op, rp_code = CodeInternal, rp_message = [], rp_json = [], rp_result = []\<rparr>"

definition ok_with_json :: "wire_operation \<Rightarrow> string \<Rightarrow> response_payload" where
  "ok_with_json op json = (blank_response op)\<lparr>rp_code := Ok, rp_json := json\<rparr>"

definition fail_with :: "wire_operation \<Rightarrow> status \<Rightarrow> response_payload" where
  "fail_with op e = (blank_response op)\<lparr>rp_code := scode e, rp_message := smessage e\<rparr>"

definition answered :: "wire_operation \<Rightarrow> ('a \<Rightarrow> string) \<Rightarrow> 'a result \<Rightarrow> response_payload" where
  "answered op doc r = (case r of Inl e \<Rightarrow> fail_with op e | Inr x \<Rightarrow> ok_with_json op (doc x))"

definition answered_plan :: "wire_operation \<Rightarrow> containment_plan result \<Rightarrow> response_payload" where
  "answered_plan op r = (case r of Inl e \<Rightarrow> fail_with op e
     | Inr p \<Rightarrow> (ok_with_json op (plan_to_json p))\<lparr>rp_result := plan_encode p\<rparr>)"

text \<open>Decode the arguments, or answer with the decoder's status and leave the runtime alone.\<close>

definition with_arguments :: "wire_operation \<Rightarrow> 'a result \<Rightarrow>
    ('a \<Rightarrow> (response_payload \<times> runtime_state \<times> os) option) \<Rightarrow> runtime_state \<times> os \<Rightarrow>
    (response_payload \<times> runtime_state \<times> os) option" where
  "with_arguments op decoded run w =
     (case decoded of Inl e \<Rightarrow> Some (fail_with op e, w) | Inr x \<Rightarrow> run x)"

definition run_op :: "wire_operation \<Rightarrow> ('a \<Rightarrow> string) \<Rightarrow> 'a rt \<Rightarrow> runtime_state \<times> os \<Rightarrow>
    (response_payload \<times> runtime_state \<times> os) option" where
  "run_op op doc m w = (let (r, w') = m w in Some (answered op doc r, w'))"

text \<open>\<open>None\<close> would be a planning request whose search does not end; \<open>dispatch_returns\<close> excludes it.\<close>

definition dispatch :: "wire_operation \<Rightarrow> byte list \<Rightarrow> u64 \<times> u64 \<Rightarrow> runtime_state \<times> os \<Rightarrow>
    (response_payload \<times> runtime_state \<times> os) option" where
  "dispatch op arguments clock w =
     (case op of
        OpDescribe \<Rightarrow> Some (ok_with_json op (describe_document (fst w)), w)
      | OpApplyTopology \<Rightarrow> with_arguments op (topology_decode arguments) (\<lambda>t.
          run_op op (\<lambda>g. one_member_document (member_number ''topology_generation'' g))
            (apply_topology (received_topology t)) w) w
      | OpApplyPolicy \<Rightarrow> with_arguments op (policy_decode arguments) (\<lambda>p.
          run_op op (\<lambda>g. one_member_document (member_number ''policy_generation'' g)) (apply_policy p) w) w
      | OpRecordDetection \<Rightarrow> with_arguments op (decode_detection_arguments arguments) (\<lambda>obs.
          run_op op detection_document (record_detection obs) w) w
      | OpAuthorize \<Rightarrow> run_op op authorization_to_json (authorize (fst clock)) w
      | OpPlan \<Rightarrow> with_arguments op (decode_authorization_reference arguments) (\<lambda>i.
          case rt_plan i (fst clock) w of None \<Rightarrow> None | Some (r, w') \<Rightarrow> Some (answered_plan op r, w')) w
      | OpTransition \<Rightarrow> with_arguments op (decode_transition_arguments arguments) (\<lambda>q.
          run_op op transition_to_json (transition q (fst clock)) w) w
      | OpSubmitApply \<Rightarrow> with_arguments op (decode_submit_apply_arguments arguments) (\<lambda>q.
          run_op op attempt_to_json (submit_apply q (fst clock) (snd clock)) w) w
      | OpAcknowledge \<Rightarrow> with_arguments op (decode_acknowledgement_arguments arguments) (\<lambda>k.
          run_op op attempt_to_json (acknowledge k (fst clock)) w) w
      | OpVerifyEffect \<Rightarrow> with_arguments op (decode_verification_arguments arguments) (\<lambda>v.
          run_op op attempt_to_json (verify_effect v (fst clock)) w) w
      | OpCurrentBoundary \<Rightarrow>
          Some (answered op (\<lambda>b. boundary_document b (rs_effect_state (fst w))) (current_boundary (fst w)), w)
      | OpPlanByGeneration \<Rightarrow> with_arguments op (decode_plan_generation arguments) (\<lambda>g.
          Some (answered_plan op (plan_by_generation g (fst w)), w)) w
      | OpAttempts \<Rightarrow> Some (ok_with_json op (attempts_document (rs_attempts (fst w))), w)
      | OpEvidence \<Rightarrow> Some (ok_with_json op (evidence_document (rs_evidence (fst w))), w)
      | OpCheckpoint \<Rightarrow>
          (let (r, w') = checkpoint w
           in Some (answered op (\<lambda>_. json_document (j_object
                [member_bool ''checkpointed'' True,
                 member_number ''sequence'' (av_issued_sequence (current_authority (fst w')))])) r, w'))
      | OpShutdown \<Rightarrow> Some (ok_with_json op (one_member_document (member_bool ''shutdown'' True)), w))"

end
