(* ===== verification/Net_Documents.thy ===== *)
theory Net_Documents
  imports Net_Server
begin

section \<open>The documents in responses\<close>

text \<open>
  Some documents of \<open>src/net/server.cpp\<close> are concatenated by hand around writer output. Each is
  the rendering of a JSON value nevertheless, so a response either carries no document or one
  that parses to its end.
\<close>

lemma plain_key:
  "json_escape ''version'' = [quote] @ ''version'' @ [quote]"
  "json_escape ''semantic_version'' = [quote] @ ''semantic_version'' @ [quote]"
  "json_escape ''startup'' = [quote] @ ''startup'' @ [quote]"
  "json_escape ''authority'' = [quote] @ ''authority'' @ [quote]"
  "json_escape ''stats'' = [quote] @ ''stats'' @ [quote]"
  "json_escape ''boundary'' = [quote] @ ''boundary'' @ [quote]"
  "json_escape ''effect_state'' = [quote] @ ''effect_state'' @ [quote]"
  by (simp_all add: json_escape_def escaped_char_def quote_def backslash_def)

lemma authority_renders: "\<exists>v. renders (json_document (j_object (authority_members a))) v"
  unfolding authority_members_def by (rule exI, rule renders_document) (rule json_writes | rule)+

lemma describe_renders: "\<exists>v. renders (describe_document s) v"
proof -
  obtain a b c where "renders (startup_to_json (rs_startup s)) a" "renders (stats_to_json (rs_stats s)) b"
    "renders (json_document (j_object (authority_members (current_authority s)))) c"
    using startup_renders stats_renders authority_renders by metis
  then have "renders (describe_document s)
      (JObject [(''version'', JText kVersionString), (''semantic_version'', JNumber (ucast kSemanticVersion)),
        (''startup'', a), (''authority'', c), (''stats'', b)])"
    by (simp add: renders_def describe_document_def plain_key)
  then show ?thesis by blast
qed

lemma boundary_document_renders: "\<exists>v. renders (boundary_document b e) v"
proof -
  obtain v where "renders (boundary_to_json b) v" using boundary_renders by metis
  then have "renders (boundary_document b e)
      (JObject [(''boundary'', v), (''effect_state'', JText (effect_state_to_string e))])"
    by (simp add: renders_def boundary_document_def plain_key)
  then show ?thesis by blast
qed

lemma attempts_loop_renders:
  "\<exists>vs. length vs = length as \<and>
    attempts_loop first as = (if as = [] then [] else (if first then [] else '','') @ comma_separated (map json_render vs))"
proof (induction as arbitrary: first)
  case Nil
  show ?case by simp
next
  case (Cons a as)
  obtain v where v: "attempt_to_json a = json_render v" using attempt_renders unfolding renders_def by metis
  obtain vs where vs: "length vs = length as" "attempts_loop False as = (if as = [] then [] else '','' @ comma_separated (map json_render vs))"
    using Cons.IH [of False] by auto
  show ?case
    by (rule exI [of _ "v # vs"]) (use v vs in \<open>cases vs; cases as; simp\<close>)
qed

lemma attempts_renders: "\<exists>v. renders (attempts_document as) v"
proof -
  obtain vs where "length vs = length as"
    "attempts_loop True as = (if as = [] then [] else comma_separated (map json_render vs))"
    using attempts_loop_renders [of as True] by auto
  then have "renders (attempts_document as) (JArray vs)"
    by (cases vs) (auto simp: renders_def attempts_document_def)
  then show ?thesis by blast
qed

lemma evidence_renders: "\<exists>v. renders (evidence_document v') v"
  unfolding evidence_document_def by (rule exI, rule renders_document) (rule json_writes | rule)+

lemma detection_renders: "\<exists>v. renders (detection_document d) v"
  unfolding detection_document_def by (rule exI, rule renders_document) (rule json_writes | rule)+

lemma one_member_renders: "writes_field m f \<Longrightarrow> \<exists>v. renders (one_member_document m) v"
  unfolding one_member_document_def by (intro exI, rule renders_document) (rule json_writes | assumption)+

lemma checkpoint_renders:
  "\<exists>v. renders (json_document (j_object [member_bool x b, member_number y n])) v"
  by (rule exI, rule renders_document) (rule json_writes | rule)+

text \<open>What a response carries.\<close>

definition documented :: "response_payload \<Rightarrow> bool" where
  "documented r \<longleftrightarrow> rp_json r = [] \<or> json_text (rp_json r)"

lemma documented_ok: "json_text doc \<Longrightarrow> documented (ok_with_json op doc)"
  by (simp add: documented_def ok_with_json_def)

lemma documented_fail [simp]: "documented (fail_with op e)"
  by (simp add: documented_def fail_with_def blank_response_def)

lemma documented_answered: "(\<And>x. json_text (doc x)) \<Longrightarrow> documented (answered op doc r)"
  by (cases r) (simp_all add: answered_def documented_ok)

lemma documented_plan [simp]: "documented (answered_plan op r)"
  by (cases r) (simp_all add: answered_plan_def documented_def ok_with_json_def fail_with_def blank_response_def plan_json)

lemma documents_are_json [simp]:
  "json_text (describe_document s)" "json_text (boundary_document b e)" "json_text (attempts_document as)"
  "json_text (evidence_document v)" "json_text (detection_document d)" "json_text (authorization_to_json u)"
  "json_text (attempt_to_json a)" "json_text (transition_to_json t)"
  "json_text (one_member_document (member_number name n))" "json_text (one_member_document (member_bool name f))"
  "json_text (json_document (j_object [member_bool x f, member_number y n]))"
  using describe_renders boundary_document_renders attempts_renders evidence_renders detection_renders
    authorization_renders attempt_renders transition_json one_member_renders [OF writes_members(2)]
    one_member_renders [OF writes_members(3)] checkpoint_renders
  by (metis renders_json)+

lemma run_op_documented:
  assumes "run_op op doc m w = Some (response, w')" and "\<And>x. json_text (doc x)"
  shows "documented response"
  using assms by (auto simp: run_op_def documented_answered split: prod.splits)

lemma with_arguments_documented:
  assumes "with_arguments op decoded run w = Some (response, w')"
    and "\<And>x. run x = Some (response, w') \<Longrightarrow> documented response"
  shows "documented response"
  using assms by (cases decoded) (auto simp: with_arguments_def)

lemma dispatch_documented:
  assumes "dispatch op arguments clock w = Some (response, w')"
  shows "documented response"
proof (cases op)
  case OpCheckpoint
  then show ?thesis using assms by (auto simp: dispatch_def documented_answered split: prod.splits)
next
  case OpPlan
  then show ?thesis using assms
    by (auto simp: dispatch_def split: option.splits elim!: with_arguments_documented)
qed (use assms in \<open>auto simp: dispatch_def documented_ok documented_answered
    elim!: with_arguments_documented run_op_documented\<close>)

end
