(* ===== verification/Net_Session.thy ===== *)
theory Net_Session
  imports Net_Server Runtime_Startup
begin

section \<open>Sessions\<close>

text \<open>
  \<open>run_session\<close> of \<open>src/net/server.cpp\<close> as a state machine, one iteration of its loops at a
  time, and the server around it: start, accept, the table of open sockets, shutdown. A crash
  point stops its session forever (the process waits there to be killed).
\<close>

subsection \<open>Sockets\<close>

text \<open>
  What the peer will send, in the chunks a read may return, how many more bytes it will take,
  and what it was sent. A shut down socket neither reads nor writes.
\<close>

record socket =
  so_incoming :: "byte list list"
  so_room :: nat
  so_written :: "byte list"
  so_closed :: bool

definition kReadChunkBytes :: nat where "kReadChunkBytes = 4096"

definition open_socket :: "byte list list \<Rightarrow> nat \<Rightarrow> socket" where
  "open_socket chunks room = \<lparr>so_incoming = chunks, so_room = room, so_written = [], so_closed = False\<rparr>"

text \<open>At most a buffer of bytes of the next chunk; \<open>None\<close> is an error or the end of the connection.\<close>

definition socket_read :: "socket \<Rightarrow> (byte list \<times> socket) option" where
  "socket_read k =
     (if so_closed k then None
      else case so_incoming k of
        [] \<Rightarrow> None
      | c # cs \<Rightarrow>
          if c = [] then None
          else Some (take kReadChunkBytes c,
            k\<lparr>so_incoming := (if length c \<le> kReadChunkBytes then cs else drop kReadChunkBytes c # cs)\<rparr>))"

definition write_all :: "byte list \<Rightarrow> socket \<Rightarrow> bool \<times> socket" where
  "write_all bytes k =
     (if so_closed k then (False, k)
      else if length bytes \<le> so_room k
        then (True, k\<lparr>so_room := so_room k - length bytes, so_written := so_written k @ bytes\<rparr>)
      else (False, k\<lparr>so_room := 0, so_written := so_written k @ take (so_room k) bytes\<rparr>))"

text \<open>The status of a write that failed.\<close>

definition write_refusal :: "socket \<Rightarrow> status" where
  "write_refusal k = mk_status Interrupted
     (if so_closed k then ''socket is closed'' else ''socket write failed or was released'')"

definition socket_shutdown :: "socket \<Rightarrow> socket" where
  "socket_shutdown k = k\<lparr>so_closed := True\<rparr>"

subsection \<open>The state of the service\<close>

datatype phase =
    Handshaking
  | Serving u64 sequence_no  \<comment> \<open>the session and its last sequence\<close>
  | Stalled string           \<comment> \<open>stopped at a crash point\<close>
  | Finished

record session =
  sn_socket :: socket
  sn_stream :: frame_stream
  sn_phase :: phase

record server_config =
  sc_runtime :: runtime_config
  sc_token :: string
  sc_max_sessions :: nat
  sc_crash_point :: string
  sc_crash_after :: u64

record server =
  sv_config :: server_config
  sv_world :: "runtime_state \<times> os"
  sv_shutting_down :: bool
  sv_session_counter :: u64
  sv_mutation_counter :: u64
  sv_table :: "nat list"
  sv_sessions :: "nat \<Rightarrow> session option"

definition new_session :: "socket \<Rightarrow> session" where
  "new_session k = \<lparr>sn_socket = k, sn_stream = empty_stream, sn_phase = Handshaking\<rparr>"

subsection \<open>Frames the server sends\<close>

definition refused_ack :: "string \<Rightarrow> hello_ack_payload" where
  "refused_ack reason = \<lparr>ha_session = 0, ha_epoch = 0, ha_boot = no_boot, ha_accepted = False,
     ha_reason = reason, ha_version = []\<rparr>"

definition hello_ack_frame :: "hello_ack_payload \<Rightarrow> wire_frame" where
  "hello_ack_frame ack = default_frame\<lparr>wf_type := HelloAck, wf_payload := encode_hello_ack ack\<rparr>"

definition response_frame :: "wire_frame \<Rightarrow> response_payload \<Rightarrow> wire_frame" where
  "response_frame request response =
     \<lparr>wf_type = Response, wf_session = wf_session request, wf_sequence = wf_sequence request,
      wf_epoch = wf_epoch request, wf_payload = encode_response response\<rparr>"

definition send_response :: "wire_frame \<Rightarrow> response_payload \<Rightarrow> session \<Rightarrow> session" where
  "send_response request response s =
     s\<lparr>sn_socket := snd (write_all (encode_frame (response_frame request response)) (sn_socket s))\<rparr>"

definition error_response :: "status_code \<Rightarrow> string \<Rightarrow> response_payload" where
  "error_response code message =
     (blank_response OpDescribe)\<lparr>rp_code := code, rp_message := message\<rparr>"

definition finish_session :: "session \<Rightarrow> session" where
  "finish_session s = s\<lparr>sn_socket := socket_shutdown (sn_socket s), sn_phase := Finished\<rparr>"

text \<open>Report an error for the request and leave the loop.\<close>

definition reject_request :: "wire_frame \<Rightarrow> status_code \<Rightarrow> string \<Rightarrow> session \<Rightarrow> session" where
  "reject_request request code message s =
     finish_session (send_response request (error_response code message) s)"

definition refuse_hello :: "string \<Rightarrow> session \<Rightarrow> session" where
  "refuse_hello reason s =
     finish_session (s\<lparr>sn_socket :=
       snd (write_all (encode_frame (hello_ack_frame (refused_ack reason))) (sn_socket s))\<rparr>)"

text \<open>Feed what a read returns, or leave the loop.\<close>

definition read_more :: "session \<Rightarrow> session" where
  "read_more s =
     (case socket_read (sn_socket s) of
        None \<Rightarrow> finish_session s
      | Some (bytes, k) \<Rightarrow>
          (let (fed, stream) = stream_feed bytes (sn_stream s);
               s1 = s\<lparr>sn_socket := k, sn_stream := stream\<rparr>
           in if fed then s1 else finish_session s1))"

subsection \<open>The handshake\<close>

definition accepted_ack :: "u64 \<Rightarrow> server \<Rightarrow> hello_ack_payload" where
  "accepted_ack session sv =
     \<lparr>ha_session = session, ha_epoch = av_epoch (current_authority (fst (sv_world sv))),
      ha_boot = av_boot (current_authority (fst (sv_world sv))), ha_accepted = True, ha_reason = [],
      ha_version = kVersionString\<rparr>"

text \<open>The admission check counts every open socket, also those still in their handshake.\<close>

definition admit :: "server \<Rightarrow> session \<Rightarrow> session \<times> server" where
  "admit sv s =
     (if length (sv_table sv) \<ge> sc_max_sessions (sv_config sv)
        then (refuse_hello ''session table full'' s, sv)
      else let session = sv_session_counter sv + 1;
               sv1 = sv\<lparr>sv_session_counter := session\<rparr>;
               (sent, k) = write_all (encode_frame (hello_ack_frame (accepted_ack session sv1))) (sn_socket s)
           in if \<not> sent then (finish_session (s\<lparr>sn_socket := k\<rparr>), sv1)
              else (s\<lparr>sn_socket := k, sn_phase := Serving session 0\<rparr>, sv1))"

definition handshake_iteration :: "server \<Rightarrow> session \<Rightarrow> session \<times> server" where
  "handshake_iteration sv s0 =
     (let (outcome, stream) = stream_next (sn_stream s0); s = s0\<lparr>sn_stream := stream\<rparr>
      in if wo_status outcome = WireNeedMore then (read_more s, sv)
         else if wo_status outcome \<noteq> WireComplete
           then (refuse_hello (wire_status_to_string (wo_status outcome)) s, sv)
         else if wf_type (wo_frame outcome) \<noteq> Hello then (refuse_hello ''expected hello'' s, sv)
         else case decode_hello (wf_payload (wo_frame outcome)) of
             Inl _ \<Rightarrow> (finish_session s, sv)
           | Inr hello \<Rightarrow>
               if hp_token hello \<noteq> sc_token (sv_config sv) then (refuse_hello ''unauthorized'' s, sv)
               else admit sv s)"

subsection \<open>The request loop\<close>

text \<open>The request checks before anything is decoded: \<open>None\<close> lets the request through.\<close>

definition request_refused :: "u64 \<Rightarrow> sequence_no \<Rightarrow> wire_frame \<Rightarrow> (status_code \<times> string) option" where
  "request_refused session previous f =
     (if wf_type f \<noteq> Request then Some (ProtocolViolation, ''expected a request frame'')
      else if wf_session f \<noteq> session then Some (Unauthorized, ''session identity mismatch'')
      else if \<not> previous < wf_sequence f then Some (SequenceRegression, ''request sequence did not advance'')
      else None)"

definition at_crash_point :: "server \<Rightarrow> string \<Rightarrow> bool \<Rightarrow> u64 \<Rightarrow> bool" where
  "at_crash_point sv point mutating ordinal \<longleftrightarrow>
     mutating \<and> sc_crash_point (sv_config sv) = point \<and> ordinal = sc_crash_after (sv_config sv)"

text \<open>The request is decoded: count it, run it, answer it.\<close>

definition serve_request :: "u64 \<times> u64 \<Rightarrow> wire_frame \<Rightarrow> request_payload \<Rightarrow> server \<Rightarrow> session \<Rightarrow>
    (session \<times> server) option" where
  "serve_request clock f request sv s =
     (let op = rq_operation request;
          mutating = is_mutating_operation op;
          ordinal = (if mutating then sv_mutation_counter sv + 1 else 0);
          sv1 = (if mutating then sv\<lparr>sv_mutation_counter := ordinal\<rparr> else sv)
      in if at_crash_point sv ''before_commit'' mutating ordinal
           then Some (s\<lparr>sn_phase := Stalled ''before_commit''\<rparr>, sv1)
         else case dispatch op (rq_arguments request) clock (sv_world sv1) of
             None \<Rightarrow> None
           | Some (response, w) \<Rightarrow>
               (let sv2 = sv1\<lparr>sv_world := w\<rparr>
                in if at_crash_point sv ''after_commit_before_ack'' mutating ordinal
                     then Some (s\<lparr>sn_phase := Stalled ''after_commit_before_ack''\<rparr>, sv2)
                   else let s1 = send_response f response s
                     in if at_crash_point sv ''after_ack'' mutating ordinal
                          then Some (s1\<lparr>sn_phase := Stalled ''after_ack''\<rparr>, sv2)
                        else if op = OpShutdown then Some (finish_session s1, sv2)
                        else Some (s1, sv2)))"

definition request_iteration :: "u64 \<times> u64 \<Rightarrow> u64 \<Rightarrow> sequence_no \<Rightarrow> server \<Rightarrow> session \<Rightarrow>
    (session \<times> server) option" where
  "request_iteration clock session previous sv s0 =
     (if sv_shutting_down sv then Some (finish_session s0, sv)
      else let (outcome, stream) = stream_next (sn_stream s0); s = s0\<lparr>sn_stream := stream\<rparr>; f = wo_frame outcome
        in if wo_status outcome = WireNeedMore then Some (read_more s, sv)
           else if wo_status outcome \<noteq> WireComplete
             then Some (reject_request (default_frame\<lparr>wf_session := session, wf_sequence := previous\<rparr>)
                    ProtocolViolation (wire_status_to_string (wo_status outcome)) s, sv)
           else case request_refused session previous f of
               Some (code, message) \<Rightarrow> Some (reject_request f code message s, sv)
             | None \<Rightarrow>
                 (let s1 = s\<lparr>sn_phase := Serving session (wf_sequence f)\<rparr>
                  in if wf_epoch f \<noteq> av_epoch (current_authority (fst (sv_world sv)))
                       then Some (reject_request f StaleGeneration ''request carries a stale epoch'' s1, sv)
                     else case decode_request (wf_payload f) of
                         Inl e \<Rightarrow> Some (reject_request f (scode e) (smessage e) s1, sv)
                       | Inr request \<Rightarrow> serve_request clock f request sv s1))"

text \<open>One iteration of the loop the session is in; a stalled or finished session has none.\<close>

definition session_iteration :: "u64 \<times> u64 \<Rightarrow> server \<Rightarrow> session \<Rightarrow> (session \<times> server) option" where
  "session_iteration clock sv s =
     (case sn_phase s of
        Handshaking \<Rightarrow> Some (handshake_iteration sv s)
      | Serving session previous \<Rightarrow> request_iteration clock session previous sv s
      | _ \<Rightarrow> Some (s, sv))"

definition store_session :: "nat \<Rightarrow> session \<times> server \<Rightarrow> server" where
  "store_session c r = (snd r)\<lparr>sv_sessions := (sv_sessions (snd r))(c \<mapsto> fst r)\<rparr>"

definition iterate_connection :: "u64 \<times> u64 \<Rightarrow> nat \<Rightarrow> server \<Rightarrow> server option" where
  "iterate_connection clock c sv =
     (case sv_sessions sv c of
        None \<Rightarrow> Some sv
      | Some s \<Rightarrow> map_option (store_session c) (session_iteration clock sv s))"

subsection \<open>The server\<close>

definition known_crash_point :: "string \<Rightarrow> bool" where
  "known_crash_point p \<longleftrightarrow> p = ''before_commit'' \<or> p = ''after_commit_before_ack'' \<or> p = ''after_ack''"

definition check_server_config :: "server_config \<Rightarrow> unit result" where
  "check_server_config config =
     (if sc_token config = [] then err InvalidArgument ''server requires a session token''
      else if sc_max_sessions config = 0 \<or> sc_max_sessions config > kMaxSessions
        then err InvalidArgument ''session bound out of range''
      else if sc_crash_point config \<noteq> [] \<and> \<not> known_crash_point (sc_crash_point config)
        then err InvalidArgument ''unrecognised crash point''
      else if sc_crash_point config \<noteq> [] \<and> sc_crash_after config = 0
        then err InvalidArgument ''crash point requires a positive ordinal''
      else Inr ())"

text \<open>The socket layer and the listener succeed or report a status.\<close>

definition server_start :: "server_config \<Rightarrow> unit result \<Rightarrow> unit result \<Rightarrow> boot_id \<Rightarrow> os \<Rightarrow>
    server result \<times> os" where
  "server_start config socket_layer listener boot sys =
     (case try_result (check_server_config config) (\<lambda>_. socket_layer) of
        Inl e \<Rightarrow> (Inl e, sys)
      | Inr _ \<Rightarrow>
          (case runtime_open (sc_runtime config) True boot sys of
             (Inl e, sys') \<Rightarrow> (Inl e, sys')
           | (Inr s, sys') \<Rightarrow>
               (case listener of
                  Inl e \<Rightarrow> (Inl e, sys')
                | Inr _ \<Rightarrow>
                    (Inr \<lparr>sv_config = config, sv_world = (s, sys'), sv_shutting_down = False,
                       sv_session_counter = 0, sv_mutation_counter = 0, sv_table = [],
                       sv_sessions = Map.empty\<rparr>, sys'))))"

text \<open>One round of the accept loop: the socket enters the table before its session starts.\<close>

definition accept_connection :: "nat \<Rightarrow> socket \<Rightarrow> server \<Rightarrow> server" where
  "accept_connection c k sv =
     sv\<lparr>sv_table := sv_table sv @ [c], sv_sessions := (sv_sessions sv)(c \<mapsto> new_session k)\<rparr>"

text \<open>The end of a session thread removes its socket from the table.\<close>

definition leave_table :: "nat \<Rightarrow> server \<Rightarrow> server" where
  "leave_table c sv = sv\<lparr>sv_table := remove1 c (sv_table sv)\<rparr>"

definition close_connection :: "session \<Rightarrow> session" where
  "close_connection s = s\<lparr>sn_socket := socket_shutdown (sn_socket s)\<rparr>"

definition request_shutdown :: "server \<Rightarrow> server" where
  "request_shutdown sv = sv
     \<lparr>sv_shutting_down := True,
      sv_sessions := (\<lambda>c. if c \<in> set (sv_table sv) then map_option close_connection (sv_sessions sv c)
                          else sv_sessions sv c),
      sv_table := []\<rparr>"

end
