(* ===== verification/Net_Client.thy ===== *)
theory Net_Client
  imports Net_Session
begin

section \<open>The client\<close>

text \<open>
  \<open>src/net/client.cpp\<close>: the handshake, and the call that stamps a request with the next
  sequence and waits for the response that matches it. Connecting is the socket layer's answer.
  The end of the theory composes the client with a session of the server.
\<close>

subsection \<open>State\<close>

record client_config =
  cc_port :: u16
  cc_token :: string
  cc_label :: string

record client =
  cl_socket :: socket
  cl_stream :: frame_stream
  cl_handshake :: hello_ack_payload
  cl_sequence :: sequence_no

subsection \<open>Waiting for a frame\<close>

lemma socket_read_shrinks:
  "socket_read k = Some (bytes, k') \<Longrightarrow> length (concat (so_incoming k')) < length (concat (so_incoming k))"
  by (auto simp: socket_read_def kReadChunkBytes_def split: if_splits list.splits)

text \<open>
  The loop of \<open>connect\<close> and \<open>call\<close>: the frame, or the status of a closed connection, a full
  buffer or a damaged stream; the two messages are the only difference between the loops.
\<close>

function await_frame :: "string \<Rightarrow> string \<Rightarrow> socket \<Rightarrow> frame_stream \<Rightarrow>
    wire_frame result \<times> socket \<times> frame_stream" where
  "await_frame closed full k s =
     (let (outcome, s1) = stream_next s
      in if wo_status outcome = WireNeedMore
         then case socket_read k of
             None \<Rightarrow> (err IoError closed, k, s1)
           | Some (bytes, k1) \<Rightarrow>
               (let (fed, s2) = stream_feed bytes s1
                in if fed then await_frame closed full k1 s2
                   else (err ProtocolViolation full, k1, s2))
         else if wo_status outcome \<noteq> WireComplete
           then (err ProtocolViolation (wire_status_to_string (wo_status outcome)), k, s1)
         else (Inr (wo_frame outcome), k, s1))"
  by pat_completeness auto

termination await_frame
  by (relation "measure (\<lambda>(_, _, k, _). length (concat (so_incoming k)))")
    (auto dest: socket_read_shrinks simp del: length_concat)

declare await_frame.simps [simp del]

subsection \<open>The handshake\<close>

definition client_hello_frame :: "client_config \<Rightarrow> wire_frame" where
  "client_hello_frame config = default_frame\<lparr>wf_type := Hello,
     wf_payload := encode_hello \<lparr>hp_token = cc_token config, hp_label = cc_label config, hp_requested_epoch = 0\<rparr>\<rparr>"

text \<open>What the client makes of the answer to its hello.\<close>

definition accept_ack :: "wire_frame \<Rightarrow> hello_ack_payload result" where
  "accept_ack f =
     (if wf_type f \<noteq> HelloAck then err ProtocolViolation ''coordinator did not answer the handshake''
      else case decode_hello_ack (wf_payload f) of
          Inl e \<Rightarrow> Inl e
        | Inr ack \<Rightarrow> if \<not> ha_accepted ack then err Unauthorized (ha_reason ack) else Inr ack)"

text \<open>On every failure the destructor shuts the socket down; the socket is what the peer sees.\<close>

definition client_connect :: "client_config \<Rightarrow> socket result \<Rightarrow> client result \<times> socket option" where
  "client_connect config link =
     (if cc_port config = 0 then (err InvalidArgument ''client requires a port'', None)
      else if cc_token config = [] then (err InvalidArgument ''client requires a session token'', None)
      else case link of
          Inl e \<Rightarrow> (Inl e, None)
        | Inr k \<Rightarrow>
            (let (sent, k1) = write_all (encode_frame (client_hello_frame config)) k
             in if \<not> sent then (Inl (write_refusal k), Some (socket_shutdown k1))
                else let (r, k2, s) = await_frame ''coordinator closed the connection during handshake''
                            ''handshake exceeded the frame bound'' k1 empty_stream
                  in case try_result r accept_ack of
                      Inl e \<Rightarrow> (Inl e, Some (socket_shutdown k2))
                    | Inr ack \<Rightarrow>
                        (Inr \<lparr>cl_socket = k2, cl_stream = s, cl_handshake = ack, cl_sequence = 0\<rparr>, Some k2)))"

subsection \<open>Calls\<close>

definition client_request_frame :: "wire_operation \<Rightarrow> byte list \<Rightarrow> client \<Rightarrow> wire_frame" where
  "client_request_frame op arguments c =
     \<lparr>wf_type = Request, wf_session = ha_session (cl_handshake c), wf_sequence = cl_sequence c + 1,
      wf_epoch = ha_epoch (cl_handshake c),
      wf_payload = encode_request \<lparr>rq_operation = op, rq_arguments = arguments\<rparr>\<rparr>"

definition accept_response :: "client \<Rightarrow> wire_frame \<Rightarrow> response_payload result" where
  "accept_response c f =
     (if wf_type f \<noteq> Response then err ProtocolViolation ''coordinator sent an unexpected message type''
      else if wf_session f \<noteq> ha_session (cl_handshake c)
        then err Unauthorized ''response belongs to another session''
      else if wf_sequence f \<noteq> cl_sequence c
        then err SequenceRegression ''response sequence does not match the request''
      else decode_response (wf_payload f))"

definition client_call :: "wire_operation \<Rightarrow> byte list \<Rightarrow> client \<Rightarrow> response_payload result \<times> client" where
  "client_call op arguments c0 =
     (let c = c0\<lparr>cl_sequence := cl_sequence c0 + 1\<rparr>;
          (sent, k) = write_all (encode_frame (client_request_frame op arguments c0)) (cl_socket c)
      in if \<not> sent then (Inl (write_refusal (cl_socket c)), c\<lparr>cl_socket := k\<rparr>)
         else let (r, k1, s) = await_frame ''coordinator closed the connection''
                    ''response exceeded the frame bound'' k (cl_stream c)
           in (try_result r (accept_response c), c\<lparr>cl_socket := k1, cl_stream := s\<rparr>))"

definition client_close :: "client \<Rightarrow> client" where
  "client_close c = c\<lparr>cl_socket := socket_shutdown (cl_socket c)\<rparr>"

subsection \<open>A frame arrives\<close>

text \<open>What a connection delivers: no empty chunk, none larger than a read buffer.\<close>

definition readable :: "byte list list \<Rightarrow> bool" where
  "readable chunks \<longleftrightarrow> (\<forall>c \<in> set chunks. c \<noteq> [] \<and> length c \<le> kReadChunkBytes)"

lemma readable_Cons [simp]: "readable (c # cs) \<longleftrightarrow> c \<noteq> [] \<and> length c \<le> kReadChunkBytes \<and> readable cs"
  by (auto simp: readable_def)

lemma readable_Nil [simp]: "readable []"
  by (simp add: readable_def)

lemma next_waits:
  assumes "healthy s" and "partial_frame n (pending s)"
  shows "stream_next s = (wire_refused WireNeedMore [], s)"
  using assms decode_partial [OF assms(2)]
  by (simp add: stream_next_def healthy_def pending_def wire_refused_def)

lemma socket_read_chunk:
  assumes "\<not> so_closed k" and "so_incoming k = c # cs" and "c \<noteq> []" and "length c \<le> kReadChunkBytes"
  shows "socket_read k = Some (c, k\<lparr>so_incoming := cs\<rparr>)"
  using assms by (simp add: socket_read_def)

text \<open>What is pending before the last chunk of a frame is a strict prefix of it.\<close>

lemma pending_partial:
  assumes "fits_chunks kReadChunkBytes f" and "p @ concat (c # cs) = encode_frame f" and "c \<noteq> []"
  shows "partial_frame kReadChunkBytes p" and "length p + length c \<le> kMaxBufferedBytes"
proof -
  have e: "p @ c @ concat cs = encode_frame f" using assms(2) by simp
  then have p: "p = take (length p) (encode_frame f)" by (metis append_eq_conv_conj)
  have l: "length (encode_frame f) = length p + length c + length (concat cs)"
    using arg_cong [OF e, of length] by simp
  then have "length p < length (encode_frame f)" using assms(3) by (cases c) auto
  then show "partial_frame kReadChunkBytes p" using p assms(1) unfolding partial_frame_def by blast
  have "length (encode_frame f) \<le> kMaxBufferedBytes"
    using assms(1) by (simp add: fits_chunks_def kMaxBufferedBytes_def kWireHeaderBytes_def)
  then show "length p + length c \<le> kMaxBufferedBytes" using l by linarith
qed

text \<open>A stream with a whole frame and nothing else.\<close>

definition drained :: "frame_stream \<Rightarrow> bool" where
  "drained s \<longleftrightarrow> healthy s \<and> pending s = []"

lemma await_delivers:
  assumes "healthy s" and "fits_chunks kReadChunkBytes f" and "readable (so_incoming k)" and "\<not> so_closed k"
    and "pending s @ concat (so_incoming k) = encode_frame f"
  shows "\<exists>s'. await_frame closed full k s = (Inr f, k\<lparr>so_incoming := []\<rparr>, s') \<and> drained s'"
  using assms
proof (induction "so_incoming k" arbitrary: k s)
  case Nil
  have p: "pending s = encode_frame f @ []" using Nil by simp
  obtain o' s' where n: "stream_next s = (o', s')" by fastforce
  note d = next_frame_delivered [OF Nil.prems(1,2) p, unfolded n fst_conv snd_conv]
  have k: "k\<lparr>so_incoming := []\<rparr> = k" using Nil.hyps by (cases k) simp
  show ?case using d unfolding k by (subst await_frame.simps) (simp add: n drained_def)
next
  case (Cons c cs)
  note inc = Cons.hyps(2) [symmetric]
  have c: "c \<noteq> []" "length c \<le> kReadChunkBytes" "readable cs" using Cons.prems(3) by (simp_all add: inc)
  note part = pending_partial [OF Cons.prems(2) Cons.prems(5) [unfolded inc] c(1)]
  note waits = next_waits [OF Cons.prems(1) part(1)]
  obtain s1 where s1: "stream_feed c s = (True, s1)" "healthy s1" "pending s1 = pending s @ c"
    using feed_accepts [OF Cons.prems(1) part(2)] by blast
  note read = socket_read_chunk [OF Cons.prems(4) inc c(1,2)]
  obtain s' where "await_frame closed full (k\<lparr>so_incoming := cs\<rparr>) s1 = (Inr f, k\<lparr>so_incoming := []\<rparr>, s')" "drained s'"
    using Cons.hyps(1) [of "k\<lparr>so_incoming := cs\<rparr>" s1] s1 c Cons.prems inc by auto
  then show ?case using waits read s1(1) by (subst await_frame.simps) (simp add: wire_refused_def)
qed

end
