(* ===== verification/Net_Service.thy ===== *)
theory Net_Service
  imports Net_Session Runtime_Safety
begin

section \<open>What the service does to the runtime\<close>

text \<open>
  The server as a step relation: connections arrive, sessions iterate in any order, finished
  sessions leave, and shutdown comes at any time. Its runtime only makes steps of the runtime,
  so every property of a reachable runtime holds behind the wire; and it makes one only for a
  request that passed the checks of an established session.
\<close>

subsection \<open>Dispatch\<close>

lemma run_op_step:
  assumes "run_op op doc m w = Some (response, w')" and "\<And>r w'. m w = (r, w') \<Longrightarrow> rt_step w w'"
  shows "rt_step w w'"
  using assms by (simp add: run_op_def split: prod.splits)

lemma with_arguments_cases:
  assumes "with_arguments op decoded run w = Some (response, w')"
    and "\<And>x. decoded = Inr x \<Longrightarrow> run x = Some (response, w') \<Longrightarrow> P"
    and "w' = w \<Longrightarrow> P"
  shows P
  using assms by (cases decoded) (simp_all add: with_arguments_def)

text \<open>The operations that ask the runtime to do something.\<close>

lemma dispatch_arguments_step:
  assumes "with_arguments op decoded (\<lambda>x. run_op op doc (m x) w) w = Some (response, w')"
    and "\<And>x r w'. m x w = (r, w') \<Longrightarrow> rt_step w w'"
  shows "w' = w \<or> rt_step w w'"
  using assms(1)
proof (rule with_arguments_cases)
  fix x
  assume "run_op op doc (m x) w = Some (response, w')"
  then show ?thesis using run_op_step assms(2) by blast
qed simp

lemma dispatch_unchanged:
  assumes "dispatch op arguments clock w = Some (response, w')" and "\<not> is_mutating_operation op \<or> op = OpShutdown"
  shows "w' = w"
  using assms
  by (cases op) (auto simp: dispatch_def is_mutating_operation_def kOperationTokens_def elim!: with_arguments_cases)

lemma dispatch_step:
  assumes "dispatch op arguments clock w = Some (response, w')"
  shows "w' = w \<or> rt_step w w'"
proof (cases op)
  case OpApplyTopology
  show ?thesis
    using assms unfolding dispatch_def OpApplyTopology wire_operation.case
    by (rule dispatch_arguments_step) (rule step_topology)
next
  case OpApplyPolicy
  show ?thesis
    using assms unfolding dispatch_def OpApplyPolicy wire_operation.case
    by (rule dispatch_arguments_step) (rule step_policy)
next
  case OpRecordDetection
  show ?thesis
    using assms unfolding dispatch_def OpRecordDetection wire_operation.case
    by (rule dispatch_arguments_step) (rule step_detection)
next
  case OpAuthorize
  show ?thesis
    using assms unfolding dispatch_def OpAuthorize wire_operation.case
    by (intro disjI2) (rule run_op_step, assumption, rule step_authorize)
next
  case OpPlan
  with assms have "with_arguments OpPlan (decode_authorization_reference arguments) (\<lambda>i.
      case rt_plan i (fst clock) w of None \<Rightarrow> None | Some (r, w') \<Rightarrow> Some (answered_plan OpPlan r, w')) w
    = Some (response, w')"
    by (simp add: dispatch_def)
  then show ?thesis
    by (rule with_arguments_cases) (auto intro: step_plan split: option.splits)
next
  case OpTransition
  show ?thesis
    using assms unfolding dispatch_def OpTransition wire_operation.case
    by (rule dispatch_arguments_step) (rule step_transition)
next
  case OpSubmitApply
  show ?thesis
    using assms unfolding dispatch_def OpSubmitApply wire_operation.case
    by (rule dispatch_arguments_step) (rule step_submit)
next
  case OpAcknowledge
  show ?thesis
    using assms unfolding dispatch_def OpAcknowledge wire_operation.case
    by (rule dispatch_arguments_step) (rule step_acknowledge)
next
  case OpVerifyEffect
  show ?thesis
    using assms unfolding dispatch_def OpVerifyEffect wire_operation.case
    by (rule dispatch_arguments_step) (rule step_verify)
next
  case OpCheckpoint
  obtain r w1 where c: "checkpoint w = (r, w1)" by (cases "checkpoint w")
  then have "w' = w1" using assms OpCheckpoint by (simp add: dispatch_def)
  then show ?thesis using step_checkpoint c by simp
qed (use dispatch_unchanged [OF assms] in \<open>auto simp: is_mutating_operation_def kOperationTokens_def\<close>)

lemma dispatch_returns:
  assumes "rt_reachable config w"
  shows "\<exists>y. dispatch op arguments clock w = Some y"
proof -
  have plan: "\<exists>y. rt_plan i now w = Some y" for i now
    using rt_plan_total [of "fst w" i now "snd w"] runtime.reachable_inv [OF assms] by (simp add: rt_inv_def)
  have run: "\<exists>y. run_op op doc m w = Some y" for op doc and m :: "'x rt"
    by (simp add: run_op_def case_prod_beta' Let_def del: split_paired_Ex)
  have args: "\<exists>y. with_arguments op d k w = Some y" if "\<And>x. \<exists>y. k x = Some y" for op and d :: "'y result" and k
    using that by (cases d) (simp_all add: with_arguments_def)
  have planned: "\<exists>y. (case rt_plan i now w of None \<Rightarrow> None
      | Some (r, w') \<Rightarrow> Some (answered_plan op r, w')) = Some y" for op i now
    using plan [of i now] by (auto simp: case_prod_beta')
  show ?thesis
    by (cases op) (simp_all add: dispatch_def args run planned Let_def case_prod_beta' del: split_paired_Ex)
qed

subsection \<open>One iteration\<close>

text \<open>The frame the session takes from its stream next, and what the checks establish.\<close>

definition next_frame_of :: "session \<Rightarrow> wire_frame option" where
  "next_frame_of s =
     (let (outcome, _) = stream_next (sn_stream s)
      in if wo_status outcome = WireComplete then Some (wo_frame outcome) else None)"

definition presents_token :: "server \<Rightarrow> session \<Rightarrow> bool" where
  "presents_token sv s \<longleftrightarrow> (\<exists>f hello. next_frame_of s = Some f \<and> wf_type f = Hello \<and>
     decode_hello (wf_payload f) = Inr hello \<and> hp_token hello = sc_token (sv_config sv))"

definition valid_request :: "server \<Rightarrow> session \<Rightarrow> u64 \<Rightarrow> sequence_no \<Rightarrow> wire_frame \<Rightarrow> request_payload \<Rightarrow> bool" where
  "valid_request sv s session previous f request \<longleftrightarrow>
     \<not> sv_shutting_down sv \<and> next_frame_of s = Some f \<and> wf_type f = Request \<and> wf_session f = session \<and>
     previous < wf_sequence f \<and> wf_epoch f = rs_epoch (fst (sv_world sv)) \<and>
     decode_request (wf_payload f) = Inr request"

lemma finished_phase [simp]: "sn_phase (finish_session s) = Finished"
  by (simp add: finish_session_def)

lemma refuse_hello_phase [simp]: "sn_phase (refuse_hello reason s) = Finished"
  by (simp add: refuse_hello_def)

lemma reject_request_phase [simp]: "sn_phase (reject_request f code message s) = Finished"
  by (simp add: reject_request_def)

lemma send_response_phase [simp]: "sn_phase (send_response f r s) = sn_phase s"
  by (simp add: send_response_def)

lemma read_more_phase: "sn_phase (read_more s) = sn_phase s \<or> sn_phase (read_more s) = Finished"
  by (auto simp: read_more_def Let_def case_prod_beta' split: option.split)

lemma admit_cases:
  assumes "admit sv s = (s', sv')"
  obtains "sv' = sv" "sn_phase s' = Finished"
    | "sv' = sv\<lparr>sv_session_counter := sv_session_counter sv + 1\<rparr>" "length (sv_table sv) < sc_max_sessions (sv_config sv)"
      "sn_phase s' \<in> {Finished, Serving (sv_session_counter sv + 1) 0}"
  using assms by (auto simp: admit_def Let_def case_prod_beta' not_le split: if_splits)

lemma handshake_cases:
  assumes "handshake_iteration sv s = (s', sv')" and "sn_phase s = Handshaking"
  obtains "sv' = sv" "sn_phase s' \<in> {Handshaking, Finished}"
    | "sv' = sv\<lparr>sv_session_counter := sv_session_counter sv + 1\<rparr>" "presents_token sv s"
      "length (sv_table sv) < sc_max_sessions (sv_config sv)"
      "sn_phase s' \<in> {Finished, Serving (sv_session_counter sv + 1) 0}"
proof -
  obtain outcome stream where n: "stream_next (sn_stream s) = (outcome, stream)" by fastforce
  let ?s = "s\<lparr>sn_stream := stream\<rparr>"
  show thesis
  proof (cases "wo_status outcome = WireComplete \<and> wf_type (wo_frame outcome) = Hello")
    case False
    then have "sv' = sv" "s' = read_more ?s \<or> sn_phase s' = Finished"
      using assms(1) n by (auto simp: handshake_iteration_def Let_def split: if_splits)
    moreover have "sn_phase (read_more ?s) \<in> {Handshaking, Finished}"
      using read_more_phase [of ?s] assms(2) by auto
    ultimately show thesis using that(1) by auto
  next
    case True
    show thesis
    proof (cases "decode_hello (wf_payload (wo_frame outcome))")
      case (Inl e)
      then show thesis using assms(1) n True that(1) by (auto simp: handshake_iteration_def Let_def)
    next
      case (Inr hello)
      show thesis
      proof (cases "hp_token hello = sc_token (sv_config sv)")
        case False
        then show thesis using assms(1) n True Inr that(1) by (auto simp: handshake_iteration_def Let_def)
      next
        case token: True
        have token': "presents_token sv s"
          using n True Inr token by (auto simp: presents_token_def next_frame_of_def)
        have "admit sv ?s = (s', sv')"
          using assms(1) n True Inr token by (simp add: handshake_iteration_def)
        then show thesis
          by (rule admit_cases) (use that token' in auto)
      qed
    qed
  qed
qed

lemma request_cases:
  assumes "request_iteration clock session previous sv s = Some (s', sv')" and "sn_phase s = Serving session previous"
  obtains "sv' = sv" "sn_phase s' \<in> {Serving session previous, Finished}"
    | f request s1 where "valid_request sv s session previous f request"
      "serve_request clock f request sv s1 = Some (s', sv')"
      "s1 = s\<lparr>sn_stream := snd (stream_next (sn_stream s)), sn_phase := Serving session (wf_sequence f)\<rparr>"
proof -
  obtain outcome stream where n: "stream_next (sn_stream s) = (outcome, stream)" by fastforce
  let ?s = "s\<lparr>sn_stream := stream\<rparr>" let ?f = "wo_frame outcome"
  let ?s1 = "?s\<lparr>sn_phase := Serving session (wf_sequence ?f)\<rparr>"
  have more: "sn_phase (read_more ?s) \<in> {Serving session previous, Finished}"
    using read_more_phase [of ?s] assms(2) by auto
  show thesis
  proof (cases "\<not> sv_shutting_down sv \<and> wo_status outcome = WireComplete \<and> request_refused session previous ?f = None")
    case False
    then have "sv' = sv" "s' = read_more ?s \<or> sn_phase s' = Finished"
      using assms(1) n by (auto simp: request_iteration_def Let_def split: if_splits option.splits)
    then show thesis using that(1) more by auto
  next
    case True
    then have pass: "wf_type ?f = Request" "wf_session ?f = session" "previous < wf_sequence ?f"
      by (auto simp: request_refused_def split: if_splits)
    have rest: "(if wf_epoch ?f \<noteq> av_epoch (current_authority (fst (sv_world sv)))
         then Some (reject_request ?f StaleGeneration ''request carries a stale epoch'' ?s1, sv)
       else case decode_request (wf_payload ?f) of
           Inl e \<Rightarrow> Some (reject_request ?f (scode e) (smessage e) ?s1, sv)
         | Inr request \<Rightarrow> serve_request clock ?f request sv ?s1) = Some (s', sv')"
      using assms(1) n True by (simp add: request_iteration_def Let_def)
    show thesis
    proof (cases "wf_epoch ?f = av_epoch (current_authority (fst (sv_world sv)))")
      case False
      then show thesis using rest that(1) by auto
    next
      case epoch: True
      show thesis
      proof (cases "decode_request (wf_payload ?f)")
        case (Inl e)
        then show thesis using rest epoch that(1) by auto
      next
        case (Inr request)
        have "valid_request sv s session previous ?f request"
          using True pass epoch Inr n by (simp add: valid_request_def next_frame_of_def current_authority_def)
        moreover have "serve_request clock ?f request sv ?s1 = Some (s', sv')" using rest epoch Inr by simp
        ultimately show thesis using that(2) n by simp
      qed
    qed
  qed
qed

text \<open>
  A request that passed the checks either stops at the first crash point or is dispatched; then
  the world is what the dispatch left, and unless a crash point comes in between, the response
  is written to the socket.
\<close>

lemma serve_request_cases:
  assumes "serve_request clock f request sv s = Some (s', sv')"
  obtains n where "sv' = sv\<lparr>sv_mutation_counter := n\<rparr>" "sn_phase s' = Stalled ''before_commit''"
    | n response w where "dispatch (rq_operation request) (rq_arguments request) clock (sv_world sv) = Some (response, w)"
      "sv' = sv\<lparr>sv_mutation_counter := n, sv_world := w\<rparr>"
      "s' = s\<lparr>sn_phase := Stalled ''after_commit_before_ack''\<rparr> \<or>
       (\<exists>s1. s1 = send_response f response s \<and>
         (s' = s1 \<or> s' = s1\<lparr>sn_phase := Stalled ''after_ack''\<rparr> \<or> s' = finish_session s1))"
proof -
  let ?op = "rq_operation request" let ?m = "is_mutating_operation ?op"
  let ?n = "if ?m then sv_mutation_counter sv + 1 else 0"
  let ?sv1 = "if ?m then sv\<lparr>sv_mutation_counter := ?n\<rparr> else sv"
  have sv1: "?sv1 = sv\<lparr>sv_mutation_counter := (if ?m then ?n else sv_mutation_counter sv)\<rparr>" by simp
  have w1: "sv_world ?sv1 = sv_world sv" by simp
  show thesis
  proof (cases "at_crash_point sv ''before_commit'' ?m ?n")
    case True
    then have "s' = s\<lparr>sn_phase := Stalled ''before_commit''\<rparr>" "sv' = ?sv1"
      using assms by (simp_all add: serve_request_def Let_def)
    then show thesis using that(1) sv1 by simp
  next
    case before: False
    show thesis
    proof (cases "dispatch ?op (rq_arguments request) clock (sv_world sv)")
      case None
      then show thesis using assms before w1 by (simp add: serve_request_def Let_def)
    next
      case (Some y)
      obtain response w where y: "y = (response, w)" by (cases y) auto
      let ?sv2 = "?sv1\<lparr>sv_world := w\<rparr>" let ?s1 = "send_response f response s"
      have "Some (s', sv') =
          (if at_crash_point sv ''after_commit_before_ack'' ?m ?n
             then Some (s\<lparr>sn_phase := Stalled ''after_commit_before_ack''\<rparr>, ?sv2)
           else if at_crash_point sv ''after_ack'' ?m ?n then Some (?s1\<lparr>sn_phase := Stalled ''after_ack''\<rparr>, ?sv2)
           else if ?op = OpShutdown then Some (finish_session ?s1, ?sv2) else Some (?s1, ?sv2))"
        using assms before Some y unfolding serve_request_def Let_def by (simp only: w1 if_False option.case prod.case)
      then have sv2: "sv' = ?sv2" and s2: "s' = s\<lparr>sn_phase := Stalled ''after_commit_before_ack''\<rparr> \<or>
         s' = ?s1 \<or> s' = ?s1\<lparr>sn_phase := Stalled ''after_ack''\<rparr> \<or> s' = finish_session ?s1"
        by (simp_all split: if_splits)
      have "sv' = sv\<lparr>sv_mutation_counter := (if ?m then ?n else sv_mutation_counter sv), sv_world := w\<rparr>"
        using sv2 by (simp split: if_splits)
      moreover have "dispatch ?op (rq_arguments request) clock (sv_world sv) = Some (response, w)"
        using Some y by simp
      ultimately show thesis using that(2) s2 by blast
    qed
  qed
qed

subsection \<open>Runs of the server\<close>

inductive server_step :: "server \<Rightarrow> server \<Rightarrow> bool" where
  accepted: "\<not> sv_shutting_down sv \<Longrightarrow> sv_sessions sv c = None \<Longrightarrow>
    server_step sv (accept_connection c (open_socket chunks room) sv)"
| iterated: "iterate_connection clock c sv = Some sv' \<Longrightarrow> server_step sv sv'"
| departed: "sv_sessions sv c = Some s \<Longrightarrow> sn_phase s = Finished \<Longrightarrow> server_step sv (leave_table c sv)"
| shut_down: "server_step sv (request_shutdown sv)"

inductive_cases server_stepE: "server_step sv sv'"

text \<open>A run of \<open>n\<close> steps of a server that started.\<close>

inductive server_run :: "server_config \<Rightarrow> nat \<Rightarrow> server \<Rightarrow> bool" for config where
  started: "server_start config socket_layer listener boot sys = (Inr sv, sys') \<Longrightarrow> server_run config 0 sv"
| stepped: "server_run config n sv \<Longrightarrow> server_step sv sv' \<Longrightarrow> server_run config (Suc n) sv'"

lemma server_start_cases:
  assumes "server_start config socket_layer listener boot sys = (Inr sv, sys')"
  obtains s where "runtime_open (sc_runtime config) True boot sys = (Inr s, sys')"
    "sv = \<lparr>sv_config = config, sv_world = (s, sys'), sv_shutting_down = False, sv_session_counter = 0,
       sv_mutation_counter = 0, sv_table = [], sv_sessions = Map.empty\<rparr>"
    "sc_token config \<noteq> []" "0 < sc_max_sessions config" "sc_max_sessions config \<le> kMaxSessions"
  using assms
  by (auto simp: server_start_def check_server_config_def err_def split: sum.splits prod.splits if_splits)

text \<open>What an iteration leaves of the server, by where its session was.\<close>

lemma iterate_cases:
  assumes "iterate_connection clock c sv = Some sv'"
  obtains "sv' = sv"
    | s s' sv1 where "sv_sessions sv c = Some s" "sv' = sv1\<lparr>sv_sessions := (sv_sessions sv1)(c \<mapsto> s')\<rparr>"
      "sn_phase s = Handshaking" "handshake_iteration sv s = (s', sv1)"
    | s s' sv1 session previous where "sv_sessions sv c = Some s"
      "sv' = sv1\<lparr>sv_sessions := (sv_sessions sv1)(c \<mapsto> s')\<rparr>" "sn_phase s = Serving session previous"
      "request_iteration clock session previous sv s = Some (s', sv1)"
proof (cases "sv_sessions sv c")
  case None
  then show thesis using assms that(1) by (simp add: iterate_connection_def)
next
  case (Some s)
  then obtain s' sv1 where it: "session_iteration clock sv s = Some (s', sv1)"
    and sv': "sv' = sv1\<lparr>sv_sessions := (sv_sessions sv1)(c \<mapsto> s')\<rparr>"
    using assms by (auto simp: iterate_connection_def store_session_def)
  have same: "sv' = sv" if "s' = s" "sv1 = sv"
    using sv' Some that by (simp add: fun_upd_idem)
  show thesis
    using it that Some sv' same by (cases "sn_phase s") (auto simp: session_iteration_def)
qed

text \<open>The fields an iteration never touches, and the world of a request.\<close>

lemma handshake_keeps:
  assumes "handshake_iteration sv s = (s', sv')" and "sn_phase s = Handshaking"
  shows "sv_world sv' = sv_world sv" "sv_config sv' = sv_config sv" "sv_table sv' = sv_table sv"
    "sv_sessions sv' = sv_sessions sv" "sv_shutting_down sv' = sv_shutting_down sv"
  using assms by (auto elim!: handshake_cases)

lemma serve_keeps:
  assumes "serve_request clock f request sv s = Some (s', sv')"
  shows "sv_config sv' = sv_config sv" "sv_table sv' = sv_table sv" "sv_sessions sv' = sv_sessions sv"
    "sv_shutting_down sv' = sv_shutting_down sv" "sv_session_counter sv' = sv_session_counter sv"
    "sv_world sv' = sv_world sv \<or> (\<exists>response. dispatch (rq_operation request) (rq_arguments request) clock
       (sv_world sv) = Some (response, sv_world sv'))"
    "sn_phase s' \<in> {sn_phase s, Finished} \<union> range Stalled"
  using assms by (auto elim!: serve_request_cases)

lemma request_keeps:
  assumes "request_iteration clock session previous sv s = Some (s', sv')" and "sn_phase s = Serving session previous"
  shows "sv_config sv' = sv_config sv" "sv_table sv' = sv_table sv" "sv_sessions sv' = sv_sessions sv"
    "sv_shutting_down sv' = sv_shutting_down sv" "sv_session_counter sv' = sv_session_counter sv"
  using assms by (auto elim!: request_cases dest: serve_keeps)

lemma request_world:
  assumes "request_iteration clock session previous sv s = Some (s', sv')" and "sn_phase s = Serving session previous"
    and "sv_world sv' \<noteq> sv_world sv"
  obtains f request response where "valid_request sv s session previous f request"
    "dispatch (rq_operation request) (rq_arguments request) clock (sv_world sv) = Some (response, sv_world sv')"
    "sn_phase s' \<in> {Serving session (wf_sequence f), Finished} \<union> range Stalled"
  using assms(1,2)
proof (rule request_cases)
  assume "sv' = sv"
  then show thesis using assms(3) by simp
next
  fix f request s1
  assume v: "valid_request sv s session previous f request" and
    serve: "serve_request clock f request sv s1 = Some (s', sv')" and
    s1: "s1 = s\<lparr>sn_stream := snd (stream_next (sn_stream s)), sn_phase := Serving session (wf_sequence f)\<rparr>"
  show thesis
    using serve_keeps(6) [OF serve] serve_keeps(7) [OF serve] assms(3) that [OF v] s1 by auto
qed

lemma request_phase:
  assumes "request_iteration clock session previous sv s = Some (s', sv')" and "sn_phase s = Serving session previous"
  shows "(\<exists>q. sn_phase s' = Serving session q \<and> previous \<le> q) \<or> sn_phase s' \<in> {Finished} \<union> range Stalled"
  using assms
proof (rule request_cases)
  fix f request s1
  assume v: "valid_request sv s session previous f request" and
    serve: "serve_request clock f request sv s1 = Some (s', sv')" and
    s1: "s1 = s\<lparr>sn_stream := snd (stream_next (sn_stream s)), sn_phase := Serving session (wf_sequence f)\<rparr>"
  then show ?thesis using serve_keeps(7) [OF serve] by (auto simp: valid_request_def)
qed auto

text \<open>The runtime behind the server only makes steps of the runtime.\<close>

lemma server_step_world:
  assumes "server_step sv sv'"
  shows "sv_world sv' = sv_world sv \<or> rt_step (sv_world sv) (sv_world sv')"
  using assms
proof cases
  case (iterated clock c)
  from iterated show ?thesis
  proof (rule iterate_cases)
    fix s s' sv1 session previous
    assume sv': "sv' = sv1\<lparr>sv_sessions := (sv_sessions sv1)(c \<mapsto> s')\<rparr>" and phase: "sn_phase s = Serving session previous"
      and it: "request_iteration clock session previous sv s = Some (s', sv1)"
    show ?thesis
    proof (cases "sv_world sv1 = sv_world sv")
      case False
      obtain request :: request_payload and response where
        "dispatch (rq_operation request) (rq_arguments request) clock (sv_world sv) = Some (response, sv_world sv1)"
        by (rule request_world [OF it phase False]) blast
      then show ?thesis using dispatch_step [of _ _ clock "sv_world sv" response "sv_world sv1"] sv' by simp
    qed (simp add: sv')
  qed (simp_all add: handshake_keeps)
qed (simp_all add: accept_connection_def leave_table_def request_shutdown_def)

lemma server_step_config: "server_step sv sv' \<Longrightarrow> sv_config sv' = sv_config sv"
  by (erule server_stepE)
    (auto elim!: iterate_cases dest: handshake_keeps request_keeps
      simp: accept_connection_def leave_table_def request_shutdown_def)

theorem server_run_reachable:
  "server_run config n sv \<Longrightarrow> rt_reachable (sc_runtime config) (sv_world sv) \<and> sv_config sv = config"
proof (induction rule: server_run.induct)
  case (started socket_layer listener boot sys sv sys')
  then show ?case by (auto elim!: server_start_cases intro: rt_reachable.opened)
next
  case (stepped n sv sv')
  then show ?case
    using server_step_world [OF stepped.hyps(2)] server_step_config [OF stepped.hyps(2)]
    by (auto intro: rt_reachable.stepped)
qed

subsection \<open>Sessions that are being served\<close>

definition serving :: "server \<Rightarrow> nat set" where
  "serving sv = {c. \<exists>s session q. sv_sessions sv c = Some s \<and> sn_phase s = Serving session q}"

definition inv_identities :: "nat \<Rightarrow> server \<Rightarrow> bool" where
  "inv_identities n sv \<longleftrightarrow> unat (sv_session_counter sv) \<le> n \<and>
     (\<forall>c s session q. sv_sessions sv c = Some s \<longrightarrow> sn_phase s = Serving session q \<longrightarrow>
        session \<le> sv_session_counter sv) \<and>
     (\<forall>c c' s s' session q q'. sv_sessions sv c = Some s \<longrightarrow> sn_phase s = Serving session q \<longrightarrow>
        sv_sessions sv c' = Some s' \<longrightarrow> sn_phase s' = Serving session q' \<longrightarrow> c = c')"

definition live :: "session \<Rightarrow> bool" where
  "live s \<longleftrightarrow> sn_phase s \<noteq> Finished"

definition inv_table :: "server \<Rightarrow> bool" where
  "inv_table sv \<longleftrightarrow>
     (\<forall>c s. sv_sessions sv c = Some s \<longrightarrow> live s \<longrightarrow>
        (if sv_shutting_down sv then so_closed (sn_socket s) else c \<in> set (sv_table sv)))"

definition inv_admission :: "server \<Rightarrow> bool" where
  "inv_admission sv \<longleftrightarrow> finite (serving sv) \<and> card (serving sv) < sc_max_sessions (sv_config sv)"

text \<open>A closed socket stays closed, and nobody is admitted over it.\<close>

lemma write_all_closed: "so_closed k \<Longrightarrow> write_all bytes k = (False, k)"
  by (simp add: write_all_def)

lemma closed_session [simp]:
  "so_closed (sn_socket (finish_session s))"
  "so_closed (sn_socket (refuse_hello reason s))"
  "so_closed (sn_socket (reject_request f code message s))"
  by (simp_all add: finish_session_def refuse_hello_def reject_request_def socket_shutdown_def)

lemma send_response_closed [simp]: "so_closed (sn_socket s) \<Longrightarrow> so_closed (sn_socket (send_response f r s))"
  by (simp add: send_response_def write_all_closed)

lemma read_more_closed: "so_closed (sn_socket s) \<Longrightarrow> read_more s = finish_session s"
  by (simp add: read_more_def socket_read_def)

lemma handshake_closed:
  assumes "handshake_iteration sv s = (s', sv')" and "so_closed (sn_socket s)" and "sn_phase s = Handshaking"
  shows "so_closed (sn_socket s') \<and> sn_phase s' = Finished"
proof -
  obtain outcome stream where n: "stream_next (sn_stream s) = (outcome, stream)" by fastforce
  have "sn_phase (fst (admit sv (s\<lparr>sn_stream := stream\<rparr>))) = Finished"
    "so_closed (sn_socket (fst (admit sv (s\<lparr>sn_stream := stream\<rparr>))))"
    using assms(2) by (simp_all add: admit_def write_all_closed Let_def)
  then show ?thesis
    using assms(1,2) n by (auto simp: handshake_iteration_def Let_def read_more_closed split: if_splits sum.splits)
qed

lemma serve_closed:
  "serve_request clock f request sv s = Some (s', sv') \<Longrightarrow> so_closed (sn_socket s) \<Longrightarrow> so_closed (sn_socket s')"
  by (auto simp: serve_request_def Let_def split: if_splits option.splits)

lemma request_closed:
  assumes "request_iteration clock session previous sv s = Some (s', sv')" and "so_closed (sn_socket s)"
  shows "so_closed (sn_socket s')"
proof -
  obtain outcome stream where n: "stream_next (sn_stream s) = (outcome, stream)" by fastforce
  show ?thesis
    using assms n
    by (auto simp: request_iteration_def Let_def read_more_closed split: if_splits sum.splits option.splits
        dest: serve_closed)
qed

lemma inv_table_step:
  assumes "server_step sv sv'" and inv: "inv_table sv"
  shows "inv_table sv'"
  using assms(1)
proof cases
  case (iterated clock c)
  from iterated show ?thesis
  proof (rule iterate_cases)
    fix s s' sv1
    assume sv': "sv' = sv1\<lparr>sv_sessions := (sv_sessions sv1)(c \<mapsto> s')\<rparr>" and s: "sv_sessions sv c = Some s"
      and phase: "sn_phase s = Handshaking" and it: "handshake_iteration sv s = (s', sv1)"
    note keeps = handshake_keeps [OF it phase]
    have "if sv_shutting_down sv then \<not> live s' else c \<in> set (sv_table sv)"
      using inv s phase handshake_closed [OF it _ phase] by (auto simp: inv_table_def live_def)
    then show ?thesis using inv by (auto simp: inv_table_def sv' keeps split: if_splits)
  next
    fix s s' sv1 session previous
    assume sv': "sv' = sv1\<lparr>sv_sessions := (sv_sessions sv1)(c \<mapsto> s')\<rparr>" and s: "sv_sessions sv c = Some s"
      and phase: "sn_phase s = Serving session previous"
      and it: "request_iteration clock session previous sv s = Some (s', sv1)"
    note keeps = request_keeps [OF it phase]
    have "if sv_shutting_down sv then so_closed (sn_socket s') else c \<in> set (sv_table sv)"
      using inv s phase request_closed [OF it] by (auto simp: inv_table_def live_def)
    then show ?thesis using inv by (auto simp: inv_table_def sv' keeps split: if_splits)
  qed (use inv in simp)
next
  case (departed c s)
  have "d \<in> set (remove1 c (sv_table sv))" if "sv_sessions sv d = Some t" "live t" "d \<in> set (sv_table sv)" for d t
    using that departed by (cases "d = c") (auto simp: live_def in_set_remove1)
  then show ?thesis using inv departed(1) by (auto simp: inv_table_def leave_table_def split: if_splits)
next
  case shut_down
  then show ?thesis
    using inv by (auto simp: inv_table_def request_shutdown_def close_connection_def socket_shutdown_def live_def
        split: if_splits)
qed (use inv in \<open>auto simp: inv_table_def accept_connection_def split: if_splits\<close>)

lemma serving_update:
  "serving (sv\<lparr>sv_sessions := (sv_sessions sv)(c \<mapsto> s)\<rparr>) =
     (if \<exists>session q. sn_phase s = Serving session q then insert c (serving sv) else serving sv - {c})"
  by (auto simp: serving_def)

lemma serving_cong: "sv_sessions sv' = sv_sessions sv \<Longrightarrow> serving sv' = serving sv"
  by (simp add: serving_def)

lemma serving_in_table:
  assumes "inv_table sv" and "\<not> sv_shutting_down sv"
  shows "serving sv \<subseteq> set (sv_table sv)"
  using assms by (auto simp: inv_table_def serving_def live_def)

lemma card_serving_smaller:
  assumes "inv_admission sv" and "serving sv' \<subseteq> serving sv" and "sv_config sv' = sv_config sv"
  shows "inv_admission sv'"
  using assms card_mono [of "serving sv" "serving sv'"] finite_subset [of "serving sv'" "serving sv"]
  by (simp add: inv_admission_def)

lemma inv_admission_step:
  assumes "server_step sv sv'" and table: "inv_table sv" and inv: "inv_admission sv"
  shows "inv_admission sv'"
  using assms(1)
proof cases
  case (iterated clock c)
  from iterated show ?thesis
  proof (rule iterate_cases)
    fix s s' sv1
    assume sv': "sv' = sv1\<lparr>sv_sessions := (sv_sessions sv1)(c \<mapsto> s')\<rparr>" and s: "sv_sessions sv c = Some s"
      and phase: "sn_phase s = Handshaking" and it: "handshake_iteration sv s = (s', sv1)"
    note keeps = handshake_keeps [OF it phase]
    have old: "serving sv1 = serving sv" by (rule serving_cong) (rule keeps(4))
    show ?thesis
    proof (cases "\<exists>session q. sn_phase s' = Serving session q")
      case False
      then show ?thesis
        by (intro card_serving_smaller [OF inv]) (auto simp: sv' serving_update old keeps(2))
    next
      case True
      have open_server: "\<not> sv_shutting_down sv"
      proof
        assume "sv_shutting_down sv"
        then have "so_closed (sn_socket s)" using table s phase by (simp add: inv_table_def live_def)
        then show False using handshake_closed [OF it _ phase] True by auto
      qed
      have room: "length (sv_table sv) < sc_max_sessions (sv_config sv)"
        using it phase by (rule handshake_cases) (use True in auto)
      have "c \<in> set (sv_table sv)" using table s phase open_server by (auto simp: inv_table_def live_def)
      then have sub: "serving sv' \<subseteq> set (sv_table sv)"
        using serving_in_table [OF table open_server] True by (simp add: sv' serving_update old)
      have "card (serving sv') \<le> length (sv_table sv)"
        using card_mono [OF _ sub] card_length [of "sv_table sv"] by simp
      then show ?thesis using room sub finite_subset by (auto simp: inv_admission_def sv' keeps)
    qed
  next
    fix s s' sv1 session previous
    assume sv': "sv' = sv1\<lparr>sv_sessions := (sv_sessions sv1)(c \<mapsto> s')\<rparr>" and s: "sv_sessions sv c = Some s"
      and phase: "sn_phase s = Serving session previous"
      and it: "request_iteration clock session previous sv s = Some (s', sv1)"
    note keeps = request_keeps [OF it phase]
    have "serving sv1 = serving sv" by (rule serving_cong) (rule keeps(3))
    moreover have "c \<in> serving sv" using s phase by (auto simp: serving_def)
    ultimately show ?thesis
      by (intro card_serving_smaller [OF inv]) (auto simp: sv' serving_update keeps(1))
  qed (use inv in simp)
next
  case (accepted c chunks room)
  have "serving sv' = serving sv - {c}"
    unfolding accepted(1) by (auto simp: accept_connection_def serving_def new_session_def)
  then show ?thesis by (intro card_serving_smaller [OF inv]) (auto simp: accepted accept_connection_def)
next
  case (departed c s)
  then show ?thesis by (intro card_serving_smaller [OF inv]) (auto simp: leave_table_def serving_def)
next
  case shut_down
  then show ?thesis
    by (intro card_serving_smaller [OF inv])
      (auto simp: request_shutdown_def serving_def close_connection_def split: if_splits)
qed

text \<open>The sessions served, by their identities.\<close>

definition serves :: "server \<Rightarrow> nat \<Rightarrow> u64 \<Rightarrow> bool" where
  "serves sv c session \<longleftrightarrow> (\<exists>s q. sv_sessions sv c = Some s \<and> sn_phase s = Serving session q)"

lemma inv_identities_serves:
  "inv_identities n sv \<longleftrightarrow> unat (sv_session_counter sv) \<le> n \<and>
     (\<forall>c session. serves sv c session \<longrightarrow> session \<le> sv_session_counter sv) \<and>
     (\<forall>c c' session. serves sv c session \<longrightarrow> serves sv c' session \<longrightarrow> c = c')"
  unfolding inv_identities_def serves_def by blast

lemma inv_identities_weaker:
  assumes "inv_identities n sv" and "\<And>c session. serves sv' c session \<Longrightarrow> serves sv c session"
    and "sv_session_counter sv' = sv_session_counter sv"
  shows "inv_identities (Suc n) sv'"
  using assms unfolding inv_identities_serves by (metis le_Suc_eq)

lemma unat_next: "unat (v :: u64) < 2 ^ 64 - 1 \<Longrightarrow> unat (v + 1) = unat v + 1"
  by (simp add: unat_word_ariths(1) unat_of_nat)

lemma inv_identities_step:
  assumes "server_step sv sv'" and inv: "inv_identities n sv" and small: "n < 2 ^ 64 - 1"
  shows "inv_identities (Suc n) sv'"
  using assms(1)
proof cases
  case (iterated clock c)
  from iterated show ?thesis
  proof (rule iterate_cases)
    assume "sv' = sv"
    then show ?thesis by (intro inv_identities_weaker [OF inv]) simp_all
  next
    fix s s' sv1
    assume sv': "sv' = sv1\<lparr>sv_sessions := (sv_sessions sv1)(c \<mapsto> s')\<rparr>" and s: "sv_sessions sv c = Some s"
      and phase: "sn_phase s = Handshaking" and it: "handshake_iteration sv s = (s', sv1)"
    note keeps = handshake_keeps [OF it phase]
    have serves': "serves sv' d session \<longleftrightarrow>
        (if d = c then \<exists>q. sn_phase s' = Serving session q else serves sv d session)" for d session
      by (auto simp: serves_def sv' keeps)
    from it phase show ?thesis
    proof (rule handshake_cases)
      assume same: "sv1 = sv" "sn_phase s' \<in> {Handshaking, Finished}"
      then have "serves sv d session" if "serves sv' d session" for d session
        using that by (auto simp: serves' split: if_splits)
      then show ?thesis by (intro inv_identities_weaker [OF inv]) (simp_all add: sv' same)
    next
      assume counter: "sv1 = sv\<lparr>sv_session_counter := sv_session_counter sv + 1\<rparr>"
        and new: "sn_phase s' \<in> {Finished, Serving (sv_session_counter sv + 1) 0}"
      have bound: "unat (sv_session_counter sv) \<le> n"
        and old: "\<And>d session. serves sv d session \<Longrightarrow> session \<le> sv_session_counter sv"
        and one: "\<And>d d' session. serves sv d session \<Longrightarrow> serves sv d' session \<Longrightarrow> d = d'"
        using inv unfolding inv_identities_serves by blast+
      have next_id: "unat (sv_session_counter sv + 1) = unat (sv_session_counter sv) + 1"
        using bound small by (intro unat_next) simp
      then have lt: "sv_session_counter sv < sv_session_counter sv + 1" by (simp add: word_less_nat_alt)
      have below: "session \<le> sv_session_counter sv + 1" if "serves sv d session" for d session
        using old [OF that] lt by simp
      have fresh: "\<not> serves sv d (sv_session_counter sv + 1)" for d
        using old [of d "sv_session_counter sv + 1"] lt by auto
      have c': "sv_session_counter sv' = sv_session_counter sv + 1" by (simp add: sv' counter)
      show ?thesis
        unfolding inv_identities_serves c' using bound next_id below new fresh one
        by (auto simp: serves' split: if_splits)
    qed
  next
    fix s s' sv1 session previous
    assume sv': "sv' = sv1\<lparr>sv_sessions := (sv_sessions sv1)(c \<mapsto> s')\<rparr>" and s: "sv_sessions sv c = Some s"
      and phase: "sn_phase s = Serving session previous"
      and it: "request_iteration clock session previous sv s = Some (s', sv1)"
    note keeps = request_keeps [OF it phase]
    show ?thesis
      using request_phase [OF it phase] s phase
      by (intro inv_identities_weaker [OF inv]) (auto simp: serves_def sv' keeps split: if_splits)
  qed
next
  case (accepted c chunks room)
  then show ?thesis
    by (intro inv_identities_weaker [OF inv]) (auto simp: serves_def accept_connection_def new_session_def split: if_splits)
next
  case (departed c s)
  then show ?thesis by (intro inv_identities_weaker [OF inv]) (auto simp: serves_def leave_table_def)
next
  case shut_down
  then show ?thesis
    by (intro inv_identities_weaker [OF inv])
      (auto simp: serves_def request_shutdown_def close_connection_def split: if_splits)
qed

lemma server_run_inv:
  "server_run config n sv \<Longrightarrow> inv_table sv \<and> inv_admission sv \<and> (n < 2 ^ 64 \<longrightarrow> inv_identities n sv)"
proof (induction rule: server_run.induct)
  case (started socket_layer listener boot sys sv sys')
  then show ?case
    by (auto elim!: server_start_cases simp: inv_table_def inv_admission_def inv_identities_def serving_def)
next
  case (stepped n sv sv')
  then show ?case
    using inv_table_step [OF stepped.hyps(2)] inv_admission_step [OF stepped.hyps(2)]
      inv_identities_step [OF stepped.hyps(2)] by auto
qed

subsection \<open>Who changes the runtime, and who is admitted\<close>

lemma world_change_justified:
  assumes "server_step sv sv'" and "sv_world sv' \<noteq> sv_world sv"
  obtains c s s' session previous f request clock response where
    "sv_sessions sv c = Some s" "sn_phase s = Serving session previous"
    "valid_request sv s session previous f request" "is_mutating_operation (rq_operation request)"
    "rq_operation request \<noteq> OpShutdown"
    "dispatch (rq_operation request) (rq_arguments request) clock (sv_world sv) = Some (response, sv_world sv')"
    "sv_sessions sv' c = Some s'" "sn_phase s' \<in> {Serving session (wf_sequence f), Finished} \<union> range Stalled"
  using assms(1)
proof cases
  case (iterated clock c)
  from iterated show thesis
  proof (rule iterate_cases)
    fix s s' sv1 session previous
    assume sv': "sv' = sv1\<lparr>sv_sessions := (sv_sessions sv1)(c \<mapsto> s')\<rparr>" and s: "sv_sessions sv c = Some s"
      and phase: "sn_phase s = Serving session previous"
      and it: "request_iteration clock session previous sv s = Some (s', sv1)"
    have world: "sv_world sv1 = sv_world sv'" by (simp add: sv')
    have changed: "sv_world sv1 \<noteq> sv_world sv" using assms(2) world by simp
    with it phase obtain f request response where
      v: "valid_request sv s session previous f request"
      "dispatch (rq_operation request) (rq_arguments request) clock (sv_world sv) = Some (response, sv_world sv1)"
      "sn_phase s' \<in> {Serving session (wf_sequence f), Finished} \<union> range Stalled"
      by (rule request_world)
    have m: "is_mutating_operation (rq_operation request)" "rq_operation request \<noteq> OpShutdown"
      using dispatch_unchanged [OF v(2)] changed by blast+
    have d: "dispatch (rq_operation request) (rq_arguments request) clock (sv_world sv) = Some (response, sv_world sv')"
      using v(2) world by (simp only:)
    have s': "sv_sessions sv' c = Some s'" by (simp add: sv')
    show thesis by (rule that [OF s phase v(1) m d s' v(3)])
  next
    fix s s' sv1
    assume "sv' = sv1\<lparr>sv_sessions := (sv_sessions sv1)(c \<mapsto> s')\<rparr>"
      "sn_phase s = Handshaking" "handshake_iteration sv s = (s', sv1)"
    then show thesis using assms(2) handshake_keeps(1) [of sv s s' sv1] by simp
  qed (use assms(2) in simp)
qed (use assms(2) in \<open>auto simp: accept_connection_def leave_table_def request_shutdown_def\<close>)

lemma admission_justified:
  assumes "server_step sv sv'" and "serves sv' c session" and "\<not> serves sv c session"
  obtains s where "sv_sessions sv c = Some s" "presents_token sv s" "session = sv_session_counter sv + 1"
    "length (sv_table sv) < sc_max_sessions (sv_config sv)"
  using assms(1)
proof cases
  case (iterated clock d)
  from iterated show thesis
  proof (rule iterate_cases)
    fix s s' sv1
    assume sv': "sv' = sv1\<lparr>sv_sessions := (sv_sessions sv1)(d \<mapsto> s')\<rparr>" and s: "sv_sessions sv d = Some s"
      and phase: "sn_phase s = Handshaking" and it: "handshake_iteration sv s = (s', sv1)"
    note keeps = handshake_keeps [OF it phase]
    have c: "c = d" "\<exists>q. sn_phase s' = Serving session q"
      using assms(2,3) by (auto simp: serves_def sv' keeps split: if_splits)
    from it phase show thesis
      by (rule handshake_cases) (use c s that in auto)
  next
    fix s s' sv1 session' previous
    assume sv': "sv' = sv1\<lparr>sv_sessions := (sv_sessions sv1)(d \<mapsto> s')\<rparr>" and s: "sv_sessions sv d = Some s"
      and phase: "sn_phase s = Serving session' previous"
      and it: "request_iteration clock session' previous sv s = Some (s', sv1)"
    note keeps = request_keeps [OF it phase]
    have False using assms(2,3) request_phase [OF it phase] s phase
      by (auto simp: serves_def sv' keeps split: if_splits)
    then show thesis ..
  qed (use assms(2,3) in simp)
qed (use assms(2,3) in \<open>auto simp: serves_def accept_connection_def new_session_def leave_table_def
    request_shutdown_def close_connection_def split: if_splits\<close>)

text \<open>Every iteration of every session returns.\<close>

lemma iteration_returns:
  assumes "rt_reachable config (sv_world sv)"
  shows "\<exists>y. session_iteration clock sv s = Some y"
proof -
  have serve: "\<exists>y. serve_request clock f request sv' t = Some y" if "sv_world sv' = sv_world sv" for f request t sv'
  proof -
    obtain y where y: "dispatch (rq_operation request) (rq_arguments request) clock (sv_world sv) = Some y"
      using dispatch_returns [OF assms] by blast
    then show ?thesis using that by (auto simp: serve_request_def Let_def case_prod_beta' simp del: split_paired_Ex)
  qed
  show ?thesis
    by (cases "sn_phase s")
      (auto simp: session_iteration_def request_iteration_def Let_def case_prod_beta' serve
        simp del: split_paired_Ex split: option.split sum.split)
qed

end
