(* ===== verification/Runtime_Incarnation.thy ===== *)
theory Runtime_Incarnation
  imports Runtime_Invariant
begin

section \<open>One incarnation\<close>

text \<open>
  The epoch and the boot identity belong to a run of the coordinator: opening sets them, and no
  operation of the runtime changes them, or its configuration. A session may therefore compare
  the epoch of a request with the one of its handshake.
\<close>

definition incarnation :: "runtime_state \<Rightarrow> runtime_config \<times> coordinator_epoch \<times> boot_identity" where
  "incarnation s = (rs_config s, rs_epoch s, rs_boot s)"

text \<open>The updates of the operations, none of which the incarnation reads.\<close>

lemma incarnation_frame [simp]:
  "incarnation (s\<lparr>rs_topology := t\<rparr>) = incarnation s" "incarnation (s\<lparr>rs_graph := g\<rparr>) = incarnation s"
  "incarnation (s\<lparr>rs_policy := p\<rparr>) = incarnation s" "incarnation (s\<lparr>rs_evidence := v\<rparr>) = incarnation s"
  "incarnation (s\<lparr>rs_evidence_revision := q\<rparr>) = incarnation s" "incarnation (s\<lparr>rs_detections := ds\<rparr>) = incarnation s"
  "incarnation (s\<lparr>rs_confirmation := c\<rparr>) = incarnation s" "incarnation (s\<lparr>rs_conflict := k\<rparr>) = incarnation s"
  "incarnation (s\<lparr>rs_plans := ps\<rparr>) = incarnation s" "incarnation (s\<lparr>rs_plan_counter := n\<rparr>) = incarnation s"
  "incarnation (s\<lparr>rs_attempts := as\<rparr>) = incarnation s" "incarnation (s\<lparr>rs_attempt_counter := n\<rparr>) = incarnation s"
  "incarnation (s\<lparr>rs_transitions := ts\<rparr>) = incarnation s" "incarnation (s\<lparr>rs_transition_counter := n\<rparr>) = incarnation s"
  "incarnation (s\<lparr>rs_authorizations := us\<rparr>) = incarnation s" "incarnation (s\<lparr>rs_authorization_counter := n\<rparr>) = incarnation s"
  "incarnation (s\<lparr>rs_boundary := b\<rparr>) = incarnation s" "incarnation (s\<lparr>rs_boundary_plan := g'\<rparr>) = incarnation s"
  "incarnation (s\<lparr>rs_boundary_plan_digest := h\<rparr>) = incarnation s" "incarnation (s\<lparr>rs_boundary_counter := n\<rparr>) = incarnation s"
  "incarnation (s\<lparr>rs_effect_state := e\<rparr>) = incarnation s" "incarnation (s\<lparr>rs_requires_reverification := f\<rparr>) = incarnation s"
  "incarnation (s\<lparr>rs_store := st\<rparr>) = incarnation s" "incarnation (s\<lparr>rs_stats := stats\<rparr>) = incarnation s"
  "incarnation (s\<lparr>rs_sequence := q\<rparr>) = incarnation s" "incarnation (s\<lparr>rs_fenced_boots := bs\<rparr>) = incarnation s"
  by (simp_all add: incarnation_def)

lemma incarnation_helpers [simp]:
  "incarnation (evict_bounded_tables s) = incarnation s" "incarnation (fence_authorization i s) = incarnation s"
  "incarnation (confirm_evidence rid s) = incarnation s" "incarnation (update_attempt aid f s) = incarnation s"
  "incarnation (recompute_effect_state s) = incarnation s" "incarnation (adopt_decision a s) = incarnation s"
  "incarnation (bump counter s) = incarnation s"
  by (simp_all add: bump_def evict_bounded_tables_def fence_authorization_def confirm_evidence_def update_attempt_def
      recompute_effect_state_def adopt_decision_def Let_def split: option.split)

lemma commit_incarnation: "commit t payload (s, sys) = (r, s', sys') \<Longrightarrow> incarnation s' = incarnation s"
  using commitD(1-3) by (simp add: incarnation_def)

lemma validate_incarnation: "validate_authorization i req now s = (r, s') \<Longrightarrow> incarnation s' = incarnation s"
  by (auto simp: validate_authorization_def Let_def split: if_splits option.splits)

lemma publish_plan_incarnation:
  "publish_plan plan generation (s, sys) = (r, s', sys') \<Longrightarrow> incarnation s' = incarnation s"
  by (auto simp: publish_plan_def dest: commit_incarnation split: prod.splits sum.splits)

lemma fail_transition_incarnation:
  "fail_transition d status code reason text (s, sys) = (r, s', sys') \<Longrightarrow> incarnation s' = incarnation s"
  by (auto simp: fail_transition_def Let_def dest: commit_incarnation elim!: rt_bind_cases)

lemma accept_transition_incarnation:
  "accept_transition d plan (s, sys) = (r, s', sys') \<Longrightarrow> incarnation s' = incarnation s"
  by (auto simp: accept_transition_def Let_def dest!: commit_incarnation elim!: rt_bind_cases)

lemma decide_transition_incarnation:
  "decide_transition request d plan (s, sys) = (r, s', sys') \<Longrightarrow> incarnation s' = incarnation s"
  by (auto simp: decide_transition_def Let_def dest: fail_transition_incarnation accept_transition_incarnation
      split: if_splits option.splits prod.splits)

lemma transition_incarnation:
  assumes "transition request now (s, sys) = (r, s', sys')"
  shows "incarnation s' = incarnation s"
proof -
  obtain r1 s1 where v: "validate_authorization (tq_authorization request) False now
      (s\<lparr>rs_transition_counter := rs_transition_counter s + 1\<rparr>) = (r1, s1)" by fastforce
  have s1: "incarnation s1 = incarnation s" using validate_incarnation [OF v] by simp
  show ?thesis
    using assms v
    by (auto simp: transition_def Let_def s1 dest!: decide_transition_incarnation fail_transition_incarnation
        split: sum.splits option.splits if_splits)
qed

lemma rt_plan_incarnation:
  assumes "rt_plan i now (s, sys) = Some (r, s', sys')"
  shows "incarnation s' = incarnation s"
proof -
  obtain r1 s1 where v: "validate_authorization i False now s = (r1, s1)" by fastforce
  show ?thesis
    using assms v
    by (auto simp: rt_plan_def Let_def dest!: publish_plan_incarnation dest: validate_incarnation
        split: sum.splits option.splits if_splits)
qed

lemma submit_apply_incarnation:
  assumes "submit_apply request now later (s, sys) = (r, s', sys')"
  shows "incarnation s' = incarnation s"
proof -
  obtain r1 s1 where v: "validate_authorization (sq_authorization request) True now s = (r1, s1)" by fastforce
  show ?thesis
    using assms v
    by (auto simp: submit_apply_def Let_def dest!: commit_incarnation dest: validate_incarnation
        elim!: rt_bind_cases split: sum.splits option.splits if_splits)
qed

lemma rt_step_incarnation:
  assumes "rt_step (s, sys) (s', sys')"
  shows "incarnation s' = incarnation s"
  using assms
proof (cases rule: rt_step.cases)
  case (step_topology spec r)
  then show ?thesis
    by (auto simp: apply_topology_def dest!: commit_incarnation elim!: rt_bind_cases split: sum.splits if_splits)
next
  case (step_policy policy r)
  then show ?thesis
    by (auto simp: apply_policy_def dest!: commit_incarnation elim!: rt_bind_cases split: sum.splits if_splits)
next
  case (step_detection obs r)
  then show ?thesis
    by (auto simp: record_detection_def Let_def dest!: commit_incarnation elim!: rt_bind_cases split: sum.splits if_splits)
next
  case (step_authorize now r)
  then show ?thesis by (auto simp: authorize_def Let_def split: if_splits)
next
  case (step_plan i now r)
  then show ?thesis by (rule rt_plan_incarnation)
next
  case (step_transition request now r)
  then show ?thesis by (rule transition_incarnation)
next
  case (step_submit sub now later r)
  then show ?thesis by (rule submit_apply_incarnation)
next
  case (step_acknowledge k now r)
  then show ?thesis
    by (auto simp: acknowledge_def Let_def dest!: commit_incarnation elim!: rt_bind_cases
        split: sum.splits option.splits if_splits)
next
  case (step_verify v now r)
  then show ?thesis
    by (auto simp: verify_effect_def Let_def dest!: commit_incarnation elim!: rt_bind_cases
        split: sum.splits option.splits if_splits prod.splits)
next
  case (step_checkpoint r)
  then show ?thesis by (auto simp: checkpoint_def split: option.splits prod.splits sum.splits)
qed

end
