(* ===== verification/Net_Call.thy ===== *)
theory Net_Call
  imports Net_Client Net_Service Runtime_Incarnation
begin

section \<open>Client and server together\<close>

text \<open>
  A client and a session that shook hands: the client's call reaches the dispatch of the server
  and returns the response the dispatch made, however the two streams were cut into reads, and
  leaves both ends ready for the next call.
\<close>

fun iterations :: "u64 \<times> u64 \<Rightarrow> nat \<Rightarrow> nat \<Rightarrow> server \<Rightarrow> server option" where
  "iterations clock i 0 sv = Some sv"
| "iterations clock i (Suc n) sv = Option.bind (iterate_connection clock i sv) (iterations clock i n)"

definition put_session :: "nat \<Rightarrow> session \<Rightarrow> server \<Rightarrow> server" where
  "put_session i s sv = sv\<lparr>sv_sessions := (sv_sessions sv)(i \<mapsto> s)\<rparr>"

lemma put_session_fields [simp]:
  "sv_sessions (put_session i s sv) i = Some s" "sv_config (put_session i s sv) = sv_config sv"
  "sv_world (put_session i s sv) = sv_world sv" "sv_shutting_down (put_session i s sv) = sv_shutting_down sv"
  "sv_table (put_session i s sv) = sv_table sv" "sv_session_counter (put_session i s sv) = sv_session_counter sv"
  "put_session i s' (put_session i s sv) = put_session i s' sv"
  by (simp_all add: put_session_def)

lemma iterate_put:
  assumes "sv_sessions sv i = Some s" and "session_iteration clock sv s = Some (s', sv')"
  shows "iterate_connection clock i sv = Some (put_session i s' sv')"
  using assms by (simp add: iterate_connection_def store_session_def put_session_def)

lemma iterations_Suc:
  assumes "sv_sessions sv i = Some s" and "session_iteration clock sv s = Some (s', sv')"
  shows "iterations clock i (Suc n) sv = iterations clock i n (put_session i s' sv')"
  using iterate_put [OF assms] by simp

subsection \<open>The session reads a frame\<close>

definition waits_with :: "session \<Rightarrow> session \<Rightarrow> bool" where
  "waits_with s s' \<longleftrightarrow> sn_phase s' = sn_phase s \<and> so_closed (sn_socket s') = so_closed (sn_socket s) \<and>
     so_room (sn_socket s') = so_room (sn_socket s) \<and> so_written (sn_socket s') = so_written (sn_socket s)"

lemma session_waits:
  assumes "stream_next (sn_stream s) = (wire_refused WireNeedMore [], sn_stream s)"
    and "sn_phase s = Handshaking \<or> (\<exists>session q. sn_phase s = Serving session q)" and "\<not> sv_shutting_down sv"
  shows "session_iteration clock sv s = Some (read_more s, sv)"
proof -
  have same: "s\<lparr>sn_stream := sn_stream s\<rparr> = s" by simp
  show ?thesis
    using assms by (auto simp: session_iteration_def handshake_iteration_def request_iteration_def wire_refused_def Let_def)
qed

text \<open>After as many iterations as there are chunks the frame is pending, and nothing else moved.\<close>

lemma session_collects:
  assumes "sv_sessions sv i = Some s" and "healthy (sn_stream s)" and "fits_chunks kReadChunkBytes f"
    and "readable (so_incoming (sn_socket s))" and "\<not> so_closed (sn_socket s)"
    and "pending (sn_stream s) @ concat (so_incoming (sn_socket s)) = encode_frame f"
    and "sn_phase s = Handshaking \<or> (\<exists>session q. sn_phase s = Serving session q)" and "\<not> sv_shutting_down sv"
  shows "\<exists>n s'. (\<forall>m. iterations clock i (n + m) sv = iterations clock i m (put_session i s' sv)) \<and>
    waits_with s s' \<and> healthy (sn_stream s') \<and> pending (sn_stream s') = encode_frame f \<and>
    so_incoming (sn_socket s') = []"
  using assms
proof (induction "so_incoming (sn_socket s)" arbitrary: s sv)
  case Nil
  have "put_session i s sv = sv" using Nil.prems(1) by (simp add: put_session_def fun_upd_idem)
  then show ?case using Nil by (intro exI [of _ 0] exI [of _ s]) (simp add: waits_with_def)
next
  case (Cons c cs)
  note inc = Cons.hyps(2) [symmetric]
  have c: "c \<noteq> []" "length c \<le> kReadChunkBytes" "readable cs" using Cons.prems(4) by (simp_all add: inc)
  note part = pending_partial [OF Cons.prems(3) Cons.prems(6) [unfolded inc] c(1)]
  obtain st where st: "stream_feed c (sn_stream s) = (True, st)" "healthy st" "pending st = pending (sn_stream s) @ c"
    using feed_accepts [OF Cons.prems(2) part(2)] by blast
  let ?s1 = "s\<lparr>sn_socket := (sn_socket s)\<lparr>so_incoming := cs\<rparr>, sn_stream := st\<rparr>"
  have "read_more s = ?s1"
    using socket_read_chunk [OF Cons.prems(5) inc c(1,2)] st(1) by (simp add: read_more_def)
  then have it: "session_iteration clock sv s = Some (?s1, sv)"
    using session_waits [OF next_waits [OF Cons.prems(2) part(1)] Cons.prems(7,8)] by simp
  have "\<exists>n s'. (\<forall>m. iterations clock i (n + m) (put_session i ?s1 sv) =
      iterations clock i m (put_session i s' (put_session i ?s1 sv))) \<and>
    waits_with ?s1 s' \<and> healthy (sn_stream s') \<and> pending (sn_stream s') = encode_frame f \<and>
    so_incoming (sn_socket s') = []"
    by (rule Cons.hyps(1)) (use Cons.prems c st inc in auto)
  then obtain n s' where n: "\<And>m. iterations clock i (n + m) (put_session i ?s1 sv) = iterations clock i m (put_session i s' sv)"
    and s': "waits_with ?s1 s'" "healthy (sn_stream s')" "pending (sn_stream s') = encode_frame f"
      "so_incoming (sn_socket s') = []" by auto
  have "iterations clock i (Suc n + m) sv = iterations clock i m (put_session i s' sv)" for m
    using iterations_Suc [OF Cons.prems(1) it, of "n + m"] n by simp
  then show ?case using s' by (intro exI [of _ "Suc n"] exI [of _ s']) (simp add: waits_with_def)
qed

subsection \<open>The session answers it\<close>

text \<open>A connected pair: same session, same epoch, same sequence, nothing in flight.\<close>

definition connected :: "nat \<Rightarrow> server \<Rightarrow> client \<Rightarrow> bool" where
  "connected i sv c \<longleftrightarrow> \<not> sv_shutting_down sv \<and> ha_epoch (cl_handshake c) = rs_epoch (fst (sv_world sv)) \<and>
     drained (cl_stream c) \<and> \<not> so_closed (cl_socket c) \<and>
     (case sv_sessions sv i of None \<Rightarrow> False | Some s \<Rightarrow>
        sn_phase s = Serving (ha_session (cl_handshake c)) (cl_sequence c) \<and> drained (sn_stream s) \<and>
        \<not> so_closed (sn_socket s))"

text \<open>The bytes the two directions of a connection will carry, and the room they need.\<close>

definition arrives :: "nat \<Rightarrow> byte list list \<Rightarrow> server \<Rightarrow> server" where
  "arrives i chunks sv = sv\<lparr>sv_sessions := (sv_sessions sv)(i := map_option (\<lambda>s.
     s\<lparr>sn_socket := (sn_socket s)\<lparr>so_incoming := chunks\<rparr>\<rparr>) (sv_sessions sv i))\<rparr>"

definition written_by :: "nat \<Rightarrow> server \<Rightarrow> byte list" where
  "written_by i sv = (case sv_sessions sv i of None \<Rightarrow> [] | Some s \<Rightarrow> so_written (sn_socket s))"

definition server_room :: "nat \<Rightarrow> server \<Rightarrow> nat" where
  "server_room i sv = (case sv_sessions sv i of None \<Rightarrow> 0 | Some s \<Rightarrow> so_room (sn_socket s))"

definition client_receives :: "byte list list \<Rightarrow> client \<Rightarrow> client" where
  "client_receives chunks c = c\<lparr>cl_socket := (cl_socket c)\<lparr>so_incoming := chunks\<rparr>\<rparr>"

definition sendable :: "wire_frame \<Rightarrow> nat \<Rightarrow> bool" where
  "sendable f room \<longleftrightarrow> fits_chunks kReadChunkBytes f \<and> length (encode_frame f) \<le> room"

lemma no_crash_point: "sc_crash_point (sv_config sv) = [] \<Longrightarrow> \<not> at_crash_point sv p m n" if "p \<noteq> []"
  using that by (auto simp: at_crash_point_def)

lemma serve_request_answers:
  assumes "sc_crash_point (sv_config sv) = []"
    and "dispatch (rq_operation request) (rq_arguments request) clock (sv_world sv) = Some (response, w)"
  obtains n where "serve_request clock f request sv s =
    Some (if rq_operation request = OpShutdown then finish_session (send_response f response s)
          else send_response f response s, sv\<lparr>sv_mutation_counter := n, sv_world := w\<rparr>)"
proof -
  note done_by = serve_request_def no_crash_point Let_def
  show thesis
  proof (cases "is_mutating_operation (rq_operation request)")
    case True
    then show thesis using that [of "sv_mutation_counter sv + 1"] assms by (simp add: done_by)
  next
    case False
    then show thesis using that [of "sv_mutation_counter sv"] assms by (simp add: done_by)
  qed
qed

lemma request_answered:
  assumes "sn_phase s = Serving session q" and "\<not> sv_shutting_down sv" and "healthy (sn_stream s)"
    and "fits_chunks kReadChunkBytes f" and "pending (sn_stream s) = encode_frame f"
    and "request_refused session q f = None" and "wf_epoch f = rs_epoch (fst (sv_world sv))"
    and "decode_request (wf_payload f) = Inr request" and "sc_crash_point (sv_config sv) = []"
    and "dispatch (rq_operation request) (rq_arguments request) clock (sv_world sv) = Some (response, w)"
  obtains st n s1 where "drained st" "s1 = s\<lparr>sn_stream := st, sn_phase := Serving session (wf_sequence f)\<rparr>"
    "session_iteration clock sv s =
      Some (if rq_operation request = OpShutdown then finish_session (send_response f response s1)
            else send_response f response s1, sv\<lparr>sv_mutation_counter := n, sv_world := w\<rparr>)"
proof -
  obtain o' st where n: "stream_next (sn_stream s) = (o', st)" by fastforce
  have p: "pending (sn_stream s) = encode_frame f @ []" using assms(5) by simp
  note d = next_frame_delivered [OF assms(3,4) p, unfolded n fst_conv snd_conv]
  let ?s1 = "s\<lparr>sn_stream := st, sn_phase := Serving session (wf_sequence f)\<rparr>"
  obtain m where m: "serve_request clock f request sv ?s1 =
    Some (if rq_operation request = OpShutdown then finish_session (send_response f response ?s1)
          else send_response f response ?s1, sv\<lparr>sv_mutation_counter := m, sv_world := w\<rparr>)"
    using assms(9,10) by (rule serve_request_answers)
  have "session_iteration clock sv s = serve_request clock f request sv ?s1"
    using assms d by (simp add: session_iteration_def request_iteration_def n current_authority_def)
  then show thesis using that [of st ?s1 m] d(3,4) m by (simp add: drained_def)
qed

subsection \<open>The client gets the answer\<close>

lemma write_all_fits:
  assumes "\<not> so_closed k" and "length bytes \<le> so_room k"
  shows "write_all bytes k = (True, k\<lparr>so_room := so_room k - length bytes, so_written := so_written k @ bytes\<rparr>)"
  using assms by (simp add: write_all_def)

lemma client_call_answered:
  assumes "drained (cl_stream c)" and "\<not> so_closed (cl_socket c)"
    and "length (encode_frame (client_request_frame op arguments c)) \<le> so_room (cl_socket c)"
    and "wf_response response" and "fits_chunks kReadChunkBytes (response_frame (client_request_frame op arguments c) response)"
    and "readable answer"
    and "concat answer = encode_frame (response_frame (client_request_frame op arguments c) response)"
  obtains c' where "client_call op arguments (client_receives answer c) = (Inr response, c')"
    "so_written (cl_socket c') = so_written (cl_socket c) @ encode_frame (client_request_frame op arguments c)"
    "cl_handshake c' = cl_handshake c" "cl_sequence c' = cl_sequence c + 1" "drained (cl_stream c')"
    "\<not> so_closed (cl_socket c')"
proof -
  let ?r = "client_request_frame op arguments c" let ?f = "response_frame ?r response"
  let ?k = "(cl_socket c)\<lparr>so_incoming := answer, so_room := so_room (cl_socket c) - length (encode_frame ?r),
    so_written := so_written (cl_socket c) @ encode_frame ?r\<rparr>"
  have same: "client_request_frame op arguments (client_receives answer c) = ?r"
    by (simp add: client_request_frame_def client_receives_def)
  have wrote: "write_all (encode_frame ?r) ((cl_socket c)\<lparr>so_incoming := answer\<rparr>) = (True, ?k)"
    using assms(2,3) by (simp add: write_all_def)
  obtain st where st: "await_frame ''coordinator closed the connection'' ''response exceeded the frame bound'' ?k (cl_stream c)
      = (Inr ?f, ?k\<lparr>so_incoming := []\<rparr>, st)" "drained st"
    using await_delivers [of "cl_stream c" ?f ?k] assms by (auto simp: drained_def)
  have "accept_response ((client_receives answer c)\<lparr>cl_sequence := cl_sequence c + 1\<rparr>) ?f = Inr response"
    using response_doc.decode_encode [OF assms(4)]
    by (simp add: accept_response_def response_frame_def client_request_frame_def client_receives_def)
  then have "client_call op arguments (client_receives answer c) = (Inr response,
      (client_receives answer c)\<lparr>cl_sequence := cl_sequence c + 1, cl_socket := ?k\<lparr>so_incoming := []\<rparr>, cl_stream := st\<rparr>)"
    using wrote st(1) unfolding client_call_def same by (simp add: client_receives_def)
  then show thesis by (rule that) (use st(2) assms(2) in \<open>simp_all add: client_receives_def\<close>)
qed

lemma rt_steps_incarnation: "w' = w \<or> rt_step w w' \<Longrightarrow> incarnation (fst w') = incarnation (fst w)"
  using rt_step_incarnation [of "fst w" "snd w" "fst w'" "snd w'"] by auto

lemma dispatch_epoch: "dispatch op arguments clock w = Some (response, w') \<Longrightarrow> rs_epoch (fst w') = rs_epoch (fst w)"
  using rt_steps_incarnation [OF dispatch_step] by (simp add: incarnation_def)

lemma server_step_incarnation:
  "server_step sv sv' \<Longrightarrow> incarnation (fst (sv_world sv')) = incarnation (fst (sv_world sv))"
  using rt_steps_incarnation [OF server_step_world] .

lemma call_round_trip:
  assumes conn: "connected i sv c" and step: "cl_sequence c < cl_sequence c + 1"
    and crash: "sc_crash_point (sv_config sv) = []"
    and send: "sendable (client_request_frame op arguments c) (so_room (cl_socket c))"
    and chunks: "readable chunks" "concat chunks = encode_frame (client_request_frame op arguments c)"
    and run: "dispatch op arguments clock (sv_world sv) = Some (response, w)" and wf: "wf_response response"
    and reply: "sendable (response_frame (client_request_frame op arguments c) response) (server_room i sv)"
    and answer: "readable answer"
      "concat answer = encode_frame (response_frame (client_request_frame op arguments c) response)"
  obtains n sv' c' where "iterations clock i n (arrives i chunks sv) = Some sv'" "sv_world sv' = w"
    "written_by i sv' = written_by i sv @ concat answer"
    "client_call op arguments (client_receives answer c) = (Inr response, c')"
    "so_written (cl_socket c') = so_written (cl_socket c) @ concat chunks"
    "op \<noteq> OpShutdown \<Longrightarrow> connected i sv' c'"
proof -
  let ?f = "client_request_frame op arguments c" let ?g = "response_frame ?f response"
  let ?sid = "ha_session (cl_handshake c)"
  obtain s where s: "sv_sessions sv i = Some s" "sn_phase s = Serving ?sid (cl_sequence c)" "drained (sn_stream s)"
    "\<not> so_closed (sn_socket s)" "\<not> sv_shutting_down sv" "ha_epoch (cl_handshake c) = rs_epoch (fst (sv_world sv))"
    using conn by (auto simp: connected_def split: option.splits)
  let ?s0 = "s\<lparr>sn_socket := (sn_socket s)\<lparr>so_incoming := chunks\<rparr>\<rparr>"
  have arr: "arrives i chunks sv = put_session i ?s0 sv" using s(1) by (simp add: arrives_def put_session_def)
  have fits: "fits_chunks kReadChunkBytes ?f" "fits_chunks kReadChunkBytes ?g" using send reply by (simp_all add: sendable_def)
  have "\<exists>n s'. (\<forall>m. iterations clock i (n + m) (put_session i ?s0 sv) =
      iterations clock i m (put_session i s' (put_session i ?s0 sv))) \<and>
    waits_with ?s0 s' \<and> healthy (sn_stream s') \<and> pending (sn_stream s') = encode_frame ?f \<and> so_incoming (sn_socket s') = []"
    by (rule session_collects) (use s chunks fits in \<open>simp_all add: drained_def\<close>)
  then obtain n s' where n: "\<And>m. iterations clock i (n + m) (arrives i chunks sv) = iterations clock i m (put_session i s' sv)"
    and s': "waits_with ?s0 s'" "healthy (sn_stream s')" "pending (sn_stream s') = encode_frame ?f"
    unfolding arr by auto
  have keeps: "sn_phase s' = Serving ?sid (cl_sequence c)" "\<not> so_closed (sn_socket s')"
    "so_room (sn_socket s') = so_room (sn_socket s)" "so_written (sn_socket s') = so_written (sn_socket s)"
    using s'(1) s by (simp_all add: waits_with_def)
  have "length arguments \<le> kMaxFramePayloadBytes"
    using fits(1) by (simp add: fits_chunks_def client_request_frame_def encode_request_def w_blob_def)
  then have dec: "decode_request (wf_payload ?f) = Inr \<lparr>rq_operation = op, rq_arguments = arguments\<rparr>"
    using request_doc.decode_encode [of "\<lparr>rq_operation = op, rq_arguments = arguments\<rparr>"]
    by (simp add: client_request_frame_def)
  have pass: "request_refused ?sid (cl_sequence c) ?f = None" "wf_epoch ?f = rs_epoch (fst (sv_world sv))"
    using step s(6) by (simp_all add: request_refused_def client_request_frame_def)
  obtain st m s1 where st: "drained st" and s1: "s1 = s'\<lparr>sn_stream := st, sn_phase := Serving ?sid (wf_sequence ?f)\<rparr>"
    and it: "session_iteration clock (put_session i s' sv) s' = Some
      (if op = OpShutdown then finish_session (send_response ?f response s1) else send_response ?f response s1,
       (put_session i s' sv)\<lparr>sv_mutation_counter := m, sv_world := w\<rparr>)"
    by (rule request_answered [OF keeps(1) _ s'(2) fits(1) s'(3) pass(1) _ dec, of "put_session i s' sv" clock response w])
      (use s pass crash run in simp_all)
  let ?s2 = "if op = OpShutdown then finish_session (send_response ?f response s1) else send_response ?f response s1"
  let ?sv = "put_session i ?s2 ((put_session i s' sv)\<lparr>sv_mutation_counter := m, sv_world := w\<rparr>)"
  have "iterations clock i (n + 1) (arrives i chunks sv) = Some ?sv"
    using n [of 1] iterations_Suc [OF _ it, of i 0] by simp
  moreover have "sv_world ?sv = w" by simp
  moreover
  have room: "length (encode_frame ?g) \<le> so_room (sn_socket s')"
    using reply s(1) by (simp add: sendable_def server_room_def keeps)
  have sent: "sn_socket (send_response ?f response s1) = (sn_socket s')
      \<lparr>so_room := so_room (sn_socket s') - length (encode_frame ?g),
       so_written := so_written (sn_socket s') @ encode_frame ?g\<rparr>"
    using write_all_fits [OF keeps(2) room] by (simp add: send_response_def s1)
  have "written_by i ?sv = written_by i sv @ concat answer"
    using s(1) answer(2) keeps(4) sent
    by (cases "op = OpShutdown") (simp_all add: written_by_def finish_session_def socket_shutdown_def)
  moreover obtain c' where c': "client_call op arguments (client_receives answer c) = (Inr response, c')"
    "so_written (cl_socket c') = so_written (cl_socket c) @ encode_frame ?f" "cl_handshake c' = cl_handshake c"
    "cl_sequence c' = cl_sequence c + 1" "drained (cl_stream c')" "\<not> so_closed (cl_socket c')"
    by (rule client_call_answered [of c op arguments response answer])
      (use conn send fits wf answer in \<open>simp_all add: connected_def sendable_def\<close>)
  moreover have "connected i ?sv c'" if "op \<noteq> OpShutdown"
    using that dispatch_epoch [OF run] c' s(5,6) st keeps(2) sent
    by (simp add: connected_def put_session_def) (simp add: send_response_def s1 client_request_frame_def)
  ultimately show thesis using that chunks(2) by metis
qed

subsection \<open>The handshake\<close>

text \<open>What the server answers to a hello that decodes.\<close>

definition handshake_answer :: "server \<Rightarrow> string \<Rightarrow> hello_ack_payload" where
  "handshake_answer sv token =
     (if token \<noteq> sc_token (sv_config sv) then refused_ack ''unauthorized''
      else if sc_max_sessions (sv_config sv) \<le> length (sv_table sv) then refused_ack ''session table full''
      else accepted_ack (sv_session_counter sv + 1) sv)"

lemma length_fields:
  "length (w_u8 v1) = 1" "length (w_u16 v2) = 2" "length (w_u32 v4) = 4" "length (w_u64 v8) = 8"
  "length (w_text t) = 4 + length t" "length (w_blob b) = 4 + length b"
  by (simp_all add: w_u8_def w_u16_def w_u32_def w_u64_def w_text_def w_blob_def w_size32_def)

lemma hello_ack_sizes:
  assumes "wf_hello_ack ack"
  shows "fits_chunks kReadChunkBytes (hello_ack_frame ack)" "length (encode_frame (hello_ack_frame ack)) \<le> 700"
  using assms
  by (simp_all add: fits_chunks_def hello_ack_frame_def encode_hello_ack_def wf_hello_ack_def w_boot_def
      w_boolean_def length_fields kReadChunkBytes_def wire_text_limits)

lemma hello_sizes:
  assumes "wf_hello \<lparr>hp_token = cc_token config, hp_label = cc_label config, hp_requested_epoch = 0\<rparr>"
  shows "fits_chunks kReadChunkBytes (client_hello_frame config)"
    "length (encode_frame (client_hello_frame config)) \<le> 400"
  using assms
  by (simp_all add: fits_chunks_def client_hello_frame_def encode_hello_def wf_hello_def length_fields kReadChunkBytes_def
      wire_text_limits)

lemma handshake_answer_wf: "wf_hello_ack (handshake_answer sv token)"
  by (simp add: handshake_answer_def refused_ack_def accepted_ack_def wf_hello_ack_def kVersionString_def wire_text_limits)

text \<open>The session answers a hello that is pending.\<close>

lemma hello_answered:
  assumes "sn_phase s = Handshaking" and "healthy (sn_stream s)" and "\<not> so_closed (sn_socket s)"
    and "pending (sn_stream s) = encode_frame (client_hello_frame config)"
    and "wf_hello \<lparr>hp_token = cc_token config, hp_label = cc_label config, hp_requested_epoch = 0\<rparr>"
    and "700 \<le> so_room (sn_socket s)"
  obtains s' sv' where "handshake_iteration sv s = (s', sv')" "sv_world sv' = sv_world sv"
    "sv_shutting_down sv' = sv_shutting_down sv" "sv_sessions sv' = sv_sessions sv" "drained (sn_stream s')"
    "sv_config sv' = sv_config sv" "sv_table sv' = sv_table sv"
    "so_incoming (sn_socket s') = so_incoming (sn_socket s)"
    "so_written (sn_socket s') = so_written (sn_socket s) @
       encode_frame (hello_ack_frame (handshake_answer sv (cc_token config)))"
    "ha_accepted (handshake_answer sv (cc_token config)) \<Longrightarrow>
       sn_phase s' = Serving (sv_session_counter sv + 1) 0 \<and> \<not> so_closed (sn_socket s')"
proof -
  let ?a = "handshake_answer sv (cc_token config)"
  obtain o' st where n: "stream_next (sn_stream s) = (o', st)" by fastforce
  have p: "pending (sn_stream s) = encode_frame (client_hello_frame config) @ []" using assms(4) by simp
  note d = next_frame_delivered [OF assms(2) hello_sizes(1) [OF assms(5)] p, unfolded n fst_conv snd_conv]
  have st: "drained st" using d(3,4) by (simp add: drained_def)
  have dec: "decode_hello (wf_payload (client_hello_frame config)) =
      Inr \<lparr>hp_token = cc_token config, hp_label = cc_label config, hp_requested_epoch = 0\<rparr>"
    using hello_doc.decode_encode [OF assms(5)] by (simp add: client_hello_frame_def)
  have type: "wf_type (client_hello_frame config) = Hello" by (simp add: client_hello_frame_def)
  let ?k = "(sn_socket s)\<lparr>so_room := so_room (sn_socket s) - length (encode_frame (hello_ack_frame ?a)),
    so_written := so_written (sn_socket s) @ encode_frame (hello_ack_frame ?a)\<rparr>"
  have room: "length (encode_frame (hello_ack_frame ?a)) \<le> so_room (sn_socket s)"
    using hello_ack_sizes(2) [OF handshake_answer_wf] assms(6) le_trans by blast
  note wrote = write_all_fits [OF assms(3) room]
  have ack: "accepted_ack session (sv\<lparr>sv_session_counter := n\<rparr>) = accepted_ack session sv" for session n
    by (simp add: accepted_ack_def)
  let ?s = "s\<lparr>sn_stream := st\<rparr>"
  have it: "handshake_iteration sv s =
    (if cc_token config \<noteq> sc_token (sv_config sv) then (refuse_hello ''unauthorized'' ?s, sv) else admit sv ?s)"
    using d type dec by (simp add: handshake_iteration_def n)
  have incoming: "so_incoming (socket_shutdown k) = so_incoming k" for k by (simp add: socket_shutdown_def)
  show thesis
  proof (cases "ha_accepted ?a")
    case True
    then have a: "?a = accepted_ack (sv_session_counter sv + 1) sv" "cc_token config = sc_token (sv_config sv)"
      "length (sv_table sv) < sc_max_sessions (sv_config sv)"
      by (auto simp: handshake_answer_def refused_ack_def split: if_splits)
    have "handshake_iteration sv s = (?s\<lparr>sn_socket := ?k, sn_phase := Serving (sv_session_counter sv + 1) 0\<rparr>,
        sv\<lparr>sv_session_counter := sv_session_counter sv + 1\<rparr>)"
      using it a wrote by (simp add: admit_def Let_def ack)
    then show thesis by (rule that) (use st assms(3) in simp_all)
  next
    case False
    obtain reason where a: "?a = refused_ack reason" "handshake_iteration sv s = (refuse_hello reason ?s, sv)"
      using False it by (auto simp: handshake_answer_def accepted_ack_def admit_def split: if_splits)
    have "sn_socket (refuse_hello reason ?s) = socket_shutdown ?k" "sn_stream (refuse_hello reason ?s) = st"
      using wrote by (simp_all add: refuse_hello_def finish_session_def a(1))
    then show thesis using that [OF a(2)] False st by (simp add: incoming) (simp add: socket_shutdown_def)
  qed
qed

text \<open>Connecting gives what the server answered: a connected pair, or its refusal.\<close>

definition awaits_hello :: "nat \<Rightarrow> server \<Rightarrow> bool" where
  "awaits_hello i sv \<longleftrightarrow> \<not> sv_shutting_down sv \<and>
     (case sv_sessions sv i of None \<Rightarrow> False | Some s \<Rightarrow>
        sn_phase s = Handshaking \<and> drained (sn_stream s) \<and> \<not> so_closed (sn_socket s))"

lemma connect_round_trip:
  assumes wait: "awaits_hello i sv" and room: "700 \<le> server_room i sv"
    and link: "\<not> so_closed k" "400 \<le> so_room k"
    and port: "cc_port config \<noteq> 0"
    and wf: "wf_hello \<lparr>hp_token = cc_token config, hp_label = cc_label config, hp_requested_epoch = 0\<rparr>"
    and chunks: "readable chunks" "concat chunks = encode_frame (client_hello_frame config)"
    and answer: "readable (so_incoming k)"
      "concat (so_incoming k) = encode_frame (hello_ack_frame (handshake_answer sv (cc_token config)))"
  obtains n sv' r k' where "iterations clock i n (arrives i chunks sv) = Some sv'" "sv_world sv' = sv_world sv"
    "written_by i sv' = written_by i sv @ concat (so_incoming k)"
    "client_connect config (Inr k) = (r, Some k')" "so_written k' = so_written k @ concat chunks"
    "if ha_accepted (handshake_answer sv (cc_token config))
     then \<exists>c. r = Inr c \<and> connected i sv' c \<and> cl_handshake c = handshake_answer sv (cc_token config)
     else r = err Unauthorized (ha_reason (handshake_answer sv (cc_token config)))"
proof -
  let ?f = "client_hello_frame config" let ?a = "handshake_answer sv (cc_token config)"
  obtain s where s: "sv_sessions sv i = Some s" "sn_phase s = Handshaking" "drained (sn_stream s)"
    "\<not> so_closed (sn_socket s)" "\<not> sv_shutting_down sv"
    using wait by (auto simp: awaits_hello_def split: option.splits)
  let ?s0 = "s\<lparr>sn_socket := (sn_socket s)\<lparr>so_incoming := chunks\<rparr>\<rparr>"
  have arr: "arrives i chunks sv = put_session i ?s0 sv" using s(1) by (simp add: arrives_def put_session_def)
  have "\<exists>n s'. (\<forall>m. iterations clock i (n + m) (put_session i ?s0 sv) =
      iterations clock i m (put_session i s' (put_session i ?s0 sv))) \<and>
    waits_with ?s0 s' \<and> healthy (sn_stream s') \<and> pending (sn_stream s') = encode_frame ?f \<and> so_incoming (sn_socket s') = []"
    by (rule session_collects) (use s chunks hello_sizes(1) [OF wf] in \<open>simp_all add: drained_def\<close>)
  then obtain n s' where n: "\<And>m. iterations clock i (n + m) (arrives i chunks sv) = iterations clock i m (put_session i s' sv)"
    and s': "waits_with ?s0 s'" "healthy (sn_stream s')" "pending (sn_stream s') = encode_frame ?f"
    unfolding arr by auto
  have keeps: "sn_phase s' = Handshaking" "\<not> so_closed (sn_socket s')" "700 \<le> so_room (sn_socket s')"
    "so_written (sn_socket s') = so_written (sn_socket s)"
    using s'(1) s room by (simp_all add: waits_with_def server_room_def)
  have same: "handshake_answer (put_session i s' sv) token = handshake_answer sv token" for token
    by (simp add: handshake_answer_def accepted_ack_def put_session_def)
  obtain s2 sv2 where it: "handshake_iteration (put_session i s' sv) s' = (s2, sv2)"
    and sv2: "sv_world sv2 = sv_world sv" "sv_shutting_down sv2 = sv_shutting_down sv"
      "sv_sessions sv2 = sv_sessions (put_session i s' sv)" "drained (sn_stream s2)"
      "so_written (sn_socket s2) = so_written (sn_socket s') @ encode_frame (hello_ack_frame ?a)"
      "ha_accepted ?a \<Longrightarrow> sn_phase s2 = Serving (sv_session_counter sv + 1) 0 \<and> \<not> so_closed (sn_socket s2)"
    by (rule hello_answered [OF keeps(1) s'(2) keeps(2) s'(3) wf keeps(3), of "put_session i s' sv", unfolded same])
      simp
  let ?sv = "put_session i s2 sv2"
  have "session_iteration clock (put_session i s' sv) s' = Some (s2, sv2)"
    using keeps(1) it by (simp add: session_iteration_def)
  then have run: "iterations clock i (n + 1) (arrives i chunks sv) = Some ?sv"
    using n [of 1] iterations_Suc [of "put_session i s' sv" i s' clock s2 sv2 0] by simp
  have sent: "written_by i ?sv = written_by i sv @ concat (so_incoming k)"
    using s(1) sv2(5) keeps(4) answer(2) by (simp add: written_by_def)
  let ?k = "k\<lparr>so_room := so_room k - length (encode_frame ?f), so_written := so_written k @ encode_frame ?f\<rparr>"
  have "length (encode_frame ?f) \<le> so_room k" using hello_sizes(2) [OF wf] link(2) by linarith
  note wrote = write_all_fits [OF link(1) this]
  have fresh: "healthy empty_stream" "pending empty_stream = []"
    by (simp_all add: healthy_def empty_stream_def pending_def)
  have "\<exists>st. await_frame ''coordinator closed the connection during handshake''
      ''handshake exceeded the frame bound'' ?k empty_stream = (Inr (hello_ack_frame ?a), ?k\<lparr>so_incoming := []\<rparr>, st) \<and> drained st"
    by (rule await_delivers) (use fresh answer link(1) hello_ack_sizes(1) [OF handshake_answer_wf] in simp_all)
  then obtain st where st: "await_frame ''coordinator closed the connection during handshake''
      ''handshake exceeded the frame bound'' ?k empty_stream = (Inr (hello_ack_frame ?a), ?k\<lparr>so_incoming := []\<rparr>, st)" "drained st"
    by blast
  have token: "cc_token config \<noteq> []" using wf by (simp add: wf_hello_def)
  have ack: "accept_ack (hello_ack_frame ?a) =
      (if ha_accepted ?a then Inr ?a else err Unauthorized (ha_reason ?a))"
    using hello_ack_doc.decode_encode [OF handshake_answer_wf [of sv "cc_token config"]]
    by (simp add: accept_ack_def hello_ack_frame_def)
  show thesis
  proof (cases "ha_accepted ?a")
    case True
    let ?c = "\<lparr>cl_socket = ?k\<lparr>so_incoming := []\<rparr>, cl_stream = st, cl_handshake = ?a, cl_sequence = 0\<rparr>"
    have c: "client_connect config (Inr k) = (Inr ?c, Some (?k\<lparr>so_incoming := []\<rparr>))"
      using port token wrote st(1) ack True by (simp add: client_connect_def)
    have a: "?a = accepted_ack (sv_session_counter sv + 1) sv"
      using True by (auto simp: handshake_answer_def refused_ack_def split: if_splits)
    have "connected i ?sv ?c"
      using sv2(6) [OF True] sv2(1,2,4) st(2) link(1) s(5) a
      by (simp add: connected_def accepted_ack_def current_authority_def)
    then show thesis using that [OF run _ sent c] sv2(1) chunks(2) True by auto
  next
    case False
    have c: "client_connect config (Inr k) =
        (err Unauthorized (ha_reason ?a), Some (socket_shutdown (?k\<lparr>so_incoming := []\<rparr>)))"
      using port token wrote st(1) ack False by (simp add: client_connect_def err_def)
    show thesis using that [OF run _ sent c] sv2(1) chunks(2) False by (simp add: socket_shutdown_def)
  qed
qed

end
