(* ===== verification/Net_Example.thy ===== *)
theory Net_Example
  imports Net_Call Runtime_Example
begin

section \<open>A concrete run of the server\<close>

text \<open>
  A server over the runtime of \<open>Runtime_Example\<close>, with one connection that says hello and
  reports a detection. The witnesses of the properties of the network use its states.
\<close>

definition ex_server_config :: server_config where
  "ex_server_config = \<lparr>sc_runtime = ex_config False, sc_token = ''token'', sc_max_sessions = 2,
     sc_crash_point = [], sc_crash_after = 0\<rparr>"

definition ex_server :: server where
  "ex_server = \<lparr>sv_config = ex_server_config, sv_world = (ex_opened, ex_os), sv_shutting_down = False,
     sv_session_counter = 0, sv_mutation_counter = 0, sv_table = [], sv_sessions = Map.empty\<rparr>"

definition ex_client_config :: client_config where
  "ex_client_config = \<lparr>cc_port = 4000, cc_token = ''token'', cc_label = ''fcfn-client''\<rparr>"

definition ex_hello :: "byte list" where "ex_hello = encode_frame (client_hello_frame ex_client_config)"

definition ex_request :: request_payload where
  "ex_request = \<lparr>rq_operation = OpRecordDetection, rq_arguments = encode_detection_arguments ex_report\<rparr>"

definition ex_request_frame :: wire_frame where
  "ex_request_frame = \<lparr>wf_type = Request, wf_session = 1, wf_sequence = 1, wf_epoch = 1,
     wf_payload = encode_request ex_request\<rparr>"

definition ex_accepted :: server where
  "ex_accepted = accept_connection 0 (open_socket [ex_hello, encode_frame ex_request_frame] 10000) ex_server"

lemma ex_config_server [simp]:
  "sc_token ex_server_config = ''token''" "sc_max_sessions ex_server_config = 2"
  "sc_crash_point ex_server_config = []" "sc_runtime ex_server_config = ex_config False"
  by (simp_all add: ex_server_config_def)

lemma ex_server_starts: "server_start ex_server_config (Inr ()) (Inr ()) 7 ex_os = (Inr ex_server, ex_os)"
  by (simp add: server_start_def check_server_config_def ex_open(1) ex_server_def kMaxSessions_def)

lemma ex_server_run: "server_run ex_server_config 0 ex_server"
  by (rule server_run.started [OF ex_server_starts])

lemma ex_wf_hello:
  "wf_hello \<lparr>hp_token = cc_token ex_client_config, hp_label = cc_label ex_client_config, hp_requested_epoch = 0\<rparr>"
  by (simp add: ex_client_config_def wf_hello_def wire_text_limits)

lemma ex_request_sizes:
  "length (encode_frame ex_request_frame) \<le> 200" "fits_chunks kReadChunkBytes ex_request_frame"
  by (simp_all add: ex_request_frame_def ex_request_def encode_request_def encode_detection_arguments_def
      length_fields w_resource_id_def w_digest_def ex_report_def fits_chunks_def kReadChunkBytes_def wire_text_limits)

lemma ex_hello_size: "length ex_hello \<le> 400"
  unfolding ex_hello_def by (rule hello_sizes(2) [OF ex_wf_hello])

text \<open>A session that reads a whole frame in one chunk.\<close>

lemma read_whole_frame:
  assumes "drained (sn_stream s)" and "so_incoming (sn_socket s) = encode_frame f # cs"
    and "fits_chunks kReadChunkBytes f" and "length (encode_frame f) \<le> kReadChunkBytes" and "\<not> so_closed (sn_socket s)"
    and "sn_phase s = Handshaking \<or> (\<exists>session q. sn_phase s = Serving session q)" and "\<not> sv_shutting_down sv"
  obtains s' where "session_iteration clock sv s = Some (s', sv)" "waits_with s s'" "healthy (sn_stream s')"
    "pending (sn_stream s') = encode_frame f" "so_incoming (sn_socket s') = cs"
proof -
  have d: "healthy (sn_stream s)" "pending (sn_stream s) = []" using assms(1) by (simp_all add: drained_def)
  have wait: "stream_next (sn_stream s) = (wire_refused WireNeedMore [], sn_stream s)"
    by (rule next_waits [of _ kReadChunkBytes]) (simp_all add: d)
  have c: "encode_frame f \<noteq> []" using length_encode_frame [of f] by (auto simp del: length_encode_frame)
  have "length (pending (sn_stream s)) + length (encode_frame f) \<le> kMaxBufferedBytes"
    using assms(4) by (simp add: d(2) kReadChunkBytes_def kMaxBufferedBytes_def kMaxFramePayloadBytes_def)
  then obtain st where st: "stream_feed (encode_frame f) (sn_stream s) = (True, st)" "healthy st" "pending st = encode_frame f"
    using feed_accepts [OF d(1), of "encode_frame f"] d(2) by auto
  have more: "read_more s = s\<lparr>sn_socket := (sn_socket s)\<lparr>so_incoming := cs\<rparr>, sn_stream := st\<rparr>"
    using socket_read_chunk [OF assms(5,2) c assms(4)] st(1) by (simp add: read_more_def)
  show thesis
    by (rule that [OF session_waits [OF wait assms(6,7)]]) (simp_all add: more waits_with_def st)
qed

lemma run_iteration:
  assumes "server_run config n sv" and "sv_sessions sv i = Some s" and "session_iteration clock sv s = Some (s', sv')"
  shows "server_step sv (put_session i s' sv')" and "server_run config (Suc n) (put_session i s' sv')"
  using server_step.iterated [OF iterate_put [OF assms(2,3)]] server_run.stepped [OF assms(1)] by blast+

text \<open>After two iterations the connection is a session; after four its detection is recorded.\<close>

lemma ex_handshake:
  obtains sv sv' s where "server_run ex_server_config 2 sv" "server_step sv sv'" "server_run ex_server_config 3 sv'"
    "\<not> serves sv 0 1" "serves sv' 0 1" "sv_world sv' = (ex_opened, ex_os)" "sv_config sv' = ex_server_config"
    "\<not> sv_shutting_down sv'" "sv_sessions sv' 0 = Some s" "sn_phase s = Serving 1 0" "drained (sn_stream s)"
    "\<not> so_closed (sn_socket s)" "so_incoming (sn_socket s) = [encode_frame ex_request_frame]"
proof -
  let ?s0 = "new_session (open_socket [ex_hello, encode_frame ex_request_frame] 10000)"
  have run1: "server_run ex_server_config 1 ex_accepted"
    using server_run.stepped [OF ex_server_run, of ex_accepted]
      server_step.accepted [of ex_server 0 "[ex_hello, encode_frame ex_request_frame]" 10000]
    by (simp add: ex_accepted_def ex_server_def)
  have s0: "sv_sessions ex_accepted 0 = Some ?s0" "sv_world ex_accepted = (ex_opened, ex_os)"
    "\<not> sv_shutting_down ex_accepted" "sv_config ex_accepted = ex_server_config"
    "sv_table ex_accepted = [0]" "sv_session_counter ex_accepted = 0"
    by (simp_all add: ex_accepted_def accept_connection_def ex_server_def)
  obtain s1 where s1: "session_iteration (0, 0) ex_accepted ?s0 = Some (s1, ex_accepted)" "waits_with ?s0 s1"
    "healthy (sn_stream s1)" "pending (sn_stream s1) = ex_hello" "so_incoming (sn_socket s1) = [encode_frame ex_request_frame]"
    by (rule read_whole_frame [of ?s0 "client_hello_frame ex_client_config" "[encode_frame ex_request_frame]" ex_accepted "(0, 0)"])
      (use s0(3) hello_sizes(1) [OF ex_wf_hello] ex_hello_size in
        \<open>simp_all add: new_session_def open_socket_def drained_def healthy_def pending_def empty_stream_def
          ex_hello_def kReadChunkBytes_def\<close>)
  let ?sv = "put_session 0 s1 ex_accepted"
  have run2: "server_run ex_server_config 2 ?sv"
    using run_iteration(2) [OF run1 s0(1) s1(1)] by (simp add: numeral_2_eq_2)
  have w: "sn_phase s1 = Handshaking" "\<not> so_closed (sn_socket s1)" "700 \<le> so_room (sn_socket s1)"
    using s1(2) by (simp_all add: waits_with_def new_session_def open_socket_def)
  have answer: "handshake_answer ?sv (cc_token ex_client_config) = accepted_ack 1 ?sv"
    by (simp add: handshake_answer_def s0 ex_client_config_def)
  obtain s2 sv2 where it: "handshake_iteration ?sv s1 = (s2, sv2)" and sv2: "sv_world sv2 = sv_world ?sv"
    "sv_shutting_down sv2 = sv_shutting_down ?sv" "sv_sessions sv2 = sv_sessions ?sv" "drained (sn_stream s2)"
    "sv_config sv2 = sv_config ?sv" "so_incoming (sn_socket s2) = so_incoming (sn_socket s1)"
    "sn_phase s2 = Serving (sv_session_counter ?sv + 1) 0 \<and> \<not> so_closed (sn_socket s2)"
    by (rule hello_answered [OF w(1) s1(3) w(2) s1(4) [unfolded ex_hello_def] ex_wf_hello w(3), of ?sv])
      (simp add: answer accepted_ack_def)
  have session: "session_iteration (0, 0) ?sv s1 = Some (s2, sv2)" using w(1) it by (simp add: session_iteration_def)
  let ?sv' = "put_session 0 s2 sv2"
  have s: "sv_sessions ?sv 0 = Some s1" by simp
  note step = run_iteration [OF run2 s session]
  show thesis
    by (rule that [OF run2 step(1)])
      (use step(2) sv2 s0 s1(5) w(1) in \<open>simp_all add: serves_def numeral_3_eq_3 numeral_2_eq_2\<close>)
qed

lemma ex_detection_served:
  obtains sv sv' where "server_run ex_server_config 4 sv" "server_step sv sv'" "sv_world sv' \<noteq> sv_world sv"
proof -
  obtain sv s where sv: "server_run ex_server_config 3 sv" "sv_world sv = (ex_opened, ex_os)"
    "sv_config sv = ex_server_config" "\<not> sv_shutting_down sv" "sv_sessions sv 0 = Some s" "sn_phase s = Serving 1 0"
    "drained (sn_stream s)" "\<not> so_closed (sn_socket s)" "so_incoming (sn_socket s) = [encode_frame ex_request_frame]"
    by (rule ex_handshake)
  obtain s1 where s1: "session_iteration (0, 0) sv s = Some (s1, sv)" "waits_with s s1" "healthy (sn_stream s1)"
    "pending (sn_stream s1) = encode_frame ex_request_frame"
    by (rule read_whole_frame [of s ex_request_frame "[]" sv "(0, 0)"])
      (use sv ex_request_sizes in \<open>simp_all add: kReadChunkBytes_def\<close>)
  let ?sv = "put_session 0 s1 sv"
  have run4: "server_run ex_server_config 4 ?sv"
    using run_iteration(2) [OF sv(1,5) s1(1)] by (simp add: eval_nat_numeral)
  have phase: "sn_phase s1 = Serving 1 0" using s1(2) sv(6) by (simp add: waits_with_def)
  obtain d where d: "record_detection ex_report (ex_opened, ex_os) = (Inr d, ex_detected, ex_os)"
    "rs_confirmation ex_detected = [(''s'', 7)]"
    by (rule ex_detection)
  have args: "decode_detection_arguments (encode_detection_arguments ex_report) = Inr ex_report"
    by (rule detection_args_doc.decode_encode) (simp add: ex_report_def is_valid_resource_id_def is_allowed_char_def kMaxResourceIdLength_def)
  have "\<exists>response. dispatch OpRecordDetection (encode_detection_arguments ex_report) (0, 0) (sv_world ?sv)
      = Some (response, ex_detected, ex_os)"
    using sv(2) by (simp add: dispatch_def args with_arguments_def run_op_def d(1))
  then obtain response where run: "dispatch (rq_operation ex_request) (rq_arguments ex_request) (0, 0) (sv_world ?sv)
      = Some (response, ex_detected, ex_os)" by (auto simp: ex_request_def)
  have dec: "decode_request (wf_payload ex_request_frame) = Inr ex_request"
    using request_doc.decode_encode [of ex_request]
    by (simp add: ex_request_frame_def ex_request_def encode_detection_arguments_def length_fields w_resource_id_def
        w_digest_def ex_report_def wire_text_limits)
  have pass: "request_refused 1 0 ex_request_frame = None" "wf_epoch ex_request_frame = rs_epoch (fst (sv_world ?sv))"
    by (simp_all add: request_refused_def ex_request_frame_def sv(2) ex_open(7))
  obtain st n s2 where it: "session_iteration (0, 0) ?sv s1 = Some
      (if rq_operation ex_request = OpShutdown then finish_session (send_response ex_request_frame response s2)
       else send_response ex_request_frame response s2, ?sv\<lparr>sv_mutation_counter := n, sv_world := (ex_detected, ex_os)\<rparr>)"
    by (rule request_answered [OF phase _ s1(3) ex_request_sizes(2) s1(4) pass(1) _ dec, of ?sv "(0, 0)" response "(ex_detected, ex_os)"])
      (use sv pass run in simp_all)
  have s: "sv_sessions ?sv 0 = Some s1" by simp
  have "rs_confirmation ex_detected \<noteq> rs_confirmation ex_opened" by (simp add: d(2) ex_open(10))
  then have "(ex_detected, ex_os) \<noteq> (ex_opened, ex_os)" by auto
  then show thesis
    by (intro that [OF run4 run_iteration(1) [OF run4 s it]]) (simp add: sv(2))
qed

subsection \<open>A connected pair\<close>

definition ex_waiting :: server where
  "ex_waiting = accept_connection 0 (open_socket [] 10000) ex_server"

definition ex_ack :: hello_ack_payload where
  "ex_ack = accepted_ack 1 ex_server"

definition ex_serving :: server where
  "ex_serving = put_session 0 ((new_session (open_socket [] 10000))\<lparr>sn_phase := Serving 1 0\<rparr>) ex_server"

definition ex_client :: client where
  "ex_client = \<lparr>cl_socket = open_socket [] 10000, cl_stream = empty_stream, cl_handshake = ex_ack, cl_sequence = 0\<rparr>"

lemma fresh_stream [simp]: "drained empty_stream"
  by (simp add: drained_def healthy_def empty_stream_def pending_def)

lemma ex_waits: "awaits_hello 0 ex_waiting" "server_room 0 ex_waiting = 10000"
  by (simp_all add: awaits_hello_def ex_waiting_def accept_connection_def new_session_def open_socket_def
      ex_server_def server_room_def)

lemma ex_ack_fields:
  "ha_session ex_ack = 1" "ha_epoch ex_ack = 1" "ha_accepted ex_ack"
  "handshake_answer ex_waiting (cc_token ex_client_config) = ex_ack"
  by (simp_all add: ex_ack_def accepted_ack_def ex_server_def current_authority_def ex_open(7) handshake_answer_def
      ex_waiting_def accept_connection_def ex_client_config_def)

lemma ex_connected: "connected 0 ex_serving ex_client" "sv_world ex_serving = (ex_opened, ex_os)"
  "server_room 0 ex_serving = 10000" "sc_crash_point (sv_config ex_serving) = []"
  by (simp_all add: connected_def ex_serving_def ex_client_def ex_ack_fields ex_server_def ex_open(7)
      new_session_def open_socket_def server_room_def)

text \<open>A call that asks for a plan nobody made.\<close>

definition ex_missing_plan :: response_payload where
  "ex_missing_plan = fail_with OpPlanByGeneration (mk_status NotFound ''plan generation is not retained'')"

lemma ex_missing_plan_answered:
  "dispatch OpPlanByGeneration (encode_plan_generation 7) (0, 0) (sv_world ex_serving) =
     Some (ex_missing_plan, sv_world ex_serving)"
  using plan_generation_doc.decode_encode [of 7]
  by (simp add: dispatch_def ex_connected(2) with_arguments_def plan_by_generation_def find_plan_def ex_open(17)
      answered_plan_def err_def ex_missing_plan_def)

lemma ex_missing_plan_sizes:
  "wf_response ex_missing_plan" "length (encode_response ex_missing_plan) \<le> 300"
  by (simp_all add: wf_response_def ex_missing_plan_def fail_with_def blank_response_def mk_status_def
      encode_response_def length_fields w_status_code_def wire_text_limits)

lemma ex_call_sendable:
  "sendable (client_request_frame OpPlanByGeneration (encode_plan_generation 7) ex_client) 10000"
  "sendable (response_frame (client_request_frame OpPlanByGeneration (encode_plan_generation 7) ex_client) ex_missing_plan) 10000"
  "length (encode_frame (client_request_frame OpPlanByGeneration (encode_plan_generation 7) ex_client)) \<le> 4096"
  "length (encode_frame (response_frame (client_request_frame OpPlanByGeneration (encode_plan_generation 7) ex_client) ex_missing_plan)) \<le> 4096"
  using ex_missing_plan_sizes(2)
  by (simp_all add: sendable_def fits_chunks_def client_request_frame_def encode_request_def encode_plan_generation_def
      length_fields response_frame_def kReadChunkBytes_def kMaxFramePayloadBytes_def)

lemma readable_frame: "length (encode_frame f) \<le> 4096 \<Longrightarrow> readable [encode_frame f]"
  using length_encode_frame [of f] by (auto simp: kReadChunkBytes_def simp del: length_encode_frame)

end
