(* ===== verification/Spec_Net.thy ===== *)
theory Spec_Net
  imports Net_Documents Net_Example
begin

section \<open>Properties of the network service\<close>

text \<open>
  What holds of the coordinator as its clients see it: the runtime behind the wire is changed only
  by admitted, current requests; frames and messages arrive whole or are refused; a call returns
  what the server did for it.
\<close>

text \<open>C10: Behind the service the runtime is always a reachable runtime: whatever connections, bytes,
  shutdowns and crash points a server sees, in any order of its sessions, its runtime only ever
  makes steps of the runtime, satisfies the runtime's invariant, and keeps its configuration; a step
  of the service never changes the epoch or the boot identity a session was told.\<close>

theorem service_runtime_stays_reachable:
  assumes "server_run config n sv"
  shows "rt_reachable (sc_runtime config) (sv_world sv) \<and> rt_inv (fst (sv_world sv)) \<and> sv_config sv = config \<and>
    (\<forall>sv'. server_step sv sv' \<longrightarrow>
       rs_epoch (fst (sv_world sv')) = rs_epoch (fst (sv_world sv)) \<and>
       rs_boot (fst (sv_world sv')) = rs_boot (fst (sv_world sv)))"
proof -
  have "rs_epoch (fst (sv_world sv')) = rs_epoch (fst (sv_world sv)) \<and> rs_boot (fst (sv_world sv')) = rs_boot (fst (sv_world sv))"
    if "server_step sv sv'" for sv'
    using server_step_incarnation [OF that] by (simp add: incarnation_def)
  then show ?thesis
    using server_run_reachable [OF assms] runtime.reachable_inv [of "sc_runtime config" "sv_world sv"] by blast
qed

theorem service_runtime_stays_reachable_witness:
  "\<exists>sv sv'. server_run ex_server_config 4 sv \<and> rt_reachable (ex_config False) (sv_world sv) \<and> server_step sv sv' \<and>
     sv_world sv' \<noteq> sv_world sv \<and> rs_epoch (fst (sv_world sv')) = rs_epoch (fst (sv_world sv))"
proof -
  obtain sv sv' where e: "server_run ex_server_config 4 sv" "server_step sv sv'" "sv_world sv' \<noteq> sv_world sv"
    by (rule ex_detection_served)
  then show ?thesis using service_runtime_stays_reachable [OF e(1)] by auto
qed

text \<open>C4: Only an admitted client changes the runtime, and only with a valid request: when a step of
  the service changes the runtime, some connection was serving a session, the frame it took from
  its stream is an intact request of that session with a sequence greater than every earlier one and
  the current epoch, its payload decodes to a mutating operation other than shutdown, and the new
  state is exactly what the dispatch of that operation leaves; afterwards the session has taken the
  sequence of the request, so the same frame is not served twice.\<close>

theorem runtime_changes_only_for_valid_requests:
  assumes "server_step sv sv'" and "sv_world sv' \<noteq> sv_world sv"
  shows "\<exists>c s s' session previous f request clock response.
    sv_sessions sv c = Some s \<and> sn_phase s = Serving session previous \<and> \<not> sv_shutting_down sv \<and>
    fst (stream_next (sn_stream s)) = decode_frame (pending (sn_stream s)) \<and>
    wo_status (fst (stream_next (sn_stream s))) = WireComplete \<and> f = wo_frame (fst (stream_next (sn_stream s))) \<and>
    wf_type f = Request \<and> wf_session f = session \<and> previous < wf_sequence f \<and>
    wf_epoch f = rs_epoch (fst (sv_world sv)) \<and> decode_request (wf_payload f) = Inr request \<and>
    is_mutating_operation (rq_operation request) \<and> rq_operation request \<noteq> OpShutdown \<and>
    dispatch (rq_operation request) (rq_arguments request) clock (sv_world sv) = Some (response, sv_world sv') \<and>
    sv_sessions sv' c = Some s' \<and>
    sn_phase s' \<in> {Serving session (wf_sequence f), Finished} \<union> range Stalled"
proof -
  obtain c s s' session previous f request clock response where
    w: "sv_sessions sv c = Some s" "sn_phase s = Serving session previous"
    "valid_request sv s session previous f request" "is_mutating_operation (rq_operation request)"
    "rq_operation request \<noteq> OpShutdown"
    "dispatch (rq_operation request) (rq_arguments request) clock (sv_world sv) = Some (response, sv_world sv')"
    "sv_sessions sv' c = Some s'" "sn_phase s' \<in> {Serving session (wf_sequence f), Finished} \<union> range Stalled"
    using assms by (rule world_change_justified)
  have f: "wo_status (fst (stream_next (sn_stream s))) = WireComplete" "f = wo_frame (fst (stream_next (sn_stream s)))"
    using w(3) by (auto simp: valid_request_def next_frame_of_def split: prod.splits if_splits)
  show ?thesis
    by (intro exI conjI, rule w(1), rule w(2)) (use w f next_complete(2) [OF f(1)] in \<open>simp_all add: valid_request_def\<close>)
qed

theorem runtime_changes_only_for_valid_requests_witness:
  "\<exists>sv sv' (f :: wire_frame) (request :: request_payload). server_run ex_server_config 4 sv \<and> server_step sv sv' \<and> sv_world sv' \<noteq> sv_world sv \<and>
     wf_type f = Request \<and> decode_request (wf_payload f) = Inr request \<and> is_mutating_operation (rq_operation request)"
proof -
  obtain sv sv' where e: "server_run ex_server_config 4 sv" "server_step sv sv'" "sv_world sv' \<noteq> sv_world sv"
    by (rule ex_detection_served)
  then show ?thesis using runtime_changes_only_for_valid_requests [OF e(2,3)] by blast
qed

text \<open>C15: A session is admitted only by its token: when a step of a running server begins to serve a
  session, the frame its connection sent is an intact hello whose token is the server's, the server
  was not yet full, and the identity is new: greater than every identity being served.\<close>

theorem sessions_are_admitted_by_token:
  assumes "server_run config n sv" and "n < 2 ^ 64 - 1" and "server_step sv sv'"
    and "serves sv' c session" and "\<not> serves sv c session"
  shows "\<exists>s f hello. sv_sessions sv c = Some s \<and> next_frame_of s = Some f \<and> wf_type f = Hello \<and>
    decode_hello (wf_payload f) = Inr hello \<and> hp_token hello = sc_token config \<and>
    length (sv_table sv) < sc_max_sessions config \<and> (\<forall>c' other. serves sv c' other \<longrightarrow> other < session)"
proof -
  obtain s where s: "sv_sessions sv c = Some s" "presents_token sv s" "session = sv_session_counter sv + 1"
    "length (sv_table sv) < sc_max_sessions (sv_config sv)"
    using assms(3-5) by (rule admission_justified)
  have config: "sv_config sv = config" using server_run_reachable [OF assms(1)] by blast
  have ids: "inv_identities n sv" using server_run_inv [OF assms(1)] assms(2) by simp
  have next_id: "unat (sv_session_counter sv + 1) = unat (sv_session_counter sv) + 1"
    using ids assms(2) by (intro unat_next) (simp add: inv_identities_def)
  have "other < session" if "serves sv c' other" for c' other
  proof -
    have "other \<le> sv_session_counter sv" using ids that unfolding inv_identities_serves by blast
    then show ?thesis using s(3) next_id by (simp add: word_le_nat_alt word_less_nat_alt)
  qed
  then show ?thesis using s config by (auto simp: presents_token_def)
qed

theorem sessions_are_admitted_by_token_witness:
  "\<exists>sv sv' f hello. server_run ex_server_config 2 sv \<and> server_step sv sv' \<and> serves sv' 0 1 \<and>
     decode_hello (wf_payload (f :: wire_frame)) = Inr hello \<and> hp_token hello = ''token''"
proof -
  obtain sv sv' where e: "server_run ex_server_config 2 sv" "server_step sv sv'" "serves sv' 0 1" "\<not> serves sv 0 1"
    by (rule ex_handshake)
  obtain f hello where "decode_hello (wf_payload (f :: wire_frame)) = Inr hello" "hp_token hello = ''token''"
    using sessions_are_admitted_by_token [OF e(1) _ e(2-4)] by auto
  then show ?thesis using e by blast
qed



text \<open>C23: However the network cuts the bytes, the stream delivers exactly the frames that were sent,
  whole and in order, and keeps the beginning of the next one, provided every frame leaves room for
  one read in the buffer.\<close>

theorem frames_survive_any_chunking:
  assumes "readable chunks" and "\<And>f. f \<in> set fs \<Longrightarrow> fits_chunks kReadChunkBytes f"
    and "partial_frame kReadChunkBytes tail" and "concat chunks = concat (map encode_frame fs) @ tail"
  shows "\<exists>s. stream_run chunks empty_stream = (fs, WireNeedMore, s) \<and> pending s = tail \<and> \<not> fs_poisoned s"
proof -
  have "kReadChunkBytes \<le> kMaxBufferedBytes"
    by (simp add: kReadChunkBytes_def kMaxBufferedBytes_def kMaxFramePayloadBytes_def)
  moreover have "length c \<le> kReadChunkBytes" if "c \<in> set chunks" for c
    using assms(1) that by (simp add: readable_def)
  ultimately show ?thesis using stream_delivers_frames [OF _ _ assms(2-4)] by (auto simp: healthy_def)
qed

theorem frames_survive_any_chunking_witness:
  "\<exists>s. stream_run [take 60 ex_hello, drop 60 ex_hello] empty_stream =
     ([client_hello_frame ex_client_config], WireNeedMore, s) \<and> pending s = []"
proof -
  have len: "length ex_hello = 80"
    by (simp add: ex_hello_def client_hello_frame_def encode_hello_def ex_client_config_def length_fields)
  then have "readable [take 60 ex_hello, drop 60 ex_hello]" using ex_hello_size by (auto simp: kReadChunkBytes_def)
  then have "\<exists>s. stream_run [take 60 ex_hello, drop 60 ex_hello] empty_stream =
      ([client_hello_frame ex_client_config], WireNeedMore, s) \<and> pending s = [] \<and> \<not> fs_poisoned s"
    by (rule frames_survive_any_chunking) (use hello_sizes(1) [OF ex_wf_hello] in \<open>simp_all add: ex_hello_def\<close>)
  then show ?thesis by blast
qed

text \<open>C25: A frame is read back exactly, whatever follows it; any proper prefix of it asks for more
  bytes; and changing any single byte of it makes the decoder refuse it.\<close>

theorem frame_damage_is_detected:
  assumes "length (wf_payload f) \<le> kMaxFramePayloadBytes"
  shows "decode_frame (encode_frame f @ rest) = \<lparr>wo_status = WireComplete, wo_frame = f, wo_detail = []\<rparr> \<and>
    (\<forall>k. k < length (encode_frame f) \<longrightarrow> wo_status (decode_frame (take k (encode_frame f))) = WireNeedMore) \<and>
    (\<forall>i b. i < length (encode_frame f) \<and> b \<noteq> encode_frame f ! i \<longrightarrow>
       wo_status (decode_frame ((encode_frame f)[i := b] @ rest)) \<notin> {WireComplete, WireNeedMore})"
  using decode_encode_frame [OF assms] decode_partial_frame [OF assms] decode_damaged_frame [OF assms]
  by (simp add: wire_refused_def)

theorem frame_damage_is_detected_witness:
  "decode_frame (ex_hello @ [1, 2]) = \<lparr>wo_status = WireComplete, wo_frame = client_hello_frame ex_client_config, wo_detail = []\<rparr> \<and>
   wo_status (decode_frame (ex_hello[50 := ex_hello ! 50 + 1])) \<notin> {WireComplete, WireNeedMore}"
proof -
  have "length (wf_payload (client_hello_frame ex_client_config)) \<le> kMaxFramePayloadBytes"
    using hello_sizes(1) [OF ex_wf_hello] by (simp add: fits_chunks_def)
  note d = frame_damage_is_detected [OF this]
  have "50 < length ex_hello" by (simp add: ex_hello_def)
       (simp add: client_hello_frame_def encode_hello_def ex_client_config_def length_fields)
  then show ?thesis using d [of "[1, 2]"] d [of "[]"] by (simp add: ex_hello_def)
qed



text \<open>C27: Every response of the server carries no document or one JSON value: for every operation,
  arguments and state, the text parses to its end with the grammar of JSON.\<close>

theorem responses_carry_json:
  assumes "dispatch op arguments clock w = Some (response, w')"
  shows "rp_json response = [] \<or> (\<exists>value fuel. parse_json fuel (rp_json response) = Some (value, []))"
  using dispatch_documented [OF assms] by (simp add: documented_def json_text_def)

theorem responses_carry_json_witness:
  "\<exists>value fuel. parse_json fuel (describe_document ex_opened) = Some (value, []) \<and> describe_document ex_opened \<noteq> []"
proof -
  have "dispatch OpDescribe [] (0, 0) (ex_opened, ex_os) =
      Some (ok_with_json OpDescribe (describe_document ex_opened), ex_opened, ex_os)" by (simp add: dispatch_def)
  from responses_carry_json [OF this] show ?thesis by (simp add: ok_with_json_def describe_document_def)
qed





text \<open>C18: Connecting gives what the server answered: a hello with the server's token and a free place
  in its table makes a connected pair, on the identity, epoch and boot the server sent; any other
  token, or a full table, returns the server's refusal as an unauthorized status.\<close>

theorem connecting_returns_the_servers_answer:
  assumes "awaits_hello i sv" and "700 \<le> server_room i sv" and "\<not> so_closed k" and "400 \<le> so_room k"
    and "cc_port config \<noteq> 0"
    and "wf_hello \<lparr>hp_token = cc_token config, hp_label = cc_label config, hp_requested_epoch = 0\<rparr>"
    and "readable chunks" and "concat chunks = encode_frame (client_hello_frame config)"
    and "readable (so_incoming k)"
    and "concat (so_incoming k) = encode_frame (hello_ack_frame (handshake_answer sv (cc_token config)))"
  shows "\<exists>n sv' r k'. iterations clock i n (arrives i chunks sv) = Some sv' \<and> sv_world sv' = sv_world sv \<and>
    written_by i sv' = written_by i sv @ concat (so_incoming k) \<and>
    client_connect config (Inr k) = (r, Some k') \<and> so_written k' = so_written k @ concat chunks \<and>
    (if cc_token config = sc_token (sv_config sv) \<and> length (sv_table sv) < sc_max_sessions (sv_config sv)
     then \<exists>c. r = Inr c \<and> connected i sv' c \<and> cl_handshake c = accepted_ack (sv_session_counter sv + 1) sv
     else r = err Unauthorized (if cc_token config \<noteq> sc_token (sv_config sv) then ''unauthorized'' else ''session table full''))"
proof -
  let ?ok = "cc_token config = sc_token (sv_config sv) \<and> length (sv_table sv) < sc_max_sessions (sv_config sv)"
  have a: "handshake_answer sv (cc_token config) = (if ?ok then accepted_ack (sv_session_counter sv + 1) sv
      else refused_ack (if cc_token config \<noteq> sc_token (sv_config sv) then ''unauthorized'' else ''session table full''))"
    by (simp add: handshake_answer_def)
  have accepted: "ha_accepted (handshake_answer sv (cc_token config)) \<longleftrightarrow> ?ok"
    by (simp add: a accepted_ack_def refused_ack_def)
  have reason: "\<not> ?ok \<Longrightarrow> ha_reason (handshake_answer sv (cc_token config)) =
      (if cc_token config \<noteq> sc_token (sv_config sv) then ''unauthorized'' else ''session table full'')"
    by (simp add: a refused_ack_def)
  obtain n sv' r k' where c: "iterations clock i n (arrives i chunks sv) = Some sv'" "sv_world sv' = sv_world sv"
    "written_by i sv' = written_by i sv @ concat (so_incoming k)"
    "client_connect config (Inr k) = (r, Some k')" "so_written k' = so_written k @ concat chunks"
    "if ?ok then \<exists>c. r = Inr c \<and> connected i sv' c \<and> cl_handshake c = handshake_answer sv (cc_token config)
     else r = err Unauthorized (ha_reason (handshake_answer sv (cc_token config)))"
    by (rule connect_round_trip [OF assms, of clock, unfolded accepted])
  show ?thesis
    by (intro exI conjI, rule c(1), rule c(2), rule c(3), rule c(4), rule c(5)) (use c(6) a reason in \<open>simp split: if_splits\<close>)
qed

theorem connecting_returns_the_servers_answer_witness:
  "\<exists>n sv' k c k'. iterations (0, 0) 0 n (arrives 0 [ex_hello] ex_waiting) = Some sv' \<and>
     client_connect ex_client_config (Inr k) = (Inr c, Some k') \<and> connected 0 sv' c \<and> cl_handshake c = accepted_ack 1 ex_waiting"
proof -
  let ?k = "open_socket [encode_frame (hello_ack_frame (handshake_answer ex_waiting (cc_token ex_client_config)))] 10000"
  have k: "\<not> so_closed ?k" "400 \<le> so_room ?k" "so_incoming ?k =
      [encode_frame (hello_ack_frame (handshake_answer ex_waiting (cc_token ex_client_config)))]"
    by (simp_all add: open_socket_def)
  have small: "length (encode_frame (hello_ack_frame (handshake_answer ex_waiting (cc_token ex_client_config)))) \<le> 4096"
    using hello_ack_sizes(2) [OF handshake_answer_wf [of ex_waiting "cc_token ex_client_config"]] by linarith
  have r: "readable (so_incoming ?k)" "readable [ex_hello]"
    unfolding k(3) ex_hello_def
    by (rule readable_frame, rule small) (rule readable_frame, use ex_hello_size in \<open>simp add: ex_hello_def\<close>)
  have room: "700 \<le> server_room 0 ex_waiting" by (simp add: ex_waits(2))
  have fields: "cc_port ex_client_config \<noteq> 0" "concat [ex_hello] = encode_frame (client_hello_frame ex_client_config)"
    "cc_token ex_client_config = sc_token (sv_config ex_waiting)" "length (sv_table ex_waiting) < sc_max_sessions (sv_config ex_waiting)"
    "sv_session_counter ex_waiting = 0"
    by (simp_all add: ex_client_config_def ex_hello_def ex_waiting_def accept_connection_def ex_server_def)
  from connecting_returns_the_servers_answer [OF ex_waits(1) room k(1,2) fields(1) ex_wf_hello r(2) fields(2) r(1), of "(0, 0)"]
  have "\<exists>n sv' r k'. iterations (0, 0) 0 n (arrives 0 [ex_hello] ex_waiting) = Some sv' \<and>
      client_connect ex_client_config (Inr ?k) = (r, Some k') \<and>
      (\<exists>c. r = Inr c \<and> connected 0 sv' c \<and> cl_handshake c = accepted_ack 1 ex_waiting)"
    using fields(3-5) k(3) by fastforce
  then show ?thesis by blast
qed

end
