(* ===== verification/App_Config.thy ===== *)
theory App_Config
  imports Model_Topology Model_Policy Model_Evidence Core_Decimal
begin

section \<open>Configuration text\<close>

text \<open>
  \<open>apps/support/config_text.cpp\<close>: the line formats of topology, evidence and policy files, the
  writer of topology files, and the scanner that takes a number out of a JSON document. A file is
  its text, or \<open>None\<close> when it cannot be opened. The iteration order of the \<open>unordered_map\<close> that
  holds the fields of a line is not specified by the language: it is the argument \<open>order\<close>, a
  function that permutes the fields.
\<close>

subsection \<open>Words, numbers, flags, fields\<close>

definition kMaxLines :: nat where "kMaxLines = 200000"
definition kMaxLineLength :: nat where "kMaxLineLength = 512"

text \<open>\<open>operator>>\<close> on a string stream: maximal runs of characters that are not white space.\<close>

definition is_space :: "char \<Rightarrow> bool" where
  "is_space c \<longleftrightarrow> c \<in> {CHR '' '', CHR 0x09, CHR 0x0A, CHR 0x0B, CHR 0x0C, CHR 0x0D}"

definition in_word :: "char \<Rightarrow> bool" where "in_word c \<longleftrightarrow> \<not> is_space c"

function split_words :: "string \<Rightarrow> string list" where
  "split_words line =
     (case dropWhile is_space line of
        [] \<Rightarrow> []
      | c # cs \<Rightarrow> (c # takeWhile in_word cs) # split_words (dropWhile in_word cs))"
  by pat_completeness auto

termination split_words
proof (relation "measure length")
  fix line c cs
  assume "dropWhile is_space line = c # cs"
  then have "length (c # cs) \<le> length line" by (metis length_dropWhile_le)
  moreover have "length (dropWhile in_word cs) \<le> length cs" by (rule length_dropWhile_le)
  ultimately show "(dropWhile in_word cs, line) \<in> measure length" by simp
qed simp

declare split_words.simps [simp del]

text \<open>The value accumulates modulo \<open>2 ^ 64\<close>: only the number of digits is bounded.\<close>

fun config_u64_loop :: "u64 \<Rightarrow> string \<Rightarrow> u64 option" where
  "config_u64_loop value [] = Some value"
| "config_u64_loop value (c # cs) =
     (if c < CHR ''0'' \<or> c > CHR ''9'' then None
      else config_u64_loop (value * 10 + of_nat (of_char c - of_char (CHR ''0''))) cs)"

definition config_u64 :: "string \<Rightarrow> u64 option" where
  "config_u64 text = (if text = [] \<or> length text > 20 then None else config_u64_loop 0 text)"

definition parse_bool :: "string \<Rightarrow> bool option" where
  "parse_bool text =
     (if text = ''1'' \<or> text = ''true'' \<or> text = ''yes'' then Some True
      else if text = ''0'' \<or> text = ''false'' \<or> text = ''no'' then Some False else None)"

type_synonym line_fields = "(string \<times> string) list"

definition split_field :: "string \<Rightarrow> (string \<times> string) option" where
  "split_field part =
     (if CHR ''='' \<notin> set part then None
      else Some (takeWhile (\<lambda>c. c \<noteq> CHR ''='') part, tl (dropWhile (\<lambda>c. c \<noteq> CHR ''='') part)))"

text \<open>\<open>emplace\<close> keeps the first value of a key; a word without an equals sign is skipped.\<close>

fun word_fields :: "line_fields \<Rightarrow> string list \<Rightarrow> line_fields" where
  "word_fields found [] = found"
| "word_fields found (part # parts) =
     (case split_field part of
        None \<Rightarrow> word_fields found parts
      | Some (k, v) \<Rightarrow>
          word_fields (if map_of found k = None then found @ [(k, v)] else found) parts)"

fun apply_fields :: "(string \<times> string \<Rightarrow> 'a \<Rightarrow> 'a result) \<Rightarrow> line_fields \<Rightarrow> 'a \<Rightarrow> 'a result" where
  "apply_fields assign [] x = Inr x"
| "apply_fields assign (f # fs) x = try_result (assign f x) (apply_fields assign fs)"

subsection \<open>Lines\<close>

text \<open>\<open>std::getline\<close>: a final newline does not begin another line.\<close>

function text_lines :: "string \<Rightarrow> string list" where
  "text_lines s =
     (if s = [] then []
      else takeWhile (\<lambda>c. c \<noteq> CHR 0x0A) s # text_lines (tl (dropWhile (\<lambda>c. c \<noteq> CHR 0x0A) s)))"
  by pat_completeness auto

termination text_lines
proof (relation "measure length")
  fix s :: string
  assume "s \<noteq> []"
  moreover have "length (dropWhile (\<lambda>c. c \<noteq> CHR 0x0A) s) \<le> length s" by (rule length_dropWhile_le)
  ultimately show "(tl (dropWhile (\<lambda>c. c \<noteq> CHR 0x0A) s), s) \<in> measure length"
    by (cases s) (auto simp: less_Suc_eq_le)
qed simp

declare text_lines.simps [simp del]

definition strip_comment :: "string \<Rightarrow> string" where
  "strip_comment line = takeWhile (\<lambda>c. c \<noteq> CHR ''#'') line"

fun lines_loop :: "nat \<Rightarrow> string list \<Rightarrow> string list result" where
  "lines_loop n [] = Inr []"
| "lines_loop n (line # lines) =
     (if length line > kMaxLineLength then err LimitExceeded ''configuration line exceeds the bound''
      else if n \<ge> kMaxLines then err LimitExceeded ''configuration file exceeds the line bound''
      else try_result (lines_loop (Suc n) lines) (\<lambda>rest. Inr (strip_comment line # rest)))"

definition read_lines :: "string option \<Rightarrow> string list result" where
  "read_lines file_text =
     (case file_text of
        None \<Rightarrow> err NotFound ''cannot open configuration file''
      | Some content \<Rightarrow> lines_loop 0 (text_lines content))"

text \<open>The loop of the three parsers over the words of each line.\<close>

fun parse_lines :: "(string list \<Rightarrow> 'a \<Rightarrow> 'a result) \<Rightarrow> string list \<Rightarrow> 'a \<Rightarrow> 'a result" where
  "parse_lines directive [] x = Inr x"
| "parse_lines directive (line # lines) x =
     (let parts = split_words line
      in if parts = [] then parse_lines directive lines x
         else try_result (directive parts x) (parse_lines directive lines))"

subsection \<open>Topology files\<close>

definition node_field :: "string \<times> string \<Rightarrow> node_spec \<Rightarrow> node_spec result" where
  "node_field f node =
     (if fst f = ''containable'' then
        (case parse_bool (snd f) of None \<Rightarrow> err InvalidArgument ''node containable flag is malformed''
         | Some b \<Rightarrow> Inr (node\<lparr>ns_containable := b\<rparr>))
      else if fst f = ''protected'' then
        (case parse_bool (snd f) of None \<Rightarrow> err InvalidArgument ''node protected flag is malformed''
         | Some b \<Rightarrow> Inr (node\<lparr>ns_protected := b\<rparr>))
      else if fst f = ''weight'' then
        (case config_u64 (snd f) of None \<Rightarrow> err InvalidArgument ''node weight is malformed''
         | Some v \<Rightarrow> Inr (node\<lparr>ns_weight := v\<rparr>))
      else if fst f = ''completeness'' then
        (case parse_adjacency_completeness (snd f) of None \<Rightarrow> err InvalidArgument ''node completeness is malformed''
         | Some c \<Rightarrow> Inr (node\<lparr>ns_completeness := c\<rparr>))
      else err InvalidArgument ''unknown node field'')"

definition edge_field :: "string \<times> string \<Rightarrow> edge_spec \<Rightarrow> edge_spec result" where
  "edge_field f edge =
     (if fst f = ''evidence'' then
        (case parse_edge_evidence (snd f) of None \<Rightarrow> err InvalidArgument ''edge evidence is malformed''
         | Some e \<Rightarrow> Inr (edge\<lparr>es_evidence := e\<rparr>))
      else if fst f = ''generation'' then
        (case config_u64 (snd f) of None \<Rightarrow> err InvalidArgument ''edge generation is malformed''
         | Some v \<Rightarrow> Inr (edge\<lparr>es_generation := v\<rparr>))
      else err InvalidArgument ''unknown edge field'')"

definition new_node :: "resource_id \<Rightarrow> node_spec" where
  "new_node i = \<lparr>ns_id = i, ns_containable = False, ns_weight = 1, ns_protected = False, ns_completeness = AdjComplete\<rparr>"

definition new_edge :: "resource_id \<Rightarrow> resource_id \<Rightarrow> edge_spec" where
  "new_edge from to = \<lparr>es_from = from, es_to = to, es_evidence = EdgeUnknown, es_generation = 0\<rparr>"

definition topology_directive :: "(line_fields \<Rightarrow> line_fields) \<Rightarrow> string list \<Rightarrow> topology_spec \<Rightarrow> topology_spec result" where
  "topology_directive order parts spec =
     (if parts ! 0 = ''generation'' \<and> length parts = 2 then
        (case config_u64 (parts ! 1) of None \<Rightarrow> err InvalidArgument ''topology generation is malformed''
         | Some v \<Rightarrow> Inr (spec\<lparr>ts_generation := v\<rparr>))
      else if parts ! 0 = ''node'' \<and> length parts \<ge> 2 then
        try_result (parse_resource_id (parts ! 1)) (\<lambda>i.
        try_result (apply_fields node_field (order (word_fields [] (drop 2 parts))) (new_node i)) (\<lambda>node.
        Inr (spec\<lparr>ts_nodes := ts_nodes spec @ [node]\<rparr>)))
      else if parts ! 0 = ''edge'' \<and> length parts \<ge> 3 then
        try_result (parse_resource_id (parts ! 1)) (\<lambda>from.
        try_result (parse_resource_id (parts ! 2)) (\<lambda>to.
        try_result (apply_fields edge_field (order (word_fields [] (drop 3 parts))) (new_edge from to)) (\<lambda>edge.
        let edge1 = (if es_generation edge = 0 then edge\<lparr>es_generation := 1\<rparr> else edge)
        in Inr (spec\<lparr>ts_edges := ts_edges spec @ [edge1]\<rparr>))))
      else err InvalidArgument ''unrecognised topology directive'')"

definition empty_spec :: topology_spec where
  "empty_spec = \<lparr>ts_generation = 0, ts_nodes = [], ts_edges = []\<rparr>"

definition parse_topology_file :: "(line_fields \<Rightarrow> line_fields) \<Rightarrow> string option \<Rightarrow> topology_spec result" where
  "parse_topology_file order file_text =
     try_result (read_lines file_text) (\<lambda>lines. parse_lines (topology_directive order) lines empty_spec)"

subsection \<open>Evidence files\<close>

definition observation_field :: "string \<times> string \<Rightarrow> failure_observation \<Rightarrow> failure_observation result" where
  "observation_field f obs =
     (if fst f = ''digest'' then
        (case digest_parse (snd f) of None \<Rightarrow> err InvalidArgument ''evidence digest is malformed''
         | Some d \<Rightarrow> Inr (obs\<lparr>fo_digest := d\<rparr>))
      else if fst f = ''at'' then
        (case config_u64 (snd f) of None \<Rightarrow> err InvalidArgument ''evidence timestamp is malformed''
         | Some v \<Rightarrow> Inr (obs\<lparr>fo_observed_at := v\<rparr>))
      else err InvalidArgument ''unknown evidence field'')"

definition evidence_directive :: "(line_fields \<Rightarrow> line_fields) \<Rightarrow> string list \<Rightarrow> failure_observation list \<Rightarrow>
    failure_observation list result" where
  "evidence_directive order parts observations =
     (if length parts < 3 then err InvalidArgument ''evidence line requires resource, state, generation''
      else try_result (parse_resource_id (parts ! 0)) (\<lambda>i.
        case parse_evidence_state (parts ! 1) of None \<Rightarrow> err InvalidArgument ''evidence state is malformed''
        | Some state \<Rightarrow>
          (case config_u64 (parts ! 2) of None \<Rightarrow> err InvalidArgument ''evidence generation is malformed''
           | Some generation \<Rightarrow>
              try_result (apply_fields observation_field (order (word_fields [] (drop 3 parts)))
                  \<lparr>fo_resource = i, fo_state = state, fo_generation = generation, fo_digest = zero_digest,
                   fo_observed_at = 0\<rparr>) (\<lambda>obs. Inr (observations @ [obs])))))"

definition parse_evidence_file :: "(line_fields \<Rightarrow> line_fields) \<Rightarrow> string option \<Rightarrow> failure_observation list result" where
  "parse_evidence_file order file_text =
     try_result (read_lines file_text) (\<lambda>lines. parse_lines (evidence_directive order) lines [])"

subsection \<open>Policy files\<close>

definition policy_flag :: "string \<Rightarrow> (bool \<Rightarrow> containment_policy) \<Rightarrow> containment_policy result" where
  "policy_flag text set_flag =
     (case parse_bool text of None \<Rightarrow> err InvalidArgument ''policy flag is malformed'' | Some b \<Rightarrow> Inr (set_flag b))"

definition policy_number :: "string \<Rightarrow> string \<Rightarrow> (u64 \<Rightarrow> containment_policy) \<Rightarrow> containment_policy result" where
  "policy_number text message set_number =
     (case config_u64 text of None \<Rightarrow> err InvalidArgument message
      | Some v \<Rightarrow> if v = 0 then err InvalidArgument message else Inr (set_number v))"

definition policy_directive :: "string list \<Rightarrow> containment_policy \<Rightarrow> containment_policy result" where
  "policy_directive parts p =
     (if length parts \<noteq> 2 then err InvalidArgument ''policy directive requires a key and a value''
      else let key = parts ! 0; v = parts ! 1
        in if key = ''generation''
             then policy_number v ''policy generation must be a positive integer'' (\<lambda>n. p\<lparr>cp_generation := n\<rparr>)
           else if key = ''require_failure_source_inclusion'' then policy_flag v (\<lambda>b. p\<lparr>cp_require_source := b\<rparr>)
           else if key = ''allow_protected_inclusion'' then policy_flag v (\<lambda>b. p\<lparr>cp_allow_protected := b\<rparr>)
           else if key = ''minimize_protected_inclusions'' then policy_flag v (\<lambda>b. p\<lparr>cp_minimize_protected := b\<rparr>)
           else if key = ''max_boundary_weight''
             then policy_number v ''policy weight bound is malformed'' (\<lambda>n. p\<lparr>cp_max_weight := n\<rparr>)
           else if key = ''max_boundary_members''
             then policy_number v ''policy member bound is malformed'' (\<lambda>n. p\<lparr>cp_max_members := n\<rparr>)
           else if key = ''exact_search_budget''
             then policy_number v ''policy search budget is malformed'' (\<lambda>n. p\<lparr>cp_exact_budget := n\<rparr>)
           else if key = ''heuristic_budget''
             then policy_number v ''policy heuristic budget is malformed'' (\<lambda>n. p\<lparr>cp_heuristic_budget := n\<rparr>)
           else if key = ''exact_instance_node_limit''
             then policy_number v ''policy node limit is malformed'' (\<lambda>n. p\<lparr>cp_node_limit := n\<rparr>)
           else err InvalidArgument ''unknown policy field'')"

definition parse_policy_file :: "string option \<Rightarrow> containment_policy result" where
  "parse_policy_file file_text =
     try_result (read_lines file_text) (\<lambda>lines. parse_lines policy_directive lines default_policy)"

subsection \<open>Writing a topology\<close>

definition flag_digit :: "bool \<Rightarrow> string" where "flag_digit b = (if b then ''1'' else ''0'')"

definition generation_line :: "topology \<Rightarrow> string" where
  "generation_line t = ''generation '' @ u64_string (t_generation t)"

definition node_line :: "node_spec \<Rightarrow> string" where
  "node_line n = ''node '' @ ns_id n @ '' containable='' @ flag_digit (ns_containable n) @
     '' weight='' @ u64_string (ns_weight n) @ '' protected='' @ flag_digit (ns_protected n) @
     '' completeness='' @ completeness_to_string (ns_completeness n)"

definition edge_line :: "topology \<Rightarrow> topo_edge \<Rightarrow> string" where
  "edge_line t e = ''edge '' @ ns_id (t_nodes t ! te_from e) @ '' '' @ ns_id (t_nodes t ! te_to e) @
     '' evidence='' @ edge_evidence_to_string (te_evidence e) @ '' generation='' @ u64_string (te_generation e)"

definition topology_file_lines :: "topology \<Rightarrow> string list" where
  "topology_file_lines t = generation_line t # map node_line (t_nodes t) @ map (edge_line t) (t_edges t)"

definition write_topology_file :: "topology \<Rightarrow> string" where
  "write_topology_file t = concat (map (\<lambda>line. line @ [CHR 0x0A]) (topology_file_lines t))"

subsection \<open>Numbers out of a document\<close>

text \<open>What follows the first occurrence of a text.\<close>

fun text_after :: "string \<Rightarrow> string \<Rightarrow> string option" where
  "text_after needle s =
     (if take (length needle) s = needle then Some (drop (length needle) s)
      else case s of [] \<Rightarrow> None | c # cs \<Rightarrow> text_after needle cs)"

declare text_after.simps [simp del]

definition config_digit :: "char \<Rightarrow> bool" where
  "config_digit c \<longleftrightarrow> CHR ''0'' \<le> c \<and> c \<le> CHR ''9''"

definition json_field_u64 :: "string \<Rightarrow> string \<Rightarrow> u64 option" where
  "json_field_u64 document key =
     (case text_after (CHR 0x22 # key @ [CHR 0x22, CHR '':'']) document of
        None \<Rightarrow> None
      | Some rest \<Rightarrow>
          (let digits = takeWhile config_digit (dropWhile (\<lambda>c. c = CHR '' '') rest)
           in if digits = [] then None
              else Some (foldl (\<lambda>v c. v * 10 + of_nat (of_char c - of_char (CHR ''0''))) 0 digits)))"

subsection \<open>Numbers of the command line\<close>

text \<open>\<open>std::strtoull\<close> in base ten: blanks, a sign, digits; it saturates, and a minus negates the word.\<close>

definition strtoull :: "string \<Rightarrow> u64" where
  "strtoull text =
     (let s = dropWhile is_space text;
          negative = (s \<noteq> [] \<and> hd s = CHR ''-'');
          body = (if s \<noteq> [] \<and> (hd s = CHR ''-'' \<or> hd s = CHR ''+'') then tl s else s);
          v = foldl (\<lambda>v c. v * 10 + (of_char c - of_char (CHR ''0'') :: nat)) 0 (takeWhile config_digit body)
      in if v \<ge> 2 ^ 64 then -1 else if negative then - of_nat v else of_nat v)"

end
