(* ===== verification/App_Export.thy ===== *)
theory App_Export
  imports App_Config
begin

section \<open>An exported topology parses back\<close>

text \<open>
  What \<open>write_topology_file\<close> writes, \<open>parse_topology_file\<close> reads as the description of the same
  topology, whatever the iteration order of the field map; and the number scanner of the formats
  wraps where the one of the store refuses.
\<close>

subsection \<open>Lines and words\<close>

lemma text_lines_Cons:
  assumes "CHR 0x0A \<notin> set l"
  shows "text_lines (l @ CHR 0x0A # s) = l # text_lines s"
proof -
  have "takeWhile (\<lambda>c. c \<noteq> CHR 0x0A) (l @ CHR 0x0A # s) = l" "dropWhile (\<lambda>c. c \<noteq> CHR 0x0A) (l @ CHR 0x0A # s) = CHR 0x0A # s"
    using assms by (induction l) auto
  then show ?thesis by (subst text_lines.simps) simp
qed

lemma text_lines_join:
  "(\<And>l. l \<in> set ls \<Longrightarrow> CHR 0x0A \<notin> set l) \<Longrightarrow> text_lines (concat (map (\<lambda>l. l @ [CHR 0x0A]) ls)) = ls"
proof (induction ls)
  case Nil
  show ?case by (subst text_lines.simps) simp
next
  case (Cons l ls)
  then show ?case by (simp add: text_lines_Cons)
qed

text \<open>A word: visible characters only, so it is neither split nor a comment.\<close>

definition word :: "string \<Rightarrow> bool" where
  "word w \<longleftrightarrow> w \<noteq> [] \<and> (\<forall>c \<in> set w. in_word c \<and> c \<noteq> CHR ''#'')"

fun join_words :: "string list \<Rightarrow> string" where
  "join_words [] = []"
| "join_words [w] = w"
| "join_words (w # ws) = w @ '' '' @ join_words ws"

lemma split_word:
  assumes "word w" and "rest = [] \<or> is_space (hd rest)"
  shows "split_words (w @ rest) = w # split_words rest"
proof -
  obtain c cs where w: "w = c # cs" "in_word c" "\<forall>x \<in> set cs. in_word x" using assms(1) by (cases w) (auto simp: word_def)
  have d: "dropWhile is_space (w @ rest) = c # cs @ rest" using w(1,2) by (simp add: in_word_def)
  have t: "takeWhile in_word (cs @ rest) = cs" "dropWhile in_word (cs @ rest) = rest"
    using w(3) assms(2) by (cases rest; simp add: takeWhile_append2 dropWhile_append2 in_word_def)+
  show ?thesis by (subst split_words.simps, unfold d) (simp add: t w(1))
qed

lemma split_space: "is_space c \<Longrightarrow> split_words (c # s) = split_words s"
  by (simp add: split_words.simps [of "c # s"] split_words.simps [of s])

lemma space_is_space [simp]: "is_space CHR '' ''"
  by (simp add: is_space_def)

lemma split_join: "(\<And>w. w \<in> set ws \<Longrightarrow> word w) \<Longrightarrow> split_words (join_words ws) = ws"
proof (induction ws rule: join_words.induct)
  case 1
  show ?case by (simp add: split_words.simps)
next
  case (2 w)
  have "split_words [] = []" by (simp add: split_words.simps)
  then show ?case using split_word [of w "[]"] 2 by simp
next
  case (3 w v vs)
  then have "split_words (w @ CHR '' '' # join_words (v # vs)) = w # split_words (CHR '' '' # join_words (v # vs))"
    by (intro split_word) simp_all
  then show ?case using 3 by (simp add: split_space)
qed

lemma join_set: "c \<in> set (join_words ws) \<Longrightarrow> c = CHR '' '' \<or> (\<exists>w \<in> set ws. c \<in> set w)"
  by (induction ws rule: join_words.induct) auto

lemma join_plain:
  assumes "\<And>w. w \<in> set ws \<Longrightarrow> word w"
  shows "CHR 0x0A \<notin> set (join_words ws)" and "strip_comment (join_words ws) = join_words ws"
proof -
  have c: "c \<noteq> CHR ''#'' \<and> c \<noteq> CHR 0x0A" if "c \<in> set (join_words ws)" for c
    using join_set [OF that] assms by (auto simp: word_def in_word_def is_space_def)
  show "CHR 0x0A \<notin> set (join_words ws)" using c by blast
  show "strip_comment (join_words ws) = join_words ws"
    unfolding strip_comment_def using c by (simp add: takeWhile_eq_all_conv)
qed

subsection \<open>Words that the writer uses\<close>

lemma word_append: "word u \<Longrightarrow> word v \<Longrightarrow> word (u @ v)"
  by (auto simp: word_def)

lemma allowed_in_word: "is_allowed_char c \<Longrightarrow> in_word c \<and> c \<noteq> CHR ''#''"
  by (auto simp: is_allowed_char_def in_word_def is_space_def less_eq_char_def Let_def)

lemma resource_chars_allowed: "resource_chars_ok s \<Longrightarrow> c \<in> set s \<Longrightarrow> is_allowed_char c"
  by (induction s) (auto split: if_splits)

lemma word_resource: "is_valid_resource_id i \<Longrightarrow> word i"
  using resource_chars_allowed allowed_in_word
  by (auto simp: word_def is_valid_resource_id_def split: if_splits)

lemma dec_string_chars: "c \<in> set (dec_string n) \<Longrightarrow> \<exists>k < 10. c = dec_digit k"
proof (induction n rule: dec_string.induct)
  case (1 n)
  show ?case
  proof (cases "n < 10")
    case True
    then show ?thesis using "1.prems" by (auto simp: dec_string.simps [of n])
  next
    case False
    then have "c \<in> set (dec_string (n div 10)) \<or> c = dec_digit (n mod 10)"
      using "1.prems" by (auto simp: dec_string.simps [of n])
    moreover have "n mod 10 < 10" by simp
    ultimately show ?thesis using "1.IH" [OF False] by blast
  qed
qed

lemma word_number: "word (u64_string v)"
proof -
  have "in_word (dec_digit k) \<and> dec_digit k \<noteq> CHR ''#''" if "k < 10" for k
    using dec_digit_cases [OF that] by (auto simp: in_word_def is_space_def)
  then have "in_word c \<and> c \<noteq> CHR ''#''" if "c \<in> set (dec_string n)" for c n
    using dec_string_chars [OF that] by auto
  then show ?thesis by (auto simp: word_def u64_string_def dec_string_nonempty)
qed

lemma config_loop_parse: "parse_u64_loop v cs = Some w \<Longrightarrow> config_u64_loop v cs = Some w"
  by (induction v cs rule: parse_u64_loop.induct) (auto simp: Let_def split: if_splits)

lemma config_u64_string [simp]: "config_u64 (u64_string v) = Some v"
  using parse_u64_string [of v] config_loop_parse [of 0 "u64_string v" v]
  by (auto simp: parse_u64_def config_u64_def split: if_splits)

text \<open>Twenty digits may exceed 64 bits; the accumulated value is then another number.\<close>

lemma config_number_wraps:
  "config_u64 ''18446744073709551617'' = Some 1" "parse_u64 ''18446744073709551617'' = None"
  by (simp_all add: config_u64_def parse_u64_def less_char_def kU64Max_def)

subsection \<open>Fields in any order\<close>

text \<open>When every field is accepted and their effects commute, the order does not matter.\<close>

lemma apply_fields_all:
  "(\<And>f x. f \<in> set fs \<Longrightarrow> assign f x = Inr (update f x)) \<Longrightarrow> apply_fields assign fs x = Inr (fold update fs x)"
  by (induction fs arbitrary: x) simp_all

lemma apply_fields_order:
  assumes "mset fs = mset gs" and "\<And>f x. f \<in> set gs \<Longrightarrow> assign f x = Inr (update f x)"
    and "\<And>f g x. f \<in> set gs \<Longrightarrow> g \<in> set gs \<Longrightarrow> update f (update g x) = update g (update f x)"
  shows "apply_fields assign fs x = Inr (fold update gs x)"
proof -
  have s: "set fs = set gs" using assms(1) by (metis set_mset_mset)
  have "fold update fs = fold update gs"
    by (rule fold_multiset_equiv) (use assms(1,3) s in \<open>auto simp: fun_eq_iff\<close>)
  then show ?thesis using apply_fields_all [of fs assign update x] assms(2) s by simp
qed

lemma split_field_eq [simp]:
  assumes "CHR ''='' \<notin> set k"
  shows "split_field (k @ CHR ''='' # v) = Some (k, v)"
proof -
  have "takeWhile (\<lambda>c. c \<noteq> CHR ''='') (k @ CHR ''='' # v) = k" "dropWhile (\<lambda>c. c \<noteq> CHR ''='') (k @ CHR ''='' # v) = CHR ''='' # v"
    using assms by (induction k) auto
  then show ?thesis by (simp add: split_field_def)
qed

definition node_words :: "node_spec \<Rightarrow> string list" where
  "node_words n = [''node'', ns_id n, ''containable='' @ flag_digit (ns_containable n),
     ''weight='' @ u64_string (ns_weight n), ''protected='' @ flag_digit (ns_protected n),
     ''completeness='' @ completeness_to_string (ns_completeness n)]"

definition node_fields :: "node_spec \<Rightarrow> line_fields" where
  "node_fields n = [(''containable'', flag_digit (ns_containable n)), (''weight'', u64_string (ns_weight n)),
     (''protected'', flag_digit (ns_protected n)), (''completeness'', completeness_to_string (ns_completeness n))]"

definition edge_words :: "topology \<Rightarrow> topo_edge \<Rightarrow> string list" where
  "edge_words t e = [''edge'', ns_id (t_nodes t ! te_from e), ns_id (t_nodes t ! te_to e),
     ''evidence='' @ edge_evidence_to_string (te_evidence e), ''generation='' @ u64_string (te_generation e)]"

definition edge_fields :: "topo_edge \<Rightarrow> line_fields" where
  "edge_fields e = [(''evidence'', edge_evidence_to_string (te_evidence e)), (''generation'', u64_string (te_generation e))]"

lemma lines_as_words:
  "generation_line t = join_words [''generation'', u64_string (t_generation t)]"
  "node_line n = join_words (node_words n)" "edge_line t e = join_words (edge_words t e)"
  by (simp_all add: generation_line_def node_line_def node_words_def edge_line_def edge_words_def)

lemma fields_of_words:
  "word_fields [] (drop 2 (node_words n)) = node_fields n" "word_fields [] (drop 3 (edge_words t e)) = edge_fields e"
  using split_field_eq [of "''containable''"] split_field_eq [of "''weight''"] split_field_eq [of "''protected''"]
    split_field_eq [of "''completeness''"] split_field_eq [of "''evidence''"] split_field_eq [of "''generation''"]
  by (simp_all add: node_words_def node_fields_def edge_words_def edge_fields_def)

lemma words_ok [simp]:
  "word ''generation''" "word ''node''" "word ''edge''" "word ''containable=''" "word ''weight=''" "word ''protected=''"
  "word ''completeness=''" "word ''evidence=''" "word ''generation=''" "word (flag_digit b)"
  "word (completeness_to_string c)" "word (edge_evidence_to_string v)"
  by (simp_all add: word_def in_word_def is_space_def flag_digit_def)
    ((cases c; simp add: completeness_to_string_def kCompletenessTokens_def),
     (cases v; simp add: edge_evidence_to_string_def kEdgeTokens_def))

lemma node_words_ok: "is_valid_resource_id (ns_id n) \<Longrightarrow> w \<in> set (node_words n) \<Longrightarrow> word w"
  using word_append [OF words_ok(4)] word_append [OF words_ok(5) word_number] word_append [OF words_ok(6)]
    word_append [OF words_ok(7)] word_resource
  by (auto simp: node_words_def)

lemma edge_words_ok:
  assumes "is_valid_resource_id (ns_id (t_nodes t ! te_from e))" and "is_valid_resource_id (ns_id (t_nodes t ! te_to e))"
    and "w \<in> set (edge_words t e)"
  shows "word w"
  using assms word_append [OF words_ok(8)] word_append [OF words_ok(9) word_number] word_resource
  by (auto simp: edge_words_def)

subsection \<open>Directives\<close>

lemma parse_bool_flag [simp]: "parse_bool (flag_digit b) = Some b"
  by (simp add: parse_bool_def flag_digit_def)

lemma parse_written_tokens [simp]:
  "parse_adjacency_completeness (completeness_to_string c) = Some c" "parse_edge_evidence (edge_evidence_to_string v) = Some v"
  by (simp_all add: parse_adjacency_completeness_def completeness_to_string_def parse_edge_evidence_def
      edge_evidence_to_string_def completeness_tokens.parse_print edge_tokens.parse_print)

lemma written_node_fields:
  "node_field (''containable'', flag_digit b) n = Inr (n\<lparr>ns_containable := b\<rparr>)"
  "node_field (''weight'', u64_string v) n = Inr (n\<lparr>ns_weight := v\<rparr>)"
  "node_field (''protected'', flag_digit b) n = Inr (n\<lparr>ns_protected := b\<rparr>)"
  "node_field (''completeness'', completeness_to_string c) n = Inr (n\<lparr>ns_completeness := c\<rparr>)"
  by (simp_all add: node_field_def)

lemma written_edge_fields:
  "edge_field (''evidence'', edge_evidence_to_string v) e = Inr (e\<lparr>es_evidence := v\<rparr>)"
  "edge_field (''generation'', u64_string g) e = Inr (e\<lparr>es_generation := g\<rparr>)"
  by (simp_all add: edge_field_def)

text \<open>An order of iteration visits the fields, each once.\<close>

definition iterates :: "(line_fields \<Rightarrow> line_fields) \<Rightarrow> bool" where
  "iterates order \<longleftrightarrow> (\<forall>fs. mset (order fs) = mset fs)"

lemma node_fields_applied:
  assumes "iterates order"
  shows "apply_fields node_field (order (node_fields n)) (new_node (ns_id n)) = Inr n"
proof -
  let ?u = "\<lambda>f x. projr (node_field f x)"
  have "apply_fields node_field (order (node_fields n)) (new_node (ns_id n)) = Inr (fold ?u (node_fields n) (new_node (ns_id n)))"
    by (rule apply_fields_order) (use assms in \<open>auto simp: iterates_def node_fields_def written_node_fields\<close>)
  then show ?thesis by (simp add: node_fields_def written_node_fields new_node_def)
qed

lemma edge_fields_applied:
  assumes "iterates order"
  shows "apply_fields edge_field (order (edge_fields e)) (new_edge from to) =
    Inr \<lparr>es_from = from, es_to = to, es_evidence = te_evidence e, es_generation = te_generation e\<rparr>"
proof -
  let ?u = "\<lambda>f x. projr (edge_field f x)"
  have "apply_fields edge_field (order (edge_fields e)) (new_edge from to) = Inr (fold ?u (edge_fields e) (new_edge from to))"
    by (rule apply_fields_order) (use assms in \<open>auto simp: iterates_def edge_fields_def written_edge_fields\<close>)
  then show ?thesis by (simp add: edge_fields_def written_edge_fields new_edge_def)
qed

lemma node_directive:
  assumes "iterates order" and "is_valid_resource_id (ns_id n)"
  shows "topology_directive order (node_words n) spec = Inr (spec\<lparr>ts_nodes := ts_nodes spec @ [n]\<rparr>)"
proof -
  have w: "node_words n ! 0 = ''node''" "2 \<le> length (node_words n)" "node_words n ! Suc 0 = ns_id n"
    by (simp_all add: node_words_def)
  show ?thesis
    by (simp add: topology_directive_def w fields_of_words node_fields_applied [OF assms(1)] assms(2))
qed

lemma edge_directive:
  assumes "iterates order" and "is_valid_resource_id (ns_id (t_nodes t ! te_from e))"
    and "is_valid_resource_id (ns_id (t_nodes t ! te_to e))" and "te_generation e \<noteq> 0"
  shows "topology_directive order (edge_words t e) spec = Inr (spec\<lparr>ts_edges := ts_edges spec @ [edge_view (t_nodes t) e]\<rparr>)"
proof -
  have w: "edge_words t e ! 0 = ''edge''" "3 \<le> length (edge_words t e)"
    "edge_words t e ! Suc 0 = ns_id (t_nodes t ! te_from e)" "edge_words t e ! 2 = ns_id (t_nodes t ! te_to e)"
    by (simp_all add: edge_words_def)
  show ?thesis
    using assms(2-4)
    by (simp add: topology_directive_def w fields_of_words edge_fields_applied [OF assms(1)] edge_view_def)
qed

lemma parse_lines_append:
  "parse_lines d (xs @ ys) x = try_result (parse_lines d xs x) (parse_lines d ys)"
proof (induction xs arbitrary: x)
  case (Cons l xs)
  show ?case
  proof (cases "split_words l = []")
    case False
    then show ?thesis using Cons.IH by (cases "d (split_words l) x") simp_all
  qed (simp add: Cons.IH)
qed simp

lemma parse_line_words:
  assumes "\<And>w. w \<in> set ws \<Longrightarrow> word w" and "ws \<noteq> []"
  shows "parse_lines d (join_words ws # ls) x = try_result (d ws x) (parse_lines d ls)"
  using assms by (simp add: split_join)

lemma parse_nodes:
  assumes "iterates order" and "\<And>n. n \<in> set ns \<Longrightarrow> is_valid_resource_id (ns_id n)"
  shows "parse_lines (topology_directive order) (map node_line ns) spec = Inr (spec\<lparr>ts_nodes := ts_nodes spec @ ns\<rparr>)"
  using assms(2)
proof (induction ns arbitrary: spec)
  case (Cons n ns)
  have v: "is_valid_resource_id (ns_id n)" using Cons.prems by simp
  have ne: "node_words n \<noteq> []" by (simp add: node_words_def)
  show ?case
    using Cons by (simp only: list.map lines_as_words parse_line_words [OF node_words_ok [OF v] ne]
        node_directive [OF assms(1) v] try_result.simps) simp
qed simp

lemma parse_edges:
  assumes "iterates order"
    and "\<And>e. e \<in> set es \<Longrightarrow> is_valid_resource_id (ns_id (t_nodes t ! te_from e)) \<and>
      is_valid_resource_id (ns_id (t_nodes t ! te_to e)) \<and> te_generation e \<noteq> 0"
  shows "parse_lines (topology_directive order) (map (edge_line t) es) spec =
    Inr (spec\<lparr>ts_edges := ts_edges spec @ map (edge_view (t_nodes t)) es\<rparr>)"
  using assms(2)
proof (induction es arbitrary: spec)
  case (Cons e es)
  have v: "is_valid_resource_id (ns_id (t_nodes t ! te_from e))" "is_valid_resource_id (ns_id (t_nodes t ! te_to e))"
    "te_generation e \<noteq> 0" using Cons.prems [of e] by simp_all
  have ne: "edge_words t e \<noteq> []" by (simp add: edge_words_def)
  show ?case
    using Cons by (simp only: list.map lines_as_words parse_line_words [OF edge_words_ok [OF v(1,2)] ne]
        edge_directive [OF assms(1) v] try_result.simps) simp
qed simp

subsection \<open>The whole file\<close>

lemma lines_loop_ok:
  assumes "\<And>l. l \<in> set ls \<Longrightarrow> length l \<le> kMaxLineLength \<and> strip_comment l = l" and "n + length ls \<le> kMaxLines"
  shows "lines_loop n ls = Inr ls"
  using assms
proof (induction ls arbitrary: n)
  case (Cons l ls)
  have "lines_loop (Suc n) ls = Inr ls" by (rule Cons.IH) (use Cons.prems in simp_all)
  then show ?case using Cons.prems(1) [of l] Cons.prems(2) by simp
qed simp

lemma wf_topology_ids:
  assumes "wf_topology t"
  shows "n \<in> set (t_nodes t) \<Longrightarrow> is_valid_resource_id (ns_id n)"
    and "e \<in> set (t_edges t) \<Longrightarrow> is_valid_resource_id (ns_id (t_nodes t ! te_from e)) \<and>
      is_valid_resource_id (ns_id (t_nodes t ! te_to e)) \<and> te_generation e \<noteq> 0"
  using assms by (auto simp: wf_topology_def wf_node_def wf_edge_def)

lemma length_tokens:
  "length (completeness_to_string c) \<le> 8" "length (edge_evidence_to_string v) \<le> 7" "length (flag_digit b) = 1"
proof -
  show "length (completeness_to_string c) \<le> 8"
    by (cases c) (simp_all add: completeness_to_string_def kCompletenessTokens_def)
  show "length (edge_evidence_to_string v) \<le> 7"
    by (cases v) (simp_all add: edge_evidence_to_string_def kEdgeTokens_def)
qed (simp add: flag_digit_def)

lemma length_lines:
  "length (generation_line t) \<le> 40"
  "is_valid_resource_id (ns_id n) \<Longrightarrow> length (node_line n) \<le> 200"
  "is_valid_resource_id (ns_id (t_nodes t ! te_from e)) \<Longrightarrow> is_valid_resource_id (ns_id (t_nodes t ! te_to e)) \<Longrightarrow>
     length (edge_line t e) \<le> 300"
  using length_u64_string [of "t_generation t"] length_u64_string [of "ns_weight n"] length_u64_string [of "te_generation e"]
    valid_resource_id_length [of "ns_id n"] valid_resource_id_length [of "ns_id (t_nodes t ! te_from e)"]
    valid_resource_id_length [of "ns_id (t_nodes t ! te_to e)"] length_tokens(1) [of "ns_completeness n"]
    length_tokens(2) [of "te_evidence e"]
  by (auto simp: generation_line_def node_line_def edge_line_def length_tokens(3))

lemma written_line_ok:
  assumes "wf_topology t" and "l \<in> set (topology_file_lines t)"
  shows "length l \<le> kMaxLineLength \<and> strip_comment l = l \<and> CHR 0x0A \<notin> set l"
proof -
  note ids = wf_topology_ids [OF assms(1)]
  have l: "l = generation_line t \<or> (\<exists>n \<in> set (t_nodes t). l = node_line n) \<or> (\<exists>e \<in> set (t_edges t). l = edge_line t e)"
    using assms(2) by (auto simp: topology_file_lines_def)
  then have "length l \<le> kMaxLineLength"
  proof (elim disjE bexE)
    assume "l = generation_line t"
    then show ?thesis using length_lines(1) [of t] by (simp add: kMaxLineLength_def)
  next
    fix n assume n: "n \<in> set (t_nodes t)" "l = node_line n"
    then show ?thesis using length_lines(2) [OF ids(1) [OF n(1)]] by (simp add: kMaxLineLength_def)
  next
    fix e assume e: "e \<in> set (t_edges t)" "l = edge_line t e"
    then show ?thesis using length_lines(3) [of t e] ids(2) [OF e(1)] by (simp add: kMaxLineLength_def)
  qed
  moreover have "\<exists>ws. l = join_words ws \<and> (\<forall>w \<in> set ws. word w)"
    using l
  proof (elim disjE bexE)
    assume "l = generation_line t"
    then have "l = join_words [''generation'', u64_string (t_generation t)]" by (simp only: lines_as_words)
    moreover have "\<forall>w \<in> set [''generation'', u64_string (t_generation t)]. word w" using word_number by simp
    ultimately show ?thesis by blast
  next
    fix n assume n: "n \<in> set (t_nodes t)" "l = node_line n"
    then show ?thesis using node_words_ok [OF ids(1) [OF n(1)]] lines_as_words(2) by blast
  next
    fix e assume e: "e \<in> set (t_edges t)" "l = edge_line t e"
    then show ?thesis using edge_words_ok ids(2) [OF e(1)] lines_as_words(3) by blast
  qed
  ultimately show ?thesis using join_plain by metis
qed

lemma parse_written_topology:
  assumes wf: "wf_topology t" and "iterates order" and "length (t_nodes t) + length (t_edges t) < kMaxLines"
  shows "parse_topology_file order (Some (write_topology_file t)) = Inr \<lparr>ts_generation = t_generation t,
    ts_nodes = t_nodes t, ts_edges = map (edge_view (t_nodes t)) (t_edges t)\<rparr>"
proof -
  let ?ls = "topology_file_lines t"
  have "text_lines (write_topology_file t) = ?ls"
    unfolding write_topology_file_def using written_line_ok [OF wf] by (intro text_lines_join) blast
  moreover have "lines_loop 0 ?ls = Inr ?ls"
    using written_line_ok [OF wf] assms(3) by (intro lines_loop_ok) (auto simp: topology_file_lines_def)
  ultimately have lines: "read_lines (Some (write_topology_file t)) = Inr ?ls" by (simp add: read_lines_def)
  have gen: "topology_directive order [''generation'', u64_string (t_generation t)] empty_spec =
      Inr (empty_spec\<lparr>ts_generation := t_generation t\<rparr>)" by (simp add: topology_directive_def)
  have words: "w \<in> set [''generation'', u64_string (t_generation t)] \<Longrightarrow> word w" for w using word_number by auto
  have "parse_lines (topology_directive order) ?ls empty_spec = Inr \<lparr>ts_generation = t_generation t,
    ts_nodes = t_nodes t, ts_edges = map (edge_view (t_nodes t)) (t_edges t)\<rparr>"
    unfolding topology_file_lines_def lines_as_words(1)
    by (simp only: parse_line_words [OF words list.distinct(2)] gen try_result.simps parse_lines_append
        parse_nodes [OF assms(2) wf_topology_ids(1) [OF wf]] parse_edges [OF assms(2) wf_topology_ids(2) [OF wf]])
      (simp add: empty_spec_def)
  then show ?thesis by (simp add: parse_topology_file_def lines)
qed

end
