(* ===== verification/App_Client.thy ===== *)
theory App_Client
  imports App_Config Net_Client
begin

section \<open>The scenario client\<close>

text \<open>
  \<open>apps/client/main.cpp\<close>: a session that runs the commands of a scenario over one connection,
  acts as the enforcement plane, and reports each step. Files are a function from paths to texts.
  The printed lines are kept in the state, so that the functions below are the program's output.
\<close>

subsection \<open>State\<close>

definition default_plan :: containment_plan where
  "default_plan =
     \<lparr>p_generation = 0, p_boundary = default_boundary, p_claim = ClaimIndeterminate,
      p_feasibility = FeasibilityUnknown, p_optimality = OptimalNotAttempted, p_currency = CurrencyCurrent,
      p_authority = default_authority, p_topology_digest = zero_digest, p_policy_digest = zero_digest,
      p_evidence_digest = zero_digest, p_instance_digest = zero_digest, p_sources = [], p_obligations = [],
      p_uncontainable = [], p_necessary = [], p_indeterminate_necessity = [], p_total_weight = 0,
      p_member_count = 0, p_counters = zero_search_counters,
      p_infeasibility = \<lparr>iw_present = False, iw_path = []\<rparr>, p_explanation = no_explanation, p_digest = zero_digest\<rparr>"

record client_session =
  ss_client :: client
  ss_authorization :: authorization_id
  ss_plan :: containment_plan
  ss_have_plan :: bool
  ss_attempt :: attempt_sequence
  ss_have_attempt :: bool
  ss_boot :: boot_identity
  ss_applier_epoch :: applier_epoch
  ss_applier_sequence :: sequence_no
  ss_last_status :: string
  ss_pending_failure :: bool
  ss_expectation_failed :: bool
  ss_steps :: nat
  ss_failures :: nat
  ss_output :: "string list"

definition new_client_session :: "client \<Rightarrow> client_session" where
  "new_client_session c =
     \<lparr>ss_client = c, ss_authorization = 0, ss_plan = default_plan, ss_have_plan = False, ss_attempt = 0,
      ss_have_attempt = False, ss_boot = BootIdentity (ha_session (cl_handshake c) + 0x1000) 0,
      ss_applier_epoch = 1, ss_applier_sequence = 0, ss_last_status = ''ok'', ss_pending_failure = False,
      ss_expectation_failed = False, ss_steps = 0, ss_failures = 0, ss_output = []\<rparr>"

subsection \<open>Steps and documents\<close>

definition print_line :: "string \<Rightarrow> client_session \<Rightarrow> client_session" where
  "print_line line s = s\<lparr>ss_output := ss_output s @ [line]\<rparr>"

text \<open>\<open>%s\<close> prints up to the first null character.\<close>

definition c_string :: "string \<Rightarrow> string" where
  "c_string s = takeWhile (\<lambda>c. c \<noteq> CHR 0x00) s"

definition step_line :: "nat \<Rightarrow> string \<Rightarrow> string \<Rightarrow> string \<Rightarrow> string" where
  "step_line n verb status json = ''STEP '' @ dec_string n @ '' '' @ c_string verb @ '' status='' @ c_string status @
     '' json='' @ c_string json"

definition emit_step :: "string \<Rightarrow> string \<Rightarrow> string \<Rightarrow> client_session \<Rightarrow> client_session" where
  "emit_step verb status json s =
     (let s1 = s\<lparr>ss_steps := ss_steps s + 1, ss_last_status := status\<rparr>;
          s2 = (if status \<noteq> ''ok'' then s1\<lparr>ss_failures := ss_failures s1 + 1\<rparr> else s1)
      in print_line (step_line (ss_steps s2) verb status json) s2)"

text \<open>Report a step and leave its failure to be claimed by an expectation.\<close>

definition step_failed :: "string \<Rightarrow> string \<Rightarrow> string \<Rightarrow> client_session \<Rightarrow> bool \<times> client_session" where
  "step_failed verb status json s = (False, (emit_step verb status json s)\<lparr>ss_pending_failure := True\<rparr>)"

definition status_json :: "status_code \<Rightarrow> string \<Rightarrow> string" where
  "status_json code message = json_document (j_object
     [member_text ''code'' (status_code_to_string code), member_text ''message'' message])"

definition step_refused :: "string \<Rightarrow> status \<Rightarrow> client_session \<Rightarrow> bool \<times> client_session" where
  "step_refused verb e s = step_failed verb (status_code_to_string (scode e)) (status_json (scode e) (smessage e)) s"

definition message_json :: "string \<Rightarrow> string" where
  "message_json text = ''{'' @ [quote] @ ''message'' @ [quote] @ '':'' @ [quote] @ text @ [quote] @ ''}''"

definition step_invalid :: "string \<Rightarrow> string \<Rightarrow> client_session \<Rightarrow> bool \<times> client_session" where
  "step_invalid verb text s = step_failed verb ''invalid_argument'' (message_json text) s"

definition response_json :: "response_payload \<Rightarrow> string" where
  "response_json r =
     (if rp_json r \<noteq> [] then rp_json r
      else let st = mk_status (rp_code r) (rp_message r) in status_json (scode st) (smessage st))"

text \<open>The text between the quotes after a key; empty when the key or the closing quote is missing.\<close>

definition json_string_field :: "string \<Rightarrow> string \<Rightarrow> string" where
  "json_string_field document key =
     (case text_after (quote # key @ [quote, CHR '':'', quote]) document of
        None \<Rightarrow> []
      | Some rest \<Rightarrow> if quote \<in> set rest then takeWhile (\<lambda>c. c \<noteq> quote) rest else [])"

definition ask :: "wire_operation \<Rightarrow> byte list \<Rightarrow> client_session \<Rightarrow> response_payload result \<times> client_session" where
  "ask op arguments s = (let (r, c) = client_call op arguments (ss_client s) in (r, s\<lparr>ss_client := c\<rparr>))"

definition run_operation :: "string \<Rightarrow> wire_operation \<Rightarrow> byte list \<Rightarrow> client_session \<Rightarrow> bool \<times> client_session" where
  "run_operation verb op arguments s =
     (case ask op arguments s of
        (Inl e, s1) \<Rightarrow> step_refused verb e s1
      | (Inr r, s1) \<Rightarrow>
          (let s2 = emit_step verb (status_code_to_string (rp_code r)) (response_json r) s1
           in if \<not> is_failure (rp_code r) then (True, s2) else (False, s2\<lparr>ss_pending_failure := True\<rparr>)))"

subsection \<open>Commands\<close>

definition command_topology :: "(line_fields \<Rightarrow> line_fields) \<Rightarrow> (string \<Rightarrow> string option) \<Rightarrow> string list \<Rightarrow>
    client_session \<Rightarrow> bool \<times> client_session" where
  "command_topology order files parts s =
     (if length parts \<noteq> 2 then step_invalid ''topology'' ''topology requires a file'' s
      else case try_result (parse_topology_file order (files (parts ! 1))) topology_build of
          Inl e \<Rightarrow> step_refused ''topology'' e s
        | Inr t \<Rightarrow> run_operation ''topology'' OpApplyTopology (topology_encode t) s)"

definition command_policy :: "(string \<Rightarrow> string option) \<Rightarrow> string list \<Rightarrow> client_session \<Rightarrow> bool \<times> client_session" where
  "command_policy files parts s =
     (if length parts \<noteq> 2 then step_invalid ''policy'' ''policy requires a file'' s
      else case parse_policy_file (files (parts ! 1)) of
          Inl e \<Rightarrow> step_refused ''policy'' e s
        | Inr p \<Rightarrow> run_operation ''policy'' OpApplyPolicy (policy_encode p) s)"

text \<open>The words after the generation: the last \<open>digest=\<close> counts, other words are ignored.\<close>

fun detect_digest :: "string list \<Rightarrow> failure_observation \<Rightarrow> failure_observation option" where
  "detect_digest [] obs = Some obs"
| "detect_digest (part # parts) obs =
     (case split_field part of
        None \<Rightarrow> detect_digest parts obs
      | Some (key, v) \<Rightarrow>
          if key = ''digest''
          then (case digest_parse v of None \<Rightarrow> None | Some d \<Rightarrow> detect_digest parts (obs\<lparr>fo_digest := d\<rparr>))
          else detect_digest parts obs)"

definition command_detect :: "string list \<Rightarrow> client_session \<Rightarrow> bool \<times> client_session" where
  "command_detect parts s =
     (if length parts < 4 then step_invalid ''detect'' ''detect requires resource, state, generation'' s
      else case parse_resource_id (parts ! 1) of
          Inl e \<Rightarrow> step_refused ''detect'' e s
        | Inr resource \<Rightarrow>
            (case parse_evidence_state (parts ! 2) of
               None \<Rightarrow> step_invalid ''detect'' ''unknown evidence state'' s
             | Some state \<Rightarrow>
                 (case config_u64 (parts ! 3) of
                    None \<Rightarrow> step_invalid ''detect'' ''generation must be positive'' s
                  | Some generation \<Rightarrow>
                      if generation = 0 then step_invalid ''detect'' ''generation must be positive'' s
                      else case detect_digest (drop 4 parts) \<lparr>fo_resource = resource, fo_state = state,
                               fo_generation = generation, fo_digest = zero_digest, fo_observed_at = 0\<rparr> of
                          None \<Rightarrow> step_invalid ''detect'' ''malformed digest'' s
                        | Some obs \<Rightarrow>
                            run_operation ''detect'' OpRecordDetection (encode_detection_arguments obs) s)))"

definition command_authorize :: "client_session \<Rightarrow> bool \<times> client_session" where
  "command_authorize s =
     (case ask OpAuthorize [] s of
        (Inl e, s1) \<Rightarrow> step_refused ''authorize'' e s1
      | (Inr r, s1) \<Rightarrow>
          (let json = response_json r
           in if is_failure (rp_code r)
                then step_failed ''authorize'' (status_code_to_string (rp_code r)) json s1
              else case json_field_u64 json ''authorization_id'' of
                  None \<Rightarrow> step_failed ''authorize'' ''protocol_violation''
                    (message_json ''authorization response has no identifier'') s1
                | Some i \<Rightarrow> (True, emit_step ''authorize'' ''ok'' json (s1\<lparr>ss_authorization := i\<rparr>))))"

definition command_plan :: "client_session \<Rightarrow> bool \<times> client_session" where
  "command_plan s =
     (case ask OpPlan (encode_authorization_reference (ss_authorization s)) s of
        (Inl e, s1) \<Rightarrow> step_refused ''plan'' e s1
      | (Inr r, s1) \<Rightarrow>
          (let json = response_json r
           in if is_failure (rp_code r) then step_failed ''plan'' (status_code_to_string (rp_code r)) json s1
              else case plan_decode (rp_result r) of
                  Inl e \<Rightarrow> step_refused ''plan'' e s1
                | Inr p \<Rightarrow>
                    (let claim = json_string_field json ''claim''
                     in (True, emit_step ''plan'' (if claim = [] then ''ok'' else claim) json
                          (s1\<lparr>ss_plan := p, ss_have_plan := True\<rparr>)))))"

definition command_transition_kind :: "string \<Rightarrow> transition_kind option" where
  "command_transition_kind text =
     (if text = ''expand'' then Some Expand
      else if text = ''contract'' then Some Contract
      else if text = ''release'' then Some Release else None)"

text \<open>The current boundary as the client reads it: its generation, and whether there is none.\<close>

definition read_boundary :: "response_payload result \<Rightarrow> boundary_generation \<times> bool" where
  "read_boundary r =
     (case r of
        Inl _ \<Rightarrow> (0, True)
      | Inr p \<Rightarrow>
          if is_failure (rp_code p) then (0, True)
          else (case json_field_u64 (rp_json p) ''generation'' of None \<Rightarrow> 0 | Some g \<Rightarrow> g,
                text_after (quote # ''generation'' @ [quote]) (rp_json p) = None))"

definition command_transition :: "string list \<Rightarrow> client_session \<Rightarrow> bool \<times> client_session" where
  "command_transition parts s =
     (if length parts \<noteq> 2 then step_invalid ''transition'' ''transition requires a kind'' s
      else case command_transition_kind (parts ! 1) of
          None \<Rightarrow> step_invalid ''transition'' ''unknown transition kind'' s
        | Some kind \<Rightarrow>
            if \<not> ss_have_plan s then step_invalid ''transition'' ''no plan has been computed'' s
            else let (b, s1) = ask OpCurrentBoundary [] s;
                     (generation, released) = read_boundary b;
                     request = \<lparr>tq_kind = kind, tq_plan = p_generation (ss_plan s), tq_plan_digest = p_digest (ss_plan s),
                       tq_expected_boundary = generation, tq_expected_released = released,
                       tq_authorization = ss_authorization s\<rparr>
              in (case ask OpTransition (encode_transition_arguments request) s1 of
                    (Inl e, s2) \<Rightarrow> step_refused ''transition'' e s2
                  | (Inr r, s2) \<Rightarrow>
                      (let json = response_json r; decision = json_string_field json ''status''
                       in (decision = ''accepted'',
                           emit_step ''transition'' (if decision = [] then status_code_to_string (rp_code r) else decision)
                             json s2))))"

definition command_apply :: "client_session \<Rightarrow> bool \<times> client_session" where
  "command_apply s =
     (if \<not> ss_have_plan s then step_invalid ''apply'' ''no plan has been computed'' s
      else case ask OpSubmitApply (encode_submit_apply_arguments
             \<lparr>sq_authorization = ss_authorization s, sq_plan = p_generation (ss_plan s),
              sq_plan_digest = p_digest (ss_plan s)\<rparr>) s of
          (Inl e, s1) \<Rightarrow> step_refused ''apply'' e s1
        | (Inr r, s1) \<Rightarrow>
            (let json = response_json r
             in if is_failure (rp_code r) then step_failed ''apply'' (status_code_to_string (rp_code r)) json s1
                else let s2 = (case json_field_u64 json ''attempt_sequence'' of
                         None \<Rightarrow> s1
                       | Some n \<Rightarrow> s1\<lparr>ss_attempt := n, ss_have_attempt := True, ss_applier_sequence := 0\<rparr>)
                  in (True, emit_step ''apply'' ''ok'' json s2)))"

definition current_acknowledgement :: "bool \<Rightarrow> client_session \<Rightarrow> apply_acknowledgement" where
  "current_acknowledgement accepted s =
     \<lparr>ak_id = AttemptId (p_generation (ss_plan s)) (ss_attempt s),
      ak_expected_epoch = ha_epoch (cl_handshake (ss_client s)), ak_expected_boot = ha_boot (cl_handshake (ss_client s)),
      ak_applier_epoch = ss_applier_epoch s, ak_applier_boot = ss_boot s,
      ak_applier_sequence = ss_applier_sequence s + 1, ak_observed_digest = b_digest (p_boundary (ss_plan s)),
      ak_accepted = accepted\<rparr>"

definition command_ack :: "string list \<Rightarrow> client_session \<Rightarrow> bool \<times> client_session" where
  "command_ack parts s =
     (if \<not> ss_have_attempt s then step_invalid ''ack'' ''no attempt is in flight'' s
      else run_operation ''ack'' OpAcknowledge
        (encode_acknowledgement_arguments
          (current_acknowledgement (length parts < 2 \<or> parts ! 1 = ''accepted'') s))
        (s\<lparr>ss_applier_sequence := ss_applier_sequence s + 1\<rparr>))"

definition current_report :: "effect_observation \<Rightarrow> client_session \<Rightarrow> effect_verification" where
  "current_report observation s =
     \<lparr>vf_id = AttemptId (p_generation (ss_plan s)) (ss_attempt s),
      vf_expected_epoch = ha_epoch (cl_handshake (ss_client s)), vf_expected_boot = ha_boot (cl_handshake (ss_client s)),
      vf_applier_epoch = ss_applier_epoch s, vf_applier_boot = ss_boot s,
      vf_applier_sequence = ss_applier_sequence s + 1, vf_observed_digest = b_digest (p_boundary (ss_plan s)),
      vf_observation = observation\<rparr>"

definition command_verify :: "string list \<Rightarrow> client_session \<Rightarrow> bool \<times> client_session" where
  "command_verify parts s =
     (if length parts \<noteq> 2 then step_invalid ''verify'' ''verify requires an observation'' s
      else if \<not> ss_have_attempt s then step_invalid ''verify'' ''no attempt is in flight'' s
      else case parse_effect_observation (parts ! 1) of
          None \<Rightarrow> step_invalid ''verify'' ''unknown effect observation'' s
        | Some observation \<Rightarrow>
            run_operation ''verify'' OpVerifyEffect (encode_verification_arguments (current_report observation s))
              (s\<lparr>ss_applier_sequence := ss_applier_sequence s + 1\<rparr>))"

definition command_expect :: "string list \<Rightarrow> client_session \<Rightarrow> bool \<times> client_session" where
  "command_expect parts s =
     (if length parts \<noteq> 2 then step_invalid ''expect'' ''expect requires a token'' s
      else let matched = (ss_last_status s = parts ! 1);
               s1 = (if matched then s\<lparr>ss_pending_failure := False\<rparr>
                     else s\<lparr>ss_failures := ss_failures s + 1, ss_expectation_failed := True\<rparr>);
               json = json_document (j_object [member_text ''expected'' (parts ! 1),
                 member_text ''observed'' (ss_last_status s), member_bool ''matched'' matched]);
               s2 = s1\<lparr>ss_steps := ss_steps s1 + 1\<rparr>
        in (matched, print_line (step_line (ss_steps s2) ''expect''
              (if matched then ''ok'' else ''assertion_failed'') json) s2))"

definition run_command :: "(line_fields \<Rightarrow> line_fields) \<Rightarrow> (string \<Rightarrow> string option) \<Rightarrow> string list \<Rightarrow>
    client_session \<Rightarrow> bool \<times> client_session" where
  "run_command order files parts s =
     (let verb = parts ! 0
      in if verb = ''describe'' then run_operation ''describe'' OpDescribe [] s
         else if verb = ''topology'' then command_topology order files parts s
         else if verb = ''policy'' then command_policy files parts s
         else if verb = ''evidence'' then run_operation ''evidence'' OpEvidence [] s
         else if verb = ''detect'' then command_detect parts s
         else if verb = ''authorize'' then command_authorize s
         else if verb = ''plan'' then command_plan s
         else if verb = ''transition'' then command_transition parts s
         else if verb = ''apply'' then command_apply s
         else if verb = ''ack'' then command_ack parts s
         else if verb = ''verify'' then command_verify parts s
         else if verb = ''boundary'' then run_operation ''boundary'' OpCurrentBoundary [] s
         else if verb = ''attempts'' then run_operation ''attempts'' OpAttempts [] s
         else if verb = ''checkpoint'' then run_operation ''checkpoint'' OpCheckpoint [] s
         else if verb = ''shutdown'' then run_operation ''shutdown'' OpShutdown [] s
         else if verb = ''expect'' then command_expect parts s
         else step_invalid verb ''unknown command'' s)"

subsection \<open>The program\<close>

text \<open>The loop over the lines of the scenario: a failed command does not end it.\<close>

fun run_scenario :: "(line_fields \<Rightarrow> line_fields) \<Rightarrow> (string \<Rightarrow> string option) \<Rightarrow> string list \<Rightarrow> client_session \<Rightarrow>
    client_session" where
  "run_scenario order files [] s = s"
| "run_scenario order files (line # lines) s =
     (let parts = split_words (strip_comment line)
      in run_scenario order files lines (if parts = [] then s else snd (run_command order files parts s)))"

definition exit_code :: "client_session \<Rightarrow> nat" where
  "exit_code s = (if ss_pending_failure s \<or> ss_expectation_failed s then 1 else 0)"

definition summary_line :: "client_session \<Rightarrow> string" where
  "summary_line s = ''SUMMARY steps='' @ dec_string (ss_steps s) @ '' failures='' @ dec_string (ss_failures s) @
     '' exit='' @ dec_string (exit_code s)"

definition handshake_line :: "client \<Rightarrow> string" where
  "handshake_line c =
     (let a = cl_handshake c
      in ''HANDSHAKE session='' @ u64_string (ha_session a) @ '' epoch='' @ u64_string (ha_epoch a) @
         '' boot='' @ hex16 (boot_bid (ha_boot a)) @ ''/'' @ dec_string (unat (boot_pid (ha_boot a))) @
         '' version='' @ c_string (ha_version a))"

text \<open>
  The exit status and the output; the scenario comes from standard input or a file, and an
  option that names none leaves \<open>scenario_path\<close> empty. Status 2 is a usage error, 1 a failure to connect
  or to open the scenario, whose message goes to the error stream.
\<close>

definition client_main :: "(line_fields \<Rightarrow> line_fields) \<Rightarrow> (string \<Rightarrow> string option) \<Rightarrow> string \<Rightarrow> socket result \<Rightarrow>
    client_config \<Rightarrow> string \<Rightarrow> nat \<times> string list" where
  "client_main order files input link config scenario_path =
     (if cc_port config = 0 \<or> cc_token config = [] then (2, [])
      else case fst (client_connect config link) of
          Inl e \<Rightarrow> (1, [])
        | Inr c \<Rightarrow>
            (case (if scenario_path = [] then Some input else files scenario_path) of
               None \<Rightarrow> (1, [])
             | Some scenario \<Rightarrow>
                 (let s = run_scenario order files (text_lines scenario)
                        (print_line (handshake_line c) (new_client_session c))
                  in (exit_code s, ss_output (print_line (summary_line s) s)))))"

text \<open>The options; the port is cut to sixteen bits.\<close>

definition default_client_config :: client_config where
  "default_client_config = \<lparr>cc_port = 0, cc_token = [], cc_label = ''fcfn-client''\<rparr>"

fun parse_client_flags :: "string list \<Rightarrow> client_config \<times> string \<Rightarrow> (client_config \<times> string) option" where
  "parse_client_flags [] f = Some f"
| "parse_client_flags [opt] f = None"
| "parse_client_flags (opt # v # arguments) (config, scenario) =
     (if opt = ''--port'' then parse_client_flags arguments (config\<lparr>cc_port := ucast (strtoull v)\<rparr>, scenario)
      else if opt = ''--token'' then parse_client_flags arguments (config\<lparr>cc_token := v\<rparr>, scenario)
      else if opt = ''--label'' then parse_client_flags arguments (config\<lparr>cc_label := v\<rparr>, scenario)
      else if opt = ''--scenario'' then parse_client_flags arguments (config, v)
      else None)"

definition client_program :: "(line_fields \<Rightarrow> line_fields) \<Rightarrow> (string \<Rightarrow> string option) \<Rightarrow> string \<Rightarrow> socket result \<Rightarrow>
    string list \<Rightarrow> nat \<times> string list" where
  "client_program order files input link argv =
     (case parse_client_flags argv (default_client_config, []) of
        None \<Rightarrow> (2, [])
      | Some (config, scenario_path) \<Rightarrow> client_main order files input link config scenario_path)"

end
