(* ===== verification/App_Documents.thy ===== *)
theory App_Documents
  imports App_Export App_Client Net_Documents
begin

section \<open>What the client reads out of documents\<close>

text \<open>
  The client finds fields by searching a document for a key. On the documents the coordinator
  writes, the first occurrence is the field that is meant, and its value is read back.
\<close>

subsection \<open>Searching\<close>

lemma text_after_here: "text_after needle (needle @ rest) = Some rest"
  by (subst text_after.simps) simp

lemma text_after_Cons:
  "text_after (n # ns) (c # cs) =
     (if c = n \<and> take (length ns) cs = ns then Some (drop (length ns) cs) else text_after (n # ns) cs)"
  by (subst text_after.simps) simp

lemma text_after_skip: "n \<notin> set ds \<Longrightarrow> text_after (n # ns) (ds @ s) = text_after (n # ns) s"
  by (induction ds) (auto simp: text_after_Cons)

lemma config_digit_number: "c \<in> set (u64_string v) \<Longrightarrow> config_digit c"
  using u64_string_digits [of c v] by (auto simp: config_digit_def)

lemma quote_not_in_number: "quote \<notin> set (u64_string v)"
  using config_digit_number [of quote v] by (auto simp: config_digit_def quote_def less_eq_char_def)

lemma text_after_number: "text_after (quote # ns) (u64_string v @ s) = text_after (quote # ns) s"
  by (rule text_after_skip) (rule quote_not_in_number)

lemma config_loop_foldl:
  "(\<And>c. c \<in> set cs \<Longrightarrow> config_digit c) \<Longrightarrow>
   config_u64_loop v cs = Some (foldl (\<lambda>v c. v * 10 + of_nat (of_char c - of_char (CHR ''0''))) v cs)"
  by (induction cs arbitrary: v) (simp_all add: config_digit_def not_less)

text \<open>A number that stands after the key, followed by anything that is not a digit.\<close>

lemma number_read:
  assumes "text_after (quote # key @ [quote, CHR '':'']) document = Some (u64_string v @ c # rest)" and "\<not> config_digit c"
  shows "json_field_u64 document key = Some v"
proof -
  have head: "dropWhile (\<lambda>c. c = CHR '' '') (u64_string v @ c # rest) = u64_string v @ c # rest"
    and ne: "u64_string v \<noteq> []"
    using dec_string_nonempty [of "unat v"] config_digit_number [of _ v]
    by (cases "u64_string v"; fastforce simp: u64_string_def config_digit_def less_eq_char_def)+
  have "takeWhile config_digit (u64_string v @ c # rest) = u64_string v"
    using config_digit_number assms(2) by (subst takeWhile_append2) auto
  then show ?thesis
    using assms(1) head ne config_u64_string [of v] length_u64_string [of v]
      config_loop_foldl [of "u64_string v" 0] config_digit_number [of _ v]
    by (simp add: json_field_u64_def config_u64_def quote_def split: if_splits)
qed

lemma text_read:
  assumes "text_after (quote # key @ [quote, CHR '':'', quote]) document = Some (s @ quote # rest)" and "quote \<notin> set s"
  shows "json_string_field document key = s"
  proof -
  have "takeWhile (\<lambda>c. c \<noteq> quote) (s @ quote # rest) = s" using assms(2) by (subst takeWhile_append2) auto
  then show ?thesis using assms(1) by (simp add: json_string_field_def)
qed

subsection \<open>The documents\<close>

lemma render_members:
  "json_render (JObject ms) =
     CHR ''{'' # preceded False (map (\<lambda>(k, v). json_escape k @ '':'' @ json_render v) ms) @ ''}''"
  by (simp add: preceded_def)

lemma skip_char: "c \<noteq> n \<Longrightarrow> text_after (n # ns) (c # s) = text_after (n # ns) s"
  by (simp add: text_after_Cons)

lemma skip_quote: "c \<noteq> n \<Longrightarrow> text_after (q # n # ns) (q # c # s) = text_after (q # n # ns) (c # s)"
  by (subst text_after.simps) simp

lemma not_digit [simp]: "\<not> config_digit CHR '',''"
  by (simp add: config_digit_def less_eq_char_def)

lemma escaped_keys:
  "json_escape ''authorization_id'' = quote # ''authorization_id'' @ [quote]"
  "json_escape ''plan_generation'' = quote # ''plan_generation'' @ [quote]"
  "json_escape ''attempt_sequence'' = quote # ''attempt_sequence'' @ [quote]"
  "json_escape ''generation'' = quote # ''generation'' @ [quote]"
  "json_escape ''claim'' = quote # ''claim'' @ [quote]"
  "json_escape ''transition_generation'' = quote # ''transition_generation'' @ [quote]"
  "json_escape ''kind'' = quote # ''kind'' @ [quote]"
  "json_escape ''status'' = quote # ''status'' @ [quote]"
  by (simp_all add: json_escape_def escaped_char_def quote_def backslash_def)

lemma authorization_id_read: "json_field_u64 (authorization_to_json a) ''authorization_id'' = Some (ar_id a)"
proof -
  have "\<exists>fs. renders (authorization_to_json a) (JObject ((''authorization_id'', JNumber (ar_id a)) #
      (''issued_sequence'', JNumber (ar_issued_sequence a)) # fs))"
    unfolding authorization_to_json_def by (rule exI, rule renders_document) (rule json_writes | rule)+
  then obtain fs where "authorization_to_json a = json_render (JObject ((''authorization_id'', JNumber (ar_id a)) #
      (''issued_sequence'', JNumber (ar_issued_sequence a)) # fs))" by (auto simp: renders_def)
  then obtain rest where doc: "authorization_to_json a =
      CHR ''{'' # (quote # ''authorization_id'' @ [quote, CHR '':'']) @ u64_string (ar_id a) @ CHR '','' # rest"
    by (simp add: render_members preceded_Cons escaped_keys del: json_render.simps(6))
  show ?thesis
    unfolding doc by (rule number_read [where c = "CHR '',''" and rest = rest], simp_all add: skip_char quote_def)
      (subst text_after.simps, simp)
qed

lemma attempt_sequence_read: "json_field_u64 (attempt_to_json a) ''attempt_sequence'' = Some (ai_sequence (at_id a))"
proof -
  have "\<exists>fs. renders (attempt_to_json a) (JObject ((''plan_generation'', JNumber (ai_plan (at_id a))) #
      (''attempt_sequence'', JNumber (ai_sequence (at_id a))) # (''state'', JText (effect_state_to_string (at_state a))) # fs))"
    unfolding attempt_to_json_def attempt_object_def item_object_def
    by (rule exI, rule renders_document) (rule json_writes | rule)+
  then obtain fs where "attempt_to_json a = json_render (JObject ((''plan_generation'', JNumber (ai_plan (at_id a))) #
      (''attempt_sequence'', JNumber (ai_sequence (at_id a))) # (''state'', JText (effect_state_to_string (at_state a))) # fs))"
    by (auto simp: renders_def)
  then obtain rest where doc: "attempt_to_json a =
      CHR ''{'' # (quote # ''plan_generation'' @ [quote, CHR '':'']) @ u64_string (ai_plan (at_id a)) @
      CHR '','' # (quote # ''attempt_sequence'' @ [quote, CHR '':'']) @ u64_string (ai_sequence (at_id a)) @ CHR '','' # rest"
    by (simp add: render_members preceded_Cons escaped_keys del: json_render.simps(6))
  show ?thesis
    unfolding doc
    by (rule number_read [where c = "CHR '',''" and rest = rest],
        simp_all add: skip_char skip_quote text_after_number [unfolded quote_def] quote_def)
      (subst text_after.simps, simp)
qed

lemma claim_read: "json_string_field (plan_to_json p) ''claim'' = claim_to_string (p_claim p)"
proof -
  have "\<exists>fs. renders (plan_to_json p) (JObject ((''plan_generation'', JNumber (p_generation p)) #
      (''claim'', JText (claim_to_string (p_claim p))) # fs))"
    unfolding plan_to_json_def document_parts by (rule exI, rule renders_document) (rule json_writes | rule)+
  then obtain fs where "plan_to_json p = json_render (JObject ((''plan_generation'', JNumber (p_generation p)) #
      (''claim'', JText (claim_to_string (p_claim p))) # fs))" by (auto simp: renders_def)
  moreover have "quote \<notin> set (claim_to_string (p_claim p)) \<and>
      json_escape (claim_to_string (p_claim p)) = quote # claim_to_string (p_claim p) @ [quote]"
    by (cases "p_claim p") (simp_all add: claim_to_string_def kClaimTokens_def json_escape_def escaped_char_def quote_def backslash_def)
  ultimately obtain rest where doc: "plan_to_json p =
      CHR ''{'' # (quote # ''plan_generation'' @ [quote, CHR '':'']) @ u64_string (p_generation p) @
      CHR '','' # (quote # ''claim'' @ [quote, CHR '':'', quote]) @ claim_to_string (p_claim p) @ quote # rest"
    and q: "quote \<notin> set (claim_to_string (p_claim p))"
    by (simp add: render_members preceded_Cons escaped_keys del: json_render.simps(6))
  show ?thesis
    by (rule text_read [where rest = rest, OF _ q], unfold doc,
        simp add: skip_char skip_quote text_after_number [unfolded quote_def] quote_def)
      (subst text_after.simps, simp)
qed

lemma status_read: "json_string_field (transition_to_json d) ''status'' = transition_status_to_string (td_status d)"
proof -
  have "\<exists>fs. renders (transition_to_json d) (JObject ((''transition_generation'', JNumber (td_generation d)) #
      (''kind'', JText (transition_kind_to_string (td_kind d))) #
      (''status'', JText (transition_status_to_string (td_status d))) # fs))"
    unfolding transition_to_json_def document_parts by (rule exI, rule renders_document) (rule json_writes | rule)+
  then obtain fs where "transition_to_json d = json_render (JObject ((''transition_generation'', JNumber (td_generation d)) #
      (''kind'', JText (transition_kind_to_string (td_kind d))) #
      (''status'', JText (transition_status_to_string (td_status d))) # fs))" by (auto simp: renders_def)
  moreover have k: "quote \<notin> set (transition_kind_to_string (td_kind d)) \<and> hd (transition_kind_to_string (td_kind d)) \<noteq> CHR ''s'' \<and>
      json_escape (transition_kind_to_string (td_kind d)) = quote # transition_kind_to_string (td_kind d) @ [quote]"
    by (cases "td_kind d") (simp_all add: transition_kind_to_string_def kKindTokens_def json_escape_def escaped_char_def quote_def backslash_def)
  moreover have "quote \<notin> set (transition_status_to_string (td_status d)) \<and>
      json_escape (transition_status_to_string (td_status d)) = quote # transition_status_to_string (td_status d) @ [quote]"
    by (cases "td_status d") (simp_all add: transition_status_to_string_def kTransitionStatusTokens_def json_escape_def escaped_char_def quote_def backslash_def)
  ultimately obtain rest where doc: "transition_to_json d =
      CHR ''{'' # (quote # ''transition_generation'' @ [quote, CHR '':'']) @ u64_string (td_generation d) @
      CHR '','' # (quote # ''kind'' @ [quote, CHR '':'', quote]) @ transition_kind_to_string (td_kind d) @ quote #
      CHR '','' # (quote # ''status'' @ [quote, CHR '':'', quote]) @ transition_status_to_string (td_status d) @ quote # rest"
    and q: "quote \<notin> set (transition_status_to_string (td_status d))"
    by (simp add: render_members preceded_Cons escaped_keys del: json_render.simps(6))
  show ?thesis
    by (rule text_read [where rest = rest, OF _ q], unfold doc, cases "td_kind d",
        simp_all add: transition_kind_to_string_def kKindTokens_def skip_char skip_quote
          text_after_number [unfolded quote_def] quote_def)
      (subst text_after.simps, simp)+
qed

lemma generation_read: "json_field_u64 (boundary_document b v) ''generation'' = Some (b_generation b)"
  and generation_found: "text_after (quote # ''generation'' @ [quote]) (boundary_document b v) \<noteq> None"
proof -
  have "\<exists>fs. renders (boundary_to_json b) (JObject ((''generation'', JNumber (b_generation b)) #
      (''digest'', JText (digest_hex (b_digest b))) # fs))"
    unfolding boundary_to_json_def document_parts by (rule exI, rule renders_document) (rule json_writes | rule)+
  then obtain fs where "boundary_to_json b = json_render (JObject ((''generation'', JNumber (b_generation b)) #
      (''digest'', JText (digest_hex (b_digest b))) # fs))" by (auto simp: renders_def)
  then obtain rest where doc: "boundary_document b v =
      CHR ''{'' # (quote # ''boundary'' @ [quote, CHR '':'']) @
      CHR ''{'' # (quote # ''generation'' @ [quote, CHR '':'']) @ u64_string (b_generation b) @ CHR '','' # rest"
    by (simp add: boundary_document_def render_members preceded_Cons escaped_keys del: json_render.simps(6))
  show "json_field_u64 (boundary_document b v) ''generation'' = Some (b_generation b)"
    unfolding doc
    by (rule number_read [where c = "CHR '',''" and rest = rest], simp_all add: skip_char skip_quote quote_def)
      (subst text_after.simps, simp)
  show "text_after (quote # ''generation'' @ [quote]) (boundary_document b v) \<noteq> None"
    unfolding doc by (simp add: skip_char skip_quote quote_def) (subst text_after.simps, simp)
qed

text \<open>
  The client asks for the current boundary before a transition. What it puts into the request is
  what the coordinator compares it with.
\<close>

lemma boundary_read:
  "read_boundary (Inr (answered OpCurrentBoundary (\<lambda>b. boundary_document b v) (current_boundary s))) =
     (case rs_boundary s of None \<Rightarrow> (0, True) | Some b \<Rightarrow> (b_generation b, False))"
  by (cases "rs_boundary s")
    (simp_all add: read_boundary_def answered_def current_boundary_def ok_with_json_def fail_with_def blank_response_def
      err_def is_failure_def generation_read generation_found [simplified])

end
