(* ===== verification/App_Scenario.thy ===== *)
theory App_Scenario
  imports App_Documents Net_Call
begin

section \<open>Running a scenario\<close>

text \<open>
  Every command of a scenario prints one step and counts it, whatever the connection does; a failed
  expectation is never forgotten, and a failed command is left to be claimed by an expectation. The
  commands that learn an identity from the coordinator learn the one it recorded.
\<close>

subsection \<open>One command\<close>

text \<open>What a command may do to the account of the run.\<close>

definition reports :: "client_session \<Rightarrow> bool \<times> client_session \<Rightarrow> bool" where
  "reports s r \<longleftrightarrow> ss_steps (snd r) = ss_steps s + 1 \<and>
     (\<exists>line. ss_output (snd r) = ss_output s @ [line]) \<and>
     (ss_expectation_failed s \<longrightarrow> ss_expectation_failed (snd r)) \<and> ss_failures s \<le> ss_failures (snd r)"

text \<open>Changes of the session that keep the account.\<close>

definition same_account :: "client_session \<Rightarrow> client_session \<Rightarrow> bool" where
  "same_account s t \<longleftrightarrow> ss_steps t = ss_steps s \<and> ss_output t = ss_output s \<and>
     ss_expectation_failed t = ss_expectation_failed s \<and> ss_failures t = ss_failures s"

lemma same_account_refl [simp]: "same_account s s"
  by (simp add: same_account_def)

lemma reports_from: "same_account s t \<Longrightarrow> reports t r \<Longrightarrow> reports s r"
  by (simp add: same_account_def reports_def)

lemma emit_step_fields [simp]:
  "ss_client (emit_step verb status json s) = ss_client s"
  "ss_authorization (emit_step verb status json s) = ss_authorization s"
  "ss_pending_failure (emit_step verb status json s) = ss_pending_failure s"
  by (simp_all add: emit_step_def print_line_def Let_def)

lemma emit_reports: "reports s (ok, emit_step verb status json s)"
  by (simp add: reports_def emit_step_def print_line_def Let_def)

lemma failed_reports: "reports s (step_failed verb status json s)"
  by (simp add: reports_def step_failed_def emit_step_def print_line_def Let_def)

lemma refused_reports [simp]: "reports s (step_refused verb e s)" "reports s (step_invalid verb message s)"
  by (simp_all add: step_refused_def step_invalid_def failed_reports)

lemma ask_account: "ask op arguments s = (r, t) \<Longrightarrow> same_account s t"
  by (auto simp: ask_def same_account_def split: prod.splits)

lemma ask_account_snd: "same_account s (snd (ask op arguments s))"
  using ask_account [of op arguments s] by (cases "ask op arguments s") simp

lemma run_operation_reports: "reports s (run_operation verb op arguments s)"
proof (cases "ask op arguments s")
  case (Pair r t)
  have "reports t (run_operation verb op arguments s)"
    using Pair by (cases r) (simp_all add: run_operation_def reports_def step_refused_def step_failed_def emit_step_def
        print_line_def Let_def)
  then show ?thesis using ask_account [OF Pair] by (rule reports_from [rotated])
qed

lemma run_operation_reports_from: "same_account s t \<Longrightarrow> reports s (run_operation verb op arguments t)"
  using run_operation_reports reports_from by blast

lemma ask_reports:
  "(\<And>r t. same_account s t \<Longrightarrow> reports t (f r t)) \<Longrightarrow> reports s (case ask op arguments s of (r, t) \<Rightarrow> f r t)"
  using ask_account [of op arguments s] reports_from [of s] by (cases "ask op arguments s") auto

lemma emit_reports_after: "same_account s t \<Longrightarrow> reports s (ok, emit_step verb status json t)"
  using emit_reports reports_from by blast

lemma asking_command_reports:
  "reports s (command_authorize s)" "reports s (command_plan s)" "reports s (command_apply s)"
  unfolding command_authorize_def command_plan_def command_apply_def
  by (auto simp: failed_reports Let_def same_account_def intro!: ask_reports emit_reports_after split: sum.split option.split)

lemma transition_reports: "reports s (command_transition parts s)"
proof -
  have "reports s (case ask OpTransition arguments t of
      (Inl e, u) \<Rightarrow> step_refused ''transition'' e u
    | (Inr r, u) \<Rightarrow> (let json = response_json r; decision = json_string_field json ''status''
        in (decision = ''accepted'', emit_step ''transition''
              (if decision = [] then status_code_to_string (rp_code r) else decision) json u)))"
    if "same_account s t" for arguments t
    by (rule reports_from [OF that], rule ask_reports) (simp add: Let_def emit_reports split: sum.split)
  then show ?thesis
    using ask_account_snd [of s OpCurrentBoundary "[]"]
    by (simp add: command_transition_def Let_def case_prod_beta' split: option.split)
qed

lemma command_reports:
  "reports s (command_topology order files parts s)" "reports s (command_policy files parts s)"
  "reports s (command_detect parts s)" "reports s (command_ack parts s)"
  "reports s (command_verify parts s)" "reports s (command_expect parts s)"
proof -
  show "reports s (command_topology order files parts s)" "reports s (command_policy files parts s)"
    "reports s (command_detect parts s)"
    by (simp_all add: command_topology_def command_policy_def command_detect_def run_operation_reports
        split: sum.split option.split)
  show "reports s (command_ack parts s)" "reports s (command_verify parts s)"
    by (auto simp: command_ack_def command_verify_def same_account_def intro!: run_operation_reports_from split: option.split)
  show "reports s (command_expect parts s)"
    by (simp add: command_expect_def reports_def print_line_def Let_def) (simp add: step_invalid_def step_failed_def emit_step_def
        print_line_def Let_def)
qed

lemma run_command_reports: "reports s (run_command order files parts s)"
  by (simp add: run_command_def Let_def run_operation_reports command_reports asking_command_reports transition_reports)

text \<open>The words of the commands in a scenario.\<close>

definition scenario_commands :: "string list \<Rightarrow> string list list" where
  "scenario_commands lines = filter (\<lambda>parts. parts \<noteq> []) (map (\<lambda>line. split_words (strip_comment line)) lines)"

lemma run_scenario_reports:
  "ss_steps (run_scenario order files lines s) = ss_steps s + length (scenario_commands lines) \<and>
   (\<exists>steps. length steps = length (scenario_commands lines) \<and>
      ss_output (run_scenario order files lines s) = ss_output s @ steps) \<and>
   (ss_expectation_failed s \<longrightarrow> ss_expectation_failed (run_scenario order files lines s)) \<and>
   ss_failures s \<le> ss_failures (run_scenario order files lines s)"
proof (induction lines arbitrary: s)
  case (Cons line lines)
  let ?parts = "split_words (strip_comment line)"
  show ?case
  proof (cases "?parts = []")
    case False
    let ?t = "snd (run_command order files ?parts s)"
    have r: "reports s (run_command order files ?parts s)" by (rule run_command_reports)
    obtain line' where line': "ss_output ?t = ss_output s @ [line']" using r by (auto simp: reports_def)
    obtain steps where "length steps = length (scenario_commands lines)"
      "ss_output (run_scenario order files lines ?t) = ss_output ?t @ steps" using Cons.IH [of ?t] by blast
    then have "\<exists>steps. length steps = Suc (length (scenario_commands lines)) \<and>
        ss_output (run_scenario order files lines ?t) = ss_output s @ steps"
      using line' by (intro exI [of _ "line' # steps"]) simp
    then show ?thesis
      using False r Cons.IH [of ?t] by (auto simp: scenario_commands_def reports_def Let_def)
  qed (use Cons.IH [of s] in \<open>simp add: scenario_commands_def\<close>)
qed (simp add: scenario_commands_def)

subsection \<open>Failures\<close>

text \<open>Every command that fails, except a transition, is left to be claimed.\<close>

definition failure_counts :: "bool \<times> client_session \<Rightarrow> bool" where
  "failure_counts r \<longleftrightarrow> fst r \<or> ss_pending_failure (snd r) \<or> ss_expectation_failed (snd r)"

lemma failure_counts_intros [simp]:
  "failure_counts (True, s)" "failure_counts (step_failed verb status json s)"
  "failure_counts (step_refused verb e s)" "failure_counts (step_invalid verb message s)"
  by (simp_all add: failure_counts_def step_refused_def step_invalid_def step_failed_def)

lemma run_operation_failure [simp]: "failure_counts (run_operation verb op arguments s)"
  by (simp add: run_operation_def Let_def split: prod.split sum.split) (simp add: failure_counts_def)

lemma command_failure:
  assumes "parts ! 0 \<noteq> ''transition''"
  shows "failure_counts (run_command order files parts s)"
proof -
  have "failure_counts (command_topology order files parts s)" "failure_counts (command_policy files parts s)"
    "failure_counts (command_detect parts s)" "failure_counts (command_authorize s)" "failure_counts (command_plan s)"
    "failure_counts (command_apply s)" "failure_counts (command_ack parts s)" "failure_counts (command_verify parts s)"
    by (simp_all add: command_topology_def command_policy_def command_detect_def command_authorize_def command_plan_def
        command_apply_def command_ack_def command_verify_def Let_def split: sum.split option.split prod.split)
  moreover have "failure_counts (command_expect parts s)"
    by (simp add: command_expect_def Let_def) (simp add: failure_counts_def print_line_def)
  ultimately show ?thesis using assms by (simp add: run_command_def Let_def)
qed

text \<open>
  A program that exits with status zero has no failed expectation and no unclaimed failure: a failure
  of the last command, other than a transition, shows in the status.
\<close>

lemma run_scenario_append:
  "run_scenario order files (xs @ ys) s = run_scenario order files ys (run_scenario order files xs s)"
  by (induction xs arbitrary: s) (simp_all add: Let_def)

lemma last_failure_exits:
  assumes "split_words (strip_comment line) = parts" and "parts \<noteq> []" and "parts ! 0 \<noteq> ''transition''"
    and "\<not> fst (run_command order files parts (run_scenario order files lines s))"
  shows "exit_code (run_scenario order files (lines @ [line]) s) = 1"
  using assms command_failure [OF assms(3), of order files "run_scenario order files lines s"]
  by (simp add: run_scenario_append failure_counts_def exit_code_def Let_def)

text \<open>
  A success in between lets an expectation claim the wrong step: \<open>expect ok\<close> after it clears the
  failure that went before, which no expectation named.
\<close>

lemma expectation_claims_another_step:
  assumes "ss_last_status s = ''ok''"
  shows "ss_pending_failure (snd (command_expect [''expect'', ''ok''] s)) = False"
  using assms by (simp add: command_expect_def print_line_def Let_def)

text \<open>A transition the coordinator answers with an error is not counted as a failure.\<close>

lemma refused_transition_is_not_pending:
  assumes "parts = [''transition'', ''expand'']" and "ss_have_plan s" and "ask OpCurrentBoundary [] s = (b, t)"
    and "\<And>arguments. ask OpTransition arguments t = (Inr r, u)"
  shows "ss_pending_failure (snd (command_transition parts s)) = ss_pending_failure u"
  using assms
  by (simp add: command_transition_def command_transition_kind_def Let_def emit_step_def print_line_def case_prod_beta')

subsection \<open>Learning an identity\<close>

lemma length_escape: "length (json_escape s) \<le> 6 * length s + 2"
proof -
  have "length (escaped_char c) \<le> 6" for c by (simp add: escaped_char_def hex04_def)
  then have "length (concat (map escaped_char s)) \<le> 6 * length s"
    by (induction s) (auto simp: add_le_mono)
  then show ?thesis by (simp add: json_escape_def)
qed

lemma length_key_text: "length (json_escape (digest_hex d)) \<le> 194"
  using length_escape [of "digest_hex d"] by (simp add: digest_hex_def length_hex16)

lemma length_authorization: "length (authorization_to_json a) \<le> 1100"
proof -
  let ?v = "ar_authority a"
  let ?ms = "[(''authorization_id'', JNumber (ar_id a)), (''issued_sequence'', JNumber (ar_issued_sequence a)),
    (''issued_at_millis'', JNumber (ar_issued_at a)), (''expires_at_millis'', JNumber (ar_expires_at a)),
    (''allows_apply'', JBool (ar_allows_apply a)), (''epoch'', JNumber (av_epoch ?v)),
    (''boot_id'', JNumber (boot_bid (av_boot ?v))), (''boot_pid'', JNumber (ucast (boot_pid (av_boot ?v)))),
    (''policy_generation'', JNumber (av_policy ?v)), (''topology_generation'', JNumber (av_topology ?v)),
    (''evidence_revision'', JNumber (av_evidence_revision ?v)),
    (''evidence_digest'', JText (digest_hex (av_evidence_digest ?v))),
    (''authority_digest'', JText (digest_hex (authority_digest ?v)))]"
  let ?f = "\<lambda>(k, v). json_escape k @ '':'' @ json_render v"
  have doc: "authorization_to_json a = json_render (JObject ?ms)"
    unfolding authorization_to_json_def by (rule json_document_render) (rule json_writes | rule)+
  have size: "length (preceded b xs) \<le> (\<Sum>x \<leftarrow> xs. length x + 1)" for b xs
  proof (induction xs arbitrary: b)
    case (Cons x xs)
    show ?case using Cons.IH [of True] by (cases b) (simp_all add: preceded_Cons)
  qed (simp add: preceded_def)
  have "(\<Sum>x \<leftarrow> map ?f ?ms. length x + 1) \<le> 1000"
    using length_u64_string [of "ar_id a"] length_u64_string [of "ar_issued_sequence a"]
      length_u64_string [of "ar_issued_at a"] length_u64_string [of "ar_expires_at a"]
      length_u64_string [of "av_epoch ?v"] length_u64_string [of "boot_bid (av_boot ?v)"]
      length_u64_string [of "ucast (boot_pid (av_boot ?v))"] length_u64_string [of "av_policy ?v"]
      length_u64_string [of "av_topology ?v"] length_u64_string [of "av_evidence_revision ?v"]
      length_key_text [of "av_evidence_digest ?v"] length_key_text [of "authority_digest ?v"]
    by (simp add: json_escape_def escaped_char_def quote_def backslash_def)
  then show ?thesis
    unfolding doc render_members using size [of False "map ?f ?ms"] by simp
qed

text \<open>The answer to a request for an authorization is within the bounds of the client's decoder.\<close>

lemma authorize_answer_fits:
  assumes "authorize now w = (r, w')"
  shows "wf_response (answered OpAuthorize authorization_to_json r)"
    and "length (encode_response (answered OpAuthorize authorization_to_json r)) \<le> 1500"
proof -
  have "r = err Exhausted ''authorization table is full'' \<or> (\<exists>a. r = Inr a)"
    using assms by (cases w) (auto simp: authorize_def Let_def split: if_splits)
  then have "wf_response (answered OpAuthorize authorization_to_json r) \<and>
      length (encode_response (answered OpAuthorize authorization_to_json r)) \<le> 1500"
  proof (elim disjE exE)
    assume "r = err Exhausted ''authorization table is full''"
    then show ?thesis
      by (simp add: answered_def err_def fail_with_def blank_response_def mk_status_def wf_response_def
          encode_response_def length_fields w_status_code_def wire_text_limits)
  next
    fix a assume "r = Inr a"
    then show ?thesis using length_authorization [of a]
      by (simp add: answered_def ok_with_json_def blank_response_def wf_response_def encode_response_def length_fields
          w_status_code_def wire_text_limits)
  qed
  then show "wf_response (answered OpAuthorize authorization_to_json r)"
    and "length (encode_response (answered OpAuthorize authorization_to_json r)) \<le> 1500" by blast+
qed

lemma small_response_sendable:
  "length (encode_response response) \<le> 1500 \<Longrightarrow> 2000 \<le> room \<Longrightarrow> sendable (response_frame f response) room"
  by (simp add: sendable_def fits_chunks_def response_frame_def kReadChunkBytes_def kMaxFramePayloadBytes_def)

text \<open>What the command does with the response of the call.\<close>

lemma authorize_learns:
  assumes "client_call OpAuthorize [] c = (Inr (answered OpAuthorize authorization_to_json r), c')"
    and "\<And>e. r = Inl e \<Longrightarrow> is_failure (scode e)"
  obtains s' where "command_authorize (s\<lparr>ss_client := c\<rparr>) = (\<exists>a. r = Inr a, s')" "ss_client s' = c'"
    "case r of Inl _ \<Rightarrow> ss_pending_failure s' \<and> ss_authorization s' = ss_authorization s
     | Inr a \<Rightarrow> ss_authorization s' = ar_id a"
proof (cases r)
  case (Inl e)
  then show thesis using assms(1) assms(2) [OF Inl]
    by (intro that) (simp add: command_authorize_def ask_def answered_def fail_with_def blank_response_def
        step_failed_def Let_def, simp_all)
next
  case (Inr a)
  have "authorization_to_json a \<noteq> []" unfolding authorization_to_json_def
    using authorization_id_read [of a] by (auto simp: authorization_to_json_def json_field_u64_def text_after.simps)
  then show thesis using Inr assms(1)
    by (intro that) (simp add: command_authorize_def ask_def answered_def ok_with_json_def blank_response_def is_failure_def
        response_json_def authorization_id_read Let_def, simp_all)
qed

lemma authorize_round_trip:
  assumes conn: "connected i sv (ss_client s)" and step: "cl_sequence (ss_client s) < cl_sequence (ss_client s) + 1"
    and crash: "sc_crash_point (sv_config sv) = []"
    and send: "sendable (client_request_frame OpAuthorize [] (ss_client s)) (so_room (cl_socket (ss_client s)))"
    and room: "2000 \<le> server_room i sv"
    and chunks: "readable chunks" "concat chunks = encode_frame (client_request_frame OpAuthorize [] (ss_client s))"
    and run: "authorize (fst clock) (sv_world sv) = (r, w)"
    and answer: "readable answer" "concat answer = encode_frame
      (response_frame (client_request_frame OpAuthorize [] (ss_client s)) (answered OpAuthorize authorization_to_json r))"
  obtains n sv' s' where "iterations clock i n (arrives i chunks sv) = Some sv'" "sv_world sv' = w"
    "command_authorize (s\<lparr>ss_client := client_receives answer (ss_client s)\<rparr>) = (\<exists>a. r = Inr a, s')"
    "connected i sv' (ss_client s')"
    "case r of Inl _ \<Rightarrow> ss_pending_failure s' \<and> ss_authorization s' = ss_authorization s
     | Inr a \<Rightarrow> ss_authorization s' = ar_id a"
proof -
  have d: "dispatch OpAuthorize [] clock (sv_world sv) = Some (answered OpAuthorize authorization_to_json r, w)"
    using run by (simp add: dispatch_def run_op_def)
  note fits = authorize_answer_fits [OF run]
  obtain n sv' c' where c: "iterations clock i n (arrives i chunks sv) = Some sv'" "sv_world sv' = w"
    "client_call OpAuthorize [] (client_receives answer (ss_client s)) =
       (Inr (answered OpAuthorize authorization_to_json r), c')" "connected i sv' c'"
    by (rule call_round_trip [OF conn step crash send chunks d fits(1) small_response_sendable [OF fits(2) room] answer])
      simp
  have "is_failure (scode e)" if "r = Inl e" for e
    using run that by (cases "sv_world sv") (auto simp: authorize_def err_def is_failure_def Let_def split: if_splits)
  then obtain s' where "command_authorize (s\<lparr>ss_client := client_receives answer (ss_client s)\<rparr>) = (\<exists>a. r = Inr a, s')"
    "ss_client s' = c'" "case r of Inl _ \<Rightarrow> ss_pending_failure s' \<and> ss_authorization s' = ss_authorization s
     | Inr a \<Rightarrow> ss_authorization s' = ar_id a"
    by (rule authorize_learns [OF c(3)])
  then show thesis using c that by blast
qed

end
