(* ===== verification/App_Ctl.thy ===== *)
theory App_Ctl
  imports App_Config Engine_Planner Store_Durable Net_Server
begin

section \<open>The offline tool\<close>

text \<open>
  \<open>apps/ctl/main.cpp\<close>: planning without a coordinator, verification of a plan file, and the
  inspection of a store. A command takes its arguments and the operating system and returns the exit
  status, what it prints on standard output, and the operating system; the messages on the error
  stream are left out. \<open>None\<close> is a search that does not end, which \<open>ctl_main_returns\<close> excludes.
\<close>

type_synonym ctl_run = "nat \<times> string list \<times> os"

text \<open>A configuration file is read as text.\<close>

definition text_at :: "os \<Rightarrow> string \<Rightarrow> string option" where
  "text_at sys path = map_option chars_of (file_at sys path)"

subsection \<open>Loading the inputs\<close>

definition load_evidence :: "(line_fields \<Rightarrow> line_fields) \<Rightarrow> os \<Rightarrow> string \<Rightarrow> evidence_vector result" where
  "load_evidence order sys path =
     (if path = [] then evidence_build []
      else try_result (parse_evidence_file order (text_at sys path)) (\<lambda>observations.
        evidence_build (map (\<lambda>obs. \<lparr>ee_resource = fo_resource obs, ee_state = fo_state obs,
          ee_generation = fo_generation obs, ee_digest = fo_digest obs\<rparr>) observations)))"

definition load_policy :: "os \<Rightarrow> string \<Rightarrow> containment_policy result" where
  "load_policy sys path = (if path = [] then Inr default_policy else parse_policy_file (text_at sys path))"

definition load_topology :: "(line_fields \<Rightarrow> line_fields) \<Rightarrow> os \<Rightarrow> string \<Rightarrow> topology result" where
  "load_topology order sys path = try_result (parse_topology_file order (text_at sys path)) topology_build"

text \<open>The three inputs of planning and verification, in the order they are loaded.\<close>

definition load_inputs :: "(line_fields \<Rightarrow> line_fields) \<Rightarrow> os \<Rightarrow> string \<Rightarrow> string \<Rightarrow> string \<Rightarrow>
    (topology \<times> evidence_vector \<times> containment_policy) result" where
  "load_inputs order sys topology_path evidence_path policy_path =
     try_result (load_topology order sys topology_path) (\<lambda>t.
     try_result (load_evidence order sys evidence_path) (\<lambda>v.
     try_result (load_policy sys policy_path) (\<lambda>p. Inr (t, v, p))))"

subsection \<open>Planning\<close>

record plan_flags =
  pf_topology :: string
  pf_evidence :: string
  pf_policy :: string
  pf_out :: string
  pf_json_out :: string
  pf_boundary :: boundary_generation

definition no_plan_flags :: plan_flags where
  "no_plan_flags = \<lparr>pf_topology = [], pf_evidence = [], pf_policy = [], pf_out = [], pf_json_out = [],
     pf_boundary = 1\<rparr>"

text \<open>An unknown opt, or one without its value, is a usage error.\<close>

fun parse_plan_flags :: "string list \<Rightarrow> plan_flags \<Rightarrow> plan_flags option" where
  "parse_plan_flags [] f = Some f"
| "parse_plan_flags [opt] f = None"
| "parse_plan_flags (opt # v # arguments) f =
     (if opt = ''--topology'' then parse_plan_flags arguments (f\<lparr>pf_topology := v\<rparr>)
      else if opt = ''--evidence'' then parse_plan_flags arguments (f\<lparr>pf_evidence := v\<rparr>)
      else if opt = ''--policy'' then parse_plan_flags arguments (f\<lparr>pf_policy := v\<rparr>)
      else if opt = ''--out'' then parse_plan_flags arguments (f\<lparr>pf_out := v\<rparr>)
      else if opt = ''--json-out'' then parse_plan_flags arguments (f\<lparr>pf_json_out := v\<rparr>)
      else if opt = ''--boundary-generation'' then parse_plan_flags arguments (f\<lparr>pf_boundary := strtoull v\<rparr>)
      else None)"

definition offline_inputs :: "topology \<Rightarrow> evidence_vector \<Rightarrow> containment_policy \<Rightarrow> boundary_generation \<Rightarrow> plan_inputs" where
  "offline_inputs t v policy gen =
     \<lparr>in_topology = Some t, in_graph = Some (graph_build t), in_evidence = Some v, in_policy = Some policy,
      in_freshness = \<lparr>fv_confirmations = None, fv_current_boot = no_boot, fv_require_confirmation = False\<rparr>,
      in_boundary_generation = gen\<rparr>"

definition RcAuthorizationRequired :: reason_code where "RcAuthorizationRequired = 47"

definition mark_offline :: "containment_plan \<Rightarrow> containment_plan" where
  "mark_offline plan = seal (plan\<lparr>p_explanation := add_reason RcAuthorizationRequired
     ''offline planning aid: this plan carries no coordinator authority'' (p_explanation plan)\<rparr>)"

definition offline_plan :: "topology \<Rightarrow> evidence_vector \<Rightarrow> containment_policy \<Rightarrow> boundary_generation \<Rightarrow>
    containment_plan result option" where
  "offline_plan t v policy gen =
     (case compute_plan (offline_inputs t v policy gen) default_authority 1 of
        None \<Rightarrow> None
      | Some r \<Rightarrow> Some (try_result r (\<lambda>c. Inr (mark_offline (pl_plan c)))))"

text \<open>An output file that was asked for is replaced as a whole.\<close>

definition write_output :: "string \<Rightarrow> byte list \<Rightarrow> os \<Rightarrow> unit result \<times> os" where
  "write_output path bytes sys = (if path = [] then (Inr (), sys) else write_file_atomic path bytes True sys)"

definition offline_exit :: "containment_plan \<Rightarrow> nat" where
  "offline_exit plan =
     (if is_releasable plan \<or> p_claim plan \<in> {ClaimProvenContainment, ClaimFeasibleNotMinimal, ClaimProvenInfeasible}
      then 0 else 3)"

definition write_plan :: "plan_flags \<Rightarrow> containment_plan \<Rightarrow> os \<Rightarrow> ctl_run" where
  "write_plan f plan sys =
     (let json = plan_to_json plan
      in case write_output (pf_out f) (plan_encode plan) sys of
           (Inl _, sys1) \<Rightarrow> (1, [json], sys1)
         | (Inr _, sys1) \<Rightarrow>
             (case write_output (pf_json_out f) (bytes_of json) sys1 of
                (Inl _, sys2) \<Rightarrow> (1, [json], sys2)
              | (Inr _, sys2) \<Rightarrow> (offline_exit plan, [json], sys2)))"

definition ctl_plan :: "(line_fields \<Rightarrow> line_fields) \<Rightarrow> string list \<Rightarrow> os \<Rightarrow> ctl_run option" where
  "ctl_plan order arguments sys =
     (case parse_plan_flags arguments no_plan_flags of
        None \<Rightarrow> Some (2, [], sys)
      | Some f \<Rightarrow>
          if pf_topology f = [] then Some (2, [], sys)
          else (case load_inputs order sys (pf_topology f) (pf_evidence f) (pf_policy f) of
              Inl _ \<Rightarrow> Some (1, [], sys)
            | Inr (t, v, policy) \<Rightarrow>
                (case offline_plan t v policy (pf_boundary f) of
                   None \<Rightarrow> None
                 | Some (Inl _) \<Rightarrow> Some (1, [], sys)
                 | Some (Inr plan) \<Rightarrow> Some (write_plan f plan sys))))"

subsection \<open>Verifying a plan file\<close>

record verify_flags =
  vg_topology :: string
  vg_evidence :: string
  vg_policy :: string
  vg_plan :: string

definition no_verify_flags :: verify_flags where
  "no_verify_flags = \<lparr>vg_topology = [], vg_evidence = [], vg_policy = [], vg_plan = []\<rparr>"

fun parse_verify_flags :: "string list \<Rightarrow> verify_flags \<Rightarrow> verify_flags option" where
  "parse_verify_flags [] f = Some f"
| "parse_verify_flags [opt] f = None"
| "parse_verify_flags (opt # v # arguments) f =
     (if opt = ''--topology'' then parse_verify_flags arguments (f\<lparr>vg_topology := v\<rparr>)
      else if opt = ''--evidence'' then parse_verify_flags arguments (f\<lparr>vg_evidence := v\<rparr>)
      else if opt = ''--policy'' then parse_verify_flags arguments (f\<lparr>vg_policy := v\<rparr>)
      else if opt = ''--plan'' then parse_verify_flags arguments (f\<lparr>vg_plan := v\<rparr>)
      else None)"

definition recorded_spec :: "containment_plan \<Rightarrow> containment_policy \<Rightarrow> instance_spec" where
  "recorded_spec plan policy =
     \<lparr>sp_sources = p_sources plan, sp_protected = p_obligations plan, sp_forced_ineligible = [],
      sp_require_source = cp_require_source policy, sp_allow_protected = cp_allow_protected policy,
      sp_minimize_protected = cp_minimize_protected policy, sp_max_weight = cp_max_weight policy,
      sp_max_members = unat (cp_max_members policy)\<rparr>"

fun resolve_members :: "topology \<Rightarrow> boundary_member list \<Rightarrow> nat list option" where
  "resolve_members t [] = Some []"
| "resolve_members t (m # ms) =
     (case topology_find t (bm_resource m) of None \<Rightarrow> None
      | Some index \<Rightarrow> map_option (Cons index) (resolve_members t ms))"

text \<open>The verdict: the exit status and the members of the document after the first three.\<close>

definition verdict :: "topology \<Rightarrow> containment_policy \<Rightarrow> containment_plan \<Rightarrow> nat \<times> (json_writer \<Rightarrow> json_writer) list" where
  "verdict t policy plan =
     (let spec = recorded_spec plan policy; contained_nothing = (b_members (p_boundary plan) = [])
      in if sp_sources spec = [] \<or> sp_protected spec = []
           then (if contained_nothing then 0 else 1,
             [member_bool ''verified'' contained_nothing,
              member_text ''reason'' ''instance has no failure sources or no protected obligations''])
         else case problem_build (graph_build t) spec of
             Inl e \<Rightarrow> (1, [member_bool ''verified'' False, member_text ''reason'' (status_to_string e)])
           | Inr p \<Rightarrow>
               (case resolve_members t (b_members (p_boundary plan)) of
                  None \<Rightarrow> (1, [member_bool ''verified'' False,
                    member_text ''reason'' ''boundary names a resource that is not in the topology''])
                | Some members \<Rightarrow>
                    (case verify_cut p members of
                       Inl e \<Rightarrow> (1, [member_bool ''verified'' False, member_text ''reason'' (status_to_string e)])
                     | Inr objective \<Rightarrow> (0, [member_bool ''verified'' True,
                         member_number ''objective_protected_inclusions'' (ov_protected objective),
                         member_number ''objective_total_weight'' (ov_weight objective),
                         member_number ''objective_cardinality'' (ov_cardinality objective),
                         member_number ''plan_total_weight'' (p_total_weight plan),
                         member_number ''plan_member_count'' (p_member_count plan)]))))"

definition verdict_document :: "topology \<Rightarrow> containment_policy \<Rightarrow> containment_plan \<Rightarrow> string" where
  "verdict_document t policy plan = json_document (j_object
     ([member_number ''plan_generation'' (p_generation plan),
       member_text ''plan_digest'' (digest_hex (p_digest plan)),
       member_text ''plan_claim'' (claim_to_string (p_claim plan))] @ snd (verdict t policy plan)))"

definition ctl_verify :: "(line_fields \<Rightarrow> line_fields) \<Rightarrow> string list \<Rightarrow> os \<Rightarrow> ctl_run" where
  "ctl_verify order arguments sys =
     (case parse_verify_flags arguments no_verify_flags of
        None \<Rightarrow> (2, [], sys)
      | Some f \<Rightarrow>
          if vg_topology f = [] \<or> vg_plan f = [] then (2, [], sys)
          else (case load_inputs order sys (vg_topology f) (vg_evidence f) (vg_policy f) of
              Inl _ \<Rightarrow> (1, [], sys)
            | Inr (t, _, policy) \<Rightarrow>
                (let (bytes, sys1) = read_file (vg_plan f) kMaxRecordPayloadBytes sys
                 in case try_result bytes plan_decode of
                      Inl _ \<Rightarrow> (1, [], sys1)
                    | Inr plan \<Rightarrow> (fst (verdict t policy plan), [verdict_document t policy plan], sys1))))"

subsection \<open>Inspecting a store\<close>

fun parse_inspect_flags :: "string list \<Rightarrow> string \<times> bool \<Rightarrow> (string \<times> bool) option" where
  "parse_inspect_flags [] f = Some f"
| "parse_inspect_flags (opt # arguments) (root, repair) =
     (if opt = ''--root'' then
        (case arguments of [] \<Rightarrow> None | v # rest \<Rightarrow> parse_inspect_flags rest (v, repair))
      else if opt = ''--repair'' then parse_inspect_flags arguments (root, True)
      else None)"

text \<open>How often each number of a record type occurs; zero is not a record type.\<close>

definition type_member :: "frame list \<Rightarrow> nat \<Rightarrow> json_writer \<Rightarrow> json_writer" where
  "type_member frames i =
     member_number (if is_valid_record_type (of_nat i) then record_type_to_string (record_type_cast (of_nat i))
                    else ''unrecognised_record_type'')
       (of_nat (length (filter (\<lambda>f. record_type_value (fr_type f) = of_nat i) frames)))"

definition recovery_document :: "durable_store \<Rightarrow> string" where
  "recovery_document st =
     (let r = st_recovery st
      in json_document (j_object
        [member_bool ''opened'' True, member_bool ''fresh'' (rr_fresh r), member_bool ''torn_tail'' (rr_torn_tail r),
         member_number ''torn_tail_bytes'' (rr_torn_tail_bytes r),
         member_number ''replayed_records'' (of_nat (rr_replayed_records r)),
         member_number ''skipped_records'' (of_nat (rr_skipped_records r)),
         member_number ''snapshot_sequence'' (rr_snapshot_sequence r),
         member_number ''wal_segment'' (rr_wal_segment r),
         member_number ''last_sequence'' (rr_last_sequence r),
         member_number ''snapshot_payload_bytes'' (of_nat (length (rr_snapshot_payload r))),
         member_text ''detail'' (rr_detail r),
         member_value ''record_types'' (j_object (map (type_member (st_replayed st)) [0..<17]))]))"

text \<open>The store is closed when the command returns.\<close>

definition ctl_store_inspect :: "string list \<Rightarrow> os \<Rightarrow> ctl_run" where
  "ctl_store_inspect arguments sys =
     (case parse_inspect_flags arguments ([], False) of
        None \<Rightarrow> (2, [], sys)
      | Some (root, repair) \<Rightarrow>
          if root = [] then (2, [], sys)
          else (case store_open \<lparr>so_root = root, so_retained_snapshots = kMaxRetainedSnapshots,
                  so_durable_commit = True, so_allow_torn_tail = repair\<rparr> sys of
              (Inl e, sys1) \<Rightarrow> (1, [json_document (j_object
                [member_bool ''opened'' False, member_text ''error'' (status_to_string e)])], sys1)
            | (Inr st, sys1) \<Rightarrow> (0, [recovery_document st], snd (release_lock (st, sys1)))))"

definition ctl_main :: "(line_fields \<Rightarrow> line_fields) \<Rightarrow> string list \<Rightarrow> os \<Rightarrow> ctl_run option" where
  "ctl_main order argv sys =
     (let command = (case argv of [] \<Rightarrow> [] | c # _ \<Rightarrow> c); arguments = tl argv
      in if command = ''plan'' then ctl_plan order arguments sys
         else if command = ''verify'' then Some (ctl_verify order arguments sys)
         else if command = ''store-inspect'' then Some (ctl_store_inspect arguments sys)
         else if command = ''version'' then Some (0, [''{'' @ [quote] @ ''version'' @ [quote] @ '':'' @ [quote] @ kVersionString @
           [quote] @ '','' @ [quote] @ ''semantic_version'' @ [quote] @ '':'' @ dec_string (unat kSemanticVersion) @ ''}''], sys)
         else Some (2, [], sys))"

end
