(* ===== verification/App_Offline.thy ===== *)
theory App_Offline
  imports App_Ctl App_Export Engine_Storable Examples
begin

section \<open>Planning and verifying offline\<close>

text \<open>
  What the verdict on a plan file means for the topology and the policy it was given, and that the
  verdict accepts what planning wrote; at the end, a run of the tool on the chain of \<open>Examples\<close>.
\<close>

subsection \<open>The members of a boundary\<close>

lemma resolve_members_ids:
  assumes "wf_topology t" and "resolve_members t ms = Some is"
  shows "map (\<lambda>i. ns_id (t_nodes t ! i)) is = map bm_resource ms" and "set is \<subseteq> {..<node_count t}"
  using assms(2)
proof (induction ms arbitrary: "is")
  case (Cons m ms)
  case 1
  then show ?case using Cons topology_find_iff [OF assms(1)] by (auto split: option.splits)
next
  case (Cons m ms)
  case 2
  then show ?case using Cons topology_find_iff [OF assms(1)] by (auto split: option.splits)
qed simp_all

lemma resolve_members_known:
  "(\<And>m. m \<in> set ms \<Longrightarrow> topology_find t (bm_resource m) \<noteq> None) \<Longrightarrow> \<exists>is. resolve_members t ms = Some is"
  by (induction ms) (auto split: option.split)

subsection \<open>The verdict is sound\<close>

lemma verdict_checks:
  assumes "fst (verdict t policy plan) = 0" and "p_sources plan \<noteq> []" and "p_obligations plan \<noteq> []"
  obtains p "is" objective where "problem_build (graph_build t) (recorded_spec plan policy) = Inr p"
    "resolve_members t (b_members (p_boundary plan)) = Some is" "verify_cut p is = Inr objective"
  using assms by (auto simp: verdict_def recorded_spec_def Let_def split: sum.splits option.splits if_splits)

lemma verdict_sound:
  assumes t: "wf_topology t" and v: "fst (verdict t policy plan) = 0"
    and ne: "p_sources plan \<noteq> []" "p_obligations plan \<noteq> []"
  shows "exposed t (p_sources plan) (contained_resources plan) r \<Longrightarrow> r \<notin> set (p_obligations plan)"
    and "length (b_members (p_boundary plan)) \<le> unat (cp_max_members policy)"
    and "m \<in> set (b_members (p_boundary plan)) \<Longrightarrow> \<exists>i < node_count t. ns_id (t_nodes t ! i) = bm_resource m \<and>
      (ns_containable (t_nodes t ! i) \<or> cp_allow_protected policy \<and> bm_resource m \<in> set (p_obligations plan))"
proof -
  obtain p "is" objective where b: "problem_build (graph_build t) (recorded_spec plan policy) = Inr p"
    and i: "resolve_members t (b_members (p_boundary plan)) = Some is" and c: "verify_cut p is = Inr objective"
    by (rule verdict_checks [OF v ne])
  have free: "sp_forced_ineligible (recorded_spec plan policy) = []" by (simp add: recorded_spec_def)
  note q = instance_problem [OF t b free] and ids = resolve_members_ids [OF t i]
  have d: "distinct is" "feasible p (set is)" using c verify_cut_iff [OF q(2)] by auto
  have at: "ids_at p is = map bm_resource (b_members (p_boundary plan))"
    using ids q(5) by (auto simp: ids_at_def simp flip: ids(1))
  have "set (ids_at p is) = contained_resources plan" by (simp add: at contained_resources_def)
  then show "r \<notin> set (p_obligations plan)" if "exposed t (p_sources plan) (contained_resources plan) r"
    using instance_separates [OF t b free _ ids(2)] that d(2) by (simp add: recorded_spec_def feasible_def)
  have "length is = length (b_members (p_boundary plan))" using ids(1) by (metis length_map)
  then show "length (b_members (p_boundary plan)) \<le> unat (cp_max_members policy)"
    using d q(12) distinct_card [OF d(1)] by (simp add: feasible_def recorded_spec_def)
  show "\<exists>i < node_count t. ns_id (t_nodes t ! i) = bm_resource m \<and>
      (ns_containable (t_nodes t ! i) \<or> cp_allow_protected policy \<and> bm_resource m \<in> set (p_obligations plan))"
    if "m \<in> set (b_members (p_boundary plan))"
  proof -
    have "bm_resource m \<in> set (map (\<lambda>i. ns_id (t_nodes t ! i)) is)" using that ids(1) by simp
    then obtain i where i: "i \<in> set is" "bm_resource m = ns_id (t_nodes t ! i)" by auto
    then have n: "i < node_count t" using ids(2) by auto
    have "is_containable p i" using d(2) i(1) by (simp add: feasible_def)
    then show ?thesis
      using q(13) [OF n] q(7) [OF n] q(5) [OF n] i(2) n by (auto simp: recorded_spec_def split: if_splits)
  qed
qed

subsection \<open>Planning is accepted\<close>

lemma offline_inputs_valid: "wf_topology t \<Longrightarrow> valid_inputs (offline_inputs t v policy gen) t v policy"
  by (simp add: valid_inputs_def offline_inputs_def)

lemma mark_offline_fields [simp]:
  "p_sources (mark_offline plan) = p_sources plan" "p_obligations (mark_offline plan) = p_obligations plan"
  "p_boundary (mark_offline plan) = p_boundary plan" "p_claim (mark_offline plan) = p_claim plan"
  by (simp_all add: mark_offline_def)

lemma offline_plan_computed:
  assumes "wf_topology t" and "offline_plan t v policy gen = Some (Inr plan)"
  obtains c where "compute_plan (offline_inputs t v policy gen) default_authority 1 = Some (Inr c)"
    "plan = mark_offline (pl_plan c)" "p_sources plan = known_sources t v" "p_obligations plan = protected_obligations t"
proof -
  obtain c where c: "compute_plan (offline_inputs t v policy gen) default_authority 1 = Some (Inr c)"
    "plan = mark_offline (pl_plan c)"
    using assms(2) by (auto simp: offline_plan_def try_result_Inr_iff split: option.splits)
  then show thesis using that compute_plan_records [OF offline_inputs_valid [OF assms(1)] c(1)] by simp
qed

lemma offline_plan_returns:
  assumes "wf_topology t"
  shows "\<exists>r. offline_plan t v policy gen = Some r"
proof -
  obtain r where "compute_plan (offline_inputs t v policy gen) default_authority 1 = Some r"
    using compute_plan_total [OF offline_inputs_valid [OF assms]] by blast
  then show ?thesis by (simp add: offline_plan_def)
qed

text \<open>The boundary of a solved plan resolves to the planned members, and the verifier accepts them.\<close>

lemma solution_resolves:
  assumes t: "wf_topology t" and s: "solution_plan t v policy freshness p sol plan"
  obtains "is" objective where "resolve_members t (b_members (p_boundary plan)) = Some is" "verify_cut p is = Inr objective"
proof -
  note d = solution_planD [OF t s]
  note q = planner_problem [OF t d(1)]
  let ?ms = "planned_members p sol"
  have mem: "set (b_members (p_boundary plan)) = boundary_entry p ?ms ` set ?ms" and wf: "wf_boundary (p_boundary plan)"
    using s by (auto simp: solution_plan_def Let_def)
  have "topology_find t (bm_resource m) \<noteq> None" if "m \<in> set (b_members (p_boundary plan))" for m
  proof -
    obtain x where x: "x \<in> set ?ms" "m = boundary_entry p ?ms x" using \<open>m \<in> _\<close> unfolding mem by blast
    then have "x < node_count t" using d(3) by auto
    then show ?thesis using topology_find_iff [OF t, of "ns_id (t_nodes t ! x)" x] q(5) [of x] x(2) by simp
  qed
  then obtain "is" where i: "resolve_members t (b_members (p_boundary plan)) = Some is" using resolve_members_known by blast
  note r = resolve_members_ids [OF t i]
  have "set (map (\<lambda>i. ns_id (t_nodes t ! i)) is) = (\<lambda>i. ns_id (t_nodes t ! i)) ` set ?ms"
    using d(3) q(5) unfolding r(1) set_map mem image_image by (intro image_cong) auto
  then have "set is = set ?ms"
    unfolding set_map
    by (intro inj_on_image_eq_iff [THEN iffD1, of "\<lambda>i. ns_id (t_nodes t ! i)" "{..<node_count t}"])
      (use r(2) d(3) in \<open>auto intro!: inj_onI dest: wf_topology_index_inj [OF t]\<close>)
  moreover have "distinct (map bm_resource (b_members (p_boundary plan)))"
    using wf by (auto simp: wf_boundary_def wf_members_def strict_sorted_iff)
  then have "distinct is" unfolding r(1) [symmetric] by (simp add: distinct_map)
  ultimately have "verify_cut p is = Inr (objective_value p (set is))" using d(4) verify_cut_iff [OF q(2)] by simp
  then show thesis using that i by blast
qed

lemma verdict_accepts:
  assumes t: "wf_topology t" and plan: "offline_plan t v policy gen = Some (Inr plan)"
    and claim: "claims_containment plan" and sense: "p_obligations plan \<noteq> [] \<or> b_members (p_boundary plan) = []"
  shows "fst (verdict t policy plan) = 0"
proof -
  obtain c where c: "compute_plan (offline_inputs t v policy gen) default_authority 1 = Some (Inr c)"
    "plan = mark_offline (pl_plan c)" "p_sources plan = known_sources t v" "p_obligations plan = protected_obligations t"
    by (rule offline_plan_computed [OF t plan])
  have b: "p_boundary plan = p_boundary (pl_plan c)" "p_claim plan = p_claim (pl_plan c)" by (simp_all add: c(2))
  note inp = offline_inputs_valid [OF t, of v policy gen]
  show ?thesis
    using inp c(1)
  proof (cases rule: compute_plan_cases)
    case quiet
    then have "known_sources t v = []" by (simp add: known_sources_def)
    moreover have "b_members (p_boundary plan) = []" using plan_no_failures_result [OF quiet(2)] by (simp add: b)
    ultimately show ?thesis by (simp add: verdict_def recorded_spec_def c(3))
  next
    case missing
    then show ?thesis using claim plan_all_missing_result [OF missing(3)] by (simp add: claims_containment_def b)
  next
    case unprotected
    then show ?thesis using sense by (simp add: verdict_def recorded_spec_def c(4))
  next
    case (solved p plan')
    have spec: "recorded_spec plan policy = planner_spec t v policy"
      by (simp add: recorded_spec_def planner_spec_def c(3,4))
    from inp c(1) solved(1) show ?thesis
    proof (cases rule: solved_plan_cases)
      case (solution sol)
      obtain "is" objective where i: "resolve_members t (b_members (p_boundary plan)) = Some is" "verify_cut p is = Inr objective"
        using solution_resolves [OF t solution] b(1) by metis
      have "sp_sources (planner_spec t v policy) \<noteq> [] \<and> sp_protected (planner_spec t v policy) \<noteq> []"
        using solved(2) unfolding problem_build_iff [OF t] by blast
      then show ?thesis using solved(2) i by (simp add: verdict_def spec Let_def)
    qed (use claim b in \<open>auto simp: claims_containment_def\<close>)
  qed
qed

subsection \<open>The two commands\<close>

lemma mark_offline_encodable:
  assumes t: "wf_topology t" and plan: "offline_plan t v policy gen = Some (Inr plan)"
    and claim: "claims_containment plan" and size: "within_codec_bounds plan"
  shows "encodable_plan plan"
proof -
  obtain c where c: "compute_plan (offline_inputs t v policy gen) default_authority 1 = Some (Inr c)"
    "plan = mark_offline (pl_plan c)" by (rule offline_plan_computed [OF t plan])
  note inp = offline_inputs_valid [OF t, of v policy gen]
  have "claims_containment (pl_plan c)" "within_codec_bounds (pl_plan c)"
    using claim size by (simp_all add: c(2) claims_containment_def within_codec_bounds_def)
  then have "storable_parts (pl_plan c)" using claimed_plan_storable [OF inp c(1)] by blast
  then have parts: "storable_parts plan"
    unfolding c(2) mark_offline_def storable_seal
    by (simp add: storable_parts_def encodable_reason RcAuthorizationRequired_def kMaxReasonCodeValue_def)
  have "seal plan = plan" by (simp add: c(2) mark_offline_def seal_idem)
  from storable_encodable [OF parts this] show ?thesis
    using recorded_ids_encodable [OF inp c(1) \<open>within_codec_bounds (pl_plan c)\<close>] size
    by (simp add: c(2) within_codec_bounds_def)
qed

lemma load_inputs_unchanged:
  assumes "\<And>path. path \<in> {topology, evidence, policy} \<Longrightarrow> path = [] \<or> file_at sys' path = file_at sys path"
    and "topology \<noteq> []"
  shows "load_inputs order sys' topology evidence policy = load_inputs order sys topology evidence policy"
proof -
  have "text_at sys' topology = text_at sys topology" using assms(1) [of topology] assms(2) by (auto simp: text_at_def)
  moreover have "load_evidence order sys' evidence = load_evidence order sys evidence"
    using assms(1) [of evidence] by (auto simp: load_evidence_def text_at_def)
  moreover have "load_policy sys' policy = load_policy sys policy"
    using assms(1) [of policy] by (auto simp: load_policy_def text_at_def)
  ultimately show ?thesis by (simp add: load_inputs_def load_topology_def)
qed

lemma load_inputs_wf: "load_inputs order sys a b c = Inr (t, v, policy) \<Longrightarrow> wf_topology t"
  by (auto simp: load_inputs_def load_topology_def try_result_Inr_iff intro: topology_build_wf)

lemma write_plan_free:
  assumes "fault_free sys" and "pf_out f \<noteq> []" and "pf_json_out f \<noteq> pf_out f" and "claims_containment plan"
  obtains sys' where "write_plan f plan sys = (0, [plan_to_json plan], sys')" "fault_free sys'"
    "file_at sys' (pf_out f) = Some (plan_encode plan)"
    "\<And>path. path \<noteq> pf_out f \<Longrightarrow> path \<noteq> pf_json_out f \<Longrightarrow> file_at sys' path = file_at sys path"
proof -
  let ?s1 = "put_file (pf_out f) (plan_encode plan) sys"
  let ?s2 = "if pf_json_out f = [] then ?s1 else put_file (pf_json_out f) (bytes_of (plan_to_json plan)) ?s1"
  have "offline_exit plan = 0" using assms(4) by (auto simp: offline_exit_def claims_containment_def)
  then have "write_plan f plan sys = (0, [plan_to_json plan], ?s2)"
    using assms by (simp add: write_plan_def write_output_def Let_def os_simps)
  then show thesis using assms by (intro that [of ?s2]) (auto simp: os_simps)
qed

lemma planned_file_verifies:
  assumes free: "fault_free sys" and flags: "parse_plan_flags a no_plan_flags = Some f"
    and verify: "parse_verify_flags b no_verify_flags = Some \<lparr>vg_topology = pf_topology f, vg_evidence = pf_evidence f,
      vg_policy = pf_policy f, vg_plan = pf_out f\<rparr>"
    and paths: "pf_topology f \<noteq> []" "pf_out f \<notin> {[], pf_topology f, pf_evidence f, pf_policy f, pf_json_out f}"
      "pf_json_out f = [] \<or> pf_json_out f \<notin> {pf_topology f, pf_evidence f, pf_policy f}"
    and inputs: "load_inputs order sys (pf_topology f) (pf_evidence f) (pf_policy f) = Inr (t, v, policy)"
    and plan: "offline_plan t v policy (pf_boundary f) = Some (Inr plan)" and claim: "claims_containment plan"
    and sense: "p_obligations plan \<noteq> [] \<or> b_members (p_boundary plan) = []"
    and count: "length (p_sources plan) \<le> kMaxFailureSources" "length (p_obligations plan) \<le> kMaxProtectedObligations"
    and size: "length (boundary_encode (p_boundary plan)) \<le> 14000000"
  obtains sys' where "ctl_plan order a sys = Some (0, [plan_to_json plan], sys')"
    "ctl_verify order b sys' = (0, [verdict_document t policy plan], sys')"
proof -
  have t: "wf_topology t" by (rule load_inputs_wf [OF inputs])
  have "within_codec_bounds plan" using count size by (simp add: within_codec_bounds_def kMaxRecordPayloadBytes_def)
  from mark_offline_encodable [OF t plan claim this] have e: "encodable_plan plan" .
  have len: "length (plan_encode plan) \<le> kMaxRecordPayloadBytes"
    using plan_encode_length [OF e] size by (simp add: kMaxRecordPayloadBytes_def)
  obtain sys' where s: "write_plan f plan sys = (0, [plan_to_json plan], sys')" "fault_free sys'"
    "file_at sys' (pf_out f) = Some (plan_encode plan)"
    "\<And>path. path \<noteq> pf_out f \<Longrightarrow> path \<noteq> pf_json_out f \<Longrightarrow> file_at sys' path = file_at sys path"
    by (rule write_plan_free [OF free _ _ claim]) (use paths in auto)
  have planned: "ctl_plan order a sys = Some (0, [plan_to_json plan], sys')"
    using paths(1) by (simp add: ctl_plan_def flags inputs plan s(1))
  have same: "load_inputs order sys' (pf_topology f) (pf_evidence f) (pf_policy f) = Inr (t, v, policy)"
  proof -
    have "path = [] \<or> file_at sys' path = file_at sys path" if "path \<in> {pf_topology f, pf_evidence f, pf_policy f}" for path
      using s(4) [of path] paths that by (cases "path = []") auto
    then show ?thesis using load_inputs_unchanged [OF _ paths(1)] inputs by metis
  qed
  have "read_file (pf_out f) kMaxRecordPayloadBytes sys' = (Inr (plan_encode plan), sys')"
    using s(2,3) len by (simp add: os_simps)
  then have "ctl_verify order b sys' = (0, [verdict_document t policy plan], sys')"
    using paths(1,2) plan_decode_encode [OF e] verdict_accepts [OF t plan claim sense]
    by (simp add: ctl_verify_def verify same)
  then show thesis using planned that by blast
qed

lemma ctl_main_returns: "ctl_main order argv sys \<noteq> None"
proof -
  have "ctl_plan order arguments sys \<noteq> None" for arguments
  proof (cases "parse_plan_flags arguments no_plan_flags")
    case (Some f)
    show ?thesis
    proof (cases "load_inputs order sys (pf_topology f) (pf_evidence f) (pf_policy f)")
      case (Inr x)
      obtain t v policy where x: "x = (t, v, policy)" by (cases x)
      obtain r where "offline_plan t v policy (pf_boundary f) = Some r"
        using offline_plan_returns [OF load_inputs_wf [OF Inr [unfolded x]]] by blast
      then show ?thesis by (cases r) (simp_all add: ctl_plan_def Some Inr x del: not_None_eq)
    qed (simp add: ctl_plan_def Some)
  qed (simp add: ctl_plan_def)
  then show ?thesis by (simp add: ctl_main_def Let_def del: not_None_eq)
qed

lemma ctl_verify_accepted:
  assumes "ctl_verify order arguments sys = (0, out, sys')"
  obtains f t v policy bytes plan where "parse_verify_flags arguments no_verify_flags = Some f"
    "load_inputs order sys (vg_topology f) (vg_evidence f) (vg_policy f) = Inr (t, v, policy)"
    "fst (read_file (vg_plan f) kMaxRecordPayloadBytes sys) = Inr bytes" "plan_decode bytes = Inr plan"
    "fst (verdict t policy plan) = 0" "out = [verdict_document t policy plan]"
  using assms
  by (auto simp: ctl_verify_def Let_def case_prod_beta' try_result_Inr_iff split: option.splits if_splits sum.splits)

lemma ctl_verify_sound:
  assumes "ctl_verify order arguments sys = (0, out, sys')"
  obtains f t v policy bytes plan where "parse_verify_flags arguments no_verify_flags = Some f"
    "load_inputs order sys (vg_topology f) (vg_evidence f) (vg_policy f) = Inr (t, v, policy)"
    "fst (read_file (vg_plan f) kMaxRecordPayloadBytes sys) = Inr bytes" "plan_decode bytes = Inr plan"
    "out = [verdict_document t policy plan]"
    "if p_sources plan = [] \<or> p_obligations plan = [] then b_members (p_boundary plan) = []
     else (\<forall>r. exposed t (p_sources plan) (contained_resources plan) r \<longrightarrow> r \<notin> set (p_obligations plan)) \<and>
       length (b_members (p_boundary plan)) \<le> unat (cp_max_members policy) \<and>
       (\<forall>m \<in> set (b_members (p_boundary plan)). \<exists>i < node_count t. ns_id (t_nodes t ! i) = bm_resource m \<and>
         (ns_containable (t_nodes t ! i) \<or> cp_allow_protected policy \<and> bm_resource m \<in> set (p_obligations plan)))"
proof -
  obtain f t v policy bytes plan where a: "parse_verify_flags arguments no_verify_flags = Some f"
    "load_inputs order sys (vg_topology f) (vg_evidence f) (vg_policy f) = Inr (t, v, policy)"
    "fst (read_file (vg_plan f) kMaxRecordPayloadBytes sys) = Inr bytes" "plan_decode bytes = Inr plan"
    "fst (verdict t policy plan) = 0" "out = [verdict_document t policy plan]"
    by (rule ctl_verify_accepted [OF assms])
  show thesis
  proof (cases "p_sources plan = [] \<or> p_obligations plan = []")
    case True
    then show thesis using that [OF a(1-4,6)] a(5) by (auto simp: verdict_def recorded_spec_def Let_def split: if_splits)
  next
    case False
    then have ne: "p_sources plan \<noteq> []" "p_obligations plan \<noteq> []" by simp_all
    show thesis
      using that [OF a(1-4,6)] False verdict_sound [OF load_inputs_wf [OF a(2)] a(5) ne] by simp
  qed
qed

subsection \<open>A run of the offline tool\<close>

text \<open>
  The chain of \<open>Examples\<close> as three files: planning writes a plan of it, verification reads the
  plan back.
\<close>

definition lines_text :: "string list list \<Rightarrow> string" where
  "lines_text wss = concat (map (\<lambda>l. l @ [CHR 0x0A]) (map join_words wss))"

definition ex_policy_words :: "string list list" where
  "ex_policy_words = [[''require_failure_source_inclusion'', ''no''], [''exact_search_budget'', ''100''],
     [''heuristic_budget'', ''100''], [''max_boundary_weight'', ''1000''], [''max_boundary_members'', ''16'']]"

definition ex_evidence_words :: "string list list" where
  "ex_evidence_words = [[''s'', ''present'', ''1'']]"

definition ex_tool :: os where
  "ex_tool = \<lparr>os_root = RootDirectory,
     os_files = [(''topology'', bytes_of (write_topology_file (ex_topology True))),
       (''evidence'', bytes_of (lines_text ex_evidence_words)), (''policy'', bytes_of (lines_text ex_policy_words))],
     os_faults = [], os_pid = 1, os_alive = \<lambda>_. False\<rparr>"

definition ex_plan_arguments :: "string list" where
  "ex_plan_arguments = [''--topology'', ''topology'', ''--evidence'', ''evidence'', ''--policy'', ''policy'',
     ''--boundary-generation'', ''4'', ''--out'', ''plan'']"

definition ex_verify_arguments :: "string list" where
  "ex_verify_arguments = [''--topology'', ''topology'', ''--evidence'', ''evidence'', ''--policy'', ''policy'',
     ''--plan'', ''plan'']"

lemma ex_flags:
  "parse_plan_flags ex_plan_arguments no_plan_flags = Some \<lparr>pf_topology = ''topology'', pf_evidence = ''evidence'',
     pf_policy = ''policy'', pf_out = ''plan'', pf_json_out = [], pf_boundary = 4\<rparr>"
  "parse_verify_flags ex_verify_arguments no_verify_flags = Some \<lparr>vg_topology = ''topology'',
     vg_evidence = ''evidence'', vg_policy = ''policy'', vg_plan = ''plan''\<rparr>"
  by (simp_all add: ex_plan_arguments_def ex_verify_arguments_def no_plan_flags_def no_verify_flags_def strtoull_def
      is_space_def config_digit_def less_eq_char_def Let_def)

lemma read_lines_text:
  assumes "\<And>ws. ws \<in> set wss \<Longrightarrow> (\<forall>w \<in> set ws. word w) \<and> length (join_words ws) \<le> kMaxLineLength"
    and "length wss \<le> kMaxLines"
  shows "read_lines (Some (lines_text wss)) = Inr (map join_words wss)"
proof -
  have "text_lines (lines_text wss) = map join_words wss"
    unfolding lines_text_def using assms(1) join_plain(1) by (intro text_lines_join) auto
  moreover have "lines_loop 0 (map join_words wss) = Inr (map join_words wss)"
    using assms join_plain(2) by (intro lines_loop_ok) auto
  ultimately show ?thesis by (simp add: read_lines_def)
qed

lemma ex_words:
  "ws \<in> set ex_policy_words \<Longrightarrow> (\<forall>w \<in> set ws. word w) \<and> length (join_words ws) \<le> kMaxLineLength"
  "ws \<in> set ex_evidence_words \<Longrightarrow> (\<forall>w \<in> set ws. word w) \<and> length (join_words ws) \<le> kMaxLineLength"
  by (auto simp: ex_policy_words_def ex_evidence_words_def word_def in_word_def is_space_def kMaxLineLength_def)

lemma ex_numbers:
  "config_u64 ''100'' = Some 100" "config_u64 ''1000'' = Some 1000" "config_u64 ''16'' = Some 16" "config_u64 ''1'' = Some 1"
  by (simp_all add: config_u64_def less_char_def)

lemma ex_policy_parsed: "parse_policy_file (Some (lines_text ex_policy_words)) = Inr (ex_policy False)"
proof -
  have "split_words (join_words ws) = ws" if "ws \<in> set ex_policy_words" for ws
    using ex_words(1) [of ws] that by (intro split_join) simp
  then have "parse_lines policy_directive (map join_words ex_policy_words) default_policy = Inr (ex_policy False)"
    unfolding ex_policy_words_def by (simp del: join_words.simps add: policy_directive_def policy_flag_def policy_number_def
      ex_numbers parse_bool_def ex_policy_def)
  moreover have "read_lines (Some (lines_text ex_policy_words)) = Inr (map join_words ex_policy_words)"
    by (rule read_lines_text [OF ex_words(1)]) (simp_all add: ex_policy_words_def kMaxLines_def)
  ultimately show ?thesis by (simp only: parse_policy_file_def try_result.simps)
qed

lemma ex_evidence_parsed:
  "parse_evidence_file id (Some (lines_text ex_evidence_words)) = Inr [\<lparr>fo_resource = ''s'', fo_state = EvPresent,
     fo_generation = 1, fo_digest = zero_digest, fo_observed_at = 0\<rparr>]"
proof -
  have "parse_resource_id ''s'' = Inr ''s''" "parse_evidence_state ''present'' = Some EvPresent" by code_simp+
  moreover have "split_words (join_words [''s'', ''present'', ''1'']) = [''s'', ''present'', ''1'']"
    using ex_words(2) [of "[''s'', ''present'', ''1'']"] by (intro split_join) (auto simp: ex_evidence_words_def)
  moreover have "read_lines (Some (lines_text ex_evidence_words)) = Inr [join_words [''s'', ''present'', ''1'']]"
    using read_lines_text [of ex_evidence_words, OF ex_words(2)] by (simp add: ex_evidence_words_def kMaxLines_def del: join_words.simps)
  ultimately show ?thesis
    by (simp add: parse_evidence_file_def evidence_directive_def ex_numbers del: join_words.simps)
qed

lemma ex_evidence_built:
  "evidence_build [\<lparr>ee_resource = ''s'', ee_state = EvPresent, ee_generation = 1, ee_digest = zero_digest\<rparr>] = Inr ex_evidence"
  by (simp add: evidence_build_def ex_evidence_def limit_defs)

lemma ex_inputs_loaded:
  "load_inputs id ex_tool ''topology'' ''evidence'' ''policy'' = Inr (ex_topology True, ex_evidence, ex_policy False)"
proof -
  have texts: "text_at ex_tool ''topology'' = Some (write_topology_file (ex_topology True))"
    "text_at ex_tool ''evidence'' = Some (lines_text ex_evidence_words)" "text_at ex_tool ''policy'' = Some (lines_text ex_policy_words)"
    by (simp_all add: text_at_def ex_tool_def file_at_def)
  have "try_result (parse_topology_file id (Some (write_topology_file (ex_topology True)))) topology_build = Inr (ex_topology True)"
    using parse_written_topology [OF ex_topology_wf, of id True] topology_build_view [OF ex_topology_wf]
    by (simp add: ex_topology_def topology_finalize_def ex_nodes_def ex_edges_def kMaxLines_def iterates_def)
  then show ?thesis
    by (simp add: load_inputs_def load_topology_def load_evidence_def load_policy_def texts ex_policy_parsed
        ex_evidence_parsed ex_evidence_built)
qed

lemma ex_offline:
  obtains plan where "offline_plan (ex_topology True) ex_evidence (ex_policy False) 4 = Some (Inr plan)"
    "p_claim plan = ClaimProvenContainment" "p_obligations plan = [''p'']" "p_sources plan = [''s'']"
    "length (boundary_encode (p_boundary plan)) \<le> 100" "contained_resources plan = {''m''}"
proof -
  let ?inputs = "offline_inputs (ex_topology True) ex_evidence (ex_policy False) 4"
  have "valid_inputs ?inputs (ex_topology True) ex_evidence (ex_policy False)" by (rule offline_inputs_valid [OF ex_topology_wf])
  moreover have "\<not> not_confirmed_since_restart (in_freshness ?inputs) ex_evidence" "in_boundary_generation ?inputs \<noteq> 0"
    by (simp_all add: not_confirmed_since_restart_def offline_inputs_def)
  ultimately obtain c where c: "compute_plan ?inputs default_authority 1 = Some (Inr c)"
    "p_claim (pl_plan c) = ClaimProvenContainment" "contained_resources (pl_plan c) = {''m''}"
    "length (boundary_encode (p_boundary (pl_plan c))) \<le> 100"
    using ex_plan_for [of ?inputs False] by (metis (full_types))
  have "offline_plan (ex_topology True) ex_evidence (ex_policy False) 4 = Some (Inr (mark_offline (pl_plan c)))"
    by (simp add: offline_plan_def c(1))
  moreover from offline_plan_computed [OF ex_topology_wf this]
  have "p_obligations (mark_offline (pl_plan c)) = [''p'']" "p_sources (mark_offline (pl_plan c)) = [''s'']"
    by (metis ex_sources(1,3))+
  ultimately show thesis using that c by (simp add: contained_resources_def)
qed

lemma ex_verified_run:
  obtains sys out where "ctl_main id (''verify'' # ex_verify_arguments) sys = Some (0, out, sys)"
proof -
  obtain plan where plan: "offline_plan (ex_topology True) ex_evidence (ex_policy False) 4 = Some (Inr plan)"
    "p_claim plan = ClaimProvenContainment" "p_obligations plan = [''p'']" "p_sources plan = [''s'']"
    "length (boundary_encode (p_boundary plan)) \<le> 100" by (rule ex_offline)
  have free: "fault_free ex_tool" by (simp add: fault_free_def ex_tool_def)
  obtain sys out where "ctl_verify id ex_verify_arguments sys = (0, out, sys)"
    by (rule planned_file_verifies [OF free ex_flags(1), of ex_verify_arguments id "ex_topology True" ex_evidence "ex_policy False" plan])
      (use plan ex_flags(2) ex_inputs_loaded in \<open>simp_all add: claims_containment_def limit_defs\<close>)
  then show thesis using that by (simp add: ctl_main_def)
qed

end
