(* ===== verification/App_Coordinator.thy ===== *)
theory App_Coordinator
  imports App_Ctl Net_Service
begin

section \<open>The coordinator process\<close>

text \<open>
  \<open>apps/coordinator/main.cpp\<close>: the options, the configuration made of them, and the start of the
  server, up to the lines it prints before it serves; then the decision of the accept loop whether
  to go on, and how the process ends. The connections in between are the runs of \<open>server_step\<close>.
\<close>

subsection \<open>Options\<close>

record coordinator_flags =
  ca_token :: string
  ca_store :: string
  ca_in_memory :: bool
  ca_port :: u16
  ca_topology :: string
  ca_policy :: string
  ca_lease_millis :: u64
  ca_confirmation :: bool
  ca_crash_point :: string
  ca_crash_after :: u64

definition no_coordinator_flags :: coordinator_flags where
  "no_coordinator_flags = \<lparr>ca_token = [], ca_store = [], ca_in_memory = False, ca_port = 0, ca_topology = [],
     ca_policy = [], ca_lease_millis = 30000, ca_confirmation = True, ca_crash_point = [], ca_crash_after = 0\<rparr>"

text \<open>\<open>strtoull\<close> has to read a digit and the whole text.\<close>

definition strict_u64 :: "string \<Rightarrow> u64 option" where
  "strict_u64 text =
     (let s = dropWhile is_space text;
          body = (if s \<noteq> [] \<and> (hd s = CHR ''-'' \<or> hd s = CHR ''+'') then tl s else s)
      in if body = [] \<or> \<not> list_all config_digit body then None else Some (strtoull text))"

fun parse_coordinator_flags :: "string list \<Rightarrow> coordinator_flags \<Rightarrow> coordinator_flags option" where
  "parse_coordinator_flags [] f = Some f"
| "parse_coordinator_flags (opt # arguments) f =
     (if opt = ''--in-memory'' then parse_coordinator_flags arguments (f\<lparr>ca_in_memory := True\<rparr>)
      else if opt = ''--no-current-boot-confirmation''
        then parse_coordinator_flags arguments (f\<lparr>ca_confirmation := False\<rparr>)
      else case arguments of
          [] \<Rightarrow> None
        | v # rest \<Rightarrow>
            (if opt = ''--token'' then parse_coordinator_flags rest (f\<lparr>ca_token := v\<rparr>)
             else if opt = ''--store'' then parse_coordinator_flags rest (f\<lparr>ca_store := v\<rparr>)
             else if opt = ''--port'' then
               (case strict_u64 v of None \<Rightarrow> None
                | Some n \<Rightarrow> if n > 65535 then None else parse_coordinator_flags rest (f\<lparr>ca_port := ucast n\<rparr>))
             else if opt = ''--topology'' then parse_coordinator_flags rest (f\<lparr>ca_topology := v\<rparr>)
             else if opt = ''--policy'' then parse_coordinator_flags rest (f\<lparr>ca_policy := v\<rparr>)
             else if opt = ''--lease-millis'' then
               (case strict_u64 v of None \<Rightarrow> None
                | Some n \<Rightarrow> parse_coordinator_flags rest (f\<lparr>ca_lease_millis := n\<rparr>))
             else if opt = ''--crash-point'' then parse_coordinator_flags rest (f\<lparr>ca_crash_point := v\<rparr>)
             else if opt = ''--crash-after'' then
               (case strict_u64 v of None \<Rightarrow> None
                | Some n \<Rightarrow> parse_coordinator_flags rest (f\<lparr>ca_crash_after := n\<rparr>))
             else None))"

subsection \<open>Configuration\<close>

text \<open>The defaults of \<open>RuntimeConfig\<close>; a policy without a generation stands for none.\<close>

definition default_runtime_config :: runtime_config where
  "default_runtime_config = \<lparr>rc_store_root = [], rc_persist = True, rc_durable_commit = True, rc_allow_torn_tail = True,
     rc_policy = empty_policy, rc_topology = empty_spec, rc_topology_generation = 0, rc_lease_millis = 30000,
     rc_require_confirmation = True, rc_max_plans = kMaxRetainedPlans, rc_max_attempts = kMaxRetainedAttempts,
     rc_max_transitions = kMaxRetainedTransitions, rc_max_detections = kMaxRetainedDetections,
     rc_max_authorizations = 64\<rparr>"

definition coordinator_config :: "(line_fields \<Rightarrow> line_fields) \<Rightarrow> coordinator_flags \<Rightarrow> os \<Rightarrow> server_config result" where
  "coordinator_config order f sys =
     (let runtime = default_runtime_config\<lparr>rc_persist := \<not> ca_in_memory f, rc_store_root := ca_store f,
            rc_lease_millis := ca_lease_millis f, rc_require_confirmation := ca_confirmation f\<rparr>
      in try_result (if ca_policy f = [] then Inr (rc_policy runtime) else parse_policy_file (text_at sys (ca_policy f)))
           (\<lambda>policy.
         try_result (if ca_topology f = [] then Inr (rc_topology runtime)
                     else parse_topology_file order (text_at sys (ca_topology f))) (\<lambda>topology.
         Inr \<lparr>sc_runtime = runtime\<lparr>rc_policy := policy, rc_topology := topology\<rparr>, sc_token = ca_token f,
              sc_max_sessions = kMaxSessions, sc_crash_point = ca_crash_point f, sc_crash_after = ca_crash_after f\<rparr>)))"

subsection \<open>The process\<close>

text \<open>The listener reports the port the operating system bound, or why it did not.\<close>

definition startup_lines :: "u16 \<Rightarrow> server \<Rightarrow> string list" where
  "startup_lines port sv =
     [''STARTUP '' @ startup_to_json (rs_startup (fst (sv_world sv))), ''LISTENING '' @ dec_string (unat port), ''READY'']"

definition coordinator_start :: "(line_fields \<Rightarrow> line_fields) \<Rightarrow> unit result \<Rightarrow> u16 result \<Rightarrow> boot_id \<Rightarrow>
    string list \<Rightarrow> os \<Rightarrow> (nat + string list \<times> server) \<times> os" where
  "coordinator_start order socket_layer listener boot argv sys =
     (case parse_coordinator_flags argv no_coordinator_flags of
        None \<Rightarrow> (Inl 2, sys)
      | Some f \<Rightarrow>
          if ca_token f = [] then (Inl 2, sys)
          else if \<not> ca_in_memory f \<and> ca_store f = [] then (Inl 2, sys)
          else (case coordinator_config order f sys of
              Inl _ \<Rightarrow> (Inl 1, sys)
            | Inr config \<Rightarrow>
                (case server_start config socket_layer (map_sum id (\<lambda>_. ()) listener) boot sys of
                   (Inl _, sys') \<Rightarrow> (Inl 1, sys')
                 | (Inr sv, sys') \<Rightarrow> (Inr (startup_lines (projr listener) sv, sv), sys'))))"

text \<open>
  One round of the accept loop. The flag of shutting down is read before the acceptance and again
  when the acceptance fails; \<open>None\<close> goes on with the accepted connection.
\<close>

definition serve_round :: "bool \<Rightarrow> socket result \<Rightarrow> bool \<Rightarrow> unit result option" where
  "serve_round shutting_before accepted shutting_after =
     (if shutting_before then Some (Inr ())
      else case accepted of
          Inr _ \<Rightarrow> None
        | Inl e \<Rightarrow> if shutting_after \<or> scode e = Interrupted then Some (Inr ()) else Some (Inl e))"

definition coordinator_end :: "unit result \<Rightarrow> nat \<times> string list" where
  "coordinator_end served = (case served of Inl _ \<Rightarrow> (1, []) | Inr _ \<Rightarrow> (0, [''STOPPED'']))"

subsection \<open>A coordinator that started\<close>

text \<open>
  It is a server without a connection, for the token and the persistence its options name, and every
  theorem on the runs of a server is one on its life.
\<close>

lemma coordinator_started:
  assumes "coordinator_start order socket_layer listener boot argv sys = (Inr (out, sv), sys')"
  obtains f config port where "parse_coordinator_flags argv no_coordinator_flags = Some f"
    "coordinator_config order f sys = Inr config" "listener = Inr port" "out = startup_lines port sv"
    "server_run config 0 sv" "sv_config sv = config" "sc_token config = ca_token f" "ca_token f \<noteq> []"
    "rc_persist (sc_runtime config) \<longleftrightarrow> \<not> ca_in_memory f" "sv_sessions sv = Map.empty"
proof -
  note start = assms [unfolded coordinator_start_def]
  obtain f where p: "parse_coordinator_flags argv no_coordinator_flags = Some f" using start by (auto split: option.split_asm)
  then have f: "ca_token f \<noteq> []" "\<not> (\<not> ca_in_memory f \<and> ca_store f = [])" using start by (auto split: if_split_asm)
  obtain config where c: "coordinator_config order f sys = Inr config"
    using start p f by (cases "coordinator_config order f sys") simp_all
  let ?r = "server_start config socket_layer (map_sum id (\<lambda>_. ()) listener) boot sys"
  have r: "?r = (Inr sv, sys')" "out = startup_lines (projr listener) sv"
    using start p f c by (cases ?r; cases "fst ?r"; simp)+
  have config: "sc_token config = ca_token f" "rc_persist (sc_runtime config) \<longleftrightarrow> \<not> ca_in_memory f"
    using c by (auto simp: coordinator_config_def Let_def try_result_Inr_iff)
  obtain port where "listener = Inr port"
    using r(1) by (cases listener) (auto simp: server_start_def split: sum.splits prod.splits)
  moreover have "sv_config sv = config" "sv_sessions sv = Map.empty" by (rule server_start_cases [OF r(1)]; simp)+
  ultimately show thesis using that [OF p c] r(2) config f(1) server_run.started [OF r(1)] by auto
qed

lemma coordinator_refuses_options:
  "parse_coordinator_flags argv no_coordinator_flags = None \<Longrightarrow>
   coordinator_start order socket_layer listener boot argv sys = (Inl 2, sys)"
  by (simp add: coordinator_start_def)

text \<open>
  A number that starts with a minus is accepted and wraps. The lease it gives overflows when it is added
  to the clock, so every authorization is issued after its own end.
\<close>

lemma negative_lease:
  "parse_coordinator_flags [''--lease-millis'', ''-1''] no_coordinator_flags =
     Some (no_coordinator_flags\<lparr>ca_lease_millis := -1\<rparr>)"
  by (simp add: strict_u64_def strtoull_def is_space_def config_digit_def less_eq_char_def Let_def)

lemma negative_lease_ends_before_it_begins:
  assumes "authorize now w = (Inr a, w')" and "rc_lease_millis (rs_config (fst w)) = -1" and "0 < now"
  shows "ar_expires_at a < ar_issued_at a"
proof -
  have "ar_issued_at a = now" "ar_expires_at a = now - 1"
    using assms(1,2) by (cases w; auto simp: authorize_def Let_def split: if_splits prod.splits)+
  moreover have "now - 1 < now" using assms(3) by (simp add: word_less_nat_alt unat_minus_one word_gt_0 unat_gt_0)
  ultimately show ?thesis by simp
qed

end
