(* ===== verification/Spec_App.thy ===== *)
theory Spec_App
  imports App_Scenario App_Offline App_Coordinator Net_Example
begin

section \<open>Properties of the command-line programs\<close>

text \<open>
  What holds of the configuration text the programs read and write, and of the scenario client:
  it learns what the coordinator recorded, and its report and exit status account for every command; and
  of the offline tool: what it verifies is sound, and it verifies what it planned.
\<close>

text \<open>C29: An exported topology parses back: the text written for a well-formed topology is read, line by
  line and field by field, to a specification from which building gives the same topology, in
  whichever order the fields of a line are visited, while the file keeps within the line bound.\<close>

theorem exported_topology_parses_back:
  assumes "wf_topology t" and "length (t_nodes t) + length (t_edges t) < kMaxLines" and "iterates order"
  shows "try_result (parse_topology_file order (Some (write_topology_file t))) topology_build = Inr t"
  using parse_written_topology [OF assms(1,3,2)] topology_build_view [OF assms(1)] by simp

theorem exported_topology_parses_back_witness:
  "try_result (parse_topology_file rev (Some (write_topology_file (ex_topology True)))) topology_build = Inr (ex_topology True)"
proof -
  have "wf_topology (ex_topology True)" using topology_build_wf [OF ex_topology_build] .
  then show ?thesis
    by (rule exported_topology_parses_back)
      (simp_all add: ex_topology_def topology_finalize_def ex_nodes_def ex_edges_def kMaxLines_def iterates_def)
qed

text \<open>C30: The client reads back what the coordinator writes: searching a document of the coordinator for
  its key finds the identity of the authorization, the sequence of the attempt, the claim of the plan and
  the status of the decision; and what it reads of the current boundary is what the coordinator
  compares a transition request with, so a request made from it fails neither of these comparisons.\<close>

theorem client_reads_what_the_coordinator_writes:
  "json_field_u64 (authorization_to_json a) ''authorization_id'' = Some (ar_id a) \<and>
   json_field_u64 (attempt_to_json t) ''attempt_sequence'' = Some (ai_sequence (at_id t)) \<and>
   json_string_field (plan_to_json p) ''claim'' = claim_to_string (p_claim p) \<and>
   json_string_field (transition_to_json d) ''status'' = transition_status_to_string (td_status d) \<and>
   (case dispatch OpCurrentBoundary [] clock w of None \<Rightarrow> False
    | Some (response, w') \<Rightarrow> w' = w \<and> read_boundary (Inr response) =
        (case rs_boundary (fst w) of None \<Rightarrow> (0, True) | Some b \<Rightarrow> (b_generation b, False)))"
  using authorization_id_read attempt_sequence_read claim_read status_read boundary_read
  by (simp add: dispatch_def)

text \<open>C19: An authorized client holds what the coordinator issued: when a connected client asks for an
  authorization, however both directions are cut into reads, the coordinator issues one and the
  client keeps its identity, or the coordinator refuses and the client keeps the identity it had and
  a failure to be claimed; afterwards both ends are ready for the next command.\<close>

theorem client_holds_the_issued_authorization:
  assumes "connected i sv (ss_client s)" and "cl_sequence (ss_client s) < cl_sequence (ss_client s) + 1"
    and "sc_crash_point (sv_config sv) = []"
    and "sendable (client_request_frame OpAuthorize [] (ss_client s)) (so_room (cl_socket (ss_client s)))"
    and "2000 \<le> server_room i sv" and "readable chunks"
    and "concat chunks = encode_frame (client_request_frame OpAuthorize [] (ss_client s))"
    and "authorize (fst clock) (sv_world sv) = (r, w)" and "readable answer"
    and "concat answer = encode_frame
      (response_frame (client_request_frame OpAuthorize [] (ss_client s)) (answered OpAuthorize authorization_to_json r))"
  shows "\<exists>n sv' s'. iterations clock i n (arrives i chunks sv) = Some sv' \<and> sv_world sv' = w \<and>
    command_authorize (s\<lparr>ss_client := client_receives answer (ss_client s)\<rparr>) = (\<exists>a. r = Inr a, s') \<and>
    connected i sv' (ss_client s') \<and>
    (case r of Inl _ \<Rightarrow> ss_pending_failure s' \<and> ss_authorization s' = ss_authorization s
     | Inr a \<Rightarrow> ss_authorization s' = ar_id a)"
  using authorize_round_trip [OF assms] by metis

theorem client_holds_the_issued_authorization_witness:
  "\<exists>n sv' s' answer. iterations (0, 0) 0 n (arrives 0
       [encode_frame (client_request_frame OpAuthorize [] ex_client)] ex_serving) = Some sv' \<and>
     command_authorize ((new_client_session ex_client)\<lparr>ss_client := client_receives answer ex_client\<rparr>) = (True, s') \<and>
     connected 0 sv' (ss_client s') \<and> ss_authorization s' = 1"
proof -
  let ?s = "new_client_session ex_client" let ?f = "client_request_frame OpAuthorize [] ex_client"
  obtain a w where a: "authorize (fst (0 :: u64, 0 :: u64)) (sv_world ex_serving) = (Inr a, w)" "ar_id a = 1"
    by (auto simp: ex_connected(2) authorize_def ex_open Let_def)
  let ?g = "response_frame ?f (answered OpAuthorize authorization_to_json (Inr a))"
  have c: "ss_client ?s = ex_client" "so_room (cl_socket ex_client) = 10000" "cl_sequence ex_client = 0"
    by (simp_all add: new_client_session_def ex_client_def open_socket_def)
  have len: "length (encode_response (answered OpAuthorize authorization_to_json (Inr a))) \<le> 1500"
    by (rule authorize_answer_fits(2) [OF a(1)])
  have f: "sendable ?f 10000" "length (encode_frame ?f) \<le> 4096" "length (encode_frame ?g) \<le> 4096"
    using len by (simp_all add: sendable_def fits_chunks_def client_request_frame_def encode_request_def length_fields
        response_frame_def kReadChunkBytes_def kMaxFramePayloadBytes_def)
  have "\<exists>n sv' s'. iterations (0, 0) 0 n (arrives 0 [encode_frame ?f] ex_serving) = Some sv' \<and> sv_world sv' = w \<and>
      command_authorize (?s\<lparr>ss_client := client_receives [encode_frame ?g] (ss_client ?s)\<rparr>) = (\<exists>b. Inr a = Inr b, s') \<and>
      connected 0 sv' (ss_client s') \<and>
      (case Inr a of Inl _ \<Rightarrow> ss_pending_failure s' \<and> ss_authorization s' = ss_authorization ?s
       | Inr b \<Rightarrow> ss_authorization s' = ar_id b)"
    using client_holds_the_issued_authorization [of 0 ex_serving ?s "[encode_frame ?f]" "(0, 0)" "Inr a" w "[encode_frame ?g]"]
      readable_frame [OF f(2)] readable_frame [OF f(3)] ex_connected f a c by simp
  then show ?thesis using a(2) c(1) by auto
qed

text \<open>C32: A run of the scenario client accounts for every command: whatever the connection, the files and
  the coordinator do, each command line prints exactly one step and is counted once; an expectation
  that failed is never forgotten; and a failure of the last command, unless it is a transition, makes
  the program exit with status one.\<close>

theorem scenario_accounts_for_every_command:
  "(let s' = run_scenario order files lines s
    in ss_steps s' = ss_steps s + length (scenario_commands lines) \<and>
       (\<exists>steps. length steps = length (scenario_commands lines) \<and> ss_output s' = ss_output s @ steps) \<and>
       (ss_expectation_failed s \<longrightarrow> exit_code s' = 1) \<and>
       (\<forall>line parts. parts = split_words (strip_comment line) \<and> parts \<noteq> [] \<and> parts ! 0 \<noteq> ''transition'' \<and>
          \<not> fst (run_command order files parts s') \<longrightarrow> exit_code (run_scenario order files (lines @ [line]) s) = 1))"
  using run_scenario_reports [of order files lines s] last_failure_exits [of _ _ order files lines s]
  by (simp add: Let_def exit_code_def)

theorem scenario_accounts_for_every_command_witness:
  "ss_steps (run_scenario id Map.empty [''expect denied'', ''# nothing'', ''expect ok''] (new_client_session ex_client)) = 2 \<and>
   exit_code (run_scenario id Map.empty [''expect denied'', ''expect ok''] (new_client_session ex_client)) = 1"
proof -
  let ?s = "new_client_session ex_client"
  have w: "split_words (strip_comment ''expect denied'') = [''expect'', ''denied'']"
    "split_words (strip_comment ''expect ok'') = [''expect'', ''ok'']" "split_words (strip_comment ''# nothing'') = []"
    by code_simp+
  have t: "ss_expectation_failed (snd (run_command id Map.empty [''expect'', ''denied''] ?s))"
    by (simp add: run_command_def command_expect_def print_line_def new_client_session_def Let_def)
  have "exit_code (run_scenario id Map.empty [''expect ok''] (snd (run_command id Map.empty [''expect'', ''denied''] ?s))) = 1"
    using scenario_accounts_for_every_command [of id Map.empty "[''expect ok'']" "snd (run_command id Map.empty [''expect'', ''denied''] ?s)"] t
    by (simp add: Let_def)
  moreover have "ss_steps ?s = 0" by (simp add: new_client_session_def)
  ultimately show ?thesis
    using scenario_accounts_for_every_command [of id Map.empty "[''expect denied'', ''# nothing'', ''expect ok'']" ?s] w
    by (simp add: Let_def scenario_commands_def)
qed

text \<open>C20: A plan file that the offline tool verifies is sound for the topology and the policy it was given:
  when the command exits with status zero, the inputs and the plan file were read, and unless the plan
  records no sources or no obligations, and then contains nothing, no recorded source reaches a recorded
  obligation around the members of its boundary, which are resources of the topology that may be contained
  and no more than the policy admits.\<close>

theorem offline_verification_is_sound:
  assumes "ctl_main order (''verify'' # arguments) sys = Some (0, out, sys')"
  shows "\<exists>f t v policy bytes plan. parse_verify_flags arguments no_verify_flags = Some f \<and>
    load_inputs order sys (vg_topology f) (vg_evidence f) (vg_policy f) = Inr (t, v, policy) \<and>
    fst (read_file (vg_plan f) kMaxRecordPayloadBytes sys) = Inr bytes \<and> plan_decode bytes = Inr plan \<and>
    out = [verdict_document t policy plan] \<and>
    (if p_sources plan = [] \<or> p_obligations plan = [] then b_members (p_boundary plan) = []
     else (\<forall>r. exposed t (p_sources plan) (contained_resources plan) r \<longrightarrow> r \<notin> set (p_obligations plan)) \<and>
       length (b_members (p_boundary plan)) \<le> unat (cp_max_members policy) \<and>
       (\<forall>m \<in> set (b_members (p_boundary plan)). \<exists>i < node_count t. ns_id (t_nodes t ! i) = bm_resource m \<and>
         (ns_containable (t_nodes t ! i) \<or> cp_allow_protected policy \<and> bm_resource m \<in> set (p_obligations plan))))"
proof -
  have "ctl_verify order arguments sys = (0, out, sys')" using assms by (simp add: ctl_main_def)
  then show ?thesis by (elim ctl_verify_sound, intro exI conjI) assumption+
qed



theorem offline_verification_is_sound_witness:
  "\<exists>sys out f t v policy bytes plan. ctl_main id (''verify'' # ex_verify_arguments) sys = Some (0, out, sys) \<and>
     parse_verify_flags ex_verify_arguments no_verify_flags = Some f \<and>
     load_inputs id sys (vg_topology f) (vg_evidence f) (vg_policy f) = Inr (t, v, policy) \<and>
     fst (read_file (vg_plan f) kMaxRecordPayloadBytes sys) = Inr bytes \<and> plan_decode bytes = Inr plan"
proof -
  obtain sys out where "ctl_main id (''verify'' # ex_verify_arguments) sys = Some (0, out, sys)"
    by (rule ex_verified_run)
  from offline_verification_is_sound [OF this] this show ?thesis by blast
qed

end
