(* ===== verification/Spec2Isabelle.thy ===== *)
theory Spec2Isabelle
  imports Spec_Planner Spec_Solver Spec_Model Spec_Store Spec_Runtime Spec_Net Spec_App
begin

text \<open>
  Failure Containment Fabric Network (FCFN): a verification library.

  \<^bold>\<open>The program.\<close> A coordinator holds a topology of resources and dependency edges,
  generation-bound evidence about which resources have failed, and a policy. From these it
  computes a containment plan: a minimum weight set of resources that separates every failure
  from every protected obligation, or a proof that none exists. A plan becomes the boundary in
  force only through an authorized transition; an enforcement plane applies the boundary, and
  the coordinator tracks whether the effect was verified. Every decision is a record of a
  durable log; a restart recovers the decisions and none of the authority.

  \<^bold>\<open>How the parts interact.\<close> Bytes come in through \<open>core/canonical.hpp\<close>, whose reader every
  decoder of the model and the runtime uses. \<open>engine/planner.cpp\<close> builds a cut problem
  (\<open>engine/cut.cpp\<close>) over the propagation graph (\<open>engine/graph.cpp\<close>), calls a solver,
  verifies its answer independently and seals the plan. \<open>runtime/coordinator.cpp\<close> and
  \<open>runtime/executor.cpp\<close> own the state, call the planner, and commit each decision to the
  store (\<open>store/store.cpp\<close>) before they change memory; on start the store hands back a
  snapshot and the frames after it, and the coordinator replays them. \<open>net/server.cpp\<close> exposes
  the operations to sessions: a client (\<open>net/client.cpp\<close>) shows its token, is told its session
  and the epoch, and sends requests in frames (\<open>net/frame.cpp\<close>, \<open>net/messages.cpp\<close>); the session
  checks them, dispatches them to the runtime and answers with a status, a JSON document and a result.

  \<^bold>\<open>Theories and code.\<close>

  \<^item> \<open>Fcfn_Prelude\<close>: machine integers at their width, results as sums, the
    standard-library operations the code uses (stable sort, lower bound, binary search), byte
    masks, and the collections of rewrite rules the components extend.
  \<^item> \<open>Core_Status\<close>, \<open>Core_Ids\<close>, \<open>Core_Hash\<close>, \<open>Core_Decimal\<close>, \<open>Core_Canonical\<close>: \<open>src/core\<close>
    and \<open>include/fcfn/core\<close>: status codes, limits, identifiers and their grammar, checked
    arithmetic, FNV digests, CRC-32C, the canonical writer and the sticky reader. The locales
    \<open>token_map\<close>, \<open>reader_op\<close>, \<open>field_codec\<close>, \<open>element_codec\<close> and \<open>document_codec\<close> are the contracts
    of token tables, reader operations and codecs; every codec of the program interprets them.
  \<^item> \<open>Model_Topology\<close>, \<open>Model_Policy\<close>, \<open>Model_Evidence\<close>, \<open>Model_Authority\<close>, \<open>Model_Boundary\<close>,
    \<open>Model_Explanation\<close>, \<open>Model_Plan\<close>, \<open>Model_Attempt\<close>: \<open>src/model\<close>, one theory for a file (attempt and
    transition share one): records, validation, canonical construction, codecs and digests.
  \<^item> \<open>Engine_Graph\<close>, \<open>Engine_Search\<close>, \<open>Engine_Problem\<close>, \<open>Engine_Cut\<close>, \<open>Engine_Exact\<close>,
    \<open>Engine_Heuristic\<close>, \<open>Engine_Necessity\<close>, \<open>Engine_Planner\<close>: \<open>src/engine\<close>: adjacency and reachability
    loops, the cut problem and its verifier, branch and bound, the greedy solver and the
    dispatch, the analysis of necessity, and \<open>compute_plan\<close>. \<open>Engine_Refinement\<close> and
    \<open>Engine_Safety\<close> lift their facts from node indices to resources.
  \<^item> \<open>Store_Record\<close>, \<open>Store_Files\<close>, \<open>Store_Log\<close>, \<open>Store_Durable\<close>: \<open>src/store\<close>: record framing,
    the file helpers over an explicit file system whose operations take scripted faults, the
    log replay, and the store's open, commit, snapshot, rotation and retention.
    \<open>Store_Recovery\<close>, \<open>Store_Crash\<close> and \<open>Store_Faults\<close> hold what the next process finds after
    a success, a fault or a crash.
  \<^item> \<open>Runtime_State\<close>, \<open>Runtime_Codec\<close>, \<open>Runtime_Durable\<close>, \<open>Runtime_Snapshot\<close>,
    \<open>Runtime_Coordinator\<close>, \<open>Runtime_Executor\<close>, \<open>Runtime_Startup\<close>: \<open>src/runtime\<close>: the state, the
    record codecs, the snapshot, the operations of the coordinator and of the apply protocol as
    functions on the pair of state and operating system, and recovery.
    \<open>Runtime_Invariant\<close> has the step relation \<open>rt_step\<close>, the reachable states and the locale of
    their invariants; \<open>Runtime_Safety\<close>, \<open>Runtime_Boundaries\<close>, \<open>Runtime_Effect\<close>,
    \<open>Runtime_Generations\<close> and \<open>Runtime_Replay\<close> prove what steps can change and that the log
    carries memory; \<open>Runtime_Findings\<close> has the behaviours that break the program's intent.
    \<open>Runtime_Incarnation\<close> shows that the epoch and the boot identity stay for a whole run.
  \<^item> \<open>Core_Json\<close>, \<open>Core_Json_Grammar\<close>, \<open>Model_Render\<close>, \<open>Runtime_Render\<close>: \<open>core/json.cpp\<close> and the
    \<open>render()\<close> and \<open>to_json()\<close> functions of \<open>src/model\<close> and \<open>coordinator.cpp\<close>; a datatype of JSON
    values with a parser, against which every document is checked.
  \<^item> \<open>Net_Frame\<close>, \<open>Net_Stream\<close>, \<open>Net_Messages\<close>, \<open>Net_Server\<close>, \<open>Net_Session\<close>, \<open>Net_Client\<close>:
    \<open>src/net\<close>: the frame codec and the sticky stream, the payload codecs, the dispatch of
    operations, the session loops and the server around them, and the client. A socket is what its
    reads will return, how much it still takes, and what was written to it.
    \<open>Net_Documents\<close> proves the documents of responses to be JSON; \<open>Net_Service\<close> has the step relation
    \<open>server_step\<close> and its invariants; \<open>Net_Call\<close> composes a client with a session.
  \<^item> \<open>App_Config\<close>, \<open>App_Client\<close>: \<open>apps/support/config_text.cpp\<close> and \<open>apps/client/main.cpp\<close>: the
    configuration files with their parsers, the exported topology, and the scenario client, whose
    files are a function from paths to texts and whose output is kept in its state. \<open>App_Export\<close>
    proves that an exported topology parses back; \<open>App_Documents\<close> and \<open>App_Scenario\<close> what the client
    reads out of the coordinator's documents and how a run accounts for its commands.
  \<^item> \<open>App_Ctl\<close>: \<open>apps/ctl/main.cpp\<close>, the offline tool: planning, verifying and inspecting a store
    as functions of the arguments and the operating system. \<open>Engine_Storable\<close> shows which plans survive
    their own codec, and \<open>App_Offline\<close> what a verified plan file means and that planned files verify.
  \<^item> \<open>App_Coordinator\<close>: \<open>apps/coordinator/main.cpp\<close>: the options and the configuration made of them;
    a process that started is a run of \<open>server_step\<close>.
  \<^item> \<open>Examples\<close>, \<open>Store_Example\<close>, \<open>Runtime_Example\<close>, \<open>Net_Example\<close>: concrete values on which the properties
    are exercised.
  \<^item> \<open>Spec_Planner\<close>, \<open>Spec_Solver\<close>, \<open>Spec_Model\<close>, \<open>Spec_Store\<close>, \<open>Spec_Runtime\<close>, \<open>Spec_Net\<close>,
    \<open>Spec_App\<close>: the properties, each with a witness where it has hypotheses.

  \<^bold>\<open>State and operations.\<close> A class is a record, an enumeration a datatype with the source's
  constructors, \<open>Result\<close> a sum with the failure on the left, \<open>std::uint64_t\<close> a 64-bit word whose
  addition wraps, \<open>std::vector\<close> a list. An operation of the runtime has the type state and
  operating system to result, state and operating system; every error return is a branch. The
  mutex of the runtime makes one operation one step. The steady clock is an argument of the
  operations that read it, the random boot identity an argument of \<open>runtime_open\<close>. A session is a
  state machine: one iteration of its loop, or one shutdown, acceptance or departure of a
  connection, is one step of the server, and any interleaving of the sessions is a run.

  \<^bold>\<open>What the lemmas show.\<close> For the planner: what a sealed plan claims is true of the topology and
  the evidence it was computed from; a proven optimal plan is a minimum among all separators, an
  infeasible claim excludes every separator, and the search ends. For the codecs: what is encoded
  is decoded, and what is decoded is well formed and sealed. For the store: records are read back
  or refused, opening recovers a store after a crash at any point of a commit or a snapshot, with
  the exceptions that \<open>Store_Faults\<close> proves. For the runtime: an invariant of all reachable
  states, who may change the boundary and when, what a verified effect rests on, what a restart
  discards, and that replay of the log gives back memory. For the service: only a valid request of
  an admitted session changes the runtime; sessions are admitted by token, with new identities and
  below the bound; frames survive any cut of the stream and damage is refused; a call returns what
  the dispatch did for it. For the programs: an exported topology is read back as the same topology, the client
  holds the identities the coordinator issued, and its report and exit status account for every command; what
  the offline tool verifies is contained, and it verifies what it planned.

  \<^bold>\<open>Bounds and fuel.\<close> The exact search is a partial function into an option and is proved to
  return; traversals are total with the number of unmarked nodes as measure. Limits are the constants of
  \<open>core/limits.hpp\<close>. A sequence of \<open>k\<close> durable steps needs room for \<open>2 * k\<close> records in the log, the
  most an operation commits in each step.

  \<^bold>\<open>Not modelled.\<close> The operating-system calls that create, bind and accept sockets
  (\<open>net/socket.cpp\<close>): their outcome is an argument; the creation and joining of session threads, which
  decide nothing but the order of steps, and what a crash point prints;
  the usage texts and messages on the error streams of the programs; \<open>examples\<close>; the tests, scripts and build files; \<open>sync_file\<close>, which nothing calls,
  and the temporary sibling of an atomic write, which no reader opens; the clock and the
  randomness of boot identities.
\<close>

end
